(* ===== verification/Prelude.thy ===== *)
theory Prelude
  imports Main "HOL-Library.Word" "HOL-Library.AList"
    "HOL-Library.List_Lexorder" "HOL-Library.Char_ord"
begin

text \<open>
  Shared vocabulary of the development: the machine types, the part of the Go standard
  library (\<^verbatim>\<open>strings\<close>, \<^verbatim>\<open>strconv\<close>, maps) that the
  sources under \<^verbatim>\<open>src/internal\<close> call, and the generic lemmas the
  component theories use.

  Go strings and byte slices are byte sequences. A string is a \<open>string\<close> (a list of
  8-bit characters), a byte slice is a list of \<open>8 word\<close>; \<open>bytes_of\<close> and
  \<open>string_of\<close> are the two conversions Go writes as \<open>[]byte(s)\<close> and
  \<open>string(b)\<close>. White space is that of Go, multi-byte runes included. Case folding is
  the ASCII part of Go's: bytes above 127 are left alone, where Go also folds non-ASCII letters
  (the results are compared with ASCII text, which only U+212A and U+0130 can reach).

  A Go map is an association list with distinct keys. The order of the list is the
  iteration order of one particular run; the theorems quantify over every list, hence over
  every order.
\<close>

unbundle bit_operations_syntax

named_theorems go_string \<open>unfolding of the string helpers\<close>
named_theorems wire_simps \<open>decoding what was just encoded\<close>

section \<open>Machine types\<close>

type_synonym byte = "8 word"
type_synonym bytes = "8 word list"
type_synonym u16 = "16 word"
type_synonym u32 = "32 word"
type_synonym u64 = "64 word"
type_synonym ('k, 'v) gomap = "('k \<times> 'v) list"

definition byte_of :: "char \<Rightarrow> byte" where
  "byte_of c = of_nat (of_char c)"

definition char_of_byte :: "byte \<Rightarrow> char" where
  "char_of_byte b = char_of (unat b)"

definition bytes_of :: "string \<Rightarrow> bytes" where
  "bytes_of s = map byte_of s"

definition string_of :: "bytes \<Rightarrow> string" where
  "string_of b = map char_of_byte b"

lemma of_char_less_256 [simp]: "(of_char c :: nat) < 256"
  by (metis char_of_char of_char_of mod_less_divisor zero_less_numeral)

lemma unat_byte_of [simp]: "unat (byte_of c) = of_char c"
  by (simp add: byte_of_def unat_of_nat)

lemma char_of_byte_of [simp]: "char_of_byte (byte_of c) = c"
  by (simp add: char_of_byte_def)

lemma byte_of_char_of [simp]: "byte_of (char_of_byte b) = b"
proof -
  have "unat b < 256"
    using unsigned_less [of b, where 'a = nat] by simp
  then show ?thesis
    by (simp add: byte_of_def char_of_byte_def)
qed

lemma string_of_bytes_of [simp]: "string_of (bytes_of s) = s"
  by (simp add: string_of_def bytes_of_def comp_def)

lemma bytes_of_string_of [simp]: "bytes_of (string_of b) = b"
  by (simp add: string_of_def bytes_of_def comp_def)

lemma length_bytes_of [simp]: "length (bytes_of s) = length s"
  by (simp add: bytes_of_def)

lemma length_string_of [simp]: "length (string_of b) = length b"
  by (simp add: string_of_def)

lemma bytes_of_append [simp]: "bytes_of (s @ t) = bytes_of s @ bytes_of t"
  by (simp add: bytes_of_def)

lemma string_of_append [simp]: "string_of (s @ t) = string_of s @ string_of t"
  by (simp add: string_of_def)

lemma bytes_of_Nil [simp]: "bytes_of [] = []"
  by (simp add: bytes_of_def)

lemma string_of_Nil [simp]: "string_of [] = []"
  by (simp add: string_of_def)

section \<open>Package strings\<close>

definition is_space :: "char \<Rightarrow> bool" where
  "is_space c \<longleftrightarrow> c = CHR '' '' \<or> c = CHR 0x09 \<or> c = CHR 0x0A \<or> c = CHR 0x0B
     \<or> c = CHR 0x0C \<or> c = CHR 0x0D"

definition trim_right :: "(char \<Rightarrow> bool) \<Rightarrow> string \<Rightarrow> string" where
  "trim_right p s = rev (dropWhile p (rev s))"

definition has_prefix :: "string \<Rightarrow> string \<Rightarrow> bool" where
  "has_prefix s p \<longleftrightarrow> take (length p) s = p"

definition has_suffix :: "string \<Rightarrow> string \<Rightarrow> bool" where
  "has_suffix s p \<longleftrightarrow> has_prefix (rev s) (rev p)"

text \<open>The UTF-8 encodings of the runes of \<^verbatim>\<open>unicode.IsSpace\<close>, and
  \<^verbatim>\<open>strings.TrimSpace\<close>: remove them from the front, then from the back.\<close>

definition space_runes :: "string list" where
  "space_runes =
    [[CHR '' ''], [CHR 0x09], [CHR 0x0A], [CHR 0x0B], [CHR 0x0C], [CHR 0x0D],
     [CHR 0xC2, CHR 0x85], [CHR 0xC2, CHR 0xA0], [CHR 0xE1, CHR 0x9A, CHR 0x80],
     [CHR 0xE2, CHR 0x80, CHR 0x80], [CHR 0xE2, CHR 0x80, CHR 0x81],
     [CHR 0xE2, CHR 0x80, CHR 0x82], [CHR 0xE2, CHR 0x80, CHR 0x83],
     [CHR 0xE2, CHR 0x80, CHR 0x84], [CHR 0xE2, CHR 0x80, CHR 0x85],
     [CHR 0xE2, CHR 0x80, CHR 0x86], [CHR 0xE2, CHR 0x80, CHR 0x87],
     [CHR 0xE2, CHR 0x80, CHR 0x88], [CHR 0xE2, CHR 0x80, CHR 0x89],
     [CHR 0xE2, CHR 0x80, CHR 0x8A], [CHR 0xE2, CHR 0x80, CHR 0xA8],
     [CHR 0xE2, CHR 0x80, CHR 0xA9], [CHR 0xE2, CHR 0x80, CHR 0xAF],
     [CHR 0xE2, CHR 0x81, CHR 0x9F], [CHR 0xE3, CHR 0x80, CHR 0x80]]"

function trim_front :: "string list \<Rightarrow> string \<Rightarrow> string" where
  "trim_front ps s =
     (case find (\<lambda>p. p \<noteq> [] \<and> has_prefix s p) ps of None \<Rightarrow> s
      | Some p \<Rightarrow> trim_front ps (drop (length p) s))"
  by pat_completeness auto
termination
proof (relation "measure (\<lambda>(ps, s). length s)", simp)
  fix ps :: "string list" and s p
  assume "find (\<lambda>p. p \<noteq> [] \<and> has_prefix s p) ps = Some p"
  then have "p \<noteq> []" "take (length p) s = p"
    by (auto simp: find_Some_iff has_prefix_def)
  moreover from this have "s \<noteq> []" by auto
  ultimately show "((ps, drop (length p) s), ps, s) \<in> measure (\<lambda>(ps, s). length s)"
    by simp
qed

declare trim_front.simps [simp del]

definition trim_space :: "string \<Rightarrow> string" where
  "trim_space s = rev (trim_front (map rev space_runes) (rev (trim_front space_runes s)))"

definition cut_prefix :: "string \<Rightarrow> string \<Rightarrow> string option" where
  "cut_prefix s p = (if has_prefix s p then Some (drop (length p) s) else None)"

definition trim_prefix :: "string \<Rightarrow> string \<Rightarrow> string" where
  "trim_prefix s p = (if has_prefix s p then drop (length p) s else s)"

fun contains_str :: "string \<Rightarrow> string \<Rightarrow> bool" where
  "contains_str [] p = (p = [])"
| "contains_str (c # s) p = (has_prefix (c # s) p \<or> contains_str s p)"

definition contains_any :: "string \<Rightarrow> string \<Rightarrow> bool" where
  "contains_any s cs = list_ex (\<lambda>c. c \<in> set cs) s"

fun split_char :: "char \<Rightarrow> string \<Rightarrow> string list" where
  "split_char d [] = [[]]"
| "split_char d (c # s) =
     (if c = d then [] # split_char d s
      else (case split_char d s of [] \<Rightarrow> [[c]] | w # ws \<Rightarrow> (c # w) # ws))"

fun join_with :: "string \<Rightarrow> string list \<Rightarrow> string" where
  "join_with sep [] = []"
| "join_with sep [w] = w"
| "join_with sep (w # ws) = w @ sep @ join_with sep ws"

definition lower_char :: "char \<Rightarrow> char" where
  "lower_char c = (if CHR ''A'' \<le> c \<and> c \<le> CHR ''Z'' then char_of ((of_char c :: nat) + 32) else c)"

definition to_lower :: "string \<Rightarrow> string" where
  "to_lower s = map lower_char s"

definition EqualFold :: "string \<Rightarrow> string \<Rightarrow> bool" where
  "EqualFold a b \<longleftrightarrow> to_lower a = to_lower b"

text \<open>\<open>strings.IndexByte\<close> and \<open>strings.LastIndexAny\<close>, with \<open>None\<close> for Go's \<open>-1\<close>.\<close>

fun index_byte :: "string \<Rightarrow> char \<Rightarrow> nat option" where
  "index_byte [] d = None"
| "index_byte (c # s) d = (if c = d then Some 0 else map_option Suc (index_byte s d))"

text \<open>The part of a string after the last character of a set: \<open>s[LastIndexAny(s, cs)+1:]\<close>.\<close>

definition after_last_any :: "string \<Rightarrow> string \<Rightarrow> string" where
  "after_last_any s cs = rev (takeWhile (\<lambda>c. c \<notin> set cs) (rev s))"

definition space_len :: "string \<Rightarrow> nat" where
  "space_len s = (case find (has_prefix s) space_runes of None \<Rightarrow> 0 | Some p \<Rightarrow> length p)"

function fields_aux :: "string \<Rightarrow> string \<Rightarrow> string list" where
  "fields_aux cur [] = (if cur = [] then [] else [cur])"
| "fields_aux cur (c # s) =
     (if space_len (c # s) = 0 then fields_aux (cur @ [c]) s
      else (if cur = [] then [] else [cur]) @ fields_aux [] (drop (space_len (c # s)) (c # s)))"
  by pat_completeness auto
termination
  by (relation "measure (\<lambda>(cur, s). length s)") auto

definition str_fields :: "string \<Rightarrow> string list" where
  "str_fields s = fields_aux [] s"

text \<open>The length of the first rune of a string, as Go's \<open>range\<close> decodes UTF-8: an invalid
  byte is a rune of its own.\<close>

definition cont_byte :: "nat \<Rightarrow> nat \<Rightarrow> char \<Rightarrow> bool" where
  "cont_byte lo hi c \<longleftrightarrow> lo \<le> (of_char c :: nat) \<and> (of_char c :: nat) \<le> hi"

definition rune_len :: "string \<Rightarrow> nat" where
  "rune_len s = (case s of [] \<Rightarrow> 0 | c # r \<Rightarrow>
     let b = (of_char c :: nat);
         tail = (\<lambda>n. n \<le> length r \<and> list_all (cont_byte 128 191) (take (n - 1) (tl r)))
     in if 194 \<le> b \<and> b \<le> 223 \<and> tail 1 \<and> cont_byte 128 191 (hd r) then 2
        else if 224 \<le> b \<and> b \<le> 239 \<and> tail 2
          \<and> cont_byte (if b = 224 then 160 else 128) (if b = 237 then 159 else 191) (hd r) then 3
        else if 240 \<le> b \<and> b \<le> 244 \<and> tail 3
          \<and> cont_byte (if b = 240 then 144 else 128) (if b = 244 then 143 else 191) (hd r) then 4
        else (1 :: nat))"

definition is_digit :: "char \<Rightarrow> bool" where
  "is_digit c \<longleftrightarrow> CHR ''0'' \<le> c \<and> c \<le> CHR ''9''"

definition digit_val :: "char \<Rightarrow> nat" where
  "digit_val c = of_char c - 48"

definition digits_val :: "string \<Rightarrow> nat" where
  "digits_val s = foldl (\<lambda>n c. n * 10 + digit_val c) 0 s"

text \<open>\<open>strconv.Atoi\<close> on a 64-bit platform: an optional sign, at least one digit, and a
  value that fits.\<close>

definition atoi :: "string \<Rightarrow> int option" where
  "atoi s =
     (let (neg, ds) = (case s of [] \<Rightarrow> (False, [])
            | c # r \<Rightarrow> if c = CHR ''-'' then (True, r)
                      else if c = CHR ''+'' then (False, r) else (False, s));
          v = (if neg then - int (digits_val ds) else int (digits_val ds))
      in if ds = [] \<or> \<not> list_all is_digit ds then None
         else if v < - (2 ^ 63) \<or> 2 ^ 63 \<le> v then None else Some v)"

text \<open>Decimal rendering of a length (\<open>strconv.Itoa\<close>, the verb \<open>%d\<close>).\<close>

fun itoa_nat :: "nat \<Rightarrow> string" where
  "itoa_nat n = (if n < 10 then [char_of (48 + n)]
                 else itoa_nat (n div 10) @ [char_of (48 + n mod 10)])"

declare itoa_nat.simps [simp del]

definition printable_ascii :: "char \<Rightarrow> bool" where
  "printable_ascii c \<longleftrightarrow> 32 \<le> (of_char c :: nat) \<and> (of_char c :: nat) \<le> 126"

section \<open>Lemmas on the string helpers\<close>

lemma has_prefix_append [simp]: "has_prefix (p @ s) p"
  by (simp add: has_prefix_def)

lemma has_prefix_Nil [simp]: "has_prefix s []"
  by (simp add: has_prefix_def)

lemma has_prefixE: "has_prefix s p \<Longrightarrow> (\<And>t. s = p @ t \<Longrightarrow> P) \<Longrightarrow> P"
  by (metis append_take_drop_id has_prefix_def)

lemma has_prefix_iff: "has_prefix s p \<longleftrightarrow> (\<exists>t. s = p @ t)"
  by (auto elim: has_prefixE)

lemma has_suffix_iff: "has_suffix s p \<longleftrightarrow> (\<exists>t. s = t @ p)"
proof
  assume "has_suffix s p"
  then obtain t where "rev s = rev p @ t"
    by (auto simp: has_suffix_def elim: has_prefixE)
  then have "s = rev t @ p"
    by (metis rev_append rev_rev_ident)
  then show "\<exists>t. s = t @ p" ..
qed (auto simp: has_suffix_def)

lemma cut_prefix_Some: "cut_prefix s p = Some t \<longleftrightarrow> s = p @ t"
  by (auto simp: cut_prefix_def elim: has_prefixE split: if_splits)

lemma trim_right_suffix: "\<exists>t. s = trim_right p s @ t \<and> list_all p t"
proof -
  have "s = rev (dropWhile p (rev s)) @ rev (takeWhile p (rev s))"
    by (metis rev_append rev_rev_ident takeWhile_dropWhile_id)
  then show ?thesis
    unfolding trim_right_def list_all_iff
    by (metis set_rev set_takeWhileD)
qed

lemma length_trim_right: "length (trim_right p s) \<le> length s"
  using length_dropWhile_le [of p "rev s"] by (simp add: trim_right_def)

lemma trim_front_suffix: "\<exists>a. s = a @ trim_front ps s"
proof (induction ps s rule: trim_front.induct)
  case (1 ps s)
  show ?case
  proof (cases "find (\<lambda>p. p \<noteq> [] \<and> has_prefix s p) ps")
    case None
    then have "trim_front ps s = s" by (subst trim_front.simps) simp
    then have "s = [] @ trim_front ps s" by simp
    then show ?thesis ..
  next
    case (Some p)
    with 1 obtain a where "drop (length p) s = a @ trim_front ps (drop (length p) s)" by blast
    moreover from Some have "trim_front ps s = trim_front ps (drop (length p) s)"
      by (subst trim_front.simps) simp
    ultimately have "s = (take (length p) s @ a) @ trim_front ps s"
      by (metis append.assoc append_take_drop_id)
    then show ?thesis ..
  qed
qed

lemma trim_front_stop: "p \<in> set ps \<Longrightarrow> p \<noteq> [] \<Longrightarrow> \<not> has_prefix (trim_front ps s) p"
proof (induction ps s rule: trim_front.induct)
  case (1 ps s)
  show ?case
  proof (cases "find (\<lambda>p. p \<noteq> [] \<and> has_prefix s p) ps")
    case None
    with "1.prems" have "\<not> has_prefix s p" by (auto simp: find_None_iff)
    with None show ?thesis by (subst trim_front.simps) simp
  next
    case (Some q)
    from Some "1.IH" [OF Some "1.prems"] show ?thesis by (subst trim_front.simps) simp
  qed
qed

lemma trim_front_id: "(\<And>p. p \<in> set ps \<Longrightarrow> p \<noteq> [] \<Longrightarrow> \<not> has_prefix s p) \<Longrightarrow> trim_front ps s = s"
  by (subst trim_front.simps) (auto simp: find_None_iff split: option.split dest!: find_Some_iff [THEN iffD1])

lemma has_prefix_mono: "has_prefix s p \<Longrightarrow> has_prefix (s @ t) p"
  by (auto simp: has_prefix_iff)

lemma trim_space_parts: "\<exists>a b. s = a @ trim_space s @ b"
proof -
  obtain a where a: "s = a @ trim_front space_runes s"
    using trim_front_suffix by blast
  obtain b where "rev (trim_front space_runes s)
      = b @ trim_front (map rev space_runes) (rev (trim_front space_runes s))"
    using trim_front_suffix by blast
  then have "trim_front space_runes s = trim_space s @ rev b"
    unfolding trim_space_def by (metis rev_append rev_rev_ident)
  with a show ?thesis by metis
qed

lemma set_trim_space: "set (trim_space s) \<subseteq> set s"
  by (metis trim_space_parts Un_iff set_append subsetI)

lemma length_trim_space: "length (trim_space s) \<le> length s"
  by (metis trim_space_parts le_add1 le_add2 length_append order_trans)

lemma trim_space_no_prefix: "p \<in> set space_runes \<Longrightarrow> p \<noteq> [] \<Longrightarrow> \<not> has_prefix (trim_space s) p"
proof
  assume p: "p \<in> set space_runes" "p \<noteq> []" and h: "has_prefix (trim_space s) p"
  obtain b where "rev (trim_front space_runes s)
      = b @ trim_front (map rev space_runes) (rev (trim_front space_runes s))"
    using trim_front_suffix by blast
  then have "trim_front space_runes s = trim_space s @ rev b"
    unfolding trim_space_def by (metis rev_append rev_rev_ident)
  with h have "has_prefix (trim_front space_runes s) p" by (simp add: has_prefix_mono)
  with trim_front_stop [OF p] show False by blast
qed

lemma trim_space_no_suffix: "p \<in> set space_runes \<Longrightarrow> p \<noteq> [] \<Longrightarrow> \<not> has_suffix (trim_space s) p"
  using trim_front_stop [of "rev p" "map rev space_runes" "rev (trim_front space_runes s)"]
  by (simp add: has_suffix_def trim_space_def)

lemma trim_space_id:
  assumes "\<And>p. p \<in> set space_runes \<Longrightarrow> p \<noteq> [] \<Longrightarrow> \<not> has_prefix s p"
    and "\<And>p. p \<in> set space_runes \<Longrightarrow> p \<noteq> [] \<Longrightarrow> \<not> has_suffix s p"
  shows "trim_space s = s"
proof -
  have "trim_front space_runes s = s"
    by (rule trim_front_id) (rule assms(1))
  moreover have "trim_front (map rev space_runes) (rev s) = rev s"
    by (rule trim_front_id) (use assms(2) in \<open>auto simp: has_suffix_def\<close>)
  ultimately show ?thesis by (simp add: trim_space_def)
qed

lemma trim_space_idem [simp]: "trim_space (trim_space s) = trim_space s"
  by (rule trim_space_id) (rule trim_space_no_prefix trim_space_no_suffix; assumption)+

lemma trim_space_Nil [simp]: "trim_space [] = []"
  using length_trim_space [of "[]"] by simp

text \<open>ASCII text without white space at its ends is left alone.\<close>

definition ascii_solid :: "char \<Rightarrow> bool" where
  "ascii_solid c \<longleftrightarrow> \<not> is_space c \<and> (of_char c :: nat) < 128"

lemma space_runes_ends:
  "list_all (\<lambda>p. p \<noteq> [] \<and> \<not> ascii_solid (hd p) \<and> \<not> ascii_solid (last p)) space_runes"
  by code_simp

lemma trim_space_solid:
  assumes "s = [] \<or> (ascii_solid (hd s) \<and> ascii_solid (last s))"
  shows "trim_space s = s"
proof (rule trim_space_id)
  fix p
  assume p: "p \<in> set space_runes" "p \<noteq> []"
  then have e: "\<not> ascii_solid (hd p)" "\<not> ascii_solid (last p)"
    using space_runes_ends by (simp_all add: list_all_iff)
  show "\<not> has_prefix s p"
    using assms e p(2) by (auto simp: has_prefix_iff)
  show "\<not> has_suffix s p"
    using assms e p(2) by (auto simp: has_suffix_iff)
qed

lemma trim_front_space [simp]:
  "trim_front space_runes (CHR '' '' # s) = trim_front space_runes s"
  "trim_front (map rev space_runes) (CHR '' '' # s) = trim_front (map rev space_runes) s"
  by (subst trim_front.simps, simp add: space_runes_def has_prefix_def)+

lemma trim_front_spaces [simp]:
  "trim_front space_runes (replicate n (CHR '' '') @ s) = trim_front space_runes s"
  "trim_front (map rev space_runes) (replicate n (CHR '' '') @ s) = trim_front (map rev space_runes) s"
  by (induction n) simp_all

lemma trim_front_solid:
  assumes "s \<noteq> []"
  shows "ascii_solid (hd s) \<Longrightarrow> trim_front space_runes s = s"
    and "ascii_solid (hd s) \<Longrightarrow> trim_front (map rev space_runes) s = s"
proof -
  have e: "\<not> ascii_solid (hd p)" "\<not> ascii_solid (last p)" if "p \<in> set space_runes" for p
    using that space_runes_ends by (simp_all add: list_all_iff)
  show "ascii_solid (hd s) \<Longrightarrow> trim_front space_runes s = s"
    by (rule trim_front_id) (use e in \<open>auto simp: has_prefix_iff\<close>)
  show "ascii_solid (hd s) \<Longrightarrow> trim_front (map rev space_runes) s = s"
    by (rule trim_front_id) (use e in \<open>auto simp: has_prefix_iff hd_append hd_rev\<close>)
qed

lemma trim_space_padded:
  assumes "s \<noteq> []" and "ascii_solid (hd s)" and "ascii_solid (last s)"
  shows "trim_space (replicate m (CHR '' '') @ s @ replicate n (CHR '' '')) = s"
proof -
  have "trim_front space_runes (s @ replicate n (CHR '' '')) = s @ replicate n (CHR '' '')"
    by (rule trim_front_solid(1)) (use assms in auto)
  moreover have "trim_front (map rev space_runes) (rev s) = rev s"
    by (rule trim_front_solid(2)) (use assms in \<open>auto simp: hd_rev\<close>)
  ultimately show ?thesis
    by (simp add: trim_space_def)
qed

lemma ascii_solid_digit: "is_digit c \<Longrightarrow> ascii_solid c"
  by (auto simp: is_digit_def ascii_solid_def is_space_def less_eq_char_def)

lemma trim_space_all: "list_all ascii_solid s \<Longrightarrow> trim_space s = s"
  by (rule trim_space_solid) (auto simp: list_all_iff)

lemma trim_space_ends:
  assumes "trim_space s \<noteq> []"
  shows "\<not> is_space (hd (trim_space s)) \<and> \<not> is_space (last (trim_space s))"
proof -
  have sp: "[c] \<in> set space_runes" if "is_space c" for c
    using that by (auto simp: is_space_def space_runes_def)
  have "\<not> is_space (hd (trim_space s))"
  proof
    assume "is_space (hd (trim_space s))"
    moreover have "has_prefix (trim_space s) [hd (trim_space s)]"
      using assms by (cases "trim_space s") (simp_all add: has_prefix_def)
    ultimately show False using trim_space_no_prefix [OF sp] by blast
  qed
  moreover have "\<not> is_space (last (trim_space s))"
  proof
    assume "is_space (last (trim_space s))"
    moreover have "has_suffix (trim_space s) [last (trim_space s)]"
      using assms by (metis append_butlast_last_id has_suffix_iff)
    ultimately show False using trim_space_no_suffix [OF sp] by blast
  qed
  ultimately show ?thesis ..
qed

lemma split_char_ne [simp]: "split_char d s \<noteq> []"
  by (cases s) (auto split: list.splits)

lemma split_char_no_sep: "d \<notin> set s \<Longrightarrow> split_char d s = [s]"
  by (induction s) auto

lemma split_char_append: "d \<notin> set w \<Longrightarrow> split_char d (w @ d # s) = w # split_char d s"
  by (induction w) auto

lemma split_char_join:
  "ws \<noteq> [] \<Longrightarrow> list_all (\<lambda>w. d \<notin> set w) ws \<Longrightarrow> split_char d (join_with [d] ws) = ws"
  by (induction "[d]" ws rule: join_with.induct)
    (auto simp: split_char_no_sep split_char_append)

lemma length_to_lower [simp]: "length (to_lower s) = length s"
  by (simp add: to_lower_def)

lemma to_lower_append [simp]: "to_lower (s @ t) = to_lower s @ to_lower t"
  by (simp add: to_lower_def)

lemma to_lower_id: "list_all (\<lambda>c. c < CHR ''A'' \<or> CHR ''Z'' < c) s \<Longrightarrow> to_lower s = s"
  by (induction s) (auto simp: to_lower_def lower_char_def)

lemma contains_any_iff: "contains_any s cs \<longleftrightarrow> (\<exists>c \<in> set s. c \<in> set cs)"
  by (simp add: contains_any_def list_ex_iff)

lemma contains_str_iff: "contains_str s p \<longleftrightarrow> (\<exists>a b. s = a @ p @ b)"
proof (induction s)
  case (Cons c s)
  show ?case
  proof
    assume "contains_str (c # s) p"
    then show "\<exists>a b. c # s = a @ p @ b"
    proof (simp, elim disjE)
      assume "has_prefix (c # s) p"
      then obtain t where "c # s = [] @ p @ t" by (auto elim: has_prefixE)
      then show ?thesis by blast
    next
      assume "contains_str s p"
      then obtain a b where "s = a @ p @ b" using Cons.IH by blast
      then have "c # s = (c # a) @ p @ b" by simp
      then show ?thesis by blast
    qed
  next
    assume "\<exists>a b. c # s = a @ p @ b"
    then obtain a b where ab: "c # s = a @ p @ b" by blast
    show "contains_str (c # s) p"
    proof (cases a)
      case Nil
      with ab have "has_prefix (c # s) p" by simp
      then show ?thesis by simp
    next
      case (Cons x a')
      with ab have "s = a' @ p @ b" by simp
      with Cons.IH show ?thesis by auto
    qed
  qed
qed auto

lemma itoa_nat_digits: "list_all is_digit (itoa_nat n)"
proof (induction n rule: itoa_nat.induct)
  case (1 n)
  have dig: "is_digit (char_of (48 + k :: nat))" if "k < 10" for k :: nat
  proof -
    from that have "k \<in> {0,1,2,3,4,5,6,7,8,9}" by auto
    then show ?thesis by (auto simp: is_digit_def less_eq_char_def)
  qed
  from 1 show ?case
    by (subst itoa_nat.simps) (auto intro: dig)
qed

lemma itoa_nat_ne [simp]: "itoa_nat n \<noteq> []"
  by (subst itoa_nat.simps) simp

lemma length_itoa_nat: "n < 10 ^ k \<Longrightarrow> 0 < k \<Longrightarrow> length (itoa_nat n) \<le> k"
proof (induction n arbitrary: k rule: itoa_nat.induct)
  case (1 n)
  show ?case
  proof (cases "n < 10")
    case True
    with "1.prems" show ?thesis by (subst itoa_nat.simps) simp
  next
    case False
    then obtain j where j: "k = Suc j" "0 < j"
      using "1.prems" by (cases k) (auto, cases "k - 1", auto)
    then have "n div 10 < 10 ^ j"
      using "1.prems"(1) by (simp add: less_mult_imp_div_less mult.commute)
    with "1.IH" [OF False] j False show ?thesis
      by (subst itoa_nat.simps) simp
  qed
qed

lemma itoa_nat_ends: "is_digit (hd (itoa_nat n))" "is_digit (last (itoa_nat n))"
  using itoa_nat_digits [of n] by (simp_all add: list_all_iff)

lemma digit_val_char: "k < 10 \<Longrightarrow> digit_val (char_of (48 + k :: nat)) = k"
  by (simp add: digit_val_def)

lemma digits_val_snoc: "digits_val (s @ [c]) = digits_val s * 10 + digit_val c"
  by (simp add: digits_val_def)

lemma digits_val_itoa [simp]: "digits_val (itoa_nat n) = n"
proof (induction n rule: itoa_nat.induct)
  case (1 n)
  show ?case
  proof (cases "n < 10")
    case True
    then show ?thesis
      by (subst itoa_nat.simps) (simp add: digits_val_def digit_val_char)
  next
    case False
    with 1 have "digits_val (itoa_nat (n div 10)) = n div 10" by simp
    with False show ?thesis
      by (subst itoa_nat.simps) (simp add: digits_val_snoc digit_val_char)
  qed
qed

lemma atoi_itoa [simp]: "n < 2 ^ 63 \<Longrightarrow> atoi (itoa_nat n) = Some (int n)"
proof -
  assume n: "n < 2 ^ 63"
  obtain c r where cr: "itoa_nat n = c # r"
    using itoa_nat_ne by (cases "itoa_nat n") auto
  then have "is_digit c"
    using itoa_nat_ends(1) [of n] by simp
  then have "c \<noteq> CHR ''-''" "c \<noteq> CHR ''+''"
    by (auto simp: is_digit_def less_eq_char_def)
  moreover have "list_all is_digit (c # r)" "digits_val (c # r) = n"
    using itoa_nat_digits [of n] digits_val_itoa [of n] by (simp_all add: cr)
  ultimately show ?thesis
    using n by (simp add: atoi_def cr)
qed

lemma index_byte_append: "d \<notin> set w \<Longrightarrow> index_byte (w @ d # s) d = Some (length w)"
  by (induction w) auto

lemma index_byte_None: "index_byte s d = None \<longleftrightarrow> d \<notin> set s"
  by (induction s) auto

lemma trim_space_cons_solid:
  "s \<noteq> [] \<Longrightarrow> ascii_solid (hd s) \<Longrightarrow> ascii_solid (last s) \<Longrightarrow> trim_space (CHR '' '' # s) = s"
  using trim_space_padded [of s "Suc 0" 0] by simp


section \<open>Lemmas on maps\<close>

lemma map_of_update [simp]: "map_of (AList.update k v m) = (map_of m)(k \<mapsto> v)"
  by (simp add: update_conv')

lemma map_of_delete [simp]: "map_of (AList.delete k m) = (map_of m)(k := None)"
  by (simp add: delete_conv')

lemma distinct_keys_update [simp]:
  "distinct (map fst m) \<Longrightarrow> distinct (map fst (AList.update k v m))"
  by (rule distinct_update)

lemma distinct_keys_delete [simp]:
  "distinct (map fst m) \<Longrightarrow> distinct (map fst (AList.delete k m))"
  by (rule distinct_delete)

lemma keys_update [simp]: "fst ` set (AList.update k v m) = insert k (fst ` set m)"
  by (simp add: dom_update)

lemma keys_delete [simp]: "fst ` set (AList.delete k m) = fst ` set m - {k}"
  by (simp only: list.set_map [symmetric] delete_keys set_removeAll)

lemma list_all_assoc:
  "list_all P m \<Longrightarrow> P (k, v) \<Longrightarrow> list_all P (AList.update k v m)"
  "list_all P m \<Longrightarrow> list_all P (AList.delete k m)"
  by (induction m) (auto simp: AList.delete_eq)

lemma length_update_le: "length (AList.update k v m) \<le> Suc (length m)"
  by (induction m) auto

lemma length_update_present: "map_of m k \<noteq> None \<Longrightarrow> length (AList.update k v m) = length m"
  by (induction m) (auto split: if_splits)


section \<open>Machines with an invariant\<close>

text \<open>A component whose operations are functions on its state: an invariant that every
  operation keeps holds after every sequence of operations.\<close>

locale invariant_machine =
  fixes step :: "'op \<Rightarrow> 's \<Rightarrow> 's" and inv :: "'s \<Rightarrow> bool"
  assumes preserved: "inv s \<Longrightarrow> inv (step opr s)"
begin

lemma run_inv: "inv s \<Longrightarrow> inv (fold step ops s)"
  by (induction ops arbitrary: s) (simp_all add: preserved)

lemma prefix_inv: "inv s \<Longrightarrow> inv (fold step (take n ops) s)"
  by (rule run_inv)

end

text \<open>A table keyed by \<open>'k\<close>: what the components rely on of Go's maps.\<close>

locale keyed_table =
  fixes lookup :: "'m \<Rightarrow> 'k \<Rightarrow> 'v option" and put :: "'k \<Rightarrow> 'v \<Rightarrow> 'm \<Rightarrow> 'm"
    and drop_key :: "'k \<Rightarrow> 'm \<Rightarrow> 'm" and wf :: "'m \<Rightarrow> bool"
  assumes lookup_put: "lookup (put k v m) x = (if x = k then Some v else lookup m x)"
    and lookup_drop: "wf m \<Longrightarrow> lookup (drop_key k m) x = (if x = k then None else lookup m x)"
    and wf_put: "wf m \<Longrightarrow> wf (put k v m)" and wf_drop: "wf m \<Longrightarrow> wf (drop_key k m)"
begin

lemma put_all: "(\<And>x w. lookup m x = Some w \<Longrightarrow> P x w) \<Longrightarrow> P k v \<Longrightarrow>
    lookup (put k v m) x = Some w \<Longrightarrow> P x w"
  by (simp add: lookup_put split: if_splits)

lemma drop_all: "wf m \<Longrightarrow> (\<And>x w. lookup m x = Some w \<Longrightarrow> P x w) \<Longrightarrow>
    lookup (drop_key k m) x = Some w \<Longrightarrow> P x w"
  by (simp add: lookup_drop split: if_splits)

lemma drop_put: "wf m \<Longrightarrow> lookup (drop_key k (put k v m)) = lookup (drop_key k m)"
  by (rule ext) (simp add: lookup_drop lookup_put wf_put)

end

interpretation table: keyed_table map_of AList.update AList.delete "\<lambda>m. distinct (map fst m)"
  by unfold_locales (simp_all add: AList.update_conv' AList.delete_conv'
      AList.distinct_update AList.distinct_delete)

end
