(* ===== verification/Wire.thy ===== *)
theory Wire
  imports Prelude
begin

text \<open>
  The protobuf-style wire layer at the bottom of \<^verbatim>\<open>src/internal/protocol\<close>:
  varints (\<^verbatim>\<open>binary.AppendUvarint\<close> and \<^verbatim>\<open>binary.ReadUvarint\<close>),
  field keys, the cursor that every decoder reads through, and the fixed-width integers of
  the frame header. A cursor is the list of unread bytes; every read returns the value and
  the rest, or the error.

  The locale \<open>varint_codec\<close> is the law the message encoders rely on (decoding what was just
  appended gives the value and the rest); \<open>message_loop\<close> is the shape the four field loops of
  \<^verbatim>\<open>daemon.go\<close> and \<^verbatim>\<open>transfer.go\<close> share.
\<close>

section \<open>Errors of the decoders\<close>

datatype wire_error =
    VarintEOF
  | VarintUnexpectedEOF
  | VarintOverflow
  | VarintWireType nat
  | StringWireType nat
  | TruncatedString
  | TruncatedField
  | UnsupportedWireType nat
  | OutOfRange string u64
  | MissingCommand

section \<open>Varints\<close>

lemma unat_drop_bit_7: "unat (drop_bit 7 (v :: u64)) = unat v div 128"
proof -
  have "unat (drop_bit 7 v) = drop_bit 7 (unat v)"
    by (rule unat_drop_bit_eq)
  then show ?thesis
    by (simp add: drop_bit_eq_div [of 7 "unat v"])
qed

function put_uvarint :: "u64 \<Rightarrow> bytes" where
  "put_uvarint v =
     (if v < 128 then [ucast v] else (ucast v OR 128) # put_uvarint (drop_bit 7 v))"
  by pat_completeness auto
termination
proof (relation "measure unat", simp)
  fix v :: u64
  assume "\<not> v < 128"
  then have "128 \<le> unat v"
    by (simp add: word_less_nat_alt)
  moreover have "unat (drop_bit 7 v) = unat v div 128"
    by (rule unat_drop_bit_7)
  ultimately show "(drop_bit 7 v, v) \<in> measure unat"
    by (simp only: in_measure)
qed

declare put_uvarint.simps [simp del]

text \<open>\<open>i\<close> counts the bytes already read and \<open>x\<close> is the value accumulated from them.\<close>

fun get_uvarint :: "nat \<Rightarrow> u64 \<Rightarrow> bytes \<Rightarrow> wire_error + (u64 \<times> bytes)" where
  "get_uvarint i x [] =
     (if 10 \<le> i then Inl VarintOverflow
      else Inl (if i = 0 then VarintEOF else VarintUnexpectedEOF))"
| "get_uvarint i x (b # r) =
     (if 10 \<le> i then Inl VarintOverflow
      else if b < 128
        then (if i = 9 \<and> 1 < b then Inl VarintOverflow
              else Inr (x OR push_bit (7 * i) (ucast b), r))
      else get_uvarint (Suc i) (x OR push_bit (7 * i) (ucast (b AND 127))) r)"

section \<open>The cursor\<close>

definition cursor_varint :: "bytes \<Rightarrow> wire_error + (u64 \<times> bytes)" where
  "cursor_varint r = get_uvarint 0 0 r"

definition varintValue :: "nat \<Rightarrow> bytes \<Rightarrow> wire_error + (u64 \<times> bytes)" where
  "varintValue wire r = (if wire \<noteq> 0 then Inl (VarintWireType wire) else cursor_varint r)"

definition stringValue :: "nat \<Rightarrow> bytes \<Rightarrow> wire_error + (string \<times> bytes)" where
  "stringValue wire r =
     (if wire \<noteq> 2 then Inl (StringWireType wire)
      else case cursor_varint r of Inl e \<Rightarrow> Inl e
      | Inr (len, r') \<Rightarrow>
          if length r' < unat len then Inl TruncatedString
          else Inr (string_of (take (unat len) r'), drop (unat len) r'))"

definition cursor_skip :: "nat \<Rightarrow> bytes \<Rightarrow> wire_error + bytes" where
  "cursor_skip wire r =
     (if wire = 0 then (case cursor_varint r of Inl e \<Rightarrow> Inl e | Inr (_, r') \<Rightarrow> Inr r')
      else
        (case (if wire = 1 then Inr (8 :: nat, r)
               else if wire = 2
                 then (case cursor_varint r of Inl e \<Rightarrow> Inl e | Inr (len, r') \<Rightarrow> Inr (unat len, r'))
               else if wire = 5 then Inr (4, r)
               else Inl (UnsupportedWireType wire))
         of Inl e \<Rightarrow> Inl e
          | Inr (count, r') \<Rightarrow>
              if length r' < count then Inl TruncatedField else Inr (drop count r')))"

definition key_field :: "u64 \<Rightarrow> nat" where
  "key_field key = unat (drop_bit 3 key)"

definition key_wire :: "u64 \<Rightarrow> nat" where
  "key_wire key = unat (key AND 7)"

section \<open>Appending fields\<close>

definition appendVarintField :: "bytes \<Rightarrow> nat \<Rightarrow> u64 \<Rightarrow> bytes" where
  "appendVarintField target field v =
     target @ put_uvarint (push_bit 3 (of_nat field)) @ put_uvarint v"

definition appendStringField :: "bytes \<Rightarrow> nat \<Rightarrow> string \<Rightarrow> bytes" where
  "appendStringField target field v =
     target @ put_uvarint (push_bit 3 (of_nat field) OR 2) @ put_uvarint (of_nat (length v))
       @ bytes_of v"

section \<open>Fixed-width integers\<close>

definition put_be16 :: "u16 \<Rightarrow> bytes" where
  "put_be16 w = [ucast (drop_bit 8 w), ucast w]"

definition put_be32 :: "u32 \<Rightarrow> bytes" where
  "put_be32 w = [ucast (drop_bit 24 w), ucast (drop_bit 16 w), ucast (drop_bit 8 w), ucast w]"

text \<open>The readers are applied to slices of exactly the right length; a shorter slice is a
  panic in Go and never occurs, because every caller checks the length first.\<close>

fun get_be16 :: "bytes \<Rightarrow> u16" where
  "get_be16 [a, b] = push_bit 8 (ucast a) OR ucast b"
| "get_be16 _ = 0"

fun get_be32 :: "bytes \<Rightarrow> u32" where
  "get_be32 [a, b, c, d] =
     push_bit 24 (ucast a) OR push_bit 16 (ucast b) OR push_bit 8 (ucast c) OR ucast d"
| "get_be32 _ = 0"

definition get_le32 :: "bytes \<Rightarrow> u32" where
  "get_le32 b = get_be32 (rev b)"

lemma get_put_be16 [simp]: "get_be16 (put_be16 w) = w"
  by (rule bit_word_eqI) (auto simp: put_be16_def bit_simps)

lemma get_put_be32 [simp]: "get_be32 (put_be32 w) = w"
proof (rule bit_word_eqI)
  fix n
  assume n: "n < LENGTH(32)"
  consider "n < 8" | k where "n = 8 + k" "k < 8" | k where "n = 16 + k" "k < 8"
    | k where "n = 24 + k"
  proof -
    assume a: "n < 8 \<Longrightarrow> thesis" "\<And>k. n = 8 + k \<Longrightarrow> k < 8 \<Longrightarrow> thesis"
      "\<And>k. n = 16 + k \<Longrightarrow> k < 8 \<Longrightarrow> thesis" "\<And>k. n = 24 + k \<Longrightarrow> thesis"
    show thesis
      using a(1) a(2) [of "n - 8"] a(3) [of "n - 16"] a(4) [of "n - 24"] by linarith
  qed
  then show "bit (get_be32 (put_be32 w)) n \<longleftrightarrow> bit w n"
    using n by cases (auto simp: put_be32_def bit_simps)
qed

lemma length_put_be [simp]: "length (put_be16 v) = 2" "length (put_be32 w) = 4"
  by (simp_all add: put_be16_def put_be32_def)

section \<open>Round trip of varints\<close>

lemma unat_ucast_byte_small: "v < 128 \<Longrightarrow> unat (ucast (v :: u64) :: byte) = unat v"
proof -
  assume "v < 128"
  then have "unat v < 2 ^ 8" by (simp add: word_less_nat_alt)
  then have "take_bit 8 (unat v) = unat v" by (rule take_bit_nat_eq_self)
  moreover have "LENGTH(8) = 8" by simp
  ultimately show ?thesis by (simp only: unsigned_ucast_eq)
qed

lemma ucast_byte_small:
  assumes "v < 128"
  shows "ucast (ucast v :: byte) = (v :: u64)"
proof (rule bit_word_eqI)
  fix n
  have "n < 8" if "bit v n"
  proof (rule ccontr)
    assume "\<not> n < 8"
    then have "(2 :: nat) ^ 8 \<le> 2 ^ n" by (intro power_increasing) simp_all
    with assms have "unat v < 2 ^ n" by (simp add: word_less_nat_alt)
    moreover from that have "bit (unat v) n" by (simp add: bit_unsigned_iff)
    ultimately show False by (simp add: bit_iff_odd)
  qed
  then show "bit (ucast (ucast v :: byte) :: u64) n \<longleftrightarrow> bit v n"
    by (auto simp: bit_simps dest: bit_imp_le_length)
qed

lemma bit_numeral_int [simp]:
  "bit (7 :: int) n \<longleftrightarrow> n < 3" "bit (127 :: int) n \<longleftrightarrow> n < 7" "bit (128 :: int) n \<longleftrightarrow> n = 7"
proof -
  have "(7 :: int) = mask 3" "(127 :: int) = mask 7" "(128 :: int) = 2 ^ 7"
    by (simp_all add: mask_eq_exp_minus_1)
  then show "bit (7 :: int) n \<longleftrightarrow> n < 3" "bit (127 :: int) n \<longleftrightarrow> n < 7"
      "bit (128 :: int) n \<longleftrightarrow> n = 7"
    by (simp_all only: bit_mask_iff bit_exp_iff) auto
qed

lemma byte_less_128: "(b :: byte) < 128 \<longleftrightarrow> \<not> bit b 7"
proof -
  have u: "unat b < 256"
    using unsigned_less [of b, where 'a = nat] by simp
  have "bit b 7 \<longleftrightarrow> bit (unat b) 7"
    by (simp add: bit_unsigned_iff)
  also have "\<dots> \<longleftrightarrow> odd (unat b div 128)"
    by (simp add: bit_iff_odd)
  also have "unat b div 128 = (if unat b < 128 then 0 else 1)"
    using u by (auto intro: div_nat_eqI)
  finally show ?thesis
    by (simp add: word_less_nat_alt)
qed

lemma continuation_byte: "\<not> (ucast (v :: u64) OR 128 :: byte) < 128"
  by (simp add: byte_less_128 bit_or_iff)

lemma unat_drop_bit_7_less:
  assumes "unat (v :: u64) < 2 ^ (64 - 7 * i)" and "i \<le> 8"
  shows "unat (drop_bit 7 v) < 2 ^ (64 - 7 * Suc i)"
proof -
  have "64 - 7 * i = 7 + (64 - 7 * Suc i)" using assms(2) by simp
  then have "(2 :: nat) ^ (64 - 7 * i) = 2 ^ 7 * 2 ^ (64 - 7 * Suc i)"
    by (simp only: power_add)
  then have "(2 :: nat) ^ (64 - 7 * i) = 2 ^ (64 - 7 * Suc i) * 128"
    by (simp only: mult.commute) simp
  with assms(1) have "unat v div 128 < 2 ^ (64 - 7 * Suc i)"
    by (intro less_mult_imp_div_less) simp
  then show ?thesis by (simp only: unat_drop_bit_7)
qed

lemma long_varint_index:
  assumes "unat (v :: u64) < 2 ^ (64 - 7 * i)" and "i \<le> 9" and "\<not> v < 128"
  shows "i \<le> 8"
proof (rule ccontr)
  assume "\<not> i \<le> 8"
  with assms(2) have "i = 9" by simp
  with assms(1,3) show False by (simp add: word_less_nat_alt)
qed

lemma varint_chunk:
  "(x OR push_bit s (ucast ((ucast (v :: u64) OR 128 :: byte) AND 127)))
     OR push_bit (s + 7) (drop_bit 7 v) = x OR push_bit s v"
proof (rule bit_word_eqI)
  fix n
  assume "n < LENGTH(64)"
  consider "n < s" | k where "n = s + k" "k < 7" | j where "n = s + 7 + j"
    by (metis add.assoc le_add_diff_inverse not_less)
  then show "bit ((x OR push_bit s (ucast ((ucast (v :: u64) OR 128 :: byte) AND 127)))
     OR push_bit (s + 7) (drop_bit 7 v)) n \<longleftrightarrow> bit (x OR push_bit s v) n"
    by cases (auto simp: bit_simps add.assoc)
qed

lemma get_put_uvarint_aux:
  "i \<le> 9 \<Longrightarrow> unat v < 2 ^ (64 - 7 * i) \<Longrightarrow>
     get_uvarint i x (put_uvarint v @ r) = Inr (x OR push_bit (7 * i) v, r)"
proof (induction v arbitrary: i x rule: put_uvarint.induct)
  case (1 v)
  show ?case
  proof (cases "v < 128")
    case True
    then have "(ucast v :: byte) < 128"
      by (simp add: word_less_nat_alt unat_ucast_byte_small)
    moreover have "\<not> (1 :: byte) < ucast v" if "i = 9"
      using that "1.prems"(2) True by (simp add: word_less_nat_alt unat_ucast_byte_small)
    ultimately show ?thesis
      using True "1.prems"(1) by (simp add: put_uvarint.simps [of v] ucast_byte_small)
  next
    case False
    then have i8: "i \<le> 8"
      using long_varint_index "1.prems" by blast
    then have "unat (drop_bit 7 v) < 2 ^ (64 - 7 * Suc i)"
      using unat_drop_bit_7_less "1.prems"(2) by blast
    with "1.IH" [OF False, of "Suc i"] i8
    have "get_uvarint (Suc i) y (put_uvarint (drop_bit 7 v) @ r)
        = Inr (y OR push_bit (7 * Suc i) (drop_bit 7 v), r)" for y
      by simp
    moreover have "(x OR push_bit (7 * i) (ucast ((ucast v OR 128 :: byte) AND 127)))
        OR push_bit (7 * Suc i) (drop_bit 7 v) = x OR push_bit (7 * i) v"
      using varint_chunk [of x "7 * i" v] by (simp only: mult_Suc_right add.commute)
    ultimately show ?thesis
      using False i8 by (simp add: put_uvarint.simps [of v] continuation_byte)
  qed
qed

lemma cursor_put_uvarint [simp, wire_simps]: "cursor_varint (put_uvarint v @ r) = Inr (v, r)"
proof -
  have "unat v < 2 ^ 64"
    using unsigned_less [of v, where 'a = nat] by simp
  then show ?thesis
    using get_put_uvarint_aux [of 0 v 0 r] by (simp add: cursor_varint_def)
qed

lemma put_uvarint_ne [simp]: "put_uvarint v \<noteq> []"
  by (subst put_uvarint.simps) simp

lemma length_put_uvarint: "i \<le> 9 \<Longrightarrow> unat v < 2 ^ (64 - 7 * i) \<Longrightarrow> length (put_uvarint v) \<le> 10 - i"
proof (induction v arbitrary: i rule: put_uvarint.induct)
  case (1 v)
  show ?case
  proof (cases "v < 128")
    case True
    with "1.prems" show ?thesis by (simp add: put_uvarint.simps [of v])
  next
    case False
    then have i8: "i \<le> 8"
      using long_varint_index "1.prems" by blast
    then have "unat (drop_bit 7 v) < 2 ^ (64 - 7 * Suc i)"
      using unat_drop_bit_7_less "1.prems"(2) by blast
    with "1.IH" [OF False, of "Suc i"] i8 have "length (put_uvarint (drop_bit 7 v)) \<le> 9 - i"
      by simp
    with False i8 show ?thesis by (simp add: put_uvarint.simps [of v])
  qed
qed

lemma length_put_uvarint_le: "length (put_uvarint v) \<le> 10"
  using length_put_uvarint [of 0 v] unsigned_less [of v, where 'a = nat] by simp

section \<open>Reading consumes input\<close>

lemma get_uvarint_shrinks: "get_uvarint i x b = Inr (v, r) \<Longrightarrow> length r < length b"
  by (induction i x b rule: get_uvarint.induct) (auto split: if_splits)

lemma cursor_varint_shrinks: "cursor_varint b = Inr (v, r) \<Longrightarrow> length r < length b"
  by (simp add: cursor_varint_def get_uvarint_shrinks)

lemma varintValue_shrinks: "varintValue w b = Inr (v, r) \<Longrightarrow> length r < length b"
  by (auto simp: varintValue_def cursor_varint_shrinks split: if_splits)

lemma stringValue_shrinks: "stringValue w b = Inr (v, r) \<Longrightarrow> length r < length b"
  by (auto simp: stringValue_def dest!: cursor_varint_shrinks split: if_splits sum.splits)

lemma cursor_skip_shrinks: "cursor_skip w b = Inr r \<Longrightarrow> length r \<le> length b"
  by (auto simp: cursor_skip_def dest!: cursor_varint_shrinks split: if_splits sum.splits)

lemmas wire_shrinks =
  cursor_varint_shrinks varintValue_shrinks stringValue_shrinks cursor_skip_shrinks

section \<open>Keys and fields\<close>

lemma field_key_bits:
  assumes "f < 2 ^ 61" and "w < 8"
  shows "key_field (push_bit 3 (of_nat f) OR of_nat w) = f"
    and "key_wire (push_bit 3 (of_nat f) OR of_nat w) = w"
proof -
  have w3: "n < 3" if "bit w n" for n
  proof (rule ccontr)
    assume "\<not> n < 3"
    then have "(2::nat) ^ 3 \<le> 2 ^ n" by (intro power_increasing) simp_all
    with assms(2) have "w < 2 ^ n" by simp
    with that show False by (simp add: bit_iff_odd)
  qed
  have f61: "n < 61" if "bit f n" for n
  proof (rule ccontr)
    assume "\<not> n < 61"
    then have "(2::nat) ^ 61 \<le> 2 ^ n" by (intro power_increasing) simp_all
    with assms(1) have "f < 2 ^ n" by simp
    with that show False by (simp add: bit_iff_odd)
  qed
  have "drop_bit 3 (push_bit 3 (of_nat f) OR of_nat w) = (of_nat f :: u64)"
    by (rule bit_word_eqI) (auto simp: bit_simps dest: f61 w3)
  then show "key_field (push_bit 3 (of_nat f) OR of_nat w) = f"
    using assms(1) by (simp add: key_field_def unat_of_nat)
  have "(push_bit 3 (of_nat f) OR of_nat w) AND 7 = (of_nat w :: u64)"
  proof (rule bit_word_eqI)
    fix n
    show "bit ((push_bit 3 (of_nat f) OR of_nat w) AND (7 :: u64)) n \<longleftrightarrow> bit (of_nat w :: u64) n"
      by (auto simp: bit_simps dest: w3)
  qed
  then show "key_wire (push_bit 3 (of_nat f) OR of_nat w) = w"
    using assms(2) by (simp add: key_wire_def unat_of_nat)
qed

lemma varint_key [simp]:
  "f < 2 ^ 61 \<Longrightarrow> key_field (push_bit 3 (of_nat f)) = f"
  "f < 2 ^ 61 \<Longrightarrow> key_wire (push_bit 3 (of_nat f)) = 0"
  using field_key_bits [of f 0] by simp_all

lemma string_key [simp]:
  "f < 2 ^ 61 \<Longrightarrow> key_field (push_bit 3 (of_nat f) OR 2) = f"
  "f < 2 ^ 61 \<Longrightarrow> key_wire (push_bit 3 (of_nat f) OR 2) = 2"
  using field_key_bits [of f 2] by simp_all

lemma string_key_ne [simp]: "push_bit 3 (of_nat f) OR 2 \<noteq> (0 :: u64)"
proof
  assume "push_bit 3 (of_nat f) OR 2 = (0 :: u64)"
  then have "\<not> bit (push_bit 3 (of_nat f) OR 2 :: u64) 1" by simp
  moreover have "bit (push_bit 3 (of_nat f) OR 2 :: u64) 1" by (simp add: bit_simps)
  ultimately show False ..
qed

lemma varint_key_ne [simp]: "0 < f \<Longrightarrow> f < 2 ^ 61 \<Longrightarrow> push_bit 3 (of_nat f) \<noteq> (0 :: u64)"
  using varint_key(1) [of f] by (auto simp: key_field_def)

section \<open>The varint law and the field loops\<close>

text \<open>What the encoders above rely on: the reader undoes the appender and leaves the rest.\<close>

locale varint_codec =
  fixes put :: "u64 \<Rightarrow> bytes" and get :: "bytes \<Rightarrow> wire_error + (u64 \<times> bytes)"
  assumes get_put: "get (put v @ r) = Inr (v, r)"
    and get_shrinks: "get b = Inr (v, r) \<Longrightarrow> length r < length b"
begin

lemma put_nonempty: "put v \<noteq> []"
proof
  assume "put v = []"
  with get_put [of v "[]"] have "get [] = Inr (v, [])" by simp
  then have "length ([] :: bytes) < length ([] :: bytes)" by (rule get_shrinks)
  then show False by simp
qed

lemma put_inj: "put v @ r = put v' @ r' \<Longrightarrow> v = v' \<and> r = r'"
proof -
  assume "put v @ r = put v' @ r'"
  then have "get (put v' @ r') = Inr (v, r)"
    using get_put [of v r] by simp
  then show ?thesis by (simp add: get_put)
qed

lemma put_prefix_free: "put v @ r = put v' \<Longrightarrow> r = []"
  using put_inj [of v r v' "[]"] by simp

end

interpretation uvarint: varint_codec put_uvarint cursor_varint
  by unfold_locales (simp_all add: cursor_varint_shrinks)

text \<open>
  The loop \<^verbatim>\<open>for cursor.remaining() { key := ...; switch field { ... } }\<close> over a
  state, with the stop condition some messages have. A single field that the step accepts
  is consumed by one turn of the loop.
\<close>

locale message_loop =
  fixes loop :: "'s \<Rightarrow> bytes \<Rightarrow> 'e + 's"
    and key_error :: "wire_error \<Rightarrow> 'e"
    and stop :: "u64 \<Rightarrow> bool"
    and step :: "nat \<Rightarrow> nat \<Rightarrow> bytes \<Rightarrow> 's \<Rightarrow> 'e + ('s \<times> bytes)"
  assumes loop_done: "loop s [] = Inr s"
    and loop_step: "b \<noteq> [] \<Longrightarrow> loop s b =
      (case cursor_varint b of Inl e \<Rightarrow> Inl (key_error e)
       | Inr (key, r) \<Rightarrow> if stop key then Inr s
           else (case step (key_field key) (key_wire key) r s of Inl e \<Rightarrow> Inl e
                 | Inr (s', r') \<Rightarrow> loop s' r'))"
begin

lemma loop_key:
  assumes "\<not> stop key" and "step (key_field key) (key_wire key) r s = Inr (s', r')"
  shows "loop s (put_uvarint key @ r) = loop s' r'"
  using assms by (simp add: loop_step)

lemma loop_varint_field:
  assumes "f < 2 ^ 61" and "\<not> stop (push_bit 3 (of_nat f))"
    and "step f 0 (put_uvarint v @ r) s = Inr (s', r)"
  shows "loop s (appendVarintField [] f v @ r) = loop s' r"
  using assms by (simp add: appendVarintField_def loop_key)

lemma loop_string_field:
  assumes "f < 2 ^ 61" and "\<not> stop (push_bit 3 (of_nat f) OR 2)"
    and "step f 2 (put_uvarint (of_nat (length v)) @ bytes_of v @ r) s = Inr (s', r)"
  shows "loop s (appendStringField [] f v @ r) = loop s' r"
  using assms by (simp add: appendStringField_def loop_key)

lemma loop_stop: "stop key \<Longrightarrow> loop s (put_uvarint key @ r) = Inr s"
  by (simp add: loop_step)

end

lemma varintValue_put [simp, wire_simps]: "varintValue 0 (put_uvarint v @ r) = Inr (v, r)"
  by (simp add: varintValue_def)

lemma stringValue_put [simp, wire_simps]:
  "length v < 2 ^ 64 \<Longrightarrow>
     stringValue 2 (put_uvarint (of_nat (length v)) @ bytes_of v @ r) = Inr (v, r)"
  by (simp add: stringValue_def unat_of_nat)

lemma appendVarintField_append: "appendVarintField t f v = t @ appendVarintField [] f v"
  by (simp add: appendVarintField_def)

lemma appendStringField_append: "appendStringField t f v = t @ appendStringField [] f v"
  by (simp add: appendStringField_def)

lemma appendField_ne [simp]: "appendVarintField t f v \<noteq> []" "appendStringField t f w \<noteq> []"
  by (simp_all add: appendVarintField_def appendStringField_def)

end
