(* ===== verification/Catalog.thy ===== *)
theory Catalog
  imports Prelude
begin

text \<open>
  The command catalogue, \<^verbatim>\<open>src/internal/protocol/command_catalog.go\<close>: the command
  codes (abbreviations for their numbers, \<open>Command\<close> being a \<^verbatim>\<open>uint32\<close>), the two descriptor
  tables and the lookups that the policy and the gateway route by. The lemmas state that the
  tables are functional and disjoint and which codes the flash family holds.
\<close>

type_synonym Command = u32

datatype Family = FamilyUnknown | FamilyKernel | FamilyShell | FamilyUnity | FamilyForward
  | FamilyFile | FamilyApp | FamilyFlash | FamilyHeartbeat

datatype CommandOrigin = CommandOriginOfficial | CommandOriginLegacy

record CommandDescriptor =
  cd_Name :: string
  cd_Family :: Family
  cd_Origin :: CommandOrigin

section \<open>Command codes\<close>

abbreviation (input) CommandKernelHelp :: Command where
  "CommandKernelHelp \<equiv> 0"

abbreviation (input) CommandKernelHandshake :: Command where
  "CommandKernelHandshake \<equiv> 1"

abbreviation (input) CommandKernelChannelClose :: Command where
  "CommandKernelChannelClose \<equiv> 2"

abbreviation (input) CommandKernelTargetDiscover :: Command where
  "CommandKernelTargetDiscover \<equiv> 4"

abbreviation (input) CommandKernelTargetList :: Command where
  "CommandKernelTargetList \<equiv> 5"

abbreviation (input) CommandKernelTargetAny :: Command where
  "CommandKernelTargetAny \<equiv> 6"

abbreviation (input) CommandKernelTargetConnect :: Command where
  "CommandKernelTargetConnect \<equiv> 7"

abbreviation (input) CommandKernelTargetDisconnect :: Command where
  "CommandKernelTargetDisconnect \<equiv> 8"

abbreviation (input) CommandKernelEcho :: Command where
  "CommandKernelEcho \<equiv> 9"

abbreviation (input) CommandKernelEchoRaw :: Command where
  "CommandKernelEchoRaw \<equiv> 10"

abbreviation (input) CommandKernelEnableKeepalive :: Command where
  "CommandKernelEnableKeepalive \<equiv> 11"

abbreviation (input) CommandKernelWakeupSlaveTask :: Command where
  "CommandKernelWakeupSlaveTask \<equiv> 12"

abbreviation (input) CommandCheckServer :: Command where
  "CommandCheckServer \<equiv> 13"

abbreviation (input) CommandCheckDevice :: Command where
  "CommandCheckDevice \<equiv> 14"

abbreviation (input) CommandWaitFor :: Command where
  "CommandWaitFor \<equiv> 15"

abbreviation (input) CommandServerKill :: Command where
  "CommandServerKill \<equiv> 16"

abbreviation (input) CommandServiceStart :: Command where
  "CommandServiceStart \<equiv> 17"

abbreviation (input) CommandSSLHandshake :: Command where
  "CommandSSLHandshake \<equiv> 20"

abbreviation (input) CommandUnityCommandHead :: Command where
  "CommandUnityCommandHead \<equiv> 1000"

abbreviation (input) CommandUnityExecute :: Command where
  "CommandUnityExecute \<equiv> 1001"

abbreviation (input) CommandUnityRemount :: Command where
  "CommandUnityRemount \<equiv> 1002"

abbreviation (input) CommandUnityReboot :: Command where
  "CommandUnityReboot \<equiv> 1003"

abbreviation (input) CommandUnityRunmode :: Command where
  "CommandUnityRunmode \<equiv> 1004"

abbreviation (input) CommandUnityHilog :: Command where
  "CommandUnityHilog \<equiv> 1005"

abbreviation (input) CommandUnityRootrun :: Command where
  "CommandUnityRootrun \<equiv> 1007"

abbreviation (input) CommandJDWPList :: Command where
  "CommandJDWPList \<equiv> 1008"

abbreviation (input) CommandJDWPTrack :: Command where
  "CommandJDWPTrack \<equiv> 1009"

abbreviation (input) CommandUnityCommandTail :: Command where
  "CommandUnityCommandTail \<equiv> 1010"

abbreviation (input) CommandUnityBugreportInit :: Command where
  "CommandUnityBugreportInit \<equiv> 1011"

abbreviation (input) CommandUnityBugreportData :: Command where
  "CommandUnityBugreportData \<equiv> 1012"

abbreviation (input) CommandUnityExecuteEx :: Command where
  "CommandUnityExecuteEx \<equiv> 1200"

abbreviation (input) CommandShellInit :: Command where
  "CommandShellInit \<equiv> 2000"

abbreviation (input) CommandShellData :: Command where
  "CommandShellData \<equiv> 2001"

abbreviation (input) CommandForwardInit :: Command where
  "CommandForwardInit \<equiv> 2500"

abbreviation (input) CommandForwardCheck :: Command where
  "CommandForwardCheck \<equiv> 2501"

abbreviation (input) CommandForwardCheckResult :: Command where
  "CommandForwardCheckResult \<equiv> 2502"

abbreviation (input) CommandForwardActiveSlave :: Command where
  "CommandForwardActiveSlave \<equiv> 2503"

abbreviation (input) CommandForwardActiveMaster :: Command where
  "CommandForwardActiveMaster \<equiv> 2504"

abbreviation (input) CommandForwardData :: Command where
  "CommandForwardData \<equiv> 2505"

abbreviation (input) CommandForwardFreeContext :: Command where
  "CommandForwardFreeContext \<equiv> 2506"

abbreviation (input) CommandForwardList :: Command where
  "CommandForwardList \<equiv> 2507"

abbreviation (input) CommandForwardRemove :: Command where
  "CommandForwardRemove \<equiv> 2508"

abbreviation (input) CommandForwardSuccess :: Command where
  "CommandForwardSuccess \<equiv> 2509"

abbreviation (input) CommandFileInit :: Command where
  "CommandFileInit \<equiv> 3000"

abbreviation (input) CommandFileCheck :: Command where
  "CommandFileCheck \<equiv> 3001"

abbreviation (input) CommandFileBegin :: Command where
  "CommandFileBegin \<equiv> 3002"

abbreviation (input) CommandFileData :: Command where
  "CommandFileData \<equiv> 3003"

abbreviation (input) CommandFileFinish :: Command where
  "CommandFileFinish \<equiv> 3004"

abbreviation (input) CommandAppSideload :: Command where
  "CommandAppSideload \<equiv> 3005"

abbreviation (input) CommandFileMode :: Command where
  "CommandFileMode \<equiv> 3006"

abbreviation (input) CommandDirMode :: Command where
  "CommandDirMode \<equiv> 3007"

abbreviation (input) CommandAppInit :: Command where
  "CommandAppInit \<equiv> 3500"

abbreviation (input) CommandAppCheck :: Command where
  "CommandAppCheck \<equiv> 3501"

abbreviation (input) CommandAppBegin :: Command where
  "CommandAppBegin \<equiv> 3502"

abbreviation (input) CommandAppData :: Command where
  "CommandAppData \<equiv> 3503"

abbreviation (input) CommandAppFinish :: Command where
  "CommandAppFinish \<equiv> 3504"

abbreviation (input) CommandAppUninstall :: Command where
  "CommandAppUninstall \<equiv> 3505"

abbreviation (input) CommandFlashUpdateInit :: Command where
  "CommandFlashUpdateInit \<equiv> 4000"

abbreviation (input) CommandFlashFlashInit :: Command where
  "CommandFlashFlashInit \<equiv> 4001"

abbreviation (input) CommandFlashCheck :: Command where
  "CommandFlashCheck \<equiv> 4002"

abbreviation (input) CommandFlashBegin :: Command where
  "CommandFlashBegin \<equiv> 4003"

abbreviation (input) CommandFlashData :: Command where
  "CommandFlashData \<equiv> 4004"

abbreviation (input) CommandFlashFinish :: Command where
  "CommandFlashFinish \<equiv> 4005"

abbreviation (input) CommandFlashErase :: Command where
  "CommandFlashErase \<equiv> 4006"

abbreviation (input) CommandFlashFormat :: Command where
  "CommandFlashFormat \<equiv> 4007"

abbreviation (input) CommandFlashProgress :: Command where
  "CommandFlashProgress \<equiv> 4008"

abbreviation (input) CommandHeartbeatMessage :: Command where
  "CommandHeartbeatMessage \<equiv> 5000"

abbreviation (input) CommandLegacyKernelServerKill :: Command where
  "CommandLegacyKernelServerKill \<equiv> 3"

abbreviation (input) CommandLegacyClientKeyGenerate :: Command where
  "CommandLegacyClientKeyGenerate \<equiv> 18"

abbreviation (input) CommandLegacyUnityTerminate :: Command where
  "CommandLegacyUnityTerminate \<equiv> 1006"

abbreviation (input) CommandLegacyForwardRportInit :: Command where
  "CommandLegacyForwardRportInit \<equiv> 2510"

abbreviation (input) CommandLegacyForwardRportList :: Command where
  "CommandLegacyForwardRportList \<equiv> 2511"

abbreviation (input) CommandLegacyForwardRportRemove :: Command where
  "CommandLegacyForwardRportRemove \<equiv> 2512"

abbreviation (input) CommandLegacyFileRecvInit :: Command where
  "CommandLegacyFileRecvInit \<equiv> 3008"

abbreviation (input) CommandLegacyUartFinish :: Command where
  "CommandLegacyUartFinish \<equiv> 4009"

section \<open>Descriptor tables\<close>

definition official :: "string \<Rightarrow> Family \<Rightarrow> CommandDescriptor" where
  "official name family = \<lparr>cd_Name = name, cd_Family = family, cd_Origin = CommandOriginOfficial\<rparr>"

definition legacyAlias :: "string \<Rightarrow> Family \<Rightarrow> CommandDescriptor" where
  "legacyAlias name family = \<lparr>cd_Name = name, cd_Family = family, cd_Origin = CommandOriginLegacy\<rparr>"

definition officialCommands :: "(Command, CommandDescriptor) gomap" where
  "officialCommands =
    [(CommandKernelHelp, official ''KernelHelp'' FamilyKernel),
     (CommandKernelHandshake, official ''KernelHandshake'' FamilyKernel),
     (CommandKernelChannelClose, official ''KernelChannelClose'' FamilyKernel),
     (CommandKernelTargetDiscover, official ''KernelTargetDiscover'' FamilyKernel),
     (CommandKernelTargetList, official ''KernelTargetList'' FamilyKernel),
     (CommandKernelTargetAny, official ''KernelTargetAny'' FamilyKernel),
     (CommandKernelTargetConnect, official ''KernelTargetConnect'' FamilyKernel),
     (CommandKernelTargetDisconnect, official ''KernelTargetDisconnect'' FamilyKernel),
     (CommandKernelEcho, official ''KernelEcho'' FamilyKernel),
     (CommandKernelEchoRaw, official ''KernelEchoRaw'' FamilyKernel),
     (CommandKernelEnableKeepalive, official ''KernelEnableKeepalive'' FamilyKernel),
     (CommandKernelWakeupSlaveTask, official ''KernelWakeupSlaveTask'' FamilyKernel),
     (CommandCheckServer, official ''CheckServer'' FamilyKernel),
     (CommandCheckDevice, official ''CheckDevice'' FamilyKernel),
     (CommandWaitFor, official ''WaitFor'' FamilyKernel),
     (CommandServerKill, official ''ServerKill'' FamilyKernel),
     (CommandServiceStart, official ''ServiceStart'' FamilyKernel),
     (CommandSSLHandshake, official ''SSLHandshake'' FamilyKernel),
     (CommandUnityCommandHead, official ''UnityCommandHead'' FamilyUnity),
     (CommandUnityExecute, official ''UnityExecute'' FamilyShell),
     (CommandUnityRemount, official ''UnityRemount'' FamilyUnity),
     (CommandUnityReboot, official ''UnityReboot'' FamilyUnity),
     (CommandUnityRunmode, official ''UnityRunmode'' FamilyUnity),
     (CommandUnityHilog, official ''UnityHilog'' FamilyUnity),
     (CommandUnityRootrun, official ''UnityRootrun'' FamilyUnity),
     (CommandJDWPList, official ''JdwpList'' FamilyUnity),
     (CommandJDWPTrack, official ''JdwpTrack'' FamilyUnity),
     (CommandUnityCommandTail, official ''UnityCommandTail'' FamilyUnity),
     (CommandUnityBugreportInit, official ''UnityBugreportInit'' FamilyUnity),
     (CommandUnityBugreportData, official ''UnityBugreportData'' FamilyUnity),
     (CommandUnityExecuteEx, official ''UnityExecuteEx'' FamilyShell),
     (CommandShellInit, official ''ShellInit'' FamilyShell),
     (CommandShellData, official ''ShellData'' FamilyShell),
     (CommandForwardInit, official ''ForwardInit'' FamilyForward),
     (CommandForwardCheck, official ''ForwardCheck'' FamilyForward),
     (CommandForwardCheckResult, official ''ForwardCheckResult'' FamilyForward),
     (CommandForwardActiveSlave, official ''ForwardActiveSlave'' FamilyForward),
     (CommandForwardActiveMaster, official ''ForwardActiveMaster'' FamilyForward),
     (CommandForwardData, official ''ForwardData'' FamilyForward),
     (CommandForwardFreeContext, official ''ForwardFreeContext'' FamilyForward),
     (CommandForwardList, official ''ForwardList'' FamilyForward),
     (CommandForwardRemove, official ''ForwardRemove'' FamilyForward),
     (CommandForwardSuccess, official ''ForwardSuccess'' FamilyForward),
     (CommandFileInit, official ''FileInit'' FamilyFile),
     (CommandFileCheck, official ''FileCheck'' FamilyFile),
     (CommandFileBegin, official ''FileBegin'' FamilyFile),
     (CommandFileData, official ''FileData'' FamilyFile),
     (CommandFileFinish, official ''FileFinish'' FamilyFile),
     (CommandAppSideload, official ''AppSideload'' FamilyFile),
     (CommandFileMode, official ''FileMode'' FamilyFile),
     (CommandDirMode, official ''DirMode'' FamilyFile),
     (CommandAppInit, official ''AppInit'' FamilyApp),
     (CommandAppCheck, official ''AppCheck'' FamilyApp),
     (CommandAppBegin, official ''AppBegin'' FamilyApp),
     (CommandAppData, official ''AppData'' FamilyApp),
     (CommandAppFinish, official ''AppFinish'' FamilyApp),
     (CommandAppUninstall, official ''AppUninstall'' FamilyApp),
     (CommandFlashUpdateInit, official ''FlashdUpdateInit'' FamilyFlash),
     (CommandFlashFlashInit, official ''FlashdFlashInit'' FamilyFlash),
     (CommandFlashCheck, official ''FlashdCheck'' FamilyFlash),
     (CommandFlashBegin, official ''FlashdBegin'' FamilyFlash),
     (CommandFlashData, official ''FlashdData'' FamilyFlash),
     (CommandFlashFinish, official ''FlashdFinish'' FamilyFlash),
     (CommandFlashErase, official ''FlashdErase'' FamilyFlash),
     (CommandFlashFormat, official ''FlashdFormat'' FamilyFlash),
     (CommandFlashProgress, official ''FlashdProgress'' FamilyFlash),
     (CommandHeartbeatMessage, official ''HeartbeatMsg'' FamilyHeartbeat)]"

definition legacyCommands :: "(Command, CommandDescriptor) gomap" where
  "legacyCommands =
    [(CommandLegacyKernelServerKill, legacyAlias ''LegacyKernelServerKill'' FamilyKernel),
     (CommandLegacyClientKeyGenerate, legacyAlias ''LegacyClientKeyGenerate'' FamilyKernel),
     (CommandLegacyUnityTerminate, legacyAlias ''LegacyUnityTerminate'' FamilyUnity),
     (CommandLegacyForwardRportInit, legacyAlias ''LegacyForwardRportInit'' FamilyForward),
     (CommandLegacyForwardRportList, legacyAlias ''LegacyForwardRportList'' FamilyForward),
     (CommandLegacyForwardRportRemove, legacyAlias ''LegacyForwardRportRemove'' FamilyForward),
     (CommandLegacyFileRecvInit, legacyAlias ''LegacyFileRecvInit'' FamilyFile),
     (CommandLegacyUartFinish, legacyAlias ''LegacyUartFinish'' FamilyFlash)]"

definition LookupCommand :: "Command \<Rightarrow> CommandDescriptor option" where
  "LookupCommand command =
     (case map_of officialCommands command of
        Some descriptor \<Rightarrow> Some descriptor
      | None \<Rightarrow> map_of legacyCommands command)"

definition CommandFamily :: "Command \<Rightarrow> Family" where
  "CommandFamily command =
     (case LookupCommand command of
        Some descriptor \<Rightarrow> cd_Family descriptor
      | None \<Rightarrow> FamilyUnknown)"

section \<open>The tables are well formed\<close>

lemma official_sel [simp]:
  "cd_Family (official n f) = f" "cd_Name (official n f) = n"
  "cd_Origin (official n f) = CommandOriginOfficial"
  by (simp_all add: official_def)

lemma legacyAlias_sel [simp]:
  "cd_Family (legacyAlias n f) = f" "cd_Name (legacyAlias n f) = n"
  "cd_Origin (legacyAlias n f) = CommandOriginLegacy"
  by (simp_all add: legacyAlias_def)

lemma distinct_officialCommands: "distinct (map fst officialCommands)"
  by code_simp

lemma distinct_legacyCommands: "distinct (map fst legacyCommands)"
  by code_simp

lemma tables_disjoint_all:
  "list_all (\<lambda>c. c \<notin> set (map fst legacyCommands)) (map fst officialCommands)"
  by code_simp

lemma tables_disjoint: "set (map fst officialCommands) \<inter> set (map fst legacyCommands) = {}"
  using tables_disjoint_all by (auto simp: list_all_iff)

lemma official_origin_all:
  "list_all (\<lambda>e. cd_Origin (snd e) = CommandOriginOfficial) officialCommands"
  by (simp add: officialCommands_def)

lemma official_origin:
  "map_of officialCommands c = Some d \<Longrightarrow> cd_Origin d = CommandOriginOfficial"
  using official_origin_all by (fastforce simp: list_all_iff dest: map_of_SomeD)

lemma legacy_origin: "map_of legacyCommands c = Some d \<Longrightarrow> cd_Origin d = CommandOriginLegacy"
  by (drule map_of_SomeD) (auto simp: legacyCommands_def)

definition flash_codes :: "Command list" where
  "flash_codes = [4000, 4001, 4002, 4003, 4004, 4005, 4006, 4007, 4008, 4009]"

lemma flash_tables:
  "list_all (\<lambda>e. cd_Family (snd e) = FamilyFlash \<longrightarrow> fst e \<in> set flash_codes) officialCommands"
  "list_all (\<lambda>e. cd_Family (snd e) = FamilyFlash \<longrightarrow> fst e \<in> set flash_codes) legacyCommands"
  by code_simp+

lemma flash_lookup: "list_all (\<lambda>c. CommandFamily c = FamilyFlash) flash_codes"
  by code_simp

lemma CommandFamily_flash: "CommandFamily c = FamilyFlash \<longleftrightarrow> c \<in> set flash_codes"
proof
  assume "CommandFamily c = FamilyFlash"
  then have "(\<exists>d. (c, d) \<in> set officialCommands \<and> cd_Family d = FamilyFlash)
      \<or> (\<exists>d. (c, d) \<in> set legacyCommands \<and> cd_Family d = FamilyFlash)"
    by (auto simp: CommandFamily_def LookupCommand_def dest: map_of_SomeD split: option.splits)
  then show "c \<in> set flash_codes"
    using flash_tables by (fastforce simp: list_all_iff)
next
  assume "c \<in> set flash_codes"
  then show "CommandFamily c = FamilyFlash"
    using flash_lookup by (simp add: list_all_iff)
qed

end
