(* ===== verification/Frame.thy ===== *)
theory Frame
  imports Wire Catalog
begin

text \<open>
  The daemon frame codec, \<^verbatim>\<open>src/internal/protocol/daemon.go\<close>: reading a frame from
  a stream, decoding and encoding it, the session handshake message, the closing frames, and
  the cleaning of one-shot shell commands. The handshake TLV and the version order are in
  theory \<open>Handshake\<close>.

  A reader is the list of bytes it will still deliver before end of file. Sizes that Go keeps
  in \<^verbatim>\<open>int\<close> are \<open>int\<close>; the casts \<open>uint16(len)\<close> and
  \<open>uint32(len)\<close> are word casts and truncate as in Go.
\<close>

section \<open>Constants and errors\<close>

abbreviation (input) DaemonHeaderBytes :: nat where "DaemonHeaderBytes \<equiv> 11"
abbreviation (input) DaemonProtocolVersion :: byte where "DaemonProtocolVersion \<equiv> 1"
abbreviation (input) DaemonVCode :: byte where "DaemonVCode \<equiv> 9"
abbreviation (input) HandshakeAuthNone :: byte where "HandshakeAuthNone \<equiv> 0"
abbreviation (input) HandshakeAuthSignature :: byte where "HandshakeAuthSignature \<equiv> 2"
abbreviation (input) HandshakeAuthPublicKey :: byte where "HandshakeAuthPublicKey \<equiv> 3"
abbreviation (input) HandshakeAuthOK :: byte where "HandshakeAuthOK \<equiv> 4"
abbreviation (input) ChannelCloseRemainingCount :: byte where "ChannelCloseRemainingCount \<equiv> 1"

datatype frame_error =
    MaxFrameTooSmall int
  | ReadEOF
  | ReadUnexpectedEOF
  | BadFrameHeader
  | BadFrameOptions
  | BadProtocolVersion byte
  | BadFrameSize
  | FrameTooLarge nat
  | ProtectError wire_error
  | BadVCode byte
  | BadChecksum

record Frame =
  ChannelID :: u32
  CommandFlag :: Command
  CommandName :: string
  CheckSum :: byte
  VCode :: byte
  Payload :: bytes

record SessionHandshake =
  Banner :: string
  AuthType :: byte
  SessionID :: u32
  ConnectKey :: string
  Buffer :: string
  Version :: string

record payloadProtect =
  pp_ChannelID :: u32
  pp_CommandFlag :: Command
  pp_CheckSum :: byte
  pp_VCode :: byte

definition zero_handshake :: SessionHandshake where
  "zero_handshake = \<lparr>Banner = [], AuthType = 0, SessionID = 0, ConnectKey = [], Buffer = [],
     Version = []\<rparr>"

definition zero_protect :: payloadProtect where
  "zero_protect = \<lparr>pp_ChannelID = 0, pp_CommandFlag = 0, pp_CheckSum = 0, pp_VCode = 0\<rparr>"

abbreviation max_uint8 :: u64 where "max_uint8 \<equiv> 0xFF"
abbreviation max_uint32 :: u64 where "max_uint32 \<equiv> 0xFFFFFFFF"

section \<open>Header and protect segment\<close>

definition decodeFrameHeader :: "bytes \<Rightarrow> frame_error + (u16 \<times> u32)" where
  "decodeFrameHeader header =
     (if length header \<noteq> DaemonHeaderBytes \<or> header ! 0 \<noteq> byte_of (CHR ''H'')
         \<or> header ! 1 \<noteq> byte_of (CHR ''W'') then Inl BadFrameHeader
      else if header ! 2 \<noteq> 0 \<or> header ! 3 \<noteq> 0 then Inl BadFrameOptions
      else if header ! 4 \<noteq> DaemonProtocolVersion then Inl (BadProtocolVersion (header ! 4))
      else let protectSize = get_be16 (take 2 (drop 5 header));
               payloadSize = get_be32 (take 4 (drop 7 header))
           in if protectSize = 0 then Inl BadFrameSize else Inr (protectSize, payloadSize))"

definition encodeProtect :: "u32 \<Rightarrow> Command \<Rightarrow> byte \<Rightarrow> bytes" where
  "encodeProtect channelID commandFlag checksum =
     (let result = appendVarintField [] 1 (ucast channelID);
          result = appendVarintField result 2 (ucast commandFlag);
          result = appendVarintField result 3 (ucast checksum)
      in appendVarintField result 4 (ucast DaemonVCode))"

text \<open>One turn of the loop of \<^verbatim>\<open>decodeProtect\<close>, after the key was read.\<close>

definition protect_field ::
  "nat \<Rightarrow> nat \<Rightarrow> bytes \<Rightarrow> payloadProtect \<times> bool
     \<Rightarrow> wire_error + ((payloadProtect \<times> bool) \<times> bytes)" where
  "protect_field field wire r st =
     (case st of (p, commandSeen) \<Rightarrow>
       if wire \<noteq> 0
       then (case cursor_skip wire r of Inl e \<Rightarrow> Inl e | Inr r' \<Rightarrow> Inr ((p, commandSeen), r'))
       else (case cursor_varint r of Inl e \<Rightarrow> Inl e
         | Inr (v, r') \<Rightarrow>
             if field = 1 then
               (if max_uint32 < v then Inl (OutOfRange ''channel ID'' v)
                else Inr ((p\<lparr>pp_ChannelID := ucast v\<rparr>, commandSeen), r'))
             else if field = 2 then
               (if max_uint32 < v then Inl (OutOfRange ''command'' v)
                else Inr ((p\<lparr>pp_CommandFlag := ucast v\<rparr>, True), r'))
             else if field = 3 then
               (if max_uint8 < v then Inl (OutOfRange ''checksum'' v)
                else Inr ((p\<lparr>pp_CheckSum := ucast v\<rparr>, commandSeen), r'))
             else if field = 4 then
               (if max_uint8 < v then Inl (OutOfRange ''vcode'' v)
                else Inr ((p\<lparr>pp_VCode := ucast v\<rparr>, commandSeen), r'))
             else Inr ((p, commandSeen), r')))"

lemma protect_field_shrinks: "protect_field f w r s = Inr (s', r') \<Longrightarrow> length r' \<le> length r"
  by (auto simp: protect_field_def dest!: wire_shrinks split: prod.splits sum.splits if_splits)

function protect_loop ::
  "payloadProtect \<times> bool \<Rightarrow> bytes \<Rightarrow> wire_error + (payloadProtect \<times> bool)" where
  "protect_loop st b =
     (if b = [] then Inr st
      else case cursor_varint b of Inl e \<Rightarrow> Inl e
        | Inr (key, r) \<Rightarrow>
            (case protect_field (key_field key) (key_wire key) r st of Inl e \<Rightarrow> Inl e
             | Inr (st', r') \<Rightarrow> protect_loop st' r'))"
  by pat_completeness auto
termination
  by (relation "measure (\<lambda>(st, b). length b)")
    (auto dest!: cursor_varint_shrinks protect_field_shrinks)

declare protect_loop.simps [simp del]

definition decodeProtect :: "bytes \<Rightarrow> wire_error + payloadProtect" where
  "decodeProtect payload =
     (case protect_loop (zero_protect, False) payload of Inl e \<Rightarrow> Inl e
      | Inr (result, commandSeen) \<Rightarrow> if \<not> commandSeen then Inl MissingCommand else Inr result)"

definition payloadChecksum :: "bytes \<Rightarrow> byte" where
  "payloadChecksum payload = foldl (+) 0 payload"

section \<open>Frames\<close>

definition read_full :: "nat \<Rightarrow> bytes \<Rightarrow> frame_error + (bytes \<times> bytes)" where
  "read_full n r =
     (if n \<le> length r then Inr (take n r, drop n r)
      else Inl (if r = [] then ReadEOF else ReadUnexpectedEOF))"

definition ReadFrame :: "int \<Rightarrow> bytes \<Rightarrow> frame_error + (bytes \<times> bytes)" where
  "ReadFrame maxFrameBytes reader =
     (if maxFrameBytes \<le> int DaemonHeaderBytes then Inl (MaxFrameTooSmall maxFrameBytes)
      else case read_full DaemonHeaderBytes reader of Inl e \<Rightarrow> Inl e
      | Inr (header, reader') \<Rightarrow>
          (case decodeFrameHeader header of Inl e \<Rightarrow> Inl e
           | Inr (protectSize, payloadSize) \<Rightarrow>
               let bodySize = unat protectSize + unat payloadSize
               in if maxFrameBytes - int DaemonHeaderBytes < int bodySize
                  then Inl (FrameTooLarge bodySize)
                  else case read_full bodySize reader' of Inl e \<Rightarrow> Inl e
                    | Inr (body, reader'') \<Rightarrow> Inr (header @ body, reader'')))"

definition commandName :: "Command \<Rightarrow> string" where
  "commandName flag =
     (case LookupCommand flag of Some descriptor \<Rightarrow> cd_Name descriptor
      | None \<Rightarrow> ''Unknown('' @ itoa_nat (unat flag) @ '')'')"

definition Decode :: "int \<Rightarrow> bytes \<Rightarrow> frame_error + Frame" where
  "Decode maxFrameBytes raw =
     (if length raw < DaemonHeaderBytes \<or> maxFrameBytes < int (length raw) then Inl BadFrameSize
      else case decodeFrameHeader (take DaemonHeaderBytes raw) of Inl e \<Rightarrow> Inl e
      | Inr (protectSize, payloadSize) \<Rightarrow>
          if DaemonHeaderBytes + unat protectSize + unat payloadSize \<noteq> length raw
          then Inl BadFrameSize
          else case decodeProtect (take (unat protectSize) (drop DaemonHeaderBytes raw)) of
            Inl e \<Rightarrow> Inl (ProtectError e)
          | Inr protect \<Rightarrow>
              if pp_VCode protect \<noteq> DaemonVCode then Inl (BadVCode (pp_VCode protect))
              else let payload = drop (DaemonHeaderBytes + unat protectSize) raw
                in if pp_CheckSum protect \<noteq> 0 \<and> pp_CheckSum protect \<noteq> payloadChecksum payload
                   then Inl BadChecksum
                   else Inr \<lparr>ChannelID = pp_ChannelID protect,
                     CommandFlag = pp_CommandFlag protect,
                     CommandName = commandName (pp_CommandFlag protect),
                     CheckSum = pp_CheckSum protect, VCode = pp_VCode protect,
                     Payload = payload\<rparr>)"

definition EncodeFrame :: "u32 \<Rightarrow> Command \<Rightarrow> bytes \<Rightarrow> bytes" where
  "EncodeFrame channelID commandFlag payload =
     (let protect = encodeProtect channelID commandFlag 0
      in [byte_of (CHR ''H''), byte_of (CHR ''W''), 0, 0, DaemonProtocolVersion]
           @ put_be16 (of_nat (length protect)) @ put_be32 (of_nat (length payload))
           @ protect @ payload)"

definition EncodeEchoRaw :: "u32 \<Rightarrow> bytes \<Rightarrow> bytes" where
  "EncodeEchoRaw channelID payload = EncodeFrame channelID CommandKernelEchoRaw payload"

definition EncodeChannelClose :: "u32 \<Rightarrow> bytes" where
  "EncodeChannelClose channelID =
     EncodeFrame channelID CommandKernelChannelClose [ChannelCloseRemainingCount]"

text \<open>Go's nil slice is the empty list: \<^verbatim>\<open>write\<close> sends nothing for it.\<close>

definition EncodeChannelCloseResponse :: "u32 \<Rightarrow> bytes \<Rightarrow> bytes" where
  "EncodeChannelCloseResponse channelID requestPayload =
     (case requestPayload of [] \<Rightarrow> []
      | count # _ \<Rightarrow> if count = 0 then []
          else EncodeFrame channelID CommandKernelChannelClose [count - 1])"

definition failText :: "string \<Rightarrow> string" where
  "failText message =
     (let message = trim_space message;
          message = (if message = [] then ''[Fail] Command is not supported.'' else message)
      in if has_prefix message ''[Fail]'' then message else ''[Fail] '' @ message)"

definition EncodeEchoAndClose :: "u32 \<Rightarrow> string \<Rightarrow> bytes" where
  "EncodeEchoAndClose channelID message =
     EncodeEchoRaw channelID (bytes_of (failText message @ [CHR 0x0A]))
       @ EncodeChannelClose channelID"

section \<open>Widths\<close>

lemma ucast_u32_u64 [simp]: "ucast (ucast (w :: u32) :: u64) = w"
  by (rule bit_word_eqI) (simp add: bit_simps)

lemma ucast_byte_u64 [simp]: "ucast (ucast (b :: byte) :: u64) = b"
  by (rule bit_word_eqI) (simp add: bit_simps)

lemma unat_ucast_up_u32: "unat (ucast (w :: u32) :: u64) = unat w"
proof -
  have "unat w < 2 ^ 32" using unsigned_less [of w, where 'a = nat] by simp
  then show ?thesis
    by (simp add: unsigned_ucast_eq take_bit_nat_eq_self)
qed

lemma unat_ucast_up_byte: "unat (ucast (b :: byte) :: u64) = unat b"
proof -
  have "unat b < 2 ^ 8" using unsigned_less [of b, where 'a = nat] by simp
  then show ?thesis
    by (simp add: unsigned_ucast_eq take_bit_nat_eq_self)
qed

lemma ucast_u32_fits [simp]: "\<not> max_uint32 < ucast (w :: u32)"
  using unsigned_less [of w, where 'a = nat]
  by (simp add: word_less_nat_alt unat_ucast_up_u32)

lemma ucast_byte_fits [simp]: "\<not> max_uint8 < ucast (b :: byte)"
  using unsigned_less [of b, where 'a = nat]
  by (simp add: word_less_nat_alt unat_ucast_up_byte)

section \<open>The protect segment round trip\<close>

interpretation protect_msg: message_loop protect_loop "\<lambda>e. e" "\<lambda>_. False" protect_field
  by unfold_locales (subst protect_loop.simps, simp split: sum.split prod.split)+

lemma protect_fields [wire_simps]:
  "protect_field (Suc 0) 0 (put_uvarint (ucast (c :: u32)) @ r) (p, s) = Inr ((p\<lparr>pp_ChannelID := c\<rparr>, s), r)"
  "protect_field 2 0 (put_uvarint (ucast (c :: u32)) @ r) (p, s) = Inr ((p\<lparr>pp_CommandFlag := c\<rparr>, True), r)"
  "protect_field 3 0 (put_uvarint (ucast (b :: byte)) @ r) (p, s) = Inr ((p\<lparr>pp_CheckSum := b\<rparr>, s), r)"
  "protect_field 4 0 (put_uvarint (ucast (b :: byte)) @ r) (p, s) = Inr ((p\<lparr>pp_VCode := b\<rparr>, s), r)"
  by (simp_all add: protect_field_def)

lemma encodeProtect_fields:
  "encodeProtect c f k = appendVarintField [] 1 (ucast c) @ appendVarintField [] 2 (ucast f)
     @ appendVarintField [] 3 (ucast k) @ appendVarintField [] 4 (ucast DaemonVCode)"
  unfolding encodeProtect_def Let_def
  by (metis append.assoc appendVarintField_append)

lemma protect_loop_encode:
  "protect_loop (p, s) (encodeProtect c f k) =
     Inr (p\<lparr>pp_ChannelID := c, pp_CommandFlag := f, pp_CheckSum := k, pp_VCode := DaemonVCode\<rparr>, True)"
proof -
  note loop = protect_msg.loop_varint_field [where f = 1, simplified]
    protect_msg.loop_varint_field [where f = 2, simplified]
    protect_msg.loop_varint_field [where f = 3, simplified]
    protect_msg.loop_varint_field [where f = 4, simplified]
  have "protect_loop (p, s) (encodeProtect c f k @ []) =
     Inr (p\<lparr>pp_ChannelID := c, pp_CommandFlag := f, pp_CheckSum := k, pp_VCode := DaemonVCode\<rparr>, True)"
    unfolding encodeProtect_fields append.assoc One_nat_def
    by (subst loop(1), rule protect_fields, subst loop(2), rule protect_fields,
        subst loop(3), rule protect_fields, subst loop(4), rule protect_fields,
        simp add: protect_msg.loop_done)
  then show ?thesis by simp
qed

lemma decodeProtect_encode [simp]:
  "decodeProtect (encodeProtect c f k) = Inr \<lparr>pp_ChannelID = c, pp_CommandFlag = f,
     pp_CheckSum = k, pp_VCode = DaemonVCode\<rparr>"
  by (simp add: decodeProtect_def protect_loop_encode zero_protect_def)

lemma encodeProtect_ne [simp]: "encodeProtect c f k \<noteq> []"
  by (simp add: encodeProtect_fields)

lemma length_appendVarintField: "length (appendVarintField [] f v) \<le> 20"
  using length_put_uvarint_le [of "push_bit 3 (of_nat f)"] length_put_uvarint_le [of v]
  by (simp add: appendVarintField_def)

lemma length_encodeProtect: "length (encodeProtect c f k) \<le> 80"
  using length_appendVarintField [of 1 "ucast c"] length_appendVarintField [of 2 "ucast f"]
    length_appendVarintField [of 3 "ucast k"] length_appendVarintField [of 4 "ucast DaemonVCode"]
  by (simp add: encodeProtect_fields)

section \<open>The header round trip\<close>

definition frame_header :: "nat \<Rightarrow> nat \<Rightarrow> bytes" where
  "frame_header protectSize payloadSize =
     [byte_of (CHR ''H''), byte_of (CHR ''W''), 0, 0, DaemonProtocolVersion]
       @ put_be16 (of_nat protectSize) @ put_be32 (of_nat payloadSize)"

lemma length_frame_header [simp]: "length (frame_header a b) = 11"
  by (simp add: frame_header_def)

lemma EncodeFrame_parts:
  "EncodeFrame c f pl = frame_header (length (encodeProtect c f 0)) (length pl)
     @ encodeProtect c f 0 @ pl"
  by (simp add: EncodeFrame_def frame_header_def Let_def)

lemma length_EncodeFrame:
  "length (EncodeFrame c f pl) = 11 + length (encodeProtect c f 0) + length pl"
  by (simp add: EncodeFrame_parts)

lemma decodeFrameHeader_frame_header:
  assumes "0 < a" and "a < 2 ^ 16"
  shows "decodeFrameHeader (frame_header a b) = Inr (of_nat a, of_nat b)"
proof -
  have "(of_nat a :: u16) \<noteq> 0"
  proof
    assume "(of_nat a :: u16) = 0"
    then have "unat (of_nat a :: u16) = 0" by simp
    with assms show False by (simp add: unat_of_nat)
  qed
  moreover have "take 2 (drop 5 (frame_header a b)) = put_be16 (of_nat a)"
    and "take 4 (drop 7 (frame_header a b)) = put_be32 (of_nat b)"
    by (simp_all add: frame_header_def)
  moreover have "frame_header a b ! 0 = byte_of (CHR ''H'')" "frame_header a b ! 1 = byte_of (CHR ''W'')"
    "frame_header a b ! 2 = 0" "frame_header a b ! 3 = 0" "frame_header a b ! 4 = DaemonProtocolVersion"
    by (simp_all add: frame_header_def)
  ultimately show ?thesis
    by (simp add: decodeFrameHeader_def)
qed

lemma decodeFrameHeader_EncodeFrame:
  "decodeFrameHeader (frame_header (length (encodeProtect c f 0)) n)
     = Inr (of_nat (length (encodeProtect c f 0)), of_nat n)"
  using length_encodeProtect [of c f 0]
  by (intro decodeFrameHeader_frame_header) simp_all

lemma unat_protect_size: "unat (of_nat (length (encodeProtect c f k)) :: u16) = length (encodeProtect c f k)"
  using length_encodeProtect [of c f k] by (simp add: unat_of_nat)

lemma Decode_encode:
  assumes "length pl < 2 ^ 32" and "int (length (EncodeFrame c f pl)) \<le> maxFrameBytes"
  shows "Decode maxFrameBytes (EncodeFrame c f pl) = Inr \<lparr>ChannelID = c, CommandFlag = f,
     CommandName = commandName f, CheckSum = 0, VCode = DaemonVCode, Payload = pl\<rparr>"
proof -
  let ?p = "encodeProtect c f 0"
  have "take 11 (EncodeFrame c f pl) = frame_header (length ?p) (length pl)"
    and "take (length ?p) (drop 11 (EncodeFrame c f pl)) = ?p"
    and "drop (11 + length ?p) (EncodeFrame c f pl) = pl"
    by (simp_all add: EncodeFrame_parts)
  moreover have "unat (of_nat (length pl) :: u32) = length pl"
    using assms(1) by (simp add: unat_of_nat)
  ultimately show ?thesis
    using assms(2)
    by (simp add: Decode_def length_EncodeFrame decodeFrameHeader_EncodeFrame unat_protect_size)
qed

section \<open>Frame properties\<close>

text \<open>C15: Decoding an encoded frame gives back its channel, command and payload, whatever
  they are, as long as the payload length fits the 32-bit size field and the whole frame the
  configured limit.\<close>

theorem Decode_EncodeFrame:
  assumes "length pl < 2 ^ 32" and "int (length (EncodeFrame c f pl)) \<le> maxFrameBytes"
  shows "Decode maxFrameBytes (EncodeFrame c f pl) = Inr \<lparr>ChannelID = c, CommandFlag = f,
     CommandName = commandName f, CheckSum = 0, VCode = DaemonVCode, Payload = pl\<rparr>"
  using assms by (rule Decode_encode)

lemma Decode_EncodeFrame_witness:
  "Decode 100 (EncodeFrame 7 CommandShellInit [1, 2]) = Inr \<lparr>ChannelID = 7,
     CommandFlag = CommandShellInit, CommandName = commandName CommandShellInit, CheckSum = 0,
     VCode = DaemonVCode, Payload = [1, 2]\<rparr>"
proof (rule Decode_EncodeFrame)
  show "int (length (EncodeFrame 7 CommandShellInit [1, 2])) \<le> 100"
    by code_simp
qed simp

text \<open>Frames written back to back are read back one at a time. Whatever follows the
  encoded frame on the stream is left unread, and the returned frame is byte for byte the
  encoded one.\<close>

theorem ReadFrame_EncodeFrame:
  assumes "length pl < 2 ^ 32" and "int (length (EncodeFrame c f pl)) \<le> maxFrameBytes"
  shows "ReadFrame maxFrameBytes (EncodeFrame c f pl @ rest) = Inr (EncodeFrame c f pl, rest)"
proof -
  let ?p = "encodeProtect c f 0"
  have "0 < length ?p" by simp
  then have "\<not> maxFrameBytes \<le> 11"
    using assms(2) unfolding length_EncodeFrame by linarith
  moreover have "unat (of_nat (length pl) :: u32) = length pl"
    using assms(1) by (simp add: unat_of_nat)
  moreover have "11 + (length ?p + length pl) \<le> nat maxFrameBytes"
    using assms(2) unfolding length_EncodeFrame by linarith
  ultimately show ?thesis
    by (simp add: ReadFrame_def read_full_def decodeFrameHeader_EncodeFrame unat_protect_size
        EncodeFrame_parts Let_def nat_le_iff flip: of_nat_add del: of_nat_unat)
qed

lemma ReadFrame_EncodeFrame_witness:
  "ReadFrame 64 (EncodeFrame 7 CommandShellData [9] @ [1, 2, 3])
     = Inr (EncodeFrame 7 CommandShellData [9], [1, 2, 3])"
proof (rule ReadFrame_EncodeFrame)
  show "int (length (EncodeFrame 7 CommandShellData [9])) \<le> 64"
    by code_simp
qed simp

text \<open>A frame read from any byte stream is a prefix of that stream, has at least one
  protect byte after its header and never exceeds the configured limit, so a hostile size
  field cannot make the reader buffer more than the limit.\<close>

theorem ReadFrame_bounds:
  assumes "ReadFrame maxFrameBytes r = Inr (f, r')"
  shows "r = f @ r' \<and> DaemonHeaderBytes < length f \<and> int (length f) \<le> maxFrameBytes"
proof -
  obtain header r1 ps bs where
    h: "read_full DaemonHeaderBytes r = Inr (header, r1)"
    and d: "decodeFrameHeader header = Inr (ps, bs)"
    and lim: "\<not> maxFrameBytes - int DaemonHeaderBytes < int (unat ps + unat bs)"
    and b: "read_full (unat ps + unat bs) r1 = Inr (drop DaemonHeaderBytes f, r')"
    and f: "f = header @ drop DaemonHeaderBytes f"
    using assms
    by (auto simp: ReadFrame_def Let_def read_full_def split: if_splits sum.splits)
  from d have "ps \<noteq> 0" by (auto simp: decodeFrameHeader_def Let_def split: if_splits)
  then have "0 < unat ps" by (simp add: unat_gt_0)
  moreover from h have "r = header @ r1" and lh: "length header = 11"
    by (auto simp: read_full_def split: if_splits)
  moreover from b have "r1 = drop DaemonHeaderBytes f @ r'"
    unfolding read_full_def by (metis Inl_Inr_False append_take_drop_id old.sum.inject(2) prod.inject)
  moreover from b have lb: "length (drop DaemonHeaderBytes f) = unat ps + unat bs"
    unfolding read_full_def by (metis Inl_Inr_False length_take min.absorb2 old.sum.inject(2) prod.inject)
  moreover have "length f = 11 + (unat ps + unat bs)"
    using f lh lb by (metis length_append)
  ultimately show ?thesis
    using f lim by simp
qed

lemma ReadFrame_bounds_witness:
  "EncodeFrame 7 CommandShellData [9] @ [1] = EncodeFrame 7 CommandShellData [9] @ [1]
     \<and> DaemonHeaderBytes < length (EncodeFrame 7 CommandShellData [9])
     \<and> int (length (EncodeFrame 7 CommandShellData [9])) \<le> 64"
proof (rule ReadFrame_bounds)
  show "ReadFrame 64 (EncodeFrame 7 CommandShellData [9] @ [1])
      = Inr (EncodeFrame 7 CommandShellData [9], [1])"
    by code_simp
qed

text \<open>Two peers that answer each other's channel closes: the number of answers sent when
  the first close carries \<open>payload\<close>.\<close>

fun close_exchange :: "u32 \<Rightarrow> nat \<Rightarrow> bytes \<Rightarrow> nat" where
  "close_exchange channel 0 payload = 0"
| "close_exchange channel (Suc fuel) payload =
     (let frame = EncodeChannelCloseResponse channel payload
      in if frame = [] then 0
         else case Decode 1000 frame of Inl _ \<Rightarrow> 0
           | Inr f \<Rightarrow> Suc (close_exchange channel fuel (Payload f)))"

lemma EncodeFrame_ne [simp]: "EncodeFrame c f pl \<noteq> []"
  by (simp add: EncodeFrame_def Let_def)

lemma Decode_close:
  "Decode 1000 (EncodeFrame c CommandKernelChannelClose [n]) = Inr \<lparr>ChannelID = c,
     CommandFlag = CommandKernelChannelClose, CommandName = commandName CommandKernelChannelClose,
     CheckSum = 0, VCode = DaemonVCode, Payload = [n]\<rparr>"
  using length_encodeProtect [of c CommandKernelChannelClose 0]
  by (intro Decode_encode) (simp_all add: length_EncodeFrame)

text \<open>C18: Answering a channel close counts the remaining count down by one and is silent at
  zero: two peers that answer each other's closes exchange exactly as many answers as the
  first count says, and then stop.\<close>

theorem close_exchange_stops: "close_exchange c fuel [n] = min fuel (unat n)"
proof (induction fuel arbitrary: n)
  case (Suc fuel)
  show ?case
  proof (cases "n = 0")
    case False
    then obtain m where m: "unat n = Suc m"
      using unat_gt_0 [of n] gr0_conv_Suc by blast
    then have "unat (n - 1) = m"
      using unat_minus_one [OF False] by simp
    have "close_exchange c (Suc fuel) [n] = Suc (close_exchange c fuel [n - 1])"
      using False by (simp add: EncodeChannelCloseResponse_def Decode_close)
    with Suc [of "n - 1"] m \<open>unat (n - 1) = m\<close> show ?thesis
      by (simp only: min_Suc_Suc)
  qed (simp add: EncodeChannelCloseResponse_def)
qed simp

end
