(* ===== verification/Handshake.thy ===== *)
theory Handshake
  imports Frame
begin

text \<open>
  The session handshake of \<^verbatim>\<open>src/internal/protocol/daemon.go\<close>: the message, its
  encoder and decoder, the replies the gateway sends, the fixed-width handshake TLV, the
  official client's version and its order, and the cleaning of one-shot shell commands.

  TLV tags are ASCII constants at every call, for which the rune width that
  \<^verbatim>\<open>%-*s\<close> pads to is the byte length.
\<close>

section \<open>The handshake message\<close>

definition encodeSessionHandshake :: "SessionHandshake \<Rightarrow> bytes" where
  "encodeSessionHandshake handshake =
     (let result = appendStringField [] 1 (Banner handshake);
          result = appendVarintField result 2 (ucast (AuthType handshake));
          result = appendVarintField result 3 (ucast (SessionID handshake));
          result = appendStringField result 4 (ConnectKey handshake);
          result = appendStringField result 5 (Buffer handshake)
      in appendStringField result 6 (Version handshake))"

text \<open>One turn of the loop of \<^verbatim>\<open>DecodeSessionHandshake\<close>, after the key was read.\<close>

definition handshake_field ::
  "nat \<Rightarrow> nat \<Rightarrow> bytes \<Rightarrow> SessionHandshake \<Rightarrow> wire_error + (SessionHandshake \<times> bytes)" where
  "handshake_field field wire r h =
     (if field = 1 then
        (case stringValue wire r of Inl e \<Rightarrow> Inl e | Inr (v, r') \<Rightarrow> Inr (h\<lparr>Banner := v\<rparr>, r'))
      else if field = 2 then
        (case varintValue wire r of Inl e \<Rightarrow> Inl e
         | Inr (v, r') \<Rightarrow> if max_uint8 < v then Inl (OutOfRange ''auth type'' v)
             else Inr (h\<lparr>AuthType := ucast v\<rparr>, r'))
      else if field = 3 then
        (case varintValue wire r of Inl e \<Rightarrow> Inl e
         | Inr (v, r') \<Rightarrow> if max_uint32 < v then Inl (OutOfRange ''session ID'' v)
             else Inr (h\<lparr>SessionID := ucast v\<rparr>, r'))
      else if field = 4 then
        (case stringValue wire r of Inl e \<Rightarrow> Inl e | Inr (v, r') \<Rightarrow> Inr (h\<lparr>ConnectKey := v\<rparr>, r'))
      else if field = 5 then
        (case stringValue wire r of Inl e \<Rightarrow> Inl e | Inr (v, r') \<Rightarrow> Inr (h\<lparr>Buffer := v\<rparr>, r'))
      else if field = 6 then
        (case stringValue wire r of Inl e \<Rightarrow> Inl e | Inr (v, r') \<Rightarrow> Inr (h\<lparr>Version := v\<rparr>, r'))
      else (case cursor_skip wire r of Inl e \<Rightarrow> Inl e | Inr r' \<Rightarrow> Inr (h, r')))"

lemma handshake_field_shrinks:
  "handshake_field f w r h = Inr (h', r') \<Longrightarrow> length r' \<le> length r"
  by (auto simp: handshake_field_def dest!: wire_shrinks split: sum.splits if_splits)

function handshake_loop :: "SessionHandshake \<Rightarrow> bytes \<Rightarrow> wire_error + SessionHandshake" where
  "handshake_loop h b =
     (if b = [] then Inr h
      else case cursor_varint b of Inl e \<Rightarrow> Inl e
        | Inr (key, r) \<Rightarrow>
            (case handshake_field (key_field key) (key_wire key) r h of Inl e \<Rightarrow> Inl e
             | Inr (h', r') \<Rightarrow> handshake_loop h' r'))"
  by pat_completeness auto
termination
  by (relation "measure (\<lambda>(h, b). length b)")
    (auto dest!: cursor_varint_shrinks handshake_field_shrinks)

declare handshake_loop.simps [simp del]

definition DecodeSessionHandshake :: "bytes \<Rightarrow> wire_error + SessionHandshake" where
  "DecodeSessionHandshake payload = handshake_loop zero_handshake payload"

definition EncodeSessionHandshake :: "u32 \<Rightarrow> SessionHandshake \<Rightarrow> bytes" where
  "EncodeSessionHandshake channelID handshake =
     EncodeFrame channelID CommandKernelHandshake (encodeSessionHandshake handshake)"

section \<open>Handshake TLV\<close>

abbreviation (input) authTLVFieldWidth :: nat where "authTLVFieldWidth \<equiv> 16"

datatype tlv_error = TLVTruncated | TLVLengthInvalid | TLVValueTruncated

definition pad_right :: "nat \<Rightarrow> string \<Rightarrow> string" where
  "pad_right n s = s @ replicate (n - length s) (CHR '' '')"

definition AppendHandshakeTLV :: "string \<Rightarrow> string \<Rightarrow> string \<Rightarrow> string" where
  "AppendHandshakeTLV buffer tag val =
     buffer @ pad_right authTLVFieldWidth (take authTLVFieldWidth tag)
       @ pad_right authTLVFieldWidth (itoa_nat (length val)) @ val"

function parse_tlv :: "(string, string) gomap \<Rightarrow> string \<Rightarrow> tlv_error + (string, string) gomap" where
  "parse_tlv flds remaining =
     (if remaining = [] then Inr flds
      else if length remaining < authTLVFieldWidth * 2 then Inl TLVTruncated
      else let tag = trim_space (take authTLVFieldWidth remaining);
               lengthText = trim_space (take authTLVFieldWidth (drop authTLVFieldWidth remaining));
               start = authTLVFieldWidth * 2
           in if \<not> list_all is_digit lengthText then Inl TLVLengthInvalid
              else let len = digits_val lengthText
                in if length remaining < start + len then Inl TLVValueTruncated
                   else parse_tlv
                     (if tag \<noteq> [] then AList.update tag (take len (drop start remaining)) flds
                      else flds)
                     (drop (start + len) remaining))"
  by pat_completeness auto
termination
  by (relation "measure (\<lambda>(f, s). length s)") auto

declare parse_tlv.simps [simp del]

definition ParseHandshakeTLV :: "string \<Rightarrow> tlv_error + (string, string) gomap" where
  "ParseHandshakeTLV buffer = parse_tlv [] buffer"

definition buildAuthStatusTLV :: "string \<Rightarrow> string \<Rightarrow> string \<Rightarrow> string" where
  "buildAuthStatusTLV deviceName message authStatus =
     (let buffer = AppendHandshakeTLV [] ''emgmsg'' message;
          buffer = AppendHandshakeTLV buffer ''devname'' deviceName;
          buffer = AppendHandshakeTLV buffer ''daemonauthstatus'' authStatus
      in AppendHandshakeTLV buffer ''1200'' ''enable'')"

section \<open>Replies\<close>

definition HandshakeFallbackVersion :: string where
  "HandshakeFallbackVersion = ''Ver: 3.2.0c''"

definition HandshakeMinAuthVersion :: string where
  "HandshakeMinAuthVersion = ''Ver: 3.0.0b''"

definition handshakeVersion :: "string \<Rightarrow> string" where
  "handshakeVersion version =
     (if trim_space version = [] then HandshakeFallbackVersion else version)"

definition EncodeHandshakeReply :: "u32 \<Rightarrow> string \<Rightarrow> byte \<Rightarrow> string \<Rightarrow> bytes" where
  "EncodeHandshakeReply channelID version authType buffer =
     EncodeFrame channelID CommandKernelHandshake
       (encodeSessionHandshake \<lparr>Banner = ''OHOS HDC'', AuthType = authType, SessionID = 0,
          ConnectKey = [], Buffer = buffer, Version = handshakeVersion version\<rparr>)"

definition EncodeHandshakeOK :: "Frame \<Rightarrow> SessionHandshake \<Rightarrow> string \<Rightarrow> bytes" where
  "EncodeHandshakeOK request requestHandshake deviceName =
     EncodeHandshakeReply (ChannelID request) (handshakeVersion (Version requestHandshake))
       HandshakeAuthOK (buildAuthStatusTLV deviceName [] ''SUCCESS'')"

definition EncodeHandshakePublicKey :: "u32 \<Rightarrow> string \<Rightarrow> bool \<Rightarrow> bytes" where
  "EncodeHandshakePublicKey channelID version supportSHA512 =
     (let buffer = (if supportSHA512 then AppendHandshakeTLV [] ''authtype'' ''1'' else [])
      in EncodeHandshakeReply channelID (handshakeVersion version) HandshakeAuthPublicKey buffer)"

definition EncodeHandshakeSignatureChallenge :: "u32 \<Rightarrow> string \<Rightarrow> string \<Rightarrow> bytes" where
  "EncodeHandshakeSignatureChallenge channelID version token =
     EncodeHandshakeReply channelID (handshakeVersion version) HandshakeAuthSignature token"

definition EncodeHandshakeUnauthorized :: "u32 \<Rightarrow> string \<Rightarrow> string \<Rightarrow> string \<Rightarrow> bytes" where
  "EncodeHandshakeUnauthorized channelID version deviceName message =
     EncodeHandshakeReply channelID (handshakeVersion version) HandshakeAuthOK
         (buildAuthStatusTLV deviceName message ''DAEMON_UNAUTH'')
       @ EncodeChannelClose channelID"

section \<open>Client versions\<close>

record hdcVersion =
  v_major :: int
  v_minor :: int
  v_patch :: int
  v_letter :: byte

definition parseHdcVersion :: "string \<Rightarrow> hdcVersion option" where
  "parseHdcVersion raw =
     (let val = trim_space raw;
          val = (case cut_prefix val ''Ver:'' of Some after \<Rightarrow> trim_space after
            | None \<Rightarrow> (case cut_prefix val ''ver:'' of Some after \<Rightarrow> trim_space after | None \<Rightarrow> val));
          val = (case index_byte val (CHR ''-'') of Some index \<Rightarrow> take index val | None \<Rightarrow> val);
          val = trim_space val
      in if val = [] then None
         else let end = lower_char (last val);
                  has_letter = (CHR ''a'' \<le> end \<and> end \<le> CHR ''z'');
                  letter = (if has_letter then byte_of end else 0);
                  val = (if has_letter then butlast val else val);
                  parts = split_char (CHR ''.'') val
              in if length parts \<noteq> 3 then None
                 else (case (atoi (parts ! 0), atoi (parts ! 1), atoi (parts ! 2)) of
                     (Some major, Some minor, Some patch) \<Rightarrow>
                       if major < 0 \<or> minor < 0 \<or> patch < 0 then None
                       else Some \<lparr>v_major = major, v_minor = minor, v_patch = patch,
                         v_letter = letter\<rparr>
                   | _ \<Rightarrow> None))"

definition compareHdcVersion :: "hdcVersion \<Rightarrow> hdcVersion \<Rightarrow> int" where
  "compareHdcVersion left right =
     (if v_major left \<noteq> v_major right then v_major left - v_major right
      else if v_minor left \<noteq> v_minor right then v_minor left - v_minor right
      else if v_patch left \<noteq> v_patch right then v_patch left - v_patch right
      else uint (v_letter left) - uint (v_letter right))"

definition ClientVersionTooOld :: "string \<Rightarrow> bool" where
  "ClientVersionTooOld version =
     (let version = trim_space version
      in if version = [] then False
         else case parseHdcVersion version of None \<Rightarrow> False
         | Some got \<Rightarrow> (case parseHdcVersion HandshakeMinAuthVersion of None \<Rightarrow> False
             | Some least \<Rightarrow> compareHdcVersion got least < 0))"

section \<open>One-shot shell commands\<close>

definition shellControlReplacer :: "string \<Rightarrow> string" where
  "shellControlReplacer s =
     map (\<lambda>c. if c = CHR 0x00 \<or> c = CHR 0x0D \<or> c = CHR 0x0A then CHR '' '' else c) s"

function extractTLVValue :: "bytes \<Rightarrow> u32 \<Rightarrow> bytes" where
  "extractTLVValue payload expectedTag =
     (if length payload < 8 then []
      else let tag = get_le32 (take 4 payload);
               len = unat (get_le32 (take 4 (drop 4 payload)))
           in if length payload < 8 + len then []
              else if tag = expectedTag then take len (drop 8 payload)
              else extractTLVValue (drop (8 + len) payload) expectedTag)"
  by pat_completeness auto
termination
  by (relation "measure (\<lambda>(p, t). length p)") auto

declare extractTLVValue.simps [simp del]

text \<open>A byte above 126 makes the text either invalid UTF-8 or a rune above 126: the code
  returns the empty string in both cases.\<close>

definition ExtractShellCommand :: "Frame \<Rightarrow> string" where
  "ExtractShellCommand frame =
     (let flag = CommandFlag frame
      in if flag = CommandUnityExecute \<or> flag = CommandUnityExecuteEx then
           (let val = (if flag = CommandUnityExecute then Payload frame
                       else extractTLVValue (Payload frame) 0);
                text = trim_space (shellControlReplacer (string_of val))
            in if list_all printable_ascii text then text else [])
         else [])"

section \<open>The handshake message round trip\<close>

interpretation handshake_msg: message_loop handshake_loop "\<lambda>e. e" "\<lambda>_. False" handshake_field
  by unfold_locales (subst handshake_loop.simps, simp split: sum.split prod.split)+

lemma handshake_varint_fields:
  "handshake_field 2 0 (put_uvarint (ucast (b :: byte)) @ r) h = Inr (h\<lparr>AuthType := b\<rparr>, r)"
  "handshake_field 3 0 (put_uvarint (ucast (w :: u32)) @ r) h = Inr (h\<lparr>SessionID := w\<rparr>, r)"
  by (simp_all add: handshake_field_def)

lemma handshake_string_fields:
  assumes "length v < 2 ^ 64"
  shows "handshake_field (Suc 0) 2 (put_uvarint (of_nat (length v)) @ bytes_of v @ r) h = Inr (h\<lparr>Banner := v\<rparr>, r)"
    "handshake_field 4 2 (put_uvarint (of_nat (length v)) @ bytes_of v @ r) h = Inr (h\<lparr>ConnectKey := v\<rparr>, r)"
    "handshake_field 5 2 (put_uvarint (of_nat (length v)) @ bytes_of v @ r) h = Inr (h\<lparr>Buffer := v\<rparr>, r)"
    "handshake_field 6 2 (put_uvarint (of_nat (length v)) @ bytes_of v @ r) h = Inr (h\<lparr>Version := v\<rparr>, r)"
  using assms by (simp_all add: handshake_field_def stringValue_put)

lemma encodeSessionHandshake_fields:
  "encodeSessionHandshake h = appendStringField [] 1 (Banner h)
     @ appendVarintField [] 2 (ucast (AuthType h)) @ appendVarintField [] 3 (ucast (SessionID h))
     @ appendStringField [] 4 (ConnectKey h) @ appendStringField [] 5 (Buffer h)
     @ appendStringField [] 6 (Version h)"
  unfolding encodeSessionHandshake_def Let_def
  by (metis append.assoc appendVarintField_append appendStringField_append)

text \<open>Lengths of Go strings are below \<open>2 ^ 63\<close>.\<close>

definition handshake_sized :: "SessionHandshake \<Rightarrow> bool" where
  "handshake_sized h \<longleftrightarrow> length (Banner h) < 2 ^ 63 \<and> length (ConnectKey h) < 2 ^ 63
     \<and> length (Buffer h) < 2 ^ 63 \<and> length (Version h) < 2 ^ 63"

lemma handshake_loop_encode:
  assumes "handshake_sized h"
  shows "handshake_loop h0 (encodeSessionHandshake h @ []) = Inr h"
proof -
  note vloop = handshake_msg.loop_varint_field [where f = 2, simplified]
    handshake_msg.loop_varint_field [where f = 3, simplified]
  note sloop = handshake_msg.loop_string_field [where f = 1, simplified]
    handshake_msg.loop_string_field [where f = 4, simplified]
    handshake_msg.loop_string_field [where f = 5, simplified]
    handshake_msg.loop_string_field [where f = 6, simplified]
  have len: "length (Banner h) < 2 ^ 64" "length (ConnectKey h) < 2 ^ 64"
    "length (Buffer h) < 2 ^ 64" "length (Version h) < 2 ^ 64"
    using assms by (simp_all add: handshake_sized_def)
  show ?thesis
    unfolding encodeSessionHandshake_fields append.assoc One_nat_def
    by (subst sloop(1), rule handshake_string_fields, rule len,
        subst vloop(1), rule handshake_varint_fields,
        subst vloop(2), rule handshake_varint_fields,
        subst sloop(2), rule handshake_string_fields, rule len,
        subst sloop(3), rule handshake_string_fields, rule len,
        subst sloop(4), rule handshake_string_fields, rule len,
        simp add: handshake_msg.loop_done)
qed

lemma DecodeSessionHandshake_encode:
  "handshake_sized h \<Longrightarrow> DecodeSessionHandshake (encodeSessionHandshake h) = Inr h"
  using handshake_loop_encode [of h zero_handshake] by (simp add: DecodeSessionHandshake_def)

section \<open>TLV\<close>

lemma length_pad_right [simp]: "length (pad_right n s) = max n (length s)"
  by (simp add: pad_right_def)

lemma trim_space_pad:
  assumes "s \<noteq> []" and "ascii_solid (hd s)" and "ascii_solid (last s)"
  shows "trim_space (pad_right n s) = s"
  using trim_space_padded [OF assms, of 0] by (simp add: pad_right_def)

definition tlv_tag :: "string \<Rightarrow> bool" where
  "tlv_tag tag \<longleftrightarrow> tag \<noteq> [] \<and> length tag \<le> authTLVFieldWidth \<and> ascii_solid (hd tag)
     \<and> ascii_solid (last tag)"

definition tlv_entry :: "string \<times> string \<Rightarrow> bool" where
  "tlv_entry e \<longleftrightarrow> tlv_tag (fst e) \<and> length (snd e) < 10 ^ authTLVFieldWidth"

lemma parse_tlv_append:
  assumes "tlv_entry (tag, val)"
  shows "parse_tlv m (AppendHandshakeTLV [] tag val @ r) = parse_tlv (AList.update tag val m) r"
proof -
  let ?t = "pad_right 16 (take 16 tag)" and ?l = "pad_right 16 (itoa_nat (length val))"
  have s: "AppendHandshakeTLV [] tag val @ r = ?t @ ?l @ val @ r"
    by (simp add: AppendHandshakeTLV_def)
  have "length (itoa_nat (length val)) \<le> 16"
    using assms by (intro length_itoa_nat) (simp_all add: tlv_entry_def)
  then have lens: "length ?t = 16" "length ?l = 16" by simp_all
  have tag: "trim_space ?t = tag"
    using assms by (simp add: tlv_entry_def tlv_tag_def trim_space_pad)
  have len: "trim_space ?l = itoa_nat (length val)"
    by (intro trim_space_pad) (simp_all add: itoa_nat_ends ascii_solid_digit)
  have "take 16 (?t @ ?l @ val @ r) = ?t" "take 16 (drop 16 (?t @ ?l @ val @ r)) = ?l"
    "drop 32 (?t @ ?l @ val @ r) = val @ r"
    "drop (32 + length val) (?t @ ?l @ val @ r) = r"
    "length (?t @ ?l @ val @ r) = 32 + length val + length r"
    using lens by (simp_all add: drop_append del: length_pad_right)
  moreover have "?t @ ?l @ val @ r \<noteq> []"
    using lens by (metis append_is_Nil_conv list.size(3) zero_neq_numeral)
  moreover have "tag \<noteq> []"
    using assms by (simp add: tlv_entry_def tlv_tag_def)
  ultimately show ?thesis
    unfolding s
    by (subst parse_tlv.simps) (simp add: tag len itoa_nat_digits Let_def del: append_is_Nil_conv)
qed

lemma AppendHandshakeTLV_append:
  "AppendHandshakeTLV b tag val = b @ AppendHandshakeTLV [] tag val"
  by (simp add: AppendHandshakeTLV_def)

definition build_tlv :: "(string \<times> string) list \<Rightarrow> string" where
  "build_tlv kvs = foldl (\<lambda>b e. AppendHandshakeTLV b (fst e) (snd e)) [] kvs"

lemma build_tlv_foldl:
  "foldl (\<lambda>b e. AppendHandshakeTLV b (fst e) (snd e)) b kvs = b @ build_tlv kvs"
proof (induction kvs arbitrary: b)
  case (Cons e kvs)
  show ?case
    using Cons [of "AppendHandshakeTLV b (fst e) (snd e)"]
      Cons [of "AppendHandshakeTLV [] (fst e) (snd e)"]
    by (simp add: build_tlv_def AppendHandshakeTLV_append [of b])
qed (simp add: build_tlv_def)

lemma build_tlv_Cons: "build_tlv (e # kvs) = AppendHandshakeTLV [] (fst e) (snd e) @ build_tlv kvs"
  using build_tlv_foldl [of "AppendHandshakeTLV [] (fst e) (snd e)" kvs]
  by (simp add: build_tlv_def)

lemma parse_tlv_build:
  "list_all tlv_entry kvs \<Longrightarrow>
     parse_tlv m (build_tlv kvs) = Inr (foldl (\<lambda>m e. AList.update (fst e) (snd e) m) m kvs)"
proof (induction kvs arbitrary: m)
  case Nil
  then show ?case by (simp add: build_tlv_def parse_tlv.simps)
next
  case (Cons e kvs)
  then show ?case
    using parse_tlv_append [of "fst e" "snd e" m "build_tlv kvs"] by (simp add: build_tlv_Cons)
qed

lemma buildAuthStatusTLV_build:
  "buildAuthStatusTLV dev msg st = build_tlv [(''emgmsg'', msg), (''devname'', dev),
     (''daemonauthstatus'', st), (''1200'', ''enable'')]"
  by (simp add: buildAuthStatusTLV_def build_tlv_def Let_def)

lemma parse_auth_status:
  assumes "length dev < 10 ^ 16" and "length msg < 10 ^ 16" and "length st < 10 ^ 16"
  shows "ParseHandshakeTLV (buildAuthStatusTLV dev msg st) = Inr [(''emgmsg'', msg),
     (''devname'', dev), (''daemonauthstatus'', st), (''1200'', ''enable'')]"
proof -
  have "tlv_tag ''emgmsg''" "tlv_tag ''devname''" "tlv_tag ''daemonauthstatus''" "tlv_tag ''1200''"
    by code_simp+
  then show ?thesis
    using assms by (simp add: ParseHandshakeTLV_def buildAuthStatusTLV_build parse_tlv_build
        tlv_entry_def)
qed

section \<open>Versions\<close>

instantiation hdcVersion_ext :: (linorder) linorder
begin

definition less_hdcVersion_ext :: "'a hdcVersion_scheme \<Rightarrow> 'a hdcVersion_scheme \<Rightarrow> bool" where
  "v < w \<longleftrightarrow> v_major v < v_major w \<or> v_major v = v_major w \<and> (v_minor v < v_minor w
     \<or> v_minor v = v_minor w \<and> (v_patch v < v_patch w \<or> v_patch v = v_patch w
     \<and> (v_letter v < v_letter w
     \<or> v_letter v = v_letter w \<and> hdcVersion.more v < hdcVersion.more w)))"

definition less_eq_hdcVersion_ext :: "'a hdcVersion_scheme \<Rightarrow> 'a hdcVersion_scheme \<Rightarrow> bool" where
  "v \<le> w \<longleftrightarrow> v < w \<or> v = (w :: 'a hdcVersion_scheme)"

instance
proof
  fix x y :: "'a hdcVersion_scheme"
  show "x \<le> y \<or> y \<le> x"
    unfolding less_hdcVersion_ext_def less_eq_hdcVersion_ext_def
    by (metis hdcVersion.equality linorder_less_linear)
qed (auto simp: less_hdcVersion_ext_def less_eq_hdcVersion_ext_def)

end

lemma compare_less: "compareHdcVersion v w < 0 \<longleftrightarrow> v < w"
  by (auto simp: compareHdcVersion_def less_hdcVersion_ext_def word_less_def)

definition print_version :: "nat \<Rightarrow> nat \<Rightarrow> nat \<Rightarrow> char \<Rightarrow> string" where
  "print_version major minor patch letter = itoa_nat major @ CHR ''.'' # itoa_nat minor
     @ CHR ''.'' # itoa_nat patch @ [letter]"

definition build_suffix :: "string \<Rightarrow> bool" where
  "build_suffix s \<longleftrightarrow> s = [] \<or> hd s = CHR ''-'' \<and> ascii_solid (last s)"

lemma lower_letter_facts:
  assumes "CHR ''a'' \<le> l" and "l \<le> CHR ''z''"
  shows "lower_char l = l" "ascii_solid l" "l \<noteq> CHR ''-''" "l \<noteq> CHR ''.''"
proof -
  have "97 \<le> (of_char l :: nat)" "(of_char l :: nat) \<le> 122"
    using assms by (simp_all add: less_eq_char_def)
  then show "lower_char l = l" "ascii_solid l" "l \<noteq> CHR ''-''" "l \<noteq> CHR ''.''"
    by (auto simp: lower_char_def ascii_solid_def is_space_def less_eq_char_def)
qed

lemma digit_not_punct: "list_all is_digit s \<Longrightarrow> CHR ''-'' \<notin> set s \<and> CHR ''.'' \<notin> set s"
  by (auto simp: list_all_iff is_digit_def less_eq_char_def)

lemma parse_print_version:
  assumes "major < 2 ^ 63" "minor < 2 ^ 63" "patch < 2 ^ 63"
    and l: "CHR ''a'' \<le> letter" "letter \<le> CHR ''z''" and suf: "build_suffix suffix"
  shows "parseHdcVersion (''Ver: '' @ print_version major minor patch letter @ suffix) =
    Some \<lparr>v_major = int major, v_minor = int minor, v_patch = int patch, v_letter = byte_of letter\<rparr>"
proof -
  let ?b = "print_version major minor patch letter"
  note letter = lower_letter_facts [OF l]
  have b: "?b \<noteq> []" "ascii_solid (hd ?b)" "last ?b = letter" "CHR ''-'' \<notin> set ?b"
    using itoa_nat_digits [of major] itoa_nat_digits [of minor] itoa_nat_digits [of patch]
      itoa_nat_ends(1) [of major] letter
    by (auto simp: print_version_def ascii_solid_digit digit_not_punct)
  have bs: "?b @ suffix \<noteq> []" "ascii_solid (hd (?b @ suffix))" "ascii_solid (last (?b @ suffix))"
    using b suf letter by (auto simp: build_suffix_def last_append)
  have "trim_space (''Ver: '' @ ?b @ suffix) = ''Ver: '' @ ?b @ suffix"
    by (rule trim_space_solid) (use bs in \<open>simp add: ascii_solid_def is_space_def\<close>)
  moreover have "cut_prefix (''Ver: '' @ ?b @ suffix) ''Ver:'' = Some (CHR '' '' # ?b @ suffix)"
    by (simp add: cut_prefix_Some)
  moreover have "trim_space (CHR '' '' # ?b @ suffix) = ?b @ suffix"
    by (rule trim_space_cons_solid) (use bs in auto)
  moreover have "(case index_byte (?b @ suffix) (CHR ''-'') of Some i \<Rightarrow> take i (?b @ suffix)
      | None \<Rightarrow> ?b @ suffix) = ?b"
  proof (cases suffix)
    case (Cons c r)
    with suf have "c = CHR ''-''" by (simp add: build_suffix_def)
    with Cons b(4) show ?thesis by (simp add: index_byte_append)
  qed (use b(4) in \<open>simp add: index_byte_None [THEN iffD2]\<close>)
  moreover have "trim_space ?b = ?b"
    using b letter(2) by (intro trim_space_solid) simp
  moreover have "split_char (CHR ''.'') (butlast ?b) = [itoa_nat major, itoa_nat minor, itoa_nat patch]"
    using digit_not_punct [OF itoa_nat_digits]
    by (simp add: print_version_def butlast_append split_char_append split_char_no_sep)
  ultimately show ?thesis
    using assms(1-3) b(1,3) l letter(1)
    by (simp add: parseHdcVersion_def Let_def cong: option.case_cong)
qed

lemma parse_min_version:
  "parseHdcVersion HandshakeMinAuthVersion
     = Some \<lparr>v_major = 3, v_minor = 0, v_patch = 0, v_letter = byte_of (CHR ''b'')\<rparr>"
  by code_simp

lemma byte_of_less: "byte_of c < byte_of d \<longleftrightarrow> c < d"
  by (simp add: word_less_nat_alt less_char_def)

section \<open>Shell command cleaning\<close>

lemma ExtractShellCommand_clean:
  "list_all printable_ascii (ExtractShellCommand f)
     \<and> trim_space (ExtractShellCommand f) = ExtractShellCommand f"
  by (simp add: ExtractShellCommand_def Let_def)

definition put_le32 :: "u32 \<Rightarrow> bytes" where
  "put_le32 w = rev (put_be32 w)"

lemma extractTLV_hit:
  assumes "length val < 2 ^ 32"
  shows "extractTLVValue (put_le32 tag @ put_le32 (of_nat (length val)) @ val @ r) tag = val"
proof -
  have "length (put_le32 w) = 4" and "get_le32 (put_le32 w) = w" for w
    by (simp_all add: put_le32_def get_le32_def)
  then show ?thesis
    using assms by (subst extractTLVValue.simps) (simp add: unat_of_nat Let_def)
qed

lemma extractTLV_miss:
  assumes "length val < 2 ^ 32" and "tag \<noteq> tag'"
  shows "extractTLVValue (put_le32 tag @ put_le32 (of_nat (length val)) @ val @ r) tag'
    = extractTLVValue r tag'"
proof -
  have "length (put_le32 w) = 4" and "get_le32 (put_le32 w) = w" for w
    by (simp_all add: put_le32_def get_le32_def)
  then show ?thesis
    using assms by (subst extractTLVValue.simps) (simp add: unat_of_nat Let_def)
qed

section \<open>Handshake properties\<close>

text \<open>The session handshake message decodes to exactly the record that was encoded,
  for every field value.\<close>

theorem handshake_roundtrip:
  assumes "handshake_sized h"
  shows "DecodeSessionHandshake (encodeSessionHandshake h) = Inr h"
  using assms by (rule DecodeSessionHandshake_encode)

lemma handshake_roundtrip_witness:
  "DecodeSessionHandshake (encodeSessionHandshake \<lparr>Banner = ''OHOS HDC'', AuthType = 3,
     SessionID = 77, ConnectKey = ''k'', Buffer = [], Version = ''Ver: 3.2.0c''\<rparr>)
     = Inr \<lparr>Banner = ''OHOS HDC'', AuthType = 3, SessionID = 77, ConnectKey = ''k'', Buffer = [],
         Version = ''Ver: 3.2.0c''\<rparr>"
  by (rule handshake_roundtrip) (simp add: handshake_sized_def)

text \<open>The 16+16 fixed-width TLV text parses back to the entries that were appended, the
  later entry of a repeated tag winning, whatever bytes the values hold.\<close>

theorem TLV_roundtrip:
  assumes "list_all tlv_entry kvs"
  shows "ParseHandshakeTLV (foldl (\<lambda>b e. AppendHandshakeTLV b (fst e) (snd e)) [] kvs)
    = Inr (foldl (\<lambda>m e. AList.update (fst e) (snd e) m) [] kvs)"
  using parse_tlv_build [OF assms, of "[]"] by (simp add: ParseHandshakeTLV_def build_tlv_def)

lemma TLV_roundtrip_witness:
  "ParseHandshakeTLV (foldl (\<lambda>b e. AppendHandshakeTLV b (fst e) (snd e)) []
       [(''devname'', ''a  1''), (''authtype'', ''1''), (''devname'', ''b'')])
     = Inr (foldl (\<lambda>m e. AList.update (fst e) (snd e) m) []
       [(''devname'', ''a  1''), (''authtype'', ''1''), (''devname'', ''b'')])"
  by (rule TLV_roundtrip) (simp add: tlv_entry_def tlv_tag_def ascii_solid_def is_space_def)

text \<open>The reply that ends a successful handshake is readable end to end: the frame
  decodes, its payload decodes to an authenticated handshake with a non-empty version, and
  its buffer parses to a TLV that names the device and says \<open>SUCCESS\<close>.\<close>

theorem handshake_ok_readable:
  assumes "length dev < 10 ^ 9" and "length (Version rh) < 10 ^ 9"
    and "int (length (EncodeHandshakeOK req rh dev)) \<le> maxFrameBytes"
    and "maxFrameBytes < 2 ^ 32"
  shows "\<exists>f h m. Decode maxFrameBytes (EncodeHandshakeOK req rh dev) = Inr f
     \<and> ChannelID f = ChannelID req \<and> CommandFlag f = CommandKernelHandshake
     \<and> DecodeSessionHandshake (Payload f) = Inr h \<and> AuthType h = HandshakeAuthOK
     \<and> trim_space (Version h) \<noteq> []
     \<and> ParseHandshakeTLV (Buffer h) = Inr m \<and> map_of m ''devname'' = Some dev
     \<and> map_of m ''daemonauthstatus'' = Some ''SUCCESS''"
proof -
  let ?buf = "buildAuthStatusTLV dev [] ''SUCCESS''"
  let ?h = "\<lparr>Banner = ''OHOS HDC'', AuthType = HandshakeAuthOK, SessionID = 0, ConnectKey = [],
    Buffer = ?buf, Version = handshakeVersion (handshakeVersion (Version rh))\<rparr>"
  let ?pl = "encodeSessionHandshake ?h"
  have e: "EncodeHandshakeOK req rh dev = EncodeFrame (ChannelID req) CommandKernelHandshake ?pl"
    by (simp add: EncodeHandshakeOK_def EncodeHandshakeReply_def)
  have "int (length ?pl) \<le> int (length (EncodeHandshakeOK req rh dev))"
    unfolding e length_EncodeFrame by simp
  then have "int (length ?pl) < 2 ^ 32" using assms(3,4) by linarith
  then have "length ?pl < 2 ^ 32" by simp
  then have "Decode maxFrameBytes (EncodeHandshakeOK req rh dev) = Inr \<lparr>ChannelID = ChannelID req,
      CommandFlag = CommandKernelHandshake, CommandName = commandName CommandKernelHandshake,
      CheckSum = 0, VCode = DaemonVCode, Payload = ?pl\<rparr>"
    using assms(3) unfolding e by (rule Decode_encode)
  moreover have v: "trim_space (handshakeVersion v) \<noteq> []" for v
  proof -
    have "trim_space HandshakeFallbackVersion \<noteq> []" by code_simp
    then show ?thesis by (simp add: handshakeVersion_def)
  qed
  moreover have "DecodeSessionHandshake ?pl = Inr ?h"
  proof (rule DecodeSessionHandshake_encode)
    have "length (pad_right 16 (itoa_nat n)) \<le> 36" if "n < 10 ^ 9" for n
      using length_itoa_nat [of n 9] that by simp
    then have "length ?buf < 10 ^ 10"
      using assms(1) length_itoa_nat [of "length dev" 9] length_itoa_nat [of 0 1]
        length_itoa_nat [of "length ''SUCCESS''" 1] length_itoa_nat [of "length ''enable''" 1]
      by (simp add: buildAuthStatusTLV_def AppendHandshakeTLV_def)
    then show "handshake_sized ?h"
      using assms(2) by (auto simp: handshake_sized_def handshakeVersion_def HandshakeFallbackVersion_def)
  qed
  moreover have "ParseHandshakeTLV ?buf = Inr [(''emgmsg'', []), (''devname'', dev),
      (''daemonauthstatus'', ''SUCCESS''), (''1200'', ''enable'')]"
    using assms(1) by (intro parse_auth_status) simp_all
  ultimately show ?thesis by simp
qed

lemma handshake_ok_readable_witness:
  "\<exists>f h m. Decode 4096 (EncodeHandshakeOK \<lparr>ChannelID = 5, CommandFlag = CommandKernelHandshake,
       CommandName = [], CheckSum = 0, VCode = 9, Payload = []\<rparr> zero_handshake ''phone'') = Inr f
     \<and> ChannelID f = ChannelID \<lparr>ChannelID = 5, CommandFlag = CommandKernelHandshake,
       CommandName = [], CheckSum = 0, VCode = 9, Payload = []\<rparr>
     \<and> CommandFlag f = CommandKernelHandshake
     \<and> DecodeSessionHandshake (Payload f) = Inr h \<and> AuthType h = HandshakeAuthOK
     \<and> trim_space (Version h) \<noteq> []
     \<and> ParseHandshakeTLV (Buffer h) = Inr m \<and> map_of m ''devname'' = Some ''phone''
     \<and> map_of m ''daemonauthstatus'' = Some ''SUCCESS''"
proof (rule handshake_ok_readable)
  show "int (length (EncodeHandshakeOK \<lparr>ChannelID = 5, CommandFlag = CommandKernelHandshake,
       CommandName = [], CheckSum = 0, VCode = 9, Payload = []\<rparr> zero_handshake ''phone'')) \<le> 4096"
    by code_simp
qed (simp_all add: zero_handshake_def)

text \<open>The official client is rejected for its age exactly when its version, read as
  (major, minor, patch, letter), comes before 3.0.0b; a build hash after a dash plays no
  part.\<close>

theorem ClientVersionTooOld_iff:
  assumes "major < 2 ^ 63" "minor < 2 ^ 63" "patch < 2 ^ 63"
    and "CHR ''a'' \<le> letter" "letter \<le> CHR ''z''" and "build_suffix suffix"
  shows "ClientVersionTooOld (''Ver: '' @ print_version major minor patch letter @ suffix) \<longleftrightarrow>
    major < 3 \<or> (major = 3 \<and> minor = 0 \<and> patch = 0 \<and> letter = CHR ''a'')"
proof -
  let ?v = "''Ver: '' @ print_version major minor patch letter @ suffix"
  have p: "parseHdcVersion ?v = Some \<lparr>v_major = int major, v_minor = int minor,
      v_patch = int patch, v_letter = byte_of letter\<rparr>"
    using assms by (rule parse_print_version)
  have "parseHdcVersion (trim_space ?v) = parseHdcVersion ?v"
    by (simp add: parseHdcVersion_def del: append_Cons)
  moreover have "trim_space ?v \<noteq> []"
  proof
    assume e: "trim_space ?v = []"
    then have "parseHdcVersion (trim_space ?v) = None"
      unfolding e by (simp add: parseHdcVersion_def cut_prefix_def has_prefix_def)
    with p \<open>parseHdcVersion (trim_space ?v) = parseHdcVersion ?v\<close> show False by simp
  qed
  ultimately have "ClientVersionTooOld ?v \<longleftrightarrow> \<lparr>v_major = int major, v_minor = int minor,
      v_patch = int patch, v_letter = byte_of letter\<rparr>
      < \<lparr>v_major = 3, v_minor = 0, v_patch = 0, v_letter = byte_of (CHR ''b'')\<rparr>"
    using p by (simp add: ClientVersionTooOld_def parse_min_version compare_less Let_def)
  also have "\<dots> \<longleftrightarrow> major < 3 \<or> (major = 3 \<and> minor = 0 \<and> patch = 0 \<and> letter < CHR ''b'')"
    by (auto simp: less_hdcVersion_ext_def byte_of_less)
  also have "letter < CHR ''b'' \<longleftrightarrow> letter = CHR ''a''"
  proof -
    have "(of_char letter :: nat) < of_char (CHR ''b'')
        \<longleftrightarrow> (of_char letter :: nat) = of_char (CHR ''a'')"
      using assms(4) by (auto simp: less_eq_char_def)
    then show ?thesis by (simp only: less_char_def of_char_eq_iff)
  qed
  finally show ?thesis .
qed

lemma ClientVersionTooOld_iff_witness:
  "ClientVersionTooOld (''Ver: '' @ print_version 3 0 0 (CHR ''a'') @ ''-abc'') \<longleftrightarrow>
    (3 :: nat) < 3 \<or> ((3 :: nat) = 3 \<and> (0 :: nat) = 0 \<and> (0 :: nat) = 0 \<and> CHR ''a'' = CHR ''a'')"
proof (rule ClientVersionTooOld_iff)
  show "build_suffix ''-abc''" by code_simp
qed simp_all

text \<open>What a one-shot execute frame hands to the policy and to the device is printable
  ASCII without control characters and without white space at either end; a command whose
  cleaned text has any other byte is dropped whole.\<close>

theorem ExtractShellCommand_safe:
  "list_all printable_ascii (ExtractShellCommand f)
     \<and> trim_space (ExtractShellCommand f) = ExtractShellCommand f
     \<and> (ExtractShellCommand f \<noteq> [] \<longrightarrow>
          \<not> is_space (hd (ExtractShellCommand f)) \<and> \<not> is_space (last (ExtractShellCommand f)))"
  using ExtractShellCommand_clean [of f] trim_space_ends [of "ExtractShellCommand f"] by simp

lemma ExtractShellCommand_safe_witness:
  "\<exists>f. ExtractShellCommand f = ''ls  -l'' \<and> list_all printable_ascii (ExtractShellCommand f)
     \<and> \<not> is_space (hd (ExtractShellCommand f)) \<and> \<not> is_space (last (ExtractShellCommand f))"
proof -
  let ?f = "\<lparr>ChannelID = 1, CommandFlag = CommandUnityExecute, CommandName = [], CheckSum = 0,
    VCode = 9, Payload = bytes_of (CHR 0x0A # ''ls'' @ [CHR 0x00, CHR 0x0D] @ ''-l '')\<rparr>"
  have e: "ExtractShellCommand ?f = ''ls  -l''" by code_simp
  with ExtractShellCommand_safe [of ?f] show ?thesis
    by (intro exI [of _ ?f]) simp
qed

end
