(* ===== verification/Transfer_Codec.thy ===== *)
theory Transfer_Codec
  imports Frame
begin

text \<open>
  File and app transfer messages, \<^verbatim>\<open>src/internal/protocol/transfer.go\<close>: the
  metadata of a transfer, the header of every data frame, and the data frame itself (a
  64-byte zero-padded header followed by the data). The field loops stop at a zero key,
  which is how the padding ends the header.
\<close>

section \<open>Data and field readers\<close>

abbreviation (input) TransferPayloadPrefixBytes :: nat where "TransferPayloadPrefixBytes \<equiv> 64"

type_synonym CompressionType = byte

abbreviation (input) CompressionNone :: CompressionType where "CompressionNone \<equiv> 0"

record TransferConfig =
  tc_FileSize :: u64
  tc_ATime :: u64
  tc_MTime :: u64
  tc_Options :: string
  tc_Path :: string
  tc_OptionalName :: string
  tc_UpdateIfNew :: bool
  tc_Compression :: CompressionType
  tc_HoldTimestamp :: bool
  tc_FunctionName :: string
  tc_ClientCWD :: string
  tc_Reserve1 :: string
  tc_Reserve2 :: string

record TransferPayload =
  tp_Index :: u64
  tp_Compression :: CompressionType
  tp_CompressedSize :: u32
  tp_UncompressedSize :: u32

datatype transfer_error =
    TransferField nat wire_error
  | TransferKey wire_error
  | TransferSizeMismatch
  | TransferHeaderTooLarge nat
  | TransferShortPrefix
  | TransferTruncated
  | TransferOverLimit

definition zero_config :: TransferConfig where
  "zero_config = \<lparr>tc_FileSize = 0, tc_ATime = 0, tc_MTime = 0, tc_Options = [], tc_Path = [],
     tc_OptionalName = [], tc_UpdateIfNew = False, tc_Compression = 0, tc_HoldTimestamp = False,
     tc_FunctionName = [], tc_ClientCWD = [], tc_Reserve1 = [], tc_Reserve2 = []\<rparr>"

definition zero_payload :: TransferPayload where
  "zero_payload = \<lparr>tp_Index = 0, tp_Compression = 0, tp_CompressedSize = 0,
     tp_UncompressedSize = 0\<rparr>"

definition appendBoolField :: "bytes \<Rightarrow> nat \<Rightarrow> bool \<Rightarrow> bytes" where
  "appendBoolField target field v = appendVarintField target field (if v then 1 else 0)"

definition readBool :: "nat \<Rightarrow> bytes \<Rightarrow> wire_error + (bool \<times> bytes)" where
  "readBool wire r =
     (case varintValue wire r of Inl e \<Rightarrow> Inl e | Inr (v, r') \<Rightarrow> Inr (v \<noteq> 0, r'))"

definition readCompressionType :: "nat \<Rightarrow> bytes \<Rightarrow> wire_error + (CompressionType \<times> bytes)" where
  "readCompressionType wire r =
     (case varintValue wire r of Inl e \<Rightarrow> Inl e
      | Inr (v, r') \<Rightarrow> if max_uint8 < v then Inl (OutOfRange ''compression type'' v)
          else Inr (ucast v, r'))"

definition readUint32 :: "nat \<Rightarrow> bytes \<Rightarrow> wire_error + (u32 \<times> bytes)" where
  "readUint32 wire r =
     (case varintValue wire r of Inl e \<Rightarrow> Inl e
      | Inr (v, r') \<Rightarrow> if max_uint32 < v then Inl (OutOfRange ''uint32'' v)
          else Inr (ucast v, r'))"

text \<open>\<open>None\<close> is the \<^verbatim>\<open>stop\<close> result: a zero key.\<close>

definition nextTransferField :: "bytes \<Rightarrow> wire_error + ((nat \<times> nat) option \<times> bytes)" where
  "nextTransferField r =
     (case cursor_varint r of Inl e \<Rightarrow> Inl e
      | Inr (key, r') \<Rightarrow> if key = 0 then Inr (None, r')
          else Inr (Some (key_field key, key_wire key), r'))"

text \<open>Storing the value a reader returns, or passing its error on.\<close>

definition store_field ::
  "wire_error + ('v \<times> bytes) \<Rightarrow> ('v \<Rightarrow> 's) \<Rightarrow> wire_error + ('s \<times> bytes)" where
  "store_field res put = (case res of Inl e \<Rightarrow> Inl e | Inr (v, r) \<Rightarrow> Inr (put v, r))"

section \<open>Transfer metadata\<close>

definition EncodeTransferConfig :: "TransferConfig \<Rightarrow> bytes" where
  "EncodeTransferConfig config =
     (let result = appendVarintField [] 1 (tc_FileSize config);
          result = appendVarintField result 2 (tc_ATime config);
          result = appendVarintField result 3 (tc_MTime config);
          result = appendStringField result 4 (tc_Options config);
          result = appendStringField result 5 (tc_Path config);
          result = appendStringField result 6 (tc_OptionalName config);
          result = appendBoolField result 7 (tc_UpdateIfNew config);
          result = appendVarintField result 8 (ucast (tc_Compression config));
          result = appendBoolField result 9 (tc_HoldTimestamp config);
          result = appendStringField result 10 (tc_FunctionName config);
          result = appendStringField result 11 (tc_ClientCWD config);
          result = appendStringField result 12 (tc_Reserve1 config)
      in appendStringField result 13 (tc_Reserve2 config))"

definition config_field ::
  "nat \<Rightarrow> nat \<Rightarrow> bytes \<Rightarrow> TransferConfig \<Rightarrow> wire_error + (TransferConfig \<times> bytes)" where
  "config_field field wire r c =
     (if field = 1 then store_field (varintValue wire r) (\<lambda>v. c\<lparr>tc_FileSize := v\<rparr>)
      else if field = 2 then store_field (varintValue wire r) (\<lambda>v. c\<lparr>tc_ATime := v\<rparr>)
      else if field = 3 then store_field (varintValue wire r) (\<lambda>v. c\<lparr>tc_MTime := v\<rparr>)
      else if field = 4 then store_field (stringValue wire r) (\<lambda>v. c\<lparr>tc_Options := v\<rparr>)
      else if field = 5 then store_field (stringValue wire r) (\<lambda>v. c\<lparr>tc_Path := v\<rparr>)
      else if field = 6 then store_field (stringValue wire r) (\<lambda>v. c\<lparr>tc_OptionalName := v\<rparr>)
      else if field = 7 then store_field (readBool wire r) (\<lambda>v. c\<lparr>tc_UpdateIfNew := v\<rparr>)
      else if field = 8 then store_field (readCompressionType wire r) (\<lambda>v. c\<lparr>tc_Compression := v\<rparr>)
      else if field = 9 then store_field (readBool wire r) (\<lambda>v. c\<lparr>tc_HoldTimestamp := v\<rparr>)
      else if field = 10 then store_field (stringValue wire r) (\<lambda>v. c\<lparr>tc_FunctionName := v\<rparr>)
      else if field = 11 then store_field (stringValue wire r) (\<lambda>v. c\<lparr>tc_ClientCWD := v\<rparr>)
      else if field = 12 then store_field (stringValue wire r) (\<lambda>v. c\<lparr>tc_Reserve1 := v\<rparr>)
      else if field = 13 then store_field (stringValue wire r) (\<lambda>v. c\<lparr>tc_Reserve2 := v\<rparr>)
      else (case cursor_skip wire r of Inl e \<Rightarrow> Inl e | Inr r' \<Rightarrow> Inr (c, r')))"

lemma store_field_shrinks:
  assumes "store_field res put = Inr (s, r')"
    and "\<And>v q. res = Inr (v, q) \<Longrightarrow> length q < length r"
  shows "length r' \<le> length r"
  using assms by (auto simp: store_field_def split: sum.splits intro: less_imp_le)

lemma readers_shrink:
  "readBool w b = Inr (v, r) \<Longrightarrow> length r < length b"
  "readCompressionType w b = Inr (c, r) \<Longrightarrow> length r < length b"
  "readUint32 w b = Inr (u, r) \<Longrightarrow> length r < length b"
  by (auto simp: readBool_def readCompressionType_def readUint32_def dest!: wire_shrinks
      split: sum.splits if_splits)

lemma config_field_shrinks: "config_field f w r c = Inr (c', r') \<Longrightarrow> length r' \<le> length r"
  by (auto simp: config_field_def dest!: cursor_skip_shrinks split: sum.splits if_splits
      elim!: store_field_shrinks dest: readers_shrink wire_shrinks)

function config_loop :: "TransferConfig \<Rightarrow> bytes \<Rightarrow> transfer_error + TransferConfig" where
  "config_loop c b =
     (if b = [] then Inr c
      else case nextTransferField b of Inl e \<Rightarrow> Inl (TransferKey e)
        | Inr (None, _) \<Rightarrow> Inr c
        | Inr (Some (field, wire), r) \<Rightarrow>
            (case config_field field wire r c of Inl e \<Rightarrow> Inl (TransferField field e)
             | Inr (c', r') \<Rightarrow> config_loop c' r'))"
  by pat_completeness auto
termination
  by (relation "measure (\<lambda>(c, b). length b)")
    (auto simp: nextTransferField_def dest!: cursor_varint_shrinks config_field_shrinks
      split: sum.splits if_splits)

declare config_loop.simps [simp del]

definition DecodeTransferConfig :: "bytes \<Rightarrow> transfer_error + TransferConfig" where
  "DecodeTransferConfig payload = config_loop zero_config payload"

section \<open>Data frame headers\<close>

definition EncodeTransferPayload :: "TransferPayload \<Rightarrow> bytes" where
  "EncodeTransferPayload payload =
     (let result = appendVarintField [] 1 (tp_Index payload);
          result = appendVarintField result 2 (ucast (tp_Compression payload));
          result = appendVarintField result 3 (ucast (tp_CompressedSize payload))
      in appendVarintField result 4 (ucast (tp_UncompressedSize payload)))"

definition payload_field ::
  "nat \<Rightarrow> nat \<Rightarrow> bytes \<Rightarrow> TransferPayload \<Rightarrow> wire_error + (TransferPayload \<times> bytes)" where
  "payload_field field wire r p =
     (if field = 1 then store_field (varintValue wire r) (\<lambda>v. p\<lparr>tp_Index := v\<rparr>)
      else if field = 2 then store_field (readCompressionType wire r) (\<lambda>v. p\<lparr>tp_Compression := v\<rparr>)
      else if field = 3 then store_field (readUint32 wire r) (\<lambda>v. p\<lparr>tp_CompressedSize := v\<rparr>)
      else if field = 4 then store_field (readUint32 wire r) (\<lambda>v. p\<lparr>tp_UncompressedSize := v\<rparr>)
      else (case cursor_skip wire r of Inl e \<Rightarrow> Inl e | Inr r' \<Rightarrow> Inr (p, r')))"

lemma payload_field_shrinks: "payload_field f w r c = Inr (c', r') \<Longrightarrow> length r' \<le> length r"
  by (auto simp: payload_field_def dest!: cursor_skip_shrinks split: sum.splits if_splits
      elim!: store_field_shrinks dest: readers_shrink wire_shrinks)

function payload_loop :: "TransferPayload \<Rightarrow> bytes \<Rightarrow> transfer_error + TransferPayload" where
  "payload_loop p b =
     (if b = [] then Inr p
      else case nextTransferField b of Inl e \<Rightarrow> Inl (TransferKey e)
        | Inr (None, _) \<Rightarrow> Inr p
        | Inr (Some (field, wire), r) \<Rightarrow>
            (case payload_field field wire r p of Inl e \<Rightarrow> Inl (TransferField field e)
             | Inr (p', r') \<Rightarrow> payload_loop p' r'))"
  by pat_completeness auto
termination
  by (relation "measure (\<lambda>(p, b). length b)")
    (auto simp: nextTransferField_def dest!: cursor_varint_shrinks payload_field_shrinks
      split: sum.splits if_splits)

declare payload_loop.simps [simp del]

definition DecodeTransferPayload :: "bytes \<Rightarrow> transfer_error + TransferPayload" where
  "DecodeTransferPayload payload = payload_loop zero_payload payload"

section \<open>Data frames\<close>

definition EncodeTransferData :: "TransferPayload \<Rightarrow> bytes \<Rightarrow> transfer_error + bytes" where
  "EncodeTransferData header data =
     (if length data \<noteq> unat (tp_CompressedSize header) then Inl TransferSizeMismatch
      else let serialized = EncodeTransferPayload header
           in if TransferPayloadPrefixBytes < length serialized + 1
              then Inl (TransferHeaderTooLarge (length serialized))
              else Inr (serialized
                @ replicate (TransferPayloadPrefixBytes - length serialized) 0 @ data))"

definition DecodeTransferData :: "bytes \<Rightarrow> u32 \<Rightarrow> transfer_error + (TransferPayload \<times> bytes)" where
  "DecodeTransferData payload maxUncompressedBytes =
     (if length payload < TransferPayloadPrefixBytes then Inl TransferShortPrefix
      else case DecodeTransferPayload (take TransferPayloadPrefixBytes payload) of
        Inl e \<Rightarrow> Inl e
      | Inr header \<Rightarrow>
          let available = length payload - TransferPayloadPrefixBytes
          in if available < unat (tp_CompressedSize header) then Inl TransferTruncated
             else if maxUncompressedBytes < tp_UncompressedSize header then Inl TransferOverLimit
             else Inr (header, take (unat (tp_CompressedSize header))
               (drop TransferPayloadPrefixBytes payload)))"

section \<open>Round trips\<close>

definition config_step :: "nat \<Rightarrow> nat \<Rightarrow> bytes \<Rightarrow> TransferConfig \<Rightarrow> transfer_error + (TransferConfig \<times> bytes)" where
  "config_step f w r c = map_sum (TransferField f) (\<lambda>x. x) (config_field f w r c)"

definition payload_step :: "nat \<Rightarrow> nat \<Rightarrow> bytes \<Rightarrow> TransferPayload \<Rightarrow> transfer_error + (TransferPayload \<times> bytes)" where
  "payload_step f w r p = map_sum (TransferField f) (\<lambda>x. x) (payload_field f w r p)"

interpretation config_msg: message_loop config_loop TransferKey "\<lambda>key. key = 0" config_step
  by unfold_locales (subst config_loop.simps,
    simp add: nextTransferField_def config_step_def split: sum.split prod.split)+

interpretation payload_msg: message_loop payload_loop TransferKey "\<lambda>key. key = 0" payload_step
  by unfold_locales (subst payload_loop.simps,
    simp add: nextTransferField_def payload_step_def split: sum.split prod.split)+

lemmas reader_defs = store_field_def readBool_def readCompressionType_def readUint32_def

lemma config_varint_fields:
  "config_step (Suc 0) 0 (put_uvarint v @ r) c = Inr (c\<lparr>tc_FileSize := v\<rparr>, r)"
  "config_step 2 0 (put_uvarint v @ r) c = Inr (c\<lparr>tc_ATime := v\<rparr>, r)"
  "config_step 3 0 (put_uvarint v @ r) c = Inr (c\<lparr>tc_MTime := v\<rparr>, r)"
  "config_step 7 0 (put_uvarint (if b then 1 else 0) @ r) c = Inr (c\<lparr>tc_UpdateIfNew := b\<rparr>, r)"
  "config_step 8 0 (put_uvarint (ucast (k :: byte)) @ r) c = Inr (c\<lparr>tc_Compression := k\<rparr>, r)"
  "config_step 9 0 (put_uvarint (if b then 1 else 0) @ r) c = Inr (c\<lparr>tc_HoldTimestamp := b\<rparr>, r)"
  by (simp_all add: config_step_def config_field_def reader_defs)

lemma config_string_fields:
  assumes "length v < 2 ^ 64"
  shows "config_step 4 2 (put_uvarint (of_nat (length v)) @ bytes_of v @ r) c = Inr (c\<lparr>tc_Options := v\<rparr>, r)"
    "config_step 5 2 (put_uvarint (of_nat (length v)) @ bytes_of v @ r) c = Inr (c\<lparr>tc_Path := v\<rparr>, r)"
    "config_step 6 2 (put_uvarint (of_nat (length v)) @ bytes_of v @ r) c = Inr (c\<lparr>tc_OptionalName := v\<rparr>, r)"
    "config_step 10 2 (put_uvarint (of_nat (length v)) @ bytes_of v @ r) c = Inr (c\<lparr>tc_FunctionName := v\<rparr>, r)"
    "config_step 11 2 (put_uvarint (of_nat (length v)) @ bytes_of v @ r) c = Inr (c\<lparr>tc_ClientCWD := v\<rparr>, r)"
    "config_step 12 2 (put_uvarint (of_nat (length v)) @ bytes_of v @ r) c = Inr (c\<lparr>tc_Reserve1 := v\<rparr>, r)"
    "config_step 13 2 (put_uvarint (of_nat (length v)) @ bytes_of v @ r) c = Inr (c\<lparr>tc_Reserve2 := v\<rparr>, r)"
  using assms by (simp_all add: config_step_def config_field_def store_field_def stringValue_put)

lemma payload_fields:
  "payload_step (Suc 0) 0 (put_uvarint v @ r) p = Inr (p\<lparr>tp_Index := v\<rparr>, r)"
  "payload_step 2 0 (put_uvarint (ucast (k :: byte)) @ r) p = Inr (p\<lparr>tp_Compression := k\<rparr>, r)"
  "payload_step 3 0 (put_uvarint (ucast (w :: u32)) @ r) p = Inr (p\<lparr>tp_CompressedSize := w\<rparr>, r)"
  "payload_step 4 0 (put_uvarint (ucast (w :: u32)) @ r) p = Inr (p\<lparr>tp_UncompressedSize := w\<rparr>, r)"
  by (simp_all add: payload_step_def payload_field_def reader_defs)

lemma EncodeTransferPayload_fields:
  "EncodeTransferPayload p = appendVarintField [] 1 (tp_Index p)
     @ appendVarintField [] 2 (ucast (tp_Compression p))
     @ appendVarintField [] 3 (ucast (tp_CompressedSize p))
     @ appendVarintField [] 4 (ucast (tp_UncompressedSize p))"
  unfolding EncodeTransferPayload_def Let_def
  by (metis append.assoc appendVarintField_append)

lemma EncodeTransferConfig_fields:
  "EncodeTransferConfig c = appendVarintField [] 1 (tc_FileSize c)
     @ appendVarintField [] 2 (tc_ATime c) @ appendVarintField [] 3 (tc_MTime c)
     @ appendStringField [] 4 (tc_Options c) @ appendStringField [] 5 (tc_Path c)
     @ appendStringField [] 6 (tc_OptionalName c)
     @ appendVarintField [] 7 (if tc_UpdateIfNew c then 1 else 0)
     @ appendVarintField [] 8 (ucast (tc_Compression c))
     @ appendVarintField [] 9 (if tc_HoldTimestamp c then 1 else 0)
     @ appendStringField [] 10 (tc_FunctionName c) @ appendStringField [] 11 (tc_ClientCWD c)
     @ appendStringField [] 12 (tc_Reserve1 c) @ appendStringField [] 13 (tc_Reserve2 c)"
  unfolding EncodeTransferConfig_def Let_def appendBoolField_def
  by (simp only: appendVarintField_append [of "_ @ _"] appendStringField_append [of "_ @ _"]
      appendVarintField_append [of "appendVarintField [] _ _"]
      appendStringField_append [of "appendVarintField [] _ _"] append.assoc)

lemma payload_loop_encode:
  "payload_loop p0 (EncodeTransferPayload p @ r) = payload_loop p r"
proof -
  note loop = payload_msg.loop_varint_field [where f = 1, simplified]
    payload_msg.loop_varint_field [where f = 2, simplified]
    payload_msg.loop_varint_field [where f = 3, simplified]
    payload_msg.loop_varint_field [where f = 4, simplified]
  show ?thesis
    unfolding EncodeTransferPayload_fields append.assoc One_nat_def
    by (subst loop(1), rule payload_fields, subst loop(2), rule payload_fields,
        subst loop(3), rule payload_fields, subst loop(4), rule payload_fields,
        rule arg_cong [where f = "\<lambda>q. payload_loop q r"], simp)
qed

definition config_sized :: "TransferConfig \<Rightarrow> bool" where
  "config_sized c \<longleftrightarrow> list_all (\<lambda>s. length s < 2 ^ 63) [tc_Options c, tc_Path c,
     tc_OptionalName c, tc_FunctionName c, tc_ClientCWD c, tc_Reserve1 c, tc_Reserve2 c]"

lemma config_loop_encode:
  assumes "config_sized c"
  shows "config_loop c0 (EncodeTransferConfig c @ []) = Inr c"
proof -
  note v = config_msg.loop_varint_field [where f = 1, simplified]
    config_msg.loop_varint_field [where f = 2, simplified]
    config_msg.loop_varint_field [where f = 3, simplified]
    config_msg.loop_varint_field [where f = 7, simplified]
    config_msg.loop_varint_field [where f = 8, simplified]
    config_msg.loop_varint_field [where f = 9, simplified]
  note s = config_msg.loop_string_field [where f = 4, simplified]
    config_msg.loop_string_field [where f = 5, simplified]
    config_msg.loop_string_field [where f = 6, simplified]
    config_msg.loop_string_field [where f = 10, simplified]
    config_msg.loop_string_field [where f = 11, simplified]
    config_msg.loop_string_field [where f = 12, simplified]
    config_msg.loop_string_field [where f = 13, simplified]
  have len: "length (tc_Options c) < 2 ^ 64" "length (tc_Path c) < 2 ^ 64"
    "length (tc_OptionalName c) < 2 ^ 64" "length (tc_FunctionName c) < 2 ^ 64"
    "length (tc_ClientCWD c) < 2 ^ 64" "length (tc_Reserve1 c) < 2 ^ 64"
    "length (tc_Reserve2 c) < 2 ^ 64"
    using assms by (simp_all add: config_sized_def)
  show ?thesis
    unfolding EncodeTransferConfig_fields append.assoc One_nat_def
    by (subst v(1), rule config_varint_fields, subst v(2), rule config_varint_fields,
        subst v(3), rule config_varint_fields,
        subst s(1), rule config_string_fields, rule len,
        subst s(2), rule config_string_fields, rule len,
        subst s(3), rule config_string_fields, rule len,
        subst v(4), rule config_varint_fields [unfolded One_nat_def],
        subst v(5), rule config_varint_fields,
        subst v(6), rule config_varint_fields [unfolded One_nat_def],
        subst s(4), rule config_string_fields, rule len,
        subst s(5), rule config_string_fields, rule len,
        subst s(6), rule config_string_fields, rule len,
        subst s(7), rule config_string_fields, rule len,
        simp add: config_msg.loop_done)
qed

lemma length_EncodeTransferPayload: "0 < length (EncodeTransferPayload p)"
  by (simp add: EncodeTransferPayload_fields)

lemma put_uvarint_zero: "put_uvarint 0 = [0]"
  by (simp add: put_uvarint.simps)

lemma payload_loop_zeros: "payload_loop p (replicate n 0) = Inr p"
proof (cases n)
  case (Suc m)
  then show ?thesis
    using payload_msg.loop_stop [of 0 p "replicate m 0"] by (simp add: put_uvarint_zero)
qed (simp add: payload_msg.loop_done)

section \<open>Transfer properties\<close>

text \<open>The metadata of a transfer decodes to the record that was encoded, all thirteen
  fields.\<close>

theorem TransferConfig_roundtrip:
  assumes "config_sized c"
  shows "DecodeTransferConfig (EncodeTransferConfig c) = Inr c"
  using config_loop_encode [OF assms, of zero_config] by (simp add: DecodeTransferConfig_def)

lemma TransferConfig_roundtrip_witness:
  "DecodeTransferConfig (EncodeTransferConfig (zero_config\<lparr>tc_FileSize := 300,
     tc_Path := ''/data/a'', tc_HoldTimestamp := True, tc_Compression := 4\<rparr>))
   = Inr (zero_config\<lparr>tc_FileSize := 300,
     tc_Path := ''/data/a'', tc_HoldTimestamp := True, tc_Compression := 4\<rparr>)"
  by (rule TransferConfig_roundtrip) (simp add: config_sized_def zero_config_def)

text \<open>A data frame built for a header and its data is decoded to the same header and
  the same data, for every header whose size matches, within the receiver's limit; the
  64-byte prefix is always large enough, so the only reason to refuse to build a frame is a
  size that does not match the data.\<close>

theorem TransferData_roundtrip:
  assumes "length data = unat (tp_CompressedSize h)" and "tp_UncompressedSize h \<le> limit"
  shows "\<exists>f. EncodeTransferData h data = Inr f \<and> DecodeTransferData f limit = Inr (h, data)"
proof -
  let ?s = "EncodeTransferPayload h"
  have len: "length ?s \<le> 44"
    using length_put_uvarint_le [of "tp_Index h"]
      length_put_uvarint_le [of "ucast (tp_Compression h)"]
      length_put_uvarint_le [of "ucast (tp_CompressedSize h)"]
      length_put_uvarint_le [of "ucast (tp_UncompressedSize h)"]
    by (simp add: EncodeTransferPayload_fields appendVarintField_def put_uvarint.simps [of 8]
        put_uvarint.simps [of 16] put_uvarint.simps [of 24] put_uvarint.simps [of 32])
  define f where "f = ?s @ replicate (64 - length ?s) 0 @ data"
  have enc: "EncodeTransferData h data = Inr f"
    using assms(1) len by (simp add: EncodeTransferData_def f_def Let_def)
  have pre: "take 64 f = ?s @ replicate (64 - length ?s) 0" "drop 64 f = data"
    "length f = 64 + length data"
    using len by (simp_all add: f_def)
  have "DecodeTransferPayload (take 64 f) = Inr h"
    unfolding pre DecodeTransferPayload_def payload_loop_encode by (rule payload_loop_zeros)
  then have "DecodeTransferData f limit = Inr (h, data)"
    using assms pre by (simp add: DecodeTransferData_def Let_def not_less)
  with enc show ?thesis by blast
qed

lemma TransferData_roundtrip_witness:
  "\<exists>f. EncodeTransferData \<lparr>tp_Index = 5, tp_Compression = 0, tp_CompressedSize = 2,
       tp_UncompressedSize = 2\<rparr> [0, 8] = Inr f
     \<and> DecodeTransferData f 4096 = Inr (\<lparr>tp_Index = 5, tp_Compression = 0,
       tp_CompressedSize = 2, tp_UncompressedSize = 2\<rparr>, [0, 8])"
  by (rule TransferData_roundtrip) simp_all

text \<open>Whatever bytes a peer sends as a data frame, an accepted frame yields exactly the
  announced number of data bytes, taken from the frame after its 64-byte prefix, and an
  announced uncompressed size within the limit.\<close>

theorem DecodeTransferData_bounds:
  assumes "DecodeTransferData raw limit = Inr (h, data)"
  shows "length data = unat (tp_CompressedSize h) \<and> tp_UncompressedSize h \<le> limit
    \<and> (\<exists>prefix rest. raw = prefix @ data @ rest \<and> length prefix = TransferPayloadPrefixBytes)"
proof -
  from assms have len: "64 \<le> length raw" "unat (tp_CompressedSize h) \<le> length raw - 64"
    and d: "data = take (unat (tp_CompressedSize h)) (drop 64 raw)"
    and lim: "tp_UncompressedSize h \<le> limit"
    by (auto simp: DecodeTransferData_def Let_def split: if_splits sum.splits)
  have "raw = take 64 raw @ data @ drop (unat (tp_CompressedSize h)) (drop 64 raw)"
    unfolding d by (simp del: drop_drop)
  moreover have "length (take 64 raw) = 64" using len by simp
  ultimately show ?thesis
    using len d lim by (metis length_drop length_take min.absorb2)
qed

lemma DecodeTransferData_bounds_witness:
  "\<exists>h. DecodeTransferData (replicate 64 0 @ [7]) 10 = Inr (h, [])
     \<and> (length ([] :: bytes) = unat (tp_CompressedSize h) \<and> tp_UncompressedSize h \<le> 10
     \<and> (\<exists>prefix rest. replicate 64 0 @ [7 :: byte] = prefix @ [] @ rest
          \<and> length prefix = TransferPayloadPrefixBytes))"
proof (intro exI conjI)
  show d: "DecodeTransferData (replicate 64 0 @ [7]) 10 = Inr (zero_payload, [])"
    by code_simp
  show "length ([] :: bytes) = unat (tp_CompressedSize zero_payload)"
    "tp_UncompressedSize zero_payload \<le> 10"
    "replicate 64 0 @ [7 :: byte] = replicate 64 0 @ [] @ [7]" "length (replicate 64 (0 :: byte)) = 64"
    using DecodeTransferData_bounds [OF d] by (simp_all add: zero_payload_def)
qed

end
