(* ===== verification/Shell_Lexer.thy ===== *)
theory Shell_Lexer
  imports Prelude
begin

text \<open>
  The shell scanner of \<^verbatim>\<open>src/internal/policy/shell.go\<close>: one pass over the command
  that knows quotes, escapes, separators, redirections and command substitution, and cuts it
  into segments of words.

  The code scans runes. Every metacharacter is ASCII, so scanning bytes cuts the same
  words out of valid UTF-8; in a word that is not valid UTF-8 the code writes U+FFFD where the
  model keeps the byte, and no rule looks at either.
\<close>

section \<open>State\<close>

record shellSegment =
  tokens :: "string list"
  redirects :: "string list"
  commands :: "string list"
  pipedIn :: bool
  indirect :: bool

definition empty_segment :: shellSegment where
  "empty_segment = \<lparr>tokens = [], redirects = [], commands = [], pipedIn = False, indirect = False\<rparr>"

definition isEmpty :: "shellSegment \<Rightarrow> bool" where
  "isEmpty s \<longleftrightarrow> tokens s = [] \<and> redirects s = [] \<and> \<not> indirect s"

text \<open>The local variables of \<^verbatim>\<open>lexShellSegments\<close>.\<close>

record lexer =
  lx_segments :: "shellSegment list"
  lx_current :: shellSegment
  lx_token :: string
  singleQuoted :: bool
  doubleQuoted :: bool
  substitutionDepth :: nat
  inBacktick :: bool
  pendingRedirect :: bool
  tokenStarted :: bool

definition lex_start :: lexer where
  "lex_start = \<lparr>lx_segments = [], lx_current = empty_segment, lx_token = [],
     singleQuoted = False, doubleQuoted = False, substitutionDepth = 0, inBacktick = False,
     pendingRedirect = False, tokenStarted = False\<rparr>"

section \<open>The closures\<close>

definition flushToken :: "lexer \<Rightarrow> lexer" where
  "flushToken st =
     (if \<not> tokenStarted st then st
      else let val = lx_token st; cur = lx_current st;
               st = st\<lparr>lx_token := [], tokenStarted := False\<rparr>
           in if pendingRedirect st
              then st\<lparr>lx_current := cur\<lparr>redirects := redirects cur @ [val]\<rparr>, pendingRedirect := False\<rparr>
              else st\<lparr>lx_current := cur\<lparr>tokens := tokens cur @ [val]\<rparr>\<rparr>)"

definition flushSegment :: "bool \<Rightarrow> lexer \<Rightarrow> lexer" where
  "flushSegment nextPiped st =
     (let st = flushToken st; cur = lx_current st;
          emitted = (\<not> isEmpty cur);
          st = (if emitted then st\<lparr>lx_segments := lx_segments st @ [cur]\<rparr> else st);
          piped = (if \<not> emitted \<and> \<not> nextPiped then pipedIn cur else nextPiped)
      in st\<lparr>lx_current := empty_segment\<lparr>pipedIn := piped\<rparr>, pendingRedirect := False\<rparr>)"

definition writeRune :: "char \<Rightarrow> lexer \<Rightarrow> lexer" where
  "writeRune c st = st\<lparr>lx_token := lx_token st @ [c], tokenStarted := True\<rparr>"

definition markCommandSubstitution :: "lexer \<Rightarrow> lexer" where
  "markCommandSubstitution st =
     (if tokens (lx_current st) = [] \<and> \<not> tokenStarted st
      then st\<lparr>lx_current := (lx_current st)\<lparr>indirect := True\<rparr>\<rparr> else st)"

definition isSegmentSeparator :: "char \<Rightarrow> bool" where
  "isSegmentSeparator c \<longleftrightarrow> c = CHR '';'' \<or> c = CHR ''&'' \<or> c = CHR ''('' \<or> c = CHR '')''
     \<or> c = CHR 0x0A \<or> c = CHR 0x0D \<or> c = CHR 0x00"

definition isTokenSeparator :: "char \<Rightarrow> bool" where
  "isTokenSeparator c \<longleftrightarrow> c = CHR '' '' \<or> c = CHR 0x09 \<or> c = CHR 0x0C \<or> c = CHR 0x0B
     \<or> c = CHR ''<'' \<or> c = CHR ''{'' \<or> c = CHR ''}''"

section \<open>The scan\<close>

abbreviation (input) squote :: char where "squote \<equiv> CHR 0x27"
abbreviation (input) dquote :: char where "dquote \<equiv> CHR 0x22"
abbreviation (input) backslash :: char where "backslash \<equiv> CHR 0x5C"
abbreviation (input) backtick :: char where "backtick \<equiv> CHR 0x60"

text \<open>One turn of the loop, the cases in the order of the switch. The second component says
  whether the turn also consumed the next character (\<^verbatim>\<open>index++\<close>).\<close>

definition lex_step :: "lexer \<Rightarrow> char \<Rightarrow> string \<Rightarrow> lexer \<times> bool" where
  "lex_step st c rest =
     (let literal = (doubleQuoted st \<and> substitutionDepth st = 0 \<and> \<not> inBacktick st)
      in if singleQuoted st then
           (if c = squote then (st\<lparr>singleQuoted := False\<rparr>, False) else (writeRune c st, False))
         else if c = backslash \<and> rest \<noteq> [] then (writeRune (hd rest) st, True)
         else if c = squote \<and> \<not> literal then
           (st\<lparr>singleQuoted := True, tokenStarted := True\<rparr>, False)
         else if c = dquote then
           (st\<lparr>doubleQuoted := \<not> doubleQuoted st, tokenStarted := True\<rparr>, False)
         else if c = CHR ''$'' \<and> rest \<noteq> [] \<and> hd rest = CHR ''('' then
           (flushSegment False (markCommandSubstitution
             (st\<lparr>substitutionDepth := substitutionDepth st + 1\<rparr>)), True)
         else if c = backtick then
           (flushSegment False (markCommandSubstitution
             (st\<lparr>inBacktick := \<not> inBacktick st\<rparr>)), False)
         else if c = CHR '')'' \<and> 0 < substitutionDepth st then
           (flushSegment False (st\<lparr>substitutionDepth := substitutionDepth st - 1\<rparr>), False)
         else if literal then (writeRune c st, False)
         else if c = CHR ''|'' then
           (if pendingRedirect st then (st, False)
            else if rest \<noteq> [] \<and> hd rest = CHR ''|'' then (flushSegment False st, True)
            else (flushSegment True st, False))
         else if isSegmentSeparator c then (flushSegment False st, False)
         else if c = CHR ''>'' then ((flushToken st)\<lparr>pendingRedirect := True\<rparr>, False)
         else if isTokenSeparator c then (flushToken st, False)
         else (writeRune c st, False))"

function lex_loop :: "lexer \<Rightarrow> string \<Rightarrow> lexer" where
  "lex_loop st [] = st"
| "lex_loop st (c # rest) =
     (case lex_step st c rest of (st', skip) \<Rightarrow> lex_loop st' (if skip then tl rest else rest))"
  by pat_completeness auto
termination
  by (relation "measure (\<lambda>(st, s). length s)") (auto split: if_splits)

definition stripQuotes :: "string \<Rightarrow> string" where
  "stripQuotes s = map (\<lambda>c. if c = dquote \<or> c = squote then CHR '' '' else c) s"

definition is_quote :: "char \<Rightarrow> bool" where
  "is_quote c \<longleftrightarrow> c = dquote \<or> c = squote"

lemma flush_quotes [simp]:
  "singleQuoted (flushToken st) = singleQuoted st" "doubleQuoted (flushToken st) = doubleQuoted st"
  "singleQuoted (flushSegment b st) = singleQuoted st"
  "doubleQuoted (flushSegment b st) = doubleQuoted st"
  "singleQuoted (writeRune c st) = singleQuoted st" "doubleQuoted (writeRune c st) = doubleQuoted st"
  "singleQuoted (markCommandSubstitution st) = singleQuoted st"
  "doubleQuoted (markCommandSubstitution st) = doubleQuoted st"
  by (simp_all add: flushToken_def flushSegment_def writeRune_def markCommandSubstitution_def Let_def)

text \<open>Every turn is one of these transformations of the state.\<close>

lemma lex_step_inv:
  assumes "P st"
    and "\<And>d s. P s \<Longrightarrow> P (writeRune d s)" and "\<And>s. P s \<Longrightarrow> P (flushToken s)"
    and "\<And>b s. P s \<Longrightarrow> P (flushSegment b s)" and "\<And>s. P s \<Longrightarrow> P (markCommandSubstitution s)"
    and "\<And>s. P s \<Longrightarrow> P (s\<lparr>pendingRedirect := True\<rparr>)"
    and "\<And>d s. P s \<Longrightarrow> P (s\<lparr>substitutionDepth := d\<rparr>)"
    and "\<And>b s. P s \<Longrightarrow> P (s\<lparr>inBacktick := b\<rparr>)"
    and "singleQuoted st \<Longrightarrow> P (st\<lparr>singleQuoted := False\<rparr>)"
    and "c = squote \<Longrightarrow> P (st\<lparr>singleQuoted := True, tokenStarted := True\<rparr>)"
    and "\<And>b. c = dquote \<Longrightarrow> P (st\<lparr>doubleQuoted := b, tokenStarted := True\<rparr>)"
  shows "P (fst (lex_step st c rest))"
proof -
  have cases: "\<And>b x y. (b \<Longrightarrow> P (fst x)) \<Longrightarrow> (\<not> b \<Longrightarrow> P (fst y)) \<Longrightarrow> P (fst (if b then x else y))"
    by simp
  show ?thesis
    unfolding lex_step_def Let_def
    by (intro cases; unfold fst_conv; intro assms; (assumption | erule conjunct1))
qed

lemma lex_step_no_quotes:
  assumes "\<not> is_quote c" and "lex_step st c rest = (st', skip)"
    and "\<not> singleQuoted st" and "\<not> doubleQuoted st"
  shows "\<not> singleQuoted st' \<and> \<not> doubleQuoted st'"
  using lex_step_inv [where P = "\<lambda>s. \<not> singleQuoted s \<and> \<not> doubleQuoted s" and st = st
      and c = c and rest = rest] assms
  by (simp add: is_quote_def)

lemma lex_loop_no_quotes:
  "list_all (\<lambda>c. \<not> is_quote c) s \<Longrightarrow> \<not> singleQuoted st \<Longrightarrow> \<not> doubleQuoted st \<Longrightarrow>
     \<not> singleQuoted (lex_loop st s) \<and> \<not> doubleQuoted (lex_loop st s)"
proof (induction st s rule: lex_loop.induct)
  case (2 st c rest)
  obtain st' skip where step: "lex_step st c rest = (st', skip)" by fastforce
  have "list_all (\<lambda>c. \<not> is_quote c) (if skip then tl rest else rest)"
    using "2.prems"(1) by (cases rest) auto
  moreover have "\<not> singleQuoted st'" "\<not> doubleQuoted st'"
    using lex_step_no_quotes [OF _ step] "2.prems" by simp_all
  ultimately show ?case using "2.IH" [OF step [symmetric]] step by simp
qed simp

lemma stripQuotes_no_quotes: "list_all (\<lambda>c. \<not> is_quote c) (stripQuotes s)"
  by (auto simp: stripQuotes_def is_quote_def list_all_iff)

text \<open>One pass, and whether it ended inside a quote.\<close>

definition lex_once :: "string \<Rightarrow> shellSegment list \<times> bool" where
  "lex_once command =
     (let st = flushSegment False (lex_loop lex_start command)
      in (lx_segments st, singleQuoted st \<or> doubleQuoted st))"

lemma lex_once_no_quotes: "list_all (\<lambda>c. \<not> is_quote c) s \<Longrightarrow> \<not> snd (lex_once s)"
  using lex_loop_no_quotes [of s lex_start] by (simp add: lex_once_def lex_start_def Let_def)

function lexShellSegments :: "string \<Rightarrow> shellSegment list" where
  "lexShellSegments command =
     (if snd (lex_once command) then fst (lex_once command) @ lexShellSegments (stripQuotes command)
      else fst (lex_once command))"
  by pat_completeness auto
termination
proof (relation "measure (\<lambda>s. length (filter is_quote s))", simp)
  fix command
  assume "snd (lex_once command)"
  then have "\<not> list_all (\<lambda>c. \<not> is_quote c) command"
    using lex_once_no_quotes by blast
  then have "filter is_quote command \<noteq> []"
    by (auto simp: list_all_iff filter_empty_conv)
  moreover have "filter is_quote (stripQuotes command) = []"
    using stripQuotes_no_quotes by (auto simp: list_all_iff filter_empty_conv)
  ultimately show "(stripQuotes command, command) \<in> measure (\<lambda>s. length (filter is_quote s))"
    by simp
qed

declare lexShellSegments.simps [simp del]

section \<open>Words, however they are written\<close>

text \<open>A word of a command is a run of pieces: bare characters, escaped characters,
  single-quoted and double-quoted text. \<open>piece_val\<close> is what the shell reads.\<close>

datatype piece = Bare char | Escaped char | Single string | Double string

definition bare_char :: "char \<Rightarrow> bool" where
  "bare_char c \<longleftrightarrow> c \<notin> {squote, dquote, backslash, backtick, CHR ''$'', CHR ''|'', CHR ''>''}
     \<and> \<not> isSegmentSeparator c \<and> \<not> isTokenSeparator c"

fun piece_ok :: "piece \<Rightarrow> bool" where
  "piece_ok (Bare c) = bare_char c"
| "piece_ok (Escaped c) = (c \<noteq> CHR 0x0A)"
| "piece_ok (Single s) = (squote \<notin> set s)"
| "piece_ok (Double s) = list_all (\<lambda>c. c \<notin> {dquote, backslash, backtick, CHR ''$''}) s"

fun piece_text :: "piece \<Rightarrow> string" where
  "piece_text (Bare c) = [c]"
| "piece_text (Escaped c) = [backslash, c]"
| "piece_text (Single s) = squote # s @ [squote]"
| "piece_text (Double s) = dquote # s @ [dquote]"

fun piece_val :: "piece \<Rightarrow> string" where
  "piece_val (Bare c) = [c]"
| "piece_val (Escaped c) = [c]"
| "piece_val (Single s) = s"
| "piece_val (Double s) = s"

type_synonym word_form = "piece list"

definition form_ok :: "word_form \<Rightarrow> bool" where
  "form_ok w \<longleftrightarrow> w \<noteq> [] \<and> list_all piece_ok w"

definition form_text :: "word_form \<Rightarrow> string" where
  "form_text w = concat (map piece_text w)"

definition form_val :: "word_form \<Rightarrow> string" where
  "form_val w = concat (map piece_val w)"

definition idle :: "lexer \<Rightarrow> bool" where
  "idle st \<longleftrightarrow> \<not> singleQuoted st \<and> \<not> doubleQuoted st \<and> substitutionDepth st = 0
     \<and> \<not> inBacktick st"

definition put_text :: "string \<Rightarrow> lexer \<Rightarrow> lexer" where
  "put_text s st = st\<lparr>lx_token := lx_token st @ s, tokenStarted := True\<rparr>"

lemma put_text_idle [simp]: "idle (put_text s st) = idle st"
  by (simp add: put_text_def idle_def)

lemma put_text_put_text [simp]: "put_text t (put_text s st) = put_text (s @ t) st"
  by (simp add: put_text_def)

lemma put_text_Nil [simp]: "tokenStarted st \<Longrightarrow> put_text [] st = st"
  by (cases st) (simp add: put_text_def)

lemma writeRune_put: "writeRune c st = put_text [c] st"
  by (simp add: writeRune_def put_text_def)

lemma lex_bare:
  "idle st \<Longrightarrow> bare_char c \<Longrightarrow> lex_loop st (c # rest) = lex_loop (put_text [c] st) rest"
  by (simp add: lex_step_def idle_def bare_char_def writeRune_put Let_def)

lemma lex_escaped:
  "idle st \<Longrightarrow> lex_loop st (backslash # c # rest) = lex_loop (put_text [c] st) rest"
  by (simp add: lex_step_def idle_def writeRune_put Let_def)

lemma lex_in_single:
  "squote \<notin> set s \<Longrightarrow> singleQuoted st \<Longrightarrow> tokenStarted st \<Longrightarrow>
     lex_loop st (s @ squote # rest) = lex_loop ((put_text s st)\<lparr>singleQuoted := False\<rparr>) rest"
proof (induction s arbitrary: st)
  case (Cons c s)
  have "lex_loop st ((c # s) @ squote # rest) = lex_loop (put_text [c] st) (s @ squote # rest)"
    using Cons.prems by (auto simp: lex_step_def writeRune_put Let_def)
  also have "\<dots> = lex_loop ((put_text s (put_text [c] st))\<lparr>singleQuoted := False\<rparr>) rest"
    by (rule Cons.IH) (use Cons.prems in \<open>simp_all add: put_text_def\<close>)
  finally show ?case by simp
qed (simp add: lex_step_def Let_def)

lemma lex_in_double:
  "list_all (\<lambda>c. c \<notin> {dquote, backslash, backtick, CHR ''$''}) s \<Longrightarrow> doubleQuoted st \<Longrightarrow>
     \<not> singleQuoted st \<Longrightarrow> substitutionDepth st = 0 \<Longrightarrow> \<not> inBacktick st \<Longrightarrow> tokenStarted st \<Longrightarrow>
     lex_loop st (s @ dquote # rest) = lex_loop ((put_text s st)\<lparr>doubleQuoted := False\<rparr>) rest"
proof (induction s arbitrary: st)
  case (Cons c s)
  have "lex_loop st ((c # s) @ dquote # rest) = lex_loop (put_text [c] st) (s @ dquote # rest)"
    using Cons.prems by (auto simp: lex_step_def writeRune_put Let_def)
  also have "\<dots> = lex_loop ((put_text s (put_text [c] st))\<lparr>doubleQuoted := False\<rparr>) rest"
    by (rule Cons.IH) (use Cons.prems in \<open>simp_all add: put_text_def\<close>)
  finally show ?case by simp
next
  case (Nil st)
  then have "put_text [] st = st" by simp
  then show ?case using Nil by (cases st) (simp add: lex_step_def Let_def)
qed

lemma lex_piece:
  assumes "idle st" and "piece_ok p"
  shows "lex_loop st (piece_text p @ rest) = lex_loop (put_text (piece_val p) st) rest"
proof (cases p)
  case (Single s)
  have "lex_loop st (piece_text p @ rest)
      = lex_loop (st\<lparr>singleQuoted := True, tokenStarted := True\<rparr>) (s @ squote # rest)"
    using assms by (simp add: Single lex_step_def idle_def Let_def)
  also have "\<dots> = lex_loop ((put_text s (st\<lparr>singleQuoted := True, tokenStarted := True\<rparr>))\<lparr>singleQuoted := False\<rparr>) rest"
    using assms by (intro lex_in_single) (simp_all add: Single)
  also have "(put_text s (st\<lparr>singleQuoted := True, tokenStarted := True\<rparr>))\<lparr>singleQuoted := False\<rparr>
      = put_text s st"
    using assms by (cases st) (simp add: put_text_def idle_def)
  finally show ?thesis by (simp add: Single)
next
  case (Double s)
  have "lex_loop st (piece_text p @ rest)
      = lex_loop (st\<lparr>doubleQuoted := True, tokenStarted := True\<rparr>) (s @ dquote # rest)"
    using assms by (simp add: Double lex_step_def idle_def Let_def)
  also have "\<dots> = lex_loop ((put_text s (st\<lparr>doubleQuoted := True, tokenStarted := True\<rparr>))\<lparr>doubleQuoted := False\<rparr>) rest"
    using assms by (intro lex_in_double) (simp_all add: Double idle_def)
  also have "(put_text s (st\<lparr>doubleQuoted := True, tokenStarted := True\<rparr>))\<lparr>doubleQuoted := False\<rparr>
      = put_text s st"
    using assms by (cases st) (simp add: put_text_def idle_def)
  finally show ?thesis by (simp add: Double)
qed (use assms lex_bare lex_escaped in auto)

lemma lex_form:
  "idle st \<Longrightarrow> list_all piece_ok w \<Longrightarrow> tokenStarted st \<or> w \<noteq> [] \<Longrightarrow>
     lex_loop st (form_text w @ rest) = lex_loop (put_text (form_val w) st) rest"
proof (induction w arbitrary: st)
  case Nil
  then have "put_text [] st = st" by (cases st) (simp add: put_text_def)
  then show ?case by (simp add: form_text_def form_val_def)
next
  case (Cons p w)
  have "lex_loop st (form_text (p # w) @ rest)
      = lex_loop (put_text (piece_val p) st) (form_text w @ rest)"
    using Cons.prems by (simp add: form_text_def lex_piece)
  also have "\<dots> = lex_loop (put_text (form_val w) (put_text (piece_val p) st)) rest"
    by (rule Cons.IH) (use Cons.prems in \<open>simp_all add: put_text_def idle_def\<close>)
  finally show ?case by (simp add: form_val_def)
qed

text \<open>A lexer at the start of a word, with no redirection pending.\<close>

definition at_word :: "lexer \<Rightarrow> bool" where
  "at_word st \<longleftrightarrow> idle st \<and> lx_token st = [] \<and> \<not> tokenStarted st \<and> \<not> pendingRedirect st"

definition add_tokens :: "string list \<Rightarrow> lexer \<Rightarrow> lexer" where
  "add_tokens ws st =
     st\<lparr>lx_current := (lx_current st)\<lparr>tokens := tokens (lx_current st) @ ws\<rparr>\<rparr>"

definition words_text :: "word_form list \<Rightarrow> string" where
  "words_text ws = join_with '' '' (map form_text ws)"

lemma flush_put: "at_word st \<Longrightarrow> flushToken (put_text s st) = add_tokens [s] st"
  by (cases st) (simp add: at_word_def put_text_def flushToken_def add_tokens_def Let_def)

lemma add_tokens_simps [simp]:
  "at_word (add_tokens ws st) = at_word st"
  "add_tokens vs (add_tokens us st) = add_tokens (us @ vs) st"
  by (simp_all add: add_tokens_def at_word_def idle_def)

lemma lex_words:
  "at_word st \<Longrightarrow> list_all form_ok ws \<Longrightarrow> ws \<noteq> [] \<Longrightarrow>
     flushToken (lex_loop st (words_text ws)) = add_tokens (map form_val ws) st"
proof (induction ws arbitrary: st)
  case (Cons w ws)
  have idle: "idle st" and w: "list_all piece_ok w" "w \<noteq> []"
    using Cons.prems by (simp_all add: at_word_def form_ok_def)
  show ?case
  proof (cases ws)
    case Nil
    have "lex_loop st (form_text w @ []) = lex_loop (put_text (form_val w) st) []"
      using idle w by (intro lex_form) simp_all
    then show ?thesis using Cons.prems by (simp add: Nil words_text_def flush_put)
  next
    case (Cons v vs)
    have "lex_loop st (words_text (w # ws)) = lex_loop st (form_text w @ CHR '' '' # words_text ws)"
      by (simp add: words_text_def Cons)
    also have "\<dots> = lex_loop (put_text (form_val w) st) (CHR '' '' # words_text ws)"
      using idle w by (intro lex_form) simp_all
    also have "\<dots> = lex_loop (flushToken (put_text (form_val w) st)) (words_text ws)"
      using idle by (simp add: lex_step_def idle_def put_text_def isSegmentSeparator_def
          isTokenSeparator_def Let_def)
    finally have "lex_loop st (words_text (w # ws))
        = lex_loop (add_tokens [form_val w] st) (words_text ws)"
      using Cons.prems by (simp add: flush_put)
    then show ?thesis
      using Cons.IH [of "add_tokens [form_val w] st"] Cons.prems Cons by simp
  qed
qed simp

lemma at_word_start [simp]: "at_word (lex_start\<lparr>lx_segments := sg, lx_current := cur\<rparr>)"
  by (simp add: lex_start_def at_word_def idle_def)

section \<open>Separators cut the command\<close>

definition cut_char :: "char \<Rightarrow> bool" where
  "cut_char c \<longleftrightarrow> c = CHR '';'' \<or> c = CHR ''&'' \<or> c = CHR 0x0A \<or> c = CHR 0x0D \<or> c = CHR 0x00"

text \<open>The prefix of a command leaves the scanner outside every quote and substitution.\<close>

definition closed_prefix :: "string \<Rightarrow> bool" where
  "closed_prefix s \<longleftrightarrow> idle (lex_loop lex_start s) \<and> (s = [] \<or> last s \<noteq> backslash)"

lemma lex_step_hd:
  assumes "rest \<noteq> []" and "rest' \<noteq> []" and "hd rest' = hd rest"
  shows "lex_step st c rest' = lex_step st c rest"
  by (simp only: lex_step_def assms simp_thms)

lemma lex_step_cut:
  assumes "cut_char sep" and "c \<noteq> backslash \<or> rest \<noteq> []"
  shows "lex_step st c (rest @ sep # r) = lex_step st c rest"
proof (cases rest)
  case Nil
  have "(sep = CHR ''('') = False" "(sep = CHR ''|'') = False" "(c = backslash) = False"
    using assms Nil by (auto simp: cut_char_def)
  then have "lex_step st c (sep # r) = lex_step st c []"
    by (simp only: lex_step_def list.distinct list.sel simp_thms if_False)
  with Nil show ?thesis by simp
qed (rule lex_step_hd, simp_all)

lemma lex_step_skip: "lex_step st c rest = (st', True) \<Longrightarrow> rest \<noteq> []"
  by (auto simp: lex_step_def Let_def split: if_splits)

lemma lex_loop_cut:
  "cut_char sep \<Longrightarrow> s = [] \<or> last s \<noteq> backslash \<Longrightarrow>
     lex_loop st (s @ sep # r) = lex_loop (lex_loop st s) (sep # r)"
proof (induction st s rule: lex_loop.induct)
  case (2 st c rest)
  obtain st' skip where step: "lex_step st c rest = (st', skip)" by fastforce
  have "c \<noteq> backslash \<or> rest \<noteq> []"
    using "2.prems"(2) by (cases rest) auto
  then have step': "lex_step st c (rest @ sep # r) = (st', skip)"
    using lex_step_cut [OF "2.prems"(1)] step by simp
  show ?case
  proof (cases skip)
    case True
    then obtain d rest' where rest: "rest = d # rest'"
      using lex_step_skip step by (cases rest) auto
    have "rest' = [] \<or> last rest' \<noteq> backslash"
      using "2.prems"(2) rest by (auto split: if_splits)
    with "2.IH" [OF step [symmetric]] "2.prems"(1) True rest
    have "lex_loop st' (rest' @ sep # r) = lex_loop (lex_loop st' rest') (sep # r)" by simp
    with step step' True rest show ?thesis by simp
  next
    case False
    have "rest = [] \<or> last rest \<noteq> backslash"
      using "2.prems"(2) by (auto split: if_splits)
    with "2.IH" [OF step [symmetric]] "2.prems"(1) False
    have "lex_loop st' (rest @ sep # r) = lex_loop (lex_loop st' rest) (sep # r)" by simp
    with step step' False show ?thesis by simp
  qed
qed simp

lemma cut_step: "cut_char sep \<Longrightarrow> idle st \<Longrightarrow> lex_loop st (sep # r) = lex_loop (flushSegment False st) r"
  by (auto simp: cut_char_def idle_def lex_step_def isSegmentSeparator_def Let_def)

definition token_clean :: "lexer \<Rightarrow> bool" where
  "token_clean st \<longleftrightarrow> (tokenStarted st \<or> lx_token st = [])"

lemma token_clean_ops:
  "token_clean (writeRune c st)" "token_clean st \<Longrightarrow> token_clean (flushToken st)"
  "token_clean st \<Longrightarrow> token_clean (flushSegment b st)"
  "token_clean st \<Longrightarrow> token_clean (markCommandSubstitution st)"
  by (auto simp: token_clean_def flushToken_def flushSegment_def writeRune_def
      markCommandSubstitution_def Let_def)

lemma token_clean_step:
  assumes "token_clean st" and "lex_step st c rest = (st', skip)"
  shows "token_clean st'"
proof -
  have "token_clean (fst (lex_step st c rest))"
    by (rule lex_step_inv) (simp_all add: assms(1) token_clean_ops, (use assms(1) in \<open>simp_all add: token_clean_def\<close>))
  then show ?thesis by (simp add: assms(2))
qed

lemma token_clean_loop: "token_clean st \<Longrightarrow> token_clean (lex_loop st s)"
proof (induction st s rule: lex_loop.induct)
  case (2 st c rest)
  obtain st' skip where step: "lex_step st c rest = (st', skip)" by fastforce
  with "2.IH" [OF step [symmetric]] token_clean_step [OF "2.prems" step] show ?case by simp
qed simp

lemma flushSegment_idle:
  assumes "idle st" and "token_clean st"
  shows "\<exists>piped. flushSegment False st = lex_start\<lparr>lx_segments := lx_segments (flushSegment False st),
     lx_current := empty_segment\<lparr>pipedIn := piped\<rparr>\<rparr>"
  using assms
  by (cases st) (auto simp: flushSegment_def flushToken_def lex_start_def idle_def
      token_clean_def Let_def split: if_splits)

text \<open>After a cut the scanner runs as from the start: the segments it adds are the same up
  to the pipe mark, which an earlier \<^verbatim>\<open>|\<close> before an empty segment can set.\<close>

definition seg_le :: "shellSegment \<Rightarrow> shellSegment \<Rightarrow> bool" where
  "seg_le s t \<longleftrightarrow> tokens t = tokens s \<and> redirects t = redirects s \<and> commands t = commands s
     \<and> indirect t = indirect s \<and> (pipedIn s \<longrightarrow> pipedIn t)"

definition same_scan :: "shellSegment list \<Rightarrow> lexer \<Rightarrow> lexer \<Rightarrow> bool" where
  "same_scan pre st st' \<longleftrightarrow> lx_token st' = lx_token st \<and> singleQuoted st' = singleQuoted st
     \<and> doubleQuoted st' = doubleQuoted st \<and> substitutionDepth st' = substitutionDepth st
     \<and> inBacktick st' = inBacktick st \<and> pendingRedirect st' = pendingRedirect st
     \<and> tokenStarted st' = tokenStarted st \<and> seg_le (lx_current st) (lx_current st')
     \<and> (\<exists>X. lx_segments st' = pre @ X \<and> list_all2 seg_le (lx_segments st) X)"

lemma seg_le_isEmpty: "seg_le s t \<Longrightarrow> isEmpty t = isEmpty s"
  by (simp add: seg_le_def isEmpty_def)

lemma same_flushToken: "same_scan pre st st' \<Longrightarrow> same_scan pre (flushToken st) (flushToken st')"
  by (simp add: same_scan_def flushToken_def seg_le_def Let_def)

lemma same_flushSegment:
  assumes "same_scan pre st st'"
  shows "same_scan pre (flushSegment b st) (flushSegment b st')"
proof -
  have "same_scan pre (flushToken st) (flushToken st')" using assms by (rule same_flushToken)
  moreover have "list_all2 seg_le (xs @ [s]) (ys @ [t])" if "list_all2 seg_le xs ys" "seg_le s t" for xs ys s t
    using that by (simp add: list_all2_appendI)
  ultimately show ?thesis
    using seg_le_isEmpty [of "lx_current (flushToken st)" "lx_current (flushToken st')"]
    unfolding flushSegment_def Let_def
    by (auto simp: same_scan_def seg_le_def empty_segment_def)
qed

lemma same_ops:
  assumes "same_scan pre st st'"
  shows "same_scan pre (writeRune c st) (writeRune c st')"
    and "same_scan pre (markCommandSubstitution st) (markCommandSubstitution st')"
    and "same_scan pre (st\<lparr>pendingRedirect := True\<rparr>) (st'\<lparr>pendingRedirect := True\<rparr>)"
    and "same_scan pre (st\<lparr>substitutionDepth := d\<rparr>) (st'\<lparr>substitutionDepth := d\<rparr>)"
    and "same_scan pre (st\<lparr>inBacktick := b\<rparr>) (st'\<lparr>inBacktick := b\<rparr>)"
    and "same_scan pre (st\<lparr>singleQuoted := False\<rparr>) (st'\<lparr>singleQuoted := False\<rparr>)"
    and "same_scan pre (st\<lparr>singleQuoted := True, tokenStarted := True\<rparr>)
           (st'\<lparr>singleQuoted := True, tokenStarted := True\<rparr>)"
    and "same_scan pre (st\<lparr>doubleQuoted := b, tokenStarted := True\<rparr>)
           (st'\<lparr>doubleQuoted := b, tokenStarted := True\<rparr>)"
  using assms
  by (simp_all add: same_scan_def writeRune_def markCommandSubstitution_def seg_le_def)

lemma same_step:
  assumes "same_scan pre st st'"
  shows "same_scan pre (fst (lex_step st c rest)) (fst (lex_step st' c rest))
    \<and> snd (lex_step st' c rest) = snd (lex_step st c rest)"
proof -
  let ?Q = "\<lambda>x y. same_scan pre (fst x) (fst y) \<and> snd y = snd x"
  have eqs: "singleQuoted st' = singleQuoted st" "doubleQuoted st' = doubleQuoted st"
    "substitutionDepth st' = substitutionDepth st" "inBacktick st' = inBacktick st"
    "pendingRedirect st' = pendingRedirect st"
    using assms by (simp_all add: same_scan_def)
  have cases: "\<And>b x y x' y'. (b \<Longrightarrow> ?Q x x') \<Longrightarrow> (\<not> b \<Longrightarrow> ?Q y y')
      \<Longrightarrow> ?Q (if b then x else y) (if b then x' else y')"
    by simp
  show ?thesis
    unfolding lex_step_def Let_def eqs
    by (intro cases; unfold fst_conv snd_conv; intro conjI refl same_ops same_flushSegment
        same_flushToken assms)
qed

lemma same_loop:
  "same_scan pre st st' \<Longrightarrow> same_scan pre (lex_loop st s) (lex_loop st' s)"
proof (induction st s arbitrary: st' rule: lex_loop.induct)
  case (2 st c rest)
  obtain s1 k where step: "lex_step st c rest = (s1, k)" by fastforce
  obtain s1' k' where step': "lex_step st' c rest = (s1', k')" by fastforce
  have "same_scan pre s1 s1'" "k' = k"
    using same_step [OF "2.prems", of c rest] step step' by simp_all
  with "2.IH" [OF step [symmetric]] step step' show ?case by simp
qed simp

lemma lex_once_cut:
  assumes "closed_prefix p" and "cut_char sep"
  shows "snd (lex_once (p @ sep # q)) = snd (lex_once q)"
    and "\<exists>X. fst (lex_once (p @ sep # q)) = fst (lex_once p) @ X
      \<and> list_all2 seg_le (fst (lex_once q)) X"
proof -
  let ?s = "flushSegment False (lex_loop lex_start p)"
  have idle: "idle (lex_loop lex_start p)" and last: "p = [] \<or> last p \<noteq> backslash"
    using assms(1) by (simp_all add: closed_prefix_def)
  have "token_clean (lex_loop lex_start p)"
    by (rule token_clean_loop) (simp add: token_clean_def lex_start_def)
  with idle obtain piped where s: "?s = lex_start\<lparr>lx_segments := lx_segments ?s,
      lx_current := empty_segment\<lparr>pipedIn := piped\<rparr>\<rparr>"
    using flushSegment_idle by blast
  have "same_scan (lx_segments ?s) lex_start ?s"
    by (subst s) (simp add: same_scan_def lex_start_def seg_le_def empty_segment_def)
  then have "same_scan (lx_segments ?s) (flushSegment False (lex_loop lex_start q))
      (flushSegment False (lex_loop ?s q))"
    by (intro same_flushSegment same_loop)
  moreover have "lex_loop lex_start (p @ sep # q) = lex_loop ?s q"
    using lex_loop_cut [OF assms(2) last] cut_step [OF assms(2) idle] by simp
  ultimately show "snd (lex_once (p @ sep # q)) = snd (lex_once q)"
    and "\<exists>X. fst (lex_once (p @ sep # q)) = fst (lex_once p) @ X
      \<and> list_all2 seg_le (fst (lex_once q)) X"
    by (simp_all add: lex_once_def Let_def same_scan_def)
qed

lemma flushToken_idem [simp]: "flushToken (flushToken st) = flushToken st"
  by (simp add: flushToken_def Let_def)

lemma flushSegment_flushToken: "flushSegment b (flushToken st) = flushSegment b st"
  by (simp add: flushSegment_def)

lemma lex_once_words:
  assumes "list_all form_ok ws" and "ws \<noteq> []"
  shows "lex_once (words_text ws) = ([empty_segment\<lparr>tokens := map form_val ws\<rparr>], False)"
proof -
  have "at_word lex_start" by (simp add: at_word_def lex_start_def idle_def)
  then have "flushToken (lex_loop lex_start (words_text ws)) = add_tokens (map form_val ws) lex_start"
    using assms by (rule lex_words)
  then have "flushSegment False (lex_loop lex_start (words_text ws))
      = flushSegment False (add_tokens (map form_val ws) lex_start)"
    by (metis flushSegment_flushToken)
  then show ?thesis
    using assms(2) by (simp add: lex_once_def add_tokens_def flushSegment_def flushToken_def
        lex_start_def isEmpty_def empty_segment_def Let_def)
qed

lemma lexShellSegments_closed: "\<not> snd (lex_once s) \<Longrightarrow> lexShellSegments s = fst (lex_once s)"
  by (subst lexShellSegments.simps) simp

section \<open>Lexer properties\<close>

text \<open>Quoting is transparent to the scanner. However the words of a command are
  written (bare, escaped character by character, in single or double quotes, or any mixture
  of these), the scan returns one segment holding exactly the words the shell would read, so
  no way of quoting hides or invents a word.\<close>

theorem lex_words_transparent:
  assumes "list_all form_ok ws" and "ws \<noteq> []"
  shows "lexShellSegments (words_text ws) = [empty_segment\<lparr>tokens := map form_val ws\<rparr>]"
  using lex_once_words [OF assms] by (simp add: lexShellSegments_closed)

lemma lex_words_transparent_witness:
  "lexShellSegments (words_text [[Single ''re'', Bare (CHR ''b''), Escaped (CHR ''o''),
       Double ''ot; x''], [Bare (CHR ''1'')]])
     = [empty_segment\<lparr>tokens := map form_val [[Single ''re'', Bare (CHR ''b''),
       Escaped (CHR ''o''), Double ''ot; x''], [Bare (CHR ''1'')]]\<rparr>]"
  by (rule lex_words_transparent) code_simp+

end
