(* ===== verification/Policy.thy ===== *)
theory Policy
  imports Shell_Lexer Catalog
begin

text \<open>
  The command policy, \<^verbatim>\<open>src/internal/policy/policy.go\<close> and the rules of
  \<^verbatim>\<open>shell.go\<close>: the frame blacklist, the resolution of a segment's candidate
  executables, the expansion of inline shells, and the shell rules.
\<close>

section \<open>Decisions and the frame blacklist\<close>

type_synonym Profile = string

definition ProfileStudioDebug :: Profile where
  "ProfileStudioDebug = ''studio-debug''"

definition ProfileRestricted :: Profile where
  "ProfileRestricted = ''restricted''"

record Decision =
  Allowed :: bool
  Reason :: string
  Rule :: string

definition ReasonProhibited :: string where
  "ReasonProhibited = ''Command execution is prohibited.''"

definition allow :: Decision where
  "allow = \<lparr>Allowed = True, Reason = [], Rule = []\<rparr>"

definition deny :: "string \<Rightarrow> Decision" where
  "deny rule = \<lparr>Allowed = False, Reason = ReasonProhibited, Rule = rule\<rparr>"

definition frameRules :: "(string \<times> (Command \<Rightarrow> bool)) list" where
  "frameRules =
    [(''deny-remount'', \<lambda>flag. flag = CommandUnityRemount),
     (''deny-reboot'', \<lambda>flag. flag = CommandUnityReboot),
     (''deny-runmode'', \<lambda>flag. flag = CommandUnityRunmode),
     (''deny-rootrun'', \<lambda>flag. flag = CommandUnityRootrun),
     (''deny-sideload'', \<lambda>flag. flag = CommandAppSideload),
     (''deny-flash-family'', \<lambda>flag. CommandFamily flag = FamilyFlash)]"

text \<open>A policy is the set of extra executables, as a list without repetitions.\<close>

type_synonym policy = "string list"

definition baseExecutable :: "string \<Rightarrow> string" where
  "baseExecutable token = after_last_any token ''/''"

definition New :: "string list \<Rightarrow> policy" where
  "New extra = remdups (filter (\<lambda>n. n \<noteq> [])
     (map (\<lambda>item. baseExecutable (to_lower (trim_space item))) extra))"

definition defaultPolicy :: policy where
  "defaultPolicy = []"

definition InspectFrame :: "policy \<Rightarrow> Command \<Rightarrow> Decision" where
  "InspectFrame p flag =
     (case find (\<lambda>r. snd r flag) frameRules of Some r \<Rightarrow> deny (fst r) | None \<Rightarrow> allow)"

definition ValidProfile :: "string \<Rightarrow> bool" where
  "ValidProfile profile \<longleftrightarrow> profile = ProfileStudioDebug \<or> profile = ProfileRestricted"

definition resolveProfile :: "Profile \<Rightarrow> Profile" where
  "resolveProfile profile =
     (if profile = ProfileStudioDebug \<or> profile = ProfileRestricted then profile
      else if profile = [] then ProfileStudioDebug else ProfileRestricted)"

section \<open>Tables\<close>

definition hdcPropertyPrefixes :: "string list" where
  "hdcPropertyPrefixes = [''persist.hdc'', ''const.hdc'']"

definition sensitiveMountTargets :: "string list" where
  "sensitiveMountTargets = [''/'', ''/system'', ''/system_ext'', ''/vendor'', ''/product'',
     ''/odm'', ''/cust'', ''/chip_prod'']"

definition sensitiveWritePaths :: "string list" where
  "sensitiveWritePaths = [''/dev/block'', ''/system'', ''/system_ext'', ''/vendor'',
     ''/product'', ''/odm'', ''/cust'', ''/chip_prod'']"

definition criticalRemovalPaths :: "string list" where
  "criticalRemovalPaths = [''/'', ''/system'', ''/system_ext'', ''/vendor'', ''/product'',
     ''/odm'', ''/cust'', ''/chip_prod'', ''/data/system'', ''/data/property'', ''/data/misc'']"

definition shellKeywords :: "string list" where
  "shellKeywords = [''if'', ''then'', ''else'', ''elif'', ''fi'', ''do'', ''done'', ''while'',
     ''until'', ''for'', ''select'', ''case'', ''esac'', ''in'', ''function'', ''time'', ''!'',
     ''--'']"

definition argumentWrappers :: "string list" where
  "argumentWrappers = [''command'', ''exec'', ''nohup'', ''setsid'', ''eval'', ''xargs'',
     ''stdbuf'', ''nice'', ''ionice'', ''timeout'', ''runcon'', ''chroot'', ''unshare'',
     ''watch'', ''script'', ''strace'', ''ltrace'', ''taskset'', ''flock'', ''sudo'', ''doas'',
     ''proot'']"

definition restrictedExecutables :: "string list" where
  "restrictedExecutables = [''curl'', ''wget'', ''nc'', ''ncat'', ''telnet'', ''ftp'', ''tftp'']"

section \<open>Candidate executables\<close>

definition isEnvironmentAssignment :: "string \<Rightarrow> bool" where
  "isEnvironmentAssignment token =
     (case index_byte token (CHR ''='') of None \<Rightarrow> False
      | Some 0 \<Rightarrow> False
      | Some equalsIndex \<Rightarrow>
          list_all (\<lambda>(position, c). c = CHR ''_'' \<or> (CHR ''a'' \<le> c \<and> c \<le> CHR ''z'')
              \<or> (CHR ''A'' \<le> c \<and> c \<le> CHR ''Z'') \<or> (0 < position \<and> is_digit c))
            (enumerate 0 (take equalsIndex token)))"

definition isArgumentWrapper :: "string \<Rightarrow> bool" where
  "isArgumentWrapper command \<longleftrightarrow> command \<in> set argumentWrappers"

definition isAppletDispatcher :: "string \<Rightarrow> bool" where
  "isAppletDispatcher command \<longleftrightarrow> command = ''toybox'' \<or> command = ''busybox'' \<or> command = ''toolbox''"

definition isStringCommandWrapper :: "string \<Rightarrow> bool" where
  "isStringCommandWrapper command \<longleftrightarrow> command = ''sh'' \<or> command = ''bash'' \<or> command = ''mksh''
     \<or> command = ''toysh'' \<or> command = ''su''"

text \<open>The index arguments of the code are the remaining tokens here: \<^verbatim>\<open>tokens[index:]\<close>.\<close>

fun skipAssignmentsAndKeywords :: "string list \<Rightarrow> string list" where
  "skipAssignmentsAndKeywords [] = []"
| "skipAssignmentsAndKeywords (token # rest) =
     (if token \<in> set shellKeywords \<or> isEnvironmentAssignment token
      then skipAssignmentsAndKeywords rest else token # rest)"

fun skipEnvironmentCommandArguments :: "string list \<Rightarrow> string list" where
  "skipEnvironmentCommandArguments [] = []"
| "skipEnvironmentCommandArguments (token # rest) =
     (if isEnvironmentAssignment token \<or> has_prefix token ''-''
      then skipEnvironmentCommandArguments rest else token # rest)"

text \<open>\<open>Some rest\<close>: the tokens after the inline flag; \<open>None\<close>: Go's \<open>-1\<close>.\<close>

fun findInlineFlagIndex :: "string list \<Rightarrow> string list option" where
  "findInlineFlagIndex [] = None"
| "findInlineFlagIndex (token # rest) =
     (if token = ''--'' then None
      else if 1 < length token \<and> token ! 0 = CHR ''-'' \<and> token ! 1 \<noteq> CHR ''-''
        \<and> CHR ''c'' \<in> set (drop 1 token) then Some rest
      else findInlineFlagIndex rest)"

definition collectBasenames :: "string \<Rightarrow> string list \<Rightarrow> string list" where
  "collectBasenames command rest = command # map baseExecutable rest"

lemma skip_length:
  "length (skipAssignmentsAndKeywords ts) \<le> length ts"
  "length (skipEnvironmentCommandArguments ts) \<le> length ts"
  "findInlineFlagIndex ts = Some r \<Longrightarrow> length r < length ts"
  by (induction ts) (auto split: if_splits)

function resolveCommands :: "string list \<Rightarrow> string list" where
  "resolveCommands toks =
     (case skipAssignmentsAndKeywords toks of [] \<Rightarrow> []
      | token # rest \<Rightarrow>
          let command = baseExecutable token
          in if command = ''env'' then resolveCommands (skipEnvironmentCommandArguments rest)
             else if isAppletDispatcher command then (if rest = [] then [] else resolveCommands rest)
             else if isStringCommandWrapper command then
               (case findInlineFlagIndex rest of
                  Some (t # ts) \<Rightarrow> resolveCommands (t # ts)
                | _ \<Rightarrow> [command])
             else if isArgumentWrapper command then collectBasenames command rest
             else [command])"
  by pat_completeness auto
termination
proof (relation "measure length", simp)
  fix toks token rest
  assume "skipAssignmentsAndKeywords toks = token # rest"
  then have l: "length rest < length toks"
    using skip_length(1) [of toks] by simp
  then show "(skipEnvironmentCommandArguments rest, toks) \<in> measure length"
    using skip_length(2) [of rest] by simp
  from l show "(rest, toks) \<in> measure length" by simp
  show "(t # ts, toks) \<in> measure length" if "findInlineFlagIndex rest = Some y" "y = t # ts" for y t ts
    using l skip_length(3) [OF that(1)] that(2) by simp
qed

declare resolveCommands.simps [simp del]

fun inlineShellCommand :: "string list \<Rightarrow> string" where
  "inlineShellCommand [] = []"
| "inlineShellCommand (token # rest) =
     (if isStringCommandWrapper (baseExecutable token) then
        (case findInlineFlagIndex rest of
           Some (t # ts) \<Rightarrow> join_with '' '' (t # ts)
         | _ \<Rightarrow> inlineShellCommand rest)
      else inlineShellCommand rest)"

abbreviation (input) maxInlineDepth :: nat where "maxInlineDepth \<equiv> 8"

function expandSegments :: "shellSegment list \<Rightarrow> nat \<Rightarrow> shellSegment list" where
  "expandSegments [] depth = []"
| "expandSegments (segment # rest) depth =
     (let segment = segment\<lparr>commands := resolveCommands (tokens segment)\<rparr>;
          inline = inlineShellCommand (tokens segment)
      in segment # (if inline = [] then []
           else if maxInlineDepth \<le> depth then [empty_segment\<lparr>indirect := True\<rparr>]
           else expandSegments (lexShellSegments inline) (depth + 1))
         @ expandSegments rest depth)"
  by pat_completeness auto
termination
  by (relation "measures [\<lambda>(s, d). maxInlineDepth - d, \<lambda>(s, d). length s]") auto

definition analyzeShellCommand :: "string \<Rightarrow> shellSegment list" where
  "analyzeShellCommand command = expandSegments (lexShellSegments (to_lower command)) 0"

definition FirstExecutable :: "string \<Rightarrow> string" where
  "FirstExecutable command =
     (case filter (\<lambda>name. \<not> isArgumentWrapper name)
        (concat (map commands (analyzeShellCommand command))) of
      [] \<Rightarrow> [] | name # _ \<Rightarrow> name)"

section \<open>Rules\<close>

definition segmentHasExecutable :: "shellSegment \<Rightarrow> string \<Rightarrow> bool" where
  "segmentHasExecutable segment executable \<longleftrightarrow> executable \<in> set (commands segment)"

definition segmentsHaveExecutable :: "shellSegment list \<Rightarrow> string \<Rightarrow> bool" where
  "segmentsHaveExecutable segments executable \<longleftrightarrow>
     list_ex (\<lambda>s. segmentHasExecutable s executable) segments"

fun normalize_rev :: "string \<Rightarrow> string" where
  "normalize_rev (c # d # r) = (if c = CHR ''/'' then normalize_rev (d # r) else c # d # r)"
| "normalize_rev s = s"

text \<open>Trailing slashes are dropped while more than one character is left.\<close>

definition normalizePathToken :: "string \<Rightarrow> string" where
  "normalizePathToken token = rev (normalize_rev (rev token))"

definition isPathUnderAny :: "string \<Rightarrow> string list \<Rightarrow> bool" where
  "isPathUnderAny val roots =
     (let normalizedPath = normalizePathToken val
      in list_ex (\<lambda>root. normalizedPath = root
           \<or> (root \<noteq> ''/'' \<and> has_prefix normalizedPath (root @ ''/''))) roots)"

definition hasIndirectCommand :: "shellSegment list \<Rightarrow> bool" where
  "hasIndirectCommand segments =
     list_ex (\<lambda>segment. indirect segment
        \<or> list_ex (\<lambda>command. CHR ''$'' \<in> set command
            \<or> (pipedIn segment \<and> isStringCommandWrapper command)) (commands segment)) segments"

definition isPowerControlCommand :: "shellSegment list \<Rightarrow> bool" where
  "isPowerControlCommand segments \<longleftrightarrow>
     segmentsHaveExecutable segments ''reboot'' \<or> segmentsHaveExecutable segments ''poweroff''"

definition containsTokenWithPrefix :: "string list \<Rightarrow> string list \<Rightarrow> bool" where
  "containsTokenWithPrefix toks prefixes = list_ex (\<lambda>token. list_ex (has_prefix token) prefixes) toks"

definition changesHdcDaemonState :: "shellSegment list \<Rightarrow> bool" where
  "changesHdcDaemonState segments =
     list_ex (\<lambda>segment.
        (segmentHasExecutable segment ''param'' \<and> ''set'' \<in> set (tokens segment)
           \<and> containsTokenWithPrefix (tokens segment) hdcPropertyPrefixes)
        \<or> (segmentHasExecutable segment ''setprop''
           \<and> containsTokenWithPrefix (tokens segment) hdcPropertyPrefixes)) segments"

definition containsHdcDaemonToken :: "string list \<Rightarrow> bool" where
  "containsHdcDaemonToken toks = list_ex (\<lambda>token. baseExecutable token = ''hdcd'') toks"

definition killsHdcDaemon :: "shellSegment list \<Rightarrow> bool" where
  "killsHdcDaemon segments \<longleftrightarrow>
     list_ex (\<lambda>s. segmentHasExecutable s ''kill'' \<or> segmentHasExecutable s ''killall''
        \<or> segmentHasExecutable s ''pkill'') segments
     \<and> list_ex (\<lambda>s. containsHdcDaemonToken (tokens s)) segments"

definition containsCommaOption :: "string \<Rightarrow> string \<Rightarrow> bool" where
  "containsCommaOption optionText expected \<longleftrightarrow> expected \<in> set (split_char (CHR '','') optionText)"

fun hasRemountOption :: "string list \<Rightarrow> bool" where
  "hasRemountOption [] = False"
| "hasRemountOption (token # rest) =
     (if token = ''remount'' \<or> token = ''--remount'' then True
      else if token = ''-o'' \<or> token = ''--options'' then
        (case rest of next # _ \<Rightarrow> containsCommaOption next ''remount'' | [] \<Rightarrow> False)
          \<or> hasRemountOption rest
      else if has_prefix token ''--options='' then
        containsCommaOption (trim_prefix token ''--options='') ''remount'' \<or> hasRemountOption rest
      else if has_prefix token ''-o'' \<and> token \<noteq> ''-o'' then
        containsCommaOption (trim_prefix token ''-o'') ''remount'' \<or> hasRemountOption rest
      else hasRemountOption rest)"

definition isSensitiveBlockPartition :: "string \<Rightarrow> bool" where
  "isSensitiveBlockPartition token \<longleftrightarrow> has_prefix token ''/dev/block''
     \<and> (contains_str token ''/by-name/system'' \<or> contains_str token ''/by-name/vendor''
        \<or> contains_str token ''/by-name/product'' \<or> contains_str token ''/by-name/odm'')"

definition hasSensitiveMountTarget :: "string list \<Rightarrow> bool" where
  "hasSensitiveMountTarget toks =
     list_ex (\<lambda>token. isPathUnderAny token sensitiveMountTargets \<or> isSensitiveBlockPartition token) toks"

definition remountsFilesystem :: "shellSegment list \<Rightarrow> bool" where
  "remountsFilesystem segments =
     list_ex (\<lambda>s. segmentHasExecutable s ''mount'' \<and> hasRemountOption (tokens s)
        \<and> hasSensitiveMountTarget (tokens s)) segments"

definition recursive_token :: "string \<Rightarrow> bool" where
  "recursive_token token =
     (if length token < 2 \<or> token ! 0 \<noteq> CHR ''-'' then False
      else if has_prefix token ''--'' then token = ''--recursive''
      else contains_any (drop 1 token) ''rR'')"

definition hasRecursiveOption :: "string list \<Rightarrow> bool" where
  "hasRecursiveOption toks = list_ex recursive_token toks"

definition hasCriticalPathArgument :: "string list \<Rightarrow> bool" where
  "hasCriticalPathArgument toks =
     list_ex (\<lambda>token. let normalizedPath = normalizePathToken token
        in normalizedPath = ''/data'' \<or> isPathUnderAny normalizedPath criticalRemovalPaths) toks"

definition removesCriticalPath :: "shellSegment list \<Rightarrow> bool" where
  "removesCriticalPath segments =
     list_ex (\<lambda>s. segmentHasExecutable s ''rm'' \<and> hasRecursiveOption (tokens s)
        \<and> hasCriticalPathArgument (tokens s)) segments"

definition hasDangerousOutputOption :: "string list \<Rightarrow> bool" where
  "hasDangerousOutputOption toks =
     list_ex (\<lambda>token. has_prefix token ''of=''
        \<and> isPathUnderAny (trim_prefix token ''of='') sensitiveWritePaths) toks"

definition writesDeviceNode :: "shellSegment list \<Rightarrow> bool" where
  "writesDeviceNode segments =
     list_ex (\<lambda>s. (segmentHasExecutable s ''dd'' \<and> hasDangerousOutputOption (tokens s))
        \<or> list_ex (\<lambda>target. isPathUnderAny target sensitiveWritePaths) (redirects s)) segments"

definition coreShellRules :: "(string \<times> (shellSegment list \<Rightarrow> bool)) list" where
  "coreShellRules =
    [(''indirect-command'', hasIndirectCommand),
     (''power-control'', isPowerControlCommand),
     (''hdc-daemon-state'', changesHdcDaemonState),
     (''kill-hdcd'', killsHdcDaemon),
     (''remount-fs'', remountsFilesystem),
     (''remove-critical-path'', removesCriticalPath),
     (''write-device-node'', writesDeviceNode)]"

text \<open>The first hit, \<open>None\<close> for Go's empty string (also when the hit is itself empty).\<close>

definition matchExtraExecutable :: "policy \<Rightarrow> shellSegment list \<Rightarrow> string option" where
  "matchExtraExecutable p segments =
     (case find (\<lambda>command. command \<in> set p) (concat (map commands segments)) of
        None \<Rightarrow> None | Some hit \<Rightarrow> if hit = [] then None else Some hit)"

definition matchAnyExecutable :: "shellSegment list \<Rightarrow> string list \<Rightarrow> string option" where
  "matchAnyExecutable segments executables = find (segmentsHaveExecutable segments) executables"

definition InspectShell :: "policy \<Rightarrow> Profile \<Rightarrow> string \<Rightarrow> Decision" where
  "InspectShell p profile command =
     (let segments = analyzeShellCommand command
      in if segments = [] then allow
         else case find (\<lambda>rule. snd rule segments) coreShellRules of
           Some rule \<Rightarrow> deny (fst rule)
         | None \<Rightarrow>
             (case (if resolveProfile profile = ProfileRestricted
                    then matchAnyExecutable segments restrictedExecutables else None) of
                Some hit \<Rightarrow> deny (''restricted-exec:'' @ hit)
              | None \<Rightarrow> (case matchExtraExecutable p segments of
                    Some hit \<Rightarrow> deny (''extra-denied:'' @ hit) | None \<Rightarrow> allow)))"

definition InspectShellCommand :: "string \<Rightarrow> Decision" where
  "InspectShellCommand command = InspectShell defaultPolicy ProfileStudioDebug command"

section \<open>What the core rules deny\<close>

definition core_denied :: "shellSegment list \<Rightarrow> bool" where
  "core_denied segments \<longleftrightarrow> list_ex (\<lambda>rule. snd rule segments) coreShellRules"

lemma allowed_sel [simp]: "Allowed allow" "\<not> Allowed (deny r)"
  by (simp_all add: allow_def deny_def)

lemma core_denied_Nil [simp]: "\<not> core_denied []"
  by (simp add: core_denied_def coreShellRules_def hasIndirectCommand_def isPowerControlCommand_def
      segmentsHaveExecutable_def changesHdcDaemonState_def killsHdcDaemon_def
      remountsFilesystem_def removesCriticalPath_def writesDeviceNode_def)

lemma InspectShell_allowed:
  "Allowed (InspectShell p profile command) \<longleftrightarrow>
     \<not> core_denied (analyzeShellCommand command)
     \<and> (resolveProfile profile = ProfileRestricted \<longrightarrow>
          matchAnyExecutable (analyzeShellCommand command) restrictedExecutables = None)
     \<and> matchExtraExecutable p (analyzeShellCommand command) = None"
proof (cases "analyzeShellCommand command = []")
  case True
  then show ?thesis
    by (simp add: InspectShell_def Let_def matchAnyExecutable_def matchExtraExecutable_def
        segmentsHaveExecutable_def find_None_iff)
next
  case False
  have "core_denied (analyzeShellCommand command)
      \<longleftrightarrow> find (\<lambda>rule. snd rule (analyzeShellCommand command)) coreShellRules \<noteq> None"
    unfolding core_denied_def list_ex_iff find_None_iff by blast
  with False show ?thesis
    by (simp add: InspectShell_def Let_def split: option.split)
qed

lemma matchExtraExecutable_New:
  "matchExtraExecutable (New extra) segments = None \<longleftrightarrow>
     (\<forall>command \<in> set (concat (map commands segments)). command \<notin> set (New extra))"
proof -
  let ?f = "find (\<lambda>command. command \<in> set (New extra)) (concat (map commands segments))"
  have "[] \<notin> set (New extra)" by (simp add: New_def)
  moreover have "?f = Some hit \<Longrightarrow> hit \<in> set (New extra)" for hit
    by (auto simp: find_Some_iff)
  ultimately have "matchExtraExecutable (New extra) segments = None \<longleftrightarrow> ?f = None"
    by (cases ?f) (auto simp: matchExtraExecutable_def)
  then show ?thesis by (auto simp: find_None_iff)
qed

lemma matchExtraExecutable_Nil [simp]: "matchExtraExecutable [] segments = None"
  by (simp add: matchExtraExecutable_def split: option.split) (auto simp: find_Some_iff)

text \<open>Every core rule asks for the existence of segments, so more segments, and segments
  that read from a pipe, can only be denied more.\<close>

definition covers :: "shellSegment list \<Rightarrow> shellSegment list \<Rightarrow> bool" where
  "covers small big \<longleftrightarrow> (\<forall>s \<in> set small. \<exists>t \<in> set big. seg_le s t)"

lemma covers_ex:
  assumes "covers small big" and "list_ex P small" and "\<And>s t. seg_le s t \<Longrightarrow> P s \<Longrightarrow> P t"
  shows "list_ex P big"
  using assms by (fastforce simp: covers_def list_ex_iff)

lemma seg_le_exec: "seg_le s t \<Longrightarrow> segmentHasExecutable t x = segmentHasExecutable s x"
  by (simp add: seg_le_def segmentHasExecutable_def)

lemma seg_le_tokens: "seg_le s t \<Longrightarrow> tokens t = tokens s" "seg_le s t \<Longrightarrow> redirects t = redirects s"
  by (simp_all add: seg_le_def)

lemmas seg_le_simps = seg_le_exec seg_le_tokens

lemma core_rule_mono:
  assumes "covers small big" and "rule \<in> set coreShellRules" and "snd rule small"
  shows "snd rule big"
proof -
  note ex = covers_ex [OF assms(1)]
  have "hasIndirectCommand small \<Longrightarrow> hasIndirectCommand big"
    unfolding hasIndirectCommand_def by (erule ex) (auto simp: seg_le_def list_ex_iff)
  moreover have "isPowerControlCommand small \<Longrightarrow> isPowerControlCommand big"
    unfolding isPowerControlCommand_def segmentsHaveExecutable_def
    by (erule disjE; drule ex; simp add: seg_le_simps)
  moreover have "changesHdcDaemonState small \<Longrightarrow> changesHdcDaemonState big"
    unfolding changesHdcDaemonState_def by (erule ex) (simp add: seg_le_simps)
  moreover have "killsHdcDaemon small \<Longrightarrow> killsHdcDaemon big"
    unfolding killsHdcDaemon_def
    by (elim conjE, intro conjI; erule ex; simp add: seg_le_simps)
  moreover have "remountsFilesystem small \<Longrightarrow> remountsFilesystem big"
    unfolding remountsFilesystem_def by (erule ex) (simp add: seg_le_simps)
  moreover have "removesCriticalPath small \<Longrightarrow> removesCriticalPath big"
    unfolding removesCriticalPath_def by (erule ex) (simp add: seg_le_simps)
  moreover have "writesDeviceNode small \<Longrightarrow> writesDeviceNode big"
    unfolding writesDeviceNode_def by (erule ex) (simp add: seg_le_simps)
  ultimately show ?thesis
    using assms(2,3) by (auto simp: coreShellRules_def)
qed

lemma core_denied_mono: "covers small big \<Longrightarrow> core_denied small \<Longrightarrow> core_denied big"
  unfolding core_denied_def list_ex_iff using core_rule_mono by blast

section \<open>Expansion\<close>

lemma expandSegments_append: "expandSegments (xs @ ys) d = expandSegments xs d @ expandSegments ys d"
  by (induction xs) (simp_all add: Let_def)

lemma covers_refl: "covers xs xs"
  by (force simp: covers_def seg_le_def)

lemma covers_append: "covers xs ys \<Longrightarrow> covers xs' ys' \<Longrightarrow> covers (xs @ xs') (ys @ ys')"
  by (fastforce simp: covers_def)

lemma covers_Cons: "seg_le s t \<Longrightarrow> covers xs ys \<Longrightarrow> covers (s # xs) (t # ys)"
  by (fastforce simp: covers_def)

lemma covers_suffix: "covers xs ys \<Longrightarrow> covers xs (zs @ ys)"
  by (fastforce simp: covers_def)

lemma expand_covers:
  "list_all2 seg_le xs ys \<Longrightarrow> covers (expandSegments xs d) (expandSegments ys d)"
proof (induction rule: list_all2_induct)
  case (Cons x xs y ys)
  then have "tokens y = tokens x" by (simp add: seg_le_def)
  moreover have "seg_le (x\<lparr>commands := resolveCommands (tokens x)\<rparr>)
      (y\<lparr>commands := resolveCommands (tokens y)\<rparr>)"
    using Cons by (simp add: seg_le_def)
  ultimately show ?case
    using Cons.IH by (simp add: Let_def covers_Cons covers_append covers_refl)
qed (simp add: covers_def)

text \<open>A command denied where it is scanned at one depth is denied when it is nested deeper:
  either it is expanded all the same, or the nesting limit makes the segment indirect.\<close>

lemma indirect_denied: "segment \<in> set segs \<Longrightarrow> indirect segment \<Longrightarrow> core_denied segs"
  by (auto simp: core_denied_def coreShellRules_def hasIndirectCommand_def list_ex_iff)

lemma expand_deeper:
  "covers (expandSegments xs d) (expandSegments xs (Suc d))
     \<or> (\<exists>s \<in> set (expandSegments xs (Suc d)). indirect s)"
proof (induction xs d rule: expandSegments.induct)
  case (2 segment rest d)
  let ?s = "segment\<lparr>commands := resolveCommands (tokens segment)\<rparr>"
  let ?inline = "inlineShellCommand (tokens segment)"
  let ?in = "\<lambda>d. if ?inline = [] then [] else if 8 \<le> d
    then [empty_segment\<lparr>indirect := True\<rparr>] else expandSegments (lexShellSegments ?inline) (d + 1)"
  have e: "expandSegments (segment # rest) d = ?s # ?in d @ expandSegments rest d" for d
    by (simp add: Let_def)
  have inner: "covers (?in d) (?in (Suc d)) \<or> (\<exists>s \<in> set (?in (Suc d)). indirect s)"
  proof (cases "?inline = [] \<or> 8 \<le> Suc d")
    case True
    then show ?thesis by (auto simp: covers_def)
  next
    case False
    then have "covers (expandSegments (lexShellSegments ?inline) (d + 1))
        (expandSegments (lexShellSegments ?inline) (Suc (d + 1)))
      \<or> (\<exists>s \<in> set (expandSegments (lexShellSegments ?inline) (Suc (d + 1))). indirect s)"
      using "2.IH"(1) [OF refl refl] by simp
    with False show ?thesis by simp
  qed
  from "2.IH"(2) [OF refl refl] inner show ?case
    unfolding e using covers_Cons [of ?s ?s] covers_append
    by (auto simp: seg_le_def)
qed (simp add: covers_def)

lemma denied_deeper:
  assumes "core_denied (expandSegments xs d)"
  shows "core_denied (expandSegments xs (Suc d))"
  using expand_deeper [of xs d] assms core_denied_mono indirect_denied by blast

section \<open>Commands in words\<close>

lemma analyze_words:
  assumes "list_all form_ok ws" and "ws \<noteq> []" and "to_lower cmd = words_text ws"
  shows "analyzeShellCommand cmd = expandSegments [empty_segment\<lparr>tokens := map form_val ws\<rparr>] 0"
  using lex_once_words [OF assms(1,2)]
  by (simp add: analyzeShellCommand_def assms(3) lexShellSegments_closed)

lemma head_segment:
  "segment\<lparr>commands := resolveCommands (tokens segment)\<rparr> \<in> set (expandSegments (segment # rest) d)"
  by (simp add: Let_def)

text \<open>Lower-case letters are kept when a command is folded; so are the quotes and escapes.\<close>

definition lower_piece :: "piece \<Rightarrow> piece" where
  "lower_piece p = (case p of Bare c \<Rightarrow> Bare (lower_char c) | Escaped c \<Rightarrow> Escaped (lower_char c)
     | Single s \<Rightarrow> Single (to_lower s) | Double s \<Rightarrow> Double (to_lower s))"

definition letter :: "char \<Rightarrow> bool" where
  "letter c \<longleftrightarrow> CHR ''a'' \<le> c \<and> c \<le> CHR ''z''"

lemma lower_char_cases: "lower_char c = c \<or> letter (lower_char c)"
proof (cases "CHR ''A'' \<le> c \<and> c \<le> CHR ''Z''")
  case True
  then have "65 \<le> (of_char c :: nat)" "(of_char c :: nat) \<le> 90"
    by (simp_all add: less_eq_char_def)
  with True show ?thesis
    by (simp add: lower_char_def letter_def less_eq_char_def)
qed (auto simp: lower_char_def)

lemma letter_bare: "letter c \<Longrightarrow> bare_char c"
  by (auto simp: letter_def less_eq_char_def bare_char_def isSegmentSeparator_def
      isTokenSeparator_def)

lemma lower_bare: "bare_char c \<Longrightarrow> bare_char (lower_char c)"
  using lower_char_cases [of c] letter_bare by fastforce

lemma lower_char_keeps: "\<not> letter d \<Longrightarrow> lower_char c = d \<Longrightarrow> c = d"
  using lower_char_cases [of c] by auto

lemma not_letter_meta [simp]:
  "\<not> letter squote" "\<not> letter dquote" "\<not> letter backslash" "\<not> letter backtick"
  "\<not> letter (CHR ''$'')" "\<not> letter (CHR 0x0A)"
  by (simp_all add: letter_def less_eq_char_def)

lemma lower_char_meta [simp]:
  "lower_char squote = squote" "lower_char dquote = dquote" "lower_char backslash = backslash"
  "lower_char (CHR '' '') = CHR '' ''"
  by (simp_all add: lower_char_def less_eq_char_def)

lemma to_lower_keeps: "d \<in> set (to_lower s) \<Longrightarrow> \<not> letter d \<Longrightarrow> d \<in> set s"
  by (metis imageE list.set_map lower_char_keeps to_lower_def)

lemma lower_piece_ok: "piece_ok p \<Longrightarrow> piece_ok (lower_piece p)"
proof (cases p)
  case (Single s)
  assume "piece_ok p"
  then show ?thesis
    using to_lower_keeps [of squote s] by (auto simp: Single lower_piece_def)
next
  case (Double s)
  assume "piece_ok p"
  then show ?thesis
    using to_lower_keeps [of _ s] not_letter_meta
    by (fastforce simp: Double lower_piece_def list_all_iff)
next
  case (Escaped c)
  assume "piece_ok p"
  then show ?thesis
    using lower_char_keeps [of "CHR 0x0A" c] by (auto simp: Escaped lower_piece_def)
qed (simp_all add: lower_piece_def lower_bare)

lemma lower_piece_text: "to_lower (piece_text p) = piece_text (lower_piece p)"
  by (cases p) (simp_all add: lower_piece_def to_lower_def)

lemma lower_piece_val: "to_lower (piece_val p) = piece_val (lower_piece p)"
  by (cases p) (simp_all add: lower_piece_def to_lower_def)

lemma to_lower_concat: "to_lower (concat ss) = concat (map to_lower ss)"
  by (induction ss) (simp_all add: to_lower_def)

lemma to_lower_words: "to_lower (words_text ws) = words_text (map (map lower_piece) ws)"
proof -
  have form: "to_lower (form_text w) = form_text (map lower_piece w)" for w
    by (simp add: form_text_def to_lower_concat comp_def lower_piece_text)
  show ?thesis
  proof (induction ws)
    case (Cons w ws)
    show ?case
    proof (cases ws)
      case Nil
      then show ?thesis by (simp add: words_text_def form)
    next
      case (Cons v vs)
      have split: "words_text (a # b # cs) = form_text a @ '' '' @ words_text (b # cs)" for a b cs
        by (simp add: words_text_def)
      have sp: "to_lower '' '' = '' ''" by (simp add: to_lower_def)
      have "to_lower (words_text (w # ws)) = to_lower (form_text w) @ '' '' @ to_lower (words_text ws)"
        unfolding Cons split to_lower_append sp ..
      then show ?thesis
        unfolding form Cons.IH by (simp add: Cons split)
    qed
  qed (simp add: words_text_def to_lower_def)
qed

lemma lower_forms_ok: "list_all form_ok ws \<Longrightarrow> list_all form_ok (map (map lower_piece) ws)"
  by (auto simp: list_all_iff form_ok_def lower_piece_ok)

lemma lower_form_val: "form_val (map lower_piece w) = to_lower (form_val w)"
  by (simp add: form_val_def to_lower_concat comp_def lower_piece_val)

text \<open>The words the policy sees: lower-cased values.\<close>

definition policy_words :: "word_form list \<Rightarrow> string list" where
  "policy_words ws = map (\<lambda>w. to_lower (form_val w)) ws"

lemma analyze_forms:
  assumes "list_all form_ok ws" and "ws \<noteq> []"
  shows "analyzeShellCommand (words_text ws)
    = expandSegments [empty_segment\<lparr>tokens := policy_words ws\<rparr>] 0"
proof -
  have "map form_val (map (map lower_piece) ws) = policy_words ws"
    by (simp add: policy_words_def lower_form_val)
  then show ?thesis
    using analyze_words [OF lower_forms_ok [OF assms(1)] _ to_lower_words] assms(2) by simp
qed

definition skipped_word :: "string \<Rightarrow> bool" where
  "skipped_word token \<longleftrightarrow> token \<in> set shellKeywords \<or> isEnvironmentAssignment token"

lemma skip_prefix:
  "list_all skipped_word pre \<Longrightarrow> \<not> skipped_word c \<Longrightarrow>
     skipAssignmentsAndKeywords (pre @ c # rest) = c # rest"
  by (induction pre) (auto simp: skipped_word_def)

definition plain_executable :: "string \<Rightarrow> bool" where
  "plain_executable n \<longleftrightarrow> n \<noteq> ''env'' \<and> \<not> isAppletDispatcher n \<and> \<not> isStringCommandWrapper n
     \<and> \<not> isArgumentWrapper n"

lemma resolve_plain:
  assumes "list_all skipped_word pre" and "\<not> skipped_word c" and "plain_executable (baseExecutable c)"
  shows "resolveCommands (pre @ c # rest) = [baseExecutable c]"
  using assms(3) skip_prefix [OF assms(1,2)]
  by (subst resolveCommands.simps) (simp add: plain_executable_def Let_def)

text \<open>A command as a shell reads it: skipped words, the command word, its arguments.\<close>

definition command_line :: "word_form list \<Rightarrow> string list \<Rightarrow> string \<Rightarrow> string list \<Rightarrow> bool" where
  "command_line ws pre c args \<longleftrightarrow> list_all form_ok ws \<and> policy_words ws = pre @ c # args
     \<and> list_all skipped_word pre \<and> \<not> skipped_word c"

lemma command_segment:
  assumes "command_line ws pre c args" and "plain_executable (baseExecutable c)"
  shows "\<exists>s \<in> set (analyzeShellCommand (words_text ws)).
    commands s = [baseExecutable c] \<and> tokens s = pre @ c # args"
proof -
  have ws: "list_all form_ok ws" "ws \<noteq> []" and words: "policy_words ws = pre @ c # args"
    and pre: "list_all skipped_word pre" "\<not> skipped_word c"
    using assms(1) by (auto simp: command_line_def policy_words_def)
  let ?s = "empty_segment\<lparr>tokens := policy_words ws\<rparr>"
  have "?s\<lparr>commands := resolveCommands (tokens ?s)\<rparr> \<in> set (analyzeShellCommand (words_text ws))"
    unfolding analyze_forms [OF ws] by (rule head_segment)
  moreover have "resolveCommands (tokens ?s) = [baseExecutable c]"
    using resolve_plain [OF pre assms(2)] by (simp add: words)
  ultimately show ?thesis
    by (intro bexI [of _ "?s\<lparr>commands := resolveCommands (tokens ?s)\<rparr>"]) (simp_all add: words)
qed

lemma denied_rule:
  "rule \<in> set coreShellRules \<Longrightarrow> snd rule (analyzeShellCommand cmd) \<Longrightarrow>
     \<not> Allowed (InspectShell p profile cmd)"
  unfolding InspectShell_allowed core_denied_def list_ex_iff by blast

section \<open>Policy properties\<close>

text \<open>The frame blacklist denies exactly remount, reboot, run mode, root run, sideload
  and the whole flash family (ten codes), under every policy; every other code passes.\<close>

theorem InspectFrame_iff:
  "Allowed (InspectFrame p flag) \<longleftrightarrow>
     flag \<notin> set [1002, 1003, 1004, 1007, 3005, 4000, 4001, 4002, 4003, 4004, 4005, 4006, 4007,
       4008, 4009]"
proof -
  have "Allowed (InspectFrame p flag) \<longleftrightarrow> find (\<lambda>r. snd r flag) frameRules = None"
    by (simp add: InspectFrame_def split: option.split)
  also have "\<dots> \<longleftrightarrow> flag \<notin> set [1002, 1003, 1004, 1007, 3005] \<and> flag \<notin> set flash_codes"
    by (auto simp: frameRules_def CommandFamily_flash)
  finally show ?thesis by (simp add: flash_codes_def)
qed

text \<open>C5: A reboot or power-off command is denied under every profile and policy, however
  its words are quoted or escaped, in any letter case, behind any path, after any environment
  assignments and shell keywords, and with any arguments.\<close>

theorem power_command_denied:
  assumes "command_line ws pre c args" and "baseExecutable c \<in> {''reboot'', ''poweroff''}"
  shows "\<not> Allowed (InspectShell p profile (words_text ws))"
proof -
  have "plain_executable ''reboot''" "plain_executable ''poweroff''" by code_simp+
  with assms(2) have "plain_executable (baseExecutable c)" by auto
  from command_segment [OF assms(1) this] assms(2)
  have "isPowerControlCommand (analyzeShellCommand (words_text ws))"
    by (fastforce simp: isPowerControlCommand_def segmentsHaveExecutable_def list_ex_iff
        segmentHasExecutable_def)
  then show ?thesis
    by (intro denied_rule [of "(''power-control'', isPowerControlCommand)"])
      (simp_all add: coreShellRules_def)
qed

lemma baseExecutable_dir: "CHR ''/'' \<notin> set name \<Longrightarrow> baseExecutable (dir @ CHR ''/'' # name) = name"
  by (simp add: baseExecutable_def after_last_any_def takeWhile_append)

lemma baseExecutable_plain: "baseExecutable ''rm'' = ''rm''"
  by code_simp

text \<open>Trailing slashes of a path that does not end in one are dropped, and a path of slashes
  alone is the root.\<close>

lemma normalize_rev_slashes:
  "w \<noteq> [] \<Longrightarrow> hd w \<noteq> CHR ''/'' \<Longrightarrow> normalize_rev (replicate n (CHR ''/'') @ w) = w"
proof (induction n)
  case 0
  then show ?case by (cases w rule: normalize_rev.cases) simp_all
next
  case (Suc n)
  then obtain d r where "replicate n (CHR ''/'') @ w = d # r"
    by (metis append_is_Nil_conv neq_Nil_conv)
  with Suc show ?case by simp
qed

lemma normalize_slashes:
  "w \<noteq> [] \<Longrightarrow> last w \<noteq> CHR ''/'' \<Longrightarrow> normalizePathToken (w @ replicate n (CHR ''/'')) = w"
  by (simp add: normalizePathToken_def normalize_rev_slashes hd_rev)

lemma normalize_root: "normalizePathToken (replicate (Suc n) (CHR ''/'')) = ''/''"
proof -
  have "normalize_rev (replicate (Suc n) (CHR ''/'')) = ''/''"
    by (induction n) simp_all
  then show ?thesis
    unfolding normalizePathToken_def rev_replicate by simp
qed

lemma split_slashes:
  fixes w :: string
  obtains v n where "w = v @ replicate n (CHR ''/'')" "v = [] \<or> last v \<noteq> CHR ''/''"
proof (induction w rule: rev_induct)
  case Nil
  show ?case by (rule Nil [of "[]" 0]) simp_all
next
  case (snoc c w)
  show ?case
  proof (cases "c = CHR ''/''")
    case True
    show ?thesis
    proof (rule snoc.IH)
      fix v n
      assume "w = v @ replicate n (CHR ''/'')" "v = [] \<or> last v \<noteq> CHR ''/''"
      then show ?thesis
        using True by (intro snoc.prems [of v "Suc n"]) (simp_all add: replicate_append_same)
    qed
  next
    case False
    then show ?thesis by (intro snoc.prems [of "w @ [c]" 0]) simp_all
  qed
qed

text \<open>A path below a root keeps the root in front when it is normalised.\<close>

lemma normalize_below:
  assumes "root \<noteq> []" and "last root \<noteq> CHR ''/''" and "below = [] \<or> hd below = CHR ''/''"
  shows "normalizePathToken (root @ below) = root
    \<or> has_prefix (normalizePathToken (root @ below)) (root @ ''/'')"
proof -
  obtain v n where v: "below = v @ replicate n (CHR ''/'')" "v = [] \<or> last v \<noteq> CHR ''/''"
    by (rule split_slashes)
  have "normalizePathToken ((root @ v) @ replicate n (CHR ''/'')) = root @ v"
    by (rule normalize_slashes) (use assms(1,2) v(2) in \<open>auto simp: last_append\<close>)
  moreover have "v = [] \<or> (\<exists>u. v = CHR ''/'' # u)"
    using assms(3) v(1) by (cases v) auto
  ultimately show ?thesis
    using v(1) by (auto simp: has_prefix_def)
qed

text \<open>The paths whose removal is refused, written out.\<close>

definition critical_path :: "string \<Rightarrow> bool" where
  "critical_path path \<longleftrightarrow>
     (\<exists>n. path = replicate (Suc n) (CHR ''/'')) \<or> (\<exists>n. path = ''/data'' @ replicate n (CHR ''/''))
     \<or> (\<exists>root below. path = root @ below \<and> (below = [] \<or> hd below = CHR ''/'')
          \<and> root \<in> {''/system'', ''/system_ext'', ''/vendor'', ''/product'', ''/odm'', ''/cust'',
              ''/chip_prod'', ''/data/system'', ''/data/property'', ''/data/misc''})"

lemma normalize_normalized:
  "normalizePathToken (normalizePathToken path) = normalizePathToken path"
proof -
  have "normalize_rev (normalize_rev w) = normalize_rev w" for w
    by (induction w rule: normalize_rev.induct) simp_all
  then show ?thesis by (simp add: normalizePathToken_def)
qed

lemma critical_path_argument:
  assumes "critical_path path"
  shows "hasCriticalPathArgument [path]"
proof -
  let ?n = "normalizePathToken path"
  let ?under = "\<exists>root \<in> set (tl criticalRemovalPaths). ?n = root \<or> has_prefix ?n (root @ ''/'')"
  from assms have "?n = ''/data'' \<or> ?n = ''/'' \<or> ?under"
    unfolding critical_path_def
  proof (elim disjE)
    assume "\<exists>n. path = replicate (Suc n) (CHR ''/'')"
    then show ?thesis using normalize_root by metis
  next
    assume "\<exists>n. path = ''/data'' @ replicate n (CHR ''/'')"
    then obtain n where "path = ''/data'' @ replicate n (CHR ''/'')" ..
    then have "?n = ''/data''" using normalize_slashes [of "''/data''"] by simp
    then show ?thesis ..
  next
    assume "\<exists>root below. path = root @ below \<and> (below = [] \<or> hd below = CHR ''/'')
      \<and> root \<in> {''/system'', ''/system_ext'', ''/vendor'', ''/product'', ''/odm'', ''/cust'',
         ''/chip_prod'', ''/data/system'', ''/data/property'', ''/data/misc''}"
    then obtain root below where path: "path = root @ below" "below = [] \<or> hd below = CHR ''/''"
      and "root \<in> {''/system'', ''/system_ext'', ''/vendor'', ''/product'', ''/odm'', ''/cust'',
         ''/chip_prod'', ''/data/system'', ''/data/property'', ''/data/misc''}"
      by (elim exE conjE)
    then have "root \<in> set (tl criticalRemovalPaths)" "root \<noteq> []" "last root \<noteq> CHR ''/''"
      by (auto simp: criticalRemovalPaths_def)
    with path normalize_below [of root below] have ?under by blast
    then show ?thesis by (intro disjI2)
  qed
  moreover have "''/'' \<in> set criticalRemovalPaths"
    "\<forall>root \<in> set (tl criticalRemovalPaths). root \<in> set criticalRemovalPaths \<and> root \<noteq> ''/''"
    by (simp_all add: criticalRemovalPaths_def)
  ultimately show ?thesis
    by (fastforce simp: hasCriticalPathArgument_def isPathUnderAny_def list_ex_iff normalize_normalized Let_def)
qed

text \<open>C16: A recursive removal of a critical path is denied under every profile and policy. The
  command word is \<^verbatim>\<open>rm\<close>, bare or behind any path; one argument is
  \<^verbatim>\<open>--recursive\<close> or a cluster of short options that has an r (upper case is
  folded before); one argument is the root (any number of slashes), the data root, a system
  partition or a protected data directory, or anything below one of the latter, with any number
  of trailing slashes. Flag and path may stand anywhere among the arguments and be quoted in any
  way. A path that starts with two slashes and goes on is not among these.\<close>

theorem critical_removal_denied:
  assumes "command_line ws pre c args" and "c = ''rm'' \<or> (\<exists>dir. c = dir @ ''/rm'')"
    and "flag \<in> set args"
    and "flag = ''--recursive''
      \<or> (\<exists>letters. flag = CHR ''-'' # letters \<and> hd letters \<noteq> CHR ''-'' \<and> CHR ''r'' \<in> set letters)"
    and "path \<in> set args"
    and "(\<exists>n. path = replicate (Suc n) (CHR ''/'')) \<or> (\<exists>n. path = ''/data'' @ replicate n (CHR ''/''))
      \<or> (\<exists>root below. path = root @ below \<and> (below = [] \<or> hd below = CHR ''/'')
          \<and> root \<in> {''/system'', ''/system_ext'', ''/vendor'', ''/product'', ''/odm'', ''/cust'',
              ''/chip_prod'', ''/data/system'', ''/data/property'', ''/data/misc''})"
  shows "\<not> Allowed (InspectShell p profile (words_text ws))"
proof -
  have base: "baseExecutable c = ''rm''"
    using assms(2) baseExecutable_plain baseExecutable_dir [of "''rm''"] by auto
  have flag: "recursive_token flag"
    using assms(4)
  proof (elim disjE exE conjE)
    assume "flag = ''--recursive''"
    then show ?thesis by (simp add: recursive_token_def has_prefix_def)
  next
    fix letters
    assume "flag = CHR ''-'' # letters" "hd letters \<noteq> CHR ''-''" "CHR ''r'' \<in> set letters"
    then show ?thesis
      by (cases letters) (auto simp: recursive_token_def has_prefix_def contains_any_def list_ex_iff)
  qed
  have path: "hasCriticalPathArgument [path]"
    using critical_path_argument assms(6) unfolding critical_path_def .
  have "plain_executable ''rm''" by code_simp
  then have "plain_executable (baseExecutable c)" using base by simp
  with command_segment [OF assms(1)] obtain s where s: "s \<in> set (analyzeShellCommand (words_text ws))"
      "commands s = [baseExecutable c]" "tokens s = pre @ c # args"
    by blast
  have "segmentHasExecutable s ''rm''" "hasRecursiveOption (tokens s)" "hasCriticalPathArgument (tokens s)"
    using s(2,3) base flag path assms(3,5)
    by (auto simp: segmentHasExecutable_def hasRecursiveOption_def hasCriticalPathArgument_def
        list_ex_iff)
  with s(1) have "removesCriticalPath (analyzeShellCommand (words_text ws))"
    by (auto simp: removesCriticalPath_def list_ex_iff)
  then show ?thesis
    by (intro denied_rule [of "(''remove-critical-path'', removesCriticalPath)"])
      (simp_all add: coreShellRules_def)
qed

text \<open>C8: A command that the built-in rules deny cannot be hidden behind another one. Put after any command text
  whose quotes and substitutions are closed and a separator (semicolon, ampersand, newline,
  carriage return or NUL), it is still denied, by every policy and profile.\<close>

theorem separator_cannot_hide:
  assumes "core_denied (analyzeShellCommand cmd)" and "\<not> snd (lex_once (to_lower cmd))"
    and "closed_prefix (to_lower prefix)" and "cut_char sep"
  shows "\<not> Allowed (InspectShell p profile (prefix @ sep # cmd))"
proof -
  have sep: "to_lower (sep # cmd) = sep # to_lower cmd"
    using assms(4) by (auto simp: to_lower_def cut_char_def lower_char_def)
  obtain X where X: "fst (lex_once (to_lower prefix @ sep # to_lower cmd))
      = fst (lex_once (to_lower prefix)) @ X" "list_all2 seg_le (fst (lex_once (to_lower cmd))) X"
    using lex_once_cut(2) [OF assms(3,4)] by blast
  have "\<not> snd (lex_once (to_lower prefix @ sep # to_lower cmd))"
    using lex_once_cut(1) [OF assms(3,4)] assms(2) by simp
  then have "analyzeShellCommand (prefix @ sep # cmd)
      = expandSegments (fst (lex_once (to_lower prefix))) 0 @ expandSegments X 0"
    by (simp add: analyzeShellCommand_def sep lexShellSegments_closed X(1) expandSegments_append)
  moreover have "analyzeShellCommand cmd = expandSegments (fst (lex_once (to_lower cmd))) 0"
    using assms(2) by (simp add: analyzeShellCommand_def lexShellSegments_closed)
  ultimately have "covers (analyzeShellCommand cmd) (analyzeShellCommand (prefix @ sep # cmd))"
    using expand_covers [OF X(2)] by (simp add: covers_suffix)
  then have "core_denied (analyzeShellCommand (prefix @ sep # cmd))"
    using assms(1) by (rule core_denied_mono)
  then show ?thesis by (simp add: InspectShell_allowed)
qed

text \<open>C9: A command that the built-in rules deny stays denied when it is handed to an inline shell: for any shell
  of the wrapper list behind any path, the \<^verbatim>\<open>-c\<close> flag and one word, quoted in any
  way, whose value is the command.\<close>

theorem inline_shell_denied:
  assumes "list_all form_ok [sh, flag, w]" and "isStringCommandWrapper (baseExecutable (to_lower (form_val sh)))"
    and "to_lower (form_val flag) = ''-c''" and "form_val w = cmd"
    and "core_denied (analyzeShellCommand cmd)"
  shows "\<not> Allowed (InspectShell p profile (words_text [sh, flag, w]))"
proof -
  let ?s = "empty_segment\<lparr>tokens := policy_words [sh, flag, w]\<rparr>"
  have inline: "inlineShellCommand (policy_words [sh, flag, w]) = to_lower cmd"
    using assms(2-4) by (simp add: policy_words_def)
  have ne: "to_lower cmd \<noteq> []"
  proof
    assume "to_lower cmd = []"
    moreover have "analyzeShellCommand [] = []"
      by (simp add: analyzeShellCommand_def to_lower_def) code_simp
    ultimately show False
      using assms(5) by (simp add: to_lower_def)
  qed
  have "set (expandSegments (lexShellSegments (to_lower cmd)) (Suc 0))
      \<subseteq> set (analyzeShellCommand (words_text [sh, flag, w]))"
    unfolding analyze_forms [OF assms(1) list.distinct(2)]
    using inline ne by (auto simp: Let_def)
  then have "covers (expandSegments (lexShellSegments (to_lower cmd)) (Suc 0))
      (analyzeShellCommand (words_text [sh, flag, w]))"
    by (force simp: covers_def seg_le_def)
  moreover have "core_denied (expandSegments (lexShellSegments (to_lower cmd)) (Suc 0))"
    using assms(5) by (intro denied_deeper) (simp add: analyzeShellCommand_def)
  ultimately show ?thesis
    using core_denied_mono by (simp add: InspectShell_allowed)
qed

text \<open>C17: Configuration can only tighten. A command allowed under a policy with extra
  denied executables and some profile is allowed with fewer extras under any profile that is
  not stricter; in particular the default policy and profile allow it.\<close>

theorem policy_only_tightens:
  assumes "Allowed (InspectShell (New extra') profile' cmd)" and "set extra \<subseteq> set extra'"
    and "resolveProfile profile = ProfileRestricted \<longrightarrow> resolveProfile profile' = ProfileRestricted"
  shows "Allowed (InspectShell (New extra) profile cmd) \<and> Allowed (InspectShellCommand cmd)"
proof -
  have "set (New extra) \<subseteq> set (New extra')"
    using assms(2) by (auto simp: New_def)
  moreover have "resolveProfile ProfileStudioDebug \<noteq> ProfileRestricted"
    by code_simp
  ultimately show ?thesis
    using assms(1,3)
    by (auto simp: InspectShell_allowed InspectShellCommand_def defaultPolicy_def
        matchExtraExecutable_New)
qed

lemma power_command_denied_witness:
  "\<not> Allowed (InspectShell defaultPolicy ProfileRestricted
     (words_text [[Bare (CHR ''A''), Bare (CHR ''=''), Bare (CHR ''1'')],
        [Single ''/bin/'', Double ''RE'', Escaped (CHR ''b''), Single ''oot'']]))"
proof (rule power_command_denied)
  show "command_line [[Bare (CHR ''A''), Bare (CHR ''=''), Bare (CHR ''1'')],
        [Single ''/bin/'', Double ''RE'', Escaped (CHR ''b''), Single ''oot'']]
      [''a=1''] ''/bin/reboot'' []"
    by code_simp
  show "baseExecutable ''/bin/reboot'' \<in> {''reboot'', ''poweroff''}" by code_simp
qed

lemma critical_removal_denied_witness:
  "\<not> Allowed (InspectShell defaultPolicy ProfileStudioDebug
     (words_text [[Single ''rm''], [Single ''/system/app//''], [Single ''-fR'']]))"
proof (rule critical_removal_denied)
  show "command_line [[Single ''rm''], [Single ''/system/app//''], [Single ''-fR'']]
      [] ''rm'' [''/system/app//'', ''-fr'']"
    by code_simp
  show "''-fr'' = ''--recursive'' \<or> (\<exists>letters. ''-fr'' = CHR ''-'' # letters
      \<and> hd letters \<noteq> CHR ''-'' \<and> CHR ''r'' \<in> set letters)"
    by simp
  show "(\<exists>n. ''/system/app//'' = replicate (Suc n) (CHR ''/''))
      \<or> (\<exists>n. ''/system/app//'' = ''/data'' @ replicate n (CHR ''/''))
      \<or> (\<exists>root below. ''/system/app//'' = root @ below \<and> (below = [] \<or> hd below = CHR ''/'')
          \<and> root \<in> {''/system'', ''/system_ext'', ''/vendor'', ''/product'', ''/odm'', ''/cust'',
              ''/chip_prod'', ''/data/system'', ''/data/property'', ''/data/misc''})"
    by (intro disjI2 exI [of _ "''/system''"] exI [of _ "''/app//''"]) simp
qed simp_all

lemma separator_cannot_hide_witness:
  "\<not> Allowed (InspectShell defaultPolicy ProfileStudioDebug ((''echo '' @ dquote # ''a;b'' @ [dquote]) @ CHR 0x0A # ''reboot''))"
proof (rule separator_cannot_hide)
  show "core_denied (analyzeShellCommand ''reboot'')" by code_simp
  show "\<not> snd (lex_once (to_lower ''reboot''))" by code_simp
  show "closed_prefix (to_lower (''echo '' @ dquote # ''a;b'' @ [dquote]))" by code_simp
  show "cut_char (CHR 0x0A)" by code_simp
qed

lemma inline_shell_denied_witness:
  "\<not> Allowed (InspectShell defaultPolicy ProfileStudioDebug
     (words_text [[Single ''/bin/sh''], [Single ''-C''], [Single ''ls; reboot'']]))"
proof (rule inline_shell_denied)
  show "list_all form_ok [[Single ''/bin/sh''], [Single ''-C''], [Single ''ls; reboot'']]"
    "isStringCommandWrapper (baseExecutable (to_lower (form_val [Single ''/bin/sh''])))"
    "to_lower (form_val [Single ''-C'']) = ''-c''" "form_val [Single ''ls; reboot''] = ''ls; reboot''"
    "core_denied (analyzeShellCommand ''ls; reboot'')"
    by code_simp+
qed

lemma policy_only_tightens_witness:
  "Allowed (InspectShell (New []) [] ''ls -l'') \<and> Allowed (InspectShellCommand ''ls -l'')"
proof (rule policy_only_tightens)
  show "Allowed (InspectShell (New [''/bin/CAT '']) ProfileRestricted ''ls -l'')" by code_simp
  show "set [] \<subseteq> set [''/bin/CAT '']" by simp
  show "resolveProfile [] = ProfileRestricted \<longrightarrow> resolveProfile ProfileRestricted = ProfileRestricted"
    by code_simp
qed

text \<open>A doubled slash inside a path is not normalised, so the rule does not see this one.\<close>

lemma doubled_slash_allowed: "Allowed (InspectShellCommand ''rm -rf //system'')"
  by code_simp

text \<open>A backslash before a line feed is a line continuation for the device's shell, which drops
  both characters; the scanner keeps the line feed as part of the word. So \<open>reboot\<close> with a line
  continuation in its middle is allowed under every profile, while the same command on one line
  is denied.\<close>

theorem line_continuation_hides:
  "Allowed (InspectShell (New []) profile (''reb'' @ [CHR 0x5C, CHR 0x0A] @ ''oot''))
   \<and> \<not> Allowed (InspectShell (New []) profile ''reboot'')"
proof -
  have "\<not> core_denied (analyzeShellCommand (''reb'' @ [CHR 0x5C, CHR 0x0A] @ ''oot''))
    \<and> matchAnyExecutable (analyzeShellCommand (''reb'' @ [CHR 0x5C, CHR 0x0A] @ ''oot''))
        restrictedExecutables = None
    \<and> matchExtraExecutable (New []) (analyzeShellCommand (''reb'' @ [CHR 0x5C, CHR 0x0A] @ ''oot'')) = None"
    by code_simp
  moreover have "core_denied (analyzeShellCommand ''reboot'')"
    by code_simp
  ultimately show ?thesis
    unfolding InspectShell_allowed by blast
qed

end
