(* ===== verification/Model.thy ===== *)
theory Model
  imports Prelude
begin

text \<open>
  The domain records of \<^verbatim>\<open>src/internal/model/model.go\<close>, IP prefixes as the
  admission check uses them, and \<^verbatim>\<open>DeviceSerial\<close>.

  Times and durations are nanoseconds as integers; time \<open>0\<close> is Go's zero time. Field names carry a
  prefix of their record, since Isabelle shares one name space for selectors. Addresses and
  prefixes follow \<^verbatim>\<open>net/netip\<close>: a prefix contains only addresses of its own family.
\<close>

type_synonym time = int
type_synonym duration = int

abbreviation (input) Second :: duration where "Second \<equiv> 1000000000"

section \<open>States\<close>

datatype Transport = TransportUSB | TransportTCP | TransportUnknown

datatype TargetStatus = TargetOnline | TargetOffline | TargetUnauthorized | TargetUnknown

datatype BindingStatus =
  BindingReserved | BindingListening | BindingFrozen | BindingReleased | BindingFailed

datatype LeaseStatus =
  LeaseActive | LeaseReleasing | LeaseReleased | LeaseExpired | LeaseRevoked | LeaseFailed

datatype RemoteAccessStatus =
  RemoteNotEnabled | RemoteConnectable | RemoteConnected | RemoteReleasing | RemoteReleased
  | RemoteFailed

datatype AuditDecision = AuditAllowed | AuditRejected

section \<open>Addresses\<close>

datatype ip_addr = V4 "32 word" | V6 "128 word"

record ip_prefix =
  px_addr :: ip_addr
  px_bits :: nat

text \<open>\<^verbatim>\<open>Addr.Unmap\<close>: an IPv4-mapped IPv6 address becomes the IPv4 address.\<close>

fun unmap_addr :: "ip_addr \<Rightarrow> ip_addr" where
  "unmap_addr (V4 a) = V4 a"
| "unmap_addr (V6 a) = (if drop_bit 32 a = 0xFFFF then V4 (ucast a) else V6 a)"

text \<open>\<^verbatim>\<open>Prefix.Contains\<close>, false for a prefix longer than its family allows.\<close>

fun prefix_contains :: "ip_prefix \<Rightarrow> ip_addr \<Rightarrow> bool" where
  "prefix_contains p (V4 a) = (case px_addr p of V6 _ \<Rightarrow> False
     | V4 b \<Rightarrow> px_bits p \<le> 32 \<and> drop_bit (32 - px_bits p) (a XOR b) = 0)"
| "prefix_contains p (V6 a) = (case px_addr p of V4 _ \<Rightarrow> False
     | V6 b \<Rightarrow> px_bits p \<le> 128 \<and> drop_bit (128 - px_bits p) (a XOR b) = 0)"

section \<open>Records\<close>

record Device =
  dv_ID :: string
  dv_ConnectKey :: string
  dv_Transport :: Transport
  dv_Status :: TargetStatus
  dv_Model :: string
  dv_ServerNode :: string
  dv_UpdatedAt :: time

record Binding =
  bd_ID :: string
  bd_DeviceID :: string
  bd_PublicHost :: string
  bd_Port :: int
  bd_Status :: BindingStatus
  bd_CreatedAt :: time
  bd_UpdatedAt :: time

record Lease =
  ls_ID :: string
  ls_BindingID :: string
  ls_DeviceID :: string
  ls_OwnerID :: string
  ls_AllowedSourceCIDRs :: "string list"
  ls_MaxConnections :: int
  ls_ActiveConnections :: int
  ls_PolicyProfile :: string
  ls_Status :: LeaseStatus
  ls_ExpiresAt :: time
  ls_CreatedAt :: time
  ls_UpdatedAt :: time

record AcquireRequest =
  ar_DeviceIdentifier :: string
  ar_OwnerID :: string
  ar_AllowedSourceCIDRs :: "string list"
  ar_TTL :: duration
  ar_MaxConnections :: int
  ar_PolicyProfile :: string

record Grant =
  gr_LeaseID :: string
  gr_Binding :: Binding
  gr_DeviceID :: string
  gr_OwnerID :: string
  gr_AllowedSourcePrefixes :: "ip_prefix list"
  gr_MaxConnections :: int
  gr_ExpiresAt :: time
  gr_PolicyProfile :: string

record RemoteAccessView =
  rv_DeviceID :: string
  rv_DeviceName :: string
  rv_USBStatus :: TargetStatus
  rv_RemoteAccessStatus :: RemoteAccessStatus
  rv_ConnectCommand :: string
  rv_VerifyCommand :: string
  rv_ProxyPort :: int
  rv_PublicHost :: string
  rv_LeaseID :: string
  rv_OwnerID :: string
  rv_AllowedSourceCIDRs :: "string list"
  rv_MaxConnections :: int
  rv_ActiveConnections :: int
  rv_ExpiresAt :: "time option"
  rv_ErrorMessage :: string
  rv_LastRejectedCommandReason :: string

record LiveSession =
  se_SessionID :: string
  se_DeviceID :: string
  se_Serial :: string
  se_Hostname :: string
  se_Fingerprint :: string
  se_SourceIP :: string
  se_ConnectedAt :: time

record Audit =
  au_LeaseID :: string
  au_ConnectionID :: string
  au_DeviceID :: string
  au_OwnerID :: string
  au_SourceIP :: string
  au_Fingerprint :: string
  au_CommandFlag :: u64
  au_CommandName :: string
  au_NormalizedCommand :: string
  au_Decision :: AuditDecision
  au_Reason :: string
  au_CreatedAt :: time

section \<open>Device serials\<close>

text \<open>\<^verbatim>\<open>strings.Cut\<close> at a character: the parts before and after its first
  occurrence.\<close>

fun cut_char_at :: "char \<Rightarrow> string \<Rightarrow> (string \<times> string) option" where
  "cut_char_at d [] = None"
| "cut_char_at d (c # s) =
     (if c = d then Some ([], s)
      else map_option (\<lambda>(a, b). (c # a, b)) (cut_char_at d s))"

definition DeviceSerial :: "string \<Rightarrow> string" where
  "DeviceSerial deviceID =
     (let deviceID = trim_space deviceID
      in case cut_char_at (CHR '':'') deviceID of
           None \<Rightarrow> deviceID
         | Some (_, serial) \<Rightarrow> if trim_space serial = [] then deviceID else serial)"

lemma cut_char_at_append:
  "d \<notin> set a \<Longrightarrow> cut_char_at d (a @ d # b) = Some (a, b)"
  by (induction a) auto

lemma cut_char_at_None: "cut_char_at d s = None \<longleftrightarrow> d \<notin> set s"
  by (induction s) auto

text \<open>Sorting a Go slice by a time key; the result is one of the orders \<^verbatim>\<open>sort.Slice\<close>
  may produce (equal keys keep their order here).\<close>

definition sort_by :: "('a \<Rightarrow> time) \<Rightarrow> 'a list \<Rightarrow> 'a list" where
  "sort_by key xs = sort_key key xs"

lemma sort_by_facts [simp]:
  "set (sort_by key xs) = set xs" "length (sort_by key xs) = length xs"
  "sorted (map key (sort_by key xs))"
  by (simp_all add: sort_by_def)

end
