(* ===== verification/Host_Auth.thy ===== *)
theory Host_Auth
  imports Model Handshake
begin

text \<open>
  Host authentication, \<^verbatim>\<open>src/internal/hostauth\<close>: the identity and signature
  checks of \<^verbatim>\<open>crypto.go\<close>, the known-hosts file of
  \<^verbatim>\<open>store.go\<close>, and the registry of \<^verbatim>\<open>registry.go\<close> (trusted
  fingerprints, pending requests, recent events, notices).

  PEM and X.509 parsing, SHA-256/512, base64 and RSA-PSS verification belong to the Go library:
  they are the parameters \<open>parse_pem\<close> (the modulus and exponent of an RSA key), \<open>sha256_hex\<close>,
  \<open>base64\<close> and \<open>verify_pss\<close>. RSA public decryption and its padding are written out.

  A registry operation is the code between lock and unlock, as one step. \<open>Submit\<close> is two
  steps (queue the request; take the outcome of the wait), and an operation that saves takes
  whether the save succeeded. A wait channel of capacity one is an optional decision.
\<close>

section \<open>Identities and signatures\<close>

datatype AuthType = AuthRSAEncrypt | AuthRSA3072SHA512

record HostIdentity =
  hi_Hostname :: string
  hi_PublicKey :: string
  hi_Fingerprint :: string

datatype identity_error =
    PayloadInvalid | PayloadIncomplete | PayloadTooLarge | HostNameInvalid | KeyInvalid | KeyTooWeak

type_synonym rsa_key = "nat \<times> nat"

text \<open>\<^verbatim>\<open>BitLen\<close>.\<close>

fun bit_len :: "nat \<Rightarrow> nat" where
  "bit_len n = (if n = 0 then 0 else Suc (bit_len (n div 2)))"

declare bit_len.simps [simp del]

definition parseRSAPublicKey ::
  "(string \<Rightarrow> rsa_key option) \<Rightarrow> string \<Rightarrow> identity_error + rsa_key" where
  "parseRSAPublicKey parse_pem publicKey =
     (case parse_pem publicKey of None \<Rightarrow> Inl KeyInvalid
      | Some key \<Rightarrow> if bit_len (fst key) < 2048 then Inl KeyTooWeak else Inr key)"

definition ParseHostIdentity ::
  "(string \<Rightarrow> rsa_key option) \<Rightarrow> (string \<Rightarrow> string) \<Rightarrow> string \<Rightarrow> identity_error + HostIdentity" where
  "ParseHostIdentity parse_pem sha256_hex buffer =
     (case index_byte buffer (CHR 0x0C) of None \<Rightarrow> Inl PayloadInvalid
      | Some separator \<Rightarrow>
          if separator = 0 \<or> length buffer \<le> separator + 1 then Inl PayloadInvalid
          else let hostname = trim_space (take separator buffer);
                   publicKey = trim_space (drop (separator + 1) buffer)
               in if hostname = [] \<or> publicKey = [] then Inl PayloadIncomplete
                  else if 256 < length hostname \<or> 8 * 1024 < length publicKey then Inl PayloadTooLarge
                  else if \<not> list_all printable_ascii hostname then Inl HostNameInvalid
                  else case parseRSAPublicKey parse_pem publicKey of Inl e \<Rightarrow> Inl e
                    | Inr _ \<Rightarrow> Inr \<lparr>hi_Hostname = hostname, hi_PublicKey = publicKey,
                        hi_Fingerprint = sha256_hex publicKey\<rparr>)"

definition ParseClientAuthType :: "string \<Rightarrow> AuthType" where
  "ParseClientAuthType buffer =
     (case ParseHandshakeTLV buffer of Inl _ \<Rightarrow> AuthRSAEncrypt
      | Inr flds \<Rightarrow> if map_of flds ''authtype'' = Some ''1'' then AuthRSA3072SHA512
          else AuthRSAEncrypt)"

definition drop_spaces :: "string \<Rightarrow> string" where
  "drop_spaces s = concat (str_fields s)"

definition decodeChallengeSignature :: "(string \<Rightarrow> bytes option) \<Rightarrow> string \<Rightarrow> bytes option" where
  "decodeChallengeSignature base64 signature =
     (let trimmed = drop_spaces signature
      in if trimmed = [] then None
         else case base64 trimmed of None \<Rightarrow> None
           | Some raw \<Rightarrow> if raw = [] then None else Some raw)"

text \<open>Big-endian numbers: \<^verbatim>\<open>SetBytes\<close> and \<^verbatim>\<open>FillBytes\<close>.\<close>

definition os2ip :: "bytes \<Rightarrow> nat" where
  "os2ip bs = foldl (\<lambda>n b. n * 256 + unat b) 0 bs"

fun i2osp :: "nat \<Rightarrow> nat \<Rightarrow> bytes" where
  "i2osp 0 n = []"
| "i2osp (Suc k) n = i2osp k (n div 256) @ [of_nat (n mod 256)]"

definition key_size :: "rsa_key \<Rightarrow> nat" where
  "key_size key = (bit_len (fst key) + 7) div 8"

text \<open>The padding check: \<open>00 01 FF..FF 00\<close> with at least eight \<open>FF\<close>.\<close>

definition unpad :: "bytes \<Rightarrow> bytes option" where
  "unpad em =
     (if length em < 2 \<or> em ! 0 \<noteq> 0x00 \<or> em ! 1 \<noteq> 0x01 then None
      else let index = 2 + length (takeWhile (\<lambda>b. b = 0xFF) (drop 2 em))
           in if index < 10 \<or> length em \<le> index \<or> em ! index \<noteq> 0x00 then None
              else Some (drop (index + 1) em))"

definition pow_mod :: "nat \<Rightarrow> nat \<Rightarrow> nat \<Rightarrow> nat" where
  "pow_mod c e n = (c ^ e) mod n"

definition rsaPublicDecryptPKCS1v15 :: "rsa_key \<Rightarrow> bytes \<Rightarrow> bytes option" where
  "rsaPublicDecryptPKCS1v15 pub cipher =
     (let size_n = key_size pub
      in if cipher = [] \<or> size_n < length cipher then None
         else let c = os2ip cipher
              in if fst pub \<le> c then None
                 else unpad (i2osp size_n (pow_mod c (snd pub) (fst pub))))"

definition VerifyChallenge ::
  "(string \<Rightarrow> rsa_key option) \<Rightarrow> (string \<Rightarrow> bytes option)
     \<Rightarrow> (rsa_key \<Rightarrow> string \<Rightarrow> bytes \<Rightarrow> bool) \<Rightarrow> string \<Rightarrow> string \<Rightarrow> string \<Rightarrow> AuthType \<Rightarrow> bool" where
  "VerifyChallenge parse_pem base64 verify_pss publicKey token signature authType =
     (case parseRSAPublicKey parse_pem publicKey of Inl _ \<Rightarrow> False
      | Inr key \<Rightarrow>
          (case decodeChallengeSignature base64 signature of None \<Rightarrow> False
           | Some raw \<Rightarrow>
               (case authType of
                  AuthRSA3072SHA512 \<Rightarrow> verify_pss key token raw
                | AuthRSAEncrypt \<Rightarrow>
                    (case rsaPublicDecryptPKCS1v15 key raw of None \<Rightarrow> False
                     | Some plain \<Rightarrow> string_of plain = token))))"

definition ShortFingerprint :: "string \<Rightarrow> string" where
  "ShortFingerprint fingerprint = take 16 (trim_space fingerprint)"

section \<open>Registry state\<close>

datatype HostDecision =
    DecisionAllowOnce | DecisionAllowForever | DecisionDeny | DecisionExpired | DecisionOther string

fun decision_string :: "HostDecision \<Rightarrow> string" where
  "decision_string DecisionAllowOnce = ''allow_once''"
| "decision_string DecisionAllowForever = ''allow_forever''"
| "decision_string DecisionDeny = ''deny''"
| "decision_string DecisionExpired = ''expired''"
| "decision_string (DecisionOther s) = s"

record PendingRequest =
  pr_RequestID :: string
  pr_DeviceID :: string
  pr_Serial :: string
  pr_Hostname :: string
  pr_Fingerprint :: string
  pr_SourceIP :: string
  pr_LeaseID :: string
  pr_CreatedAt :: time
  pr_ExpiresAt :: time

record KnownHost =
  kh_Fingerprint :: string
  kh_Hostname :: string
  kh_CreatedAt :: time

record RecentEvent =
  re_At :: time
  re_Action :: string
  re_Hostname :: string
  re_Fingerprint :: string
  re_SourceIP :: string
  re_Serial :: string

record Notice =
  no_NoticeID :: string
  no_Kind :: string
  no_Serial :: string
  no_SourceIP :: string
  no_Version :: string
  no_Required :: string
  no_Message :: string
  no_CreatedAt :: time
  no_ExpiresAt :: time

datatype host_error =
    FingerprintRequired | SelectorRequired | InvalidDecision | HostNotFound | AmbiguousPrefix
  | SaveFailed | NoticeIDRequired | KnownHostsVersion int

abbreviation (input) maxRecentEvents :: nat where "maxRecentEvents \<equiv> 20"

type_synonym pendingWaiter = "PendingRequest \<times> HostDecision option"

record Registry =
  rg_confirmTimeout :: duration
  rg_hosts :: "(string, KnownHost) gomap"
  rg_pending :: "(string, pendingWaiter) gomap"
  rg_recent :: "RecentEvent list"
  rg_notices :: "Notice list"
  rg_suppressed :: "(string, time) gomap"
  rg_disk :: "KnownHost list"

section \<open>The known-hosts file\<close>

text \<open>The loop of \<^verbatim>\<open>loadKnownHosts\<close> over the decoded snapshot.\<close>

fun load_hosts :: "time \<Rightarrow> string list \<Rightarrow> KnownHost list \<Rightarrow> KnownHost list" where
  "load_hosts now seen [] = []"
| "load_hosts now seen (host # rest) =
     (let fingerprint = trim_space (kh_Fingerprint host)
      in if fingerprint = [] \<or> fingerprint \<in> set seen then load_hosts now seen rest
         else \<lparr>kh_Fingerprint = fingerprint, kh_Hostname = trim_space (kh_Hostname host),
             kh_CreatedAt = (if kh_CreatedAt host = 0 then now else kh_CreatedAt host)\<rparr>
           # load_hosts now (fingerprint # seen) rest)"

text \<open>\<open>None\<close>: no file. JSON decoding is the library's; its result is the argument.\<close>

definition loadKnownHosts ::
  "time \<Rightarrow> (int \<times> KnownHost list) option \<Rightarrow> host_error + KnownHost list" where
  "loadKnownHosts now file =
     (case file of None \<Rightarrow> Inr []
      | Some (version, hosts) \<Rightarrow> if version \<noteq> 1 then Inl (KnownHostsVersion version)
          else Inr (load_hosts now [] hosts))"

definition NewRegistry ::
  "time \<Rightarrow> duration \<Rightarrow> (int \<times> KnownHost list) option \<Rightarrow> host_error + Registry" where
  "NewRegistry now confirmTimeout file =
     (case loadKnownHosts now file of Inl e \<Rightarrow> Inl e
      | Inr hosts \<Rightarrow> Inr \<lparr>rg_confirmTimeout = (if confirmTimeout \<le> 0 then 90 * Second else confirmTimeout),
          rg_hosts = fold (\<lambda>host m. AList.update (kh_Fingerprint host) host m) hosts [],
          rg_pending = [], rg_recent = [], rg_notices = [], rg_suppressed = [],
          rg_disk = (case file of None \<Rightarrow> [] | Some (_, hs) \<Rightarrow> hs)\<rparr>)"

section \<open>Registry operations\<close>

definition Trusted :: "string \<Rightarrow> Registry \<Rightarrow> bool" where
  "Trusted fingerprint r \<longleftrightarrow> map_of (rg_hosts r) (trim_space fingerprint) \<noteq> None"

definition hostListLocked :: "Registry \<Rightarrow> KnownHost list" where
  "hostListLocked r = sort_by kh_CreatedAt (map snd (rg_hosts r))"

definition fingerprintMatch :: "string \<Rightarrow> string \<Rightarrow> bool" where
  "fingerprintMatch stored selector =
     (let stored = trim_space stored; selector = trim_space selector
      in if stored = [] \<or> selector = [] then False
         else stored = selector \<or> has_prefix stored selector)"

definition RecordEvent :: "time \<Rightarrow> RecentEvent \<Rightarrow> Registry \<Rightarrow> Registry" where
  "RecordEvent now event r =
     (if re_Action event = [] then r
      else let event = (if re_At event = 0 then event\<lparr>re_At := now\<rparr> else event)
           in r\<lparr>rg_recent := take maxRecentEvents (event # rg_recent r)\<rparr>)"

definition request_event :: "HostDecision \<Rightarrow> PendingRequest \<Rightarrow> RecentEvent" where
  "request_event d p = \<lparr>re_At = 0, re_Action = decision_string d, re_Hostname = pr_Hostname p,
     re_Fingerprint = pr_Fingerprint p, re_SourceIP = pr_SourceIP p, re_Serial = pr_Serial p\<rparr>"

text \<open>\<^verbatim>\<open>Submit\<close> up to the wait: an immediate answer, or the queued request.\<close>

datatype submit_result = SubmitError host_error | SubmitNow HostDecision | SubmitWait string

definition fill_request :: "time \<Rightarrow> duration \<Rightarrow> string \<Rightarrow> PendingRequest \<Rightarrow> PendingRequest" where
  "fill_request now timeout newID p =
     p\<lparr>pr_CreatedAt := (if pr_CreatedAt p = 0 then now else pr_CreatedAt p),
       pr_ExpiresAt := (if pr_ExpiresAt p = 0 then now + timeout else pr_ExpiresAt p),
       pr_RequestID := (if pr_RequestID p = [] then newID else pr_RequestID p)\<rparr>"

definition submit_begin ::
  "time \<Rightarrow> string \<Rightarrow> PendingRequest \<Rightarrow> Registry \<Rightarrow> Registry \<times> submit_result" where
  "submit_begin now newID request r =
     (let fp = trim_space (pr_Fingerprint request)
      in if fp = [] then (r, SubmitError FingerprintRequired)
         else let request = fill_request now (rg_confirmTimeout r) newID (request\<lparr>pr_Fingerprint := fp\<rparr>)
              in if map_of (rg_hosts r) fp \<noteq> None then (r, SubmitNow DecisionAllowForever)
                 else (r\<lparr>rg_pending := AList.update (pr_RequestID request) (request, None) (rg_pending r)\<rparr>,
                       SubmitWait (pr_RequestID request)))"

text \<open>What ended the wait: the channel, the connection's context, or the timer.\<close>

datatype wait_cause = WaitResult | WaitContextDone | WaitTimer

definition submit_end ::
  "time \<Rightarrow> wait_cause \<Rightarrow> string \<Rightarrow> Registry \<Rightarrow> (Registry \<times> HostDecision) option" where
  "submit_end now cause requestID r =
     (case map_of (rg_pending r) requestID of None \<Rightarrow> None
      | Some (request, result) \<Rightarrow>
          (case (case cause of WaitResult \<Rightarrow> result | WaitContextDone \<Rightarrow> Some DecisionDeny
                 | WaitTimer \<Rightarrow> Some DecisionExpired) of
             None \<Rightarrow> None
           | Some decision \<Rightarrow>
               let r = r\<lparr>rg_pending := AList.delete requestID (rg_pending r)\<rparr>;
                   decision = (if decision = DecisionOther [] then DecisionDeny else decision)
               in Some (if decision = DecisionExpired
                        then RecordEvent now (request_event decision request) r else r, decision)))"

definition select_waiter :: "string \<Rightarrow> Registry \<Rightarrow> (string \<times> pendingWaiter) option" where
  "select_waiter selector r =
     (case map_of (rg_pending r) selector of Some w \<Rightarrow> Some (selector, w)
      | None \<Rightarrow> find (\<lambda>(rid, w). fingerprintMatch (pr_Fingerprint (fst w)) selector) (rg_pending r))"

text \<open>\<^verbatim>\<open>Decide\<close> under the lock, with the snapshot it will save.\<close>

definition decide_locked ::
  "time \<Rightarrow> string \<Rightarrow> HostDecision \<Rightarrow> Registry
     \<Rightarrow> host_error + (Registry \<times> string \<times> PendingRequest \<times> KnownHost list option)" where
  "decide_locked now selector decision r =
     (let selector = trim_space selector
      in if selector = [] then Inl SelectorRequired
         else if decision \<notin> {DecisionAllowOnce, DecisionAllowForever, DecisionDeny}
           then Inl InvalidDecision
         else case select_waiter selector r of None \<Rightarrow> Inl HostNotFound
           | Some (rid, request, _) \<Rightarrow>
               if decision = DecisionAllowForever then
                 (let host = \<lparr>kh_Fingerprint = pr_Fingerprint request, kh_Hostname = pr_Hostname request,
                        kh_CreatedAt = now\<rparr>;
                      r = r\<lparr>rg_hosts := AList.update (pr_Fingerprint request) host (rg_hosts r)\<rparr>
                  in Inr (r, rid, request, Some (hostListLocked r)))
               else Inr (r, rid, request, None))"

text \<open>The non-blocking send on the wait channel: dropped when the waiter is gone or has a
  decision already.\<close>

definition deliver :: "string \<Rightarrow> HostDecision \<Rightarrow> Registry \<Rightarrow> Registry" where
  "deliver rid decision r =
     (case map_of (rg_pending r) rid of
        Some (request, None) \<Rightarrow>
          r\<lparr>rg_pending := AList.update rid (request, Some decision) (rg_pending r)\<rparr>
      | _ \<Rightarrow> r)"

definition write_known_hosts :: "KnownHost list \<Rightarrow> Registry \<Rightarrow> Registry" where
  "write_known_hosts hosts r = r\<lparr>rg_disk := hosts\<rparr>"

definition Decide ::
  "time \<Rightarrow> bool \<Rightarrow> string \<Rightarrow> HostDecision \<Rightarrow> Registry \<Rightarrow> Registry \<times> host_error option" where
  "Decide now save_ok selector decision r =
     (case decide_locked now selector decision r of Inl e \<Rightarrow> (r, Some e)
      | Inr (r, rid, request, hosts) \<Rightarrow>
          if hosts \<noteq> None \<and> \<not> save_ok then (r, Some SaveFailed)
          else let r = (case hosts of Some hs \<Rightarrow> write_known_hosts hs r | None \<Rightarrow> r)
               in (RecordEvent now (request_event decision request) (deliver rid decision r), None))"

definition Pending :: "time \<Rightarrow> Registry \<Rightarrow> PendingRequest list" where
  "Pending now r = rev (sort_by pr_CreatedAt
     (filter (\<lambda>p. \<not> pr_ExpiresAt p < now) (map (fst \<circ> snd) (rg_pending r))))"

definition revoke_match :: "string \<Rightarrow> Registry \<Rightarrow> host_error + string" where
  "revoke_match fingerprint r =
     (let fingerprint = trim_space fingerprint
      in if map_of (rg_hosts r) fingerprint \<noteq> None
         then (if fingerprint = [] then Inl HostNotFound else Inr fingerprint)
         else case filter (\<lambda>stored. fingerprintMatch stored fingerprint) (map fst (rg_hosts r)) of
           [] \<Rightarrow> Inl HostNotFound | [stored] \<Rightarrow> Inr stored | _ \<Rightarrow> Inl AmbiguousPrefix)"

definition Revoke :: "time \<Rightarrow> bool \<Rightarrow> string \<Rightarrow> Registry \<Rightarrow> Registry \<times> host_error option" where
  "Revoke now save_ok fingerprint r =
     (case revoke_match fingerprint r of Inl e \<Rightarrow> (r, Some e)
      | Inr matched \<Rightarrow>
          (case map_of (rg_hosts r) matched of None \<Rightarrow> (r, Some HostNotFound)
           | Some revoked \<Rightarrow>
               let r = r\<lparr>rg_hosts := AList.delete matched (rg_hosts r)\<rparr>;
                   hosts = hostListLocked r;
                   r = RecordEvent now \<lparr>re_At = 0, re_Action = ''revoke'',
                     re_Hostname = kh_Hostname revoked, re_Fingerprint = matched,
                     re_SourceIP = [], re_Serial = []\<rparr> r
               in if save_ok then (write_known_hosts hosts r, None) else (r, Some SaveFailed)))"

section \<open>Notices\<close>

definition noticeDedupeKey :: "Notice \<Rightarrow> string" where
  "noticeDedupeKey n = no_Kind n @ [CHR 0x1F] @ no_SourceIP n @ [CHR 0x1F] @ no_Serial n"

definition pruneNoticesLocked :: "time \<Rightarrow> Registry \<Rightarrow> Registry" where
  "pruneNoticesLocked now r =
     r\<lparr>rg_notices := filter (\<lambda>n. now < no_ExpiresAt n) (rg_notices r),
       rg_suppressed := filter (\<lambda>e. now < snd e) (rg_suppressed r)\<rparr>"

definition same_notice :: "Notice \<Rightarrow> Notice \<Rightarrow> bool" where
  "same_notice a b \<longleftrightarrow> no_Kind a = no_Kind b \<and> no_SourceIP a = no_SourceIP b
     \<and> no_Serial a = no_Serial b"

text \<open>Replace the first notice of the same kind, source and device.\<close>

fun replace_notice :: "Notice \<Rightarrow> Notice list \<Rightarrow> Notice list option" where
  "replace_notice n [] = None"
| "replace_notice n (e # rest) =
     (if same_notice e n then Some (n\<lparr>no_NoticeID := no_NoticeID e\<rparr> # rest)
      else map_option ((#) e) (replace_notice n rest))"

definition fill_notice :: "time \<Rightarrow> duration \<Rightarrow> string \<Rightarrow> Notice \<Rightarrow> Notice" where
  "fill_notice now timeout newID n =
     n\<lparr>no_CreatedAt := (if no_CreatedAt n = 0 then now else no_CreatedAt n),
       no_ExpiresAt := (if no_ExpiresAt n = 0 then now + timeout else no_ExpiresAt n),
       no_NoticeID := (if no_NoticeID n = [] then newID else no_NoticeID n)\<rparr>"

definition suppressed_now :: "time \<Rightarrow> Notice \<Rightarrow> Registry \<Rightarrow> bool" where
  "suppressed_now now n r =
     (case map_of (rg_suppressed r) (noticeDedupeKey n) of Some until \<Rightarrow> now < until | None \<Rightarrow> False)"

definition Notify :: "time \<Rightarrow> string \<Rightarrow> Notice \<Rightarrow> Registry \<Rightarrow> Registry" where
  "Notify now newID notice r =
     (if trim_space (no_Kind notice) = [] then r
      else let notice = fill_notice now (rg_confirmTimeout r) newID notice;
               r = pruneNoticesLocked now r
           in if suppressed_now now notice r then r
              else case replace_notice notice (rg_notices r) of
                Some notices \<Rightarrow> r\<lparr>rg_notices := notices\<rparr>
              | None \<Rightarrow> r\<lparr>rg_notices := take maxRecentEvents (notice # rg_notices r)\<rparr>)"

definition Notices :: "time \<Rightarrow> Registry \<Rightarrow> Registry \<times> Notice list" where
  "Notices now r = (let r = pruneNoticesLocked now r in (r, rg_notices r))"

fun remove_notice :: "string \<Rightarrow> Notice list \<Rightarrow> (Notice \<times> Notice list) option" where
  "remove_notice nid [] = None"
| "remove_notice nid (n # rest) =
     (if no_NoticeID n = nid then Some (n, rest)
      else map_option (\<lambda>(m, rest'). (m, n # rest')) (remove_notice nid rest))"

definition DismissNotice :: "time \<Rightarrow> string \<Rightarrow> Registry \<Rightarrow> Registry \<times> host_error option" where
  "DismissNotice now nid r =
     (let nid = trim_space nid
      in if nid = [] then (r, Some NoticeIDRequired)
         else case remove_notice nid (rg_notices r) of None \<Rightarrow> (r, Some HostNotFound)
           | Some (notice, notices) \<Rightarrow>
               (r\<lparr>rg_notices := notices, rg_suppressed := AList.update (noticeDedupeKey notice)
                    (now + rg_confirmTimeout r) (rg_suppressed r)\<rparr>, None))"

section \<open>Padding and numbers\<close>

lemma unpad_Some_iff:
  "unpad em = Some t \<longleftrightarrow> (\<exists>k\<ge>8. em = 0x00 # 0x01 # replicate k 0xFF @ 0x00 # t)"
proof
  assume u: "unpad em = Some t"
  obtain a b r where em: "em = a # b # r"
    using u by (cases em; cases "tl em") (auto simp: unpad_def)
  let ?f = "takeWhile (\<lambda>b. b = 0xFF) r"
  have f: "?f = replicate (length ?f) 0xFF"
    by (rule replicate_length_same [symmetric]) (auto dest: set_takeWhileD)
  from u em have ab: "a = 0x00" "b = 0x01" and len: "8 \<le> length ?f" "length ?f < length r"
    and z: "r ! length ?f = 0x00" and t: "t = drop (Suc (length ?f)) r"
    by (auto simp: unpad_def Let_def split: if_splits)
  have "r = ?f @ r ! length ?f # drop (Suc (length ?f)) r"
    using len(2) by (metis id_take_nth_drop takeWhile_eq_take)
  then have "em = 0x00 # 0x01 # replicate (length ?f) 0xFF @ 0x00 # t"
    using em ab z t f by metis
  with len(1) show "\<exists>k\<ge>8. em = 0x00 # 0x01 # replicate k 0xFF @ 0x00 # t" by blast
next
  assume "\<exists>k\<ge>8. em = 0x00 # 0x01 # replicate k 0xFF @ 0x00 # t"
  then obtain k where k: "8 \<le> k" and em: "em = 0x00 # 0x01 # replicate k 0xFF @ 0x00 # t" by blast
  have tw: "takeWhile (\<lambda>b. b = 0xFF) (replicate k 0xFF @ 0x00 # t) = replicate k (0xFF :: byte)"
    by (subst takeWhile_append2) simp_all
  show "unpad em = Some t"
    using k by (simp add: em unpad_def Let_def tw nth_append)
qed

lemma os2ip_snoc: "os2ip (bs @ [b]) = os2ip bs * 256 + unat b"
  by (simp add: os2ip_def)

lemma length_i2osp [simp]: "length (i2osp k n) = k"
  by (induction k arbitrary: n) simp_all

lemma os2ip_i2osp: "os2ip (i2osp k n) = n mod 256 ^ k"
proof (induction k arbitrary: n)
  case (Suc k)
  have "unat (of_nat (n mod 256) :: byte) = n mod 256"
    by (simp add: unat_of_nat)
  then have "os2ip (i2osp (Suc k) n) = n div 256 mod 256 ^ k * 256 + n mod 256"
    by (simp only: i2osp.simps os2ip_snoc Suc.IH)
  also have "\<dots> = n mod (256 * 256 ^ k)"
    by (simp only: mod_mult2_eq [of n 256 "256 ^ k"] mult.commute)
  finally show ?case by simp
qed (simp add: os2ip_def)

lemma unat_byte_less: "unat (b :: byte) < 256"
  using unsigned_less [of b, where 'a = nat] by simp

lemma i2osp_os2ip: "i2osp (length bs) (os2ip bs) = bs"
proof (induction bs rule: rev_induct)
  case (snoc b bs)
  have "(os2ip bs * 256 + unat b) div 256 = os2ip bs"
    using unat_byte_less [of b] by simp
  moreover have "(os2ip bs * 256 + unat b) mod 256 = unat b"
    using unat_byte_less [of b] by simp
  ultimately show ?case
    using snoc by (simp add: os2ip_snoc)
qed (simp add: os2ip_def)

lemma os2ip_less: "os2ip bs < 256 ^ length bs"
proof -
  have "os2ip bs = os2ip bs mod 256 ^ length bs"
    using os2ip_i2osp [of "length bs" "os2ip bs"] by (simp add: i2osp_os2ip)
  then show ?thesis by (metis mod_less_divisor zero_less_numeral zero_less_power)
qed

lemma bit_len_bound: "n < 2 ^ bit_len n"
proof (induction n rule: bit_len.induct)
  case (1 n)
  show ?case
  proof (cases "n = 0")
    case False
    with 1 have "n div 2 < 2 ^ bit_len (n div 2)" by simp
    then have "n < 2 * 2 ^ bit_len (n div 2)" by linarith
    with False show ?thesis by (subst bit_len.simps) simp
  qed simp
qed

lemma modulus_fits: "fst key \<le> 256 ^ key_size key"
proof -
  have "bit_len (fst key) \<le> 8 * key_size key"
    by (simp add: key_size_def)
  then have "(2 :: nat) ^ bit_len (fst key) \<le> 2 ^ (8 * key_size key)"
    by (intro power_increasing) simp_all
  also have "\<dots> = 256 ^ key_size key"
    by (simp add: power_mult)
  finally show ?thesis using bit_len_bound [of "fst key"] by linarith
qed

definition pkcs1_block :: "nat \<Rightarrow> bytes \<Rightarrow> bytes" where
  "pkcs1_block k t = 0x00 # 0x01 # replicate k 0xFF @ 0x00 # t"

lemma rsa_decrypt_iff:
  "rsaPublicDecryptPKCS1v15 pub cipher = Some t \<longleftrightarrow>
     cipher \<noteq> [] \<and> length cipher \<le> key_size pub \<and> os2ip cipher < fst pub
     \<and> (\<exists>k\<ge>8. length (pkcs1_block k t) = key_size pub
          \<and> (os2ip cipher) ^ snd pub mod fst pub = os2ip (pkcs1_block k t))"
proof (cases "cipher = [] \<or> key_size pub < length cipher \<or> fst pub \<le> os2ip cipher")
  case True
  then show ?thesis by (auto simp: rsaPublicDecryptPKCS1v15_def Let_def)
next
  case False
  let ?m = "os2ip cipher ^ snd pub mod fst pub"
  have "0 < fst pub" using False by auto
  then have m: "?m < 256 ^ key_size pub"
    using modulus_fits [of pub] by (meson mod_less_divisor order_less_le_trans)
  have eq: "i2osp (key_size pub) ?m = b \<longleftrightarrow> length b = key_size pub \<and> ?m = os2ip b" for b
  proof
    assume "i2osp (key_size pub) ?m = b"
    then show "length b = key_size pub \<and> ?m = os2ip b"
      using m os2ip_i2osp [of "key_size pub" ?m] by auto
  next
    assume "length b = key_size pub \<and> ?m = os2ip b"
    then show "i2osp (key_size pub) ?m = b" by (metis i2osp_os2ip)
  qed
  have "rsaPublicDecryptPKCS1v15 pub cipher = Some t
      \<longleftrightarrow> (\<exists>k\<ge>8. i2osp (key_size pub) ?m = pkcs1_block k t)"
    using False by (simp add: rsaPublicDecryptPKCS1v15_def Let_def pow_mod_def unpad_Some_iff
        pkcs1_block_def not_le not_less)
  with False show ?thesis by (simp add: eq not_le not_less)
qed

section \<open>Runs of the registry\<close>

datatype host_op =
    OpSubmit time string PendingRequest
  | OpSubmitEnd time wait_cause string
  | OpDecide time bool string HostDecision
  | OpRevoke time bool string
  | OpRecord time RecentEvent
  | OpNotify time string Notice
  | OpNotices time
  | OpDismiss time string

fun host_apply :: "host_op \<Rightarrow> Registry \<Rightarrow> Registry" where
  "host_apply (OpSubmit now newID p) r = fst (submit_begin now newID p r)"
| "host_apply (OpSubmitEnd now cause rid) r =
     (case submit_end now cause rid r of None \<Rightarrow> r | Some (r', _) \<Rightarrow> r')"
| "host_apply (OpDecide now save_ok selector d) r = fst (Decide now save_ok selector d r)"
| "host_apply (OpRevoke now save_ok fp) r = fst (Revoke now save_ok fp r)"
| "host_apply (OpRecord now e) r = RecordEvent now e r"
| "host_apply (OpNotify now newID n) r = Notify now newID n r"
| "host_apply (OpNotices now) r = fst (Notices now r)"
| "host_apply (OpDismiss now nid) r = fst (DismissNotice now nid r)"

definition host_run :: "host_op list \<Rightarrow> Registry \<Rightarrow> Registry" where
  "host_run ops r = fold host_apply ops r"

lemma host_run_Nil [simp]: "host_run [] r = r"
  by (simp add: host_run_def)

lemma host_run_snoc [simp]: "host_run (ops @ [oper]) r = host_apply oper (host_run ops r)"
  by (simp add: host_run_def)

section \<open>Decisions and revocations in sections\<close>

text \<open>
  \<^verbatim>\<open>Decide\<close> and \<^verbatim>\<open>Revoke\<close> release the registry's lock before they save, and
  \<^verbatim>\<open>save\<close> takes a lock of its own. So a call is a task with a next section to run: the
  save of the snapshot it took, the send on the wait channel, the entry of the event. Calls and
  their sections interleave in any order. \<open>save_ok\<close>: whether saves succeed; \<open>fifo\<close>:
  whether snapshots are saved in the order they were taken, which the code does not enforce.
\<close>

datatype host_task =
    DecideSaving "KnownHost list" string HostDecision PendingRequest
  | DecideSending string HostDecision PendingRequest
  | DecideRecording HostDecision PendingRequest
  | RevokeRecording string KnownHost "KnownHost list"
  | RevokeSaving "KnownHost list"

definition revoke_locked ::
  "string \<Rightarrow> Registry \<Rightarrow> host_error + (Registry \<times> string \<times> KnownHost \<times> KnownHost list)" where
  "revoke_locked fingerprint r =
     (case revoke_match fingerprint r of Inl e \<Rightarrow> Inl e
      | Inr matched \<Rightarrow> (case map_of (rg_hosts r) matched of None \<Rightarrow> Inl HostNotFound
          | Some revoked \<Rightarrow>
              let r = r\<lparr>rg_hosts := AList.delete matched (rg_hosts r)\<rparr>
              in Inr (r, matched, revoked, hostListLocked r)))"

fun task_step :: "time \<Rightarrow> bool \<Rightarrow> host_task \<Rightarrow> Registry \<Rightarrow> Registry \<times> host_task option" where
  "task_step now save_ok (DecideSaving hosts rid decision request) r =
     (if save_ok then (write_known_hosts hosts r, Some (DecideSending rid decision request))
      else (r, None))"
| "task_step now save_ok (DecideSending rid decision request) r =
     (deliver rid decision r, Some (DecideRecording decision request))"
| "task_step now save_ok (DecideRecording decision request) r =
     (RecordEvent now (request_event decision request) r, None)"
| "task_step now save_ok (RevokeRecording matched revoked hosts) r =
     (RecordEvent now \<lparr>re_At = 0, re_Action = ''revoke'', re_Hostname = kh_Hostname revoked,
        re_Fingerprint = matched, re_SourceIP = [], re_Serial = []\<rparr> r, Some (RevokeSaving hosts))"
| "task_step now save_ok (RevokeSaving hosts) r =
     (if save_ok then write_known_hosts hosts r else r, None)"

fun task_snapshot :: "host_task \<Rightarrow> KnownHost list option" where
  "task_snapshot (DecideSaving hosts _ _ _) = Some hosts"
| "task_snapshot (RevokeRecording _ _ hosts) = Some hosts"
| "task_snapshot (RevokeSaving hosts) = Some hosts"
| "task_snapshot _ = None"

fun saving_task :: "host_task \<Rightarrow> bool" where
  "saving_task (DecideSaving _ _ _ _) = True"
| "saving_task (RevokeSaving _) = True"
| "saving_task _ = False"

fun saving_op :: "host_op \<Rightarrow> bool" where
  "saving_op (OpDecide _ _ _ _) = True"
| "saving_op (OpRevoke _ _ _) = True"
| "saving_op _ = False"

inductive host_step ::
  "bool \<Rightarrow> bool \<Rightarrow> Registry \<times> host_task list \<Rightarrow> Registry \<times> host_task list \<Rightarrow> bool"
  for fifo :: bool and save_ok :: bool where
  decide: "decide_locked now selector d r = Inr (r', rid, p, hosts) \<Longrightarrow>
    host_step fifo save_ok (r, ts) (r', ts @ [case hosts of Some hs \<Rightarrow> DecideSaving hs rid d p
      | None \<Rightarrow> DecideSending rid d p])"
| revoke: "revoke_locked fingerprint r = Inr (r', matched, revoked, hosts) \<Longrightarrow>
    host_step fifo save_ok (r, ts) (r', ts @ [RevokeRecording matched revoked hosts])"
| task: "task_step now save_ok t r = (r', next) \<Longrightarrow>
    fifo \<and> saving_task t \<longrightarrow> list_all (\<lambda>u. task_snapshot u = None) before \<Longrightarrow>
    host_step fifo save_ok (r, before @ t # after)
      (r', before @ (case next of None \<Rightarrow> [] | Some u \<Rightarrow> [u]) @ after)"
| other: "\<not> saving_op oper \<Longrightarrow> host_step fifo save_ok (r, ts) (host_apply oper r, ts)"

text \<open>What the operations leave alone.\<close>

lemma RecordEvent_sel [simp]:
  "rg_hosts (RecordEvent now e r) = rg_hosts r" "rg_pending (RecordEvent now e r) = rg_pending r"
  "rg_notices (RecordEvent now e r) = rg_notices r" "rg_disk (RecordEvent now e r) = rg_disk r"
  "rg_suppressed (RecordEvent now e r) = rg_suppressed r"
  by (simp_all add: RecordEvent_def Let_def)

lemma deliver_sel [simp]:
  "rg_hosts (deliver rid d r) = rg_hosts r" "rg_recent (deliver rid d r) = rg_recent r"
  "rg_notices (deliver rid d r) = rg_notices r" "rg_disk (deliver rid d r) = rg_disk r"
  "rg_suppressed (deliver rid d r) = rg_suppressed r"
  by (simp_all add: deliver_def split: option.split prod.split)

lemma write_known_hosts_sel [simp]:
  "rg_hosts (write_known_hosts h r) = rg_hosts r" "rg_pending (write_known_hosts h r) = rg_pending r"
  "rg_notices (write_known_hosts h r) = rg_notices r" "rg_recent (write_known_hosts h r) = rg_recent r"
  "rg_suppressed (write_known_hosts h r) = rg_suppressed r" "rg_disk (write_known_hosts h r) = h"
  by (simp_all add: write_known_hosts_def)

lemma prune_sel [simp]:
  "rg_hosts (pruneNoticesLocked now r) = rg_hosts r"
  "rg_pending (pruneNoticesLocked now r) = rg_pending r"
  "rg_recent (pruneNoticesLocked now r) = rg_recent r"
  by (simp_all add: pruneNoticesLocked_def)

lemma Notify_sel [simp]:
  "rg_hosts (Notify now nid n r) = rg_hosts r" "rg_pending (Notify now nid n r) = rg_pending r"
  "rg_recent (Notify now nid n r) = rg_recent r"
  by (simp_all add: Notify_def Let_def split: option.split)

lemma Notices_sel [simp]:
  "rg_hosts (fst (Notices now r)) = rg_hosts r" "rg_pending (fst (Notices now r)) = rg_pending r"
  "rg_recent (fst (Notices now r)) = rg_recent r"
  by (simp_all add: Notices_def Let_def)

lemma Dismiss_sel [simp]:
  "rg_hosts (fst (DismissNotice now nid r)) = rg_hosts r"
  "rg_pending (fst (DismissNotice now nid r)) = rg_pending r"
  "rg_recent (fst (DismissNotice now nid r)) = rg_recent r"
  by (simp_all add: DismissNotice_def Let_def split: option.split)

lemma submit_begin_sel [simp]:
  "rg_hosts (fst (submit_begin now nid p r)) = rg_hosts r"
  "rg_notices (fst (submit_begin now nid p r)) = rg_notices r"
  "rg_recent (fst (submit_begin now nid p r)) = rg_recent r"
  by (simp_all add: submit_begin_def Let_def)

lemma submit_end_sel:
  assumes "submit_end now cause rid r = Some (r', d)"
  shows "rg_hosts r' = rg_hosts r" "rg_notices r' = rg_notices r"
    "rg_pending r' = AList.delete rid (rg_pending r)"
  using assms by (auto simp: submit_end_def Let_def split: option.splits prod.splits if_splits)

lemma decide_locked_Inr:
  assumes "decide_locked now selector d r = Inr (r', rid, p, hosts)"
  shows "\<exists>res. select_waiter (trim_space selector) r = Some (rid, p, res)"
    and "d \<in> {DecisionAllowOnce, DecisionAllowForever, DecisionDeny}"
    and "rg_pending r' = rg_pending r" "rg_notices r' = rg_notices r" "rg_recent r' = rg_recent r"
    and "rg_hosts r' = (if d = DecisionAllowForever
      then AList.update (pr_Fingerprint p) \<lparr>kh_Fingerprint = pr_Fingerprint p,
        kh_Hostname = pr_Hostname p, kh_CreatedAt = now\<rparr> (rg_hosts r) else rg_hosts r)"
    and "hosts = (if d = DecisionAllowForever then Some (hostListLocked r') else None)"
  using assms by (auto simp: decide_locked_def Let_def split: if_splits option.splits)

lemma select_waiter_pending:
  assumes "select_waiter selector r = Some (rid, p, res)"
  shows "(rid, p, res) \<in> set (rg_pending r)"
  using assms
  by (auto simp: select_waiter_def find_Some_iff dest: map_of_SomeD split: option.splits)
    (metis nth_mem)

lemma Decide_hosts:
  "rg_hosts (fst (Decide now save_ok selector d r)) =
     (case decide_locked now selector d r of Inl _ \<Rightarrow> rg_hosts r | Inr (r', _) \<Rightarrow> rg_hosts r')"
  by (auto simp: Decide_def Let_def split: sum.split prod.split option.split)

section \<open>The registry invariant\<close>

definition fingerprint_ok :: "string \<Rightarrow> bool" where
  "fingerprint_ok fp \<longleftrightarrow> fp \<noteq> [] \<and> trim_space fp = fp"

definition hosts_ok :: "(string, KnownHost) gomap \<Rightarrow> bool" where
  "hosts_ok m \<longleftrightarrow> distinct (map fst m)
     \<and> list_all (\<lambda>(k, h). k = kh_Fingerprint h \<and> fingerprint_ok k) m"

definition pending_ok :: "(string, pendingWaiter) gomap \<Rightarrow> bool" where
  "pending_ok m \<longleftrightarrow> distinct (map fst m)
     \<and> list_all (\<lambda>(k, p, res). k = pr_RequestID p \<and> fingerprint_ok (pr_Fingerprint p)
          \<and> res \<in> {None, Some DecisionAllowOnce, Some DecisionAllowForever, Some DecisionDeny}) m"

definition notices_ok :: "Notice list \<Rightarrow> bool" where
  "notices_ok ns \<longleftrightarrow> length ns \<le> maxRecentEvents
     \<and> distinct (map (\<lambda>n. (no_Kind n, no_SourceIP n, no_Serial n)) ns)"

definition registry_ok :: "Registry \<Rightarrow> bool" where
  "registry_ok r \<longleftrightarrow> hosts_ok (rg_hosts r) \<and> pending_ok (rg_pending r)
     \<and> notices_ok (rg_notices r) \<and> length (rg_recent r) \<le> maxRecentEvents"

lemma list_all_update: "list_all P m \<Longrightarrow> P (k, v) \<Longrightarrow> list_all P (AList.update k v m)"
  by (induction m) auto

lemma list_all_delete: "list_all P m \<Longrightarrow> list_all P (AList.delete k m)"
  by (induction m) (auto simp: AList.delete_eq)

lemma hosts_ok_update: "hosts_ok m \<Longrightarrow> fingerprint_ok k \<Longrightarrow> kh_Fingerprint h = k
    \<Longrightarrow> hosts_ok (AList.update k h m)"
  by (simp add: hosts_ok_def AList.distinct_update list_all_update)

lemma hosts_ok_delete: "hosts_ok m \<Longrightarrow> hosts_ok (AList.delete k m)"
  by (simp add: hosts_ok_def AList.distinct_delete list_all_delete)

lemma pending_ok_update: "pending_ok m \<Longrightarrow> k = pr_RequestID p \<Longrightarrow> fingerprint_ok (pr_Fingerprint p)
    \<Longrightarrow> res \<in> {None, Some DecisionAllowOnce, Some DecisionAllowForever, Some DecisionDeny}
    \<Longrightarrow> pending_ok (AList.update k (p, res) m)"
  by (simp add: pending_ok_def AList.distinct_update list_all_update)

lemma pending_ok_delete: "pending_ok m \<Longrightarrow> pending_ok (AList.delete k m)"
  by (simp add: pending_ok_def AList.distinct_delete list_all_delete)

lemma pending_okD: "pending_ok m \<Longrightarrow> (k, p, res) \<in> set m \<Longrightarrow> k = pr_RequestID p \<and> fingerprint_ok (pr_Fingerprint p)"
  by (auto simp: pending_ok_def list_all_iff)

lemma notices_ok_filter: "notices_ok ns \<Longrightarrow> notices_ok (filter P ns)"
  unfolding notices_ok_def
  by (meson distinct_map_filter length_filter_le order_trans)

lemma replace_notice_None:
  "replace_notice n ns = None \<longleftrightarrow> (\<forall>e \<in> set ns. \<not> same_notice e n)"
  by (induction ns) auto

lemma replace_notice_keys:
  "replace_notice n ns = Some ns' \<Longrightarrow>
     map (\<lambda>n. (no_Kind n, no_SourceIP n, no_Serial n)) ns'
       = map (\<lambda>n. (no_Kind n, no_SourceIP n, no_Serial n)) ns"
  by (induction ns arbitrary: ns') (auto simp: same_notice_def split: if_splits)

lemma remove_notice_Some:
  "remove_notice nid ns = Some (n, ns') \<Longrightarrow> \<exists>a b. ns = a @ n # b \<and> ns' = a @ b \<and> no_NoticeID n = nid"
proof (induction ns arbitrary: ns')
  case (Cons e ns)
  show ?case
  proof (cases "no_NoticeID e = nid")
    case True
    with Cons.prems have "e # ns = [] @ n # ns' \<and> ns' = [] @ ns' \<and> no_NoticeID n = nid" by auto
    then show ?thesis by blast
  next
    case False
    with Cons.prems obtain ns'' where "remove_notice nid ns = Some (n, ns'')" "ns' = e # ns''" by auto
    with Cons.IH obtain a b where "ns = a @ n # b" "ns'' = a @ b" "no_NoticeID n = nid" by blast
    with \<open>ns' = e # ns''\<close> have "e # ns = (e # a) @ n # b \<and> ns' = (e # a) @ b \<and> no_NoticeID n = nid"
      by simp
    then show ?thesis by blast
  qed
qed simp

lemma notices_ok_cons:
  assumes "notices_ok ns" and "\<forall>e \<in> set ns. \<not> same_notice e n"
  shows "notices_ok (take 20 (n # ns))"
proof -
  let ?k = "\<lambda>n. (no_Kind n, no_SourceIP n, no_Serial n)"
  have "distinct (map ?k (n # ns))"
    using assms by (auto simp: notices_ok_def same_notice_def)
  then have "distinct (take 20 (map ?k (n # ns)))" by (rule distinct_take)
  then show ?thesis
    unfolding notices_ok_def take_map by simp
qed

lemma Notify_ok:
  assumes "notices_ok (rg_notices r)"
  shows "notices_ok (rg_notices (Notify now nid n r))"
proof (cases "trim_space (no_Kind n) = []
    \<or> suppressed_now now (fill_notice now (rg_confirmTimeout r) nid n) (pruneNoticesLocked now r)")
  case True
  then show ?thesis
    using assms notices_ok_filter [OF assms]
    by (auto simp: Notify_def Let_def pruneNoticesLocked_def)
next
  case False
  let ?n = "fill_notice now (rg_confirmTimeout r) nid n"
  let ?ns = "rg_notices (pruneNoticesLocked now r)"
  have ns: "notices_ok ?ns"
    using notices_ok_filter [OF assms] by (simp add: pruneNoticesLocked_def)
  show ?thesis
  proof (cases "replace_notice ?n ?ns")
    case None
    with False have "rg_notices (Notify now nid n r) = take 20 (?n # ?ns)"
      by (simp add: Notify_def Let_def)
    moreover have "notices_ok (take 20 (?n # ?ns))"
      using ns None by (intro notices_ok_cons) (simp_all add: replace_notice_None)
    ultimately show ?thesis by (simp only:)
  next
    case (Some ns')
    with False have "rg_notices (Notify now nid n r) = ns'"
      by (simp add: Notify_def Let_def)
    moreover have "length ns' = length ?ns"
      using arg_cong [OF replace_notice_keys [OF Some], of length] by simp
    ultimately show ?thesis
      using ns by (simp add: notices_ok_def replace_notice_keys [OF Some])
  qed
qed

lemma submit_begin_pending:
  assumes "pending_ok (rg_pending r)"
  shows "pending_ok (rg_pending (fst (submit_begin now nid p r)))"
proof -
  let ?fp = "trim_space (pr_Fingerprint p)"
  let ?p = "fill_request now (rg_confirmTimeout r) nid (p\<lparr>pr_Fingerprint := ?fp\<rparr>)"
  have "pending_ok (AList.update (pr_RequestID ?p) (?p, None) (rg_pending r))" if "?fp \<noteq> []"
  proof (rule pending_ok_update)
    have "pr_Fingerprint ?p = ?fp" by (simp add: fill_request_def)
    then show "fingerprint_ok (pr_Fingerprint ?p)" using that by (simp add: fingerprint_ok_def)
  qed (simp_all add: assms)
  with assms show ?thesis by (simp add: submit_begin_def Let_def)
qed

lemma deliver_pending:
  assumes "pending_ok (rg_pending r)" and "d \<in> {DecisionAllowOnce, DecisionAllowForever, DecisionDeny}"
  shows "pending_ok (rg_pending (deliver rid d r))"
proof (cases "map_of (rg_pending r) rid")
  case (Some w)
  obtain p res where w: "w = (p, res)" by fastforce
  from Some have "(rid, p, res) \<in> set (rg_pending r)" by (simp add: w map_of_SomeD)
  with assms show ?thesis
    using pending_okD [OF assms(1)] by (auto simp: deliver_def Some w intro!: pending_ok_update split: option.split)
qed (simp add: deliver_def assms)

lemma RecordEvent_recent: "length (rg_recent r) \<le> 20 \<Longrightarrow> length (rg_recent (RecordEvent now e r)) \<le> 20"
  by (simp add: RecordEvent_def Let_def)

lemma Decide_cases:
  obtains (error) e where "Decide now save_ok selector d r = (r, Some e)"
  | (unsaved) r' rid p hs where "decide_locked now selector d r = Inr (r', rid, p, Some hs)"
      "Decide now save_ok selector d r = (r', Some SaveFailed)" "\<not> save_ok"
  | (done_) r' rid p hosts where "decide_locked now selector d r = Inr (r', rid, p, hosts)"
      "Decide now save_ok selector d r =
         (RecordEvent now (request_event d p) (deliver rid d
            (case hosts of Some hs \<Rightarrow> write_known_hosts hs r' | None \<Rightarrow> r')), None)"
proof (cases "decide_locked now selector d r")
  case (Inl e)
  then show ?thesis using error by (simp add: Decide_def)
next
  case (Inr x)
  obtain r' rid p hosts where x: "x = (r', rid, p, hosts)" by (cases x) auto
  show ?thesis
  proof (cases "hosts \<noteq> None \<and> \<not> save_ok")
    case True
    then show ?thesis using unsaved Inr x by (auto simp: Decide_def)
  next
    case False
    then show ?thesis using done_ Inr x by (auto simp: Decide_def Let_def)
  qed
qed

lemma decide_locked_ok:
  assumes "registry_ok r" and "decide_locked now selector d r = Inr (r', rid, p, hosts)"
  shows "registry_ok r'"
proof -
  note d = decide_locked_Inr [OF assms(2)]
  from d(1) obtain res where "(rid, p, res) \<in> set (rg_pending r)"
    using select_waiter_pending by blast
  then have "fingerprint_ok (pr_Fingerprint p)"
    using assms(1) pending_okD by (auto simp: registry_ok_def)
  with assms(1) d(3-6) show ?thesis
    by (auto simp: registry_ok_def intro: hosts_ok_update)
qed

lemma Decide_ok: "registry_ok r \<Longrightarrow> registry_ok (fst (Decide now save_ok selector d r))"
proof (cases rule: Decide_cases [of now save_ok selector d r])
  case (done_ r' rid p hosts)
  assume "registry_ok r"
  then have ok: "registry_ok r'" using done_(1) by (rule decide_locked_ok)
  let ?r = "case hosts of Some hs \<Rightarrow> write_known_hosts hs r' | None \<Rightarrow> r'"
  have "rg_pending ?r = rg_pending r'" "rg_hosts ?r = rg_hosts r'" "rg_notices ?r = rg_notices r'"
    "rg_recent ?r = rg_recent r'"
    by (simp_all split: option.split)
  with ok decide_locked_Inr(2) [OF done_(1)] done_(2) show ?thesis
    by (simp add: registry_ok_def deliver_pending RecordEvent_recent)
qed (use decide_locked_ok in auto)

lemma Revoke_ok: "registry_ok r \<Longrightarrow> registry_ok (fst (Revoke now save_ok fp r))"
  by (auto simp: Revoke_def registry_ok_def Let_def hosts_ok_delete RecordEvent_recent
      split: sum.split option.split)

lemma submit_end_ok:
  assumes "registry_ok r" and "submit_end now cause rid r = Some (r', d)"
  shows "registry_ok r'"
proof -
  have "length (rg_recent r') \<le> 20"
    using assms by (auto simp: submit_end_def registry_ok_def Let_def RecordEvent_recent
        split: option.splits prod.splits if_splits)
  with assms(1) submit_end_sel [OF assms(2)] show ?thesis
    by (simp add: registry_ok_def pending_ok_delete)
qed

lemma Notices_ok: "registry_ok r \<Longrightarrow> registry_ok (fst (Notices now r))"
  by (simp add: registry_ok_def Notices_def Let_def pruneNoticesLocked_def notices_ok_filter)

lemma Dismiss_ok: "registry_ok r \<Longrightarrow> registry_ok (fst (DismissNotice now nid r))"
  by (auto simp: registry_ok_def DismissNotice_def Let_def notices_ok_def
      dest!: remove_notice_Some split: option.split)

lemma host_apply_ok: "registry_ok r \<Longrightarrow> registry_ok (host_apply oper r)"
proof (cases oper)
  case (OpSubmit now nid p)
  assume "registry_ok r"
  then show ?thesis by (simp add: OpSubmit registry_ok_def submit_begin_pending)
next
  case (OpRecord now e)
  assume "registry_ok r"
  then show ?thesis by (simp add: OpRecord registry_ok_def RecordEvent_recent)
next
  case (OpNotify now nid n)
  assume "registry_ok r"
  then show ?thesis by (simp add: OpNotify registry_ok_def Notify_ok)
qed (auto simp: Decide_ok Revoke_ok Notices_ok Dismiss_ok submit_end_ok split: option.split)

interpretation host_machine: invariant_machine host_apply registry_ok
  by unfold_locales (rule host_apply_ok)

lemma host_run_ok: "registry_ok r \<Longrightarrow> registry_ok (host_run ops r)"
  unfolding host_run_def by (rule host_machine.run_inv)

lemma load_hosts_ok:
  "list_all (\<lambda>h. fingerprint_ok (kh_Fingerprint h)) (load_hosts now seen hs)"
  by (induction now seen hs rule: load_hosts.induct) (simp_all add: Let_def fingerprint_ok_def)

lemma fold_hosts_ok:
  "list_all (\<lambda>h. fingerprint_ok (kh_Fingerprint h)) hs \<Longrightarrow> hosts_ok m \<Longrightarrow>
     hosts_ok (fold (\<lambda>host m. AList.update (kh_Fingerprint host) host m) hs m)"
  by (induction hs arbitrary: m) (simp_all add: hosts_ok_update)

lemma NewRegistry_ok: "NewRegistry now t file = Inr r \<Longrightarrow> registry_ok r \<and> rg_pending r = []"
proof -
  assume n: "NewRegistry now t file = Inr r"
  then obtain hs where l: "loadKnownHosts now file = Inr hs"
    and r: "rg_hosts r = fold (\<lambda>host m. AList.update (kh_Fingerprint host) host m) hs []"
      "rg_pending r = []" "rg_notices r = []" "rg_recent r = []"
    by (auto simp: NewRegistry_def split: sum.splits)
  have "list_all (\<lambda>h. fingerprint_ok (kh_Fingerprint h)) hs"
    using l load_hosts_ok by (auto simp: loadKnownHosts_def split: option.splits if_splits)
  then have "hosts_ok (rg_hosts r)"
    unfolding r(1) by (intro fold_hosts_ok) (simp_all add: hosts_ok_def)
  with r show ?thesis by (simp add: registry_ok_def pending_ok_def notices_ok_def)
qed

lemma host_apply_Trusted:
  assumes "Trusted fp (host_apply oper r)" and "\<not> Trusted fp r"
  shows "\<exists>now save_ok selector rid p res. oper = OpDecide now save_ok selector DecisionAllowForever
    \<and> (rid, p, res) \<in> set (rg_pending r) \<and> pr_Fingerprint p = trim_space fp"
proof (cases oper)
  case (OpDecide now save_ok selector d)
  with assms obtain r' rid p hosts where l: "decide_locked now selector d r = Inr (r', rid, p, hosts)"
    by (auto simp: Trusted_def Decide_hosts split: sum.splits)
  with assms OpDecide have "map_of (rg_hosts r') (trim_space fp) \<noteq> None"
      "map_of (rg_hosts r) (trim_space fp) = None"
    by (auto simp: Trusted_def Decide_hosts)
  with decide_locked_Inr(6) [OF l] have "d = DecisionAllowForever" "pr_Fingerprint p = trim_space fp"
    by (auto simp: AList.update_conv' split: if_splits)
  moreover from decide_locked_Inr(1) [OF l] obtain res where "(rid, p, res) \<in> set (rg_pending r)"
    using select_waiter_pending by blast
  ultimately show ?thesis using OpDecide by blast
next
  case (OpSubmitEnd now cause rid)
  with assms show ?thesis
    by (auto simp: Trusted_def submit_end_sel split: option.splits)
next
  case (OpRevoke now save_ok f)
  have "map_of (AList.delete k m) x = Some y \<Longrightarrow> map_of m x = Some y" for k m x and y :: KnownHost
    by (auto simp: AList.delete_conv' split: if_splits)
  with OpRevoke assms show ?thesis
    by (force simp: Trusted_def Revoke_def Let_def split: sum.splits option.splits if_splits)
qed (use assms in \<open>auto simp: Trusted_def\<close>)

text \<open>Where the decision a waiter receives comes from.\<close>

definition decisions_made :: "host_op list \<Rightarrow> HostDecision set" where
  "decisions_made ops = {d. \<exists>now save_ok selector. OpDecide now save_ok selector d \<in> set ops}"

definition results_from :: "HostDecision set \<Rightarrow> Registry \<Rightarrow> bool" where
  "results_from D r \<longleftrightarrow> (\<forall>rid p d. (rid, p, Some d) \<in> set (rg_pending r) \<longrightarrow> d \<in> D)"

lemma set_update_subset: "set (AList.update k v m) \<subseteq> insert (k, v) (set m)"
  by (induction m) auto

lemma set_delete_subset: "set (AList.delete k m) \<subseteq> set m"
  by (simp add: AList.delete_eq)

lemma deliver_results:
  "results_from D r \<Longrightarrow> d \<in> D \<Longrightarrow> results_from D (deliver rid d r)"
  using set_update_subset
  by (fastforce simp: deliver_def results_from_def split: option.splits prod.splits)

lemma results_from_pending:
  "set (rg_pending r') \<subseteq> set (rg_pending r) \<Longrightarrow> results_from D r \<Longrightarrow> results_from D r'"
  by (auto simp: results_from_def)

lemma submit_begin_results:
  "results_from D r \<Longrightarrow> results_from D (fst (submit_begin now nid p r))"
  unfolding submit_begin_def Let_def using set_update_subset
  by (fastforce simp: results_from_def)

lemma Decide_results:
  assumes "results_from D r" and "d \<in> D"
  shows "results_from D (fst (Decide now save_ok selector d r))"
proof (cases rule: Decide_cases [of now save_ok selector d r])
  case (done_ r' rid p hosts)
  let ?r = "case hosts of Some hs \<Rightarrow> write_known_hosts hs r' | None \<Rightarrow> r'"
  have "rg_pending ?r = rg_pending r"
    using decide_locked_Inr(3) [OF done_(1)] by (simp split: option.split)
  with assms have "results_from D (deliver rid d ?r)"
    by (intro deliver_results) (simp_all add: results_from_def)
  with done_(2) show ?thesis by (simp add: results_from_def)
next
  case (unsaved r' rid p hs)
  with assms decide_locked_Inr(3) [OF unsaved(1)] show ?thesis by (simp add: results_from_def)
qed (use assms in simp)

lemma host_apply_results:
  assumes "results_from D r" and "decisions_made [oper] \<subseteq> D"
  shows "results_from D (host_apply oper r)"
proof (cases oper)
  case (OpSubmit now nid p)
  with assms(1) show ?thesis by (simp add: submit_begin_results)
next
  case (OpDecide now save_ok selector d)
  with assms show ?thesis by (simp add: Decide_results decisions_made_def)
next
  case (OpSubmitEnd now cause rid)
  with assms(1) show ?thesis
    using results_from_pending [OF _ assms(1)] set_delete_subset [of rid "rg_pending r"]
    by (auto simp del: subsetI simp add: submit_end_sel(3) split: option.split)
next
  case (OpRevoke now save_ok f)
  have "rg_pending (fst (Revoke now save_ok f r)) = rg_pending r"
    by (simp add: Revoke_def Let_def split: sum.split option.split)
  with OpRevoke assms(1) show ?thesis by (simp add: results_from_def)
qed (use assms(1) in \<open>simp_all add: results_from_def\<close>)

lemma host_run_results: "rg_pending r = [] \<Longrightarrow> results_from (decisions_made ops) (host_run ops r)"
proof (induction ops rule: rev_induct)
  case (snoc oper ops)
  have "results_from (decisions_made (ops @ [oper])) (host_run ops r)"
    using snoc unfolding results_from_def decisions_made_def by fastforce
  then show ?case
    unfolding host_run_snoc by (rule host_apply_results) (auto simp: decisions_made_def)
qed (simp add: results_from_def)

section \<open>Host authentication properties\<close>

text \<open>Every registry reached from a loaded known-hosts file by any sequence of operations
  is well formed: trusted fingerprints are unique, trimmed and non-empty and match their
  entries, pending requests are keyed by their id, the recent list and the notices never hold
  more than twenty entries, and no two notices are of the same kind, source and device.\<close>

theorem registry_invariant:
  assumes "NewRegistry now timeout file = Inr r"
  shows "registry_ok (host_run ops r)"
  using NewRegistry_ok [OF assms] host_run_ok by blast

text \<open>C21: A fingerprint becomes trusted only by an operator's \<open>allow_forever\<close> on a pending
  request of that very fingerprint; no other operation of the registry extends trust.\<close>

theorem trust_only_by_allow_forever:
  assumes "Trusted fp (host_apply oper r)" and "\<not> Trusted fp r"
  shows "\<exists>now save_ok selector rid p res. oper = OpDecide now save_ok selector DecisionAllowForever
    \<and> (rid, p, res) \<in> set (rg_pending r) \<and> pr_Fingerprint p = trim_space fp"
  using assms by (rule host_apply_Trusted)

text \<open>A waiting connection is let in only by an operator: whatever ended the wait, when
  \<^verbatim>\<open>Submit\<close> answers \<open>allow_once\<close> or \<open>allow_forever\<close> after waiting, that
  decision was made on the registry before; a cancelled or timed-out wait denies.\<close>

theorem allow_needs_decision:
  assumes "NewRegistry now0 timeout file = Inr r"
    and "submit_end now cause rid (host_run ops r) = Some (r', d)"
    and "d \<in> {DecisionAllowOnce, DecisionAllowForever}"
  shows "cause = WaitResult \<and> (\<exists>t save_ok selector. OpDecide t save_ok selector d \<in> set ops)"
proof -
  have "results_from (decisions_made ops) (host_run ops r)"
    using NewRegistry_ok [OF assms(1)] by (intro host_run_results) simp
  with assms(2,3) show ?thesis
    by (cases cause) (auto simp: submit_end_def Let_def results_from_def decisions_made_def
        dest!: map_of_SomeD split: option.splits if_splits)
qed

text \<open>Revoking removes exactly the selected key from trust, also when saving the file
  fails; a selector that matches no key or, as a prefix, more than one changes nothing.\<close>

theorem Revoke_effect:
  assumes "registry_ok r" and "Revoke now save_ok selector r = (r', e)"
  shows "if e = None \<or> e = Some SaveFailed
    then \<exists>fp. fingerprintMatch fp selector \<and> Trusted fp r
      \<and> (\<forall>x. Trusted x r' \<longleftrightarrow> Trusted x r \<and> trim_space x \<noteq> fp)
    else r' = r"
proof (cases "revoke_match selector r")
  case (Inl err)
  then show ?thesis
    using assms(2) by (auto simp: Revoke_def revoke_match_def Let_def split: if_splits list.splits)
next
  case (Inr fp)
  have "\<exists>h. map_of (rg_hosts r) fp = Some h \<and> fingerprintMatch fp selector"
  proof (cases "map_of (rg_hosts r) (trim_space selector)")
    case None
    with Inr have "filter (\<lambda>k. fingerprintMatch k (trim_space selector)) (map fst (rg_hosts r)) = [fp]"
      by (simp add: revoke_match_def Let_def split: list.splits)
    then have "fp \<in> set (filter (\<lambda>k. fingerprintMatch k (trim_space selector)) (map fst (rg_hosts r)))"
      by (simp only: list.set_intros)
    then have fp: "fp \<in> set (map fst (rg_hosts r))" "fingerprintMatch fp (trim_space selector)"
      by simp_all
    from fp(1) have "map_of (rg_hosts r) fp \<noteq> None"
      by (metis domIff dom_map_of_conv_image_fst set_map)
    with fp(2) show ?thesis by (auto simp: fingerprintMatch_def Let_def)
  next
    case (Some h)
    with Inr have fp: "fp = trim_space selector" "fp \<noteq> []"
      by (auto simp: revoke_match_def Let_def split: if_splits)
    with Some show ?thesis by (auto simp: fingerprintMatch_def Let_def)
  qed
  then obtain h where h: "map_of (rg_hosts r) fp = Some h" "fingerprintMatch fp selector" by blast
  have fpo: "trim_space fp = fp"
    using map_of_SomeD [OF h(1)] assms(1) by (auto simp: registry_ok_def hosts_ok_def list_all_iff fingerprint_ok_def)
  have "e = None \<or> e = Some SaveFailed" "rg_hosts r' = AList.delete fp (rg_hosts r)"
    using assms(2) Inr h(1) by (auto simp: Revoke_def Let_def split: if_splits)
  then show ?thesis
    using h fpo by (auto simp: Trusted_def AList.delete_conv')
qed

text \<open>A dismissed notice stays away: until the confirmation timeout has passed, notifying
  again for the same kind, source and device leaves no such notice on the list.\<close>

theorem dismissed_stays_away:
  assumes "registry_ok r" and "remove_notice (trim_space nid) (rg_notices r) = Some (n, rest)"
    and "trim_space nid \<noteq> []" and "same_notice n m"
    and "now \<le> now'" and "now' < now + rg_confirmTimeout r"
  shows "\<forall>e \<in> set (rg_notices (Notify now' newID m (fst (DismissNotice now nid r)))). \<not> same_notice e m"
proof -
  let ?r = "fst (DismissNotice now nid r)"
  obtain a b where ab: "rg_notices r = a @ n # b" "rest = a @ b"
    using remove_notice_Some [OF assms(2)] by blast
  have r: "rg_notices ?r = rest"
    "rg_suppressed ?r = AList.update (noticeDedupeKey n) (now + rg_confirmTimeout r) (rg_suppressed r)"
    "rg_confirmTimeout ?r = rg_confirmTimeout r"
    using assms(2,3) by (simp_all add: DismissNotice_def Let_def)
  have "(no_Kind n, no_SourceIP n, no_Serial n) \<notin> (\<lambda>n. (no_Kind n, no_SourceIP n, no_Serial n)) ` set rest"
    using assms(1) ab by (auto simp: registry_ok_def notices_ok_def)
  then have none: "\<forall>e \<in> set rest. \<not> same_notice e m"
    using assms(4) by (simp add: same_notice_def image_iff) metis
  have key: "noticeDedupeKey (fill_notice now' t newID m) = noticeDedupeKey n" for t
    using assms(4) by (simp add: noticeDedupeKey_def same_notice_def fill_notice_def)
  let ?m = "fill_notice now' (rg_confirmTimeout ?r) newID m"
  have "map_of (filter (\<lambda>e. now' < snd e) (AList.update k v s)) k = Some v" if "now' < v" for k v and s :: "(string, time) gomap"
    using that by (induction s) auto
  then have "suppressed_now now' ?m (pruneNoticesLocked now' ?r)"
    using assms(6) by (simp add: suppressed_now_def pruneNoticesLocked_def r key)
  then have "rg_notices (Notify now' newID m ?r) = rg_notices ?r
      \<or> rg_notices (Notify now' newID m ?r) = filter (\<lambda>n. now' < no_ExpiresAt n) rest"
    by (simp add: Notify_def Let_def) (simp add: pruneNoticesLocked_def r)
  with none r show ?thesis by auto
qed

text \<open>C22: The legacy challenge answer is accepted only in exact PKCS#1 form: decryption returns
  a token exactly when the answer is a number below the modulus whose public power is the
  block \<open>00 01 FF..FF 00 token\<close> with at least eight padding bytes and the length of the
  modulus.\<close>

theorem rsa_decrypt_exact:
  "rsaPublicDecryptPKCS1v15 pub cipher = Some t \<longleftrightarrow>
     cipher \<noteq> [] \<and> length cipher \<le> key_size pub \<and> os2ip cipher < fst pub
     \<and> (\<exists>k\<ge>8. length (pkcs1_block k t) = key_size pub
          \<and> (os2ip cipher) ^ snd pub mod fst pub = os2ip (pkcs1_block k t))"
  by (rule rsa_decrypt_iff)

lemma host_apply_hosts:
  "\<not> saving_op oper \<Longrightarrow> rg_hosts (host_apply oper r) = rg_hosts r"
  "\<not> saving_op oper \<Longrightarrow> rg_disk (host_apply oper r) = rg_disk r"
proof -
  have "rg_disk (Notify now nid n r) = rg_disk r" for now nid n
    by (simp add: Notify_def pruneNoticesLocked_def Let_def split: option.split)
  moreover have "rg_disk (fst (submit_begin now nid p r)) = rg_disk r" for now nid p
    by (simp add: submit_begin_def Let_def split: option.split)
  moreover have "rg_disk (fst (Notices now r)) = rg_disk r" for now
    by (simp add: Notices_def pruneNoticesLocked_def Let_def)
  moreover have "rg_disk (fst (DismissNotice now nid r)) = rg_disk r" for now nid
    by (simp add: DismissNotice_def Let_def split: option.split)
  moreover have "rg_disk r' = rg_disk r" if "submit_end now cause rid r = Some (r', x)" for now cause rid r' x
    using that by (auto simp: submit_end_def Let_def split: option.splits if_splits wait_cause.splits)
  ultimately show "\<not> saving_op oper \<Longrightarrow> rg_disk (host_apply oper r) = rg_disk r"
    by (cases oper) (auto split: option.split)
  show "\<not> saving_op oper \<Longrightarrow> rg_hosts (host_apply oper r) = rg_hosts r"
    by (cases oper) (auto simp: submit_end_sel split: option.split)
qed

text \<open>When snapshots are saved in order, the last one taken, or the file when there is none, lists
  the hosts in memory.\<close>

definition mirrored :: "Registry \<times> host_task list \<Rightarrow> bool" where
  "mirrored st \<longleftrightarrow>
     last (rg_disk (fst st) # List.map_filter task_snapshot (snd st)) = hostListLocked (fst st)"

lemma map_filter_append: "List.map_filter f (xs @ ys) = List.map_filter f xs @ List.map_filter f ys"
  by (simp add: List.map_filter_def)

lemma map_filter_split:
  "List.map_filter f (xs @ y # zs) = List.map_filter f xs @ List.map_filter f [y] @ List.map_filter f zs"
  using map_filter_append [of f "[y]" zs] by (simp add: map_filter_append)

lemma map_filter_none: "list_all (\<lambda>u. f u = None) xs \<Longrightarrow> List.map_filter f xs = []"
  by (induction xs) (simp_all add: List.map_filter_simps)

lemma hostListLocked_same: "rg_hosts r' = rg_hosts r \<Longrightarrow> hostListLocked r' = hostListLocked r"
  by (simp add: hostListLocked_def)

lemma mirrored_step: "host_step True True st st' \<Longrightarrow> mirrored st \<Longrightarrow> mirrored st'"
proof (induction rule: host_step.induct)
  case (decide now selector d r r' rid p hosts ts)
  then have "hosts = Some (hostListLocked r') \<or> hosts = None \<and> r' = r"
    by (auto simp: decide_locked_def Let_def split: if_splits option.splits)
  with decide.prems show ?case
    by (auto simp: mirrored_def map_filter_append List.map_filter_simps)
next
  case (revoke fingerprint r r' matched revoked hosts ts)
  then have "hosts = hostListLocked r'"
    by (auto simp: revoke_locked_def Let_def split: sum.splits option.splits)
  then show ?case by (simp add: mirrored_def map_filter_append List.map_filter_simps)
next
  case (task now t r r' nxt before after)
  let ?after = "List.map_filter task_snapshot after"
  show ?case
  proof (cases "saving_task t")
    case True
    then have "List.map_filter task_snapshot before = []" "rg_hosts r' = rg_hosts r"
      "task_snapshot t = Some (rg_disk r')" "List.map_filter task_snapshot (case nxt of None \<Rightarrow> [] | Some u \<Rightarrow> [u]) = []"
      using task by (cases t; auto simp: map_filter_none List.map_filter_simps)+
    with task.prems hostListLocked_same [of r' r] show ?thesis
      by (simp add: mirrored_def map_filter_split map_filter_append)
  next
    case False
    then have "rg_hosts r' = rg_hosts r" "rg_disk r' = rg_disk r"
      "List.map_filter task_snapshot (case nxt of None \<Rightarrow> [] | Some u \<Rightarrow> [u]) = List.map_filter task_snapshot [t]"
      using task.hyps(1) by (cases t; auto simp: List.map_filter_simps)+
    with task.prems hostListLocked_same [of r' r] show ?thesis
      by (simp only: mirrored_def map_filter_split map_filter_append [of _ before "(case nxt of None \<Rightarrow> [] | Some u \<Rightarrow> [u]) @ after"]
          map_filter_append [of _ "case nxt of None \<Rightarrow> [] | Some u \<Rightarrow> [u]" after] fst_conv snd_conv)
  qed
next
  case (other oper r ts)
  then show ?case
    using hostListLocked_same [of "host_apply oper r" r] by (simp add: mirrored_def host_apply_hosts)
qed

lemma mirrored_run: "(host_step True True)\<^sup>*\<^sup>* st st' \<Longrightarrow> mirrored st \<Longrightarrow> mirrored st'"
  by (induction rule: rtranclp_induct) (auto intro: mirrored_step)

text \<open>A call that runs alone goes through its sections and does what the atomic operation
  does.\<close>

lemma task_alone:
  "task_step now save_ok t r = (r', next) \<Longrightarrow>
   host_step fifo save_ok (r, [t]) (r', case next of None \<Rightarrow> [] | Some u \<Rightarrow> [u])"
  using host_step.task [of now save_ok t r r' "next" fifo "[]" "[]"] by simp

lemma Decide_sections:
  assumes "Decide now True selector d r = (r', None)"
  shows "(host_step fifo True)\<^sup>*\<^sup>* (r, []) (r', [])"
proof -
  from assms obtain r1 rid p hosts where l: "decide_locked now selector d r = Inr (r1, rid, p, hosts)"
    by (auto simp: Decide_def split: sum.splits)
  let ?r2 = "case hosts of Some hs \<Rightarrow> write_known_hosts hs r1 | None \<Rightarrow> r1"
  have r': "r' = RecordEvent now (request_event d p) (deliver rid d ?r2)"
    using assms l by (simp add: Decide_def Let_def)
  have send: "(host_step fifo True)\<^sup>*\<^sup>* (?r2, [DecideSending rid d p]) (r', [])"
    using task_alone [of now True "DecideSending rid d p" ?r2 _ _ fifo]
      task_alone [of now True "DecideRecording d p" "deliver rid d ?r2" _ _ fifo]
    by (auto simp: r' intro: converse_rtranclp_into_rtranclp)
  show ?thesis
  proof (cases hosts)
    case None
    then show ?thesis
      using host_step.decide [OF l, of fifo True "[]"] send
      by (auto intro: converse_rtranclp_into_rtranclp)
  next
    case (Some hs)
    then show ?thesis
      using host_step.decide [OF l, of fifo True "[]"] send
        task_alone [of now True "DecideSaving hs rid d p" r1 _ _ fifo]
      by (auto intro: converse_rtranclp_into_rtranclp)
  qed
qed

lemma Revoke_sections:
  assumes "Revoke now True fingerprint r = (r', None)"
  shows "(host_step fifo True)\<^sup>*\<^sup>* (r, []) (r', [])"
proof -
  from assms obtain matched revoked where m: "revoke_match fingerprint r = Inr matched"
      "map_of (rg_hosts r) matched = Some revoked"
    by (auto simp: Revoke_def split: sum.splits option.splits)
  define r1 where "r1 = r\<lparr>rg_hosts := AList.delete matched (rg_hosts r)\<rparr>"
  have l: "revoke_locked fingerprint r = Inr (r1, matched, revoked, hostListLocked r1)"
    by (simp add: revoke_locked_def m r1_def Let_def)
  show ?thesis
    using host_step.revoke [OF l, of fifo True "[]"]
      task_alone [of now True "RevokeRecording matched revoked (hostListLocked r1)" r1 _ _ fifo]
      task_alone [of now True "RevokeSaving (hostListLocked r1)" _ _ _ fifo] assms
    by (simp add: Revoke_def m r1_def [symmetric] Let_def)
      (meson converse_rtranclp_into_rtranclp rtranclp.rtrancl_refl)
qed

text \<open>The run that restores a revoked key: the decision takes its snapshot first and saves it
  last.\<close>

lemma race_run:
  assumes ok: "registry_ok r" and waiting: "map_of (rg_pending r) rid = Some (p, None)"
    and rid: "trim_space rid = rid" "rid \<noteq> []"
    and trusted: "map_of (rg_hosts r) fp = Some h" and differ: "pr_Fingerprint p \<noteq> fp"
  shows "\<exists>r'. (host_step False True)\<^sup>*\<^sup>* (r, []) (r', [])
    \<and> map_of (rg_hosts r') fp = None \<and> h \<in> set (rg_disk r')"
proof -
  define host where "host = \<lparr>kh_Fingerprint = pr_Fingerprint p, kh_Hostname = pr_Hostname p, kh_CreatedAt = 0\<rparr>"
  define r1 where "r1 = r\<lparr>rg_hosts := AList.update (pr_Fingerprint p) host (rg_hosts r)\<rparr>"
  define r2 where "r2 = r1\<lparr>rg_hosts := AList.delete fp (rg_hosts r1)\<rparr>"
  define d where "d = DecisionAllowForever"
  have dec: "decide_locked 0 rid d r = Inr (r1, rid, p, Some (hostListLocked r1))"
    using rid waiting by (simp add: decide_locked_def select_waiter_def r1_def host_def d_def Let_def)
  have h1: "map_of (rg_hosts r1) fp = Some h"
    using trusted differ by (simp add: r1_def update_conv')
  have fp: "trim_space fp = fp" "fp \<noteq> []"
    using ok trusted by (auto simp: registry_ok_def hosts_ok_def fingerprint_ok_def list_all_iff dest!: map_of_SomeD)
  have rev: "revoke_locked fp r1 = Inr (r2, fp, h, hostListLocked r2)"
    using h1 fp by (simp add: revoke_locked_def revoke_match_def r2_def Let_def)
  let ?D = "DecideSaving (hostListLocked r1) rid d p" and ?S = "RevokeSaving (hostListLocked r2)"
  obtain r3 where r3: "task_step 0 True (RevokeRecording fp h (hostListLocked r2)) r2 = (r3, Some ?S)"
      "rg_hosts r3 = rg_hosts r2"
    by simp
  define r4 where "r4 = write_known_hosts (hostListLocked r2) r3"
  define r5 where "r5 = write_known_hosts (hostListLocked r1) r4"
  define r6 where "r6 = RecordEvent 0 (request_event d p) (deliver rid d r5)"
  have s1: "host_step False True (r, []) (r1, [?D])"
    using host_step.decide [OF dec, of False True "[]"] by simp
  have s2: "host_step False True (r1, [?D]) (r2, [?D, RevokeRecording fp h (hostListLocked r2)])"
    using host_step.revoke [OF rev, of False True "[?D]"] by simp
  have s3: "host_step False True (r2, [?D, RevokeRecording fp h (hostListLocked r2)]) (r3, [?D, ?S])"
    using host_step.task [OF r3(1), of False "[?D]" "[]"] by simp
  have s4: "host_step False True (r3, [?D, ?S]) (r4, [?D])"
    using host_step.task [of 0 True ?S r3 r4 None False "[?D]" "[]"] by (simp add: r4_def)
  have s5: "host_step False True (r4, [?D]) (r5, [DecideSending rid d p])"
    using task_alone [of 0 True ?D r4 r5 "Some (DecideSending rid d p)" False] by (simp add: r5_def)
  have s6: "host_step False True (r5, [DecideSending rid d p]) (deliver rid d r5, [DecideRecording d p])"
    using task_alone [of 0 True "DecideSending rid d p" r5 _ _ False] by simp
  have s7: "host_step False True (deliver rid d r5, [DecideRecording d p]) (r6, [])"
    using task_alone [of 0 True "DecideRecording d p" "deliver rid d r5" _ _ False] by (simp add: r6_def)
  note go = converse_rtranclp_into_rtranclp
  have "(host_step False True)\<^sup>*\<^sup>* (r, []) (r6, [])"
    by (rule go [OF s1 go [OF s2 go [OF s3 go [OF s4 go [OF s5 go [OF s6 r_into_rtranclp [of "host_step False True", OF s7]]]]]]])
  moreover have "map_of (rg_hosts r6) fp = None"
    by (simp add: r6_def r5_def r4_def r3(2) r2_def delete_conv')
  moreover have "h \<in> set (rg_disk r6)"
    using h1 by (force simp: r6_def r5_def hostListLocked_def dest: map_of_SomeD)
  ultimately show ?thesis by blast
qed

text \<open>C23: Saving a snapshot after the lock is released can restore a revoked key on disk, and
  only the order of the saves is to blame. Take any well-formed registry whose file lists the
  hosts in memory. If snapshots were saved in the order they were taken, the file would list the
  hosts in memory again whenever no call is left, after any calls whose saves succeed. But the
  code does not order them: if some host waits for a decision and another one is trusted, a
  decision to trust the first and a revocation of the second can interleave so that both calls
  end, both saves have succeeded, memory no longer trusts the second host, and the file still
  lists it.\<close>

theorem stale_snapshot_restores_revoked_key:
  assumes "registry_ok r" and "rg_disk r = hostListLocked r"
    and "map_of (rg_pending r) rid = Some (p, None)" and "trim_space rid = rid" and "rid \<noteq> []"
    and "map_of (rg_hosts r) fp = Some h" and "pr_Fingerprint p \<noteq> fp"
  shows "(\<forall>r'. (host_step True True)\<^sup>*\<^sup>* (r, []) (r', []) \<longrightarrow> rg_disk r' = hostListLocked r')
    \<and> (\<exists>r'. (host_step False True)\<^sup>*\<^sup>* (r, []) (r', []) \<and> \<not> Trusted fp r'
         \<and> fp \<in> kh_Fingerprint ` set (rg_disk r'))"
proof -
  have "rg_disk r' = hostListLocked r'" if "(host_step True True)\<^sup>*\<^sup>* (r, []) (r', [])" for r'
    using mirrored_run [OF that] assms(2) by (simp add: mirrored_def List.map_filter_simps)
  moreover obtain r' where "(host_step False True)\<^sup>*\<^sup>* (r, []) (r', [])" "map_of (rg_hosts r') fp = None"
      "h \<in> set (rg_disk r')"
    using race_run [OF assms(1,3-7)] by blast
  moreover have "kh_Fingerprint h = fp" "trim_space fp = fp"
    using assms(1,6) by (auto simp: registry_ok_def hosts_ok_def fingerprint_ok_def list_all_iff dest!: map_of_SomeD)
  ultimately show ?thesis
    unfolding Trusted_def by force
qed

lemma stale_snapshot_restores_revoked_key_witness:
  "\<exists>r r'. registry_ok r \<and> (host_step False True)\<^sup>*\<^sup>* (r, []) (r', []) \<and> \<not> Trusted ''aa'' r'
     \<and> ''aa'' \<in> kh_Fingerprint ` set (rg_disk r')"
proof -
  let ?p = "\<lparr>pr_RequestID = ''q'', pr_DeviceID = [], pr_Serial = [], pr_Hostname = [],
    pr_Fingerprint = ''bb'', pr_SourceIP = [], pr_LeaseID = [], pr_CreatedAt = 1, pr_ExpiresAt = 9\<rparr>"
  let ?a = "\<lparr>kh_Fingerprint = ''aa'', kh_Hostname = [], kh_CreatedAt = 1\<rparr>"
  let ?r = "\<lparr>rg_confirmTimeout = 10, rg_hosts = [(''aa'', ?a)], rg_pending = [(''q'', ?p, None)],
    rg_recent = [], rg_notices = [], rg_suppressed = [], rg_disk = [?a]\<rparr>"
  have "registry_ok ?r" "rg_disk ?r = hostListLocked ?r" "trim_space ''q'' = ''q''"
    by code_simp+
  then show ?thesis
    using stale_snapshot_restores_revoked_key [of ?r "''q''" ?p "''aa''" ?a] by auto
qed

lemma registry_invariant_witness:
  "\<exists>r. NewRegistry 5 0 (Some (1, [\<lparr>kh_Fingerprint = '' aa '', kh_Hostname = ''h'', kh_CreatedAt = 0\<rparr>]))
       = Inr r \<and> rg_hosts r \<noteq> []
     \<and> registry_ok (host_run [OpRevoke 6 False ''aa'', OpDecide 7 True ''x'' DecisionDeny] r)"
proof -
  let ?f = "Some (1, [\<lparr>kh_Fingerprint = '' aa '', kh_Hostname = ''h'', kh_CreatedAt = 0\<rparr>])"
  have "\<exists>r. NewRegistry 5 0 ?f = Inr r \<and> rg_hosts r \<noteq> []"
    by (simp add: NewRegistry_def loadKnownHosts_def) code_simp
  then show ?thesis using registry_invariant by blast
qed

definition sample_request :: PendingRequest where
  "sample_request = \<lparr>pr_RequestID = ''q'', pr_DeviceID = ''d'', pr_Serial = ''s'', pr_Hostname = ''h'',
    pr_Fingerprint = ''bb'', pr_SourceIP = [], pr_LeaseID = [], pr_CreatedAt = 1, pr_ExpiresAt = 9\<rparr>"

definition sample_registry :: Registry where
  "sample_registry = \<lparr>rg_confirmTimeout = 10, rg_hosts = [],
    rg_pending = [(''q'', sample_request, None)], rg_recent = [], rg_notices =
      [\<lparr>no_NoticeID = ''n'', no_Kind = ''k'', no_Serial = ''s'', no_SourceIP = ''i'', no_Version = [],
        no_Required = [], no_Message = [], no_CreatedAt = 1, no_ExpiresAt = 50\<rparr>],
    rg_suppressed = [], rg_disk = []\<rparr>"

lemma trust_only_by_allow_forever_witness:
  "\<exists>now save_ok selector rid p res. OpDecide 5 True ''bb'' DecisionAllowForever
       = OpDecide now save_ok selector DecisionAllowForever
     \<and> (rid, p, res) \<in> set (rg_pending sample_registry) \<and> pr_Fingerprint p = trim_space '' bb''"
proof (rule trust_only_by_allow_forever)
  show "Trusted '' bb'' (host_apply (OpDecide 5 True ''bb'' DecisionAllowForever) sample_registry)"
    "\<not> Trusted '' bb'' sample_registry"
    by code_simp+
qed

lemma allow_needs_decision_witness:
  "\<exists>r r'. NewRegistry 0 10 None = Inr r
     \<and> submit_end 7 WaitResult ''q'' (host_run [OpSubmit 1 [] sample_request,
         OpDecide 5 True ''q'' DecisionAllowOnce] r) = Some (r', DecisionAllowOnce)
     \<and> WaitResult = WaitResult
     \<and> (\<exists>t save_ok selector. OpDecide t save_ok selector DecisionAllowOnce
          \<in> set [OpSubmit 1 [] sample_request, OpDecide 5 True ''q'' DecisionAllowOnce])"
proof -
  let ?ops = "[OpSubmit 1 [] sample_request, OpDecide 5 True ''q'' DecisionAllowOnce]"
  let ?r = "\<lparr>rg_confirmTimeout = 10, rg_hosts = [], rg_pending = [], rg_recent = [],
    rg_notices = [], rg_suppressed = [], rg_disk = []\<rparr> :: Registry"
  have n: "NewRegistry 0 10 None = Inr ?r" by (simp add: NewRegistry_def loadKnownHosts_def)
  have "map_option snd (submit_end 7 WaitResult ''q'' (host_run ?ops ?r)) = Some DecisionAllowOnce"
    by code_simp
  then obtain r' where s: "submit_end 7 WaitResult ''q'' (host_run ?ops ?r) = Some (r', DecisionAllowOnce)"
    by auto
  with allow_needs_decision [OF n s] n show ?thesis by blast
qed

lemma Revoke_effect_witness:
  "\<exists>r'. Revoke 5 True ''zz'' sample_registry = (r', Some HostNotFound) \<and> r' = sample_registry"
proof -
  have "Revoke 5 True ''zz'' sample_registry = (sample_registry, Some HostNotFound)"
    by (simp add: Revoke_def revoke_match_def sample_registry_def)
  moreover have "registry_ok sample_registry" by code_simp
  ultimately show ?thesis using Revoke_effect by fastforce
qed

lemma dismissed_stays_away_witness:
  "\<exists>n. \<forall>e \<in> set (rg_notices (Notify 14 ''m'' (n\<lparr>no_Message := ''again''\<rparr>)
      (fst (DismissNotice 5 '' n '' sample_registry)))). \<not> same_notice e (n\<lparr>no_Message := ''again''\<rparr>)"
proof -
  let ?n = "hd (rg_notices sample_registry)"
  have "remove_notice (trim_space '' n '') (rg_notices sample_registry) = Some (?n, [])"
    "registry_ok sample_registry" "trim_space '' n '' \<noteq> []"
    by code_simp+
  moreover have "same_notice ?n (?n\<lparr>no_Message := ''again''\<rparr>)" by (simp add: same_notice_def)
  ultimately have "\<forall>e \<in> set (rg_notices (Notify 14 ''m'' (?n\<lparr>no_Message := ''again''\<rparr>)
      (fst (DismissNotice 5 '' n '' sample_registry)))). \<not> same_notice e (?n\<lparr>no_Message := ''again''\<rparr>)"
    by (intro dismissed_stays_away) (simp_all add: sample_registry_def)
  then show ?thesis by blast
qed

end
