(* ===== verification/Connection.thy ===== *)
theory Connection
  imports Handshake Policy Host_Auth
begin

text \<open>
  One accepted connection of the gateway: \<^verbatim>\<open>daemonConnection\<close> of
  \<^verbatim>\<open>src/internal/gateway/gateway.go\<close>, its handshake
  (\<^verbatim>\<open>handshake.go\<close>) and its audit records (\<^verbatim>\<open>audit.go\<close>).

  The read loop handles one frame at a time, so a frame is one step. What the frame's handling
  asks of other parts (the socket, the host registry, the challenge token, the signature
  check, the bridges, the main HDC server) is answered by an environment record that may be
  different for every frame. What the handling does to other parts is appended, in order, to
  a log of effects. Shell sessions are numbers. \<open>ShellOpened\<close> keeps the channel, the
  session, the client's command and the command sent to the target, \<open>ShellWrote\<close> the
  channel, the session and the text handed to the target.
\<close>

section \<open>State\<close>

datatype authPhase = authPhaseStart | authPhaseWaitPubkey | authPhaseWaitSignature | authPhaseDone

datatype effect =
    Wrote bytes
  | Audited Audit
  | Handled Family Frame
  | BridgeChannelClosed Family u32
  | ShellOpened u32 nat string string
  | ShellWrote u32 nat bytes
  | ShellClosed nat bool
  | is_SessionTracked: SessionTracked LiveSession
  | NoticeSent Notice
  | BridgeClosed Family

record daemonConnection =
  cn_binding :: Binding
  cn_leaseID :: string
  cn_ownerID :: string
  cn_sourceIP :: string
  cn_connectionID :: string
  cn_hasRecorder :: bool
  cn_hasHosts :: bool
  cn_hostAuthOff :: bool
  cn_handshakeAccepted :: bool
  cn_authPhase :: authPhase
  cn_authType :: AuthType
  cn_authToken :: string
  cn_authIdentity :: HostIdentity
  cn_handshakeVersion :: string
  cn_authRejectReason :: string
  cn_closeReason :: string
  cn_policyEngine :: "policy option"
  cn_policyProfile :: Profile
  cn_openChannels :: "u32 list"
  cn_maxChannels :: int
  cn_shells :: "(u32, nat) gomap"
  cn_shellInput :: "(u32, string) gomap"
  cn_bridges :: "Family list"
  cn_log :: "effect list"

datatype route_error = Violation string | HostAuthRejected | Failed string

record env =
  en_now :: time
  en_writeOK :: "nat \<Rightarrow> bytes \<Rightarrow> bool"
  en_trusted :: "string \<Rightarrow> bool"
  en_token :: "string option"
  en_parseIdentity :: "string \<Rightarrow> identity_error + HostIdentity"
  en_verify :: "string \<Rightarrow> string \<Rightarrow> string \<Rightarrow> AuthType \<Rightarrow> bool"
  en_submit :: "PendingRequest \<Rightarrow> host_error + HostDecision"
  en_bridge :: "Family \<Rightarrow> Frame \<Rightarrow> route_error option"
  en_resolve :: "string \<Rightarrow> string option"
  en_openTarget :: "string \<Rightarrow> string \<Rightarrow> nat option"
  en_shellWriteOK :: bool

type_synonym outcome = "daemonConnection \<times> route_error option"

section \<open>Small operations\<close>

definition emit :: "effect \<Rightarrow> daemonConnection \<Rightarrow> daemonConnection" where
  "emit e c = c\<lparr>cn_log := cn_log c @ [e]\<rparr>"

definition conn_write :: "env \<Rightarrow> bytes \<Rightarrow> daemonConnection \<Rightarrow> outcome" where
  "conn_write en payload c =
     (if payload = [] then (c, None)
      else if en_writeOK en (length (cn_log c)) payload then (emit (Wrote payload) c, None)
      else (c, Some (Failed ''write HDC daemon response'')))"

definition auditNormalized :: "Frame \<Rightarrow> string" where
  "auditNormalized frame =
     (if CommandFlag frame = CommandShellInit then ''shell''
      else if CommandFlag frame = CommandShellData then ''shell data''
      else if CommandFlag frame = CommandUnityExecute \<or> CommandFlag frame = CommandUnityExecuteEx then
        (let executable = FirstExecutable (ExtractShellCommand frame)
         in if executable \<noteq> [] then ''shell exec '' @ executable else ''shell exec'')
      else CommandName frame)"

definition audit ::
  "env \<Rightarrow> Frame \<Rightarrow> AuditDecision \<Rightarrow> string \<Rightarrow> daemonConnection \<Rightarrow> daemonConnection" where
  "audit en frame decision reason c =
     (if \<not> cn_hasRecorder c then c else emit (Audited \<lparr>au_LeaseID = cn_leaseID c, au_ConnectionID = cn_connectionID c,
       au_DeviceID = bd_DeviceID (cn_binding c), au_OwnerID = cn_ownerID c,
       au_SourceIP = cn_sourceIP c, au_Fingerprint = hi_Fingerprint (cn_authIdentity c),
       au_CommandFlag = ucast (CommandFlag frame), au_CommandName = CommandName frame,
       au_NormalizedCommand = auditNormalized frame, au_Decision = decision, au_Reason = reason,
       au_CreatedAt = en_now en\<rparr>) c)"

definition auditableCommand :: "Command \<Rightarrow> bool" where
  "auditableCommand flag \<longleftrightarrow> flag \<in> {CommandUnityHilog, CommandJDWPList, CommandJDWPTrack,
     CommandUnityBugreportInit, CommandFileInit, CommandFileCheck, CommandAppInit,
     CommandAppCheck, CommandAppUninstall, CommandForwardInit, CommandForwardCheck,
     CommandForwardActiveMaster, CommandForwardActiveSlave, CommandForwardList,
     CommandForwardRemove}"

definition setCloseReason :: "string \<Rightarrow> daemonConnection \<Rightarrow> daemonConnection" where
  "setCloseReason reason c =
     (if reason = [] \<or> cn_closeReason c \<noteq> [] then c else c\<lparr>cn_closeReason := reason\<rparr>)"

definition policyOrDefault :: "daemonConnection \<Rightarrow> policy" where
  "policyOrDefault c = (case cn_policyEngine c of Some p \<Rightarrow> p | None \<Rightarrow> defaultPolicy)"

datatype read_end = ReadTimeout | ReadNetClosed | ReadOther

fun classifyReadEnd :: "read_end option \<Rightarrow> string" where
  "classifyReadEnd None = []"
| "classifyReadEnd (Some ReadTimeout) = ''timeout''"
| "classifyReadEnd (Some ReadNetClosed) = []"
| "classifyReadEnd (Some ReadOther) = ''peer''"

definition deviceName :: "daemonConnection \<Rightarrow> string" where
  "deviceName c =
     (let serial = DeviceSerial (bd_DeviceID (cn_binding c))
      in if serial \<noteq> [] then serial
         else if bd_DeviceID (cn_binding c) \<noteq> [] then bd_DeviceID (cn_binding c)
         else ''hdc-remote'')"

section \<open>Channels and shells\<close>

definition admitChannel :: "Command \<Rightarrow> u32 \<Rightarrow> daemonConnection \<Rightarrow> daemonConnection \<times> bool" where
  "admitChannel flag channelID c =
     (if flag = CommandKernelHandshake \<or> flag = CommandKernelChannelClose then (c, True)
      else if channelID \<in> set (cn_openChannels c) then (c, True)
      else if 0 < cn_maxChannels c \<and> cn_maxChannels c \<le> int (length (cn_openChannels c))
        then (c, False)
      else (c\<lparr>cn_openChannels := channelID # cn_openChannels c\<rparr>, True))"

definition untrackChannel :: "u32 \<Rightarrow> daemonConnection \<Rightarrow> daemonConnection" where
  "untrackChannel channelID c = c\<lparr>cn_openChannels := removeAll channelID (cn_openChannels c)\<rparr>"

definition getShell :: "u32 \<Rightarrow> daemonConnection \<Rightarrow> nat option" where
  "getShell channelID c = map_of (cn_shells c) channelID"

definition stopShell :: "u32 \<Rightarrow> bool \<Rightarrow> daemonConnection \<Rightarrow> daemonConnection" where
  "stopShell channelID byUs c =
     (let session = getShell channelID c;
          c = c\<lparr>cn_shells := AList.delete channelID (cn_shells c),
                cn_shellInput := AList.delete channelID (cn_shellInput c)\<rparr>
      in case session of None \<Rightarrow> c | Some s \<Rightarrow> emit (ShellClosed s byUs) c)"

text \<open>Called when the device side of a shell ends.\<close>

definition removeShell :: "u32 \<Rightarrow> nat \<Rightarrow> daemonConnection \<Rightarrow> daemonConnection" where
  "removeShell channelID session c =
     (if getShell channelID c = Some session
      then untrackChannel channelID
        (c\<lparr>cn_shells := AList.delete channelID (cn_shells c),
           cn_shellInput := AList.delete channelID (cn_shellInput c)\<rparr>)
      else c)"

definition bridge_families :: "Family list" where
  "bridge_families = [FamilyFile, FamilyUnity, FamilyApp, FamilyForward]"

definition teardownChannel :: "u32 \<Rightarrow> daemonConnection \<Rightarrow> daemonConnection" where
  "teardownChannel channelID c =
     fold (\<lambda>family c. if family \<in> set (cn_bridges c)
             then emit (BridgeChannelClosed family channelID) c else c)
       bridge_families (stopShell channelID True (untrackChannel channelID c))"

definition rejectChannel :: "env \<Rightarrow> u32 \<Rightarrow> string \<Rightarrow> daemonConnection \<Rightarrow> outcome" where
  "rejectChannel en channelID message c =
     conn_write en (EncodeEchoAndClose channelID message) (teardownChannel channelID c)"

abbreviation (input) shellInputGuardLimit :: nat where "shellInputGuardLimit \<equiv> 4096"
abbreviation (input) shellInputInspectLimit :: nat where "shellInputInspectLimit \<equiv> 256 * 1024"

definition shell_buffer :: "u32 \<Rightarrow> daemonConnection \<Rightarrow> string" where
  "shell_buffer channelID c =
     (case map_of (cn_shellInput c) channelID of None \<Rightarrow> [] | Some b \<Rightarrow> b)"

definition newline_chars :: string where
  "newline_chars = [CHR 0x0D, CHR 0x0A]"

definition take_last :: "nat \<Rightarrow> 'a list \<Rightarrow> 'a list" where
  "take_last n xs = drop (length xs - n) xs"

text \<open>\<open>None\<close>: over the limit. The buffer keeps the text after the last newline, and of that the
  last 4096 bytes.\<close>

definition appendShellInput ::
  "u32 \<Rightarrow> bytes \<Rightarrow> daemonConnection \<Rightarrow> daemonConnection \<times> string option" where
  "appendShellInput channelID chunk c =
     (let buffer = shell_buffer channelID c
      in if shellInputInspectLimit < length buffer + length chunk
         then (c\<lparr>cn_shellInput := AList.update channelID [] (cn_shellInput c)\<rparr>, None)
         else let guarded = buffer @ string_of chunk;
                  retained = after_last_any guarded newline_chars;
                  retained = (if shellInputGuardLimit < length retained
                    then take_last shellInputGuardLimit retained else retained)
              in (c\<lparr>cn_shellInput := AList.update channelID retained (cn_shellInput c)\<rparr>, Some guarded))"

definition openShell :: "env \<Rightarrow> u32 \<Rightarrow> string \<Rightarrow> daemonConnection \<Rightarrow> outcome" where
  "openShell en channelID command c =
     (if getShell channelID c \<noteq> None then (c, None)
      else let decision = InspectShell (policyOrDefault c) (cn_policyProfile c) command
      in if \<not> Allowed decision
         then conn_write en (EncodeEchoAndClose channelID (Reason decision)) c
         else case en_resolve en (bd_DeviceID (cn_binding c)) of
           None \<Rightarrow> (c, Some (Failed ''resolve target device''))
         | Some connectKey \<Rightarrow>
             let initCommand = (if trim_space command \<noteq> [] then ''shell '' @ trim_space command
                                else ''shell'')
             in case en_openTarget en connectKey initCommand of
                  None \<Rightarrow> (c, Some (Failed ''open target shell''))
                | Some session \<Rightarrow>
                    (emit (ShellOpened channelID session command initCommand)
                       (c\<lparr>cn_shells := AList.update channelID session (cn_shells c)\<rparr>), None))"

section \<open>Handshake\<close>

text \<open>The four texts of the client notices; CR LF between their lines.\<close>

definition crlf :: string where
  "crlf = [CHR 0x0D, CHR 0x0A]"

definition unauthorizedNotice :: string where
  "unauthorizedNotice = join_with crlf
     [''[E000002]:The device unauthorized.'', ''This server'' @ CHR 0x27 # ''s public key is not set.'',
      ''Please check for a confirmation dialog on your device.'',
      ''Otherwise try '' @ CHR 0x27 # ''hdc kill'' @ CHR 0x27 # '' if that seems wrong.'']"

definition unauthorizedDenied :: string where
  "unauthorizedDenied = join_with crlf
     [''[E000003]:The device unauthorized.'', ''The user denied the access for the device.'',
      ''Please execute '' @ CHR 0x27 # ''hdc kill'' @ CHR 0x27 # '' and redo your command,'',
      ''then check for a confirmation dialog on your device.'']"

definition invalid_handshake :: "env \<Rightarrow> Frame \<Rightarrow> string \<Rightarrow> string \<Rightarrow> daemonConnection \<Rightarrow> outcome" where
  "invalid_handshake en frame reason message c =
     ((audit en frame AuditRejected reason c)\<lparr>cn_authRejectReason := reason\<rparr>, Some (Violation message))"

text \<open>The operator's notice, as UTF-8 bytes around the required version.\<close>

definition oldClientMessage :: string where
  "oldClientMessage =
    [CHR 0xE6, CHR 0x9C, CHR 0xAC, CHR 0xE6, CHR 0x9C, CHR 0xBA, CHR 0xE4, CHR 0xB8,
     CHR 0x8D, CHR 0xE8, CHR 0x83, CHR 0xBD, CHR 0xE6, CHR 0x94, CHR 0xBE, CHR 0xE8,
     CHR 0xA1, CHR 0x8C, CHR 0xE3, CHR 0x80, CHR 0x82, CHR 0xE9, CHR 0x80, CHR 0x9A,
     CHR 0xE7, CHR 0x9F, CHR 0xA5, CHR 0xE5, CHR 0xAF, CHR 0xB9, CHR 0xE7, CHR 0xAB,
     CHR 0xAF, CHR 0xE5, CHR 0x8D, CHR 0x87, CHR 0xE7, CHR 0xBA, CHR 0xA7, CHR 0xE5,
     CHR 0x88, CHR 0xB0, CHR 0x20]
    @ HandshakeMinAuthVersion @
    [CHR 0x20, CHR 0xE5, CHR 0x8F, CHR 0x8A, CHR 0xE4, CHR 0xBB, CHR 0xA5, CHR 0xE4,
     CHR 0xB8, CHR 0x8A, CHR 0xE5, CHR 0x90, CHR 0x8E, CHR 0xE9, CHR 0x87, CHR 0x8D,
     CHR 0xE8, CHR 0xBF, CHR 0x9E, CHR 0xE3, CHR 0x80, CHR 0x82]"

definition rejectOldClient :: "env \<Rightarrow> string \<Rightarrow> daemonConnection \<Rightarrow> daemonConnection" where
  "rejectOldClient en version c =
     (if \<not> cn_hasHosts c then c
      else emit (NoticeSent \<lparr>no_NoticeID = [], no_Kind = ''client_version_too_old'',
        no_Serial = DeviceSerial (bd_DeviceID (cn_binding c)), no_SourceIP = cn_sourceIP c,
        no_Version = version, no_Required = HandshakeMinAuthVersion, no_Message = oldClientMessage,
        no_CreatedAt = 0, no_ExpiresAt = 0\<rparr>) c)"

definition handleAuthNone :: "env \<Rightarrow> Frame \<Rightarrow> SessionHandshake \<Rightarrow> daemonConnection \<Rightarrow> outcome" where
  "handleAuthNone en frame handshake c =
     (if cn_authPhase c \<noteq> authPhaseStart
      then invalid_handshake en frame ''handshake already started''
             ''HDC daemon handshake is already in progress.'' c
      else if ClientVersionTooOld (Version handshake) then
        (let c = (audit en frame AuditRejected ''client version too old'' c)
                   \<lparr>cn_authRejectReason := ''client version too old''\<rparr>;
             c = rejectOldClient en (Version handshake) (setCloseReason ''version_too_old'' c)
         in case conn_write en (EncodeHandshakeUnauthorized (ChannelID frame) (Version handshake)
                  (deviceName c) ''[E000001]:The sdk hdc.exe version is too low, please upgrade to the latest version.'') c of
              (c, Some e) \<Rightarrow> (c, Some e)
            | (c, None) \<Rightarrow> (c, Some HostAuthRejected))
      else if \<not> cn_hasHosts c
      then invalid_handshake en frame ''host auth unavailable''
             ''HDC host authentication is unavailable.'' c
      else case en_token en of None \<Rightarrow> (c, Some (Failed ''generate HDC auth challenge''))
        | Some token \<Rightarrow>
            let c = c\<lparr>cn_authType := ParseClientAuthType (Buffer handshake), cn_authToken := token,
                      cn_handshakeVersion := Version handshake, cn_authPhase := authPhaseWaitPubkey\<rparr>;
                c = audit en frame AuditAllowed [] c
            in conn_write en (EncodeHandshakePublicKey (ChannelID frame) (Version handshake)
                 (cn_authType c = AuthRSA3072SHA512)) c)"

definition sendSignatureChallenge :: "env \<Rightarrow> u32 \<Rightarrow> daemonConnection \<Rightarrow> outcome" where
  "sendSignatureChallenge en channelID c =
     conn_write en (EncodeHandshakeSignatureChallenge channelID (cn_handshakeVersion c) (cn_authToken c))
       (c\<lparr>cn_authPhase := authPhaseWaitSignature\<rparr>)"

definition auth_request :: "HostIdentity \<Rightarrow> daemonConnection \<Rightarrow> PendingRequest" where
  "auth_request identity c = \<lparr>pr_RequestID = [], pr_DeviceID = bd_DeviceID (cn_binding c),
     pr_Serial = DeviceSerial (bd_DeviceID (cn_binding c)), pr_Hostname = hi_Hostname identity,
     pr_Fingerprint = hi_Fingerprint identity, pr_SourceIP = cn_sourceIP c,
     pr_LeaseID = cn_leaseID c, pr_CreatedAt = 0, pr_ExpiresAt = 0\<rparr>"

definition handleAuthPublicKey :: "env \<Rightarrow> Frame \<Rightarrow> SessionHandshake \<Rightarrow> daemonConnection \<Rightarrow> outcome" where
  "handleAuthPublicKey en frame handshake c =
     (if cn_authPhase c \<noteq> authPhaseWaitPubkey
      then invalid_handshake en frame ''unexpected public key'' ''Invalid HDC daemon handshake.'' c
      else case en_parseIdentity en (Buffer handshake) of
        Inl _ \<Rightarrow> invalid_handshake en frame ''invalid host public key'' ''Invalid HDC host public key.'' c
      | Inr identity \<Rightarrow>
          let c = c\<lparr>cn_authIdentity := identity\<rparr>;
              trusted = en_trusted en (hi_Fingerprint identity)
          in if cn_hostAuthOff c \<or> trusted then
               sendSignatureChallenge en (ChannelID frame)
                 (audit en frame AuditAllowed
                   (if cn_hostAuthOff c \<and> \<not> trusted then ''host auth off'' else ''known host'') c)
             else case conn_write en (EncodeHandshakeUnauthorized (ChannelID frame)
                    (cn_handshakeVersion c) (deviceName c) unauthorizedNotice) c of
               (c, Some e) \<Rightarrow> (c, Some e)
             | (c, None) \<Rightarrow>
                 (case en_submit en (auth_request identity c) of
                    Inl _ \<Rightarrow> ((audit en frame AuditRejected ''auth submit failed'' c)
                        \<lparr>cn_authRejectReason := ''auth submit failed''\<rparr>, Some (Failed ''auth submit failed''))
                  | Inr decision \<Rightarrow>
                      if decision \<noteq> DecisionAllowOnce \<and> decision \<noteq> DecisionAllowForever then
                        (let c = (audit en frame AuditRejected (decision_string decision) c)
                               \<lparr>cn_authRejectReason := decision_string decision\<rparr>;
                             c = setCloseReason (if decision = DecisionExpired then ''timeout'' else ''deny'') c;
                             notice = (if decision = DecisionExpired then unauthorizedNotice
                                       else unauthorizedDenied)
                         in case conn_write en (EncodeHandshakeUnauthorized (ChannelID frame)
                                (cn_handshakeVersion c) (deviceName c) notice) c of
                              (c, Some e) \<Rightarrow> (c, Some e)
                            | (c, None) \<Rightarrow> (c, Some HostAuthRejected))
                      else sendSignatureChallenge en (ChannelID frame)
                             (audit en frame AuditAllowed (decision_string decision) c)))"

definition live_session :: "env \<Rightarrow> daemonConnection \<Rightarrow> LiveSession" where
  "live_session en c = \<lparr>se_SessionID = cn_connectionID c, se_DeviceID = bd_DeviceID (cn_binding c),
     se_Serial = DeviceSerial (bd_DeviceID (cn_binding c)),
     se_Hostname = hi_Hostname (cn_authIdentity c), se_Fingerprint = hi_Fingerprint (cn_authIdentity c),
     se_SourceIP = cn_sourceIP c, se_ConnectedAt = en_now en\<rparr>"

definition handleAuthSignature :: "env \<Rightarrow> Frame \<Rightarrow> SessionHandshake \<Rightarrow> daemonConnection \<Rightarrow> outcome" where
  "handleAuthSignature en frame handshake c =
     (if cn_authPhase c \<noteq> authPhaseWaitSignature \<or> cn_authToken c = []
         \<or> hi_PublicKey (cn_authIdentity c) = []
      then invalid_handshake en frame ''unexpected signature'' ''Invalid HDC daemon handshake.'' c
      else if \<not> en_verify en (hi_PublicKey (cn_authIdentity c)) (cn_authToken c) (Buffer handshake)
             (cn_authType c)
      then (let c = (audit en frame AuditRejected ''signature failed'' c)
                      \<lparr>cn_authRejectReason := ''signature failed''\<rparr>
            in conn_write en (EncodeEchoAndClose (ChannelID frame)
                 ''[E000010]:Auth failed, cannt login the device.'') (setCloseReason ''deny'' c))
      else let c = c\<lparr>cn_authPhase := authPhaseDone, cn_handshakeAccepted := True\<rparr>;
               c = audit en frame AuditAllowed ''auth ok'' c;
               c = emit (SessionTracked (live_session en c)) c
           in conn_write en (EncodeHandshakeOK frame handshake (deviceName c)
                @ EncodeChannelClose (ChannelID frame)) c)"

definition handleHandshake :: "env \<Rightarrow> Frame \<Rightarrow> daemonConnection \<Rightarrow> outcome" where
  "handleHandshake en frame c =
     (case DecodeSessionHandshake (Payload frame) of
        Inl _ \<Rightarrow> invalid_handshake en frame ''invalid handshake'' ''Invalid HDC daemon handshake.'' c
      | Inr handshake \<Rightarrow>
          if Banner handshake \<noteq> ''OHOS HDC''
          then invalid_handshake en frame ''invalid handshake'' ''Invalid HDC daemon handshake.'' c
          else if AuthType handshake = HandshakeAuthNone then handleAuthNone en frame handshake c
          else if AuthType handshake = HandshakeAuthPublicKey then handleAuthPublicKey en frame handshake c
          else if AuthType handshake = HandshakeAuthSignature then handleAuthSignature en frame handshake c
          else invalid_handshake en frame ''invalid handshake'' ''Invalid HDC daemon handshake.'' c)"

section \<open>Routing\<close>

definition allowedBeforeHandshake :: "Command \<Rightarrow> bool" where
  "allowedBeforeHandshake flag \<longleftrightarrow> flag = CommandKernelHandshake \<or> flag = CommandKernelChannelClose"

definition handleKernel :: "env \<Rightarrow> Frame \<Rightarrow> daemonConnection \<Rightarrow> outcome" where
  "handleKernel en frame c =
     (let flag = CommandFlag frame
      in if flag = CommandKernelHandshake then handleHandshake en frame c
         else if flag = CommandKernelChannelClose then
           conn_write en (EncodeChannelCloseResponse (ChannelID frame) (Payload frame))
             (teardownChannel (ChannelID frame) c)
         else if flag \<in> {CommandKernelEcho, CommandKernelEchoRaw, CommandKernelEnableKeepalive,
             CommandKernelWakeupSlaveTask, CommandCheckServer, CommandCheckDevice, CommandWaitFor}
         then conn_write en (EncodeEchoRaw (ChannelID frame) []) c
         else conn_write en (EncodeEchoAndClose (ChannelID frame) ''Command is not supported.'') c)"

text \<open>Input for an open session: guard, policy, then the device. \<open>record_ok\<close>: whether an
  allowed input is audited (one-shot text is, a data frame is not). The text is in the log once
  it is handed to the target's \<open>WritePayload\<close>, whatever that call returns.\<close>

definition guarded_input ::
  "env \<Rightarrow> Frame \<Rightarrow> bool \<Rightarrow> nat \<Rightarrow> bytes \<Rightarrow> daemonConnection \<Rightarrow> outcome" where
  "guarded_input en frame record_ok session input c =
     (case appendShellInput (ChannelID frame) input c of
        (c, None) \<Rightarrow> rejectChannel en (ChannelID frame) ''Shell input is too large.''
            (audit en frame AuditRejected ''shell input too large'' c)
      | (c, Some guarded) \<Rightarrow>
          let decision = InspectShell (policyOrDefault c) (cn_policyProfile c) guarded
          in if \<not> Allowed decision
             then rejectChannel en (ChannelID frame) (Reason decision)
                    (audit en frame AuditRejected (Rule decision) c)
             else let c = (if record_ok then audit en frame AuditAllowed [] c else c)
                  in (emit (ShellWrote (ChannelID frame) session input) c,
                      if en_shellWriteOK en then None else Some (Failed ''write shell'')))"

definition handleShell :: "env \<Rightarrow> Frame \<Rightarrow> daemonConnection \<Rightarrow> outcome" where
  "handleShell en frame c =
     (let flag = CommandFlag frame
      in if flag = CommandShellInit then
           openShell en (ChannelID frame) [] (audit en frame AuditAllowed [] c)
         else if flag = CommandShellData then
           (case getShell (ChannelID frame) c of
              None \<Rightarrow> conn_write en (EncodeEchoAndClose (ChannelID frame) ''Shell session is not available.'') c
            | Some session \<Rightarrow> guarded_input en frame False session (Payload frame) c)
         else if flag = CommandUnityExecute \<or> flag = CommandUnityExecuteEx then
           (let command = ExtractShellCommand frame
            in case getShell (ChannelID frame) c of
                 Some session \<Rightarrow> if command = [] then (c, None)
                     else guarded_input en frame True session (bytes_of command) c
               | None \<Rightarrow>
                   let decision = InspectShell (policyOrDefault c) (cn_policyProfile c) command
                   in if \<not> Allowed decision
                      then conn_write en (EncodeEchoAndClose (ChannelID frame) (Reason decision))
                             (audit en frame AuditRejected (Rule decision) c)
                      else openShell en (ChannelID frame) command (audit en frame AuditAllowed [] c))
         else conn_write en (EncodeEchoAndClose (ChannelID frame) ''Command is not supported.'') c)"

definition unavailable_text :: "Family \<Rightarrow> string" where
  "unavailable_text family = (case family of
      FamilyFile \<Rightarrow> ''File transfer is unavailable.'' | FamilyUnity \<Rightarrow> ''Unity command is unavailable.''
    | FamilyApp \<Rightarrow> ''App command is unavailable.'' | FamilyForward \<Rightarrow> ''Forward command is unavailable.''
    | _ \<Rightarrow> ''Command is not supported.'')"

text \<open>The switch of \<open>route\<close> over the command families.\<close>

definition dispatch :: "env \<Rightarrow> Frame \<Rightarrow> daemonConnection \<Rightarrow> outcome" where
  "dispatch en frame c =
     (let family = CommandFamily (CommandFlag frame)
      in if family = FamilyKernel then handleKernel en frame c
         else if family = FamilyShell then handleShell en frame c
         else if family \<in> set bridge_families then
           (if family \<notin> set (cn_bridges c)
            then rejectChannel en (ChannelID frame) (unavailable_text family) c
            else (emit (Handled family frame) c, en_bridge en family frame))
         else rejectChannel en (ChannelID frame) ''Command is not supported.'' c)"

definition route :: "env \<Rightarrow> Frame \<Rightarrow> daemonConnection \<Rightarrow> outcome" where
  "route en frame c =
     (let flag = CommandFlag frame
      in if \<not> cn_handshakeAccepted c \<and> \<not> allowedBeforeHandshake flag
         then (audit en frame AuditRejected ''handshake required'' c,
               Some (Violation ''HDC daemon handshake is required.''))
         else if cn_handshakeAccepted c \<and> flag = CommandKernelHandshake
         then (audit en frame AuditRejected ''handshake already complete'' c,
               Some (Violation ''HDC daemon handshake is already complete.''))
         else let decision = InspectFrame (policyOrDefault c) flag
         in if \<not> Allowed decision
            then rejectChannel en (ChannelID frame) (Reason decision)
                   (audit en frame AuditRejected (Rule decision) c)
            else case admitChannel flag (ChannelID frame) c of
              (c, False) \<Rightarrow> conn_write en (EncodeEchoAndClose (ChannelID frame)
                  ''Too many concurrent channels for this connection.'')
                  (audit en frame AuditRejected ''channel limit reached'' c)
            | (c, True) \<Rightarrow>
                dispatch en frame
                  (if auditableCommand flag then audit en frame AuditAllowed [] c else c))"

text \<open>One turn of the read loop; the flag says whether the loop goes on.\<close>

definition serve :: "env \<Rightarrow> Frame \<Rightarrow> daemonConnection \<Rightarrow> daemonConnection \<times> bool" where
  "serve en frame c =
     (case route en frame c of
        (c, None) \<Rightarrow> (c, True)
      | (c, Some HostAuthRejected) \<Rightarrow> (c, False)
      | (c, Some (Violation message)) \<Rightarrow>
          (fst (conn_write en (EncodeEchoAndClose (ChannelID frame) message) c), False)
      | (c, Some (Failed _)) \<Rightarrow>
          (case conn_write en (EncodeEchoAndClose (ChannelID frame) ''Command execution failed.'') c of
             (c, None) \<Rightarrow> (c, True) | (c, Some _) \<Rightarrow> (c, False)))"

text \<open>What ends the connection: the bridges, then the shells, close.\<close>

definition conn_close :: "daemonConnection \<Rightarrow> daemonConnection" where
  "conn_close c =
     (let c = fold (\<lambda>family c. if family \<in> set (cn_bridges c) then emit (BridgeClosed family) c else c)
                bridge_families c;
          sessions = map snd (cn_shells c)
      in fold (\<lambda>session. emit (ShellClosed session True)) sessions (c\<lparr>cn_shells := []\<rparr>))"

section \<open>The life of a connection\<close>

text \<open>
  What happens to a connection, in the order it happens: a frame arrives (raw bytes, as
  \<^verbatim>\<open>ReadFrame\<close> returned them), the read fails, the operator kicks the session,
  the device side of a shell produces output or ends. The flag of the state says whether the
  read loop still runs.
\<close>

datatype conn_event =
    FrameArrived env bytes
  | ReadFailed read_end
  | Kicked
  | ShellOutput env u32 bytes
  | ShellEnded env u32 nat

text \<open>\<^verbatim>\<open>shellSession.readLoop\<close>: output is echoed to the client; at the end the
  session is removed, and the client is told unless this side closed the session.\<close>

definition shell_output :: "env \<Rightarrow> u32 \<Rightarrow> bytes \<Rightarrow> daemonConnection \<Rightarrow> daemonConnection" where
  "shell_output en channelID payload c =
     (if payload = [] then c else fst (conn_write en (EncodeEchoRaw channelID payload) c))"

definition shell_ended :: "env \<Rightarrow> u32 \<Rightarrow> nat \<Rightarrow> daemonConnection \<Rightarrow> daemonConnection" where
  "shell_ended en channelID session c =
     (let closedByUs = ShellClosed session True \<in> set (cn_log c);
          c = removeShell channelID session c
      in if closedByUs then c
         else emit (ShellClosed session False) (fst (conn_write en (EncodeChannelClose channelID) c)))"

fun conn_step :: "int \<Rightarrow> conn_event \<Rightarrow> daemonConnection \<times> bool \<Rightarrow> daemonConnection \<times> bool" where
  "conn_step maxFrameBytes (FrameArrived en raw) (c, running) =
     (if \<not> running then (c, running)
      else case Decode maxFrameBytes raw of
        Inl _ \<Rightarrow> (conn_close c, False)
      | Inr frame \<Rightarrow> (case serve en frame c of
            (c, True) \<Rightarrow> (c, True)
          | (c, False) \<Rightarrow> (conn_close c, False)))"
| "conn_step maxFrameBytes (ReadFailed e) (c, running) =
     (if \<not> running then (c, running)
      else (conn_close (setCloseReason (classifyReadEnd (Some e)) c), False))"
| "conn_step maxFrameBytes Kicked (c, running) = (setCloseReason ''kicked'' c, running)"
| "conn_step maxFrameBytes (ShellOutput en channelID payload) (c, running) =
     (shell_output en channelID payload c, running)"
| "conn_step maxFrameBytes (ShellEnded en channelID session) (c, running) =
     (shell_ended en channelID session c, running)"

text \<open>The connection as \<^verbatim>\<open>handleConnection\<close> builds it for an admitted client, and what
  it reports to the observer and the log when the loop is over.\<close>

record connection_config =
  cc_hasRecorder :: bool
  cc_hasHosts :: bool
  cc_hostAuthOff :: bool
  cc_maxChannels :: int
  cc_policyEngine :: "policy option"
  cc_fileBridgeOK :: bool

definition handleConnection ::
  "connection_config \<Rightarrow> Grant \<Rightarrow> string \<Rightarrow> string \<Rightarrow> daemonConnection" where
  "handleConnection cfg grant connectionID peerIP = \<lparr>
     cn_binding = gr_Binding grant, cn_leaseID = gr_LeaseID grant, cn_ownerID = gr_OwnerID grant,
     cn_sourceIP = peerIP, cn_connectionID = connectionID, cn_hasRecorder = cc_hasRecorder cfg,
     cn_hasHosts = cc_hasHosts cfg, cn_hostAuthOff = cc_hostAuthOff cfg,
     cn_handshakeAccepted = False, cn_authPhase = authPhaseStart, cn_authType = AuthRSAEncrypt,
     cn_authToken = [],
     cn_authIdentity = \<lparr>hi_Hostname = [], hi_PublicKey = [], hi_Fingerprint = []\<rparr>,
     cn_handshakeVersion = [], cn_authRejectReason = [], cn_closeReason = [],
     cn_policyEngine = cc_policyEngine cfg, cn_policyProfile = gr_PolicyProfile grant,
     cn_openChannels = [], cn_maxChannels = cc_maxChannels cfg, cn_shells = [], cn_shellInput = [],
     cn_bridges = (if cc_fileBridgeOK cfg then [FamilyFile] else []) @
       [FamilyUnity, FamilyApp, FamilyForward],
     cn_log = []\<rparr>"

datatype observer_call = ConnectionClosed string | ConnectionRejected string string

definition connection_report :: "daemonConnection \<Rightarrow> observer_call option \<times> string" where
  "connection_report c =
     ((if \<exists>e \<in> set (cn_log c). is_SessionTracked e then Some (ConnectionClosed (cn_leaseID c))
       else if cn_authRejectReason c \<noteq> []
         then Some (ConnectionRejected (cn_leaseID c) (cn_authRejectReason c))
       else None),
      (if cn_closeReason c = [] then ''peer'' else cn_closeReason c))"

definition conn_run :: "int \<Rightarrow> conn_event list \<Rightarrow> daemonConnection \<Rightarrow> daemonConnection \<times> bool" where
  "conn_run maxFrameBytes events c = fold (conn_step maxFrameBytes) events (c, True)"

end
