(* ===== verification/Session_Safety.thy ===== *)
theory Session_Safety
  imports Connection
begin

text \<open>
  What a gateway connection promises, over every sequence of events: nothing reaches the device
  before the handshake is accepted, acceptance rests on a verified signature of an approved
  host, channels and shells are accounted for, and every shell text that reaches the device has
  passed the policy.
\<close>

named_theorems conn_ops \<open>the operations a handler is made of\<close>

section \<open>What an operation leaves alone\<close>

text \<open>Effects that reach the device or make the session live.\<close>

fun device_effect :: "effect \<Rightarrow> bool" where
  "device_effect (Handled _ _) = True"
| "device_effect (ShellOpened _ _ _ _) = True"
| "device_effect (ShellWrote _ _ _) = True"
| "device_effect (SessionTracked _) = True"
| "device_effect _ = False"

definition auth_part where
  "auth_part c = (cn_authPhase c, cn_authType c, cn_authToken c, cn_authIdentity c,
     cn_handshakeAccepted c)"

definition fixed_part where
  "fixed_part c = (cn_binding c, cn_leaseID c, cn_sourceIP c, cn_hostAuthOff c, policyOrDefault c,
     cn_policyProfile c, cn_maxChannels c)"

text \<open>\<open>quiet c c'\<close>: \<open>c'\<close> differs from \<open>c\<close> by log entries that do not
  reach the device, and by fields that only serve messages.\<close>

definition quiet :: "daemonConnection \<Rightarrow> daemonConnection \<Rightarrow> bool" where
  "quiet c c' \<longleftrightarrow> fixed_part c' = fixed_part c
     \<and> cn_openChannels c' = cn_openChannels c \<and> cn_shells c' = cn_shells c
     \<and> cn_shellInput c' = cn_shellInput c
     \<and> (\<exists>es. cn_log c' = cn_log c @ es \<and> list_all (\<lambda>e. \<not> device_effect e) es)"

lemma quietI:
  "fixed_part c' = fixed_part c \<Longrightarrow> cn_openChannels c' = cn_openChannels c \<Longrightarrow>
   cn_shells c' = cn_shells c \<Longrightarrow> cn_shellInput c' = cn_shellInput c \<Longrightarrow>
   cn_log c' = cn_log c @ es \<Longrightarrow> list_all (\<lambda>e. \<not> device_effect e) es \<Longrightarrow> quiet c c'"
  by (auto simp: quiet_def)

lemma quiet_refl [simp]: "quiet c c"
  by (simp add: quiet_def)

lemma quiet_trans: "quiet a b \<Longrightarrow> quiet b c \<Longrightarrow> quiet a c"
  unfolding quiet_def by (metis append.assoc list_all_append)

lemma quiet_emit: "quiet a c \<Longrightarrow> \<not> device_effect e \<Longrightarrow> quiet a (emit e c)"
  unfolding quiet_def by (auto simp: emit_def fixed_part_def policyOrDefault_def)

lemma quiet_fields [simp]:
  "quiet a (c\<lparr>cn_authRejectReason := x\<rparr>) = quiet a c"
  "quiet a (c\<lparr>cn_authPhase := p\<rparr>) = quiet a c"
  "quiet a (c\<lparr>cn_authType := y\<rparr>) = quiet a c"
  "quiet a (c\<lparr>cn_authToken := t\<rparr>) = quiet a c"
  "quiet a (c\<lparr>cn_handshakeVersion := v\<rparr>) = quiet a c"
  "quiet a (c\<lparr>cn_authIdentity := i\<rparr>) = quiet a c"
  "quiet a (c\<lparr>cn_closeReason := r\<rparr>) = quiet a c"
  by (simp_all add: quiet_def fixed_part_def policyOrDefault_def)

lemma quiet_setCloseReason [simp]: "quiet a (setCloseReason r c) = quiet a c"
  by (simp add: setCloseReason_def)

lemma quiet_audit: "quiet a c \<Longrightarrow> quiet a (audit en f d r c)"
  by (simp add: audit_def quiet_emit)

lemma quiet_write: "quiet a c \<Longrightarrow> quiet a (fst (conn_write en p c))"
  by (simp add: conn_write_def quiet_emit)

lemma quiet_rejectOldClient: "quiet a c \<Longrightarrow> quiet a (rejectOldClient en v c)"
  by (simp add: rejectOldClient_def quiet_emit)

lemma auth_part_ops [simp, conn_ops]:
  "auth_part (emit e c) = auth_part c"
  "auth_part (audit en f d r c) = auth_part c"
  "auth_part (setCloseReason r c) = auth_part c"
  "auth_part (fst (conn_write en p c)) = auth_part c"
  "auth_part (rejectOldClient en v c) = auth_part c"
  "auth_part (c\<lparr>cn_authRejectReason := x\<rparr>) = auth_part c"
  "auth_part (c\<lparr>cn_openChannels := y\<rparr>) = auth_part c"
  "auth_part (c\<lparr>cn_shells := z, cn_shellInput := w\<rparr>) = auth_part c"
  "auth_part (c\<lparr>cn_shells := z\<rparr>) = auth_part c"
  "auth_part (c\<lparr>cn_shellInput := w\<rparr>) = auth_part c"
  by (simp_all add: auth_part_def emit_def audit_def setCloseReason_def conn_write_def
      rejectOldClient_def)

section \<open>The handshake handlers\<close>

lemmas quiet_intros = quiet_write quiet_audit quiet_rejectOldClient quiet_emit

lemma handleAuthNone_quiet: "quiet c (fst (handleAuthNone en f h c))"
  by (simp add: handleAuthNone_def invalid_handshake_def Let_def case_prod_beta quiet_intros
      split: option.split)

lemma sendSignatureChallenge_quiet: "quiet a c \<Longrightarrow> quiet a (fst (sendSignatureChallenge en ch c))"
  by (simp add: sendSignatureChallenge_def quiet_intros)

lemma handleAuthPublicKey_quiet: "quiet c (fst (handleAuthPublicKey en f h c))"
  by (simp add: handleAuthPublicKey_def invalid_handshake_def Let_def case_prod_beta quiet_intros
      sendSignatureChallenge_quiet split: option.split sum.split)

text \<open>The signature step is quiet, unless it accepts; then it also makes the session live.\<close>

lemma handleAuthSignature_cases:
  assumes "handleAuthSignature en f h c = (c', r)"
  obtains "quiet c c'" "auth_part c' = auth_part c"
  | es where "cn_authPhase c = authPhaseWaitSignature" "cn_authToken c \<noteq> []"
      "hi_PublicKey (cn_authIdentity c) \<noteq> []"
      "en_verify en (hi_PublicKey (cn_authIdentity c)) (cn_authToken c) (Buffer h) (cn_authType c)"
      "auth_part c' = (authPhaseDone, cn_authType c, cn_authToken c, cn_authIdentity c, True)"
      "fixed_part c' = fixed_part c" "cn_openChannels c' = cn_openChannels c"
      "cn_shells c' = cn_shells c" "cn_shellInput c' = cn_shellInput c"
      "cn_log c' = cn_log c @ es"
      "list_all (\<lambda>e. device_effect e \<longrightarrow> is_SessionTracked e) es"
proof -
  from assms have c': "c' = fst (handleAuthSignature en f h c)" by simp
  consider (bad) "cn_authPhase c \<noteq> authPhaseWaitSignature \<or> cn_authToken c = []
      \<or> hi_PublicKey (cn_authIdentity c) = []"
    | (wrong) "\<not> en_verify en (hi_PublicKey (cn_authIdentity c)) (cn_authToken c) (Buffer h) (cn_authType c)"
    | (ok) "cn_authPhase c = authPhaseWaitSignature" "cn_authToken c \<noteq> []"
      "hi_PublicKey (cn_authIdentity c) \<noteq> []"
      "en_verify en (hi_PublicKey (cn_authIdentity c)) (cn_authToken c) (Buffer h) (cn_authType c)"
    by blast
  then show ?thesis
  proof cases
    case bad
    with c' have "c' = (audit en f AuditRejected ''unexpected signature'' c)
        \<lparr>cn_authRejectReason := ''unexpected signature''\<rparr>"
      by (auto simp: handleAuthSignature_def invalid_handshake_def)
    then show ?thesis
      using that(1) by (simp add: quiet_intros)
  next
    case wrong
    with c' have "quiet c c' \<and> auth_part c' = auth_part c"
      by (simp add: handleAuthSignature_def invalid_handshake_def Let_def quiet_intros)
    then show ?thesis using that(1) by blast
  next
    case ok
    define es where "es = drop (length (cn_log c)) (cn_log c')"
    from ok c' obtain p live where c'_eq: "c' = fst (conn_write en p (emit (SessionTracked live)
        (audit en f AuditAllowed ''auth ok''
          (c\<lparr>cn_authPhase := authPhaseDone, cn_handshakeAccepted := True\<rparr>))))"
      by (simp add: handleAuthSignature_def Let_def)
    show ?thesis
      by (rule that(2) [OF ok, of es])
        (auto simp: c'_eq es_def auth_part_def fixed_part_def policyOrDefault_def conn_write_def
          emit_def audit_def)
  qed
qed


text \<open>What the handlers do to the authentication fields.\<close>

definition approved :: "env \<Rightarrow> HostIdentity \<Rightarrow> daemonConnection \<Rightarrow> bool" where
  "approved en identity c \<longleftrightarrow> cn_hostAuthOff c \<or> en_trusted en (hi_Fingerprint identity)
     \<or> en_submit en (auth_request identity c) \<in> {Inr DecisionAllowOnce, Inr DecisionAllowForever}"

lemma auth_part_updates:
  "auth_part (c\<lparr>cn_authPhase := p\<rparr>) = (p, snd (auth_part c))"
  "auth_part (c\<lparr>cn_authIdentity := i\<rparr>)
     = (cn_authPhase c, cn_authType c, cn_authToken c, i, cn_handshakeAccepted c)"
  "auth_part (c\<lparr>cn_authType := ty, cn_authToken := t, cn_handshakeVersion := v, cn_authPhase := p\<rparr>)
     = (p, ty, t, cn_authIdentity c, cn_handshakeAccepted c)"
  by (simp_all add: auth_part_def)

lemma fixed_part_ops [simp]:
  "fixed_part (emit e c) = fixed_part c"
  "fixed_part (audit en f d r c) = fixed_part c"
  "fixed_part (fst (conn_write en p c)) = fixed_part c"
  "fixed_part (c\<lparr>cn_authIdentity := i\<rparr>) = fixed_part c"
  by (simp_all add: fixed_part_def policyOrDefault_def emit_def audit_def conn_write_def)

lemma approved_eq: "fixed_part c' = fixed_part c \<Longrightarrow> approved en i c' = approved en i c"
  by (simp add: approved_def fixed_part_def auth_request_def)

lemma handleAuthNone_auth:
  "auth_part (fst (handleAuthNone en f h c)) = auth_part c
   \<or> cn_authPhase c = authPhaseStart \<and> \<not> ClientVersionTooOld (Version h)
       \<and> (\<exists>t. en_token en = Some t
         \<and> auth_part (fst (handleAuthNone en f h c))
             = (authPhaseWaitPubkey, ParseClientAuthType (Buffer h), t, cn_authIdentity c,
                cn_handshakeAccepted c))"
  by (simp add: handleAuthNone_def invalid_handshake_def Let_def case_prod_beta
      auth_part_updates(3) split: option.split)

lemma auth_part_challenge:
  "auth_part (fst (sendSignatureChallenge en ch c)) = (authPhaseWaitSignature, snd (auth_part c))"
  by (simp add: sendSignatureChallenge_def auth_part_updates)

lemma handleAuthPublicKey_auth:
  "auth_part (fst (handleAuthPublicKey en f h c)) = auth_part c
   \<or> cn_authPhase c = authPhaseWaitPubkey \<and> (\<exists>i. en_parseIdentity en (Buffer h) = Inr i
       \<and> (\<exists>p. (p = authPhaseWaitPubkey \<or> p = authPhaseWaitSignature \<and> approved en i c)
           \<and> auth_part (fst (handleAuthPublicKey en f h c))
               = (p, cn_authType c, cn_authToken c, i, cn_handshakeAccepted c)))"
proof (cases "cn_authPhase c = authPhaseWaitPubkey")
  case False
  then show ?thesis by (simp add: handleAuthPublicKey_def invalid_handshake_def)
next
  case phase: True
  show ?thesis
  proof (cases "en_parseIdentity en (Buffer h)")
    case Inl
    with phase show ?thesis by (simp add: handleAuthPublicKey_def invalid_handshake_def)
  next
    case (Inr i)
    let ?c = "c\<lparr>cn_authIdentity := i\<rparr>"
    let ?w = "conn_write en (EncodeHandshakeUnauthorized (ChannelID f) (cn_handshakeVersion ?c)
      (deviceName ?c) unauthorizedNotice) ?c"
    have request: "auth_request i (fst ?w) = auth_request i c"
      by (simp add: auth_request_def conn_write_def emit_def)
    show ?thesis
      using phase Inr request
      by (simp add: handleAuthPublicKey_def Let_def case_prod_beta auth_part_challenge
          auth_part_updates approved_def split: option.split sum.split)
  qed
qed


section \<open>The session invariant\<close>

text \<open>What a one-shot command or an interactive shell sends to the target when it opens.\<close>

definition sent_command :: "string \<Rightarrow> string" where
  "sent_command command =
     (if trim_space command = [] then ''shell'' else ''shell '' @ trim_space command)"

fun effect_ok :: "policy \<Rightarrow> Profile \<Rightarrow> effect \<Rightarrow> bool" where
  "effect_ok pol prof (ShellOpened _ _ command sent)
     = (Allowed (InspectShell pol prof command) \<and> sent = sent_command command)"
| "effect_ok pol prof (Handled _ frame) = Allowed (InspectFrame pol (CommandFlag frame))"
| "effect_ok _ _ _ = True"

definition shell_accounted :: "daemonConnection \<Rightarrow> effect \<Rightarrow> bool" where
  "shell_accounted c e = (case e of
     ShellOpened ch session _ _ \<Rightarrow>
       (ch, session) \<in> set (cn_shells c) \<or> (\<exists>byUs. ShellClosed session byUs \<in> set (cn_log c))
   | _ \<Rightarrow> True)"

definition session_ok :: "policy \<Rightarrow> Profile \<Rightarrow> int \<Rightarrow> daemonConnection \<Rightarrow> bool" where
  "session_ok pol prof limit c \<longleftrightarrow>
     policyOrDefault c = pol \<and> cn_policyProfile c = prof \<and> cn_maxChannels c = limit
     \<and> distinct (cn_openChannels c) \<and> (0 < limit \<longrightarrow> int (length (cn_openChannels c)) \<le> limit)
     \<and> distinct (map fst (cn_shells c))
     \<and> (\<not> cn_handshakeAccepted c \<longrightarrow>
          cn_shells c = [] \<and> list_all (\<lambda>e. \<not> device_effect e) (cn_log c))
     \<and> list_all (effect_ok pol prof) (cn_log c)
     \<and> list_all (shell_accounted c) (cn_log c)"

text \<open>A way to make steps: keep the fixed part, and grow the log by effects that are fine.\<close>

lemma session_ok_grow:
  assumes ok: "session_ok pol prof limit c"
    and fixed: "fixed_part c' = fixed_part c"
    and channels: "distinct (cn_openChannels c')"
      "0 < limit \<Longrightarrow> int (length (cn_openChannels c')) \<le> limit"
    and shells: "distinct (map fst (cn_shells c'))"
      "\<not> cn_handshakeAccepted c' \<Longrightarrow> \<not> cn_handshakeAccepted c \<and> cn_shells c' = []
         \<and> list_all (\<lambda>e. \<not> device_effect e) es"
    and log: "cn_log c' = cn_log c @ es" "list_all (effect_ok pol prof) es"
      "list_all (shell_accounted c') es"
    and kept: "\<And>ch s. (ch, s) \<in> set (cn_shells c) \<Longrightarrow>
      (ch, s) \<in> set (cn_shells c') \<or> (\<exists>b. ShellClosed s b \<in> set (cn_log c'))"
  shows "session_ok pol prof limit c'"
proof -
  have "shell_accounted c' e" if "e \<in> set (cn_log c)" for e
  proof -
    from ok that have "shell_accounted c e" by (simp add: session_ok_def list_all_iff)
    then show ?thesis
      using kept log(1) by (fastforce simp: shell_accounted_def split: effect.splits)
  qed
  with ok fixed channels shells log show ?thesis
    by (auto simp: session_ok_def fixed_part_def list_all_iff)
qed

lemma quiet_effect_ok: "\<not> device_effect e \<Longrightarrow> effect_ok pol prof e \<and> shell_accounted c e"
  by (cases e) (simp_all add: shell_accounted_def)

lemma session_ok_quiet:
  assumes "session_ok pol prof limit c" and "quiet c c'"
    and "cn_handshakeAccepted c' = cn_handshakeAccepted c"
  shows "session_ok pol prof limit c'"
proof -
  from assms(2) obtain es where es: "cn_log c' = cn_log c @ es" "list_all (\<lambda>e. \<not> device_effect e) es"
    by (auto simp: quiet_def)
  show ?thesis
    by (rule session_ok_grow [OF assms(1), of _ es])
      (use assms es quiet_effect_ok in \<open>auto simp: quiet_def session_ok_def list_all_iff\<close>)
qed

lemma accepted_auth_part: "auth_part c' = auth_part c \<Longrightarrow> cn_handshakeAccepted c' = cn_handshakeAccepted c"
  by (simp add: auth_part_def)

lemma session_ok_ops [conn_ops]:
  assumes "session_ok pol prof limit c"
  shows "\<not> device_effect e \<Longrightarrow> session_ok pol prof limit (emit e c)"
    and "session_ok pol prof limit (fst (conn_write en p c))"
    and "session_ok pol prof limit (audit en f d r c)"
    and "session_ok pol prof limit (setCloseReason r c)"
  by (rule session_ok_quiet [OF assms]; (rule accepted_auth_part)?; simp add: quiet_intros)+

lemma session_ok_input [simp]: "session_ok pol prof limit (c\<lparr>cn_shellInput := x\<rparr>) = session_ok pol prof limit c"
proof -
  have "shell_accounted (c\<lparr>cn_shellInput := x\<rparr>) = shell_accounted c"
    by (rule ext) (simp add: shell_accounted_def split: effect.split)
  then show ?thesis by (simp add: session_ok_def policyOrDefault_def)
qed

lemma session_ok_append [conn_ops]:
  "session_ok pol prof limit c \<Longrightarrow> session_ok pol prof limit (fst (appendShellInput ch chunk c))"
  by (simp add: appendShellInput_def Let_def)

lemma session_ok_untrack [conn_ops]:
  assumes "session_ok pol prof limit c"
  shows "session_ok pol prof limit (untrackChannel ch c)"
proof (rule session_ok_grow [OF assms, of _ "[]"])
  assume "0 < limit"
  with assms have "int (length (cn_openChannels c)) \<le> limit"
    by (simp add: session_ok_def)
  moreover have "length (removeAll ch (cn_openChannels c)) \<le> length (cn_openChannels c)"
    by (rule length_removeAll_less_eq)
  ultimately have "int (length (removeAll ch (cn_openChannels c))) \<le> limit"
    by linarith
  then show "int (length (cn_openChannels (untrackChannel ch c))) \<le> limit"
    by (simp add: untrackChannel_def)
qed (use assms in \<open>auto simp: untrackChannel_def session_ok_def fixed_part_def policyOrDefault_def
    distinct_removeAll\<close>)

lemma session_ok_admit [conn_ops]:
  assumes "session_ok pol prof limit c"
  shows "session_ok pol prof limit (fst (admitChannel flag ch c))"
proof (cases "admitChannel flag ch c = (c\<lparr>cn_openChannels := ch # cn_openChannels c\<rparr>, True)
    \<and> ch \<notin> set (cn_openChannels c) \<and> (0 < limit \<longrightarrow> int (length (cn_openChannels c)) < limit)")
  case True
  show ?thesis
    by (rule session_ok_grow [OF assms, of _ "[]"])
      (use assms True in \<open>auto simp: session_ok_def fixed_part_def policyOrDefault_def\<close>)
next
  case False
  then have "fst (admitChannel flag ch c) = c"
    using assms by (auto simp: admitChannel_def session_ok_def)
  with assms show ?thesis by simp
qed

lemma session_ok_stopShell [conn_ops]:
  assumes "session_ok pol prof limit c"
  shows "session_ok pol prof limit (stopShell ch byUs c)"
proof (rule session_ok_grow [OF assms, of _ "case getShell ch c of None \<Rightarrow> [] | Some s \<Rightarrow> [ShellClosed s byUs]"])
  fix k s
  assume s: "(k, s) \<in> set (cn_shells c)"
  moreover have "distinct (map fst (cn_shells c))"
    using assms by (simp add: session_ok_def)
  ultimately have "map_of (cn_shells c) k = Some s" by simp
  then show "(k, s) \<in> set (cn_shells (stopShell ch byUs c))
      \<or> (\<exists>b. ShellClosed s b \<in> set (cn_log (stopShell ch byUs c)))"
    using s by (cases "k = ch")
      (auto simp: stopShell_def getShell_def Let_def emit_def AList.delete_eq split: option.split)
qed (use assms in \<open>auto simp: stopShell_def getShell_def Let_def emit_def session_ok_def
    fixed_part_def policyOrDefault_def shell_accounted_def split: option.split\<close>)


lemma session_ok_fold [conn_ops]:
  "(\<And>x c. session_ok pol prof limit c \<Longrightarrow> session_ok pol prof limit (g x c)) \<Longrightarrow>
   session_ok pol prof limit c \<Longrightarrow> session_ok pol prof limit (fold g xs c)"
  by (induction xs arbitrary: c) simp_all

lemma session_ok_teardown [conn_ops]:
  assumes "session_ok pol prof limit c"
  shows "session_ok pol prof limit (teardownChannel ch c)"
  unfolding teardownChannel_def
  by (rule session_ok_fold) (simp_all add: conn_ops assms)

lemma session_ok_reject [conn_ops]:
  "session_ok pol prof limit c \<Longrightarrow> session_ok pol prof limit (fst (rejectChannel en ch m c))"
  by (simp add: rejectChannel_def conn_ops)

section \<open>The handlers keep the invariant\<close>

text \<open>The operations outside the handshake leave the authentication alone.\<close>

lemma auth_part_more [simp]:
  "auth_part (untrackChannel ch c) = auth_part c"
  "auth_part (fst (admitChannel flag ch c)) = auth_part c"
  "auth_part (fst (appendShellInput ch chunk c)) = auth_part c"
  "auth_part (stopShell ch byUs c) = auth_part c"
  by (simp_all add: untrackChannel_def admitChannel_def appendShellInput_def stopShell_def Let_def
      split: option.split)

lemma auth_part_fold: "(\<And>x c. auth_part (g x c) = auth_part c) \<Longrightarrow> auth_part (fold g xs c) = auth_part c"
  by (induction xs arbitrary: c) simp_all

lemma auth_part_teardown [simp]: "auth_part (teardownChannel ch c) = auth_part c"
  unfolding teardownChannel_def by (subst auth_part_fold) simp_all

lemma auth_part_reject [simp]: "auth_part (fst (rejectChannel en ch m c)) = auth_part c"
  by (simp add: rejectChannel_def)

lemma auth_part_openShell [simp]: "auth_part (fst (openShell en ch cmd c)) = auth_part c"
  by (simp add: openShell_def Let_def split: option.split)

lemma auth_part_guarded [simp]: "auth_part (fst (guarded_input en f ok s input c)) = auth_part c"
  by (simp add: guarded_input_def Let_def case_prod_beta split: option.split)

lemma auth_part_handleShell [simp]: "auth_part (fst (handleShell en f c)) = auth_part c"
  by (simp add: handleShell_def Let_def split: option.split)

lemma openShell_eq:
  "openShell en ch cmd c =
     (if getShell ch c \<noteq> None then (c, None)
      else if \<not> Allowed (InspectShell (policyOrDefault c) (cn_policyProfile c) cmd)
      then conn_write en (EncodeEchoAndClose ch (Reason (InspectShell (policyOrDefault c) (cn_policyProfile c) cmd))) c
      else case en_resolve en (bd_DeviceID (cn_binding c)) of
        None \<Rightarrow> (c, Some (Failed ''resolve target device''))
      | Some key \<Rightarrow> (case en_openTarget en key (sent_command cmd) of
          None \<Rightarrow> (c, Some (Failed ''open target shell''))
        | Some s \<Rightarrow> (emit (ShellOpened ch s cmd (sent_command cmd))
            (c\<lparr>cn_shells := AList.update ch s (cn_shells c)\<rparr>), None)))"
  by (simp add: openShell_def sent_command_def Let_def split: option.split)

lemma session_ok_openShell [conn_ops]:
  assumes ok: "session_ok pol prof limit c" and acc: "cn_handshakeAccepted c"
  shows "session_ok pol prof limit (fst (openShell en ch cmd c))"
proof -
  have "session_ok pol prof limit (emit (ShellOpened ch s cmd (sent_command cmd))
      (c\<lparr>cn_shells := AList.update ch s (cn_shells c)\<rparr>))"
    if "getShell ch c = None" and "Allowed (InspectShell (policyOrDefault c) (cn_policyProfile c) cmd)" for s
  proof (rule session_ok_grow [OF ok, of _ "[ShellOpened ch s cmd (sent_command cmd)]"])
    fix k t
    assume "(k, t) \<in> set (cn_shells c)"
    moreover have "map_of (cn_shells c) ch = None"
      using that by (simp add: getShell_def)
    ultimately have "map_of (AList.update ch s (cn_shells c)) k = Some t"
      using ok by (auto simp: session_ok_def)
    then show "(k, t) \<in> set (cn_shells (emit (ShellOpened ch s cmd (sent_command cmd))
        (c\<lparr>cn_shells := AList.update ch s (cn_shells c)\<rparr>)))
      \<or> (\<exists>b. ShellClosed t b \<in> set (cn_log (emit (ShellOpened ch s cmd (sent_command cmd))
        (c\<lparr>cn_shells := AList.update ch s (cn_shells c)\<rparr>))))"
      by (simp add: emit_def map_of_SomeD)
  next
    have "(ch, s) \<in> set (AList.update ch s (cn_shells c))"
      by (rule map_of_SomeD) simp
    then show "list_all (shell_accounted (emit (ShellOpened ch s cmd (sent_command cmd))
        (c\<lparr>cn_shells := AList.update ch s (cn_shells c)\<rparr>))) [ShellOpened ch s cmd (sent_command cmd)]"
      by (simp add: shell_accounted_def emit_def)
  qed (use ok acc that in \<open>auto simp: emit_def session_ok_def fixed_part_def policyOrDefault_def\<close>)
  then show ?thesis
    by (simp add: openShell_eq conn_ops ok split: option.split)
qed

lemma session_ok_write_shell:
  assumes ok: "session_ok pol prof limit c" and acc: "cn_handshakeAccepted c"
  shows "session_ok pol prof limit (emit (ShellWrote ch s input) c)"
  by (rule session_ok_grow [OF ok, of _ "[ShellWrote ch s input]"])
    (use assms in \<open>auto simp: emit_def session_ok_def fixed_part_def policyOrDefault_def
      shell_accounted_def\<close>)


lemma session_ok_policy:
  "session_ok pol prof limit c \<Longrightarrow> policyOrDefault c = pol \<and> cn_policyProfile c = prof"
  by (simp add: session_ok_def)

lemma appendShellInput_text:
  "appendShellInput ch chunk c = (c', Some guarded) \<Longrightarrow> guarded = shell_buffer ch c @ string_of chunk"
  by (auto simp: appendShellInput_def Let_def split: if_splits)

lemma accepted_ops [simp]:
  "cn_handshakeAccepted (audit en f d r c) = cn_handshakeAccepted c"
  "cn_handshakeAccepted (emit e c) = cn_handshakeAccepted c"
  "cn_handshakeAccepted (fst (appendShellInput ch chunk c)) = cn_handshakeAccepted c"
  "cn_handshakeAccepted (fst (admitChannel flag ch c)) = cn_handshakeAccepted c"
  by (rule accepted_auth_part, simp)+

lemma session_ok_guarded [conn_ops]:
  assumes ok: "session_ok pol prof limit c" and acc: "cn_handshakeAccepted c"
  shows "session_ok pol prof limit (fst (guarded_input en f rec s input c))"
proof -
  obtain c1 r where app: "appendShellInput (ChannelID f) input c = (c1, r)"
    by (cases "appendShellInput (ChannelID f) input c")
  have ok1: "session_ok pol prof limit c1" and acc1: "cn_handshakeAccepted c1"
    using session_ok_append [OF ok, of "ChannelID f" input] acc
      accepted_ops(3) [of "ChannelID f" input c] by (simp_all add: app)
  have "session_ok pol prof limit (emit (ShellWrote ch s input) c2)"
    if "c2 = c1 \<or> c2 = audit en f AuditAllowed [] c1" for ch c2
    by (rule session_ok_write_shell) (use that in \<open>auto simp: conn_ops ok1 acc1\<close>)
  then show ?thesis
    by (simp add: guarded_input_def app Let_def conn_ops ok1 split: option.split)
qed

lemma session_ok_handleShell [conn_ops]:
  "session_ok pol prof limit c \<Longrightarrow> cn_handshakeAccepted c \<Longrightarrow>
   session_ok pol prof limit (fst (handleShell en f c))"
  by (simp add: handleShell_def Let_def conn_ops split: option.split)

text \<open>The handshake is quiet, except for the accepting signature.\<close>

lemma handleHandshake_cases:
  assumes "handleHandshake en f c = (c', r)"
  obtains (quiet) "quiet c c'" "auth_part c' = auth_part c"
  | (none) h t where "DecodeSessionHandshake (Payload f) = Inr h" "Banner h = ''OHOS HDC''"
      "AuthType h = HandshakeAuthNone" "quiet c c'" "cn_authPhase c = authPhaseStart"
      "\<not> ClientVersionTooOld (Version h)" "en_token en = Some t"
      "auth_part c' = (authPhaseWaitPubkey, ParseClientAuthType (Buffer h), t, cn_authIdentity c,
         cn_handshakeAccepted c)"
  | (key) h p i where "DecodeSessionHandshake (Payload f) = Inr h" "Banner h = ''OHOS HDC''"
      "AuthType h = HandshakeAuthPublicKey" "quiet c c'" "cn_authPhase c = authPhaseWaitPubkey"
      "en_parseIdentity en (Buffer h) = Inr i"
      "p = authPhaseWaitPubkey \<or> p = authPhaseWaitSignature \<and> approved en i c"
      "auth_part c' = (p, cn_authType c, cn_authToken c, i, cn_handshakeAccepted c)"
  | (signature) h es where "DecodeSessionHandshake (Payload f) = Inr h" "Banner h = ''OHOS HDC''"
      "AuthType h = HandshakeAuthSignature" "cn_authPhase c = authPhaseWaitSignature"
      "cn_authToken c \<noteq> []" "hi_PublicKey (cn_authIdentity c) \<noteq> []"
      "en_verify en (hi_PublicKey (cn_authIdentity c)) (cn_authToken c) (Buffer h) (cn_authType c)"
      "auth_part c' = (authPhaseDone, cn_authType c, cn_authToken c, cn_authIdentity c, True)"
      "fixed_part c' = fixed_part c" "cn_openChannels c' = cn_openChannels c"
      "cn_shells c' = cn_shells c" "cn_shellInput c' = cn_shellInput c"
      "cn_log c' = cn_log c @ es"
      "list_all (\<lambda>e. device_effect e \<longrightarrow> is_SessionTracked e) es"
proof (cases "DecodeSessionHandshake (Payload f)")
  case (Inl e)
  with assms have "c' = fst (invalid_handshake en f ''invalid handshake'' ''Invalid HDC daemon handshake.'' c)"
    by (simp add: handleHandshake_def)
  then show ?thesis using quiet by (simp add: invalid_handshake_def quiet_intros)
next
  case (Inr h)
  consider "AuthType h = HandshakeAuthNone" "Banner h = ''OHOS HDC''"
    | "AuthType h = HandshakeAuthPublicKey" "AuthType h \<noteq> HandshakeAuthNone" "Banner h = ''OHOS HDC''"
    | "AuthType h = HandshakeAuthSignature" "AuthType h \<noteq> HandshakeAuthNone"
      "AuthType h \<noteq> HandshakeAuthPublicKey" "Banner h = ''OHOS HDC''"
    | "c' = fst (invalid_handshake en f ''invalid handshake'' ''Invalid HDC daemon handshake.'' c)"
    using assms by (auto simp: handleHandshake_def Inr split: if_splits)
  then show ?thesis
  proof cases
    case 1
    then have "c' = fst (handleAuthNone en f h c)"
      using assms by (simp add: handleHandshake_def Inr)
    then show ?thesis
      using handleAuthNone_quiet [of c en f h] handleAuthNone_auth [of en f h c] quiet
        none [OF Inr 1(2,1)] by blast
  next
    case 2
    then have "c' = fst (handleAuthPublicKey en f h c)"
      using assms by (simp add: handleHandshake_def Inr)
    then show ?thesis
      using handleAuthPublicKey_quiet [of c en f h] handleAuthPublicKey_auth [of en f h c] quiet
        key [OF Inr 2(3,1)] by blast
  next
    case 3
    then have "handleAuthSignature en f h c = (c', r)"
      using assms by (simp add: handleHandshake_def Inr)
    then show ?thesis
      by (rule handleAuthSignature_cases) (use quiet signature [OF Inr 3(4,1)] in blast)+
  next
    case 4
    then show ?thesis using quiet by (simp add: invalid_handshake_def quiet_intros)
  qed
qed

lemma session_ok_handshake [conn_ops]:
  assumes ok: "session_ok pol prof limit c"
  shows "session_ok pol prof limit (fst (handleHandshake en f c))"
proof -
  obtain c' r where h: "handleHandshake en f c = (c', r)"
    by (cases "handleHandshake en f c")
  from h have "session_ok pol prof limit c'"
  proof (cases rule: handleHandshake_cases)
    case quiet
    then show ?thesis by (auto intro: session_ok_quiet [OF ok] simp: auth_part_def)
  next
    case none
    then show ?thesis by (auto intro: session_ok_quiet [OF ok] simp: auth_part_def)
  next
    case key
    then show ?thesis by (auto intro: session_ok_quiet [OF ok] simp: auth_part_def)
  next
    case (signature h es)
    have e: "effect_ok pol prof e \<and> shell_accounted c' e" if "e \<in> set es" for e
    proof -
      from that signature(14) have d: "device_effect e \<longrightarrow> is_SessionTracked e"
        by (simp add: list_all_iff)
      show ?thesis by (cases e) (use d in \<open>simp_all add: shell_accounted_def\<close>)
    qed
    show ?thesis
      by (rule session_ok_grow [OF ok, of _ es])
        (use signature(4-) ok e in \<open>auto simp: auth_part_def session_ok_def list_all_iff\<close>)
  qed
  with h show ?thesis by simp
qed


lemma session_ok_handleKernel [conn_ops]:
  "session_ok pol prof limit c \<Longrightarrow> session_ok pol prof limit (fst (handleKernel en f c))"
  by (simp add: handleKernel_def Let_def conn_ops)

lemma allowedBeforeHandshake_family: "allowedBeforeHandshake flag \<Longrightarrow> CommandFamily flag = FamilyKernel"
proof -
  have "CommandFamily CommandKernelHandshake = FamilyKernel"
    "CommandFamily CommandKernelChannelClose = FamilyKernel"
    by code_simp+
  then show "allowedBeforeHandshake flag \<Longrightarrow> CommandFamily flag = FamilyKernel"
    by (auto simp: allowedBeforeHandshake_def)
qed

lemma session_ok_handled:
  assumes ok: "session_ok pol prof limit c" and acc: "cn_handshakeAccepted c"
    and allowed: "Allowed (InspectFrame pol (CommandFlag f))"
  shows "session_ok pol prof limit (emit (Handled family f) c)"
  by (rule session_ok_grow [OF ok, of _ "[Handled family f]"])
    (use assms in \<open>auto simp: emit_def session_ok_def fixed_part_def policyOrDefault_def
      shell_accounted_def\<close>)

lemma session_ok_dispatch [conn_ops]:
  assumes ok: "session_ok pol prof limit c"
    and allowed: "Allowed (InspectFrame pol (CommandFlag f))"
    and acc: "cn_handshakeAccepted c \<or> CommandFamily (CommandFlag f) = FamilyKernel"
  shows "session_ok pol prof limit (fst (dispatch en f c))"
  using acc session_ok_handled [OF ok] allowed
  by (auto simp: dispatch_def Let_def conn_ops ok)

lemma session_ok_route [conn_ops]:
  assumes ok: "session_ok pol prof limit c"
  shows "session_ok pol prof limit (fst (route en f c))"
proof -
  obtain c1 b where adm: "admitChannel (CommandFlag f) (ChannelID f) c = (c1, b)"
    by (cases "admitChannel (CommandFlag f) (ChannelID f) c")
  have ok1: "session_ok pol prof limit c1"
    using session_ok_admit [OF ok, of "CommandFlag f" "ChannelID f"] by (simp add: adm)
  have acc: "cn_handshakeAccepted c1 = cn_handshakeAccepted c"
    using accepted_ops(4) [of "CommandFlag f" "ChannelID f" c] by (simp add: adm)
  have "cn_handshakeAccepted c \<or> \<not> allowedBeforeHandshake (CommandFlag f)
      \<or> CommandFamily (CommandFlag f) = FamilyKernel"
    using allowedBeforeHandshake_family by blast
  then show ?thesis
    by (auto simp: route_def Let_def adm conn_ops ok ok1 acc session_ok_policy [OF ok]
        intro!: session_ok_dispatch split: bool.split)
qed

lemma session_ok_serve: "session_ok pol prof limit c \<Longrightarrow> session_ok pol prof limit (fst (serve en f c))"
  using session_ok_route [of pol prof limit c en f]
  by (simp add: serve_def case_prod_beta conn_ops split: option.split route_error.split)


section \<open>Every event keeps the invariant\<close>

lemma fold_emit_log:
  "fold (\<lambda>x. emit (g x)) xs c = c\<lparr>cn_log := cn_log c @ map g xs\<rparr>"
  by (induction xs arbitrary: c) (simp_all add: emit_def)

lemma session_ok_close [conn_ops]:
  assumes "session_ok pol prof limit c"
  shows "session_ok pol prof limit (conn_close c)"
proof -
  define c1 where "c1 = fold (\<lambda>family c. if family \<in> set (cn_bridges c)
    then emit (BridgeClosed family) c else c) bridge_families c"
  have ok: "session_ok pol prof limit c1"
    unfolding c1_def by (rule session_ok_fold) (simp_all add: conn_ops assms)
  have "cn_shells (conn_close c) = []" "cn_openChannels (conn_close c) = cn_openChannels c1"
    "cn_handshakeAccepted (conn_close c) = cn_handshakeAccepted c1"
    "fixed_part (conn_close c) = fixed_part c1"
    "cn_log (conn_close c) = cn_log c1 @ map (\<lambda>s. ShellClosed s True) (map snd (cn_shells c1))"
    by (simp_all add: conn_close_def c1_def [symmetric] Let_def fold_emit_log fixed_part_def
        policyOrDefault_def)
  note after = this
  have sim: "shell_accounted c' (ShellClosed t b) \<and> effect_ok pol prof (ShellClosed t b)" for c' t b
    by (simp add: shell_accounted_def)
  show ?thesis
  proof (rule session_ok_grow [OF ok, of _ "map (\<lambda>s. ShellClosed s True) (map snd (cn_shells c1))"])
    show "(k, s) \<in> set (cn_shells (conn_close c))
        \<or> (\<exists>b. ShellClosed s b \<in> set (cn_log (conn_close c)))"
      if "(k, s) \<in> set (cn_shells c1)" for k s
      using that unfolding after by force
  qed (use ok sim in \<open>simp_all add: after session_ok_def list_all_iff\<close>)
qed

lemma conn_close_shells [simp]: "cn_shells (conn_close c) = []"
  by (simp add: conn_close_def Let_def fold_emit_log)

lemma session_ok_ended [conn_ops]:
  assumes ok: "session_ok pol prof limit c"
  shows "session_ok pol prof limit (shell_ended en ch session c)"
proof -
  let ?byUs = "ShellClosed session True \<in> set (cn_log c)"
  have end_eq: "shell_ended en ch session c = (if ?byUs then removeShell ch session c
      else emit (ShellClosed session False)
        (fst (conn_write en (EncodeChannelClose ch) (removeShell ch session c))))"
    by (simp add: shell_ended_def Let_def)
  have kept: "(k, s) \<in> set (cn_shells (removeShell ch session c)) \<or> s = session"
    if "(k, s) \<in> set (cn_shells c)" for k s
  proof -
    have "map_of (cn_shells c) k = Some s"
      using ok that by (simp add: session_ok_def)
    with that show ?thesis
      by (cases "k = ch") (auto simp: removeShell_def getShell_def untrackChannel_def AList.delete_eq)
  qed
  have rest: "fixed_part (removeShell ch session c) = fixed_part c"
    "auth_part (removeShell ch session c) = auth_part c"
    "cn_log (removeShell ch session c) = cn_log c"
    "distinct (map fst (cn_shells (removeShell ch session c)))"
    "set (cn_shells (removeShell ch session c)) \<subseteq> set (cn_shells c)"
    "distinct (cn_openChannels (removeShell ch session c))"
    "length (cn_openChannels (removeShell ch session c)) \<le> length (cn_openChannels c)"
    using ok by (auto simp: removeShell_def untrackChannel_def fixed_part_def policyOrDefault_def
        auth_part_def session_ok_def distinct_removeAll AList.delete_eq distinct_map_filter
        length_removeAll_less_eq)
  obtain es where es: "cn_log (shell_ended en ch session c) = cn_log c @ es"
      "list_all (\<lambda>e. \<not> device_effect e) es" "?byUs \<or> ShellClosed session False \<in> set es"
  proof (cases ?byUs)
    case True
    then show ?thesis using that [of "[]"] rest(3) by (simp add: end_eq)
  next
    case False
    obtain ws where "cn_log (fst (conn_write en (EncodeChannelClose ch) (removeShell ch session c)))
        = cn_log c @ ws" "list_all (\<lambda>e. \<not> device_effect e) ws"
      using quiet_write [OF quiet_refl] rest(3) by (metis quiet_def)
    with False show ?thesis
      using that [of "ws @ [ShellClosed session False]"] by (simp add: end_eq emit_def)
  qed
  have same: "fixed_part (shell_ended en ch session c) = fixed_part c"
    "auth_part (shell_ended en ch session c) = auth_part c"
    "cn_openChannels (shell_ended en ch session c) = cn_openChannels (removeShell ch session c)"
    "cn_shells (shell_ended en ch session c) = cn_shells (removeShell ch session c)"
    using rest by (simp_all add: end_eq conn_write_def) (simp_all add: emit_def)
  show ?thesis
  proof (rule session_ok_grow [OF ok, of _ es])
    show "(k, s) \<in> set (cn_shells (shell_ended en ch session c))
        \<or> (\<exists>b. ShellClosed s b \<in> set (cn_log (shell_ended en ch session c)))"
      if "(k, s) \<in> set (cn_shells c)" for k s
      using kept [OF that] es same by auto
    show "list_all (effect_ok pol prof) es"
      "list_all (shell_accounted (shell_ended en ch session c)) es"
      using es(2) quiet_effect_ok by (auto simp: list_all_iff)
  qed (use ok rest es accepted_auth_part [OF same(2)] in \<open>auto simp: same session_ok_def\<close>)
qed


definition life_ok :: "policy \<Rightarrow> Profile \<Rightarrow> int \<Rightarrow> daemonConnection \<times> bool \<Rightarrow> bool" where
  "life_ok pol prof limit st \<longleftrightarrow> session_ok pol prof limit (fst st)
     \<and> (\<not> snd st \<longrightarrow> cn_shells (fst st) = [])"

lemma removeShell_shells: "cn_shells c = [] \<Longrightarrow> cn_shells (removeShell ch session c) = []"
  by (simp add: removeShell_def untrackChannel_def)

lemma shells_ops [simp]:
  "cn_shells (emit e c) = cn_shells c"
  "cn_shells (fst (conn_write en p c)) = cn_shells c"
  "cn_shells (setCloseReason r c) = cn_shells c"
  by (simp_all add: emit_def conn_write_def setCloseReason_def)

lemma shell_ended_shells: "cn_shells c = [] \<Longrightarrow> cn_shells (shell_ended en ch session c) = []"
  by (simp add: shell_ended_def Let_def removeShell_shells)

lemma life_ok_step: "life_ok pol prof limit st \<Longrightarrow> life_ok pol prof limit (conn_step mx ev st)"
proof (cases st)
  case (Pair c running)
  assume "life_ok pol prof limit st"
  then have ok: "session_ok pol prof limit c" and ended: "\<not> running \<Longrightarrow> cn_shells c = []"
    by (simp_all add: Pair life_ok_def)
  show ?thesis
  proof (cases ev)
    case (FrameArrived en raw)
    have "session_ok pol prof limit (fst (serve en f c))" for f
      by (rule session_ok_serve [OF ok])
    then show ?thesis
      using ok ended
      by (simp add: FrameArrived Pair life_ok_def conn_ops case_prod_beta split: sum.split bool.split)
  qed (use ok ended in \<open>simp_all add: Pair life_ok_def conn_ops shell_output_def
      shell_ended_shells\<close>)
qed

interpretation connection: invariant_machine "conn_step mx" "life_ok pol prof limit"
  by unfold_locales (rule life_ok_step)

lemma life_ok_start:
  "life_ok (case cc_policyEngine cfg of Some p \<Rightarrow> p | None \<Rightarrow> defaultPolicy)
     (gr_PolicyProfile grant) (cc_maxChannels cfg) (handleConnection cfg grant cid ip, True)"
  by (simp add: life_ok_def session_ok_def handleConnection_def policyOrDefault_def)

lemmas life_ok_run = connection.run_inv [OF life_ok_start, folded conn_run_def]


section \<open>The trace behind an accepted handshake\<close>

text \<open>The \<open>i\<close>-th event is the arrival of the handshake \<open>h\<close> in the environment
  \<open>en\<close>: its bytes decode to a handshake frame, whose payload decodes to \<open>h\<close>.\<close>

definition handshake_at ::
  "int \<Rightarrow> conn_event list \<Rightarrow> nat \<Rightarrow> env \<Rightarrow> SessionHandshake \<Rightarrow> bool" where
  "handshake_at mx evs i en h \<longleftrightarrow> i < length evs
     \<and> (\<exists>raw f. evs ! i = FrameArrived en raw \<and> Decode mx raw = Inr f
          \<and> CommandFlag f = CommandKernelHandshake
          \<and> DecodeSessionHandshake (Payload f) = Inr h \<and> Banner h = ''OHOS HDC'')"

definition token_issued :: "int \<Rightarrow> conn_event list \<Rightarrow> nat \<Rightarrow> daemonConnection \<Rightarrow> bool" where
  "token_issued mx evs i c \<longleftrightarrow> (\<exists>en h. handshake_at mx evs i en h
     \<and> AuthType h = HandshakeAuthNone \<and> \<not> ClientVersionTooOld (Version h)
     \<and> en_token en = Some (cn_authToken c) \<and> cn_authType c = ParseClientAuthType (Buffer h))"

definition key_approved :: "int \<Rightarrow> conn_event list \<Rightarrow> nat \<Rightarrow> daemonConnection \<Rightarrow> bool" where
  "key_approved mx evs j c \<longleftrightarrow> (\<exists>en h. handshake_at mx evs j en h
     \<and> AuthType h = HandshakeAuthPublicKey
     \<and> en_parseIdentity en (Buffer h) = Inr (cn_authIdentity c)
     \<and> approved en (cn_authIdentity c) c)"

definition signature_verified :: "int \<Rightarrow> conn_event list \<Rightarrow> nat \<Rightarrow> daemonConnection \<Rightarrow> bool" where
  "signature_verified mx evs k c \<longleftrightarrow> (\<exists>en h. handshake_at mx evs k en h
     \<and> AuthType h = HandshakeAuthSignature
     \<and> cn_authToken c \<noteq> [] \<and> hi_PublicKey (cn_authIdentity c) \<noteq> []
     \<and> en_verify en (hi_PublicKey (cn_authIdentity c)) (cn_authToken c) (Buffer h) (cn_authType c))"

definition auth_trace :: "int \<Rightarrow> conn_event list \<Rightarrow> daemonConnection \<Rightarrow> bool" where
  "auth_trace mx evs c \<longleftrightarrow>
     (cn_handshakeAccepted c \<longleftrightarrow> cn_authPhase c = authPhaseDone)
     \<and> (case cn_authPhase c of
          authPhaseStart \<Rightarrow> True
        | authPhaseWaitPubkey \<Rightarrow> (\<exists>i. token_issued mx evs i c)
        | authPhaseWaitSignature \<Rightarrow>
            (\<exists>i j. i < j \<and> token_issued mx evs i c \<and> key_approved mx evs j c)
        | authPhaseDone \<Rightarrow> (\<exists>i j k. i < j \<and> j < k \<and> token_issued mx evs i c
            \<and> key_approved mx evs j c \<and> signature_verified mx evs k c))"

lemma handshake_at_append: "handshake_at mx evs i en h \<Longrightarrow> handshake_at mx (evs @ es) i en h"
  by (auto simp: handshake_at_def nth_append)

lemma handshake_at_last:
  assumes "Decode mx raw = Inr f" and "CommandFlag f = CommandKernelHandshake"
    and "DecodeSessionHandshake (Payload f) = Inr h" and "Banner h = ''OHOS HDC''"
  shows "handshake_at mx (evs @ [FrameArrived en raw]) (length evs) en h"
  using assms by (simp add: handshake_at_def)

lemma handshake_at_before: "handshake_at mx evs i en h \<Longrightarrow> i < length evs"
  by (simp add: handshake_at_def)

text \<open>What the three facts read of the connection.\<close>

lemma auth_facts_same:
  assumes "fixed_part c' = fixed_part c"
  shows "cn_authToken c' = cn_authToken c \<Longrightarrow> cn_authType c' = cn_authType c \<Longrightarrow>
      token_issued mx evs i c \<Longrightarrow> token_issued mx (evs @ es) i c'"
    and "cn_authIdentity c' = cn_authIdentity c \<Longrightarrow>
      key_approved mx evs i c \<Longrightarrow> key_approved mx (evs @ es) i c'"
    and "cn_authToken c' = cn_authToken c \<Longrightarrow> cn_authType c' = cn_authType c \<Longrightarrow>
      cn_authIdentity c' = cn_authIdentity c \<Longrightarrow>
      signature_verified mx evs i c \<Longrightarrow> signature_verified mx (evs @ es) i c'"
  using approved_eq [OF assms]
  by (simp_all add: token_issued_def key_approved_def signature_verified_def)
    (blast intro: handshake_at_append)+

lemma auth_facts_before:
  "token_issued mx evs i c \<Longrightarrow> i < length evs" "key_approved mx evs i c \<Longrightarrow> i < length evs"
  by (auto simp: token_issued_def key_approved_def dest: handshake_at_before)

lemma auth_trace_same:
  assumes "auth_trace mx evs c" and "auth_part c' = auth_part c" and "fixed_part c' = fixed_part c"
  shows "auth_trace mx (evs @ es) c'"
  using assms(1,2) auth_facts_same [OF assms(3), of mx evs _ es]
  by (cases "cn_authPhase c") (simp_all add: auth_trace_def auth_part_def, blast+)

lemma fixed_part_more [simp]:
  "fixed_part (untrackChannel ch c) = fixed_part c"
  "fixed_part (fst (admitChannel flag ch c)) = fixed_part c"
  "fixed_part (fst (appendShellInput ch chunk c)) = fixed_part c"
  "fixed_part (stopShell ch byUs c) = fixed_part c"
  "fixed_part (removeShell ch session c) = fixed_part c"
  "fixed_part (setCloseReason r c) = fixed_part c"
  by (simp_all add: untrackChannel_def admitChannel_def appendShellInput_def stopShell_def
      removeShell_def setCloseReason_def emit_def Let_def fixed_part_def policyOrDefault_def
      split: option.split)

lemma fixed_part_fold: "(\<And>x c. fixed_part (g x c) = fixed_part c) \<Longrightarrow> fixed_part (fold g xs c) = fixed_part c"
  by (induction xs arbitrary: c) simp_all

lemma fixed_part_teardown [simp]: "fixed_part (teardownChannel ch c) = fixed_part c"
  unfolding teardownChannel_def by (subst fixed_part_fold) simp_all

lemma fixed_part_reject [simp]: "fixed_part (fst (rejectChannel en ch m c)) = fixed_part c"
  by (simp add: rejectChannel_def)

lemma fixed_part_openShell [simp]: "fixed_part (fst (openShell en ch cmd c)) = fixed_part c"
proof -
  have "fixed_part (c\<lparr>cn_shells := x\<rparr>) = fixed_part c" for x
    by (simp add: fixed_part_def policyOrDefault_def)
  then show ?thesis
    by (simp add: openShell_def Let_def split: option.split)
qed

lemma fixed_part_guarded [simp]: "fixed_part (fst (guarded_input en f ok s input c)) = fixed_part c"
  by (simp add: guarded_input_def Let_def case_prod_beta split: option.split)

lemma fixed_part_handleShell [simp]: "fixed_part (fst (handleShell en f c)) = fixed_part c"
  by (simp add: handleShell_def Let_def split: option.split)

lemma auth_trace_handshake:
  assumes ok: "auth_trace mx evs c" and dec: "Decode mx raw = Inr f"
    and flag: "CommandFlag f = CommandKernelHandshake"
  shows "auth_trace mx (evs @ [FrameArrived en raw]) (fst (handleHandshake en f c))"
proof -
  obtain c' r where h: "handleHandshake en f c = (c', r)"
    by (cases "handleHandshake en f c")
  note at = handshake_at_last [OF dec flag, of _ evs en]
  from h have "auth_trace mx (evs @ [FrameArrived en raw]) c'"
  proof (cases rule: handleHandshake_cases)
    case quiet
    then show ?thesis using auth_trace_same [OF ok] by (simp add: quiet_def)
  next
    case (none h t)
    then have "token_issued mx (evs @ [FrameArrived en raw]) (length evs) c'"
      using at [OF none(1,2)] by (auto simp: token_issued_def auth_part_def)
    with none ok show ?thesis by (auto simp: auth_trace_def auth_part_def)
  next
    case (key h p i)
    then have fixed: "fixed_part c' = fixed_part c" by (simp add: quiet_def)
    obtain k where "token_issued mx evs k c"
      using ok key(5) by (auto simp: auth_trace_def)
    then have k: "token_issued mx (evs @ [FrameArrived en raw]) k c'" "k < length evs"
      using auth_facts_same(1) [OF fixed] auth_facts_before key(8) by (auto simp: auth_part_def)
    have "key_approved mx (evs @ [FrameArrived en raw]) (length evs) c'"
      if "p = authPhaseWaitSignature"
      using that key at [OF key(1,2)] approved_eq [OF fixed]
      by (auto simp: key_approved_def auth_part_def)
    with k have both: "p = authPhaseWaitSignature \<Longrightarrow> \<exists>i j. i < j
        \<and> token_issued mx (evs @ [FrameArrived en raw]) i c'
        \<and> key_approved mx (evs @ [FrameArrived en raw]) j c'"
      by blast
    have c': "cn_authPhase c' = p" "cn_handshakeAccepted c' = cn_handshakeAccepted c"
      using key(8) by (simp_all add: auth_part_def)
    have "\<not> cn_handshakeAccepted c" using ok key(5) by (simp add: auth_trace_def)
    with k(1) both key(7) show ?thesis by (auto simp: auth_trace_def c')
  next
    case (signature h es)
    note fixed = signature(9)
    obtain i j where "i < j" "token_issued mx evs i c" "key_approved mx evs j c"
      using ok signature(4) by (auto simp: auth_trace_def)
    then have ij: "i < j" "token_issued mx (evs @ [FrameArrived en raw]) i c'"
        "key_approved mx (evs @ [FrameArrived en raw]) j c'" "j < length evs"
      using auth_facts_same(1,2) [OF fixed] auth_facts_before signature(8)
      by (auto simp: auth_part_def)
    have "signature_verified mx (evs @ [FrameArrived en raw]) (length evs) c'"
      using signature at [OF signature(1,2)] by (auto simp: signature_verified_def auth_part_def)
    with ij signature(8) show ?thesis by (auto simp: auth_trace_def auth_part_def)
  qed
  with h show ?thesis by simp
qed


lemma kernel_family: "CommandFamily CommandKernelHandshake = FamilyKernel"
  by code_simp

text \<open>A frame that is not a handshake leaves the authentication alone.\<close>

lemma auth_trace_dispatch:
  assumes ok: "auth_trace mx evs c" and dec: "Decode mx raw = Inr f"
  shows "auth_trace mx (evs @ [FrameArrived en raw]) (fst (dispatch en f c))"
proof (cases "CommandFamily (CommandFlag f) = FamilyKernel \<and> CommandFlag f = CommandKernelHandshake")
  case True
  then show ?thesis
    using auth_trace_handshake [OF ok dec] kernel_family
    by (simp add: dispatch_def Let_def handleKernel_def)
next
  case False
  then have "auth_part (fst (dispatch en f c)) = auth_part c"
    "fixed_part (fst (dispatch en f c)) = fixed_part c"
    by (simp_all add: dispatch_def Let_def handleKernel_def)
  then show ?thesis by (rule auth_trace_same [OF ok])
qed

lemma auth_trace_route:
  assumes ok: "auth_trace mx evs c" and dec: "Decode mx raw = Inr f"
  shows "auth_trace mx (evs @ [FrameArrived en raw]) (fst (route en f c))"
proof -
  have rest: "auth_trace mx (evs @ es) c'"
    if "auth_part c' = auth_part c" "fixed_part c' = fixed_part c" for c' es
    using auth_trace_same [OF ok that] .
  obtain c1 b where adm: "admitChannel (CommandFlag f) (ChannelID f) c = (c1, b)"
    by (cases "admitChannel (CommandFlag f) (ChannelID f) c")
  then have "c1 = fst (admitChannel (CommandFlag f) (ChannelID f) c)" by simp
  then have c1: "auth_part c1 = auth_part c" "fixed_part c1 = fixed_part c" by simp_all
  have "auth_trace mx evs c'" if "auth_part c' = auth_part c" "fixed_part c' = fixed_part c" for c'
    using rest [OF that, of "[]"] by simp
  then show ?thesis
    by (simp add: route_def Let_def adm rest c1 auth_trace_dispatch [OF _ dec] split: bool.split)
qed

lemma auth_trace_serve:
  assumes "auth_trace mx evs c" and "Decode mx raw = Inr f"
  shows "auth_trace mx (evs @ [FrameArrived en raw]) (fst (serve en f c))"
  using auth_trace_route [OF assms, of en] auth_trace_same [of mx _ _ _ "[]"]
  by (simp add: serve_def case_prod_beta split: option.split route_error.split)

lemma conn_close_same [simp]:
  "auth_part (conn_close c) = auth_part c" "fixed_part (conn_close c) = fixed_part c"
proof -
  have fields: "auth_part (c\<lparr>cn_shells := x, cn_log := y\<rparr>) = auth_part c"
    "fixed_part (c\<lparr>cn_shells := x, cn_log := y\<rparr>) = fixed_part c" for c x y
    by (simp_all add: auth_part_def fixed_part_def policyOrDefault_def)
  show "auth_part (conn_close c) = auth_part c" "fixed_part (conn_close c) = fixed_part c"
    by (simp_all add: conn_close_def Let_def fold_emit_log fields auth_part_fold fixed_part_fold)
qed

lemma auth_part_removeShell [simp]: "auth_part (removeShell ch session c) = auth_part c"
  by (simp add: removeShell_def)

lemma auth_trace_step:
  assumes ok: "auth_trace mx evs (fst st)"
  shows "auth_trace mx (evs @ [ev]) (fst (conn_step mx ev st))"
proof (cases st)
  case (Pair c running)
  have rest: "auth_trace mx (evs @ [ev]) c'"
    if "auth_part c' = auth_part c" "fixed_part c' = fixed_part c" for c'
    using auth_trace_same [OF _ that] ok by (simp add: Pair)
  show ?thesis
  proof (cases ev)
    case (FrameArrived en raw)
    have served: "auth_trace mx (evs @ [ev]) (fst (serve en f c))" if "Decode mx raw = Inr f" for f
      using auth_trace_serve [OF _ that] ok by (simp add: Pair FrameArrived)
    have "auth_trace mx (evs @ [ev]) (conn_close (fst (serve en f c)))" if "Decode mx raw = Inr f" for f
      using auth_trace_same [OF served [OF that], of _ "[]"] by simp
    with served rest show ?thesis
      by (simp add: FrameArrived Pair case_prod_beta split: sum.split bool.split)
  qed (use rest in \<open>simp_all add: Pair shell_output_def shell_ended_def Let_def\<close>)
qed

lemma auth_trace_fold:
  "auth_trace mx evs0 (fst st) \<Longrightarrow> auth_trace mx (evs0 @ evs) (fst (fold (conn_step mx) evs st))"
proof (induction evs arbitrary: evs0 st)
  case (Cons ev evs)
  from Cons.IH [OF auth_trace_step [OF Cons.prems, of ev]] show ?case by simp
qed simp

lemma auth_trace_run: "auth_trace mx evs (fst (conn_run mx evs (handleConnection cfg grant cid ip)))"
  using auth_trace_fold [of mx "[]" "(handleConnection cfg grant cid ip, True)" evs]
  by (simp add: conn_run_def auth_trace_def handleConnection_def)

lemma fixed_part_handshake [simp]: "fixed_part (fst (handleHandshake en f c)) = fixed_part c"
proof -
  obtain c' r where h: "handleHandshake en f c = (c', r)"
    by (cases "handleHandshake en f c")
  from h have "fixed_part c' = fixed_part c"
    by (cases rule: handleHandshake_cases) (simp_all add: quiet_def)
  with h show ?thesis by simp
qed

lemma fixed_part_dispatch [simp]: "fixed_part (fst (dispatch en f c)) = fixed_part c"
  by (simp add: dispatch_def Let_def handleKernel_def)

lemma fixed_part_serve [simp]: "fixed_part (fst (serve en f c)) = fixed_part c"
proof -
  obtain c1 b where adm: "admitChannel (CommandFlag f) (ChannelID f) c = (c1, b)"
    by (cases "admitChannel (CommandFlag f) (ChannelID f) c")
  then have "c1 = fst (admitChannel (CommandFlag f) (ChannelID f) c)" by simp
  then have "fixed_part c1 = fixed_part c" by simp
  then have "fixed_part (fst (route en f c)) = fixed_part c"
    by (simp add: route_def Let_def adm split: bool.split)
  then show ?thesis
    by (simp add: serve_def case_prod_beta split: option.split route_error.split)
qed

lemma fixed_part_step: "fixed_part (fst (conn_step mx ev st)) = fixed_part (fst st)"
proof (cases st)
  case (Pair c running)
  show ?thesis
    by (cases ev) (simp_all add: Pair case_prod_beta shell_output_def shell_ended_def Let_def
        split: sum.split bool.split)
qed

lemma fixed_part_run: "fixed_part (fst (conn_run mx evs c)) = fixed_part c"
proof -
  have "fixed_part (fst (fold (conn_step mx) evs st)) = fixed_part (fst st)" for st
    by (induction evs arbitrary: st) (simp_all add: fixed_part_step)
  then show ?thesis by (simp add: conn_run_def)
qed

section \<open>Properties\<close>

text \<open>C1: Before the handshake is accepted nothing reaches the device. Whatever frames, shell events
  and failures a new connection sees, as long as no signature has been accepted no shell is
  open and the log holds no command given to a bridge, no shell opened or written, and no live
  session.\<close>

theorem nothing_before_authentication:
  assumes "conn_run mx evs (handleConnection cfg grant cid ip) = (c, running)"
    and "\<not> cn_handshakeAccepted c"
  shows "cn_shells c = [] \<and> (\<forall>e \<in> set (cn_log c). \<not> device_effect e)"
  using life_ok_run [of cfg grant mx evs cid ip] assms
  by (simp add: life_ok_def session_ok_def list_all_iff)

text \<open>C2: An accepted handshake is backed by three arrived frames, in this order. The bytes of
  each decode to a handshake frame with the protocol's banner. The first is a start handshake of
  a client that is not too old: its answer issued the challenge token the connection holds, and
  its buffer chose the connection's signature scheme. The second is a public key handshake: its
  buffer parses to the identity the connection holds, and that identity was approved when it
  arrived (host authentication is off, or the host was trusted, or the operator allowed it). The
  third is a signature handshake: its buffer verifies against that identity's key, that token
  and that scheme, and neither key nor token is empty.\<close>

theorem acceptance_needs_signature_and_approval:
  assumes "conn_run mx evs (handleConnection cfg grant cid ip) = (c, running)"
    and "cn_handshakeAccepted c"
  shows "\<exists>i j k en0 en1 en2 h0 h1 h2. i < j \<and> j < k
    \<and> handshake_at mx evs i en0 h0 \<and> handshake_at mx evs j en1 h1 \<and> handshake_at mx evs k en2 h2
    \<and> AuthType h0 = HandshakeAuthNone \<and> \<not> ClientVersionTooOld (Version h0)
    \<and> en_token en0 = Some (cn_authToken c) \<and> cn_authType c = ParseClientAuthType (Buffer h0)
    \<and> AuthType h1 = HandshakeAuthPublicKey
    \<and> en_parseIdentity en1 (Buffer h1) = Inr (cn_authIdentity c)
    \<and> (cc_hostAuthOff cfg \<or> en_trusted en1 (hi_Fingerprint (cn_authIdentity c))
       \<or> en_submit en1 (auth_request (cn_authIdentity c) c)
           \<in> {Inr DecisionAllowOnce, Inr DecisionAllowForever})
    \<and> AuthType h2 = HandshakeAuthSignature
    \<and> cn_authToken c \<noteq> [] \<and> hi_PublicKey (cn_authIdentity c) \<noteq> []
    \<and> en_verify en2 (hi_PublicKey (cn_authIdentity c)) (cn_authToken c) (Buffer h2) (cn_authType c)"
proof -
  have off: "cn_hostAuthOff c = cc_hostAuthOff cfg"
    using fixed_part_run [of mx evs "handleConnection cfg grant cid ip"] assms(1)
    by (simp add: fixed_part_def handleConnection_def)
  have "auth_trace mx evs c"
    using auth_trace_run [of mx evs cfg grant cid ip] assms(1) by simp
  with assms(2) obtain i j k where "i < j" "j < k" "token_issued mx evs i c"
      "key_approved mx evs j c" "signature_verified mx evs k c"
    by (auto simp: auth_trace_def)
  then show ?thesis
    unfolding token_issued_def key_approved_def signature_verified_def approved_def off by blast
qed

text \<open>C19: Channels and shells are accounted for. At every moment the open channels are distinct and
  within the configured limit, every shell that was opened is either still a shell of the
  connection or has been closed, and when the loop has ended none is left open.\<close>

theorem channels_and_shells_accounted:
  assumes "conn_run mx evs (handleConnection cfg grant cid ip) = (c, running)"
  shows "distinct (cn_openChannels c)
    \<and> (0 < cc_maxChannels cfg \<longrightarrow> int (length (cn_openChannels c)) \<le> cc_maxChannels cfg)
    \<and> (\<forall>ch session command sent. ShellOpened ch session command sent \<in> set (cn_log c) \<longrightarrow>
         getShell ch c = Some session \<and> running \<or> (\<exists>byUs. ShellClosed session byUs \<in> set (cn_log c)))"
proof -
  have life: "life_ok (case cc_policyEngine cfg of Some p \<Rightarrow> p | None \<Rightarrow> defaultPolicy)
      (gr_PolicyProfile grant) (cc_maxChannels cfg) (c, running)"
    using life_ok_run [of cfg grant mx evs cid ip] assms by simp
  then have "shell_accounted c (ShellOpened ch session command sent)"
    if "ShellOpened ch session command sent \<in> set (cn_log c)" for ch session command sent
    using that by (auto simp: life_ok_def session_ok_def list_all_iff)
  with life show ?thesis
    by (fastforce simp: life_ok_def session_ok_def shell_accounted_def getShell_def)
qed


section \<open>Split input and refused input\<close>

text \<open>The line a shell is still reading, and the texts that are inspected when input arrives in
  chunks.\<close>

definition pending_line :: "string \<Rightarrow> string" where
  "pending_line s = rev (takeWhile (\<lambda>x. x \<noteq> CHR 0x0D \<and> x \<noteq> CHR 0x0A) (rev s))"

lemma pending_line_code: "after_last_any s newline_chars = pending_line s"
  by (simp add: after_last_any_def pending_line_def newline_chars_def)

lemma pending_line_append: "pending_line (pending_line a @ b) = pending_line (a @ b)"
proof -
  have "takeWhile P (rev b @ takeWhile P xs) = takeWhile P (rev b @ xs)" for P and xs :: string
    by (induction b arbitrary: xs rule: rev_induct) (simp_all add: takeWhile_append takeWhile_takeWhile)
  then show ?thesis
    by (simp add: pending_line_def)
qed

fun feed_input :: "u32 \<Rightarrow> bytes list \<Rightarrow> daemonConnection \<Rightarrow> daemonConnection \<times> string option list" where
  "feed_input ch [] c = (c, [])"
| "feed_input ch (chunk # chunks) c =
     (case appendShellInput ch chunk c of
        (c, text) \<Rightarrow> (case feed_input ch chunks c of (c, texts) \<Rightarrow> (c, text # texts)))"

lemma shell_buffer_append:
  assumes "shell_buffer ch c = pending_line sent"
    and "length (pending_line sent) \<le> 4096"
    and "length (pending_line (sent @ string_of chunk)) \<le> 4096" and "length chunk \<le> 200000"
  shows "\<exists>c'. appendShellInput ch chunk c = (c', Some (pending_line sent @ string_of chunk))
    \<and> shell_buffer ch c' = pending_line (sent @ string_of chunk)"
proof -
  have "after_last_any (pending_line sent @ string_of chunk) newline_chars
      = pending_line (sent @ string_of chunk)"
    using pending_line_append by (simp add: pending_line_code)
  with assms show ?thesis
    by (simp add: appendShellInput_def Let_def) (simp add: shell_buffer_def)
qed

lemma feed_input_texts:
  assumes "shell_buffer ch c = pending_line sent" and "length (pending_line sent) \<le> 4096"
    and "\<forall>i < length chunks. length (chunks ! i) \<le> 200000
      \<and> length (pending_line (sent @ string_of (concat (take (Suc i) chunks)))) \<le> 4096"
  shows "snd (feed_input ch chunks c)
    = map (\<lambda>i. Some (pending_line (sent @ string_of (concat (take i chunks))) @ string_of (chunks ! i)))
        [0..<length chunks]"
  using assms
proof (induction chunks arbitrary: c sent)
  case (Cons chunk chunks)
  from Cons.prems(3) have "length chunk \<le> 200000"
    "length (pending_line (sent @ string_of chunk)) \<le> 4096"
    by (auto dest: spec [of _ 0])
  with Cons.prems(1,2) obtain c' where c': "appendShellInput ch chunk c = (c', Some (pending_line sent @ string_of chunk))"
    "shell_buffer ch c' = pending_line (sent @ string_of chunk)"
    using shell_buffer_append by blast
  have "snd (feed_input ch chunks c')
      = map (\<lambda>i. Some (pending_line ((sent @ string_of chunk) @ string_of (concat (take i chunks)))
          @ string_of (chunks ! i))) [0..<length chunks]"
  proof (rule Cons.IH)
    show "\<forall>i < length chunks. length (chunks ! i) \<le> 200000
      \<and> length (pending_line ((sent @ string_of chunk) @ string_of (concat (take (Suc i) chunks)))) \<le> 4096"
      using Cons.prems(3) by (auto dest: spec [of _ "Suc _"])
  qed (use c' \<open>length (pending_line (sent @ string_of chunk)) \<le> 4096\<close> in simp_all)
  then show ?case
    using Cons.prems(1) by (simp add: c' case_prod_beta upt_conv_Cons map_Suc_upt [symmetric] comp_def del: upt_Suc)
qed simp


text \<open>Input split over frames is inspected as a whole. However a client cuts its input into
  chunks, as long as a line is at most 4096 bytes (and a chunk at most 200000), the text
  inspected when a chunk arrives is the whole unfinished line sent so far followed by the
  chunk.\<close>

theorem split_input_inspected:
  assumes "map_of (cn_shellInput c) ch = None"
    and "\<forall>i < length chunks. length (chunks ! i) \<le> 200000
      \<and> length (pending_line (string_of (concat (take (Suc i) chunks)))) \<le> 4096"
  shows "snd (feed_input ch chunks c)
    = map (\<lambda>i. Some (pending_line (string_of (concat (take i chunks))) @ string_of (chunks ! i)))
        [0..<length chunks]"
  using feed_input_texts [of ch c "[]" chunks] assms
  by (simp add: shell_buffer_def pending_line_def)

lemma fold_bridge_log:
  "\<exists>es. fold (\<lambda>family c. if family \<in> set (cn_bridges c) then emit (g family) c else c) fs c
     = c\<lparr>cn_log := cn_log c @ es\<rparr> \<and> set es \<subseteq> range g"
proof (induction fs arbitrary: c)
  case Nil
  show ?case by (rule exI [of _ "[]"]) simp
next
  case (Cons f fs)
  let ?e = "if f \<in> set (cn_bridges c) then [g f] else []"
  from Cons [of "c\<lparr>cn_log := cn_log c @ ?e\<rparr>"] obtain es where
    "fold (\<lambda>family c. if family \<in> set (cn_bridges c) then emit (g family) c else c) fs
       (c\<lparr>cn_log := cn_log c @ ?e\<rparr>) = c\<lparr>cn_log := cn_log c @ ?e @ es\<rparr>" "set es \<subseteq> range g"
    by auto
  then show ?case
    by (intro exI [of _ "?e @ es"]) (auto simp: emit_def)
qed

lemma teardown_fields:
  "\<exists>es. cn_log (teardownChannel ch c) = cn_log c @ es \<and> (\<forall>e \<in> set es. \<not> device_effect e)
     \<and> (\<forall>s. getShell ch c = Some s \<longrightarrow> ShellClosed s True \<in> set es)"
  "cn_shells (teardownChannel ch c) = AList.delete ch (cn_shells c)"
  "cn_openChannels (teardownChannel ch c) = removeAll ch (cn_openChannels c)"
  "cn_shellInput (teardownChannel ch c) = AList.delete ch (cn_shellInput c)"
proof -
  let ?c = "stopShell ch True (untrackChannel ch c)"
  obtain es where es: "teardownChannel ch c = ?c\<lparr>cn_log := cn_log ?c @ es\<rparr>"
      "set es \<subseteq> range (\<lambda>family. BridgeChannelClosed family ch)"
    using fold_bridge_log [of "\<lambda>family. BridgeChannelClosed family ch" bridge_families ?c]
    unfolding teardownChannel_def by blast
  have log: "cn_log ?c = cn_log c @ (case getShell ch c of None \<Rightarrow> [] | Some s \<Rightarrow> [ShellClosed s True])"
    by (simp add: stopShell_def untrackChannel_def getShell_def Let_def emit_def split: option.split)
  show "\<exists>es. cn_log (teardownChannel ch c) = cn_log c @ es \<and> (\<forall>e \<in> set es. \<not> device_effect e)
     \<and> (\<forall>s. getShell ch c = Some s \<longrightarrow> ShellClosed s True \<in> set es)"
    by (rule exI [of _ "(case getShell ch c of None \<Rightarrow> [] | Some s \<Rightarrow> [ShellClosed s True]) @ es"])
      (use es log in \<open>auto split: option.split\<close>)
  show "cn_shells (teardownChannel ch c) = AList.delete ch (cn_shells c)"
    "cn_openChannels (teardownChannel ch c) = removeAll ch (cn_openChannels c)"
    "cn_shellInput (teardownChannel ch c) = AList.delete ch (cn_shellInput c)"
    by (simp_all add: es stopShell_def untrackChannel_def getShell_def Let_def emit_def split: option.split)
qed

lemma reject_fields:
  "\<exists>es. cn_log (fst (rejectChannel en ch m c)) = cn_log c @ es \<and> (\<forall>e \<in> set es. \<not> device_effect e)
     \<and> (\<forall>s. getShell ch c = Some s \<longrightarrow> ShellClosed s True \<in> set es)"
  "getShell ch (fst (rejectChannel en ch m c)) = None"
  "ch \<notin> set (cn_openChannels (fst (rejectChannel en ch m c)))"
  "map_of (cn_shellInput (fst (rejectChannel en ch m c))) ch = None"
proof -
  obtain es where es: "cn_log (teardownChannel ch c) = cn_log c @ es"
      "\<forall>e \<in> set es. \<not> device_effect e" "\<forall>s. getShell ch c = Some s \<longrightarrow> ShellClosed s True \<in> set es"
    using teardown_fields(1) by blast
  define w where "w = fst (rejectChannel en ch m c)"
  have "\<exists>ws. cn_log w = cn_log c @ es @ ws \<and> (\<forall>e \<in> set ws. \<not> device_effect e)"
    by (simp add: w_def rejectChannel_def conn_write_def emit_def es(1))
  then obtain ws where "cn_log w = cn_log c @ es @ ws" "\<forall>e \<in> set ws. \<not> device_effect e" by blast
  with es show "\<exists>es. cn_log (fst (rejectChannel en ch m c)) = cn_log c @ es
     \<and> (\<forall>e \<in> set es. \<not> device_effect e) \<and> (\<forall>s. getShell ch c = Some s \<longrightarrow> ShellClosed s True \<in> set es)"
    by (intro exI [of _ "es @ ws"]) (auto simp: w_def)
  show "getShell ch (fst (rejectChannel en ch m c)) = None"
    "ch \<notin> set (cn_openChannels (fst (rejectChannel en ch m c)))"
    "map_of (cn_shellInput (fst (rejectChannel en ch m c))) ch = None"
    by (simp_all add: rejectChannel_def conn_write_def getShell_def teardown_fields(2-4) emit_def)
qed

text \<open>C20: Shell input that the policy refuses never reaches the device and ends the session it was
  meant for: the channel's slot, its shell and its input buffer are gone, the shell has been
  closed, and nothing was written to a shell or a bridge.\<close>

theorem refused_input_ends_session:
  assumes "CommandFlag frame = CommandShellData" and "getShell (ChannelID frame) c = Some session"
    and "\<not> Allowed (InspectShell (policyOrDefault c) (cn_policyProfile c)
            (shell_buffer (ChannelID frame) c @ string_of (Payload frame)))"
    and "handleShell en frame c = (c', r)"
  shows "(\<exists>es. cn_log c' = cn_log c @ es \<and> ShellClosed session True \<in> set es
            \<and> (\<forall>e \<in> set es. \<not> device_effect e))
    \<and> getShell (ChannelID frame) c' = None \<and> ChannelID frame \<notin> set (cn_openChannels c')
    \<and> map_of (cn_shellInput c') (ChannelID frame) = None"
proof -
  obtain c1 t where app: "appendShellInput (ChannelID frame) (Payload frame) c = (c1, t)"
    by (cases "appendShellInput (ChannelID frame) (Payload frame) c")
  have c1: "cn_log c1 = cn_log c" "cn_shells c1 = cn_shells c" "policyOrDefault c1 = policyOrDefault c"
    "cn_policyProfile c1 = cn_policyProfile c"
    using app by (auto simp: appendShellInput_def Let_def policyOrDefault_def split: if_splits)
  have "\<exists>m d r'. c' = fst (rejectChannel en (ChannelID frame) m (audit en frame d r' c1))"
  proof (cases t)
    case None
    with assms app show ?thesis
      by (auto simp: handleShell_def guarded_input_def intro!: exI dest!: arg_cong [of _ "(c', r)" fst])
  next
    case (Some g)
    then have "g = shell_buffer (ChannelID frame) c @ string_of (Payload frame)"
      using app appendShellInput_text by blast
    with assms app Some c1 show ?thesis
      by (auto simp: handleShell_def guarded_input_def Let_def intro!: exI
          dest!: arg_cong [of _ "(c', r)" fst])
  qed
  then obtain m d r' where c': "c' = fst (rejectChannel en (ChannelID frame) m (audit en frame d r' c1))"
    by blast
  have log: "\<exists>es. cn_log (audit en frame d r' c1) = cn_log c @ es \<and> (\<forall>e \<in> set es. \<not> device_effect e)"
    by (simp add: audit_def emit_def c1)
  have "getShell (ChannelID frame) (audit en frame d r' c1) = Some session"
    using assms(2) by (simp add: getShell_def audit_def emit_def c1)
  with log reject_fields [where en = en and ch = "ChannelID frame" and m = m and c = "audit en frame d r' c1"] show ?thesis
    unfolding c' by (metis Un_iff append.assoc set_append)
qed

section \<open>What a shell has been sent\<close>





fun shell_effect :: "effect \<Rightarrow> bool" where
  "shell_effect (ShellOpened _ _ _ _) = True"
| "shell_effect (ShellWrote _ _ _) = True"
| "shell_effect _ = False"











text \<open>\<open>calm_log l l'\<close>: \<open>l'\<close> goes on from \<open>l\<close> without shell events.
  \<open>calm c c'\<close>: \<open>c'\<close> has the shells and buffers of \<open>c\<close>, and a calm log.
  \<open>forgets ch c c'\<close>: the same, but for the channel \<open>ch\<close>, whose shell and buffer
  are gone.\<close>

definition calm_log :: "effect list \<Rightarrow> effect list \<Rightarrow> bool" where
  "calm_log l l' \<longleftrightarrow> (\<exists>es. l' = l @ es \<and> list_all (\<lambda>e. \<not> shell_effect e) es)"



lemma calm_log_ops [simp]:
  "calm_log l l" "calm_log l (l @ [e]) = (\<not> shell_effect e)"
  by (auto simp: calm_log_def)



































text \<open>A one-shot command that the policy refuses is answered with a channel close, but its
  channel keeps its slot: the answer goes out without \<open>teardownChannel\<close>. A client that does
  not echo the close uses up its slots with refused commands.\<close>

theorem refused_oneshot_keeps_slot:
  assumes "cn_handshakeAccepted c" and "CommandFlag frame = CommandUnityExecute"
    and "Allowed (InspectFrame (policyOrDefault c) CommandUnityExecute)"
    and "getShell (ChannelID frame) c = None" and "ChannelID frame \<notin> set (cn_openChannels c)"
    and "int (length (cn_openChannels c)) < cn_maxChannels c"
    and "\<not> Allowed (InspectShell (policyOrDefault c) (cn_policyProfile c) (ExtractShellCommand frame))"
  shows "ChannelID frame \<in> set (cn_openChannels (fst (route en frame c)))
    \<and> length (cn_openChannels (fst (route en frame c))) = Suc (length (cn_openChannels c))
    \<and> cn_shells (fst (route en frame c)) = cn_shells c"
proof -
  define c1 where "c1 = c\<lparr>cn_openChannels := ChannelID frame # cn_openChannels c\<rparr>"
  have adm: "admitChannel (CommandFlag frame) (ChannelID frame) c = (c1, True)"
    using assms by (simp add: admitChannel_def c1_def)
  have fam: "CommandFamily CommandUnityExecute = FamilyShell" by code_simp
  have "\<not> auditableCommand CommandUnityExecute" by code_simp
  then have "route en frame c = handleShell en frame c1"
    using assms fam by (simp add: route_def dispatch_def Let_def adm [unfolded assms(2)])
  also have "\<dots> = conn_write en (EncodeEchoAndClose (ChannelID frame) (Reason (InspectShell (policyOrDefault c)
      (cn_policyProfile c) (ExtractShellCommand frame))))
      (audit en frame AuditRejected (Rule (InspectShell (policyOrDefault c) (cn_policyProfile c)
        (ExtractShellCommand frame))) c1)"
    using assms by (simp add: handleShell_def Let_def c1_def getShell_def policyOrDefault_def)
  finally show ?thesis
    by (simp add: c1_def conn_write_def audit_def emit_def)
qed


section \<open>Witnesses\<close>

text \<open>A client that authenticates, with the operator's consent, runs \<open>ls\<close>, and then sends a
  refused input to the shell.\<close>

definition demo_env :: env where
  "demo_env = \<lparr>en_now = 0, en_writeOK = (\<lambda>_ _. True), en_trusted = (\<lambda>_. False),
     en_token = Some ''c0ffee'',
     en_parseIdentity = (\<lambda>_. Inr \<lparr>hi_Hostname = ''pc'', hi_PublicKey = ''key'', hi_Fingerprint = ''fp''\<rparr>),
     en_verify = (\<lambda>_ _ _ _. True), en_submit = (\<lambda>_. Inr DecisionAllowOnce),
     en_bridge = (\<lambda>_ _. None), en_resolve = (\<lambda>_. Some ''serial''),
     en_openTarget = (\<lambda>_ _. Some 7), en_shellWriteOK = True\<rparr>"

definition demo_cfg :: connection_config where
  "demo_cfg = \<lparr>cc_hasRecorder = True, cc_hasHosts = True, cc_hostAuthOff = False, cc_maxChannels = 4,
     cc_policyEngine = None, cc_fileBridgeOK = True\<rparr>"

definition demo_grant :: Grant where
  "demo_grant = \<lparr>gr_LeaseID = ''l'', gr_Binding = \<lparr>bd_ID = ''b'', bd_DeviceID = ''host::serial'',
       bd_PublicHost = ''h'', bd_Port = 10000, bd_Status = BindingListening, bd_CreatedAt = 0,
       bd_UpdatedAt = 0\<rparr>, gr_DeviceID = ''host::serial'', gr_OwnerID = ''o'',
     gr_AllowedSourcePrefixes = [], gr_MaxConnections = 2, gr_ExpiresAt = 100,
     gr_PolicyProfile = ProfileStudioDebug\<rparr>"

definition demo_handshake :: "byte \<Rightarrow> SessionHandshake" where
  "demo_handshake kind = \<lparr>Banner = ''OHOS HDC'', AuthType = kind, SessionID = 7, ConnectKey = [],
     Buffer = [], Version = ''Ver: 3.2.0c''\<rparr>"

definition demo_hello :: "byte \<Rightarrow> bytes" where
  "demo_hello kind = EncodeFrame 1 CommandKernelHandshake (encodeSessionHandshake (demo_handshake kind))"

definition demo_login :: "conn_event list" where
  "demo_login = map (\<lambda>kind. FrameArrived demo_env (demo_hello kind))
     [HandshakeAuthNone, HandshakeAuthPublicKey, HandshakeAuthSignature]"

definition demo_command :: bytes where
  "demo_command = EncodeFrame 2 CommandUnityExecute (bytes_of ''ls'')"

lemma demo_env_fields [simp]:
  "en_token demo_env = Some ''c0ffee''" "en_verify demo_env k t sg ty" "\<not> en_trusted demo_env fp"
  "en_parseIdentity demo_env b = Inr \<lparr>hi_Hostname = ''pc'', hi_PublicKey = ''key'', hi_Fingerprint = ''fp''\<rparr>"
  "en_submit demo_env q = Inr DecisionAllowOnce"
  by (simp_all add: demo_env_def)

lemma demo_write [simp]:
  "conn_write demo_env p c = (if p = [] then c else emit (Wrote p) c, None)"
  by (simp add: conn_write_def demo_env_def)

lemma demo_sizes:
  "list_all (\<lambda>kind. length (encodeSessionHandshake (demo_handshake kind)) < 1000
     \<and> length (demo_hello kind) < 1000) [HandshakeAuthNone, HandshakeAuthPublicKey, HandshakeAuthSignature]"
  "length demo_command < 1000"
  by code_simp+

lemma demo_frame_policy:
  "\<not> cn_handshakeAccepted c \<Longrightarrow> cn_policyEngine c = None \<Longrightarrow> CommandFlag f = CommandKernelHandshake \<Longrightarrow>
   route en f c = handleHandshake en f c"
proof -
  have "Allowed (InspectFrame defaultPolicy CommandKernelHandshake)"
    "\<not> auditableCommand CommandKernelHandshake" by code_simp+
  then show "\<not> cn_handshakeAccepted c \<Longrightarrow> cn_policyEngine c = None \<Longrightarrow>
      CommandFlag f = CommandKernelHandshake \<Longrightarrow> route en f c = handleHandshake en f c"
    using kernel_family
    by (simp add: route_def policyOrDefault_def allowedBeforeHandshake_def admitChannel_def
        dispatch_def handleKernel_def)
qed

definition demo_frame :: "byte \<Rightarrow> Frame" where
  "demo_frame kind = \<lparr>ChannelID = 1, CommandFlag = CommandKernelHandshake,
     CommandName = commandName CommandKernelHandshake, CheckSum = 0, VCode = DaemonVCode,
     Payload = encodeSessionHandshake (demo_handshake kind)\<rparr>"

lemma demo_step:
  assumes kind: "kind \<in> {HandshakeAuthNone, HandshakeAuthPublicKey, HandshakeAuthSignature}"
    and c: "\<not> cn_handshakeAccepted c" "cn_policyEngine c = None"
    and ok: "snd (handleHandshake demo_env (demo_frame kind) c) = None"
  shows "conn_step 65536 (FrameArrived demo_env (demo_hello kind)) (c, True)
    = (fst (handleHandshake demo_env (demo_frame kind) c), True)"
proof -
  have "Decode 65536 (demo_hello kind) = Inr (demo_frame kind)"
    unfolding demo_hello_def demo_frame_def
    by (rule Decode_encode) (use kind demo_sizes(1) in \<open>auto simp: demo_hello_def\<close>)
  moreover have "route demo_env (demo_frame kind) c = handleHandshake demo_env (demo_frame kind) c"
    by (rule demo_frame_policy) (simp_all add: c demo_frame_def)
  ultimately show ?thesis
    using ok by (simp add: serve_def case_prod_beta)
qed

lemma demo_dispatch:
  "handleHandshake demo_env (demo_frame HandshakeAuthNone) c
     = handleAuthNone demo_env (demo_frame HandshakeAuthNone) (demo_handshake HandshakeAuthNone) c"
  "handleHandshake demo_env (demo_frame HandshakeAuthPublicKey) c
     = handleAuthPublicKey demo_env (demo_frame HandshakeAuthPublicKey) (demo_handshake HandshakeAuthPublicKey) c"
  "handleHandshake demo_env (demo_frame HandshakeAuthSignature) c
     = handleAuthSignature demo_env (demo_frame HandshakeAuthSignature) (demo_handshake HandshakeAuthSignature) c"
proof -
  have "DecodeSessionHandshake (Payload (demo_frame kind)) = Inr (demo_handshake kind)" for kind
    by (simp add: demo_frame_def DecodeSessionHandshake_encode demo_handshake_def handshake_sized_def)
  then show "handleHandshake demo_env (demo_frame HandshakeAuthNone) c
     = handleAuthNone demo_env (demo_frame HandshakeAuthNone) (demo_handshake HandshakeAuthNone) c"
  "handleHandshake demo_env (demo_frame HandshakeAuthPublicKey) c
     = handleAuthPublicKey demo_env (demo_frame HandshakeAuthPublicKey) (demo_handshake HandshakeAuthPublicKey) c"
  "handleHandshake demo_env (demo_frame HandshakeAuthSignature) c
     = handleAuthSignature demo_env (demo_frame HandshakeAuthSignature) (demo_handshake HandshakeAuthSignature) c"
    by (simp_all add: handleHandshake_def) (simp_all add: demo_handshake_def)
qed

text \<open>The one-shot command of the demonstration opens a shell.\<close>

lemma demo_oneshot:
  assumes "cn_handshakeAccepted c" and "cn_policyEngine c = None" and "cn_shells c = []"
    and "cn_openChannels c = []" and "cn_maxChannels c = 4"
    and "cn_policyProfile c = ProfileStudioDebug"
  shows "\<exists>c'. conn_step 65536 (FrameArrived demo_env demo_command) (c, True) = (c', True)
    \<and> ShellOpened 2 7 ''ls'' ''shell ls'' \<in> set (cn_log c')"
proof -
  define f where "f = \<lparr>ChannelID = 2, CommandFlag = CommandUnityExecute,
    CommandName = commandName CommandUnityExecute, CheckSum = 0, VCode = DaemonVCode,
    Payload = bytes_of ''ls''\<rparr>"
  have dec: "Decode 65536 demo_command = Inr f"
    unfolding demo_command_def f_def
    by (rule Decode_encode) (use demo_sizes(2) in \<open>auto simp: demo_command_def\<close>)
  have facts: "Allowed (InspectFrame defaultPolicy CommandUnityExecute)"
    "\<not> auditableCommand CommandUnityExecute" "CommandFamily CommandUnityExecute = FamilyShell"
    "ExtractShellCommand f = ''ls''" "trim_space ''ls'' = ''ls''"
    "Allowed (InspectShell defaultPolicy ProfileStudioDebug ''ls'')"
    unfolding f_def by code_simp+
  define c1 where "c1 = audit demo_env f AuditAllowed [] (c\<lparr>cn_openChannels := [2]\<rparr>)"
  have flag: "ChannelID f = 2" "CommandFlag f = CommandUnityExecute"
    by (simp_all add: f_def)
  have "admitChannel CommandUnityExecute 2 c = (c\<lparr>cn_openChannels := [2]\<rparr>, True)"
    using assms by (simp add: admitChannel_def)
  then have "route demo_env f c = openShell demo_env 2 ''ls'' c1"
    using assms facts
    by (simp add: route_def flag policyOrDefault_def dispatch_def handleShell_def getShell_def Let_def
        c1_def)
  also have "\<dots> = (emit (ShellOpened 2 7 ''ls'' ''shell ls'') (c1\<lparr>cn_shells := AList.update 2 7 (cn_shells c1)\<rparr>), None)"
  proof -
    have "getShell 2 c1 = None" "cn_policyEngine c1 = None" "cn_policyProfile c1 = ProfileStudioDebug"
      using assms by (simp_all add: c1_def audit_def emit_def getShell_def)
    then show ?thesis
      using facts by (simp add: openShell_def policyOrDefault_def Let_def demo_env_def)
  qed
  finally show ?thesis
    by (simp add: dec serve_def) (simp add: emit_def)
qed

lemma demo_accepted:
  "\<exists>c. conn_run 65536 demo_login (handleConnection demo_cfg demo_grant [] []) = (c, True)
     \<and> cn_handshakeAccepted c \<and> cn_policyEngine c = None \<and> cn_shells c = [] \<and> cn_openChannels c = []"
  "\<exists>c. conn_run 65536 (butlast demo_login) (handleConnection demo_cfg demo_grant [] []) = (c, True)
     \<and> \<not> cn_handshakeAccepted c"
proof -
  have version: "\<not> ClientVersionTooOld (Version (demo_handshake kind))" for kind
    unfolding demo_handshake_def by simp code_simp
  define c0 where "c0 = handleConnection demo_cfg demo_grant [] []"
  define c1 where "c1 = fst (handleHandshake demo_env (demo_frame HandshakeAuthNone) c0)"
  define c2 where "c2 = fst (handleHandshake demo_env (demo_frame HandshakeAuthPublicKey) c1)"
  define c3 where "c3 = fst (handleHandshake demo_env (demo_frame HandshakeAuthSignature) c2)"
  have c0: "cn_authPhase c0 = authPhaseStart" "\<not> cn_handshakeAccepted c0" "cn_policyEngine c0 = None"
    "cn_hasHosts c0" "\<not> cn_hostAuthOff c0" "cn_shells c0 = []" "cn_openChannels c0 = []"
    by (simp_all add: c0_def handleConnection_def demo_cfg_def)
  have c1: "cn_authPhase c1 = authPhaseWaitPubkey" "\<not> cn_handshakeAccepted c1" "cn_policyEngine c1 = None"
    "\<not> cn_hostAuthOff c1" "cn_authToken c1 = ''c0ffee''" "cn_shells c1 = []" "cn_openChannels c1 = []"
    "snd (handleHandshake demo_env (demo_frame HandshakeAuthNone) c0) = None"
    using c0 by (simp_all add: c1_def demo_dispatch handleAuthNone_def version Let_def audit_def emit_def)
  have c2: "cn_authPhase c2 = authPhaseWaitSignature" "\<not> cn_handshakeAccepted c2" "cn_policyEngine c2 = None"
    "cn_authToken c2 = ''c0ffee''" "hi_PublicKey (cn_authIdentity c2) = ''key''" "cn_shells c2 = []" "cn_openChannels c2 = []"
    "snd (handleHandshake demo_env (demo_frame HandshakeAuthPublicKey) c1) = None"
    using c1 by (simp_all add: c2_def demo_dispatch handleAuthPublicKey_def Let_def audit_def emit_def
        sendSignatureChallenge_def)
  have c3: "cn_handshakeAccepted c3" "cn_policyEngine c3 = None" "cn_shells c3 = []" "cn_openChannels c3 = []"
    "snd (handleHandshake demo_env (demo_frame HandshakeAuthSignature) c2) = None"
    using c2 by (simp_all add: c3_def demo_dispatch handleAuthSignature_def Let_def audit_def emit_def)
  note run = conn_run_def demo_login_def demo_step c0_def [symmetric] c1_def [symmetric]
        c2_def [symmetric] c3_def [symmetric]
  show "\<exists>c. conn_run 65536 demo_login (handleConnection demo_cfg demo_grant [] []) = (c, True)
     \<and> cn_handshakeAccepted c \<and> cn_policyEngine c = None \<and> cn_shells c = [] \<and> cn_openChannels c = []"
    using c0 c1 c2 c3 by (simp add: run del: conn_step.simps)
  show "\<exists>c. conn_run 65536 (butlast demo_login) (handleConnection demo_cfg demo_grant [] []) = (c, True)
     \<and> \<not> cn_handshakeAccepted c"
    using c0 c1 c2 by (simp add: run del: conn_step.simps)
qed

lemma demo_shell:
  "\<exists>c. conn_run 65536 (demo_login @ [FrameArrived demo_env demo_command])
       (handleConnection demo_cfg demo_grant [] []) = (c, True)
     \<and> ShellOpened 2 7 ''ls'' ''shell ls'' \<in> set (cn_log c)"
proof -
  obtain c where c: "conn_run 65536 demo_login (handleConnection demo_cfg demo_grant [] []) = (c, True)"
    "cn_handshakeAccepted c" "cn_policyEngine c = None" "cn_shells c = []" "cn_openChannels c = []"
    using demo_accepted(1) by blast
  have "fixed_part c = fixed_part (handleConnection demo_cfg demo_grant [] [])"
    using fixed_part_run [of 65536 demo_login "handleConnection demo_cfg demo_grant [] []"] c(1) by simp
  then have "cn_maxChannels c = 4" "cn_policyProfile c = ProfileStudioDebug"
    by (simp_all add: fixed_part_def handleConnection_def demo_cfg_def demo_grant_def)
  with c show ?thesis
    using demo_oneshot [of c] by (simp add: conn_run_def del: conn_step.simps)
qed

lemma nothing_before_authentication_witness:
  "\<exists>c. conn_run 65536 (butlast demo_login) (handleConnection demo_cfg demo_grant [] []) = (c, True)
     \<and> cn_shells c = [] \<and> (\<forall>e \<in> set (cn_log c). \<not> device_effect e)"
  using demo_accepted(2) nothing_before_authentication by blast

lemma acceptance_needs_signature_and_approval_witness:
  "\<exists>c. conn_run 65536 demo_login (handleConnection demo_cfg demo_grant [] []) = (c, True)
     \<and> (\<exists>i j k en0 en1 en2 h0 h1 h2. i < j \<and> j < k \<and> handshake_at 65536 demo_login i en0 h0
       \<and> handshake_at 65536 demo_login j en1 h1 \<and> handshake_at 65536 demo_login k en2 h2
       \<and> AuthType h2 = HandshakeAuthSignature)"
proof -
  obtain c where c: "conn_run 65536 demo_login (handleConnection demo_cfg demo_grant [] []) = (c, True)"
    "cn_handshakeAccepted c"
    using demo_accepted(1) by blast
  from acceptance_needs_signature_and_approval [OF this] c(1) show ?thesis by blast
qed


lemma channels_and_shells_accounted_witness:
  "\<exists>c. conn_run 65536 (demo_login @ [FrameArrived demo_env demo_command])
       (handleConnection demo_cfg demo_grant [] []) = (c, True)
     \<and> (getShell 2 c = Some 7 \<or> (\<exists>byUs. ShellClosed 7 byUs \<in> set (cn_log c)))"
  using demo_shell channels_and_shells_accounted by blast

lemma split_input_inspected_witness:
  "snd (feed_input 5 [bytes_of ''reb'', bytes_of ''oot''] (handleConnection demo_cfg demo_grant [] []))
     = [Some ''reb'', Some ''reboot'']"
proof -
  have "\<forall>i < length [bytes_of ''reb'', bytes_of ''oot'']. length ([bytes_of ''reb'', bytes_of ''oot''] ! i) \<le> 200000
      \<and> length (pending_line (string_of (concat (take (Suc i) [bytes_of ''reb'', bytes_of ''oot''])))) \<le> 4096"
    by (simp add: All_less_Suc pending_line_def)
  from split_input_inspected [OF _ this, of "handleConnection demo_cfg demo_grant [] []" 5] show ?thesis
    by (simp add: handleConnection_def pending_line_def)
qed


definition demo_open :: daemonConnection where
  "demo_open = (handleConnection demo_cfg demo_grant [] [])
     \<lparr>cn_handshakeAccepted := True, cn_shells := [(5, 7)], cn_openChannels := [5]\<rparr>"

lemma demo_denied: "\<not> Allowed (InspectShell defaultPolicy ProfileStudioDebug ''reboot'')"
  by code_simp

lemma demo_open_fields:
  "getShell 5 demo_open = Some 7" "getShell 6 demo_open = None"
  "policyOrDefault demo_open = defaultPolicy" "cn_policyProfile demo_open = ProfileStudioDebug"
  "shell_buffer 5 demo_open = []" "cn_handshakeAccepted demo_open" "cn_openChannels demo_open = [5]"
  "cn_maxChannels demo_open = 4"
  by (simp_all add: demo_open_def handleConnection_def demo_cfg_def demo_grant_def getShell_def
      policyOrDefault_def shell_buffer_def)

lemma refused_input_ends_session_witness:
  "let c' = fst (handleShell demo_env \<lparr>ChannelID = 5, CommandFlag = CommandShellData, CommandName = [],
       CheckSum = 0, VCode = 9, Payload = bytes_of ''reboot''\<rparr> demo_open)
   in ShellClosed 7 True \<in> set (cn_log c') \<and> getShell 5 c' = None \<and> 5 \<notin> set (cn_openChannels c')"
  (is "let c' = fst (handleShell _ ?f _) in _")
proof -
  obtain c' r where c': "handleShell demo_env ?f demo_open = (c', r)"
    by (cases "handleShell demo_env ?f demo_open")
  have "getShell (ChannelID ?f) demo_open = Some 7"
    "\<not> Allowed (InspectShell (policyOrDefault demo_open) (cn_policyProfile demo_open)
        (shell_buffer (ChannelID ?f) demo_open @ string_of (Payload ?f)))"
    using demo_denied by (simp_all add: demo_open_fields)
  from refused_input_ends_session [OF _ this c'] show ?thesis
    unfolding c' by auto
qed

lemma refused_oneshot_keeps_slot_witness:
  "6 \<in> set (cn_openChannels (fst (route demo_env \<lparr>ChannelID = 6, CommandFlag = CommandUnityExecute,
       CommandName = [], CheckSum = 0, VCode = 9, Payload = bytes_of ''reboot''\<rparr> demo_open)))"
  (is "_ \<in> set (cn_openChannels (fst (route _ ?f _)))")
proof -
  have "Allowed (InspectFrame defaultPolicy CommandUnityExecute)" "ExtractShellCommand ?f = ''reboot''"
    by code_simp+
  then have "ChannelID ?f \<in> set (cn_openChannels (fst (route demo_env ?f demo_open)))"
    using refused_oneshot_keeps_slot [of demo_open ?f demo_env] demo_denied
    by (simp add: demo_open_fields)
  then show ?thesis by simp
qed

end
