(* ===== verification/Listener.thy ===== *)
theory Listener
  imports Model
begin

text \<open>
  The listeners of the gateway and its table of authenticated sessions,
  \<^verbatim>\<open>src/internal/gateway/gateway.go\<close>: binding, renewing and removing a grant,
  admission of a connection before its handshake, and shutting down.

  A connection is a number. The code that runs under a mutex is one step; \<open>Bind\<close> opens its
  socket between two locked sections, so what other calls do in between is an argument.
  Listening, closing sockets and waiting for goroutines are the library's: whether they
  succeed is an argument.
\<close>

section \<open>State\<close>

record listenerState =
  li_bindingID :: string
  li_grant :: Grant
  li_connections :: "nat list"
  li_closed :: bool

record GatewayState =
  gw_listeners :: "(string, listenerState) gomap"
  gw_closed :: bool
  gw_sessions :: "(string, LiveSession) gomap"

datatype bind_error = InvalidGrant | GatewayClosed | ListenFailed

definition validateGrant :: "Grant \<Rightarrow> bool" where
  "validateGrant grant =
     (let binding = gr_Binding grant
      in \<not> (bd_ID binding = [] \<or> bd_DeviceID binding = [] \<or> bd_Port binding \<le> 0
          \<or> 65535 < bd_Port binding \<or> gr_LeaseID grant = [] \<or> gr_MaxConnections grant \<le> 0
          \<or> length (gr_AllowedSourcePrefixes grant) = 0 \<or> gr_ExpiresAt grant = 0))"

section \<open>Admission\<close>

text \<open>\<^verbatim>\<open>netip.AddrFromSlice\<close> on the bytes of a TCP address, then
  \<^verbatim>\<open>Unmap\<close>; \<open>None\<close> is the error.\<close>

definition be_word :: "bytes \<Rightarrow> 'a::len word" where
  "be_word bs = foldl (\<lambda>w b. push_bit 8 w OR ucast b) 0 bs"

definition remoteAddress :: "bytes \<Rightarrow> ip_addr option" where
  "remoteAddress ip =
     (if length ip = 4 then Some (unmap_addr (V4 (be_word ip)))
      else if length ip = 16 then Some (unmap_addr (V6 (be_word ip)))
      else None)"

definition is4 :: "ip_addr \<Rightarrow> bool" where
  "is4 a = (case a of V4 _ \<Rightarrow> True | V6 _ \<Rightarrow> False)"

definition prefixesContain :: "ip_prefix list \<Rightarrow> ip_addr \<Rightarrow> bool" where
  "prefixesContain prefixes address =
     list_ex (\<lambda>prefix. let candidate = (if is4 (px_addr prefix) then unmap_addr address else address)
        in prefix_contains prefix candidate) prefixes"

definition admit ::
  "nat \<Rightarrow> ip_addr option \<Rightarrow> time \<Rightarrow> listenerState \<Rightarrow> listenerState \<times> Grant \<times> bool \<times> string" where
  "admit conn address now s =
     (let grant = li_grant s
      in if li_closed s then (s, grant, False, ''Remote access is closed.'')
         else if \<not> now < gr_ExpiresAt grant then (s, grant, False, ''Remote access lease has expired.'')
         else if (case address of None \<Rightarrow> True
                  | Some a \<Rightarrow> \<not> prefixesContain (gr_AllowedSourcePrefixes grant) a)
           then (s, grant, False, ''Source IP is not allowed.'')
         else if gr_MaxConnections grant \<le> int (length (li_connections s))
           then (s, grant, False, ''Remote access connection limit was reached.'')
         else (s\<lparr>li_connections := List.insert conn (li_connections s)\<rparr>, grant, True, []))"

definition removeConnection :: "nat \<Rightarrow> listenerState \<Rightarrow> listenerState" where
  "removeConnection conn s = s\<lparr>li_connections := removeAll conn (li_connections s)\<rparr>"

definition li_updateGrant :: "Grant \<Rightarrow> listenerState \<Rightarrow> listenerState" where
  "li_updateGrant grant s = s\<lparr>li_grant := grant\<rparr>"

text \<open>Closing returns the connections to close; a second call closes nothing.\<close>

definition li_close :: "listenerState \<Rightarrow> listenerState \<times> nat list" where
  "li_close s = (if li_closed s then (s, []) else (s\<lparr>li_closed := True\<rparr>, li_connections s))"

section \<open>Binding\<close>

definition bind_precheck :: "Grant \<Rightarrow> GatewayState \<Rightarrow> bind_error + bool" where
  "bind_precheck grant g =
     (if \<not> validateGrant grant then Inl InvalidGrant
      else if gw_closed g then Inl GatewayClosed
      else Inr (map_of (gw_listeners g) (bd_ID (gr_Binding grant)) \<noteq> None))"

definition bind_commit :: "Grant \<Rightarrow> GatewayState \<Rightarrow> GatewayState \<times> bind_error option" where
  "bind_commit grant g =
     (if gw_closed g then (g, Some GatewayClosed)
      else if map_of (gw_listeners g) (bd_ID (gr_Binding grant)) \<noteq> None then (g, None)
      else (g\<lparr>gw_listeners := AList.update (bd_ID (gr_Binding grant))
               \<lparr>li_bindingID = bd_ID (gr_Binding grant), li_grant = grant, li_connections = [],
                 li_closed = False\<rparr> (gw_listeners g)\<rparr>, None))"

definition Bind ::
  "Grant \<Rightarrow> bool \<Rightarrow> (GatewayState \<Rightarrow> GatewayState) \<Rightarrow> GatewayState
     \<Rightarrow> GatewayState \<times> bind_error option" where
  "Bind grant listen_ok between g =
     (case bind_precheck grant g of Inl e \<Rightarrow> (g, Some e)
      | Inr True \<Rightarrow> (g, None)
      | Inr False \<Rightarrow> if \<not> listen_ok then (between g, Some ListenFailed)
          else bind_commit grant (between g))"

definition UpdateGrant :: "Grant \<Rightarrow> GatewayState \<Rightarrow> GatewayState \<times> bind_error option" where
  "UpdateGrant grant g =
     (if \<not> validateGrant grant then (g, Some InvalidGrant)
      else case map_of (gw_listeners g) (bd_ID (gr_Binding grant)) of None \<Rightarrow> (g, None)
        | Some state \<Rightarrow> (g\<lparr>gw_listeners := AList.update (bd_ID (gr_Binding grant))
            (li_updateGrant grant state) (gw_listeners g)\<rparr>, None))"

text \<open>\<open>Unbind\<close> and \<open>Close\<close> also return the closed listener states, so that what was open can be
  followed after it left the table.\<close>

definition Unbind :: "string \<Rightarrow> GatewayState \<Rightarrow> GatewayState \<times> listenerState list" where
  "Unbind bindingID g =
     (if trim_space bindingID = [] then (g, [])
      else case map_of (gw_listeners g) bindingID of None \<Rightarrow> (g, [])
        | Some state \<Rightarrow> (g\<lparr>gw_listeners := AList.delete bindingID (gw_listeners g)\<rparr>,
            [fst (li_close state)]))"

text \<open>The outcome of the bounded wait is the argument \<open>drained\<close>.\<close>

definition gw_Close :: "bool \<Rightarrow> GatewayState \<Rightarrow> GatewayState \<times> listenerState list \<times> bool" where
  "gw_Close drained g =
     (if gw_closed g then (g, [], True)
      else (g\<lparr>gw_closed := True, gw_listeners := []\<rparr>,
            map (\<lambda>(_, s). fst (li_close s)) (gw_listeners g), drained))"

section \<open>Sessions\<close>

definition gw_Sessions :: "GatewayState \<Rightarrow> LiveSession list" where
  "gw_Sessions g = sort_by se_ConnectedAt (map snd (gw_sessions g))"

datatype kick_error = SessionIDRequired | SessionNotFound

text \<open>The session whose closer runs, on success.\<close>

definition Kick :: "string \<Rightarrow> GatewayState \<Rightarrow> GatewayState \<times> (kick_error + LiveSession)" where
  "Kick sessionID g =
     (let sessionID = trim_space sessionID
      in if sessionID = [] then (g, Inl SessionIDRequired)
         else (g\<lparr>gw_sessions := AList.delete sessionID (gw_sessions g)\<rparr>,
               case map_of (gw_sessions g) sessionID of None \<Rightarrow> Inl SessionNotFound
               | Some session \<Rightarrow> Inr session))"

definition trackSession :: "LiveSession \<Rightarrow> GatewayState \<Rightarrow> GatewayState" where
  "trackSession session g =
     (if se_SessionID session = [] then g
      else g\<lparr>gw_sessions := AList.update (se_SessionID session) session (gw_sessions g)\<rparr>)"

definition dropSession :: "string \<Rightarrow> GatewayState \<Rightarrow> GatewayState" where
  "dropSession sessionID g = g\<lparr>gw_sessions := AList.delete sessionID (gw_sessions g)\<rparr>"

definition gw_New :: GatewayState where
  "gw_New = \<lparr>gw_listeners = [], gw_closed = False, gw_sessions = []\<rparr>"

section \<open>Operations on the gateway\<close>

datatype gateway_op =
    GBind Grant bool
  | GUpdate Grant
  | GUnbind string
  | GClose bool
  | GAdmit string nat "ip_addr option" time
  | GLeave string nat
  | GTrack LiveSession
  | GDrop string
  | GKick string

text \<open>\<open>GBind\<close> is the committing section of a \<open>Bind\<close> whose precheck passed; the socket may fail.\<close>

fun gateway_apply :: "gateway_op \<Rightarrow> GatewayState \<Rightarrow> GatewayState" where
  "gateway_apply (GBind grant listen_ok) g =
     (if validateGrant grant \<and> listen_ok then fst (bind_commit grant g) else g)"
| "gateway_apply (GUpdate grant) g = fst (UpdateGrant grant g)"
| "gateway_apply (GUnbind b) g = fst (Unbind b g)"
| "gateway_apply (GClose drained) g = fst (gw_Close drained g)"
| "gateway_apply (GAdmit b conn address now) g =
     (case map_of (gw_listeners g) b of None \<Rightarrow> g
      | Some s \<Rightarrow> g\<lparr>gw_listeners := AList.update b (fst (admit conn address now s)) (gw_listeners g)\<rparr>)"
| "gateway_apply (GLeave b conn) g =
     (case map_of (gw_listeners g) b of None \<Rightarrow> g
      | Some s \<Rightarrow> g\<lparr>gw_listeners := AList.update b (removeConnection conn s) (gw_listeners g)\<rparr>)"
| "gateway_apply (GTrack session) g = trackSession session g"
| "gateway_apply (GDrop sid) g = dropSession sid g"
| "gateway_apply (GKick sid) g = fst (Kick sid g)"

definition listener_ok :: "string \<Rightarrow> listenerState \<Rightarrow> bool" where
  "listener_ok b s \<longleftrightarrow> li_bindingID s = b \<and> bd_ID (gr_Binding (li_grant s)) = b
     \<and> validateGrant (li_grant s) \<and> distinct (li_connections s) \<and> \<not> li_closed s"

definition gateway_ok :: "GatewayState \<Rightarrow> bool" where
  "gateway_ok g \<longleftrightarrow> distinct (map fst (gw_listeners g)) \<and> distinct (map fst (gw_sessions g))
     \<and> list_all (\<lambda>(b, s). listener_ok b s) (gw_listeners g)
     \<and> list_all (\<lambda>(k, s). k = se_SessionID s \<and> k \<noteq> []) (gw_sessions g)
     \<and> (gw_closed g \<longrightarrow> gw_listeners g = [])"

lemma listener_okD:
  "gateway_ok g \<Longrightarrow> map_of (gw_listeners g) b = Some s \<Longrightarrow> listener_ok b s"
  by (auto simp: gateway_ok_def list_all_iff dest: map_of_SomeD)

lemma put_listener_ok:
  assumes "gateway_ok g" and "listener_ok b s" and "\<not> gw_closed g"
  shows "gateway_ok (g\<lparr>gw_listeners := AList.update b s (gw_listeners g)\<rparr>)"
  using assms by (simp add: gateway_ok_def list_all_assoc AList.distinct_update)

lemma admit_ok: "listener_ok b s \<Longrightarrow> listener_ok b (fst (admit conn a now s))"
  by (simp add: admit_def listener_ok_def Let_def distinct_insert)

lemma gw_listener_open: "gateway_ok g \<Longrightarrow> map_of (gw_listeners g) b = Some s \<Longrightarrow> \<not> gw_closed g"
  by (auto simp: gateway_ok_def)

lemma gateway_apply_ok: "gateway_ok g \<Longrightarrow> gateway_ok (gateway_apply opr g)"
proof (cases opr)
  case (GBind grant listen_ok)
  assume ok: "gateway_ok g"
  have "listener_ok (bd_ID (gr_Binding grant)) \<lparr>li_bindingID = bd_ID (gr_Binding grant),
      li_grant = grant, li_connections = [], li_closed = False\<rparr>" if "validateGrant grant"
    using that by (simp add: listener_ok_def)
  with ok GBind show ?thesis by (simp add: bind_commit_def put_listener_ok)
next
  case (GUpdate grant)
  assume ok: "gateway_ok g"
  have "listener_ok (bd_ID (gr_Binding grant)) (li_updateGrant grant s)"
    if "validateGrant grant" "map_of (gw_listeners g) (bd_ID (gr_Binding grant)) = Some s" for s
    using listener_okD [OF ok that(2)] that(1) by (simp add: listener_ok_def li_updateGrant_def)
  with ok GUpdate show ?thesis
    by (auto simp: UpdateGrant_def put_listener_ok gw_listener_open split: option.split)
next
  case (GUnbind b)
  assume "gateway_ok g"
  with GUnbind show ?thesis
    by (simp add: Unbind_def gateway_ok_def list_all_assoc AList.distinct_delete split: option.split)
next
  case (GClose drained)
  assume "gateway_ok g"
  with GClose show ?thesis by (simp add: gw_Close_def gateway_ok_def)
next
  case (GAdmit b conn a now)
  assume ok: "gateway_ok g"
  with GAdmit show ?thesis
    by (auto simp: put_listener_ok admit_ok listener_okD gw_listener_open split: option.split)
next
  case (GLeave b conn)
  assume ok: "gateway_ok g"
  have "listener_ok b (removeConnection conn s)" if "map_of (gw_listeners g) b = Some s" for s
    using listener_okD [OF ok that] by (simp add: listener_ok_def removeConnection_def distinct_removeAll)
  with ok GLeave show ?thesis
    by (auto simp: put_listener_ok gw_listener_open split: option.split)
next
  case (GTrack session)
  assume "gateway_ok g"
  with GTrack show ?thesis
    by (simp add: trackSession_def gateway_ok_def list_all_assoc AList.distinct_update)
next
  case (GDrop sid)
  assume "gateway_ok g"
  with GDrop show ?thesis
    by (simp add: dropSession_def gateway_ok_def list_all_assoc AList.distinct_delete)
next
  case (GKick sid)
  assume "gateway_ok g"
  with GKick show ?thesis
    by (simp add: Kick_def gateway_ok_def list_all_assoc AList.distinct_delete Let_def)
qed

interpretation gateway_machine: invariant_machine gateway_apply gateway_ok
  by unfold_locales (rule gateway_apply_ok)

lemma gateway_closed_stays: "gw_closed g \<Longrightarrow> gw_closed (gateway_apply opr g)"
  by (cases opr) (auto simp: bind_commit_def UpdateGrant_def Unbind_def gw_Close_def
      trackSession_def dropSession_def Kick_def Let_def split: option.split)

interpretation closed_machine: invariant_machine gateway_apply gw_closed
  by unfold_locales (rule gateway_closed_stays)

section \<open>IPv4-mapped addresses\<close>

lemma be_word_snoc: "be_word (bs @ [b]) = (push_bit 8 (be_word bs) OR ucast b :: 'a::len word)"
  by (simp add: be_word_def)

lemma be_word_zeros [simp]: "be_word (replicate n 0) = (0 :: 'a::len word)"
  by (induction n) (simp_all add: be_word_def foldl_conv_fold)

definition be_step :: "'a::len word \<Rightarrow> byte \<Rightarrow> 'a word" where
  "be_step w b = push_bit 8 w OR ucast b"

lemma be_step_bit:
  "n < LENGTH('a) \<Longrightarrow> bit (be_step (w :: 'a::len word) b) n \<longleftrightarrow> (if n < 8 then bit b n else bit w (n - 8))"
  by (auto simp: be_step_def bit_simps dest: bit_imp_le_length)

definition four_bytes :: "'a::len word \<Rightarrow> byte \<Rightarrow> byte \<Rightarrow> byte \<Rightarrow> byte \<Rightarrow> 'a word" where
  "four_bytes w a b c d = be_step (be_step (be_step (be_step w a) b) c) d"

lemma be_word_4: "be_word [a, b, c, d] = (four_bytes 0 a b c d :: 'a::len word)"
  by (simp add: be_word_def four_bytes_def be_step_def)

lemma be_word_mapped:
  "be_word (replicate 10 0 @ [0xFF, 0xFF, a, b, c, d]) = (four_bytes 0xFFFF a b c d :: 128 word)"
proof -
  have z: "be_word (replicate 10 0) = (0 :: 128 word)" by simp
  have e: "replicate 10 0 @ [0xFF, 0xFF, a, b, c, d] =
      (((((replicate 10 0 @ [0xFF]) @ [0xFF]) @ [a]) @ [b]) @ [c]) @ [d]"
    by simp
  have ff: "push_bit 8 (push_bit 8 0 OR ucast (0xFF :: byte)) OR ucast (0xFF :: byte) = (0xFFFF :: 128 word)"
    by simp
  show ?thesis
    unfolding e be_word_snoc z ff four_bytes_def be_step_def ..
qed

lemma four_bytes_high: "n + 32 < LENGTH('a) \<Longrightarrow> bit (four_bytes (w :: 'a::len word) a b c d) (n + 32) = bit w n"
  by (simp add: four_bytes_def be_step_bit)

lemma four_bytes_low:
  "n < 32 \<Longrightarrow> 32 \<le> LENGTH('a) \<Longrightarrow> 32 \<le> LENGTH('b) \<Longrightarrow>
     bit (four_bytes (w :: 'a::len word) a b c d) n = bit (four_bytes (v :: 'b::len word) a b c d) n"
  by (simp add: four_bytes_def be_step_bit)

lemma mapped_parts:
  "drop_bit 32 (four_bytes 0xFFFF a b c d :: 128 word) = 0xFFFF"
  "ucast (four_bytes 0xFFFF a b c d :: 128 word) = (four_bytes 0 a b c d :: 32 word)"
proof -
  have high: "\<not> bit (0xFFFF :: 128 word) n" if "96 \<le> n" for n
  proof -
    have "(0xFFFF :: 128 word) = mask 16" by (simp add: mask_eq_exp_minus_1)
    with that show ?thesis by (simp only: bit_mask_iff) simp
  qed
  show "drop_bit 32 (four_bytes 0xFFFF a b c d :: 128 word) = 0xFFFF"
  proof (rule bit_word_eqI)
    fix n
    show "bit (drop_bit 32 (four_bytes 0xFFFF a b c d :: 128 word)) n \<longleftrightarrow> bit (0xFFFF :: 128 word) n"
    proof (cases "n < 96")
      case True
      then show ?thesis using four_bytes_high [of n "0xFFFF :: 128 word"]
        by (simp add: bit_drop_bit_eq add.commute)
    next
      case False
      then show ?thesis using high [of n]
        by (auto simp: bit_drop_bit_eq dest: bit_imp_le_length)
    qed
  qed
  show "ucast (four_bytes 0xFFFF a b c d :: 128 word) = (four_bytes 0 a b c d :: 32 word)"
    by (rule bit_word_eqI)
      (use four_bytes_low [where w = "0xFFFF :: 128 word" and v = "0 :: 32 word"] in
        \<open>simp add: bit_unsigned_iff\<close>)
qed

lemma remoteAddress_mapped:
  "remoteAddress (replicate 10 0 @ [0xFF, 0xFF, a, b, c, d]) = remoteAddress [a, b, c, d]"
proof -
  have l: "length (replicate 10 (0 :: byte) @ [0xFF, 0xFF, a, b, c, d]) = 16" by simp
  have w: "be_word (replicate 10 0 @ [0xFF, 0xFF, a, b, c, d]) = (four_bytes 0xFFFF a b c d :: 128 word)"
    "be_word [a, b, c, d] = (four_bytes 0 a b c d :: 32 word)"
    by (rule be_word_mapped be_word_4)+
  show ?thesis
    unfolding remoteAddress_def l w unmap_addr.simps mapped_parts by simp
qed

section \<open>Gateway properties\<close>

text \<open>A connection is admitted exactly when the listener is open, the lease has not
  expired, its address parsed and lies in an allowed prefix, and the limit is not reached; an
  admitted connection is recorded and the count stays within the limit, a refused one changes
  nothing. The grant returned is the one the decision was made on.\<close>

theorem admit_exact:
  assumes "conn \<notin> set (li_connections s)" and "admit conn address now s = (s', grant, accepted, reason)"
  shows "grant = li_grant s
    \<and> (accepted \<longleftrightarrow> \<not> li_closed s \<and> now < gr_ExpiresAt grant
        \<and> (\<exists>a. address = Some a \<and> prefixesContain (gr_AllowedSourcePrefixes grant) a)
        \<and> int (length (li_connections s)) < gr_MaxConnections grant)
    \<and> (if accepted then li_connections s' = conn # li_connections s
         \<and> int (length (li_connections s')) \<le> gr_MaxConnections grant \<and> reason = []
       else s' = s \<and> reason \<noteq> [])"
  using assms by (auto simp: admit_def Let_def List.insert_def split: if_splits option.splits)

text \<open>Whatever the order of binding, renewing, unbinding, admitting, leaving, session and
  closing steps, the gateway keeps one open listener per binding, each under the grant of its
  own binding and with a valid grant, and one session per id; a closed gateway has no
  listener, and closing is final.\<close>

theorem gateway_invariant:
  "gateway_ok (fold gateway_apply ops gw_New)
     \<and> gateway_ok (fold gateway_apply ops' (fst (gw_Close drained (fold gateway_apply ops gw_New))))
     \<and> gw_listeners (fold gateway_apply ops' (fst (gw_Close drained (fold gateway_apply ops gw_New)))) = []"
proof -
  have 1: "gateway_ok (fold gateway_apply ops gw_New)"
    by (rule gateway_machine.run_inv) (simp add: gateway_ok_def gw_New_def)
  let ?g = "fst (gw_Close drained (fold gateway_apply ops gw_New))"
  have 2: "gateway_ok (fold gateway_apply ops' ?g)"
    using gateway_apply_ok [OF 1, of "GClose drained"] by (intro gateway_machine.run_inv) simp
  have "gw_closed (fold gateway_apply ops' ?g)"
    by (rule closed_machine.run_inv) (simp add: gw_Close_def)
  with 1 2 show ?thesis by (simp add: gateway_ok_def)
qed

text \<open>After a binding is removed it has no listener, and the listener that was removed
  admits nobody any more; binding the same grant again gives an open listener with no
  connections.\<close>

theorem Unbind_cuts_off:
  assumes "gateway_ok g" and "Unbind b g = (g', removed)" and "trim_space b \<noteq> []"
  shows "map_of (gw_listeners g') b = None
    \<and> (\<forall>s \<in> set removed. \<forall>conn address now. \<not> fst (snd (snd (admit conn address now s))))
    \<and> (\<forall>grant. validateGrant grant \<and> bd_ID (gr_Binding grant) = b \<and> \<not> gw_closed g \<longrightarrow>
         (\<exists>s. map_of (gw_listeners (fst (Bind grant True (\<lambda>g. g) g'))) b = Some s
            \<and> li_connections s = [] \<and> \<not> li_closed s \<and> li_grant s = grant))"
proof -
  have none: "map_of (gw_listeners g') b = None" and closed: "gw_closed g' = gw_closed g"
    and rem: "\<forall>s \<in> set removed. li_closed s"
    using assms(2,3) by (auto simp: Unbind_def li_close_def AList.delete_conv' split: option.splits)
  moreover have "\<forall>s \<in> set removed. \<forall>conn address now. \<not> fst (snd (snd (admit conn address now s)))"
    using rem by (simp add: admit_def)
  ultimately show ?thesis
    using none closed by (auto simp: Bind_def bind_precheck_def bind_commit_def AList.update_conv')
qed

text \<open>C24: An IPv4 client is judged by its IPv4 address whether the socket reports four bytes or
  the IPv4-mapped sixteen.\<close>

theorem mapped_address_same:
  "remoteAddress (replicate 10 0 @ [0xFF, 0xFF, a, b, c, d]) = remoteAddress [a, b, c, d]"
  by (rule remoteAddress_mapped)

text \<open>Renewing a lease reaches the listener: after an accepted update of its grant, the
  listener admits under the new expiry, prefixes and limit and keeps its connections.\<close>

theorem UpdateGrant_reaches_listener:
  assumes "map_of (gw_listeners g) (bd_ID (gr_Binding grant)) = Some s"
    and "validateGrant grant" and "UpdateGrant grant g = (g', e)"
  shows "e = None \<and> (\<exists>s'. map_of (gw_listeners g') (bd_ID (gr_Binding grant)) = Some s'
    \<and> li_grant s' = grant \<and> li_connections s' = li_connections s
    \<and> (\<forall>conn address now. fst (snd (admit conn address now s')) = grant))
    \<and> (\<forall>b. b \<noteq> bd_ID (gr_Binding grant) \<longrightarrow> map_of (gw_listeners g') b = map_of (gw_listeners g) b)"
  using assms by (auto simp: UpdateGrant_def li_updateGrant_def AList.update_conv' admit_def Let_def)

definition sample_grant :: Grant where
  "sample_grant = \<lparr>gr_LeaseID = ''l'', gr_Binding = \<lparr>bd_ID = ''b'', bd_DeviceID = ''n:d'',
     bd_PublicHost = [], bd_Port = 55001, bd_Status = BindingReserved, bd_CreatedAt = 1,
     bd_UpdatedAt = 1\<rparr>, gr_DeviceID = ''n:d'', gr_OwnerID = [], gr_AllowedSourcePrefixes =
     [\<lparr>px_addr = V4 0x0A000000, px_bits = 8\<rparr>], gr_MaxConnections = 1, gr_ExpiresAt = 100,
     gr_PolicyProfile = []\<rparr>"

definition sample_gateway :: GatewayState where
  "sample_gateway = fold gateway_apply [GBind sample_grant True] gw_New"

lemma admit_exact_witness:
  "\<exists>s s'. admit 7 (remoteAddress [10, 1, 2, 3]) 50 s = (s', sample_grant, True, [])
     \<and> int (length (li_connections s')) \<le> 1"
proof -
  let ?s = "\<lparr>li_bindingID = ''b'', li_grant = sample_grant, li_connections = [], li_closed = False\<rparr>"
  have "snd (admit 7 (remoteAddress [10, 1, 2, 3]) 50 ?s) = (sample_grant, True, [])"
    by code_simp
  then obtain s' where s': "admit 7 (remoteAddress [10, 1, 2, 3]) 50 ?s = (s', sample_grant, True, [])"
    by (metis prod.collapse)
  from admit_exact [OF _ s'] have "int (length (li_connections s')) \<le> 1"
    by (simp add: sample_grant_def)
  with s' show ?thesis by blast
qed

lemma Unbind_cuts_off_witness:
  "map_of (gw_listeners (fst (Unbind ''b'' sample_gateway))) ''b'' = None
     \<and> (\<exists>s. map_of (gw_listeners (fst (Bind sample_grant True (\<lambda>g. g)
           (fst (Unbind ''b'' sample_gateway))))) ''b'' = Some s
         \<and> li_connections s = [] \<and> \<not> li_closed s)"
proof -
  have "gateway_ok sample_gateway" "trim_space ''b'' \<noteq> []" "validateGrant sample_grant"
    "bd_ID (gr_Binding sample_grant) = ''b''" "\<not> gw_closed sample_gateway"
    by code_simp+
  with Unbind_cuts_off [of sample_gateway "''b''"] show ?thesis
    by (metis prod.collapse)
qed

lemma UpdateGrant_reaches_listener_witness:
  "\<exists>g' s'. UpdateGrant (sample_grant\<lparr>gr_ExpiresAt := 900\<rparr>) sample_gateway = (g', None)
     \<and> map_of (gw_listeners g') ''b'' = Some s' \<and> gr_ExpiresAt (li_grant s') = 900"
proof -
  let ?gr = "sample_grant\<lparr>gr_ExpiresAt := 900\<rparr>"
  have id: "bd_ID (gr_Binding ?gr) = ''b''" and v: "validateGrant ?gr" by code_simp+
  obtain s where s: "map_of (gw_listeners sample_gateway) ''b'' = Some s"
    by (simp add: sample_gateway_def gw_New_def bind_commit_def sample_grant_def validateGrant_def)
  obtain g' e where u: "UpdateGrant ?gr sample_gateway = (g', e)" by fastforce
  from UpdateGrant_reaches_listener [OF s [folded id] v u] u id show ?thesis
    by auto
qed

end
