(* ===== verification/Port_Pool.thy ===== *)
theory Port_Pool
  imports Prelude
begin

text \<open>
  The pool of proxy ports: \<^verbatim>\<open>src/internal/remote/ports.go\<close>.

  The sets of the code are lists without repetition. Whether a port can be listened on when it
  is probed is the environment's: an oracle on the port for the sequential operations, a choice
  of the step relation for the concurrent ones. \<open>allocateOnce\<close> probes outside the lock, so its
  locked sections are separate steps of that relation.
\<close>

section \<open>State and operations\<close>

record portPool =
  pp_host :: string
  pp_minPort :: int
  pp_maxPort :: int
  available :: "int list"
  reserved :: "int list"
  blocked :: "int list"

definition newPortPool :: "string \<Rightarrow> int \<Rightarrow> int \<Rightarrow> portPool" where
  "newPortPool host minPort maxPort = \<lparr>pp_host = host, pp_minPort = minPort, pp_maxPort = maxPort,
     available = [minPort..maxPort], reserved = [], blocked = []\<rparr>"

datatype port_error = PortOutOfRange | PortReserved | PortUnavailable | PortsExhausted

definition takeBlockedLocked :: "int \<Rightarrow> portPool \<Rightarrow> portPool \<times> bool" where
  "takeBlockedLocked port p =
     (if port \<notin> set (blocked p) then (p, False)
      else (p\<lparr>blocked := removeAll port (blocked p)\<rparr>, True))"

definition reserve :: "int \<Rightarrow> portPool \<Rightarrow> portPool \<times> port_error option" where
  "reserve port p =
     (if port < pp_minPort p \<or> pp_maxPort p < port then (p, Some PortOutOfRange)
      else if port \<in> set (reserved p) then (p, Some PortReserved)
      else if port \<in> set (available p) then
        (p\<lparr>available := remove1 port (available p), reserved := List.insert port (reserved p)\<rparr>, None)
      else case takeBlockedLocked port p of
        (p, True) \<Rightarrow> (p\<lparr>reserved := List.insert port (reserved p)\<rparr>, None)
      | (p, False) \<Rightarrow> (p, Some PortUnavailable))"

text \<open>The two locked sections of \<open>allocateOnce\<close>.\<close>

definition take_port :: "portPool \<Rightarrow> portPool \<times> int option" where
  "take_port p = (case available p of [] \<Rightarrow> (p, None)
     | port # rest \<Rightarrow> (p\<lparr>available := rest, reserved := List.insert port (reserved p)\<rparr>, Some port))"

definition block_port :: "int \<Rightarrow> portPool \<Rightarrow> portPool" where
  "block_port port p = p\<lparr>reserved := removeAll port (reserved p),
     blocked := List.insert port (blocked p)\<rparr>"

function allocateOnce :: "(int \<Rightarrow> bool) \<Rightarrow> portPool \<Rightarrow> portPool \<times> int option" where
  "allocateOnce listens p =
     (case take_port p of (p', None) \<Rightarrow> (p', None)
      | (p', Some port) \<Rightarrow>
          if listens port then (p', Some port) else allocateOnce listens (block_port port p'))"
  by pat_completeness auto
termination
  by (relation "measure (\<lambda>(_, p). length (available p))")
    (auto simp: take_port_def block_port_def split: list.splits)

declare allocateOnce.simps [simp del]

definition recycleBlockedLocked :: "portPool \<Rightarrow> portPool" where
  "recycleBlockedLocked p =
     (if blocked p = [] then p
      else p\<lparr>available := sort (available p @ blocked p), blocked := []\<rparr>)"

definition allocate :: "(int \<Rightarrow> bool) \<Rightarrow> portPool \<Rightarrow> portPool \<times> int option" where
  "allocate listens p =
     (case allocateOnce listens p of (p, Some port) \<Rightarrow> (p, Some port)
      | (p, None) \<Rightarrow>
          let retryable = blocked p \<noteq> [] \<or> available p \<noteq> [];
              p = recycleBlockedLocked p
          in if \<not> retryable then (p, None) else allocateOnce listens p)"

definition release :: "int \<Rightarrow> portPool \<Rightarrow> portPool" where
  "release port p =
     (if port \<le> 0 then p
      else if port \<notin> set (reserved p) then p
      else p\<lparr>reserved := removeAll port (reserved p), available := sort (available p @ [port])\<rparr>)"

section \<open>Concurrent use\<close>

text \<open>Several callers use the pool at once. \<open>probing\<close> holds the ports that an \<open>allocateOnce\<close> has
  taken and is testing, \<open>held\<close> those a caller owns. Callers release only what they own.\<close>

record pool_state =
  pool :: portPool
  probing :: "int list"
  held :: "int list"

inductive pool_step :: "pool_state \<Rightarrow> pool_state \<Rightarrow> bool" where
  Reserve: "reserve port (pool s) = (p, None) \<Longrightarrow>
    pool_step s (s\<lparr>pool := p, held := port # held s\<rparr>)"
| Take: "take_port (pool s) = (p, Some port) \<Longrightarrow>
    pool_step s (s\<lparr>pool := p, probing := port # probing s\<rparr>)"
| Probe_ok: "port \<in> set (probing s) \<Longrightarrow>
    pool_step s (s\<lparr>probing := removeAll port (probing s), held := port # held s\<rparr>)"
| Probe_fail: "port \<in> set (probing s) \<Longrightarrow>
    pool_step s (s\<lparr>pool := block_port port (pool s), probing := removeAll port (probing s)\<rparr>)"
| Recycle: "pool_step s (s\<lparr>pool := recycleBlockedLocked (pool s)\<rparr>)"
| Release: "port \<in> set (held s) \<Longrightarrow>
    pool_step s (s\<lparr>pool := release port (pool s), held := removeAll port (held s)\<rparr>)"

inductive pool_run :: "pool_state \<Rightarrow> pool_state \<Rightarrow> bool" where
  run_refl [simp]: "pool_run s s"
| run_step: "pool_run s t \<Longrightarrow> pool_step t u \<Longrightarrow> pool_run s u"

inductive_cases pool_stepE: "pool_step s t"

section \<open>Invariant\<close>

text \<open>Every port of the range is in exactly one of the three sets, and the available ones are
  in order.\<close>

definition pool_ok :: "portPool \<Rightarrow> bool" where
  "pool_ok p \<longleftrightarrow> distinct (available p) \<and> distinct (reserved p) \<and> distinct (blocked p)
     \<and> sorted (available p)
     \<and> set (available p) \<inter> set (reserved p) = {} \<and> set (available p) \<inter> set (blocked p) = {}
     \<and> set (reserved p) \<inter> set (blocked p) = {}
     \<and> set (available p) \<union> set (reserved p) \<union> set (blocked p) = {pp_minPort p..pp_maxPort p}"

definition owners_ok :: "pool_state \<Rightarrow> bool" where
  "owners_ok s \<longleftrightarrow> pool_ok (pool s) \<and> distinct (probing s) \<and> distinct (held s)
     \<and> set (probing s) \<inter> set (held s) = {}
     \<and> set (reserved (pool s)) = set (probing s) \<union> set (held s)"

lemma pool_ok_new: "pool_ok (newPortPool host lo hi)"
  by (auto simp: pool_ok_def newPortPool_def)

lemma pool_ok_reserve:
  assumes ok: "pool_ok p" and r: "reserve port p = (p', None)"
  shows "pool_ok p' \<and> port \<notin> set (reserved p) \<and> set (reserved p') = insert port (set (reserved p))"
  using assms
  by (auto simp: reserve_def pool_ok_def takeBlockedLocked_def distinct_removeAll sorted_remove1
      split: if_splits prod.splits bool.splits)

lemma pool_ok_take:
  assumes ok: "pool_ok p" and t: "take_port p = (p', Some port)"
  shows "pool_ok p' \<and> port \<notin> set (reserved p) \<and> set (reserved p') = insert port (set (reserved p))"
  using assms by (auto simp: take_port_def pool_ok_def split: list.splits)

lemma pool_ok_block:
  assumes "pool_ok p" and "port \<in> set (reserved p)"
  shows "pool_ok (block_port port p) \<and> set (reserved (block_port port p)) = set (reserved p) - {port}"
  using assms by (auto simp: block_port_def pool_ok_def distinct_removeAll)

lemma pool_ok_recycle:
  "pool_ok p \<Longrightarrow> pool_ok (recycleBlockedLocked p) \<and> reserved (recycleBlockedLocked p) = reserved p"
  by (auto simp: recycleBlockedLocked_def pool_ok_def)

lemma pool_ok_release:
  assumes "pool_ok p" and "port \<in> set (reserved p)" and "0 < port"
  shows "pool_ok (release port p) \<and> set (reserved (release port p)) = set (reserved p) - {port}"
  using assms by (auto simp: release_def pool_ok_def distinct_removeAll)

lemmas pool_ok_ops = pool_ok_reserve pool_ok_take pool_ok_block pool_ok_recycle pool_ok_release

lemma pool_bounds_step: "pool_step s t \<Longrightarrow> pp_minPort (pool t) = pp_minPort (pool s)"
  by (auto elim!: pool_stepE simp: reserve_def take_port_def block_port_def recycleBlockedLocked_def
      release_def takeBlockedLocked_def split: if_splits list.splits)

lemma owners_ok_step:
  assumes step: "pool_step s t" and ok: "owners_ok s" and pos: "0 < pp_minPort (pool s)"
  shows "owners_ok t"
  using step
proof cases
  case (Reserve port p)
  then show ?thesis
    using ok pool_ok_reserve [of "pool s" port p] by (auto simp: owners_ok_def)
next
  case (Take p port)
  then show ?thesis
    using ok pool_ok_take [of "pool s" p port] by (auto simp: owners_ok_def)
next
  case (Probe_ok port)
  then show ?thesis
    using ok by (auto simp: owners_ok_def distinct_removeAll)
next
  case (Probe_fail port)
  then show ?thesis
    using ok pool_ok_block [of "pool s" port] by (auto simp: owners_ok_def distinct_removeAll)
next
  case Recycle
  then show ?thesis
    using ok pool_ok_recycle [of "pool s"] by (auto simp: owners_ok_def)
next
  case (Release port)
  then have "port \<in> set (reserved (pool s))" using ok by (auto simp: owners_ok_def)
  moreover have "set (reserved (pool s)) \<subseteq> {pp_minPort (pool s)..pp_maxPort (pool s)}"
    using ok by (auto simp: owners_ok_def pool_ok_def)
  ultimately have "0 < port" using pos by force
  then show ?thesis
    using ok Release pool_ok_release [of "pool s" port] by (auto simp: owners_ok_def distinct_removeAll)
qed

lemma owners_ok_run:
  "pool_run s t \<Longrightarrow> owners_ok s \<Longrightarrow> 0 < pp_minPort (pool s) \<Longrightarrow>
   owners_ok t \<and> pp_minPort (pool t) = pp_minPort (pool s)"
  by (induction rule: pool_run.induct) (auto simp: owners_ok_step pool_bounds_step)


section \<open>What allocation finds\<close>

definition least :: "(int \<Rightarrow> bool) \<Rightarrow> int set \<Rightarrow> int option" where
  "least P S = (if \<exists>x \<in> S. P x then Some (Min {x \<in> S. P x}) else None)"

lemma least_None: "least P S = None \<longleftrightarrow> (\<forall>x \<in> S. \<not> P x)"
  by (auto simp: least_def)

lemma least_Cons:
  assumes "sorted (x # xs)"
  shows "least P (set (x # xs)) = (if P x then Some x else least P (set xs))"
proof (cases "P x")
  case True
  have "{y \<in> set (x # xs). P y} = insert x {y \<in> set xs. P y}" using True by auto
  moreover have "Min (insert x {y \<in> set xs. P y}) = x"
    by (rule Min_eqI) (use assms in auto)
  ultimately show ?thesis using True by (auto simp: least_def)
next
  case False
  then have "{y \<in> set (x # xs). P y} = {y \<in> set xs. P y}" by auto
  with False show ?thesis by (auto simp: least_def)
qed

lemma allocateOnce_result:
  assumes "pool_ok p" and "allocateOnce listens p = (p', r)"
  shows "pool_ok p' \<and> r = least listens (set (available p))
    \<and> (r = None \<longrightarrow> available p' = [] \<and> set (blocked p') = set (blocked p) \<union> set (available p)
         \<and> reserved p' = reserved p)
    \<and> (\<forall>port. r = Some port \<longrightarrow> listens port \<and> set (reserved p') = insert port (set (reserved p)))"
  using assms
proof (induction listens p rule: allocateOnce.induct)
  case (1 listens p)
  show ?case
  proof (cases "available p")
    case Nil
    then have "(p', r) = (p, None)"
      using "1.prems"(2) by (simp add: allocateOnce.simps [of listens p] take_port_def)
    with Nil "1.prems"(1) show ?thesis by (simp add: least_def)
  next
    case (Cons port rest)
    define q where "q = p\<lparr>available := rest, reserved := List.insert port (reserved p)\<rparr>"
    have t: "take_port p = (q, Some port)" by (simp add: take_port_def Cons q_def)
    have q: "pool_ok q" "set (reserved q) = insert port (set (reserved p))" "port \<notin> set (reserved p)"
      using pool_ok_take [OF "1.prems"(1) t] by auto
    have sorted: "sorted (port # rest)" "port \<notin> set rest"
      using "1.prems"(1) by (auto simp: pool_ok_def Cons)
    show ?thesis
    proof (cases "listens port")
      case True
      then have "(p', r) = (q, Some port)"
        using "1.prems"(2) by (simp add: allocateOnce.simps [of listens p] t)
      with True q sorted Cons show ?thesis by (simp add: least_Cons del: list.set)
    next
      case False
      let ?b = "block_port port q"
      have b: "pool_ok ?b" "reserved ?b = reserved p" "available ?b = rest"
        "set (blocked ?b) = insert port (set (blocked p))"
        using pool_ok_block [OF q(1), of port] q(2,3)
        by (simp_all add: block_port_def q_def)
      have "allocateOnce listens ?b = (p', r)"
        using "1.prems"(2) False by (simp add: allocateOnce.simps [of listens p] t)
      from "1.IH" [OF t [symmetric] refl False b(1) this] b sorted Cons False show ?thesis
        by (simp add: least_Cons del: list.set) auto
    qed
  qed
qed

lemma allocateOnce_bounds:
  "allocateOnce listens p = (p', r) \<Longrightarrow> pp_minPort p' = pp_minPort p \<and> pp_maxPort p' = pp_maxPort p"
proof (induction listens p rule: allocateOnce.induct)
  case (1 listens p)
  obtain q t where t: "take_port p = (q, t)" by (cases "take_port p")
  then have q: "pp_minPort q = pp_minPort p \<and> pp_maxPort q = pp_maxPort p"
    by (auto simp: take_port_def split: list.splits)
  show ?case
  proof (cases t)
    case None
    then show ?thesis using "1.prems" t q by (simp add: allocateOnce.simps [of listens p])
  next
    case (Some port)
    show ?thesis
    proof (cases "listens port")
      case True
      then show ?thesis using "1.prems" t q Some by (simp add: allocateOnce.simps [of listens p])
    next
      case False
      then have "allocateOnce listens (block_port port q) = (p', r)"
        using "1.prems" t Some by (simp add: allocateOnce.simps [of listens p])
      from "1.IH" [OF _ _ False this] t Some q show ?thesis by (simp add: block_port_def)
    qed
  qed
qed

lemma allocate_bounds:
  "allocate listens p = (p', r) \<Longrightarrow> pp_minPort p' = pp_minPort p \<and> pp_maxPort p' = pp_maxPort p"
  by (auto simp: allocate_def Let_def recycleBlockedLocked_def dest!: allocateOnce_bounds
      split: prod.splits option.splits if_splits)

lemma allocate_result:
  assumes "pool_ok p" and "allocate listens p = (p', r)"
  shows "r = (case least listens (set (available p)) of Some port \<Rightarrow> Some port
              | None \<Rightarrow> least listens (set (blocked p)))
    \<and> pool_ok p' \<and> (r = None \<longrightarrow> reserved p' = reserved p) \<and> (\<forall>port. r = Some port \<longrightarrow> port \<notin> set (reserved p)
         \<and> set (reserved p') = insert port (set (reserved p)))"
proof -
  obtain p1 r1 where once: "allocateOnce listens p = (p1, r1)"
    by (cases "allocateOnce listens p")
  note one = allocateOnce_result [OF assms(1) once]
  have unowned: "port \<notin> set (reserved p)" if "least listens (set (available p) \<union> set (blocked p)) = Some port" for port
  proof -
    have "Min {x \<in> set (available p) \<union> set (blocked p). listens x}
        \<in> {x \<in> set (available p) \<union> set (blocked p). listens x}"
      using that by (intro Min_in) (auto simp: least_def split: if_splits)
    with that assms(1) show ?thesis by (auto simp: least_def pool_ok_def split: if_splits)
  qed
  show ?thesis
  proof (cases r1)
    case (Some port)
    have "\<exists>x \<in> set (available p). listens x" "port = Min {x \<in> set (available p). listens x}"
      using one Some by (auto simp: least_def split: if_splits)
    then have "port \<in> {x \<in> set (available p). listens x}"
      using Min_in [of "{x \<in> set (available p). listens x}"] by auto
    then have "port \<notin> set (reserved p)" using assms(1) by (auto simp: pool_ok_def)
    moreover have "p' = p1" "r = Some port" "least listens (set (available p)) = Some port"
      using Some one once assms(2) by (auto simp: allocate_def)
    ultimately show ?thesis using one Some by simp
  next
    case None
    then have none: "\<forall>x \<in> set (available p). \<not> listens x" using one by (simp add: least_None)
    let ?q = "recycleBlockedLocked p1"
    have q: "pool_ok ?q" "reserved ?q = reserved p" "set (available ?q) = set (blocked p) \<union> set (available p)"
      using one None pool_ok_recycle [of p1] by (auto simp: recycleBlockedLocked_def)
    have same: "least listens (set (blocked p) \<union> set (available p)) = least listens (set (blocked p))"
    proof -
      have "{x \<in> set (blocked p) \<union> set (available p). listens x} = {x \<in> set (blocked p). listens x}"
        using none by auto
      then show ?thesis using none by (auto simp: least_def)
    qed
    have least_none: "least listens (set (available p)) = None" using none by (simp add: least_None)
    show ?thesis
    proof (cases "blocked p1 \<noteq> [] \<or> available p1 \<noteq> []")
      case True
      then have "allocateOnce listens ?q = (p', r)"
        using assms(2) once None by (simp add: allocate_def Let_def)
      from allocateOnce_result [OF q(1) this] q same least_none unowned show ?thesis
        by (auto simp: Un_commute)
    next
      case False
      then have "p' = ?q" "r = None" "set (blocked p) = {}"
        using assms(2) once None one by (auto simp: allocate_def Let_def)
      with q least_none show ?thesis by (simp add: least_def)
    qed
  qed
qed

text \<open>Ports never belong to two owners. However concurrent allocations, reservations of
  restored ports, recycling and releases interleave, at every moment each port of the range is
  in exactly one of the available (kept in order), reserved and blocked sets, and the reserved
  ones are exactly those under a probe and those owned by a caller, each once.\<close>

theorem ports_have_one_owner:
  assumes "pool_run \<lparr>pool = newPortPool host lo hi, probing = [], held = []\<rparr> s" and "0 < lo"
  shows "owners_ok s"
proof -
  have "owners_ok \<lparr>pool = newPortPool host lo hi, probing = [], held = []\<rparr>"
    using pool_ok_new [of host lo hi] by (simp add: owners_ok_def newPortPool_def)
  with owners_ok_run [OF assms(1)] assms(2) show ?thesis
    by (simp add: newPortPool_def)
qed

text \<open>\<open>allocate\<close> is complete: it returns the least available port that can be listened on, or
  else the least such port among those that were busy at an earlier probe, and it reports the
  pool exhausted only when no port that nobody owns can be listened on.\<close>

theorem allocate_complete:
  assumes "pool_ok p" and "allocate listens p = (p', r)"
  shows "r = (case least listens (set (available p)) of Some port \<Rightarrow> Some port
              | None \<Rightarrow> least listens (set (blocked p)))
    \<and> pool_ok p' \<and> (\<forall>port. r = Some port \<longrightarrow> port \<notin> set (reserved p)
         \<and> set (reserved p') = insert port (set (reserved p)))"
  using allocate_result [OF assms] by blast

lemma ports_have_one_owner_witness:
  "\<exists>s. pool_run \<lparr>pool = newPortPool [] 10 12, probing = [], held = []\<rparr> s
     \<and> held s = [10] \<and> probing s = [11] \<and> owners_ok s"
proof -
  let ?s0 = "\<lparr>pool = newPortPool [] 10 12, probing = [], held = []\<rparr>"
  obtain s1 where s1: "pool_step ?s0 s1" "held s1 = []" "probing s1 = [10]" "available (pool s1) = [11, 12]"
    using Take [of ?s0 "fst (take_port (pool ?s0))" 10] by (simp add: take_port_def newPortPool_def upto.simps)
  obtain s2 where s2: "pool_step s1 s2" "held s2 = [10]" "probing s2 = []" "available (pool s2) = [11, 12]"
    using Probe_ok [of 10 s1] s1 by simp
  obtain s3 where s3: "pool_step s2 s3" "held s3 = [10]" "probing s3 = [11]"
    using Take [of s2 "fst (take_port (pool s2))" 11] s2 by (simp add: take_port_def)
  have "pool_run ?s0 s3"
    using s1(1) s2(1) s3(1) by (meson run_step run_refl)
  then show ?thesis
    using s3 ports_have_one_owner [of "[]" 10 12 s3] by auto
qed

lemma allocate_complete_witness:
  "snd (allocate (\<lambda>port. port = 11) \<lparr>pp_host = [], pp_minPort = 10, pp_maxPort = 12, available = [12],
      reserved = [10], blocked = [11]\<rparr>) = Some 11"
  (is "snd (allocate _ ?p) = _")
proof -
  have "pool_ok ?p" by (auto simp: pool_ok_def)
  then show ?thesis
    using allocate_complete [of ?p "\<lambda>port. port = 11"]
    by (cases "allocate (\<lambda>port. port = 11) ?p") (simp add: least_def)
qed

text \<open>A port that was reserved for a restored binding and released can be reserved again.\<close>

lemma reserve_after_release:
  assumes "pool_ok p" and "0 < pp_minPort p" and "port \<in> set (reserved p)"
  shows "snd (reserve port (release port p)) = None"
proof -
  have "set (reserved p) \<subseteq> {pp_minPort p..pp_maxPort p}"
    using assms(1) by (auto simp: pool_ok_def)
  with assms show ?thesis by (auto simp: release_def reserve_def)
qed

end
