(* ===== verification/Binding_Store.thy ===== *)
theory Binding_Store
  imports Model "HOL-Library.Multiset"
begin

text \<open>
  The snapshot of the bindings on disk: \<^verbatim>\<open>src/internal/store/bindings.go\<close>, and the
  file of the trusted hosts, \<^verbatim>\<open>writeKnownHosts\<close> of
  \<^verbatim>\<open>src/internal/hostauth/store.go\<close>, which follows the same recipe without a backup.

  The directory is three files. A save is the list of file operations it performs, in order,
  together with its result; which system calls fail is an argument. A crash leaves the state
  after some prefix of that list: renames and removals are atomic and reach the disk in order,
  a file that was not synchronised may hold any prefix of what was written. The JSON encoder
  and decoder are an argument.
\<close>

section \<open>Files\<close>

datatype path = Primary | Backup | Temporary

type_synonym files = "path \<Rightarrow> bytes option"

datatype fs_op = Write path bytes | Remove path | Rename path path

fun fs_apply :: "fs_op \<Rightarrow> files \<Rightarrow> files" where
  "fs_apply (Write p content) d = d(p \<mapsto> content)"
| "fs_apply (Remove p) d = d(p := None)"
| "fs_apply (Rename p q) d = (case d p of None \<Rightarrow> d | Some content \<Rightarrow> d(q \<mapsto> content, p := None))"

definition fs_run :: "fs_op list \<Rightarrow> files \<Rightarrow> files" where
  "fs_run ops d = fold fs_apply ops d"

section \<open>Validation\<close>

record bindingSnapshot =
  sn_Version :: int
  sn_Bindings :: "Binding list"

abbreviation (input) bindingSchemaVersion :: int where "bindingSchemaVersion \<equiv> 1"

datatype store_error =
    IdentityIncomplete | BindingPortRange | DuplicateDevice | DuplicatePort
  | NotExist | DecodeError | UnsupportedVersion | LoadFailed
  | MkdirFailed | CreateFailed | WriteFailed | BackupFailed | ReplaceFailed

fun validate_loop ::
  "int \<Rightarrow> int \<Rightarrow> string list \<Rightarrow> int list \<Rightarrow> Binding list \<Rightarrow> store_error + Binding list" where
  "validate_loop lo hi deviceIDs ports [] = Inr []"
| "validate_loop lo hi deviceIDs ports (b # bs) =
     (if trim_space (bd_ID b) = [] \<or> trim_space (bd_DeviceID b) = [] \<or> trim_space (bd_PublicHost b) = []
      then Inl IdentityIncomplete
      else if bd_Port b < lo \<or> hi < bd_Port b then Inl BindingPortRange
      else if bd_DeviceID b \<in> set deviceIDs then Inl DuplicateDevice
      else if bd_Port b \<in> set ports then Inl DuplicatePort
      else case validate_loop lo hi (bd_DeviceID b # deviceIDs) (bd_Port b # ports) bs of
        Inl e \<Rightarrow> Inl e | Inr rest \<Rightarrow> Inr (b\<lparr>bd_Status := BindingReserved\<rparr> # rest))"

definition validate :: "int \<Rightarrow> int \<Rightarrow> Binding list \<Rightarrow> store_error + Binding list" where
  "validate lo hi bindings = (case validate_loop lo hi [] [] bindings of
     Inl e \<Rightarrow> Inl e | Inr result \<Rightarrow> Inr (sort_key bd_DeviceID result))"

section \<open>Loading\<close>

datatype json_next = NextEOF | NextError | NextValue

record json_codec =
  jc_encode :: "bindingSnapshot \<Rightarrow> bytes"
  jc_decode :: "bytes \<Rightarrow> (bindingSnapshot \<times> bytes) option"
  jc_next :: "bytes \<Rightarrow> json_next"

abbreviation (input) snapshotReadLimit :: nat where "snapshotReadLimit \<equiv> 4 * 1024 * 1024"

definition ensureJSONEOF :: "json_codec \<Rightarrow> bytes \<Rightarrow> bool" where
  "ensureJSONEOF jc rest \<longleftrightarrow> jc_next jc rest = NextEOF"

definition loadFile :: "json_codec \<Rightarrow> int \<Rightarrow> int \<Rightarrow> bytes option \<Rightarrow> store_error + Binding list" where
  "loadFile jc lo hi content = (case content of None \<Rightarrow> Inl NotExist
     | Some raw \<Rightarrow> (case jc_decode jc (take snapshotReadLimit raw) of None \<Rightarrow> Inl DecodeError
         | Some (snapshot, rest) \<Rightarrow>
             if sn_Version snapshot \<noteq> bindingSchemaVersion then Inl UnsupportedVersion
             else if \<not> ensureJSONEOF jc rest then Inl DecodeError
             else validate lo hi (sn_Bindings snapshot)))"

definition Load :: "json_codec \<Rightarrow> int \<Rightarrow> int \<Rightarrow> files \<Rightarrow> store_error + Binding list" where
  "Load jc lo hi d =
     (case loadFile jc lo hi (d Primary) of Inr bindings \<Rightarrow> Inr bindings
      | Inl primaryErr \<Rightarrow> (case loadFile jc lo hi (d Backup) of Inr bindings \<Rightarrow> Inr bindings
          | Inl backupErr \<Rightarrow>
              if primaryErr = NotExist \<and> backupErr = NotExist then Inr [] else Inl LoadFailed))"

section \<open>Saving\<close>

text \<open>Which system calls succeed, and how much of the file had been written when the write was
  interrupted or the machine stopped.\<close>

record save_env =
  sv_mkdir :: bool
  sv_create :: bool
  sv_write :: bool
  sv_partial :: nat
  sv_removeBackup :: bool
  sv_renameBackup :: bool
  sv_renamePrimary :: bool
  sv_restore :: bool

definition save_ops :: "save_env \<Rightarrow> bytes \<Rightarrow> files \<Rightarrow> fs_op list \<times> store_error option" where
  "save_ops e data d =
     (if \<not> sv_mkdir e then ([], Some MkdirFailed)
      else if \<not> sv_create e then ([], Some CreateFailed)
      else let created = [Write Temporary [], Write Temporary (take (sv_partial e) data)]
      in if \<not> sv_write e then (created @ [Remove Temporary], Some WriteFailed)
      else let written = created @ [Write Temporary data] @ (if sv_removeBackup e then [Remove Backup] else [])
      in if d Primary \<noteq> None \<and> \<not> sv_renameBackup e
         then (written @ [Remove Temporary], Some BackupFailed)
         else let moved = written @ (if d Primary \<noteq> None then [Rename Primary Backup] else [])
         in if \<not> sv_renamePrimary e
            then (moved @ (if sv_restore e then [Rename Backup Primary] else []) @ [Remove Temporary],
                  Some ReplaceFailed)
            else (moved @ [Rename Temporary Primary], None))"

definition Save ::
  "json_codec \<Rightarrow> int \<Rightarrow> int \<Rightarrow> save_env \<Rightarrow> Binding list \<Rightarrow> files \<Rightarrow> fs_op list \<times> store_error option" where
  "Save jc lo hi e bindings d = (case validate lo hi bindings of Inl err \<Rightarrow> ([], Some err)
     | Inr normalized \<Rightarrow>
         save_ops e (jc_encode jc \<lparr>sn_Version = bindingSchemaVersion, sn_Bindings = normalized\<rparr>) d)"

section \<open>Trusted hosts\<close>

definition writeKnownHosts :: "save_env \<Rightarrow> bytes \<Rightarrow> fs_op list \<times> bool" where
  "writeKnownHosts e data =
     (if \<not> sv_create e then ([], False)
      else let created = [Write Temporary [], Write Temporary (take (sv_partial e) data)]
      in if \<not> sv_write e then (created @ [Remove Temporary], False)
      else if \<not> sv_renamePrimary e then (created @ [Write Temporary data, Remove Temporary], False)
      else (created @ [Write Temporary data, Rename Temporary Primary], True))"


section \<open>What validation accepts\<close>

definition binding_valid :: "int \<Rightarrow> int \<Rightarrow> Binding \<Rightarrow> bool" where
  "binding_valid lo hi b \<longleftrightarrow> trim_space (bd_ID b) \<noteq> [] \<and> trim_space (bd_DeviceID b) \<noteq> []
     \<and> trim_space (bd_PublicHost b) \<noteq> [] \<and> lo \<le> bd_Port b \<and> bd_Port b \<le> hi"

definition bindings_valid :: "int \<Rightarrow> int \<Rightarrow> Binding list \<Rightarrow> bool" where
  "bindings_valid lo hi bs \<longleftrightarrow> list_all (binding_valid lo hi) bs
     \<and> distinct (map bd_DeviceID bs) \<and> distinct (map bd_Port bs)"

definition stored_form :: "Binding list \<Rightarrow> Binding list" where
  "stored_form bs = sort_key bd_DeviceID (map (\<lambda>b. b\<lparr>bd_Status := BindingReserved\<rparr>) bs)"

lemma validate_loop_iff:
  "validate_loop lo hi ds ps bs = Inr r \<longleftrightarrow> r = map (\<lambda>b. b\<lparr>bd_Status := BindingReserved\<rparr>) bs
     \<and> bindings_valid lo hi bs \<and> set (map bd_DeviceID bs) \<inter> set ds = {}
     \<and> set (map bd_Port bs) \<inter> set ps = {}"
proof (induction lo hi ds ps bs arbitrary: r rule: validate_loop.induct)
  case (1 lo hi ds ps)
  then show ?case by (auto simp: bindings_valid_def)
next
  case (2 lo hi ds ps b bs)
  show ?case
  proof (cases "binding_valid lo hi b \<and> bd_DeviceID b \<notin> set ds \<and> bd_Port b \<notin> set ps")
    case True
    then have loop: "validate_loop lo hi ds ps (b # bs)
        = (case validate_loop lo hi (bd_DeviceID b # ds) (bd_Port b # ps) bs of
            Inl e \<Rightarrow> Inl e | Inr rest \<Rightarrow> Inr (b\<lparr>bd_Status := BindingReserved\<rparr> # rest))"
      by (auto simp: binding_valid_def)
    have IH: "validate_loop lo hi (bd_DeviceID b # ds) (bd_Port b # ps) bs = Inr x \<longleftrightarrow>
        x = map (\<lambda>b. b\<lparr>bd_Status := BindingReserved\<rparr>) bs \<and> bindings_valid lo hi bs
        \<and> set (map bd_DeviceID bs) \<inter> set (bd_DeviceID b # ds) = {}
        \<and> set (map bd_Port bs) \<inter> set (bd_Port b # ps) = {}" for x
      using True "2.IH" by (auto simp: binding_valid_def)
    have valid: "bindings_valid lo hi (b # bs) \<longleftrightarrow> bindings_valid lo hi bs
        \<and> bd_DeviceID b \<notin> set (map bd_DeviceID bs) \<and> bd_Port b \<notin> set (map bd_Port bs)"
      using True by (auto simp: bindings_valid_def)
    show ?thesis
    proof (cases "validate_loop lo hi (bd_DeviceID b # ds) (bd_Port b # ps) bs")
      case (Inl e)
      with IH have "\<not> (bindings_valid lo hi bs
        \<and> set (map bd_DeviceID bs) \<inter> set (bd_DeviceID b # ds) = {}
        \<and> set (map bd_Port bs) \<inter> set (bd_Port b # ps) = {})" by simp
      with True show ?thesis unfolding loop Inl valid by auto
    next
      case (Inr x)
      with IH [of x] have "x = map (\<lambda>b. b\<lparr>bd_Status := BindingReserved\<rparr>) bs" "bindings_valid lo hi bs"
        "set (map bd_DeviceID bs) \<inter> set (bd_DeviceID b # ds) = {}"
        "set (map bd_Port bs) \<inter> set (bd_Port b # ps) = {}" by simp_all
      with True show ?thesis unfolding loop Inr valid by auto
    qed
  next
    case False
    then have "\<exists>e. validate_loop lo hi ds ps (b # bs) = Inl e"
      by (auto simp: binding_valid_def)
    with False show ?thesis by (auto simp: bindings_valid_def)
  qed
qed

lemma validate_iff: "validate lo hi bs = Inr r \<longleftrightarrow> r = stored_form bs \<and> bindings_valid lo hi bs"
  by (auto simp: validate_def stored_form_def validate_loop_iff split: sum.splits)
    (metis validate_loop_iff sum.distinct(1) empty_set inf_bot_right)

lemma bindings_valid_normalize [simp]: "bindings_valid lo hi (stored_form bs) = bindings_valid lo hi bs"
proof -
  have p: "mset (stored_form bs) = mset (map (\<lambda>b. b\<lparr>bd_Status := BindingReserved\<rparr>) bs)"
    by (simp add: stored_form_def)
  then have "mset (map f (stored_form bs)) = mset (map f (map (\<lambda>b. b\<lparr>bd_Status := BindingReserved\<rparr>) bs))"
    for f :: "Binding \<Rightarrow> 'b" by (simp only: mset_map)
  then have d: "distinct (map f (stored_form bs)) = distinct (map f (map (\<lambda>b. b\<lparr>bd_Status := BindingReserved\<rparr>) bs))"
    for f :: "Binding \<Rightarrow> 'b" by (metis mset_eq_imp_distinct_iff)
  from p have "set (stored_form bs) = (\<lambda>b. b\<lparr>bd_Status := BindingReserved\<rparr>) ` set bs"
    by (metis mset_eq_setD set_map)
  then show ?thesis
    using d [of bd_DeviceID] d [of bd_Port]
    by (simp add: bindings_valid_def list_all_iff binding_valid_def comp_def)
qed

lemma normalize_idem [simp]: "stored_form (stored_form bs) = stored_form bs"
proof -
  have "map (\<lambda>b. b\<lparr>bd_Status := BindingReserved\<rparr>) (stored_form bs) = stored_form bs"
    by (rule map_idI) (auto simp: stored_form_def)
  then have "stored_form (stored_form bs) = sort_key bd_DeviceID (stored_form bs)"
    unfolding stored_form_def [of "stored_form bs"] by simp
  then show ?thesis
    by (simp add: stored_form_def sort_key_id_if_sorted)
qed


section \<open>Crashes\<close>

text \<open>What the directory holds after a crash: the effect of some prefix of the operations.\<close>

definition crash_states :: "fs_op list \<Rightarrow> files \<Rightarrow> files set" where
  "crash_states ops d = (\<lambda>n. fs_run (take n ops) d) ` UNIV"

lemma crash_Nil [simp]: "crash_states [] d = {d}"
  by (simp add: crash_states_def fs_run_def)

lemma crash_Cons [simp]: "crash_states (opr # ops) d = insert d (crash_states ops (fs_apply opr d))"
proof -
  have "(\<lambda>n. fs_run (take n (opr # ops)) d) ` UNIV
      = insert (fs_run [] d) ((\<lambda>n. fs_run (take n (opr # ops)) d) ` Suc ` UNIV)"
  proof -
    have nats: "(UNIV :: nat set) = insert 0 (range Suc)"
    proof (rule set_eqI)
      fix n :: nat
      show "n \<in> UNIV \<longleftrightarrow> n \<in> insert 0 (range Suc)" by (cases n) simp_all
    qed
    show ?thesis by (subst (1) nats) simp
  qed
  then show ?thesis
    by (simp add: crash_states_def image_image fs_run_def)
qed

lemma fs_run_simps [simp]:
  "fs_run [] d = d" "fs_run (opr # ops) d = fs_run ops (fs_apply opr d)"
  by (simp_all add: fs_run_def)

lemma save_crash_states:
  assumes "d Primary = Some old" and "d' \<in> crash_states (fst (save_ops e data d)) d"
  shows "d' Primary = Some old \<or> d' Primary = None \<and> d' Backup = Some old \<or> d' Primary = Some data"
  using assms by (auto simp: save_ops_def Let_def split: if_splits)

lemma save_success:
  "snd (save_ops e data d) = None \<Longrightarrow> fs_run (fst (save_ops e data d)) d Primary = Some data"
  by (auto simp: save_ops_def Let_def split: if_splits option.splits)

text \<open>The codec reads back what it wrote, and the file is within the limit of \<open>loadFile\<close>.\<close>

definition codec_reads :: "json_codec \<Rightarrow> bindingSnapshot \<Rightarrow> bool" where
  "codec_reads jc snapshot \<longleftrightarrow> length (jc_encode jc snapshot) \<le> snapshotReadLimit
     \<and> (\<exists>rest. jc_decode jc (jc_encode jc snapshot) = Some (snapshot, rest) \<and> jc_next jc rest = NextEOF)"

lemma loadFile_saved:
  assumes "bindings_valid lo hi bs"
    and "codec_reads jc \<lparr>sn_Version = bindingSchemaVersion, sn_Bindings = stored_form bs\<rparr>"
  shows "loadFile jc lo hi
    (Some (jc_encode jc \<lparr>sn_Version = bindingSchemaVersion, sn_Bindings = stored_form bs\<rparr>)) = Inr (stored_form bs)"
  using assms by (auto simp: loadFile_def codec_reads_def ensureJSONEOF_def validate_iff)

lemma Save_Load:
  assumes "Save jc lo hi e bs d = (ops, None)"
    and "codec_reads jc \<lparr>sn_Version = bindingSchemaVersion, sn_Bindings = stored_form bs\<rparr>"
  shows "Load jc lo hi (fs_run ops d) = Inr (stored_form bs)"
proof -
  obtain r where "validate lo hi bs = Inr r"
    using assms(1) by (auto simp: Save_def split: sum.splits)
  then have v: "validate lo hi bs = Inr (stored_form bs)" "bindings_valid lo hi bs"
    by (auto simp: validate_iff)
  have "snd (save_ops e (jc_encode jc \<lparr>sn_Version = bindingSchemaVersion, sn_Bindings = stored_form bs\<rparr>) d) = None"
    "ops = fst (save_ops e (jc_encode jc \<lparr>sn_Version = bindingSchemaVersion, sn_Bindings = stored_form bs\<rparr>) d)"
    using assms(1) v by (simp_all add: Save_def)
  then have "fs_run ops d Primary
      = Some (jc_encode jc \<lparr>sn_Version = bindingSchemaVersion, sn_Bindings = stored_form bs\<rparr>)"
    using save_success by simp
  then show ?thesis
    using loadFile_saved [OF v(2) assms(2)] by (simp add: Load_def)
qed

text \<open>C25: A save that reports success is read back: whatever the directory held before, \<open>Load\<close> then
  returns the saved bindings, in the order of their devices and all marked reserved.\<close>

theorem Save_Load_roundtrip:
  assumes "Save jc lo hi e bs d = (ops, None)"
    and "codec_reads jc \<lparr>sn_Version = bindingSchemaVersion, sn_Bindings = stored_form bs\<rparr>"
  shows "Load jc lo hi (fs_run ops d) = Inr (stored_form bs)"
  using Save_Load [OF assms] .

text \<open>C26: A save is atomic under a crash when the primary file is good: wherever the machine stops,
  and whatever system calls of the save failed before, the next \<open>Load\<close> returns the bindings of
  the old primary file or the new ones, never an error and never an empty set.\<close>

theorem Save_crash_consistent:
  assumes "loadFile jc lo hi (d Primary) = Inr old"
    and "Save jc lo hi e bs d = (ops, result)" and "d' \<in> crash_states ops d"
    and "codec_reads jc \<lparr>sn_Version = bindingSchemaVersion, sn_Bindings = stored_form bs\<rparr>"
  shows "Load jc lo hi d' = Inr old \<or> Load jc lo hi d' = Inr (stored_form bs)"
proof (cases "validate lo hi bs")
  case (Inl err)
  with assms show ?thesis by (simp add: Save_def Load_def)
next
  case (Inr r)
  then have v: "r = stored_form bs" "bindings_valid lo hi bs" by (simp_all add: validate_iff)
  let ?data = "jc_encode jc \<lparr>sn_Version = bindingSchemaVersion, sn_Bindings = stored_form bs\<rparr>"
  from assms(1) obtain raw where raw: "d Primary = Some raw"
    by (auto simp: loadFile_def split: option.splits)
  have "d' \<in> crash_states (fst (save_ops e ?data d)) d"
    using assms(2,3) Inr v by (simp add: Save_def)
  from save_crash_states [where d = d, OF raw this] consider "d' Primary = Some raw"
    | "d' Primary = None" "d' Backup = Some raw" | "d' Primary = Some ?data"
    by (elim disjE conjE)
  then show ?thesis
  proof cases
    case 1
    with assms(1) raw show ?thesis by (simp add: Load_def)
  next
    case 2
    then have "loadFile jc lo hi (d' Primary) = Inl NotExist" by (simp add: loadFile_def)
    with 2 assms(1) raw show ?thesis by (simp add: Load_def)
  next
    case 3
    with loadFile_saved [OF v(2) assms(4)] show ?thesis by (simp add: Load_def)
  qed
qed

text \<open>A second crash loses the bindings. From a directory with a good primary file, a save that
  stops between its two renames leaves the bindings in the backup only, from where \<open>Load\<close> reads
  them; the next save begins by removing the backup, and if it stops before its last rename,
  \<open>Load\<close> finds neither file and reports a first start with no bindings.\<close>

theorem second_crash_loses_bindings:
  assumes "loadFile jc lo hi (d Primary) = Inr old" and "bindings_valid lo hi bs"
    and "Save jc lo hi (save_env.make True True True 0 True True True True) bs d = (ops, result)"
  shows "\<exists>d1 \<in> crash_states ops d. Load jc lo hi d1 = Inr old
    \<and> (\<exists>d2 \<in> crash_states (fst (Save jc lo hi (save_env.make True True True 0 True True True True) bs d1)) d1.
         Load jc lo hi d2 = Inr [])"
proof -
  let ?data = "jc_encode jc \<lparr>sn_Version = bindingSchemaVersion, sn_Bindings = stored_form bs\<rparr>"
  have v: "validate lo hi bs = Inr (stored_form bs)" using assms(2) by (simp add: validate_iff)
  from assms(1) obtain raw where raw: "d Primary = Some raw"
    by (auto simp: loadFile_def split: option.splits)
  define d1 where "d1 = d(Temporary \<mapsto> ?data, Backup \<mapsto> raw, Primary := None)"
  define d2 where "d2 = d1(Backup := None)"
  have "d1 \<in> crash_states ops d"
    using assms(3) v raw by (auto simp: Save_def save_ops_def save_env.make_def Let_def d1_def fun_eq_iff)
  moreover have "Load jc lo hi d1 = Inr old"
    using assms(1) raw by (simp add: Load_def d1_def loadFile_def [of _ _ _ None])
  moreover have "d2 \<in> crash_states (fst (Save jc lo hi (save_env.make True True True 0 True True True True) bs d1)) d1"
    using v by (auto simp: Save_def save_ops_def save_env.make_def Let_def d1_def d2_def fun_eq_iff)
  moreover have "Load jc lo hi d2 = Inr []"
    by (simp add: Load_def d2_def d1_def loadFile_def)
  ultimately show ?thesis by blast
qed

text \<open>The file of the trusted hosts is replaced atomically: wherever the machine stops, it
  holds the old or the new contents, and after a reported success the new ones.\<close>

theorem writeKnownHosts_atomic:
  assumes "writeKnownHosts e data = (ops, ok)"
  shows "(\<forall>d' \<in> crash_states ops d. d' Primary = d Primary \<or> d' Primary = Some data)
    \<and> (ok \<longrightarrow> fs_run ops d Primary = Some data) \<and> (\<not> ok \<longrightarrow> fs_run ops d Primary = d Primary)"
  using assms by (auto simp: writeKnownHosts_def Let_def split: if_splits)


section \<open>Witnesses\<close>

definition demo_binding :: Binding where
  "demo_binding = \<lparr>bd_ID = ''b'', bd_DeviceID = ''d'', bd_PublicHost = ''h'', bd_Port = 10,
     bd_Status = BindingReserved, bd_CreatedAt = 0, bd_UpdatedAt = 0\<rparr>"

text \<open>A codec that knows one snapshot, and reads the byte 2 as an older, empty one.\<close>

definition demo_codec :: json_codec where
  "demo_codec = \<lparr>jc_encode = (\<lambda>_. [1]),
     jc_decode = (\<lambda>raw. if raw = [1] then Some (\<lparr>sn_Version = 1, sn_Bindings = [demo_binding]\<rparr>, [])
                   else if raw = [2] then Some (\<lparr>sn_Version = 1, sn_Bindings = []\<rparr>, []) else None),
     jc_next = (\<lambda>_. NextEOF)\<rparr>"

abbreviation (input) all_ok :: save_env where
  "all_ok \<equiv> save_env.make True True True 0 True True True True"

lemma demo_valid: "bindings_valid 1 100 [demo_binding]"
  by code_simp

lemma demo_stored: "stored_form [demo_binding] = [demo_binding]"
  by (simp add: stored_form_def demo_binding_def)

lemma demo_reads:
  "codec_reads demo_codec \<lparr>sn_Version = 1, sn_Bindings = stored_form [demo_binding]\<rparr>"
  by (simp add: codec_reads_def demo_codec_def demo_stored)

lemma demo_old: "loadFile demo_codec 1 100 (Some [2]) = Inr []"
  by (simp add: loadFile_def demo_codec_def ensureJSONEOF_def validate_def)

lemma Save_Load_roundtrip_witness:
  "Load demo_codec 1 100 (fs_run (fst (Save demo_codec 1 100 all_ok [demo_binding] [Primary \<mapsto> [2]])) [Primary \<mapsto> [2]])
     = Inr [demo_binding]"
proof -
  have "snd (Save demo_codec 1 100 all_ok [demo_binding] [Primary \<mapsto> [2]]) = None"
    using demo_valid by (simp add: Save_def validate_iff [THEN iffD2] save_ops_def save_env.make_def Let_def)
  then have "Save demo_codec 1 100 all_ok [demo_binding] [Primary \<mapsto> [2]]
      = (fst (Save demo_codec 1 100 all_ok [demo_binding] [Primary \<mapsto> [2]]), None)"
    by (simp add: prod_eq_iff)
  from Save_Load_roundtrip [OF this demo_reads] show ?thesis by (simp add: demo_stored)
qed

lemma Save_crash_consistent_witness:
  "Load demo_codec 1 100 ([Temporary \<mapsto> [1], Backup \<mapsto> [2]]) \<in> {Inr [], Inr [demo_binding]}"
proof -
  have "[Temporary \<mapsto> [1], Backup \<mapsto> [2]]
      \<in> crash_states (fst (Save demo_codec 1 100 all_ok [demo_binding] [Primary \<mapsto> [2]])) [Primary \<mapsto> [2]]"
    using demo_valid
    by (simp add: Save_def validate_iff [THEN iffD2] save_ops_def save_env.make_def Let_def demo_codec_def fun_eq_iff)
  from Save_crash_consistent [OF _ prod.collapse [symmetric] this demo_reads, of "[]"] demo_old show ?thesis
    by (simp add: demo_stored)
qed

lemma second_crash_loses_bindings_witness:
  "\<exists>d1. Load demo_codec 1 100 d1 = Inr [demo_binding]
    \<and> (\<exists>d2 \<in> crash_states (fst (Save demo_codec 1 100 all_ok [demo_binding] d1)) d1.
         Load demo_codec 1 100 d2 = Inr [])"
proof -
  have "loadFile demo_codec 1 100 ([Primary \<mapsto> [1]] Primary) = Inr [demo_binding]"
    using loadFile_saved [OF demo_valid demo_reads] by (simp add: demo_stored demo_codec_def)
  from second_crash_loses_bindings [where d = "[Primary \<mapsto> [1]]", OF this demo_valid prod.collapse [symmetric]] show ?thesis
    by blast
qed

lemma writeKnownHosts_atomic_witness:
  "fs_run (fst (writeKnownHosts all_ok [7])) [Primary \<mapsto> [1]] Primary = Some [7]"
  using writeKnownHosts_atomic [OF prod.collapse [symmetric], of all_ok "[7]" "[Primary \<mapsto> [1]]"]
  by (simp add: writeKnownHosts_def save_env.make_def)

end
