(* ===== verification/Host_Client.thy ===== *)
theory Host_Client
  imports Wire Model
begin

text \<open>
  The client of the main HDC server: \<^verbatim>\<open>src/internal/hdc/host.go\<close> and
  \<^verbatim>\<open>channel.go\<close>: channel frames, the handshake that selects a device, and the
  parser of \<^verbatim>\<open>list targets -v\<close>.

  A connection is a byte stream: what is left to read, and what has been written. Dialling and
  deadlines are the library's; whether they and the writes succeed is an argument.
\<close>

section \<open>Channel frames\<close>

datatype host_error =
    HostEOF | HostPayloadLimit | HostPayloadTooLarge | HandshakeTooShort | BannerMismatch
  | DialFailed | HostWriteFailed | ConnectKeyRequired | CommandRequired | DeadlineFailed
  | CommandFailed string

definition readChannelFrame :: "int \<Rightarrow> bytes \<Rightarrow> host_error + bytes \<times> bytes" where
  "readChannelFrame maxPayloadBytes stream =
     (if length stream < 4 then Inl HostEOF
      else let len = get_be32 (take 4 stream)
      in if (word_of_int maxPayloadBytes :: u64) < ucast len then Inl HostPayloadLimit
      else if length (drop 4 stream) < unat len then Inl HostEOF
      else Inr (take (unat len) (drop 4 stream), drop (4 + unat len) stream))"

definition writeChannelFrame :: "bytes \<Rightarrow> host_error + bytes" where
  "writeChannelFrame payload =
     (if 2 ^ 32 - 1 < length payload then Inl HostPayloadTooLarge
      else Inr (put_be32 (of_nat (length payload)) @ payload))"

section \<open>Channel handshake\<close>

abbreviation (input) channelHandshakeMinBytes :: nat where "channelHandshakeMinBytes \<equiv> 44"
abbreviation (input) channelHandshakeKeyStart :: nat where "channelHandshakeKeyStart \<equiv> 12"
abbreviation (input) channelHandshakeKeyBytes :: nat where "channelHandshakeKeyBytes \<equiv> 32"

definition buildClientHandshake :: "bytes \<Rightarrow> string \<Rightarrow> host_error + bytes" where
  "buildClientHandshake serverHandshake connectKey =
     (if length serverHandshake < channelHandshakeMinBytes then Inl HandshakeTooShort
      else if string_of (take 8 serverHandshake) \<noteq> ''OHOS HDC'' then Inl BannerMismatch
      else let keyBytes = take channelHandshakeKeyBytes (bytes_of connectKey)
      in Inr (take channelHandshakeKeyStart serverHandshake
              @ keyBytes @ replicate (channelHandshakeKeyBytes - length keyBytes) 0
              @ drop (channelHandshakeKeyStart + channelHandshakeKeyBytes) serverHandshake))"

text \<open>The exchange on a fresh connection: the server's frame is read, the answer is written.
  The result is the rest of the server's stream and what was sent.\<close>

definition openChannel ::
  "int \<Rightarrow> bool \<Rightarrow> bool \<Rightarrow> bytes \<Rightarrow> string \<Rightarrow> host_error + bytes \<times> bytes" where
  "openChannel maxPayloadBytes dial_ok write_ok stream connectKey =
     (if \<not> dial_ok then Inl DialFailed
      else case readChannelFrame maxPayloadBytes stream of Inl e \<Rightarrow> Inl e
      | Inr (serverHandshake, rest) \<Rightarrow>
          (case buildClientHandshake serverHandshake connectKey of Inl e \<Rightarrow> Inl e
           | Inr clientHandshake \<Rightarrow>
               (case writeChannelFrame clientHandshake of Inl e \<Rightarrow> Inl e
                | Inr frame \<Rightarrow> if write_ok then Inr (rest, frame) else Inl HostWriteFailed)))"

definition sendCommand ::
  "int \<Rightarrow> bool \<Rightarrow> bool \<Rightarrow> bytes \<Rightarrow> string \<Rightarrow> string \<Rightarrow> host_error + bytes \<times> bytes" where
  "sendCommand maxPayloadBytes dial_ok write_ok stream command connectKey =
     (case openChannel maxPayloadBytes dial_ok write_ok stream connectKey of Inl e \<Rightarrow> Inl e
      | Inr (rest, sent) \<Rightarrow>
          (case writeChannelFrame (bytes_of command @ [0]) of Inl e \<Rightarrow> Inl e
           | Inr frame \<Rightarrow>
               (case readChannelFrame maxPayloadBytes rest of Inl e \<Rightarrow> Inl e
                | Inr (payload, _) \<Rightarrow>
                    if has_prefix (string_of payload) ''[Fail]''
                    then Inl (CommandFailed (trim_space (string_of payload)))
                    else Inr (payload, sent @ frame))))"

definition OpenTarget ::
  "int \<Rightarrow> bool \<Rightarrow> bool \<Rightarrow> bool \<Rightarrow> bytes \<Rightarrow> string \<Rightarrow> string \<Rightarrow> host_error + bytes \<times> bytes" where
  "OpenTarget maxPayloadBytes dial_ok write_ok deadline_ok stream connectKey command =
     (if trim_space connectKey = [] then Inl ConnectKeyRequired
      else if trim_space command = [] then Inl CommandRequired
      else case openChannel maxPayloadBytes dial_ok write_ok stream connectKey of Inl e \<Rightarrow> Inl e
      | Inr (rest, sent) \<Rightarrow>
          (case writeChannelFrame (bytes_of command @ [0]) of Inl e \<Rightarrow> Inl e
           | Inr frame \<Rightarrow> if deadline_ok then Inr (rest, sent @ frame) else Inl DeadlineFailed))"

definition commandHead :: "string \<Rightarrow> string" where
  "commandHead command = (case str_fields (trim_space command) of [] \<Rightarrow> [] | f # _ \<Rightarrow> f)"

section \<open>Target list\<close>

fun transport_string :: "Transport \<Rightarrow> string" where
  "transport_string TransportUSB = ''USB''"
| "transport_string TransportTCP = ''TCP''"
| "transport_string TransportUnknown = ''UNKNOWN''"

fun status_string :: "TargetStatus \<Rightarrow> string" where
  "status_string TargetOnline = ''ONLINE''"
| "status_string TargetOffline = ''OFFLINE''"
| "status_string TargetUnauthorized = ''UNAUTHORIZED''"
| "status_string TargetUnknown = ''UNKNOWN''"

text \<open>One turn of the loop of \<^verbatim>\<open>classifyTarget\<close>.\<close>

definition classify_field :: "string \<Rightarrow> Transport \<times> TargetStatus \<Rightarrow> Transport \<times> TargetStatus" where
  "classify_field field ts =
     (let normalized = to_lower (trim_space field)
      in if normalized = ''usb'' then (TransportUSB, snd ts)
         else if normalized = ''tcp'' \<or> normalized = ''tcpip'' then (TransportTCP, snd ts)
         else if normalized = ''online'' \<or> normalized = ''connected'' then (fst ts, TargetOnline)
         else if normalized = ''offline'' \<or> normalized = ''disconnected'' then (fst ts, TargetOffline)
         else if normalized = ''unauthorized'' then (fst ts, TargetUnauthorized)
         else ts)"

definition classifyTarget :: "string list \<Rightarrow> string \<Rightarrow> Transport \<times> TargetStatus" where
  "classifyTarget columns line =
     (let (transport, status) = fold classify_field columns (TransportUnknown, TargetUnknown);
          lowerLine = to_lower line;
          status = (if status \<noteq> TargetUnknown then status
            else if contains_str lowerLine ''unauthorized'' then TargetUnauthorized
            else if contains_str lowerLine ''offline'' \<or> contains_str lowerLine ''disconnect'' then TargetOffline
            else if length columns = 1 then TargetOnline else status);
          transport = (if transport \<noteq> TransportUnknown then transport
            else if contains_str lowerLine ''usb'' then TransportUSB
            else if contains_str lowerLine ''tcp'' then TransportTCP else transport)
      in (transport, status))"

definition targetModel :: "string list \<Rightarrow> Transport \<Rightarrow> TargetStatus \<Rightarrow> string" where
  "targetModel columns transport status =
     (case find (\<lambda>field. let value = trim_space field; normalized = to_lower value
          in \<not> (value = [] \<or> EqualFold value (transport_string transport)
              \<or> EqualFold value (status_string status) \<or> normalized = ''connected''
              \<or> normalized = ''disconnected'' \<or> normalized = ''unauthorized'' \<or> EqualFold value ''hdc''))
        (tl columns) of None \<Rightarrow> [] | Some field \<Rightarrow> trim_space field)"

definition id_char :: "char \<Rightarrow> bool" where
  "id_char c \<longleftrightarrow> (CHR ''a'' \<le> c \<and> c \<le> CHR ''z'') \<or> (CHR ''A'' \<le> c \<and> c \<le> CHR ''Z'')
     \<or> (CHR ''0'' \<le> c \<and> c \<le> CHR ''9'') \<or> c \<in> set ''._:-''"

function safe_chars :: "string \<Rightarrow> string" where
  "safe_chars [] = []"
| "safe_chars (c # s) =
     (if id_char c then c # safe_chars s
      else CHR ''-'' # safe_chars (drop (rune_len (c # s) - 1) s))"
  by pat_completeness auto
termination
  by (relation "measure length") auto

definition normalize_id :: "string \<Rightarrow> string" where
  "normalize_id value =
     (let value = trim_space value
      in if value = [] then ''unknown''
         else let result = safe_chars value in if result = [] then ''unknown'' else result)"

definition scopedID :: "string \<Rightarrow> string \<Rightarrow> string" where
  "scopedID serverNode rawID = normalize_id serverNode @ CHR '':'' # normalize_id rawID"

definition parse_target :: "string \<Rightarrow> time \<Rightarrow> string \<Rightarrow> Device option" where
  "parse_target serverNode now rawLine =
     (let line = trim_space rawLine
      in if line = [] \<or> line = ''[Empty]'' \<or> has_prefix line ''[Info]'' \<or> has_prefix line ''[Fail]''
         then None
         else let columns = split_char (CHR 0x09) rawLine; connectKey = trim_space (hd columns)
         in if connectKey = [] then None
            else let (transport, status) = classifyTarget columns line
            in Some \<lparr>dv_ID = scopedID serverNode connectKey, dv_ConnectKey = connectKey,
                 dv_Transport = transport, dv_Status = status,
                 dv_Model = targetModel columns transport status, dv_ServerNode = serverNode,
                 dv_UpdatedAt = now\<rparr>)"

definition parseTargets :: "string \<Rightarrow> time \<Rightarrow> bytes \<Rightarrow> Device list" where
  "parseTargets serverNode now raw =
     List.map_filter (parse_target serverNode now)
       (split_char (CHR 0x0A) (filter (\<lambda>c. c \<noteq> CHR 0x0D) (string_of raw)))"

definition ListTargets ::
  "int \<Rightarrow> string \<Rightarrow> time \<Rightarrow> bool \<Rightarrow> bool \<Rightarrow> bytes \<Rightarrow> host_error + Device list" where
  "ListTargets maxPayloadBytes serverNode now dial_ok write_ok stream =
     (case sendCommand maxPayloadBytes dial_ok write_ok stream ''list targets -v'' [] of
        Inl e \<Rightarrow> Inl e | Inr (payload, _) \<Rightarrow> Inr (parseTargets serverNode now payload))"


section \<open>Lemmas\<close>

lemma readChannelFrame_write:
  assumes "length payload < 2 ^ 32" and "int (length payload) \<le> maxPayloadBytes"
    and "maxPayloadBytes < 2 ^ 63"
  shows "readChannelFrame maxPayloadBytes (put_be32 (of_nat (length payload)) @ payload @ rest)
    = Inr (payload, rest)"
proof -
  have len: "unat (of_nat (length payload) :: u32) = length payload"
    using assms(1) by (simp add: unat_of_nat)
  have "\<not> (word_of_int maxPayloadBytes :: u64) < ucast (of_nat (length payload) :: u32)"
  proof -
    have "uint (word_of_int maxPayloadBytes :: u64) = maxPayloadBytes"
      using assms by (simp add: uint_word_of_int take_bit_int_eq_self)
    moreover have "uint (ucast (of_nat (length payload) :: u32) :: u64) = int (length payload)"
    proof -
      have w: "uint (of_nat (length payload) :: u32) = int (length payload)"
        using len by (simp only: uint_nat)
      have "uint (ucast (of_nat (length payload) :: u32) :: u64)
          = take_bit 64 (uint (of_nat (length payload) :: u32))"
        by (simp add: unsigned_ucast_eq)
      also have "\<dots> = int (length payload)"
        unfolding w by (rule take_bit_int_eq_self) (use assms(1) in simp_all)
      finally show ?thesis .
    qed
    ultimately show ?thesis using assms(2) by (simp add: word_less_def)
  qed
  then show ?thesis
    using len by (simp add: readChannelFrame_def Let_def)
qed

lemma safe_chars_id: "list_all id_char (safe_chars s)"
  by (induction s rule: safe_chars.induct) (simp_all add: id_char_def)

lemma safe_chars_ne: "s \<noteq> [] \<Longrightarrow> safe_chars s \<noteq> []"
  by (cases s) auto

lemma normalize_id_chars: "normalize_id v \<noteq> [] \<and> list_all id_char (normalize_id v)"
proof -
  have "list_all id_char ''unknown''" by code_simp
  then show ?thesis using safe_chars_id by (simp add: normalize_id_def Let_def)
qed

lemma id_char_solid: "id_char c \<Longrightarrow> ascii_solid c"
  by (auto simp: id_char_def ascii_solid_def is_space_def less_eq_char_def)


section \<open>Properties\<close>

text \<open>A channel frame is read back: from a stream that starts with a written frame, within the
  limits, \<open>readChannelFrame\<close> returns exactly the payload and leaves the rest unread.\<close>

theorem channel_frame_roundtrip:
  assumes "writeChannelFrame payload = Inr frame"
    and "int (length payload) \<le> maxPayloadBytes" and "maxPayloadBytes < 2 ^ 63"
  shows "readChannelFrame maxPayloadBytes (frame @ rest) = Inr (payload, rest)"
proof -
  have "length payload < 2 ^ 32" "frame = put_be32 (of_nat (length payload)) @ payload"
    using assms(1) by (simp_all add: writeChannelFrame_def split: if_splits)
  with readChannelFrame_write [of payload maxPayloadBytes rest] assms show ?thesis by simp
qed

lemma channel_frame_roundtrip_witness:
  "readChannelFrame 16 ([0, 0, 0, 2, 7, 8] @ [9]) = Inr ([7, 8], [9])"
  by (rule channel_frame_roundtrip) (simp_all add: writeChannelFrame_def put_be32_def)

text \<open>The client handshake selects the device: it has the length of the server's and differs
  from it in the key field only, where the main server reads back the connect key. Keys are
  cut to 32 bytes, so two longer keys with the same first 32 bytes select the same device.\<close>

theorem client_handshake_selects_device:
  assumes "44 \<le> length serverHandshake" and "string_of (take 8 serverHandshake) = ''OHOS HDC''"
    and "CHR 0x00 \<notin> set connectKey"
  shows "\<exists>h. buildClientHandshake serverHandshake connectKey = Inr h
    \<and> length h = length serverHandshake \<and> take 12 h = take 12 serverHandshake
    \<and> drop 44 h = drop 44 serverHandshake
    \<and> string_of (takeWhile (\<lambda>b. b \<noteq> 0) (take 32 (drop 12 h))) = take 32 connectKey"
proof -
  let ?k = "take 32 (bytes_of connectKey)"
  let ?pad = "?k @ replicate (32 - length ?k) 0"
  let ?h = "take 12 serverHandshake @ ?pad @ drop 44 serverHandshake"
  have "list_all (\<lambda>b. b \<noteq> 0) ?k"
  proof -
    have "byte_of c \<noteq> 0" if "c \<in> set connectKey" for c
    proof
      assume "byte_of c = 0"
      moreover have "char_of_byte 0 = CHR 0x00" by code_simp
      ultimately have "char_of_byte (byte_of c) = CHR 0x00" by simp
      with that assms(3) show False by simp
    qed
    then show ?thesis
      by (fastforce simp: list_all_iff bytes_of_def dest: in_set_takeD)
  qed
  then have "takeWhile (\<lambda>b. b \<noteq> 0) ?pad = ?k"
    by (simp add: list_all_iff takeWhile_append2 takeWhile_eq_all_conv [THEN iffD2] takeWhile_replicate
        split: if_splits)
  moreover have "take 32 (drop 12 ?h) = ?pad" "length ?pad = 32"
    using assms(1) by simp_all
  moreover have "string_of ?k = take 32 connectKey"
    by (simp add: string_of_def bytes_of_def take_map comp_def)
  moreover have "length ?h = length serverHandshake" "take 12 ?h = take 12 serverHandshake"
    "drop 44 ?h = drop 44 serverHandshake"
    using assms(1) by simp_all
  moreover have "buildClientHandshake serverHandshake connectKey = Inr ?h"
    using assms(1,2) by (simp add: buildClientHandshake_def Let_def)
  ultimately show ?thesis by metis
qed

lemma client_handshake_selects_device_witness:
  "\<exists>h. buildClientHandshake (bytes_of ''OHOS HDC'' @ replicate 40 1) ''FMR0'' = Inr h
    \<and> string_of (takeWhile (\<lambda>b. b \<noteq> 0) (take 32 (drop 12 h))) = ''FMR0''"
  using client_handshake_selects_device [of "bytes_of ''OHOS HDC'' @ replicate 40 1" "''FMR0''"]
  by (auto simp: bytes_of_def string_of_def)

text \<open>The internal device id is made of safe characters only, and its serial is the
  normalised connect key, provided the server node has no colon.\<close>

theorem scopedID_serial:
  assumes "CHR '':'' \<notin> set node"
  shows "list_all id_char (scopedID node key) \<and> DeviceSerial (scopedID node key) = normalize_id key"
proof -
  have safe: "set (safe_chars s) \<subseteq> set s \<union> {CHR ''-''}" for s
  proof (induction s rule: safe_chars.induct)
    case (2 c s)
    then show ?case using set_drop_subset [of "rune_len (c # s) - 1" s] by auto
  qed simp
  have "set (normalize_id node) \<subseteq> set node \<union> set ''unknown-''"
    using safe [of "trim_space node"] set_trim_space [of node]
    by (auto simp: normalize_id_def Let_def)
  then have colon: "CHR '':'' \<notin> set (normalize_id node)" using assms by auto
  have ids: "list_all id_char (scopedID node key)"
    using normalize_id_chars by (simp add: scopedID_def) (simp add: id_char_def)
  then have "trim_space (scopedID node key) = scopedID node key"
    by (intro trim_space_all) (auto simp: list_all_iff id_char_solid)
  moreover have "trim_space (normalize_id key) = normalize_id key"
    using normalize_id_chars [of key] by (intro trim_space_all) (auto simp: list_all_iff id_char_solid)
  ultimately have "DeviceSerial (scopedID node key) = normalize_id key"
    using cut_char_at_append [OF colon] normalize_id_chars [of key]
    by (simp add: DeviceSerial_def scopedID_def)
  with ids show ?thesis by blast
qed

lemma scopedID_serial_witness: "DeviceSerial (scopedID ''lab'' ''FMR 01'') = normalize_id ''FMR 01''"
  using scopedID_serial [of "''lab''" "''FMR 01''"] by simp


definition plain_word :: "string \<Rightarrow> bool" where
  "plain_word w \<longleftrightarrow> w \<noteq> [] \<and> list_all ascii_solid w"

definition target_words :: "string list" where
  "target_words = [''usb'', ''tcp'', ''tcpip'', ''online'', ''connected'', ''offline'', ''disconnected'',
     ''unauthorized'', ''hdc'']"

fun state_word :: "TargetStatus \<Rightarrow> string" where
  "state_word TargetOnline = ''Connected''"
| "state_word TargetOffline = ''Offline''"
| "state_word TargetUnauthorized = ''Unauthorized''"
| "state_word TargetUnknown = ''Unknown''"

text \<open>A row of the target list is read as the main server means it: for a row with the connect
  key, an empty column, the transport, the state, the host and the server name, the device has
  that key, the USB transport, the status that the state word means, and the host as its model,
  unless the host is itself one of the words the parser looks for.\<close>

theorem target_row_parsed:
  assumes key: "plain_word key" "CHR ''['' \<notin> set key" and host: "plain_word host" "to_lower host \<notin> set target_words"
    and status: "status \<noteq> TargetUnknown"
  shows "parse_target node now (join_with [CHR 0x09] [key, [], ''USB'', state_word status, host, ''hdc''])
    = Some \<lparr>dv_ID = scopedID node key, dv_ConnectKey = key, dv_Transport = TransportUSB,
        dv_Status = status, dv_Model = host, dv_ServerNode = node, dv_UpdatedAt = now\<rparr>"
proof -
  let ?cols = "[key, [], ''USB'', state_word status, host, ''hdc'']"
  let ?row = "join_with [CHR 0x09] ?cols"
  have tab: "CHR 0x09 \<notin> set w" if "plain_word w" for w
    using that by (auto simp: plain_word_def list_all_iff ascii_solid_def is_space_def)
  have words: "plain_word (state_word status)" "plain_word ''USB''" "plain_word ''hdc''"
  proof -
    show "plain_word (state_word status)"
      by (cases status) (simp_all add: plain_word_def ascii_solid_def is_space_def)
  qed code_simp+
  have split: "split_char (CHR 0x09) ?row = ?cols"
    by (rule split_char_join) (use tab key host words in \<open>simp_all add: tab\<close>)
  have trim: "trim_space w = w" if "plain_word w" for w
    using that by (simp add: plain_word_def trim_space_all)
  have trims: "trim_space key = key" "trim_space host = host" "trim_space (state_word status) = state_word status"
    "trim_space ''USB'' = ''USB''" "trim_space ''hdc'' = ''hdc''" "trim_space [] = []"
    using trim key host words by (simp_all add: trim_space_all)
  have ends: "trim_space ?row = ?row"
  proof (rule trim_space_solid)
    have "last ?row = CHR ''c''" by simp
    moreover have "hd ?row = hd key" using key by (cases key) (simp_all add: plain_word_def)
    ultimately show "?row = [] \<or> (ascii_solid (hd ?row) \<and> ascii_solid (last ?row))"
      using key by (cases key) (simp_all add: plain_word_def ascii_solid_def is_space_def)
  qed
  have lower: "to_lower ''USB'' = ''usb''" "to_lower ''hdc'' = ''hdc''" "to_lower [] = []"
    "to_lower ''Connected'' = ''connected''" "to_lower ''Offline'' = ''offline''"
    "to_lower ''Unauthorized'' = ''unauthorized''" "to_lower ''ONLINE'' = ''online''"
    "to_lower ''OFFLINE'' = ''offline''" "to_lower ''UNAUTHORIZED'' = ''unauthorized''"
    by code_simp+
  have fold_cols: "fold classify_field ?cols ts = (TransportUSB, status)" for ts
  proof -
    have "classify_field (state_word status) u = (fst u, status)" for u
      using status by (cases status) (simp_all add: classify_field_def trims [simplified] lower trim plain_word_def
          ascii_solid_def is_space_def)
    moreover have "classify_field host u = u" "classify_field ''hdc'' u = u" "classify_field [] u = u"
      "classify_field ''USB'' u = (TransportUSB, snd u)" for u
      using host(2) by (simp_all add: classify_field_def trims lower target_words_def)
    ultimately show ?thesis by simp
  qed
  have class_eq: "classifyTarget ?cols ?row = (TransportUSB, status)"
    unfolding classifyTarget_def fold_cols using status by simp
  have skip_state: "trim_space (state_word status) = [] \<or> EqualFold (state_word status) (transport_string TransportUSB)
      \<or> EqualFold (state_word status) (status_string status) \<or> to_lower (state_word status) = ''connected''
      \<or> to_lower (state_word status) = ''disconnected'' \<or> to_lower (state_word status) = ''unauthorized''"
    using status by (cases status) (simp_all add: EqualFold_def lower)
  have keep_host: "\<not> EqualFold host ''USB'' \<and> \<not> EqualFold host (status_string status) \<and> \<not> EqualFold host ''hdc''"
    using host(2) status by (cases status) (simp_all add: EqualFold_def lower target_words_def)
  have model: "targetModel ?cols TransportUSB status = host"
    using skip_state keep_host host
    by (simp add: targetModel_def trims Let_def EqualFold_def [of "''USB''"] target_words_def plain_word_def)
      blast
  have "hd ?row \<noteq> CHR ''[''" "?row \<noteq> []"
    using key by (cases key; auto simp: plain_word_def)+
  then have "\<not> has_prefix ?row ''[Info]''" "\<not> has_prefix ?row ''[Fail]''" "?row \<noteq> ''[Empty]''"
    by (auto simp: has_prefix_iff)
  moreover have "key \<noteq> []" using key by (simp add: plain_word_def)
  ultimately show ?thesis
    unfolding parse_target_def ends Let_def split class_eq
    using \<open>?row \<noteq> []\<close> by (simp add: trims model del: join_with.simps)
qed


lemma target_row_parsed_witness:
  "parse_target ''lab'' 5 (join_with [CHR 0x09] [''FMR01'', [], ''USB'', ''Connected'', ''localhost'', ''hdc''])
    = Some \<lparr>dv_ID = scopedID ''lab'' ''FMR01'', dv_ConnectKey = ''FMR01'', dv_Transport = TransportUSB,
        dv_Status = TargetOnline, dv_Model = ''localhost'', dv_ServerNode = ''lab'', dv_UpdatedAt = 5\<rparr>"
proof -
  have "plain_word ''FMR01''" "plain_word ''localhost''" "to_lower ''localhost'' \<notin> set target_words"
    by code_simp+
  from target_row_parsed [of "''FMR01''" "''localhost''" TargetOnline "''lab''" 5] this show ?thesis
    by simp
qed

end
