(* ===== verification/Device_Registry.thy ===== *)
theory Device_Registry
  imports Model "HOL-Library.Multiset"
begin

text \<open>
  The snapshot of the devices: \<^verbatim>\<open>src/internal/device/registry.go\<close>.

  A scan of the main server is an event with its time and its result. The loops over Go maps
  are folds over the association lists; their order is the order of one run.
\<close>

section \<open>State and operations\<close>

record DeviceRegistry =
  rg_staleAfter :: duration
  rg_retainOffline :: duration
  rg_devices :: "(string, Device) gomap"
  rg_offlineSince :: "(string, time) gomap"
  rg_lastSuccess :: time
  rg_ready :: bool

abbreviation (input) offlineRetentionFactor :: int where "offlineRetentionFactor \<equiv> 60"

definition NewDeviceRegistry :: "duration \<Rightarrow> DeviceRegistry" where
  "NewDeviceRegistry staleAfter = \<lparr>rg_staleAfter = staleAfter,
     rg_retainOffline = staleAfter * offlineRetentionFactor, rg_devices = [], rg_offlineSince = [],
     rg_lastSuccess = 0, rg_ready = False\<rparr>"

definition snapshot :: "(string, Device) gomap \<Rightarrow> Device list" where
  "snapshot devices = sort_key dv_ID (map snd devices)"

definition Devices :: "DeviceRegistry \<Rightarrow> Device list option" where
  "Devices r = (if \<not> rg_ready r then None else Some (snapshot (rg_devices r)))"

definition FindDevice :: "string \<Rightarrow> DeviceRegistry \<Rightarrow> Device option" where
  "FindDevice identifier r =
     (let identifier = trim_space identifier
      in case map_of (rg_devices r) identifier of Some device \<Rightarrow> Some device
         | None \<Rightarrow> find (\<lambda>device. dv_ConnectKey device = identifier) (map snd (rg_devices r)))"

definition online_usb :: "Device \<Rightarrow> bool" where
  "online_usb device \<longleftrightarrow> dv_Transport device = TransportUSB \<and> dv_Status device = TargetOnline"

definition ResolveOnlineUSB :: "string \<Rightarrow> DeviceRegistry \<Rightarrow> Device option" where
  "ResolveOnlineUSB deviceID r = (case FindDevice deviceID r of None \<Rightarrow> None
     | Some device \<Rightarrow> if \<not> online_usb device \<or> trim_space (dv_ConnectKey device) = [] then None
         else Some device)"

definition sameDeviceSnapshot :: "(string, Device) gomap \<Rightarrow> (string, Device) gomap \<Rightarrow> bool" where
  "sameDeviceSnapshot previous next_devices \<longleftrightarrow> length previous = length next_devices
     \<and> list_all (\<lambda>(i, device). case map_of previous i of None \<Rightarrow> False
         | Some old \<Rightarrow> dv_Status old = dv_Status device \<and> dv_Transport old = dv_Transport device
             \<and> dv_ConnectKey old = dv_ConnectKey device) next_devices"

definition markStale :: "time \<Rightarrow> DeviceRegistry \<Rightarrow> DeviceRegistry" where
  "markStale now r =
     (if \<not> rg_ready r \<or> now - rg_lastSuccess r < rg_staleAfter r then r
      else r\<lparr>rg_devices := map (\<lambda>(i, device). (i, if dv_Status device = TargetUnknown then device
               else device\<lparr>dv_Status := TargetUnknown, dv_UpdatedAt := now\<rparr>)) (rg_devices r)\<rparr>)"

text \<open>The devices of a scan, the later of two with one id winning.\<close>

definition visible_map :: "time \<Rightarrow> Device list \<Rightarrow> (string, Device) gomap" where
  "visible_map now visible =
     fold (\<lambda>device m. if trim_space (dv_ID device) = [] then m
        else AList.update (dv_ID device) (device\<lparr>dv_UpdatedAt := now\<rparr>) m) visible []"

text \<open>One turn of the loop over the previous devices; the accumulator is the next map and the
  offline times.\<close>

definition retain_device ::
  "time \<Rightarrow> duration \<Rightarrow> string \<times> Device \<Rightarrow> (string, Device) gomap \<times> (string, time) gomap
     \<Rightarrow> (string, Device) gomap \<times> (string, time) gomap" where
  "retain_device now retain entry acc =
     (let (deviceID, previous) = entry; (next_devices, offline) = acc
      in if map_of next_devices deviceID \<noteq> None then (next_devices, AList.delete deviceID offline)
         else let since = (case map_of offline deviceID of Some t \<Rightarrow> t | None \<Rightarrow> now);
                  offline = AList.update deviceID since offline
         in if retain < now - since then (next_devices, AList.delete deviceID offline)
            else let previous = (if dv_Status previous \<noteq> TargetOffline
                   then previous\<lparr>dv_Status := TargetOffline, dv_UpdatedAt := now\<rparr> else previous)
            in (AList.update deviceID previous next_devices, offline))"

definition refresh :: "time \<Rightarrow> Device list option \<Rightarrow> DeviceRegistry \<Rightarrow> DeviceRegistry" where
  "refresh now scan r = (case scan of None \<Rightarrow> markStale now r
     | Some visible \<Rightarrow>
         let offline = filter (\<lambda>(i, _). map_of (rg_devices r) i \<noteq> None) (rg_offlineSince r);
             (next_devices, offline) = fold (retain_device now (rg_retainOffline r)) (rg_devices r)
               (visible_map now visible, offline)
         in r\<lparr>rg_devices := next_devices, rg_offlineSince := offline, rg_lastSuccess := now,
              rg_ready := True\<rparr>)"

text \<open>The poll loop: one scan per tick.\<close>

fun poll :: "(time \<times> Device list option) \<Rightarrow> DeviceRegistry \<Rightarrow> DeviceRegistry" where
  "poll (now, scan) r = refresh now scan r"

section \<open>The next snapshot\<close>

definition devices_ok :: "(string, Device) gomap \<Rightarrow> bool" where
  "devices_ok m \<longleftrightarrow> distinct (map fst m) \<and> list_all (\<lambda>(i, device). dv_ID device = i \<and> trim_space i \<noteq> []) m"

lemma devices_okD: "devices_ok m \<Longrightarrow> map_of m i = Some device \<Longrightarrow> dv_ID device = i \<and> trim_space i \<noteq> []"
  by (auto simp: devices_ok_def list_all_iff dest: map_of_SomeD)

lemma devices_ok_update:
  "devices_ok m \<Longrightarrow> dv_ID device = i \<Longrightarrow> trim_space i \<noteq> [] \<Longrightarrow> devices_ok (AList.update i device m)"
  by (simp add: devices_ok_def list_all_assoc)

lemma visible_map_of:
  "map_of (visible_map now visible) i = map_option (\<lambda>device. device\<lparr>dv_UpdatedAt := now\<rparr>)
     (find (\<lambda>device. dv_ID device = i \<and> trim_space i \<noteq> []) (rev visible))"
proof (induction visible rule: rev_induct)
  case (snoc d visible)
  then show ?case by (auto simp: visible_map_def)
qed (simp add: visible_map_def)

lemma visible_map_ok: "devices_ok (visible_map now visible)"
proof (induction visible rule: rev_induct)
  case (snoc d visible)
  then show ?case by (auto simp: visible_map_def devices_ok_update)
qed (simp add: visible_map_def devices_ok_def)


definition offline_since :: "time \<Rightarrow> (string, time) gomap \<Rightarrow> string \<Rightarrow> time" where
  "offline_since now offline i = (case map_of offline i of Some t \<Rightarrow> t | None \<Rightarrow> now)"

definition mark_offline :: "time \<Rightarrow> Device \<Rightarrow> Device" where
  "mark_offline now device = (if dv_Status device \<noteq> TargetOffline
     then device\<lparr>dv_Status := TargetOffline, dv_UpdatedAt := now\<rparr> else device)"

lemma retain_fold:
  assumes "distinct (map fst m)"
  shows "map_of (fst (fold (retain_device now retain) m (v, off))) i =
     (case map_of m i of None \<Rightarrow> map_of v i | Some previous \<Rightarrow>
       (case map_of v i of Some device \<Rightarrow> Some device | None \<Rightarrow>
          if retain < now - offline_since now off i then None else Some (mark_offline now previous)))"
    and "map_of (snd (fold (retain_device now retain) m (v, off))) i =
     (case map_of m i of None \<Rightarrow> map_of off i | Some previous \<Rightarrow>
       if map_of v i \<noteq> None \<or> retain < now - offline_since now off i then None
       else Some (offline_since now off i))"
proof -
  have "map_of (fst (fold (retain_device now retain) m (v, off))) i =
     (case map_of m i of None \<Rightarrow> map_of v i | Some previous \<Rightarrow>
       (case map_of v i of Some device \<Rightarrow> Some device | None \<Rightarrow>
          if retain < now - offline_since now off i then None else Some (mark_offline now previous)))
    \<and> map_of (snd (fold (retain_device now retain) m (v, off))) i =
     (case map_of m i of None \<Rightarrow> map_of off i | Some previous \<Rightarrow>
       if map_of v i \<noteq> None \<or> retain < now - offline_since now off i then None
       else Some (offline_since now off i))"
    using assms
  proof (induction m arbitrary: v off)
    case (Cons e m)
    obtain k p where e: "e = (k, p)" by (cases e)
    obtain v1 off1 where r: "retain_device now retain (k, p) (v, off) = (v1, off1)"
      by (cases "retain_device now retain (k, p) (v, off)")
    have other: "map_of v1 j = map_of v j" "map_of off1 j = map_of off j" if "j \<noteq> k" for j
      using r that by (auto simp: retain_device_def Let_def split: if_splits option.splits)
    have own: "map_of v1 k = (case map_of v k of Some device \<Rightarrow> Some device | None \<Rightarrow>
          if retain < now - offline_since now off k then None else Some (mark_offline now p))"
      "map_of off1 k = (if map_of v k \<noteq> None \<or> retain < now - offline_since now off k then None
          else Some (offline_since now off k))"
      using r by (auto simp: retain_device_def Let_def offline_since_def mark_offline_def
          split: if_splits option.splits)
    have k: "map_of m k = None" using Cons.prems by (simp add: e map_of_eq_None_iff)
    have since: "offline_since now off1 i = offline_since now off i" if "i \<noteq> k"
      using other(2) [OF that] by (simp add: offline_since_def)
    note IH = Cons.IH [of v1 off1]
    show ?case
    proof (cases "i = k")
      case True
      then show ?thesis using IH Cons.prems k own by (simp add: e r)
    next
      case False
      then show ?thesis
        using IH [unfolded other(1) [OF False] other(2) [OF False] since [OF False]] Cons.prems by (simp add: e r)
    qed
  qed simp
  then show "map_of (fst (fold (retain_device now retain) m (v, off))) i =
     (case map_of m i of None \<Rightarrow> map_of v i | Some previous \<Rightarrow>
       (case map_of v i of Some device \<Rightarrow> Some device | None \<Rightarrow>
          if retain < now - offline_since now off i then None else Some (mark_offline now previous)))"
    "map_of (snd (fold (retain_device now retain) m (v, off))) i =
     (case map_of m i of None \<Rightarrow> map_of off i | Some previous \<Rightarrow>
       if map_of v i \<noteq> None \<or> retain < now - offline_since now off i then None
       else Some (offline_since now off i))"
    by blast+
qed

lemma retain_fold_ok:
  "devices_ok v \<Longrightarrow> list_all (\<lambda>(i, device). dv_ID device = i \<and> trim_space i \<noteq> []) m \<Longrightarrow>
   devices_ok (fst (fold (retain_device now retain) m (v, off)))"
proof (induction m arbitrary: v off)
  case (Cons e m)
  obtain k p where e: "e = (k, p)" by (cases e)
  obtain v1 off1 where r: "retain_device now retain (k, p) (v, off) = (v1, off1)"
    by (cases "retain_device now retain (k, p) (v, off)")
  have "devices_ok v1"
    using r Cons.prems by (auto simp: e retain_device_def Let_def intro!: devices_ok_update split: if_splits option.splits)
  with Cons show ?case by (simp add: e r)
qed simp

section \<open>The invariant\<close>

definition dregistry_ok :: "DeviceRegistry \<Rightarrow> bool" where
  "dregistry_ok r \<longleftrightarrow> devices_ok (rg_devices r)
     \<and> (\<forall>i. map_of (rg_offlineSince r) i \<noteq> None \<longrightarrow> map_of (rg_devices r) i \<noteq> None)
     \<and> (rg_devices r \<noteq> [] \<longrightarrow> rg_ready r)"

lemma map_of_filter_key:
  "map_of (filter (\<lambda>(i, _). P i) m) i = (if P i then map_of m i else None)"
  by (induction m) auto

lemma map_of_markStale:
  "map_of (rg_devices (markStale now r)) i = (if \<not> rg_ready r \<or> now - rg_lastSuccess r < rg_staleAfter r
     then map_of (rg_devices r) i
     else map_option (\<lambda>d. if dv_Status d = TargetUnknown then d
            else d\<lparr>dv_Status := TargetUnknown, dv_UpdatedAt := now\<rparr>) (map_of (rg_devices r) i))"
proof -
  have "map_of (map (\<lambda>(i, d). (i, f d)) m) i = map_option f (map_of m i)" for f :: "Device \<Rightarrow> Device" and m
    by (induction m) auto
  then show ?thesis by (simp add: markStale_def)
qed

lemma markStale_ok: "dregistry_ok r \<Longrightarrow> dregistry_ok (markStale now r)"
proof -
  assume ok: "dregistry_ok r"
  have "devices_ok (rg_devices (markStale now r))"
    using ok by (auto simp: markStale_def dregistry_ok_def devices_ok_def list_all_iff comp_def case_prod_unfold)
  with ok show ?thesis
    using map_of_markStale [of now r] by (auto simp: dregistry_ok_def) (auto simp: markStale_def split: if_splits)
qed

lemma refresh_success:
  assumes "dregistry_ok r"
  shows "map_of (rg_devices (refresh now (Some visible) r)) i =
      (case map_of (visible_map now visible) i of Some device \<Rightarrow> Some device | None \<Rightarrow>
        (case map_of (rg_devices r) i of None \<Rightarrow> None | Some previous \<Rightarrow>
          if rg_retainOffline r < now - offline_since now (rg_offlineSince r) i then None
          else Some (mark_offline now previous)))"
    and "map_of (rg_offlineSince (refresh now (Some visible) r)) i =
      (case map_of (rg_devices r) i of None \<Rightarrow> None | Some previous \<Rightarrow>
        if map_of (visible_map now visible) i \<noteq> None
          \<or> rg_retainOffline r < now - offline_since now (rg_offlineSince r) i then None
        else Some (offline_since now (rg_offlineSince r) i))"
proof -
  have d: "distinct (map fst (rg_devices r))" using assms by (simp add: dregistry_ok_def devices_ok_def)
  let ?off = "filter (\<lambda>(i, _). map_of (rg_devices r) i \<noteq> None) (rg_offlineSince r)"
  have off: "map_of ?off i = (if map_of (rg_devices r) i \<noteq> None then map_of (rg_offlineSince r) i else None)"
    by (rule map_of_filter_key)
  then have since: "map_of (rg_devices r) i \<noteq> None \<Longrightarrow> offline_since now ?off i = offline_since now (rg_offlineSince r) i"
    by (simp add: offline_since_def)
  note eqs = retain_fold [OF d, of now "rg_retainOffline r" "visible_map now visible" ?off i]
  show "map_of (rg_devices (refresh now (Some visible) r)) i =
      (case map_of (visible_map now visible) i of Some device \<Rightarrow> Some device | None \<Rightarrow>
        (case map_of (rg_devices r) i of None \<Rightarrow> None | Some previous \<Rightarrow>
          if rg_retainOffline r < now - offline_since now (rg_offlineSince r) i then None
          else Some (mark_offline now previous)))"
    using eqs(1) since by (auto simp: refresh_def Let_def case_prod_beta split: option.split)
  show "map_of (rg_offlineSince (refresh now (Some visible) r)) i =
      (case map_of (rg_devices r) i of None \<Rightarrow> None | Some previous \<Rightarrow>
        if map_of (visible_map now visible) i \<noteq> None
          \<or> rg_retainOffline r < now - offline_since now (rg_offlineSince r) i then None
        else Some (offline_since now (rg_offlineSince r) i))"
    using eqs(2) since off by (auto simp: refresh_def Let_def case_prod_beta split: option.split)
qed

lemma refresh_ok: "dregistry_ok r \<Longrightarrow> dregistry_ok (refresh now scan r)"
proof (cases scan)
  case None
  then show "dregistry_ok r \<Longrightarrow> dregistry_ok (refresh now scan r)"
    by (simp add: refresh_def markStale_ok)
next
  case (Some visible)
  assume ok: "dregistry_ok r"
  have "devices_ok (rg_devices (refresh now (Some visible) r))"
    using retain_fold_ok [OF visible_map_ok] ok
    by (simp add: refresh_def Let_def case_prod_beta dregistry_ok_def devices_ok_def)
  moreover have "rg_ready (refresh now (Some visible) r)"
    by (simp add: refresh_def Let_def case_prod_beta)
  ultimately show ?thesis
    using refresh_success [OF ok, of now visible]
    by (auto simp: dregistry_ok_def Some split: option.splits if_splits)
qed

interpretation registry: invariant_machine poll dregistry_ok
proof
  fix s and opr :: "time \<times> Device list option"
  assume "dregistry_ok s"
  then show "dregistry_ok (poll opr s)" by (cases opr) (simp add: refresh_ok)
qed

lemma dregistry_ok_new: "dregistry_ok (NewDeviceRegistry stale)"
  by (simp add: dregistry_ok_def NewDeviceRegistry_def devices_ok_def)

section \<open>Properties\<close>

lemma set_snapshot: "set (snapshot m) = snd ` set m"
  by (simp add: snapshot_def)

lemma sorted_snapshot:
  assumes "devices_ok m"
  shows "sorted_wrt (<) (map dv_ID (snapshot m))"
proof -
  have "map dv_ID (map snd m) = map fst m"
    using assms by (auto simp: devices_ok_def list_all_iff)
  then have "distinct (map dv_ID (map snd m))"
    using assms unfolding devices_ok_def by metis
  moreover have "mset (map dv_ID (snapshot m)) = mset (map dv_ID (map snd m))"
    by (simp add: snapshot_def multiset.map_comp)
  ultimately have "distinct (map dv_ID (snapshot m))"
    using mset_eq_imp_distinct_iff by blast
  moreover have "sorted (map dv_ID (snapshot m))" by (simp add: snapshot_def)
  ultimately show ?thesis by (simp add: strict_sorted_iff)
qed

text \<open>After any sequence of scans, failed ones included, the map of devices is keyed by their
  ids, every offline time belongs to a device of the map, and the snapshot the readers get is in
  strictly increasing order of the ids, with exactly the devices of the map.\<close>

theorem registry_snapshots_ordered:
  "dregistry_ok (fold poll scans (NewDeviceRegistry stale))
   \<and> (case Devices (fold poll scans (NewDeviceRegistry stale)) of
        None \<Rightarrow> rg_devices (fold poll scans (NewDeviceRegistry stale)) = []
      | Some ds \<Rightarrow> sorted_wrt (<) (map dv_ID ds)
          \<and> (\<forall>d. d \<in> set ds \<longleftrightarrow>
               map_of (rg_devices (fold poll scans (NewDeviceRegistry stale))) (dv_ID d) = Some d))"
proof -
  define r where "r = fold poll scans (NewDeviceRegistry stale)"
  have ok: "dregistry_ok r"
    unfolding r_def by (rule registry.run_inv) (rule dregistry_ok_new)
  then have d: "devices_ok (rg_devices r)" by (simp add: dregistry_ok_def)
  then have mem: "d \<in> snd ` set (rg_devices r) \<longleftrightarrow> map_of (rg_devices r) (dv_ID d) = Some d" for d
    by (force simp: devices_ok_def list_all_iff dest: map_of_SomeD)
  have "case Devices r of None \<Rightarrow> rg_devices r = []
      | Some ds \<Rightarrow> sorted_wrt (<) (map dv_ID ds)
          \<and> (\<forall>d. d \<in> set ds \<longleftrightarrow> map_of (rg_devices r) (dv_ID d) = Some d)"
    using ok d mem by (auto simp: Devices_def sorted_snapshot set_snapshot dregistry_ok_def)
  with ok show ?thesis unfolding r_def ..
qed

text \<open>A device the scans do not report any more keeps its entry and its offline time.\<close>

definition unseen :: "string \<Rightarrow> (time \<times> Device list option) list \<Rightarrow> bool" where
  "unseen i scans \<longleftrightarrow> list_all (\<lambda>(_, scan). case scan of None \<Rightarrow> True
     | Some visible \<Rightarrow> list_all (\<lambda>d. dv_ID d \<noteq> i) visible) scans"

lemma visible_map_unseen: "list_all (\<lambda>d. dv_ID d \<noteq> i) visible \<Longrightarrow> map_of (visible_map now visible) i = None"
  by (auto simp: visible_map_of list_all_iff find_None_iff)

lemma markStale_tables:
  "map_of (rg_devices (markStale now r)) i \<noteq> None \<longleftrightarrow> map_of (rg_devices r) i \<noteq> None"
  "rg_offlineSince (markStale now r) = rg_offlineSince r"
  "rg_retainOffline (markStale now r) = rg_retainOffline r"
  by (auto simp: map_of_markStale) (simp_all add: markStale_def)

lemma refresh_retain: "rg_retainOffline (refresh now scan r) = rg_retainOffline r"
  by (simp add: refresh_def markStale_tables Let_def case_prod_beta split: option.split)

lemma offline_run:
  assumes "dregistry_ok r" "map_of (rg_devices r) i \<noteq> None" "map_of (rg_offlineSince r) i = Some t1"
    and "unseen i mid" "list_all (\<lambda>(t, _). t \<le> t1 + rg_retainOffline r) mid"
  shows "map_of (rg_devices (fold poll mid r)) i \<noteq> None
    \<and> map_of (rg_offlineSince (fold poll mid r)) i = Some t1
    \<and> rg_retainOffline (fold poll mid r) = rg_retainOffline r"
  using assms
proof (induction mid arbitrary: r)
  case (Cons e mid)
  obtain t scan where e: "e = (t, scan)" by (cases e)
  have "map_of (rg_devices (refresh t scan r)) i \<noteq> None
    \<and> map_of (rg_offlineSince (refresh t scan r)) i = Some t1"
  proof (cases scan)
    case None
    then show ?thesis using Cons.prems by (simp add: refresh_def markStale_tables del: not_None_eq)
  next
    case (Some visible)
    then have "map_of (visible_map t visible) i = None"
      using Cons.prems(4) by (intro visible_map_unseen) (simp add: unseen_def e)
    then show ?thesis
      using Cons.prems(2,3,5) refresh_success [OF Cons.prems(1), of t visible i]
      by (auto simp: Some e offline_since_def split: option.splits)
  qed
  then show ?case
    using Cons.IH [of "refresh t scan r"] Cons.prems refresh_ok [of r t scan]
    by (simp add: e refresh_retain unseen_def del: not_None_eq)
qed simp

text \<open>A device that disappears stays in the snapshot for the retention time and no longer. If
  the scan at \<open>t1\<close> is the first without it, and no later scan reports it, then the
  successful scan at \<open>t2\<close> removes it just when more than the retention time has passed
  since \<open>t1\<close>; the failed scans in between, which touch the update time of every device,
  do not restart the clock.\<close>

theorem vanished_device_evicted:
  assumes "dregistry_ok r" and "map_of (rg_devices r) i = Some d"
    and "map_of (rg_offlineSince r) i = None" and "0 \<le> rg_retainOffline r"
    and "unseen i ((t1, Some v1) # mid @ [(t2, Some v2)])"
    and "list_all (\<lambda>(t, _). t \<le> t1 + rg_retainOffline r) mid"
  shows "map_of (rg_devices (fold poll ((t1, Some v1) # mid @ [(t2, Some v2)]) r)) i = None
    \<longleftrightarrow> rg_retainOffline r < t2 - t1"
proof -
  define r1 where "r1 = refresh t1 (Some v1) r"
  define r2 where "r2 = fold poll mid r1"
  have unseen: "map_of (visible_map t1 v1) i = None" "map_of (visible_map t2 v2) i = None" "unseen i mid"
    using assms(5) by (auto simp: unseen_def intro!: visible_map_unseen)
  have ok1: "dregistry_ok r1" unfolding r1_def by (rule refresh_ok) (rule assms)
  then have ok2: "dregistry_ok r2" unfolding r2_def by (rule registry.run_inv)
  have "map_of (rg_devices r1) i \<noteq> None" "map_of (rg_offlineSince r1) i = Some t1"
    using refresh_success [OF assms(1), of t1 v1 i] assms(2-4) unseen(1)
    by (simp_all add: r1_def offline_since_def)
  then have "map_of (rg_devices r2) i \<noteq> None \<and> map_of (rg_offlineSince r2) i = Some t1
      \<and> rg_retainOffline r2 = rg_retainOffline r"
    using offline_run [OF ok1 _ _ unseen(3)] assms(6) by (simp add: r2_def r1_def refresh_retain)
  then have "map_of (rg_devices (refresh t2 (Some v2) r2)) i = None \<longleftrightarrow> rg_retainOffline r < t2 - t1"
    using refresh_success(1) [OF ok2, of t2 v2 i] unseen(2)
    by (auto simp: offline_since_def split: if_splits)
  then show ?thesis by (simp add: r1_def r2_def)
qed

definition phone :: Device where
  "phone = \<lparr>dv_ID = ''a'', dv_ConnectKey = ''K'', dv_Transport = TransportUSB,
     dv_Status = TargetOnline, dv_Model = ''P'', dv_ServerNode = ''n'', dv_UpdatedAt = 0\<rparr>"

definition seen_registry :: DeviceRegistry where
  "seen_registry = poll (100, Some [phone]) (NewDeviceRegistry 10)"

lemma vanished_device_evicted_witness:
  "map_of (rg_devices (fold poll ((110, Some []) # [(130, None), (700, Some [])] @ [(711, Some [])])
     seen_registry)) ''a'' = None"
proof -
  have "dregistry_ok seen_registry"
    by (simp add: seen_registry_def refresh_ok dregistry_ok_new)
  moreover have "map_of (rg_devices seen_registry) ''a'' = Some (phone\<lparr>dv_UpdatedAt := 100\<rparr>)"
    "map_of (rg_offlineSince seen_registry) ''a'' = None" "rg_retainOffline seen_registry = 600"
    by code_simp+
  ultimately show ?thesis
    by (subst vanished_device_evicted) (simp_all add: unseen_def)
qed

text \<open>What a device that is online in the map goes back to.\<close>

definition online_backed :: "(time \<times> Device list option) list \<Rightarrow> Device \<Rightarrow> bool" where
  "online_backed scans d \<longleftrightarrow> (\<exists>pre t visible post d0. scans = pre @ (t, Some visible) # post
     \<and> list_all (\<lambda>(_, scan). scan = None) post \<and> d0 \<in> set visible \<and> d = d0\<lparr>dv_UpdatedAt := t\<rparr>
     \<and> trim_space (dv_ID d0) \<noteq> [])"

lemma online_run:
  "(\<forall>i d. map_of (rg_devices (fold poll scans (NewDeviceRegistry stale))) i = Some d
      \<longrightarrow> dv_Status d \<noteq> TargetOffline \<longrightarrow> dv_Status d \<noteq> TargetUnknown \<longrightarrow> online_backed scans d)"
proof (induction scans rule: rev_induct)
  case (snoc e scans)
  obtain t scan where e: "e = (t, scan)" by (cases e)
  define r where "r = fold poll scans (NewDeviceRegistry stale)"
  have ok: "dregistry_ok r" unfolding r_def by (rule registry.run_inv) (rule dregistry_ok_new)
  show ?case
  proof (intro allI impI)
    fix i d
    assume d: "map_of (rg_devices (fold poll (scans @ [e]) (NewDeviceRegistry stale))) i = Some d"
      and st: "dv_Status d \<noteq> TargetOffline" "dv_Status d \<noteq> TargetUnknown"
    from d have d: "map_of (rg_devices (refresh t scan r)) i = Some d" by (simp add: e r_def)
    show "online_backed (scans @ [e]) d"
    proof (cases scan)
      case None
      with d have "map_of (rg_devices (markStale t r)) i = Some d" by (simp add: refresh_def)
      then have "map_of (rg_devices r) i = Some d"
        using st by (auto simp: map_of_markStale split: if_splits)
      then have "online_backed scans d" using snoc.IH st by (simp add: r_def)
      then obtain pre t' visible post d0 where
        "scans = pre @ (t', Some visible) # post \<and> list_all (\<lambda>(_, scan). scan = None) post
          \<and> d0 \<in> set visible \<and> d = d0\<lparr>dv_UpdatedAt := t'\<rparr> \<and> trim_space (dv_ID d0) \<noteq> []"
        unfolding online_backed_def by blast
      then show ?thesis unfolding online_backed_def e None
        by (intro exI [of _ pre] exI [of _ t'] exI [of _ visible] exI [of _ "post @ [(t, None)]"] exI [of _ d0]) simp
    next
      case (Some visible)
      have "dv_Status (mark_offline t p) = TargetOffline" for p by (simp add: mark_offline_def)
      then have "map_of (visible_map t visible) i = Some d"
        using refresh_success(1) [OF ok, of t visible i] d st
        by (auto simp: Some split: option.splits if_splits)
      then obtain d0 where "find (\<lambda>device. dv_ID device = i \<and> trim_space i \<noteq> []) (rev visible) = Some d0"
        "d = d0\<lparr>dv_UpdatedAt := t\<rparr>" by (auto simp: visible_map_of)
      moreover from this(1) have "d0 \<in> set visible \<and> trim_space (dv_ID d0) \<noteq> []"
        by (auto simp: find_Some_iff) (metis nth_mem set_rev length_rev)
      ultimately show ?thesis unfolding online_backed_def e Some
        by (intro exI [of _ scans] exI [of _ t] exI [of _ visible] exI [of _ "[]"] exI [of _ d0]) simp
    qed
  qed
qed (simp add: NewDeviceRegistry_def)

lemma FindDevice_mem:
  "dregistry_ok r \<Longrightarrow> FindDevice identifier r = Some d \<Longrightarrow> map_of (rg_devices r) (dv_ID d) = Some d"
  by (force simp: FindDevice_def dregistry_ok_def devices_ok_def list_all_iff find_Some_iff Let_def
      split: option.splits dest: map_of_SomeD nth_mem intro: map_of_is_SomeI)

text \<open>A remote lease can only be bound to a device the main server vouched for:
  \<open>ResolveOnlineUSB\<close> answers only with a device that the last successful scan reported, as
  an online USB device with a key; since then only failed scans happened. A device that a successful
  scan misses, or that went stale, is refused.\<close>

theorem resolved_device_was_scanned:
  assumes "ResolveOnlineUSB identifier (fold poll scans (NewDeviceRegistry stale)) = Some d"
  shows "\<exists>pre t visible post d0. scans = pre @ (t, Some visible) # post
     \<and> list_all (\<lambda>(_, scan). scan = None) post \<and> d0 \<in> set visible \<and> d = d0\<lparr>dv_UpdatedAt := t\<rparr>
     \<and> dv_Transport d0 = TransportUSB \<and> dv_Status d0 = TargetOnline \<and> trim_space (dv_ConnectKey d0) \<noteq> []"
proof -
  have f: "FindDevice identifier (fold poll scans (NewDeviceRegistry stale)) = Some d"
    and on: "online_usb d" "trim_space (dv_ConnectKey d) \<noteq> []"
    using assms by (auto simp: ResolveOnlineUSB_def split: option.splits if_splits)
  have "dregistry_ok (fold poll scans (NewDeviceRegistry stale))"
    by (rule registry.run_inv) (rule dregistry_ok_new)
  from FindDevice_mem [OF this f] on have "online_backed scans d"
    using online_run [of scans stale] by (auto simp: online_usb_def)
  then obtain pre t visible post d0 where b: "scans = pre @ (t, Some visible) # post"
     "list_all (\<lambda>(_, scan). scan = None) post" "d0 \<in> set visible" "d = d0\<lparr>dv_UpdatedAt := t\<rparr>"
    unfolding online_backed_def by blast
  moreover have "dv_Transport d0 = TransportUSB \<and> dv_Status d0 = TargetOnline
      \<and> trim_space (dv_ConnectKey d0) \<noteq> []"
    using on by (simp add: b(4) online_usb_def)
  ultimately show ?thesis by blast
qed

lemma resolved_device_was_scanned_witness:
  "ResolveOnlineUSB ''K'' (fold poll [(100, Some [phone]), (105, None)] (NewDeviceRegistry 10))
      = Some (phone\<lparr>dv_UpdatedAt := 100\<rparr>)
   \<and> (\<exists>pre t visible post d0. [(100, Some [phone]), (105, None)] = pre @ (t, Some visible) # post
     \<and> list_all (\<lambda>(_, scan). scan = None) post \<and> d0 \<in> set visible
     \<and> phone\<lparr>dv_UpdatedAt := 100\<rparr> = d0\<lparr>dv_UpdatedAt := t\<rparr>
     \<and> dv_Transport d0 = TransportUSB \<and> dv_Status d0 = TargetOnline \<and> trim_space (dv_ConnectKey d0) \<noteq> [])"
proof -
  have "ResolveOnlineUSB ''K'' (fold poll [(100, Some [phone]), (105, None)] (NewDeviceRegistry 10))
      = Some (phone\<lparr>dv_UpdatedAt := 100\<rparr>)"
    by code_simp
  with resolved_device_was_scanned [OF this] show ?thesis by blast
qed

end
