(* ===== verification/Netip.thy ===== *)
theory Netip
  imports Model
begin

text \<open>
  The part of \<^verbatim>\<open>net/netip\<close> and \<^verbatim>\<open>net\<close> that the sources call on text: parsing and
  printing addresses and prefixes, and splitting host and port. An address has no zone here: a
  zone is checked to be non-empty and dropped, as \<^verbatim>\<open>PrefixFrom\<close> drops it;
  \<^verbatim>\<open>ParsePrefix\<close> rejects zones before that. The last two sections have the tests
  on addresses.
\<close>

section \<open>IPv4\<close>

definition parse_octet :: "string \<Rightarrow> nat option" where
  "parse_octet s = (if s = [] \<or> \<not> list_all is_digit s \<or> (hd s = CHR ''0'' \<and> length s \<noteq> 1)
       \<or> 255 < digits_val s then None else Some (digits_val s))"

definition parse_v4 :: "string \<Rightarrow> u32 option" where
  "parse_v4 s = (case map parse_octet (split_char (CHR ''.'') s) of
     [Some a, Some b, Some c, Some d] \<Rightarrow> Some (((of_nat a * 256 + of_nat b) * 256 + of_nat c) * 256 + of_nat d)
   | _ \<Rightarrow> None)"

definition v4_string :: "u32 \<Rightarrow> string" where
  "v4_string w = join_with ''.'' (map (\<lambda>k. itoa_nat (unat (drop_bit k w AND 0xFF))) [24, 16, 8, 0])"

section \<open>IPv6\<close>

definition is_hex :: "char \<Rightarrow> bool" where
  "is_hex c \<longleftrightarrow> is_digit c \<or> (CHR ''a'' \<le> c \<and> c \<le> CHR ''f'') \<or> (CHR ''A'' \<le> c \<and> c \<le> CHR ''F'')"

definition hex_val :: "char \<Rightarrow> nat" where
  "hex_val c = (if is_digit c then digit_val c
     else if CHR ''a'' \<le> c then of_char c - 87 else of_char c - 55)"

definition hexes_val :: "string \<Rightarrow> nat" where
  "hexes_val s = foldl (\<lambda>n c. n * 16 + hex_val c) 0 s"

text \<open>The loop over the groups: the groups read so far, the place of \<open>::\<close> and what is left.\<close>

function v6_loop ::
  "string \<Rightarrow> nat list \<Rightarrow> nat option \<Rightarrow> (nat list \<times> nat option \<times> string) option" where
  "v6_loop s groups ellipsis =
     (if 8 \<le> length groups then Some (groups, ellipsis, s)
      else let h = takeWhile is_hex s; r = dropWhile is_hex s
      in if h = [] \<or> 4 < length h then None
         else if r \<noteq> [] \<and> hd r = CHR ''.'' then
           (if (ellipsis = None \<and> length groups \<noteq> 6) \<or> 6 < length groups then None
            else case parse_v4 s of None \<Rightarrow> None
              | Some a \<Rightarrow> Some (groups @ [unat (drop_bit 16 a), unat (a AND 0xFFFF)], ellipsis, []))
         else let groups = groups @ [hexes_val h]
         in case r of [] \<Rightarrow> Some (groups, ellipsis, [])
            | c # t \<Rightarrow> if c \<noteq> CHR '':'' \<or> t = [] then None
                else if hd t = CHR '':'' then
                  (if ellipsis \<noteq> None then None
                   else if tl t = [] then Some (groups, Some (length groups), [])
                   else v6_loop (tl t) groups (Some (length groups)))
                else v6_loop t groups ellipsis)"
  by pat_completeness auto
termination
proof (relation "measure (\<lambda>(s, _). length s)", simp)
  fix s r t :: string and c
  assume r: "r = dropWhile is_hex s" "r = c # t"
  have "length (c # t) \<le> length s" using length_dropWhile_le [of is_hex s] r by simp
  then show "((tl t, g, e), s, groups, ellipsis) \<in> measure (\<lambda>(s, _). length s)" for g e groups ellipsis
    by simp
next
  fix s r t :: string and c
  assume r: "r = dropWhile is_hex s" "r = c # t"
  have "length (c # t) \<le> length s" using length_dropWhile_le [of is_hex s] r by simp
  then show "((t, g, e), s, groups, ellipsis) \<in> measure (\<lambda>(s, _). length s)" for g e groups ellipsis
    by simp
qed

declare v6_loop.simps [simp del]

definition v6_word :: "nat list \<Rightarrow> 128 word" where
  "v6_word groups = foldl (\<lambda>w g. push_bit 16 w OR of_nat g) 0 groups"

definition parse_v6 :: "string \<Rightarrow> 128 word option" where
  "parse_v6 s =
     (if s = ''::'' then Some 0
      else case (if has_prefix s ''::'' then v6_loop (drop 2 s) [] (Some 0) else v6_loop s [] None) of
        None \<Rightarrow> None
      | Some (groups, ellipsis, rest) \<Rightarrow>
          if rest \<noteq> [] then None
          else if length groups < 8 then
            (case ellipsis of None \<Rightarrow> None
             | Some e \<Rightarrow> Some (v6_word (take e groups @ replicate (8 - length groups) 0 @ drop e groups)))
          else if ellipsis \<noteq> None then None else Some (v6_word groups))"

text \<open>\<^verbatim>\<open>ParseAddr\<close>; the flag tells whether the text had a zone.\<close>

definition parse_addr_zone :: "string \<Rightarrow> (ip_addr \<times> bool) option" where
  "parse_addr_zone s =
     (case find (\<lambda>c. c \<in> set ''.:%'') s of
        Some c \<Rightarrow>
          if c = CHR ''.'' then map_option (\<lambda>a. (V4 a, False)) (parse_v4 s)
          else if c = CHR '':'' then
            (case cut_char_at (CHR ''%'') s of None \<Rightarrow> map_option (\<lambda>a. (V6 a, False)) (parse_v6 s)
             | Some (host, zone) \<Rightarrow> if zone = [] then None else map_option (\<lambda>a. (V6 a, True)) (parse_v6 host))
          else None
      | None \<Rightarrow> None)"

definition ParseAddr :: "string \<Rightarrow> ip_addr option" where
  "ParseAddr s = map_option fst (parse_addr_zone s)"

section \<open>Prefixes\<close>

definition addr_bits :: "ip_addr \<Rightarrow> nat" where
  "addr_bits a = (case a of V4 _ \<Rightarrow> 32 | V6 _ \<Rightarrow> 128)"

definition ParsePrefix :: "string \<Rightarrow> ip_prefix option" where
  "ParsePrefix s =
     (case cut_char_at (CHR ''/'') (rev s) of None \<Rightarrow> None
      | Some (rbits, raddr) \<Rightarrow>
          let bits = rev rbits
          in case parse_addr_zone (rev raddr) of None \<Rightarrow> None
             | Some (a, zone) \<Rightarrow>
                 if zone \<or> (1 < length bits \<and> \<not> (CHR ''1'' \<le> hd bits \<and> hd bits \<le> CHR ''9'')) then None
                 else case atoi bits of None \<Rightarrow> None
                   | Some n \<Rightarrow> if n < 0 \<or> int (addr_bits a) < n then None
                       else Some \<lparr>px_addr = a, px_bits = nat n\<rparr>)"

definition Masked :: "ip_prefix \<Rightarrow> ip_prefix" where
  "Masked p = p\<lparr>px_addr := (case px_addr p of
      V4 a \<Rightarrow> V4 (push_bit (32 - px_bits p) (drop_bit (32 - px_bits p) a))
    | V6 a \<Rightarrow> V6 (push_bit (128 - px_bits p) (drop_bit (128 - px_bits p) a)))\<rparr>"

section \<open>Printing\<close>

fun hex_string :: "nat \<Rightarrow> string" where
  "hex_string n = (let d = n mod 16; c = char_of (if d < 10 then 48 + d else 87 + d)
     in if n < 16 then [c] else hex_string (n div 16) @ [c])"

declare hex_string.simps [simp del]

definition v6_groups :: "128 word \<Rightarrow> nat list" where
  "v6_groups w = map (\<lambda>k. unat (drop_bit k w AND 0xFFFF)) [112, 96, 80, 64, 48, 32, 16, 0]"

text \<open>The first longest run of at least two zero groups: its start and end.\<close>

definition zero_run :: "nat list \<Rightarrow> nat \<times> nat" where
  "zero_run gs = fold (\<lambda>i (a, b). let j = i + length (takeWhile (\<lambda>g. g = 0) (drop i gs))
     in if 2 \<le> j - i \<and> b - a < j - i then (i, j) else (a, b)) [0..<length gs] (255, 255)"

definition v6_string :: "128 word \<Rightarrow> string" where
  "v6_string w =
     (if drop_bit 32 w = 0xFFFF then ''::ffff:'' @ v4_string (ucast w)
      else let gs = v6_groups w; (a, b) = zero_run gs
      in if a = 255 then join_with '':'' (map hex_string gs)
         else join_with '':'' (map hex_string (take a gs)) @ ''::'' @ join_with '':'' (map hex_string (drop b gs)))"

definition addr_string :: "ip_addr \<Rightarrow> string" where
  "addr_string a = (case a of V4 w \<Rightarrow> v4_string w | V6 w \<Rightarrow> v6_string w)"

definition prefix_string :: "ip_prefix \<Rightarrow> string" where
  "prefix_string p = addr_string (px_addr p) @ CHR ''/'' # itoa_nat (px_bits p)"

section \<open>Tests on addresses\<close>

definition IsLoopback :: "ip_addr \<Rightarrow> bool" where
  "IsLoopback a = (case unmap_addr a of V4 w \<Rightarrow> drop_bit 24 w = 127 | V6 w \<Rightarrow> w = 1)"

section \<open>Host and port\<close>

definition SplitHostPort :: "string \<Rightarrow> (string \<times> string) option" where
  "SplitHostPort s =
     (case cut_char_at (CHR '':'') (rev s) of None \<Rightarrow> None
      | Some (rport, rhost) \<Rightarrow>
          let port = rev rport; left = rev rhost
          in if s \<noteq> [] \<and> hd s = CHR ''['' then
               (case cut_char_at (CHR '']'') s of None \<Rightarrow> None
                | Some (inside, rest) \<Rightarrow>
                    if rest \<noteq> CHR '':'' # port then None
                    else if CHR ''['' \<in> set (tl s) \<or> CHR '']'' \<in> set port then None
                    else Some (tl inside, port))
             else if CHR '':'' \<in> set left \<or> CHR ''['' \<in> set s \<or> CHR '']'' \<in> set s then None
             else Some (left, port))"

section \<open>Facts\<close>

lemma drop_bit_masked:
  "drop_bit n (x XOR push_bit n (drop_bit n y)) = drop_bit n (x XOR (y :: 'a::len word))"
  by (rule bit_word_eqI) (auto simp: bit_drop_bit_eq bit_xor_iff bit_push_bit_iff dest: bit_imp_le_length)

lemma prefix_contains_Masked:
  assumes "px_bits p \<le> addr_bits (px_addr p)"
  shows "prefix_contains (Masked p) a = prefix_contains p a"
  using assms
  by (cases a; cases "px_addr p") (simp_all add: Masked_def addr_bits_def drop_bit_masked del: drop_bit_xor)

lemma ParsePrefix_bits: "ParsePrefix s = Some p \<Longrightarrow> px_bits p \<le> addr_bits (px_addr p)"
  by (auto simp: ParsePrefix_def Let_def split: option.splits prod.splits if_splits)

end
