(* ===== verification/Config.thy ===== *)
theory Config
  imports Policy Netip
begin

text \<open>
  The configuration of the process: \<^verbatim>\<open>src/internal/config/config.go\<close> and
  \<^verbatim>\<open>publichost.go\<close>.

  The environment of the process is a record: its variables, the library's parser of durations
  (whose fractions are floating-point arithmetic), the local address of an outgoing UDP socket,
  and the network interfaces. An error names the variable or the rule that was violated.
\<close>

section \<open>The record\<close>

record Config =
  cf_HDCAddr :: string
  cf_ProxyBindHost :: string
  cf_PublicHost :: string
  cf_ProxyPortMin :: int
  cf_ProxyPortMax :: int
  cf_ServerNode :: string
  cf_StateDir :: string
  cf_AllowedSourceCIDRs :: "string list"
  cf_LogLevel :: string
  cf_DevicePollInterval :: duration
  cf_DeviceStaleAfter :: duration
  cf_LeaseMaxTTL :: duration
  cf_MaxConnections :: int
  cf_MaxChannelsPerConnection :: int
  cf_HandshakeTimeout :: duration
  cf_ShutdownTimeout :: duration
  cf_HostConnectTimeout :: duration
  cf_HostReadTimeout :: duration
  cf_MaxHostPayloadBytes :: int
  cf_MaxDaemonFrameBytes :: int
  cf_MaxFileBytes :: int
  cf_MaxTempBytes :: int
  cf_FileTransferTimeout :: duration
  cf_UnityStreamTimeout :: duration
  cf_PolicyProfile :: string
  cf_ExtraDeniedExecutables :: "string list"
  cf_WebAddr :: string
  cf_AuthConfirmTimeout :: duration
  cf_HostAuth :: string

datatype config_error =
    InvalidVariable string | IdentityRequired | InvalidPortRange | InvalidConnectionLimits
  | InvalidPolling | InvalidHandshake | InvalidLeaseTTL | InvalidPayload | StateDirRequired
  | InvalidSourceCIDR string | SourceCIDRRequired | InvalidProfile | InvalidLogLevel
  | InvalidConfirmTimeout | InvalidHostAuth | InvalidWebAddr

record iface =
  if_up :: bool
  if_loopback :: bool
  if_addrs :: "bytes list option"

record environment =
  en_vars :: "string \<Rightarrow> string option"
  en_ParseDuration :: "string \<Rightarrow> duration option"
  en_outbound :: "bytes option"
  en_interfaces :: "iface list option"

section \<open>Variables\<close>

definition Getenv :: "environment \<Rightarrow> string \<Rightarrow> string" where
  "Getenv env name = (case en_vars env name of None \<Rightarrow> [] | Some v \<Rightarrow> v)"

definition envString :: "environment \<Rightarrow> string \<Rightarrow> string \<Rightarrow> string" where
  "envString env name fallback =
     (let v = trim_space (Getenv env name) in if v \<noteq> [] then v else fallback)"

definition envStringAllowEmpty :: "environment \<Rightarrow> string \<Rightarrow> string \<Rightarrow> string" where
  "envStringAllowEmpty env name fallback =
     (case en_vars env name of None \<Rightarrow> fallback | Some v \<Rightarrow> trim_space v)"

definition envInt :: "environment \<Rightarrow> string \<Rightarrow> int \<Rightarrow> config_error + int" where
  "envInt env name fallback =
     (let v = trim_space (Getenv env name)
      in if v = [] then Inr fallback
         else case atoi v of None \<Rightarrow> Inl (InvalidVariable name) | Some n \<Rightarrow> Inr n)"

text \<open>\<^verbatim>\<open>strconv.ParseInt\<close> in base 10 and 64 bits accepts what
  \<^verbatim>\<open>strconv.Atoi\<close> accepts on a 64-bit platform.\<close>

definition envInt64 :: "environment \<Rightarrow> string \<Rightarrow> int \<Rightarrow> config_error + int" where
  "envInt64 env name fallback =
     (let v = trim_space (Getenv env name)
      in if v = [] then Inr fallback
         else case atoi v of None \<Rightarrow> Inl (InvalidVariable name) | Some n \<Rightarrow> Inr n)"

definition envDuration :: "environment \<Rightarrow> string \<Rightarrow> duration \<Rightarrow> config_error + duration" where
  "envDuration env name fallback =
     (let v = trim_space (Getenv env name)
      in if v = [] then Inr fallback
         else case en_ParseDuration env v of None \<Rightarrow> Inl (InvalidVariable name) | Some d \<Rightarrow> Inr d)"

definition envCSV :: "environment \<Rightarrow> string \<Rightarrow> string list \<Rightarrow> string list" where
  "envCSV env name fallback =
     (let v = trim_space (Getenv env name)
      in if v = [] then fallback
         else filter (\<lambda>item. item \<noteq> []) (map trim_space (split_char (CHR '','') v)))"

record durationSettings =
  ds_devicePoll :: duration
  ds_deviceStale :: duration
  ds_leaseMaxTTL :: duration
  ds_handshake :: duration
  ds_shutdown :: duration
  ds_hostConnect :: duration
  ds_hostRead :: duration
  ds_fileTransfer :: duration
  ds_unityStream :: duration
  ds_authConfirm :: duration

definition durationSpecs :: "(string \<times> duration) list" where
  "durationSpecs =
    [(''HDC_REMOTE_DEVICE_POLL_INTERVAL'', 2 * Second),
     (''HDC_REMOTE_DEVICE_STALE_AFTER'', 10 * Second),
     (''HDC_REMOTE_LEASE_MAX_TTL'', 8 * 3600 * Second),
     (''HDC_REMOTE_HANDSHAKE_TIMEOUT'', 10 * Second),
     (''HDC_REMOTE_SHUTDOWN_TIMEOUT'', 10 * Second),
     (''HDC_REMOTE_HOST_CONNECT_TIMEOUT'', 3 * Second),
     (''HDC_REMOTE_HOST_READ_TIMEOUT'', 5 * Second),
     (''HDC_REMOTE_FILE_TRANSFER_TIMEOUT'', 10 * 60 * Second),
     (''HDC_REMOTE_UNITY_STREAM_TIMEOUT'', 30 * 60 * Second),
     (''HDC_REMOTE_AUTH_CONFIRM_TIMEOUT'', 90 * Second)]"

fun envDurations :: "environment \<Rightarrow> (string \<times> duration) list \<Rightarrow> config_error + duration list" where
  "envDurations env [] = Inr []"
| "envDurations env ((name, fallback) # specs) =
     (case envDuration env name fallback of Inl e \<Rightarrow> Inl e
      | Inr d \<Rightarrow> (case envDurations env specs of Inl e \<Rightarrow> Inl e | Inr ds \<Rightarrow> Inr (d # ds)))"

definition loadDurations :: "environment \<Rightarrow> config_error + durationSettings" where
  "loadDurations env = (case envDurations env durationSpecs of Inl e \<Rightarrow> Inl e
     | Inr ds \<Rightarrow> Inr \<lparr>ds_devicePoll = ds ! 0, ds_deviceStale = ds ! 1, ds_leaseMaxTTL = ds ! 2,
         ds_handshake = ds ! 3, ds_shutdown = ds ! 4, ds_hostConnect = ds ! 5, ds_hostRead = ds ! 6,
         ds_fileTransfer = ds ! 7, ds_unityStream = ds ! 8, ds_authConfirm = ds ! 9\<rparr>)"

section \<open>The public host\<close>

text \<open>\<^verbatim>\<open>net.IP.To4\<close>, and \<^verbatim>\<open>net.ParseIP\<close> followed by it.\<close>

definition To4 :: "bytes \<Rightarrow> bytes option" where
  "To4 ip = (if length ip = 4 then Some ip
     else if length ip = 16 \<and> take 12 ip = replicate 10 0 @ [0xFF, 0xFF] then Some (drop 12 ip)
     else None)"

definition be4 :: "u32 \<Rightarrow> bytes" where
  "be4 w = map (\<lambda>k. ucast (drop_bit k w)) [24, 16, 8, 0]"

definition ip4_string :: "bytes \<Rightarrow> string" where
  "ip4_string ip = join_with ''.'' (map (\<lambda>b. itoa_nat (unat b)) ip)"

definition ParseIP4 :: "string \<Rightarrow> bytes option" where
  "ParseIP4 s = (case parse_addr_zone s of Some (a, False) \<Rightarrow>
       (case unmap_addr a of V4 w \<Rightarrow> Some (be4 w) | V6 _ \<Rightarrow> None)
     | _ \<Rightarrow> None)"

definition IsPrivate4 :: "bytes \<Rightarrow> bool" where
  "IsPrivate4 ip \<longleftrightarrow> ip ! 0 = 10 \<or> (ip ! 0 = 172 \<and> ip ! 1 AND 0xF0 = 16)
     \<or> (ip ! 0 = 192 \<and> ip ! 1 = 168)"

definition IsGlobalUnicast4 :: "bytes \<Rightarrow> bool" where
  "IsGlobalUnicast4 ip \<longleftrightarrow> ip \<noteq> [255, 255, 255, 255] \<and> ip \<noteq> [0, 0, 0, 0] \<and> ip ! 0 \<noteq> 127
     \<and> ip ! 0 AND 0xF0 \<noteq> 0xE0 \<and> \<not> (ip ! 0 = 169 \<and> ip ! 1 = 254)"

definition isAdvertisableIPv4 :: "bytes option \<Rightarrow> bool" where
  "isAdvertisableIPv4 ip = (case ip of None \<Rightarrow> False
     | Some raw \<Rightarrow> (case To4 raw of None \<Rightarrow> False
         | Some ip4 \<Rightarrow> ip4 ! 0 \<noteq> 127 \<and> IsGlobalUnicast4 ip4
             \<and> \<not> (ip4 ! 0 = 198 \<and> ip4 ! 1 AND 0xFE = 18)))"

definition outboundIPv4 :: "environment \<Rightarrow> string" where
  "outboundIPv4 env = (case en_outbound env of None \<Rightarrow> []
     | Some ip \<Rightarrow> (case To4 ip of None \<Rightarrow> [] | Some ip4 \<Rightarrow> ip4_string ip4))"

definition listAdvertisableIPv4 :: "environment \<Rightarrow> bytes list" where
  "listAdvertisableIPv4 env = (case en_interfaces env of None \<Rightarrow> []
     | Some ifaces \<Rightarrow> concat (map (\<lambda>i. if \<not> if_up i \<or> if_loopback i then []
         else case if_addrs i of None \<Rightarrow> []
           | Some addrs \<Rightarrow> List.map_filter To4 (filter (\<lambda>a. isAdvertisableIPv4 (Some a)) addrs)) ifaces))"

definition detectPublicHost :: "environment \<Rightarrow> string" where
  "detectPublicHost env =
     (let candidates = listAdvertisableIPv4 env; outbound = outboundIPv4 env;
          parsed = ParseIP4 outbound;
          good = outbound \<noteq> [] \<and> isAdvertisableIPv4 parsed
      in if good \<and> (case parsed of None \<Rightarrow> False | Some ip \<Rightarrow> IsPrivate4 ip) then outbound
         else case find IsPrivate4 candidates of Some ip \<Rightarrow> ip4_string ip
         | None \<Rightarrow> if good then outbound
             else case candidates of ip # _ \<Rightarrow> ip4_string ip | [] \<Rightarrow> ''127.0.0.1'')"

definition resolvePublicHost :: "environment \<Rightarrow> string \<Rightarrow> string" where
  "resolvePublicHost env envValue =
     (let host = trim_space envValue in if host \<noteq> [] then host else detectPublicHost env)"

section \<open>Validation\<close>

definition ParseHostAuth :: "string \<Rightarrow> config_error + string" where
  "ParseHostAuth v = (let v = to_lower (trim_space v)
     in if v = ''confirm'' \<or> v = ''on'' then Inr ''confirm''
        else if v = [] \<or> v = ''off'' then Inr ''off''
        else Inl InvalidHostAuth)"

definition IsLoopbackHost :: "string \<Rightarrow> bool" where
  "IsLoopbackHost host =
     (let host = trim_space host
      in if host = [] then False
         else if EqualFold host ''localhost'' then True
         else case ParseAddr host of None \<Rightarrow> False | Some ip \<Rightarrow> IsLoopback ip)"

definition ValidateWebAddr :: "string \<Rightarrow> bool" where
  "ValidateWebAddr addr =
     (let addr = trim_space addr
      in if addr = [] then True
         else case SplitHostPort addr of None \<Rightarrow> False
           | Some (host, port) \<Rightarrow> trim_space port \<noteq> [] \<and> IsLoopbackHost host)"

datatype log_level = LevelDebug | LevelInfo | LevelWarn | LevelError

definition ParseLogLevel :: "string \<Rightarrow> log_level option" where
  "ParseLogLevel v = (let v = to_lower (trim_space v)
     in if v = [] \<or> v = ''info'' then Some LevelInfo
        else if v = ''debug'' then Some LevelDebug
        else if v = ''warn'' \<or> v = ''warning'' then Some LevelWarn
        else if v = ''error'' then Some LevelError
        else None)"

definition config_validate :: "Config \<Rightarrow> config_error option" where
  "config_validate cfg =
     (if cf_HDCAddr cfg = [] \<or> cf_ServerNode cfg = [] \<or> cf_PublicHost cfg = [] then Some IdentityRequired
      else if cf_ProxyPortMin cfg \<le> 0 \<or> cf_ProxyPortMax cfg < cf_ProxyPortMin cfg \<or> 65535 < cf_ProxyPortMax cfg
        then Some InvalidPortRange
      else if cf_MaxConnections cfg \<le> 0 \<or> cf_MaxChannelsPerConnection cfg \<le> 0 then Some InvalidConnectionLimits
      else if cf_HostConnectTimeout cfg \<le> 0 \<or> cf_HostReadTimeout cfg \<le> 0 \<or> cf_DevicePollInterval cfg \<le> 0
        \<or> cf_DeviceStaleAfter cfg < cf_DevicePollInterval cfg then Some InvalidPolling
      else if cf_HandshakeTimeout cfg \<le> 0 \<or> cf_ShutdownTimeout cfg \<le> 0 then Some InvalidHandshake
      else if cf_LeaseMaxTTL cfg \<le> 0 then Some InvalidLeaseTTL
      else if cf_MaxHostPayloadBytes cfg \<le> 0 \<or> cf_MaxDaemonFrameBytes cfg \<le> 0 \<or> cf_MaxFileBytes cfg \<le> 0
        \<or> cf_MaxTempBytes cfg < cf_MaxFileBytes cfg \<or> cf_FileTransferTimeout cfg \<le> 0
        \<or> cf_UnityStreamTimeout cfg \<le> 0 then Some InvalidPayload
      else if trim_space (cf_StateDir cfg) = [] then Some StateDirRequired
      else case find (\<lambda>cidr. ParsePrefix cidr = None) (cf_AllowedSourceCIDRs cfg) of
        Some cidr \<Rightarrow> Some (InvalidSourceCIDR cidr)
      | None \<Rightarrow>
          if cf_AllowedSourceCIDRs cfg = [] then Some SourceCIDRRequired
          else if \<not> ValidProfile (cf_PolicyProfile cfg) then Some InvalidProfile
          else if ParseLogLevel (cf_LogLevel cfg) = None then Some InvalidLogLevel
          else if cf_AuthConfirmTimeout cfg \<le> 0 then Some InvalidConfirmTimeout
          else case ParseHostAuth (cf_HostAuth cfg) of Inl e \<Rightarrow> Some e
          | Inr _ \<Rightarrow> if \<not> ValidateWebAddr (cf_WebAddr cfg) then Some InvalidWebAddr else None)"

section \<open>Loading\<close>

definition defaultCIDRs :: "string list" where
  "defaultCIDRs = [''127.0.0.1/32'', ''::1/128'', ''10.0.0.0/8'', ''172.16.0.0/12'', ''192.168.0.0/16'']"

text \<open>The six numbers before the byte limits, in the order they are read.\<close>

fun envInts :: "environment \<Rightarrow> (string \<times> int) list \<Rightarrow> config_error + int list" where
  "envInts env [] = Inr []"
| "envInts env ((name, fallback) # specs) =
     (case envInt env name fallback of Inl e \<Rightarrow> Inl e
      | Inr n \<Rightarrow> (case envInts env specs of Inl e \<Rightarrow> Inl e | Inr ns \<Rightarrow> Inr (n # ns)))"

definition numberSpecs :: "(string \<times> int) list" where
  "numberSpecs =
    [(''HDC_REMOTE_PROXY_PORT_MIN'', 50000), (''HDC_REMOTE_PROXY_PORT_MAX'', 50500),
     (''HDC_REMOTE_MAX_CONNECTIONS'', 2), (''HDC_REMOTE_MAX_CHANNELS_PER_CONNECTION'', 64),
     (''HDC_REMOTE_MAX_HOST_PAYLOAD_BYTES'', 1024 * 1024),
     (''HDC_REMOTE_MAX_DAEMON_FRAME_BYTES'', 64 * 1024 * 1024)]"

definition config_build :: "environment \<Rightarrow> int list \<Rightarrow> int \<Rightarrow> int \<Rightarrow> durationSettings \<Rightarrow> Config" where
  "config_build env ns maxFile maxTemp ds =
     \<lparr>cf_HDCAddr = envString env ''HDC_REMOTE_HDC_ADDR'' ''127.0.0.1:8710'',
      cf_ProxyBindHost = envString env ''HDC_REMOTE_PROXY_BIND_HOST'' ''0.0.0.0'',
      cf_PublicHost = resolvePublicHost env (Getenv env ''HDC_REMOTE_PUBLIC_HOST''),
      cf_ProxyPortMin = ns ! 0, cf_ProxyPortMax = ns ! 1,
      cf_ServerNode = envString env ''HDC_REMOTE_SERVER_NODE'' ''local'',
      cf_StateDir = envString env ''HDC_REMOTE_STATE_DIR'' ''data'',
      cf_AllowedSourceCIDRs = envCSV env ''HDC_REMOTE_ALLOWED_SOURCE_CIDRS'' defaultCIDRs,
      cf_LogLevel = to_lower (envString env ''HDC_REMOTE_LOG_LEVEL'' ''info''),
      cf_DevicePollInterval = ds_devicePoll ds, cf_DeviceStaleAfter = ds_deviceStale ds,
      cf_LeaseMaxTTL = ds_leaseMaxTTL ds, cf_MaxConnections = ns ! 2,
      cf_MaxChannelsPerConnection = ns ! 3, cf_HandshakeTimeout = ds_handshake ds,
      cf_ShutdownTimeout = ds_shutdown ds, cf_HostConnectTimeout = ds_hostConnect ds,
      cf_HostReadTimeout = ds_hostRead ds, cf_MaxHostPayloadBytes = ns ! 4,
      cf_MaxDaemonFrameBytes = ns ! 5, cf_MaxFileBytes = maxFile, cf_MaxTempBytes = maxTemp,
      cf_FileTransferTimeout = ds_fileTransfer ds, cf_UnityStreamTimeout = ds_unityStream ds,
      cf_PolicyProfile = to_lower (envString env ''HDC_REMOTE_POLICY_PROFILE'' ProfileStudioDebug),
      cf_ExtraDeniedExecutables = envCSV env ''HDC_REMOTE_EXTRA_DENIED_EXECUTABLES'' [],
      cf_WebAddr = envStringAllowEmpty env ''HDC_REMOTE_WEB_ADDR'' ''127.0.0.1:18080'',
      cf_AuthConfirmTimeout = ds_authConfirm ds,
      cf_HostAuth = envString env ''HDC_REMOTE_HOST_AUTH'' ''off''\<rparr>"

definition config_Load :: "environment \<Rightarrow> config_error + Config" where
  "config_Load env =
     (case envInts env numberSpecs of Inl e \<Rightarrow> Inl e
      | Inr ns \<Rightarrow>
     (case envInt64 env ''HDC_REMOTE_MAX_FILE_BYTES'' (2 * 1024 * 1024 * 1024) of Inl e \<Rightarrow> Inl e
      | Inr maxFile \<Rightarrow>
     (case envInt64 env ''HDC_REMOTE_MAX_TEMP_BYTES'' (4 * 1024 * 1024 * 1024) of Inl e \<Rightarrow> Inl e
      | Inr maxTemp \<Rightarrow>
     (case loadDurations env of Inl e \<Rightarrow> Inl e
      | Inr ds \<Rightarrow>
          let cfg = config_build env ns maxFile maxTemp ds
          in case config_validate cfg of Some e \<Rightarrow> Inl e
             | None \<Rightarrow> Inr (cfg\<lparr>cf_HostAuth := (case ParseHostAuth (cf_HostAuth cfg) of
                 Inl _ \<Rightarrow> [] | Inr mode \<Rightarrow> mode)\<rparr>)))))"

section \<open>Warnings\<close>

definition UnrestrictedSourceCIDRs :: "string list \<Rightarrow> string list" where
  "UnrestrictedSourceCIDRs cidrs =
     filter (\<lambda>cidr. case ParsePrefix cidr of None \<Rightarrow> False | Some p \<Rightarrow> px_bits p = 0) cidrs"

definition PublicHostNeedsSourceCIDRWarn :: "string \<Rightarrow> string list \<Rightarrow> bool" where
  "PublicHostNeedsSourceCIDRWarn publicHost cidrs =
     (let host = trim_space publicHost
      in if host = [] \<or> host = ''127.0.0.1'' \<or> host = ''::1'' \<or> host = ''localhost'' then False
         else if (case ParseAddr host of None \<Rightarrow> False | Some ip \<Rightarrow> IsLoopback ip) then False
         else if list_ex (\<lambda>cidr. case ParsePrefix cidr of None \<Rightarrow> False
              | Some p \<Rightarrow> \<not> IsLoopback (px_addr p)) cidrs then False
         else cidrs \<noteq> [])"

end
