(* ===== verification/Manager.thy ===== *)
theory Manager
  imports Config Listener Port_Pool Binding_Store Device_Registry
begin

text \<open>
  The orchestration of remote access: \<^verbatim>\<open>src/internal/remote/manager.go\<close>, on top of
  the gateway (Listener), the port pool, the store of bindings and the registry of devices.

  The manager's loop is the only caller of \<open>Acquire\<close>, \<open>AutoExpose\<close> and \<open>reconcile\<close>. What the
  goroutines of the connections, of the scanner and of the console do at the same time is a
  list of events; between two locked sections of an operation the operation's environment gives
  the events that happen there, so every interleaving is covered. The times, the fresh ids and the
  outcomes of system calls are in the environment too.

  \<open>mg_saved\<close> is what the last successful save wrote, \<open>mg_registry\<close> the registry that the interface
  of the code reaches. The gateway's \<open>Unbind\<close> has no error; its branch is kept, with the outcome
  in the environment.
\<close>

section \<open>State\<close>

record Manager =
  mg_cfg :: Config
  mg_registry :: DeviceRegistry
  mg_ports :: portPool
  mg_closed :: bool
  mg_closeErr :: bool
  mg_gateway :: "GatewayState option"
  bindingsByDevice :: "(string, Binding) gomap"
  bindingsByID :: "(string, Binding) gomap"
  leasesByDevice :: "(string, Lease) gomap"
  leasesByID :: "(string, Lease) gomap"
  inflightByDevice :: "string list"
  lastRejectedReason :: "(string, string) gomap"
  mg_saved :: "Binding list"

datatype request_error =
    DeviceIdentifierRequired | LeaseTTLOutside | ConnectionLimitOutside | SourceCIDRInvalid string

datatype manager_error =
    ErrInvalidRequest request_error | ErrDeviceUnavailable | ErrLeaseConflict | ErrGatewayUnavailable
  | PortAllocationFailed | BindingSaveFailed | GatewayBindFailed bind_error | GatewayUnbindFailed
  | RestoreFailed string port_error | SnapshotLoadFailed store_error

section \<open>Construction\<close>

fun restore_bindings :: "Config \<Rightarrow> Binding list \<Rightarrow> Manager \<Rightarrow> manager_error + Manager" where
  "restore_bindings cfg [] m = Inr m"
| "restore_bindings cfg (binding # bs) m =
     (case reserve (bd_Port binding) (mg_ports m) of
        (_, Some e) \<Rightarrow> Inl (RestoreFailed (bd_ID binding) e)
      | (ports, None) \<Rightarrow>
          let binding = binding\<lparr>bd_PublicHost := cf_PublicHost cfg, bd_Status := BindingReserved\<rparr>
          in restore_bindings cfg bs (m\<lparr>mg_ports := ports,
               bindingsByDevice := AList.update (bd_DeviceID binding) binding (bindingsByDevice m),
               bindingsByID := AList.update (bd_ID binding) binding (bindingsByID m)\<rparr>))"

definition NewManager ::
  "DeviceRegistry \<Rightarrow> store_error + Binding list \<Rightarrow> Config \<Rightarrow> manager_error + Manager" where
  "NewManager registry loaded cfg = (case loaded of Inl e \<Rightarrow> Inl (SnapshotLoadFailed e)
     | Inr bindings \<Rightarrow> restore_bindings cfg bindings
         \<lparr>mg_cfg = cfg, mg_registry = registry,
          mg_ports = newPortPool (cf_ProxyBindHost cfg) (cf_ProxyPortMin cfg) (cf_ProxyPortMax cfg),
          mg_closed = False, mg_closeErr = False, mg_gateway = None,
          bindingsByDevice = [], bindingsByID = [], leasesByDevice = [], leasesByID = [],
          inflightByDevice = [], lastRejectedReason = [], mg_saved = bindings\<rparr>)"

definition SetGateway :: "GatewayState \<Rightarrow> Manager \<Rightarrow> Manager" where
  "SetGateway g m = m\<lparr>mg_gateway := Some g\<rparr>"

section \<open>Callbacks and events\<close>

definition put_lease :: "Lease \<Rightarrow> Manager \<Rightarrow> Manager" where
  "put_lease lease m = m\<lparr>leasesByID := AList.update (ls_ID lease) lease (leasesByID m),
     leasesByDevice := AList.update (ls_DeviceID lease) lease (leasesByDevice m)\<rparr>"

definition ConnectionOpened :: "string \<Rightarrow> time \<Rightarrow> Manager \<Rightarrow> Manager" where
  "ConnectionOpened leaseID now m = (case map_of (leasesByID m) leaseID of None \<Rightarrow> m
     | Some lease \<Rightarrow> if ls_Status lease \<noteq> LeaseActive then m
         else let lease = lease\<lparr>ls_ActiveConnections := ls_ActiveConnections lease + 1, ls_UpdatedAt := now\<rparr>
         in m\<lparr>leasesByID := AList.update leaseID lease (leasesByID m),
              leasesByDevice := AList.update (ls_DeviceID lease) lease (leasesByDevice m)\<rparr>)"

definition ConnectionClosed :: "string \<Rightarrow> time \<Rightarrow> Manager \<Rightarrow> Manager" where
  "ConnectionClosed leaseID now m = (case map_of (leasesByID m) leaseID of None \<Rightarrow> m
     | Some lease \<Rightarrow>
         let lease = lease\<lparr>ls_ActiveConnections := (if 0 < ls_ActiveConnections lease
                then ls_ActiveConnections lease - 1 else ls_ActiveConnections lease), ls_UpdatedAt := now\<rparr>
         in m\<lparr>leasesByID := AList.update leaseID lease (leasesByID m),
              leasesByDevice := AList.update (ls_DeviceID lease) lease (leasesByDevice m)\<rparr>)"

definition ConnectionRejected :: "string \<Rightarrow> string \<Rightarrow> Manager \<Rightarrow> Manager" where
  "ConnectionRejected leaseID reason m = (case map_of (leasesByID m) leaseID of None \<Rightarrow> m
     | Some lease \<Rightarrow> m\<lparr>lastRejectedReason :=
         AList.update (ls_DeviceID lease) (trim_space reason) (lastRejectedReason m)\<rparr>)"

definition ResolveOnlineConnectKey :: "string \<Rightarrow> Manager \<Rightarrow> string option" where
  "ResolveOnlineConnectKey deviceID m =
     map_option dv_ConnectKey (ResolveOnlineUSB deviceID (mg_registry m))"

text \<open>What others do while the loop is between two locked sections: the callbacks, a scan, and
  the operations of the gateway that do not come from the manager.\<close>

datatype manager_event =
    EvOpened string time
  | EvClosed string time
  | EvRejected string string
  | EvScan time "Device list option"
  | EvGateway gateway_op

fun connection_op :: "gateway_op \<Rightarrow> bool" where
  "connection_op (GAdmit _ _ _ _) = True"
| "connection_op (GLeave _ _) = True"
| "connection_op (GTrack _) = True"
| "connection_op (GDrop _) = True"
| "connection_op (GKick _) = True"
| "connection_op _ = False"

fun apply_event :: "manager_event \<Rightarrow> Manager \<Rightarrow> Manager" where
  "apply_event (EvOpened leaseID now) m = ConnectionOpened leaseID now m"
| "apply_event (EvClosed leaseID now) m = ConnectionClosed leaseID now m"
| "apply_event (EvRejected leaseID reason) m = ConnectionRejected leaseID reason m"
| "apply_event (EvScan now scan) m = m\<lparr>mg_registry := refresh now scan (mg_registry m)\<rparr>"
| "apply_event (EvGateway opr) m =
     (if connection_op opr then m\<lparr>mg_gateway := map_option (gateway_apply opr) (mg_gateway m)\<rparr> else m)"

definition run_events :: "manager_event list \<Rightarrow> Manager \<Rightarrow> Manager" where
  "run_events events m = fold apply_event events m"

section \<open>Views\<close>

definition zero_binding :: Binding where
  "zero_binding = \<lparr>bd_ID = [], bd_DeviceID = [], bd_PublicHost = [], bd_Port = 0,
     bd_Status = BindingReleased, bd_CreatedAt = 0, bd_UpdatedAt = 0\<rparr>"

definition go_get :: "('k, 'v) gomap \<Rightarrow> 'k \<Rightarrow> 'v \<Rightarrow> 'v" where
  "go_get m k zero = (case map_of m k of None \<Rightarrow> zero | Some v \<Rightarrow> v)"

definition itoa :: "int \<Rightarrow> string" where
  "itoa n = (if n < 0 then CHR ''-'' # itoa_nat (nat (- n)) else itoa_nat (nat n))"

definition failedView :: "string \<Rightarrow> string \<Rightarrow> RemoteAccessView" where
  "failedView deviceID message = \<lparr>rv_DeviceID = deviceID, rv_DeviceName = [],
     rv_USBStatus = TargetUnknown, rv_RemoteAccessStatus = RemoteFailed, rv_ConnectCommand = [],
     rv_VerifyCommand = [], rv_ProxyPort = 0, rv_PublicHost = [], rv_LeaseID = [], rv_OwnerID = [],
     rv_AllowedSourceCIDRs = [], rv_MaxConnections = 0, rv_ActiveConnections = 0, rv_ExpiresAt = None,
     rv_ErrorMessage = message, rv_LastRejectedCommandReason = []\<rparr>"

definition buildViewLocked :: "Device \<Rightarrow> string \<Rightarrow> Manager \<Rightarrow> RemoteAccessView" where
  "buildViewLocked device message m =
     (let binding = go_get (bindingsByDevice m) (dv_ID device) zero_binding;
          view = (failedView (dv_ID device) message)\<lparr>
            rv_DeviceName := (if dv_Model device = [] then dv_ConnectKey device else dv_Model device),
            rv_USBStatus := dv_Status device, rv_RemoteAccessStatus := RemoteNotEnabled,
            rv_PublicHost := bd_PublicHost binding, rv_ProxyPort := bd_Port binding,
            rv_LastRejectedCommandReason := go_get (lastRejectedReason m) (dv_ID device) []\<rparr>
      in case map_of (leasesByDevice m) (dv_ID device) of None \<Rightarrow> view
         | Some lease \<Rightarrow> if ls_ID lease = [] then view
           else view\<lparr>rv_LeaseID := ls_ID lease, rv_OwnerID := ls_OwnerID lease,
             rv_AllowedSourceCIDRs := ls_AllowedSourceCIDRs lease,
             rv_MaxConnections := ls_MaxConnections lease,
             rv_ActiveConnections := ls_ActiveConnections lease,
             rv_ExpiresAt := Some (ls_ExpiresAt lease),
             rv_ConnectCommand := ''hdc tconn '' @ bd_PublicHost binding @ '':'' @ itoa (bd_Port binding),
             rv_VerifyCommand := ''hdc list targets'',
             rv_RemoteAccessStatus := (if message \<noteq> [] then RemoteFailed
               else case ls_Status lease of
                 LeaseActive \<Rightarrow> if 0 < ls_ActiveConnections lease then RemoteConnected else RemoteConnectable
               | LeaseReleasing \<Rightarrow> RemoteReleasing
               | LeaseFailed \<Rightarrow> RemoteFailed
               | _ \<Rightarrow> RemoteNotEnabled)\<rparr>)"

definition Views :: "Manager \<Rightarrow> RemoteAccessView list option" where
  "Views m = (case Devices (mg_registry m) of None \<Rightarrow> None
     | Some devices \<Rightarrow>
         Some (sort_key rv_DeviceID (map (\<lambda>device. buildViewLocked device [] m) devices)))"

section \<open>Requests\<close>

definition parsePrefix :: "string \<Rightarrow> ip_prefix option" where
  "parsePrefix v = (case ParsePrefix v of Some p \<Rightarrow> Some (Masked p)
     | None \<Rightarrow> (case ParseAddr v of None \<Rightarrow> None
         | Some address \<Rightarrow> Some \<lparr>px_addr = address, px_bits = addr_bits address\<rparr>))"

text \<open>The loop over the sources: the rewritten list, and the prefixes or the text that is none.\<close>

fun normalize_cidrs :: "string list \<Rightarrow> string list \<times> (string + ip_prefix list)" where
  "normalize_cidrs [] = ([], Inr [])"
| "normalize_cidrs (v # vs) =
     (case parsePrefix (trim_space v) of None \<Rightarrow> (v # vs, Inl v)
      | Some p \<Rightarrow> (case normalize_cidrs vs of (ws, r) \<Rightarrow>
          (prefix_string p # ws, case r of Inl e \<Rightarrow> Inl e | Inr ps \<Rightarrow> Inr (p # ps))))"

definition normalizeAcquire ::
  "Config \<Rightarrow> AcquireRequest \<Rightarrow> AcquireRequest \<times> (request_error + ip_prefix list)" where
  "normalizeAcquire cfg request =
     (let request = request\<lparr>ar_DeviceIdentifier := trim_space (ar_DeviceIdentifier request),
            ar_OwnerID := trim_space (ar_OwnerID request),
            ar_PolicyProfile := trim_space (ar_PolicyProfile request)\<rparr>
      in if ar_DeviceIdentifier request = [] then (request, Inl DeviceIdentifierRequired)
      else let request = (if ar_OwnerID request = [] then request\<lparr>ar_OwnerID := ''default''\<rparr> else request);
          request = (if ar_PolicyProfile request = [] then request\<lparr>ar_PolicyProfile := ''studio-debug''\<rparr> else request);
          request = (if ar_TTL request \<le> 0 then request\<lparr>ar_TTL := cf_LeaseMaxTTL cfg\<rparr> else request)
      in if cf_LeaseMaxTTL cfg < ar_TTL request then (request, Inl LeaseTTLOutside)
      else let request = (if ar_MaxConnections request = 0
                 then request\<lparr>ar_MaxConnections := cf_MaxConnections cfg\<rparr> else request)
      in if ar_MaxConnections request \<le> 0 \<or> cf_MaxConnections cfg < ar_MaxConnections request
         then (request, Inl ConnectionLimitOutside)
      else let request = (if ar_AllowedSourceCIDRs request = []
                 then request\<lparr>ar_AllowedSourceCIDRs := cf_AllowedSourceCIDRs cfg\<rparr> else request)
      in case normalize_cidrs (ar_AllowedSourceCIDRs request) of
           (ws, Inl v) \<Rightarrow> (request\<lparr>ar_AllowedSourceCIDRs := ws\<rparr>, Inl (SourceCIDRInvalid v))
         | (ws, Inr prefixes) \<Rightarrow> (request\<lparr>ar_AllowedSourceCIDRs := ws\<rparr>, Inr prefixes))"

text \<open>The text of an error; \<^verbatim>\<open>%q\<close> is written for text that needs no escape.\<close>

definition request_error_text :: "request_error \<Rightarrow> string" where
  "request_error_text e = ''remote access request is invalid: '' @ (case e of
     DeviceIdentifierRequired \<Rightarrow> ''device identifier is required''
   | LeaseTTLOutside \<Rightarrow> ''lease TTL is outside the configured range''
   | ConnectionLimitOutside \<Rightarrow> ''connection limit is outside the configured range''
   | SourceCIDRInvalid v \<Rightarrow> ''invalid source CIDR '' @ CHR 0x22 # v @ [CHR 0x22])"

definition buildGrant :: "Lease \<Rightarrow> Binding \<Rightarrow> ip_prefix list \<Rightarrow> Grant" where
  "buildGrant lease binding prefixes = \<lparr>gr_LeaseID = ls_ID lease, gr_Binding = binding,
     gr_DeviceID = ls_DeviceID lease, gr_OwnerID = ls_OwnerID lease,
     gr_AllowedSourcePrefixes = prefixes, gr_MaxConnections = ls_MaxConnections lease,
     gr_ExpiresAt = ls_ExpiresAt lease, gr_PolicyProfile = ls_PolicyProfile lease\<rparr>"

section \<open>Acquiring\<close>

definition the_default :: "'a \<Rightarrow> 'a option \<Rightarrow> 'a" where
  "the_default d x = (case x of None \<Rightarrow> d | Some v \<Rightarrow> v)"

record acquire_env =
  ae_now :: time
  ae_created :: time
  ae_commit :: time
  ae_listens :: "int \<Rightarrow> bool"
  ae_bindingID :: string
  ae_leaseID :: string
  ae_save :: bool
  ae_listen :: bool
  ae_windows :: "nat \<Rightarrow> manager_event list"

definition saveBindings :: "bool \<Rightarrow> Manager \<Rightarrow> Manager \<times> bool" where
  "saveBindings ok m =
     (case validate (cf_ProxyPortMin (mg_cfg m)) (cf_ProxyPortMax (mg_cfg m))
        (sort_key bd_DeviceID (map snd (bindingsByDevice m))) of
        Inl _ \<Rightarrow> (m, False)
      | Inr normalized \<Rightarrow> if ok then (m\<lparr>mg_saved := normalized\<rparr>, True) else (m, False))"

definition put_binding :: "Binding \<Rightarrow> Manager \<Rightarrow> Manager" where
  "put_binding binding m = m\<lparr>bindingsByDevice := AList.update (bd_DeviceID binding) binding (bindingsByDevice m),
     bindingsByID := AList.update (bd_ID binding) binding (bindingsByID m)\<rparr>"

definition createBinding ::
  "acquire_env \<Rightarrow> string \<Rightarrow> Manager \<Rightarrow> Manager \<times> (manager_error + Binding)" where
  "createBinding env deviceID m =
     (case allocate (ae_listens env) (mg_ports m) of
        (ports, None) \<Rightarrow> (m\<lparr>mg_ports := ports\<rparr>, Inl PortAllocationFailed)
      | (ports, Some port) \<Rightarrow>
          let binding = \<lparr>bd_ID = ae_bindingID env, bd_DeviceID = deviceID,
                bd_PublicHost = cf_PublicHost (mg_cfg m), bd_Port = port, bd_Status = BindingReserved,
                bd_CreatedAt = ae_created env, bd_UpdatedAt = ae_created env\<rparr>;
              m = put_binding binding (run_events (ae_windows env 4) (m\<lparr>mg_ports := ports\<rparr>))
          in case saveBindings (ae_save env) (run_events (ae_windows env 5) m) of
               (m, True) \<Rightarrow> (m, Inr binding)
             | (m, False) \<Rightarrow>
                 let m = run_events (ae_windows env 6) m
                 in (m\<lparr>bindingsByDevice := AList.delete deviceID (bindingsByDevice m),
                       bindingsByID := AList.delete (bd_ID binding) (bindingsByID m),
                       mg_ports := release port (mg_ports m)\<rparr>, Inl BindingSaveFailed))"

definition clearInflight :: "string \<Rightarrow> Manager \<Rightarrow> Manager" where
  "clearInflight deviceID m = m\<lparr>inflightByDevice := removeAll deviceID (inflightByDevice m)\<rparr>"

definition gatewayBind ::
  "acquire_env \<Rightarrow> Grant \<Rightarrow> GatewayState \<Rightarrow> Manager \<Rightarrow> Manager \<times> bind_error option" where
  "gatewayBind env grant g m =
     (if bind_precheck grant g \<noteq> Inr False then (m, snd (Bind grant (ae_listen env) (\<lambda>g. g) g))
      else let m = run_events (ae_windows env 2) m;
               (g, e) = Bind grant (ae_listen env) (\<lambda>g. the_default g (mg_gateway m)) g
           in (m\<lparr>mg_gateway := Some g\<rparr>, e))"

definition acquire_renew ::
  "acquire_env \<Rightarrow> AcquireRequest \<Rightarrow> ip_prefix list \<Rightarrow> Device \<Rightarrow> Lease \<Rightarrow> Manager
     \<Rightarrow> Manager \<times> RemoteAccessView" where
  "acquire_renew env request prefixes device lease m =
     (let lease = lease\<lparr>ls_ExpiresAt := ae_now env + ar_TTL request, ls_UpdatedAt := ae_now env,
            ls_AllowedSourceCIDRs := ar_AllowedSourceCIDRs request,
            ls_MaxConnections := ar_MaxConnections request,
            ls_PolicyProfile := ar_PolicyProfile request\<rparr>;
          m = m\<lparr>leasesByID := AList.update (ls_ID lease) lease (leasesByID m),
                leasesByDevice := AList.update (dv_ID device) lease (leasesByDevice m)\<rparr>;
          view = buildViewLocked device [] m; binding = map_of (bindingsByDevice m) (dv_ID device);
          m = run_events (ae_windows env 1) m
      in case (mg_gateway m, binding) of
           (Some g, Some binding) \<Rightarrow>
             (m\<lparr>mg_gateway := Some (fst (UpdateGrant (buildGrant lease binding prefixes) g))\<rparr>, view)
         | _ \<Rightarrow> (m, view))"

definition newLease :: "acquire_env \<Rightarrow> AcquireRequest \<Rightarrow> string \<Rightarrow> Binding \<Rightarrow> Lease" where
  "newLease env request deviceID binding = \<lparr>ls_ID = ae_leaseID env, ls_BindingID = bd_ID binding,
     ls_DeviceID = deviceID, ls_OwnerID = ar_OwnerID request,
     ls_AllowedSourceCIDRs = ar_AllowedSourceCIDRs request, ls_MaxConnections = ar_MaxConnections request,
     ls_ActiveConnections = 0, ls_PolicyProfile = ar_PolicyProfile request, ls_Status = LeaseActive,
     ls_ExpiresAt = ae_now env + ar_TTL request, ls_CreatedAt = ae_now env, ls_UpdatedAt = ae_now env\<rparr>"

definition acquire_commit :: "acquire_env \<Rightarrow> Device \<Rightarrow> Lease \<Rightarrow> Binding \<Rightarrow> Manager \<Rightarrow> Manager" where
  "acquire_commit env device lease binding m =
     (let binding = (case map_of (bindingsByDevice m) (dv_ID device) of Some current \<Rightarrow> current
            | None \<Rightarrow> binding)\<lparr>bd_Status := BindingListening, bd_UpdatedAt := ae_commit env\<rparr>
      in m\<lparr>bindingsByDevice := AList.update (dv_ID device) binding (bindingsByDevice m),
           bindingsByID := AList.update (bd_ID binding) binding (bindingsByID m),
           leasesByDevice := AList.update (dv_ID device) lease (leasesByDevice m),
           leasesByID := AList.update (ls_ID lease) lease (leasesByID m)\<rparr>)"

definition acquire_fresh ::
  "acquire_env \<Rightarrow> AcquireRequest \<Rightarrow> ip_prefix list \<Rightarrow> Device \<Rightarrow> GatewayState \<Rightarrow> Manager
     \<Rightarrow> Manager \<times> RemoteAccessView \<times> manager_error option" where
  "acquire_fresh env request prefixes device g m =
     (let m = m\<lparr>inflightByDevice := List.insert (dv_ID device) (inflightByDevice m)\<rparr>;
          found = map_of (bindingsByDevice m) (dv_ID device);
          (m, created) = (case found of Some binding \<Rightarrow> (m, Inr binding)
             | None \<Rightarrow> createBinding env (dv_ID device) (run_events (ae_windows env 1) m))
      in case created of
           Inl e \<Rightarrow> (clearInflight (dv_ID device) m,
             failedView (dv_ID device) ''Remote access port is not available.'', Some e)
         | Inr binding \<Rightarrow>
             let lease = newLease env request (dv_ID device) binding
             in case gatewayBind env (buildGrant lease binding prefixes) (the_default g (mg_gateway m)) m of
                  (m, Some e) \<Rightarrow> (clearInflight (dv_ID device) m,
                    failedView (dv_ID device) ''Remote access port is not available.'', Some (GatewayBindFailed e))
                | (m, None) \<Rightarrow>
                    let m = acquire_commit env device lease binding (run_events (ae_windows env 3) m)
                    in (clearInflight (dv_ID device) m, buildViewLocked device [] m, None))"

definition Acquire ::
  "acquire_env \<Rightarrow> AcquireRequest \<Rightarrow> Manager \<Rightarrow> Manager \<times> RemoteAccessView \<times> manager_error option" where
  "Acquire env request m =
     (case normalizeAcquire (mg_cfg m) request of
        (request, Inl e) \<Rightarrow>
          (m, failedView (ar_DeviceIdentifier request) (request_error_text e), Some (ErrInvalidRequest e))
      | (request, Inr prefixes) \<Rightarrow>
          (case ResolveOnlineUSB (ar_DeviceIdentifier request) (mg_registry m) of
             None \<Rightarrow> (m, failedView (ar_DeviceIdentifier request) ''Device is not available.'',
                       Some ErrDeviceUnavailable)
           | Some device \<Rightarrow>
               let m = run_events (ae_windows env 0) m;
                   leased = map_of (leasesByDevice m) (dv_ID device)
               in if dv_ID device \<in> set (inflightByDevice m)
                  then (m, buildViewLocked device ''Remote access operation is already in progress.'' m,
                        Some ErrLeaseConflict)
                  else if (case leased of None \<Rightarrow> False | Some lease \<Rightarrow> ls_Status lease = LeaseActive)
                  then (let lease = the leased
                    in if ls_OwnerID lease = ar_OwnerID request
                       then (case acquire_renew env request prefixes device lease m of
                               (m, view) \<Rightarrow> (m, view, None))
                       else (m, (buildViewLocked device [] m)
                               \<lparr>rv_ErrorMessage := ''Device is already leased by another owner.'',
                                rv_RemoteAccessStatus := RemoteFailed\<rparr>, Some ErrLeaseConflict))
                  else (case mg_gateway m of
                          None \<Rightarrow> (m, failedView (dv_ID device) ''Remote gateway is not initialized.'',
                                    Some ErrGatewayUnavailable)
                        | Some g \<Rightarrow> acquire_fresh env request prefixes device g m)))"

section \<open>Releasing\<close>

record release_env =
  re_now :: time
  re_done :: time
  re_unbind :: bool
  re_save :: bool
  re_windows :: "nat \<Rightarrow> manager_event list"

definition release_finish :: "release_env \<Rightarrow> Lease \<Rightarrow> Binding \<Rightarrow> Device option \<Rightarrow> Manager \<Rightarrow> Manager" where
  "release_finish env lease binding found m =
     (let m = m\<lparr>leasesByID := AList.delete (ls_ID lease) (leasesByID m)\<rparr>;
          m = (case map_of (leasesByDevice m) (ls_DeviceID lease) of None \<Rightarrow> m
             | Some current \<Rightarrow> if ls_ID current = ls_ID lease
                 then m\<lparr>leasesByDevice := AList.delete (ls_DeviceID lease) (leasesByDevice m)\<rparr> else m);
          binding = (case map_of (bindingsByID m) (bd_ID binding) of None \<Rightarrow> binding
             | Some current \<Rightarrow> if bd_ID binding \<noteq> [] then current else binding)
      in if bd_ID binding = [] then m
         else let binding = binding\<lparr>bd_Status := (case found of None \<Rightarrow> BindingFrozen
                  | Some device \<Rightarrow> if online_usb device then BindingReserved else BindingFrozen),
                  bd_UpdatedAt := re_done env\<rparr>
         in put_binding binding m)"

definition releaseLease :: "release_env \<Rightarrow> string \<Rightarrow> Manager \<Rightarrow> Manager \<times> manager_error option" where
  "releaseLease env leaseID m = (case map_of (leasesByID m) leaseID of None \<Rightarrow> (m, None)
     | Some lease \<Rightarrow>
         if ls_DeviceID lease \<in> set (inflightByDevice m) then (m, Some ErrLeaseConflict)
         else let lease = lease\<lparr>ls_Status := LeaseReleasing, ls_UpdatedAt := re_now env\<rparr>;
             m = put_lease lease (m\<lparr>inflightByDevice := List.insert (ls_DeviceID lease) (inflightByDevice m)\<rparr>);
             binding = go_get (bindingsByID m) (ls_BindingID lease) zero_binding;
             m = run_events (re_windows env 0) m
         in if mg_gateway m \<noteq> None \<and> \<not> re_unbind env
            then (clearInflight (ls_DeviceID lease) (put_lease (lease\<lparr>ls_Status := LeaseFailed,
                    ls_UpdatedAt := re_done env\<rparr>) m), Some GatewayUnbindFailed)
            else let m = m\<lparr>mg_gateway := map_option (\<lambda>g. fst (Unbind (bd_ID binding) g)) (mg_gateway m)\<rparr>;
                m = run_events (re_windows env 1) m;
                found = FindDevice (ls_DeviceID lease) (mg_registry m);
                m = release_finish env lease binding found (run_events (re_windows env 2) m);
                (m, saved) = saveBindings (re_save env) (run_events (re_windows env 3) m)
            in (clearInflight (ls_DeviceID lease) m, if saved then None else Some BindingSaveFailed))"

section \<open>The loop\<close>

record tick_env =
  te_now :: time
  te_release :: "nat \<Rightarrow> release_env"
  te_bindings :: time
  te_save :: bool
  te_acquire :: "nat \<Rightarrow> acquire_env"
  te_windows :: "nat \<Rightarrow> manager_event list"

definition lease_due :: "time \<Rightarrow> Manager \<Rightarrow> Lease \<Rightarrow> LeaseStatus option" where
  "lease_due now m lease =
     (if ls_ExpiresAt lease \<le> now then Some LeaseExpired
      else case FindDevice (ls_DeviceID lease) (mg_registry m) of None \<Rightarrow> Some LeaseRevoked
        | Some device \<Rightarrow> if \<not> online_usb device then Some LeaseRevoked else None)"

fun reconcile_leases :: "tick_env \<Rightarrow> nat \<Rightarrow> Lease list \<Rightarrow> Manager \<Rightarrow> Manager" where
  "reconcile_leases env k [] m = m"
| "reconcile_leases env k (lease # leases) m =
     (let m = run_events (te_windows env k) m
      in reconcile_leases env (Suc k) leases (case lease_due (te_now env) m lease of None \<Rightarrow> m
           | Some _ \<Rightarrow> fst (releaseLease (te_release env k) (ls_ID lease) m)))"

definition reconcile_binding :: "time \<Rightarrow> string \<times> Binding \<Rightarrow> Manager \<times> bool \<Rightarrow> Manager \<times> bool" where
  "reconcile_binding now entry acc =
     (let (deviceID, binding) = entry; (m, changed) = acc
      in if map_of (leasesByDevice m) deviceID \<noteq> None then (m, changed)
         else let nextStatus = (case FindDevice deviceID (mg_registry m) of None \<Rightarrow> BindingFrozen
                | Some device \<Rightarrow> if online_usb device then BindingReserved else BindingFrozen)
         in if bd_Status binding = nextStatus then (m, changed)
            else let binding = binding\<lparr>bd_Status := nextStatus, bd_UpdatedAt := now\<rparr>
            in (m\<lparr>bindingsByDevice := AList.update deviceID binding (bindingsByDevice m),
                  bindingsByID := AList.update (bd_ID binding) binding (bindingsByID m)\<rparr>, True))"

definition reconcileBindings :: "time \<Rightarrow> bool \<Rightarrow> Manager \<Rightarrow> Manager" where
  "reconcileBindings now save m =
     (case fold (reconcile_binding now) (bindingsByDevice m) (m, False) of
        (m, False) \<Rightarrow> m | (m, True) \<Rightarrow> fst (saveBindings save m))"

definition reconcile :: "tick_env \<Rightarrow> Manager \<Rightarrow> Manager" where
  "reconcile env m =
     (let leases = map snd (leasesByID m)
      in reconcileBindings (te_bindings env) (te_save env)
           (run_events (te_windows env (length leases)) (reconcile_leases env 0 leases m)))"

abbreviation (input) autoOwner :: string where "autoOwner \<equiv> ''auto''"

definition auto_request :: "Config \<Rightarrow> Device \<Rightarrow> AcquireRequest" where
  "auto_request cfg device = \<lparr>ar_DeviceIdentifier = dv_ID device, ar_OwnerID = autoOwner,
     ar_AllowedSourceCIDRs = [], ar_TTL = cf_LeaseMaxTTL cfg, ar_MaxConnections = 0,
     ar_PolicyProfile = cf_PolicyProfile cfg\<rparr>"

fun expose_devices :: "(nat \<Rightarrow> acquire_env) \<Rightarrow> nat \<Rightarrow> Device list \<Rightarrow> Manager \<Rightarrow> Manager" where
  "expose_devices env k [] m = m"
| "expose_devices env k (device # devices) m =
     expose_devices env (Suc k) devices
       (if online_usb device then fst (Acquire (env k) (auto_request (mg_cfg m) device) m) else m)"

definition AutoExpose :: "(nat \<Rightarrow> acquire_env) \<Rightarrow> Manager \<Rightarrow> Manager" where
  "AutoExpose env m = (case Devices (mg_registry m) of None \<Rightarrow> m
     | Some devices \<Rightarrow> expose_devices env 0 devices m)"

definition manager_tick :: "tick_env \<Rightarrow> Manager \<Rightarrow> Manager" where
  "manager_tick env m = (if mg_closed m then m else AutoExpose (te_acquire env) (reconcile env m))"

section \<open>Closing\<close>

definition unbind_all :: "string list \<Rightarrow> GatewayState \<Rightarrow> GatewayState" where
  "unbind_all ids g = fold (\<lambda>i g. fst (Unbind i g)) ids g"

text \<open>The result tells whether there was an error. The loop has ended when the bindings are
  collected.\<close>

definition manager_Close :: "manager_event list \<Rightarrow> bool \<Rightarrow> bool \<Rightarrow> Manager \<Rightarrow> Manager \<times> bool" where
  "manager_Close window drained save m =
     (if mg_closed m then (m, mg_closeErr m)
      else let m = run_events window (m\<lparr>mg_closed := True\<rparr>);
          ids = List.map_filter (\<lambda>lease. map_option bd_ID (map_of (bindingsByID m) (ls_BindingID lease)))
                  (map snd (leasesByDevice m));
          (m, ok) = (case mg_gateway m of None \<Rightarrow> (m, True)
             | Some g \<Rightarrow> (case gw_Close drained (unbind_all ids g) of
                 (g, _, ok) \<Rightarrow> (m\<lparr>mg_gateway := Some g\<rparr>, ok)));
          (m, saved) = saveBindings save m
      in (m\<lparr>mg_closeErr := \<not> (ok \<and> saved)\<rparr>, \<not> (ok \<and> saved)))"

end
