(* ===== verification/Manager_Invariant.thy ===== *)
theory Manager_Invariant
  imports Manager
begin

text \<open>
  The properties of the orchestration. The invariant is stated on the five maps the manager and the
  gateway keep: bindings by device and by id, leases by device and by id, and the grants of the
  listeners. While an operation is between two locked sections the lease of its device may be
  ahead of or behind the gateway; such a device is in the set \<open>xd\<close> of suspended devices. A port
  that is taken and not yet in a binding is in the set \<open>pp\<close>.
\<close>

section \<open>The five maps\<close>

definition grant_of :: "Lease \<Rightarrow> Binding \<Rightarrow> Grant \<Rightarrow> bool" where
  "grant_of lease binding g \<longleftrightarrow>
     g = buildGrant lease (gr_Binding g) (gr_AllowedSourcePrefixes g)
     \<and> bd_ID (gr_Binding g) = bd_ID binding \<and> bd_DeviceID (gr_Binding g) = bd_DeviceID binding
     \<and> bd_Port (gr_Binding g) = bd_Port binding"

definition lease_served ::
  "(string \<rightharpoonup> Binding) \<Rightarrow> (string \<rightharpoonup> Grant) \<Rightarrow> Lease \<Rightarrow> bool" where
  "lease_served bd gr lease \<longleftrightarrow> ls_Status lease = LeaseActive
     \<and> (\<exists>b g. bd (ls_DeviceID lease) = Some b \<and> bd_ID b = ls_BindingID lease
          \<and> bd_Status b = BindingListening \<and> gr (bd_ID b) = Some g \<and> grant_of lease b g)"

definition maps_ok ::
  "(string \<rightharpoonup> Binding) \<Rightarrow> (string \<rightharpoonup> Binding) \<Rightarrow> (string \<rightharpoonup> Lease) \<Rightarrow> (string \<rightharpoonup> Lease)
     \<Rightarrow> (string \<rightharpoonup> Grant) \<Rightarrow> string set \<Rightarrow> bool" where
  "maps_ok bd bi ld li gr xd \<longleftrightarrow>
     (\<forall>d b. bd d = Some b \<longrightarrow> bd_DeviceID b = d \<and> bi (bd_ID b) = Some b)
   \<and> (\<forall>i b. bi i = Some b \<longrightarrow> bd_ID b = i \<and> bd (bd_DeviceID b) = Some b)
   \<and> (\<forall>d l. ld d = Some l \<longrightarrow> ls_DeviceID l = d \<and> li (ls_ID l) = Some l)
   \<and> (\<forall>i l. li i = Some l \<longrightarrow> ls_ID l = i \<and> ld (ls_DeviceID l) = Some l)
   \<and> (\<forall>d l. ld d = Some l \<longrightarrow> d \<in> xd \<or> lease_served bd gr l)
   \<and> (\<forall>i g. gr i = Some g \<longrightarrow> (\<exists>b. bi i = Some b \<and> (bd_DeviceID b \<in> xd \<or> ld (bd_DeviceID b) \<noteq> None)))
   \<and> (\<forall>d b. bd d = Some b \<longrightarrow> bd_Status b = BindingListening \<longrightarrow> d \<in> xd \<or> ld d \<noteq> None)"

lemma lease_servedI:
  "ls_Status l = LeaseActive \<Longrightarrow> bd (ls_DeviceID l) = Some b \<Longrightarrow> bd_ID b = ls_BindingID l
    \<Longrightarrow> bd_Status b = BindingListening \<Longrightarrow> gr (bd_ID b) = Some g \<Longrightarrow> grant_of l b g
    \<Longrightarrow> lease_served bd gr l"
  unfolding lease_served_def by blast

lemma maps_okD:
  assumes "maps_ok bd bi ld li gr xd"
  shows "bd d = Some b \<Longrightarrow> bd_DeviceID b = d" "bd d = Some b \<Longrightarrow> bi (bd_ID b) = Some b"
    "bi i = Some b \<Longrightarrow> bd_ID b = i" "bi i = Some b \<Longrightarrow> bd (bd_DeviceID b) = Some b"
    "ld d = Some l \<Longrightarrow> ls_DeviceID l = d" "ld d = Some l \<Longrightarrow> li (ls_ID l) = Some l"
    "li i = Some l \<Longrightarrow> ls_ID l = i" "li i = Some l \<Longrightarrow> ld (ls_DeviceID l) = Some l"
    "ld d = Some l \<Longrightarrow> d \<in> xd \<or> lease_served bd gr l"
    "gr i = Some g \<Longrightarrow> \<exists>b. bi i = Some b \<and> (bd_DeviceID b \<in> xd \<or> ld (bd_DeviceID b) \<noteq> None)"
    "bd d = Some b \<Longrightarrow> bd_Status b = BindingListening \<Longrightarrow> d \<in> xd \<or> ld d \<noteq> None"
  using assms unfolding maps_ok_def by blast+

lemma maps_okI:
  assumes "\<And>d b. bd d = Some b \<Longrightarrow> bd_DeviceID b = d \<and> bi (bd_ID b) = Some b"
    "\<And>i b. bi i = Some b \<Longrightarrow> bd_ID b = i \<and> bd (bd_DeviceID b) = Some b"
    "\<And>d l. ld d = Some l \<Longrightarrow> ls_DeviceID l = d \<and> li (ls_ID l) = Some l"
    "\<And>i l. li i = Some l \<Longrightarrow> ls_ID l = i \<and> ld (ls_DeviceID l) = Some l"
    "\<And>d l. ld d = Some l \<Longrightarrow> d \<notin> xd \<Longrightarrow> lease_served bd gr l"
    "\<And>i g. gr i = Some g \<Longrightarrow> \<exists>b. bi i = Some b \<and> (bd_DeviceID b \<in> xd \<or> ld (bd_DeviceID b) \<noteq> None)"
    "\<And>d b. bd d = Some b \<Longrightarrow> bd_Status b = BindingListening \<Longrightarrow> d \<notin> xd \<Longrightarrow> ld d \<noteq> None"
  shows "maps_ok bd bi ld li gr xd"
  using assms unfolding maps_ok_def by blast

text \<open>Two leases that a grant cannot tell apart.\<close>

definition same_lease :: "Lease \<Rightarrow> Lease \<Rightarrow> bool" where
  "same_lease l l' \<longleftrightarrow> ls_ID l' = ls_ID l \<and> ls_DeviceID l' = ls_DeviceID l
     \<and> ls_BindingID l' = ls_BindingID l \<and> ls_Status l' = ls_Status l
     \<and> (\<forall>b ps. buildGrant l' b ps = buildGrant l b ps)"

lemma lease_served_same: "same_lease l l' \<Longrightarrow> lease_served bd gr l \<Longrightarrow> lease_served bd gr l'"
  by (auto simp: lease_served_def same_lease_def grant_of_def)

lemma maps_refresh_lease:
  assumes ok: "maps_ok bd bi ld li gr xd" and l: "li i = Some l" and s: "same_lease l l'"
  shows "maps_ok bd bi (ld(ls_DeviceID l \<mapsto> l')) (li(i \<mapsto> l')) gr xd"
proof (rule maps_okI)
  note D = maps_okD [OF ok]
  have i: "ls_ID l = i" "ld (ls_DeviceID l) = Some l" using D(7,8) l by blast+
  have notd: "ls_DeviceID x \<noteq> ls_DeviceID l" if "li j = Some x" "j \<noteq> i" for j x
  proof
    assume "ls_DeviceID x = ls_DeviceID l"
    with D(8) [OF that(1)] i(2) have "x = l" by (metis option.inject)
    with D(7) [OF that(1)] i(1) that(2) show False by simp
  qed
  have s': "ls_ID l' = i" "ls_DeviceID l' = ls_DeviceID l" using s i by (simp_all add: same_lease_def)
  have notid: "ls_ID x \<noteq> i" if "ld d = Some x" "d \<noteq> ls_DeviceID l" for d x
  proof
    assume "ls_ID x = i"
    with D(6) [OF that(1)] l have "x = l" by (metis option.inject)
    with D(5) [OF that(1)] that(2) show False by simp
  qed
  have dom: "(ld(ls_DeviceID l \<mapsto> l')) d = None \<longleftrightarrow> ld d = None" for d using i by auto
  show "bd d = Some b \<Longrightarrow> bd_DeviceID b = d \<and> bi (bd_ID b) = Some b" for d b using D(1,2) by blast
  show "bi j = Some b \<Longrightarrow> bd_ID b = j \<and> bd (bd_DeviceID b) = Some b" for j b using D(3,4) by blast
  show "(ld(ls_DeviceID l \<mapsto> l')) d = Some x \<Longrightarrow> ls_DeviceID x = d \<and> (li(i \<mapsto> l')) (ls_ID x) = Some x" for d x
    using D(5) [of d x] D(6) [of d x] notid [of d x] s' i by (cases "d = ls_DeviceID l") auto
  show "(li(i \<mapsto> l')) j = Some x \<Longrightarrow> ls_ID x = j \<and> (ld(ls_DeviceID l \<mapsto> l')) (ls_DeviceID x) = Some x" for j x
    using D(7) [of j x] D(8) [of j x] s' i notd [of j x] by (cases "j = i") auto
  show "(ld(ls_DeviceID l \<mapsto> l')) d = Some x \<Longrightarrow> d \<notin> xd \<Longrightarrow> lease_served bd gr x" for d x
    using D(9) [of d x] D(9) [OF i(2)] lease_served_same [OF s] by (cases "d = ls_DeviceID l") auto
  show "gr j = Some g \<Longrightarrow> \<exists>b. bi j = Some b \<and> (bd_DeviceID b \<in> xd \<or> (ld(ls_DeviceID l \<mapsto> l')) (bd_DeviceID b) \<noteq> None)" for j g
    using D(10) [of j g] unfolding dom by simp
  show "bd d = Some b \<Longrightarrow> bd_Status b = BindingListening \<Longrightarrow> d \<notin> xd \<Longrightarrow> (ld(ls_DeviceID l \<mapsto> l')) d \<noteq> None" for d b
    using D(11) [of d b] unfolding dom by simp
qed

lemma binding_ids_inj:
  assumes "maps_ok bd bi ld li gr xd" "bd d = Some b" "bd d' = Some b'" "bd_ID b = bd_ID b'"
  shows "d = d'" "b = b'"
  using maps_okD(1,2) [OF assms(1)] assms(2-4) by (metis option.inject)+

lemma maps_put_binding:
  assumes ok: "maps_ok bd bi ld li gr xd" and b: "bd d = Some b"
    and b': "bd_ID b' = bd_ID b" "bd_DeviceID b' = d" "bd_Port b' = bd_Port b"
    and st: "bd_Status b' = bd_Status b \<or> d \<in> xd \<or> (ld d = None \<and> bd_Status b' \<noteq> BindingListening)"
  shows "maps_ok (bd(d \<mapsto> b')) (bi(bd_ID b \<mapsto> b')) ld li gr xd"
proof (rule maps_okI)
  note D = maps_okD [OF ok]
  have inj: "bd_ID c \<noteq> bd_ID b" if "bd e = Some c" "e \<noteq> d" for e c
    using binding_ids_inj(1) [OF ok that(1) b] that(2) by blast
  have dev: "bd_DeviceID b = d" using D(1) b by blast
  have notd: "bd_DeviceID c \<noteq> d" if "bi i = Some c" "i \<noteq> bd_ID b" for i c
    using D(3,4) [OF that(1)] b that(2) by auto
  show "(bd(d \<mapsto> b')) e = Some c \<Longrightarrow> bd_DeviceID c = e \<and> (bi(bd_ID b \<mapsto> b')) (bd_ID c) = Some c" for e c
    using D(1,2) inj [of e c] b' by (cases "e = d") auto
  show "(bi(bd_ID b \<mapsto> b')) i = Some c \<Longrightarrow> bd_ID c = i \<and> (bd(d \<mapsto> b')) (bd_DeviceID c) = Some c" for i c
    using D(3,4) notd [of i c] b' by (cases "i = bd_ID b") auto
  show "ld e = Some l \<Longrightarrow> ls_DeviceID l = e \<and> li (ls_ID l) = Some l" for e l using D(5,6) by blast
  show "li i = Some l \<Longrightarrow> ls_ID l = i \<and> ld (ls_DeviceID l) = Some l" for i l using D(7,8) by blast
  show "lease_served (bd(d \<mapsto> b')) gr l" if l: "ld e = Some l" "e \<notin> xd" for e l
  proof -
    have s: "lease_served bd gr l" "ls_DeviceID l = e" using D(9) [OF l(1)] D(5) [OF l(1)] l(2) by blast+
    show ?thesis
    proof (cases "e = d")
      case True
      then have "bd_Status b' = bd_Status b" using st l by auto
      with s True b b' show ?thesis by (auto simp: lease_served_def grant_of_def dev)
    next
      case False
      with s show ?thesis by (auto simp: lease_served_def)
    qed
  qed
  show "gr i = Some g \<Longrightarrow> \<exists>c. (bi(bd_ID b \<mapsto> b')) i = Some c
      \<and> (bd_DeviceID c \<in> xd \<or> ld (bd_DeviceID c) \<noteq> None)" for i g
    using D(10) [of i g] D(2) [OF b] b' dev by (cases "i = bd_ID b") auto
  show "(bd(d \<mapsto> b')) e = Some c \<Longrightarrow> bd_Status c = BindingListening \<Longrightarrow> e \<notin> xd \<Longrightarrow> ld e \<noteq> None" for e c
    using D(11) [of e] b st by (cases "e = d") auto
qed

lemma maps_new_binding:
  assumes ok: "maps_ok bd bi ld li gr xd" and new: "bd d = None" "bi (bd_ID b) = None"
    and b: "bd_DeviceID b = d" "bd_Status b \<noteq> BindingListening"
  shows "maps_ok (bd(d \<mapsto> b)) (bi(bd_ID b \<mapsto> b)) ld li gr xd"
proof (rule maps_okI)
  note D = maps_okD [OF ok]
  show "(bd(d \<mapsto> b)) e = Some c \<Longrightarrow> bd_DeviceID c = e \<and> (bi(bd_ID b \<mapsto> b)) (bd_ID c) = Some c" for e c
    using D(1) [of e c] D(2) [of e c] new b by (cases "e = d") auto
  show "(bi(bd_ID b \<mapsto> b)) i = Some c \<Longrightarrow> bd_ID c = i \<and> (bd(d \<mapsto> b)) (bd_DeviceID c) = Some c" for i c
    using D(3) [of i c] D(4) [of i c] new b by (cases "i = bd_ID b") auto
  show "ld e = Some l \<Longrightarrow> ls_DeviceID l = e \<and> li (ls_ID l) = Some l" for e l using D(5,6) by blast
  show "li i = Some l \<Longrightarrow> ls_ID l = i \<and> ld (ls_DeviceID l) = Some l" for i l using D(7,8) by blast
  show "ld e = Some l \<Longrightarrow> e \<notin> xd \<Longrightarrow> lease_served (bd(d \<mapsto> b)) gr l" for e l
    using D(9) [of e l] new by (auto simp: lease_served_def)
  show "gr i = Some g \<Longrightarrow> \<exists>c. (bi(bd_ID b \<mapsto> b)) i = Some c
      \<and> (bd_DeviceID c \<in> xd \<or> ld (bd_DeviceID c) \<noteq> None)" for i g
    using D(10) [of i g] new by auto
  show "(bd(d \<mapsto> b)) e = Some c \<Longrightarrow> bd_Status c = BindingListening \<Longrightarrow> e \<notin> xd \<Longrightarrow> ld e \<noteq> None" for e c
    using D(11) [of e c] b by (cases "e = d") auto
qed

lemma maps_drop_binding:
  assumes ok: "maps_ok bd bi ld li gr {}" and b: "bd d = Some b" and none: "ld d = None"
  shows "maps_ok (bd(d := None)) (bi(bd_ID b := None)) ld li gr {}"
proof (rule maps_okI)
  note D = maps_okD [OF ok]
  have inj: "bd_ID c \<noteq> bd_ID b" if "bd e = Some c" "e \<noteq> d" for e c
    using binding_ids_inj(1) [OF ok that(1) b] that(2) by blast
  have notd: "bd_DeviceID c \<noteq> d" if "bi i = Some c" "i \<noteq> bd_ID b" for i c
    using D(3,4) [OF that(1)] b that(2) by auto
  show "(bd(d := None)) e = Some c \<Longrightarrow> bd_DeviceID c = e \<and> (bi(bd_ID b := None)) (bd_ID c) = Some c" for e c
    using D(1,2) inj [of e c] by (cases "e = d") auto
  show "(bi(bd_ID b := None)) i = Some c \<Longrightarrow> bd_ID c = i \<and> (bd(d := None)) (bd_DeviceID c) = Some c" for i c
    using D(3,4) notd [of i c] by (cases "i = bd_ID b") auto
  show "ld e = Some l \<Longrightarrow> ls_DeviceID l = e \<and> li (ls_ID l) = Some l" for e l using D(5,6) by blast
  show "li i = Some l \<Longrightarrow> ls_ID l = i \<and> ld (ls_DeviceID l) = Some l" for i l using D(7,8) by blast
  show "ld e = Some l \<Longrightarrow> e \<notin> {} \<Longrightarrow> lease_served (bd(d := None)) gr l" for e l
    using D(9) [of e l] D(5) [of e l] none by (cases "e = d") (auto simp: lease_served_def)
  show "gr i = Some g \<Longrightarrow> \<exists>c. (bi(bd_ID b := None)) i = Some c
      \<and> (bd_DeviceID c \<in> {} \<or> ld (bd_DeviceID c) \<noteq> None)" for i g
    using D(10) [of i g] D(1) [OF b] D(2) [OF b] none by (cases "i = bd_ID b") auto
  show "(bd(d := None)) e = Some c \<Longrightarrow> bd_Status c = BindingListening \<Longrightarrow> e \<notin> {} \<Longrightarrow> ld e \<noteq> None" for e c
    using D(11) [of e c] by (cases "e = d") auto
qed


lemma maps_suspend: "maps_ok bd bi ld li gr xd \<Longrightarrow> xd \<subseteq> xd' \<Longrightarrow> maps_ok bd bi ld li gr xd'"
  unfolding maps_ok_def by blast

lemma maps_grant:
  assumes ok: "maps_ok bd bi ld li gr xd" and b: "bi i = Some b" "bd_DeviceID b \<in> xd"
  shows "maps_ok bd bi ld li (gr(i := g)) xd"
proof (rule maps_okI)
  note D = maps_okD [OF ok]
  show "bd d = Some c \<Longrightarrow> bd_DeviceID c = d \<and> bi (bd_ID c) = Some c" for d c using D(1,2) by blast
  show "bi j = Some c \<Longrightarrow> bd_ID c = j \<and> bd (bd_DeviceID c) = Some c" for j c using D(3,4) by blast
  show "ld d = Some l \<Longrightarrow> ls_DeviceID l = d \<and> li (ls_ID l) = Some l" for d l using D(5,6) by blast
  show "li j = Some l \<Longrightarrow> ls_ID l = j \<and> ld (ls_DeviceID l) = Some l" for j l using D(7,8) by blast
  show "lease_served bd (gr(i := g)) l" if l: "ld d = Some l" "d \<notin> xd" for d l
  proof -
    have s: "lease_served bd gr l" "ls_DeviceID l = d" using D(9) [OF l(1)] D(5) [OF l(1)] l(2) by blast+
    then obtain c where c: "bd d = Some c" by (auto simp: lease_served_def)
    have "bd_ID c \<noteq> i"
    proof
      assume "bd_ID c = i"
      with D(2) [OF c] b(1) have "c = b" by (metis option.inject)
      with D(1) [OF c] b(2) l(2) show False by blast
    qed
    with s c show ?thesis by (auto simp: lease_served_def)
  qed
  show "(gr(i := g)) j = Some x \<Longrightarrow> \<exists>c. bi j = Some c \<and> (bd_DeviceID c \<in> xd \<or> ld (bd_DeviceID c) \<noteq> None)" for j x
    using D(10) [of j x] b by (cases "j = i") auto
  show "bd d = Some c \<Longrightarrow> bd_Status c = BindingListening \<Longrightarrow> d \<notin> xd \<Longrightarrow> ld d \<noteq> None" for d c
    using D(11) by blast
qed

text \<open>Changing, adding and removing the lease of a suspended device.\<close>

lemma maps_set_lease:
  assumes ok: "maps_ok bd bi ld li gr xd" and d: "ls_DeviceID l \<in> xd"
    and old: "case ld (ls_DeviceID l) of None \<Rightarrow> li (ls_ID l) = None | Some y \<Rightarrow> ls_ID y = ls_ID l"
  shows "maps_ok bd bi (ld(ls_DeviceID l \<mapsto> l)) (li(ls_ID l \<mapsto> l)) gr xd"
proof (rule maps_okI)
  note D = maps_okD [OF ok]
  have notid: "ls_ID x \<noteq> ls_ID l" if x: "ld e = Some x" "e \<noteq> ls_DeviceID l" for e x
  proof
    assume e: "ls_ID x = ls_ID l"
    show False
    proof (cases "ld (ls_DeviceID l)")
      case None
      with old D(6) [OF x(1)] e show False by (metis option.simps(3,4))
    next
      case (Some y)
      then have "li (ls_ID l) = Some y" using D(6) [OF Some] old by (metis option.simps(5))
      with D(6) [OF x(1)] e have "x = y" by (metis option.inject)
      with D(5) [OF x(1)] D(5) [OF Some] x(2) show False by metis
    qed
  qed
  have notd: "ls_DeviceID x \<noteq> ls_DeviceID l" if x: "li j = Some x" "j \<noteq> ls_ID l" for j x
  proof
    assume e: "ls_DeviceID x = ls_DeviceID l"
    have y: "ld (ls_DeviceID l) = Some x" using D(8) [OF x(1)] e by metis
    then have "ls_ID x = ls_ID l" using old by simp
    with D(7) [OF x(1)] x(2) show False by metis
  qed
  show "bd e = Some c \<Longrightarrow> bd_DeviceID c = e \<and> bi (bd_ID c) = Some c" for e c using D(1,2) by blast
  show "bi j = Some c \<Longrightarrow> bd_ID c = j \<and> bd (bd_DeviceID c) = Some c" for j c using D(3,4) by blast
  show "(ld(ls_DeviceID l \<mapsto> l)) e = Some x \<Longrightarrow> ls_DeviceID x = e \<and> (li(ls_ID l \<mapsto> l)) (ls_ID x) = Some x" for e x
    using D(5) [of e x] D(6) [of e x] notid [of e x] by (cases "e = ls_DeviceID l") auto
  show "(li(ls_ID l \<mapsto> l)) j = Some x \<Longrightarrow> ls_ID x = j \<and> (ld(ls_DeviceID l \<mapsto> l)) (ls_DeviceID x) = Some x" for j x
    using D(7) [of j x] D(8) [of j x] notd [of j x] by (cases "j = ls_ID l") auto
  show "(ld(ls_DeviceID l \<mapsto> l)) e = Some x \<Longrightarrow> e \<notin> xd \<Longrightarrow> lease_served bd gr x" for e x
    using D(9) [of e x] d by (cases "e = ls_DeviceID l") auto
  show "gr j = Some g \<Longrightarrow> \<exists>c. bi j = Some c \<and> (bd_DeviceID c \<in> xd \<or> (ld(ls_DeviceID l \<mapsto> l)) (bd_DeviceID c) \<noteq> None)" for j g
    using D(10) [of j g] by auto
  show "bd e = Some c \<Longrightarrow> bd_Status c = BindingListening \<Longrightarrow> e \<notin> xd \<Longrightarrow> (ld(ls_DeviceID l \<mapsto> l)) e \<noteq> None" for e c
    using D(11) [of e c] by auto
qed

lemma maps_drop_lease:
  assumes ok: "maps_ok bd bi ld li gr xd" and l: "ld d = Some l" and d: "d \<in> xd"
  shows "maps_ok bd bi (ld(d := None)) (li(ls_ID l := None)) gr xd"
proof (rule maps_okI)
  note D = maps_okD [OF ok]
  have notid: "ls_ID x \<noteq> ls_ID l" if x: "ld e = Some x" "e \<noteq> d" for e x
    using D(5,6) [OF x(1)] D(5,6) [OF l] x(2) by (metis option.inject)
  have notd: "ls_DeviceID x \<noteq> d" if x: "li j = Some x" "j \<noteq> ls_ID l" for j x
    using D(7,8) [OF x(1)] l x(2) by (metis option.inject)
  show "bd e = Some c \<Longrightarrow> bd_DeviceID c = e \<and> bi (bd_ID c) = Some c" for e c using D(1,2) by blast
  show "bi j = Some c \<Longrightarrow> bd_ID c = j \<and> bd (bd_DeviceID c) = Some c" for j c using D(3,4) by blast
  show "(ld(d := None)) e = Some x \<Longrightarrow> ls_DeviceID x = e \<and> (li(ls_ID l := None)) (ls_ID x) = Some x" for e x
    using D(5) [of e x] D(6) [of e x] notid [of e x] by (cases "e = d") auto
  show "(li(ls_ID l := None)) j = Some x \<Longrightarrow> ls_ID x = j \<and> (ld(d := None)) (ls_DeviceID x) = Some x" for j x
    using D(7) [of j x] D(8) [of j x] notd [of j x] by (cases "j = ls_ID l") auto
  show "(ld(d := None)) e = Some x \<Longrightarrow> e \<notin> xd \<Longrightarrow> lease_served bd gr x" for e x
    using D(9) [of e x] by (cases "e = d") auto
  show "gr j = Some g \<Longrightarrow> \<exists>c. bi j = Some c \<and> (bd_DeviceID c \<in> xd \<or> (ld(d := None)) (bd_DeviceID c) \<noteq> None)" for j g
    using D(10) [of j g] d by auto
  show "bd e = Some c \<Longrightarrow> bd_Status c = BindingListening \<Longrightarrow> e \<notin> xd \<Longrightarrow> (ld(d := None)) e \<noteq> None" for e c
    using D(11) [of e c] d by auto
qed

lemma maps_resume:
  assumes ok: "maps_ok bd bi ld li gr {d}"
    and served: "\<And>l. ld d = Some l \<Longrightarrow> lease_served bd gr l"
    and idle: "\<And>b. ld d = None \<Longrightarrow> bd d = Some b \<Longrightarrow> gr (bd_ID b) = None \<and> bd_Status b \<noteq> BindingListening"
  shows "maps_ok bd bi ld li gr {}"
proof (rule maps_okI)
  note D = maps_okD [OF ok]
  show "bd e = Some c \<Longrightarrow> bd_DeviceID c = e \<and> bi (bd_ID c) = Some c" for e c using D(1,2) by blast
  show "bi j = Some c \<Longrightarrow> bd_ID c = j \<and> bd (bd_DeviceID c) = Some c" for j c using D(3,4) by blast
  show "ld e = Some l \<Longrightarrow> ls_DeviceID l = e \<and> li (ls_ID l) = Some l" for e l using D(5,6) by blast
  show "li j = Some l \<Longrightarrow> ls_ID l = j \<and> ld (ls_DeviceID l) = Some l" for j l using D(7,8) by blast
  show "ld e = Some x \<Longrightarrow> e \<notin> {} \<Longrightarrow> lease_served bd gr x" for e x
    using D(9) [of e x] served by (cases "e = d") auto
  show "\<exists>c. bi j = Some c \<and> (bd_DeviceID c \<in> {} \<or> ld (bd_DeviceID c) \<noteq> None)" if g: "gr j = Some g" for j g
  proof -
    obtain c where c: "bi j = Some c" "bd_DeviceID c = d \<or> ld (bd_DeviceID c) \<noteq> None"
      using D(10) [OF g] by blast
    have "bd d = Some c" "bd_ID c = j" if "bd_DeviceID c = d" using D(3,4) [OF c(1)] that by auto
    with idle g c show ?thesis by fastforce
  qed
  show "bd e = Some c \<Longrightarrow> bd_Status c = BindingListening \<Longrightarrow> e \<notin> {} \<Longrightarrow> ld e \<noteq> None" for e c
    using D(11) [of e c] idle by auto
qed

section \<open>The invariant of the manager\<close>

definition listener_grants :: "GatewayState \<Rightarrow> string \<Rightarrow> Grant option" where
  "listener_grants g i = map_option li_grant (map_of (gw_listeners g) i)"

definition grants :: "Manager \<Rightarrow> string \<Rightarrow> Grant option" where
  "grants m i = (case mg_gateway m of None \<Rightarrow> None | Some g \<Rightarrow> listener_grants g i)"

definition binding_ports :: "(string \<rightharpoonup> Binding) \<Rightarrow> int set" where
  "binding_ports bd = {bd_Port b | d b. bd d = Some b}"

definition ports_inj :: "(string \<rightharpoonup> Binding) \<Rightarrow> bool" where
  "ports_inj bd \<longleftrightarrow> (\<forall>d d' b b'. bd d = Some b \<longrightarrow> bd d' = Some b' \<longrightarrow> bd_Port b = bd_Port b' \<longrightarrow> d = d')"

lemma binding_portsI: "bd d = Some b \<Longrightarrow> bd_Port b \<in> binding_ports bd"
  by (auto simp: binding_ports_def)

lemma ports_injD: "ports_inj bd \<Longrightarrow> bd d = Some b \<Longrightarrow> bd d' = Some b' \<Longrightarrow> bd_Port b = bd_Port b' \<Longrightarrow> d = d'"
  unfolding ports_inj_def by blast

lemma binding_ports_put: "bd d = None \<Longrightarrow> binding_ports (bd(d \<mapsto> b)) = insert (bd_Port b) (binding_ports bd)"
  unfolding binding_ports_def by (rule set_eqI) (auto, metis option.distinct(1))

lemma ports_inj_put:
  "ports_inj bd \<Longrightarrow> bd_Port b \<notin> binding_ports bd \<Longrightarrow> ports_inj (bd(d \<mapsto> b))"
  unfolding ports_inj_def binding_ports_def by (auto split: if_splits)

lemma ports_same:
  assumes "bd d = Some c" "bd_Port b = bd_Port c"
  shows "binding_ports (bd(d \<mapsto> b)) = binding_ports bd" "ports_inj bd \<Longrightarrow> ports_inj (bd(d \<mapsto> b))"
proof -
  show "binding_ports (bd(d \<mapsto> b)) = binding_ports bd"
  proof (intro set_eqI iffI)
    fix x
    assume "x \<in> binding_ports (bd(d \<mapsto> b))"
    then obtain e y where e: "(bd(d \<mapsto> b)) e = Some y" "x = bd_Port y" unfolding binding_ports_def by blast
    show "x \<in> binding_ports bd"
    proof (cases "e = d")
      case True
      with e(1) have "b = y" by (metis fun_upd_same option.inject)
      with e(2) assms(2) have "x = bd_Port c" by blast
      with binding_portsI [of bd d c] assms(1) show ?thesis by blast
    next
      case False
      with e(1) have "bd e = Some y" by (metis fun_upd_other)
      with binding_portsI [of bd e y] e(2) show ?thesis by blast
    qed
  next
    fix x
    assume "x \<in> binding_ports bd"
    then obtain e y where e: "bd e = Some y" "x = bd_Port y" unfolding binding_ports_def by blast
    show "x \<in> binding_ports (bd(d \<mapsto> b))"
    proof (cases "e = d")
      case True
      with e assms have "x = bd_Port b" by (metis option.inject)
      then show ?thesis using binding_portsI [of "bd(d \<mapsto> b)" d b] by (metis fun_upd_same)
    next
      case False
      with e show ?thesis using binding_portsI [of "bd(d \<mapsto> b)" e y] by (metis fun_upd_other)
    qed
  qed
  assume inj: "ports_inj bd"
  have port: "\<exists>y'. bd e = Some y' \<and> bd_Port y' = bd_Port y" if "(bd(d \<mapsto> b)) e = Some y" for e y
    using that assms by (auto split: if_splits)
  show "ports_inj (bd(d \<mapsto> b))"
    unfolding ports_inj_def using port ports_injD [OF inj] by metis
qed

lemma ports_drop:
  assumes "ports_inj bd" "bd d = Some b"
  shows "binding_ports (bd(d := None)) = binding_ports bd - {bd_Port b}" "ports_inj (bd(d := None))"
proof -
  show "binding_ports (bd(d := None)) = binding_ports bd - {bd_Port b}"
  proof (intro set_eqI iffI)
    fix x
    assume "x \<in> binding_ports (bd(d := None))"
    then obtain e y where e: "(bd(d := None)) e = Some y" "x = bd_Port y" unfolding binding_ports_def by blast
    then have "bd e = Some y" "e \<noteq> d" by (auto split: if_splits)
    with e(2) show "x \<in> binding_ports bd - {bd_Port b}"
      using binding_portsI [of bd e y] ports_injD [OF assms(1), of e y d b] assms(2) by (metis DiffI singletonD)
  next
    fix x
    assume "x \<in> binding_ports bd - {bd_Port b}"
    then obtain e y where e: "bd e = Some y" "x = bd_Port y" "x \<noteq> bd_Port b" unfolding binding_ports_def by blast
    then have "e \<noteq> d" using assms(2) by auto
    with e show "x \<in> binding_ports (bd(d := None))"
      using binding_portsI [of "bd(d := None)" e y] by (metis fun_upd_other)
  qed
  show "ports_inj (bd(d := None))"
    using assms(1) unfolding ports_inj_def by (auto split: if_splits)
qed

definition ports_ok :: "int set \<Rightarrow> Manager \<Rightarrow> bool" where
  "ports_ok pp m \<longleftrightarrow> pool_ok (mg_ports m)
     \<and> pp_minPort (mg_ports m) = cf_ProxyPortMin (mg_cfg m) \<and> pp_maxPort (mg_ports m) = cf_ProxyPortMax (mg_cfg m)
     \<and> set (reserved (mg_ports m)) = pp \<union> binding_ports (map_of (bindingsByDevice m))
     \<and> pp \<inter> binding_ports (map_of (bindingsByDevice m)) = {}
     \<and> ports_inj (map_of (bindingsByDevice m))"

definition binding_identity :: "Binding \<Rightarrow> bool" where
  "binding_identity b \<longleftrightarrow> trim_space (bd_ID b) \<noteq> [] \<and> trim_space (bd_DeviceID b) \<noteq> []
     \<and> trim_space (bd_PublicHost b) \<noteq> []"

text \<open>What the manager relies on of an accepted configuration.\<close>

definition config_ok :: "Config \<Rightarrow> bool" where
  "config_ok cfg \<longleftrightarrow> trim_space (cf_PublicHost cfg) \<noteq> [] \<and> 0 < cf_ProxyPortMin cfg
     \<and> cf_ProxyPortMax cfg \<le> 65535 \<and> 0 < cf_MaxConnections cfg \<and> 0 < cf_LeaseMaxTTL cfg
     \<and> cf_AllowedSourceCIDRs cfg \<noteq> [] \<and> list_all (\<lambda>c. ParsePrefix (trim_space c) \<noteq> None) (cf_AllowedSourceCIDRs cfg)"

definition manager_inv :: "int set \<Rightarrow> string set \<Rightarrow> Manager \<Rightarrow> bool" where
  "manager_inv pp xd m \<longleftrightarrow>
     maps_ok (map_of (bindingsByDevice m)) (map_of (bindingsByID m)) (map_of (leasesByDevice m))
       (map_of (leasesByID m)) (grants m) xd
   \<and> distinct (map fst (bindingsByDevice m)) \<and> distinct (map fst (leasesByID m))
   \<and> (\<forall>d b. map_of (bindingsByDevice m) d = Some b \<longrightarrow> binding_identity b)
   \<and> (\<forall>i l. map_of (leasesByID m) i = Some l \<longrightarrow> i \<noteq> [])
   \<and> (case mg_gateway m of None \<Rightarrow> True | Some g \<Rightarrow> gateway_ok g)
   \<and> ports_ok pp m \<and> config_ok (mg_cfg m) \<and> dregistry_ok (mg_registry m)"

section \<open>Events\<close>

definition quiet :: "Manager \<Rightarrow> Manager \<Rightarrow> bool" where
  "quiet m m' \<longleftrightarrow> mg_cfg m' = mg_cfg m \<and> mg_ports m' = mg_ports m \<and> mg_closed m' = mg_closed m
     \<and> bindingsByDevice m' = bindingsByDevice m \<and> bindingsByID m' = bindingsByID m
     \<and> inflightByDevice m' = inflightByDevice m \<and> mg_saved m' = mg_saved m
     \<and> (mg_gateway m' = None \<longleftrightarrow> mg_gateway m = None) \<and> grants m' = grants m
     \<and> (\<forall>d. rel_option same_lease (map_of (leasesByDevice m) d) (map_of (leasesByDevice m') d))
     \<and> (\<forall>i. rel_option same_lease (map_of (leasesByID m) i) (map_of (leasesByID m') i))"

lemma same_lease_refl [simp]: "same_lease l l"
  by (simp add: same_lease_def)

lemma same_lease_trans: "same_lease a b \<Longrightarrow> same_lease b c \<Longrightarrow> same_lease a c"
  by (simp add: same_lease_def)

lemma mquiet_refl [simp]: "quiet m m"
  by (simp add: quiet_def option.rel_refl)

lemma rel_option_trans_same:
  "rel_option same_lease a b \<Longrightarrow> rel_option same_lease b c \<Longrightarrow> rel_option same_lease a c"
  by (auto simp: option_rel_Some1 option_rel_Some2 elim!: option.rel_cases intro: same_lease_trans)

lemma mquiet_trans: "quiet a b \<Longrightarrow> quiet b c \<Longrightarrow> quiet a c"
  unfolding quiet_def by (simp only: simp_thms) (metis rel_option_trans_same)

lemma grants_of_connection_op:
  assumes "connection_op opr" "gateway_ok g"
  shows "listener_grants (gateway_apply opr g) = listener_grants g"
  using assms
  by (cases opr) (auto simp: listener_grants_def fun_eq_iff admit_def Let_def removeConnection_def
      trackSession_def dropSession_def Kick_def split: option.split)

lemma grants_eq: "grants m = (case mg_gateway m of None \<Rightarrow> \<lambda>_. None | Some g \<Rightarrow> listener_grants g)"
  by (auto simp: grants_def fun_eq_iff split: option.split)

lemma rel_same_refl [simp]: "rel_option same_lease x x"
  by (cases x) simp_all

text \<open>A lease is replaced in both maps by one that differs in its counters only.\<close>

lemma lease_touched:
  assumes inv: "manager_inv pp xd m" and l: "map_of (leasesByID m) i = Some l" and s: "same_lease l l'"
  shows "manager_inv pp xd (m\<lparr>leasesByID := AList.update i l' (leasesByID m),
      leasesByDevice := AList.update (ls_DeviceID l') l' (leasesByDevice m)\<rparr>)
    \<and> quiet m (m\<lparr>leasesByID := AList.update i l' (leasesByID m),
      leasesByDevice := AList.update (ls_DeviceID l') l' (leasesByDevice m)\<rparr>)"
proof -
  have ok: "maps_ok (map_of (bindingsByDevice m)) (map_of (bindingsByID m)) (map_of (leasesByDevice m))
       (map_of (leasesByID m)) (grants m) xd" using inv by (simp add: manager_inv_def)
  have d: "ls_DeviceID l' = ls_DeviceID l" using s by (simp add: same_lease_def)
  have ld: "map_of (leasesByDevice m) (ls_DeviceID l) = Some l" using maps_okD(8) [OF ok l] .
  show ?thesis
    using inv maps_refresh_lease [OF ok l s] l s ld
    by (auto simp: manager_inv_def quiet_def ports_ok_def grants_eq d distinct_update split: if_splits)
qed

lemma event_quiet:
  assumes inv: "manager_inv pp xd m"
  shows "manager_inv pp xd (apply_event e m) \<and> quiet m (apply_event e m)"
proof (cases e)
  case (EvScan now scan)
  then show ?thesis using inv
    by (simp add: manager_inv_def quiet_def ports_ok_def grants_eq refresh_ok)
next
  case (EvRejected leaseID reason)
  show ?thesis
  proof (cases "map_of (leasesByID m) leaseID")
    case None
    with inv show ?thesis by (simp add: EvRejected ConnectionRejected_def)
  next
    case (Some l)
    with inv show ?thesis
      by (simp add: EvRejected ConnectionRejected_def manager_inv_def quiet_def ports_ok_def grants_eq)
  qed
next
  case (EvGateway opr)
  show ?thesis
  proof (cases "connection_op opr \<and> mg_gateway m \<noteq> None")
    case True
    then obtain g where g: "mg_gateway m = Some g" "connection_op opr" by auto
    have ok: "gateway_ok g" using inv g by (simp add: manager_inv_def)
    have "grants (m\<lparr>mg_gateway := Some (gateway_apply opr g)\<rparr>) = grants m"
      using grants_of_connection_op [OF g(2) ok] by (simp add: grants_eq g)
    then show ?thesis using inv g gateway_apply_ok [OF ok]
      by (simp add: EvGateway manager_inv_def quiet_def ports_ok_def)
  next
    case False
    moreover have "m\<lparr>mg_gateway := None\<rparr> = m" if "mg_gateway m = None" using that by simp
    ultimately have "apply_event e m = m" by (auto simp: EvGateway)
    with inv show ?thesis by simp
  qed
next
  case (EvOpened leaseID now)
  have "same_lease l (l\<lparr>ls_ActiveConnections := n, ls_UpdatedAt := now\<rparr>)" for l n
    by (simp add: same_lease_def buildGrant_def)
  from lease_touched [OF inv _ this] inv show ?thesis
    by (auto simp: EvOpened ConnectionOpened_def Let_def split: option.split)
next
  case (EvClosed leaseID now)
  have "same_lease l (l\<lparr>ls_ActiveConnections := n, ls_UpdatedAt := now\<rparr>)" for l n
    by (simp add: same_lease_def buildGrant_def)
  from lease_touched [OF inv _ this] inv show ?thesis
    by (auto simp: EvClosed ConnectionClosed_def Let_def split: option.split)
qed

lemma events_quiet:
  "manager_inv pp xd m \<Longrightarrow> manager_inv pp xd (run_events es m) \<and> quiet m (run_events es m)"
proof (induction es arbitrary: m)
  case (Cons e es)
  then show ?case
    using event_quiet [OF Cons.prems, of e] mquiet_trans by (auto simp: run_events_def)
qed (simp add: run_events_def)

section \<open>What operations keep\<close>

definition same_binding :: "Binding \<Rightarrow> Binding \<Rightarrow> bool" where
  "same_binding b b' \<longleftrightarrow> bd_ID b' = bd_ID b \<and> bd_DeviceID b' = bd_DeviceID b
     \<and> bd_PublicHost b' = bd_PublicHost b \<and> bd_Port b' = bd_Port b \<and> bd_CreatedAt b' = bd_CreatedAt b"

lemma same_binding_refl [simp]: "same_binding b b"
  by (simp add: same_binding_def)

lemma same_binding_trans: "same_binding a b \<Longrightarrow> same_binding b c \<Longrightarrow> same_binding a c"
  by (simp add: same_binding_def)

text \<open>Bindings are never lost or moved to another port.\<close>

definition keeps :: "Manager \<Rightarrow> Manager \<Rightarrow> bool" where
  "keeps m m' \<longleftrightarrow> mg_cfg m' = mg_cfg m \<and> mg_closed m' = mg_closed m
     \<and> (mg_gateway m' = None \<longleftrightarrow> mg_gateway m = None)
     \<and> (\<forall>d b. map_of (bindingsByDevice m) d = Some b
          \<longrightarrow> (\<exists>b'. map_of (bindingsByDevice m') d = Some b' \<and> same_binding b b'))"

lemma keeps_refl [simp]: "keeps m m"
  by (auto simp: keeps_def)

lemma keeps_trans: "keeps a b \<Longrightarrow> keeps b c \<Longrightarrow> keeps a c"
proof -
  assume ab: "keeps a b" and bc: "keeps b c"
  have "\<exists>z. map_of (bindingsByDevice c) d = Some z \<and> same_binding x z"
    if x: "map_of (bindingsByDevice a) d = Some x" for d x
  proof -
    obtain y where y: "map_of (bindingsByDevice b) d = Some y" "same_binding x y"
      using ab x unfolding keeps_def by blast
    then obtain z where "map_of (bindingsByDevice c) d = Some z" "same_binding y z"
      using bc unfolding keeps_def by blast
    with y same_binding_trans show ?thesis by blast
  qed
  with ab bc show "keeps a c" by (simp add: keeps_def)
qed

lemma quiet_keeps: "quiet a b \<Longrightarrow> keeps a b"
  by (auto simp: quiet_def keeps_def)

lemma inv_ignores [simp]:
  "manager_inv pp xd (m\<lparr>mg_saved := x\<rparr>) = manager_inv pp xd m"
  "manager_inv pp xd (m\<lparr>inflightByDevice := y\<rparr>) = manager_inv pp xd m"
  "keeps m' (m\<lparr>mg_saved := x\<rparr>) = keeps m' m" "keeps m' (m\<lparr>inflightByDevice := y\<rparr>) = keeps m' m"
  "keeps (m\<lparr>mg_saved := x\<rparr>) m' = keeps m m'" "keeps (m\<lparr>inflightByDevice := y\<rparr>) m' = keeps m m'"
  by (simp_all add: manager_inv_def ports_ok_def grants_eq keeps_def)

lemma manager_invD:
  assumes "manager_inv pp xd m"
  shows "maps_ok (map_of (bindingsByDevice m)) (map_of (bindingsByID m)) (map_of (leasesByDevice m))
       (map_of (leasesByID m)) (grants m) xd"
    "distinct (map fst (bindingsByDevice m))" "distinct (map fst (leasesByID m))"
    "map_of (bindingsByDevice m) d = Some b \<Longrightarrow> binding_identity b"
    "map_of (leasesByID m) i = Some l \<Longrightarrow> i \<noteq> []"
    "mg_gateway m = Some g \<Longrightarrow> gateway_ok g"
    "ports_ok pp m" "config_ok (mg_cfg m)" "dregistry_ok (mg_registry m)"
proof -
  note a = assms [unfolded manager_inv_def]
  show "maps_ok (map_of (bindingsByDevice m)) (map_of (bindingsByID m)) (map_of (leasesByDevice m))
       (map_of (leasesByID m)) (grants m) xd" using a by (elim conjE)
  show "distinct (map fst (bindingsByDevice m))" using a by (elim conjE)
  show "distinct (map fst (leasesByID m))" using a by (elim conjE)
  show "map_of (bindingsByDevice m) d = Some b \<Longrightarrow> binding_identity b" using a by (elim conjE allE) (erule mp)
  show "map_of (leasesByID m) i = Some l \<Longrightarrow> i \<noteq> []" using a by (elim conjE) blast
  show "mg_gateway m = Some g \<Longrightarrow> gateway_ok g" using a by (elim conjE) simp
  show "ports_ok pp m" using a by (elim conjE)
  show "config_ok (mg_cfg m)" using a by (elim conjE)
  show "dregistry_ok (mg_registry m)" using a by (elim conjE)
qed

lemma ports_okD:
  assumes "ports_ok pp m"
  shows "pool_ok (mg_ports m)" "pp_minPort (mg_ports m) = cf_ProxyPortMin (mg_cfg m)"
    "pp_maxPort (mg_ports m) = cf_ProxyPortMax (mg_cfg m)"
    "set (reserved (mg_ports m)) = pp \<union> binding_ports (map_of (bindingsByDevice m))"
    "pp \<inter> binding_ports (map_of (bindingsByDevice m)) = {}"
    "ports_inj (map_of (bindingsByDevice m))"
  using assms unfolding ports_ok_def by blast+

lemma binding_port_range:
  assumes "manager_inv pp xd m" "map_of (bindingsByDevice m) d = Some b"
  shows "cf_ProxyPortMin (mg_cfg m) \<le> bd_Port b" "bd_Port b \<le> cf_ProxyPortMax (mg_cfg m)"
    "bd_Port b \<in> set (reserved (mg_ports m))"
proof -
  note p = ports_okD [OF manager_invD(7) [OF assms(1)]]
  have "bd_Port b \<in> binding_ports (map_of (bindingsByDevice m))" using assms(2) by (rule binding_portsI)
  then show res: "bd_Port b \<in> set (reserved (mg_ports m))" unfolding p(4) by blast
  have "set (reserved (mg_ports m)) \<subseteq> {pp_minPort (mg_ports m)..pp_maxPort (mg_ports m)}"
    using p(1) unfolding pool_ok_def by blast
  then have "bd_Port b \<in> {cf_ProxyPortMin (mg_cfg m)..cf_ProxyPortMax (mg_cfg m)}"
    unfolding p(2,3) using res by blast
  then show "cf_ProxyPortMin (mg_cfg m) \<le> bd_Port b" "bd_Port b \<le> cf_ProxyPortMax (mg_cfg m)"
    by simp_all
qed

lemma snapshot_valid:
  assumes inv: "manager_inv pp xd m"
  shows "bindings_valid (cf_ProxyPortMin (mg_cfg m)) (cf_ProxyPortMax (mg_cfg m))
    (sort_key bd_DeviceID (map snd (bindingsByDevice m)))"
proof -
  let ?bs = "map snd (bindingsByDevice m)"
  note ok = manager_invD(1) [OF inv]
  have mem: "map_of (bindingsByDevice m) (bd_DeviceID b) = Some b" if b: "b \<in> set ?bs" for b
  proof -
    obtain d where "map_of (bindingsByDevice m) d = Some b"
      using b manager_invD(2) [OF inv] by (auto intro: map_of_is_SomeI)
    with maps_okD(1) [OF ok this] show ?thesis by simp
  qed
  have keys: "map bd_DeviceID ?bs = map fst (bindingsByDevice m)"
  proof -
    have "bd_DeviceID (snd e) = fst e" if "e \<in> set (bindingsByDevice m)" for e
      using maps_okD(1) [OF ok map_of_is_SomeI [OF manager_invD(2) [OF inv]], of "fst e" "snd e"] that by simp
    then show ?thesis by (simp only: map_map comp_def map_eq_conv) simp
  qed
  have dd: "distinct (map bd_DeviceID ?bs)" unfolding keys by (rule manager_invD(2) [OF inv])
  then have db: "distinct ?bs" by (rule distinct_map [THEN iffD1, THEN conjunct1])
  have "inj_on bd_Port (set ?bs)"
  proof (rule inj_onI)
    fix a b assume ab: "a \<in> set ?bs" "b \<in> set ?bs" "bd_Port a = bd_Port b"
    then have "bd_DeviceID a = bd_DeviceID b"
      using ports_injD [OF ports_okD(6) [OF manager_invD(7) [OF inv]] mem mem] by blast
    with mem ab show "a = b" by (metis option.inject)
  qed
  with db have dp: "distinct (map bd_Port ?bs)" by (simp only: distinct_map simp_thms)
  have dist: "distinct (map f (sort_key bd_DeviceID ?bs))" if "distinct (map f ?bs)" for f :: "Binding \<Rightarrow> 'b"
  proof -
    have "mset (map f (sort_key bd_DeviceID ?bs)) = mset (map f ?bs)" by (simp add: multiset.map_comp)
    with that show ?thesis using mset_eq_imp_distinct_iff by blast
  qed
  have "binding_valid (cf_ProxyPortMin (mg_cfg m)) (cf_ProxyPortMax (mg_cfg m)) b" if "b \<in> set ?bs" for b
    using manager_invD(4) [OF inv mem [OF that]] binding_port_range [OF inv mem [OF that]]
    by (simp add: binding_valid_def binding_identity_def)
  with dist [OF dd] dist [OF dp] show ?thesis by (simp add: bindings_valid_def list_all_iff)
qed

lemma saveBindings_result:
  assumes "manager_inv pp xd m"
  shows "saveBindings ok m = (if ok then (m\<lparr>mg_saved :=
      stored_form (sort_key bd_DeviceID (map snd (bindingsByDevice m)))\<rparr>, True) else (m, False))"
proof -
  have "validate (cf_ProxyPortMin (mg_cfg m)) (cf_ProxyPortMax (mg_cfg m))
      (sort_key bd_DeviceID (map snd (bindingsByDevice m)))
      = Inr (stored_form (sort_key bd_DeviceID (map snd (bindingsByDevice m))))"
    using snapshot_valid [OF assms] by (simp add: validate_iff)
  then show ?thesis by (simp add: saveBindings_def)
qed

lemma saveBindings_keeps:
  "manager_inv pp xd m \<Longrightarrow> manager_inv pp xd (fst (saveBindings ok m)) \<and> keeps m (fst (saveBindings ok m))"
  by (simp add: saveBindings_result)


section \<open>Sections of the operations\<close>

lemma quietD:
  assumes "quiet m m'"
  shows "bindingsByDevice m' = bindingsByDevice m" "bindingsByID m' = bindingsByID m"
    "mg_ports m' = mg_ports m" "mg_cfg m' = mg_cfg m" "inflightByDevice m' = inflightByDevice m"
    "grants m' = grants m" "mg_gateway m' = None \<longleftrightarrow> mg_gateway m = None"
    "map_of (leasesByDevice m') d = None \<longleftrightarrow> map_of (leasesByDevice m) d = None"
    "map_of (leasesByID m') i = None \<longleftrightarrow> map_of (leasesByID m) i = None"
    "map_of (leasesByDevice m) d = Some l \<Longrightarrow> \<exists>l'. map_of (leasesByDevice m') d = Some l' \<and> same_lease l l'"
    "map_of (leasesByID m) i = Some l \<Longrightarrow> \<exists>l'. map_of (leasesByID m') i = Some l' \<and> same_lease l l'"
proof -
  have d: "rel_option same_lease (map_of (leasesByDevice m) d) (map_of (leasesByDevice m') d)"
    and i: "rel_option same_lease (map_of (leasesByID m) i) (map_of (leasesByID m') i)"
    using assms by (simp_all add: quiet_def)
  show "map_of (leasesByDevice m') d = None \<longleftrightarrow> map_of (leasesByDevice m) d = None"
    "map_of (leasesByID m') i = None \<longleftrightarrow> map_of (leasesByID m) i = None"
    using d i by (auto elim: option.rel_cases)
  show "map_of (leasesByDevice m) d = Some l \<Longrightarrow> \<exists>l'. map_of (leasesByDevice m') d = Some l' \<and> same_lease l l'"
    "map_of (leasesByID m) i = Some l \<Longrightarrow> \<exists>l'. map_of (leasesByID m') i = Some l' \<and> same_lease l l'"
    using d i by (auto simp: option_rel_Some1)
qed (use assms in \<open>simp_all add: quiet_def\<close>)

text \<open>Only the fields of the invariant matter.\<close>

lemma manager_invI:
  assumes "maps_ok (map_of (bindingsByDevice m)) (map_of (bindingsByID m)) (map_of (leasesByDevice m))
       (map_of (leasesByID m)) (grants m) xd"
    "distinct (map fst (bindingsByDevice m))" "distinct (map fst (leasesByID m))"
    "\<And>d b. map_of (bindingsByDevice m) d = Some b \<Longrightarrow> binding_identity b"
    "\<And>i l. map_of (leasesByID m) i = Some l \<Longrightarrow> i \<noteq> []"
    "\<And>g. mg_gateway m = Some g \<Longrightarrow> gateway_ok g"
    "ports_ok pp m" "config_ok (mg_cfg m)" "dregistry_ok (mg_registry m)"
  shows "manager_inv pp xd m"
  using assms(1-3,7-9) assms(4-6) unfolding manager_inv_def by (intro conjI) (auto split: option.split)

lemma take_port_ok:
  assumes inv: "manager_inv {} xd m" and a: "allocate listens (mg_ports m) = (p, r)"
  shows "manager_inv (case r of None \<Rightarrow> {} | Some port \<Rightarrow> {port}) xd (m\<lparr>mg_ports := p\<rparr>)"
proof -
  note P = ports_okD [OF manager_invD(7) [OF inv]]
  note A = allocate_result [OF P(1) a] allocate_bounds [OF a, THEN conjunct1] allocate_bounds [OF a, THEN conjunct2]
  have "ports_ok (case r of None \<Rightarrow> {} | Some port \<Rightarrow> {port}) (m\<lparr>mg_ports := p\<rparr>)"
  proof (cases r)
    case None
    then have "reserved p = reserved (mg_ports m)" using A(1) by blast
    then show ?thesis using A P None by (simp add: ports_ok_def)
  next
    case (Some port)
    with A(1) have "port \<notin> set (reserved (mg_ports m))" "pool_ok p"
      "set (reserved p) = insert port (set (reserved (mg_ports m)))" by blast+
    then show ?thesis using A(2,3) P Some by (simp add: ports_ok_def)
  qed
  then show ?thesis
    using manager_invD [OF inv] by (intro manager_invI) (simp_all add: grants_eq)
qed

lemma put_binding_ok:
  assumes inv: "manager_inv {bd_Port b} xd m"
    and new: "map_of (bindingsByDevice m) (bd_DeviceID b) = None" "map_of (bindingsByID m) (bd_ID b) = None"
    and b: "binding_identity b" "bd_Status b \<noteq> BindingListening"
  shows "manager_inv {} xd (put_binding b m)" "keeps m (put_binding b m)"
proof -
  note P = ports_okD [OF manager_invD(7) [OF inv]]
  have "bd_Port b \<notin> binding_ports (map_of (bindingsByDevice m))" using P(5) by blast
  then have "ports_ok {} (put_binding b m)"
    unfolding ports_ok_def using P(1-4) ports_inj_put [OF P(6)] binding_ports_put [where bd = "map_of (bindingsByDevice m)" and b = b, OF new(1)]
    by (simp add: put_binding_def)
  then show "manager_inv {} xd (put_binding b m)"
    using manager_invD [OF inv] maps_new_binding [OF manager_invD(1) [OF inv] new refl b(2)] b
    by (intro manager_invI) (auto simp: put_binding_def grants_eq distinct_update split: if_splits)
  show "keeps m (put_binding b m)" using new by (auto simp: keeps_def put_binding_def)
qed

lemma drop_binding_ok:
  assumes inv: "manager_inv {} {} m" and b: "map_of (bindingsByDevice m) d = Some b"
    and none: "map_of (leasesByDevice m) d = None"
  shows "manager_inv {} {} (m\<lparr>bindingsByDevice := AList.delete d (bindingsByDevice m),
    bindingsByID := AList.delete (bd_ID b) (bindingsByID m), mg_ports := release (bd_Port b) (mg_ports m)\<rparr>)"
    (is "manager_inv {} {} ?m")
proof -
  note P = ports_okD [OF manager_invD(7) [OF inv]]
  have pos: "0 < bd_Port b" "bd_Port b \<in> set (reserved (mg_ports m))"
    using binding_port_range [OF inv b] manager_invD(8) [OF inv] by (simp_all add: config_ok_def)
  note R = pool_ok_release [OF P(1) pos(2,1)]
  have bounds: "pp_minPort (release x p) = pp_minPort p" "pp_maxPort (release x p) = pp_maxPort p" for x p
    by (simp_all add: release_def)
  have "ports_ok {} ?m"
    unfolding ports_ok_def using R P(2-4) ports_drop [OF P(6) b] by (simp add: bounds)
  then show ?thesis
    using manager_invD [OF inv] maps_drop_binding [OF manager_invD(1) [OF inv] b none]
    by (intro manager_invI) (auto simp: grants_eq distinct_delete split: if_splits)
qed


section \<open>Creating a binding\<close>

lemma createBinding_ok:
  assumes inv: "manager_inv {} {} m"
    and none: "map_of (bindingsByDevice m) d = None" "map_of (leasesByDevice m) d = None"
    and d: "trim_space d \<noteq> []"
    and fresh: "map_of (bindingsByID m) (ae_bindingID env) = None" "trim_space (ae_bindingID env) \<noteq> []"
    and c: "createBinding env d m = (m', r)"
  shows "manager_inv {} {} m' \<and> keeps m m' \<and> inflightByDevice m' = inflightByDevice m
    \<and> grants m' = grants m \<and> map_of (leasesByDevice m') d = None
    \<and> (\<forall>i. map_of (leasesByID m') i = None \<longleftrightarrow> map_of (leasesByID m) i = None)
    \<and> (\<forall>i. i \<noteq> ae_bindingID env \<longrightarrow> map_of (bindingsByID m') i = map_of (bindingsByID m) i)
    \<and> (\<forall>b. r = Inr b \<longrightarrow> map_of (bindingsByDevice m') d = Some b \<and> bd_ID b = ae_bindingID env)
    \<and> (\<forall>e. r = Inl e \<longrightarrow> map_of (bindingsByID m') (ae_bindingID env) = None)"
proof (cases "allocate (ae_listens env) (mg_ports m)")
  case (Pair ports r0)
  note taken = take_port_ok [OF inv Pair]
  show ?thesis
  proof (cases r0)
    case None
    have "keeps m (m\<lparr>mg_ports := ports\<rparr>)" by (simp add: keeps_def)
    moreover have "m' = m\<lparr>mg_ports := ports\<rparr>" "r = Inl PortAllocationFailed"
      using c by (simp_all add: createBinding_def Pair None)
    ultimately show ?thesis using taken None none fresh by (simp add: grants_eq)
  next
    case (Some port)
    define m0 where "m0 = m\<lparr>mg_ports := ports\<rparr>"
    define m1 where "m1 = run_events (ae_windows env 4) m0"
    define b where "b = \<lparr>bd_ID = ae_bindingID env, bd_DeviceID = d,
          bd_PublicHost = cf_PublicHost (mg_cfg m), bd_Port = port, bd_Status = BindingReserved,
          bd_CreatedAt = ae_created env, bd_UpdatedAt = ae_created env\<rparr>"
    define m2 where "m2 = run_events (ae_windows env 5) (put_binding b m1)"
    have inv0: "manager_inv {port} {} m0" using taken Some by (simp add: m0_def)
    from events_quiet [OF inv0] have inv1: "manager_inv {port} {} m1" and q1: "quiet m0 m1"
      by (simp_all add: m1_def)
    note Q1 = quietD [OF q1]
    have k0: "keeps m m1"
    proof (rule keeps_trans [OF _ quiet_keeps [OF q1]])
      show "keeps m m0" by (simp add: keeps_def m0_def)
    qed
    have new: "map_of (bindingsByDevice m1) (bd_DeviceID b) = None" "map_of (bindingsByID m1) (bd_ID b) = None"
      using none fresh by (simp_all add: Q1(1,2) m0_def b_def)
    have "binding_identity b" "bd_Status b \<noteq> BindingListening"
      using fresh d manager_invD(8) [OF inv] by (simp_all add: b_def binding_identity_def config_ok_def)
    moreover have "manager_inv {bd_Port b} {} m1" using inv1 by (simp add: b_def)
    ultimately have put: "manager_inv {} {} (put_binding b m1)" "keeps m1 (put_binding b m1)"
      using put_binding_ok new by blast+
    from events_quiet [OF put(1)] have inv2: "manager_inv {} {} m2" and q2: "quiet (put_binding b m1) m2"
      by (simp_all add: m2_def)
    note Q2 = quietD [OF q2]
    have k2: "keeps m m2" using k0 put(2) quiet_keeps [OF q2] by (meson keeps_trans)
    have l2: "map_of (leasesByDevice m2) d = None"
      "\<And>i. map_of (leasesByID m2) i = None \<longleftrightarrow> map_of (leasesByID m) i = None"
      using Q2(8) Q2(9) Q1(8) Q1(9) none by (simp_all add: put_binding_def m0_def)
    have g2: "grants m2 = grants m" "inflightByDevice m2 = inflightByDevice m"
      using Q2(5,6) Q1(5,6) by (simp_all add: put_binding_def m0_def grants_eq)
    have b2: "map_of (bindingsByDevice m2) = (map_of (bindingsByDevice m))(d \<mapsto> b)"
      "map_of (bindingsByID m2) = (map_of (bindingsByID m))(ae_bindingID env \<mapsto> b)"
      using Q1(1,2) Q2(1,2) by (simp_all add: put_binding_def m0_def b_def)
    have run: "createBinding env d m = (case saveBindings (ae_save env) m2 of
         (m, True) \<Rightarrow> (m, Inr b)
       | (m, False) \<Rightarrow> let m = run_events (ae_windows env 6) m
           in (m\<lparr>bindingsByDevice := AList.delete d (bindingsByDevice m),
                 bindingsByID := AList.delete (ae_bindingID env) (bindingsByID m),
                 mg_ports := release port (mg_ports m)\<rparr>, Inl BindingSaveFailed))"
      by (simp add: createBinding_def Pair Some Let_def m2_def m1_def m0_def b_def split: prod.split bool.split)
    show ?thesis
    proof (cases "ae_save env")
      case True
      then have "m' = m2\<lparr>mg_saved := stored_form (sort_key bd_DeviceID (map snd (bindingsByDevice m2)))\<rparr>"
        "r = Inr b" using c run saveBindings_result [OF inv2] by simp_all
      then show ?thesis using inv2 k2 l2 g2 b2 by (simp add: grants_eq b_def)
    next
      case False
      define m3 where "m3 = run_events (ae_windows env 6) m2"
      have m': "m' = m3\<lparr>bindingsByDevice := AList.delete d (bindingsByDevice m3),
          bindingsByID := AList.delete (bd_ID b) (bindingsByID m3), mg_ports := release (bd_Port b) (mg_ports m3)\<rparr>"
        "r = Inl BindingSaveFailed"
        using c run saveBindings_result [OF inv2] False by (simp_all add: Let_def m3_def b_def)
      from events_quiet [OF inv2] have inv3: "manager_inv {} {} m3" and q3: "quiet m2 m3"
        by (simp_all add: m3_def)
      note Q3 = quietD [OF q3]
      have b3: "map_of (bindingsByDevice m3) d = Some b" using b2 by (simp add: Q3(1))
      have l3: "map_of (leasesByDevice m3) d = None" using Q3(8) l2(1) by blast
      have maps: "map_of (bindingsByDevice m') = map_of (bindingsByDevice m)"
        "map_of (bindingsByID m') = map_of (bindingsByID m)"
        using b2 Q3(1,2) none fresh by (simp_all add: m' b_def fun_upd_idem)
      have "keeps m m'"
        using k2 quiet_keeps [OF q3] maps by (auto simp: keeps_def m')
      moreover have "manager_inv {} {} m'" using drop_binding_ok [OF inv3 b3 l3] by (simp add: m')
      moreover have "grants m' = grants m" using Q3(6) g2 by (simp add: m' grants_eq)
      moreover have "inflightByDevice m' = inflightByDevice m" using Q3(5) g2 by (simp add: m')
      ultimately show ?thesis using maps l3 l2(2) Q3(9) fresh m'(2) by (simp add: m'(1))
    qed
  qed
qed

section \<open>The gateway\<close>

lemma UpdateGrant_grants:
  assumes "validateGrant grant" "listener_grants g (bd_ID (gr_Binding grant)) \<noteq> None"
  shows "listener_grants (fst (UpdateGrant grant g)) = (listener_grants g)(bd_ID (gr_Binding grant) \<mapsto> grant)"
  using assms by (auto simp: UpdateGrant_def listener_grants_def fun_eq_iff li_updateGrant_def)

lemma Unbind_grants:
  "trim_space i \<noteq> [] \<Longrightarrow> listener_grants (fst (Unbind i g)) = (listener_grants g)(i := None)"
  by (auto simp: Unbind_def listener_grants_def fun_eq_iff split: option.split)

lemma Bind_grants:
  assumes "bind_precheck grant g0 = Inr False" "listener_grants g (bd_ID (gr_Binding grant)) = None"
    and "Bind grant listen (\<lambda>_. g) g0 = (g', e)"
  shows "(e = None \<longrightarrow> listener_grants g' = (listener_grants g)(bd_ID (gr_Binding grant) \<mapsto> grant)
      \<and> g' = gateway_apply (GBind grant True) g) \<and> (e \<noteq> None \<longrightarrow> g' = g)"
  using assms
  by (auto simp: Bind_def bind_commit_def bind_precheck_def listener_grants_def fun_eq_iff split: if_splits)

lemma set_gateway_inv:
  assumes inv: "manager_inv pp xd m" and ok: "gateway_ok g" and b: "map_of (bindingsByID m) i = Some b" "bd_DeviceID b \<in> xd"
    and g: "listener_grants g = (grants m)(i := x)"
  shows "manager_inv pp xd (m\<lparr>mg_gateway := Some g\<rparr>)"
  using manager_invD [OF inv] maps_grant [OF manager_invD(1) [OF inv] b] ok
  by (intro manager_invI) (simp_all add: grants_eq [of "m\<lparr>mg_gateway := Some g\<rparr>"] g ports_ok_def)

lemma idle_no_grant:
  assumes inv: "manager_inv pp {} m" and b: "map_of (bindingsByDevice m) d = Some b"
    and none: "map_of (leasesByDevice m) d = None"
  shows "grants m (bd_ID b) = None"
proof (rule ccontr)
  note ok = manager_invD(1) [OF inv]
  assume "grants m (bd_ID b) \<noteq> None"
  then obtain g where "grants m (bd_ID b) = Some g" by auto
  from maps_okD(10) [OF ok this] obtain c where c: "map_of (bindingsByID m) (bd_ID b) = Some c"
    "map_of (leasesByDevice m) (bd_DeviceID c) \<noteq> None" by auto
  have "c = b" using c(1) maps_okD(2) [OF ok b] by (metis option.inject)
  with c(2) maps_okD(1) [OF ok b] none show False by metis
qed

lemma inv_suspend: "manager_inv pp xd m \<Longrightarrow> xd \<subseteq> xd' \<Longrightarrow> manager_inv pp xd' m"
  unfolding manager_inv_def using maps_suspend by blast

lemma gatewayBind_ok:
  assumes inv: "manager_inv {} {} m" and b: "map_of (bindingsByDevice m) d = Some b"
    and none: "map_of (leasesByDevice m) d = None" and g: "mg_gateway m = Some g"
    and grant: "gr_Binding grant = b" and r: "gatewayBind env grant g m = (m', e)"
  shows "(e = None \<longrightarrow> manager_inv {} {d} m' \<and> grants m' = (grants m)(bd_ID b \<mapsto> grant))
    \<and> (e \<noteq> None \<longrightarrow> manager_inv {} {} m') \<and> keeps m m'
    \<and> bindingsByDevice m' = bindingsByDevice m \<and> bindingsByID m' = bindingsByID m
    \<and> inflightByDevice m' = inflightByDevice m \<and> mg_gateway m' \<noteq> None
    \<and> map_of (leasesByDevice m') d = None
    \<and> (\<forall>i. map_of (leasesByID m') i = None \<longleftrightarrow> map_of (leasesByID m) i = None)"
proof (cases "bind_precheck grant g = Inr False")
  case False
  have no: "bind_precheck grant g \<noteq> Inr True"
    using idle_no_grant [OF inv b none] grant
    by (auto simp: bind_precheck_def grants_eq g listener_grants_def)
  have "m' = m" "e \<noteq> None"
    using r False no by (auto simp: gatewayBind_def Bind_def split: sum.splits bool.splits)
  then show ?thesis using inv none g by auto
next
  case True
  define m1 where "m1 = run_events (ae_windows env 2) m"
  from events_quiet [OF inv] have inv1: "manager_inv {} {} m1" and q: "quiet m m1" by (simp_all add: m1_def)
  note Q = quietD [OF q]
  obtain g1 where g1: "mg_gateway m1 = Some g1" using Q(7) g by (cases "mg_gateway m1") auto
  obtain g2 e2 where B: "Bind grant (ae_listen env) (\<lambda>_. g1) g = (g2, e2)" by fastforce
  have m': "m' = m1\<lparr>mg_gateway := Some g2\<rparr>" "e = e2"
    using r True B by (simp_all add: gatewayBind_def Let_def m1_def [symmetric] g1 the_default_def)
  have b1: "map_of (bindingsByDevice m1) d = Some b" and none1: "map_of (leasesByDevice m1) d = None"
    using b none Q(1) Q(8) by auto
  note ok1 = manager_invD(1) [OF inv1]
  have id1: "map_of (bindingsByID m1) (bd_ID b) = Some b" "bd_DeviceID b = d"
    using maps_okD(1,2) [OF ok1 b1] by blast+
  have gn: "listener_grants g1 (bd_ID (gr_Binding grant)) = None"
    using idle_no_grant [OF inv1 b1 none1] by (simp add: grant grants_eq g1)
  note G = Bind_grants [OF True gn B]
  have k: "keeps m m'" using quiet_keeps [OF q] g by (simp add: m' keeps_def g1)
  have ok: "gateway_ok g1" using manager_invD(6) [OF inv1 g1] .
  have "manager_inv {} {d} m' \<and> grants m' = (grants m)(bd_ID b \<mapsto> grant)" if "e = None"
  proof -
    have lg: "listener_grants g2 = (grants m1)(bd_ID b := Some grant)"
    proof -
      have "listener_grants g2 = (listener_grants g1)(bd_ID (gr_Binding grant) := Some grant)"
        using G that m'(2) by blast
      then show ?thesis by (simp only: grant grants_eq [of m1] g1 option.case)
    qed
    have "gateway_ok g2" using G that m'(2) gateway_apply_ok [OF ok] by metis
    from set_gateway_inv [OF inv_suspend [OF inv1] this id1(1) _ lg, of "{d}"] id1(2)
    have "manager_inv {} {d} m'" by (simp add: m')
    with lg Q(6) show ?thesis by (simp add: m' grants_eq [of "m1\<lparr>mg_gateway := Some g2\<rparr>"])
  qed
  moreover have "manager_inv {} {} m'" if "e \<noteq> None"
  proof -
    have "g2 = g1" using G that m'(2) by blast
    then have "m' = m1" using g1 by (simp add: m')
    with inv1 show ?thesis by simp
  qed
  ultimately show ?thesis using k Q(1,2,5) Q(9) none1 by (simp add: m')
qed

section \<open>Acquiring\<close>

lemma normalize_cidrs_length: "normalize_cidrs vs = (ws, Inr ps) \<Longrightarrow> length ps = length vs"
  by (induction vs arbitrary: ws ps) (auto split: option.splits prod.splits sum.splits)

lemma normalizeAcquire_ok:
  assumes "config_ok cfg" "normalizeAcquire cfg req = (req', Inr ps)"
  shows "ps \<noteq> [] \<and> 0 < ar_TTL req' \<and> ar_TTL req' \<le> cf_LeaseMaxTTL cfg
    \<and> 0 < ar_MaxConnections req' \<and> ar_MaxConnections req' \<le> cf_MaxConnections cfg
    \<and> ar_DeviceIdentifier req' = trim_space (ar_DeviceIdentifier req)
    \<and> ar_OwnerID req' = (if trim_space (ar_OwnerID req) = [] then ''default'' else trim_space (ar_OwnerID req))"
proof -
  have cidrs: "cf_AllowedSourceCIDRs cfg \<noteq> []" "0 < cf_LeaseMaxTTL cfg"
    using assms(1) by (simp_all add: config_ok_def)
  define r0 where "r0 = req\<lparr>ar_DeviceIdentifier := trim_space (ar_DeviceIdentifier req),
            ar_OwnerID := trim_space (ar_OwnerID req), ar_PolicyProfile := trim_space (ar_PolicyProfile req)\<rparr>"
  define r1 where "r1 = (if ar_OwnerID r0 = [] then r0\<lparr>ar_OwnerID := ''default''\<rparr> else r0)"
  define r2 where "r2 = (if ar_PolicyProfile r1 = [] then r1\<lparr>ar_PolicyProfile := ''studio-debug''\<rparr> else r1)"
  define r3 where "r3 = (if ar_TTL r2 \<le> 0 then r2\<lparr>ar_TTL := cf_LeaseMaxTTL cfg\<rparr> else r2)"
  define r4 where "r4 = (if ar_MaxConnections r3 = 0 then r3\<lparr>ar_MaxConnections := cf_MaxConnections cfg\<rparr> else r3)"
  define r5 where "r5 = (if ar_AllowedSourceCIDRs r4 = [] then r4\<lparr>ar_AllowedSourceCIDRs := cf_AllowedSourceCIDRs cfg\<rparr> else r4)"
  have run: "normalizeAcquire cfg req = (if ar_DeviceIdentifier r0 = [] then (r0, Inl DeviceIdentifierRequired)
    else if cf_LeaseMaxTTL cfg < ar_TTL r3 then (r3, Inl LeaseTTLOutside)
    else if ar_MaxConnections r4 \<le> 0 \<or> cf_MaxConnections cfg < ar_MaxConnections r4 then (r4, Inl ConnectionLimitOutside)
    else case normalize_cidrs (ar_AllowedSourceCIDRs r5) of
           (ws, Inl v) \<Rightarrow> (r5\<lparr>ar_AllowedSourceCIDRs := ws\<rparr>, Inl (SourceCIDRInvalid v))
         | (ws, Inr prefixes) \<Rightarrow> (r5\<lparr>ar_AllowedSourceCIDRs := ws\<rparr>, Inr prefixes))"
    by (simp only: normalizeAcquire_def Let_def r0_def r1_def r2_def r3_def r4_def r5_def)
  obtain ws where n: "normalize_cidrs (ar_AllowedSourceCIDRs r5) = (ws, Inr ps)"
      "req' = r5\<lparr>ar_AllowedSourceCIDRs := ws\<rparr>" "ar_TTL r3 \<le> cf_LeaseMaxTTL cfg"
      "0 < ar_MaxConnections r4" "ar_MaxConnections r4 \<le> cf_MaxConnections cfg"
    using assms(2) unfolding run by (auto split: if_split_asm prod.split_asm sum.split_asm)
  have "ar_AllowedSourceCIDRs r5 \<noteq> []" using cidrs by (simp add: r5_def)
  then have "ps \<noteq> []" using normalize_cidrs_length [OF n(1)] by auto
  moreover have "ar_TTL r5 = ar_TTL r3" "0 < ar_TTL r3" using cidrs by (simp_all add: r5_def r4_def r3_def)
  moreover have "ar_MaxConnections r5 = ar_MaxConnections r4" by (simp add: r5_def)
  moreover have "ar_DeviceIdentifier r5 = ar_DeviceIdentifier r0" "ar_OwnerID r5 = ar_OwnerID r1"
    by (simp_all add: r5_def r4_def r3_def r2_def r1_def)
  ultimately show ?thesis using n by (simp add: r1_def r0_def)
qed

definition grant_fits :: "Lease \<Rightarrow> Binding \<Rightarrow> ip_prefix list \<Rightarrow> bool" where
  "grant_fits lease b ps \<longleftrightarrow> ls_ID lease \<noteq> [] \<and> 0 < ls_MaxConnections lease \<and> ps \<noteq> [] \<and> ls_ExpiresAt lease \<noteq> 0"

lemma validateGrant_build:
  assumes inv: "manager_inv pp xd m" and b: "map_of (bindingsByDevice m) d = Some b"
    and fit: "grant_fits lease b ps"
  shows "validateGrant (buildGrant lease b ps)"
proof -
  have "bd_ID b \<noteq> []" "bd_DeviceID b \<noteq> []"
    using manager_invD(4) [OF inv b] by (auto simp: binding_identity_def)
  moreover have "0 < bd_Port b" "bd_Port b \<le> 65535"
    using binding_port_range [OF inv b] manager_invD(8) [OF inv] by (simp_all add: config_ok_def)
  ultimately show ?thesis
    using fit by (simp add: validateGrant_def buildGrant_def grant_fits_def Let_def)
qed

lemma set_lease_inv:
  assumes inv: "manager_inv pp xd m" and d: "ls_DeviceID l \<in> xd" and id: "ls_ID l \<noteq> []"
    and old: "case map_of (leasesByDevice m) (ls_DeviceID l) of None \<Rightarrow> map_of (leasesByID m) (ls_ID l) = None
      | Some y \<Rightarrow> ls_ID y = ls_ID l"
  shows "manager_inv pp xd (put_lease l m)"
  using manager_invD [OF inv] maps_set_lease [OF manager_invD(1) [OF inv] d old] id
  by (intro manager_invI) (auto simp: put_lease_def grants_eq distinct_update ports_ok_def split: if_splits)

lemma grant_of_build: "grant_of l b (buildGrant l' b ps) \<longleftrightarrow> buildGrant l' b ps = buildGrant l b ps"
  by (auto simp: grant_of_def buildGrant_def)

text \<open>What a successful acquisition leaves behind.\<close>

definition exposed :: "string \<Rightarrow> AcquireRequest \<Rightarrow> time \<Rightarrow> ip_prefix list \<Rightarrow> Manager \<Rightarrow> bool" where
  "exposed d req now ps m \<longleftrightarrow> (\<exists>l b b0. map_of (leasesByDevice m) d = Some l
     \<and> map_of (bindingsByDevice m) d = Some b \<and> grants m (bd_ID b) = Some (buildGrant l b0 ps)
     \<and> bd_ID b0 = bd_ID b \<and> ls_OwnerID l = ar_OwnerID req \<and> ls_ExpiresAt l = now + ar_TTL req
     \<and> ls_MaxConnections l = ar_MaxConnections req)"

lemma acquire_renew_ok:
  assumes inv: "manager_inv {} {} m" and l: "map_of (leasesByDevice m) (dv_ID device) = Some l"
    and ps: "ps \<noteq> []" and req: "0 < ar_MaxConnections req" "ae_now env + ar_TTL req \<noteq> 0"
    and owner: "ls_OwnerID l = ar_OwnerID req"
    and r: "acquire_renew env req ps device l m = (m', view)"
  shows "manager_inv {} {} m' \<and> keeps m m' \<and> inflightByDevice m' = inflightByDevice m
    \<and> (\<forall>i. map_of (leasesByID m') i = None \<longleftrightarrow> map_of (leasesByID m) i = None)
    \<and> bindingsByID m' = bindingsByID m \<and> exposed (dv_ID device) req (ae_now env) ps m'"
proof -
  note ok = manager_invD(1) [OF inv]
  let ?d = "dv_ID device"
  have dev: "ls_DeviceID l = ?d" and lid: "map_of (leasesByID m) (ls_ID l) = Some l"
    using maps_okD(5,6) [OF ok l] by blast+
  have "lease_served (map_of (bindingsByDevice m)) (grants m) l" using maps_okD(9) [OF ok l] by blast
  then obtain b g0 where b: "map_of (bindingsByDevice m) ?d = Some b" "bd_ID b = ls_BindingID l"
      "bd_Status b = BindingListening" "grants m (bd_ID b) = Some g0" and act: "ls_Status l = LeaseActive"
    unfolding lease_served_def dev by blast
  define l1 where "l1 = l\<lparr>ls_ExpiresAt := ae_now env + ar_TTL req, ls_UpdatedAt := ae_now env,
            ls_AllowedSourceCIDRs := ar_AllowedSourceCIDRs req, ls_MaxConnections := ar_MaxConnections req,
            ls_PolicyProfile := ar_PolicyProfile req\<rparr>"
  have l1: "ls_DeviceID l1 = ?d" "ls_ID l1 = ls_ID l" "ls_BindingID l1 = bd_ID b" "ls_Status l1 = LeaseActive"
    by (simp_all add: l1_def dev b act)
  define m1 where "m1 = put_lease l1 m"
  define m2 where "m2 = run_events (ae_windows env 1) m1"
  have nonempty: "ls_ID l \<noteq> []" by (rule manager_invD(5) [OF inv lid])
  have inv1: "manager_inv {} {?d} m1"
    unfolding m1_def by (rule set_lease_inv [OF inv_suspend [OF inv]]) (simp_all add: l1 l nonempty)
  from events_quiet [OF inv1] have inv2: "manager_inv {} {?d} m2" and q: "quiet m1 m2"
    by (simp_all add: m2_def)
  note Q = quietD [OF q]
  have same1: "bindingsByDevice m1 = bindingsByDevice m" "bindingsByID m1 = bindingsByID m"
    "grants m1 = grants m" "mg_gateway m1 = mg_gateway m" "inflightByDevice m1 = inflightByDevice m"
    by (simp_all add: m1_def put_lease_def grants_eq)
  have lids1: "map_of (leasesByID m1) i = None \<longleftrightarrow> map_of (leasesByID m) i = None" for i
    using lid by (auto simp: m1_def put_lease_def l1)
  obtain g2 where g2: "mg_gateway m2 = Some g2"
    using b(4) Q(7) same1(4) by (cases "mg_gateway m2") (auto simp: grants_def split: option.splits)
  obtain l2 where l2: "map_of (leasesByDevice m2) ?d = Some l2" "same_lease l1 l2"
    using Q(10) [of ?d l1] by (auto simp: m1_def put_lease_def l1)
  have m': "m' = m2\<lparr>mg_gateway := Some (fst (UpdateGrant (buildGrant l1 b ps) g2))\<rparr>"
    using r b(1) g2
    by (simp add: acquire_renew_def Let_def l1_def [symmetric] m2_def m1_def put_lease_def l1 dev)
  have b2: "map_of (bindingsByDevice m2) ?d = Some b" using b(1) by (simp add: Q(1) same1)
  note ok2 = manager_invD(1) [OF inv2]
  have bid: "map_of (bindingsByID m2) (bd_ID b) = Some b" "bd_DeviceID b = ?d"
    using maps_okD(1,2) [OF ok2 b2] by blast+
  have gb: "gr_Binding (buildGrant l1 b ps) = b" by (simp add: buildGrant_def)
  have valid: "validateGrant (buildGrant l1 b ps)"
    by (rule validateGrant_build [OF inv2 b2])
      (use nonempty ps req in \<open>simp_all add: grant_fits_def l1_def\<close>)
  have old: "listener_grants g2 (bd_ID (gr_Binding (buildGrant l1 b ps))) \<noteq> None"
    using b(4) Q(6) same1(3) g2 by (simp add: gb grants_eq [of m2])
  have lg: "listener_grants (fst (UpdateGrant (buildGrant l1 b ps) g2))
      = (grants m2)(bd_ID b := Some (buildGrant l1 b ps))"
    using UpdateGrant_grants [OF valid old] by (simp add: gb grants_eq [of m2] g2)
  have "gateway_ok (fst (UpdateGrant (buildGrant l1 b ps) g2))"
    using gateway_apply_ok [OF manager_invD(6) [OF inv2 g2], of "GUpdate (buildGrant l1 b ps)"] by simp
  from set_gateway_inv [OF inv2 this bid(1) _ lg] bid(2) have inv3: "manager_inv {} {?d} m'" by (simp add: m')
  have gr': "grants m' (bd_ID b) = Some (buildGrant l1 b ps)" by (simp add: m' grants_eq lg)
  have eq: "buildGrant l1 b ps = buildGrant l2 b ps" using l2(2) by (simp add: same_lease_def)
  have l2': "map_of (leasesByDevice m') ?d = Some l2" and b': "map_of (bindingsByDevice m') ?d = Some b"
    using l2 b2 by (simp_all add: m')
  have served: "lease_served (map_of (bindingsByDevice m')) (grants m') l2"
  proof -
    have "ls_Status l2 = LeaseActive" "ls_DeviceID l2 = ?d" "ls_BindingID l2 = bd_ID b"
      using l2(2) l1 by (simp_all add: same_lease_def)
    moreover have "grant_of l2 b (buildGrant l1 b ps)" using eq by (simp add: grant_of_build)
    ultimately show ?thesis using b' b(3) gr' by (intro lease_servedI) simp_all
  qed
  have "manager_inv {} {} m'"
    using manager_invD [OF inv3] maps_resume [OF manager_invD(1) [OF inv3]] served l2'
    by (intro manager_invI) auto
  moreover have "keeps m m'"
    using quiet_keeps [OF q] same1 g2 by (auto simp: keeps_def m' m1_def put_lease_def)
  moreover have "exposed ?d req (ae_now env) ps m'"
  proof -
    have f: "ls_OwnerID l1 = ar_OwnerID req" "ls_ExpiresAt l1 = ae_now env + ar_TTL req"
      "ls_MaxConnections l1 = ar_MaxConnections req" using owner by (simp_all add: l1_def)
    have "ls_OwnerID l2 = ls_OwnerID l1 \<and> ls_ExpiresAt l2 = ls_ExpiresAt l1 \<and> ls_MaxConnections l2 = ls_MaxConnections l1"
      using eq by (simp add: buildGrant_def)
    with f l2' b' gr' eq show ?thesis unfolding exposed_def by (intro exI [of _ l2] exI [of _ b] exI [of _ b]) simp
  qed
  ultimately show ?thesis
    using Q(2,5) Q(9) same1 lids1 by (simp add: m')
qed


lemma commit_ok:
  assumes inv: "manager_inv {} {d} m" and b: "map_of (bindingsByDevice m) d = Some b"
    and none: "map_of (leasesByDevice m) d = None" "map_of (leasesByID m) (ls_ID l) = None"
    and d: "dv_ID device = d" "ls_DeviceID l = d" and l: "ls_ID l \<noteq> []" "ls_Status l = LeaseActive" "ls_BindingID l = bd_ID b"
    and g: "grants m (bd_ID b) = Some (buildGrant l b ps)"
  shows "manager_inv {} {} (acquire_commit env device l b' m) \<and> keeps m (acquire_commit env device l b' m)
    \<and> map_of (leasesByDevice (acquire_commit env device l b' m)) d = Some l
    \<and> map_of (bindingsByDevice (acquire_commit env device l b' m)) d
        = Some (b\<lparr>bd_Status := BindingListening, bd_UpdatedAt := ae_commit env\<rparr>)"
proof -
  let ?b = "b\<lparr>bd_Status := BindingListening, bd_UpdatedAt := ae_commit env\<rparr>"
  let ?m = "acquire_commit env device l b' m"
  note ok = manager_invD(1) [OF inv]
  have fields: "map_of (bindingsByDevice ?m) = (map_of (bindingsByDevice m))(d \<mapsto> ?b)"
    "map_of (bindingsByID ?m) = (map_of (bindingsByID m))(bd_ID b \<mapsto> ?b)"
    "map_of (leasesByDevice ?m) = (map_of (leasesByDevice m))(ls_DeviceID l \<mapsto> l)"
    "map_of (leasesByID ?m) = (map_of (leasesByID m))(ls_ID l \<mapsto> l)"
    "grants ?m = grants m" "mg_ports ?m = mg_ports m" "mg_cfg ?m = mg_cfg m" "mg_registry ?m = mg_registry m"
    "mg_gateway ?m = mg_gateway m" "mg_closed ?m = mg_closed m"
    using b d by (simp_all add: acquire_commit_def Let_def grants_eq)
  have dist: "distinct (map fst (bindingsByDevice ?m))" "distinct (map fst (leasesByID ?m))"
    using manager_invD(2,3) [OF inv] b d by (simp_all add: acquire_commit_def Let_def distinct_update)
  have dev: "bd_DeviceID b = d" using maps_okD(1) [OF ok b] .
  have put: "maps_ok ((map_of (bindingsByDevice m))(d \<mapsto> ?b)) ((map_of (bindingsByID m))(bd_ID b \<mapsto> ?b))
      (map_of (leasesByDevice m)) (map_of (leasesByID m)) (grants m) {d}"
    by (rule maps_put_binding [OF ok b]) (simp_all add: dev)
  have lease: "maps_ok (map_of (bindingsByDevice ?m)) (map_of (bindingsByID ?m)) (map_of (leasesByDevice ?m))
      (map_of (leasesByID ?m)) (grants ?m) {d}"
    unfolding fields by (rule maps_set_lease [OF put]) (simp_all add: none d)
  have served: "lease_served (map_of (bindingsByDevice ?m)) (grants ?m) l"
  proof (rule lease_servedI)
    show "map_of (bindingsByDevice ?m) (ls_DeviceID l) = Some ?b" using fields(1) d by simp
    show "grants ?m (bd_ID ?b) = Some (buildGrant l b ps)" using fields(5) g by simp
    show "grant_of l ?b (buildGrant l b ps)" by (simp add: grant_of_def buildGrant_def)
  qed (simp_all add: l)
  have "maps_ok (map_of (bindingsByDevice ?m)) (map_of (bindingsByID ?m)) (map_of (leasesByDevice ?m))
      (map_of (leasesByID ?m)) (grants ?m) {}"
    by (rule maps_resume [OF lease]) (use served fields(3) d in simp_all)
  moreover have "ports_ok {} ?m"
  proof -
    note P = ports_okD [OF manager_invD(7) [OF inv]]
    have "bd_Port ?b = bd_Port b" by simp
    note S = ports_same [where bd = "map_of (bindingsByDevice m)", OF b this]
    show ?thesis unfolding ports_ok_def fields using P S by (simp add: P(4))
  qed
  moreover have "binding_identity x" if "map_of (bindingsByDevice ?m) e = Some x" for e x
    using manager_invD(4) [OF inv] b that unfolding fields(1)
    by (auto simp: binding_identity_def split: if_splits)
  moreover have "i \<noteq> []" if "map_of (leasesByID ?m) i = Some x" for i x
    using manager_invD(5) [OF inv] l that unfolding fields(4) by (auto split: if_splits)
  ultimately have "manager_inv {} {} ?m"
    using dist manager_invD(6,8,9) [OF inv] by (intro manager_invI) (simp_all add: fields)
  moreover have "keeps m ?m"
    unfolding keeps_def fields using b by (auto simp: same_binding_def)
  ultimately show ?thesis using fields(1,3) d by simp
qed


text \<open>The ids an acquisition draws are new and not blank, and its clock is past the zero time.\<close>

definition fresh_env :: "acquire_env \<Rightarrow> Manager \<Rightarrow> bool" where
  "fresh_env env m \<longleftrightarrow> 0 < ae_now env
     \<and> trim_space (ae_bindingID env) \<noteq> [] \<and> map_of (bindingsByID m) (ae_bindingID env) = None
     \<and> ae_leaseID env \<noteq> [] \<and> map_of (leasesByID m) (ae_leaseID env) = None"

definition ids_grow :: "acquire_env \<Rightarrow> Manager \<Rightarrow> Manager \<Rightarrow> bool" where
  "ids_grow env m m' \<longleftrightarrow>
     (\<forall>i. i \<noteq> ae_bindingID env \<longrightarrow> map_of (bindingsByID m) i = None \<longrightarrow> map_of (bindingsByID m') i = None)
   \<and> (\<forall>i. i \<noteq> ae_leaseID env \<longrightarrow> map_of (leasesByID m) i = None \<longrightarrow> map_of (leasesByID m') i = None)"

lemma grants_inflight [simp]: "grants (m\<lparr>inflightByDevice := x\<rparr>) = grants m"
  by (simp add: grants_eq)

lemma acquire_fresh_ok:
  assumes inv: "manager_inv {} {} m" and none: "map_of (leasesByDevice m) (dv_ID device) = None"
    and d: "trim_space (dv_ID device) \<noteq> []" and fresh: "fresh_env env m"
    and ps: "ps \<noteq> []" and req: "0 < ar_MaxConnections req" "0 < ar_TTL req"
    and g: "mg_gateway m = Some g" and idle: "dv_ID device \<notin> set (inflightByDevice m)"
    and r: "acquire_fresh env req ps device g m = (m', view, e)"
  shows "manager_inv {} {} m' \<and> keeps m m' \<and> inflightByDevice m' = inflightByDevice m
    \<and> ids_grow env m m' \<and> (e = None \<longrightarrow> exposed (dv_ID device) req (ae_now env) ps m')"
proof -
  let ?d = "dv_ID device"
  define m0 where "m0 = m\<lparr>inflightByDevice := List.insert ?d (inflightByDevice m)\<rparr>"
  define c where "c = (case map_of (bindingsByDevice m0) ?d of Some binding \<Rightarrow> (m0, Inr binding)
             | None \<Rightarrow> createBinding env ?d (run_events (ae_windows env 1) m0))"
  obtain m1 r1 where c1: "c = (m1, r1)" by (cases c)
  have inv0: "manager_inv {} {} m0" using inv by (simp add: m0_def)
  have "manager_inv {} {} m1 \<and> keeps m0 m1 \<and> inflightByDevice m1 = inflightByDevice m0
      \<and> mg_gateway m1 \<noteq> None \<and> map_of (leasesByDevice m1) ?d = None
      \<and> (\<forall>i. map_of (leasesByID m1) i = None \<longleftrightarrow> map_of (leasesByID m) i = None)
      \<and> (\<forall>i. i \<noteq> ae_bindingID env \<longrightarrow> map_of (bindingsByID m1) i = map_of (bindingsByID m) i)
      \<and> (\<forall>b. r1 = Inr b \<longrightarrow> map_of (bindingsByDevice m1) ?d = Some b)"
  proof (cases "map_of (bindingsByDevice m0) ?d")
    case (Some b)
    then have "m1 = m0" "r1 = Inr b" using c1 by (simp_all add: c_def)
    with Some inv0 none g show ?thesis by (simp add: m0_def)
  next
    case None
    define mw where "mw = run_events (ae_windows env 1) m0"
    from events_quiet [OF inv0] have invw: "manager_inv {} {} mw" and q: "quiet m0 mw"
      by (simp_all add: mw_def)
    note Q = quietD [OF q]
    have cb: "createBinding env ?d mw = (m1, r1)" using c1 None by (simp add: c_def mw_def)
    have nw: "map_of (bindingsByDevice mw) ?d = None" "map_of (leasesByDevice mw) ?d = None"
      using None none Q(1) Q(8) [of ?d] by (simp_all add: m0_def)
    have f: "map_of (bindingsByID mw) (ae_bindingID env) = None" "trim_space (ae_bindingID env) \<noteq> []"
      using fresh Q(2) by (simp_all add: fresh_env_def m0_def)
    note C = createBinding_ok [OF invw nw d f cb]
    have "keeps m0 m1" using C quiet_keeps [OF q] by (blast intro: keeps_trans)
    moreover from this have "mg_gateway m1 \<noteq> None" using g by (simp add: keeps_def m0_def)
    ultimately show ?thesis using C Q(2,5) Q(9) by (simp add: m0_def)
  qed
  then have inv1: "manager_inv {} {} m1" and k1: "keeps m0 m1"
      and fl1: "inflightByDevice m1 = inflightByDevice m0" and g1: "mg_gateway m1 \<noteq> None"
      and n1: "map_of (leasesByDevice m1) ?d = None"
      and li1: "\<And>i. map_of (leasesByID m1) i = None \<longleftrightarrow> map_of (leasesByID m) i = None"
      and bi1: "\<And>i. i \<noteq> ae_bindingID env \<Longrightarrow> map_of (bindingsByID m1) i = map_of (bindingsByID m) i"
      and b1: "\<And>b. r1 = Inr b \<Longrightarrow> map_of (bindingsByDevice m1) ?d = Some b" by blast+
  have k: "keeps m m1" using k1 by (simp add: m0_def)
  have run: "acquire_fresh env req ps device g m = (case r1 of
           Inl e \<Rightarrow> (clearInflight ?d m1, failedView ?d ''Remote access port is not available.'', Some e)
         | Inr binding \<Rightarrow> let lease = newLease env req ?d binding
             in case gatewayBind env (buildGrant lease binding ps) (the_default g (mg_gateway m1)) m1 of
                  (m, Some e) \<Rightarrow> (clearInflight ?d m,
                    failedView ?d ''Remote access port is not available.'', Some (GatewayBindFailed e))
                | (m, None) \<Rightarrow>
                    let m = acquire_commit env device lease binding (run_events (ae_windows env 3) m)
                    in (clearInflight ?d m, buildViewLocked device [] m, None))"
    unfolding acquire_fresh_def Let_def m0_def [symmetric] c_def [symmetric] c1 by simp
  have clear: "removeAll ?d (List.insert ?d (inflightByDevice m)) = inflightByDevice m"
    using idle by (simp add: List.insert_def removeAll_id)
  show ?thesis
  proof (cases r1)
    case (Inl e1)
    then have "m' = clearInflight ?d m1" "e \<noteq> None" using r run by auto
    then show ?thesis using inv1 k fl1 clear li1 bi1
      by (auto simp: clearInflight_def m0_def ids_grow_def)
  next
    case (Inr b)
    define l where "l = newLease env req ?d b"
    have l: "ls_DeviceID l = ?d" "ls_ID l = ae_leaseID env" "ls_Status l = LeaseActive" "ls_BindingID l = bd_ID b"
      "ls_OwnerID l = ar_OwnerID req" "ls_ExpiresAt l = ae_now env + ar_TTL req"
      "ls_MaxConnections l = ar_MaxConnections req" by (simp_all add: l_def newLease_def)
    obtain g0 where g0: "mg_gateway m1 = Some g0" using g1 by auto
    obtain m2 e2 where B: "gatewayBind env (buildGrant l b ps) g0 m1 = (m2, e2)" by fastforce
    have gb: "gr_Binding (buildGrant l b ps) = b" by (simp add: buildGrant_def)
    note b1' = b1 [OF Inr]
    note G = gatewayBind_ok [OF inv1 b1' n1 g0 gb B]
    have k2: "keeps m m2" using k G keeps_trans by blast
    have bi2: "bindingsByID m2 = bindingsByID m1" using G by blast
    have li2: "map_of (leasesByID m2) i = None \<longleftrightarrow> map_of (leasesByID m) i = None" for i using G li1 by blast
    have fl2: "inflightByDevice m2 = inflightByDevice m0" using G fl1 by metis
    show ?thesis
    proof (cases e2)
      case (Some x)
      then have "m' = clearInflight ?d m2" "e \<noteq> None"
        using r run Inr B g0 by (auto simp: l_def [symmetric] the_default_def)
      moreover have "manager_inv {} {} m2" using G Some by blast
      ultimately show ?thesis using k2 fl2 clear li2 bi1 bi2
        by (auto simp: clearInflight_def m0_def ids_grow_def)
    next
      case None
      define m3 where "m3 = run_events (ae_windows env 3) m2"
      have inv2: "manager_inv {} {?d} m2" and gr2: "grants m2 = (grants m1)(bd_ID b \<mapsto> buildGrant l b ps)"
        using G None by blast+
      from events_quiet [OF inv2] have inv3: "manager_inv {} {?d} m3" and q3: "quiet m2 m3"
        by (simp_all add: m3_def)
      note Q = quietD [OF q3]
      have m': "m' = clearInflight ?d (acquire_commit env device l b m3)"
        using r run Inr B g0 None by (auto simp: l_def [symmetric] m3_def the_default_def Let_def)
      have b3: "map_of (bindingsByDevice m3) ?d = Some b"
        using G b1' Q(1) by metis
      have n3: "map_of (leasesByDevice m3) ?d = None" "map_of (leasesByID m3) (ls_ID l) = None"
        using G Q(8) Q(9) li2 fresh by (simp_all add: l fresh_env_def)
      have g3: "grants m3 (bd_ID b) = Some (buildGrant l b ps)" using Q(6) gr2 by simp
      have id: "ls_ID l \<noteq> []" using fresh by (simp add: l fresh_env_def)
      note C = commit_ok [OF inv3 b3 n3 refl l(1) id l(3) l(4) g3, where env = env and b' = b]
      let ?m = "acquire_commit env device l b m3"
      have k3: "keeps m ?m" using k2 quiet_keeps [OF q3] C keeps_trans by blast
      have ids: "map_of (leasesByID ?m) = (map_of (leasesByID m3))(ae_leaseID env \<mapsto> l)"
        "map_of (bindingsByID ?m) = (map_of (bindingsByID m3))(bd_ID b \<mapsto>
           b\<lparr>bd_Status := BindingListening, bd_UpdatedAt := ae_commit env\<rparr>)"
        "grants ?m = grants m3" "inflightByDevice ?m = inflightByDevice m3"
        using b3 l(2) by (simp_all add: acquire_commit_def Let_def grants_eq)
      have "map_of (bindingsByID m3) (bd_ID b) = Some b"
        using maps_okD(2) [OF manager_invD(1) [OF inv3] b3] .
      then have "ids_grow env m ?m"
        using li2 Q(2) Q(9) bi1 bi2 ids by (auto simp: ids_grow_def)
      moreover have "exposed ?d req (ae_now env) ps ?m"
        unfolding exposed_def using C g3 ids(3) l
        by (intro exI [of _ l] exI [of _ "b\<lparr>bd_Status := BindingListening, bd_UpdatedAt := ae_commit env\<rparr>"]
            exI [of _ b]) simp
      moreover have "exposed ?d req (ae_now env) ps (clearInflight ?d x) = exposed ?d req (ae_now env) ps x" for x
        by (simp add: exposed_def clearInflight_def)
      ultimately show ?thesis
        using C k3 ids(4) Q(5) fl2 clear by (simp add: m' ids_grow_def) (simp add: clearInflight_def m0_def)
    qed
  qed
qed


lemma ResolveOnlineUSB_named:
  assumes "dregistry_ok r" "ResolveOnlineUSB i r = Some device"
  shows "trim_space (dv_ID device) \<noteq> []" "online_usb device"
proof -
  have f: "FindDevice i r = Some device" "online_usb device"
    using assms(2) by (auto simp: ResolveOnlineUSB_def split: option.splits if_splits)
  then show "online_usb device" by blast
  have "devices_ok (rg_devices r)" using assms(1) by (simp add: dregistry_ok_def)
  from devices_okD [OF this FindDevice_mem [OF assms(1) f(1)]] show "trim_space (dv_ID device) \<noteq> []" by blast
qed

lemma ids_grow_refl [simp]: "ids_grow env m m"
  by (simp add: ids_grow_def)

lemma ids_grow_quiet: "quiet m a \<Longrightarrow> ids_grow env a b \<Longrightarrow> ids_grow env m b"
  unfolding ids_grow_def using quietD(2,9) by metis

lemma fresh_quiet: "quiet m a \<Longrightarrow> fresh_env env m \<Longrightarrow> fresh_env env a"
  by (simp add: fresh_env_def quietD(2,9))

lemma Acquire_ok:
  assumes inv: "manager_inv {} {} m" and fresh: "fresh_env env m" and r: "Acquire env req m = (m', view, e)"
  shows "manager_inv {} {} m' \<and> keeps m m' \<and> inflightByDevice m' = inflightByDevice m \<and> ids_grow env m m'
    \<and> (e = None \<longrightarrow> (\<exists>req' ps device. normalizeAcquire (mg_cfg m) req = (req', Inr ps)
         \<and> ResolveOnlineUSB (ar_DeviceIdentifier req') (mg_registry m) = Some device
         \<and> exposed (dv_ID device) req' (ae_now env) ps m'))"
proof -
  obtain req' n where n: "normalizeAcquire (mg_cfg m) req = (req', n)" by fastforce
  show ?thesis
  proof (cases n)
    case (Inl x)
    then have "m' = m" "e \<noteq> None" using r n by (auto simp: Acquire_def)
    with inv show ?thesis by auto
  next
    case (Inr ps)
    note N = normalizeAcquire_ok [OF manager_invD(8) [OF inv] n [unfolded Inr]]
    show ?thesis
    proof (cases "ResolveOnlineUSB (ar_DeviceIdentifier req') (mg_registry m)")
      case None
      then have "m' = m" "e \<noteq> None" using r n Inr by (auto simp: Acquire_def)
      with inv show ?thesis by auto
    next
      case (Some device)
      let ?d = "dv_ID device"
      define m1 where "m1 = run_events (ae_windows env 0) m"
      from events_quiet [OF inv] have inv1: "manager_inv {} {} m1" and q: "quiet m m1" by (simp_all add: m1_def)
      have d: "trim_space ?d \<noteq> []" using ResolveOnlineUSB_named(1) [OF manager_invD(9) [OF inv] Some] .
      have fresh1: "fresh_env env m1" using fresh_quiet [OF q fresh] .
      define P where "P = (\<lambda>m' (e :: manager_error option). manager_inv {} {} m' \<and> keeps m1 m' \<and> inflightByDevice m' = inflightByDevice m1
        \<and> ids_grow env m1 m' \<and> (e = None \<longrightarrow> exposed ?d req' (ae_now env) ps m'))"
      have "P m' e"
      proof (cases "?d \<in> set (inflightByDevice m1)")
        case True
        then have "m' = m1" "e \<noteq> None" using r n Inr Some by (auto simp: Acquire_def m1_def [symmetric])
        with inv1 show ?thesis by (auto simp: P_def)
      next
        case idle: False
        show ?thesis
        proof (cases "map_of (leasesByDevice m1) ?d")
          case l: (Some l)
          have act: "ls_Status l = LeaseActive"
            using maps_okD(9) [OF manager_invD(1) [OF inv1] l] by (simp add: lease_served_def)
          show ?thesis
          proof (cases "ls_OwnerID l = ar_OwnerID req'")
            case own: True
            obtain m2 v where R: "acquire_renew env req' ps device l m1 = (m2, v)" by fastforce
            have "m' = m2" using r n Inr Some idle l act own R
              by (auto simp: Acquire_def m1_def [symmetric] Let_def)
            moreover have "ae_now env + ar_TTL req' \<noteq> 0" using fresh N by (simp add: fresh_env_def)
            ultimately show ?thesis
              using acquire_renew_ok [OF inv1 l _ _ _ own R] N by (simp add: P_def ids_grow_def)
          next
            case False
            then have "m' = m1" "e \<noteq> None"
              using r n Inr Some idle l act by (auto simp: Acquire_def m1_def [symmetric] Let_def)
            with inv1 show ?thesis by (auto simp: P_def)
          qed
        next
          case l: None
          show ?thesis
          proof (cases "mg_gateway m1")
            case None
            then have "m' = m1" "e \<noteq> None"
              using r n Inr Some idle l by (auto simp: Acquire_def m1_def [symmetric] Let_def)
            with inv1 show ?thesis by (auto simp: P_def)
          next
            case g: (Some g)
            then have R: "acquire_fresh env req' ps device g m1 = (m', view, e)"
              using r n Inr Some idle l by (auto simp: Acquire_def m1_def [symmetric] Let_def)
            show ?thesis
              using acquire_fresh_ok [OF inv1 l d fresh1 _ _ _ g idle R] N by (simp add: P_def)
          qed
        qed
      qed
      then show ?thesis
        using quiet_keeps [OF q] keeps_trans [of m m1 m'] quietD(5) [OF q] ids_grow_quiet [OF q] n Inr Some
        unfolding P_def by metis
    qed
  qed
qed

section \<open>Releasing\<close>

lemma put_lease_fields [simp]:
  "bindingsByDevice (put_lease l m) = bindingsByDevice m" "bindingsByID (put_lease l m) = bindingsByID m"
  "mg_gateway (put_lease l m) = mg_gateway m" "mg_ports (put_lease l m) = mg_ports m"
  "mg_cfg (put_lease l m) = mg_cfg m" "mg_registry (put_lease l m) = mg_registry m"
  "inflightByDevice (put_lease l m) = inflightByDevice m" "grants (put_lease l m) = grants m"
  "mg_closed (put_lease l m) = mg_closed m" "mg_saved (put_lease l m) = mg_saved m"
  by (simp_all add: put_lease_def grants_eq)

definition frozen_status :: "Device option \<Rightarrow> BindingStatus" where
  "frozen_status found = (case found of None \<Rightarrow> BindingFrozen
     | Some device \<Rightarrow> if online_usb device then BindingReserved else BindingFrozen)"

lemma frozen_status_idle [simp]: "frozen_status found \<noteq> BindingListening"
  by (simp add: frozen_status_def split: option.split)

lemma finish_ok:
  assumes inv: "manager_inv {} {d} m" and b: "map_of (bindingsByDevice m) d = Some b"
    and l: "map_of (leasesByDevice m) d = Some l" and g: "grants m (bd_ID b) = None"
    and l': "ls_ID l' = ls_ID l" "ls_DeviceID l' = d" and b': "bd_ID b' = bd_ID b"
  shows "manager_inv {} {} (release_finish env l' b' found m) \<and> keeps m (release_finish env l' b' found m)
    \<and> map_of (leasesByDevice (release_finish env l' b' found m)) d = None
    \<and> map_of (leasesByID (release_finish env l' b' found m)) = (map_of (leasesByID m))(ls_ID l := None)
    \<and> map_of (bindingsByDevice (release_finish env l' b' found m)) d
        = Some (b\<lparr>bd_Status := frozen_status found, bd_UpdatedAt := re_done env\<rparr>)
    \<and> grants (release_finish env l' b' found m) = grants m
    \<and> inflightByDevice (release_finish env l' b' found m) = inflightByDevice m
    \<and> (\<forall>i. map_of (bindingsByID (release_finish env l' b' found m)) i = None \<longleftrightarrow> map_of (bindingsByID m) i = None)"
proof -
  let ?b = "b\<lparr>bd_Status := frozen_status found, bd_UpdatedAt := re_done env\<rparr>"
  let ?m = "release_finish env l' b' found m"
  note ok = manager_invD(1) [OF inv]
  have bi: "map_of (bindingsByID m) (bd_ID b) = Some b" and dev: "bd_DeviceID b = d"
    using maps_okD(1,2) [OF ok b] by blast+
  have id: "bd_ID b \<noteq> []" using manager_invD(4) [OF inv b] by (auto simp: binding_identity_def)
  have run: "?m = m\<lparr>leasesByID := AList.delete (ls_ID l) (leasesByID m),
      leasesByDevice := AList.delete d (leasesByDevice m),
      bindingsByDevice := AList.update d ?b (bindingsByDevice m),
      bindingsByID := AList.update (bd_ID b) ?b (bindingsByID m)\<rparr>"
    using l l' bi b' id dev by (simp add: release_finish_def Let_def put_binding_def frozen_status_def)
  have fields: "map_of (bindingsByDevice ?m) = (map_of (bindingsByDevice m))(d \<mapsto> ?b)"
    "map_of (bindingsByID ?m) = (map_of (bindingsByID m))(bd_ID b \<mapsto> ?b)"
    "map_of (leasesByDevice ?m) = (map_of (leasesByDevice m))(d := None)"
    "map_of (leasesByID ?m) = (map_of (leasesByID m))(ls_ID l := None)"
    "grants ?m = grants m" "mg_ports ?m = mg_ports m" "mg_cfg ?m = mg_cfg m" "mg_registry ?m = mg_registry m"
    "mg_gateway ?m = mg_gateway m" "mg_closed ?m = mg_closed m" "inflightByDevice ?m = inflightByDevice m"
    by (simp_all add: run grants_eq)
  have dist: "distinct (map fst (bindingsByDevice ?m))" "distinct (map fst (leasesByID ?m))"
    using manager_invD(2,3) [OF inv] by (simp_all add: run distinct_update distinct_delete)
  have drop: "maps_ok (map_of (bindingsByDevice m)) (map_of (bindingsByID m)) (map_of (leasesByDevice ?m))
      (map_of (leasesByID ?m)) (grants m) {d}"
    unfolding fields by (rule maps_drop_lease [OF ok l]) simp
  have put: "maps_ok (map_of (bindingsByDevice ?m)) (map_of (bindingsByID ?m)) (map_of (leasesByDevice ?m))
      (map_of (leasesByID ?m)) (grants ?m) {d}"
    unfolding fields(1,2,5) by (rule maps_put_binding [OF drop b]) (simp_all add: dev)
  have "maps_ok (map_of (bindingsByDevice ?m)) (map_of (bindingsByID ?m)) (map_of (leasesByDevice ?m))
      (map_of (leasesByID ?m)) (grants ?m) {}"
  proof (rule maps_resume [OF put])
    show "map_of (leasesByDevice ?m) d = Some x \<Longrightarrow> lease_served (map_of (bindingsByDevice ?m)) (grants ?m) x" for x
      unfolding fields by simp
    show "map_of (bindingsByDevice ?m) d = Some x \<Longrightarrow> grants ?m (bd_ID x) = None \<and> bd_Status x \<noteq> BindingListening" for x
      unfolding fields using g by auto
  qed
  moreover have "ports_ok {} ?m"
  proof -
    note P = ports_okD [OF manager_invD(7) [OF inv]]
    have "bd_Port ?b = bd_Port b" by simp
    note S = ports_same [where bd = "map_of (bindingsByDevice m)", OF b this]
    show ?thesis unfolding ports_ok_def fields using P S by (simp add: P(4))
  qed
  moreover have "binding_identity x" if "map_of (bindingsByDevice ?m) e = Some x" for e x
    using manager_invD(4) [OF inv] b that unfolding fields(1)
    by (auto simp: binding_identity_def split: if_splits)
  moreover have "i \<noteq> []" if "map_of (leasesByID ?m) i = Some x" for i x
    using manager_invD(5) [OF inv] that unfolding fields(4) by (auto split: if_splits)
  ultimately have "manager_inv {} {} ?m"
    using dist manager_invD(6,8,9) [OF inv] by (intro manager_invI) (simp_all add: fields)
  moreover have "keeps m ?m"
    unfolding keeps_def fields using b by (auto simp: same_binding_def)
  moreover have "map_of (bindingsByID ?m) i = None \<longleftrightarrow> map_of (bindingsByID m) i = None" for i
    unfolding fields using bi by auto
  ultimately show ?thesis using fields(1,3,4,5,11) by simp
qed


lemma releaseLease_ok:
  assumes inv: "manager_inv {} {} m" and unbind: "re_unbind env" and r: "releaseLease env i m = (m', e)"
  shows "manager_inv {} {} m' \<and> keeps m m' \<and> inflightByDevice m' = inflightByDevice m
    \<and> (\<forall>k. map_of (bindingsByID m') k = None \<longleftrightarrow> map_of (bindingsByID m) k = None)
    \<and> (\<forall>k. map_of (leasesByID m) k = None \<longrightarrow> map_of (leasesByID m') k = None)
    \<and> (\<forall>k. k \<noteq> i \<longrightarrow> rel_option same_lease (map_of (leasesByID m) k) (map_of (leasesByID m') k))
    \<and> (\<forall>l. map_of (leasesByID m) i = Some l \<longrightarrow> ls_DeviceID l \<notin> set (inflightByDevice m) \<longrightarrow>
         map_of (leasesByID m') i = None \<and> map_of (leasesByDevice m') (ls_DeviceID l) = None
       \<and> (\<exists>b. map_of (bindingsByDevice m') (ls_DeviceID l) = Some b \<and> grants m' (bd_ID b) = None))"
proof (cases "map_of (leasesByID m) i")
  case None
  then have "m' = m" using r by (simp add: releaseLease_def)
  with inv None show ?thesis by simp
next
  case (Some l)
  note ok = manager_invD(1) [OF inv]
  define d where "d = ls_DeviceID l"
  have lid: "ls_ID l = i" and ld: "map_of (leasesByDevice m) d = Some l"
    using maps_okD(7,8) [OF ok Some] by (simp_all add: d_def)
  show ?thesis
  proof (cases "d \<in> set (inflightByDevice m)")
    case True
    then have "m' = m" using r Some by (simp add: releaseLease_def d_def)
    with inv True Some show ?thesis by (simp add: d_def)
  next
    case idle: False
    have "lease_served (map_of (bindingsByDevice m)) (grants m) l" using maps_okD(9) [OF ok ld] by blast
    then obtain b where b: "map_of (bindingsByDevice m) d = Some b" "bd_ID b = ls_BindingID l"
      unfolding lease_served_def d_def by blast
    have bi: "map_of (bindingsByID m) (bd_ID b) = Some b" "bd_DeviceID b = d"
      using maps_okD(1,2) [OF ok b(1)] by blast+
    have tb: "trim_space (bd_ID b) \<noteq> []" using manager_invD(4) [OF inv b(1)] by (simp add: binding_identity_def)
    define l1 where "l1 = l\<lparr>ls_Status := LeaseReleasing, ls_UpdatedAt := re_now env\<rparr>"
    have l1: "ls_ID l1 = i" "ls_DeviceID l1 = d" by (simp_all add: l1_def lid d_def)
    define m0 where "m0 = m\<lparr>inflightByDevice := List.insert d (inflightByDevice m)\<rparr>"
    define m1 where "m1 = put_lease l1 m0"
    define m2 where "m2 = run_events (re_windows env 0) m1"
    define m3 where "m3 = m2\<lparr>mg_gateway := map_option (\<lambda>g. fst (Unbind (bd_ID b) g)) (mg_gateway m2)\<rparr>"
    define m4 where "m4 = run_events (re_windows env 1) m3"
    define found where "found = FindDevice d (mg_registry m4)"
    define m5 where "m5 = run_events (re_windows env 2) m4"
    define m6 where "m6 = release_finish env l1 b found m5"
    define m7 where "m7 = run_events (re_windows env 3) m6"
    have m': "m' = clearInflight d (fst (saveBindings (re_save env) m7))"
      using r Some idle unbind b bi
      by (auto simp: releaseLease_def Let_def l1_def m0_def m1_def m2_def m3_def m4_def m5_def m6_def m7_def
          found_def d_def go_get_def split: prod.splits)
    have inv0: "manager_inv {} {d} m0" using inv_suspend [OF inv, of "{d}"] by (simp add: m0_def)
    have inv1: "manager_inv {} {d} m1" unfolding m1_def
      by (rule set_lease_inv [OF inv0])
        (use ld lid manager_invD(5) [OF inv Some] in \<open>simp_all add: l1 m0_def\<close>)
    from events_quiet [OF inv1] have inv2: "manager_inv {} {d} m2" and q2: "quiet m1 m2" by (simp_all add: m2_def)
    note Q2 = quietD [OF q2]
    have g3: "grants m3 = (grants m2)(bd_ID b := None)"
    proof (cases "mg_gateway m2")
      case None
      then show ?thesis by (auto simp: m3_def grants_eq fun_eq_iff)
    next
      case (Some g)
      then show ?thesis using Unbind_grants [OF tb, of g] by (simp add: m3_def grants_eq)
    qed
    have inv3: "manager_inv {} {d} m3"
    proof (cases "mg_gateway m2")
      case None
      then have "m3 = m2" by (simp add: m3_def)
      with inv2 show ?thesis by simp
    next
      case (Some g)
      have "gateway_ok (fst (Unbind (bd_ID b) g))"
        using gateway_apply_ok [OF manager_invD(6) [OF inv2 Some], of "GUnbind (bd_ID b)"] by simp
      moreover have "listener_grants (fst (Unbind (bd_ID b) g)) = (grants m2)(bd_ID b := None)"
        using Unbind_grants [OF tb, of g] Some by (simp add: grants_eq)
      moreover have "map_of (bindingsByID m2) (bd_ID b) = Some b"
        using bi(1) Q2(2) by (simp add: m1_def m0_def)
      ultimately have "manager_inv {} {d} (m2\<lparr>mg_gateway := Some (fst (Unbind (bd_ID b) g))\<rparr>)"
        using bi(2) by (intro set_gateway_inv [OF inv2]) simp_all
      with Some show ?thesis by (simp add: m3_def)
    qed
    from events_quiet [OF inv3] have inv4: "manager_inv {} {d} m4" and q4: "quiet m3 m4" by (simp_all add: m4_def)
    from events_quiet [OF inv4] have inv5: "manager_inv {} {d} m5" and q5: "quiet m4 m5" by (simp_all add: m5_def)
    have q: "quiet m3 m5" using mquiet_trans [OF q4 q5] .
    note Q = quietD [OF q]
    have same3: "bindingsByDevice m3 = bindingsByDevice m2" "bindingsByID m3 = bindingsByID m2"
      "leasesByDevice m3 = leasesByDevice m2" "leasesByID m3 = leasesByID m2"
      "inflightByDevice m3 = inflightByDevice m2" by (simp_all add: m3_def)
    have b5: "map_of (bindingsByDevice m5) d = Some b"
      using b(1) by (simp add: Q(1) same3 Q2(1) m1_def m0_def)
    have g5: "grants m5 (bd_ID b) = None" using Q(6) g3 by simp
    have "map_of (leasesByDevice m1) d = Some l1" using l1 by (simp add: m1_def put_lease_def)
    then obtain l2 where l2: "map_of (leasesByDevice m2) d = Some l2" "same_lease l1 l2" using Q2(10) by blast
    then obtain l5 where l5: "map_of (leasesByDevice m5) d = Some l5" "same_lease l2 l5"
      using Q(10) [of d l2] same3 by auto
    have id5: "ls_ID l5 = i" using l2(2) l5(2) l1 by (simp add: same_lease_def)
    have "ls_ID l1 = ls_ID l5" using id5 l1 by simp
    note F = finish_ok [OF inv5 b5 l5(1) g5 this l1(2) refl, where env = env and found = found, folded m6_def]
    then have inv6: "manager_inv {} {} m6" by blast
    from events_quiet [OF inv6] have inv7: "manager_inv {} {} m7" and q7: "quiet m6 m7" by (simp_all add: m7_def)
    note Q7 = quietD [OF q7]
    note S = saveBindings_result [OF inv7, of "re_save env"]
    have fields: "manager_inv {} {} m'" "leasesByDevice m' = leasesByDevice m7" "leasesByID m' = leasesByID m7"
      "bindingsByDevice m' = bindingsByDevice m7" "bindingsByID m' = bindingsByID m7" "grants m' = grants m7"
      "inflightByDevice m' = removeAll d (inflightByDevice m7)"
      using inv7 S by (simp_all add: m' clearInflight_def grants_eq split: if_splits)
    have "keeps m7 m'" using S by (simp add: m' clearInflight_def)
    moreover have "keeps m m1" by (auto simp: keeps_def m1_def m0_def)
    moreover have "keeps m2 m3" by (auto simp: keeps_def m3_def)
    ultimately have k: "keeps m m'"
      using quiet_keeps [OF q2] quiet_keeps [OF q] quiet_keeps [OF q7] F by (meson keeps_trans)
    have fl: "inflightByDevice m7 = List.insert d (inflightByDevice m)"
      using Q7(5) F Q(5) Q2(5) same3 by (simp add: m1_def m0_def)
    have dom2: "map_of (leasesByID m2) k = None \<longleftrightarrow> map_of (leasesByID m1) k = None" for k by (rule Q2(9))
    have dom1: "map_of (leasesByID m1) k = None \<longleftrightarrow> k \<noteq> i \<and> map_of (leasesByID m) k = None" for k
      by (simp add: m1_def m0_def put_lease_def l1)
    have dom7: "map_of (leasesByID m7) k = None \<longleftrightarrow> k = i \<or> map_of (leasesByID m5) k = None" for k
      using Q7(9) [of k] F id5 by simp
    have lease_dom: "map_of (leasesByID m') k = None" if "map_of (leasesByID m) k = None" for k
      using that dom7 Q(9) [of k] dom2 dom1 same3 fields(3) by metis
    have bind_dom: "map_of (bindingsByID m') k = None \<longleftrightarrow> map_of (bindingsByID m) k = None" for k
      using F Q7(2) Q(2) Q2(2) same3 fields(5) by (simp add: m1_def m0_def)
    have others: "rel_option same_lease (map_of (leasesByID m) k) (map_of (leasesByID m') k)" if k: "k \<noteq> i" for k
    proof -
      have "rel_option same_lease (map_of (leasesByID m1) k) (map_of (leasesByID m2) k)"
        "rel_option same_lease (map_of (leasesByID m3) k) (map_of (leasesByID m5) k)"
        "rel_option same_lease (map_of (leasesByID m6) k) (map_of (leasesByID m7) k)"
        using q2 q q7 unfolding quiet_def by blast+
      moreover have "map_of (leasesByID m1) k = map_of (leasesByID m) k"
        using k l1 by (simp add: m1_def m0_def put_lease_def)
      moreover have "map_of (leasesByID m6) k = map_of (leasesByID m5) k" using F k id5 by simp
      ultimately show ?thesis unfolding fields(3) same3(4) by (metis rel_option_trans_same)
    qed
    have "map_of (leasesByID m') i = None" using dom7 fields(3) by simp
    moreover have "map_of (leasesByDevice m') d = None" using F Q7(8) fields(2) by simp
    moreover have "map_of (bindingsByDevice m') d = Some (b\<lparr>bd_Status := frozen_status found, bd_UpdatedAt := re_done env\<rparr>)"
      using F Q7(1) fields(4) by simp
    moreover have "grants m' (bd_ID b) = None" using F Q7(6) fields(6) g5 by simp
    moreover have "inflightByDevice m' = inflightByDevice m"
      using fields(7) fl idle by (simp add: List.insert_def removeAll_id)
    ultimately show ?thesis
      using fields(1) k lease_dom bind_dom others Some by (simp add: d_def [symmetric])
  qed
qed

end
