(* ===== verification/Manager_Safety.thy ===== *)
theory Manager_Safety
  imports Manager_Invariant
begin

text \<open>
  The properties of the orchestration of remote access. A reachable manager is one that was built
  from an accepted configuration and a valid snapshot, was given a new gateway, and then ran any
  sequence of operations of its loop and of events around and inside them.
\<close>

section \<open>Reconciling bindings\<close>

definition same_but :: "string \<Rightarrow> Manager \<Rightarrow> Manager \<Rightarrow> bool" where
  "same_but d m m' \<longleftrightarrow> leasesByDevice m' = leasesByDevice m \<and> leasesByID m' = leasesByID m
     \<and> grants m' = grants m \<and> inflightByDevice m' = inflightByDevice m \<and> mg_registry m' = mg_registry m
     \<and> mg_gateway m' = mg_gateway m
     \<and> (\<forall>e. e \<noteq> d \<longrightarrow> map_of (bindingsByDevice m') e = map_of (bindingsByDevice m) e)
     \<and> (\<forall>i. map_of (bindingsByID m') i = None \<longleftrightarrow> map_of (bindingsByID m) i = None)"

lemma reconcile_binding_ok:
  assumes inv: "manager_inv {} {} m" and b: "map_of (bindingsByDevice m) d = Some b"
    and r: "reconcile_binding now (d, b) (m, c) = (m', c')"
  shows "manager_inv {} {} m' \<and> keeps m m' \<and> same_but d m m'
    \<and> (\<exists>b'. map_of (bindingsByDevice m') d = Some b'
         \<and> (map_of (leasesByDevice m) d = None \<longrightarrow> bd_Status b' = frozen_status (FindDevice d (mg_registry m))))"
proof -
  let ?s = "frozen_status (FindDevice d (mg_registry m))"
  let ?b = "b\<lparr>bd_Status := ?s, bd_UpdatedAt := now\<rparr>"
  have run: "reconcile_binding now (d, b) (m, c) = (if map_of (leasesByDevice m) d \<noteq> None then (m, c)
      else if bd_Status b = ?s then (m, c)
      else (m\<lparr>bindingsByDevice := AList.update d ?b (bindingsByDevice m),
              bindingsByID := AList.update (bd_ID ?b) ?b (bindingsByID m)\<rparr>, True))"
    by (simp only: reconcile_binding_def frozen_status_def Let_def prod.case)
  show ?thesis
  proof (cases "map_of (leasesByDevice m) d \<noteq> None \<or> bd_Status b = ?s")
    case True
    then have "m' = m" using r unfolding run by (auto split: if_split_asm)
    with True inv b show ?thesis by (auto simp: same_but_def)
  next
    case False
    then have none: "map_of (leasesByDevice m) d = None" by simp
    have m': "m' = m\<lparr>bindingsByDevice := AList.update d ?b (bindingsByDevice m),
        bindingsByID := AList.update (bd_ID b) ?b (bindingsByID m)\<rparr>"
      using r False unfolding run by auto
    note ok = manager_invD(1) [OF inv]
    have dev: "bd_DeviceID b = d" and bi: "map_of (bindingsByID m) (bd_ID b) = Some b"
      using maps_okD(1,2) [OF ok b] by blast+
    have fields: "map_of (bindingsByDevice m') = (map_of (bindingsByDevice m))(d \<mapsto> ?b)"
      "map_of (bindingsByID m') = (map_of (bindingsByID m))(bd_ID b \<mapsto> ?b)"
      "leasesByDevice m' = leasesByDevice m" "leasesByID m' = leasesByID m"
      "grants m' = grants m" "mg_ports m' = mg_ports m" "mg_cfg m' = mg_cfg m" "mg_registry m' = mg_registry m"
      "mg_gateway m' = mg_gateway m" "mg_closed m' = mg_closed m" "inflightByDevice m' = inflightByDevice m"
      by (simp_all add: m' grants_eq)
    have dist: "distinct (map fst (bindingsByDevice m'))"
      using manager_invD(2) [OF inv] by (simp add: m' distinct_update)
    have "maps_ok (map_of (bindingsByDevice m')) (map_of (bindingsByID m')) (map_of (leasesByDevice m'))
        (map_of (leasesByID m')) (grants m') {}"
      unfolding fields by (rule maps_put_binding [OF ok b]) (simp_all add: dev none)
    moreover have "ports_ok {} m'"
    proof -
      note P = ports_okD [OF manager_invD(7) [OF inv]]
      have "bd_Port ?b = bd_Port b" by simp
      note S = ports_same [where bd = "map_of (bindingsByDevice m)", OF b this]
      show ?thesis unfolding ports_ok_def fields using P S by (simp add: P(4))
    qed
    moreover have "binding_identity x" if "map_of (bindingsByDevice m') e = Some x" for e x
      using manager_invD(4) [OF inv] b that unfolding fields(1)
      by (auto simp: binding_identity_def split: if_splits)
    ultimately have "manager_inv {} {} m'"
      using dist manager_invD(3,5,6,8,9) [OF inv] by (intro manager_invI) (simp_all add: fields)
    moreover have "keeps m m'" unfolding keeps_def fields using b by (auto simp: same_binding_def)
    moreover have "same_but d m m'" unfolding same_but_def using fields bi by auto
    ultimately show ?thesis using fields(1) by simp
  qed
qed

lemma reconcile_fold_ok:
  assumes "manager_inv {} {} m" "distinct (map fst bs)"
    and "\<forall>(d, b) \<in> set bs. map_of (bindingsByDevice m) d = Some b"
    and "fold (reconcile_binding now) bs (m, c) = (m', c')"
  shows "manager_inv {} {} m' \<and> keeps m m' \<and> leasesByDevice m' = leasesByDevice m
    \<and> leasesByID m' = leasesByID m \<and> grants m' = grants m \<and> inflightByDevice m' = inflightByDevice m
    \<and> mg_registry m' = mg_registry m \<and> mg_gateway m' = mg_gateway m
    \<and> (\<forall>e. e \<notin> fst ` set bs \<longrightarrow> map_of (bindingsByDevice m') e = map_of (bindingsByDevice m) e)
    \<and> (\<forall>i. map_of (bindingsByID m') i = None \<longleftrightarrow> map_of (bindingsByID m) i = None)
    \<and> (\<forall>d \<in> fst ` set bs. \<exists>b. map_of (bindingsByDevice m') d = Some b
        \<and> (map_of (leasesByDevice m) d = None \<longrightarrow> bd_Status b = frozen_status (FindDevice d (mg_registry m))))"
  using assms
proof (induction bs arbitrary: m c)
  case (Cons e bs)
  obtain d b where e: "e = (d, b)" by (cases e)
  obtain m1 c1 where r: "reconcile_binding now (d, b) (m, c) = (m1, c1)" by fastforce
  have b: "map_of (bindingsByDevice m) d = Some b" using Cons.prems(3) by (simp add: e)
  note R = reconcile_binding_ok [OF Cons.prems(1) b r]
  have rest: "\<forall>(d, b) \<in> set bs. map_of (bindingsByDevice m1) d = Some b"
  proof (intro ballI, clarify)
    fix x y assume xy: "(x, y) \<in> set bs"
    then have "x \<noteq> d" using Cons.prems(2) by (force simp: e)
    with R xy Cons.prems(3) show "map_of (bindingsByDevice m1) x = Some y" by (auto simp: same_but_def e)
  qed
  have inv1: "manager_inv {} {} m1" using R by blast
  have dist: "distinct (map fst bs)" "d \<notin> fst ` set bs" using Cons.prems(2) by (simp_all add: e)
  have run: "fold (reconcile_binding now) bs (m1, c1) = (m', c')" using Cons.prems(4) r by (simp add: e)
  note IH = Cons.IH [OF inv1 dist(1) rest run]
  have S: "leasesByDevice m1 = leasesByDevice m" "leasesByID m1 = leasesByID m" "grants m1 = grants m"
    "inflightByDevice m1 = inflightByDevice m" "mg_registry m1 = mg_registry m" "mg_gateway m1 = mg_gateway m"
    "\<And>x. x \<noteq> d \<Longrightarrow> map_of (bindingsByDevice m1) x = map_of (bindingsByDevice m) x"
    "\<And>i. map_of (bindingsByID m1) i = None \<longleftrightarrow> map_of (bindingsByID m) i = None"
    using R by (simp_all add: same_but_def)
  have k: "keeps m m'" using IH R keeps_trans by blast
  have head: "map_of (bindingsByDevice m') d = map_of (bindingsByDevice m1) d" using IH dist(2) by blast
  show ?case
    using IH R k S head by (auto simp: e)
qed simp

lemma reconcileBindings_ok:
  assumes inv: "manager_inv {} {} m"
  shows "manager_inv {} {} (reconcileBindings now save m) \<and> keeps m (reconcileBindings now save m)
    \<and> leasesByDevice (reconcileBindings now save m) = leasesByDevice m
    \<and> leasesByID (reconcileBindings now save m) = leasesByID m
    \<and> grants (reconcileBindings now save m) = grants m
    \<and> inflightByDevice (reconcileBindings now save m) = inflightByDevice m
    \<and> (\<forall>i. map_of (bindingsByID (reconcileBindings now save m)) i = None \<longleftrightarrow> map_of (bindingsByID m) i = None)
    \<and> (\<forall>d b. map_of (bindingsByDevice (reconcileBindings now save m)) d = Some b \<longrightarrow>
         map_of (leasesByDevice m) d = None \<longrightarrow> bd_Status b = frozen_status (FindDevice d (mg_registry m)))"
proof -
  obtain m1 c1 where f: "fold (reconcile_binding now) (bindingsByDevice m) (m, False) = (m1, c1)" by fastforce
  have all: "\<forall>(d, b) \<in> set (bindingsByDevice m). map_of (bindingsByDevice m) d = Some b"
    using manager_invD(2) [OF inv] by (auto intro: map_of_is_SomeI)
  note F = reconcile_fold_ok [OF inv manager_invD(2) [OF inv] all f]
  have inv1: "manager_inv {} {} m1" using F by blast
  have st: "map_of (leasesByDevice m) d = None \<longrightarrow> bd_Status b = frozen_status (FindDevice d (mg_registry m))"
    if "map_of (bindingsByDevice m1) d = Some b" for d b
  proof (cases "d \<in> fst ` set (bindingsByDevice m)")
    case True
    with F that show ?thesis by fastforce
  next
    case False
    then have "map_of (bindingsByDevice m) d = None" by (simp add: map_of_eq_None_iff)
    with F False that show ?thesis by simp
  qed
  show ?thesis
  proof (cases c1)
    case False
    with f have "reconcileBindings now save m = m1" by (simp add: reconcileBindings_def)
    with F st show ?thesis by simp
  next
    case True
    with f have "reconcileBindings now save m = fst (saveBindings save m1)" by (simp add: reconcileBindings_def)
    with F st saveBindings_result [OF inv1, of save] saveBindings_keeps [OF inv1, of save] show ?thesis
      by (auto simp: grants_eq intro: keeps_trans)
  qed
qed

section \<open>Restoring the snapshot\<close>

lemma reserve_bounds:
  "reserve port p = (p', r) \<Longrightarrow> pp_minPort p' = pp_minPort p \<and> pp_maxPort p' = pp_maxPort p"
  by (auto simp: reserve_def takeBlockedLocked_def split: if_splits prod.splits bool.splits)

lemma reserve_free:
  assumes "pool_ok p" "pp_minPort p \<le> port" "port \<le> pp_maxPort p" "port \<notin> set (reserved p)"
  shows "\<exists>p'. reserve port p = (p', None)"
proof -
  have "port \<in> set (available p) \<union> set (blocked p)"
    using assms by (auto simp: pool_ok_def)
  then show ?thesis using assms(2-4) by (auto simp: reserve_def takeBlockedLocked_def)
qed

definition restored :: "Config \<Rightarrow> Binding \<Rightarrow> Binding" where
  "restored cfg b = b\<lparr>bd_PublicHost := cf_PublicHost cfg, bd_Status := BindingReserved\<rparr>"

lemma restored_fields [simp]:
  "bd_ID (restored cfg b) = bd_ID b" "bd_DeviceID (restored cfg b) = bd_DeviceID b"
  "bd_Port (restored cfg b) = bd_Port b" "bd_PublicHost (restored cfg b) = cf_PublicHost cfg"
  "bd_Status (restored cfg b) = BindingReserved" "bd_CreatedAt (restored cfg b) = bd_CreatedAt b"
  by (simp_all add: restored_def)

lemma restore_ok:
  assumes "manager_inv {} {} m" "mg_cfg m = cfg"
    and "list_all (binding_valid (cf_ProxyPortMin cfg) (cf_ProxyPortMax cfg)) bs"
    and "distinct (map bd_DeviceID bs)" "distinct (map bd_Port bs)" "distinct (map bd_ID bs)"
    and "\<forall>b \<in> set bs. map_of (bindingsByDevice m) (bd_DeviceID b) = None
      \<and> map_of (bindingsByID m) (bd_ID b) = None \<and> bd_Port b \<notin> set (reserved (mg_ports m))"
  shows "\<exists>m'. restore_bindings cfg bs m = Inr m' \<and> manager_inv {} {} m' \<and> mg_cfg m' = cfg
    \<and> mg_gateway m' = mg_gateway m \<and> leasesByDevice m' = leasesByDevice m \<and> leasesByID m' = leasesByID m
    \<and> mg_closed m' = mg_closed m \<and> inflightByDevice m' = inflightByDevice m \<and> mg_saved m' = mg_saved m
    \<and> mg_registry m' = mg_registry m
    \<and> map_of (bindingsByDevice m')
        = map_of (bindingsByDevice m) ++ map_of (map (\<lambda>b. (bd_DeviceID b, restored cfg b)) bs)"
  using assms
proof (induction bs arbitrary: m)
  case Nil
  then show ?case by simp
next
  case (Cons b bs)
  note inv = Cons.prems(1)
  note P = ports_okD [OF manager_invD(7) [OF inv]]
  have b: "binding_valid (cf_ProxyPortMin cfg) (cf_ProxyPortMax cfg) b"
    and fresh: "map_of (bindingsByDevice m) (bd_DeviceID b) = None"
      "map_of (bindingsByID m) (bd_ID b) = None" "bd_Port b \<notin> set (reserved (mg_ports m))"
    using Cons.prems(3,7) by simp_all
  obtain p where r: "reserve (bd_Port b) (mg_ports m) = (p, None)"
    using reserve_free [OF P(1), of "bd_Port b"] P(2,3) b fresh(3) Cons.prems(2) by (auto simp: binding_valid_def)
  note R = pool_ok_reserve [OF P(1) r] reserve_bounds [OF r]
  define m1 where "m1 = m\<lparr>mg_ports := p\<rparr>"
  define m2 where "m2 = put_binding (restored cfg b) m1"
  have "ports_ok {bd_Port b} m1"
    unfolding ports_ok_def using R P(2-6) by (simp add: m1_def)
  then have inv1: "manager_inv {bd_Port (restored cfg b)} {} m1"
    using manager_invD [OF inv] by (intro manager_invI) (simp_all add: m1_def grants_eq)
  have "trim_space (cf_PublicHost cfg) \<noteq> []"
    using manager_invD(8) [OF inv] Cons.prems(2) by (simp add: config_ok_def)
  then have "binding_identity (restored cfg b)"
    using b by (simp add: binding_identity_def binding_valid_def)
  then have inv2: "manager_inv {} {} m2" unfolding m2_def
    by (intro put_binding_ok(1) [OF inv1]) (use fresh in \<open>simp_all add: m1_def\<close>)
  have others: "\<forall>c \<in> set bs. map_of (bindingsByDevice m2) (bd_DeviceID c) = None
      \<and> map_of (bindingsByID m2) (bd_ID c) = None \<and> bd_Port c \<notin> set (reserved (mg_ports m2))"
  proof
    fix c assume c: "c \<in> set bs"
    have notin: "bd_DeviceID b \<notin> bd_DeviceID ` set bs" "bd_ID b \<notin> bd_ID ` set bs" "bd_Port b \<notin> bd_Port ` set bs"
      using Cons.prems(4-6) by simp_all
    have ne: "bd_DeviceID c \<noteq> bd_DeviceID b" "bd_ID c \<noteq> bd_ID b" "bd_Port c \<noteq> bd_Port b"
      using image_eqI [OF refl c, of bd_DeviceID] image_eqI [OF refl c, of bd_ID] image_eqI [OF refl c, of bd_Port] notin
      by auto
    have "map_of (bindingsByDevice m) (bd_DeviceID c) = None" "map_of (bindingsByID m) (bd_ID c) = None"
      "bd_Port c \<notin> set (reserved (mg_ports m))" using c Cons.prems(7) by simp_all
    then show "map_of (bindingsByDevice m2) (bd_DeviceID c) = None
      \<and> map_of (bindingsByID m2) (bd_ID c) = None \<and> bd_Port c \<notin> set (reserved (mg_ports m2))"
      using ne R(1) by (simp add: m2_def m1_def put_binding_def)
  qed
  have cfg2: "mg_cfg m2 = cfg" using Cons.prems(2) by (simp add: m2_def m1_def put_binding_def)
  have step: "restore_bindings cfg (b # bs) m = restore_bindings cfg bs m2"
    using r by (simp add: m2_def m1_def put_binding_def restored_def Let_def)
  obtain m' where m': "restore_bindings cfg bs m2 = Inr m'" "manager_inv {} {} m'" "mg_cfg m' = cfg"
    "mg_gateway m' = mg_gateway m2" "leasesByDevice m' = leasesByDevice m2" "leasesByID m' = leasesByID m2"
    "mg_closed m' = mg_closed m2" "inflightByDevice m' = inflightByDevice m2" "mg_saved m' = mg_saved m2"
    "mg_registry m' = mg_registry m2"
    "map_of (bindingsByDevice m')
        = map_of (bindingsByDevice m2) ++ map_of (map (\<lambda>b. (bd_DeviceID b, restored cfg b)) bs)"
    using Cons.IH [OF inv2 cfg2 _ _ _ _ others] Cons.prems(3-6) by auto
  have "bd_DeviceID b \<notin> dom (map_of (map (\<lambda>b. (bd_DeviceID b, restored cfg b)) bs))"
    using Cons.prems(4) by (auto simp: dom_map_of_conv_image_fst)
  then have "map_of (bindingsByDevice m2) ++ map_of (map (\<lambda>b. (bd_DeviceID b, restored cfg b)) bs)
      = map_of (bindingsByDevice m) ++ map_of (map (\<lambda>b. (bd_DeviceID b, restored cfg b)) (b # bs))"
    by (simp add: m2_def m1_def put_binding_def map_add_upd_left)
  moreover have "mg_gateway m2 = mg_gateway m" "leasesByDevice m2 = leasesByDevice m" "leasesByID m2 = leasesByID m"
    "mg_closed m2 = mg_closed m" "inflightByDevice m2 = inflightByDevice m" "mg_saved m2 = mg_saved m"
    "mg_registry m2 = mg_registry m"
    by (simp_all add: m2_def m1_def put_binding_def)
  ultimately show ?case unfolding step by (intro exI [of _ m'] conjI) (simp_all only: m')
qed

lemma empty_manager_ok:
  assumes "config_ok cfg" "dregistry_ok registry" "mg_cfg m = cfg" "mg_registry m = registry"
    "mg_ports m = newPortPool (cf_ProxyBindHost cfg) (cf_ProxyPortMin cfg) (cf_ProxyPortMax cfg)"
    "mg_gateway m = None" "bindingsByDevice m = []" "bindingsByID m = []" "leasesByDevice m = []" "leasesByID m = []"
  shows "manager_inv {} {} m"
proof (rule manager_invI)
  show "maps_ok (map_of (bindingsByDevice m)) (map_of (bindingsByID m)) (map_of (leasesByDevice m))
       (map_of (leasesByID m)) (grants m) {}"
    using assms by (simp add: maps_ok_def grants_def)
  show "ports_ok {} m"
    using assms pool_ok_new by (simp add: ports_ok_def newPortPool_def binding_ports_def ports_inj_def)
qed (use assms in simp_all)

lemma NewManager_ok:
  assumes "config_ok cfg" "dregistry_ok registry"
    and "bindings_valid (cf_ProxyPortMin cfg) (cf_ProxyPortMax cfg) bs" "distinct (map bd_ID bs)"
  shows "\<exists>m. NewManager registry (Inr bs) cfg = Inr m \<and> manager_inv {} {} m \<and> mg_cfg m = cfg
    \<and> mg_gateway m = None \<and> leasesByDevice m = [] \<and> leasesByID m = [] \<and> \<not> mg_closed m
    \<and> inflightByDevice m = [] \<and> mg_saved m = bs \<and> mg_registry m = registry
    \<and> map_of (bindingsByDevice m) = map_of (map (\<lambda>b. (bd_DeviceID b, restored cfg b)) bs)"
proof -
  define m0 where "m0 = \<lparr>mg_cfg = cfg, mg_registry = registry,
          mg_ports = newPortPool (cf_ProxyBindHost cfg) (cf_ProxyPortMin cfg) (cf_ProxyPortMax cfg),
          mg_closed = False, mg_closeErr = False, mg_gateway = None,
          bindingsByDevice = [], bindingsByID = [], leasesByDevice = [], leasesByID = [],
          inflightByDevice = [], lastRejectedReason = [], mg_saved = bs\<rparr>"
  have inv: "manager_inv {} {} m0" by (rule empty_manager_ok [OF assms(1,2)]) (simp_all add: m0_def)
  have bs: "list_all (binding_valid (cf_ProxyPortMin cfg) (cf_ProxyPortMax cfg)) bs"
    "distinct (map bd_DeviceID bs)" "distinct (map bd_Port bs)"
    using assms(3) by (simp_all add: bindings_valid_def)
  have this_fresh: "\<forall>b \<in> set bs. map_of (bindingsByDevice m0) (bd_DeviceID b) = None
      \<and> map_of (bindingsByID m0) (bd_ID b) = None \<and> bd_Port b \<notin> set (reserved (mg_ports m0))"
    by (simp add: m0_def newPortPool_def)
  have cfg: "mg_cfg m0 = cfg" by (simp add: m0_def)
  from restore_ok [OF inv cfg bs assms(4) this_fresh] obtain m where m: "restore_bindings cfg bs m0 = Inr m"
    "manager_inv {} {} m" "mg_cfg m = cfg" "mg_gateway m = None" "leasesByDevice m = []" "leasesByID m = []"
    "\<not> mg_closed m" "inflightByDevice m = []" "mg_saved m = bs" "mg_registry m = registry"
    "map_of (bindingsByDevice m) = map_of (map (\<lambda>b. (bd_DeviceID b, restored cfg b)) bs)"
    by (auto simp: m0_def)
  have "NewManager registry (Inr bs) cfg = Inr m" using m(1) by (simp add: NewManager_def m0_def)
  with m(2-) show ?thesis by blast
qed

section \<open>Reachable managers\<close>

text \<open>One step: an event, an acquisition with fresh ids, a release by the loop, a pass over the
  bindings. Whole passes of the loop are runs of these steps.\<close>

inductive manager_step :: "Manager \<Rightarrow> Manager \<Rightarrow> bool" where
  Happens: "manager_step m (apply_event ev m)"
| Acquires: "fresh_env env m \<Longrightarrow> manager_step m (fst (Acquire env request m))"
| Releases: "re_unbind env \<Longrightarrow> manager_step m (fst (releaseLease env i m))"
| Reconciles: "manager_step m (reconcileBindings now save m)"

inductive manager_run :: "Manager \<Rightarrow> Manager \<Rightarrow> bool" where
  no_step: "manager_run m m"
| one_more: "manager_run m m' \<Longrightarrow> manager_step m' m'' \<Longrightarrow> manager_run m m''"

inductive_cases manager_stepE: "manager_step m m'"

definition manager_start :: "DeviceRegistry \<Rightarrow> Binding list \<Rightarrow> Config \<Rightarrow> Manager \<Rightarrow> bool" where
  "manager_start registry bs cfg m \<longleftrightarrow> config_ok cfg \<and> dregistry_ok registry
     \<and> bindings_valid (cf_ProxyPortMin cfg) (cf_ProxyPortMax cfg) bs \<and> distinct (map bd_ID bs)
     \<and> (case NewManager registry (Inr bs) cfg of Inl _ \<Rightarrow> False | Inr m0 \<Rightarrow> m = SetGateway gw_New m0)"

definition manager_reachable :: "Manager \<Rightarrow> bool" where
  "manager_reachable m \<longleftrightarrow> (\<exists>registry bs cfg m0. manager_start registry bs cfg m0 \<and> manager_run m0 m)"

lemma step_ok:
  assumes inv: "manager_inv {} {} m" and step: "manager_step m m'"
  shows "manager_inv {} {} m' \<and> keeps m m' \<and> inflightByDevice m' = inflightByDevice m"
  using step
proof (cases rule: manager_step.cases)
  case (Happens ev)
  then show ?thesis
    using event_quiet [OF inv, of ev] quiet_keeps quietD(5) by blast
next
  case (Acquires env request)
  obtain m1 v e where r: "Acquire env request m = (m1, v, e)" by (metis surj_pair)
  then show ?thesis using Acquire_ok [OF inv Acquires(2) r] Acquires(1) by simp
next
  case (Releases env i)
  obtain m1 e where r: "releaseLease env i m = (m1, e)" by (metis surj_pair)
  then show ?thesis using releaseLease_ok [OF inv Releases(2) r] Releases(1) by simp
next
  case (Reconciles now save)
  then show ?thesis using reconcileBindings_ok [OF inv, of now save] by blast
qed

lemma run_ok:
  "manager_run m m' \<Longrightarrow> manager_inv {} {} m \<Longrightarrow>
    manager_inv {} {} m' \<and> keeps m m' \<and> inflightByDevice m' = inflightByDevice m"
proof (induction rule: manager_run.induct)
  case (one_more m m' m'')
  then show ?case using step_ok keeps_trans by metis
qed simp

lemma run_trans: "manager_run b c \<Longrightarrow> manager_run a b \<Longrightarrow> manager_run a c"
  by (induction rule: manager_run.induct) (auto intro: manager_run.intros)

lemma run_step: "manager_step a b \<Longrightarrow> manager_run a b"
  by (rule manager_run.one_more [OF manager_run.no_step])

lemma run_events_run: "manager_run m (run_events es m)"
proof (induction es arbitrary: m)
  case (Cons e es)
  show ?case
    using run_trans [OF Cons run_step [OF Happens, of m e]] by (simp add: run_events_def)
qed (simp add: run_events_def manager_run.no_step)

lemma start_ok:
  assumes "manager_start registry bs cfg m"
  shows "manager_inv {} {} m" "mg_gateway m = Some gw_New" "mg_cfg m = cfg" "leasesByDevice m = []"
    "inflightByDevice m = []" "\<not> mg_closed m" "mg_saved m = bs" "leasesByID m = []"
    "map_of (bindingsByDevice m) = map_of (map (\<lambda>b. (bd_DeviceID b, restored cfg b)) bs)" "mg_registry m = registry"
proof -
  have c: "config_ok cfg" "dregistry_ok registry" "bindings_valid (cf_ProxyPortMin cfg) (cf_ProxyPortMax cfg) bs"
    "distinct (map bd_ID bs)"
    using assms by (simp_all add: manager_start_def)
  obtain m0 where m0: "NewManager registry (Inr bs) cfg = Inr m0" "manager_inv {} {} m0" "mg_cfg m0 = cfg"
    "mg_gateway m0 = None" "leasesByDevice m0 = []" "leasesByID m0 = []" "\<not> mg_closed m0"
    "inflightByDevice m0 = []" "mg_saved m0 = bs" "mg_registry m0 = registry"
    "map_of (bindingsByDevice m0) = map_of (map (\<lambda>b. (bd_DeviceID b, restored cfg b)) bs)"
    using NewManager_ok [OF c] by blast
  have m: "m = SetGateway gw_New m0" using assms m0(1) by (simp add: manager_start_def)
  have none: "grants m = grants m0"
    by (rule ext) (simp add: m SetGateway_def grants_def m0(4) listener_grants_def gw_New_def)
  have gw: "gateway_ok gw_New" by (simp add: gateway_ok_def gw_New_def)
  show "manager_inv {} {} m"
    using manager_invD [OF m0(2)] none gw
    by (intro manager_invI) (simp_all add: m SetGateway_def ports_ok_def)
  show "mg_gateway m = Some gw_New" "mg_cfg m = cfg" "leasesByDevice m = []"
    "inflightByDevice m = []" "\<not> mg_closed m" "mg_saved m = bs" "leasesByID m = []"
    "map_of (bindingsByDevice m) = map_of (map (\<lambda>b. (bd_DeviceID b, restored cfg b)) bs)" "mg_registry m = registry"
    using m0 by (simp_all add: m SetGateway_def)
qed

lemma reach_ok:
  assumes "manager_reachable m"
  shows "manager_inv {} {} m" "inflightByDevice m = []" "\<not> mg_closed m" "mg_gateway m \<noteq> None"
proof -
  obtain registry bs cfg m0 where s: "manager_start registry bs cfg m0" and r: "manager_run m0 m"
    using assms unfolding manager_reachable_def by blast
  note S = start_ok [OF s] and R = run_ok [OF r start_ok(1) [OF s]]
  show "manager_inv {} {} m" "inflightByDevice m = []" using R S(5) by simp_all
  show "\<not> mg_closed m" "mg_gateway m \<noteq> None" using R S(2,6) by (simp_all add: keeps_def)
qed

end
