(* ===== verification/Manager_Properties.thy ===== *)
theory Manager_Properties
  imports Manager_Safety
begin

text \<open>
  What remote access promises, over the reachable managers: leases and open listeners correspond,
  ports and bindings are stable, a successful acquisition opens exactly the requested admission,
  a pass of the loop withdraws what has expired, a restart restores the bindings, and a close
  leaves no listener.
\<close>

section \<open>Leases and listeners\<close>

lemma served_listener:
  assumes "manager_inv {} {} m" "mg_gateway m = Some g" "map_of (leasesByDevice m) d = Some lease"
  shows "\<exists>b s. map_of (bindingsByDevice m) d = Some b \<and> bd_ID b = ls_BindingID lease
    \<and> bd_Status b = BindingListening \<and> ls_Status lease = LeaseActive
    \<and> map_of (gw_listeners g) (bd_ID b) = Some s \<and> \<not> li_closed s \<and> grant_of lease b (li_grant s)"
proof -
  note ok = manager_invD(1) [OF assms(1)]
  have dev: "ls_DeviceID lease = d" using maps_okD(5) [OF ok assms(3)] .
  have "lease_served (map_of (bindingsByDevice m)) (grants m) lease" using maps_okD(9) [OF ok assms(3)] by blast
  then obtain b gr where b: "ls_Status lease = LeaseActive" "map_of (bindingsByDevice m) d = Some b"
    "bd_ID b = ls_BindingID lease" "bd_Status b = BindingListening" "grants m (bd_ID b) = Some gr"
    "grant_of lease b gr"
    unfolding lease_served_def dev by blast
  then obtain s where s: "map_of (gw_listeners g) (bd_ID b) = Some s" "li_grant s = gr"
    using assms(2) by (auto simp: grants_eq listener_grants_def)
  have "listener_ok (bd_ID b) s" using listener_okD [OF manager_invD(6) [OF assms(1,2)] s(1)] .
  then have "\<not> li_closed s" by (simp add: listener_ok_def)
  with b s show ?thesis by blast
qed

lemma listener_leased:
  assumes "manager_inv {} {} m" "mg_gateway m = Some g" "map_of (gw_listeners g) i = Some s"
  shows "\<exists>b lease. map_of (bindingsByID m) i = Some b \<and> map_of (leasesByDevice m) (bd_DeviceID b) = Some lease"
  using maps_okD(10) [OF manager_invD(1) [OF assms(1)], of i "li_grant s"] assms(2,3)
  by (auto simp: grants_eq listener_grants_def)

text \<open>C4: Leases and listeners correspond. In every reachable manager, whatever the connections,
  the scanner and the console did between the locked sections, each lease is active and its
  device has a listening binding whose open listener carries the lease's own id, owner, limit and
  expiry on the binding's port; and each listener of the gateway belongs to the lease of a device.\<close>

theorem leases_match_listeners:
  assumes "manager_reachable m" and "mg_gateway m = Some g"
  shows "(\<forall>d lease. map_of (leasesByDevice m) d = Some lease \<longrightarrow>
      ls_Status lease = LeaseActive \<and> map_of (leasesByID m) (ls_ID lease) = Some lease
      \<and> (\<exists>b s. map_of (bindingsByDevice m) d = Some b \<and> bd_Status b = BindingListening
          \<and> bd_ID b = ls_BindingID lease \<and> map_of (gw_listeners g) (bd_ID b) = Some s \<and> \<not> li_closed s
          \<and> gr_LeaseID (li_grant s) = ls_ID lease \<and> gr_OwnerID (li_grant s) = ls_OwnerID lease
          \<and> gr_DeviceID (li_grant s) = d \<and> gr_MaxConnections (li_grant s) = ls_MaxConnections lease
          \<and> gr_ExpiresAt (li_grant s) = ls_ExpiresAt lease \<and> bd_Port (gr_Binding (li_grant s)) = bd_Port b))
    \<and> (\<forall>i s. map_of (gw_listeners g) i = Some s \<longrightarrow>
      (\<exists>b lease. map_of (bindingsByID m) i = Some b \<and> bd_ID b = i
        \<and> map_of (leasesByDevice m) (bd_DeviceID b) = Some lease \<and> ls_BindingID lease = i))"
proof (intro conjI allI impI)
  note inv = reach_ok(1) [OF assms(1)]
  note ok = manager_invD(1) [OF inv]
  {
    fix d lease assume l: "map_of (leasesByDevice m) d = Some lease"
    note S = served_listener [OF inv assms(2) l]
    from S show "ls_Status lease = LeaseActive" by blast
    show "map_of (leasesByID m) (ls_ID lease) = Some lease" using maps_okD(6) [OF ok l] .
    have "ls_DeviceID lease = d" using maps_okD(5) [OF ok l] .
    with S show "\<exists>b s. map_of (bindingsByDevice m) d = Some b \<and> bd_Status b = BindingListening
          \<and> bd_ID b = ls_BindingID lease \<and> map_of (gw_listeners g) (bd_ID b) = Some s \<and> \<not> li_closed s
          \<and> gr_LeaseID (li_grant s) = ls_ID lease \<and> gr_OwnerID (li_grant s) = ls_OwnerID lease
          \<and> gr_DeviceID (li_grant s) = d \<and> gr_MaxConnections (li_grant s) = ls_MaxConnections lease
          \<and> gr_ExpiresAt (li_grant s) = ls_ExpiresAt lease \<and> bd_Port (gr_Binding (li_grant s)) = bd_Port b"
      unfolding grant_of_def buildGrant_def by (metis Grant.select_convs)
  }
  fix i s assume s: "map_of (gw_listeners g) i = Some s"
  from listener_leased [OF inv assms(2) s] obtain b lease where b: "map_of (bindingsByID m) i = Some b"
    "map_of (leasesByDevice m) (bd_DeviceID b) = Some lease" by blast
  from served_listener [OF inv assms(2) b(2)] maps_okD(4) [OF ok b(1)] have "bd_ID b = ls_BindingID lease" by auto
  with b maps_okD(3) [OF ok b(1)] show "\<exists>b lease. map_of (bindingsByID m) i = Some b \<and> bd_ID b = i
        \<and> map_of (leasesByDevice m) (bd_DeviceID b) = Some lease \<and> ls_BindingID lease = i" by auto
qed

section \<open>Bindings\<close>

text \<open>C14: Bindings are stable. From the start of the process on, no operation, failed save or
  event makes a device lose its binding or changes the binding's id, port or host; every binding
  of the snapshot is there, no two devices share a port, and the ports the pool has reserved are
  exactly the ports of the bindings.\<close>

theorem bindings_are_stable:
  assumes "manager_start registry bs cfg m0" and "manager_run m0 m" and "manager_run m m'"
  shows "(\<forall>b \<in> set bs. \<exists>b'. map_of (bindingsByDevice m) (bd_DeviceID b) = Some b'
        \<and> bd_ID b' = bd_ID b \<and> bd_Port b' = bd_Port b \<and> bd_PublicHost b' = cf_PublicHost cfg)
    \<and> (\<forall>d b. map_of (bindingsByDevice m) d = Some b \<longrightarrow> (\<exists>b'. map_of (bindingsByDevice m') d = Some b'
        \<and> bd_ID b' = bd_ID b \<and> bd_Port b' = bd_Port b \<and> bd_PublicHost b' = bd_PublicHost b))
    \<and> (\<forall>d d' b b'. map_of (bindingsByDevice m) d = Some b \<longrightarrow> map_of (bindingsByDevice m) d' = Some b'
        \<longrightarrow> d \<noteq> d' \<longrightarrow> bd_Port b \<noteq> bd_Port b' \<and> bd_ID b \<noteq> bd_ID b')
    \<and> set (reserved (mg_ports m)) = bd_Port ` ran (map_of (bindingsByDevice m))"
proof (intro conjI allI impI ballI)
  note S = start_ok [OF assms(1)]
  note R = run_ok [OF assms(2) S(1)]
  then have inv: "manager_inv {} {} m" by blast
  note R' = run_ok [OF assms(3) inv]
  note ok = manager_invD(1) [OF inv] and P = ports_okD [OF manager_invD(7) [OF inv]]
  {
    fix b assume b: "b \<in> set bs"
    have "distinct (map bd_DeviceID bs)" using assms(1) by (simp add: manager_start_def bindings_valid_def)
    then have "map_of (map (\<lambda>b. (bd_DeviceID b, restored cfg b)) bs) (bd_DeviceID b) = Some (restored cfg b)"
      using b by (intro map_of_is_SomeI) (auto simp: comp_def)
    then have "map_of (bindingsByDevice m0) (bd_DeviceID b) = Some (restored cfg b)" using S(9) by simp
    with R obtain b' where "map_of (bindingsByDevice m) (bd_DeviceID b) = Some b'" "same_binding (restored cfg b) b'"
      unfolding keeps_def by blast
    then show "\<exists>b'. map_of (bindingsByDevice m) (bd_DeviceID b) = Some b'
        \<and> bd_ID b' = bd_ID b \<and> bd_Port b' = bd_Port b \<and> bd_PublicHost b' = cf_PublicHost cfg"
      by (simp add: same_binding_def)
  }
  fix d b assume b: "map_of (bindingsByDevice m) d = Some b"
  show "\<exists>b'. map_of (bindingsByDevice m') d = Some b'
        \<and> bd_ID b' = bd_ID b \<and> bd_Port b' = bd_Port b \<and> bd_PublicHost b' = bd_PublicHost b"
    using R' b unfolding keeps_def same_binding_def by blast
  fix d' b' assume b': "map_of (bindingsByDevice m) d' = Some b'" and ne: "d \<noteq> d'"
  show "bd_Port b \<noteq> bd_Port b'" using ports_injD [OF P(6) b b'] ne by blast
  show "bd_ID b \<noteq> bd_ID b'" using maps_okD(1,2) [OF ok b] maps_okD(1,2) [OF ok b'] ne by (metis option.inject)
next
  have "manager_inv {} {} m" using run_ok [OF assms(2) start_ok(1) [OF assms(1)]] by blast
  from ports_okD(4) [OF manager_invD(7) [OF this]]
  show "set (reserved (mg_ports m)) = bd_Port ` ran (map_of (bindingsByDevice m))"
    by (auto simp: binding_ports_def ran_def)
qed

section \<open>Acquisition\<close>

text \<open>C7: A successful acquisition opens exactly the requested admission. When \<open>Acquire\<close>
  reports success on a reachable manager, the device is online, it holds a lease of the request's
  owner, and its listener admits a connection exactly when the source is in one of the requested
  prefixes, the requested time to live has not passed since the call, and the requested number of
  connections is not reached.\<close>

theorem Acquire_opens_admission:
  assumes "manager_reachable m" and "fresh_env env m" and "Acquire env request m = (m', view, None)"
  shows "\<exists>req ps device lease b g s. normalizeAcquire (mg_cfg m) request = (req, Inr ps)
    \<and> ResolveOnlineUSB (ar_DeviceIdentifier req) (mg_registry m) = Some device
    \<and> map_of (leasesByDevice m') (dv_ID device) = Some lease \<and> ls_OwnerID lease = ar_OwnerID req
    \<and> map_of (bindingsByDevice m') (dv_ID device) = Some b
    \<and> mg_gateway m' = Some g \<and> map_of (gw_listeners g) (bd_ID b) = Some s
    \<and> (\<forall>conn address now. fst (snd (snd (admit conn address now s))) \<longleftrightarrow>
          now < ae_now env + ar_TTL req \<and> (\<exists>a. address = Some a \<and> prefixesContain ps a)
          \<and> int (length (li_connections s)) < ar_MaxConnections req)"
proof -
  note A = Acquire_ok [OF reach_ok(1) [OF assms(1)] assms(2,3)]
  then have inv: "manager_inv {} {} m'" by blast
  from A obtain req ps device where n: "normalizeAcquire (mg_cfg m) request = (req, Inr ps)"
    "ResolveOnlineUSB (ar_DeviceIdentifier req) (mg_registry m) = Some device"
    "exposed (dv_ID device) req (ae_now env) ps m'" by blast
  then obtain l b b0 where l: "map_of (leasesByDevice m') (dv_ID device) = Some l"
    "map_of (bindingsByDevice m') (dv_ID device) = Some b" "grants m' (bd_ID b) = Some (buildGrant l b0 ps)"
    "ls_OwnerID l = ar_OwnerID req" "ls_ExpiresAt l = ae_now env + ar_TTL req"
    "ls_MaxConnections l = ar_MaxConnections req"
    unfolding exposed_def by blast
  obtain g where g: "mg_gateway m' = Some g" using l(3) by (cases "mg_gateway m'") (simp_all add: grants_def)
  then obtain s where s: "map_of (gw_listeners g) (bd_ID b) = Some s" "li_grant s = buildGrant l b0 ps"
    using l(3) by (auto simp: grants_eq listener_grants_def)
  have "listener_ok (bd_ID b) s" using listener_okD [OF manager_invD(6) [OF inv g] s(1)] .
  then have "\<not> li_closed s" by (simp add: listener_ok_def)
  then have "\<forall>conn address now. fst (snd (snd (admit conn address now s))) \<longleftrightarrow>
          now < ae_now env + ar_TTL req \<and> (\<exists>a. address = Some a \<and> prefixesContain ps a)
          \<and> int (length (li_connections s)) < ar_MaxConnections req"
    using l s by (auto simp: admit_def Let_def buildGrant_def split: option.split)
  with n l g s show ?thesis by blast
qed

section \<open>Reconciliation\<close>

definition scan_free :: "manager_event list \<Rightarrow> bool" where
  "scan_free es \<longleftrightarrow> list_all (\<lambda>e. case e of EvScan _ _ \<Rightarrow> False | _ \<Rightarrow> True) es"

lemma scan_free_registry: "scan_free es \<Longrightarrow> mg_registry (run_events es m) = mg_registry m"
proof (induction es arbitrary: m)
  case (Cons e es)
  have "mg_registry (apply_event e m) = mg_registry m"
    using Cons.prems by (cases e)
      (auto simp: scan_free_def ConnectionOpened_def ConnectionClosed_def ConnectionRejected_def Let_def split: option.split)
  with Cons show ?case by (simp add: run_events_def scan_free_def)
qed (simp add: run_events_def)

lemma registry_kept [simp]:
  "mg_registry (put_lease l m) = mg_registry m" "mg_registry (put_binding b m) = mg_registry m"
  "mg_registry (clearInflight d m) = mg_registry m" "mg_registry (release_finish env l b found m) = mg_registry m"
  "mg_registry (fst (saveBindings ok m)) = mg_registry m"
  by (simp_all add: put_lease_def put_binding_def clearInflight_def release_finish_def saveBindings_def Let_def
      split: option.split sum.split)

lemma release_registry:
  assumes "\<forall>k. scan_free (re_windows env k)"
  shows "mg_registry (fst (releaseLease env i m)) = mg_registry m"
  using assms by (auto simp: releaseLease_def Let_def scan_free_registry case_prod_unfold split: option.split)

definition tick_quiet :: "tick_env \<Rightarrow> bool" where
  "tick_quiet env \<longleftrightarrow> (\<forall>k. scan_free (te_windows env k) \<and> (\<forall>j. scan_free (re_windows (te_release env k) j)))"

lemma lease_due_registry:
  "mg_registry m' = mg_registry m \<Longrightarrow> ls_ExpiresAt l' = ls_ExpiresAt l \<Longrightarrow> ls_DeviceID l' = ls_DeviceID l
    \<Longrightarrow> lease_due now m' l' = lease_due now m l"
  by (simp add: lease_due_def)

text \<open>One entry of the loop over the leases.\<close>

lemma reconcile_lease_ok:
  assumes inv: "manager_inv {} {} m" and idle: "inflightByDevice m = []"
    and env: "re_unbind (te_release env k)"
    and m1: "m1 = run_events (te_windows env k) m"
    and m2: "m2 = (case lease_due (te_now env) m1 lease of None \<Rightarrow> m1
           | Some _ \<Rightarrow> fst (releaseLease (te_release env k) (ls_ID lease) m1))"
  shows "manager_inv {} {} m2 \<and> keeps m m2 \<and> inflightByDevice m2 = []
    \<and> (\<forall>i. map_of (leasesByID m) i = None \<longrightarrow> map_of (leasesByID m2) i = None)
    \<and> (\<forall>i. i \<noteq> ls_ID lease \<longrightarrow> rel_option same_lease (map_of (leasesByID m) i) (map_of (leasesByID m2) i))
    \<and> (lease_due (te_now env) m1 lease = None \<longrightarrow>
        rel_option same_lease (map_of (leasesByID m) (ls_ID lease)) (map_of (leasesByID m2) (ls_ID lease)))
    \<and> (lease_due (te_now env) m1 lease \<noteq> None \<longrightarrow> map_of (leasesByID m2) (ls_ID lease) = None)
    \<and> (tick_quiet env \<longrightarrow> mg_registry m2 = mg_registry m)"
proof -
  from events_quiet [OF inv] have inv1: "manager_inv {} {} m1" and q: "quiet m m1" by (simp_all add: m1)
  have rel: "rel_option same_lease (map_of (leasesByID m) i) (map_of (leasesByID m1) i)" for i
    using q by (simp add: quiet_def)
  have reg1: "tick_quiet env \<Longrightarrow> mg_registry m1 = mg_registry m"
    by (simp add: m1 scan_free_registry tick_quiet_def)
  have idle1: "inflightByDevice m1 = []" using quietD(5) [OF q] idle by simp
  show ?thesis
  proof (cases "lease_due (te_now env) m1 lease")
    case None
    then have "m2 = m1" by (simp add: m2)
    with inv1 quiet_keeps [OF q] rel reg1 idle1 None quietD(9) [OF q] show ?thesis by simp
  next
    case (Some x)
    obtain m3 e where r: "releaseLease (te_release env k) (ls_ID lease) m1 = (m3, e)" by fastforce
    then have m3: "m2 = m3" using Some by (simp add: m2)
    note R = releaseLease_ok [OF inv1 env r]
    have gone: "map_of (leasesByID m3) (ls_ID lease) = None"
    proof (cases "map_of (leasesByID m1) (ls_ID lease)")
      case None
      with R show ?thesis by blast
    next
      case (Some l)
      with R idle1 show ?thesis by simp
    qed
    have old: "map_of (leasesByID m3) i = None" if "map_of (leasesByID m) i = None" for i
      using R that quietD(9) [OF q] by blast
    have oth: "rel_option same_lease (map_of (leasesByID m) i) (map_of (leasesByID m3) i)" if "i \<noteq> ls_ID lease" for i
      using R that rel rel_option_trans_same by blast
    have reg: "tick_quiet env \<longrightarrow> mg_registry m3 = mg_registry m"
      using release_registry [of "te_release env k" "ls_ID lease" m1] reg1 r by (simp add: tick_quiet_def)
    have "keeps m m3" using R quiet_keeps [OF q] keeps_trans by blast
    with R gone old oth reg idle1 Some show ?thesis by (simp add: m3)
  qed
qed

text \<open>The whole loop: what was due is gone, what was not is untouched, nothing is new.\<close>

lemma reconcile_leases_ok:
  assumes "manager_inv {} {} m" "inflightByDevice m = []" "\<forall>k. re_unbind (te_release env k)"
    and "distinct (map ls_ID ls)" "m' = reconcile_leases env k ls m"
  shows "manager_inv {} {} m' \<and> keeps m m' \<and> inflightByDevice m' = []
    \<and> (\<forall>i. map_of (leasesByID m) i = None \<longrightarrow> map_of (leasesByID m') i = None)
    \<and> (\<forall>i. map_of (leasesByID m') i \<noteq> None \<longrightarrow>
        rel_option same_lease (map_of (leasesByID m) i) (map_of (leasesByID m') i))
    \<and> (\<forall>l \<in> set ls. ls_ExpiresAt l \<le> te_now env \<longrightarrow> map_of (leasesByID m') (ls_ID l) = None)
    \<and> (tick_quiet env \<longrightarrow> mg_registry m' = mg_registry m
        \<and> (\<forall>l \<in> set ls. if lease_due (te_now env) m l = None
             then rel_option same_lease (map_of (leasesByID m) (ls_ID l)) (map_of (leasesByID m') (ls_ID l))
             else map_of (leasesByID m') (ls_ID l) = None))
    \<and> (\<forall>i. i \<notin> ls_ID ` set ls \<longrightarrow> rel_option same_lease (map_of (leasesByID m) i) (map_of (leasesByID m') i))"
  using assms
proof (induction ls arbitrary: m k)
  case Nil
  have refl: "rel_option same_lease x x" for x by (rule rel_same_refl)
  from Nil refl show ?case by simp
next
  case (Cons lease ls)
  define m1 where "m1 = run_events (te_windows env k) m"
  define m2 where "m2 = (case lease_due (te_now env) m1 lease of None \<Rightarrow> m1
           | Some _ \<Rightarrow> fst (releaseLease (te_release env k) (ls_ID lease) m1))"
  have unb: "re_unbind (te_release env k)" using Cons.prems(3) by blast
  note E = reconcile_lease_ok [OF Cons.prems(1,2) unb m1_def m2_def]
  have inv2: "manager_inv {} {} m2" and idle2: "inflightByDevice m2 = []" using E by blast+
  have m': "m' = reconcile_leases env (Suc k) ls m2"
    unfolding Cons.prems(5) by (simp only: reconcile_leases.simps Let_def m1_def m2_def)
  have dist: "distinct (map ls_ID ls)" "ls_ID lease \<notin> ls_ID ` set ls" using Cons.prems(4) by simp_all
  note IH = Cons.IH [OF inv2 idle2 Cons.prems(3) dist(1) m']
  let ?i = "ls_ID lease"
  have trans: "rel_option same_lease a b \<Longrightarrow> rel_option same_lease b c \<Longrightarrow> rel_option same_lease a c" for a b c
    by (rule rel_option_trans_same)
  have new: "map_of (leasesByID m') i = None" if "map_of (leasesByID m) i = None" for i
    using that E IH by blast
  have head: "rel_option same_lease (map_of (leasesByID m2) ?i) (map_of (leasesByID m') ?i)" using IH dist(2) by blast
  have due: "map_of (leasesByID m') ?i = None" if "lease_due (te_now env) m1 lease \<noteq> None"
    using that E IH by blast
  have live: "rel_option same_lease (map_of (leasesByID m) ?i) (map_of (leasesByID m') ?i)"
    if "lease_due (te_now env) m1 lease = None"
    using that E head trans by blast
  have left: "rel_option same_lease (map_of (leasesByID m) i) (map_of (leasesByID m') i)"
    if n: "map_of (leasesByID m') i \<noteq> None" for i
  proof (cases "i = ?i")
    case True
    with n due have "lease_due (te_now env) m1 lease = None" by metis
    from live [OF this] True show ?thesis by simp
  next
    case False
    with n E IH trans show ?thesis by blast
  qed
  have exp: "map_of (leasesByID m') (ls_ID l) = None" if "l \<in> set (lease # ls)" "ls_ExpiresAt l \<le> te_now env" for l
    using that IH due by (auto simp: lease_due_def)
  have reg: "mg_registry m' = mg_registry m" "mg_registry m1 = mg_registry m" "mg_registry m2 = mg_registry m" if "tick_quiet env"
    using that E IH by (simp_all add: m1_def scan_free_registry tick_quiet_def)
  have q: "if lease_due (te_now env) m l = None
             then rel_option same_lease (map_of (leasesByID m) (ls_ID l)) (map_of (leasesByID m') (ls_ID l))
             else map_of (leasesByID m') (ls_ID l) = None" if t: "tick_quiet env" and l: "l \<in> set (lease # ls)" for l
  proof (cases "l = lease")
    case True
    with due live reg(2) [OF t] lease_due_registry [of m1 m l l "te_now env"] show ?thesis by simp
  next
    case False
    then have l: "l \<in> set ls" using l by simp
    then have ne: "ls_ID l \<noteq> ?i" using dist(2) by (metis image_eqI)
    have "lease_due (te_now env) m2 l = lease_due (te_now env) m l" by (rule lease_due_registry [OF reg(3) [OF t]]) simp_all
    moreover have "rel_option same_lease (map_of (leasesByID m) (ls_ID l)) (map_of (leasesByID m2) (ls_ID l))"
      using E ne by blast
    moreover have "if lease_due (te_now env) m2 l = None
             then rel_option same_lease (map_of (leasesByID m2) (ls_ID l)) (map_of (leasesByID m') (ls_ID l))
             else map_of (leasesByID m') (ls_ID l) = None" using IH t l by blast
    ultimately show ?thesis using trans by (auto split: if_splits)
  qed
  have out: "rel_option same_lease (map_of (leasesByID m) i) (map_of (leasesByID m') i)"
    if "i \<notin> ls_ID ` set (lease # ls)" for i
    using that E IH trans by (metis image_eqI list.set_intros(1,2) image_insert insertCI list.simps(15))
  have "keeps m m'" using E IH keeps_trans by blast
  with IH new left exp reg(1) q out show ?case by blast
qed

lemma same_lease_expiry: "same_lease l l' \<Longrightarrow> ls_ExpiresAt l' = ls_ExpiresAt l"
  unfolding same_lease_def buildGrant_def by (metis Grant.select_convs(7))

lemma reconcile_ok:
  assumes inv: "manager_inv {} {} m" and idle: "inflightByDevice m = []"
    and unb: "\<forall>k. re_unbind (te_release env k)"
  shows "manager_inv {} {} (reconcile env m) \<and> keeps m (reconcile env m) \<and> inflightByDevice (reconcile env m) = []
    \<and> (\<forall>i l. map_of (leasesByID (reconcile env m)) i = Some l \<longrightarrow> te_now env < ls_ExpiresAt l
         \<and> (\<exists>l0. map_of (leasesByID m) i = Some l0 \<and> same_lease l0 l))
    \<and> (tick_quiet env \<longrightarrow> (\<forall>i l. map_of (leasesByID m) i = Some l \<longrightarrow>
         (map_of (leasesByID (reconcile env m)) i \<noteq> None \<longleftrightarrow> lease_due (te_now env) m l = None)))
    \<and> (tick_quiet env \<longrightarrow> (\<forall>d b. map_of (bindingsByDevice (reconcile env m)) d = Some b \<longrightarrow>
         map_of (leasesByDevice (reconcile env m)) d = None \<longrightarrow>
         bd_Status b = frozen_status (FindDevice d (mg_registry m))))"
proof -
  define ls where "ls = map snd (leasesByID m)"
  define m1 where "m1 = reconcile_leases env 0 ls m"
  define m2 where "m2 = run_events (te_windows env (length ls)) m1"
  have m': "reconcile env m = reconcileBindings (te_bindings env) (te_save env) m2"
    by (simp only: reconcile_def Let_def ls_def m1_def m2_def)
  note ok = manager_invD(1) [OF inv]
  have dk: "distinct (map fst (leasesByID m))" using manager_invD(3) [OF inv] .
  have key: "map_of (leasesByID m) i = Some l" if "(i, l) \<in> set (leasesByID m)" for i l
    using map_of_is_SomeI [OF dk that] .
  have "map ls_ID ls = map fst (leasesByID m)"
    unfolding ls_def map_map by (rule map_cong) (use key maps_okD(7) [OF ok] in \<open>fastforce simp: comp_def\<close>)+
  with dk have dist: "distinct (map ls_ID ls)" by simp
  note L = reconcile_leases_ok [OF inv idle unb dist m1_def]
  have inv1: "manager_inv {} {} m1" using L by blast
  from events_quiet [OF inv1] have inv2: "manager_inv {} {} m2" and q: "quiet m1 m2" by (simp_all add: m2_def)
  note B = reconcileBindings_ok [OF inv2, of "te_bindings env" "te_save env", folded m']
  have rel: "rel_option same_lease (map_of (leasesByID m1) i) (map_of (leasesByID (reconcile env m)) i)" for i
    using q B by (simp add: quiet_def)
  have mem: "l \<in> set ls \<and> ls_ID l = i" if "map_of (leasesByID m) i = Some l" for i l
    using map_of_SomeD [OF that] maps_okD(7) [OF ok that] by (force simp: ls_def)
  have left: "te_now env < ls_ExpiresAt l \<and> (\<exists>l0. map_of (leasesByID m) i = Some l0 \<and> same_lease l0 l)"
    if l: "map_of (leasesByID (reconcile env m)) i = Some l" for i l
  proof -
    obtain l1 where l1: "map_of (leasesByID m1) i = Some l1" "same_lease l1 l"
      using rel [of i] l by (auto simp: option_rel_Some2)
    with L have "rel_option same_lease (map_of (leasesByID m) i) (Some l1)" by (metis option.distinct(1))
    then obtain l0 where l0: "map_of (leasesByID m) i = Some l0" "same_lease l0 l1" by (auto simp: option_rel_Some2)
    have "same_lease l0 l" using same_lease_trans l0(2) l1(2) by blast
    moreover have "\<not> ls_ExpiresAt l0 \<le> te_now env" using L mem [OF l0(1)] l1(1) by (metis option.distinct(1))
    ultimately show ?thesis using l0 same_lease_expiry by fastforce
  qed
  have due: "map_of (leasesByID (reconcile env m)) i \<noteq> None \<longleftrightarrow> lease_due (te_now env) m l = None"
    if t: "tick_quiet env" and l: "map_of (leasesByID m) i = Some l" for i l
  proof -
    have "if lease_due (te_now env) m l = None
             then rel_option same_lease (map_of (leasesByID m) i) (map_of (leasesByID m1) i)
             else map_of (leasesByID m1) i = None"
      using L t mem [OF l] by blast
    then show ?thesis using rel [of i] l by (auto split: if_splits simp: option_rel_Some1)
  qed
  have reg: "mg_registry m2 = mg_registry m" if "tick_quiet env"
    using that L by (simp add: m2_def scan_free_registry tick_quiet_def)
  have k: "keeps m (reconcile env m)" using L quiet_keeps [OF q] B by (meson keeps_trans)
  have i: "inflightByDevice (reconcile env m) = []" using L quietD(5) [OF q] B by simp
  have st: "bd_Status b = frozen_status (FindDevice d (mg_registry m))"
    if "tick_quiet env" "map_of (bindingsByDevice (reconcile env m)) d = Some b"
      "map_of (leasesByDevice (reconcile env m)) d = None" for d b
    using B that reg by simp
  have inv': "manager_inv {} {} (reconcile env m)" using B by blast
  show ?thesis
    by (intro conjI allI impI inv' k i due st left [THEN conjunct1] left [THEN conjunct2]) assumption+
qed

text \<open>C6: A pass of the loop withdraws what is over. After \<open>reconcile\<close> on a reachable manager no
  lease and no listener has expired at the time of the pass, whatever happened in between; and
  when no scan came in between, a lease survives exactly when it had not expired and its device
  is online over USB, and a device without a lease has its binding reserved when it is online
  and frozen when it is not.\<close>

theorem reconcile_withdraws:
  assumes "manager_reachable m" and "\<forall>k. re_unbind (te_release env k)"
    and "mg_gateway (reconcile env m) = Some g"
  shows "(\<forall>d lease. map_of (leasesByDevice (reconcile env m)) d = Some lease \<longrightarrow> te_now env < ls_ExpiresAt lease)
    \<and> (\<forall>i s. map_of (gw_listeners g) i = Some s \<longrightarrow> te_now env < gr_ExpiresAt (li_grant s))
    \<and> (tick_quiet env \<longrightarrow> (\<forall>d lease. map_of (leasesByDevice m) d = Some lease \<longrightarrow>
         (map_of (leasesByDevice (reconcile env m)) d \<noteq> None \<longleftrightarrow> te_now env < ls_ExpiresAt lease
            \<and> (\<exists>device. FindDevice d (mg_registry m) = Some device \<and> online_usb device))))
    \<and> (tick_quiet env \<longrightarrow> (\<forall>d b. map_of (bindingsByDevice (reconcile env m)) d = Some b \<longrightarrow>
         map_of (leasesByDevice (reconcile env m)) d = None \<longrightarrow>
         bd_Status b = (case FindDevice d (mg_registry m) of None \<Rightarrow> BindingFrozen
           | Some device \<Rightarrow> if online_usb device then BindingReserved else BindingFrozen)))"
proof -
  note reach = reach_ok [OF assms(1)]
  note R = reconcile_ok [OF reach(1,2) assms(2)]
  then have inv: "manager_inv {} {} (reconcile env m)" by blast
  note ok = manager_invD(1) [OF reach(1)] and ok' = manager_invD(1) [OF inv]
  have a: "te_now env < ls_ExpiresAt l" if "map_of (leasesByDevice (reconcile env m)) d = Some l" for d l
    using R maps_okD(6) [OF ok' that] by blast
  have b: "te_now env < gr_ExpiresAt (li_grant s)" if s: "map_of (gw_listeners g) i = Some s" for i s
  proof -
    from listener_leased [OF inv assms(3) s] obtain b l where b: "map_of (bindingsByID (reconcile env m)) i = Some b"
      "map_of (leasesByDevice (reconcile env m)) (bd_DeviceID b) = Some l" by blast
    from served_listener [OF inv assms(3) b(2)] maps_okD(3,4) [OF ok' b(1)] s
    have "grant_of l b (li_grant s)" by auto
    then have "gr_ExpiresAt (li_grant s) = ls_ExpiresAt l" unfolding grant_of_def buildGrant_def by (metis Grant.select_convs(7))
    with a [OF b(2)] show ?thesis by simp
  qed
  have c: "map_of (leasesByDevice (reconcile env m)) d \<noteq> None \<longleftrightarrow> lease_due (te_now env) m l = None"
    if t: "tick_quiet env" and l: "map_of (leasesByDevice m) d = Some l" for d l
  proof -
    have i: "map_of (leasesByID m) (ls_ID l) = Some l" "ls_DeviceID l = d" using maps_okD(5,6) [OF ok l] by blast+
    have "map_of (leasesByDevice (reconcile env m)) d \<noteq> None
        \<longleftrightarrow> map_of (leasesByID (reconcile env m)) (ls_ID l) \<noteq> None"
    proof
      assume "map_of (leasesByDevice (reconcile env m)) d \<noteq> None"
      then obtain l' where l': "map_of (leasesByDevice (reconcile env m)) d = Some l'" by auto
      from maps_okD(5,6) [OF ok' l'] have k: "map_of (leasesByID (reconcile env m)) (ls_ID l') = Some l'" "ls_DeviceID l' = d"
        by blast+
      with R obtain l0 where l0: "map_of (leasesByID m) (ls_ID l') = Some l0" "same_lease l0 l'" by blast
      then have "ls_DeviceID l0 = d" "ls_ID l0 = ls_ID l'" using k by (simp_all add: same_lease_def)
      with maps_okD(8) [OF ok l0(1)] l have "ls_ID l = ls_ID l'" by simp
      with k show "map_of (leasesByID (reconcile env m)) (ls_ID l) \<noteq> None" by simp
    next
      assume "map_of (leasesByID (reconcile env m)) (ls_ID l) \<noteq> None"
      then obtain l' where l': "map_of (leasesByID (reconcile env m)) (ls_ID l) = Some l'" by auto
      with R i have "same_lease l l'" by (metis option.inject)
      then have "ls_DeviceID l' = d" using i by (simp add: same_lease_def)
      with maps_okD(8) [OF ok' l'] show "map_of (leasesByDevice (reconcile env m)) d \<noteq> None" by simp
    qed
    with R t i show ?thesis by blast
  qed
  have due: "lease_due (te_now env) m l = None \<longleftrightarrow> te_now env < ls_ExpiresAt l
      \<and> (\<exists>device. FindDevice (ls_DeviceID l) (mg_registry m) = Some device \<and> online_usb device)" for l
    by (auto simp: lease_due_def split: option.split)
  have c': "map_of (leasesByDevice (reconcile env m)) d \<noteq> None \<longleftrightarrow> te_now env < ls_ExpiresAt l
      \<and> (\<exists>device. FindDevice d (mg_registry m) = Some device \<and> online_usb device)"
    if "tick_quiet env" "map_of (leasesByDevice m) d = Some l" for d l
    using c [OF that] due [of l] maps_okD(5) [OF ok that(2)] by metis
  have e: "bd_Status b = (case FindDevice d (mg_registry m) of None \<Rightarrow> BindingFrozen
           | Some device \<Rightarrow> if online_usb device then BindingReserved else BindingFrozen)"
    if "tick_quiet env" "map_of (bindingsByDevice (reconcile env m)) d = Some b"
      "map_of (leasesByDevice (reconcile env m)) d = None" for d b
    using R that unfolding frozen_status_def by blast
  show ?thesis
    by (intro conjI allI impI a b c' e) assumption+
qed

section \<open>Restart\<close>

lemma device_binding:
  assumes "manager_inv pp xd m"
  shows "b \<in> snd ` set (bindingsByDevice m) \<longleftrightarrow> map_of (bindingsByDevice m) (bd_DeviceID b) = Some b"
proof
  assume "b \<in> snd ` set (bindingsByDevice m)"
  then obtain d where d: "map_of (bindingsByDevice m) d = Some b"
    using manager_invD(2) [OF assms] by (auto intro: map_of_is_SomeI)
  with maps_okD(1) [OF manager_invD(1) [OF assms] d] show "map_of (bindingsByDevice m) (bd_DeviceID b) = Some b" by simp
next
  assume "map_of (bindingsByDevice m) (bd_DeviceID b) = Some b"
  from map_of_SomeD [OF this] show "b \<in> snd ` set (bindingsByDevice m)" by force
qed

lemma snapshot_map:
  assumes inv: "manager_inv pp xd m" and dist: "distinct (map bd_DeviceID bs)"
    and mem: "set bs = (\<lambda>b. b\<lparr>bd_Status := BindingReserved\<rparr>) ` snd ` set (bindingsByDevice m)"
  shows "map_of (map (\<lambda>b. (bd_DeviceID b, restored cfg b)) bs)
    = map_option (restored cfg) \<circ> map_of (bindingsByDevice m)"
proof
  fix d
  have keys: "distinct (map fst (map (\<lambda>b. (bd_DeviceID b, restored cfg b)) bs))" using dist by (simp add: comp_def)
  have same: "restored cfg (b\<lparr>bd_Status := BindingReserved\<rparr>) = restored cfg b" for b by (simp add: restored_def)
  show "map_of (map (\<lambda>b. (bd_DeviceID b, restored cfg b)) bs) d = (map_option (restored cfg) \<circ> map_of (bindingsByDevice m)) d"
  proof (cases "map_of (bindingsByDevice m) d")
    case (Some b)
    have d: "bd_DeviceID b = d" using maps_okD(1) [OF manager_invD(1) [OF inv] Some] .
    then have "b\<lparr>bd_Status := BindingReserved\<rparr> \<in> set bs" using Some device_binding [OF inv, of b] mem by blast
    from image_eqI [OF refl this, of "\<lambda>b. (bd_DeviceID b, restored cfg b)"]
    have "(d, restored cfg b) \<in> set (map (\<lambda>b. (bd_DeviceID b, restored cfg b)) bs)"
      by (simp add: d same)
    from map_of_is_SomeI [OF keys this] Some show ?thesis by simp
  next
    case None
    have "bd_DeviceID b \<noteq> d" if "b \<in> set bs" for b
    proof
      assume d: "bd_DeviceID b = d"
      obtain c where c: "c \<in> snd ` set (bindingsByDevice m)" "b = c\<lparr>bd_Status := BindingReserved\<rparr>"
        using \<open>b \<in> set bs\<close> mem by blast
      with device_binding [OF inv, of c] d None show False by simp
    qed
    then have "d \<notin> bd_DeviceID ` set bs" by blast
    then have "map_of (map (\<lambda>b. (bd_DeviceID b, restored cfg b)) bs) d = None"
      by (simp add: map_of_eq_None_iff image_image)
    with None show ?thesis by simp
  qed
qed

lemma stored_form_set: "set (stored_form bs) = (\<lambda>b. b\<lparr>bd_Status := BindingReserved\<rparr>) ` set bs"
  by (simp add: stored_form_def)

lemma snapshot_ids:
  assumes inv: "manager_inv pp xd m"
  shows "distinct (map bd_ID (stored_form (sort_key bd_DeviceID (map snd (bindingsByDevice m)))))"
proof -
  let ?bs = "map snd (bindingsByDevice m)"
  have dd: "distinct (map bd_DeviceID ?bs)"
  proof -
    have "map bd_DeviceID ?bs = map fst (bindingsByDevice m)"
      unfolding map_map
      by (rule map_cong) (use maps_okD(1) [OF manager_invD(1) [OF inv]] map_of_is_SomeI [OF manager_invD(2) [OF inv]] in
        \<open>fastforce simp: comp_def\<close>)+
    then show ?thesis using manager_invD(2) [OF inv] by (simp only:)
  qed
  have "inj_on bd_ID (set ?bs)"
  proof (rule inj_onI)
    fix a b assume ab: "a \<in> set ?bs" "b \<in> set ?bs" "bd_ID a = bd_ID b"
    then have "map_of (bindingsByDevice m) (bd_DeviceID a) = Some a" "map_of (bindingsByDevice m) (bd_DeviceID b) = Some b"
      using device_binding [OF inv] by simp_all
    with ab(3) maps_okD(2) [OF manager_invD(1) [OF inv]] show "a = b" by (metis option.inject)
  qed
  moreover have "distinct ?bs" using dd by (rule distinct_map [THEN iffD1, THEN conjunct1])
  ultimately have di: "distinct (map bd_ID ?bs)" by (simp only: distinct_map simp_thms)
  have "mset (map bd_ID (stored_form (sort_key bd_DeviceID ?bs))) = mset (map bd_ID ?bs)"
    by (simp add: stored_form_def multiset.map_comp comp_def)
  with di show ?thesis using mset_eq_imp_distinct_iff by blast
qed

text \<open>A restart restores every binding. When the manager saves its bindings in any reachable
  state and the save reports success, then a new process that loads the directory under the same
  configuration starts, and each device has again its binding with the same id and port, reserved
  and announced under the configured public host, and no other device has one.\<close>

theorem restart_restores_bindings:
  assumes "manager_reachable m"
    and "Save jc (cf_ProxyPortMin (mg_cfg m)) (cf_ProxyPortMax (mg_cfg m)) e
      (sort_key bd_DeviceID (map snd (bindingsByDevice m))) d = (ops, None)"
    and "codec_reads jc \<lparr>sn_Version = bindingSchemaVersion,
      sn_Bindings = stored_form (sort_key bd_DeviceID (map snd (bindingsByDevice m)))\<rparr>"
    and "dregistry_ok registry"
  shows "\<exists>m'. NewManager registry (Load jc (cf_ProxyPortMin (mg_cfg m)) (cf_ProxyPortMax (mg_cfg m)) (fs_run ops d))
        (mg_cfg m) = Inr m'
    \<and> map_of (bindingsByDevice m') = (\<lambda>device. map_option (\<lambda>b. b\<lparr>bd_PublicHost := cf_PublicHost (mg_cfg m),
        bd_Status := BindingReserved\<rparr>) (map_of (bindingsByDevice m) device))"
proof -
  note inv = reach_ok(1) [OF assms(1)]
  let ?cfg = "mg_cfg m" and ?bs = "stored_form (sort_key bd_DeviceID (map snd (bindingsByDevice m)))"
  have load: "Load jc (cf_ProxyPortMin ?cfg) (cf_ProxyPortMax ?cfg) (fs_run ops d) = Inr ?bs"
    using Save_Load [OF assms(2,3)] .
  have v: "bindings_valid (cf_ProxyPortMin ?cfg) (cf_ProxyPortMax ?cfg) ?bs" using snapshot_valid [OF inv] by simp
  have mem: "set ?bs = (\<lambda>b. b\<lparr>bd_Status := BindingReserved\<rparr>) ` snd ` set (bindingsByDevice m)"
    by (simp add: stored_form_set)
  have dd: "distinct (map bd_DeviceID ?bs)" using v by (simp add: bindings_valid_def)
  from NewManager_ok [OF manager_invD(8) [OF inv] assms(4) v snapshot_ids [OF inv]] obtain m' where
    "NewManager registry (Inr ?bs) ?cfg = Inr m'"
    "map_of (bindingsByDevice m') = map_of (map (\<lambda>b. (bd_DeviceID b, restored ?cfg b)) ?bs)" by blast
  with load snapshot_map [OF inv dd mem, of ?cfg] show ?thesis
    by (simp add: restored_def [abs_def] comp_def)
qed

end
