(* ===== verification/Config_Properties.thy ===== *)
theory Config_Properties
  imports Manager_Invariant
begin

text \<open>
  What an accepted configuration guarantees to the rest of the program, and that the loop's own
  requests are accepted under it.
\<close>

section \<open>The public host\<close>

lemma ip4_string_solid: "list_all ascii_solid (ip4_string ip)"
proof -
  have "list_all ascii_solid (join_with ''.'' (map (\<lambda>b. itoa_nat (unat b)) ip))"
  proof (induction ip)
    case (Cons b ip)
    have "list_all ascii_solid (itoa_nat (unat b))"
      using itoa_nat_digits ascii_solid_digit by (simp add: list_all_iff)
    moreover have "ascii_solid (CHR ''.'')" by code_simp
    ultimately show ?case using Cons by (cases ip) simp_all
  qed simp
  then show ?thesis by (simp add: ip4_string_def)
qed

lemma ip4_string_ne: "ip \<noteq> [] \<Longrightarrow> trim_space (ip4_string ip) \<noteq> []"
proof -
  assume "ip \<noteq> []"
  then have "ip4_string ip \<noteq> []" by (cases ip rule: list.exhaust; cases "tl ip") (auto simp: ip4_string_def)
  then show ?thesis using trim_space_all [OF ip4_string_solid] by simp
qed

lemma To4_ne: "To4 ip = Some v \<Longrightarrow> v \<noteq> []"
  by (auto simp: To4_def split: if_splits)

lemma candidates_ne: "ip \<in> set (listAdvertisableIPv4 env) \<Longrightarrow> ip \<noteq> []"
  by (auto simp: listAdvertisableIPv4_def List.map_filter_def dest: To4_ne split: option.splits if_splits)

lemma outbound_ne: "outboundIPv4 env \<noteq> [] \<Longrightarrow> trim_space (outboundIPv4 env) \<noteq> []"
  by (auto simp: outboundIPv4_def split: option.splits dest: ip4_string_ne [OF To4_ne])

lemma detectPublicHost_ne: "trim_space (detectPublicHost env) \<noteq> []"
proof -
  have fallback: "trim_space ''127.0.0.1'' \<noteq> []" by code_simp
  have "trim_space (ip4_string ip) \<noteq> []" if "find IsPrivate4 (listAdvertisableIPv4 env) = Some ip" for ip
    using that by (intro ip4_string_ne candidates_ne [of _ env]) (auto simp: find_Some_iff)
  moreover have "trim_space (ip4_string ip) \<noteq> []" if "listAdvertisableIPv4 env = ip # ips" for ip ips
    using that by (intro ip4_string_ne candidates_ne [of _ env]) simp
  ultimately show ?thesis
    using outbound_ne [of env] fallback
    by (auto simp: detectPublicHost_def Let_def split: option.split list.split)
qed

lemma resolvePublicHost_ne: "trim_space (resolvePublicHost env v) \<noteq> []"
  by (simp add: resolvePublicHost_def Let_def detectPublicHost_ne)

section \<open>The sources\<close>

lemma default_trimmed: "list_all (\<lambda>c. trim_space c = c) defaultCIDRs"
  by code_simp

lemma envCSV_trimmed:
  "list_all (\<lambda>c. trim_space c = c) fallback \<Longrightarrow> list_all (\<lambda>c. trim_space c = c) (envCSV env name fallback)"
  by (auto simp: envCSV_def Let_def list_all_iff)

lemma config_Load_parts:
  assumes "config_Load env = Inr cfg"
  obtains ns maxFile maxTemp ds where "config_validate (config_build env ns maxFile maxTemp ds) = None"
    "cfg = (config_build env ns maxFile maxTemp ds)\<lparr>cf_HostAuth := (case ParseHostAuth
       (cf_HostAuth (config_build env ns maxFile maxTemp ds)) of Inl _ \<Rightarrow> [] | Inr mode \<Rightarrow> mode)\<rparr>"
  using assms by (auto simp: config_Load_def Let_def split: sum.split_asm option.split_asm)

lemma config_validate_None:
  assumes "config_validate cfg = None"
  shows "0 < cf_ProxyPortMin cfg" "cf_ProxyPortMin cfg \<le> cf_ProxyPortMax cfg" "cf_ProxyPortMax cfg \<le> 65535"
    "0 < cf_MaxConnections cfg" "0 < cf_MaxChannelsPerConnection cfg" "0 < cf_LeaseMaxTTL cfg"
    "0 < cf_DevicePollInterval cfg" "cf_DevicePollInterval cfg \<le> cf_DeviceStaleAfter cfg"
    "0 < cf_HandshakeTimeout cfg" "0 < cf_MaxFileBytes cfg" "cf_MaxFileBytes cfg \<le> cf_MaxTempBytes cfg"
    "cf_AllowedSourceCIDRs cfg \<noteq> []" "\<forall>c \<in> set (cf_AllowedSourceCIDRs cfg). ParsePrefix c \<noteq> None"
    "ValidProfile (cf_PolicyProfile cfg)" "ValidateWebAddr (cf_WebAddr cfg)" "\<exists>mode. ParseHostAuth (cf_HostAuth cfg) = Inr mode"
    "0 < cf_ShutdownTimeout cfg" "0 < cf_HostConnectTimeout cfg" "0 < cf_HostReadTimeout cfg"
    "0 < cf_MaxHostPayloadBytes cfg" "0 < cf_MaxDaemonFrameBytes cfg" "0 < cf_FileTransferTimeout cfg"
    "0 < cf_UnityStreamTimeout cfg" "0 < cf_AuthConfirmTimeout cfg" "cf_HDCAddr cfg \<noteq> []"
    "cf_ServerNode cfg \<noteq> []" "trim_space (cf_StateDir cfg) \<noteq> []" "ParseLogLevel (cf_LogLevel cfg) \<noteq> None"
  using assms by (auto simp: config_validate_def find_None_iff split: if_split_asm option.split_asm sum.split_asm)

lemma config_Load_ok:
  assumes "config_Load env = Inr cfg"
  shows "config_ok cfg" "list_all (\<lambda>c. trim_space c = c) (cf_AllowedSourceCIDRs cfg)"
proof -
  obtain ns maxFile maxTemp ds where v: "config_validate (config_build env ns maxFile maxTemp ds) = None"
    and cfg: "cfg = (config_build env ns maxFile maxTemp ds)\<lparr>cf_HostAuth := (case ParseHostAuth
       (cf_HostAuth (config_build env ns maxFile maxTemp ds)) of Inl _ \<Rightarrow> [] | Inr mode \<Rightarrow> mode)\<rparr>"
    using assms by (rule config_Load_parts)
  let ?c = "config_build env ns maxFile maxTemp ds"
  note V = config_validate_None [OF v]
  have t: "list_all (\<lambda>c. trim_space c = c) (cf_AllowedSourceCIDRs ?c)"
    by (simp add: config_build_def envCSV_trimmed default_trimmed)
  then show "list_all (\<lambda>c. trim_space c = c) (cf_AllowedSourceCIDRs cfg)" by (simp add: cfg)
  have h: "trim_space (cf_PublicHost ?c) \<noteq> []" by (simp add: config_build_def resolvePublicHost_ne)
  show "config_ok cfg"
    using V t h by (simp add: cfg config_ok_def list_all_iff)
qed

text \<open>What an accepted console address looks like: \<^verbatim>\<open>host:port\<close> or
  \<^verbatim>\<open>[host]:port\<close> with a port and a host that is the name localhost, an address of
  127.0.0.0/8 (also in its mapped form), or ::1.\<close>

lemma cut_char_at_Some: "cut_char_at d s = Some (l, r) \<Longrightarrow> s = l @ d # r \<and> d \<notin> set l"
  by (induction s arbitrary: l) (auto split: if_splits option.splits)

lemma SplitHostPort_forms:
  assumes "SplitHostPort s = Some (host, port)"
  shows "s = host @ '':'' @ port \<and> CHR '':'' \<notin> set host \<or> s = ''['' @ host @ '']:'' @ port"
proof -
  obtain rport rhost where c: "cut_char_at (CHR '':'') (rev s) = Some (rport, rhost)"
    using assms by (auto simp: SplitHostPort_def split: option.splits)
  have s: "s = rev rhost @ CHR '':'' # rev rport"
    using cut_char_at_Some [OF c] by (metis append.assoc append_Cons append_Nil rev.simps(2) rev_append rev_rev_ident)
  show ?thesis
  proof (cases "s \<noteq> [] \<and> hd s = CHR ''[''")
    case True
    with assms c obtain inside where i: "cut_char_at (CHR '']'') s = Some (inside, CHR '':'' # port)" "host = tl inside"
      by (auto simp: SplitHostPort_def Let_def split: option.splits if_splits)
    then have "s = inside @ CHR '']'' # CHR '':'' # port" using cut_char_at_Some by blast
    moreover from this True have "inside = CHR ''['' # tl inside" by (cases inside) auto
    ultimately show ?thesis using i(2) by (metis append_Cons append_Nil)
  next
    case False
    with assms c have "host = rev rhost" "port = rev rport" "CHR '':'' \<notin> set (rev rhost)"
      by (auto simp: SplitHostPort_def Let_def split: if_splits)
    with s show ?thesis by simp
  qed
qed

lemma IsLoopbackHost_forms:
  assumes "IsLoopbackHost host"
  shows "trim_space host \<noteq> [] \<and> (to_lower (trim_space host) = ''localhost''
    \<or> (\<exists>a. ParseAddr (trim_space host) = Some a
          \<and> (a = V6 1 \<or> (\<exists>w. unmap_addr a = V4 w \<and> drop_bit 24 w = 127))))"
proof -
  have low: "to_lower ''localhost'' = ''localhost''" by code_simp
  have loop: "IsLoopback a \<Longrightarrow> a = V6 1 \<or> (\<exists>w. unmap_addr a = V4 w \<and> drop_bit 24 w = 127)" for a
    by (cases a) (auto simp: IsLoopback_def split: ip_addr.splits if_splits)
  then show ?thesis
    using assms low by (auto simp: IsLoopbackHost_def EqualFold_def Let_def split: if_splits option.splits)
qed

text \<open>C28: An accepted configuration is within its limits. When \<open>Load\<close> returns a configuration,
  the ports are a non-empty range of valid ports; the numbers of connections and of channels, the
  lease time, the poll interval, the handshake, shutdown, host connect, host read, file transfer,
  stream and confirmation times and the limits of host payloads, daemon frames and files are
  positive; the space for temporary files holds at least one file of the greatest size; a scan is
  due before a device counts as stale; the HDC address, the node's name, the state directory and
  the public host are not blank; every allowed source is a prefix and there is one; the policy
  profile, the log level and the mode of the host authentication are known ones; and the console
  is off or its address has a port and a host that is localhost, an address of 127.0.0.0/8 or
  ::1, so an address without a host is refused.\<close>

theorem Load_enforces_limits:
  assumes "config_Load env = Inr cfg"
  shows "0 < cf_ProxyPortMin cfg \<and> cf_ProxyPortMin cfg \<le> cf_ProxyPortMax cfg \<and> cf_ProxyPortMax cfg \<le> 65535
    \<and> 0 < cf_MaxConnections cfg \<and> 0 < cf_MaxChannelsPerConnection cfg \<and> 0 < cf_LeaseMaxTTL cfg
    \<and> 0 < cf_DevicePollInterval cfg \<and> cf_DevicePollInterval cfg \<le> cf_DeviceStaleAfter cfg
    \<and> 0 < cf_HandshakeTimeout cfg \<and> 0 < cf_ShutdownTimeout cfg \<and> 0 < cf_HostConnectTimeout cfg
    \<and> 0 < cf_HostReadTimeout cfg \<and> 0 < cf_FileTransferTimeout cfg \<and> 0 < cf_UnityStreamTimeout cfg
    \<and> 0 < cf_AuthConfirmTimeout cfg \<and> 0 < cf_MaxHostPayloadBytes cfg \<and> 0 < cf_MaxDaemonFrameBytes cfg
    \<and> 0 < cf_MaxFileBytes cfg \<and> cf_MaxFileBytes cfg \<le> cf_MaxTempBytes cfg
    \<and> cf_HDCAddr cfg \<noteq> [] \<and> cf_ServerNode cfg \<noteq> [] \<and> trim_space (cf_StateDir cfg) \<noteq> []
    \<and> trim_space (cf_PublicHost cfg) \<noteq> []
    \<and> cf_AllowedSourceCIDRs cfg \<noteq> [] \<and> (\<forall>c \<in> set (cf_AllowedSourceCIDRs cfg). ParsePrefix c \<noteq> None)
    \<and> cf_PolicyProfile cfg \<in> {''studio-debug'', ''restricted''}
    \<and> to_lower (trim_space (cf_LogLevel cfg)) \<in> {[], ''debug'', ''info'', ''warn'', ''warning'', ''error''}
    \<and> cf_HostAuth cfg \<in> {''off'', ''confirm''}
    \<and> (trim_space (cf_WebAddr cfg) = []
       \<or> (\<exists>host port.
            (trim_space (cf_WebAddr cfg) = host @ '':'' @ port \<and> CHR '':'' \<notin> set host
             \<or> trim_space (cf_WebAddr cfg) = ''['' @ host @ '']:'' @ port)
            \<and> trim_space port \<noteq> [] \<and> trim_space host \<noteq> []
            \<and> (to_lower (trim_space host) = ''localhost''
               \<or> (\<exists>a. ParseAddr (trim_space host) = Some a
                     \<and> (a = V6 1 \<or> (\<exists>w. unmap_addr a = V4 w \<and> drop_bit 24 w = 127))))))"
proof -
  obtain ns maxFile maxTemp ds where v: "config_validate (config_build env ns maxFile maxTemp ds) = None"
    and cfg: "cfg = (config_build env ns maxFile maxTemp ds)\<lparr>cf_HostAuth := (case ParseHostAuth
       (cf_HostAuth (config_build env ns maxFile maxTemp ds)) of Inl _ \<Rightarrow> [] | Inr mode \<Rightarrow> mode)\<rparr>"
    using assms by (rule config_Load_parts)
  note V = config_validate_None [OF v]
  let ?web = "trim_space (cf_WebAddr cfg)"
  have web: "?web = [] \<or> (\<exists>host port. SplitHostPort ?web = Some (host, port) \<and> trim_space port \<noteq> []
      \<and> IsLoopbackHost host)"
    using V(15) by (auto simp: cfg ValidateWebAddr_def Let_def split: if_splits option.splits)
  have auth: "mode \<in> {''off'', ''confirm''}" if "ParseHostAuth w = Inr mode" for w mode
    using that by (auto simp: ParseHostAuth_def Let_def split: if_splits)
  have "cf_HostAuth cfg \<in> {''off'', ''confirm''}"
    using auth V(16) by (auto simp: cfg split: sum.split)
  moreover have "trim_space (cf_PublicHost cfg) \<noteq> []"
    using config_Load_ok(1) [OF assms] by (simp add: config_ok_def)
  moreover have "to_lower (trim_space (cf_LogLevel cfg)) \<in> {[], ''debug'', ''info'', ''warn'', ''warning'', ''error''}"
    using V(28) by (auto simp: cfg ParseLogLevel_def Let_def split: if_splits)
  moreover have "cf_PolicyProfile cfg \<in> {''studio-debug'', ''restricted''}"
    using V(14) by (simp add: cfg ValidProfile_def ProfileStudioDebug_def ProfileRestricted_def)
  moreover from web SplitHostPort_forms IsLoopbackHost_forms have "?web = [] \<or> (\<exists>host port.
      (?web = host @ '':'' @ port \<and> CHR '':'' \<notin> set host \<or> ?web = ''['' @ host @ '']:'' @ port)
      \<and> trim_space port \<noteq> [] \<and> trim_space host \<noteq> []
      \<and> (to_lower (trim_space host) = ''localhost'' \<or> (\<exists>a. ParseAddr (trim_space host) = Some a
            \<and> (a = V6 1 \<or> (\<exists>w. unmap_addr a = V4 w \<and> drop_bit 24 w = 127)))))"
    by blast
  moreover note V
  ultimately show ?thesis
    by (simp add: cfg)
qed

section \<open>The loop's requests\<close>

lemma parsePrefix_cidr:
  "ParsePrefix (trim_space c) = Some p \<Longrightarrow> parsePrefix (trim_space c) = Some (Masked p)"
  by (simp add: parsePrefix_def)

lemma normalize_cidrs_valid:
  "list_all (\<lambda>c. ParsePrefix (trim_space c) \<noteq> None) cs \<Longrightarrow>
    snd (normalize_cidrs cs) = Inr (map (\<lambda>c. Masked (the (ParsePrefix (trim_space c)))) cs)"
proof (induction cs)
  case (Cons c cs)
  then obtain p where "ParsePrefix (trim_space c) = Some p" by auto
  moreover from Cons have "snd (normalize_cidrs cs) = Inr (map (\<lambda>c. Masked (the (ParsePrefix (trim_space c)))) cs)" by simp
  ultimately show ?case using parsePrefix_cidr [of c p] by (simp add: case_prod_unfold)
qed simp

lemma auto_request_ok:
  assumes ok: "config_ok cfg" and d: "trim_space (dv_ID device) \<noteq> []"
  shows "\<exists>req. normalizeAcquire cfg (auto_request cfg device)
      = (req, Inr (map (\<lambda>c. Masked (the (ParsePrefix (trim_space c)))) (cf_AllowedSourceCIDRs cfg)))
    \<and> ar_TTL req = cf_LeaseMaxTTL cfg \<and> ar_MaxConnections req = cf_MaxConnections cfg \<and> ar_OwnerID req = autoOwner
    \<and> ar_DeviceIdentifier req = trim_space (dv_ID device)"
proof -
  have C: "0 < cf_LeaseMaxTTL cfg" "0 < cf_MaxConnections cfg" "cf_AllowedSourceCIDRs cfg \<noteq> []"
    "list_all (\<lambda>c. ParsePrefix (trim_space c) \<noteq> None) (cf_AllowedSourceCIDRs cfg)"
    using ok by (simp_all add: config_ok_def)
  obtain ws where n: "normalize_cidrs (cf_AllowedSourceCIDRs cfg)
      = (ws, Inr (map (\<lambda>c. Masked (the (ParsePrefix (trim_space c)))) (cf_AllowedSourceCIDRs cfg)))"
    using normalize_cidrs_valid [OF C(4)] by (metis prod.collapse)
  have owner: "trim_space autoOwner = autoOwner" by code_simp
  show ?thesis
    using C(1-3) d n owner by (simp add: normalizeAcquire_def auto_request_def Let_def)
qed

lemma prefixesContain_masked:
  assumes "list_all (\<lambda>c. ParsePrefix (trim_space c) \<noteq> None) cs"
  shows "prefixesContain (map (\<lambda>c. Masked (the (ParsePrefix (trim_space c)))) cs) a
    \<longleftrightarrow> (\<exists>c \<in> set cs. \<exists>p. ParsePrefix (trim_space c) = Some p
          \<and> prefix_contains p (if is4 (px_addr p) then unmap_addr a else a))"
proof -
  have "is4 (px_addr (Masked p)) = is4 (px_addr p)" for p
    by (cases "px_addr p") (simp_all add: Masked_def is4_def)
  moreover have "prefix_contains (Masked p) b = prefix_contains p b" if "ParsePrefix (trim_space c) = Some p" for c p b
    by (rule prefix_contains_Masked [OF ParsePrefix_bits [OF that]])
  note facts = calculation this
  have one: "(let candidate = (if is4 (px_addr (Masked (the (ParsePrefix (trim_space c))))) then unmap_addr a else a)
        in prefix_contains (Masked (the (ParsePrefix (trim_space c)))) candidate)
      \<longleftrightarrow> (\<exists>p. ParsePrefix (trim_space c) = Some p \<and> prefix_contains p (if is4 (px_addr p) then unmap_addr a else a))"
    if c: "c \<in> set cs" for c
  proof -
    obtain p where "ParsePrefix (trim_space c) = Some p" using assms c by (auto simp: list_all_iff)
    then show ?thesis using facts by (simp add: Let_def)
  qed
  have "prefixesContain (map (\<lambda>c. Masked (the (ParsePrefix (trim_space c)))) cs) a
    \<longleftrightarrow> (\<exists>c \<in> set cs. let candidate = (if is4 (px_addr (Masked (the (ParsePrefix (trim_space c))))) then unmap_addr a else a)
        in prefix_contains (Masked (the (ParsePrefix (trim_space c)))) candidate)"
    by (simp only: prefixesContain_def list_ex_iff set_map bex_simps)
  then show ?thesis using one by (simp only: cong: bex_cong)
qed

text \<open>The request of the loop is always accepted. Under every configuration that \<open>Load\<close>
  returns, the request that \<open>AutoExpose\<close> makes for a device passes the checks of \<open>Acquire\<close>, with
  the longest time to live and the greatest number of connections, and the prefixes it is
  normalised to contain a source exactly when one of the configured prefixes does.\<close>

theorem auto_request_accepted:
  assumes "config_Load env = Inr cfg" and "trim_space (dv_ID device) \<noteq> []"
  shows "\<exists>req ps. normalizeAcquire cfg (auto_request cfg device) = (req, Inr ps)
    \<and> ar_TTL req = cf_LeaseMaxTTL cfg \<and> ar_MaxConnections req = cf_MaxConnections cfg
    \<and> (\<forall>a. prefixesContain ps a \<longleftrightarrow> (\<exists>c \<in> set (cf_AllowedSourceCIDRs cfg). \<exists>p. ParsePrefix c = Some p
          \<and> prefix_contains p (if is4 (px_addr p) then unmap_addr a else a)))"
proof -
  note L = config_Load_ok [OF assms(1)]
  have t: "c \<in> set (cf_AllowedSourceCIDRs cfg) \<Longrightarrow> trim_space c = c" for c
    using L(2) by (simp add: list_all_iff)
  have "list_all (\<lambda>c. ParsePrefix (trim_space c) \<noteq> None) (cf_AllowedSourceCIDRs cfg)"
    using L(1) by (simp add: config_ok_def)
  from prefixesContain_masked [OF this] t
  have "\<forall>a. prefixesContain (map (\<lambda>c. Masked (the (ParsePrefix (trim_space c)))) (cf_AllowedSourceCIDRs cfg)) a
    \<longleftrightarrow> (\<exists>c \<in> set (cf_AllowedSourceCIDRs cfg). \<exists>p. ParsePrefix c = Some p
          \<and> prefix_contains p (if is4 (px_addr p) then unmap_addr a else a))"
    by simp
  with auto_request_ok [OF L(1) assms(2)] show ?thesis by blast
qed

section \<open>Witnesses\<close>

definition bare_env :: environment where
  "bare_env = \<lparr>en_vars = (\<lambda>_. None), en_ParseDuration = (\<lambda>_. None), en_outbound = None, en_interfaces = None\<rparr>"

lemma bare_values:
  "Getenv bare_env v = []" "envString bare_env v w = w" "envStringAllowEmpty bare_env v w = w"
  "envCSV bare_env v xs = xs" "envInt bare_env v n = Inr n" "envInt64 bare_env v n = Inr n"
  "envDuration bare_env v n = Inr n" "resolvePublicHost bare_env [] = ''127.0.0.1''"
  by (simp_all add: bare_env_def Getenv_def envString_def envStringAllowEmpty_def envCSV_def envInt_def envInt64_def
      envDuration_def resolvePublicHost_def detectPublicHost_def listAdvertisableIPv4_def outboundIPv4_def)

lemma default_values:
  "find (\<lambda>cidr. ParsePrefix cidr = None) defaultCIDRs = None" "ValidateWebAddr ''127.0.0.1:18080''"
  "ParseHostAuth ''off'' = Inr ''off''" "to_lower ''info'' = ''info''" "ParseLogLevel ''info'' = Some LevelInfo"
  "ValidProfile (to_lower ProfileStudioDebug)" "trim_space ''data'' = ''data''" "defaultCIDRs \<noteq> []"
  by code_simp+

definition default_cfg :: Config where
  "default_cfg = config_build bare_env [50000, 50500, 2, 64, 1048576, 67108864] 2147483648 4294967296
     \<lparr>ds_devicePoll = 2 * Second, ds_deviceStale = 10 * Second, ds_leaseMaxTTL = 8 * 3600 * Second,
      ds_handshake = 10 * Second, ds_shutdown = 10 * Second, ds_hostConnect = 3 * Second, ds_hostRead = 5 * Second,
      ds_fileTransfer = 10 * 60 * Second, ds_unityStream = 30 * 60 * Second, ds_authConfirm = 90 * Second\<rparr>"

lemma default_valid: "config_validate default_cfg = None"
  using default_values by (simp add: config_validate_def default_cfg_def config_build_def bare_values)

lemma default_loads: "config_Load bare_env = Inr default_cfg"
proof -
  have "envInts bare_env numberSpecs = Inr [50000, 50500, 2, 64, 1048576, 67108864]"
    by (simp add: numberSpecs_def bare_values)
  moreover have "loadDurations bare_env = Inr \<lparr>ds_devicePoll = 2 * Second, ds_deviceStale = 10 * Second,
      ds_leaseMaxTTL = 8 * 3600 * Second, ds_handshake = 10 * Second, ds_shutdown = 10 * Second,
      ds_hostConnect = 3 * Second, ds_hostRead = 5 * Second, ds_fileTransfer = 10 * 60 * Second,
      ds_unityStream = 30 * 60 * Second, ds_authConfirm = 90 * Second\<rparr>"
    by (simp add: loadDurations_def durationSpecs_def bare_values)
  moreover have "default_cfg\<lparr>cf_HostAuth := ''off''\<rparr> = default_cfg" "cf_HostAuth default_cfg = ''off''"
    by (simp_all add: default_cfg_def config_build_def bare_values)
  ultimately show ?thesis
    using default_valid default_values(3)
    by (simp add: config_Load_def bare_values Let_def default_cfg_def)
qed

end
