(* ===== verification/Manager_Progress.thy ===== *)
theory Manager_Progress
  imports Manager_Safety Config_Properties
begin

text \<open>
  Remote access is not only safe, it comes about: the gateway of a reachable manager is open, a
  configuration that was accepted makes the loop's own requests acceptable, and an acquisition for
  an online device succeeds when the system calls do and a port is free.
\<close>

section \<open>The gateway stays open\<close>

definition gw_state :: "Manager \<Rightarrow> bool option" where
  "gw_state m = map_option gw_closed (mg_gateway m)"

lemma gw_state_cong: "mg_gateway m' = mg_gateway m \<Longrightarrow> gw_state m' = gw_state m"
  by (simp add: gw_state_def)

lemma gw_state_SomeD: "gw_state m = Some c \<Longrightarrow> \<exists>g. mg_gateway m = Some g \<and> gw_closed g = c"
  by (auto simp: gw_state_def)

lemma gw_stateI: "mg_gateway m = Some g \<Longrightarrow> gw_state m = Some (gw_closed g)"
  by (simp add: gw_state_def)

lemma gateway_apply_closed: "(\<And>drained. opr \<noteq> GClose drained) \<Longrightarrow> gw_closed (gateway_apply opr g) = gw_closed g"
  by (cases opr) (auto simp: bind_commit_def UpdateGrant_def Unbind_def trackSession_def dropSession_def Kick_def Let_def
      split: option.split)

lemma gw_state_event [simp]: "gw_state (apply_event ev m) = gw_state m"
proof (cases ev)
  case (EvGateway opr)
  have "connection_op opr \<Longrightarrow> gw_closed (gateway_apply opr g) = gw_closed g" for g
    by (rule gateway_apply_closed) auto
  then show ?thesis by (simp add: EvGateway gw_state_def option.map_comp comp_def)
qed (auto simp: gw_state_def ConnectionOpened_def ConnectionClosed_def ConnectionRejected_def Let_def split: option.split)

lemma gw_state_events [simp]: "gw_state (run_events es m) = gw_state m"
  by (induction es arbitrary: m) (simp_all add: run_events_def)

lemma gw_state_ops [simp]:
  "gw_state (put_lease l m) = gw_state m" "gw_state (put_binding b m) = gw_state m"
  "gw_state (clearInflight d m) = gw_state m" "gw_state (fst (saveBindings ok m)) = gw_state m"
  "gw_state (release_finish renv l b found m) = gw_state m"
  "gw_state (acquire_commit env device l b m) = gw_state m"
  by (simp_all add: gw_state_def put_lease_def put_binding_def clearInflight_def saveBindings_def release_finish_def
      acquire_commit_def Let_def split: option.split sum.split)

lemma gw_state_create:
  assumes c: "createBinding env d m = (m', r)"
  shows "gw_state m' = gw_state m"
proof (cases "allocate (ae_listens env) (mg_ports m)")
  case (Pair ports r0)
  have same: "gw_state (m\<lparr>mg_ports := ports\<rparr>) = gw_state m" by (rule gw_state_cong) simp
  show ?thesis
  proof (cases r0)
    case None
    with c Pair same show ?thesis by (simp add: createBinding_def)
  next
    case (Some port)
    define m1 where "m1 = run_events (ae_windows env 4) (m\<lparr>mg_ports := ports\<rparr>)"
    define b where "b = \<lparr>bd_ID = ae_bindingID env, bd_DeviceID = d,
                bd_PublicHost = cf_PublicHost (mg_cfg m), bd_Port = port, bd_Status = BindingReserved,
                bd_CreatedAt = ae_created env, bd_UpdatedAt = ae_created env\<rparr>"
    define m2 where "m2 = run_events (ae_windows env 5) (put_binding b m1)"
    obtain m3 ok where sv: "saveBindings (ae_save env) m2 = (m3, ok)" by fastforce
    have "gw_state m3 = gw_state m2" using gw_state_ops(4) [of "ae_save env" m2] sv by simp
    then have m3: "gw_state m3 = gw_state m" by (simp add: m2_def m1_def same)
    define m4 where "m4 = run_events (ae_windows env 6) m3"
    have "m' = (if ok then m3 else m4\<lparr>bindingsByDevice := AList.delete d (bindingsByDevice m4),
                       bindingsByID := AList.delete (ae_bindingID env) (bindingsByID m4),
                       mg_ports := release port (mg_ports m4)\<rparr>)"
      using c Pair Some sv
      by (auto simp: createBinding_def Let_def m1_def [symmetric] b_def [symmetric] m2_def [symmetric]
          m4_def [symmetric] split: bool.splits)
    moreover have "gw_state (m4\<lparr>bindingsByDevice := AList.delete d (bindingsByDevice m4),
                       bindingsByID := AList.delete (ae_bindingID env) (bindingsByID m4),
                       mg_ports := release port (mg_ports m4)\<rparr>) = gw_state m4" by (rule gw_state_cong) simp
    ultimately show ?thesis using m3 by (simp add: m4_def)
  qed
qed

lemma gw_state_bind:
  assumes "mg_gateway m = Some g"
  shows "gw_state (fst (gatewayBind env grant g m)) = gw_state m"
proof -
  have "gw_state (run_events (ae_windows env 2) m) = Some (gw_closed g)" using gw_stateI [OF assms] by simp
  then obtain g1 where g1: "mg_gateway (run_events (ae_windows env 2) m) = Some g1" "gw_closed g1 = gw_closed g"
    using gw_state_SomeD by blast
  show ?thesis
    using assms g1 by (auto simp: gw_state_def gatewayBind_def Let_def the_default_def Bind_def bind_commit_def
        split: prod.splits sum.splits bool.splits if_splits)
qed

lemma gw_state_renew: "gw_state (fst (acquire_renew env req ps device l m)) = gw_state m"
proof -
  have upd: "gw_closed (fst (UpdateGrant gr g)) = gw_closed g" for gr g
    using gateway_apply_closed [of "GUpdate gr" g] by simp
  define l1 where "l1 = l\<lparr>ls_ExpiresAt := ae_now env + ar_TTL req, ls_UpdatedAt := ae_now env,
            ls_AllowedSourceCIDRs := ar_AllowedSourceCIDRs req, ls_MaxConnections := ar_MaxConnections req,
            ls_PolicyProfile := ar_PolicyProfile req\<rparr>"
  define m1 where "m1 = m\<lparr>leasesByID := AList.update (ls_ID l1) l1 (leasesByID m),
                leasesByDevice := AList.update (dv_ID device) l1 (leasesByDevice m)\<rparr>"
  define m2 where "m2 = run_events (ae_windows env 1) m1"
  have m1: "gw_state m1 = gw_state m" by (rule gw_state_cong) (simp add: m1_def)
  have run: "acquire_renew env req ps device l m
    = (case (mg_gateway m2, map_of (bindingsByDevice m1) (dv_ID device)) of
           (Some g, Some binding) \<Rightarrow> (m2\<lparr>mg_gateway := Some (fst (UpdateGrant (buildGrant l1 binding ps) g))\<rparr>,
              buildViewLocked device [] m1)
         | _ \<Rightarrow> (m2, buildViewLocked device [] m1))"
    by (simp only: acquire_renew_def Let_def l1_def m1_def m2_def)
  have "gw_state (fst (acquire_renew env req ps device l m)) = gw_state m2"
    unfolding run by (auto simp: gw_state_def upd split: option.split)
  then show ?thesis using m1 by (simp add: m2_def)
qed

lemma gw_state_fresh:
  assumes "mg_gateway m = Some g"
  shows "gw_state (fst (acquire_fresh env req ps device g m)) = gw_state m"
proof -
  let ?d = "dv_ID device"
  define m0 where "m0 = m\<lparr>inflightByDevice := List.insert ?d (inflightByDevice m)\<rparr>"
  define c where "c = (case map_of (bindingsByDevice m0) ?d of Some binding \<Rightarrow> (m0, Inr binding)
             | None \<Rightarrow> createBinding env ?d (run_events (ae_windows env 1) m0))"
  obtain m1 r1 where c1: "c = (m1, r1)" by (cases c)
  have "gw_state m1 = gw_state m0"
    using c1 gw_state_create [of env ?d "run_events (ae_windows env 1) m0" m1 r1]
    by (auto simp: c_def split: option.splits)
  moreover have "gw_state m0 = gw_state m" by (rule gw_state_cong) (simp add: m0_def)
  ultimately have g1: "gw_state m1 = gw_state m" by simp
  then obtain g0 where g0: "mg_gateway m1 = Some g0" using gw_stateI [OF assms] gw_state_SomeD by metis
  have run: "acquire_fresh env req ps device g m = (case r1 of
           Inl e \<Rightarrow> (clearInflight ?d m1, failedView ?d ''Remote access port is not available.'', Some e)
         | Inr binding \<Rightarrow> let lease = newLease env req ?d binding
             in case gatewayBind env (buildGrant lease binding ps) g0 m1 of
                  (m, Some e) \<Rightarrow> (clearInflight ?d m,
                    failedView ?d ''Remote access port is not available.'', Some (GatewayBindFailed e))
                | (m, None) \<Rightarrow>
                    let m = acquire_commit env device lease binding (run_events (ae_windows env 3) m)
                    in (clearInflight ?d m, buildViewLocked device [] m, None))"
    unfolding acquire_fresh_def Let_def m0_def [symmetric] c_def [symmetric] c1 by (simp add: g0 the_default_def)
  show ?thesis
  proof (cases r1)
    case (Inr b)
    obtain m2 e2 where B: "gatewayBind env (buildGrant (newLease env req ?d b) b ps) g0 m1 = (m2, e2)" by fastforce
    have "gw_state m2 = gw_state m1" using gw_state_bind [OF g0, of env "buildGrant (newLease env req ?d b) b ps"] B by simp
    then show ?thesis using run Inr B g1 by (cases e2) (simp_all add: Let_def)
  qed (use run g1 in simp)
qed

lemma gw_state_Acquire: "gw_state (fst (Acquire env request m)) = gw_state m"
proof -
  obtain req n where n: "normalizeAcquire (mg_cfg m) request = (req, n)" by fastforce
  show ?thesis
  proof (cases n)
    case (Inr ps)
    show ?thesis
    proof (cases "ResolveOnlineUSB (ar_DeviceIdentifier req) (mg_registry m)")
      case (Some device)
      define m1 where "m1 = run_events (ae_windows env 0) m"
      have m1: "gw_state m1 = gw_state m" by (simp add: m1_def)
      have ren: "gw_state (fst (case acquire_renew env req ps device l m1 of (x, view) \<Rightarrow> (x, view, None :: manager_error option))) = gw_state m1" for l
        using gw_state_renew [of env req ps device l m1] by (simp add: case_prod_unfold)
      have fr: "mg_gateway m1 = Some g \<Longrightarrow> gw_state (fst (acquire_fresh env req ps device g m1)) = gw_state m1" for g
        by (rule gw_state_fresh)
      show ?thesis using n Inr Some m1 ren fr
        by (simp add: Acquire_def Let_def m1_def [symmetric] split: option.split)
    qed (simp add: Acquire_def n Inr)
  qed (simp add: Acquire_def n)
qed

lemma gw_state_release: "gw_state (fst (releaseLease env i m)) = gw_state m"
proof (cases "map_of (leasesByID m) i")
  case (Some lease)
  have unb: "gw_closed (fst (Unbind b g)) = gw_closed g" for b g
    using gateway_apply_closed [of "GUnbind b" g] by simp
  define l where "l = lease\<lparr>ls_Status := LeaseReleasing, ls_UpdatedAt := re_now env\<rparr>"
  define m1 where "m1 = put_lease l (m\<lparr>inflightByDevice := List.insert (ls_DeviceID l) (inflightByDevice m)\<rparr>)"
  define b where "b = go_get (bindingsByID m1) (ls_BindingID l) zero_binding"
  define m2 where "m2 = run_events (re_windows env 0) m1"
  define m3 where "m3 = m2\<lparr>mg_gateway := map_option (\<lambda>g. fst (Unbind (bd_ID b) g)) (mg_gateway m2)\<rparr>"
  have "gw_state m1 = gw_state m"
    unfolding m1_def gw_state_ops by (rule gw_state_cong) simp
  then have m2: "gw_state m2 = gw_state m" by (simp add: m2_def)
  have "gw_state m3 = gw_state m2" by (simp add: m3_def gw_state_def option.map_comp comp_def unb)
  then have m3: "gw_state m3 = gw_state m" using m2 by simp
  show ?thesis
    using Some m2 m3
    by (simp add: releaseLease_def Let_def case_prod_unfold l_def [symmetric] m1_def [symmetric] b_def [symmetric]
        m2_def [symmetric] m3_def [symmetric])
qed (simp add: releaseLease_def)

lemma gw_state_reconcile: "gw_state (reconcileBindings now save m) = gw_state m"
proof -
  have one: "gw_state (fst (reconcile_binding now e acc)) = gw_state (fst acc)" for e acc
    by (simp add: reconcile_binding_def Let_def case_prod_unfold gw_state_def)
  have "gw_state (fst (fold (reconcile_binding now) bs acc)) = gw_state (fst acc)" for bs acc
    by (induction bs arbitrary: acc) (simp_all add: one)
  from this [of "bindingsByDevice m" "(m, False)"] show ?thesis
    by (auto simp: reconcileBindings_def split: prod.split bool.split)
qed

lemma gw_state_step: "manager_step m m' \<Longrightarrow> gw_state m' = gw_state m"
  by (induction rule: manager_step.induct)
    (simp_all add: gw_state_Acquire gw_state_release gw_state_reconcile)

lemma reach_open:
  assumes "manager_reachable m"
  shows "\<exists>g. mg_gateway m = Some g \<and> \<not> gw_closed g"
proof -
  obtain registry bs cfg m0 where s: "manager_start registry bs cfg m0" and r: "manager_run m0 m"
    using assms unfolding manager_reachable_def by blast
  from r have "gw_state m = gw_state m0"
    by (induction rule: manager_run.induct) (simp_all add: gw_state_step)
  moreover have "gw_state m0 = Some False"
    using start_ok(2) [OF s] by (simp add: gw_state_def gw_New_def)
  ultimately show ?thesis using gw_state_SomeD [of m False] by simp
qed

section \<open>What an acquisition needs\<close>

definition calls_succeed :: "acquire_env \<Rightarrow> bool" where
  "calls_succeed env \<longleftrightarrow> ae_save env \<and> ae_listen env"

definition port_free :: "acquire_env \<Rightarrow> Manager \<Rightarrow> bool" where
  "port_free env m \<longleftrightarrow> (\<exists>p. cf_ProxyPortMin (mg_cfg m) \<le> p \<and> p \<le> cf_ProxyPortMax (mg_cfg m)
     \<and> p \<notin> set (reserved (mg_ports m)) \<and> ae_listens env p)"

lemma allocate_free:
  assumes inv: "manager_inv {} xd m" and free: "port_free env m"
  shows "\<exists>ports port. allocate (ae_listens env) (mg_ports m) = (ports, Some port)"
proof -
  note P = ports_okD [OF manager_invD(7) [OF inv]]
  obtain ports r where a: "allocate (ae_listens env) (mg_ports m) = (ports, r)" by fastforce
  obtain p where p: "p \<notin> set (reserved (mg_ports m))" "ae_listens env p"
    "p \<in> {pp_minPort (mg_ports m)..pp_maxPort (mg_ports m)}"
    using free P(2,3) by (auto simp: port_free_def)
  then have "p \<in> set (available (mg_ports m)) \<or> p \<in> set (blocked (mg_ports m))"
    using P(1) by (auto simp: pool_ok_def)
  then have "r \<noteq> None"
    using allocate_result [OF P(1) a] p(2) by (auto simp: least_def split: if_splits option.splits)
  with a show ?thesis by auto
qed

lemma createBinding_succeeds:
  assumes inv: "manager_inv {} {} m" and free: "port_free env m" and save: "ae_save env"
    and new: "map_of (bindingsByDevice m) d = None" "trim_space d \<noteq> []"
    and fresh: "map_of (bindingsByID m) (ae_bindingID env) = None" "trim_space (ae_bindingID env) \<noteq> []"
  shows "\<exists>b. snd (createBinding env d m) = Inr b"
proof -
  obtain ports port where a: "allocate (ae_listens env) (mg_ports m) = (ports, Some port)"
    using allocate_free [OF inv free] by blast
  define m1 where "m1 = run_events (ae_windows env 4) (m\<lparr>mg_ports := ports\<rparr>)"
  define b where "b = \<lparr>bd_ID = ae_bindingID env, bd_DeviceID = d,
          bd_PublicHost = cf_PublicHost (mg_cfg m), bd_Port = port, bd_Status = BindingReserved,
          bd_CreatedAt = ae_created env, bd_UpdatedAt = ae_created env\<rparr>"
  have inv0: "manager_inv {port} {} (m\<lparr>mg_ports := ports\<rparr>)" using take_port_ok [OF inv a] by simp
  from events_quiet [OF inv0] have inv1: "manager_inv {bd_Port b} {} m1" and q: "quiet (m\<lparr>mg_ports := ports\<rparr>) m1"
    by (simp_all add: m1_def b_def)
  have "map_of (bindingsByDevice m1) (bd_DeviceID b) = None" "map_of (bindingsByID m1) (bd_ID b) = None"
    using new fresh quietD(1,2) [OF q] by (simp_all add: b_def)
  moreover have "binding_identity b" "bd_Status b \<noteq> BindingListening"
    using fresh new manager_invD(8) [OF inv] by (simp_all add: b_def binding_identity_def config_ok_def)
  ultimately have "manager_inv {} {} (put_binding b m1)" using put_binding_ok [OF inv1] by blast
  then have "manager_inv {} {} (run_events (ae_windows env 5) (put_binding b m1))" using events_quiet by blast
  from saveBindings_result [OF this, of "ae_save env"] save
  have "snd (createBinding env d m) = Inr b"
    by (simp add: createBinding_def a Let_def m1_def [symmetric] b_def [symmetric])
  then show ?thesis by blast
qed

lemma gatewayBind_succeeds:
  assumes inv: "manager_inv {} {} m" and b: "map_of (bindingsByDevice m) d = Some b"
    and none: "map_of (leasesByDevice m) d = None" and g: "mg_gateway m = Some g" "\<not> gw_closed g"
    and fit: "grant_fits l b ps" and listen: "ae_listen env"
  shows "snd (gatewayBind env (buildGrant l b ps) g m) = None"
proof -
  have gb: "gr_Binding (buildGrant l b ps) = b" by (simp add: buildGrant_def)
  have "grants m (bd_ID b) = None" by (rule idle_no_grant [OF inv b none])
  then have pre: "bind_precheck (buildGrant l b ps) g = Inr False"
    using validateGrant_build [OF inv b fit] g by (simp add: bind_precheck_def gb grants_eq listener_grants_def)
  define m1 where "m1 = run_events (ae_windows env 2) m"
  from events_quiet [OF inv] have inv1: "manager_inv {} {} m1" and q: "quiet m m1" by (simp_all add: m1_def)
  have "gw_state m1 = Some False" using g by (simp add: m1_def gw_stateI)
  then obtain g1 where g1: "mg_gateway m1 = Some g1" "\<not> gw_closed g1" using gw_state_SomeD by blast
  show ?thesis
    using pre listen g1 by (simp add: gatewayBind_def Let_def m1_def [symmetric] the_default_def Bind_def bind_commit_def case_prod_unfold)
qed

lemma acquire_fresh_succeeds:
  assumes inv: "manager_inv {} {} m" and none: "map_of (leasesByDevice m) (dv_ID device) = None"
    and d: "trim_space (dv_ID device) \<noteq> []" and fresh: "fresh_env env m"
    and ps: "ps \<noteq> []" and req: "0 < ar_MaxConnections req" "0 < ar_TTL req"
    and g: "mg_gateway m = Some g" "\<not> gw_closed g"
    and calls: "calls_succeed env" and port: "map_of (bindingsByDevice m) (dv_ID device) \<noteq> None \<or> port_free env m"
  shows "snd (snd (acquire_fresh env req ps device g m)) = None"
proof -
  let ?d = "dv_ID device"
  define m0 where "m0 = m\<lparr>inflightByDevice := List.insert ?d (inflightByDevice m)\<rparr>"
  define c where "c = (case map_of (bindingsByDevice m0) ?d of Some binding \<Rightarrow> (m0, Inr binding)
             | None \<Rightarrow> createBinding env ?d (run_events (ae_windows env 1) m0))"
  obtain m1 r1 where c1: "c = (m1, r1)" by (cases c)
  have inv0: "manager_inv {} {} m0" using inv by (simp add: m0_def)
  have "manager_inv {} {} m1 \<and> map_of (leasesByDevice m1) ?d = None \<and> gw_state m1 = gw_state m0
    \<and> (\<exists>b. r1 = Inr b \<and> map_of (bindingsByDevice m1) ?d = Some b)"
  proof (cases "map_of (bindingsByDevice m0) ?d")
    case (Some b)
    then have "m1 = m0" "r1 = Inr b" using c1 by (simp_all add: c_def)
    with Some inv0 none show ?thesis by (simp add: m0_def)
  next
    case None
    define mw where "mw = run_events (ae_windows env 1) m0"
    from events_quiet [OF inv0] have invw: "manager_inv {} {} mw" and q: "quiet m0 mw" by (simp_all add: mw_def)
    have cb: "createBinding env ?d mw = (m1, r1)" using c1 None by (simp add: c_def mw_def)
    have nw: "map_of (bindingsByDevice mw) ?d = None" "map_of (leasesByDevice mw) ?d = None"
      using None none quietD(1) [OF q] quietD(8) [OF q, of ?d] by (simp_all add: m0_def)
    have f: "map_of (bindingsByID mw) (ae_bindingID env) = None" "trim_space (ae_bindingID env) \<noteq> []"
      using fresh quietD(2) [OF q] by (simp_all add: fresh_env_def m0_def)
    have free: "port_free env mw"
      using port None quietD(3,4) [OF q] by (simp add: port_free_def m0_def)
    have save: "ae_save env" using calls by (simp add: calls_succeed_def)
    obtain b where "r1 = Inr b"
      using createBinding_succeeds [OF invw free save nw(1) d f] cb by auto
    with createBinding_ok [OF invw nw d f cb] gw_state_create [OF cb] show ?thesis by (simp add: mw_def)
  qed
  then obtain b where inv1: "manager_inv {} {} m1" and n1: "map_of (leasesByDevice m1) ?d = None"
    and gs: "gw_state m1 = gw_state m0" and b: "r1 = Inr b" "map_of (bindingsByDevice m1) ?d = Some b" by blast
  have "gw_state m0 = Some False" using g by (simp add: gw_state_def m0_def)
  with gs obtain g0 where g0: "mg_gateway m1 = Some g0" "\<not> gw_closed g0" using gw_state_SomeD by metis
  have fit: "grant_fits (newLease env req ?d b) b ps"
    using fresh req ps by (simp add: grant_fits_def newLease_def fresh_env_def)
  have listen: "ae_listen env" using calls by (simp add: calls_succeed_def)
  obtain m2 e2 where B: "gatewayBind env (buildGrant (newLease env req ?d b) b ps) g0 m1 = (m2, e2)" by fastforce
  have "e2 = None" using gatewayBind_succeeds [OF inv1 b(2) n1 g0 fit listen] B by simp
  then show ?thesis
    unfolding acquire_fresh_def Let_def m0_def [symmetric] c_def [symmetric] c1 using b(1) B by (simp add: g0 the_default_def)
qed

lemma Acquire_succeeds:
  assumes inv: "manager_inv {} {} m" and idle: "inflightByDevice m = []" and fresh: "fresh_env env m"
    and n: "normalizeAcquire (mg_cfg m) request = (req, Inr ps)"
    and dev: "ResolveOnlineUSB (ar_DeviceIdentifier req) (mg_registry m) = Some device"
    and open_: "gw_state m = Some False" and calls: "calls_succeed env"
    and port: "map_of (bindingsByDevice m) (dv_ID device) \<noteq> None \<or> port_free env m"
    and owner: "\<forall>l. map_of (leasesByDevice m) (dv_ID device) = Some l \<longrightarrow> ls_OwnerID l = ar_OwnerID req"
  shows "snd (snd (Acquire env request m)) = None"
proof -
  let ?d = "dv_ID device"
  note N = normalizeAcquire_ok [OF manager_invD(8) [OF inv] n]
  define m1 where "m1 = run_events (ae_windows env 0) m"
  from events_quiet [OF inv] have inv1: "manager_inv {} {} m1" and q: "quiet m m1" by (simp_all add: m1_def)
  note Q = quietD [OF q]
  have idle1: "inflightByDevice m1 = []" using Q(5) idle by simp
  show ?thesis
  proof (cases "map_of (leasesByDevice m1) ?d")
    case (Some l1)
    have "map_of (leasesByDevice m) ?d \<noteq> None" using Q(8) [of ?d] Some by simp
    then obtain l where l: "map_of (leasesByDevice m) ?d = Some l" by auto
    with Q(10) [OF l] Some have "same_lease l l1" by auto
    then have "ls_OwnerID l1 = ls_OwnerID l" unfolding same_lease_def buildGrant_def by (metis Grant.select_convs(4))
    then have own: "ls_OwnerID l1 = ar_OwnerID req" using owner l by simp
    have act: "ls_Status l1 = LeaseActive"
      using maps_okD(9) [OF manager_invD(1) [OF inv1] Some] by (simp add: lease_served_def)
    show ?thesis
      using n dev idle1 Some own act by (simp add: Acquire_def m1_def [symmetric] Let_def case_prod_unfold)
  next
    case None
    have "gw_state m1 = Some False" using open_ by (simp add: m1_def)
    then obtain g where g: "mg_gateway m1 = Some g" "\<not> gw_closed g" using gw_state_SomeD by blast
    have d: "trim_space ?d \<noteq> []" using ResolveOnlineUSB_named(1) [OF manager_invD(9) [OF inv] dev] .
    have p1: "map_of (bindingsByDevice m1) ?d \<noteq> None \<or> port_free env m1"
      using port Q(1,3,4) by (simp add: port_free_def)
    have "Acquire env request m = acquire_fresh env req ps device g m1"
      using n dev idle1 None g by (simp add: Acquire_def m1_def [symmetric] Let_def)
    then show ?thesis
      using acquire_fresh_succeeds [OF inv1 None d fresh_quiet [OF q fresh] _ _ _ g calls p1] N by simp
  qed
qed

text \<open>C13: An online device gets its remote access. In every reachable manager, when the loop makes
  its request for a device that the registry resolves to an online USB device, the save and the
  socket succeed, and the device has a binding or some port of the range is free and can be
  listened on, then the acquisition succeeds unless another owner holds the device, and the
  device holds an active lease of the loop until the longest time to live has passed.\<close>

theorem online_device_gets_access:
  assumes "manager_reachable m" and "fresh_env env m" and "calls_succeed env"
    and "ResolveOnlineUSB (trim_space (dv_ID device)) (mg_registry m) = Some found"
    and "trim_space (dv_ID device) \<noteq> []"
    and "map_of (bindingsByDevice m) (dv_ID found) \<noteq> None \<or> port_free env m"
    and "\<forall>l. map_of (leasesByDevice m) (dv_ID found) = Some l \<longrightarrow> ls_OwnerID l = autoOwner"
  shows "\<exists>m' view lease. Acquire env (auto_request (mg_cfg m) device) m = (m', view, None)
    \<and> map_of (leasesByDevice m') (dv_ID found) = Some lease \<and> ls_OwnerID lease = autoOwner
    \<and> ls_Status lease = LeaseActive \<and> ls_ExpiresAt lease = ae_now env + cf_LeaseMaxTTL (mg_cfg m)"
proof -
  note R = reach_ok [OF assms(1)]
  obtain req ps where n: "normalizeAcquire (mg_cfg m) (auto_request (mg_cfg m) device) = (req, Inr ps)"
    and req: "ar_TTL req = cf_LeaseMaxTTL (mg_cfg m)" "ar_OwnerID req = autoOwner"
      "ar_DeviceIdentifier req = trim_space (dv_ID device)"
    using auto_request_ok [OF manager_invD(8) [OF R(1)] assms(5)] by blast
  have dev: "ResolveOnlineUSB (ar_DeviceIdentifier req) (mg_registry m) = Some found" using assms(4) req(3) by simp
  obtain g where "mg_gateway m = Some g" "\<not> gw_closed g" using reach_open [OF assms(1)] by blast
  then have op: "gw_state m = Some False" by (simp add: gw_state_def)
  have own: "\<forall>l. map_of (leasesByDevice m) (dv_ID found) = Some l \<longrightarrow> ls_OwnerID l = ar_OwnerID req"
    using assms(7) req(2) by simp
  obtain m' view e where A: "Acquire env (auto_request (mg_cfg m) device) m = (m', view, e)" by (metis surj_pair)
  have e: "e = None" using Acquire_succeeds [OF R(1,2) assms(2) n dev op assms(3,6) own] A by simp
  note K = Acquire_ok [OF R(1) assms(2) A]
  then have inv': "manager_inv {} {} m'" by blast
  have "exposed (dv_ID found) req (ae_now env) ps m'" using K e n dev by auto
  then obtain l where l: "map_of (leasesByDevice m') (dv_ID found) = Some l" "ls_OwnerID l = ar_OwnerID req"
    "ls_ExpiresAt l = ae_now env + ar_TTL req"
    unfolding exposed_def by blast
  have "ls_Status l = LeaseActive"
    using maps_okD(9) [OF manager_invD(1) [OF inv'] l(1)] by (simp add: lease_served_def)
  with A e l req show ?thesis by (intro exI [of _ m'] exI [of _ view] exI [of _ l]) simp
qed

section \<open>Closing\<close>

definition gateway_down :: "Manager \<Rightarrow> bool" where
  "gateway_down m \<longleftrightarrow> (\<exists>g. mg_gateway m = Some g \<and> gateway_ok g \<and> gw_closed g)"

lemma gateway_down_event: "gateway_down m \<Longrightarrow> gateway_down (apply_event ev m)"
proof (cases ev)
  case (EvGateway opr)
  assume "gateway_down m"
  then show ?thesis
    using gateway_apply_ok gateway_closed_stays by (auto simp: gateway_down_def EvGateway)
qed (auto simp: gateway_down_def ConnectionOpened_def ConnectionClosed_def ConnectionRejected_def Let_def split: option.split)

lemma gateway_down_events: "gateway_down m \<Longrightarrow> gateway_down (run_events es m)"
  by (induction es arbitrary: m) (simp_all add: run_events_def gateway_down_event)

lemma gateway_down_empty: "gateway_down m \<Longrightarrow> \<exists>g. mg_gateway m = Some g \<and> gw_listeners g = []"
  by (auto simp: gateway_down_def gateway_ok_def)

lemma unbind_all_state: "gateway_ok g \<Longrightarrow> gateway_ok (unbind_all ids g) \<and> gw_closed (unbind_all ids g) = gw_closed g"
proof (induction ids arbitrary: g)
  case (Cons i ids)
  have "gateway_ok (fst (Unbind i g))" using gateway_apply_ok [OF Cons.prems, of "GUnbind i"] by simp
  moreover have "gw_closed (fst (Unbind i g)) = gw_closed g" using gateway_apply_closed [of "GUnbind i" g] by simp
  ultimately show ?case using Cons.IH [of "fst (Unbind i g)"] by (simp add: unbind_all_def)
qed (simp add: unbind_all_def)

text \<open>C27: \<open>Close\<close> shuts remote access down for good. On a reachable manager it leaves a closed
  gateway without a listener, whatever callbacks run meanwhile or later; it keeps every binding
  and, when the save succeeds, what is saved is the final set of bindings; it reports an error
  exactly when the gateway did not drain or the save failed; the loop does nothing afterwards
  and a second call returns the same result.\<close>

theorem Close_shuts_down:
  assumes "manager_reachable m" and "manager_Close window drained save m = (m', failed)"
  shows "mg_closed m'
    \<and> (\<forall>events. \<exists>g. mg_gateway (run_events events m') = Some g \<and> gw_listeners g = [])
    \<and> bindingsByDevice m' = bindingsByDevice m
    \<and> (save \<longrightarrow> mg_saved m' = stored_form (sort_key bd_DeviceID (map snd (bindingsByDevice m'))))
    \<and> (failed \<longleftrightarrow> \<not> (drained \<and> save))
    \<and> (\<forall>env. manager_tick env m' = m') \<and> (\<forall>w dr sv. manager_Close w dr sv m' = (m', failed))"
proof -
  define m0 where "m0 = m\<lparr>mg_closed := True\<rparr>"
  have "manager_inv {} {} m0"
    using reach_ok(1) [OF assms(1)] by (simp add: m0_def manager_inv_def ports_ok_def grants_eq)
  define m1 where "m1 = run_events window m0"
  have inv1: "manager_inv {} {} m1" and q: "quiet m0 m1"
    using events_quiet [OF \<open>manager_inv {} {} m0\<close>, of window] by (simp_all add: m1_def)
  have c1: "mg_closed m1" using q by (simp add: quiet_def m0_def)
  obtain g where g: "mg_gateway m = Some g" "\<not> gw_closed g" using reach_open [OF assms(1)] by blast
  then have "gw_state m0 = Some False" by (simp add: m0_def gw_state_def)
  then have "gw_state m1 = Some False" by (simp add: m1_def)
  then obtain g1 where g1: "mg_gateway m1 = Some g1" "\<not> gw_closed g1" using gw_state_SomeD by blast
  define ids where "ids = List.map_filter (\<lambda>lease. map_option bd_ID (map_of (bindingsByID m1) (ls_BindingID lease)))
                  (map snd (leasesByDevice m1))"
  have u: "gateway_ok (unbind_all ids g1)" "\<not> gw_closed (unbind_all ids g1)"
    using unbind_all_state [OF manager_invD(6) [OF inv1 g1(1)], of ids] g1(2) by simp_all
  define g2 where "g2 = (unbind_all ids g1)\<lparr>gw_closed := True, gw_listeners := []\<rparr>"
  have close: "gw_Close drained (unbind_all ids g1)
      = (g2, map (\<lambda>(_, s). fst (li_close s)) (gw_listeners (unbind_all ids g1)), drained)"
    using u(2) by (simp add: gw_Close_def g2_def)
  have ok2: "gateway_ok g2" using gateway_apply_ok [OF u(1), of "GClose drained"] close by simp
  define m2 where "m2 = m1\<lparr>mg_gateway := Some g2\<rparr>"
  obtain m3 saved where sv: "saveBindings save m2 = (m3, saved)" by fastforce
  have "validate (cf_ProxyPortMin (mg_cfg m2)) (cf_ProxyPortMax (mg_cfg m2))
      (sort_key bd_DeviceID (map snd (bindingsByDevice m2)))
      = Inr (stored_form (sort_key bd_DeviceID (map snd (bindingsByDevice m2))))"
    using snapshot_valid [OF inv1] by (simp add: validate_iff m2_def)
  then have m3: "saved = save" "m3 = (if save then m2\<lparr>mg_saved := stored_form (sort_key bd_DeviceID (map snd (bindingsByDevice m2)))\<rparr> else m2)"
    using sv by (auto simp: saveBindings_def split: if_splits)
  have nc: "\<not> mg_closed m" using reach_ok(3) [OF assms(1)] .
  have run: "manager_Close window drained save m = (m3\<lparr>mg_closeErr := \<not> (drained \<and> save)\<rparr>, \<not> (drained \<and> save))"
    using nc g1 close sv m3(1)
    by (simp add: manager_Close_def Let_def m0_def [symmetric] m1_def [symmetric] ids_def [symmetric] m2_def [symmetric])
  then have m': "m' = m3\<lparr>mg_closeErr := \<not> (drained \<and> save)\<rparr>" "failed = (\<not> (drained \<and> save))" using assms(2) by auto
  have fields: "mg_closed m'" "mg_gateway m' = Some g2" "bindingsByDevice m' = bindingsByDevice m" "mg_closeErr m' = failed"
    using c1 quietD(1) [OF q] by (auto simp: m' m3(2) m2_def m0_def)
  have down: "gateway_down m'" using fields(2) ok2 by (simp add: gateway_down_def g2_def)
  have "save \<longrightarrow> mg_saved m' = stored_form (sort_key bd_DeviceID (map snd (bindingsByDevice m')))"
    by (simp add: m' m3(2))
  then show ?thesis
    using fields m'(2) gateway_down_empty [OF gateway_down_events [OF down]]
    by (simp add: manager_tick_def manager_Close_def)
qed

end
