(* ===== verification/Manager_Witnesses.thy ===== *)
theory Manager_Witnesses
  imports Manager_Properties Manager_Progress
begin

text \<open>
  One small run of the manager on the defaults: a device that was seen, a restored binding, the
  loop's acquisition, and the pass of the loop after its lease has expired. Each property of
  remote access is applied to it.
\<close>

section \<open>The run\<close>

definition demo_snapshot :: "Binding list" where
  "demo_snapshot = [\<lparr>bd_ID = ''b1'', bd_DeviceID = ''a'', bd_PublicHost = ''old'', bd_Port = 50007,
     bd_Status = BindingReserved, bd_CreatedAt = 5, bd_UpdatedAt = 5\<rparr>]"

definition demo_start :: Manager where
  "demo_start = (case NewManager seen_registry (Inr demo_snapshot) default_cfg of Inr m \<Rightarrow> SetGateway gw_New m)"

definition demo_env :: acquire_env where
  "demo_env = \<lparr>ae_now = 1000, ae_created = 1000, ae_commit = 1000, ae_listens = (\<lambda>_. True),
     ae_bindingID = ''b2'', ae_leaseID = ''l1'', ae_save = True, ae_listen = True, ae_windows = (\<lambda>_. [])\<rparr>"

definition demo_exposed :: Manager where
  "demo_exposed = fst (Acquire demo_env (auto_request default_cfg phone) demo_start)"

definition demo_tick :: tick_env where
  "demo_tick = \<lparr>te_now = 1000 + 8 * 3600 * Second, te_release = (\<lambda>_. \<lparr>re_now = 0, re_done = 0, re_unbind = True,
     re_save = True, re_windows = (\<lambda>_. [])\<rparr>), te_bindings = 0, te_save = True, te_acquire = (\<lambda>_. demo_env),
     te_windows = (\<lambda>_. [])\<rparr>"

lemma default_cfg_fields:
  "cf_ProxyPortMin default_cfg = 50000" "cf_ProxyPortMax default_cfg = 50500"
  "cf_LeaseMaxTTL default_cfg = 8 * 3600 * Second" "cf_AllowedSourceCIDRs default_cfg = defaultCIDRs"
  by (simp_all add: default_cfg_def config_build_def bare_values)

lemma demo_started: "manager_start seen_registry demo_snapshot default_cfg demo_start"
proof -
  have c: "config_ok default_cfg" using config_Load_ok(1) [OF default_loads] .
  have r: "dregistry_ok seen_registry" by (simp add: seen_registry_def refresh_ok dregistry_ok_new)
  have v: "bindings_valid 50000 50500 demo_snapshot" "distinct (map bd_ID demo_snapshot)" by code_simp+
  obtain m where "NewManager seen_registry (Inr demo_snapshot) default_cfg = Inr m"
    using NewManager_ok [OF c r] v default_cfg_fields by metis
  with c r v show ?thesis by (simp add: manager_start_def demo_start_def default_cfg_fields)
qed

lemma demo_reachable: "manager_reachable demo_start"
  unfolding manager_reachable_def using demo_started manager_run.no_step by blast

lemma demo_start_fields:
  "mg_cfg demo_start = default_cfg" "leasesByDevice demo_start = []" "leasesByID demo_start = []"
  "map_of (bindingsByDevice demo_start) ''a'' = Some (restored default_cfg (hd demo_snapshot))"
  "mg_registry demo_start = seen_registry" "mg_gateway demo_start = Some gw_New"
  using start_ok [OF demo_started] by (simp_all add: demo_snapshot_def)

lemma demo_fields:
  "ae_now demo_env = 1000" "te_now demo_tick = 28800000001000" "dv_ID phone = ''a''"
  "bd_ID (hd demo_snapshot) = ''b1''" "bd_Port (hd demo_snapshot) = 50007"
  by (simp_all add: demo_env_def demo_tick_def phone_def demo_snapshot_def)

lemma demo_resolves:
  "ResolveOnlineUSB (trim_space (dv_ID phone)) seen_registry = Some (phone\<lparr>dv_UpdatedAt := 100\<rparr>)"
  "trim_space (dv_ID phone) \<noteq> []"
  by code_simp+

lemma demo_env_ok: "fresh_env demo_env demo_start" "calls_succeed demo_env"
proof -
  have "map_of (bindingsByID demo_start) ''b2'' = None"
  proof (rule ccontr)
    assume "map_of (bindingsByID demo_start) ''b2'' \<noteq> None"
    then obtain b where b: "map_of (bindingsByID demo_start) ''b2'' = Some b" by auto
    note ok = manager_invD(1) [OF start_ok(1) [OF demo_started]]
    from maps_okD(4) [OF ok b] maps_okD(3) [OF ok b] start_ok(9) [OF demo_started] show False
      by (auto simp: demo_snapshot_def split: if_splits)
  qed
  moreover have "trim_space ''b2'' \<noteq> []" by code_simp
  ultimately show "fresh_env demo_env demo_start" by (simp add: fresh_env_def demo_env_def demo_start_fields)
  show "calls_succeed demo_env" by (simp add: calls_succeed_def demo_env_def)
qed

lemma demo_acquires: "manager_step demo_start demo_exposed"
  unfolding demo_exposed_def by (rule Acquires [OF demo_env_ok(1)])

lemma demo_exposed_reachable: "manager_reachable demo_exposed"
  unfolding manager_reachable_def using demo_started manager_run.one_more [OF manager_run.no_step demo_acquires] by blast

section \<open>Witnesses\<close>

lemma online_device_gets_access_witness:
  "\<exists>m' view lease. Acquire demo_env (auto_request default_cfg phone) demo_start = (m', view, None)
    \<and> map_of (leasesByDevice m') ''a'' = Some lease \<and> ls_ExpiresAt lease = 28800000001000"
proof -
  have "map_of (bindingsByDevice demo_start) (dv_ID (phone\<lparr>dv_UpdatedAt := 100\<rparr>)) \<noteq> None \<or> port_free demo_env demo_start"
    using demo_start_fields(4) by (simp add: phone_def)
  moreover have "ResolveOnlineUSB (trim_space (dv_ID phone)) (mg_registry demo_start) = Some (phone\<lparr>dv_UpdatedAt := 100\<rparr>)"
    using demo_resolves(1) by (simp only: demo_start_fields)
  ultimately obtain m' view lease where
    "Acquire demo_env (auto_request (mg_cfg demo_start) phone) demo_start = (m', view, None)"
    "map_of (leasesByDevice m') (dv_ID (phone\<lparr>dv_UpdatedAt := 100\<rparr>)) = Some lease"
    "ls_ExpiresAt lease = ae_now demo_env + cf_LeaseMaxTTL (mg_cfg demo_start)"
    using online_device_gets_access [OF demo_reachable demo_env_ok _ demo_resolves(2), of "phone\<lparr>dv_UpdatedAt := 100\<rparr>"]
    by (auto simp: demo_start_fields)
  then show ?thesis
    by (intro exI [of _ m'] exI [of _ view] exI [of _ lease])
      (simp add: demo_start_fields default_cfg_fields demo_fields)
qed

text \<open>The same facts from the lemmas, for the other witnesses.\<close>

lemma demo_acquired:
  "\<exists>view. Acquire demo_env (auto_request default_cfg phone) demo_start = (demo_exposed, view, None)"
proof -
  have c: "config_ok default_cfg" using config_Load_ok(1) [OF default_loads] .
  obtain req where n: "normalizeAcquire default_cfg (auto_request default_cfg phone)
      = (req, Inr (map (\<lambda>c. Masked (the (ParsePrefix (trim_space c)))) (cf_AllowedSourceCIDRs default_cfg)))"
    "ar_DeviceIdentifier req = trim_space (dv_ID phone)"
    using auto_request_ok [OF c demo_resolves(2)] by blast
  note R = reach_ok [OF demo_reachable]
  have dev: "ResolveOnlineUSB (ar_DeviceIdentifier req) (mg_registry demo_start) = Some (phone\<lparr>dv_UpdatedAt := 100\<rparr>)"
    using n(2) demo_resolves(1) by (simp only: demo_start_fields)
  have n': "normalizeAcquire (mg_cfg demo_start) (auto_request default_cfg phone)
      = (req, Inr (map (\<lambda>c. Masked (the (ParsePrefix (trim_space c)))) (cf_AllowedSourceCIDRs default_cfg)))"
    using n(1) by (simp only: demo_start_fields)
  have "snd (snd (Acquire demo_env (auto_request default_cfg phone) demo_start)) = None"
    by (rule Acquire_succeeds [OF R(1,2) demo_env_ok(1) n' dev _ demo_env_ok(2)])
      (simp_all add: demo_start_fields demo_fields gw_state_def gw_New_def)
  then show ?thesis by (simp add: demo_exposed_def prod_eq_iff)
qed

lemma demo_lease:
  "\<exists>lease. map_of (leasesByDevice demo_exposed) ''a'' = Some lease \<and> ls_ExpiresAt lease = 28800000001000"
proof -
  have c: "config_ok default_cfg" using config_Load_ok(1) [OF default_loads] .
  obtain view where a: "Acquire demo_env (auto_request default_cfg phone) demo_start = (demo_exposed, view, None)"
    using demo_acquired by blast
  from Acquire_ok [OF reach_ok(1) [OF demo_reachable] demo_env_ok(1) a] obtain req ps device where
    n: "normalizeAcquire default_cfg (auto_request default_cfg phone) = (req, Inr ps)"
    "ResolveOnlineUSB (ar_DeviceIdentifier req) seen_registry = Some device" "exposed (dv_ID device) req 1000 ps demo_exposed"
    by (auto simp: demo_start_fields demo_env_def)
  have "ar_TTL req = 8 * 3600 * Second" "ar_DeviceIdentifier req = trim_space (dv_ID phone)"
    using auto_request_ok [OF c demo_resolves(2)] n(1) by (auto simp: default_cfg_fields)
  with n demo_resolves(1) show ?thesis by (auto simp: exposed_def phone_def)
qed

lemma leases_match_listeners_witness:
  "\<exists>g b s. mg_gateway demo_exposed = Some g \<and> map_of (bindingsByDevice demo_exposed) ''a'' = Some b
    \<and> map_of (gw_listeners g) (bd_ID b) = Some s \<and> gr_ExpiresAt (li_grant s) = 28800000001000"
proof -
  obtain g where g: "mg_gateway demo_exposed = Some g" using reach_ok(4) [OF demo_exposed_reachable] by auto
  obtain lease where l: "map_of (leasesByDevice demo_exposed) ''a'' = Some lease" "ls_ExpiresAt lease = 28800000001000"
    using demo_lease by blast
  from leases_match_listeners [OF demo_exposed_reachable g] l g show ?thesis by metis
qed

lemma bindings_are_stable_witness:
  "\<exists>b. map_of (bindingsByDevice demo_exposed) ''a'' = Some b \<and> bd_ID b = ''b1'' \<and> bd_Port b = 50007"
proof -
  have "hd demo_snapshot \<in> set demo_snapshot" "bd_DeviceID (hd demo_snapshot) = ''a''" by (simp_all add: demo_snapshot_def)
  with bindings_are_stable [OF demo_started run_step [OF demo_acquires] manager_run.no_step] show ?thesis
    by (metis demo_fields(4,5))
qed

lemma Acquire_opens_admission_witness:
  "\<exists>lease g s. map_of (leasesByDevice demo_exposed) ''a'' = Some lease \<and> mg_gateway demo_exposed = Some g
    \<and> map_of (gw_listeners g) ''b1'' = Some s
    \<and> \<not> fst (snd (snd (admit 1 (Some (V4 0x7F000001)) 28800000001000 s)))"
proof -
  obtain view where a: "Acquire demo_env (auto_request default_cfg phone) demo_start = (demo_exposed, view, None)"
    using demo_acquired by blast
  from Acquire_opens_admission [OF demo_reachable demo_env_ok(1) a] obtain req ps device lease b g s where
    A: "normalizeAcquire default_cfg (auto_request default_cfg phone) = (req, Inr ps)"
    "ResolveOnlineUSB (ar_DeviceIdentifier req) seen_registry = Some device"
    "map_of (leasesByDevice demo_exposed) (dv_ID device) = Some lease"
    "map_of (bindingsByDevice demo_exposed) (dv_ID device) = Some b"
    "mg_gateway demo_exposed = Some g" "map_of (gw_listeners g) (bd_ID b) = Some s"
    "\<forall>conn address now. fst (snd (snd (admit conn address now s))) \<longleftrightarrow>
          now < 1000 + ar_TTL req \<and> (\<exists>a. address = Some a \<and> prefixesContain ps a)
          \<and> int (length (li_connections s)) < ar_MaxConnections req"
    by (auto simp: demo_start_fields demo_env_def)
  have c: "config_ok default_cfg" using config_Load_ok(1) [OF default_loads] .
  have r: "ar_TTL req = 8 * 3600 * Second" "ar_DeviceIdentifier req = trim_space (dv_ID phone)"
    using auto_request_ok [OF c demo_resolves(2)] A(1) by (auto simp: default_cfg_fields)
  then have d: "dv_ID device = ''a''" using A(2) demo_resolves(1) by (auto simp: phone_def)
  have "keeps demo_start demo_exposed" using step_ok [OF reach_ok(1) [OF demo_reachable] demo_acquires] by blast
  then obtain b' where "map_of (bindingsByDevice demo_exposed) ''a'' = Some b'"
    "same_binding (restored default_cfg (hd demo_snapshot)) b'"
    using demo_start_fields(4) unfolding keeps_def by blast
  then have "bd_ID b = ''b1''" using A(4) d demo_fields(4) by (simp add: same_binding_def)
  with A d r show ?thesis by auto
qed

lemma reconcile_withdraws_witness:
  "map_of (leasesByDevice (reconcile demo_tick demo_exposed)) ''a'' = None"
proof -
  have unb: "\<forall>k. re_unbind (te_release demo_tick k)" by (simp add: demo_tick_def)
  have quiet: "tick_quiet demo_tick" by (simp add: tick_quiet_def scan_free_def demo_tick_def)
  have "keeps demo_exposed (reconcile demo_tick demo_exposed)"
    using reconcile_ok [OF reach_ok(1,2) [OF demo_exposed_reachable] unb] by blast
  then obtain g where g: "mg_gateway (reconcile demo_tick demo_exposed) = Some g"
    using reach_ok(4) [OF demo_exposed_reachable] by (auto simp: keeps_def)
  obtain lease where l: "map_of (leasesByDevice demo_exposed) ''a'' = Some lease" "ls_ExpiresAt lease = 28800000001000"
    using demo_lease by blast
  from reconcile_withdraws [OF demo_exposed_reachable unb g] quiet l(1)
  have "map_of (leasesByDevice (reconcile demo_tick demo_exposed)) ''a'' \<noteq> None \<longrightarrow> te_now demo_tick < ls_ExpiresAt lease"
    by metis
  then show ?thesis by (simp add: l(2) demo_fields)
qed

lemma Load_enforces_limits_witness: "cf_ProxyPortMax default_cfg \<le> 65535 \<and> cf_HostAuth default_cfg \<in> {''off'', ''confirm''}"
  using Load_enforces_limits [OF default_loads] by blast

lemma auto_request_accepted_witness:
  "\<exists>req ps. normalizeAcquire default_cfg (auto_request default_cfg phone) = (req, Inr ps)
    \<and> ar_TTL req = 28800000000000"
  using auto_request_accepted [OF default_loads demo_resolves(2)] by (auto simp: default_cfg_fields)

definition one_codec :: "bindingSnapshot \<Rightarrow> json_codec" where
  "one_codec sn = \<lparr>jc_encode = (\<lambda>_. [1]), jc_decode = (\<lambda>_. Some (sn, [])), jc_next = (\<lambda>_. NextEOF)\<rparr>"

definition demo_saved :: bindingSnapshot where
  "demo_saved = \<lparr>sn_Version = bindingSchemaVersion,
     sn_Bindings = stored_form (sort_key bd_DeviceID (map snd (bindingsByDevice demo_exposed)))\<rparr>"

lemma restart_restores_bindings_witness:
  "\<exists>ops m' b. NewManager seen_registry (Load (one_codec demo_saved) 50000 50500 (fs_run ops Map.empty)) default_cfg = Inr m'
    \<and> map_of (bindingsByDevice m') ''a'' = Some b \<and> bd_Port b = 50007 \<and> bd_Status b = BindingReserved"
proof -
  have k: "keeps demo_start demo_exposed" using step_ok [OF reach_ok(1) [OF demo_reachable] demo_acquires] by blast
  have cfg: "mg_cfg demo_exposed = default_cfg" using k demo_start_fields(1) by (simp add: keeps_def)
  obtain b where b: "map_of (bindingsByDevice demo_exposed) ''a'' = Some b"
    "same_binding (restored default_cfg (hd demo_snapshot)) b"
    using k demo_start_fields(4) unfolding keeps_def by blast
  have reg: "dregistry_ok seen_registry" by (simp add: seen_registry_def refresh_ok dregistry_ok_new)
  have reads: "codec_reads (one_codec demo_saved) demo_saved" by (simp add: codec_reads_def one_codec_def)
  have val: "validate 50000 50500 (sort_key bd_DeviceID (map snd (bindingsByDevice demo_exposed)))
      = Inr (stored_form (sort_key bd_DeviceID (map snd (bindingsByDevice demo_exposed))))"
    using snapshot_valid [OF reach_ok(1) [OF demo_exposed_reachable]] by (simp add: validate_iff cfg default_cfg_fields)
  obtain ops where sv: "Save (one_codec demo_saved) 50000 50500 all_ok
      (sort_key bd_DeviceID (map snd (bindingsByDevice demo_exposed))) Map.empty = (ops, None)"
    using val by (simp add: Save_def save_ops_def save_env.make_def Let_def)
  from restart_restores_bindings [OF demo_exposed_reachable, of "one_codec demo_saved" all_ok Map.empty ops seen_registry]
    sv reads reg obtain m' where
    "NewManager seen_registry (Load (one_codec demo_saved) 50000 50500 (fs_run ops Map.empty)) default_cfg = Inr m'"
    "map_of (bindingsByDevice m') = (\<lambda>device. map_option (\<lambda>b. b\<lparr>bd_PublicHost := cf_PublicHost default_cfg,
        bd_Status := BindingReserved\<rparr>) (map_of (bindingsByDevice demo_exposed) device))"
    by (auto simp: cfg default_cfg_fields demo_saved_def)
  then show ?thesis
    using b by (intro exI [of _ ops] exI [of _ m'] exI [of _ "b\<lparr>bd_PublicHost := cf_PublicHost default_cfg,
        bd_Status := BindingReserved\<rparr>"]) (simp add: same_binding_def demo_fields)
qed

lemma Close_shuts_down_witness:
  "\<exists>m' failed g. manager_Close [] True False demo_exposed = (m', failed) \<and> failed
    \<and> mg_gateway m' = Some g \<and> gw_listeners g = []"
proof -
  obtain m' failed where c: "manager_Close [] True False demo_exposed = (m', failed)" by fastforce
  note C = Close_shuts_down [OF demo_exposed_reachable c]
  have "\<exists>g. mg_gateway (run_events [] m') = Some g \<and> gw_listeners g = []" using C by blast
  then show ?thesis using c C by (auto simp: run_events_def)
qed

end
