(* ===== verification/Bridge_Common.thy ===== *)
theory Bridge_Common
  imports Frame
begin

text \<open>
  What the bridges share (\<^verbatim>\<open>internal/bridge/util.go\<close> and the interfaces at the head of
  \<^verbatim>\<open>internal/bridge/file.go\<close>): the quoting of command arguments, the check for unsafe text,
  and the life of a target channel inside a session. A target channel is a number; what a
  bridge does to the outside (frames written to the client, commands opened on the main HDC
  server, targets written to and closed) is appended to a log. A session object is shared
  between the connection's reader and its own goroutine, so objects live in a heap and are
  addressed by position; a goroutine is an entry of a table that says where it is.
\<close>

section \<open>Command text\<close>

text \<open>\<^verbatim>\<open>strings.ReplaceAll\<close> of the double quote by an escaped one.\<close>

definition escape_quotes :: "string \<Rightarrow> string" where
  "escape_quotes value = concat (map (\<lambda>c. if c = CHR 0x22 then [CHR 0x5C, CHR 0x22] else [c]) value)"

definition quoteCommandArg :: "string \<Rightarrow> string" where
  "quoteCommandArg value =
     (if value \<noteq> [] \<and> \<not> contains_any value [CHR '' '', CHR 0x09, CHR 0x0D, CHR 0x0A, CHR 0x22]
      then value else CHR 0x22 # escape_quotes value @ [CHR 0x22])"

definition hasUnsafeText :: "string \<Rightarrow> bool" where
  "hasUnsafeText value = contains_any value [CHR 0x00, CHR 0x0D, CHR 0x0A]"

section \<open>Effects\<close>

datatype bridge_effect =
    FrameSent bytes
  | TargetOpened nat string
  | TargetWrote nat bytes
  | TargetClosed nat
  | ChunkStored nat bytes

type_synonym bridge_log = "bridge_effect list"

text \<open>\<open>ChunkStored a data\<close> says that the file of session \<open>a\<close> took the bytes.\<close>

definition stored_bytes :: "nat \<Rightarrow> bridge_log \<Rightarrow> bytes" where
  "stored_bytes a l = concat (map (\<lambda>e. case e of ChunkStored x data \<Rightarrow> if x = a then data else [] | _ \<Rightarrow> []) l)"

text \<open>A write to the client connection: it may fail, and then nothing is sent.\<close>

definition sent :: "bool \<Rightarrow> bytes \<Rightarrow> bridge_log" where
  "sent ok frame = (if ok then [FrameSent frame] else [])"

definition opened_targets :: "bridge_log \<Rightarrow> nat set" where
  "opened_targets l = {t. \<exists>c. TargetOpened t c \<in> set l}"

definition closed_targets :: "bridge_log \<Rightarrow> nat set" where
  "closed_targets l = {t. TargetClosed t \<in> set l}"

definition opened_commands :: "bridge_log \<Rightarrow> string list" where
  "opened_commands l = concat (map (\<lambda>e. case e of TargetOpened _ c \<Rightarrow> [c] | _ \<Rightarrow> []) l)"

definition sent_frames :: "bridge_log \<Rightarrow> bytes list" where
  "sent_frames l = concat (map (\<lambda>e. case e of FrameSent f \<Rightarrow> [f] | _ \<Rightarrow> []) l)"

text \<open>How a read from the target ended: at the deadline, at its end, or with an error.\<close>

datatype target_end = EndDeadline | EndClosed | EndError

datatype open_result = Opened nat | OpenFailed | OpenDeadline

section \<open>Sessions with a target\<close>

record target_session =
  ss_channelID :: u32
  ss_target :: "nat option"
  ss_closed :: bool

definition attachTarget :: "nat \<Rightarrow> 'a target_session_scheme \<Rightarrow> 'a target_session_scheme option" where
  "attachTarget t s = (if ss_closed s then None else Some (s\<lparr>ss_target := Some t\<rparr>))"

definition close_effects :: "'a target_session_scheme \<Rightarrow> bridge_log" where
  "close_effects s =
     (if ss_closed s then [] else case ss_target s of None \<Rightarrow> [] | Some t \<Rightarrow> [TargetClosed t])"

definition close_session :: "'a target_session_scheme \<Rightarrow> 'a target_session_scheme" where
  "close_session s = (if ss_closed s then s else s\<lparr>ss_closed := True, ss_target := None\<rparr>)"

definition held_targets :: "'a target_session_scheme list \<Rightarrow> nat set" where
  "held_targets h = {t. \<exists>s \<in> set h. \<not> ss_closed s \<and> ss_target s = Some t}"

text \<open>\<^verbatim>\<open>drainTargetChannel\<close>: read until the target ends or 64 KiB have arrived, then close it.
  The reads are given; the last one may end the target.\<close>

fun drain_reads :: "nat \<Rightarrow> (nat \<times> bool) list \<Rightarrow> bool" where
  "drain_reads drained [] = False"
| "drain_reads drained ((n, ended) # rest) =
     (if ended then True
      else if 65536 < drained + n then True
      else drain_reads (drained + n) rest)"

definition drainTargetChannel :: "nat \<Rightarrow> (nat \<times> bool) list \<Rightarrow> bridge_log" where
  "drainTargetChannel target reads = (if drain_reads 0 reads then [TargetClosed target] else [])"

section \<open>Lemmas\<close>

lemma effect_sets_append [simp]:
  "opened_targets (l @ m) = opened_targets l \<union> opened_targets m"
  "closed_targets (l @ m) = closed_targets l \<union> closed_targets m"
  "opened_commands (l @ m) = opened_commands l @ opened_commands m"
  "sent_frames (l @ m) = sent_frames l @ sent_frames m"
  by (auto simp: opened_targets_def closed_targets_def opened_commands_def sent_frames_def)

lemma effect_sets_Nil [simp]:
  "opened_targets [] = {}" "closed_targets [] = {}" "opened_commands [] = []" "sent_frames [] = []"
  by (simp_all add: opened_targets_def closed_targets_def opened_commands_def sent_frames_def)

lemma effect_sets_one [simp]:
  "opened_targets [FrameSent f] = {}" "opened_targets [TargetOpened t c] = {t}"
  "opened_targets [TargetWrote t b] = {}" "opened_targets [TargetClosed t] = {}"
  "closed_targets [FrameSent f] = {}" "closed_targets [TargetOpened t c] = {}"
  "closed_targets [TargetWrote t b] = {}" "closed_targets [TargetClosed t] = {t}"
  "opened_commands [FrameSent f] = []" "opened_commands [TargetOpened t c] = [c]"
  "opened_commands [TargetWrote t b] = []" "opened_commands [TargetClosed t] = []"
  "sent_frames [FrameSent f] = [f]" "sent_frames [TargetOpened t c] = []"
  "sent_frames [TargetWrote t b] = []" "sent_frames [TargetClosed t] = []"
  by (auto simp: opened_targets_def closed_targets_def opened_commands_def sent_frames_def)

lemma chunk_sets [simp]:
  "opened_targets [ChunkStored a d] = {}" "closed_targets [ChunkStored a d] = {}"
  "opened_commands [ChunkStored a d] = []" "sent_frames [ChunkStored a d] = []"
  by (auto simp: opened_targets_def closed_targets_def opened_commands_def sent_frames_def)

lemma stored_bytes_simps [simp]:
  "stored_bytes a [] = []" "stored_bytes a (l @ m) = stored_bytes a l @ stored_bytes a m"
  "stored_bytes a [FrameSent f] = []" "stored_bytes a [TargetOpened t c] = []"
  "stored_bytes a [TargetWrote t b] = []" "stored_bytes a [TargetClosed t] = []"
  "stored_bytes a [ChunkStored x d] = (if x = a then d else [])"
  "stored_bytes a (ChunkStored x d # l) = (if x = a then d else []) @ stored_bytes a l"
  by (simp_all add: stored_bytes_def)

lemma sent_sets [simp]:
  "stored_bytes a (sent ok f) = []"
  "opened_targets (sent ok f) = {}" "closed_targets (sent ok f) = {}"
  "opened_commands (sent ok f) = []"
  by (simp_all add: sent_def)

lemma close_effects_sets [simp]:
  "stored_bytes a (close_effects s) = []"
  "opened_targets (close_effects s) = {}" "opened_commands (close_effects s) = []"
  "sent_frames (close_effects s) = []"
  "closed_targets (close_effects s) =
     (if ss_closed s then {} else set_option (ss_target s))"
  by (auto simp: close_effects_def split: option.splits)

lemma close_session_sel [simp]:
  "ss_closed (close_session s)" "ss_channelID (close_session s) = ss_channelID s"
  "close_session (close_session s) = close_session s"
  "target_session.more (close_session s) = target_session.more s"
  by (simp_all add: close_session_def)

lemma attachTarget_Some: "attachTarget t s = Some s' \<longleftrightarrow> \<not> ss_closed s \<and> s' = s\<lparr>ss_target := Some t\<rparr>"
  by (auto simp: attachTarget_def)

lemma held_append [simp]: "held_targets (h @ [s]) = held_targets h \<union> held_targets [s]"
  by (auto simp: held_targets_def)

lemma held_one [simp]: "held_targets [s] = (if ss_closed s then {} else set_option (ss_target s))"
  by (auto simp: held_targets_def)

lemma held_Nil [simp]: "held_targets [] = {}"
  by (simp add: held_targets_def)

text \<open>Every target a session lets go of when it is replaced is either still held or named.\<close>

lemma held_update:
  assumes "a < length h"
  shows "held_targets h \<subseteq> held_targets (h[a := s]) \<union> held_targets [h ! a]"
proof
  fix t
  assume "t \<in> held_targets h"
  then obtain i where i: "i < length h" "\<not> ss_closed (h ! i)" "ss_target (h ! i) = Some t"
    by (auto simp: held_targets_def in_set_conv_nth)
  show "t \<in> held_targets (h[a := s]) \<union> held_targets [h ! a]"
  proof (cases "i = a")
    case False
    then have "h[a := s] ! i = h ! i" "i < length (h[a := s])" using i by simp_all
    then have "h ! i \<in> set (h[a := s])" by (metis nth_mem)
    then show ?thesis using i by (auto simp: held_targets_def)
  qed (use i in auto)
qed

lemma held_update_new:
  assumes "a < length h"
  shows "held_targets [s] \<subseteq> held_targets (h[a := s])"
  using set_update_memI [OF assms, of s] by (fastforce simp: held_targets_def)

lemma held_update_old: "held_targets (h[a := s]) \<subseteq> held_targets h \<union> held_targets [s]"
  using set_update_subset_insert [of h a s] by (fastforce simp: held_targets_def)

text \<open>Nothing is held once every session is closed.\<close>

lemma held_none: "\<forall>s \<in> set h. ss_closed s \<Longrightarrow> held_targets h = {}"
  by (simp add: held_targets_def)

text \<open>Every opened target is closed or in a set; the set is what the sessions hold.\<close>

definition targets_in :: "bridge_log \<Rightarrow> nat set \<Rightarrow> bool" where
  "targets_in l H \<longleftrightarrow> opened_targets l \<subseteq> closed_targets l \<union> H"

abbreviation targets_ok :: "bridge_log \<Rightarrow> 'a target_session_scheme list \<Rightarrow> bool" where
  "targets_ok l h \<equiv> targets_in l (held_targets h)"

lemma targets_in_more:
  "targets_in l H \<Longrightarrow> opened_targets m \<subseteq> closed_targets m \<Longrightarrow> H \<subseteq> H' \<Longrightarrow> targets_in (l @ m) H'"
  by (auto simp: targets_in_def)

lemma targets_ok_more:
  "targets_ok l h \<Longrightarrow> opened_targets m \<subseteq> closed_targets m \<Longrightarrow> targets_ok (l @ m) h"
  by (rule targets_in_more) auto

lemma targets_in_close:
  assumes "targets_in l (held_targets h \<union> K)" "a < length h"
  shows "targets_in (l @ close_effects (h ! a)) (held_targets (h[a := close_session (h ! a)]) \<union> K)"
  using assms(1) held_update [OF assms(2), of "close_session (h ! a)"]
  by (auto simp: targets_in_def)

lemma targets_ok_close:
  assumes "targets_ok l h" "a < length h"
  shows "targets_ok (l @ close_effects (h ! a)) (h[a := close_session (h ! a)])"
  using targets_in_close [of l h "{}" a] assms by simp

lemma targets_in_attach:
  assumes "targets_in l (held_targets h \<union> K)" "a < length h" "ss_target (h ! a) = None" "\<not> ss_closed s"
    "ss_target s = Some t"
  shows "targets_in (l @ [TargetOpened t c]) (held_targets (h[a := s]) \<union> K)"
  using assms held_update [OF assms(2), of s] held_update_new [OF assms(2), of s]
  by (auto simp: targets_in_def split: if_splits)

lemma targets_ok_attach:
  assumes "targets_ok l h" "a < length h" "ss_target (h ! a) = None" "\<not> ss_closed s"
    "ss_target s = Some t"
  shows "targets_ok (l @ [TargetOpened t c]) (h[a := s])"
  using targets_in_attach [of l h "{}" a s t c] assms by simp

text \<open>A change of a session that keeps its target and whether it is closed.\<close>

lemma held_same:
  assumes "a < length h" "ss_target s = ss_target (h ! a)" "ss_closed s = ss_closed (h ! a)"
  shows "held_targets (h[a := s]) = held_targets h"
proof
  have "held_targets [s] = held_targets [h ! a]" using assms by simp
  then show "held_targets h \<subseteq> held_targets (h[a := s])"
    using held_update [OF assms(1), of s] held_update_new [OF assms(1), of s] by blast
  have "held_targets [h ! a] \<subseteq> held_targets h"
    using nth_mem [OF assms(1)] by (auto simp: held_targets_def)
  with \<open>held_targets [s] = held_targets [h ! a]\<close> show "held_targets (h[a := s]) \<subseteq> held_targets h"
    using held_update_old [of h a s] by blast
qed

lemma targets_ok_new:
  "targets_ok l h \<Longrightarrow> targets_ok l (h @ [s])"
  by (auto simp: targets_in_def)

text \<open>The contract of every bridge towards the main HDC server, for a step relation with an
  invariant: a target that was opened and is no longer held by a session has been closed.\<close>

locale target_keeper =
  fixes step :: "'s \<Rightarrow> 's \<Rightarrow> bool" and ok :: "'s \<Rightarrow> bool"
    and logged :: "'s \<Rightarrow> bridge_log" and held :: "'s \<Rightarrow> nat set"
  assumes kept: "ok s \<Longrightarrow> step s s' \<Longrightarrow> ok s'"
    and accounted: "ok s \<Longrightarrow> opened_targets (logged s) \<subseteq> closed_targets (logged s) \<union> held s"
begin

lemma run_kept: "step\<^sup>*\<^sup>* s s' \<Longrightarrow> ok s \<Longrightarrow> ok s'"
  by (induction rule: rtranclp_induct) (auto intro: kept)

lemma no_leak: "step\<^sup>*\<^sup>* s s' \<Longrightarrow> ok s \<Longrightarrow> held s' = {} \<Longrightarrow>
    opened_targets (logged s') \<subseteq> closed_targets (logged s')"
  using accounted [OF run_kept] by blast

end

end
