(* ===== verification/Unity_Bridge.thy ===== *)
theory Unity_Bridge
  imports Bridge_Common
begin

text \<open>
  The bridge of the unity family (\<^verbatim>\<open>internal/bridge/unity.go\<close>): hilog, jpid, track-jpid and
  bugreport. A request opens a stream on its channel; a goroutine per stream opens the target
  and copies its output to the client until it ends, the deadline passes or the channel is
  closed. \<open>ub_running\<close> lists the goroutines with the call they are in; the wait group of the
  code is the length of that list. The handler, the closing of a channel and each turn of a
  goroutine are one step; \<open>unity_step\<close> lets them interleave in any order.
\<close>

section \<open>State\<close>

abbreviation (input) commandUnityBugreportData :: Command where "commandUnityBugreportData \<equiv> 1012"

definition failUnityInvalidRequest :: string where
  "failUnityInvalidRequest = ''[Fail] Unity request is invalid.''"

definition failUnityCommand :: string where
  "failUnityCommand = ''[Fail] Unity command failed.''"

definition failUnityTimeout :: string where
  "failUnityTimeout = ''[Fail] Unity command timed out.''"

definition failUnityUnsupported :: string where
  "failUnityUnsupported = ''[Fail] Unity command is not supported.''"

record unityStream = target_session +
  us_command :: string
  us_outputCommand :: Command

datatype unity_phase = UnityOpening | UnityReading

record UnityBridge =
  ub_canOpen :: bool
  ub_streams :: "(u32, nat) gomap"
  ub_heap :: "unityStream list"
  ub_closed :: bool
  ub_running :: "(nat, unity_phase) gomap"
  ub_log :: bridge_log

definition NewUnityBridge :: "bool \<Rightarrow> UnityBridge" where
  "NewUnityBridge canOpen = \<lparr>ub_canOpen = canOpen, ub_streams = [], ub_heap = [],
     ub_closed = False, ub_running = [], ub_log = []\<rparr>"

section \<open>Operations\<close>

definition unityCommand :: "Frame \<Rightarrow> string + string \<times> Command" where
  "unityCommand frame =
     (let payload = Payload frame
      in if CommandFlag frame = CommandUnityHilog then
           (if payload = [] then Inr (''hilog'', CommandKernelEchoRaw)
            else if payload = bytes_of ''h'' then Inr (''hilog -h'', CommandKernelEchoRaw)
            else Inl failUnityInvalidRequest)
         else if CommandFlag frame = CommandJDWPList then
           (if payload \<noteq> [] then Inl failUnityInvalidRequest
            else Inr (''jpid'', CommandKernelEchoRaw))
         else if CommandFlag frame = CommandJDWPTrack then
           (if payload = [] then Inr (''track-jpid'', CommandKernelEchoRaw)
            else if payload = bytes_of ''p'' \<or> payload = bytes_of ''a''
            then Inr (''track-jpid -'' @ string_of payload, CommandKernelEchoRaw)
            else Inl failUnityInvalidRequest)
         else if CommandFlag frame = CommandUnityBugreportInit then
           (if payload \<noteq> [] then Inl failUnityInvalidRequest
            else Inr (''hidumper'', commandUnityBugreportData))
         else Inl failUnityUnsupported)"

definition unity_emit :: "bridge_log \<Rightarrow> UnityBridge \<Rightarrow> UnityBridge" where
  "unity_emit l b = b\<lparr>ub_log := ub_log b @ l\<rparr>"

text \<open>A handler returns the bridge and whether it reports an error, that of a failed write.\<close>

definition unity_reject :: "bool \<Rightarrow> u32 \<Rightarrow> string \<Rightarrow> UnityBridge \<Rightarrow> UnityBridge \<times> bool" where
  "unity_reject ok channelID message b =
     (unity_emit (sent ok (EncodeEchoAndClose channelID message)) b, \<not> ok)"

definition unity_Handle :: "bool \<Rightarrow> Frame \<Rightarrow> UnityBridge \<Rightarrow> UnityBridge \<times> bool" where
  "unity_Handle ok frame b =
     (case unityCommand frame of Inl message \<Rightarrow> unity_reject ok (ChannelID frame) message b
      | Inr (command, outputCommand) \<Rightarrow>
          if ub_closed b \<or> map_of (ub_streams b) (ChannelID frame) \<noteq> None
          then unity_reject ok (ChannelID frame) failUnityInvalidRequest b
          else let a = length (ub_heap b)
            in (b\<lparr>ub_heap := ub_heap b @ [\<lparr>ss_channelID = ChannelID frame, ss_target = None,
                   ss_closed = False, us_command = command, us_outputCommand = outputCommand\<rparr>],
                 ub_streams := AList.update (ChannelID frame) a (ub_streams b),
                 ub_running := AList.update a UnityOpening (ub_running b)\<rparr>, False))"

definition unity_close_stream :: "nat \<Rightarrow> UnityBridge \<Rightarrow> UnityBridge" where
  "unity_close_stream a b = unity_emit (close_effects (ub_heap b ! a))
     (b\<lparr>ub_heap := (ub_heap b)[a := close_session (ub_heap b ! a)]\<rparr>)"

definition unity_CloseChannel :: "u32 \<Rightarrow> UnityBridge \<Rightarrow> UnityBridge" where
  "unity_CloseChannel channelID b =
     (case map_of (ub_streams b) channelID of None \<Rightarrow> b
      | Some a \<Rightarrow> unity_close_stream a (b\<lparr>ub_streams := AList.delete channelID (ub_streams b)\<rparr>))"

text \<open>\<open>Close\<close> up to its wait for the goroutines: it returns once \<open>ub_running\<close> is empty.\<close>

definition unity_Close :: "UnityBridge \<Rightarrow> UnityBridge" where
  "unity_Close b =
     (if ub_closed b then b
      else fold unity_close_stream (map snd (ub_streams b)) (b\<lparr>ub_closed := True, ub_streams := []\<rparr>))"

definition unity_stop :: "nat \<Rightarrow> UnityBridge \<Rightarrow> UnityBridge" where
  "unity_stop a b = b\<lparr>ub_running := AList.delete a (ub_running b)\<rparr>"

definition finishStream :: "bool \<Rightarrow> bool \<Rightarrow> nat \<Rightarrow> string \<Rightarrow> UnityBridge \<Rightarrow> UnityBridge" where
  "finishStream ok1 ok2 a message b =
     (let channelID = ss_channelID (ub_heap b ! a)
      in if map_of (ub_streams b) channelID \<noteq> Some a then b
         else unity_emit ((if message = [] then []
                  else sent ok1 (EncodeEchoRaw channelID (bytes_of (message @ [CHR 0x0A]))))
                @ sent ok2 (EncodeChannelClose channelID))
              (unity_close_stream a (b\<lparr>ub_streams := AList.delete channelID (ub_streams b)\<rparr>)))"

section \<open>The goroutine of a stream\<close>

text \<open>The first part of \<open>runStream\<close>: opening the target.\<close>

definition runStream_open :: "bool \<Rightarrow> bool \<Rightarrow> open_result \<Rightarrow> nat \<Rightarrow> UnityBridge \<Rightarrow> UnityBridge" where
  "runStream_open ok1 ok2 result a b =
     (if \<not> ub_canOpen b then unity_stop a (finishStream ok1 ok2 a failUnityCommand b)
      else case result of
        OpenDeadline \<Rightarrow> unity_stop a (finishStream ok1 ok2 a failUnityTimeout b)
      | OpenFailed \<Rightarrow> unity_stop a (finishStream ok1 ok2 a failUnityCommand b)
      | Opened target \<Rightarrow>
          let stream = ub_heap b ! a; b = unity_emit [TargetOpened target (us_command stream)] b
          in case attachTarget target stream of
               None \<Rightarrow> unity_stop a (unity_emit [TargetClosed target] b)
             | Some stream \<Rightarrow> b\<lparr>ub_heap := (ub_heap b)[a := stream],
                 ub_running := AList.update a UnityReading (ub_running b)\<rparr>)"

text \<open>The watchdog: at the deadline it closes the stream, which ends the blocked read.\<close>

definition unity_deadline :: "nat \<Rightarrow> UnityBridge \<Rightarrow> UnityBridge" where
  "unity_deadline a b = unity_close_stream a b"

text \<open>One turn of the read loop: what \<open>ReadPayload\<close> returned, and whether the writes work.\<close>

definition runStream_read ::
    "bool \<Rightarrow> bool \<Rightarrow> bool \<Rightarrow> bytes \<Rightarrow> target_end option \<Rightarrow> nat \<Rightarrow> UnityBridge \<Rightarrow> UnityBridge" where
  "runStream_read ok ok1 ok2 payload readErr a b =
     (let stream = ub_heap b ! a;
          b' = (if payload = [] then b
                else unity_emit (sent ok (EncodeFrame (ss_channelID stream) (us_outputCommand stream) payload)) b)
      in if payload \<noteq> [] \<and> \<not> ok then unity_stop a (finishStream ok1 ok2 a [] b')
         else case readErr of None \<Rightarrow> b'
         | Some EndDeadline \<Rightarrow> unity_stop a (finishStream ok1 ok2 a failUnityTimeout b')
         | Some EndClosed \<Rightarrow> unity_stop a (finishStream ok1 ok2 a [] b')
         | Some EndError \<Rightarrow> unity_stop a (finishStream ok1 ok2 a failUnityCommand b'))"

inductive unity_step :: "UnityBridge \<Rightarrow> UnityBridge \<Rightarrow> bool" where
  handles: "unity_step b (fst (unity_Handle ok frame b))"
| closes_channel: "unity_step b (unity_CloseChannel channelID b)"
| closes_bridge: "unity_step b (unity_Close b)"
| opens: "map_of (ub_running b) a = Some UnityOpening \<Longrightarrow>
    unity_step b (runStream_open ok1 ok2 result a b)"
| reads: "map_of (ub_running b) a = Some UnityReading \<Longrightarrow>
    unity_step b (runStream_read ok ok1 ok2 payload readErr a b)"
| times_out: "map_of (ub_running b) a = Some UnityReading \<Longrightarrow> unity_step b (unity_deadline a b)"

section \<open>Invariant\<close>

definition unity_commands :: "string set" where
  "unity_commands = {''hilog'', ''hilog -h'', ''jpid'', ''track-jpid'', ''track-jpid -p'',
     ''track-jpid -a'', ''hidumper''}"

definition unity_tables :: "UnityBridge \<Rightarrow> bool" where
  "unity_tables b \<longleftrightarrow> distinct (map fst (ub_streams b)) \<and> distinct (map fst (ub_running b))
     \<and> (\<forall>c a. map_of (ub_streams b) c = Some a \<longrightarrow>
          a < length (ub_heap b) \<and> ss_channelID (ub_heap b ! a) = c \<and> map_of (ub_running b) a \<noteq> None)
     \<and> (\<forall>a p. map_of (ub_running b) a = Some p \<longrightarrow> a < length (ub_heap b)
          \<and> (p = UnityOpening \<longrightarrow> ss_target (ub_heap b ! a) = None
               \<and> (ss_closed (ub_heap b ! a) \<longrightarrow> (\<forall>c. map_of (ub_streams b) c \<noteq> Some a))))
     \<and> (\<forall>a < length (ub_heap b). \<not> ss_closed (ub_heap b ! a) \<longrightarrow>
          map_of (ub_streams b) (ss_channelID (ub_heap b ! a)) = Some a)
     \<and> (ub_closed b \<longrightarrow> ub_streams b = [])"

definition unity_fixed :: "UnityBridge \<Rightarrow> bool" where
  "unity_fixed b \<longleftrightarrow> (\<forall>s \<in> set (ub_heap b). us_command s \<in> unity_commands)
     \<and> set (opened_commands (ub_log b)) \<subseteq> unity_commands"

definition unity_ok :: "UnityBridge \<Rightarrow> bool" where
  "unity_ok b \<longleftrightarrow> unity_tables b \<and> unity_fixed b \<and> targets_ok (ub_log b) (ub_heap b)"

section \<open>The invariant is kept\<close>

lemma unity_emit_sel [simp]:
  "ub_streams (unity_emit l b) = ub_streams b" "ub_heap (unity_emit l b) = ub_heap b"
  "ub_closed (unity_emit l b) = ub_closed b" "ub_running (unity_emit l b) = ub_running b"
  "ub_log (unity_emit l b) = ub_log b @ l" "ub_canOpen (unity_emit l b) = ub_canOpen b"
  by (simp_all add: unity_emit_def)

lemma unity_close_sel [simp]:
  "ub_streams (unity_close_stream a b) = ub_streams b" "ub_closed (unity_close_stream a b) = ub_closed b"
  "ub_running (unity_close_stream a b) = ub_running b" "ub_canOpen (unity_close_stream a b) = ub_canOpen b"
  "ub_heap (unity_close_stream a b) = (ub_heap b)[a := close_session (ub_heap b ! a)]"
  "ub_log (unity_close_stream a b) = ub_log b @ close_effects (ub_heap b ! a)"
  by (simp_all add: unity_close_stream_def)

lemma unity_stop_sel [simp]:
  "ub_streams (unity_stop a b) = ub_streams b" "ub_heap (unity_stop a b) = ub_heap b"
  "ub_closed (unity_stop a b) = ub_closed b" "ub_running (unity_stop a b) = AList.delete a (ub_running b)"
  "ub_log (unity_stop a b) = ub_log b"
  by (simp_all add: unity_stop_def)

lemma us_command_close [simp]: "us_command (close_session s) = us_command s"
  by (simp add: close_session_def)

lemma close_target_None: "ss_target s = None \<Longrightarrow> ss_target (close_session s) = None"
  by (simp add: close_session_def)

lemma unity_command_members:
  "''hilog'' \<in> unity_commands" "''hilog -h'' \<in> unity_commands" "''jpid'' \<in> unity_commands"
  "''track-jpid'' \<in> unity_commands" "''track-jpid -p'' \<in> unity_commands"
  "''track-jpid -a'' \<in> unity_commands" "''hidumper'' \<in> unity_commands"
  by (simp_all only: unity_commands_def insert_iff simp_thms)

lemma unityCommand_fixed: "unityCommand frame = Inr (command, out) \<Longrightarrow> command \<in> unity_commands"
  by (auto simp: unityCommand_def Let_def unity_command_members split: if_splits)

lemma fixed_update:
  "unity_fixed b \<Longrightarrow> us_command s \<in> unity_commands \<Longrightarrow> ub_heap b' = (ub_heap b)[a := s] \<Longrightarrow>
   opened_commands (ub_log b') = opened_commands (ub_log b) \<Longrightarrow> unity_fixed b'"
  using set_update_subset_insert [of "ub_heap b" a s] by (auto simp: unity_fixed_def)

lemma fixed_heap: "unity_fixed b \<Longrightarrow> a < length (ub_heap b) \<Longrightarrow> us_command (ub_heap b ! a) \<in> unity_commands"
  by (simp add: unity_fixed_def)

lemma unity_fixed_close:
  "unity_fixed b \<Longrightarrow> a < length (ub_heap b) \<Longrightarrow> unity_fixed (unity_close_stream a b)"
  by (rule fixed_update [where a = a]) (auto simp: fixed_heap)

lemma unity_tablesD:
  assumes "unity_tables b"
  shows "distinct (map fst (ub_streams b))" "distinct (map fst (ub_running b))"
    "map_of (ub_streams b) c = Some a \<Longrightarrow> a < length (ub_heap b)"
    "map_of (ub_streams b) c = Some a \<Longrightarrow> ss_channelID (ub_heap b ! a) = c"
    "map_of (ub_streams b) c = Some a \<Longrightarrow> map_of (ub_running b) a \<noteq> None"
    "map_of (ub_running b) a = Some p \<Longrightarrow> a < length (ub_heap b)"
    "map_of (ub_running b) a = Some UnityOpening \<Longrightarrow> ss_target (ub_heap b ! a) = None"
    "map_of (ub_running b) a = Some UnityOpening \<Longrightarrow> ss_closed (ub_heap b ! a) \<Longrightarrow>
      map_of (ub_streams b) c \<noteq> Some a"
    "a < length (ub_heap b) \<Longrightarrow> \<not> ss_closed (ub_heap b ! a) \<Longrightarrow>
      map_of (ub_streams b) (ss_channelID (ub_heap b ! a)) = Some a"
    "ub_closed b \<Longrightarrow> ub_streams b = []"
  using assms by (auto simp: unity_tables_def)

lemma unity_emit_ok: "unity_ok b \<Longrightarrow> opened_targets l = {} \<Longrightarrow> opened_commands l = [] \<Longrightarrow> unity_ok (unity_emit l b)"
  by (auto simp: unity_ok_def unity_tables_def unity_fixed_def targets_ok_more)

lemma unity_handle_ok: "unity_ok b \<Longrightarrow> unity_ok (fst (unity_Handle ok frame b))"
proof (cases "unityCommand frame")
  case (Inr r)
  obtain command out where r: "r = (command, out)" by (cases r)
  assume b: "unity_ok b"
  then have t: "unity_tables b" and f: "unity_fixed b" and l: "targets_ok (ub_log b) (ub_heap b)"
    by (simp_all add: unity_ok_def)
  show ?thesis
  proof (cases "ub_closed b \<or> map_of (ub_streams b) (ChannelID frame) \<noteq> None")
    case False
    let ?a = "length (ub_heap b)" and ?b = "fst (unity_Handle ok frame b)"
    have fresh: "map_of (ub_running b) ?a = None" using unity_tablesD(6) [OF t] by fastforce
    have "unity_tables ?b"
      using False t Inr r unity_tablesD(3) [OF t] unity_tablesD(6) [OF t] fresh
      by (auto simp: unity_Handle_def Let_def unity_tables_def nth_append less_Suc_eq
          split: if_splits)
    moreover have "unity_fixed ?b"
      using False f Inr r unityCommand_fixed [of frame command out]
      by (auto simp: unity_Handle_def Let_def unity_fixed_def)
    moreover have "targets_ok (ub_log ?b) (ub_heap ?b)"
      using False l Inr r by (auto simp: unity_Handle_def Let_def intro: targets_ok_new)
    ultimately show ?thesis by (simp add: unity_ok_def)
  qed (use b Inr r in \<open>auto simp: unity_Handle_def unity_reject_def intro: unity_emit_ok\<close>)
qed (auto simp: unity_Handle_def unity_reject_def intro: unity_emit_ok)

lemma remove_close_ok:
  assumes b: "unity_ok b" and c: "map_of (ub_streams b) c = Some a"
  shows "unity_ok (unity_close_stream a (b\<lparr>ub_streams := AList.delete c (ub_streams b)\<rparr>))" (is "unity_ok ?b")
proof -
  have t: "unity_tables b" and f: "unity_fixed b" and l: "targets_ok (ub_log b) (ub_heap b)"
    using b by (simp_all add: unity_ok_def)
  note a = unity_tablesD(3) [OF t c]
  have uniq: "(x, a) \<in> set (ub_streams b) \<Longrightarrow> x = c" for x
    using unity_tablesD(4) [OF t, of x a] unity_tablesD(4) [OF t c] unity_tablesD(1) [OF t] by simp
  have "unity_tables ?b"
    using t a c unity_tablesD(4) [OF t c]
    by (auto simp: unity_tables_def nth_list_update close_target_None dest: uniq)
  moreover have "unity_fixed ?b"
    using fixed_update [OF f, of "close_session (ub_heap b ! a)" ?b a] fixed_heap [OF f a] by simp
  moreover have "targets_ok (ub_log ?b) (ub_heap ?b)" using targets_ok_close [OF l a] by simp
  ultimately show ?thesis by (simp add: unity_ok_def)
qed

lemma close_channel_ok: "unity_ok b \<Longrightarrow> unity_ok (unity_CloseChannel c b)"
  by (auto simp: unity_CloseChannel_def remove_close_ok split: option.splits)

lemma unity_deadline_ok:
  assumes "unity_ok b" "map_of (ub_running b) a = Some UnityReading"
  shows "unity_ok (unity_deadline a b)"
proof -
  have t: "unity_tables b" and f: "unity_fixed b" and l: "targets_ok (ub_log b) (ub_heap b)"
    using assms by (simp_all add: unity_ok_def)
  note a = unity_tablesD(6) [OF t assms(2)]
  have "(a, UnityOpening) \<notin> set (ub_running b)"
    using assms(2) unity_tablesD(2) [OF t] by (metis map_of_is_SomeI option.inject unity_phase.distinct(1))
  then have "unity_tables (unity_close_stream a b)"
    using t a by (auto simp: unity_tables_def nth_list_update close_target_None)
  then show ?thesis
    using f l a by (simp add: unity_deadline_def unity_ok_def targets_ok_close unity_fixed_close)
qed

text \<open>Closing all streams of the bridge.\<close>

lemma close_all_sel:
  "ub_streams (fold unity_close_stream as b) = ub_streams b"
  "ub_closed (fold unity_close_stream as b) = ub_closed b"
  "ub_running (fold unity_close_stream as b) = ub_running b"
  "length (ub_heap (fold unity_close_stream as b)) = length (ub_heap b)"
  by (induction as arbitrary: b) simp_all

lemma close_all_heap:
  "i < length (ub_heap b) \<Longrightarrow> ub_heap (fold unity_close_stream as b) ! i
     = (if i \<in> set as then close_session (ub_heap b ! i) else ub_heap b ! i)"
proof (induction as arbitrary: b)
  case (Cons a as)
  then show ?case by (cases "i = a") simp_all
qed simp

lemma close_all_ok:
  "unity_fixed b \<Longrightarrow> targets_ok (ub_log b) (ub_heap b) \<Longrightarrow> list_all (\<lambda>a. a < length (ub_heap b)) as \<Longrightarrow>
   unity_fixed (fold unity_close_stream as b)
   \<and> targets_ok (ub_log (fold unity_close_stream as b)) (ub_heap (fold unity_close_stream as b))"
proof (induction as arbitrary: b)
  case (Cons a as)
  then show ?case using targets_ok_close [of "ub_log b" "ub_heap b" a] unity_fixed_close [of b a] by simp
qed simp

lemma unity_close_ok:
  assumes "unity_ok b"
  shows "unity_ok (unity_Close b)"
proof (cases "ub_closed b")
  case False
  let ?as = "map snd (ub_streams b)" and ?b = "b\<lparr>ub_closed := True, ub_streams := []\<rparr>"
  have t: "unity_tables b" and f: "unity_fixed b" and l: "targets_ok (ub_log b) (ub_heap b)"
    using assms by (simp_all add: unity_ok_def)
  have r: "unity_Close b = fold unity_close_stream ?as ?b" using False by (simp add: unity_Close_def)
  have listed: "a \<in> set ?as \<longleftrightarrow> (\<exists>c. map_of (ub_streams b) c = Some a)" for a
    using unity_tablesD(1) [OF t] by force
  have "list_all (\<lambda>a. a < length (ub_heap b)) ?as"
    using listed unity_tablesD(3) [OF t] by (metis list_all_iff)
  then have "unity_fixed (unity_Close b) \<and> targets_ok (ub_log (unity_Close b)) (ub_heap (unity_Close b))"
    unfolding r using f l by (intro close_all_ok) (simp_all add: unity_fixed_def)
  moreover have "unity_tables (unity_Close b)"
    unfolding unity_tables_def r using t listed
    by (auto simp: close_all_sel close_all_heap unity_tables_def close_target_None)
  ultimately show ?thesis by (simp add: unity_ok_def)
qed (use assms in \<open>simp add: unity_Close_def\<close>)

lemma unity_finish_ok:
  assumes "unity_ok b"
  shows "unity_ok (finishStream ok1 ok2 a message b)"
    "map_of (ub_streams (finishStream ok1 ok2 a message b)) c \<noteq> Some a \<or> a \<ge> length (ub_heap b)
      \<or> c \<noteq> ss_channelID (ub_heap b ! a)"
    "ub_running (finishStream ok1 ok2 a message b) = ub_running b"
  using assms by (auto simp: finishStream_def Let_def intro!: unity_emit_ok remove_close_ok)

text \<open>A goroutine that stops has left no entry for its stream.\<close>

lemma unity_stop_ok:
  assumes b: "unity_ok b" and gone: "\<And>c. map_of (ub_streams b) c \<noteq> Some a"
  shows "unity_ok (unity_stop a b)"
  using assms by (auto simp: unity_ok_def unity_tables_def unity_fixed_def)

lemma finish_stop_ok:
  assumes b: "unity_ok b" and a: "a < length (ub_heap b)"
  shows "unity_ok (unity_stop a (finishStream ok1 ok2 a message b))"
proof (rule unity_stop_ok [OF unity_finish_ok(1) [OF b]])
  fix c
  let ?f = "finishStream ok1 ok2 a message b"
  have t: "unity_tables ?f" using unity_finish_ok(1) [OF b] by (simp add: unity_ok_def)
  have ch: "ss_channelID (ub_heap ?f ! a) = ss_channelID (ub_heap b ! a)"
    using a by (simp add: finishStream_def Let_def nth_list_update)
  show "map_of (ub_streams ?f) c \<noteq> Some a"
    using unity_finish_ok(2) [OF b, of ok1 ok2 a message c] unity_tablesD(4) [OF t, of c a] a ch by auto
qed

lemma unity_open_ok:
  assumes b: "unity_ok b" and a: "map_of (ub_running b) a = Some UnityOpening"
  shows "unity_ok (runStream_open ok1 ok2 result a b)"
proof -
  have t: "unity_tables b" and f: "unity_fixed b" and l: "targets_ok (ub_log b) (ub_heap b)"
    using b by (simp_all add: unity_ok_def)
  note lt = unity_tablesD(6) [OF t a] and none = unity_tablesD(7) [OF t a]
  let ?s = "ub_heap b ! a"
  consider "\<not> ub_canOpen b \<or> result = OpenFailed \<or> result = OpenDeadline"
    | tg where "ub_canOpen b" "result = Opened tg" "ss_closed ?s"
    | tg where "ub_canOpen b" "result = Opened tg" "\<not> ss_closed ?s"
    by (cases result) auto
  then show ?thesis
  proof cases
    case 1
    then show ?thesis
      using finish_stop_ok [OF b lt] by (auto simp: runStream_open_def split: open_result.splits)
  next
    case 2
    let ?b = "b\<lparr>ub_log := ub_log b @ [TargetOpened tg (us_command ?s), TargetClosed tg]\<rparr>"
    have r: "runStream_open ok1 ok2 result a b = unity_stop a ?b"
      using 2 by (simp add: runStream_open_def attachTarget_def unity_emit_def)
    have "targets_ok (ub_log ?b) (ub_heap ?b)"
      using l by (auto simp: targets_in_def opened_targets_def closed_targets_def)
    moreover have "unity_fixed ?b"
      using f fixed_heap [OF f lt] by (simp add: unity_fixed_def opened_commands_def)
    moreover have "unity_tables ?b = unity_tables b" by (simp add: unity_tables_def)
    ultimately have ok: "unity_ok ?b" using t by (simp add: unity_ok_def)
    then show ?thesis
      unfolding r using unity_tablesD(8) [OF t a] 2 by (intro unity_stop_ok [OF ok]) simp
  next
    case 3
    let ?s' = "?s\<lparr>ss_target := Some tg\<rparr>" and ?r = "runStream_open ok1 ok2 result a b"
    have r: "ub_heap ?r = (ub_heap b)[a := ?s']" "ub_streams ?r = ub_streams b"
      "ub_closed ?r = ub_closed b" "ub_running ?r = AList.update a UnityReading (ub_running b)"
      "ub_log ?r = ub_log b @ [TargetOpened tg (us_command ?s)]"
      using 3 by (simp_all add: runStream_open_def attachTarget_def Let_def)
    have "unity_tables ?r"
      unfolding unity_tables_def r using t lt by (auto simp: unity_tables_def nth_list_update)
    moreover have "unity_fixed ?r"
      using f fixed_heap [OF f lt] set_update_subset_insert [of "ub_heap b" a ?s']
      by (auto simp: unity_fixed_def r)
    moreover have "targets_ok (ub_log ?r) (ub_heap ?r)"
      unfolding r by (rule targets_ok_attach [OF l lt none]) (use 3 in simp_all)
    ultimately show ?thesis by (simp add: unity_ok_def)
  qed
qed

lemma unity_read_ok:
  assumes b: "unity_ok b" and a: "map_of (ub_running b) a = Some p"
  shows "unity_ok (runStream_read ok ok1 ok2 payload readErr a b)"
proof -
  define b' where "b' = (if payload = [] then b else unity_emit
    (sent ok (EncodeFrame (ss_channelID (ub_heap b ! a)) (us_outputCommand (ub_heap b ! a)) payload)) b)"
  have b': "unity_ok b'" using b by (simp add: b'_def unity_emit_ok)
  have lt: "a < length (ub_heap b')"
    using b a unity_tablesD(6) [of b a p] by (simp add: b'_def unity_ok_def)
  note st = finish_stop_ok [OF b' lt]
  show ?thesis
    unfolding runStream_read_def Let_def b'_def [symmetric]
    using b' st by (auto split: option.splits target_end.splits)
qed

lemma unity_step_ok: "unity_ok b \<Longrightarrow> unity_step b b' \<Longrightarrow> unity_ok b'"
  by (erule unity_step.cases) (auto intro: unity_handle_ok close_channel_ok unity_close_ok unity_open_ok unity_read_ok unity_deadline_ok)

lemma unity_new_ok: "unity_ok (NewUnityBridge canOpen)"
  by (simp add: NewUnityBridge_def unity_ok_def unity_tables_def unity_fixed_def targets_in_def)

interpretation unity: target_keeper unity_step unity_ok ub_log "\<lambda>b. held_targets (ub_heap b)"
proof unfold_locales
  fix b b' :: UnityBridge
  show "unity_ok b \<Longrightarrow> unity_step b b' \<Longrightarrow> unity_ok b'" by (rule unity_step_ok)
  show "unity_ok b \<Longrightarrow> opened_targets (ub_log b) \<subseteq> closed_targets (ub_log b) \<union> held_targets (ub_heap b)"
    by (simp add: unity_ok_def targets_in_def)
qed

lemma unity_reachable_ok: "unity_step\<^sup>*\<^sup>* (NewUnityBridge canOpen) b \<Longrightarrow> unity_ok b"
  by (rule unity.run_kept [OF _ unity_new_ok])

section \<open>Properties\<close>

text \<open>Whatever frames a client sends and however the streams interleave, the commands that reach
  the main HDC server through this bridge are among seven fixed texts: no byte of a payload
  becomes part of a command.\<close>

theorem unity_commands_are_fixed:
  assumes "unity_step\<^sup>*\<^sup>* (NewUnityBridge canOpen) b" and "TargetOpened t command \<in> set (ub_log b)"
  shows "command \<in> {''hilog'', ''hilog -h'', ''jpid'', ''track-jpid'', ''track-jpid -p'',
    ''track-jpid -a'', ''hidumper''}"
proof -
  have "command \<in> set (opened_commands (ub_log b))"
    using assms(2) by (force simp: opened_commands_def)
  then show ?thesis
    unfolding unity_commands_def [symmetric]
    using unity_reachable_ok [OF assms(1)] by (auto simp: unity_ok_def unity_fixed_def)
qed

text \<open>When the bridge is closed and its goroutines have ended, which is what its \<open>Close\<close> waits for,
  every target it ever opened on the main HDC server has been closed and no stream is left,
  also when targets were being opened while the bridge closed.\<close>

theorem unity_close_leaves_no_target:
  assumes "unity_step\<^sup>*\<^sup>* (NewUnityBridge canOpen) b" "ub_closed b" "ub_running b = []"
  shows "opened_targets (ub_log b) \<subseteq> closed_targets (ub_log b) \<and> ub_streams b = []"
proof -
  have ok: "unity_ok b" using unity_reachable_ok [OF assms(1)] .
  then have t: "unity_tables b" by (simp add: unity_ok_def)
  have none: "ub_streams b = []" using unity_tablesD(10) [OF t assms(2)] .
  have "ss_closed (ub_heap b ! a)" if "a < length (ub_heap b)" for a
    using unity_tablesD(9) [OF t that] none by auto
  then have "held_targets (ub_heap b) = {}"
    by (intro held_none) (metis in_set_conv_nth)
  with unity.no_leak [OF assms(1) unity_new_ok] none show ?thesis by blast
qed

definition demo_hilog :: Frame where
  "demo_hilog = \<lparr>ChannelID = 7, CommandFlag = CommandUnityHilog, CommandName = ''hilog'',
     CheckSum = 0, VCode = 9, Payload = []\<rparr>"

definition demo_reading :: UnityBridge where
  "demo_reading = runStream_open True True (Opened 1) 0 (fst (unity_Handle True demo_hilog (NewUnityBridge True)))"

definition demo_unity_closed :: UnityBridge where
  "demo_unity_closed = runStream_read True True True [65] (Some EndClosed) 0 (unity_Close demo_reading)"

lemma demo_reading_run: "unity_step\<^sup>*\<^sup>* (NewUnityBridge True) demo_reading"
proof -
  have "unity_step (NewUnityBridge True) (fst (unity_Handle True demo_hilog (NewUnityBridge True)))"
    by (rule unity_step.handles)
  moreover have "unity_step (fst (unity_Handle True demo_hilog (NewUnityBridge True))) demo_reading"
    unfolding demo_reading_def by (rule unity_step.opens) code_simp
  ultimately show ?thesis by simp
qed

lemma unity_commands_are_fixed_witness: "''hilog'' \<in> unity_commands"
proof -
  have "ub_log demo_reading = [TargetOpened 1 ''hilog'']" by code_simp
  then have "TargetOpened 1 ''hilog'' \<in> set (ub_log demo_reading)" by simp
  from unity_commands_are_fixed [OF demo_reading_run this] show ?thesis
    unfolding unity_commands_def .
qed

lemma unity_close_leaves_no_target_witness:
  "opened_targets (ub_log demo_unity_closed) = {1} \<and> 1 \<in> closed_targets (ub_log demo_unity_closed)"
proof -
  have "unity_step demo_reading (unity_Close demo_reading)" by (rule unity_step.closes_bridge)
  moreover have "unity_step (unity_Close demo_reading) demo_unity_closed"
    unfolding demo_unity_closed_def by (rule unity_step.reads) code_simp
  ultimately have run: "unity_step\<^sup>*\<^sup>* (NewUnityBridge True) demo_unity_closed"
    using demo_reading_run by simp
  have st: "ub_closed demo_unity_closed" "ub_running demo_unity_closed = []" by code_simp+
  have "ub_log demo_unity_closed = [TargetOpened 1 ''hilog'', TargetClosed 1,
    FrameSent (EncodeFrame 7 CommandKernelEchoRaw [65])]" by code_simp
  then have "opened_targets (ub_log demo_unity_closed) = {1}" by (simp add: opened_targets_def)
  with unity_close_leaves_no_target [OF run st] show ?thesis by simp
qed

end
