(* ===== verification/File_Commands.thy ===== *)
theory File_Commands
  imports Bridge_Common Transfer_Codec
begin

text \<open>
  The texts of the file bridge (\<^verbatim>\<open>internal/bridge/file.go\<close>): splitting the client's receive
  command into words, the checks on paths, and the commands that are sent to the main HDC
  server. Go ranges over a string by runes and writes an invalid byte as U+FFFD, so the
  splitter works on runes. The round trip shows that the command built from an accepted
  request has exactly the four words it should have.
\<close>

section \<open>Splitting\<close>

definition replacement_rune :: string where
  "replacement_rune = [CHR 0xEF, CHR 0xBF, CHR 0xBD]"

text \<open>What \<^verbatim>\<open>WriteRune\<close> writes for the first rune of a string.\<close>

definition rune_text :: "string \<Rightarrow> string" where
  "rune_text s = (if rune_len s = 1 \<and> 128 \<le> (of_char (hd s) :: nat) then replacement_rune
     else take (rune_len s) s)"

definition flush_token :: "string \<Rightarrow> string list" where
  "flush_token current = (if current = [] then [] else [current])"

function split_tokens :: "string \<Rightarrow> bool \<Rightarrow> string \<Rightarrow> string list" where
  "split_tokens current inQuote [] = flush_token current"
| "split_tokens current inQuote (c # s) =
     (if c = CHR 0x22 then split_tokens current (\<not> inQuote) s
      else if (c = CHR '' '' \<or> c = CHR 0x09) \<and> \<not> inQuote
      then flush_token current @ split_tokens [] inQuote s
      else split_tokens (current @ rune_text (c # s)) inQuote (drop (rune_len (c # s) - 1) s))"
  by pat_completeness auto
termination
  by (relation "measure (\<lambda>(current, q, s). length s)") auto

definition splitCommandTokens :: "string \<Rightarrow> string list" where
  "splitCommandTokens s = split_tokens [] False s"

definition slashes :: string where
  "slashes = [CHR ''/'', CHR 0x5C]"

definition baseName :: "string \<Rightarrow> string" where
  "baseName path = after_last_any (trim_right (\<lambda>c. c \<in> set slashes) path) slashes"

section \<open>Requests and commands\<close>

definition failInvalidFileRequest :: string where
  "failInvalidFileRequest = ''[Fail] File transfer request is invalid.''"

definition failUnsupportedFileOption :: string where
  "failUnsupportedFileOption = ''[Fail] File transfer option is not supported.''"

definition failUnsupportedCompress :: string where
  "failUnsupportedCompress = ''[Fail] Compressed file transfer is not supported.''"

definition failUnsupportedDirectory :: string where
  "failUnsupportedDirectory = ''[Fail] Directory transfer is not supported.''"

definition failFileTransfer :: string where
  "failFileTransfer = ''[Fail] File transfer failed.''"

definition failFileTransferTimeout :: string where
  "failFileTransferTimeout = ''[Fail] File transfer timed out.''"

definition failFileDownload :: string where
  "failFileDownload = ''[Fail] File receive is not implemented.''"

definition failFileNoResult :: string where
  "failFileNoResult = ''[Fail] File transfer did not return a result.''"

record recv_request =
  rr_devicePath :: string
  rr_optionalName :: string
  rr_userPath :: string

definition parseRecvCommand :: "bytes \<Rightarrow> string + recv_request" where
  "parseRecvCommand payload =
     (let text = string_of payload; tokens = splitCommandTokens text
      in if hasUnsafeText text then Inl failInvalidFileRequest
         else if length tokens < 2 then Inl failInvalidFileRequest
         else let devicePath = tokens ! (length tokens - 2); userPath = tokens ! (length tokens - 1)
              in if devicePath = [] \<or> userPath = [] \<or> has_prefix devicePath ''-'' \<or> has_prefix userPath ''-''
                 then Inl failInvalidFileRequest
                 else let optionalName = baseName devicePath
                      in if optionalName = [] \<or> contains_any optionalName slashes
                         then Inl failInvalidFileRequest
                         else Inr \<lparr>rr_devicePath = devicePath, rr_optionalName = optionalName,
                           rr_userPath = userPath\<rparr>)"

definition buildFileRecvCommand :: "string \<Rightarrow> string \<Rightarrow> string" where
  "buildFileRecvCommand devicePath localPath =
     ''file recv '' @ quoteCommandArg devicePath @ '' '' @ quoteCommandArg localPath"

definition buildFileSendCommand :: "string \<Rightarrow> string \<Rightarrow> string" where
  "buildFileSendCommand localPath targetPath =
     ''file send '' @ quoteCommandArg localPath @ '' '' @ quoteCommandArg targetPath"

text \<open>The checks on an upload's configuration: the size to reserve, or the message.\<close>

definition validateConfig :: "int \<Rightarrow> TransferConfig \<Rightarrow> string + int" where
  "validateConfig maxFileBytes config =
     (if 2 ^ 63 - 1 < tc_FileSize config \<or> trim_space (tc_Path config) = [] \<or> hasUnsafeText (tc_Path config)
      then Inl failInvalidFileRequest
      else if maxFileBytes < uint (tc_FileSize config) then Inl failFileTransfer
      else if tc_Compression config \<noteq> CompressionNone then Inl failUnsupportedCompress
      else if tc_UpdateIfNew config \<or> tc_HoldTimestamp config \<or> trim_space (tc_Options config) \<noteq> []
        \<or> trim_space (tc_FunctionName config) \<noteq> [] \<or> trim_space (tc_Reserve1 config) \<noteq> []
        \<or> trim_space (tc_Reserve2 config) \<noteq> [] then Inl failUnsupportedFileOption
      else if contains_any (tc_OptionalName config) slashes then Inl failUnsupportedDirectory
      else Inr (uint (tc_FileSize config)))"

section \<open>Runes\<close>

text \<open>A well-formed rune, and text made of runes.\<close>

definition good_rune :: "string \<Rightarrow> bool" where
  "good_rune r \<longleftrightarrow> r \<noteq> [] \<and> rune_len r = length r \<and> (length r = 1 \<longrightarrow> (of_char (hd r) :: nat) < 128)"

inductive utf8 :: "string \<Rightarrow> bool" where
  utf8_Nil: "utf8 []"
| utf8_rune: "good_rune r \<Longrightarrow> utf8 s \<Longrightarrow> utf8 (r @ s)"

lemma rune_len_Cons: "0 < rune_len (c # s)" "rune_len (c # s) \<le> Suc (length s)"
  by (auto simp: rune_len_def Let_def)

lemma rune_len_le: "rune_len s \<le> length s"
  using rune_len_Cons(2) by (cases s) (auto simp: rune_len_def)

lemma rune_len_prefix:
  assumes "rune_len r = length r" "r \<noteq> []" "length r = 1 \<longrightarrow> (of_char (hd r) :: nat) < 128"
  shows "rune_len (r @ s) = length r"
proof -
  obtain c t where r: "r = c # t" using assms(2) by (cases r) auto
  show ?thesis
    using assms(1,3) unfolding r
    by (auto simp: rune_len_def Let_def split: if_splits)
qed

lemma rune_len_take: "rune_len (take (rune_len s) s) = rune_len s"
proof -
  consider "s = []" | c where "s = [c]" | c d where "s = [c, d]" | c d e where "s = [c, d, e]"
    | c d e f r where "s = c # d # e # f # r"
    by (metis list.exhaust)
  then show ?thesis by cases (simp_all add: rune_len_def Let_def)
qed

lemma good_replacement [simp]: "good_rune replacement_rune"
  by (simp add: good_rune_def replacement_rune_def rune_len_def cont_byte_def)

lemma good_rune_text:
  assumes "s \<noteq> []"
  shows "good_rune (rune_text s)"
proof -
  have len: "0 < rune_len s" "rune_len s \<le> length s"
    using assms rune_len_Cons(1) rune_len_le by (auto simp: neq_Nil_conv)
  show ?thesis
  proof (cases "rune_len s = 1 \<and> 128 \<le> (of_char (hd s) :: nat)")
    case False
    then have "rune_text s = take (rune_len s) s" by (simp only: rune_text_def if_False)
    then show ?thesis
      using len False assms rune_len_take [of s] by (auto simp: good_rune_def hd_take)
  qed (simp add: rune_text_def)
qed

lemma utf8_append: "utf8 s \<Longrightarrow> utf8 t \<Longrightarrow> utf8 (s @ t)"
  by (induction rule: utf8.induct) (auto intro: utf8.intros)

lemma utf8_one: "good_rune r \<Longrightarrow> utf8 r"
  using utf8_rune [OF _ utf8_Nil, of r] by simp

lemma utf8_ascii: "list_all (\<lambda>c. (of_char c :: nat) < 128) s \<Longrightarrow> utf8 s"
proof (induction s)
  case (Cons c s)
  then have "good_rune [c]" by (simp add: good_rune_def rune_len_def)
  then show ?case using utf8_rune [of "[c]" s] Cons by simp
qed (simp add: utf8_Nil)

text \<open>The bytes of a rune after the first are not ASCII.\<close>

lemma rune_tail:
  assumes "d \<in> set (tl (take (rune_len s) s))"
  shows "128 \<le> (of_char d :: nat)"
proof (cases s)
  case (Cons c r)
  have "d \<in> set (take (rune_len s - 1) r)" using assms Cons by (cases "rune_len s") auto
  then show ?thesis
    unfolding Cons
    by (cases r) (auto simp: rune_len_def Let_def cont_byte_def list_all_iff take_Cons'
        split: if_splits)
qed (use assms in simp)

lemma quote_in_rune: "c \<noteq> CHR 0x22 \<Longrightarrow> CHR 0x22 \<notin> set (rune_text (c # s))"
proof
  assume c: "c \<noteq> CHR 0x22" and q: "CHR 0x22 \<in> set (rune_text (c # s))"
  show False
  proof (cases "rune_len (c # s) = 1 \<and> 128 \<le> (of_char c :: nat)")
    case True
    then show ?thesis using q by (simp add: rune_text_def replacement_rune_def)
  next
    case False
    then have "rune_text (c # s) = take (rune_len (c # s)) (c # s)"
      by (simp only: rune_text_def list.sel if_False)
    then have "CHR 0x22 \<in> set (take (rune_len (c # s)) (c # s))" using q by simp
    then have "CHR 0x22 \<in> set (tl (take (rune_len (c # s)) (c # s)))"
      using c by (cases "rune_len (c # s)") auto
    from rune_tail [OF this] show ?thesis by simp
  qed
qed

section \<open>Round trip of a command\<close>

lemma split_tokens_words:
  assumes "utf8 current" "CHR 0x22 \<notin> set current" "w \<in> set (split_tokens current q s)"
  shows "utf8 w \<and> CHR 0x22 \<notin> set w \<and> w \<noteq> []"
  using assms
proof (induction current q s rule: split_tokens.induct)
  case (1 current q)
  then show ?case by (auto simp: flush_token_def split: if_splits)
next
  case (2 current q c s)
  note IH = 2
  consider "c = CHR 0x22" | "c \<noteq> CHR 0x22" "(c = CHR '' '' \<or> c = CHR 0x09) \<and> \<not> q"
    | "c \<noteq> CHR 0x22" "\<not> ((c = CHR '' '' \<or> c = CHR 0x09) \<and> \<not> q)" by blast
  then show ?case
  proof cases
    case 1
    then show ?thesis using IH(1) IH(4-6) by simp
  next
    case 2
    then show ?thesis using IH(2) IH(4-6) by (auto simp: flush_token_def utf8_Nil split: if_splits)
  next
    case 3
    note k = 3
    have "utf8 (current @ rune_text (c # s))"
      using IH(4) by (simp add: utf8_append utf8_one good_rune_text)
    moreover have "CHR 0x22 \<notin> set (current @ rune_text (c # s))"
      using IH(5) quote_in_rune [OF k(1)] by simp
    ultimately show ?thesis using IH(3) [OF k] IH(6) k by auto
  qed
qed

lemma tokens_words: "w \<in> set (splitCommandTokens s) \<Longrightarrow> utf8 w \<and> CHR 0x22 \<notin> set w \<and> w \<noteq> []"
  unfolding splitCommandTokens_def using split_tokens_words [OF utf8_Nil] by simp

lemma split_tokens_plain:
  assumes "utf8 w" "CHR 0x22 \<notin> set w" "q \<or> CHR '' '' \<notin> set w \<and> CHR 0x09 \<notin> set w"
  shows "split_tokens current q (w @ rest) = split_tokens (current @ w) q rest"
  using assms
proof (induction arbitrary: current rule: utf8.induct)
  case (utf8_rune r s)
  obtain c t where r: "r = c # t" using utf8_rune.hyps(1) by (cases r) (auto simp: good_rune_def)
  have len: "rune_len (r @ s @ rest) = length r"
    using utf8_rune.hyps(1) by (intro rune_len_prefix) (auto simp: good_rune_def)
  have rt: "rune_text (r @ s @ rest) = r"
    using utf8_rune.hyps(1) len by (auto simp: rune_text_def good_rune_def)
  have "split_tokens current q (c # t @ s @ rest) = split_tokens (current @ r) q (s @ rest)"
    using utf8_rune.prems rt len unfolding r by auto
  then show ?case using utf8_rune r by auto
qed simp

lemma escape_id: "CHR 0x22 \<notin> set w \<Longrightarrow> escape_quotes w = w"
  by (induction w) (auto simp: escape_quotes_def)

lemma split_tokens_arg:
  assumes "utf8 w" "CHR 0x22 \<notin> set w" "w \<noteq> []"
  shows "split_tokens [] False (quoteCommandArg w @ rest) = split_tokens w False rest"
proof (cases "contains_any w [CHR '' '', CHR 0x09, CHR 0x0D, CHR 0x0A, CHR 0x22]")
  case True
  then have "quoteCommandArg w @ rest = CHR 0x22 # w @ CHR 0x22 # rest"
    using assms by (simp add: quoteCommandArg_def escape_id)
  then show ?thesis
    using split_tokens_plain [of w True "[]" "CHR 0x22 # rest"] assms by simp
next
  case False
  then have "quoteCommandArg w = w" using assms by (simp add: quoteCommandArg_def)
  moreover have "CHR '' '' \<notin> set w \<and> CHR 0x09 \<notin> set w" using False by (auto simp: contains_any_iff)
  ultimately show ?thesis using split_tokens_plain [of w False "[]" rest] assms by simp
qed

definition clean_word :: "string \<Rightarrow> bool" where
  "clean_word w \<longleftrightarrow> utf8 w \<and> CHR 0x22 \<notin> set w \<and> w \<noteq> []"

lemma split_two_words:
  assumes "utf8 verb" "CHR 0x22 \<notin> set verb" "CHR '' '' \<notin> set verb" "CHR 0x09 \<notin> set verb" "verb \<noteq> []"
    and "clean_word v" "clean_word w"
  shows "split_tokens [] False (''file '' @ verb @ '' '' @ quoteCommandArg v @ '' '' @ quoteCommandArg w)
    = [''file'', verb, v, w]"
proof -
  have f: "utf8 ''file''" by (rule utf8_ascii) simp
  have sp: "split_tokens u False (CHR '' '' # t) = flush_token u @ split_tokens [] False t" for u t
    by simp
  have e: "''file '' @ verb @ '' '' @ quoteCommandArg v @ '' '' @ quoteCommandArg w
      = ''file'' @ CHR '' '' # verb @ CHR '' '' # quoteCommandArg v @ CHR '' '' # quoteCommandArg w @ []"
    by simp
  have last: "split_tokens [] False (quoteCommandArg w @ []) = [w]"
    using assms(7) split_tokens_arg [of w "[]"] by (simp add: clean_word_def flush_token_def)
  have v: "split_tokens [] False (quoteCommandArg v @ CHR '' '' # quoteCommandArg w @ []) = [v, w]"
    using assms(6) last split_tokens_arg [of v "CHR '' '' # quoteCommandArg w @ []"]
    by (simp add: clean_word_def flush_token_def)
  have verb: "split_tokens [] False (verb @ CHR '' '' # quoteCommandArg v @ CHR '' '' # quoteCommandArg w @ [])
      = [verb, v, w]"
    using assms(1-5) v
      split_tokens_plain [of verb False "[]" "CHR '' '' # quoteCommandArg v @ CHR '' '' # quoteCommandArg w @ []"]
    by (simp add: flush_token_def)
  show ?thesis
    unfolding e using verb f
      split_tokens_plain [of "''file''" False "[]"
        "CHR '' '' # verb @ CHR '' '' # quoteCommandArg v @ CHR '' '' # quoteCommandArg w @ []"]
    by (simp add: flush_token_def)
qed

lemma parseRecvCommand_words:
  assumes "parseRecvCommand payload = Inr r"
  shows "clean_word (rr_devicePath r)" "clean_word (rr_userPath r)"
    "\<not> has_prefix (rr_devicePath r) ''-''"
    "rr_optionalName r = baseName (rr_devicePath r)" "\<not> contains_any (rr_optionalName r) slashes"
    "rr_optionalName r \<noteq> []"
    "\<not> hasUnsafeText (string_of payload)"
proof -
  let ?t = "splitCommandTokens (string_of payload)"
  have len: "2 \<le> length ?t" and d: "rr_devicePath r = ?t ! (length ?t - 2)"
    and u: "rr_userPath r = ?t ! (length ?t - 1)"
    and rest: "\<not> has_prefix (rr_devicePath r) ''-''" "rr_optionalName r = baseName (rr_devicePath r)"
      "\<not> contains_any (rr_optionalName r) slashes" "rr_optionalName r \<noteq> []"
      "\<not> hasUnsafeText (string_of payload)"
    using assms by (auto simp: parseRecvCommand_def Let_def split: if_splits)
  from rest show "\<not> has_prefix (rr_devicePath r) ''-''" "rr_optionalName r = baseName (rr_devicePath r)"
    "\<not> contains_any (rr_optionalName r) slashes" "rr_optionalName r \<noteq> []"
    "\<not> hasUnsafeText (string_of payload)" by simp_all
  have "?t ! (length ?t - 2) \<in> set ?t" "?t ! (length ?t - 1) \<in> set ?t" using len by (auto intro: nth_mem)
  then show "clean_word (rr_devicePath r)" "clean_word (rr_userPath r)"
    unfolding d u clean_word_def by (auto dest: tokens_words)
qed

text \<open>Whatever bytes a receive request carries, the command built from an accepted one splits, by
  the kit's own rules, into exactly the four words file, recv, the device path and the local
  path: spaces, tabs, quotes and invalid bytes of the request cannot add a word, and the
  device path is not an option.\<close>

theorem recv_command_has_four_words:
  assumes "parseRecvCommand payload = Inr r" and "clean_word localPath"
  shows "splitCommandTokens (buildFileRecvCommand (rr_devicePath r) localPath)
      = [''file'', ''recv'', rr_devicePath r, localPath]
    \<and> \<not> has_prefix (rr_devicePath r) ''-''"
proof -
  have "utf8 ''recv''" by (rule utf8_ascii) simp
  then show ?thesis
    using split_two_words [of "''recv''" "rr_devicePath r" localPath] assms(2)
      parseRecvCommand_words(1,3) [OF assms(1)]
    by (simp add: splitCommandTokens_def buildFileRecvCommand_def)
qed

lemma recv_command_has_four_words_witness:
  "splitCommandTokens (buildFileRecvCommand ''/data/a b'' ''/tmp/hdc/x/payload'')
     = [''file'', ''recv'', ''/data/a b'', ''/tmp/hdc/x/payload'']"
proof -
  have req: "parseRecvCommand (bytes_of (''-cwd '' @ [CHR 0x22] @ ''/data/a b'' @ [CHR 0x22] @ '' out.txt''))
    = Inr \<lparr>rr_devicePath = ''/data/a b'', rr_optionalName = ''a b'', rr_userPath = ''out.txt''\<rparr>"
    by code_simp
  have "clean_word ''/tmp/hdc/x/payload''" by (simp add: clean_word_def utf8_ascii)
  from recv_command_has_four_words [OF req this] show ?thesis by simp
qed

end
