(* ===== verification/Temp_Store.thy ===== *)
theory Temp_Store
  imports Prelude "HOL-Library.Multiset"
begin

text \<open>
  The temporary store of the file and app bridges
  (\<^verbatim>\<open>internal/bridge/temp_store.go\<close>): a byte quota shared by all connections and one
  directory with one file per transfer. Allocations are shared objects, so they live in a heap
  (\<open>tm_allocs\<close>, addressed by position) beside the store and the files on disk. The store's
  and an allocation's mutex make each locked section one step: \<open>ts_reserve\<close> and
  \<open>ts_release\<close> are the sections of the store, and operations with several sections are
  split at them, so that other goroutines may run in between. What the operating system answers is an
  argument of the operation. Sizes are mathematical integers; the invariant below bounds them
  by the quota, so the code's 64-bit counters cannot overflow.
\<close>

section \<open>State\<close>

type_synonym disk = "(string, bytes) gomap"

record file_handle =
  fh_path :: string
  fh_offset :: nat

record TempStore =
  ts_root :: string
  ts_maxBytes :: int
  ts_usedBytes :: int

record tempAllocation =
  al_directory :: string
  al_path :: string
  al_file :: "file_handle option"
  al_size :: int
  al_released :: bool
  al_closeOnce :: bool

record temp_state =
  tm_store :: TempStore
  tm_allocs :: "tempAllocation list"
  tm_disk :: disk

datatype temp_error =
    LimitNotPositive
  | CannotResolveRoot
  | RootIsFilesystemRoot
  | CannotCreateRoot
  | NegativeSize
  | ReservationNotPositive
  | QuotaExceeded
  | CannotCreateDirectory
  | CannotCreateFile
  | TempFileClosed
  | WriteFailed
  | FlushFailed
  | CloseFailed
  | RenameOpenFile
  | InvalidName
  | RenameFailed

text \<open>\<^verbatim>\<open>filepath.Dir\<close> of a clean absolute path and \<^verbatim>\<open>filepath.Join\<close> of a clean
  directory and a name without separators.\<close>

definition filepath_dir :: "string \<Rightarrow> string" where
  "filepath_dir p = (let d = rev (drop 1 (dropWhile (\<lambda>c. c \<noteq> CHR ''/'') (rev p)))
     in if d = [] then ''/'' else d)"

definition filepath_join :: "string \<Rightarrow> string \<Rightarrow> string" where
  "filepath_join d name = d @ CHR ''/'' # name"

section \<open>Quota\<close>

definition NewTempStore ::
    "(string \<Rightarrow> string option) \<Rightarrow> bool \<Rightarrow> string \<Rightarrow> int \<Rightarrow> temp_error + TempStore" where
  "NewTempStore abs_path mkdirOK root maxBytes =
     (if maxBytes \<le> 0 then Inl LimitNotPositive
      else case abs_path root of None \<Rightarrow> Inl CannotResolveRoot
      | Some absoluteRoot \<Rightarrow>
          if filepath_dir absoluteRoot = absoluteRoot then Inl RootIsFilesystemRoot
          else if \<not> mkdirOK then Inl CannotCreateRoot
          else Inr \<lparr>ts_root = absoluteRoot, ts_maxBytes = maxBytes, ts_usedBytes = 0\<rparr>)"

definition ts_reserve :: "int \<Rightarrow> TempStore \<Rightarrow> TempStore option" where
  "ts_reserve sz s =
     (if ts_maxBytes s - ts_usedBytes s < sz then None
      else Some (s\<lparr>ts_usedBytes := ts_usedBytes s + sz\<rparr>))"

definition ts_release :: "int \<Rightarrow> TempStore \<Rightarrow> TempStore" where
  "ts_release sz s =
     (let used = ts_usedBytes s - sz in s\<lparr>ts_usedBytes := if used < 0 then 0 else used\<rparr>)"

definition reserveExtra :: "int \<Rightarrow> TempStore \<Rightarrow> TempStore" where
  "reserveExtra sz s = s\<lparr>ts_usedBytes := ts_usedBytes s + sz\<rparr>"

definition release_in :: "int \<Rightarrow> temp_state \<Rightarrow> temp_state" where
  "release_in sz st = st\<lparr>tm_store := ts_release sz (tm_store st)\<rparr>"

section \<open>Allocation\<close>

text \<open>The part of \<open>temp_allocate\<close> after the reservation: \<open>mkdir\<close> is the directory that
  \<^verbatim>\<open>MkdirTemp\<close> created, if it did, and \<open>openOK\<close> whether the file could be created.\<close>

definition allocate_files ::
    "string option \<Rightarrow> bool \<Rightarrow> int \<Rightarrow> temp_state \<Rightarrow> (temp_error + nat) \<times> temp_state" where
  "allocate_files mkdir openOK sz st =
     (case mkdir of None \<Rightarrow> (Inl CannotCreateDirectory, release_in sz st)
      | Some directory \<Rightarrow>
          let path = filepath_join directory ''payload''
          in if \<not> openOK then (Inl CannotCreateFile, release_in sz st)
             else (Inr (length (tm_allocs st)),
               st\<lparr>tm_allocs := tm_allocs st @ [\<lparr>al_directory = directory, al_path = path,
                    al_file = Some \<lparr>fh_path = path, fh_offset = 0\<rparr>, al_size = sz,
                    al_released = False, al_closeOnce = False\<rparr>],
                  tm_disk := AList.update path [] (tm_disk st)\<rparr>))"

definition temp_allocate ::
    "string option \<Rightarrow> bool \<Rightarrow> int \<Rightarrow> temp_state \<Rightarrow> (temp_error + nat) \<times> temp_state" where
  "temp_allocate mkdir openOK sz st =
     (if sz < 0 then (Inl NegativeSize, st)
      else case ts_reserve sz (tm_store st) of None \<Rightarrow> (Inl QuotaExceeded, st)
      | Some s \<Rightarrow> allocate_files mkdir openOK sz (st\<lparr>tm_store := s\<rparr>))"

definition download_files ::
    "string option \<Rightarrow> int \<Rightarrow> temp_state \<Rightarrow> (temp_error + nat) \<times> temp_state" where
  "download_files mkdir reserve st =
     (case mkdir of None \<Rightarrow> (Inl CannotCreateDirectory, release_in reserve st)
      | Some directory \<Rightarrow>
          (Inr (length (tm_allocs st)),
           st\<lparr>tm_allocs := tm_allocs st @ [\<lparr>al_directory = directory,
                al_path = filepath_join directory ''payload'', al_file = None,
                al_size = reserve, al_released = False, al_closeOnce = False\<rparr>]\<rparr>))"

definition prepareDownload ::
    "string option \<Rightarrow> int \<Rightarrow> temp_state \<Rightarrow> (temp_error + nat) \<times> temp_state" where
  "prepareDownload mkdir reserve st =
     (if reserve \<le> 0 then (Inl ReservationNotPositive, st)
      else case ts_reserve reserve (tm_store st) of None \<Rightarrow> (Inl QuotaExceeded, st)
      | Some s \<Rightarrow> download_files mkdir reserve (st\<lparr>tm_store := s\<rparr>))"

section \<open>Operations of an allocation\<close>

abbreviation al_at :: "temp_state \<Rightarrow> nat \<Rightarrow> tempAllocation" where
  "al_at st a \<equiv> tm_allocs st ! a"

definition al_put :: "nat \<Rightarrow> tempAllocation \<Rightarrow> temp_state \<Rightarrow> temp_state" where
  "al_put a al st = st\<lparr>tm_allocs := (tm_allocs st)[a := al]\<rparr>"

definition file_content :: "string \<Rightarrow> temp_state \<Rightarrow> bytes" where
  "file_content p st = (case map_of (tm_disk st) p of None \<Rightarrow> [] | Some b \<Rightarrow> b)"

definition currentPath :: "nat \<Rightarrow> temp_state \<Rightarrow> string" where
  "currentPath a st = al_path (al_at st a)"

definition settle :: "nat \<Rightarrow> int \<Rightarrow> temp_state \<Rightarrow> temp_state" where
  "settle a actual st =
     (let al = al_at st a; delta = al_size al - actual; s = tm_store st
      in if al_released al then st
         else al_put a (al\<lparr>al_size := actual\<rparr>)
           (st\<lparr>tm_store := if 0 < delta then ts_release delta s
                 else if delta < 0 then reserveExtra (- delta) s else s\<rparr>))"

definition seal :: "bool \<Rightarrow> bool \<Rightarrow> nat \<Rightarrow> temp_state \<Rightarrow> temp_error option \<times> temp_state" where
  "seal syncOK closeOK a st =
     (let al = al_at st a
      in if al_file al = None then (None, st)
         else if \<not> syncOK then (Some FlushFailed, st)
         else if \<not> closeOK then (Some CloseFailed, st)
         else (None, al_put a (al\<lparr>al_file := None\<rparr>) st))"

text \<open>Bytes written into a file at an offset; a gap is filled with zeros.\<close>

definition put_at :: "nat \<Rightarrow> bytes \<Rightarrow> bytes \<Rightarrow> bytes" where
  "put_at off data b =
     take off (b @ replicate (off - length b) 0) @ data @ drop (off + length data) b"

text \<open>How many bytes the operating system takes: all of them, or fewer with an error.\<close>

definition taken :: "nat option \<Rightarrow> bytes \<Rightarrow> nat" where
  "taken short data = (case short of None \<Rightarrow> length data | Some n \<Rightarrow> min n (length data))"

definition put_file :: "string \<Rightarrow> nat \<Rightarrow> bytes \<Rightarrow> temp_state \<Rightarrow> temp_state" where
  "put_file p off data st =
     st\<lparr>tm_disk := AList.update p (put_at off data (file_content p st)) (tm_disk st)\<rparr>"

definition al_write ::
    "nat option \<Rightarrow> nat \<Rightarrow> bytes \<Rightarrow> temp_state \<Rightarrow> (nat \<times> temp_error option) \<times> temp_state" where
  "al_write short a data st =
     (let al = al_at st a
      in case al_file al of None \<Rightarrow> ((0, Some TempFileClosed), st)
         | Some h \<Rightarrow>
             let n = taken short data
             in ((n, if short = None then None else Some WriteFailed),
                 al_put a (al\<lparr>al_file := Some (h\<lparr>fh_offset := fh_offset h + n\<rparr>)\<rparr>)
                   (put_file (fh_path h) (fh_offset h) (take n data) st)))"

definition writeAt ::
    "nat option \<Rightarrow> nat \<Rightarrow> bytes \<Rightarrow> nat \<Rightarrow> temp_state \<Rightarrow> (nat \<times> temp_error option) \<times> temp_state" where
  "writeAt short a data offset st =
     (case al_file (al_at st a) of None \<Rightarrow> ((0, Some TempFileClosed), st)
      | Some h \<Rightarrow>
          let n = taken short data
          in ((n, if short = None then None else Some WriteFailed),
              put_file (fh_path h) offset (take n data) st))"

definition renameToName :: "bool \<Rightarrow> nat \<Rightarrow> string \<Rightarrow> temp_state \<Rightarrow> temp_error option \<times> temp_state" where
  "renameToName renameOK a name st =
     (let al = al_at st a
      in if al_file al \<noteq> None then (Some RenameOpenFile, st)
         else if name = [] \<or> contains_any name [CHR ''/'', CHR 0x5C] \<or> name = ''.'' \<or> name = ''..''
         then (Some InvalidName, st)
         else let target = filepath_join (al_directory al) name
              in if \<not> renameOK \<or> map_of (tm_disk st) (al_path al) = None
                 then (Some RenameFailed, st)
                 else (None, al_put a (al\<lparr>al_path := target\<rparr>)
                   (st\<lparr>tm_disk := AList.update target (file_content (al_path al) st)
                         (AList.delete (al_path al) (tm_disk st))\<rparr>)))"

text \<open>\<open>close\<close> marks the allocation in its own locked section and gives the quota back in the
  store's: \<open>close_begin\<close> returns the amount that is still to be released, \<open>remove_all\<close> and
  \<open>ts_release\<close> follow.\<close>

definition close_begin :: "nat \<Rightarrow> temp_state \<Rightarrow> int option \<times> temp_state" where
  "close_begin a st =
     (let al = al_at st a
      in if al_closeOnce al then (None, st)
         else (Some (al_size al), al_put a (al\<lparr>al_file := None, al_size := 0,
                 al_released := True, al_closeOnce := True\<rparr>) st))"

definition remove_all :: "string \<Rightarrow> temp_state \<Rightarrow> temp_state" where
  "remove_all directory st =
     st\<lparr>tm_disk := filter (\<lambda>(p, _). \<not> has_prefix p (directory @ ''/'')) (tm_disk st)\<rparr>"

definition al_close :: "nat \<Rightarrow> temp_state \<Rightarrow> temp_state" where
  "al_close a st =
     (case close_begin a st of (None, st) \<Rightarrow> st
      | (Some sz, st) \<Rightarrow> release_in sz (remove_all (al_directory (al_at st a)) st))"

section \<open>Accounting\<close>

text \<open>What an allocation holds of the quota, and a store with the amounts that are reserved
  but not yet attached to an allocation, or detached and not yet released. The main HDC
  process writes files of its own accord.\<close>

definition al_holds :: "tempAllocation \<Rightarrow> int" where
  "al_holds al = (if al_released al then 0 else al_size al)"

record temp_run =
  tr_state :: temp_state
  tr_owed :: "int multiset"

definition holdings :: "temp_run \<Rightarrow> int multiset" where
  "holdings r = tr_owed r
     + mset (map al_size (filter (\<lambda>al. \<not> al_released al) (tm_allocs (tr_state r))))"

inductive temp_step :: "temp_run \<Rightarrow> temp_run \<Rightarrow> bool" where
  reserves: "0 \<le> sz \<Longrightarrow> ts_reserve sz (tm_store (tr_state r)) = Some s \<Longrightarrow>
    temp_step r (r\<lparr>tr_state := (tr_state r)\<lparr>tm_store := s\<rparr>, tr_owed := add_mset sz (tr_owed r)\<rparr>)"
| attaches_upload: "sz \<in># tr_owed r \<Longrightarrow>
    allocate_files (Some d) True sz (tr_state r) = (Inr a, st) \<Longrightarrow>
    temp_step r (r\<lparr>tr_state := st, tr_owed := tr_owed r - {#sz#}\<rparr>)"
| attaches_download: "sz \<in># tr_owed r \<Longrightarrow>
    download_files (Some d) sz (tr_state r) = (Inr a, st) \<Longrightarrow>
    temp_step r (r\<lparr>tr_state := st, tr_owed := tr_owed r - {#sz#}\<rparr>)"
| releases: "sz \<in># tr_owed r \<Longrightarrow>
    temp_step r (r\<lparr>tr_state := release_in sz (tr_state r), tr_owed := tr_owed r - {#sz#}\<rparr>)"
| settles: "a < length (tm_allocs (tr_state r)) \<Longrightarrow> 0 \<le> actual \<Longrightarrow>
    actual \<le> al_size (al_at (tr_state r) a) \<or> al_released (al_at (tr_state r) a) \<Longrightarrow>
    temp_step r (r\<lparr>tr_state := settle a actual (tr_state r)\<rparr>)"
| closes: "a < length (tm_allocs (tr_state r)) \<Longrightarrow>
    close_begin a (tr_state r) = (Some sz, st) \<Longrightarrow>
    temp_step r (r\<lparr>tr_state := remove_all (al_directory (al_at st a)) st,
      tr_owed := add_mset sz (tr_owed r)\<rparr>)"
| seals: "a < length (tm_allocs (tr_state r)) \<Longrightarrow> seal s c a (tr_state r) = (e, st) \<Longrightarrow>
    temp_step r (r\<lparr>tr_state := st\<rparr>)"
| writes: "a < length (tm_allocs (tr_state r)) \<Longrightarrow> al_write n a data (tr_state r) = (e, st) \<Longrightarrow>
    temp_step r (r\<lparr>tr_state := st\<rparr>)"
| writes_at: "a < length (tm_allocs (tr_state r)) \<Longrightarrow>
    writeAt n a data off (tr_state r) = (e, st) \<Longrightarrow> temp_step r (r\<lparr>tr_state := st\<rparr>)"
| renames: "a < length (tm_allocs (tr_state r)) \<Longrightarrow>
    renameToName ok a name (tr_state r) = (e, st) \<Longrightarrow> temp_step r (r\<lparr>tr_state := st\<rparr>)"
| outside_writes: "temp_step r (r\<lparr>tr_state := (tr_state r)\<lparr>tm_disk := d\<rparr>\<rparr>)"

text \<open>The contract: a ledger of the amounts held, whose sum never exceeds the limit.\<close>

inductive ledger_step :: "int \<Rightarrow> int multiset \<Rightarrow> int multiset \<Rightarrow> bool" for limit where
  hold: "0 \<le> n \<Longrightarrow> sum_mset h + n \<le> limit \<Longrightarrow> ledger_step limit h (add_mset n h)"
| lower: "x \<in># h \<Longrightarrow> 0 \<le> n \<Longrightarrow> n \<le> x \<Longrightarrow> ledger_step limit h (add_mset n (h - {#x#}))"
| give_back: "x \<in># h \<Longrightarrow> ledger_step limit h (h - {#x#})"
| unchanged: "ledger_step limit h h"

definition ledger_agrees :: "temp_run \<Rightarrow> bool" where
  "ledger_agrees r \<longleftrightarrow> (\<forall>x \<in># holdings r. 0 \<le> x)
     \<and> ts_usedBytes (tm_store (tr_state r)) = sum_mset (holdings r)
     \<and> sum_mset (holdings r) \<le> ts_maxBytes (tm_store (tr_state r))
     \<and> (\<forall>al \<in> set (tm_allocs (tr_state r)). al_released al = al_closeOnce al)"

section \<open>Lemmas on the accounting\<close>

definition live_sizes :: "tempAllocation list \<Rightarrow> int multiset" where
  "live_sizes as = mset (map al_size (filter (\<lambda>al. \<not> al_released al) as))"

definition one_size :: "tempAllocation \<Rightarrow> int multiset" where
  "one_size al = (if al_released al then {#} else {#al_size al#})"

lemma holdings_live: "holdings r = tr_owed r + live_sizes (tm_allocs (tr_state r))"
  by (simp add: holdings_def live_sizes_def)

lemma live_sizes_append [simp]: "live_sizes (as @ bs) = live_sizes as + live_sizes bs"
  by (simp add: live_sizes_def)

lemma live_sizes_one [simp]: "live_sizes [al] = one_size al"
  by (simp add: live_sizes_def one_size_def)

lemma live_sizes_Cons: "live_sizes (al # as) = one_size al + live_sizes as"
  by (simp add: live_sizes_def one_size_def)

lemma live_sizes_Nil [simp]: "live_sizes [] = {#}"
  by (simp add: live_sizes_def)

lemma live_sizes_member: "a < length as \<Longrightarrow> one_size (as ! a) \<subseteq># live_sizes as"
proof (induction as arbitrary: a)
  case (Cons al as)
  show ?case
  proof (cases a)
    case (Suc k)
    then have "one_size (as ! k) \<subseteq># live_sizes as" using Cons by simp
    then have "one_size (as ! k) \<subseteq># one_size al + live_sizes as"
      by (metis mset_subset_eq_add_right subset_mset.order_trans)
    then show ?thesis using Suc by (simp add: live_sizes_Cons)
  qed (simp add: live_sizes_Cons)
qed simp

lemma live_sizes_update:
  "a < length as \<Longrightarrow> live_sizes (as[a := al]) = live_sizes as - one_size (as ! a) + one_size al"
proof (induction as arbitrary: a)
  case (Cons b as)
  show ?case
  proof (cases a)
    case (Suc k)
    then have sub: "one_size (as ! k) \<subseteq># live_sizes as"
      using Cons.prems by (simp add: live_sizes_member)
    have "live_sizes (as[k := al]) = live_sizes as - one_size (as ! k) + one_size al"
      using Cons Suc by simp
    moreover have "one_size b + (live_sizes as - one_size (as ! k) + one_size al)
        = one_size b + live_sizes as - one_size (as ! k) + one_size al"
      by (simp only: multiset_diff_union_assoc [OF sub] add.assoc)
    ultimately show ?thesis using Suc by (simp add: live_sizes_Cons)
  qed (simp add: live_sizes_Cons)
qed simp

lemma live_sizes_same:
  assumes "a < length as" "al_released al = al_released (as ! a)" "al_size al = al_size (as ! a)"
  shows "live_sizes (as[a := al]) = live_sizes as"
proof -
  have "one_size al = one_size (as ! a)" using assms by (simp add: one_size_def)
  then show ?thesis
    using live_sizes_update [OF assms(1)] live_sizes_member [OF assms(1)] by simp
qed

lemma sum_nonneg_mset: "\<forall>y \<in># g. 0 \<le> (y :: int) \<Longrightarrow> 0 \<le> sum_mset g"
  by (induction g) auto

lemma sum_member_le:
  assumes "\<forall>y \<in># h. 0 \<le> (y :: int)" "x \<in># h"
  shows "x \<le> sum_mset h" "0 \<le> sum_mset (h - {#x#})"
proof -
  obtain g where g: "h = add_mset x g" using assms(2) by (metis mset_add)
  have "0 \<le> sum_mset g" using assms(1) g by (intro sum_nonneg_mset) simp
  then show "x \<le> sum_mset h" "0 \<le> sum_mset (h - {#x#})" by (simp_all add: g)
qed

lemma sum_remove: "x \<in># h \<Longrightarrow> sum_mset (h - {#x#}) = sum_mset h - (x :: int)"
  by (metis add_diff_cancel_left' sum_mset.remove)

text \<open>The release of an amount that is held never meets the code's clamp at zero.\<close>

lemma ts_release_held:
  assumes "ts_usedBytes s = sum_mset h" "\<forall>y \<in># h. 0 \<le> y" "x \<in># h" "n \<le> x"
  shows "ts_release n s = s\<lparr>ts_usedBytes := ts_usedBytes s - n\<rparr>"
  using sum_member_le(1) [OF assms(2,3)] assms(1,4) by (simp add: ts_release_def Let_def)

lemma ledger_agreesI:
  assumes "\<forall>x \<in># holdings r. 0 \<le> x"
    and "ts_usedBytes (tm_store (tr_state r)) = sum_mset (holdings r)"
    and "sum_mset (holdings r) \<le> ts_maxBytes (tm_store (tr_state r))"
    and "\<forall>al \<in> set (tm_allocs (tr_state r)). al_released al = al_closeOnce al"
  shows "ledger_agrees r"
  using assms by (simp add: ledger_agrees_def)

definition ledger_refines :: "temp_run \<Rightarrow> temp_run \<Rightarrow> bool" where
  "ledger_refines r r' \<longleftrightarrow> ledger_agrees r'
     \<and> ts_maxBytes (tm_store (tr_state r')) = ts_maxBytes (tm_store (tr_state r))
     \<and> ledger_step (ts_maxBytes (tm_store (tr_state r))) (holdings r) (holdings r')"

lemma refines_unchanged:
  assumes "ledger_agrees r" "tm_store (tr_state r') = tm_store (tr_state r)"
    "holdings r' = holdings r"
    "\<forall>al \<in> set (tm_allocs (tr_state r')). al_released al = al_closeOnce al"
  shows "ledger_refines r r'"
  using assms by (simp add: ledger_refines_def ledger_agrees_def ledger_step.unchanged)

lemma refines_refl: "ledger_agrees r \<Longrightarrow> ledger_refines r r"
  by (simp add: ledger_refines_def ledger_step.unchanged)

text \<open>A step that only changes one allocation's file or path.\<close>

lemma refines_file_change:
  assumes "ledger_agrees r" "a < length (tm_allocs (tr_state r))"
    "tm_store st = tm_store (tr_state r)"
    "tm_allocs st = (tm_allocs (tr_state r))[a := al]"
    "al_released al = al_released (al_at (tr_state r) a)"
    "al_size al = al_size (al_at (tr_state r) a)"
    "al_closeOnce al = al_closeOnce (al_at (tr_state r) a)"
  shows "ledger_refines r (r\<lparr>tr_state := st\<rparr>)"
proof (rule refines_unchanged [OF assms(1)])
  show "holdings (r\<lparr>tr_state := st\<rparr>) = holdings r"
    using assms(2,4-6) by (simp add: holdings_live live_sizes_same)
  show "\<forall>al \<in> set (tm_allocs (tr_state (r\<lparr>tr_state := st\<rparr>))). al_released al = al_closeOnce al"
    using assms by (auto simp: ledger_agrees_def dest!: set_update_subset_insert [THEN subsetD])
qed (use assms(3) in simp)

lemma refines_disk_change:
  assumes "ledger_agrees r" "tm_store st = tm_store (tr_state r)"
    "tm_allocs st = tm_allocs (tr_state r)"
  shows "ledger_refines r (r\<lparr>tr_state := st\<rparr>)"
  using assms by (intro refines_unchanged) (simp_all add: holdings_live ledger_agrees_def)

lemma put_file_sel [simp]:
  "tm_store (put_file p off b st) = tm_store st" "tm_allocs (put_file p off b st) = tm_allocs st"
  by (simp_all add: put_file_def)

lemma al_put_sel [simp]:
  "tm_store (al_put a al st) = tm_store st" "tm_disk (al_put a al st) = tm_disk st"
  "tm_allocs (al_put a al st) = (tm_allocs st)[a := al]"
  by (simp_all add: al_put_def)

lemma remove_all_sel [simp]:
  "tm_store (remove_all d st) = tm_store st" "tm_allocs (remove_all d st) = tm_allocs st"
  by (simp_all add: remove_all_def)

lemma release_in_sel [simp]:
  "tm_store (release_in n st) = ts_release n (tm_store st)"
  "tm_allocs (release_in n st) = tm_allocs st" "tm_disk (release_in n st) = tm_disk st"
  by (simp_all add: release_in_def)

lemma ts_release_sel [simp]: "ts_maxBytes (ts_release n s) = ts_maxBytes s"
  by (simp add: ts_release_def Let_def)

section \<open>Every step refines the ledger\<close>

lemma refines_reserve:
  assumes r: "ledger_agrees r" and n: "0 \<le> n"
    and s: "ts_reserve n (tm_store (tr_state r)) = Some s"
  shows "ledger_refines r (r\<lparr>tr_state := (tr_state r)\<lparr>tm_store := s\<rparr>,
    tr_owed := add_mset n (tr_owed r)\<rparr>)" (is "ledger_refines r ?r")
proof -
  have h: "holdings ?r = add_mset n (holdings r)" by (simp add: holdings_live)
  from s have s': "s = (tm_store (tr_state r))\<lparr>ts_usedBytes := ts_usedBytes (tm_store (tr_state r)) + n\<rparr>"
    "ts_usedBytes (tm_store (tr_state r)) + n \<le> ts_maxBytes (tm_store (tr_state r))"
    by (auto simp: ts_reserve_def split: if_splits)
  have "ledger_step (ts_maxBytes (tm_store (tr_state r))) (holdings r) (holdings ?r)"
    unfolding h using r n s'(2) by (intro ledger_step.hold) (simp_all add: ledger_agrees_def)
  moreover have "ledger_agrees ?r"
    unfolding ledger_agrees_def h using r n s'(2) by (simp add: ledger_agrees_def s'(1))
  ultimately show ?thesis by (simp add: ledger_refines_def s'(1))
qed

text \<open>An owed amount becomes an allocation's size: the ledger does not see it.\<close>

lemma refines_attach:
  assumes r: "ledger_agrees r" and n: "n \<in># tr_owed r"
    and st: "tm_store st = tm_store (tr_state r)"
      "tm_allocs st = tm_allocs (tr_state r) @ [al]"
    and al: "al_size al = n" "\<not> al_released al" "\<not> al_closeOnce al"
  shows "ledger_refines r (r\<lparr>tr_state := st, tr_owed := tr_owed r - {#n#}\<rparr>)"
proof (rule refines_unchanged [OF r])
  show "holdings (r\<lparr>tr_state := st, tr_owed := tr_owed r - {#n#}\<rparr>) = holdings r"
    using n al by (simp add: holdings_live st one_size_def)
qed (use r st al in \<open>auto simp: ledger_agrees_def\<close>)

lemma refines_release:
  assumes r: "ledger_agrees r" and n: "n \<in># tr_owed r"
  shows "ledger_refines r (r\<lparr>tr_state := release_in n (tr_state r), tr_owed := tr_owed r - {#n#}\<rparr>)"
    (is "ledger_refines r ?r")
proof -
  have h: "holdings ?r = holdings r - {#n#}" and m: "n \<in># holdings r"
    using n by (simp_all add: holdings_live)
  have pos: "\<forall>x \<in># holdings r. 0 \<le> x"
    and used: "ts_usedBytes (tm_store (tr_state r)) = sum_mset (holdings r)"
    using r by (simp_all add: ledger_agrees_def)
  have rel: "ts_release n (tm_store (tr_state r))
      = (tm_store (tr_state r))\<lparr>ts_usedBytes := ts_usedBytes (tm_store (tr_state r)) - n\<rparr>"
    by (rule ts_release_held [OF used pos m]) simp
  have "ledger_agrees ?r"
  proof (rule ledger_agreesI)
    show "\<forall>x \<in># holdings ?r. 0 \<le> x" using pos by (auto simp: h dest: in_diffD)
  qed (use r m pos used in \<open>auto simp: ledger_agrees_def h rel sum_remove\<close>)
  moreover have "ledger_step (ts_maxBytes (tm_store (tr_state r))) (holdings r) (holdings ?r)"
    unfolding h using m by (rule ledger_step.give_back)
  ultimately show ?thesis by (simp add: ledger_refines_def)
qed

lemma refines_settle:
  assumes r: "ledger_agrees r" and a: "a < length (tm_allocs (tr_state r))" and n: "0 \<le> n"
    and le: "n \<le> al_size (al_at (tr_state r) a) \<or> al_released (al_at (tr_state r) a)"
  shows "ledger_refines r (r\<lparr>tr_state := settle a n (tr_state r)\<rparr>)" (is "ledger_refines r ?r")
proof (cases "al_released (al_at (tr_state r) a)")
  case True
  then have "?r = r" by (simp add: settle_def Let_def)
  with r show ?thesis by (simp add: ledger_refines_def ledger_step.unchanged)
next
  case live: False
  let ?al = "al_at (tr_state r) a" and ?s = "tm_store (tr_state r)"
  have le: "n \<le> al_size ?al" using le live by simp
  have one: "one_size ?al = {#al_size ?al#}" using live by (simp add: one_size_def)
  have m: "al_size ?al \<in># live_sizes (tm_allocs (tr_state r))"
    using live_sizes_member [OF a] by (simp add: one)
  then have m': "al_size ?al \<in># holdings r" by (simp add: holdings_live)
  have pos: "\<forall>x \<in># holdings r. 0 \<le> x" and used: "ts_usedBytes ?s = sum_mset (holdings r)"
    using r by (simp_all add: ledger_agrees_def)
  have h: "holdings ?r = add_mset n (holdings r - {#al_size ?al#})"
    using live m live_sizes_update [OF a, of "?al\<lparr>al_size := n\<rparr>"]
    by (simp add: holdings_live settle_def Let_def one_size_def)
  have rel: "ts_release (al_size ?al - n) ?s = ?s\<lparr>ts_usedBytes := ts_usedBytes ?s - (al_size ?al - n)\<rparr>"
    by (rule ts_release_held [OF used pos m']) (use n in simp)
  have st: "tm_store (settle a n (tr_state r)) = ?s\<lparr>ts_usedBytes := ts_usedBytes ?s - (al_size ?al - n)\<rparr>"
    using live le rel by (auto simp: settle_def Let_def)
  have "ledger_agrees ?r"
  proof (rule ledger_agreesI)
    show "\<forall>x \<in># holdings ?r. 0 \<le> x" using pos n by (auto simp: h dest: in_diffD)
    show "\<forall>al \<in> set (tm_allocs (tr_state ?r)). al_released al = al_closeOnce al"
      using r live a by (auto simp: ledger_agrees_def settle_def Let_def
          dest!: set_update_subset_insert [THEN subsetD])
  qed (use r m' le in \<open>auto simp: ledger_agrees_def h st sum_remove\<close>)
  moreover have "ledger_step (ts_maxBytes ?s) (holdings r) (holdings ?r)"
    unfolding h using m' n le by (rule ledger_step.lower)
  ultimately show ?thesis by (simp add: ledger_refines_def st)
qed

lemma refines_close:
  assumes r: "ledger_agrees r" and a: "a < length (tm_allocs (tr_state r))"
    and c: "close_begin a (tr_state r) = (Some n, st)"
  shows "ledger_refines r (r\<lparr>tr_state := remove_all d st, tr_owed := add_mset n (tr_owed r)\<rparr>)"
proof (rule refines_unchanged [OF r])
  let ?al = "al_at (tr_state r) a"
  from c have open_al: "\<not> al_closeOnce ?al" and n: "n = al_size ?al"
    and st: "st = al_put a (?al\<lparr>al_file := None, al_size := 0, al_released := True,
      al_closeOnce := True\<rparr>) (tr_state r)"
    by (auto simp: close_begin_def Let_def split: if_splits)
  have live: "\<not> al_released ?al" using r a open_al by (simp add: ledger_agrees_def)
  then have one: "one_size ?al = {#n#}" by (simp add: one_size_def n)
  show "holdings (r\<lparr>tr_state := remove_all d st, tr_owed := add_mset n (tr_owed r)\<rparr>) = holdings r"
    using live_sizes_member [OF a]
    by (simp add: holdings_live st live_sizes_update [OF a] one) (simp add: one_size_def)
  show "\<forall>al \<in> set (tm_allocs (tr_state (r\<lparr>tr_state := remove_all d st,
      tr_owed := add_mset n (tr_owed r)\<rparr>))). al_released al = al_closeOnce al"
    using r by (auto simp: st ledger_agrees_def dest!: set_update_subset_insert [THEN subsetD])
  show "tm_store (tr_state (r\<lparr>tr_state := remove_all d st, tr_owed := add_mset n (tr_owed r)\<rparr>))
    = tm_store (tr_state r)"
    by (simp add: st)
qed

lemma step_refines:
  assumes r: "ledger_agrees r" and step: "temp_step r r'"
  shows "ledger_refines r r'"
  using step
proof cases
  case (seals a s c e st)
  with r show ?thesis
    by (auto simp: seal_def Let_def refines_refl split: if_splits
        intro!: refines_file_change [where a = a])
next
  case (writes a n data e st)
  with r show ?thesis
    by (auto simp: al_write_def Let_def refines_refl refines_disk_change split: option.splits
        intro!: refines_file_change [where a = a])
next
  case (writes_at a n data off e st)
  with r show ?thesis
    by (auto simp: writeAt_def Let_def refines_refl refines_disk_change split: option.splits)
next
  case (outside_writes d)
  with r show ?thesis by (auto intro: refines_disk_change)
next
  case (renames a ok name e st)
  with r show ?thesis
    by (auto simp: renameToName_def Let_def refines_refl refines_disk_change split: if_splits
        intro!: refines_file_change [where a = a])
next
  case (attaches_upload n d a st)
  with r show ?thesis
    by (auto simp: allocate_files_def Let_def intro!: refines_attach)
next
  case (attaches_download n d a st)
  with r show ?thesis
    by (auto simp: download_files_def intro!: refines_attach)
qed (auto intro: r refines_reserve refines_release refines_settle refines_close)

section \<open>The operations as runs\<close>

abbreviation temp_steps :: "temp_run \<Rightarrow> temp_run \<Rightarrow> bool" where
  "temp_steps \<equiv> temp_step\<^sup>*\<^sup>*"

definition idle_run :: "temp_state \<Rightarrow> int multiset \<Rightarrow> temp_run" where
  "idle_run st owed = \<lparr>tr_state = st, tr_owed = owed\<rparr>"

lemma owes_release:
  "temp_step (idle_run st (add_mset n m)) (idle_run (release_in n st) m)"
  using temp_step.releases [of n "idle_run st (add_mset n m)"] by (simp add: idle_run_def)

lemma run_reserve:
  "0 \<le> n \<Longrightarrow> ts_reserve n (tm_store st) = Some s \<Longrightarrow>
    temp_step (idle_run st m) (idle_run (st\<lparr>tm_store := s\<rparr>) (add_mset n m))"
  using temp_step.reserves [of n "idle_run st m" s] by (simp add: idle_run_def)

lemma allocate_run:
  assumes "temp_allocate mkdir ok n st = (res, st')"
  shows "temp_steps (idle_run st m) (idle_run st' m)"
proof (cases "n < 0 \<or> ts_reserve n (tm_store st) = None")
  case True
  then have "st' = st" using assms by (cases "n < 0") (auto simp: temp_allocate_def)
  then show ?thesis by simp
next
  case False
  then obtain s where n: "0 \<le> n" and s: "ts_reserve n (tm_store st) = Some s" by auto
  let ?st = "st\<lparr>tm_store := s\<rparr>"
  have f: "allocate_files mkdir ok n ?st = (res, st')" using assms n s by (simp add: temp_allocate_def)
  have "temp_step (idle_run ?st (add_mset n m)) (idle_run st' m)"
  proof (cases res)
    case (Inl e)
    then have "st' = release_in n ?st"
      using f by (auto simp: allocate_files_def Let_def split: option.splits if_splits)
    then show ?thesis by (simp add: owes_release)
  next
    case (Inr a)
    then obtain d where "allocate_files (Some d) True n ?st = (Inr a, st')"
      using f by (auto simp: allocate_files_def Let_def split: option.splits if_splits)
    then show ?thesis
      using temp_step.attaches_upload [of n "idle_run ?st (add_mset n m)" d a st']
      by (simp add: idle_run_def)
  qed
  with run_reserve [OF n s, of m] show ?thesis
    by (meson converse_rtranclp_into_rtranclp rtranclp.rtrancl_refl)
qed

lemma prepareDownload_run:
  assumes "prepareDownload mkdir n st = (res, st')"
  shows "temp_steps (idle_run st m) (idle_run st' m)"
proof (cases "n \<le> 0 \<or> ts_reserve n (tm_store st) = None")
  case True
  then have "st' = st" using assms by (cases "n \<le> 0") (auto simp: prepareDownload_def)
  then show ?thesis by simp
next
  case False
  then obtain s where n: "0 \<le> n" and s: "ts_reserve n (tm_store st) = Some s" by auto
  let ?st = "st\<lparr>tm_store := s\<rparr>"
  have f: "download_files mkdir n ?st = (res, st')"
    using assms False s by (simp add: prepareDownload_def)
  have "temp_step (idle_run ?st (add_mset n m)) (idle_run st' m)"
  proof (cases res)
    case (Inl e)
    then have "st' = release_in n ?st"
      using f by (auto simp: download_files_def split: option.splits)
    then show ?thesis by (simp add: owes_release)
  next
    case (Inr a)
    then obtain d where "download_files (Some d) n ?st = (Inr a, st')"
      using f by (auto simp: download_files_def split: option.splits)
    then show ?thesis
      using temp_step.attaches_download [of n "idle_run ?st (add_mset n m)" d a st']
      by (simp add: idle_run_def)
  qed
  with run_reserve [OF n s, of m] show ?thesis
    by (meson converse_rtranclp_into_rtranclp rtranclp.rtrancl_refl)
qed

lemma al_close_run:
  assumes a: "a < length (tm_allocs st)"
  shows "temp_steps (idle_run st m) (idle_run (al_close a st) m)"
proof (cases "close_begin a st")
  case (Pair n st1)
  show ?thesis
  proof (cases n)
    case None
    then show ?thesis
      using Pair by (auto simp: al_close_def close_begin_def Let_def split: if_splits)
  next
    case (Some k)
    have dir: "al_directory (al_at st1 a) = al_directory (al_at st a)"
      using Pair Some a by (auto simp: close_begin_def Let_def split: if_splits)
    have "temp_steps (idle_run st m)
      (idle_run (remove_all (al_directory (al_at st1 a)) st1) (add_mset k m))"
      using temp_step.closes [of a "idle_run st m" k st1] a Pair Some
      by (simp add: idle_run_def r_into_rtranclp)
    also have "temp_step \<dots> (idle_run (al_close a st) m)"
      using owes_release [of "remove_all (al_directory (al_at st1 a)) st1" k m] Pair Some
      by (simp add: al_close_def dir)
    finally show ?thesis .
  qed
qed

lemma NewTempStore_agrees:
  fixes d :: disk
  assumes "NewTempStore absp ok root limit = Inr s"
  shows "ledger_agrees (idle_run \<lparr>tm_store = s, tm_allocs = [], tm_disk = d\<rparr> {#})"
    "ts_maxBytes s = limit" "holdings (idle_run \<lparr>tm_store = s, tm_allocs = [], tm_disk = d\<rparr> {#}) = {#}"
  using assms by (auto simp: NewTempStore_def ledger_agrees_def holdings_live idle_run_def
      split: if_splits option.splits)

lemma steps_refine:
  assumes "temp_steps r r'" "ledger_agrees r"
  shows "ledger_agrees r' \<and> ts_maxBytes (tm_store (tr_state r')) = ts_maxBytes (tm_store (tr_state r))
    \<and> (ledger_step (ts_maxBytes (tm_store (tr_state r))))\<^sup>*\<^sup>* (holdings r) (holdings r')"
  using assms
proof (induction rule: rtranclp_induct)
  case (step r1 r2)
  then have "ledger_refines r1 r2" by (simp add: step_refines)
  with step show ?case by (auto simp: ledger_refines_def intro: rtranclp.rtrancl_into_rtrancl)
qed simp

text \<open>C12: The quota of the temporary store is exact under every interleaving of the locked
  sections of concurrent transfers. From a new store with a limit, every reachable state counts
  precisely what the running reservations and the live allocations hold, never more than the limit
  and never less than zero, and every run is a run of the abstract ledger: amounts are taken
  while they fit, lowered when a download turns out smaller, and given back. A download settles
  within its reservation here, as the only caller does.\<close>

theorem quota_refines_ledger:
  assumes "NewTempStore abs_path mkdirOK root limit = Inr s"
    and "temp_steps (idle_run \<lparr>tm_store = s, tm_allocs = [], tm_disk = d\<rparr> {#}) r"
  shows "ts_usedBytes (tm_store (tr_state r)) = sum_mset (holdings r)
    \<and> 0 \<le> ts_usedBytes (tm_store (tr_state r)) \<and> ts_usedBytes (tm_store (tr_state r)) \<le> limit
    \<and> (ledger_step limit)\<^sup>*\<^sup>* {#} (holdings r)"
proof -
  have new: "ledger_agrees (idle_run \<lparr>tm_store = s, tm_allocs = [], tm_disk = d\<rparr> {#})"
    "ts_maxBytes s = limit" "holdings (idle_run \<lparr>tm_store = s, tm_allocs = [], tm_disk = d\<rparr> {#}) = {#}"
    by (rule NewTempStore_agrees [OF assms(1)])+
  have "ledger_agrees r" "ts_maxBytes (tm_store (tr_state r)) = limit"
    "(ledger_step limit)\<^sup>*\<^sup>* {#} (holdings r)"
    using steps_refine [OF assms(2) new(1)] new by (auto simp: idle_run_def)
  then show ?thesis by (auto simp: ledger_agrees_def sum_nonneg_mset)
qed

definition demo_store :: temp_state where
  "demo_store = \<lparr>tm_store = \<lparr>ts_root = ''/tmp/hdc'', ts_maxBytes = 100, ts_usedBytes = 0\<rparr>,
     tm_allocs = [], tm_disk = []\<rparr>"

definition demo_transfers :: temp_state where
  "demo_transfers = al_close 0 (snd (prepareDownload (Some ''/tmp/hdc/b'') 60
     (snd (temp_allocate (Some ''/tmp/hdc/a'') True 40 demo_store))))"

lemma demo_transfers_run: "temp_steps (idle_run demo_store {#}) (idle_run demo_transfers {#})"
proof -
  let ?s1 = "snd (temp_allocate (Some ''/tmp/hdc/a'') True 40 demo_store)"
  let ?s2 = "snd (prepareDownload (Some ''/tmp/hdc/b'') 60 ?s1)"
  have "temp_steps (idle_run demo_store {#}) (idle_run ?s1 {#})"
    by (rule allocate_run [where res = "fst (temp_allocate (Some ''/tmp/hdc/a'') True 40 demo_store)"]) simp
  moreover have "temp_steps (idle_run ?s1 {#}) (idle_run ?s2 {#})"
    by (rule prepareDownload_run [where res = "fst (prepareDownload (Some ''/tmp/hdc/b'') 60 ?s1)"]) simp
  moreover have "0 < length (tm_allocs ?s2)" by code_simp
  ultimately show ?thesis
    unfolding demo_transfers_def using al_close_run [of 0 ?s2 "{#}"] by (meson rtranclp_trans)
qed

lemma quota_refines_ledger_witness:
  "ts_usedBytes (tm_store demo_transfers) = 60
   \<and> (ledger_step 100)\<^sup>*\<^sup>* {#} (holdings (idle_run demo_transfers {#}))"
proof -
  have new: "NewTempStore (\<lambda>_. Some ''/tmp/hdc'') True ''hdc'' 100 = Inr (tm_store demo_store)"
    by code_simp
  have "demo_store = \<lparr>tm_store = tm_store demo_store, tm_allocs = [], tm_disk = []\<rparr>"
    by (simp add: demo_store_def)
  with demo_transfers_run have run: "temp_steps
      (idle_run \<lparr>tm_store = tm_store demo_store, tm_allocs = [], tm_disk = []\<rparr> {#})
      (idle_run demo_transfers {#})" by simp
  have "ts_usedBytes (tm_store demo_transfers) = 60" by code_simp
  with quota_refines_ledger [OF new run] show ?thesis by simp
qed

end
