(* ===== verification/File_Bridge.thy ===== *)
theory File_Bridge
  imports File_Commands Temp_Store
begin

text \<open>
  The bridge of the file family (\<^verbatim>\<open>internal/bridge/file.go\<close>). An upload (send) receives the
  client's bytes into a temporary file and then lets the main HDC server send it to the device;
  a download (recv) lets the main HDC server fetch a file and replays it to the client.
  Uploads and downloads are shared objects and live in two heaps; the bridge's maps say which
  one a channel has. \<open>fb_running\<close> lists the goroutines with the call they are in. A handler, the
  closing of a channel and each turn of a goroutine are one step each; the watchdogs (deadline,
  size of the file) and the main HDC process that writes the file of a download are steps of
  their own. What the operating system and the connection answer is in \<open>file_env\<close>.
\<close>

section \<open>State\<close>

record fileUpload = target_session +
  fu_targetPath :: string
  fu_optionalName :: string
  fu_expectedSize :: int
  fu_allocation :: nat
  fu_receivedSize :: int
  fu_transferStarted :: bool

record fileDownload = target_session +
  fd_devicePath :: string
  fd_optionalName :: string
  fd_userPath :: string
  fd_allocation :: nat
  fd_fileSize :: int
  fd_sending :: bool

datatype file_task = UploadRun nat | DownloadRun nat | SendRun nat

text \<open>Where a goroutine is: before opening its target, in the read loop of an upload (with
  \<open>outputSeen\<close>), in the read loop of a download (with its target and the output so far), or
  before opening the file or at an offset of the replay.\<close>

datatype file_phase =
    FileOpening
  | FileReading bool
  | FileCollecting nat string
  | ReplayOpening
  | Replaying nat

record FileBridge =
  fb_canOpen :: bool
  fb_maxFileBytes :: int
  fb_temp :: temp_state
  fb_uploads :: "(u32, nat) gomap"
  fb_downloads :: "(u32, nat) gomap"
  fb_up :: "fileUpload list"
  fb_down :: "fileDownload list"
  fb_closed :: bool
  fb_running :: "(file_task, file_phase) gomap"
  fb_log :: bridge_log

definition NewFileBridge :: "bool \<Rightarrow> int \<Rightarrow> temp_state \<Rightarrow> FileBridge" where
  "NewFileBridge canOpen maxFileBytes temp = \<lparr>fb_canOpen = canOpen, fb_maxFileBytes = maxFileBytes,
     fb_temp = temp, fb_uploads = [], fb_downloads = [], fb_up = [], fb_down = [],
     fb_closed = False, fb_running = [], fb_log = []\<rparr>"

text \<open>Answers during one handler: the success of its writes, in order, and of the file calls.\<close>

record file_env =
  fe_writeOK :: "nat \<Rightarrow> bool"
  fe_mkdir :: "string option"
  fe_openOK :: bool
  fe_short :: "nat option"
  fe_syncOK :: bool
  fe_closeOK :: bool
  fe_renameOK :: bool

abbreviation fileFinishAll :: byte where "fileFinishAll \<equiv> 0"
abbreviation fileFinishCurrentFile :: byte where "fileFinishCurrentFile \<equiv> 1"
abbreviation (input) fileOutputLimit :: nat where "fileOutputLimit \<equiv> 4096"
abbreviation (input) chunkSize :: nat where "chunkSize \<equiv> 61440"

section \<open>Sessions\<close>

definition file_emit :: "bridge_log \<Rightarrow> FileBridge \<Rightarrow> FileBridge" where
  "file_emit l b = b\<lparr>fb_log := fb_log b @ l\<rparr>"

definition put_upload :: "nat \<Rightarrow> fileUpload \<Rightarrow> FileBridge \<Rightarrow> FileBridge" where
  "put_upload a u b = b\<lparr>fb_up := (fb_up b)[a := u]\<rparr>"

definition put_download :: "nat \<Rightarrow> fileDownload \<Rightarrow> FileBridge \<Rightarrow> FileBridge" where
  "put_download a d b = b\<lparr>fb_down := (fb_down b)[a := d]\<rparr>"

text \<open>The body of \<open>close\<close> runs once: \<open>ss_closed\<close> is the code's \<open>closeOnce\<close> and \<open>closed\<close>.\<close>

definition upload_close :: "nat \<Rightarrow> FileBridge \<Rightarrow> FileBridge" where
  "upload_close a b =
     (let u = fb_up b ! a
      in if ss_closed u then b
         else file_emit (close_effects u)
           (put_upload a (close_session u) (b\<lparr>fb_temp := al_close (fu_allocation u) (fb_temp b)\<rparr>)))"

definition download_close :: "nat \<Rightarrow> FileBridge \<Rightarrow> FileBridge" where
  "download_close a b =
     (let d = fb_down b ! a
      in if ss_closed d then b
         else file_emit (close_effects d)
           (put_download a (close_session d) (b\<lparr>fb_temp := al_close (fd_allocation d) (fb_temp b)\<rparr>)))"

definition removeUpload :: "u32 \<Rightarrow> nat option \<Rightarrow> FileBridge \<Rightarrow> nat option \<times> FileBridge" where
  "removeUpload channelID expected b =
     (case map_of (fb_uploads b) channelID of None \<Rightarrow> (None, b)
      | Some a \<Rightarrow> if expected \<noteq> None \<and> expected \<noteq> Some a then (None, b)
          else (Some a, b\<lparr>fb_uploads := AList.delete channelID (fb_uploads b)\<rparr>))"

definition removeDownload :: "u32 \<Rightarrow> nat option \<Rightarrow> FileBridge \<Rightarrow> nat option \<times> FileBridge" where
  "removeDownload channelID expected b =
     (case map_of (fb_downloads b) channelID of None \<Rightarrow> (None, b)
      | Some a \<Rightarrow> if expected \<noteq> None \<and> expected \<noteq> Some a then (None, b)
          else (Some a, b\<lparr>fb_downloads := AList.delete channelID (fb_downloads b)\<rparr>))"

text \<open>Remove the upload of a channel, if it is the expected one, and close it.\<close>

definition drop_upload :: "u32 \<Rightarrow> nat option \<Rightarrow> FileBridge \<Rightarrow> FileBridge" where
  "drop_upload channelID expected b =
     (case removeUpload channelID expected b of (None, b) \<Rightarrow> b | (Some a, b) \<Rightarrow> upload_close a b)"

definition drop_download :: "u32 \<Rightarrow> nat option \<Rightarrow> FileBridge \<Rightarrow> FileBridge" where
  "drop_download channelID expected b =
     (case removeDownload channelID expected b of (None, b) \<Rightarrow> b | (Some a, b) \<Rightarrow> download_close a b)"

text \<open>A handler returns the bridge and whether it reports an error, that of a failed write.\<close>

definition file_reject :: "bool \<Rightarrow> u32 \<Rightarrow> string \<Rightarrow> FileBridge \<Rightarrow> FileBridge \<times> bool" where
  "file_reject ok channelID message b =
     (file_emit (sent ok (EncodeEchoAndClose channelID message)) b, \<not> ok)"

definition rejectAndClose :: "bool \<Rightarrow> u32 \<Rightarrow> string \<Rightarrow> FileBridge \<Rightarrow> FileBridge \<times> bool" where
  "rejectAndClose ok channelID message b =
     file_reject ok channelID message (drop_upload channelID None b)"

definition failUpload :: "bool \<Rightarrow> u32 \<Rightarrow> nat option \<Rightarrow> string \<Rightarrow> FileBridge \<Rightarrow> FileBridge \<times> bool" where
  "failUpload ok channelID upload message b =
     file_reject ok channelID message
       (case upload of None \<Rightarrow> b | Some a \<Rightarrow> drop_upload channelID (Some a) b)"

section \<open>Uploads\<close>

definition handleCheck :: "file_env \<Rightarrow> Frame \<Rightarrow> FileBridge \<Rightarrow> FileBridge \<times> bool" where
  "handleCheck en frame b =
     (let channelID = ChannelID frame
      in case DecodeTransferConfig (Payload frame) of
        Inl _ \<Rightarrow> rejectAndClose (fe_writeOK en 0) channelID failInvalidFileRequest b
      | Inr config \<Rightarrow> (case validateConfig (fb_maxFileBytes b) config of
          Inl message \<Rightarrow> rejectAndClose (fe_writeOK en 0) channelID message b
        | Inr fileSize \<Rightarrow> (case temp_allocate (fe_mkdir en) (fe_openOK en) fileSize (fb_temp b) of
            (Inl _, temp) \<Rightarrow>
              rejectAndClose (fe_writeOK en 0) channelID failFileTransfer (b\<lparr>fb_temp := temp\<rparr>)
          | (Inr allocation, temp) \<Rightarrow>
              let b = b\<lparr>fb_temp := temp\<rparr>
              in if fb_closed b \<or> map_of (fb_uploads b) channelID \<noteq> None
                 then rejectAndClose (fe_writeOK en 0) channelID failInvalidFileRequest
                   (b\<lparr>fb_temp := al_close allocation temp\<rparr>)
                 else
                   let a = length (fb_up b);
                       b = b\<lparr>fb_up := fb_up b @ [\<lparr>ss_channelID = channelID, ss_target = None,
                               ss_closed = False, fu_targetPath = tc_Path config,
                               fu_optionalName = trim_space (tc_OptionalName config),
                               fu_expectedSize = fileSize, fu_allocation = allocation,
                               fu_receivedSize = 0, fu_transferStarted = False\<rparr>],
                             fb_uploads := AList.update channelID a (fb_uploads b)\<rparr>
                   in if fe_writeOK en 0
                      then (file_emit [FrameSent (EncodeFrame channelID CommandFileBegin [])] b, False)
                      else (drop_upload channelID (Some a) b, True))))"

text \<open>The result is \<open>None\<close> for an error, else whether the file is complete.\<close>

definition writeChunk ::
    "nat option \<Rightarrow> u64 \<Rightarrow> bytes \<Rightarrow> nat \<Rightarrow> FileBridge \<Rightarrow> bool option \<times> FileBridge" where
  "writeChunk short index data a b =
     (let u = fb_up b ! a
      in if ss_closed u \<or> fu_transferStarted u \<or> index \<noteq> of_int (fu_receivedSize u) then (None, b)
         else if fu_expectedSize u - fu_receivedSize u < int (length data) then (None, b)
         else case al_write short (fu_allocation u) data (fb_temp b) of ((written, err), temp) \<Rightarrow>
           let b = b\<lparr>fb_temp := temp\<rparr>
           in if err \<noteq> None then (None, b)
              else if written \<noteq> length data then (None, b)
              else let received = fu_receivedSize u + int written
                in (Some (received = fu_expectedSize u),
                    file_emit [ChunkStored a data] (put_upload a (u\<lparr>fu_receivedSize := received\<rparr>) b)))"

definition handleData :: "file_env \<Rightarrow> Frame \<Rightarrow> FileBridge \<Rightarrow> FileBridge \<times> bool" where
  "handleData en frame b =
     (let channelID = ChannelID frame
      in case map_of (fb_uploads b) channelID of
        None \<Rightarrow> rejectAndClose (fe_writeOK en 0) channelID failInvalidFileRequest b
      | Some a \<Rightarrow>
          (case DecodeTransferData (Payload frame) (of_int (min (fb_maxFileBytes b) (2 ^ 32 - 1))) of
            Inl _ \<Rightarrow> failUpload (fe_writeOK en 0) channelID (Some a) failInvalidFileRequest b
          | Inr (header, data) \<Rightarrow>
              if tp_Compression header \<noteq> CompressionNone
              then failUpload (fe_writeOK en 0) channelID (Some a) failUnsupportedCompress b
              else if tp_CompressedSize header \<noteq> tp_UncompressedSize header
              then failUpload (fe_writeOK en 0) channelID (Some a) failInvalidFileRequest b
              else case writeChunk (fe_short en) (tp_Index header) data a b of
                (None, b) \<Rightarrow> failUpload (fe_writeOK en 0) channelID (Some a) failInvalidFileRequest b
              | (Some complete, b) \<Rightarrow>
                  if complete
                  then (file_emit (sent (fe_writeOK en 0)
                      (EncodeFrame channelID CommandFileFinish [fileFinishCurrentFile])) b,
                      \<not> fe_writeOK en 0)
                  else (b, False)))"

definition prepareTargetTransfer :: "file_env \<Rightarrow> nat \<Rightarrow> FileBridge \<Rightarrow> bool \<times> FileBridge" where
  "prepareTargetTransfer en a b =
     (let u = fb_up b ! a
      in if ss_closed u \<or> fu_transferStarted u \<or> fu_receivedSize u \<noteq> fu_expectedSize u then (False, b)
         else case seal (fe_syncOK en) (fe_closeOK en) (fu_allocation u) (fb_temp b) of
           (Some _, temp) \<Rightarrow> (False, b\<lparr>fb_temp := temp\<rparr>)
         | (None, temp) \<Rightarrow>
             let started = (\<lambda>temp. (True, put_upload a (u\<lparr>fu_transferStarted := True\<rparr>) (b\<lparr>fb_temp := temp\<rparr>)))
             in if fu_optionalName u = [] then started temp
                else case renameToName (fe_renameOK en) (fu_allocation u) (fu_optionalName u) temp of
                  (Some _, temp) \<Rightarrow> (False, b\<lparr>fb_temp := temp\<rparr>)
                | (None, temp) \<Rightarrow> started temp)"

definition start_task :: "file_task \<Rightarrow> file_phase \<Rightarrow> FileBridge \<Rightarrow> FileBridge" where
  "start_task task phase b = b\<lparr>fb_running := AList.update task phase (fb_running b)\<rparr>"

definition stop_task :: "file_task \<Rightarrow> FileBridge \<Rightarrow> FileBridge" where
  "stop_task task b = b\<lparr>fb_running := AList.delete task (fb_running b)\<rparr>"

definition handleFinish :: "file_env \<Rightarrow> Frame \<Rightarrow> FileBridge \<Rightarrow> FileBridge \<times> bool" where
  "handleFinish en frame b =
     (let channelID = ChannelID frame; upload = map_of (fb_uploads b) channelID
      in case upload of
        None \<Rightarrow> failUpload (fe_writeOK en 0) channelID None failInvalidFileRequest b
      | Some a \<Rightarrow>
          if Payload frame \<noteq> [fileFinishAll]
          then failUpload (fe_writeOK en 0) channelID (Some a) failInvalidFileRequest b
          else case prepareTargetTransfer en a b of
            (False, b) \<Rightarrow> failUpload (fe_writeOK en 0) channelID (Some a) failInvalidFileRequest b
          | (True, b) \<Rightarrow> (start_task (UploadRun a) FileOpening b, False))"

definition finishUpload :: "bool \<Rightarrow> bool \<Rightarrow> nat \<Rightarrow> string \<Rightarrow> bool \<Rightarrow> FileBridge \<Rightarrow> FileBridge" where
  "finishUpload ok1 ok2 a message success b =
     (let channelID = ss_channelID (fb_up b ! a)
      in case removeUpload channelID (Some a) b of (None, b) \<Rightarrow> b
         | (Some _, b) \<Rightarrow>
             file_emit ((if \<not> success \<and> message \<noteq> []
                   then sent ok1 (EncodeEchoRaw channelID (bytes_of (message @ [CHR 0x0A]))) else [])
                 @ sent ok2 (EncodeChannelClose channelID)) (upload_close a b))"

definition runTargetUpload_open :: "bool \<Rightarrow> bool \<Rightarrow> open_result \<Rightarrow> nat \<Rightarrow> FileBridge \<Rightarrow> FileBridge" where
  "runTargetUpload_open ok1 ok2 result a b =
     (let u = fb_up b ! a
      in if \<not> fb_canOpen b
         then stop_task (UploadRun a) (finishUpload ok1 ok2 a failFileTransfer False b)
         else case result of
           Opened target \<Rightarrow>
             let b = file_emit [TargetOpened target
                   (buildFileSendCommand (currentPath (fu_allocation u) (fb_temp b)) (fu_targetPath u))] b
             in (case attachTarget target u of
                  None \<Rightarrow> stop_task (UploadRun a) (file_emit [TargetClosed target] b)
                | Some u \<Rightarrow> start_task (UploadRun a) (FileReading False) (put_upload a u b))
         | _ \<Rightarrow> stop_task (UploadRun a) (finishUpload ok1 ok2 a failFileTransfer False b))"

definition runTargetUpload_read ::
    "bool \<Rightarrow> bool \<Rightarrow> bool \<Rightarrow> bytes \<Rightarrow> target_end option \<Rightarrow> bool \<Rightarrow> nat \<Rightarrow> FileBridge \<Rightarrow> FileBridge" where
  "runTargetUpload_read ok ok1 ok2 payload readErr outputSeen a b =
     (let u = fb_up b ! a; outputSeen = (outputSeen \<or> payload \<noteq> []);
          b' = (if payload = [] then b
                else file_emit (sent ok (EncodeEchoRaw (ss_channelID u) payload)) b)
      in if payload \<noteq> [] \<and> \<not> ok
         then stop_task (UploadRun a) (finishUpload ok1 ok2 a [] False b')
         else case readErr of None \<Rightarrow> start_task (UploadRun a) (FileReading outputSeen) b'
         | Some EndDeadline \<Rightarrow>
             stop_task (UploadRun a) (finishUpload ok1 ok2 a failFileTransferTimeout False b')
         | Some EndClosed \<Rightarrow>
             stop_task (UploadRun a) (finishUpload ok1 ok2 a failFileNoResult outputSeen b')
         | Some EndError \<Rightarrow>
             stop_task (UploadRun a) (finishUpload ok1 ok2 a failFileTransfer False b'))"

section \<open>Downloads\<close>

definition endDownload :: "bool \<Rightarrow> bool \<Rightarrow> nat \<Rightarrow> string \<Rightarrow> FileBridge \<Rightarrow> FileBridge" where
  "endDownload ok1 ok2 a message b =
     (let channelID = ss_channelID (fb_down b ! a)
      in case removeDownload channelID (Some a) b of (None, b) \<Rightarrow> b
         | (Some _, b) \<Rightarrow>
             file_emit ((if message \<noteq> []
                   then sent ok1 (EncodeEchoRaw channelID (bytes_of (message @ [CHR 0x0A]))) else [])
                 @ sent ok2 (EncodeChannelClose channelID)) (download_close a b))"

definition handleRecvInit :: "file_env \<Rightarrow> Frame \<Rightarrow> FileBridge \<Rightarrow> FileBridge \<times> bool" where
  "handleRecvInit en frame b =
     (let channelID = ChannelID frame
      in case parseRecvCommand (Payload frame) of
        Inl message \<Rightarrow> file_reject (fe_writeOK en 0) channelID message b
      | Inr r \<Rightarrow> (case prepareDownload (fe_mkdir en) (fb_maxFileBytes b) (fb_temp b) of
          (Inl _, temp) \<Rightarrow> file_reject (fe_writeOK en 0) channelID failFileTransfer (b\<lparr>fb_temp := temp\<rparr>)
        | (Inr allocation, temp) \<Rightarrow>
            let b = b\<lparr>fb_temp := temp\<rparr>
            in if fb_closed b \<or> map_of (fb_downloads b) channelID \<noteq> None
                 \<or> map_of (fb_uploads b) channelID \<noteq> None
               then file_reject (fe_writeOK en 0) channelID failInvalidFileRequest
                 (b\<lparr>fb_temp := al_close allocation temp\<rparr>)
               else
                 let a = length (fb_down b)
                 in (start_task (DownloadRun a) FileOpening
                       (b\<lparr>fb_down := fb_down b @ [\<lparr>ss_channelID = channelID, ss_target = None,
                            ss_closed = False, fd_devicePath = rr_devicePath r,
                            fd_optionalName = rr_optionalName r, fd_userPath = rr_userPath r,
                            fd_allocation = allocation, fd_fileSize = 0, fd_sending = False\<rparr>],
                          fb_downloads := AList.update channelID a (fb_downloads b)\<rparr>), False)))"

definition runTargetDownload_open :: "bool \<Rightarrow> bool \<Rightarrow> open_result \<Rightarrow> nat \<Rightarrow> FileBridge \<Rightarrow> FileBridge" where
  "runTargetDownload_open ok1 ok2 result a b =
     (let d = fb_down b ! a
      in if \<not> fb_canOpen b
         then stop_task (DownloadRun a) (endDownload ok1 ok2 a failFileTransfer b)
         else case result of
           Opened target \<Rightarrow>
             let b = file_emit [TargetOpened target
                   (buildFileRecvCommand (fd_devicePath d) (currentPath (fd_allocation d) (fb_temp b)))] b
             in (case attachTarget target d of
                  None \<Rightarrow> stop_task (DownloadRun a) (file_emit [TargetClosed target] b)
                | Some d \<Rightarrow> start_task (DownloadRun a) (FileCollecting target []) (put_download a d b))
         | _ \<Rightarrow> stop_task (DownloadRun a) (endDownload ok1 ok2 a failFileTransfer b))"

definition setSize :: "int \<Rightarrow> nat \<Rightarrow> FileBridge \<Rightarrow> FileBridge" where
  "setSize n a b =
     (let d = fb_down b ! a
      in (put_download a (d\<lparr>fd_fileSize := n\<rparr>) b)\<lparr>fb_temp := settle (fd_allocation d) n (fb_temp b)\<rparr>)"

text \<open>After the read loop: \<open>deadline\<close> says whether the context has expired, \<open>statOK\<close> whether the
  size of the file can be read.\<close>

definition runTargetDownload_finish ::
    "bool \<Rightarrow> bool \<Rightarrow> bool \<Rightarrow> bool \<Rightarrow> bool \<Rightarrow> nat \<Rightarrow> string \<Rightarrow> nat \<Rightarrow> FileBridge \<Rightarrow> FileBridge" where
  "runTargetDownload_finish ok ok1 ok2 deadline statOK target output a b =
     (let d = fb_down b ! a; b = file_emit [TargetClosed target] b;
          info = map_of (tm_disk (fb_temp b)) (currentPath (fd_allocation d) (fb_temp b))
      in stop_task (DownloadRun a)
        (if deadline then endDownload ok1 ok2 a failFileTransferTimeout b
         else if contains_str (to_lower output) ''[fail]'' then endDownload ok1 ok2 a failFileTransfer b
         else if \<not> statOK \<or> info = None then endDownload ok1 ok2 a failFileNoResult b
         else let fsz = int (length (the info))
              in if fb_maxFileBytes b < fsz then endDownload ok1 ok2 a failFileTransfer b
                 else let b = setSize fsz a b;
                          config = zero_config\<lparr>tc_FileSize := of_int fsz, tc_Path := fd_userPath d,
                            tc_OptionalName := fd_optionalName d, tc_Compression := CompressionNone\<rparr>
                      in if ok then file_emit [FrameSent (EncodeFrame (ss_channelID d) CommandFileCheck
                             (EncodeTransferConfig config))] b
                         else endDownload ok1 ok2 a [] b))"

definition runTargetDownload_read ::
    "bytes \<Rightarrow> bool \<Rightarrow> (nat \<Rightarrow> string \<Rightarrow> nat \<Rightarrow> FileBridge \<Rightarrow> FileBridge) \<Rightarrow> nat \<Rightarrow> string \<Rightarrow> nat \<Rightarrow>
      FileBridge \<Rightarrow> FileBridge" where
  "runTargetDownload_read payload ended finish target output a b =
     (let output = (if payload \<noteq> [] \<and> length output < fileOutputLimit
            then output @ string_of payload else output)
      in if ended then finish target output a b
         else start_task (DownloadRun a) (FileCollecting target output) b)"

text \<open>\<open>watchTempFileSize\<close>: one tick of the watchdog of a download.\<close>

definition watchTempFileSize :: "bool \<Rightarrow> nat \<Rightarrow> FileBridge \<Rightarrow> FileBridge" where
  "watchTempFileSize statOK a b =
     (case map_of (tm_disk (fb_temp b)) (currentPath (fd_allocation (fb_down b ! a)) (fb_temp b)) of
        None \<Rightarrow> b
      | Some content \<Rightarrow>
          if statOK \<and> fb_maxFileBytes b < int (length content) then download_close a b else b)"

definition handleRecvBegin :: "file_env \<Rightarrow> Frame \<Rightarrow> FileBridge \<Rightarrow> FileBridge \<times> bool" where
  "handleRecvBegin en frame b =
     (let channelID = ChannelID frame
      in case map_of (fb_downloads b) channelID of
        None \<Rightarrow> file_reject (fe_writeOK en 0) channelID failInvalidFileRequest b
      | Some a \<Rightarrow>
          let d = fb_down b ! a
          in if ss_closed d \<or> fd_sending d then (b, False)
             else let b = put_download a (d\<lparr>fd_sending := True\<rparr>) b
                  in if fb_closed b then (b, False)
                     else (start_task (SendRun a) ReplayOpening b, False))"

definition sendDownloadData_open :: "bool \<Rightarrow> bool \<Rightarrow> bool \<Rightarrow> nat \<Rightarrow> FileBridge \<Rightarrow> FileBridge" where
  "sendDownloadData_open openOK ok1 ok2 a b =
     (let p = currentPath (fd_allocation (fb_down b ! a)) (fb_temp b)
      in if \<not> openOK \<or> map_of (tm_disk (fb_temp b)) p = None
         then stop_task (SendRun a) (endDownload ok1 ok2 a failFileTransfer b)
         else start_task (SendRun a) (Replaying 0) b)"

text \<open>One turn of the replay loop at an offset. A regular file gives as many bytes as fit the
  buffer; \<open>readOK\<close> says whether the read works.\<close>

definition sendDownloadData_chunk ::
    "bool \<Rightarrow> bool \<Rightarrow> bool \<Rightarrow> bool \<Rightarrow> nat \<Rightarrow> nat \<Rightarrow> FileBridge \<Rightarrow> FileBridge" where
  "sendDownloadData_chunk readOK ok ok1 ok2 index a b =
     (let d = fb_down b ! a;
          chunk = take chunkSize (drop index
            (file_content (currentPath (fd_allocation d) (fb_temp b)) (fb_temp b)));
          header = \<lparr>tp_Index = of_nat index, tp_Compression = CompressionNone,
            tp_CompressedSize = of_nat (length chunk), tp_UncompressedSize = of_nat (length chunk)\<rparr>
      in if ss_closed d then stop_task (SendRun a) b
         else if \<not> readOK then stop_task (SendRun a) (endDownload ok1 ok2 a failFileTransfer b)
         else if chunk = [] then stop_task (SendRun a) b
         else case EncodeTransferData header chunk of
           Inl _ \<Rightarrow> stop_task (SendRun a) (endDownload ok1 ok2 a failFileTransfer b)
         | Inr dataPayload \<Rightarrow>
             if ok then start_task (SendRun a) (Replaying (index + length chunk))
               (file_emit [FrameSent (EncodeFrame (ss_channelID d) CommandFileData dataPayload)] b)
             else stop_task (SendRun a) (endDownload ok1 ok2 a [] b))"

definition handleRecvFinish :: "file_env \<Rightarrow> Frame \<Rightarrow> nat \<Rightarrow> FileBridge \<Rightarrow> FileBridge \<times> bool" where
  "handleRecvFinish en frame a b =
     (let channelID = ss_channelID (fb_down b ! a);
          b = (if Payload frame = [fileFinishCurrentFile]
               then file_emit (sent (fe_writeOK en 0)
                 (EncodeFrame channelID CommandFileFinish [fileFinishAll])) b else b)
      in (endDownload (fe_writeOK en 1) (fe_writeOK en 2) a [] b, False))"

section \<open>Dispatch and shutdown\<close>

definition file_Handle :: "file_env \<Rightarrow> Frame \<Rightarrow> FileBridge \<Rightarrow> FileBridge \<times> bool" where
  "file_Handle en frame b =
     (let flag = CommandFlag frame; channelID = ChannelID frame
      in if flag = CommandFileCheck then handleCheck en frame b
         else if flag = CommandFileData then handleData en frame b
         else if flag = CommandFileFinish then
           (case map_of (fb_downloads b) channelID of
              Some a \<Rightarrow> handleRecvFinish en frame a b
            | None \<Rightarrow> handleFinish en frame b)
         else if flag = CommandFileInit then handleRecvInit en frame b
         else if flag = CommandFileBegin then handleRecvBegin en frame b
         else if flag = CommandLegacyFileRecvInit
         then file_reject (fe_writeOK en 0) channelID failFileDownload b
         else if flag = CommandFileMode \<or> flag = CommandDirMode
         then rejectAndClose (fe_writeOK en 0) channelID failUnsupportedFileOption b
         else rejectAndClose (fe_writeOK en 0) channelID ''[Fail] Command is not supported.'' b)"

definition file_CloseChannel :: "u32 \<Rightarrow> FileBridge \<Rightarrow> FileBridge" where
  "file_CloseChannel channelID b = drop_download channelID None (drop_upload channelID None b)"

text \<open>\<open>Close\<close> up to its wait for the goroutines: it returns once \<open>fb_running\<close> is empty.\<close>

definition file_Close :: "FileBridge \<Rightarrow> FileBridge" where
  "file_Close b =
     (if fb_closed b then b
      else fold download_close (map snd (fb_downloads b))
        (fold upload_close (map snd (fb_uploads b))
          (b\<lparr>fb_closed := True, fb_uploads := [], fb_downloads := []\<rparr>)))"

end
