(* ===== verification/Temp_Files.thy ===== *)
theory Temp_Files
  imports Temp_Store
begin

text \<open>
  The files behind the allocations of the temporary store. Every live allocation has a
  directory of its own below the root, so what happens to one allocation leaves the file of
  every other one alone. \<open>fresh_dir\<close> states what \<^verbatim>\<open>os.MkdirTemp\<close> documents: the directory it
  returns is new.
\<close>

section \<open>Paths\<close>

definition in_root :: "TempStore \<Rightarrow> string \<Rightarrow> bool" where
  "in_root s d \<longleftrightarrow> (\<exists>x. d = ts_root s @ CHR ''/'' # x \<and> CHR ''/'' \<notin> set x)"

definition fresh_dir :: "string \<Rightarrow> temp_state \<Rightarrow> bool" where
  "fresh_dir d t \<longleftrightarrow> in_root (tm_store t) d
     \<and> (\<forall>al \<in> set (tm_allocs t). \<not> al_closeOnce al \<longrightarrow> al_directory al \<noteq> d)"

definition own_path :: "tempAllocation \<Rightarrow> bool" where
  "own_path al \<longleftrightarrow> (\<exists>name. CHR ''/'' \<notin> set name \<and> al_path al = filepath_join (al_directory al) name)
     \<and> (\<forall>h. al_file al = Some h \<longrightarrow> fh_path h = al_path al)"

definition files_ok :: "temp_state \<Rightarrow> bool" where
  "files_ok t \<longleftrightarrow>
     (\<forall>i < length (tm_allocs t). \<not> al_closeOnce (al_at t i) \<longrightarrow>
        in_root (tm_store t) (al_directory (al_at t i)) \<and> own_path (al_at t i))
     \<and> (\<forall>i < length (tm_allocs t). \<forall>j < length (tm_allocs t). i \<noteq> j \<longrightarrow>
        \<not> al_closeOnce (al_at t i) \<longrightarrow> \<not> al_closeOnce (al_at t j) \<longrightarrow>
        al_directory (al_at t i) \<noteq> al_directory (al_at t j))"

lemma files_okD:
  assumes "files_ok t" "i < length (tm_allocs t)" "\<not> al_closeOnce (al_at t i)"
  shows "in_root (tm_store t) (al_directory (al_at t i))" "own_path (al_at t i)"
    "j < length (tm_allocs t) \<Longrightarrow> i \<noteq> j \<Longrightarrow> \<not> al_closeOnce (al_at t j) \<Longrightarrow>
      al_directory (al_at t i) \<noteq> al_directory (al_at t j)"
  using assms by (auto simp: files_ok_def)

lemma join_inj:
  assumes "CHR ''/'' \<notin> set n" "CHR ''/'' \<notin> set m" "filepath_join d n = filepath_join e m"
  shows "d = e \<and> n = m"
proof -
  have "rev n @ CHR ''/'' # rev d = rev m @ CHR ''/'' # rev e"
    using assms(3) by (metis append.assoc append_Cons append_Nil filepath_join_def rev.simps(2) rev_append)
  then have "takeWhile (\<lambda>c. c \<noteq> CHR ''/'') (rev n @ CHR ''/'' # rev d)
      = takeWhile (\<lambda>c. c \<noteq> CHR ''/'') (rev m @ CHR ''/'' # rev e)" by simp
  moreover have "takeWhile (\<lambda>c. c \<noteq> CHR ''/'') (rev n @ CHR ''/'' # rev d) = rev n"
    "takeWhile (\<lambda>c. c \<noteq> CHR ''/'') (rev m @ CHR ''/'' # rev e) = rev m"
    using assms(1,2) by (auto simp: takeWhile_append)
  ultimately have "n = m" by simp
  then show ?thesis using assms(3) by (simp add: filepath_join_def)
qed

text \<open>A path of one directory below the root does not lie in another.\<close>

lemma not_in_other_dir:
  assumes "in_root s d" "in_root s e" "d \<noteq> e" "CHR ''/'' \<notin> set n"
  shows "\<not> has_prefix (filepath_join e n) (d @ ''/'')"
proof
  assume "has_prefix (filepath_join e n) (d @ ''/'')"
  then obtain r where r: "e @ CHR ''/'' # n = d @ CHR ''/'' # r"
    by (auto simp: has_prefix_iff filepath_join_def)
  obtain x y where d: "d = ts_root s @ CHR ''/'' # x" "CHR ''/'' \<notin> set x"
    and e: "e = ts_root s @ CHR ''/'' # y" "CHR ''/'' \<notin> set y"
    using assms(1,2) by (auto simp: in_root_def)
  have eq: "y @ CHR ''/'' # n = x @ CHR ''/'' # r" using r by (simp add: d(1) e(1))
  then have "takeWhile (\<lambda>c. c \<noteq> CHR ''/'') (y @ CHR ''/'' # n)
      = takeWhile (\<lambda>c. c \<noteq> CHR ''/'') (x @ CHR ''/'' # r)" by simp
  moreover have "takeWhile (\<lambda>c. c \<noteq> CHR ''/'') (y @ CHR ''/'' # n) = y"
    "takeWhile (\<lambda>c. c \<noteq> CHR ''/'') (x @ CHR ''/'' # r) = x"
    using d(2) e(2) by (auto simp: takeWhile_append)
  ultimately show False using assms(3) d(1) e(1) by simp
qed

lemma paths_differ:
  assumes "files_ok t" "i < length (tm_allocs t)" "j < length (tm_allocs t)" "i \<noteq> j"
    "\<not> al_closeOnce (al_at t i)" "\<not> al_closeOnce (al_at t j)"
  shows "al_path (al_at t i) \<noteq> al_path (al_at t j)"
  using files_okD(2,3) [OF assms(1,2,5)] files_okD(2) [OF assms(1,3,6)] assms(3,4,6)
  by (metis join_inj own_path_def)

section \<open>What an operation leaves alone\<close>

text \<open>From \<open>t\<close> to \<open>t'\<close> at most allocation \<open>i\<close> changes: the others keep their state and, while
  they are live, the content of their file.\<close>

definition keeps_others :: "nat \<Rightarrow> temp_state \<Rightarrow> temp_state \<Rightarrow> bool" where
  "keeps_others i t t' \<longleftrightarrow> files_ok t' \<and> length (tm_allocs t) \<le> length (tm_allocs t')
     \<and> ts_root (tm_store t') = ts_root (tm_store t)
     \<and> (\<forall>j < length (tm_allocs t). j \<noteq> i \<longrightarrow> al_at t' j = al_at t j
          \<and> (\<not> al_closeOnce (al_at t j) \<longrightarrow>
               file_content (al_path (al_at t j)) t' = file_content (al_path (al_at t j)) t))"

lemma keeps_othersD:
  assumes "keeps_others i t t'"
  shows "files_ok t'" "length (tm_allocs t) \<le> length (tm_allocs t')"
    "ts_root (tm_store t') = ts_root (tm_store t)"
    "j < length (tm_allocs t) \<Longrightarrow> j \<noteq> i \<Longrightarrow> al_at t' j = al_at t j"
    "j < length (tm_allocs t) \<Longrightarrow> j \<noteq> i \<Longrightarrow> \<not> al_closeOnce (al_at t j) \<Longrightarrow>
      file_content (al_path (al_at t j)) t' = file_content (al_path (al_at t j)) t"
  using assms by (auto simp: keeps_others_def)

lemma in_root_cong: "ts_root s = ts_root s' \<Longrightarrow> in_root s d = in_root s' d"
  by (simp add: in_root_def)

lemma keeps_others_refl: "files_ok t \<Longrightarrow> keeps_others i t t"
  by (simp add: keeps_others_def)

lemma keeps_others_trans:
  assumes "keeps_others i t u" "keeps_others i u v"
  shows "keeps_others i t v"
proof -
  note one = keeps_othersD [OF assms(1)] and two = keeps_othersD [OF assms(2)]
  have lt: "j < length (tm_allocs u)" if "j < length (tm_allocs t)" for j
    using one(2) that by simp
  have same: "al_at v j = al_at t j" if "j < length (tm_allocs t)" "j \<noteq> i" for j
    using one(4) [OF that] two(4) [OF lt [OF that(1)] that(2)] by simp
  have content: "file_content (al_path (al_at t j)) v = file_content (al_path (al_at t j)) t"
    if j: "j < length (tm_allocs t)" "j \<noteq> i" "\<not> al_closeOnce (al_at t j)" for j
  proof -
    have "\<not> al_closeOnce (al_at u j)" using one(4) [OF j(1,2)] j(3) by simp
    from two(5) [OF lt [OF j(1)] j(2) this] show ?thesis
      using one(4) [OF j(1,2)] one(5) [OF j] by simp
  qed
  show ?thesis
    unfolding keeps_others_def using one(2,3) two(1-3) same content by auto
qed

text \<open>Replacing one allocation by another with the same directory, or by a closed one.\<close>

lemma files_ok_put:
  assumes "files_ok t" "i < length (tm_allocs t)"
    "al_closeOnce al \<or> \<not> al_closeOnce (al_at t i) \<and> own_path al \<and> al_directory al = al_directory (al_at t i)"
    "tm_allocs t' = (tm_allocs t)[i := al]" "ts_root (tm_store t') = ts_root (tm_store t)"
  shows "files_ok t'"
proof -
  have root: "in_root (tm_store t') d = in_root (tm_store t) d" for d
    using assms(5) by (rule in_root_cong)
  have at: "al_at t' j = (if j = i then al else al_at t j)" if "j < length (tm_allocs t)" for j
    using that assms(4) by (simp add: nth_list_update)
  have len: "length (tm_allocs t') = length (tm_allocs t)" using assms(4) by simp
  show ?thesis
    using assms(1-3) unfolding files_ok_def len by (auto simp: at root split: if_splits)
qed

lemma content_update:
  "file_content q (st\<lparr>tm_disk := AList.update p b (tm_disk st)\<rparr>) = (if q = p then b else file_content q st)"
  by (simp add: file_content_def)

lemma content_put_file:
  "file_content q (put_file p off data t) = (if q = p then put_at off data (file_content p t) else file_content q t)"
  by (simp add: put_file_def content_update)

lemma content_store [simp]:
  "file_content q (t\<lparr>tm_store := s\<rparr>) = file_content q t"
  "file_content q (t\<lparr>tm_allocs := as\<rparr>) = file_content q t"
  "file_content q (al_put a al t) = file_content q t"
  "file_content q (release_in n t) = file_content q t"
  by (simp_all add: file_content_def al_put_def release_in_def)

lemma content_put_allocs [simp]: "al_at (put_file p off data t) j = al_at t j"
  by simp

lemma put_at_end [simp]: "put_at (length b) data b = b @ data"
  by (simp add: put_at_def)

lemma root_release [simp]: "ts_root (ts_release n s) = ts_root s" "ts_root (reserveExtra n s) = ts_root s"
  by (simp_all add: ts_release_def reserveExtra_def Let_def)

section \<open>Each operation\<close>

lemma reserve_root: "ts_reserve n s = Some s' \<Longrightarrow> ts_root s' = ts_root s"
  by (auto simp: ts_reserve_def split: if_splits)

lemma own_path_new: "own_path \<lparr>al_directory = d, al_path = filepath_join d ''payload'',
    al_file = (if f then Some \<lparr>fh_path = filepath_join d ''payload'', fh_offset = 0\<rparr> else None),
    al_size = n, al_released = False, al_closeOnce = False\<rparr>"
  unfolding own_path_def by (intro conjI exI [of _ "''payload''"]) auto

lemma files_ok_new:
  assumes t: "files_ok t" and d: "fresh_dir d t"
    and t': "tm_allocs t' = tm_allocs t @ [al]" "ts_root (tm_store t') = ts_root (tm_store t)"
    and al: "own_path al" "al_directory al = d"
  shows "files_ok t'"
proof -
  have root: "in_root (tm_store t') e = in_root (tm_store t) e" for e
    using t'(2) by (rule in_root_cong)
  have at: "al_at t' j = (if j < length (tm_allocs t) then al_at t j else al)"
    if "j < Suc (length (tm_allocs t))" for j
    using that t'(1) by (auto simp: nth_append less_Suc_eq)
  have len: "length (tm_allocs t') = Suc (length (tm_allocs t))" using t'(1) by simp
  have new: "al_directory (al_at t j) \<noteq> d" if "j < length (tm_allocs t)" "\<not> al_closeOnce (al_at t j)" for j
    using d that by (simp add: fresh_dir_def)
  show ?thesis
    unfolding files_ok_def len
  proof (intro conjI allI impI)
    fix i
    assume "i < Suc (length (tm_allocs t))" "\<not> al_closeOnce (al_at t' i)"
    then show "in_root (tm_store t') (al_directory (al_at t' i))" "own_path (al_at t' i)"
      using t d al by (auto simp: at root files_ok_def fresh_dir_def split: if_splits)
  next
    fix i j
    assume h: "i < Suc (length (tm_allocs t))" "j < Suc (length (tm_allocs t))" "i \<noteq> j"
      "\<not> al_closeOnce (al_at t' i)" "\<not> al_closeOnce (al_at t' j)"
    show "al_directory (al_at t' i) \<noteq> al_directory (al_at t' j)"
    proof (cases "i < length (tm_allocs t) \<and> j < length (tm_allocs t)")
      case True
      then show ?thesis using h t by (auto simp: at files_ok_def)
    next
      case False
      then show ?thesis using h new [of i] new [of j] al(2) by (auto simp: at less_Suc_eq)
    qed
  qed
qed

lemma path_in_dir:
  assumes "own_path al"
  shows "al_path al \<noteq> filepath_join d n \<or> al_directory al = d \<or> CHR ''/'' \<in> set n"
proof -
  obtain m where "CHR ''/'' \<notin> set m" "al_path al = filepath_join (al_directory al) m"
    using assms by (auto simp: own_path_def)
  then show ?thesis using join_inj [of m n "al_directory al" d] by metis
qed

lemma allocate_keeps:
  assumes t: "files_ok t" and d: "\<forall>x. mkdir = Some x \<longrightarrow> fresh_dir x t"
    and a: "temp_allocate mkdir ok n t = (res, t')"
  shows "keeps_others (length (tm_allocs t)) t t'"
proof (cases res)
  case (Inl e)
  then have st: "tm_allocs t' = tm_allocs t" "tm_disk t' = tm_disk t" "ts_root (tm_store t') = ts_root (tm_store t)"
    using a by (auto simp: temp_allocate_def allocate_files_def Let_def ts_reserve_def
        split: if_splits option.splits)
  then have "files_ok t'" using t in_root_cong [OF st(3)] by (simp add: files_ok_def)
  then show ?thesis using st by (simp add: keeps_others_def file_content_def)
next
  case (Inr b)
  then obtain x s where x: "mkdir = Some x" and s: "ts_reserve n (tm_store t) = Some s"
    and st: "tm_allocs t' = tm_allocs t @ [\<lparr>al_directory = x, al_path = filepath_join x ''payload'',
        al_file = Some \<lparr>fh_path = filepath_join x ''payload'', fh_offset = 0\<rparr>, al_size = n,
        al_released = False, al_closeOnce = False\<rparr>]"
      "tm_disk t' = AList.update (filepath_join x ''payload'') [] (tm_disk t)" "tm_store t' = s"
    using a by (auto simp: temp_allocate_def allocate_files_def Let_def split: if_splits option.splits)
  have root: "ts_root (tm_store t') = ts_root (tm_store t)"
    using reserve_root [OF s] st(3) by simp
  have fresh: "fresh_dir x t" using d x by simp
  have "files_ok t'"
    by (rule files_ok_new [OF t fresh st(1) root]) (use own_path_new [of x True n] in simp_all)
  moreover have "al_path (al_at t j) \<noteq> filepath_join x ''payload''"
    if "j < length (tm_allocs t)" "\<not> al_closeOnce (al_at t j)" for j
    using path_in_dir [of "al_at t j" x "''payload''"] files_okD(2) [OF t that] fresh that
    by (auto simp: fresh_dir_def)
  ultimately show ?thesis
    using root by (auto simp: keeps_others_def st nth_append file_content_def)
qed

lemma prepareDownload_keeps:
  assumes t: "files_ok t" and d: "\<forall>x. mkdir = Some x \<longrightarrow> fresh_dir x t"
    and a: "prepareDownload mkdir n t = (res, t')"
  shows "keeps_others (length (tm_allocs t)) t t'"
proof (cases res)
  case (Inl e)
  then have st: "tm_allocs t' = tm_allocs t" "tm_disk t' = tm_disk t" "ts_root (tm_store t') = ts_root (tm_store t)"
    using a by (auto simp: prepareDownload_def download_files_def ts_reserve_def
        split: if_splits option.splits)
  then have "files_ok t'" using t in_root_cong [OF st(3)] by (simp add: files_ok_def)
  then show ?thesis using st by (simp add: keeps_others_def file_content_def)
next
  case (Inr b)
  then obtain x s where x: "mkdir = Some x" and s: "ts_reserve n (tm_store t) = Some s"
    and st: "tm_allocs t' = tm_allocs t @ [\<lparr>al_directory = x, al_path = filepath_join x ''payload'',
        al_file = None, al_size = n, al_released = False, al_closeOnce = False\<rparr>]"
      "tm_disk t' = tm_disk t" "tm_store t' = s"
    using a by (auto simp: prepareDownload_def download_files_def split: if_splits option.splits)
  have root: "ts_root (tm_store t') = ts_root (tm_store t)"
    using reserve_root [OF s] st(3) by simp
  have fresh: "fresh_dir x t" using d x by simp
  have "files_ok t'"
    by (rule files_ok_new [OF t fresh st(1) root]) (use own_path_new [of x False n] in simp_all)
  then show ?thesis
    using root by (auto simp: keeps_others_def st nth_append file_content_def)
qed

text \<open>An operation on a live allocation that stays within its own file.\<close>

lemma put_keeps:
  assumes t: "files_ok t" and i: "i < length (tm_allocs t)" "\<not> al_closeOnce (al_at t i)"
    and al: "own_path al \<or> al_closeOnce al" "al_directory al = al_directory (al_at t i)"
    and t': "tm_allocs t' = (tm_allocs t)[i := al]" "ts_root (tm_store t') = ts_root (tm_store t)"
    and c: "\<And>q. (\<forall>n. CHR ''/'' \<notin> set n \<longrightarrow> q \<noteq> filepath_join (al_directory (al_at t i)) n) \<Longrightarrow>
      (\<exists>e m. in_root (tm_store t) e \<and> e \<noteq> al_directory (al_at t i) \<and> CHR ''/'' \<notin> set m \<and> q = filepath_join e m) \<Longrightarrow>
      file_content q t' = file_content q t"
  shows "keeps_others i t t'"
proof -
  have "files_ok t'" by (rule files_ok_put [OF t i(1) _ t']) (use al i in auto)
  moreover have "file_content (al_path (al_at t j)) t' = file_content (al_path (al_at t j)) t"
    if j: "j < length (tm_allocs t)" "j \<noteq> i" "\<not> al_closeOnce (al_at t j)" for j
  proof (rule c)
    have own: "own_path (al_at t j)" and ne: "al_directory (al_at t j) \<noteq> al_directory (al_at t i)"
      using files_okD(2,3) [OF t j(1,3)] i j by auto
    then show "\<forall>n. CHR ''/'' \<notin> set n \<longrightarrow> al_path (al_at t j) \<noteq> filepath_join (al_directory (al_at t i)) n"
      using path_in_dir by blast
    show "\<exists>e m. in_root (tm_store t) e \<and> e \<noteq> al_directory (al_at t i) \<and> CHR ''/'' \<notin> set m
        \<and> al_path (al_at t j) = filepath_join e m"
      using own ne files_okD(1) [OF t j(1,3)] unfolding own_path_def by blast
  qed
  ultimately show ?thesis using t' by (auto simp: keeps_others_def nth_list_update)
qed

lemma own_file_path:
  assumes "own_path al" "al_file al = Some h"
  shows "\<exists>n. CHR ''/'' \<notin> set n \<and> fh_path h = filepath_join (al_directory al) n"
  using assms unfolding own_path_def by auto

lemma al_write_keeps:
  assumes t: "files_ok t" and i: "i < length (tm_allocs t)" "\<not> al_closeOnce (al_at t i)"
    and w: "al_write short i data t = (r, t')"
  shows "keeps_others i t t'"
proof (cases "al_file (al_at t i)")
  case None
  then show ?thesis using w t by (simp add: al_write_def keeps_others_refl)
next
  case (Some h)
  note own = files_okD(2) [OF t i]
  let ?al = "(al_at t i)\<lparr>al_file := Some (h\<lparr>fh_offset := fh_offset h + taken short data\<rparr>)\<rparr>"
  have t': "t' = al_put i ?al (put_file (fh_path h) (fh_offset h) (take (taken short data) data) t)"
    using w Some by (auto simp: al_write_def Let_def)
  show ?thesis
  proof (rule put_keeps [OF t i, where al = ?al])
    show "own_path ?al \<or> al_closeOnce ?al" using own Some by (simp add: own_path_def)
    fix q
    assume "\<forall>n. CHR ''/'' \<notin> set n \<longrightarrow> q \<noteq> filepath_join (al_directory (al_at t i)) n"
    then have "q \<noteq> fh_path h" using own_file_path [OF own Some] by auto
    then show "file_content q t' = file_content q t" by (simp add: t' content_put_file)
  qed (simp_all add: t' put_file_def)
qed

lemma seal_keeps:
  assumes t: "files_ok t" and i: "i < length (tm_allocs t)" "\<not> al_closeOnce (al_at t i)"
    and w: "seal s c i t = (r, t')"
  shows "keeps_others i t t'"
proof (cases "t' = t")
  case False
  let ?al = "(al_at t i)\<lparr>al_file := None\<rparr>"
  have t': "t' = al_put i ?al t"
    using w False by (auto simp: seal_def Let_def split: if_splits)
  show ?thesis
    by (rule put_keeps [OF t i, where al = ?al])
      (use files_okD(2) [OF t i] in \<open>auto simp: t' own_path_def\<close>)
qed (use t in \<open>simp add: keeps_others_refl\<close>)

lemma renameToName_keeps:
  assumes t: "files_ok t" and i: "i < length (tm_allocs t)" "\<not> al_closeOnce (al_at t i)"
    and w: "renameToName ok i name t = (r, t')"
  shows "keeps_others i t t'"
proof (cases "t' = t")
  case False
  note own = files_okD(2) [OF t i]
  let ?target = "filepath_join (al_directory (al_at t i)) name"
  let ?al = "(al_at t i)\<lparr>al_path := ?target\<rparr>"
  have n: "CHR ''/'' \<notin> set name" "al_file (al_at t i) = None"
    and t': "t' = al_put i ?al (t\<lparr>tm_disk := AList.update ?target (file_content (al_path (al_at t i)) t)
      (AList.delete (al_path (al_at t i)) (tm_disk t))\<rparr>)"
    using w False by (auto simp: renameToName_def Let_def contains_any_iff split: if_splits)
  obtain m where m: "CHR ''/'' \<notin> set m" "al_path (al_at t i) = filepath_join (al_directory (al_at t i)) m"
    using own by (auto simp: own_path_def)
  show ?thesis
  proof (rule put_keeps [OF t i, where al = ?al])
    show "own_path ?al \<or> al_closeOnce ?al" using n by (auto simp: own_path_def)
    fix q
    assume "\<forall>n. CHR ''/'' \<notin> set n \<longrightarrow> q \<noteq> filepath_join (al_directory (al_at t i)) n"
    then have "q \<noteq> ?target" "q \<noteq> al_path (al_at t i)" using n m by auto
    then show "file_content q t' = file_content q t"
      by (simp add: t' content_update) (simp add: file_content_def)
  qed (simp_all add: t')
qed (use t in \<open>simp add: keeps_others_refl\<close>)

lemma settle_keeps:
  assumes t: "files_ok t" and i: "i < length (tm_allocs t)" "\<not> al_closeOnce (al_at t i)"
  shows "keeps_others i t (settle i n t)"
proof (cases "al_released (al_at t i)")
  case False
  show ?thesis
    by (rule put_keeps [OF t i, where al = "(al_at t i)\<lparr>al_size := n\<rparr>"])
      (use False files_okD(2) [OF t i] in \<open>auto simp: settle_def Let_def own_path_def\<close>)
qed (use t in \<open>simp add: settle_def Let_def keeps_others_refl\<close>)

lemma map_of_filter_keys: "map_of (filter (\<lambda>(p, _). P p) m) q = (if P q then map_of m q else None)"
  by (induction m) auto

lemma al_close_effect:
  assumes "i < length (tm_allocs t)" "\<not> al_closeOnce (al_at t i)"
  shows "al_close i t = release_in (al_size (al_at t i)) (remove_all (al_directory (al_at t i))
    (al_put i ((al_at t i)\<lparr>al_file := None, al_size := 0, al_released := True, al_closeOnce := True\<rparr>) t))"
  using assms by (simp add: al_close_def close_begin_def Let_def)

lemma al_close_keeps:
  assumes t: "files_ok t" and i: "i < length (tm_allocs t)"
  shows "keeps_others i t (al_close i t)"
proof (cases "al_closeOnce (al_at t i)")
  case False
  let ?d = "al_directory (al_at t i)"
  let ?al = "(al_at t i)\<lparr>al_file := None, al_size := 0, al_released := True, al_closeOnce := True\<rparr>"
  note e = al_close_effect [OF i False]
  show ?thesis
  proof (rule put_keeps [OF t i False, where al = ?al])
    fix q
    assume "\<exists>e m. in_root (tm_store t) e \<and> e \<noteq> ?d \<and> CHR ''/'' \<notin> set m \<and> q = filepath_join e m"
    then have "\<not> has_prefix q (?d @ ''/'')"
      using not_in_other_dir [OF files_okD(1) [OF t i False]] by blast
    then show "file_content q (al_close i t) = file_content q t"
      by (simp add: e file_content_def remove_all_def map_of_filter_keys)
  qed (simp_all add: e)
qed (use t in \<open>simp add: al_close_def close_begin_def Let_def keeps_others_refl\<close>)

text \<open>The main HDC process writes the file of a download.\<close>

lemma outside_keeps:
  assumes t: "files_ok t" and i: "i < length (tm_allocs t)" "\<not> al_closeOnce (al_at t i)"
  shows "keeps_others i t (t\<lparr>tm_disk := AList.update (al_path (al_at t i)) b (tm_disk t)\<rparr>)"
proof -
  obtain m where m: "CHR ''/'' \<notin> set m" "al_path (al_at t i) = filepath_join (al_directory (al_at t i)) m"
    using files_okD(2) [OF t i] by (auto simp: own_path_def)
  show ?thesis
    by (rule put_keeps [OF t i, where al = "al_at t i"])
      (use m files_okD(2) [OF t i] in \<open>auto simp: content_update\<close>)
qed

text \<open>Closing an allocation deletes everything in its own directory and nothing of a transfer that
  is still running: every other live allocation keeps its state and the bytes of its file.\<close>

theorem close_removes_only_own_files:
  assumes "files_ok t" "i < length (tm_allocs t)" "\<not> al_closeOnce (al_at t i)"
  shows "(\<forall>p b. (p, b) \<in> set (tm_disk (al_close i t)) \<longrightarrow> \<not> has_prefix p (al_directory (al_at t i) @ ''/''))
    \<and> al_released (al_at (al_close i t) i)
    \<and> (\<forall>j < length (tm_allocs t). j \<noteq> i \<longrightarrow> \<not> al_closeOnce (al_at t j) \<longrightarrow>
         al_at (al_close i t) j = al_at t j
         \<and> file_content (al_path (al_at t j)) (al_close i t) = file_content (al_path (al_at t j)) t)"
  using al_close_keeps [OF assms(1,2)] assms(2)
  by (auto simp: keeps_others_def al_close_effect [OF assms(2,3)] remove_all_def)

definition two_uploads :: temp_state where
  "two_uploads = snd (al_write None 1 [1, 2] (snd (temp_allocate (Some ''/tmp/hdc/b'') True 2
     (snd (temp_allocate (Some ''/tmp/hdc/a'') True 40 demo_store)))))"

lemma close_removes_only_own_files_witness:
  "file_content ''/tmp/hdc/b/payload'' (al_close 0 two_uploads) = [1, 2]"
proof -
  let ?t1 = "snd (temp_allocate (Some ''/tmp/hdc/a'') True 40 demo_store)"
  let ?t2 = "snd (temp_allocate (Some ''/tmp/hdc/b'') True 2 ?t1)"
  have in1: "in_root (tm_store demo_store) ''/tmp/hdc/a''"
    unfolding in_root_def by (rule exI [of _ "''a''"]) (simp add: demo_store_def)
  have f1: "fresh_dir ''/tmp/hdc/a'' demo_store"
    using in1 by (simp add: fresh_dir_def demo_store_def)
  have t0: "files_ok demo_store" by (simp add: files_ok_def demo_store_def)
  have t1: "files_ok ?t1"
    by (rule keeps_othersD(1) [OF allocate_keeps [OF t0 _ prod.collapse [symmetric]]]) (use f1 in simp)
  have s1: "ts_root (tm_store ?t1) = ''/tmp/hdc''" by code_simp
  have a1: "map al_directory (tm_allocs ?t1) = [''/tmp/hdc/a'']" by code_simp
  have "in_root (tm_store ?t1) ''/tmp/hdc/b''"
    unfolding in_root_def s1 by (rule exI [of _ "''b''"]) simp
  moreover have "al_directory al \<noteq> ''/tmp/hdc/b''" if "al \<in> set (tm_allocs ?t1)" for al
  proof -
    have "al_directory al \<in> set (map al_directory (tm_allocs ?t1))" using that by simp
    then show ?thesis unfolding a1 by simp
  qed
  ultimately have f2: "fresh_dir ''/tmp/hdc/b'' ?t1" by (simp add: fresh_dir_def)
  have t2: "files_ok ?t2"
    by (rule keeps_othersD(1) [OF allocate_keeps [OF t1 _ prod.collapse [symmetric]]]) (use f2 in simp)
  have l2: "length (tm_allocs ?t2) = 2" "\<not> al_closeOnce (al_at ?t2 1)" by code_simp+
  have "files_ok two_uploads"
    unfolding two_uploads_def
    by (rule keeps_othersD(1) [OF al_write_keeps [OF t2 _ _ prod.collapse [symmetric]]]) (use l2 in simp_all)
  moreover have "length (tm_allocs two_uploads) = 2" "\<not> al_closeOnce (al_at two_uploads 0)"
    "\<not> al_closeOnce (al_at two_uploads 1)" "al_path (al_at two_uploads 1) = ''/tmp/hdc/b/payload''"
    "file_content ''/tmp/hdc/b/payload'' two_uploads = [1, 2]" by code_simp+
  ultimately show ?thesis
    using close_removes_only_own_files [of two_uploads 0] by (auto simp: numeral_2_eq_2 less_Suc_eq)
qed

end
