(* ===== verification/Session_Table.thy ===== *)
theory Session_Table
  imports Bridge_Common Temp_Files
begin

text \<open>
  What the invariants of the bridges share: a table of the open sessions of a bridge over the
  heap of all its sessions, what the other users of the temporary store may do, and the effect
  of each operation of the store on the allocation it is applied to.
\<close>

section \<open>Tables of sessions\<close>

definition table_ok :: "(u32, nat) gomap \<Rightarrow> 'a target_session_scheme list \<Rightarrow> bool" where
  "table_ok m h \<longleftrightarrow> (\<forall>a \<in> snd ` set m. a < length h)
     \<and> (\<forall>c a. map_of m c = Some a \<longrightarrow> ss_channelID (h ! a) = c)
     \<and> (\<forall>a < length h. \<not> ss_closed (h ! a) \<longrightarrow> map_of m (ss_channelID (h ! a)) = Some a)"

lemma table_okD:
  assumes "table_ok m h" "map_of m c = Some a"
  shows "a < length h" "ss_channelID (h ! a) = c"
proof -
  have "a \<in> snd ` set m" using map_of_SomeD [OF assms(2)] by force
  then show "a < length h" using assms(1) unfolding table_ok_def by blast
  show "ss_channelID (h ! a) = c" using assms by (simp add: table_ok_def)
qed

lemma table_ok_update:
  assumes "table_ok m h" "a < length h" "ss_channelID s = ss_channelID (h ! a)"
    "ss_closed s \<or> \<not> ss_closed (h ! a)"
  shows "table_ok m (h[a := s])"
  using assms by (auto simp: table_ok_def nth_list_update)

lemma set_delete: "snd ` set (AList.delete k m) \<subseteq> snd ` set m"
  by (auto simp: AList.delete_eq)

lemma table_ok_remove:
  assumes "table_ok m h" "map_of m c = Some a" "ss_closed s" "ss_channelID s = c"
  shows "table_ok (AList.delete c m) (h[a := s])"
proof -
  have a: "a < length h" "ss_channelID (h ! a) = c" using table_okD [OF assms(1,2)] by auto
  show ?thesis
    unfolding table_ok_def
  proof (intro conjI allI impI ballI)
    fix i
    assume "i \<in> snd ` set (AList.delete c m)"
    then have "i \<in> snd ` set m" using set_delete [of c m] by (rule subsetD [rotated])
    then show "i < length (h[a := s])" using assms(1) by (auto simp: table_ok_def)
  next
    fix x i
    assume h: "map_of (AList.delete c m) x = Some i"
    then have "map_of m x = Some i" "x \<noteq> c" by (auto split: if_splits)
    then show "ss_channelID (h[a := s] ! i) = x"
      using table_okD(2) [OF assms(1), of x i] a(2) by (cases "i = a") auto
  next
    fix i
    assume h: "i < length (h[a := s])" "\<not> ss_closed (h[a := s] ! i)"
    then have i: "i \<noteq> a" using assms(3) a(1) by auto
    then have m: "map_of m (ss_channelID (h ! i)) = Some i" using h assms(1) by (simp add: table_ok_def)
    then have "ss_channelID (h ! i) \<noteq> c" using i assms(2) by auto
    then show "map_of (AList.delete c m) (ss_channelID (h[a := s] ! i)) = Some i" using m i by simp
  qed
qed

lemma table_ok_nil: "\<forall>s \<in> set h. ss_closed s \<Longrightarrow> table_ok [] h"
  by (auto simp: table_ok_def)

lemma table_ok_new:
  assumes "table_ok m h" "map_of m c = None" "ss_channelID s = c"
  shows "table_ok (AList.update c (length h) m) (h @ [s])"
proof -
  have up: "snd ` set (AList.update c (length h) m) \<subseteq> insert (length h) (snd ` set m)"
    by (induction m) auto
  show ?thesis
    unfolding table_ok_def
  proof (intro conjI allI impI ballI)
    fix i
    assume "i \<in> snd ` set (AList.update c (length h) m)"
    then have "i = length h \<or> i \<in> snd ` set m" using up by blast
    then show "i < length (h @ [s])" using assms(1) by (auto simp: table_ok_def)
  next
    fix x i
    assume h: "map_of (AList.update c (length h) m) x = Some i"
    show "ss_channelID ((h @ [s]) ! i) = x"
      using h table_okD [OF assms(1), of x i] assms(3) by (auto simp: nth_append split: if_splits)
  next
    fix i
    assume i: "i < length (h @ [s])" "\<not> ss_closed ((h @ [s]) ! i)"
    show "map_of (AList.update c (length h) m) (ss_channelID ((h @ [s]) ! i)) = Some i"
    proof (cases "i < length h")
      case True
      then have "map_of m (ss_channelID (h ! i)) = Some i"
        using i(2) assms(1) by (auto simp: table_ok_def nth_append)
      then show ?thesis using True assms(2) by (auto simp: nth_append)
    next
      case False
      then show ?thesis using i assms(3) by (simp add: nth_append less_Suc_eq)
    qed
  qed
qed

lemma table_listed:
  assumes "table_ok m h" "i < length h"
  shows "i \<in> set (map snd m) \<or> ss_closed (h ! i)"
proof (cases "ss_closed (h ! i)")
  case False
  then have "map_of m (ss_channelID (h ! i)) = Some i" using assms by (simp add: table_ok_def)
  then have "(ss_channelID (h ! i), i) \<in> set m" by (rule map_of_SomeD)
  then show ?thesis by force
qed simp

section \<open>The store\<close>

text \<open>What other connections may do to the shared store: everything except to touch the
  allocations of this bridge and their files.\<close>

definition others_use :: "nat set \<Rightarrow> temp_state \<Rightarrow> temp_state \<Rightarrow> bool" where
  "others_use own t t' \<longleftrightarrow> files_ok t' \<and> length (tm_allocs t) \<le> length (tm_allocs t')
     \<and> (\<forall>j \<in> own. al_at t' j = al_at t j
          \<and> file_content (al_path (al_at t j)) t' = file_content (al_path (al_at t j)) t)"

lemma al_close_at:
  "i < length (tm_allocs t) \<Longrightarrow> length (tm_allocs (al_close i t)) = length (tm_allocs t)
     \<and> al_closeOnce (al_at (al_close i t) i)
     \<and> (\<not> al_closeOnce (al_at t i) \<longrightarrow> al_released (al_at (al_close i t) i))"
  by (cases "al_closeOnce (al_at t i)") (simp_all add: al_close_effect al_close_def close_begin_def Let_def)

lemma allocate_new:
  assumes "temp_allocate mk ok n t = (Inr i, t')"
  shows "i = length (tm_allocs t)" "length (tm_allocs t') = Suc i" "\<not> al_closeOnce (al_at t' i)"
    "al_size (al_at t' i) = n" "file_content (al_path (al_at t' i)) t' = []" "0 \<le> n"
    "\<exists>h. al_file (al_at t' i) = Some h \<and> fh_offset h = 0"
  using assms by (auto simp: temp_allocate_def allocate_files_def Let_def file_content_def
      split: if_splits option.splits)

lemma prepareDownload_new:
  assumes "prepareDownload mk n t = (Inr i, t')"
  shows "i = length (tm_allocs t)" "length (tm_allocs t') = Suc i" "\<not> al_closeOnce (al_at t' i)"
    "al_size (al_at t' i) = n" "\<not> al_released (al_at t' i)"
  using assms by (auto simp: prepareDownload_def download_files_def split: if_splits option.splits)

lemma seal_effect:
  assumes "seal sok cok i t = (None, t')" "i < length (tm_allocs t)"
  shows "length (tm_allocs t') = length (tm_allocs t)" "al_at t' i = (al_at t i)\<lparr>al_file := None\<rparr>"
    "file_content q t' = file_content q t"
  using assms by (auto simp: seal_def Let_def split: if_splits)

lemma seal_closeOnce:
  assumes "seal sok cok i t = (e, t')" "i < length (tm_allocs t)"
  shows "al_closeOnce (al_at t' i) = al_closeOnce (al_at t i)" "length (tm_allocs t') = length (tm_allocs t)"
  using assms by (auto simp: seal_def Let_def split: if_splits)

lemma rename_effect:
  assumes "renameToName ok i name t = (None, t')" "i < length (tm_allocs t)"
  shows "length (tm_allocs t') = length (tm_allocs t)"
    "al_at t' i = (al_at t i)\<lparr>al_path := filepath_join (al_directory (al_at t i)) name\<rparr>"
    "file_content (filepath_join (al_directory (al_at t i)) name) t' = file_content (al_path (al_at t i)) t"
proof -
  from assms show "length (tm_allocs t') = length (tm_allocs t)"
    "al_at t' i = (al_at t i)\<lparr>al_path := filepath_join (al_directory (al_at t i)) name\<rparr>"
    by (auto simp: renameToName_def Let_def split: if_splits)
  from assms have "tm_disk t' = AList.update (filepath_join (al_directory (al_at t i)) name)
      (file_content (al_path (al_at t i)) t) (AList.delete (al_path (al_at t i)) (tm_disk t))"
    by (auto simp: renameToName_def Let_def split: if_splits)
  then show "file_content (filepath_join (al_directory (al_at t i)) name) t' = file_content (al_path (al_at t i)) t"
    by (simp add: file_content_def [of _ t'])
qed

lemma rename_closeOnce:
  assumes "renameToName ok i name t = (e, t')" "i < length (tm_allocs t)"
  shows "al_closeOnce (al_at t' i) = al_closeOnce (al_at t i)"
  using assms by (auto simp: renameToName_def Let_def split: if_splits)

end
