(* ===== verification/File_Invariant.thy ===== *)
theory File_Invariant
  imports File_Bridge Session_Table
begin

text \<open>
  The steps of the file bridge and their invariant: the tables point to the sessions of their
  channel, an open session owns a live allocation of its own, an upload's file holds exactly
  the bytes that were accepted, and every target that was opened is held or closed.
\<close>

section \<open>Steps\<close>

definition own_allocations :: "FileBridge \<Rightarrow> nat list" where
  "own_allocations b = map fu_allocation (fb_up b) @ map fd_allocation (fb_down b)"

definition device_writes :: "nat \<Rightarrow> bytes \<Rightarrow> FileBridge \<Rightarrow> FileBridge" where
  "device_writes a data b = b\<lparr>fb_temp := (fb_temp b)\<lparr>tm_disk := AList.update
     (currentPath (fd_allocation (fb_down b ! a)) (fb_temp b)) data (tm_disk (fb_temp b))\<rparr>\<rparr>"

inductive bridge_step :: "FileBridge \<Rightarrow> FileBridge \<Rightarrow> bool" where
  handles: "\<forall>x. fe_mkdir en = Some x \<longrightarrow> fresh_dir x (fb_temp b) \<Longrightarrow>
    bridge_step b (fst (file_Handle en frame b))"
| closes_channel: "bridge_step b (file_CloseChannel c b)"
| closes_bridge: "bridge_step b (file_Close b)"
| upload_opens: "map_of (fb_running b) (UploadRun a) = Some FileOpening \<Longrightarrow>
    bridge_step b (runTargetUpload_open ok1 ok2 result a b)"
| upload_reads: "map_of (fb_running b) (UploadRun a) = Some (FileReading seen) \<Longrightarrow>
    bridge_step b (runTargetUpload_read ok ok1 ok2 payload readErr seen a b)"
| upload_times_out: "map_of (fb_running b) (UploadRun a) = Some (FileReading seen) \<Longrightarrow>
    bridge_step b (upload_close a b)"
| download_opens: "map_of (fb_running b) (DownloadRun a) = Some FileOpening \<Longrightarrow>
    bridge_step b (runTargetDownload_open ok1 ok2 result a b)"
| download_reads: "map_of (fb_running b) (DownloadRun a) = Some (FileCollecting target out) \<Longrightarrow>
    bridge_step b (runTargetDownload_read payload ended
      (runTargetDownload_finish ok ok1 ok2 deadline statOK) target out a b)"
| download_times_out: "map_of (fb_running b) (DownloadRun a) = Some (FileCollecting target out) \<Longrightarrow>
    bridge_step b (download_close a b)"
| download_watched: "map_of (fb_running b) (DownloadRun a) = Some (FileCollecting target out) \<Longrightarrow>
    bridge_step b (watchTempFileSize statOK a b)"
| download_written: "map_of (fb_running b) (DownloadRun a) = Some (FileCollecting target out) \<Longrightarrow>
    \<not> ss_closed (fb_down b ! a) \<Longrightarrow> bridge_step b (device_writes a data b)"
| replay_opens: "map_of (fb_running b) (SendRun a) = Some ReplayOpening \<Longrightarrow>
    bridge_step b (sendDownloadData_open openOK ok1 ok2 a b)"
| replay_sends: "map_of (fb_running b) (SendRun a) = Some (Replaying index) \<Longrightarrow>
    bridge_step b (sendDownloadData_chunk readOK ok ok1 ok2 index a b)"
text \<open>The bridge among the other users of the store.\<close>

inductive file_step :: "FileBridge \<Rightarrow> FileBridge \<Rightarrow> bool" where
  own_step: "bridge_step b b' \<Longrightarrow> file_step b b'"
| others_step: "others_use (set (own_allocations b)) (fb_temp b) t \<Longrightarrow>
    file_step b (b\<lparr>fb_temp := t\<rparr>)"

section \<open>Invariant\<close>

definition upload_ok :: "temp_state \<Rightarrow> bridge_log \<Rightarrow> nat \<Rightarrow> fileUpload \<Rightarrow> bool" where
  "upload_ok t l a u \<longleftrightarrow> fu_allocation u < length (tm_allocs t)
     \<and> al_closeOnce (al_at t (fu_allocation u)) = ss_closed u
     \<and> (\<not> ss_closed u \<longrightarrow>
          al_size (al_at t (fu_allocation u)) = fu_expectedSize u
          \<and> file_content (al_path (al_at t (fu_allocation u))) t = stored_bytes a l
          \<and> fu_receivedSize u = int (length (stored_bytes a l)) \<and> fu_receivedSize u \<le> fu_expectedSize u
          \<and> (fu_transferStarted u \<longrightarrow> fu_receivedSize u = fu_expectedSize u)
          \<and> (\<not> fu_transferStarted u \<longrightarrow> ss_target u = None
               \<and> (\<exists>h. al_file (al_at t (fu_allocation u)) = Some h \<and> fh_offset h = length (stored_bytes a l))))"

definition download_ok :: "temp_state \<Rightarrow> int \<Rightarrow> fileDownload \<Rightarrow> bool" where
  "download_ok t mx d \<longleftrightarrow> fd_allocation d < length (tm_allocs t)
     \<and> al_closeOnce (al_at t (fd_allocation d)) = ss_closed d
     \<and> al_released (al_at t (fd_allocation d)) = ss_closed d
     \<and> (\<not> ss_closed d \<longrightarrow> al_size (al_at t (fd_allocation d)) \<le> mx)"

fun task_ok :: "FileBridge \<Rightarrow> file_task \<Rightarrow> file_phase \<Rightarrow> bool" where
  "task_ok b (UploadRun a) p \<longleftrightarrow> a < length (fb_up b) \<and> fu_transferStarted (fb_up b ! a)
     \<and> (p = FileOpening \<longrightarrow> ss_target (fb_up b ! a) = None)"
| "task_ok b (DownloadRun a) p \<longleftrightarrow> a < length (fb_down b)
     \<and> (p = FileOpening \<longrightarrow> ss_target (fb_down b ! a) = None)
     \<and> (\<not> ss_closed (fb_down b ! a) \<longrightarrow>
          al_size (al_at (fb_temp b) (fd_allocation (fb_down b ! a))) = fb_maxFileBytes b)"
| "task_ok b (SendRun a) p \<longleftrightarrow> a < length (fb_down b)"

definition file_ok :: "FileBridge \<Rightarrow> bool" where
  "file_ok b \<longleftrightarrow> files_ok (fb_temp b)
     \<and> table_ok (fb_uploads b) (fb_up b) \<and> table_ok (fb_downloads b) (fb_down b)
     \<and> (fb_closed b \<longrightarrow> fb_uploads b = [] \<and> fb_downloads b = [])
     \<and> (\<forall>a < length (fb_up b). upload_ok (fb_temp b) (fb_log b) a (fb_up b ! a))
     \<and> (\<forall>a < length (fb_down b). download_ok (fb_temp b) (fb_maxFileBytes b) (fb_down b ! a))
     \<and> distinct (own_allocations b)
     \<and> (\<forall>k p. map_of (fb_running b) k = Some p \<longrightarrow> task_ok b k p)
     \<and> (\<forall>a. length (fb_up b) \<le> a \<longrightarrow> stored_bytes a (fb_log b) = [])
     \<and> targets_in (fb_log b) (held_targets (fb_up b) \<union> held_targets (fb_down b))"

lemma file_okD:
  assumes "file_ok b"
  shows "files_ok (fb_temp b)" "table_ok (fb_uploads b) (fb_up b)" "table_ok (fb_downloads b) (fb_down b)"
    "fb_closed b \<Longrightarrow> fb_uploads b = []" "fb_closed b \<Longrightarrow> fb_downloads b = []"
    "a < length (fb_up b) \<Longrightarrow> upload_ok (fb_temp b) (fb_log b) a (fb_up b ! a)"
    "a < length (fb_down b) \<Longrightarrow> download_ok (fb_temp b) (fb_maxFileBytes b) (fb_down b ! a)"
    "distinct (own_allocations b)"
    "map_of (fb_running b) k = Some p \<Longrightarrow> task_ok b k p"
    "targets_in (fb_log b) (held_targets (fb_up b) \<union> held_targets (fb_down b))"
    "length (fb_up b) \<le> a \<Longrightarrow> stored_bytes a (fb_log b) = []"
  using assms by (auto simp: file_ok_def)

section \<open>Small lemmas\<close>

lemma file_sel [simp]:
  "fb_canOpen (file_emit l b) = fb_canOpen b" "fb_maxFileBytes (file_emit l b) = fb_maxFileBytes b"
  "fb_temp (file_emit l b) = fb_temp b" "fb_uploads (file_emit l b) = fb_uploads b"
  "fb_downloads (file_emit l b) = fb_downloads b" "fb_up (file_emit l b) = fb_up b"
  "fb_down (file_emit l b) = fb_down b" "fb_closed (file_emit l b) = fb_closed b"
  "fb_running (file_emit l b) = fb_running b" "fb_log (file_emit l b) = fb_log b @ l"
  by (simp_all add: file_emit_def)

lemma put_upload_sel [simp]:
  "fb_canOpen (put_upload a u b) = fb_canOpen b" "fb_maxFileBytes (put_upload a u b) = fb_maxFileBytes b"
  "fb_temp (put_upload a u b) = fb_temp b" "fb_uploads (put_upload a u b) = fb_uploads b"
  "fb_downloads (put_upload a u b) = fb_downloads b" "fb_up (put_upload a u b) = (fb_up b)[a := u]"
  "fb_down (put_upload a u b) = fb_down b" "fb_closed (put_upload a u b) = fb_closed b"
  "fb_running (put_upload a u b) = fb_running b" "fb_log (put_upload a u b) = fb_log b"
  by (simp_all add: put_upload_def)

lemma put_download_sel [simp]:
  "fb_canOpen (put_download a d b) = fb_canOpen b" "fb_maxFileBytes (put_download a d b) = fb_maxFileBytes b"
  "fb_temp (put_download a d b) = fb_temp b" "fb_uploads (put_download a d b) = fb_uploads b"
  "fb_downloads (put_download a d b) = fb_downloads b" "fb_up (put_download a d b) = fb_up b"
  "fb_down (put_download a d b) = (fb_down b)[a := d]" "fb_closed (put_download a d b) = fb_closed b"
  "fb_running (put_download a d b) = fb_running b" "fb_log (put_download a d b) = fb_log b"
  by (simp_all add: put_download_def)

lemma task_sel [simp]:
  "fb_temp (start_task k p b) = fb_temp b" "fb_uploads (start_task k p b) = fb_uploads b"
  "fb_downloads (start_task k p b) = fb_downloads b" "fb_up (start_task k p b) = fb_up b"
  "fb_down (start_task k p b) = fb_down b" "fb_closed (start_task k p b) = fb_closed b"
  "fb_running (start_task k p b) = AList.update k p (fb_running b)" "fb_log (start_task k p b) = fb_log b"
  "fb_maxFileBytes (start_task k p b) = fb_maxFileBytes b"
  "fb_temp (stop_task k b) = fb_temp b" "fb_uploads (stop_task k b) = fb_uploads b"
  "fb_downloads (stop_task k b) = fb_downloads b" "fb_up (stop_task k b) = fb_up b"
  "fb_down (stop_task k b) = fb_down b" "fb_closed (stop_task k b) = fb_closed b"
  "fb_running (stop_task k b) = AList.delete k (fb_running b)" "fb_log (stop_task k b) = fb_log b"
  "fb_maxFileBytes (stop_task k b) = fb_maxFileBytes b"
  by (simp_all add: start_task_def stop_task_def)

lemma task_ok_cong:
  assumes "fb_up b' = fb_up b" "fb_down b' = fb_down b" "fb_temp b' = fb_temp b"
    "fb_maxFileBytes b' = fb_maxFileBytes b"
  shows "task_ok b' k p = task_ok b k p"
  using assms by (cases k) simp_all

lemma file_start_ok: "file_ok b \<Longrightarrow> task_ok b k p \<Longrightarrow> file_ok (start_task k p b)"
  by (simp add: file_ok_def own_allocations_def task_ok_cong [of "start_task k p b" b])

lemma file_stop_ok: "file_ok b \<Longrightarrow> file_ok (stop_task k b)"
  by (simp add: file_ok_def own_allocations_def task_ok_cong [of "stop_task k b" b])

lemma upload_ok_log: "stored_bytes a m = [] \<Longrightarrow> upload_ok t (l @ m) a u = upload_ok t l a u"
  by (simp add: upload_ok_def)

lemma file_emit_ok:
  assumes "file_ok b" "opened_targets l \<subseteq> closed_targets l" "\<And>a. stored_bytes a l = []"
  shows "file_ok (file_emit l b)"
  using assms(1,3) targets_in_more [OF file_okD(10) [OF assms(1)] assms(2) subset_refl]
  by (simp add: file_ok_def own_allocations_def upload_ok_log task_ok_cong [of "file_emit l b" b])

text \<open>A session's state depends on its own allocation only.\<close>

lemma upload_ok_keeps:
  assumes "upload_ok t l a u" "keeps_others i t t'" "fu_allocation u \<noteq> i"
  shows "upload_ok t' l a u"
  using assms(1,3) keeps_othersD(2) [OF assms(2)] keeps_othersD(4,5) [OF assms(2), of "fu_allocation u"]
  by (auto simp: upload_ok_def)

lemma download_ok_keeps:
  assumes "download_ok t mx d" "keeps_others i t t'" "fd_allocation d \<noteq> i"
  shows "download_ok t' mx d"
  using assms(1,3) keeps_othersD(2) [OF assms(2)] keeps_othersD(4) [OF assms(2), of "fd_allocation d"]
  by (auto simp: download_ok_def)

lemma own_distinct:
  assumes "distinct (own_allocations b)"
  shows "a < length (fb_up b) \<Longrightarrow> i < length (fb_up b) \<Longrightarrow> i \<noteq> a \<Longrightarrow>
      fu_allocation (fb_up b ! i) \<noteq> fu_allocation (fb_up b ! a)"
    "a < length (fb_down b) \<Longrightarrow> i < length (fb_down b) \<Longrightarrow> i \<noteq> a \<Longrightarrow>
      fd_allocation (fb_down b ! i) \<noteq> fd_allocation (fb_down b ! a)"
    "a < length (fb_up b) \<Longrightarrow> i < length (fb_down b) \<Longrightarrow>
      fd_allocation (fb_down b ! i) \<noteq> fu_allocation (fb_up b ! a)"
proof -
  have d: "distinct (map fu_allocation (fb_up b))" "distinct (map fd_allocation (fb_down b))"
    "set (map fu_allocation (fb_up b)) \<inter> set (map fd_allocation (fb_down b)) = {}"
    using assms by (simp_all add: own_allocations_def)
  show "a < length (fb_up b) \<Longrightarrow> i < length (fb_up b) \<Longrightarrow> i \<noteq> a \<Longrightarrow>
      fu_allocation (fb_up b ! i) \<noteq> fu_allocation (fb_up b ! a)"
    using d(1) by (metis length_map nth_eq_iff_index_eq nth_map)
  show "a < length (fb_down b) \<Longrightarrow> i < length (fb_down b) \<Longrightarrow> i \<noteq> a \<Longrightarrow>
      fd_allocation (fb_down b ! i) \<noteq> fd_allocation (fb_down b ! a)"
    using d(2) by (metis length_map nth_eq_iff_index_eq nth_map)
  assume "a < length (fb_up b)" "i < length (fb_down b)"
  then have "fu_allocation (fb_up b ! a) \<in> set (map fu_allocation (fb_up b))"
    "fd_allocation (fb_down b ! i) \<in> set (map fd_allocation (fb_down b))" by auto
  with d(3) show "fd_allocation (fb_down b ! i) \<noteq> fu_allocation (fb_up b ! a)" by auto
qed

section \<open>Changing one session\<close>

lemma own_update_upload:
  "a < length (fb_up b) \<Longrightarrow> fu_allocation u = fu_allocation (fb_up b ! a) \<Longrightarrow>
    map fu_allocation ((fb_up b)[a := u]) = map fu_allocation (fb_up b)"
  by (metis list_update_id map_update)

lemma own_update_download:
  "a < length (fb_down b) \<Longrightarrow> fd_allocation d = fd_allocation (fb_down b ! a) \<Longrightarrow>
    map fd_allocation ((fb_down b)[a := d]) = map fd_allocation (fb_down b)"
  by (metis list_update_id map_update)

lemma task_download_keeps:
  assumes k: "keeps_others i (fb_temp b) (fb_temp b')"
    and ok: "task_ok b (DownloadRun a) p" "download_ok (fb_temp b) mx (fb_down b ! a)"
    and i: "fd_allocation (fb_down b ! a) \<noteq> i"
    and s: "fb_down b' ! a = fb_down b ! a" "length (fb_down b') = length (fb_down b)"
      "fb_maxFileBytes b' = fb_maxFileBytes b"
  shows "task_ok b' (DownloadRun a) p"
  using ok s i keeps_othersD(4) [OF k, of "fd_allocation (fb_down b ! a)"] by (simp add: download_ok_def)

lemma upload_change:
  assumes b: "file_ok b" and a: "a < length (fb_up b)"
    and up: "fb_up b' = (fb_up b)[a := u]" "fu_allocation u = fu_allocation (fb_up b ! a)"
    and same: "fb_down b' = fb_down b" "fb_maxFileBytes b' = fb_maxFileBytes b" "fb_closed b' = fb_closed b"
      "fb_downloads b' = fb_downloads b"
    and tb: "table_ok (fb_uploads b') (fb_up b')" "fb_closed b \<Longrightarrow> fb_uploads b' = []"
    and k: "keeps_others (fu_allocation u) (fb_temp b) (fb_temp b')"
    and l: "fb_log b' = fb_log b @ l" "\<And>x. x \<noteq> a \<Longrightarrow> stored_bytes x l = []"
    and ok: "upload_ok (fb_temp b') (fb_log b') a u"
    and tg: "targets_in (fb_log b') (held_targets (fb_up b') \<union> held_targets (fb_down b'))"
    and run: "\<And>k'. k' \<noteq> UploadRun a \<Longrightarrow> map_of (fb_running b') k' = map_of (fb_running b) k'"
      "\<And>p. map_of (fb_running b') (UploadRun a) = Some p \<Longrightarrow>
        fu_transferStarted u \<and> (p = FileOpening \<longrightarrow> ss_target u = None)"
  shows "file_ok b'"
proof -
  have own: "own_allocations b' = own_allocations b"
    using own_update_upload [OF a up(2)] by (simp add: own_allocations_def up(1) same(1))
  note d = own_distinct [OF file_okD(8) [OF b]]
  have ups: "upload_ok (fb_temp b') (fb_log b') x (fb_up b' ! x)" if x: "x < length (fb_up b')" for x
  proof (cases "x = a")
    case True
    then show ?thesis using ok a up(1) by simp
  next
    case False
    then have "fu_allocation (fb_up b ! x) \<noteq> fu_allocation u" using d(1) [OF a, of x] x up by simp
    with upload_ok_keeps [OF file_okD(6) [OF b] k] x up(1) False l show ?thesis
      by (simp add: upload_ok_log)
  qed
  have down_ne: "fd_allocation (fb_down b ! x) \<noteq> fu_allocation u" if "x < length (fb_down b)" for x
    using d(3) [OF a that] up(2) by simp
  have downs: "download_ok (fb_temp b') (fb_maxFileBytes b') (fb_down b' ! x)" if "x < length (fb_down b')" for x
    using download_ok_keeps [OF file_okD(7) [OF b] k down_ne] that same(1,2) by simp
  have tasks: "task_ok b' k' p" if r: "map_of (fb_running b') k' = Some p" for k' p
  proof (cases "k' = UploadRun a")
    case True
    then show ?thesis using run(2) r a up(1) by simp
  next
    case False
    then have old: "task_ok b k' p" using run(1) r file_okD(9) [OF b] by simp
    show ?thesis
    proof (cases k')
      case (UploadRun x)
      then show ?thesis using old False up(1) by simp
    next
      case (DownloadRun x)
      then have x: "x < length (fb_down b)" using old by simp
      show ?thesis
        using task_download_keeps [OF k _ file_okD(7) [OF b x] down_ne [OF x], of p] old DownloadRun same by simp
    next
      case (SendRun x)
      then show ?thesis using old same(1) by simp
    qed
  qed
  have "stored_bytes x (fb_log b') = []" if "length (fb_up b') \<le> x" for x
    using that file_okD(11) [OF b, of x] l a up(1) by simp
  then show ?thesis
    unfolding file_ok_def using keeps_othersD(1) [OF k] tb same ups downs tasks tg
      file_okD(3,5,8) [OF b] own by simp
qed

lemma download_change:
  assumes b: "file_ok b" and a: "a < length (fb_down b)"
    and dn: "fb_down b' = (fb_down b)[a := d]" "fd_allocation d = fd_allocation (fb_down b ! a)"
    and same: "fb_up b' = fb_up b" "fb_maxFileBytes b' = fb_maxFileBytes b" "fb_closed b' = fb_closed b"
      "fb_uploads b' = fb_uploads b"
    and tb: "table_ok (fb_downloads b') (fb_down b')" "fb_closed b \<Longrightarrow> fb_downloads b' = []"
    and k: "keeps_others (fd_allocation d) (fb_temp b) (fb_temp b')"
    and l: "fb_log b' = fb_log b @ l" "\<And>x. stored_bytes x l = []"
    and ok: "download_ok (fb_temp b') (fb_maxFileBytes b) d"
    and tg: "targets_in (fb_log b') (held_targets (fb_up b') \<union> held_targets (fb_down b'))"
    and run: "\<And>k'. k' \<noteq> DownloadRun a \<Longrightarrow> map_of (fb_running b') k' = map_of (fb_running b) k'
        \<or> k' = SendRun a"
      "\<And>p. map_of (fb_running b') (DownloadRun a) = Some p \<Longrightarrow> task_ok b' (DownloadRun a) p"
  shows "file_ok b'"
proof -
  have own: "own_allocations b' = own_allocations b"
    using own_update_download [OF a dn(2)] by (simp add: own_allocations_def dn(1) same(1))
  note dd = own_distinct [OF file_okD(8) [OF b]]
  have up_ne: "fu_allocation (fb_up b ! x) \<noteq> fd_allocation d" if "x < length (fb_up b)" for x
    using dd(3) [OF that a] dn(2) by simp
  have ups: "upload_ok (fb_temp b') (fb_log b') x (fb_up b' ! x)" if "x < length (fb_up b')" for x
    using upload_ok_keeps [OF file_okD(6) [OF b] k up_ne] that same(1) l by (simp add: upload_ok_log)
  have other: "fd_allocation (fb_down b ! x) \<noteq> fd_allocation d" if "x < length (fb_down b)" "x \<noteq> a" for x
    using dd(2) [OF a that] dn(2) by simp
  have downs: "download_ok (fb_temp b') (fb_maxFileBytes b') (fb_down b' ! x)"
    if x: "x < length (fb_down b')" for x
    using download_ok_keeps [OF file_okD(7) [OF b] k other, of x] x dn(1) ok a same(2)
    by (cases "x = a") simp_all
  have tasks: "task_ok b' k' p" if r: "map_of (fb_running b') k' = Some p" for k' p
  proof (cases "k' = DownloadRun a \<or> k' = SendRun a")
    case True
    then show ?thesis using run(2) r a dn(1) by auto
  next
    case False
    then have old: "task_ok b k' p" using run(1) [of k'] r file_okD(9) [OF b] by auto
    show ?thesis
    proof (cases k')
      case (UploadRun x)
      then show ?thesis using old same(1) by simp
    next
      case (DownloadRun x)
      then have x: "x < length (fb_down b)" "x \<noteq> a" using old False by auto
      show ?thesis
        using task_download_keeps [OF k _ file_okD(7) [OF b x(1)] other [OF x], of p] old DownloadRun same
          dn(1) x by simp
    next
      case (SendRun x)
      then show ?thesis using old dn(1) by simp
    qed
  qed
  have "stored_bytes x (fb_log b') = []" if "length (fb_up b') \<le> x" for x
    using that file_okD(11) [OF b, of x] l same(1) by simp
  then show ?thesis
    unfolding file_ok_def using keeps_othersD(1) [OF k] tb same ups downs tasks tg
      file_okD(2,4,8) [OF b] own by simp
qed

section \<open>Closing sessions\<close>

lemma close_session_upload [simp]:
  "fu_allocation (close_session u) = fu_allocation u" "fu_transferStarted (close_session u) = fu_transferStarted u"
  by (simp_all add: close_session_def)

lemma close_session_download [simp]: "fd_allocation (close_session d) = fd_allocation d"
  by (simp add: close_session_def)

lemma close_session_target: "ss_target s = None \<Longrightarrow> ss_target (close_session s) = None"
  by (simp add: close_session_def)

lemma upload_close_sel:
  "fb_uploads (upload_close a b) = fb_uploads b" "fb_downloads (upload_close a b) = fb_downloads b"
  "fb_down (upload_close a b) = fb_down b" "fb_closed (upload_close a b) = fb_closed b"
  "fb_running (upload_close a b) = fb_running b" "fb_maxFileBytes (upload_close a b) = fb_maxFileBytes b"
  "fb_canOpen (upload_close a b) = fb_canOpen b"
  "length (fb_up (upload_close a b)) = length (fb_up b)"
  "fb_up (upload_close a b) = (fb_up b)[a := close_session (fb_up b ! a)]"
  "fb_log (upload_close a b) = fb_log b @ close_effects (fb_up b ! a)"
  by (simp_all add: upload_close_def Let_def close_session_def close_effects_def)

lemma download_close_sel:
  "fb_uploads (download_close a b) = fb_uploads b" "fb_downloads (download_close a b) = fb_downloads b"
  "fb_up (download_close a b) = fb_up b" "fb_closed (download_close a b) = fb_closed b"
  "fb_running (download_close a b) = fb_running b" "fb_maxFileBytes (download_close a b) = fb_maxFileBytes b"
  "fb_canOpen (download_close a b) = fb_canOpen b"
  "length (fb_down (download_close a b)) = length (fb_down b)"
  "fb_down (download_close a b) = (fb_down b)[a := close_session (fb_down b ! a)]"
  "fb_log (download_close a b) = fb_log b @ close_effects (fb_down b ! a)"
  by (simp_all add: download_close_def Let_def close_session_def close_effects_def)

lemma targets_in_comm: "targets_in l (A \<union> B) \<Longrightarrow> targets_in l (B \<union> A)"
  by (simp add: Un_commute)

lemma upload_close_temp:
  assumes "upload_ok (fb_temp b) (fb_log b) a (fb_up b ! a)" "files_ok (fb_temp b)"
  shows "keeps_others (fu_allocation (fb_up b ! a)) (fb_temp b) (fb_temp (upload_close a b))"
    "upload_ok (fb_temp (upload_close a b)) l a (close_session (fb_up b ! a))"
proof -
  have i: "fu_allocation (fb_up b ! a) < length (tm_allocs (fb_temp b))" using assms(1) by (simp add: upload_ok_def)
  show "keeps_others (fu_allocation (fb_up b ! a)) (fb_temp b) (fb_temp (upload_close a b))"
    using al_close_keeps [OF assms(2) i] assms(2) by (simp add: upload_close_def Let_def keeps_others_refl)
  show "upload_ok (fb_temp (upload_close a b)) l a (close_session (fb_up b ! a))"
    using assms(1) al_close_at [OF i] by (auto simp: upload_close_def Let_def upload_ok_def)
qed

lemma download_close_temp:
  assumes "download_ok (fb_temp b) mx (fb_down b ! a)" "files_ok (fb_temp b)"
  shows "keeps_others (fd_allocation (fb_down b ! a)) (fb_temp b) (fb_temp (download_close a b))"
    "download_ok (fb_temp (download_close a b)) mx (close_session (fb_down b ! a))"
proof -
  have i: "fd_allocation (fb_down b ! a) < length (tm_allocs (fb_temp b))" using assms(1) by (simp add: download_ok_def)
  show "keeps_others (fd_allocation (fb_down b ! a)) (fb_temp b) (fb_temp (download_close a b))"
    using al_close_keeps [OF assms(2) i] assms(2) by (simp add: download_close_def Let_def keeps_others_refl)
  show "download_ok (fb_temp (download_close a b)) mx (close_session (fb_down b ! a))"
    using assms(1) al_close_at [OF i] by (auto simp: download_close_def Let_def download_ok_def)
qed

text \<open>Closing an upload, with its entry removed or kept.\<close>

lemma upload_close_ok:
  assumes b: "file_ok b" and a: "a < length (fb_up b)"
    and m: "m = fb_uploads b \<or> (\<exists>c. map_of (fb_uploads b) c = Some a \<and> m = AList.delete c (fb_uploads b))"
  shows "file_ok (upload_close a (b\<lparr>fb_uploads := m\<rparr>))"
proof -
  let ?b = "b\<lparr>fb_uploads := m\<rparr>" and ?u = "close_session (fb_up b ! a)"
  have u: "upload_ok (fb_temp ?b) (fb_log ?b) a (fb_up ?b ! a)" using file_okD(6) [OF b a] by simp
  note t = upload_close_temp [OF u, simplified, OF file_okD(1) [OF b]]
  have tb: "table_ok m ((fb_up b)[a := ?u])"
    using m table_ok_update [OF file_okD(2) [OF b] a, of ?u]
      table_ok_remove [OF file_okD(2) [OF b], of _ a ?u] table_okD(2) [OF file_okD(2) [OF b], of _ a] by auto
  show ?thesis
  proof (rule upload_change [OF b a, where u = ?u and l = "close_effects (fb_up b ! a)"])
    show "keeps_others (fu_allocation ?u) (fb_temp b) (fb_temp (upload_close a ?b))" using t(1) by simp
    show "upload_ok (fb_temp (upload_close a ?b)) (fb_log (upload_close a ?b)) a ?u" by (rule t(2))
    show "fb_closed b \<Longrightarrow> fb_uploads (upload_close a ?b) = []"
      using m file_okD(4) [OF b] by (auto simp: upload_close_sel)
    show "fu_transferStarted ?u \<and> (p = FileOpening \<longrightarrow> ss_target ?u = None)"
      if "map_of (fb_running (upload_close a ?b)) (UploadRun a) = Some p" for p
      using that file_okD(9) [OF b, of "UploadRun a" p] by (auto simp: upload_close_sel close_session_target)
    show "targets_in (fb_log (upload_close a ?b))
        (held_targets (fb_up (upload_close a ?b)) \<union> held_targets (fb_down (upload_close a ?b)))"
      using targets_in_close [OF file_okD(10) [OF b] a] by (simp add: upload_close_sel)
  qed (simp_all add: upload_close_sel tb)
qed

lemma download_close_ok:
  assumes b: "file_ok b" and a: "a < length (fb_down b)"
    and m: "m = fb_downloads b \<or> (\<exists>c. map_of (fb_downloads b) c = Some a \<and> m = AList.delete c (fb_downloads b))"
  shows "file_ok (download_close a (b\<lparr>fb_downloads := m\<rparr>))"
proof -
  let ?b = "b\<lparr>fb_downloads := m\<rparr>" and ?d = "close_session (fb_down b ! a)"
  have d: "download_ok (fb_temp ?b) (fb_maxFileBytes b) (fb_down ?b ! a)" using file_okD(7) [OF b a] by simp
  note t = download_close_temp [OF d, simplified, OF file_okD(1) [OF b]]
  have tb: "table_ok m ((fb_down b)[a := ?d])"
    using m table_ok_update [OF file_okD(3) [OF b] a, of ?d]
      table_ok_remove [OF file_okD(3) [OF b], of _ a ?d] table_okD(2) [OF file_okD(3) [OF b], of _ a] by auto
  show ?thesis
  proof (rule download_change [OF b a, where d = ?d and l = "close_effects (fb_down b ! a)"])
    show "keeps_others (fd_allocation ?d) (fb_temp b) (fb_temp (download_close a ?b))" using t(1) by simp
    show "download_ok (fb_temp (download_close a ?b)) (fb_maxFileBytes b) ?d" by (rule t(2))
    show "fb_closed b \<Longrightarrow> fb_downloads (download_close a ?b) = []"
      using m file_okD(5) [OF b] by (auto simp: download_close_sel)
    show "task_ok (download_close a ?b) (DownloadRun a) p"
      if "map_of (fb_running (download_close a ?b)) (DownloadRun a) = Some p" for p
      using that file_okD(9) [OF b, of "DownloadRun a" p] a by (auto simp: download_close_sel close_session_target)
    show "targets_in (fb_log (download_close a ?b))
        (held_targets (fb_up (download_close a ?b)) \<union> held_targets (fb_down (download_close a ?b)))"
      using targets_in_close [OF targets_in_comm [OF file_okD(10) [OF b]] a]
      by (simp add: download_close_sel Un_commute)
  qed (simp_all add: download_close_sel tb)
qed

lemma drop_upload_ok: "file_ok b \<Longrightarrow> file_ok (drop_upload c e b)"
  using upload_close_ok [of b] table_okD(1) [OF file_okD(2), of b c]
  by (auto simp: drop_upload_def removeUpload_def split: option.splits)

lemma drop_download_ok: "file_ok b \<Longrightarrow> file_ok (drop_download c e b)"
  using download_close_ok [of b] table_okD(1) [OF file_okD(3), of b c]
  by (auto simp: drop_download_def removeDownload_def split: option.splits)

lemma reject_ok: "file_ok b \<Longrightarrow> file_ok (fst (file_reject ok c message b))"
  by (simp add: file_reject_def file_emit_ok)

lemma rejectAndClose_ok: "file_ok b \<Longrightarrow> file_ok (fst (rejectAndClose ok c message b))"
  by (simp add: rejectAndClose_def reject_ok drop_upload_ok)

lemma failUpload_ok: "file_ok b \<Longrightarrow> file_ok (fst (failUpload ok c e message b))"
  by (auto simp: failUpload_def reject_ok drop_upload_ok split: option.splits)

lemma finishUpload_ok: "file_ok b \<Longrightarrow> file_ok (finishUpload ok1 ok2 a message success b)"
  using drop_upload_ok [of b "ss_channelID (fb_up b ! a)" "Some a"]
  by (auto simp: finishUpload_def drop_upload_def removeUpload_def Let_def file_emit_ok split: option.splits if_splits)

lemma endDownload_ok: "file_ok b \<Longrightarrow> file_ok (endDownload ok1 ok2 a message b)"
  using drop_download_ok [of b "ss_channelID (fb_down b ! a)" "Some a"]
  by (auto simp: endDownload_def drop_download_def removeDownload_def Let_def file_emit_ok split: option.splits if_splits)

section \<open>Handlers\<close>

text \<open>A change of the store that does not concern the bridge's own allocations.\<close>

lemma temp_change_ok:
  assumes b: "file_ok b" and f: "files_ok t" and len: "length (tm_allocs (fb_temp b)) \<le> length (tm_allocs t)"
    and same: "\<And>j. j \<in> set (own_allocations b) \<Longrightarrow> al_at t j = al_at (fb_temp b) j"
      "\<And>j. j \<in> set (own_allocations b) \<Longrightarrow> \<not> al_closeOnce (al_at (fb_temp b) j) \<Longrightarrow>
        file_content (al_path (al_at (fb_temp b) j)) t = file_content (al_path (al_at (fb_temp b) j)) (fb_temp b)"
  shows "file_ok (b\<lparr>fb_temp := t\<rparr>)"
proof -
  have up: "upload_ok t (fb_log b) a (fb_up b ! a)" if "a < length (fb_up b)" for a
  proof -
    have "fu_allocation (fb_up b ! a) \<in> set (own_allocations b)" using that by (simp add: own_allocations_def)
    then show ?thesis using file_okD(6) [OF b that] len same by (auto simp: upload_ok_def)
  qed
  have own_down: "fd_allocation (fb_down b ! a) \<in> set (own_allocations b)" if "a < length (fb_down b)" for a
    using that by (simp add: own_allocations_def)
  have down: "download_ok t (fb_maxFileBytes b) (fb_down b ! a)" if "a < length (fb_down b)" for a
    using file_okD(7) [OF b that] len same(1) [OF own_down [OF that]] by (auto simp: download_ok_def)
  have "task_ok (b\<lparr>fb_temp := t\<rparr>) k p" if "map_of (fb_running b) k = Some p" for k p
    using file_okD(9) [OF b that] same(1) own_down by (cases k) auto
  then show ?thesis using b f up down by (simp add: file_ok_def own_allocations_def)
qed

lemma own_bound:
  assumes "file_ok b" "j \<in> set (own_allocations b)"
  shows "j < length (tm_allocs (fb_temp b))"
proof -
  consider a where "a < length (fb_up b)" "j = fu_allocation (fb_up b ! a)"
    | a where "a < length (fb_down b)" "j = fd_allocation (fb_down b ! a)"
    using assms(2) by (auto simp: own_allocations_def in_set_conv_nth)
  then show ?thesis
    by cases (use file_okD(6,7) [OF assms(1)] in \<open>auto simp: upload_ok_def download_ok_def\<close>)
qed

lemma temp_keeps_ok:
  assumes "file_ok b" "keeps_others i (fb_temp b) t" "i \<notin> set (own_allocations b)"
  shows "file_ok (b\<lparr>fb_temp := t\<rparr>)"
proof (rule temp_change_ok [OF assms(1)])
  note k = keeps_othersD [OF assms(2)] and lt = own_bound [OF assms(1)]
  show "files_ok t" "length (tm_allocs (fb_temp b)) \<le> length (tm_allocs t)" by (fact k)+
  fix j
  assume j: "j \<in> set (own_allocations b)"
  then have "j \<noteq> i" using assms(3) by auto
  then show "al_at t j = al_at (fb_temp b) j" using k(4) lt j by blast
  assume "\<not> al_closeOnce (al_at (fb_temp b) j)"
  then show "file_content (al_path (al_at (fb_temp b) j)) t = file_content (al_path (al_at (fb_temp b) j)) (fb_temp b)"
    using k(5) lt j \<open>j \<noteq> i\<close> by blast
qed

lemma new_upload_ok:
  assumes b: "file_ok b" and open_b: "\<not> fb_closed b" and c: "map_of (fb_uploads b) c = None"
    and u: "ss_channelID u = c" "ss_target u = None" "\<not> ss_closed u" "fu_allocation u \<notin> set (own_allocations b)"
      "upload_ok (fb_temp b) (fb_log b) (length (fb_up b)) u"
  shows "file_ok (b\<lparr>fb_up := fb_up b @ [u], fb_uploads := AList.update c (length (fb_up b)) (fb_uploads b)\<rparr>)"
    (is "file_ok ?b")
proof -
  have "task_ok ?b k p" if "map_of (fb_running b) k = Some p" for k p
    using file_okD(9) [OF b that] by (cases k) (auto simp: nth_append)
  moreover have "upload_ok (fb_temp b) (fb_log b) a ((fb_up b @ [u]) ! a)" if "a < Suc (length (fb_up b))" for a
    using that file_okD(6) [OF b, of a] u(5) by (cases "a < length (fb_up b)") (auto simp: nth_append less_Suc_eq)
  moreover have "distinct (own_allocations ?b)"
    using file_okD(8) [OF b] u(4) by (auto simp: own_allocations_def)
  ultimately show ?thesis
    using b open_b u(2,3) table_ok_new [OF file_okD(2) [OF b] c u(1)]
    by (simp add: file_ok_def)
qed

lemma new_download_ok:
  assumes b: "file_ok b" and open_b: "\<not> fb_closed b" and c: "map_of (fb_downloads b) c = None"
    and d: "ss_channelID d = c" "ss_target d = None" "\<not> ss_closed d" "fd_allocation d \<notin> set (own_allocations b)"
      "download_ok (fb_temp b) (fb_maxFileBytes b) d"
  shows "file_ok (b\<lparr>fb_down := fb_down b @ [d], fb_downloads := AList.update c (length (fb_down b)) (fb_downloads b)\<rparr>)"
    (is "file_ok ?b")
proof -
  have "task_ok ?b k p" if "map_of (fb_running b) k = Some p" for k p
    using file_okD(9) [OF b that] by (cases k) (auto simp: nth_append)
  moreover have "download_ok (fb_temp b) (fb_maxFileBytes b) ((fb_down b @ [d]) ! a)"
    if "a < Suc (length (fb_down b))" for a
    using that file_okD(7) [OF b, of a] d(5) by (cases "a < length (fb_down b)") (auto simp: nth_append less_Suc_eq)
  moreover have "distinct (own_allocations ?b)"
    using file_okD(8) [OF b] d(4) by (auto simp: own_allocations_def)
  ultimately show ?thesis
    using b open_b d(2,3) table_ok_new [OF file_okD(3) [OF b] c d(1)]
    by (simp add: file_ok_def)
qed

lemma handleCheck_ok:
  assumes b: "file_ok b" and fresh: "\<forall>x. fe_mkdir en = Some x \<longrightarrow> fresh_dir x (fb_temp b)"
  shows "file_ok (fst (handleCheck en frame b))"
proof (cases "DecodeTransferConfig (Payload frame)")
  case (Inr config)
  show ?thesis
  proof (cases "validateConfig (fb_maxFileBytes b) config")
    case v: (Inr n)
    obtain res t where al: "temp_allocate (fe_mkdir en) (fe_openOK en) n (fb_temp b) = (res, t)"
      by (cases "temp_allocate (fe_mkdir en) (fe_openOK en) n (fb_temp b)")
    note k = allocate_keeps [OF file_okD(1) [OF b] fresh al]
    have notin: "length (tm_allocs (fb_temp b)) \<notin> set (own_allocations b)" using own_bound [OF b] by blast
    note b1 = temp_keeps_ok [OF b k notin]
    show ?thesis
    proof (cases res)
      case (Inl e)
      then show ?thesis using Inr v al b1 by (simp add: handleCheck_def Let_def rejectAndClose_ok)
    next
      case i: (Inr i)
      note new = allocate_new [OF al [unfolded i]]
      show ?thesis
      proof (cases "fb_closed b \<or> map_of (fb_uploads b) (ChannelID frame) \<noteq> None")
        case True
        have "keeps_others i t (al_close i t)"
          by (rule al_close_keeps [OF keeps_othersD(1) [OF k]]) (simp add: new(2))
        then have "keeps_others i (fb_temp b) (al_close i t)"
          using keeps_others_trans [OF k] new(1) by simp
        from temp_keeps_ok [OF b this] notin new(1) have "file_ok (b\<lparr>fb_temp := al_close i t\<rparr>)" by simp
        then show ?thesis using True Inr v al i by (simp add: handleCheck_def Let_def rejectAndClose_ok)
      next
        case False
        let ?u = "\<lparr>ss_channelID = ChannelID frame, ss_target = None, ss_closed = False,
          fu_targetPath = tc_Path config, fu_optionalName = trim_space (tc_OptionalName config),
          fu_expectedSize = n, fu_allocation = i, fu_receivedSize = 0, fu_transferStarted = False\<rparr>"
        let ?b = "b\<lparr>fb_temp := t, fb_up := fb_up b @ [?u],
          fb_uploads := AList.update (ChannelID frame) (length (fb_up b)) (fb_uploads b)\<rparr>"
        have "upload_ok t (fb_log b) (length (fb_up b)) ?u"
          using new file_okD(11) [OF b, of "length (fb_up b)"] by (simp add: upload_ok_def)
        moreover have "i \<notin> set (own_allocations (b\<lparr>fb_temp := t\<rparr>))" using notin new(1) by (simp add: own_allocations_def)
        ultimately have ok: "file_ok ?b"
          using new_upload_ok [OF b1, of "ChannelID frame" ?u] False by simp
        show ?thesis
          using False Inr v al i ok by (simp add: handleCheck_def Let_def file_emit_ok drop_upload_ok)
      qed
    qed
  qed (use b Inr in \<open>simp add: handleCheck_def Let_def rejectAndClose_ok\<close>)
qed (use b in \<open>simp add: handleCheck_def Let_def rejectAndClose_ok\<close>)

lemma handleRecvInit_ok:
  assumes b: "file_ok b" and fresh: "\<forall>x. fe_mkdir en = Some x \<longrightarrow> fresh_dir x (fb_temp b)"
  shows "file_ok (fst (handleRecvInit en frame b))"
proof (cases "parseRecvCommand (Payload frame)")
  case (Inr r)
  obtain res t where al: "prepareDownload (fe_mkdir en) (fb_maxFileBytes b) (fb_temp b) = (res, t)"
    by (cases "prepareDownload (fe_mkdir en) (fb_maxFileBytes b) (fb_temp b)")
  note k = prepareDownload_keeps [OF file_okD(1) [OF b] fresh al]
  have notin: "length (tm_allocs (fb_temp b)) \<notin> set (own_allocations b)" using own_bound [OF b] by blast
  note b1 = temp_keeps_ok [OF b k notin]
  show ?thesis
  proof (cases res)
    case (Inl e)
    then show ?thesis using Inr al b1 by (simp add: handleRecvInit_def Let_def reject_ok)
  next
    case i: (Inr i)
    note new = prepareDownload_new [OF al [unfolded i]]
    show ?thesis
    proof (cases "fb_closed b \<or> map_of (fb_downloads b) (ChannelID frame) \<noteq> None
        \<or> map_of (fb_uploads b) (ChannelID frame) \<noteq> None")
      case True
      have "keeps_others i t (al_close i t)"
        by (rule al_close_keeps [OF keeps_othersD(1) [OF k]]) (simp add: new(2))
      then have "keeps_others i (fb_temp b) (al_close i t)"
        using keeps_others_trans [OF k] new(1) by simp
      from temp_keeps_ok [OF b this] notin new(1) have "file_ok (b\<lparr>fb_temp := al_close i t\<rparr>)" by simp
      then show ?thesis using True Inr al i by (simp add: handleRecvInit_def Let_def reject_ok)
    next
      case False
      let ?d = "\<lparr>ss_channelID = ChannelID frame, ss_target = None, ss_closed = False,
        fd_devicePath = rr_devicePath r, fd_optionalName = rr_optionalName r, fd_userPath = rr_userPath r,
        fd_allocation = i, fd_fileSize = 0, fd_sending = False\<rparr>"
      let ?b = "b\<lparr>fb_temp := t, fb_down := fb_down b @ [?d],
        fb_downloads := AList.update (ChannelID frame) (length (fb_down b)) (fb_downloads b)\<rparr>"
      have "download_ok t (fb_maxFileBytes b) ?d" using new by (simp add: download_ok_def)
      moreover have "i \<notin> set (own_allocations (b\<lparr>fb_temp := t\<rparr>))" using notin new(1) by (simp add: own_allocations_def)
      ultimately have ok: "file_ok ?b"
        using new_download_ok [OF b1, of "ChannelID frame" ?d] False by simp
      have "task_ok ?b (DownloadRun (length (fb_down b))) FileOpening" using new(4) by (simp add: nth_append)
      from file_start_ok [OF ok this] show ?thesis
        using False Inr al i by (simp add: handleRecvInit_def Let_def)
    qed
  qed
qed (use b in \<open>simp add: handleRecvInit_def Let_def reject_ok\<close>)

text \<open>A failed write or seal leaves the upload's file in some state; the upload is then closed.\<close>

lemma broken_upload_ok:
  assumes b: "file_ok b" and c: "map_of (fb_uploads b) c = Some a" and op: "\<not> ss_closed (fb_up b ! a)"
    and k: "keeps_others (fu_allocation (fb_up b ! a)) (fb_temp b) t"
    and live: "\<not> al_closeOnce (al_at t (fu_allocation (fb_up b ! a)))"
  shows "file_ok (drop_upload c (Some a) (b\<lparr>fb_temp := t\<rparr>))"
proof -
  have a: "a < length (fb_up b)" and ch: "ss_channelID (fb_up b ! a) = c" by (rule table_okD [OF file_okD(2) [OF b] c])+
  let ?i = "fu_allocation (fb_up b ! a)" and ?u = "close_session (fb_up b ! a)"
  let ?b = "b\<lparr>fb_temp := t, fb_uploads := AList.delete c (fb_uploads b)\<rparr>"
  have i: "?i < length (tm_allocs t)"
    using file_okD(6) [OF b a] keeps_othersD(2) [OF k] by (simp add: upload_ok_def)
  have r: "drop_upload c (Some a) (b\<lparr>fb_temp := t\<rparr>) = upload_close a ?b"
    using c by (simp add: drop_upload_def removeUpload_def)
  have tmp: "fb_temp (upload_close a ?b) = al_close ?i t" using op by (simp add: upload_close_def Let_def)
  show ?thesis
    unfolding r
  proof (rule upload_change [OF b a, where u = ?u and l = "close_effects (fb_up b ! a)"])
    show "keeps_others (fu_allocation ?u) (fb_temp b) (fb_temp (upload_close a ?b))"
      unfolding tmp using keeps_others_trans [OF k al_close_keeps [OF keeps_othersD(1) [OF k] i]] by simp
    show "upload_ok (fb_temp (upload_close a ?b)) (fb_log (upload_close a ?b)) a ?u"
      unfolding tmp using i al_close_at [OF i] by (simp add: upload_ok_def)
    show "fb_closed b \<Longrightarrow> fb_uploads (upload_close a ?b) = []"
      using c file_okD(4) [OF b] by simp
    show "table_ok (fb_uploads (upload_close a ?b)) (fb_up (upload_close a ?b))"
      using table_ok_remove [OF file_okD(2) [OF b] c, of ?u] ch by (simp add: upload_close_sel)
    show "fu_transferStarted ?u \<and> (p = FileOpening \<longrightarrow> ss_target ?u = None)"
      if "map_of (fb_running (upload_close a ?b)) (UploadRun a) = Some p" for p
      using that file_okD(9) [OF b, of "UploadRun a" p] by (auto simp: upload_close_sel close_session_target)
    show "targets_in (fb_log (upload_close a ?b))
        (held_targets (fb_up (upload_close a ?b)) \<union> held_targets (fb_down (upload_close a ?b)))"
      using targets_in_close [OF file_okD(10) [OF b] a] by (simp add: upload_close_sel)
  qed (simp_all add: upload_close_sel)
qed

lemma al_write_closeOnce:
  "i < length (tm_allocs t) \<Longrightarrow> al_write short i data t = (r, t') \<Longrightarrow>
     al_closeOnce (al_at t' i) = al_closeOnce (al_at t i) \<and> length (tm_allocs t') = length (tm_allocs t)"
  by (auto simp: al_write_def Let_def split: option.splits)

lemma al_write_append:
  assumes "al_write short i data t = ((length data, None), t')" "i < length (tm_allocs t)"
    "al_file (al_at t i) = Some h" "fh_path h = al_path (al_at t i)"
    "fh_offset h = length (file_content (al_path (al_at t i)) t)"
  shows "al_at t' i = (al_at t i)\<lparr>al_file := Some (h\<lparr>fh_offset := fh_offset h + length data\<rparr>)\<rparr>"
    "file_content (al_path (al_at t i)) t' = file_content (al_path (al_at t i)) t @ data"
    "length (tm_allocs t') = length (tm_allocs t)"
  using assms by (auto simp: al_write_def Let_def taken_def content_put_file split: if_splits)

text \<open>What a chunk does: it fails and changes at most the upload's own file, or it appends.\<close>

lemma writeChunk_cases:
  assumes b: "file_ok b" and a: "a < length (fb_up b)"
    and w: "writeChunk short index data a b = (res, b')"
  shows "b' = b \<and> res = None
    \<or> (\<exists>t. b' = b\<lparr>fb_temp := t\<rparr> \<and> res = None \<and> \<not> ss_closed (fb_up b ! a)
        \<and> keeps_others (fu_allocation (fb_up b ! a)) (fb_temp b) t
        \<and> \<not> al_closeOnce (al_at t (fu_allocation (fb_up b ! a))))
    \<or> (res \<noteq> None \<and> \<not> ss_closed (fb_up b ! a) \<and> \<not> fu_transferStarted (fb_up b ! a)
        \<and> index = of_int (fu_receivedSize (fb_up b ! a))
        \<and> fb_log b' = fb_log b @ [ChunkStored a data] \<and> file_ok b'
        \<and> fb_uploads b' = fb_uploads b)"
proof -
  let ?u = "fb_up b ! a" let ?i = "fu_allocation ?u"
  have u: "upload_ok (fb_temp b) (fb_log b) a ?u" by (rule file_okD(6) [OF b a])
  have i: "?i < length (tm_allocs (fb_temp b))" using u by (simp add: upload_ok_def)
  show ?thesis
  proof (cases "ss_closed ?u \<or> fu_transferStarted ?u \<or> index \<noteq> of_int (fu_receivedSize ?u)
      \<or> fu_expectedSize ?u - fu_receivedSize ?u < int (length data)")
    case True
    then show ?thesis using w by (auto simp: writeChunk_def Let_def split: if_splits)
  next
    case False
    then have op: "\<not> ss_closed ?u" "\<not> fu_transferStarted ?u" by simp_all
    then have live: "\<not> al_closeOnce (al_at (fb_temp b) ?i)" using u by (simp add: upload_ok_def)
    obtain n err t where wr: "al_write short ?i data (fb_temp b) = ((n, err), t)"
      by (metis prod.collapse)
    note k = al_write_keeps [OF file_okD(1) [OF b] i live wr]
    note co = al_write_closeOnce [OF i wr]
    show ?thesis
    proof (cases "err = None \<and> n = length data")
      case fail: False
      then have "b' = b\<lparr>fb_temp := t\<rparr> \<and> res = None"
        using w False wr by (auto simp: writeChunk_def Let_def split: if_splits)
      then show ?thesis using op k co live by auto
    next
      case True
      let ?u' = "?u\<lparr>fu_receivedSize := fu_receivedSize ?u + int (length data)\<rparr>"
      have b': "b' = file_emit [ChunkStored a data] (put_upload a ?u' (b\<lparr>fb_temp := t\<rparr>))"
        and res: "res = Some (fu_receivedSize ?u + int (length data) = fu_expectedSize ?u)"
        using w False wr True by (auto simp: writeChunk_def Let_def)
      obtain h where h: "al_file (al_at (fb_temp b) ?i) = Some h"
        "fh_offset h = length (stored_bytes a (fb_log b))"
        using u op by (auto simp: upload_ok_def)
      have path: "fh_path h = al_path (al_at (fb_temp b) ?i)"
        using files_okD(2) [OF file_okD(1) [OF b] i live] h(1) by (simp add: own_path_def)
      have off: "fh_offset h = length (file_content (al_path (al_at (fb_temp b) ?i)) (fb_temp b))"
        using h(2) u op by (simp add: upload_ok_def)
      have wr': "al_write short ?i data (fb_temp b) = ((length data, None), t)" using wr True by simp
      note app = al_write_append [OF wr' i h(1) path off]
      have new: "upload_ok t (fb_log b @ [ChunkStored a data]) a ?u'"
        using u op False app h(2) by (auto simp: upload_ok_def)
      have "file_ok b'"
        unfolding b'
      proof (rule upload_change [OF b a, where u = ?u' and l = "[ChunkStored a data]"])
        show "table_ok (fb_uploads (file_emit [ChunkStored a data] (put_upload a ?u' (b\<lparr>fb_temp := t\<rparr>))))
            (fb_up (file_emit [ChunkStored a data] (put_upload a ?u' (b\<lparr>fb_temp := t\<rparr>))))"
          using table_ok_update [OF file_okD(2) [OF b] a, of ?u'] by simp
        show "targets_in (fb_log (file_emit [ChunkStored a data] (put_upload a ?u' (b\<lparr>fb_temp := t\<rparr>))))
            (held_targets (fb_up (file_emit [ChunkStored a data] (put_upload a ?u' (b\<lparr>fb_temp := t\<rparr>))))
             \<union> held_targets (fb_down (file_emit [ChunkStored a data] (put_upload a ?u' (b\<lparr>fb_temp := t\<rparr>)))))"
          using targets_in_more [OF file_okD(10) [OF b], of "[ChunkStored a data]"] held_same [OF a, of ?u'] by simp
        show "fu_transferStarted ?u' \<and> (p = FileOpening \<longrightarrow> ss_target ?u' = None)"
          if "map_of (fb_running (file_emit [ChunkStored a data] (put_upload a ?u' (b\<lparr>fb_temp := t\<rparr>)))) (UploadRun a) = Some p" for p
          using that file_okD(9) [OF b, of "UploadRun a" p] by simp
      qed (use k new file_okD(4) [OF b] in simp_all)
      then show ?thesis using b' res op False by auto
    qed
  qed
qed

lemma handleData_ok:
  assumes b: "file_ok b"
  shows "file_ok (fst (handleData en frame b))"
proof (cases "map_of (fb_uploads b) (ChannelID frame)")
  case (Some a)
  note a = table_okD(1) [OF file_okD(2) [OF b] Some]
  show ?thesis
  proof (cases "DecodeTransferData (Payload frame) (of_int (min (fb_maxFileBytes b) (2 ^ 32 - 1)))")
    case (Inr r)
    obtain header data where r: "r = (header, data)" by (cases r)
    obtain res b' where w: "writeChunk (fe_short en) (tp_Index header) data a b = (res, b')"
      by (cases "writeChunk (fe_short en) (tp_Index header) data a b")
    consider "b' = b \<and> res = None" | t where "b' = b\<lparr>fb_temp := t\<rparr>" "res = None" "\<not> ss_closed (fb_up b ! a)"
        "keeps_others (fu_allocation (fb_up b ! a)) (fb_temp b) t"
        "\<not> al_closeOnce (al_at t (fu_allocation (fb_up b ! a)))"
      | "res \<noteq> None" "file_ok b'"
      using writeChunk_cases [OF b a w] by blast
    then show ?thesis
    proof cases
      case 2
      then show ?thesis
        using Some Inr r w b broken_upload_ok [OF b Some 2(3-5)]
        by (auto simp: handleData_def Let_def failUpload_ok) (simp add: failUpload_def reject_ok)
    qed (use Some Inr r w b in \<open>auto simp: handleData_def Let_def failUpload_ok file_emit_ok split: if_splits\<close>)
  qed (use Some b in \<open>simp add: handleData_def Let_def failUpload_ok\<close>)
qed (use b in \<open>simp add: handleData_def Let_def rejectAndClose_ok\<close>)

text \<open>Marking an upload as started, once its file is sealed under whatever name.\<close>

lemma started_ok:
  assumes b: "file_ok b" and a: "a < length (fb_up b)" and op: "\<not> ss_closed (fb_up b ! a)"
    and k: "keeps_others (fu_allocation (fb_up b ! a)) (fb_temp b) t"
    and al: "al_size (al_at t (fu_allocation (fb_up b ! a))) = fu_expectedSize (fb_up b ! a)"
      "\<not> al_closeOnce (al_at t (fu_allocation (fb_up b ! a)))"
      "file_content (al_path (al_at t (fu_allocation (fb_up b ! a)))) t = stored_bytes a (fb_log b)"
    and full: "fu_receivedSize (fb_up b ! a) = fu_expectedSize (fb_up b ! a)"
  shows "file_ok (put_upload a ((fb_up b ! a)\<lparr>fu_transferStarted := True\<rparr>) (b\<lparr>fb_temp := t\<rparr>))" (is "file_ok ?b")
proof -
  let ?u = "(fb_up b ! a)\<lparr>fu_transferStarted := True\<rparr>"
  have "upload_ok t (fb_log b) a ?u"
    using file_okD(6) [OF b a] keeps_othersD(2) [OF k] al full op by (simp add: upload_ok_def)
  then show ?thesis
    using k table_ok_update [OF file_okD(2) [OF b] a, of ?u] held_same [OF a, of ?u] file_okD(4,10) [OF b]
      file_okD(9) [OF b, of "UploadRun a"]
    by (intro upload_change [OF b a, where u = ?u and l = "[]"]) simp_all
qed

lemma prepare_cases:
  assumes b: "file_ok b" and a: "a < length (fb_up b)"
    and p: "prepareTargetTransfer en a b = (ok, b')"
  shows "\<not> ok \<and> (b' = b \<or> (\<exists>t. b' = b\<lparr>fb_temp := t\<rparr> \<and> \<not> ss_closed (fb_up b ! a)
        \<and> keeps_others (fu_allocation (fb_up b ! a)) (fb_temp b) t
        \<and> \<not> al_closeOnce (al_at t (fu_allocation (fb_up b ! a)))))
    \<or> ok \<and> file_ok b' \<and> fu_transferStarted (fb_up b' ! a) \<and> ss_target (fb_up b' ! a) = None
        \<and> length (fb_up b') = length (fb_up b) \<and> fb_running b' = fb_running b \<and> fb_uploads b' = fb_uploads b"
proof -
  let ?u = "fb_up b ! a" let ?i = "fu_allocation ?u"
  have u: "upload_ok (fb_temp b) (fb_log b) a ?u" by (rule file_okD(6) [OF b a])
  have i: "?i < length (tm_allocs (fb_temp b))" using u by (simp add: upload_ok_def)
  show ?thesis
  proof (cases "ss_closed ?u \<or> fu_transferStarted ?u \<or> fu_receivedSize ?u \<noteq> fu_expectedSize ?u")
    case True
    then show ?thesis using p by (auto simp: prepareTargetTransfer_def Let_def)
  next
    case False
    then have op: "\<not> ss_closed ?u" "\<not> fu_transferStarted ?u" "fu_receivedSize ?u = fu_expectedSize ?u" by simp_all
    have live: "\<not> al_closeOnce (al_at (fb_temp b) ?i)" and none: "ss_target ?u = None"
      using u op by (simp_all add: upload_ok_def)
    obtain e t where s: "seal (fe_syncOK en) (fe_closeOK en) ?i (fb_temp b) = (e, t)"
      by (metis prod.collapse)
    note k = seal_keeps [OF file_okD(1) [OF b] i live s] and co = seal_closeOnce [OF s i]
    show ?thesis
    proof (cases e)
      case (Some x)
      then show ?thesis using p False s k co live op by (auto simp: prepareTargetTransfer_def Let_def)
    next
      case None
      note eff = seal_effect [OF s [unfolded None] i]
      show ?thesis
      proof (cases "fu_optionalName ?u = []")
        case True
        have "file_ok (put_upload a (?u\<lparr>fu_transferStarted := True\<rparr>) (b\<lparr>fb_temp := t\<rparr>))"
          by (rule started_ok [OF b a op(1) k]) (use u op eff in \<open>auto simp: upload_ok_def\<close>)
        then show ?thesis
          using p False s None True a none by (auto simp: prepareTargetTransfer_def Let_def)
      next
        case name: False
        obtain e2 t2 where rn: "renameToName (fe_renameOK en) ?i (fu_optionalName ?u) t = (e2, t2)"
          by (metis prod.collapse)
        have it: "?i < length (tm_allocs t)" and lt: "\<not> al_closeOnce (al_at t ?i)"
          using i co live by simp_all
        note k2 = keeps_others_trans [OF k renameToName_keeps [OF keeps_othersD(1) [OF k] it lt rn]]
        note co2 = rename_closeOnce [OF rn it]
        show ?thesis
        proof (cases e2)
          case (Some x)
          then show ?thesis
            using p False s None name rn k2 co2 lt op by (auto simp: prepareTargetTransfer_def Let_def)
        next
          case n2: None
          note eff2 = rename_effect [OF rn [unfolded n2] it]
          have "file_ok (put_upload a (?u\<lparr>fu_transferStarted := True\<rparr>) (b\<lparr>fb_temp := t2\<rparr>))"
            by (rule started_ok [OF b a op(1) k2]) (use u op eff eff2 lt in \<open>auto simp: upload_ok_def\<close>)
          then show ?thesis
            using p False s None name rn n2 a none by (auto simp: prepareTargetTransfer_def Let_def)
        qed
      qed
    qed
  qed
qed

lemma handleFinish_ok:
  assumes b: "file_ok b"
  shows "file_ok (fst (handleFinish en frame b))"
proof (cases "map_of (fb_uploads b) (ChannelID frame)")
  case (Some a)
  note a = table_okD(1) [OF file_okD(2) [OF b] Some]
  show ?thesis
  proof (cases "Payload frame = [fileFinishAll]")
    case True
    obtain ok b' where p: "prepareTargetTransfer en a b = (ok, b')" by (metis prod.collapse)
    consider "\<not> ok" "b' = b" | t where "\<not> ok" "b' = b\<lparr>fb_temp := t\<rparr>" "\<not> ss_closed (fb_up b ! a)"
        "keeps_others (fu_allocation (fb_up b ! a)) (fb_temp b) t"
        "\<not> al_closeOnce (al_at t (fu_allocation (fb_up b ! a)))"
      | "ok" "file_ok b'" "fu_transferStarted (fb_up b' ! a)" "ss_target (fb_up b' ! a) = None"
        "length (fb_up b') = length (fb_up b)"
      using prepare_cases [OF b a p] by (elim disjE conjE exE) simp_all
    then show ?thesis
    proof cases
      case 1
      then show ?thesis using Some True p b by (simp add: handleFinish_def Let_def failUpload_ok)
    next
      case 2
      then show ?thesis
        using Some True p broken_upload_ok [OF b Some 2(3-5)]
        by (simp add: handleFinish_def Let_def) (simp add: failUpload_def reject_ok)
    next
      case 3
      then have "file_ok (start_task (UploadRun a) FileOpening b')"
        by (intro file_start_ok) (use a in simp_all)
      then show ?thesis using Some True p 3 by (simp add: handleFinish_def Let_def)
    qed
  qed (use Some b in \<open>simp add: handleFinish_def Let_def failUpload_ok\<close>)
qed (use b in \<open>simp add: handleFinish_def Let_def failUpload_ok\<close>)

section \<open>Goroutines\<close>

lemma upload_open_ok:
  assumes b: "file_ok b" and r: "map_of (fb_running b) (UploadRun a) = Some FileOpening"
  shows "file_ok (runTargetUpload_open ok1 ok2 result a b)"
proof -
  have t: "a < length (fb_up b)" "fu_transferStarted (fb_up b ! a)" "ss_target (fb_up b ! a) = None"
    using file_okD(9) [OF b r] by simp_all
  let ?u = "fb_up b ! a"
  let ?c = "\<lambda>tg. TargetOpened tg (buildFileSendCommand (currentPath (fu_allocation ?u) (fb_temp b)) (fu_targetPath ?u))"
  consider "\<not> fb_canOpen b \<or> (\<nexists>tg. result = Opened tg)"
    | tg where "fb_canOpen b" "result = Opened tg" "ss_closed ?u"
    | tg where "fb_canOpen b" "result = Opened tg" "\<not> ss_closed ?u" by blast
  then show ?thesis
  proof cases
    case 1
    then show ?thesis
      using b by (cases result) (auto simp: runTargetUpload_open_def Let_def file_stop_ok finishUpload_ok)
  next
    case 2
    then have "runTargetUpload_open ok1 ok2 result a b
        = stop_task (UploadRun a) (file_emit [?c tg, TargetClosed tg] b)"
      by (simp add: runTargetUpload_open_def attachTarget_def Let_def file_emit_def)
    moreover have "opened_targets [?c tg, TargetClosed tg] \<subseteq> closed_targets [?c tg, TargetClosed tg]"
      by (auto simp: opened_targets_def closed_targets_def)
    ultimately show ?thesis
      using b by (auto simp: stored_bytes_def intro!: file_stop_ok file_emit_ok)
  next
    case 3
    let ?u' = "?u\<lparr>ss_target := Some tg\<rparr>"
    let ?r = "runTargetUpload_open ok1 ok2 result a b"
    have f: "?r = start_task (UploadRun a) (FileReading False) (put_upload a ?u' (file_emit [?c tg] b))"
      using 3 by (simp add: runTargetUpload_open_def attachTarget_def Let_def)
    have u: "upload_ok (fb_temp b) (fb_log b @ [?c tg]) a ?u'"
      using file_okD(6) [OF b t(1)] t(2) by (auto simp: upload_ok_def)
    have tb: "table_ok (fb_uploads b) ((fb_up b)[a := ?u'])"
      using table_ok_update [OF file_okD(2) [OF b] t(1), of ?u'] by simp
    have tg: "targets_in (fb_log b @ [?c tg]) (held_targets ((fb_up b)[a := ?u']) \<union> held_targets (fb_down b))"
      by (rule targets_in_attach [OF file_okD(10) [OF b] t(1,3)]) (use 3 in simp_all)
    show ?thesis
      unfolding f
      by (rule upload_change [OF b t(1), where u = ?u' and l = "[?c tg]"])
        (use t u tb tg file_okD(1,4) [OF b] in \<open>simp_all add: keeps_others_refl split: if_splits\<close>)
  qed
qed

lemma upload_read_ok:
  assumes b: "file_ok b" and r: "map_of (fb_running b) (UploadRun a) = Some (FileReading seen)"
  shows "file_ok (runTargetUpload_read ok ok1 ok2 payload readErr seen a b)"
proof -
  have t: "task_ok b (UploadRun a) (FileReading seen)" by (rule file_okD(9) [OF b r])
  define b' where "b' = (if payload = [] then b
    else file_emit (sent ok (EncodeEchoRaw (ss_channelID (fb_up b ! a)) payload)) b)"
  have ok: "file_ok b'" using b by (simp add: b'_def file_emit_ok)
  have "task_ok b' (UploadRun a) (FileReading s)" for s using t by (simp add: b'_def)
  then show ?thesis
    unfolding runTargetUpload_read_def Let_def b'_def [symmetric]
    using ok by (auto simp: file_stop_ok finishUpload_ok file_start_ok split: option.splits target_end.splits)
qed

lemma download_open_ok:
  assumes b: "file_ok b" and r: "map_of (fb_running b) (DownloadRun a) = Some FileOpening"
  shows "file_ok (runTargetDownload_open ok1 ok2 result a b)"
proof -
  have t: "a < length (fb_down b)" "ss_target (fb_down b ! a) = None"
    and sz: "\<not> ss_closed (fb_down b ! a) \<Longrightarrow>
      al_size (al_at (fb_temp b) (fd_allocation (fb_down b ! a))) = fb_maxFileBytes b"
    using file_okD(9) [OF b r] by simp_all
  let ?d = "fb_down b ! a"
  let ?c = "\<lambda>tg. TargetOpened tg (buildFileRecvCommand (fd_devicePath ?d) (currentPath (fd_allocation ?d) (fb_temp b)))"
  consider "\<not> fb_canOpen b \<or> (\<nexists>tg. result = Opened tg)"
    | tg where "fb_canOpen b" "result = Opened tg" "ss_closed ?d"
    | tg where "fb_canOpen b" "result = Opened tg" "\<not> ss_closed ?d" by blast
  then show ?thesis
  proof cases
    case 1
    then show ?thesis
      using b by (cases result) (auto simp: runTargetDownload_open_def Let_def file_stop_ok endDownload_ok)
  next
    case 2
    then have "runTargetDownload_open ok1 ok2 result a b
        = stop_task (DownloadRun a) (file_emit [?c tg, TargetClosed tg] b)"
      by (simp add: runTargetDownload_open_def attachTarget_def Let_def file_emit_def)
    moreover have "opened_targets [?c tg, TargetClosed tg] \<subseteq> closed_targets [?c tg, TargetClosed tg]"
      by (auto simp: opened_targets_def closed_targets_def)
    ultimately show ?thesis
      using b by (auto simp: stored_bytes_def intro!: file_stop_ok file_emit_ok)
  next
    case 3
    let ?d' = "?d\<lparr>ss_target := Some tg\<rparr>"
    have f: "runTargetDownload_open ok1 ok2 result a b
        = start_task (DownloadRun a) (FileCollecting tg []) (put_download a ?d' (file_emit [?c tg] b))"
      using 3 by (simp add: runTargetDownload_open_def attachTarget_def Let_def)
    have d: "download_ok (fb_temp b) (fb_maxFileBytes b) ?d'"
      using file_okD(7) [OF b t(1)] by (auto simp: download_ok_def)
    have tb: "table_ok (fb_downloads b) ((fb_down b)[a := ?d'])"
      using table_ok_update [OF file_okD(3) [OF b] t(1), of ?d'] by simp
    have "targets_in (fb_log b @ [?c tg]) (held_targets ((fb_down b)[a := ?d']) \<union> held_targets (fb_up b))"
      by (rule targets_in_attach [OF targets_in_comm [OF file_okD(10) [OF b]] t]) (use 3 in simp_all)
    then have tg: "targets_in (fb_log b @ [?c tg]) (held_targets (fb_up b) \<union> held_targets ((fb_down b)[a := ?d']))"
      by (rule targets_in_comm)
    show ?thesis
      unfolding f
      by (rule download_change [OF b t(1), where d = ?d' and l = "[?c tg]"])
        (use t sz d tb tg file_okD(1,5) [OF b] in \<open>auto simp: keeps_others_refl split: if_splits\<close>)
  qed
qed

lemma setSize_ok:
  assumes b: "file_ok b" and r: "map_of (fb_running b) (DownloadRun a) = Some p"
    and n: "n \<le> fb_maxFileBytes b"
  shows "file_ok (stop_task (DownloadRun a) (setSize n a b))"
proof -
  have a: "a < length (fb_down b)" using file_okD(9) [OF b r] by simp
  let ?d = "fb_down b ! a" let ?i = "fd_allocation ?d" let ?d' = "?d\<lparr>fd_fileSize := n\<rparr>"
  have d: "download_ok (fb_temp b) (fb_maxFileBytes b) ?d" by (rule file_okD(7) [OF b a])
  then have i: "?i < length (tm_allocs (fb_temp b))" by (simp add: download_ok_def)
  have d': "download_ok (settle ?i n (fb_temp b)) (fb_maxFileBytes b) ?d'"
    using d i n by (auto simp: download_ok_def settle_def Let_def)
  have k: "keeps_others ?i (fb_temp b) (settle ?i n (fb_temp b))"
  proof (cases "al_closeOnce (al_at (fb_temp b) ?i)")
    case False
    then show ?thesis by (rule settle_keeps [OF file_okD(1) [OF b] i])
  next
    case True
    show ?thesis
    proof (cases "al_released (al_at (fb_temp b) ?i)")
      case rel: True
      then show ?thesis using file_okD(1) [OF b] by (simp add: settle_def keeps_others_refl)
    next
      case rel: False
      have "files_ok (settle ?i n (fb_temp b))"
        by (rule files_ok_put [OF file_okD(1) [OF b] i, where al = "(al_at (fb_temp b) ?i)\<lparr>al_size := n\<rparr>"])
          (use True rel in \<open>simp_all add: settle_def Let_def\<close>)
      then show ?thesis using rel by (simp add: keeps_others_def settle_def Let_def)
    qed
  qed
  show ?thesis
    by (rule download_change [OF b a, where d = ?d' and l = "[]"])
      (use d' k file_okD(5,10) [OF b] table_ok_update [OF file_okD(3) [OF b] a, of ?d'] held_same [OF a, of ?d'] in
        \<open>simp_all add: setSize_def Let_def split: if_splits\<close>)
qed

lemma finish_download_ok:
  assumes b: "file_ok b" and r: "map_of (fb_running b) (DownloadRun a) = Some (FileCollecting target out)"
  shows "file_ok (runTargetDownload_finish ok ok1 ok2 deadline statOK target output a b)"
proof -
  define b' where "b' = file_emit [TargetClosed target] b"
  have b1: "file_ok b'" using b by (simp add: b'_def file_emit_ok)
  have r1: "map_of (fb_running b') (DownloadRun a) = Some (FileCollecting target out)" using r by (simp add: b'_def)
  have d: "fb_down b ! a = fb_down b' ! a" by (simp add: b'_def)
  have stop: "stop_task k (file_emit l x) = file_emit l (stop_task k x)" for k l x
    by (simp add: stop_task_def file_emit_def)
  have e: "stop_task k (endDownload ok1 ok2 a m x) = endDownload ok1 ok2 a m (stop_task k x)" for k m x
    by (auto simp: endDownload_def Let_def removeDownload_def stop_task_def file_emit_def download_close_def
        put_download_def split: option.splits)
  show ?thesis
    unfolding runTargetDownload_finish_def Let_def d b'_def [symmetric]
    by (simp add: stop e file_emit_ok endDownload_ok file_stop_ok [OF b1] setSize_ok [OF b1 r1])
qed

lemma download_read_ok:
  assumes b: "file_ok b" and r: "map_of (fb_running b) (DownloadRun a) = Some (FileCollecting target out)"
  shows "file_ok (runTargetDownload_read payload ended (runTargetDownload_finish ok ok1 ok2 deadline statOK) target out a b)"
  using file_okD(9) [OF b r] by (simp add: runTargetDownload_read_def Let_def finish_download_ok [OF b r] file_start_ok [OF b])

lemma watch_ok:
  assumes b: "file_ok b" and a: "a < length (fb_down b)"
  shows "file_ok (watchTempFileSize statOK a b)"
  using download_close_ok [OF b a, of "fb_downloads b"] b by (auto simp: watchTempFileSize_def split: option.splits)

lemma begin_ok:
  assumes b: "file_ok b"
  shows "file_ok (fst (handleRecvBegin en frame b))"
proof (cases "map_of (fb_downloads b) (ChannelID frame)")
  case (Some a)
  note a = table_okD(1) [OF file_okD(3) [OF b] Some]
  let ?d = "(fb_down b ! a)\<lparr>fd_sending := True\<rparr>"
  have "file_ok (put_download a ?d b)"
    by (rule download_change [OF b a, where d = ?d and l = "[]"])
      (use a file_okD(1,5,7,10) [OF b] file_okD(9) [OF b, of "DownloadRun a"]
          table_ok_update [OF file_okD(3) [OF b] a, of ?d] held_same [OF a, of ?d] in
        \<open>simp_all add: keeps_others_refl download_ok_def\<close>)
  then show ?thesis
    using Some b a by (auto simp: handleRecvBegin_def Let_def intro: file_start_ok)
qed (use b in \<open>simp add: handleRecvBegin_def Let_def reject_ok\<close>)

lemma replay_open_ok:
  assumes b: "file_ok b" and r: "map_of (fb_running b) (SendRun a) = Some p"
  shows "file_ok (sendDownloadData_open openOK ok1 ok2 a b)"
  using file_okD(9) [OF b r] b by (auto simp: sendDownloadData_open_def Let_def file_stop_ok endDownload_ok file_start_ok)

lemma replay_chunk_ok:
  assumes b: "file_ok b" and r: "map_of (fb_running b) (SendRun a) = Some p"
  shows "file_ok (sendDownloadData_chunk readOK ok ok1 ok2 index a b)"
  using file_okD(9) [OF b r] b
  by (auto simp: sendDownloadData_chunk_def Let_def file_stop_ok endDownload_ok file_emit_ok split: sum.splits intro!: file_start_ok)

lemma recv_finish_ok:
  assumes "file_ok b"
  shows "file_ok (fst (handleRecvFinish en frame a b))"
  using assms by (simp add: handleRecvFinish_def Let_def endDownload_ok file_emit_ok)

lemma device_writes_ok:
  assumes b: "file_ok b" and a: "a < length (fb_down b)" and op: "\<not> ss_closed (fb_down b ! a)"
    and r: "\<And>p. map_of (fb_running b) (DownloadRun a) = Some p \<Longrightarrow> task_ok b (DownloadRun a) p"
  shows "file_ok (device_writes a data b)"
proof -
  let ?d = "fb_down b ! a" let ?i = "fd_allocation ?d"
  have d: "download_ok (fb_temp b) (fb_maxFileBytes b) ?d" by (rule file_okD(7) [OF b a])
  then have i: "?i < length (tm_allocs (fb_temp b))" "\<not> al_closeOnce (al_at (fb_temp b) ?i)"
    using op by (simp_all add: download_ok_def)
  have k: "keeps_others ?i (fb_temp b) (fb_temp (device_writes a data b))"
    using outside_keeps [OF file_okD(1) [OF b] i, of data] by (simp add: device_writes_def currentPath_def)
  show ?thesis
    by (rule download_change [OF b a, where d = ?d and l = "[]"])
      (use k d r file_okD(3,5,10) [OF b] in \<open>simp_all add: device_writes_def download_ok_def\<close>)
qed

section \<open>Every step keeps the invariant\<close>

lemma file_handle_ok:
  assumes "file_ok b" "\<forall>x. fe_mkdir en = Some x \<longrightarrow> fresh_dir x (fb_temp b)"
  shows "file_ok (fst (file_Handle en frame b))"
  using assms
  by (simp add: file_Handle_def Let_def handleCheck_ok handleData_ok handleFinish_ok handleRecvInit_ok
      begin_ok recv_finish_ok reject_ok rejectAndClose_ok split: option.split)

lemma close_uploads_ok:
  assumes "file_ok b" "list_all (\<lambda>a. a < length (fb_up b)) as"
  shows "file_ok (fold upload_close as b)"
  using assms
proof (induction as arbitrary: b)
  case (Cons a as)
  have "file_ok (upload_close a b)" using upload_close_ok [of b a "fb_uploads b"] Cons.prems by simp
  then show ?case using Cons by (simp add: upload_close_sel)
qed simp

lemma close_downloads_ok:
  assumes "file_ok b" "list_all (\<lambda>a. a < length (fb_down b)) as"
  shows "file_ok (fold download_close as b)"
  using assms
proof (induction as arbitrary: b)
  case (Cons a as)
  have "file_ok (download_close a b)" using download_close_ok [of b a "fb_downloads b"] Cons.prems by simp
  then show ?case using Cons by (simp add: download_close_sel)
qed simp

lemma fold_upload_sel:
  "fb_down (fold upload_close as b) = fb_down b" "fb_downloads (fold upload_close as b) = fb_downloads b"
  "fb_uploads (fold upload_close as b) = fb_uploads b" "fb_closed (fold upload_close as b) = fb_closed b"
  "fb_running (fold upload_close as b) = fb_running b" "length (fb_up (fold upload_close as b)) = length (fb_up b)"
  by (induction as arbitrary: b) (simp_all add: upload_close_sel)

lemma fold_upload_closed:
  "i < length (fb_up b) \<Longrightarrow> i \<in> set as \<or> ss_closed (fb_up b ! i) \<Longrightarrow> ss_closed (fb_up (fold upload_close as b) ! i)"
proof (induction as arbitrary: b)
  case (Cons a as)
  have "i \<in> set as \<or> ss_closed (fb_up (upload_close a b) ! i)"
    using Cons.prems by (cases "i = a") (auto simp: upload_close_sel)
  with Cons show ?case by (simp add: upload_close_sel)
qed simp

lemma fold_download_sel:
  "fb_up (fold download_close as b) = fb_up b" "fb_uploads (fold download_close as b) = fb_uploads b"
  "fb_downloads (fold download_close as b) = fb_downloads b" "fb_closed (fold download_close as b) = fb_closed b"
  "fb_running (fold download_close as b) = fb_running b" "length (fb_down (fold download_close as b)) = length (fb_down b)"
  by (induction as arbitrary: b) (simp_all add: download_close_sel)

lemma fold_download_closed:
  "i < length (fb_down b) \<Longrightarrow> i \<in> set as \<or> ss_closed (fb_down b ! i) \<Longrightarrow> ss_closed (fb_down (fold download_close as b) ! i)"
proof (induction as arbitrary: b)
  case (Cons a as)
  have "i \<in> set as \<or> ss_closed (fb_down (download_close a b) ! i)"
    using Cons.prems by (cases "i = a") (auto simp: download_close_sel)
  with Cons show ?case by (simp add: download_close_sel)
qed simp

definition clear_tables :: "FileBridge \<Rightarrow> FileBridge" where
  "clear_tables b = b\<lparr>fb_closed := True, fb_uploads := [], fb_downloads := []\<rparr>"

lemma clear_upload_close: "upload_close a (clear_tables b) = clear_tables (upload_close a b)"
  by (simp add: clear_tables_def upload_close_def put_upload_def file_emit_def Let_def)

lemma clear_download_close: "download_close a (clear_tables b) = clear_tables (download_close a b)"
  by (simp add: clear_tables_def download_close_def put_download_def file_emit_def Let_def)

lemma clear_folds:
  "fold upload_close as (clear_tables b) = clear_tables (fold upload_close as b)"
  "fold download_close as (clear_tables b) = clear_tables (fold download_close as b)"
  by (induction as arbitrary: b) (simp_all add: clear_upload_close clear_download_close)

lemma clear_ok:
  assumes "file_ok b" "\<forall>s \<in> set (fb_up b). ss_closed s" "\<forall>s \<in> set (fb_down b). ss_closed s"
  shows "file_ok (clear_tables b)"
  using assms table_ok_nil [OF assms(2)] table_ok_nil [OF assms(3)]
  by (simp add: file_ok_def clear_tables_def own_allocations_def task_ok_cong [of "clear_tables b" b, unfolded clear_tables_def])

lemma file_close_ok:
  assumes b: "file_ok b"
  shows "file_ok (file_Close b)"
proof (cases "fb_closed b")
  case False
  let ?us = "map snd (fb_uploads b)" and ?ds = "map snd (fb_downloads b)"
  let ?b1 = "fold upload_close ?us b" let ?b2 = "fold download_close ?ds ?b1"
  have r: "file_Close b = clear_tables ?b2"
    using False clear_folds by (simp add: file_Close_def clear_tables_def [symmetric])
  have u: "list_all (\<lambda>a. a < length (fb_up b)) ?us" and d: "list_all (\<lambda>a. a < length (fb_down b)) ?ds"
    using file_okD(2,3) [OF b] by (simp_all add: table_ok_def list_all_iff)
  have b1: "file_ok ?b1" by (rule close_uploads_ok [OF b u])
  then have b2: "file_ok ?b2" using close_downloads_ok [of ?b1 ?ds] d by (simp add: fold_upload_sel)
  have "ss_closed (fb_up ?b1 ! i)" if "i < length (fb_up b)" for i
    by (rule fold_upload_closed [OF that table_listed [OF file_okD(2) [OF b] that]])
  then have cu: "\<forall>s \<in> set (fb_up ?b2). ss_closed s"
    by (auto simp: fold_download_sel fold_upload_sel in_set_conv_nth)
  have "ss_closed (fb_down ?b2 ! i)" if "i < length (fb_down b)" for i
    using fold_download_closed [of i ?b1 ?ds] table_listed [OF file_okD(3) [OF b] that] that
    by (simp add: fold_upload_sel)
  then have "\<forall>s \<in> set (fb_down ?b2). ss_closed s"
    by (auto simp: fold_download_sel fold_upload_sel in_set_conv_nth)
  with clear_ok [OF b2 cu] show ?thesis unfolding r by simp
qed (use b in \<open>simp add: file_Close_def\<close>)

lemma others_ok:
  assumes b: "file_ok b" and o: "others_use (set (own_allocations b)) (fb_temp b) t"
  shows "file_ok (b\<lparr>fb_temp := t\<rparr>)"
  by (rule temp_change_ok [OF b]) (use o in \<open>simp_all add: others_use_def\<close>)

lemma bridge_step_ok:
  assumes b: "file_ok b" and s: "bridge_step b b'"
  shows "file_ok b'"
  using s
proof cases
  case (handles en frame)
  then show ?thesis by (simp add: file_handle_ok [OF b])
next
  case (closes_channel c)
  then show ?thesis using b by (simp add: file_CloseChannel_def drop_upload_ok drop_download_ok)
next
  case (upload_times_out a seen)
  then have "a < length (fb_up b)" using file_okD(9) [OF b] by force
  then show ?thesis using upload_close_ok [OF b, of a "fb_uploads b"] upload_times_out by simp
next
  case (download_times_out a target out)
  then have "a < length (fb_down b)" using file_okD(9) [OF b] by force
  then show ?thesis using download_close_ok [OF b, of a "fb_downloads b"] download_times_out by simp
next
  case (download_watched a target out statOK)
  then have "a < length (fb_down b)" using file_okD(9) [OF b] by force
  then show ?thesis using watch_ok [OF b] download_watched by simp
next
  case (download_written a target out data)
  then have "a < length (fb_down b)" using file_okD(9) [OF b] by force
  from device_writes_ok [OF b this download_written(3) file_okD(9) [OF b]] show ?thesis
    unfolding download_written(1) .
next
  case (closes_bridge)
  then show ?thesis by (simp add: file_close_ok [OF b])
next
  case (upload_opens a ok1 ok2 result)
  then show ?thesis by (simp add: upload_open_ok [OF b])
next
  case (upload_reads a seen ok ok1 ok2 payload readErr)
  then show ?thesis by (simp add: upload_read_ok [OF b])
next
  case (download_opens a ok1 ok2 result)
  then show ?thesis by (simp add: download_open_ok [OF b])
next
  case (download_reads a target out payload ended ok ok1 ok2 deadline statOK)
  then show ?thesis by (simp add: download_read_ok [OF b])
next
  case (replay_opens a openOK ok1 ok2)
  then show ?thesis by (simp add: replay_open_ok [OF b])
next
  case (replay_sends a index readOK ok ok1 ok2)
  then show ?thesis by (simp add: replay_chunk_ok [OF b])
qed

lemma file_step_ok: "file_ok b \<Longrightarrow> file_step b b' \<Longrightarrow> file_ok b'"
  by (erule file_step.cases) (simp_all add: bridge_step_ok others_ok)

lemma file_new_ok: "files_ok t \<Longrightarrow> file_ok (NewFileBridge canOpen mx t)"
  by (simp add: file_ok_def NewFileBridge_def table_ok_def own_allocations_def targets_in_def)

interpretation transfers: target_keeper file_step file_ok fb_log
  "\<lambda>b. held_targets (fb_up b) \<union> held_targets (fb_down b)"
proof unfold_locales
  fix b b' :: FileBridge
  show "file_ok b \<Longrightarrow> file_step b b' \<Longrightarrow> file_ok b'" by (rule file_step_ok)
  show "file_ok b \<Longrightarrow> opened_targets (fb_log b)
      \<subseteq> closed_targets (fb_log b) \<union> (held_targets (fb_up b) \<union> held_targets (fb_down b))"
    using file_okD(10) by (simp add: targets_in_def)
qed

end
