(* ===== verification/File_Properties.thy ===== *)
theory File_Properties
  imports File_Invariant
begin

text \<open>
  The properties of the file bridge: exact bytes in both directions, nothing left behind after
  \<open>Close\<close>, and the composition with the temporary store's quota.
\<close>

abbreviation file_steps :: "FileBridge \<Rightarrow> FileBridge \<Rightarrow> bool" where
  "file_steps \<equiv> file_step\<^sup>*\<^sup>*"

lemma file_reachable_ok: "files_ok t \<Longrightarrow> file_steps (NewFileBridge canOpen mx t) b \<Longrightarrow> file_ok b"
  by (rule transfers.run_kept [OF _ file_new_ok])

section \<open>Uploads\<close>

text \<open>C10: When an upload is handed to the main HDC server, the file it is told to send holds exactly the
  bytes that were accepted from the client, in order, and as many as the client declared,
  whatever else happened on the connection and in the shared temporary directory.\<close>

theorem upload_sends_exact_bytes:
  assumes "files_ok t" "file_steps (NewFileBridge canOpen mx t) b"
    and "map_of (fb_running b) (UploadRun a) = Some FileOpening" "\<not> ss_closed (fb_up b ! a)" "fb_canOpen b"
  shows "let u = fb_up b ! a; p = currentPath (fu_allocation u) (fb_temp b); sent = stored_bytes a (fb_log b)
    in file_content p (fb_temp b) = sent \<and> int (length sent) = fu_expectedSize u
      \<and> fb_log (runTargetUpload_open ok1 ok2 (Opened target) a b)
          = fb_log b @ [TargetOpened target (buildFileSendCommand p (fu_targetPath u))]"
proof -
  have ok: "file_ok b" by (rule file_reachable_ok [OF assms(1,2)])
  have t: "a < length (fb_up b)" "fu_transferStarted (fb_up b ! a)" using file_okD(9) [OF ok assms(3)] by simp_all
  have u: "upload_ok (fb_temp b) (fb_log b) a (fb_up b ! a)" by (rule file_okD(6) [OF ok t(1)])
  have "fb_log (runTargetUpload_open ok1 ok2 (Opened target) a b) = fb_log b @ [TargetOpened target
      (buildFileSendCommand (currentPath (fu_allocation (fb_up b ! a)) (fb_temp b)) (fu_targetPath (fb_up b ! a)))]"
    using assms(4,5) by (simp add: runTargetUpload_open_def attachTarget_def Let_def)
  then show ?thesis using u t(2) assms(4) by (auto simp: upload_ok_def Let_def currentPath_def)
qed

lemma stored_drop: "stored_bytes a (fb_log (drop_upload c e b)) = stored_bytes a (fb_log b)"
  by (auto simp: drop_upload_def removeUpload_def upload_close_sel split: option.splits)

lemma stored_reject:
  "stored_bytes a (fb_log (fst (rejectAndClose ok c m b))) = stored_bytes a (fb_log b)"
  "stored_bytes a (fb_log (fst (failUpload ok c e m b))) = stored_bytes a (fb_log b)"
  by (auto simp: rejectAndClose_def failUpload_def file_reject_def stored_drop split: option.splits)

lemma handleData_stores:
  assumes b: "file_ok b"
  shows "stored_bytes a (fb_log (fst (handleData en frame b))) = stored_bytes a (fb_log b)
    \<or> (\<exists>header data. map_of (fb_uploads b) (ChannelID frame) = Some a
      \<and> DecodeTransferData (Payload frame) (of_int (min (fb_maxFileBytes b) (2 ^ 32 - 1))) = Inr (header, data)
      \<and> tp_Compression header = CompressionNone
      \<and> tp_Index header = of_nat (length (stored_bytes a (fb_log b)))
      \<and> stored_bytes a (fb_log (fst (handleData en frame b))) = stored_bytes a (fb_log b) @ data)"
proof (cases "map_of (fb_uploads b) (ChannelID frame)")
  case (Some x)
  note x = table_okD(1) [OF file_okD(2) [OF b] Some]
  show ?thesis
  proof (cases "DecodeTransferData (Payload frame) (of_int (min (fb_maxFileBytes b) (2 ^ 32 - 1)))")
    case (Inr r)
    obtain header data where r: "r = (header, data)" by (cases r)
    show ?thesis
    proof (cases "tp_Compression header = CompressionNone
        \<and> tp_CompressedSize header = tp_UncompressedSize header")
      case True
      obtain res b' where w: "writeChunk (fe_short en) (tp_Index header) data x b = (res, b')"
        by (cases "writeChunk (fe_short en) (tp_Index header) data x b")
      show ?thesis
      proof (cases res)
        case None
        then have "fb_log b' = fb_log b" using writeChunk_cases [OF b x w] by auto
        then show ?thesis
          using Some Inr r w True None by (simp add: handleData_def Let_def stored_reject)
      next
        case (Some complete)
        then have l: "fb_log b' = fb_log b @ [ChunkStored x data]" "\<not> ss_closed (fb_up b ! x)"
          "tp_Index header = of_int (fu_receivedSize (fb_up b ! x))"
          using writeChunk_cases [OF b x w] by auto
        then have "tp_Index header = of_nat (length (stored_bytes x (fb_log b)))"
          using file_okD(6) [OF b x] by (simp add: upload_ok_def)
        then show ?thesis
          using \<open>map_of (fb_uploads b) (ChannelID frame) = Some x\<close> Inr r w True Some l(1)
          by (cases "x = a") (simp_all add: handleData_def Let_def split: if_splits)
      qed
    qed (use Some Inr r in \<open>auto simp: handleData_def Let_def stored_reject\<close>)
  qed (use Some in \<open>simp add: handleData_def Let_def stored_reject\<close>)
qed (simp add: handleData_def Let_def stored_reject)

text \<open>A data frame adds bytes to an upload only if it decodes, is not compressed and starts exactly
  where the accepted bytes end; it then adds exactly its own data, once. Anything else leaves
  the accepted bytes as they are.\<close>

theorem data_frame_extends_upload:
  assumes "files_ok t" "file_steps (NewFileBridge canOpen mx t) b"
  shows "let b' = fst (handleData en frame b); old = stored_bytes a (fb_log b); new = stored_bytes a (fb_log b')
    in new = old \<or> (\<exists>header data. map_of (fb_uploads b) (ChannelID frame) = Some a
      \<and> DecodeTransferData (Payload frame) (of_int (min (fb_maxFileBytes b) (2 ^ 32 - 1))) = Inr (header, data)
      \<and> tp_Compression header = CompressionNone \<and> tp_Index header = of_nat (length old) \<and> new = old @ data)"
  unfolding Let_def by (rule handleData_stores [OF file_reachable_ok [OF assms]])

section \<open>Downloads\<close>

text \<open>A receiver that accepts a data frame only at the end of what it has.\<close>

fun receive_all :: "u32 \<Rightarrow> bytes \<Rightarrow> bytes list \<Rightarrow> bytes option" where
  "receive_all limit got [] = Some got"
| "receive_all limit got (p # ps) =
     (case DecodeTransferData p limit of Inl _ \<Rightarrow> None
      | Inr (h, d) \<Rightarrow> if tp_Index h = of_nat (length got) then receive_all limit (got @ d) ps else None)"

text \<open>The replay goroutine run on its own: one turn of its loop, with every call succeeding.\<close>

definition replay_turn :: "nat \<Rightarrow> FileBridge \<Rightarrow> FileBridge" where
  "replay_turn a b = (case map_of (fb_running b) (SendRun a) of
     Some (Replaying index) \<Rightarrow> sendDownloadData_chunk True True True True index a b | _ \<Rightarrow> b)"

lemma chunk_encodes:
  assumes "length chunk \<le> 61440"
  shows "\<exists>p. EncodeTransferData \<lparr>tp_Index = i, tp_Compression = CompressionNone,
      tp_CompressedSize = of_nat (length chunk), tp_UncompressedSize = of_nat (length chunk)\<rparr> chunk = Inr p
    \<and> DecodeTransferData p 61440 = Inr (\<lparr>tp_Index = i, tp_Compression = CompressionNone,
      tp_CompressedSize = of_nat (length chunk), tp_UncompressedSize = of_nat (length chunk)\<rparr>, chunk)"
proof -
  have u: "unat (of_nat (length chunk) :: u32) = length chunk"
    using assms by (simp add: unat_of_nat)
  show ?thesis
    by (rule TransferData_roundtrip) (use assms u in \<open>simp_all add: word_le_nat_alt\<close>)
qed

lemma replay_from:
  assumes "\<not> ss_closed (fb_down b ! a)"
    and "file_content (currentPath (fd_allocation (fb_down b ! a)) (fb_temp b)) (fb_temp b) = content"
    and "map_of (fb_running b) (SendRun a) = Some (Replaying index)"
  shows "\<exists>n ps. fb_log ((replay_turn a ^^ n) b) = fb_log b @ map (\<lambda>p. FrameSent
        (EncodeFrame (ss_channelID (fb_down b ! a)) CommandFileData p)) ps
    \<and> map_of (fb_running ((replay_turn a ^^ n) b)) (SendRun a) = None
    \<and> (index \<le> length content \<longrightarrow> receive_all 61440 (take index content) ps = Some content)"
  using assms
proof (induction "length content - index" arbitrary: b index rule: less_induct)
  case less
  let ?d = "fb_down b ! a"
  define chunk where "chunk = take 61440 (drop index content)"
  have turn: "replay_turn a b = sendDownloadData_chunk True True True True index a b"
    using less.prems(3) by (simp add: replay_turn_def)
  show ?case
  proof (cases "chunk = []")
    case True
    then have "replay_turn a b = stop_task (SendRun a) b"
      unfolding turn sendDownloadData_chunk_def Let_def less.prems(2) using less.prems(1)
      by (simp add: chunk_def)
    moreover have "length content \<le> index" using True by (simp add: chunk_def)
    ultimately show ?thesis
      by (intro exI [of _ 1] exI [of _ "[]"]) simp
  next
    case False
    have len: "length chunk \<le> 61440" "0 < length chunk" using False by (simp_all add: chunk_def)
    obtain p where p: "EncodeTransferData \<lparr>tp_Index = of_nat index, tp_Compression = CompressionNone,
        tp_CompressedSize = of_nat (length chunk), tp_UncompressedSize = of_nat (length chunk)\<rparr> chunk = Inr p"
      "DecodeTransferData p 61440 = Inr (\<lparr>tp_Index = of_nat index, tp_Compression = CompressionNone,
        tp_CompressedSize = of_nat (length chunk), tp_UncompressedSize = of_nat (length chunk)\<rparr>, chunk)"
      using chunk_encodes [OF len(1)] by blast
    let ?f = "FrameSent (EncodeFrame (ss_channelID ?d) CommandFileData p)"
    let ?b = "start_task (SendRun a) (Replaying (index + length chunk)) (file_emit [?f] b)"
    have step: "replay_turn a b = ?b"
      unfolding turn sendDownloadData_chunk_def Let_def less.prems(2) chunk_def [symmetric]
      using less.prems(1) False p(1) by simp
    have lt: "length content - (index + length chunk) < length content - index"
      using False len(2) by (simp add: chunk_def)
    have "\<exists>n ps. fb_log ((replay_turn a ^^ n) ?b) = fb_log ?b @ map (\<lambda>p. FrameSent
          (EncodeFrame (ss_channelID (fb_down ?b ! a)) CommandFileData p)) ps
      \<and> map_of (fb_running ((replay_turn a ^^ n) ?b)) (SendRun a) = None
      \<and> (index + length chunk \<le> length content \<longrightarrow>
          receive_all 61440 (take (index + length chunk) content) ps = Some content)"
      by (rule less.hyps [OF lt]) (use less.prems in simp_all)
    then obtain n ps where n: "fb_log ((replay_turn a ^^ n) ?b) = fb_log b @ ?f # map (\<lambda>p. FrameSent
          (EncodeFrame (ss_channelID ?d) CommandFileData p)) ps"
      "map_of (fb_running ((replay_turn a ^^ n) ?b)) (SendRun a) = None"
      "index + length chunk \<le> length content \<longrightarrow>
        receive_all 61440 (take (index + length chunk) content) ps = Some content"
      by auto
    have cont: "take index content @ chunk = take (index + length chunk) content"
    proof -
      have "chunk = take (length chunk) (drop index content)" by (simp add: chunk_def min_def)
      then show ?thesis by (metis take_add)
    qed
    have le: "index + length chunk \<le> length content" using False by (simp add: chunk_def)
    have "receive_all 61440 (take index content) (p # ps) = Some content"
      using p(2) le n(3) cont by simp
    moreover have "(replay_turn a ^^ Suc n) b = (replay_turn a ^^ n) ?b"
      by (simp only: funpow_Suc_right o_apply step)
    ultimately show ?thesis
      using n by (intro exI [of _ "Suc n"] exI [of _ "p # ps"]) simp
  qed
qed

text \<open>C29: The replay of a downloaded file ends, and a client that puts the data frames together, checking
  every offset, has exactly the bytes of the file. This is the replay running alone, with every
  read and every write to the client succeeding.\<close>

theorem replay_delivers_the_file:
  assumes "map_of (fb_running b) (SendRun a) = Some (Replaying 0)" "\<not> ss_closed (fb_down b ! a)"
  shows "\<exists>n ps. fb_log ((replay_turn a ^^ n) b) = fb_log b @ map (\<lambda>p. FrameSent
        (EncodeFrame (ss_channelID (fb_down b ! a)) CommandFileData p)) ps
    \<and> map_of (fb_running ((replay_turn a ^^ n) b)) (SendRun a) = None
    \<and> receive_all 61440 [] ps
        = Some (file_content (currentPath (fd_allocation (fb_down b ! a)) (fb_temp b)) (fb_temp b))"
  using replay_from [OF assms(2) refl assms(1)] by simp

section \<open>Shutdown\<close>

text \<open>C30: When the file bridge is closed and its goroutines have ended, which is what \<open>Close\<close> waits for, every
  target it opened has been closed, every allocation it ever made has been given back, and no
  channel has a transfer any more.\<close>

theorem file_close_leaves_nothing:
  assumes "files_ok t" "file_steps (NewFileBridge canOpen mx t) b" "fb_closed b" "fb_running b = []"
  shows "opened_targets (fb_log b) \<subseteq> closed_targets (fb_log b)
    \<and> (\<forall>i \<in> set (own_allocations b). al_closeOnce (al_at (fb_temp b) i))
    \<and> fb_uploads b = [] \<and> fb_downloads b = []"
proof -
  have ok: "file_ok b" by (rule file_reachable_ok [OF assms(1,2)])
  have none: "fb_uploads b = []" "fb_downloads b = []" using file_okD(4,5) [OF ok assms(3)] by auto
  have up: "ss_closed (fb_up b ! a)" if "a < length (fb_up b)" for a
    using table_listed [OF file_okD(2) [OF ok] that] none by simp
  have down: "ss_closed (fb_down b ! a)" if "a < length (fb_down b)" for a
    using table_listed [OF file_okD(3) [OF ok] that] none by simp
  have held: "held_targets (fb_up b) = {}" "held_targets (fb_down b) = {}"
    using up down by (auto intro!: held_none simp: in_set_conv_nth)
  have "al_closeOnce (al_at (fb_temp b) i)" if "i \<in> set (own_allocations b)" for i
    using that up down file_okD(6,7) [OF ok]
    by (auto simp: own_allocations_def in_set_conv_nth upload_ok_def download_ok_def)
  with transfers.no_leak [OF assms(2) file_new_ok [OF assms(1)]] held none show ?thesis by blast
qed

section \<open>The shared quota\<close>

text \<open>A change of the store that is a run of its locked sections, beside whatever others owe.\<close>

definition spends :: "temp_state \<Rightarrow> temp_state \<Rightarrow> bool" where
  "spends t t' \<longleftrightarrow> (\<forall>m. temp_steps (idle_run t m) (idle_run t' m))"

lemma spends_refl [simp]: "spends t t"
  by (simp add: spends_def)

lemma spends_trans: "spends t u \<Longrightarrow> spends u v \<Longrightarrow> spends t v"
  unfolding spends_def by (meson rtranclp_trans)

lemma spends_close: "i < length (tm_allocs t) \<Longrightarrow> spends t (al_close i t)"
  by (simp add: spends_def al_close_run)

lemma spends_allocate: "temp_allocate mk ok n t = (res, t') \<Longrightarrow> spends t t'"
  unfolding spends_def using allocate_run by blast

lemma spends_prepareDownload: "prepareDownload mk n t = (res, t') \<Longrightarrow> spends t t'"
  unfolding spends_def using prepareDownload_run by blast

lemma spends_write: "i < length (tm_allocs t) \<Longrightarrow> al_write n i data t = (r, t') \<Longrightarrow> spends t t'"
  unfolding spends_def idle_run_def
  using temp_step.writes [where r = "\<lparr>tr_state = t, tr_owed = m\<rparr>" for m] by fastforce

lemma spends_seal: "i < length (tm_allocs t) \<Longrightarrow> seal sk ck i t = (r, t') \<Longrightarrow> spends t t'"
  unfolding spends_def idle_run_def
  using temp_step.seals [where r = "\<lparr>tr_state = t, tr_owed = m\<rparr>" for m] by fastforce

lemma spends_rename: "i < length (tm_allocs t) \<Longrightarrow> renameToName ok i name t = (r, t') \<Longrightarrow> spends t t'"
  unfolding spends_def idle_run_def
  using temp_step.renames [where r = "\<lparr>tr_state = t, tr_owed = m\<rparr>" for m] by fastforce

lemma spends_settle:
  "i < length (tm_allocs t) \<Longrightarrow> 0 \<le> n \<Longrightarrow> n \<le> al_size (al_at t i) \<or> al_released (al_at t i) \<Longrightarrow> spends t (settle i n t)"
  unfolding spends_def idle_run_def
  using temp_step.settles [where r = "\<lparr>tr_state = t, tr_owed = m\<rparr>" for m] by fastforce

lemma spends_outside: "spends t (t\<lparr>tm_disk := d\<rparr>)"
  unfolding spends_def idle_run_def
  using temp_step.outside_writes [where r = "\<lparr>tr_state = t, tr_owed = m\<rparr>" for m] by fastforce

definition in_bounds :: "FileBridge \<Rightarrow> temp_state \<Rightarrow> bool" where
  "in_bounds b t \<longleftrightarrow> (\<forall>c a. map_of (fb_uploads b) c = Some a \<longrightarrow> fu_allocation (fb_up b ! a) < length (tm_allocs t))
     \<and> (\<forall>c a. map_of (fb_downloads b) c = Some a \<longrightarrow> fd_allocation (fb_down b ! a) < length (tm_allocs t))"

lemma bounded: "file_ok b \<Longrightarrow> in_bounds b (fb_temp b)"
  using table_okD(1) [OF file_okD(2)] table_okD(1) [OF file_okD(3)] file_okD(6,7)
  by (fastforce simp: in_bounds_def upload_ok_def download_ok_def)

lemma in_bounds_more: "in_bounds b t \<Longrightarrow> length (tm_allocs t) \<le> length (tm_allocs t') \<Longrightarrow> in_bounds b t'"
  by (fastforce simp: in_bounds_def)

lemma spends_drop_upload: "in_bounds b (fb_temp b) \<Longrightarrow> spends (fb_temp b) (fb_temp (drop_upload c e b))"
  by (auto simp: drop_upload_def removeUpload_def upload_close_def Let_def in_bounds_def
      split: option.splits intro!: spends_close)

lemma spends_drop_download: "in_bounds b (fb_temp b) \<Longrightarrow> spends (fb_temp b) (fb_temp (drop_download c e b))"
  by (auto simp: drop_download_def removeDownload_def download_close_def Let_def in_bounds_def
      split: option.splits intro!: spends_close)

lemma spends_reject:
  "fb_temp (fst (file_reject ok c m b)) = fb_temp b"
  "in_bounds b (fb_temp b) \<Longrightarrow> spends (fb_temp b) (fb_temp (fst (rejectAndClose ok c m b)))"
  "in_bounds b (fb_temp b) \<Longrightarrow> spends (fb_temp b) (fb_temp (fst (failUpload ok c e m b)))"
  by (auto simp: file_reject_def rejectAndClose_def failUpload_def spends_drop_upload split: option.splits)

lemma spends_finish:
  "in_bounds b (fb_temp b) \<Longrightarrow> spends (fb_temp b) (fb_temp (finishUpload ok1 ok2 a m s b))"
  "in_bounds b (fb_temp b) \<Longrightarrow> spends (fb_temp b) (fb_temp (endDownload ok1 ok2 a m b))"
  using spends_drop_upload [of b "ss_channelID (fb_up b ! a)" "Some a"]
    spends_drop_download [of b "ss_channelID (fb_down b ! a)" "Some a"]
  by (auto simp: finishUpload_def endDownload_def drop_upload_def drop_download_def removeUpload_def
      removeDownload_def Let_def split: option.splits if_splits)

lemma length_al_close [simp]: "length (tm_allocs (al_close i t)) = length (tm_allocs t)"
  by (simp add: al_close_def close_begin_def Let_def)

lemma in_bounds_temp [simp]: "in_bounds (b\<lparr>fb_temp := t'\<rparr>) t = in_bounds b t"
  by (simp add: in_bounds_def)

lemma spends_reject_at:
  assumes "spends t u" "in_bounds b u"
  shows "spends t (fb_temp (fst (rejectAndClose ok c m (b\<lparr>fb_temp := u\<rparr>))))"
    "spends t (fb_temp (fst (failUpload ok c e m (b\<lparr>fb_temp := u\<rparr>))))"
  using spends_trans [OF assms(1)] spends_reject(2,3) [of "b\<lparr>fb_temp := u\<rparr>"] assms(2) by simp_all

lemma handleCheck_spends:
  assumes b: "file_ok b"
  shows "spends (fb_temp b) (fb_temp (fst (handleCheck en frame b)))"
proof (cases "DecodeTransferConfig (Payload frame)")
  case (Inr config)
  show ?thesis
  proof (cases "validateConfig (fb_maxFileBytes b) config")
    case v: (Inr n)
    obtain res t where al: "temp_allocate (fe_mkdir en) (fe_openOK en) n (fb_temp b) = (res, t)"
      by (cases "temp_allocate (fe_mkdir en) (fe_openOK en) n (fb_temp b)")
    note sp = spends_allocate [OF al]
    show ?thesis
    proof (cases res)
      case (Inl e)
      then have "length (tm_allocs (fb_temp b)) \<le> length (tm_allocs t)"
        using al by (auto simp: temp_allocate_def allocate_files_def Let_def ts_reserve_def split: if_splits option.splits)
      from spends_reject_at(1) [OF sp in_bounds_more [OF bounded [OF b] this]]
      show ?thesis using Inl Inr v al by (simp add: handleCheck_def Let_def)
    next
      case i: (Inr i)
      note new = allocate_new [OF al [unfolded i]]
      have bt: "in_bounds b t" by (rule in_bounds_more [OF bounded [OF b]]) (use new in simp)
      have cl: "spends (fb_temp b) (al_close i t)" by (rule spends_trans [OF sp spends_close]) (use new in simp)
      have "in_bounds b (al_close i t)" by (rule in_bounds_more [OF bt]) simp
      note rj = spends_reject_at(1) [OF cl this]
      let ?b = "b\<lparr>fb_temp := t, fb_up := fb_up b @ [\<lparr>ss_channelID = ChannelID frame, ss_target = None,
          ss_closed = False, fu_targetPath = tc_Path config,
          fu_optionalName = trim_space (tc_OptionalName config), fu_expectedSize = n,
          fu_allocation = i, fu_receivedSize = 0, fu_transferStarted = False\<rparr>],
          fb_uploads := AList.update (ChannelID frame) (length (fb_up b)) (fb_uploads b)\<rparr>"
      have "in_bounds ?b (fb_temp ?b)"
        using bt new table_okD(1) [OF file_okD(2) [OF b]] by (auto simp: in_bounds_def nth_append)
      from spends_trans [OF sp] spends_drop_upload [OF this] show ?thesis
        using rj Inr v al i sp by (simp add: handleCheck_def Let_def)
    qed
  qed (use Inr spends_reject(2) [OF bounded [OF b]] in \<open>simp add: handleCheck_def Let_def\<close>)
qed (use spends_reject(2) [OF bounded [OF b]] in \<open>simp add: handleCheck_def Let_def\<close>)

lemma handleRecvInit_spends:
  assumes b: "file_ok b"
  shows "spends (fb_temp b) (fb_temp (fst (handleRecvInit en frame b)))"
proof (cases "parseRecvCommand (Payload frame)")
  case (Inr r)
  obtain res t where al: "prepareDownload (fe_mkdir en) (fb_maxFileBytes b) (fb_temp b) = (res, t)"
    by (cases "prepareDownload (fe_mkdir en) (fb_maxFileBytes b) (fb_temp b)")
  note sp = spends_prepareDownload [OF al]
  show ?thesis
  proof (cases res)
    case i: (Inr i)
    note new = prepareDownload_new [OF al [unfolded i]]
    have "spends (fb_temp b) (al_close i t)" by (rule spends_trans [OF sp spends_close]) (use new in simp)
    then show ?thesis using Inr al i sp by (simp add: handleRecvInit_def Let_def spends_reject(1))
  qed (use Inr al sp in \<open>simp add: handleRecvInit_def Let_def spends_reject(1)\<close>)
qed (simp add: handleRecvInit_def Let_def spends_reject(1))

lemma writeChunk_spends:
  assumes "file_ok b" "a < length (fb_up b)" "writeChunk short index data a b = (res, b')"
  shows "spends (fb_temp b) (fb_temp b') \<and> in_bounds b' (fb_temp b') \<and> fb_uploads b' = fb_uploads b"
proof -
  let ?i = "fu_allocation (fb_up b ! a)"
  have i: "?i < length (tm_allocs (fb_temp b))" using file_okD(6) [OF assms(1,2)] by (simp add: upload_ok_def)
  obtain r t where wr: "al_write short ?i data (fb_temp b) = (r, t)"
    by (cases "al_write short ?i data (fb_temp b)")
  have "spends (fb_temp b) t" "length (tm_allocs t) = length (tm_allocs (fb_temp b))"
    using spends_write [OF i wr] al_write_closeOnce [OF i wr] by simp_all
  moreover have "in_bounds b t" by (rule in_bounds_more [OF bounded [OF assms(1)]]) (use calculation in simp)
  moreover have "in_bounds (put_upload a ((fb_up b ! a)\<lparr>fu_receivedSize := n\<rparr>) b) t" for n
    using \<open>in_bounds b t\<close> assms(2) by (auto simp: in_bounds_def nth_list_update)
  ultimately show ?thesis
    using assms(3) wr bounded [OF assms(1)]
    by (auto simp: writeChunk_def Let_def in_bounds_def split: if_splits prod.splits)
qed

lemma handleData_spends:
  assumes b: "file_ok b"
  shows "spends (fb_temp b) (fb_temp (fst (handleData en frame b)))"
proof (cases "map_of (fb_uploads b) (ChannelID frame)")
  case (Some a)
  note a = table_okD(1) [OF file_okD(2) [OF b] Some]
  note bd = bounded [OF b]
  show ?thesis
  proof (cases "DecodeTransferData (Payload frame) (of_int (min (fb_maxFileBytes b) (2 ^ 32 - 1)))")
    case (Inr r)
    obtain header data where r: "r = (header, data)" by (cases r)
    obtain res b' where w: "writeChunk (fe_short en) (tp_Index header) data a b = (res, b')"
      by (cases "writeChunk (fe_short en) (tp_Index header) data a b")
    note ws = writeChunk_spends [OF b a w]
    then have "spends (fb_temp b) (fb_temp (fst (failUpload ok c e m b')))" for ok c e m
      using spends_trans spends_reject(3) by blast
    then show ?thesis
      using Some Inr r w ws spends_reject(3) [OF bd]
      by (auto simp: handleData_def Let_def split: option.splits)
  qed (use Some spends_reject(3) [OF bd] in \<open>simp add: handleData_def Let_def\<close>)
qed (use spends_reject(2) [OF bounded [OF b]] in \<open>simp add: handleData_def Let_def\<close>)

lemma prepare_spends:
  assumes b: "file_ok b" and a: "a < length (fb_up b)" and p: "prepareTargetTransfer en a b = (ok, b')"
  shows "spends (fb_temp b) (fb_temp b') \<and> (\<not> ok \<longrightarrow> in_bounds b' (fb_temp b'))"
proof -
  let ?i = "fu_allocation (fb_up b ! a)"
  have i: "?i < length (tm_allocs (fb_temp b))" using file_okD(6) [OF b a] by (simp add: upload_ok_def)
  obtain e t where s: "seal (fe_syncOK en) (fe_closeOK en) ?i (fb_temp b) = (e, t)" by (metis prod.collapse)
  obtain e2 t2 where rn: "renameToName (fe_renameOK en) ?i (fu_optionalName (fb_up b ! a)) t = (e2, t2)"
    by (metis prod.collapse)
  note co = seal_closeOnce(2) [OF s i]
  have it: "?i < length (tm_allocs t)" using i co by simp
  have l2: "length (tm_allocs t2) = length (tm_allocs t)"
    using rn by (auto simp: renameToName_def Let_def split: if_splits)
  have sp: "spends (fb_temp b) t" "spends (fb_temp b) t2"
    using spends_seal [OF i s] spends_rename [OF it rn] spends_trans by blast+
  have "in_bounds b t" "in_bounds b t2"
    using in_bounds_more [OF bounded [OF b]] co l2 by simp_all
  with sp p s rn bounded [OF b] show ?thesis
    by (auto simp: prepareTargetTransfer_def Let_def split: if_splits option.splits)
qed

lemma handleFinish_spends:
  assumes b: "file_ok b"
  shows "spends (fb_temp b) (fb_temp (fst (handleFinish en frame b)))"
proof (cases "map_of (fb_uploads b) (ChannelID frame)")
  case (Some a)
  note a = table_okD(1) [OF file_okD(2) [OF b] Some] and bd = bounded [OF b]
  obtain ok b' where p: "prepareTargetTransfer en a b = (ok, b')" by (metis prod.collapse)
  note ps = prepare_spends [OF b a p]
  then have "\<not> ok \<Longrightarrow> spends (fb_temp b) (fb_temp (fst (failUpload k c e m b')))" for k c e m
    using spends_trans spends_reject(3) by blast
  then show ?thesis
    using Some p ps spends_reject(3) [OF bd] by (auto simp: handleFinish_def Let_def split: bool.splits)
qed (use spends_reject(3) [OF bounded [OF b]] in \<open>simp add: handleFinish_def Let_def\<close>)

lemma in_bounds_cong [simp]:
  "in_bounds (file_emit l b) t = in_bounds b t" "in_bounds (stop_task k b) t = in_bounds b t"
  "in_bounds (start_task k p b) t = in_bounds b t"
  by (simp_all add: in_bounds_def)

lemma runs_spend:
  assumes b: "file_ok b"
  shows "spends (fb_temp b) (fb_temp (runTargetUpload_open ok1 ok2 result a b))"
    "spends (fb_temp b) (fb_temp (runTargetUpload_read ok ok1 ok2 payload readErr seen a b))"
    "spends (fb_temp b) (fb_temp (runTargetDownload_open ok1 ok2 result a b))"
    "spends (fb_temp b) (fb_temp (sendDownloadData_open openOK ok1 ok2 a b))"
    "spends (fb_temp b) (fb_temp (sendDownloadData_chunk readOK ok ok1 ok2 index a b))"
    "spends (fb_temp b) (fb_temp (fst (handleRecvFinish en frame a b)))"
    "spends (fb_temp b) (fb_temp (fst (handleRecvBegin en frame b)))"
  using spends_finish [OF bounded [OF b]] spends_finish [of "file_emit l b" for l] bounded [OF b]
  by (simp_all add: runTargetUpload_open_def runTargetUpload_read_def runTargetDownload_open_def
      sendDownloadData_open_def sendDownloadData_chunk_def handleRecvFinish_def handleRecvBegin_def
      spends_reject(1) Let_def split: open_result.split option.split target_end.split sum.split)

lemma setSize_spends:
  assumes b: "file_ok b" and r: "map_of (fb_running b) (DownloadRun a) = Some p"
    and n: "0 \<le> n" "n \<le> fb_maxFileBytes b"
  shows "spends (fb_temp b) (fb_temp (setSize n a b)) \<and> in_bounds (setSize n a b) (fb_temp (setSize n a b))"
proof
  let ?i = "fd_allocation (fb_down b ! a)"
  have t: "a < length (fb_down b)" "\<not> ss_closed (fb_down b ! a) \<Longrightarrow> al_size (al_at (fb_temp b) ?i) = fb_maxFileBytes b"
    using file_okD(9) [OF b r] by simp_all
  have d: "download_ok (fb_temp b) (fb_maxFileBytes b) (fb_down b ! a)" by (rule file_okD(7) [OF b t(1)])
  show "spends (fb_temp b) (fb_temp (setSize n a b))"
    using d t(2) n spends_settle [of ?i "fb_temp b" n] by (auto simp: setSize_def Let_def download_ok_def)
  have "length (tm_allocs (settle ?i n (fb_temp b))) = length (tm_allocs (fb_temp b))"
    by (simp add: settle_def Let_def)
  with bounded [OF b] t(1) show "in_bounds (setSize n a b) (fb_temp (setSize n a b))"
    by (auto simp: in_bounds_def setSize_def Let_def nth_list_update)
qed

lemma finish_download_spends:
  assumes b: "file_ok b" and r: "map_of (fb_running b) (DownloadRun a) = Some (FileCollecting target out)"
  shows "spends (fb_temp b) (fb_temp (runTargetDownload_finish ok ok1 ok2 deadline statOK target output a b))"
proof -
  define b' where "b' = file_emit [TargetClosed target] b"
  have b1: "file_ok b'" and t: "fb_temp b = fb_temp b'" and d: "fb_down b ! a = fb_down b' ! a"
    and r1: "map_of (fb_running b') (DownloadRun a) = Some (FileCollecting target out)"
    using b r by (simp_all add: b'_def file_emit_ok)
  note e = spends_finish(2) [OF bounded [OF b1]]
  have s: "spends (fb_temp b') (fb_temp (setSize (int k) a b'))"
    "in_bounds (setSize (int k) a b') (fb_temp (setSize (int k) a b'))" if "int k \<le> fb_maxFileBytes b'" for k
    using setSize_spends [OF b1 r1 _ that] by simp_all
  have s2: "spends (fb_temp b') (fb_temp (endDownload ok1 ok2 a m (setSize (int k) a b')))"
    if "int k \<le> fb_maxFileBytes b'" for k m
    using spends_trans [OF s(1) [OF that] spends_finish(2) [OF s(2) [OF that]]] .
  show ?thesis
    unfolding t runTargetDownload_finish_def Let_def d b'_def [symmetric]
    using e s(1) s2 by (simp add: not_less)
qed

lemma close_folds_spend:
  "\<forall>a \<in> set us. fu_allocation (fb_up b ! a) < length (tm_allocs (fb_temp b)) \<Longrightarrow>
    spends (fb_temp b) (fb_temp (fold upload_close us b))
    \<and> length (tm_allocs (fb_temp (fold upload_close us b))) = length (tm_allocs (fb_temp b))"
proof (induction us arbitrary: b)
  case (Cons a us)
  have one: "spends (fb_temp b) (fb_temp (upload_close a b))"
    "length (tm_allocs (fb_temp (upload_close a b))) = length (tm_allocs (fb_temp b))"
    using Cons.prems spends_close by (simp_all add: upload_close_def Let_def)
  have "fu_allocation (fb_up (upload_close a b) ! x) = fu_allocation (fb_up b ! x)" for x
    by (cases "x = a"; cases "a < length (fb_up b)") (simp_all add: upload_close_sel list_update_beyond)
  with Cons one show ?case using spends_trans [OF one(1)] by simp
qed simp

lemma close_down_folds_spend:
  "\<forall>a \<in> set ds. fd_allocation (fb_down b ! a) < length (tm_allocs (fb_temp b)) \<Longrightarrow>
    spends (fb_temp b) (fb_temp (fold download_close ds b))"
proof (induction ds arbitrary: b)
  case (Cons a ds)
  have one: "spends (fb_temp b) (fb_temp (download_close a b))"
    "length (tm_allocs (fb_temp (download_close a b))) = length (tm_allocs (fb_temp b))"
    using Cons.prems spends_close by (simp_all add: download_close_def Let_def)
  have "fd_allocation (fb_down (download_close a b) ! x) = fd_allocation (fb_down b ! x)" for x
    by (cases "x = a"; cases "a < length (fb_down b)") (simp_all add: download_close_sel list_update_beyond)
  with Cons one show ?case using spends_trans [OF one(1)] by simp
qed simp

lemma close_spends:
  assumes b: "file_ok b"
  shows "spends (fb_temp b) (fb_temp (file_Close b))"
proof (cases "fb_closed b")
  case False
  let ?b = "b\<lparr>fb_closed := True, fb_uploads := [], fb_downloads := []\<rparr>"
  let ?b1 = "fold upload_close (map snd (fb_uploads b)) ?b"
  have "\<forall>a \<in> set (map snd (fb_uploads b)). a < length (fb_up b)"
    "\<forall>a \<in> set (map snd (fb_downloads b)). a < length (fb_down b)"
    using file_okD(2,3) [OF b] by (simp_all add: table_ok_def)
  then have u: "\<forall>a \<in> set (map snd (fb_uploads b)). fu_allocation (fb_up ?b ! a) < length (tm_allocs (fb_temp ?b))"
    and d: "\<forall>a \<in> set (map snd (fb_downloads b)). fd_allocation (fb_down ?b ! a) < length (tm_allocs (fb_temp ?b))"
    using file_okD(6,7) [OF b] by (simp_all add: upload_ok_def download_ok_def)
  note one = close_folds_spend [OF u]
  have "spends (fb_temp ?b1) (fb_temp (fold download_close (map snd (fb_downloads b)) ?b1))"
    by (rule close_down_folds_spend) (use one d in \<open>simp add: fold_upload_sel\<close>)
  then have "spends (fb_temp ?b) (fb_temp (fold download_close (map snd (fb_downloads b)) ?b1))"
    by (rule spends_trans [OF conjunct1 [OF one]])
  then show ?thesis using False by (simp add: file_Close_def)
qed (simp add: file_Close_def)

lemma handle_spends:
  assumes b: "file_ok b"
  shows "spends (fb_temp b) (fb_temp (fst (file_Handle en frame b)))"
  using handleCheck_spends [OF b] handleRecvInit_spends [OF b] handleData_spends [OF b]
    handleFinish_spends [OF b] runs_spend(6,7) [OF b] spends_reject(2) [OF bounded [OF b]]
  by (simp add: file_Handle_def Let_def spends_reject(1) split: option.split)

lemma session_close_spends:
  assumes b: "file_ok b"
  shows "a < length (fb_up b) \<Longrightarrow> spends (fb_temp b) (fb_temp (upload_close a b))"
    "a < length (fb_down b) \<Longrightarrow> spends (fb_temp b) (fb_temp (download_close a b))"
  using file_okD(6,7) [OF b, of a] spends_close
  by (auto simp: upload_close_def download_close_def Let_def upload_ok_def download_ok_def)

lemma bridge_step_spends:
  assumes b: "file_ok b" and s: "bridge_step b b'"
  shows "spends (fb_temp b) (fb_temp b')"
  using s
proof cases
  case (handles en frame)
  then show ?thesis by (simp add: handle_spends [OF b])
next
  case (closes_channel c)
  have "file_ok (drop_upload c None b)" by (rule drop_upload_ok [OF b])
  from spends_trans [OF spends_drop_upload [OF bounded [OF b]] spends_drop_download [OF bounded [OF this]]]
  show ?thesis unfolding closes_channel file_CloseChannel_def .
next
  case (upload_times_out a seen)
  then have "a < length (fb_up b)" using file_okD(9) [OF b] by force
  then show ?thesis using session_close_spends(1) [OF b] upload_times_out by simp
next
  case (download_times_out a target out)
  then have "a < length (fb_down b)" using file_okD(9) [OF b] by force
  then show ?thesis using session_close_spends(2) [OF b] download_times_out by simp
next
  case (download_watched a target out statOK)
  then have "a < length (fb_down b)" using file_okD(9) [OF b] by force
  then show ?thesis
    using session_close_spends(2) [OF b] download_watched
    by (simp add: watchTempFileSize_def split: option.split)
next
  case (download_written a target out data)
  then show ?thesis by (simp add: device_writes_def spends_outside)
next
  case (download_reads a target out payload ended ok ok1 ok2 deadline statOK)
  then show ?thesis
    by (simp add: runTargetDownload_read_def Let_def finish_download_spends [OF b])
qed (simp_all add: close_spends [OF b] runs_spend [OF b])

text \<open>The file bridge and the temporary store compose: every step of a bridge is a run of the store's
  locked sections, so with any number of other reservations outstanding the store's count
  stays exact and within its limit when the bridge makes a step, and what the bridge takes
  is taken through the store's contract.\<close>

theorem file_bridge_respects_quota:
  assumes "NewTempStore abs_path mkdirOK root limit = Inr s"
    and "temp_steps (idle_run \<lparr>tm_store = s, tm_allocs = [], tm_disk = d\<rparr> {#}) (idle_run (fb_temp b) owed)"
    and "files_ok t" "file_steps (NewFileBridge canOpen mx t) b" "bridge_step b b'"
  shows "ts_usedBytes (tm_store (fb_temp b')) = sum_mset (holdings (idle_run (fb_temp b') owed))
    \<and> ts_usedBytes (tm_store (fb_temp b')) \<le> limit
    \<and> (ledger_step limit)\<^sup>*\<^sup>* (holdings (idle_run (fb_temp b) owed)) (holdings (idle_run (fb_temp b') owed))"
proof -
  have new: "ledger_agrees (idle_run \<lparr>tm_store = s, tm_allocs = [], tm_disk = d\<rparr> {#})" "ts_maxBytes s = limit"
    by (rule NewTempStore_agrees [OF assms(1)])+
  have ok: "file_ok b" by (rule file_reachable_ok [OF assms(3,4)])
  have run: "temp_steps (idle_run (fb_temp b) owed) (idle_run (fb_temp b') owed)"
    using bridge_step_spends [OF ok assms(5)] by (simp add: spends_def)
  from steps_refine [OF assms(2) new(1)] new(2)
  have b: "ledger_agrees (idle_run (fb_temp b) owed)" "ts_maxBytes (tm_store (fb_temp b)) = limit"
    by (simp_all add: idle_run_def)
  from steps_refine [OF run b(1)] b(2) show ?thesis
    by (simp add: ledger_agrees_def) (simp add: idle_run_def)
qed

end
