(* ===== verification/File_Witnesses.thy ===== *)
theory File_Witnesses
  imports File_Properties
begin

text \<open>A small run of the file bridge, evaluated step by step: an upload of two bytes that is accepted,
  handed to the main HDC server and finished while the bridge closes. The properties of
  \<open>File_Properties\<close> are applied to it.\<close>

definition calm :: "string option \<Rightarrow> file_env" where
  "calm mk = \<lparr>fe_writeOK = (\<lambda>_. True), fe_mkdir = mk, fe_openOK = True, fe_short = None,
     fe_syncOK = True, fe_closeOK = True, fe_renameOK = True\<rparr>"

definition file_frame :: "Command \<Rightarrow> bytes \<Rightarrow> Frame" where
  "file_frame flag payload = \<lparr>ChannelID = 7, CommandFlag = flag, CommandName = [], CheckSum = 0,
     VCode = 9, Payload = payload\<rparr>"

definition demo_file0 :: FileBridge where
  "demo_file0 = NewFileBridge True 60 demo_store"

definition demo_file1 :: FileBridge where
  "demo_file1 = fst (file_Handle (calm (Some ''/tmp/hdc/a'')) (file_frame CommandFileCheck
     (EncodeTransferConfig (zero_config\<lparr>tc_FileSize := 2, tc_Path := ''/data/x''\<rparr>))) demo_file0)"

definition demo_data :: Frame where
  "demo_data = file_frame CommandFileData (case EncodeTransferData \<lparr>tp_Index = 0,
     tp_Compression = 0, tp_CompressedSize = 2, tp_UncompressedSize = 2\<rparr> [5, 6] of Inr p \<Rightarrow> p | Inl _ \<Rightarrow> [])"

definition demo_file2 :: FileBridge where
  "demo_file2 = fst (file_Handle (calm None) demo_data demo_file1)"

definition demo_file3 :: FileBridge where
  "demo_file3 = fst (file_Handle (calm None) (file_frame CommandFileFinish [0]) demo_file2)"

definition demo_file4 :: FileBridge where
  "demo_file4 = runTargetUpload_open True True (Opened 1) 0 demo_file3"

definition demo_file5 :: FileBridge where
  "demo_file5 = runTargetUpload_read True True True [] (Some EndClosed) False 0 (file_Close demo_file4)"

lemma demo_store_files: "files_ok demo_store"
  by (simp add: files_ok_def demo_store_def)

lemma demo_dir: "fresh_dir ''/tmp/hdc/a'' demo_store"
proof -
  have "in_root (tm_store demo_store) ''/tmp/hdc/a''"
    unfolding in_root_def by (rule exI [of _ "''a''"]) (simp add: demo_store_def)
  then show ?thesis by (simp add: fresh_dir_def demo_store_def)
qed

lemma demo_first: "bridge_step demo_file0 demo_file1"
  unfolding demo_file1_def
  by (rule bridge_step.handles) (simp add: calm_def demo_file0_def NewFileBridge_def demo_dir)

lemma demo_handled: "file_steps demo_file0 demo_file3"
proof -
  have "file_step demo_file0 demo_file1" by (rule file_step.own_step [OF demo_first])
  moreover have "file_step demo_file1 demo_file2"
    unfolding demo_file2_def by (intro file_step.own_step bridge_step.handles) (simp add: calm_def)
  moreover have "file_step demo_file2 demo_file3"
    unfolding demo_file3_def by (intro file_step.own_step bridge_step.handles) (simp add: calm_def)
  ultimately show ?thesis by simp
qed

lemma demo_stage: "map_of (fb_running demo_file3) (UploadRun 0) = Some FileOpening"
  "\<not> ss_closed (fb_up demo_file3 ! 0)" "fb_canOpen demo_file3"
  by code_simp+

lemma upload_sends_exact_bytes_witness:
  "file_content (currentPath 0 (fb_temp demo_file3)) (fb_temp demo_file3) = [5, 6]"
proof -
  have "stored_bytes 0 (fb_log demo_file3) = [5, 6]" "fu_allocation (fb_up demo_file3 ! 0) = 0" by code_simp+
  with upload_sends_exact_bytes [OF demo_store_files demo_handled [unfolded demo_file0_def] demo_stage]
  show ?thesis by (simp add: Let_def)
qed

lemma data_frame_extends_upload_witness:
  "stored_bytes 0 (fb_log (fst (handleData (calm None) demo_data demo_file1))) = [5, 6]"
proof -
  have run: "file_steps (NewFileBridge True 60 demo_store) demo_file1"
    using file_step.own_step [OF demo_first] unfolding demo_file0_def by blast
  have old: "stored_bytes 0 (fb_log demo_file1) = []" by code_simp
  have new: "stored_bytes 0 (fb_log (fst (handleData (calm None) demo_data demo_file1))) \<noteq> []" by code_simp
  have dec: "map_sum id snd (DecodeTransferData (Payload demo_data)
    (of_int (min (fb_maxFileBytes demo_file1) (2 ^ 32 - 1)))) = Inr [5, 6]" by code_simp
  from data_frame_extends_upload [OF demo_store_files run, where a = 0 and en = "calm None" and frame = demo_data]
  show ?thesis using old new dec by (auto simp: Let_def)
qed

lemma file_close_leaves_nothing_witness:
  "1 \<in> opened_targets (fb_log demo_file5) \<and> 1 \<in> closed_targets (fb_log demo_file5)
   \<and> al_closeOnce (al_at (fb_temp demo_file5) 0)"
proof -
  have "file_step demo_file3 demo_file4"
    unfolding demo_file4_def by (intro file_step.own_step bridge_step.upload_opens demo_stage)
  moreover have "file_step demo_file4 (file_Close demo_file4)"
    by (intro file_step.own_step bridge_step.closes_bridge)
  moreover have "map_of (fb_running (file_Close demo_file4)) (UploadRun 0) = Some (FileReading False)" by code_simp
  then have "file_step (file_Close demo_file4) demo_file5"
    unfolding demo_file5_def by (intro file_step.own_step bridge_step.upload_reads)
  ultimately have run: "file_steps (NewFileBridge True 60 demo_store) demo_file5"
    using demo_handled unfolding demo_file0_def by simp
  have st: "fb_closed demo_file5" "fb_running demo_file5 = []" "own_allocations demo_file5 = [0]" by code_simp+
  have "list_ex (\<lambda>e. e = TargetOpened 1 ''file send /tmp/hdc/a/payload /data/x'') (fb_log demo_file5)"
    by code_simp
  then have "1 \<in> opened_targets (fb_log demo_file5)" by (auto simp: opened_targets_def list_ex_iff)
  with file_close_leaves_nothing [OF demo_store_files run st(1,2)] st(3) show ?thesis by auto
qed

definition demo_replay :: FileBridge where
  "demo_replay = demo_file0\<lparr>fb_temp := demo_store\<lparr>tm_disk := [(''/tmp/hdc/b/payload'', [1, 2, 3])],
       tm_allocs := [\<lparr>al_directory = ''/tmp/hdc/b'', al_path = ''/tmp/hdc/b/payload'', al_file = None,
         al_size = 3, al_released = False, al_closeOnce = False\<rparr>]\<rparr>,
     fb_down := [\<lparr>ss_channelID = 9, ss_target = None, ss_closed = False, fd_devicePath = ''/data/x'',
       fd_optionalName = ''x'', fd_userPath = ''x'', fd_allocation = 0, fd_fileSize = 3, fd_sending = True\<rparr>],
     fb_running := [(SendRun 0, Replaying 0)]\<rparr>"

lemma replay_delivers_the_file_witness: "\<exists>ps. receive_all 61440 [] ps = Some [1, 2, 3]"
proof -
  have r: "map_of (fb_running demo_replay) (SendRun 0) = Some (Replaying 0)" "\<not> ss_closed (fb_down demo_replay ! 0)"
    by (simp_all add: demo_replay_def)
  have "file_content (currentPath (fd_allocation (fb_down demo_replay ! 0)) (fb_temp demo_replay)) (fb_temp demo_replay) = [1, 2, 3]"
    by code_simp
  with replay_delivers_the_file [OF r] show ?thesis by auto
qed

lemma file_bridge_respects_quota_witness: "ts_usedBytes (tm_store (fb_temp demo_file1)) \<le> 100"
proof -
  have new: "NewTempStore (\<lambda>_. Some ''/tmp/hdc'') True ''hdc'' 100 = Inr (tm_store demo_store)" by code_simp
  have "demo_store = \<lparr>tm_store = tm_store demo_store, tm_allocs = [], tm_disk = []\<rparr>" by (simp add: demo_store_def)
  then have run: "temp_steps (idle_run \<lparr>tm_store = tm_store demo_store, tm_allocs = [], tm_disk = []\<rparr> {#})
      (idle_run (fb_temp demo_file0) {#})"
    by (simp add: demo_file0_def NewFileBridge_def)
  have "file_steps (NewFileBridge True 60 demo_store) demo_file0" by (simp add: demo_file0_def)
  from file_bridge_respects_quota [OF new run demo_store_files this demo_first] show ?thesis by simp
qed

end
