(* ===== verification/Forward_Commands.thy ===== *)
theory Forward_Commands
  imports Bridge_Common
begin

text \<open>
  The texts of the forward bridge (\<^verbatim>\<open>internal/bridge/forward.go\<close> and
  \<^verbatim>\<open>forward_reverse.go\<close>): the payload of a forward frame, the checks on endpoints, the
  request of a reverse forward, and the four commands that are sent to the main HDC server.
  An endpoint comes from the client and is put into a command that the server splits at white
  space; the theorems say that an accepted endpoint is always one word of it.
\<close>

section \<open>Messages and payloads\<close>

definition failForwardInvalidRequest :: string where
  "failForwardInvalidRequest = ''[Fail] Forward request is invalid.''"

definition failForwardUnsupported :: string where
  "failForwardUnsupported = ''[Fail] Forward type is not supported.''"

definition failForwardSetup :: string where
  "failForwardSetup = ''[Fail] Forward setup failed.''"

definition failForwardNoResult :: string where
  "failForwardNoResult = ''[Fail] Forward setup did not return a result.''"

definition failForwardTimeout :: string where
  "failForwardTimeout = ''[Fail] Forward setup timed out.''"

definition decodeForwardData :: "bytes \<Rightarrow> string + u32 \<times> bytes" where
  "decodeForwardData payload =
     (if length payload < 4 then Inl failForwardInvalidRequest
      else Inr (get_be32 (take 4 payload), drop 4 payload))"

text \<open>\<open>None\<close> stands for the code's \<open>-1\<close>.\<close>

fun bytesIndex :: "bytes \<Rightarrow> byte \<Rightarrow> nat option" where
  "bytesIndex [] v = None"
| "bytesIndex (x # xs) v = (if x = v then Some 0 else map_option Suc (bytesIndex xs v))"

definition encodeForwardFrame :: "u32 \<Rightarrow> Command \<Rightarrow> u32 \<Rightarrow> bytes \<Rightarrow> bytes" where
  "encodeForwardFrame channelID command contextID data =
     EncodeFrame channelID command (put_be32 contextID @ data)"

definition encodeForwardEndpointFrame :: "u32 \<Rightarrow> Command \<Rightarrow> u32 \<Rightarrow> string \<Rightarrow> bytes" where
  "encodeForwardEndpointFrame channelID command contextID endpoint =
     encodeForwardFrame channelID command contextID (replicate 8 0 @ bytes_of endpoint @ [0])"

section \<open>Endpoints\<close>

text \<open>The code ranges over runes. A byte above 127 belongs to a rune outside the set, so the check
  on bytes decides the same.\<close>

definition isSocketEndpointRune :: "char \<Rightarrow> bool" where
  "isSocketEndpointRune v \<longleftrightarrow> (CHR ''a'' \<le> v \<and> v \<le> CHR ''z'') \<or> (CHR ''A'' \<le> v \<and> v \<le> CHR ''Z'')
     \<or> is_digit v \<or> v \<in> set ''_.-/''"

definition validateSocketEndpointContent :: "string \<Rightarrow> string option" where
  "validateSocketEndpointContent content =
     (if content = [] \<or> has_prefix content ''-'' then Some failForwardInvalidRequest
      else if list_all isSocketEndpointRune content then None else Some failForwardInvalidRequest)"

definition allowedSocketSchemas :: "string list" where
  "allowedSocketSchemas = [''localabstract:'', ''localreserved:'', ''localfilesystem:'']"

fun check_schemas :: "string list \<Rightarrow> string \<Rightarrow> string option" where
  "check_schemas [] endpoint = Some failForwardUnsupported"
| "check_schemas (schema # rest) endpoint =
     (case cut_prefix endpoint schema of
        Some content \<Rightarrow> validateSocketEndpointContent content
      | None \<Rightarrow> check_schemas rest endpoint)"

text \<open>The message of the error, or \<open>None\<close>.\<close>

definition validateForwardEndpoint :: "string \<Rightarrow> string option" where
  "validateForwardEndpoint endpoint =
     (if endpoint = [] \<or> 512 < length endpoint then Some failForwardUnsupported
      else case cut_prefix endpoint ''tcp:'' of
        Some content \<Rightarrow>
          (case atoi content of None \<Rightarrow> Some failForwardInvalidRequest
           | Some port \<Rightarrow> if port \<le> 0 \<or> 65535 < port then Some failForwardInvalidRequest else None)
      | None \<Rightarrow> check_schemas allowedSocketSchemas endpoint)"

definition decodeForwardEndpoint :: "bytes \<Rightarrow> string + u32 \<times> string" where
  "decodeForwardEndpoint payload =
     (case decodeForwardData payload of Inl message \<Rightarrow> Inl message
      | Inr (contextID, data) \<Rightarrow>
          if length data \<le> 8 then Inl failForwardInvalidRequest
          else if list_ex (\<lambda>v. v \<noteq> 0) (take 8 data) then Inl failForwardInvalidRequest
          else let endpointBytes = drop 8 data; zero = bytesIndex endpointBytes 0
            in if (case zero of None \<Rightarrow> False
                   | Some i \<Rightarrow> list_ex (\<lambda>v. v \<noteq> 0) (drop (Suc i) endpointBytes))
               then Inl failForwardInvalidRequest
               else let endpoint = string_of (case zero of None \<Rightarrow> endpointBytes | Some i \<Rightarrow> take i endpointBytes)
                 in case validateForwardEndpoint endpoint of
                      Some message \<Rightarrow> Inl message | None \<Rightarrow> Inr (contextID, endpoint))"

definition validReverseEndpoint :: "string \<Rightarrow> bool" where
  "validReverseEndpoint endpoint \<longleftrightarrow> validateForwardEndpoint endpoint = None"

definition parseReverseCommand :: "bytes \<Rightarrow> string + string \<times> string" where
  "parseReverseCommand payload =
     (let text = string_of payload; fields = str_fields text
      in if contains_any text [CHR 0x00, CHR 0x0D, CHR 0x0A] then Inl failForwardInvalidRequest
         else if length fields \<noteq> 2 then Inl failForwardInvalidRequest
         else if \<not> validReverseEndpoint (fields ! 0) \<or> \<not> validReverseEndpoint (fields ! 1)
         then Inl failForwardUnsupported
         else Inr (fields ! 0, fields ! 1))"

text \<open>The id of a context: four random bytes, when there are any.\<close>

definition randomContextID :: "bytes option \<Rightarrow> u32" where
  "randomContextID buffer =
     (case buffer of None \<Rightarrow> 1
      | Some b \<Rightarrow> let v = get_be32 b in if v = 0 then 1 else v)"

section \<open>Commands\<close>

definition fport_command :: "nat \<Rightarrow> string \<Rightarrow> string" where
  "fport_command localPort endpoint = ''fport tcp:'' @ itoa_nat localPort @ '' '' @ endpoint"

definition fport_rm_command :: "nat \<Rightarrow> string \<Rightarrow> string" where
  "fport_rm_command localPort endpoint = ''fport rm tcp:'' @ itoa_nat localPort @ '' '' @ endpoint"

definition rport_command :: "string \<Rightarrow> nat \<Rightarrow> string" where
  "rport_command deviceEndpoint gatewayPort = ''rport '' @ deviceEndpoint @ '' tcp:'' @ itoa_nat gatewayPort"

definition rport_rm_command :: "string \<Rightarrow> nat \<Rightarrow> string" where
  "rport_rm_command deviceEndpoint gatewayPort =
     ''fport rm '' @ deviceEndpoint @ '' tcp:'' @ itoa_nat gatewayPort"

section \<open>Words\<close>

definition plain_word :: "string \<Rightarrow> bool" where
  "plain_word w \<longleftrightarrow> w \<noteq> [] \<and> list_all ascii_solid w"

lemma space_len_solid: "ascii_solid c \<Longrightarrow> space_len (c # s) = 0"
proof -
  assume c: "ascii_solid c"
  have "\<not> has_prefix (c # s) p" if "p \<in> set space_runes" for p
    using that space_runes_ends c by (auto simp: list_all_iff has_prefix_def neq_Nil_conv)
  then have "find (has_prefix (c # s)) space_runes = None" by (auto simp: find_None_iff)
  then show ?thesis by (simp add: space_len_def)
qed

lemma space_len_blank: "space_len (CHR '' '' # s) = 1"
  by (simp add: space_len_def space_runes_def has_prefix_def)

lemma fields_aux_solid:
  "list_all ascii_solid w \<Longrightarrow> fields_aux cur (w @ s) = fields_aux (cur @ w) s"
  by (induction w arbitrary: cur) (simp_all add: space_len_solid)

lemma str_fields_word:
  "plain_word w \<Longrightarrow> str_fields (w @ CHR '' '' # s) = w # str_fields s"
  unfolding str_fields_def plain_word_def by (simp add: fields_aux_solid space_len_blank)

lemma str_fields_last: "plain_word w \<Longrightarrow> str_fields w = [w]"
  unfolding str_fields_def plain_word_def using fields_aux_solid [of w "[]" "[]"] by simp

lemma plain_append: "plain_word v \<Longrightarrow> list_all ascii_solid w \<Longrightarrow> plain_word (v @ w)"
  by (simp add: plain_word_def)

lemma plain_number: "plain_word (itoa_nat n)"
  using itoa_nat_digits [of n] ascii_solid_digit by (auto simp: plain_word_def list_all_iff)

lemma plain_tcp: "plain_word (''tcp:'' @ itoa_nat n)"
  using plain_number [of n] by (simp add: plain_word_def ascii_solid_def is_space_def)

section \<open>What an accepted endpoint looks like\<close>

lemma solid_endpoint_rune: "isSocketEndpointRune c \<Longrightarrow> ascii_solid c \<and> c \<noteq> CHR 0x00"
  by (auto simp: isSocketEndpointRune_def is_digit_def ascii_solid_def is_space_def less_eq_char_def)

lemma atoi_chars:
  "atoi s = Some v \<Longrightarrow> s \<noteq> [] \<and> list_all (\<lambda>c. is_digit c \<or> c = CHR ''-'' \<or> c = CHR ''+'') s"
  by (cases s) (auto simp: atoi_def Let_def list_all_iff split: if_splits)

lemma solid_number: "atoi s = Some v \<Longrightarrow> list_all ascii_solid s \<and> CHR 0x00 \<notin> set s"
proof -
  have d: "ascii_solid c \<and> c \<noteq> CHR 0x00" if "is_digit c \<or> c = CHR ''-'' \<or> c = CHR ''+''" for c
    using that by (auto simp: is_digit_def ascii_solid_def is_space_def less_eq_char_def)
  assume "atoi s = Some v"
  then have "\<And>c. c \<in> set s \<Longrightarrow> is_digit c \<or> c = CHR ''-'' \<or> c = CHR ''+''"
    using atoi_chars by (simp add: list_all_iff)
  then have "\<And>c. c \<in> set s \<Longrightarrow> ascii_solid c \<and> c \<noteq> CHR 0x00" by (intro d)
  then show ?thesis unfolding list_all_iff by metis
qed

lemma solid_content:
  "validateSocketEndpointContent s = None \<Longrightarrow> list_all ascii_solid s \<and> CHR 0x00 \<notin> set s"
  using solid_endpoint_rune by (auto simp: validateSocketEndpointContent_def list_all_iff split: if_splits)

lemma check_schemas_None:
  "check_schemas schemas endpoint = None \<Longrightarrow>
   \<exists>schema content. schema \<in> set schemas \<and> endpoint = schema @ content
     \<and> validateSocketEndpointContent content = None"
  by (induction schemas) (auto split: option.splits simp: cut_prefix_Some)

lemma valid_endpoint:
  assumes "validateForwardEndpoint endpoint = None"
  shows "plain_word endpoint" "CHR 0x00 \<notin> set endpoint" "\<not> has_prefix endpoint ''-''"
proof -
  consider content v where "endpoint = ''tcp:'' @ content" "atoi content = Some v"
    | schema content where "schema \<in> set allowedSocketSchemas" "endpoint = schema @ content"
        "validateSocketEndpointContent content = None"
    using assms check_schemas_None [of allowedSocketSchemas endpoint]
    by (auto simp: validateForwardEndpoint_def cut_prefix_Some split: if_splits option.splits)
  then have "plain_word endpoint \<and> CHR 0x00 \<notin> set endpoint \<and> \<not> has_prefix endpoint ''-''"
  proof cases
    case 1
    then show ?thesis
      using solid_number [OF 1(2)] by (simp add: plain_word_def ascii_solid_def is_space_def has_prefix_def)
  next
    case 2
    then show ?thesis
      using solid_content [OF 2(3)]
      by (auto simp: plain_word_def allowedSocketSchemas_def ascii_solid_def is_space_def has_prefix_def)
  qed
  then show "plain_word endpoint" "CHR 0x00 \<notin> set endpoint" "\<not> has_prefix endpoint ''-''" by simp_all
qed

lemma decodeForwardEndpoint_valid:
  "decodeForwardEndpoint payload = Inr (contextID, endpoint) \<Longrightarrow> validateForwardEndpoint endpoint = None"
  by (auto simp: decodeForwardEndpoint_def Let_def split: sum.splits prod.splits if_splits option.splits)

lemma parseReverseCommand_valid:
  assumes "parseReverseCommand payload = Inr (d, h)"
  shows "validateForwardEndpoint d = None" "validateForwardEndpoint h = None"
  using assms by (auto simp: parseReverseCommand_def Let_def validReverseEndpoint_def split: if_splits)

text \<open>The commands the bridge may send: their words, for an endpoint that was accepted.\<close>

definition forward_words :: "string list \<Rightarrow> bool" where
  "forward_words ws \<longleftrightarrow>
     (\<exists>port endpoint. validateForwardEndpoint endpoint = None \<and>
        (ws = [''fport'', ''tcp:'' @ itoa_nat port, endpoint]
         \<or> ws = [''fport'', ''rm'', ''tcp:'' @ itoa_nat port, endpoint]
         \<or> ws = [''rport'', endpoint, ''tcp:'' @ itoa_nat port]
         \<or> ws = [''fport'', ''rm'', endpoint, ''tcp:'' @ itoa_nat port]))"

lemma plain_verbs [simp]: "plain_word ''fport''" "plain_word ''rport''" "plain_word ''rm''"
  by (simp_all add: plain_word_def ascii_solid_def is_space_def)

lemma forward_command_words:
  assumes "validateForwardEndpoint e = None"
  shows "str_fields (fport_command p e) = [''fport'', ''tcp:'' @ itoa_nat p, e]"
    "str_fields (fport_rm_command p e) = [''fport'', ''rm'', ''tcp:'' @ itoa_nat p, e]"
    "str_fields (rport_command e p) = [''rport'', e, ''tcp:'' @ itoa_nat p]"
    "str_fields (rport_rm_command e p) = [''fport'', ''rm'', e, ''tcp:'' @ itoa_nat p]"
proof -
  note e = valid_endpoint(1) [OF assms]
  have "fport_command p e = ''fport'' @ CHR '' '' # (''tcp:'' @ itoa_nat p) @ CHR '' '' # e"
    "fport_rm_command p e = ''fport'' @ CHR '' '' # ''rm'' @ CHR '' '' # (''tcp:'' @ itoa_nat p) @ CHR '' '' # e"
    "rport_command e p = ''rport'' @ CHR '' '' # e @ CHR '' '' # (''tcp:'' @ itoa_nat p)"
    "rport_rm_command e p = ''fport'' @ CHR '' '' # ''rm'' @ CHR '' '' # e @ CHR '' '' # (''tcp:'' @ itoa_nat p)"
    by (simp_all add: fport_command_def fport_rm_command_def rport_command_def rport_rm_command_def)
  then show "str_fields (fport_command p e) = [''fport'', ''tcp:'' @ itoa_nat p, e]"
    "str_fields (fport_rm_command p e) = [''fport'', ''rm'', ''tcp:'' @ itoa_nat p, e]"
    "str_fields (rport_command e p) = [''rport'', e, ''tcp:'' @ itoa_nat p]"
    "str_fields (rport_rm_command e p) = [''fport'', ''rm'', e, ''tcp:'' @ itoa_nat p]"
    by (simp_all only: str_fields_word [OF plain_tcp] str_fields_word [OF plain_verbs(1)]
        str_fields_word [OF plain_verbs(2)] str_fields_word [OF plain_verbs(3)] str_fields_word [OF e]
        str_fields_last [OF e] str_fields_last [OF plain_tcp])
qed

lemma forward_command_forms:
  assumes "validateForwardEndpoint e = None"
  shows "forward_words (str_fields (fport_command p e))" "forward_words (str_fields (fport_rm_command p e))"
    "forward_words (str_fields (rport_command e p))" "forward_words (str_fields (rport_rm_command e p))"
  unfolding forward_command_words [OF assms] forward_words_def using assms by blast+

section \<open>Round trips\<close>

lemma bytesIndex_append: "v \<notin> set w \<Longrightarrow> bytesIndex (w @ v # s) v = Some (length w)"
  by (induction w) auto

lemma zero_byte: "0 \<in> set (bytes_of s) \<longleftrightarrow> CHR 0x00 \<in> set s"
proof -
  have z: "char_of_byte 0 = CHR 0x00" by code_simp
  have "byte_of c = 0 \<longleftrightarrow> c = CHR 0x00" for c
    using byte_of_char_of [of 0] char_of_byte_of [of c] z by metis
  then show ?thesis by (force simp: bytes_of_def)
qed

lemma decode_endpoint_payload:
  assumes "validateForwardEndpoint endpoint = None"
  shows "decodeForwardEndpoint (put_be32 contextID @ replicate 8 0 @ bytes_of endpoint @ [0])
    = Inr (contextID, endpoint)"
proof -
  have "0 \<notin> set (bytes_of endpoint)" using valid_endpoint(2) [OF assms] by (simp add: zero_byte)
  then have i: "bytesIndex (bytes_of endpoint @ [0]) 0 = Some (length endpoint)"
    using bytesIndex_append [of 0 "bytes_of endpoint" "[]"] by simp
  have "list_ex (\<lambda>v. v \<noteq> 0) (replicate 8 (0 :: byte)) = False" by (simp add: list_ex_iff)
  then show ?thesis
    using assms i by (simp add: decodeForwardEndpoint_def decodeForwardData_def)
qed

text \<open>What the bridge tells a client about an endpoint is understood as said. The frame that
  carries an endpoint is decoded by the receiving side to the channel, the command, the context
  and the endpoint it was made from, for every endpoint the bridge accepts, whatever its kind and
  up to the full 512 bytes.\<close>

theorem forward_endpoint_roundtrip:
  assumes "validateForwardEndpoint endpoint = None"
    and "int (length (encodeForwardEndpointFrame channelID command contextID endpoint)) \<le> maxFrameBytes"
  shows "\<exists>frame. Decode maxFrameBytes (encodeForwardEndpointFrame channelID command contextID endpoint)
      = Inr frame
    \<and> ChannelID frame = channelID \<and> CommandFlag frame = command
    \<and> decodeForwardEndpoint (Payload frame) = Inr (contextID, endpoint)"
proof -
  let ?p = "put_be32 contextID @ replicate 8 0 @ bytes_of endpoint @ [0]"
  have e: "encodeForwardEndpointFrame channelID command contextID endpoint = EncodeFrame channelID command ?p"
    by (simp add: encodeForwardEndpointFrame_def encodeForwardFrame_def)
  have "length endpoint \<le> 512"
    using assms(1) by (auto simp: validateForwardEndpoint_def split: if_splits)
  then have "length ?p < 2 ^ 32" by simp
  then show ?thesis
    using Decode_encode [of ?p channelID command maxFrameBytes] assms decode_endpoint_payload by (simp add: e)
qed

lemma forward_endpoint_roundtrip_witness:
  "\<exists>frame. Decode 100 (encodeForwardEndpointFrame 3 CommandForwardCheck 9 ''localabstract:x'') = Inr frame
    \<and> ChannelID frame = 3 \<and> CommandFlag frame = CommandForwardCheck
    \<and> decodeForwardEndpoint (Payload frame) = Inr (9, ''localabstract:x'')"
  by (rule forward_endpoint_roundtrip) code_simp+

text \<open>The request of a reverse forward is parsed to its two endpoints, whatever white space
  separates them; nothing else is accepted.\<close>

lemma parseReverseCommand_words:
  assumes "validateForwardEndpoint d = None" "validateForwardEndpoint h = None"
  shows "parseReverseCommand (bytes_of (d @ '' '' @ h)) = Inr (d, h)"
proof -
  note p = valid_endpoint(1) [OF assms(1)] valid_endpoint(1) [OF assms(2)]
  have ns: "c \<noteq> CHR 0x0D \<and> c \<noteq> CHR 0x0A" if "c \<in> set d \<union> set h" for c
    using that p by (auto simp: plain_word_def list_all_iff ascii_solid_def is_space_def)
  have "\<not> contains_any (d @ '' '' @ h) [CHR 0x00, CHR 0x0D, CHR 0x0A]"
    using ns valid_endpoint(2) [OF assms(1)] valid_endpoint(2) [OF assms(2)]
    by (auto simp: contains_any_iff)
  moreover have "str_fields (d @ '' '' @ h) = [d, h]"
    using p by (simp add: str_fields_word str_fields_last)
  ultimately show ?thesis
    using assms by (simp add: parseReverseCommand_def validReverseEndpoint_def)
qed

text \<open>The check on a port is that of \<^verbatim>\<open>strconv.Atoi\<close>, which takes a sign.\<close>

lemma signed_port_accepted: "validateForwardEndpoint ''tcp:+80'' = None"
  by code_simp

end
