(* ===== verification/Forward_Bridge.thy ===== *)
theory Forward_Bridge
  imports Forward_Commands
begin

text \<open>
  The bridge of the forward family (\<^verbatim>\<open>internal/bridge/forward.go\<close> and
  \<^verbatim>\<open>forward_reverse.go\<close>). A forward (fport) is set up on the main HDC server with a local port;
  each connection of the client becomes a context, a TCP connection to that port. A reverse
  forward (rport) listens on a local port that the server connects back to; each accepted
  connection is announced to the client.

  Bindings, contexts and reverse connections are shared objects and live in four heaps; the
  bridge's maps say which one a channel, or a channel and a context id, has. \<open>wb_running\<close> lists
  what the wait group of the code counts: the goroutine of a binding with the call it is in, a
  context from its dialling to the end of its read loop, accept loops, read loops of reverse
  connections and the timers of reverse checks. Frames and commands go to \<open>wb_log\<close>, sockets to
  \<open>wb_net\<close>. A handler is one step, except that the dialling of a context is a step of its own;
  handlers and the closing of a channel are called by one goroutine, the reader of the client
  connection. Each turn of a goroutine is one step.
\<close>

section \<open>Sockets\<close>

datatype net_effect =
    Listening nat
  | ListenerClosed nat
  | Dialled nat nat
  | Accepted nat
  | ConnWrote nat bytes
  | ConnClosed nat

definition opened_conns :: "net_effect list \<Rightarrow> nat set" where
  "opened_conns l = {c. Accepted c \<in> set l \<or> (\<exists>p. Dialled c p \<in> set l)}"

definition closed_conns :: "net_effect list \<Rightarrow> nat set" where
  "closed_conns l = {c. ConnClosed c \<in> set l}"

definition opened_listeners :: "net_effect list \<Rightarrow> nat set" where
  "opened_listeners l = {x. Listening x \<in> set l}"

definition closed_listeners :: "net_effect list \<Rightarrow> nat set" where
  "closed_listeners l = {x. ListenerClosed x \<in> set l}"

definition dialled_ports :: "net_effect list \<Rightarrow> nat set" where
  "dialled_ports l = {p. \<exists>c. Dialled c p \<in> set l}"

type_synonym forwardContextKey = "u32 \<times> u32"

text \<open>What a context and a reverse connection share: the body of \<open>close\<close> runs once.\<close>

record local_conn =
  lc_key :: forwardContextKey
  lc_conn :: "nat option"
  lc_closed :: bool

definition close_conn :: "'a local_conn_scheme \<Rightarrow> 'a local_conn_scheme" where
  "close_conn c = (if lc_closed c then c else c\<lparr>lc_closed := True, lc_conn := None\<rparr>)"

definition conn_effects :: "'a local_conn_scheme \<Rightarrow> net_effect list" where
  "conn_effects c = (if lc_closed c then [] else case lc_conn c of None \<Rightarrow> [] | Some n \<Rightarrow> [ConnClosed n])"

text \<open>Writing all of the data: \<open>short\<close> is how many bytes went out before a write failed.\<close>

definition local_write :: "nat option \<Rightarrow> bytes \<Rightarrow> 'a local_conn_scheme \<Rightarrow> bool \<times> net_effect list" where
  "local_write short data c =
     (if lc_closed c then (False, [])
      else case lc_conn c of None \<Rightarrow> (False, [])
      | Some n \<Rightarrow> if data = [] then (True, [])
          else case short of None \<Rightarrow> (True, [ConnWrote n data])
          | Some k \<Rightarrow> (False, [ConnWrote n (take k data)]))"

section \<open>Bindings\<close>

record forward_setup = target_session +
  fs_checkContextID :: u32
  fs_port :: nat
  fs_ready :: bool
  fs_outputSeen :: bool
  fs_outputError :: bool
  fs_output :: string

record forwardBinding = forward_setup +
  fw_remoteEndpoint :: string

record reverseBinding = forward_setup +
  rv_deviceEndpoint :: string
  rv_hostEndpoint :: string
  rv_listener :: nat
  rv_resolved :: bool

record forwardTCPContext = local_conn +
  cx_binding :: nat

record reverseConn = local_conn +
  rc_started :: bool

abbreviation (input) forwardOutputBytes :: nat where "forwardOutputBytes \<equiv> 4096"

definition failure_words :: "string \<Rightarrow> bool" where
  "failure_words lower \<longleftrightarrow> contains_str lower ''[fail]'' \<or> contains_str lower ''failed''
     \<or> contains_str lower ''error''"

definition recordOutput :: "bytes \<Rightarrow> 'a forward_setup_scheme \<Rightarrow> 'a forward_setup_scheme" where
  "recordOutput payload s =
     (if ss_closed s then s
      else let remaining = forwardOutputBytes - length (fs_output s);
               whole = string_of payload;
               text = (if 0 < remaining \<and> remaining < length whole then take remaining whole else whole)
        in s\<lparr>fs_outputSeen := True,
             fs_output := (if 0 < remaining then fs_output s @ text else fs_output s),
             fs_outputError := fs_outputError s \<or> failure_words (to_lower text)\<rparr>)"

definition setupSuccessful :: "'a forward_setup_scheme \<Rightarrow> bool" where
  "setupSuccessful s \<longleftrightarrow> fs_outputSeen s \<and> \<not> fs_outputError s
     \<and> contains_str (to_lower (fs_output s)) ''forwardport result:ok''"

definition markReady :: "'a forward_setup_scheme \<Rightarrow> 'a forward_setup_scheme option" where
  "markReady s = (if ss_closed s \<or> fs_ready s then None else Some (s\<lparr>fs_ready := True\<rparr>))"

definition isReady :: "'a forward_setup_scheme \<Rightarrow> bool" where
  "isReady s \<longleftrightarrow> fs_ready s \<and> \<not> ss_closed s"

section \<open>The bridge\<close>

datatype forward_task =
    FportRun nat
  | RportRun nat
  | ContextRun nat
  | AcceptRun nat
  | ReverseRun nat
  | CheckTimer nat

text \<open>Where a goroutine is: before opening its target, reading a target, waiting for the binding to
  close, draining the target of the removal command, dialling, or in a loop.\<close>

datatype forward_phase =
    ForwardOpening
  | ForwardReading nat
  | ForwardWaiting
  | ForwardDraining nat
  | ForwardDialling
  | ForwardLooping

record ForwardBridge =
  wb_canOpen :: bool
  wb_bindings :: "(u32, nat) gomap"
  wb_contexts :: "(forwardContextKey, nat) gomap"
  wb_reverseBindings :: "(u32, nat) gomap"
  wb_reverseConns :: "(forwardContextKey, nat) gomap"
  wb_closed :: bool
  wb_fport :: "forwardBinding list"
  wb_ctx :: "forwardTCPContext list"
  wb_rport :: "reverseBinding list"
  wb_rconn :: "reverseConn list"
  wb_running :: "(forward_task, forward_phase) gomap"
  wb_log :: bridge_log
  wb_net :: "net_effect list"

definition NewForwardBridge :: "bool \<Rightarrow> ForwardBridge" where
  "NewForwardBridge canOpen = \<lparr>wb_canOpen = canOpen, wb_bindings = [], wb_contexts = [],
     wb_reverseBindings = [], wb_reverseConns = [], wb_closed = False, wb_fport = [], wb_ctx = [],
     wb_rport = [], wb_rconn = [], wb_running = [], wb_log = [], wb_net = []\<rparr>"

definition forward_emit :: "bridge_log \<Rightarrow> ForwardBridge \<Rightarrow> ForwardBridge" where
  "forward_emit l b = b\<lparr>wb_log := wb_log b @ l\<rparr>"

definition net_emit :: "net_effect list \<Rightarrow> ForwardBridge \<Rightarrow> ForwardBridge" where
  "net_emit l b = b\<lparr>wb_net := wb_net b @ l\<rparr>"

definition put_fport :: "nat \<Rightarrow> forwardBinding \<Rightarrow> ForwardBridge \<Rightarrow> ForwardBridge" where
  "put_fport a s b = b\<lparr>wb_fport := (wb_fport b)[a := s]\<rparr>"

definition put_rport :: "nat \<Rightarrow> reverseBinding \<Rightarrow> ForwardBridge \<Rightarrow> ForwardBridge" where
  "put_rport a s b = b\<lparr>wb_rport := (wb_rport b)[a := s]\<rparr>"

definition set_task :: "forward_task \<Rightarrow> forward_phase \<Rightarrow> ForwardBridge \<Rightarrow> ForwardBridge" where
  "set_task k p b = b\<lparr>wb_running := AList.update k p (wb_running b)\<rparr>"

definition end_task :: "forward_task \<Rightarrow> ForwardBridge \<Rightarrow> ForwardBridge" where
  "end_task k b = b\<lparr>wb_running := AList.delete k (wb_running b)\<rparr>"

definition forward_reject :: "bool \<Rightarrow> u32 \<Rightarrow> string \<Rightarrow> ForwardBridge \<Rightarrow> ForwardBridge \<times> bool" where
  "forward_reject ok channelID message b =
     (forward_emit (sent ok (EncodeEchoAndClose channelID message)) b, \<not> ok)"

definition send_frame :: "bool \<Rightarrow> u32 \<Rightarrow> Command \<Rightarrow> u32 \<Rightarrow> bytes \<Rightarrow> ForwardBridge \<Rightarrow> ForwardBridge" where
  "send_frame ok channelID command contextID data b =
     forward_emit (sent ok (encodeForwardFrame channelID command contextID data)) b"

section \<open>Closing\<close>

definition context_close :: "bool \<Rightarrow> bool \<Rightarrow> nat \<Rightarrow> ForwardBridge \<Rightarrow> ForwardBridge" where
  "context_close notifyRemote ok a b =
     (let c = wb_ctx b ! a
      in if lc_closed c then b
         else (if notifyRemote then send_frame ok (fst (lc_key c)) CommandForwardFreeContext (snd (lc_key c)) []
               else id) (net_emit (conn_effects c) (b\<lparr>wb_ctx := (wb_ctx b)[a := close_conn c]\<rparr>)))"

definition reverse_close :: "bool \<Rightarrow> bool \<Rightarrow> nat \<Rightarrow> ForwardBridge \<Rightarrow> ForwardBridge" where
  "reverse_close notifyRemote ok a b =
     (let c = wb_rconn b ! a
      in if lc_closed c then b
         else (if notifyRemote then send_frame ok (fst (lc_key c)) CommandForwardFreeContext (snd (lc_key c)) []
               else id) (net_emit (conn_effects c) (b\<lparr>wb_rconn := (wb_rconn b)[a := close_conn c]\<rparr>)))"

definition fport_close :: "nat \<Rightarrow> ForwardBridge \<Rightarrow> ForwardBridge" where
  "fport_close a b =
     (let s = wb_fport b ! a
      in if ss_closed s then b else forward_emit (close_effects s) (put_fport a (close_session s) b))"

definition rport_close :: "nat \<Rightarrow> ForwardBridge \<Rightarrow> ForwardBridge" where
  "rport_close a b =
     (let s = wb_rport b ! a
      in if ss_closed s then b
         else net_emit [ListenerClosed (rv_listener s)]
           (forward_emit (close_effects s) (put_rport a (close_session s) b)))"

text \<open>Taking the contexts of a channel out of a map: what is taken, and what stays.\<close>

definition of_channel :: "u32 \<Rightarrow> (forwardContextKey, nat) gomap \<Rightarrow> nat list" where
  "of_channel channelID m = map snd (filter (\<lambda>(key, _). fst key = channelID) m)"

definition not_of_channel :: "u32 \<Rightarrow> (forwardContextKey, nat) gomap \<Rightarrow> (forwardContextKey, nat) gomap" where
  "not_of_channel channelID m = filter (\<lambda>(key, _). fst key \<noteq> channelID) m"

definition drop_contexts :: "u32 \<Rightarrow> ForwardBridge \<Rightarrow> ForwardBridge" where
  "drop_contexts channelID b = fold (context_close False False) (of_channel channelID (wb_contexts b))
     (b\<lparr>wb_contexts := not_of_channel channelID (wb_contexts b)\<rparr>)"

definition drop_reverses :: "u32 \<Rightarrow> ForwardBridge \<Rightarrow> ForwardBridge" where
  "drop_reverses channelID b = fold (reverse_close False False) (of_channel channelID (wb_reverseConns b))
     (b\<lparr>wb_reverseConns := not_of_channel channelID (wb_reverseConns b)\<rparr>)"

definition delete_if :: "'k \<Rightarrow> nat \<Rightarrow> ('k, nat) gomap \<Rightarrow> ('k, nat) gomap" where
  "delete_if k a m = (if map_of m k = Some a then AList.delete k m else m)"

definition removeBinding :: "nat \<Rightarrow> ForwardBridge \<Rightarrow> ForwardBridge" where
  "removeBinding a b =
     (let channelID = ss_channelID (wb_fport b ! a)
      in drop_contexts channelID (b\<lparr>wb_bindings := delete_if channelID a (wb_bindings b)\<rparr>))"

definition removeReverseBinding :: "nat \<Rightarrow> ForwardBridge \<Rightarrow> ForwardBridge" where
  "removeReverseBinding a b =
     (let channelID = ss_channelID (wb_rport b ! a)
      in drop_reverses channelID (b\<lparr>wb_reverseBindings := delete_if channelID a (wb_reverseBindings b)\<rparr>))"

definition removeContext :: "nat \<Rightarrow> ForwardBridge \<Rightarrow> ForwardBridge" where
  "removeContext a b = b\<lparr>wb_contexts := delete_if (lc_key (wb_ctx b ! a)) a (wb_contexts b)\<rparr>"

definition removeReverseConn :: "nat \<Rightarrow> ForwardBridge \<Rightarrow> ForwardBridge" where
  "removeReverseConn a b = b\<lparr>wb_reverseConns := delete_if (lc_key (wb_rconn b ! a)) a (wb_reverseConns b)\<rparr>"

definition forward_CloseChannel :: "u32 \<Rightarrow> ForwardBridge \<Rightarrow> ForwardBridge" where
  "forward_CloseChannel channelID b =
     (let binding = map_of (wb_bindings b) channelID;
          reverseBind = map_of (wb_reverseBindings b) channelID;
          contexts = of_channel channelID (wb_contexts b);
          reverses = of_channel channelID (wb_reverseConns b);
          b1 = b\<lparr>wb_bindings := AList.delete channelID (wb_bindings b),
                 wb_contexts := not_of_channel channelID (wb_contexts b),
                 wb_reverseBindings := AList.delete channelID (wb_reverseBindings b),
                 wb_reverseConns := not_of_channel channelID (wb_reverseConns b)\<rparr>;
          b2 = fold (reverse_close False False) reverses (fold (context_close False False) contexts b1);
          b3 = (case binding of None \<Rightarrow> b2 | Some a \<Rightarrow> fport_close a b2)
      in case reverseBind of None \<Rightarrow> b3 | Some a \<Rightarrow> rport_close a b3)"

text \<open>\<open>Close\<close> up to its wait for the goroutines.\<close>

definition forward_Close :: "ForwardBridge \<Rightarrow> ForwardBridge" where
  "forward_Close b =
     (if wb_closed b then b
      else let bindings = map snd (wb_bindings b); contexts = map snd (wb_contexts b);
               reverseBindings = map snd (wb_reverseBindings b); reverses = map snd (wb_reverseConns b);
               b1 = b\<lparr>wb_closed := True, wb_bindings := [], wb_contexts := [],
                      wb_reverseBindings := [], wb_reverseConns := []\<rparr>
        in fold rport_close reverseBindings (fold fport_close bindings
             (fold (reverse_close False False) reverses (fold (context_close False False) contexts b1))))"

section \<open>Forwards: handlers\<close>

text \<open>\<open>port\<close> is the port of the listener that was opened for a moment, if it could be.\<close>

definition allocateForwardPort :: "int option \<Rightarrow> nat option" where
  "allocateForwardPort port =
     (case port of None \<Rightarrow> None | Some p \<Rightarrow> if p \<le> 0 then None else Some (nat p))"

definition forward_handleCheck :: "bool \<Rightarrow> int option \<Rightarrow> Frame \<Rightarrow> ForwardBridge \<Rightarrow> ForwardBridge \<times> bool" where
  "forward_handleCheck ok port frame b =
     (case decodeForwardEndpoint (Payload frame) of
        Inl message \<Rightarrow> forward_reject ok (ChannelID frame) message b
      | Inr (contextID, endpoint) \<Rightarrow>
          case allocateForwardPort port of
            None \<Rightarrow> forward_reject ok (ChannelID frame) failForwardSetup b
          | Some p \<Rightarrow>
              if wb_closed b \<or> map_of (wb_bindings b) (ChannelID frame) \<noteq> None
              then forward_reject ok (ChannelID frame) failForwardInvalidRequest b
              else let a = length (wb_fport b)
                in (set_task (FportRun a) ForwardOpening
                     (b\<lparr>wb_fport := wb_fport b @ [\<lparr>ss_channelID = ChannelID frame, ss_target = None,
                          ss_closed = False, fs_checkContextID = contextID, fs_port = p, fs_ready = False,
                          fs_outputSeen = False, fs_outputError = False, fs_output = [],
                          fw_remoteEndpoint = endpoint\<rparr>],
                        wb_bindings := AList.update (ChannelID frame) a (wb_bindings b)\<rparr>), False))"

text \<open>The part of the handler before the dialling. It answers at once unless it dials.\<close>

definition handleActiveSlave :: "bool \<Rightarrow> Frame \<Rightarrow> ForwardBridge \<Rightarrow> ForwardBridge \<times> bool" where
  "handleActiveSlave ok frame b =
     (case decodeForwardEndpoint (Payload frame) of
        Inl message \<Rightarrow> forward_reject ok (ChannelID frame) message b
      | Inr (contextID, endpoint) \<Rightarrow>
          let key = (ChannelID frame, contextID);
              free = (send_frame ok (ChannelID frame) CommandForwardFreeContext contextID [] b, \<not> ok)
          in case map_of (wb_bindings b) (ChannelID frame) of None \<Rightarrow> free
             | Some binding \<Rightarrow>
                 if wb_closed b \<or> fw_remoteEndpoint (wb_fport b ! binding) \<noteq> endpoint
                   \<or> \<not> isReady (wb_fport b ! binding) then free
                 else if map_of (wb_contexts b) key \<noteq> None
                 then forward_reject ok (ChannelID frame) failForwardInvalidRequest b
                 else let a = length (wb_ctx b)
                   in (set_task (ContextRun a) ForwardDialling
                        (b\<lparr>wb_ctx := wb_ctx b @ [\<lparr>lc_key = key, lc_conn = None, lc_closed = False,
                             cx_binding = binding\<rparr>],
                           wb_contexts := AList.update key a (wb_contexts b)\<rparr>), False))"

text \<open>\<open>connect\<close> and the rest of the handler, with the result of the dialling.\<close>

definition context_connect :: "bool \<Rightarrow> nat option \<Rightarrow> nat \<Rightarrow> ForwardBridge \<Rightarrow> ForwardBridge \<times> bool" where
  "context_connect ok conn a b =
     (let c = wb_ctx b ! a;
          failed = (\<lambda>b. (send_frame ok (fst (lc_key c)) CommandForwardFreeContext (snd (lc_key c)) []
            (context_close False False a (removeContext a (end_task (ContextRun a) b))), \<not> ok))
      in case conn of None \<Rightarrow> failed b
         | Some n \<Rightarrow>
             let b = net_emit [Dialled n (fs_port (wb_fport b ! cx_binding c))] b
             in if lc_closed c then failed (net_emit [ConnClosed n] b)
                else (send_frame ok (fst (lc_key c)) CommandForwardActiveMaster (snd (lc_key c)) []
                  (set_task (ContextRun a) ForwardLooping
                    (b\<lparr>wb_ctx := (wb_ctx b)[a := c\<lparr>lc_conn := Some n\<rparr>]\<rparr>)), \<not> ok))"

definition forward_handleData ::
    "bool \<Rightarrow> nat option \<Rightarrow> Frame \<Rightarrow> ForwardBridge \<Rightarrow> ForwardBridge \<times> bool" where
  "forward_handleData ok short frame b =
     (case decodeForwardData (Payload frame) of
        Inl message \<Rightarrow> forward_reject ok (ChannelID frame) message b
      | Inr (contextID, data) \<Rightarrow>
          let key = (ChannelID frame, contextID);
              free = (\<lambda>b. (send_frame ok (ChannelID frame) CommandForwardFreeContext contextID [] b, \<not> ok))
          in case map_of (wb_reverseConns b) key of
               Some a \<Rightarrow>
                 (case local_write short data (wb_rconn b ! a) of (written, l) \<Rightarrow>
                    let b = net_emit l b
                    in if \<not> written then free (reverse_close False False a (removeReverseConn a b))
                       else (b, False))
             | None \<Rightarrow>
                 (case map_of (wb_contexts b) key of None \<Rightarrow> free b
                  | Some a \<Rightarrow>
                      (case local_write short data (wb_ctx b ! a) of (written, l) \<Rightarrow>
                         let b = net_emit l b
                         in if \<not> written then free (context_close False False a (removeContext a b))
                            else (b, False))))"

definition forward_handleFreeContext :: "bool \<Rightarrow> Frame \<Rightarrow> ForwardBridge \<Rightarrow> ForwardBridge \<times> bool" where
  "forward_handleFreeContext ok frame b =
     (case decodeForwardData (Payload frame) of
        Inl message \<Rightarrow> forward_reject ok (ChannelID frame) message b
      | Inr (contextID, _) \<Rightarrow>
          let key = (ChannelID frame, contextID);
              context = map_of (wb_contexts b) key;
              reverse = map_of (wb_reverseConns b) key;
              binding = map_of (wb_bindings b) (ChannelID frame);
              reverseBind = map_of (wb_reverseBindings b) (ChannelID frame);
              isCheck = (case binding of None \<Rightarrow> False
                | Some a \<Rightarrow> fs_checkContextID (wb_fport b ! a) = contextID);
              isReverseCheck = (case reverseBind of None \<Rightarrow> False
                | Some a \<Rightarrow> fs_checkContextID (wb_rport b ! a) = contextID);
              b1 = (case context of None \<Rightarrow> b | Some a \<Rightarrow> context_close False False a (removeContext a b));
              b2 = (case reverse of None \<Rightarrow> b1 | Some a \<Rightarrow> reverse_close False False a (removeReverseConn a b1));
              b3 = (case binding of None \<Rightarrow> b2
                | Some a \<Rightarrow> if isCheck then fport_close a (removeBinding a b2) else b2);
              b4 = (case reverseBind of None \<Rightarrow> b3
                | Some a \<Rightarrow> if isReverseCheck then rport_close a (removeReverseBinding a b3) else b3)
          in (b4, False))"

section \<open>Forwards: the goroutine of a binding\<close>

definition finishSetup :: "bool \<Rightarrow> string option \<Rightarrow> nat \<Rightarrow> ForwardBridge \<Rightarrow> ForwardBridge" where
  "finishSetup ok setupErr a b =
     (let s = wb_fport b ! a
      in if setupErr = None \<and> setupSuccessful s then
           (case markReady s of None \<Rightarrow> b
            | Some s' \<Rightarrow> send_frame ok (ss_channelID s) CommandForwardCheckResult (fs_checkContextID s) [0]
                (put_fport a s' b))
         else let message = (case setupErr of Some m \<Rightarrow> m
                | None \<Rightarrow> if fs_outputError s then failForwardSetup else failForwardNoResult)
           in forward_emit (sent ok (EncodeEchoAndClose (ss_channelID s) message))
                (fport_close a (removeBinding a b)))"

definition runSetup_open :: "bool \<Rightarrow> open_result \<Rightarrow> nat \<Rightarrow> ForwardBridge \<Rightarrow> ForwardBridge" where
  "runSetup_open ok result a b =
     (let s = wb_fport b ! a; waiting = set_task (FportRun a) ForwardWaiting
      in if \<not> wb_canOpen b then waiting (finishSetup ok (Some failForwardSetup) a b)
         else case result of
           OpenDeadline \<Rightarrow> waiting (finishSetup ok (Some failForwardTimeout) a b)
         | OpenFailed \<Rightarrow> waiting (finishSetup ok (Some failForwardSetup) a b)
         | Opened t \<Rightarrow>
             let command = fport_command (fs_port s) (fw_remoteEndpoint s)
             in case attachTarget t s of
                  None \<Rightarrow> waiting (forward_emit [TargetOpened t command, TargetClosed t] b)
                | Some s' \<Rightarrow> set_task (FportRun a) (ForwardReading t)
                    (forward_emit [TargetOpened t command] (put_fport a s' b)))"

text \<open>One turn of the read loop; \<open>errText\<close> is the text of an error that is not an end of file.\<close>

definition runSetup_read ::
    "bool \<Rightarrow> string \<Rightarrow> bytes \<Rightarrow> target_end option \<Rightarrow> nat \<Rightarrow> nat \<Rightarrow> ForwardBridge \<Rightarrow> ForwardBridge" where
  "runSetup_read ok errText payload readErr t a b =
     (let b = (if payload = [] then b else put_fport a (recordOutput payload (wb_fport b ! a)) b)
      in case readErr of None \<Rightarrow> b
         | Some e \<Rightarrow> set_task (FportRun a) ForwardWaiting
             (finishSetup ok (case e of EndDeadline \<Rightarrow> Some failForwardTimeout | EndClosed \<Rightarrow> None
                | EndError \<Rightarrow> Some errText) a (forward_emit [TargetClosed t] b)))"

text \<open>The watchdog of a read: at the deadline it closes the target, which ends the read.\<close>

definition forward_deadline :: "nat \<Rightarrow> ForwardBridge \<Rightarrow> ForwardBridge" where
  "forward_deadline t b = forward_emit [TargetClosed t] b"

definition fport_cleanup :: "open_result \<Rightarrow> nat \<Rightarrow> ForwardBridge \<Rightarrow> ForwardBridge" where
  "fport_cleanup result a b =
     (let s = wb_fport b ! a
      in if \<not> wb_canOpen b then end_task (FportRun a) b
         else case result of
           Opened t \<Rightarrow> set_task (FportRun a) (ForwardDraining t)
             (forward_emit [TargetOpened t (fport_rm_command (fs_port s) (fw_remoteEndpoint s))] b)
         | _ \<Rightarrow> end_task (FportRun a) b)"

text \<open>The drain of a removal command: its reads, until the last one ends it.\<close>

definition forward_drain :: "(nat \<times> bool) list \<Rightarrow> nat \<Rightarrow> forward_task \<Rightarrow> ForwardBridge \<Rightarrow> ForwardBridge" where
  "forward_drain reads t k b =
     (if drain_reads 0 reads then end_task k (forward_emit (drainTargetChannel t reads) b) else b)"

text \<open>One turn of the read loop of a context.\<close>

definition context_read ::
    "bool \<Rightarrow> bool \<Rightarrow> bytes \<Rightarrow> bool \<Rightarrow> nat \<Rightarrow> ForwardBridge \<Rightarrow> ForwardBridge" where
  "context_read ok ok2 data ended a b =
     (let c = wb_ctx b ! a
      in if lc_closed c \<or> lc_conn c = None then end_task (ContextRun a) b
         else let b' = (if data = [] then b
                else send_frame ok (fst (lc_key c)) CommandForwardData (snd (lc_key c)) data b)
           in if data \<noteq> [] \<and> \<not> ok
              then end_task (ContextRun a) (context_close False False a (removeContext a b'))
              else if ended
              then end_task (ContextRun a) (context_close True ok2 a (removeContext a b'))
              else b')"

section \<open>Reverse forwards\<close>

text \<open>\<open>opened\<close> is the listener and its port, if it could be opened; \<open>rand\<close> the random bytes.\<close>

definition handleReverseInit ::
    "bool \<Rightarrow> (nat \<times> int) option \<Rightarrow> bytes option \<Rightarrow> Frame \<Rightarrow> ForwardBridge \<Rightarrow> ForwardBridge \<times> bool" where
  "handleReverseInit ok opened rand frame b =
     (case parseReverseCommand (Payload frame) of
        Inl message \<Rightarrow> forward_reject ok (ChannelID frame) message b
      | Inr (deviceEndpoint, hostEndpoint) \<Rightarrow>
          case opened of None \<Rightarrow> forward_reject ok (ChannelID frame) failForwardSetup b
          | Some (listener, port) \<Rightarrow>
              let b = net_emit [Listening listener] b
              in if port \<le> 0
                 then forward_reject ok (ChannelID frame) failForwardSetup (net_emit [ListenerClosed listener] b)
                 else if wb_closed b \<or> map_of (wb_reverseBindings b) (ChannelID frame) \<noteq> None
                   \<or> map_of (wb_bindings b) (ChannelID frame) \<noteq> None
                 then forward_reject ok (ChannelID frame) failForwardInvalidRequest
                   (net_emit [ListenerClosed listener] b)
                 else let a = length (wb_rport b)
                   in (set_task (RportRun a) ForwardOpening
                        (b\<lparr>wb_rport := wb_rport b @ [\<lparr>ss_channelID = ChannelID frame, ss_target = None,
                             ss_closed = False, fs_checkContextID = randomContextID rand,
                             fs_port = nat port, fs_ready = False, fs_outputSeen = False,
                             fs_outputError = False, fs_output = [], rv_deviceEndpoint = deviceEndpoint,
                             rv_hostEndpoint = hostEndpoint, rv_listener = listener, rv_resolved = False\<rparr>],
                           wb_reverseBindings := AList.update (ChannelID frame) a (wb_reverseBindings b)\<rparr>),
                       False))"

definition failReverseSetup :: "bool \<Rightarrow> string option \<Rightarrow> nat \<Rightarrow> ForwardBridge \<Rightarrow> ForwardBridge" where
  "failReverseSetup ok setupErr a b =
     (let s = wb_rport b ! a;
          message = (case setupErr of Some m \<Rightarrow> m
            | None \<Rightarrow> if fs_outputError s then failForwardSetup else failForwardNoResult)
      in forward_emit (sent ok (EncodeEchoAndClose (ss_channelID s) message))
           (rport_close a (removeReverseBinding a b)))"

definition runReverseSetup_open :: "bool \<Rightarrow> open_result \<Rightarrow> nat \<Rightarrow> ForwardBridge \<Rightarrow> ForwardBridge" where
  "runReverseSetup_open ok result a b =
     (let s = wb_rport b ! a; waiting = set_task (RportRun a) ForwardWaiting
      in if \<not> wb_canOpen b then waiting (failReverseSetup ok (Some failForwardSetup) a b)
         else case result of
           OpenDeadline \<Rightarrow> waiting (failReverseSetup ok (Some failForwardTimeout) a b)
         | OpenFailed \<Rightarrow> waiting (failReverseSetup ok (Some failForwardSetup) a b)
         | Opened t \<Rightarrow>
             let command = rport_command (rv_deviceEndpoint s) (fs_port s)
             in case attachTarget t s of
                  None \<Rightarrow> waiting (forward_emit [TargetOpened t command, TargetClosed t] b)
                | Some s' \<Rightarrow> set_task (RportRun a) (ForwardReading t)
                    (forward_emit [TargetOpened t command] (put_rport a s' b)))"

text \<open>The end of the read loop: on success the accept loop and the check timer start.\<close>

definition runReverseSetup_end :: "(nat \<Rightarrow> bool) \<Rightarrow> target_end \<Rightarrow> nat \<Rightarrow> ForwardBridge \<Rightarrow> ForwardBridge" where
  "runReverseSetup_end ok e a b =
     (let s = wb_rport b ! a
      in case e of EndDeadline \<Rightarrow> failReverseSetup (ok 0) (Some failForwardTimeout) a b
         | EndError \<Rightarrow> failReverseSetup (ok 0) (Some failForwardSetup) a b
         | EndClosed \<Rightarrow>
             if \<not> setupSuccessful s then failReverseSetup (ok 0) (Some failForwardNoResult) a b
             else case markReady s of None \<Rightarrow> b
             | Some s' \<Rightarrow>
                 set_task (CheckTimer a) ForwardLooping
                   (forward_emit (sent (ok 1) (encodeForwardEndpointFrame (ss_channelID s) CommandForwardCheck
                       (fs_checkContextID s) (rv_hostEndpoint s)))
                     (forward_emit (sent (ok 0) (EncodeFrame (ss_channelID s) CommandKernelWakeupSlaveTask []))
                       (set_task (AcceptRun a) ForwardLooping (put_rport a s' b)))))"

definition runReverseSetup_read ::
    "(nat \<Rightarrow> bool) \<Rightarrow> bytes \<Rightarrow> target_end option \<Rightarrow> nat \<Rightarrow> nat \<Rightarrow> ForwardBridge \<Rightarrow> ForwardBridge" where
  "runReverseSetup_read ok payload readErr t a b =
     (let b = (if payload = [] then b else put_rport a (recordOutput payload (wb_rport b ! a)) b)
      in case readErr of None \<Rightarrow> b
         | Some e \<Rightarrow> set_task (RportRun a) ForwardWaiting
             (runReverseSetup_end ok e a (forward_emit [TargetClosed t] b)))"

definition rport_cleanup :: "open_result \<Rightarrow> nat \<Rightarrow> ForwardBridge \<Rightarrow> ForwardBridge" where
  "rport_cleanup result a b =
     (let s = wb_rport b ! a; b = net_emit [ListenerClosed (rv_listener s)] b
      in if \<not> wb_canOpen b then end_task (RportRun a) b
         else case result of
           Opened t \<Rightarrow> set_task (RportRun a) (ForwardDraining t)
             (forward_emit [TargetOpened t (rport_rm_command (rv_deviceEndpoint s) (fs_port s))] b)
         | _ \<Rightarrow> end_task (RportRun a) b)"

definition check_timer :: "bool \<Rightarrow> nat \<Rightarrow> ForwardBridge \<Rightarrow> ForwardBridge" where
  "check_timer ok a b = end_task (CheckTimer a)
     (if rv_resolved (wb_rport b ! a) then b else failReverseSetup ok (Some failForwardTimeout) a b)"

text \<open>One turn of the accept loop: \<open>None\<close> for an error.\<close>

definition reverse_accept :: "bool \<Rightarrow> nat option \<Rightarrow> bytes option \<Rightarrow> nat \<Rightarrow> ForwardBridge \<Rightarrow> ForwardBridge" where
  "reverse_accept ok conn rand a b =
     (case conn of None \<Rightarrow> end_task (AcceptRun a) b
      | Some n \<Rightarrow>
          let s = wb_rport b ! a; key = (ss_channelID s, randomContextID rand);
              b = net_emit [Accepted n] b
          in if wb_closed b \<or> map_of (wb_reverseBindings b) (ss_channelID s) \<noteq> Some a
             then end_task (AcceptRun a) (net_emit [ConnClosed n] b)
             else if map_of (wb_reverseConns b) key \<noteq> None then net_emit [ConnClosed n] b
             else let i = length (wb_rconn b);
                      b = forward_emit (sent ok (encodeForwardEndpointFrame (ss_channelID s)
                            CommandForwardActiveSlave (snd key) (rv_hostEndpoint s)))
                          (b\<lparr>wb_rconn := wb_rconn b @ [\<lparr>lc_key = key, lc_conn = Some n, lc_closed = False,
                               rc_started = False\<rparr>],
                             wb_reverseConns := AList.update key i (wb_reverseConns b)\<rparr>)
                  in if ok then b
                     else end_task (AcceptRun a) (reverse_close False False i (removeReverseConn i b)))"

definition handleReverseCheckResult :: "bool \<Rightarrow> Frame \<Rightarrow> ForwardBridge \<Rightarrow> ForwardBridge \<times> bool" where
  "handleReverseCheckResult ok frame b =
     (case decodeForwardData (Payload frame) of
        Inl message \<Rightarrow> forward_reject ok (ChannelID frame) message b
      | Inr (contextID, data) \<Rightarrow>
          case map_of (wb_reverseBindings b) (ChannelID frame) of None \<Rightarrow> (b, False)
          | Some a \<Rightarrow>
              let s = wb_rport b ! a
              in if fs_checkContextID s \<noteq> contextID then (b, False)
                 else let b = put_rport a (s\<lparr>rv_resolved := True\<rparr>) b
                   in if \<not> (data \<noteq> [] \<and> hd data = 0)
                      then (forward_emit (sent ok (EncodeEchoAndClose (ChannelID frame) failForwardSetup))
                             (rport_close a (removeReverseBinding a b)), \<not> ok)
                      else (send_frame ok (ChannelID frame) CommandForwardSuccess contextID [] b, \<not> ok))"

definition handleReverseActiveMaster :: "bool \<Rightarrow> Frame \<Rightarrow> ForwardBridge \<Rightarrow> ForwardBridge \<times> bool" where
  "handleReverseActiveMaster ok frame b =
     (case decodeForwardData (Payload frame) of
        Inl message \<Rightarrow> forward_reject ok (ChannelID frame) message b
      | Inr (contextID, _) \<Rightarrow>
          case map_of (wb_reverseConns b) (ChannelID frame, contextID) of
            None \<Rightarrow> (send_frame ok (ChannelID frame) CommandForwardFreeContext contextID [] b, \<not> ok)
          | Some a \<Rightarrow>
              let c = wb_rconn b ! a
              in if lc_closed c \<or> rc_started c then (b, False)
                 else (set_task (ReverseRun a) ForwardLooping
                        (b\<lparr>wb_rconn := (wb_rconn b)[a := c\<lparr>rc_started := True\<rparr>]\<rparr>), False))"

definition reverse_read ::
    "bool \<Rightarrow> bool \<Rightarrow> bytes \<Rightarrow> bool \<Rightarrow> nat \<Rightarrow> ForwardBridge \<Rightarrow> ForwardBridge" where
  "reverse_read ok ok2 data ended a b =
     (let c = wb_rconn b ! a
      in if lc_closed c \<or> lc_conn c = None then end_task (ReverseRun a) b
         else let b' = (if data = [] then b
                else send_frame ok (fst (lc_key c)) CommandForwardData (snd (lc_key c)) data b)
           in if data \<noteq> [] \<and> \<not> ok
              then end_task (ReverseRun a) (reverse_close False False a (removeReverseConn a b'))
              else if ended
              then end_task (ReverseRun a) (reverse_close True ok2 a (removeReverseConn a b'))
              else b')"

section \<open>Dispatch\<close>

text \<open>The answers of one handler call.\<close>

record forward_env =
  we_writeOK :: bool
  we_port :: "int option"
  we_listener :: "(nat \<times> int) option"
  we_rand :: "bytes option"
  we_short :: "nat option"

definition forward_Handle :: "forward_env \<Rightarrow> Frame \<Rightarrow> ForwardBridge \<Rightarrow> ForwardBridge \<times> bool" where
  "forward_Handle env frame b =
     (let ok = we_writeOK env; flag = CommandFlag frame
      in if flag = CommandForwardCheck then forward_handleCheck ok (we_port env) frame b
         else if flag = CommandForwardActiveSlave then handleActiveSlave ok frame b
         else if flag = CommandForwardInit then handleReverseInit ok (we_listener env) (we_rand env) frame b
         else if flag = CommandForwardCheckResult then handleReverseCheckResult ok frame b
         else if flag = CommandForwardActiveMaster then handleReverseActiveMaster ok frame b
         else if flag = CommandForwardData then forward_handleData ok (we_short env) frame b
         else if flag = CommandForwardFreeContext then forward_handleFreeContext ok frame b
         else forward_reject ok (ChannelID frame) failForwardUnsupported b)"

inductive forward_step :: "ForwardBridge \<Rightarrow> ForwardBridge \<Rightarrow> bool" where
  handles: "forward_step b (fst (forward_Handle env frame b))"
| closes_channel: "forward_step b (forward_CloseChannel channelID b)"
| closes_bridge: "forward_step b (forward_Close b)"
| dials: "map_of (wb_running b) (ContextRun a) = Some ForwardDialling \<Longrightarrow>
    forward_step b (fst (context_connect ok conn a b))"
| context_reads: "map_of (wb_running b) (ContextRun a) = Some ForwardLooping \<Longrightarrow>
    forward_step b (context_read ok ok2 data ended a b)"
| fport_opens: "map_of (wb_running b) (FportRun a) = Some ForwardOpening \<Longrightarrow>
    forward_step b (runSetup_open ok result a b)"
| fport_reads: "map_of (wb_running b) (FportRun a) = Some (ForwardReading t) \<Longrightarrow>
    forward_step b (runSetup_read ok errText payload readErr t a b)"
| fport_cleans: "map_of (wb_running b) (FportRun a) = Some ForwardWaiting \<Longrightarrow>
    ss_closed (wb_fport b ! a) \<Longrightarrow> forward_step b (fport_cleanup result a b)"
| rport_opens: "map_of (wb_running b) (RportRun a) = Some ForwardOpening \<Longrightarrow>
    forward_step b (runReverseSetup_open ok result a b)"
| rport_reads: "map_of (wb_running b) (RportRun a) = Some (ForwardReading t) \<Longrightarrow>
    forward_step b (runReverseSetup_read oks payload readErr t a b)"
| rport_cleans: "map_of (wb_running b) (RportRun a) = Some ForwardWaiting \<Longrightarrow>
    ss_closed (wb_rport b ! a) \<Longrightarrow> forward_step b (rport_cleanup result a b)"
| times_out: "map_of (wb_running b) k = Some (ForwardReading t) \<Longrightarrow> forward_step b (forward_deadline t b)"
| drains: "map_of (wb_running b) k = Some (ForwardDraining t) \<Longrightarrow> forward_step b (forward_drain reads t k b)"
| accepts: "map_of (wb_running b) (AcceptRun a) = Some ForwardLooping \<Longrightarrow>
    forward_step b (reverse_accept ok conn rand a b)"
| reverse_reads: "map_of (wb_running b) (ReverseRun a) = Some ForwardLooping \<Longrightarrow>
    forward_step b (reverse_read ok ok2 data ended a b)"
| timer_ends: "map_of (wb_running b) (CheckTimer a) = Some ForwardLooping \<Longrightarrow>
    ss_closed (wb_rport b ! a) \<Longrightarrow> forward_step b (end_task (CheckTimer a) b)"
| timer_fires: "map_of (wb_running b) (CheckTimer a) = Some ForwardLooping \<Longrightarrow>
    forward_step b (check_timer ok a b)"

end
