(* ===== verification/Forward_Invariant.thy ===== *)
theory Forward_Invariant
  imports Forward_Bridge
begin

text \<open>
  The invariant of the forward bridge and its preservation by every step. Between the removal of
  an object from a map and its closing, the object is in one of four sets of indices that the
  invariant excepts; outside a step the sets are empty.
\<close>

section \<open>A map and the open objects of a heap\<close>

text \<open>Every entry leads to an object with that key, and every open object outside \<open>X\<close> is the
  entry of its key.\<close>

definition tracks :: "('k, nat) gomap \<Rightarrow> ('s \<Rightarrow> 'k) \<Rightarrow> ('s \<Rightarrow> bool) \<Rightarrow> 's list \<Rightarrow> nat set \<Rightarrow> bool" where
  "tracks m key closed h X \<longleftrightarrow> distinct (map fst m)
     \<and> (\<forall>k a. map_of m k = Some a \<longrightarrow> a < length h \<and> key (h ! a) = k)
     \<and> (\<forall>a < length h. \<not> closed (h ! a) \<longrightarrow> a \<notin> X \<longrightarrow> map_of m (key (h ! a)) = Some a)"

lemma tracksD:
  assumes "tracks m key closed h X"
  shows "distinct (map fst m)" "map_of m k = Some a \<Longrightarrow> a < length h"
    "map_of m k = Some a \<Longrightarrow> key (h ! a) = k"
    "a < length h \<Longrightarrow> \<not> closed (h ! a) \<Longrightarrow> a \<notin> X \<Longrightarrow> map_of m (key (h ! a)) = Some a"
  using assms by (simp_all add: tracks_def)

lemma tracks_Nil [simp]: "tracks [] key closed [] X"
  by (simp add: tracks_def)

lemma tracks_new:
  assumes "tracks m key closed h X" "map_of m (key s) = None"
  shows "tracks (AList.update (key s) (length h) m) key closed (h @ [s]) X"
  using assms by (auto simp: tracks_def nth_append less_Suc_eq)

lemma tracks_put:
  assumes "tracks m key closed h X" "key s = key (h ! a)" "closed (h ! a) \<longrightarrow> closed s"
  shows "tracks m key closed (h[a := s]) X"
proof -
  have k: "key (h[a := s] ! x) = key (h ! x)" for x
    using assms(2) by (cases "a < length h") (auto simp: nth_list_update list_update_beyond)
  have c: "\<not> closed (h[a := s] ! x) \<Longrightarrow> \<not> closed (h ! x)" for x
    using assms(3) by (cases "a < length h") (auto simp: nth_list_update list_update_beyond split: if_splits)
  show ?thesis using assms(1) k c unfolding tracks_def by (metis length_list_update)
qed

lemma tracks_close:
  assumes "tracks m key closed h X" "key s = key (h ! a)" "closed s"
  shows "tracks m key closed (h[a := s]) (X - {a})"
proof -
  have "tracks m key closed (h[a := s]) X" using assms by (intro tracks_put) simp_all
  moreover have "x < length h \<Longrightarrow> \<not> closed (h[a := s] ! x) \<Longrightarrow> x \<noteq> a" for x
    using assms(3) by auto
  ultimately show ?thesis unfolding tracks_def by (metis DiffI length_list_update singletonD)
qed

lemma tracks_delete:
  assumes "tracks m key closed h X" "\<forall>a. map_of m k = Some a \<longrightarrow> a \<in> Y" "X \<subseteq> Y"
  shows "tracks (AList.delete k m) key closed h Y"
proof -
  have d: "distinct (map fst (AList.delete k m))" using tracksD(1) [OF assms(1)] by simp
  have o: "map_of (AList.delete k m) (key (h ! a)) = Some a"
    if "a < length h" "\<not> closed (h ! a)" "a \<notin> Y" for a
    using tracksD(4) [OF assms(1), of a] that assms(2,3) by (cases "key (h ! a) = k") auto
  have i: "a < length h \<and> key (h ! a) = x" if "map_of (AList.delete k m) x = Some a" for x a
    using that tracksD(2,3) [OF assms(1), of x a] by (simp split: if_splits)
  show ?thesis unfolding tracks_def using d o i by blast
qed

lemma tracks_filter:
  assumes "tracks m key closed h X"
  shows "tracks (filter (\<lambda>(k, _). \<not> P k) m) key closed h (X \<union> set (map snd (filter (\<lambda>(k, _). P k) m)))"
proof -
  have d: "distinct (map fst m)" using tracksD(1) [OF assms] .
  have f: "map_of (filter (\<lambda>(k, _). \<not> P k) m) k = (if P k then None else map_of m k)" for k
    by (induction m) auto
  have mem: "P k \<Longrightarrow> map_of m k = Some a \<Longrightarrow> a \<in> set (map snd (filter (\<lambda>(k, _). P k) m))" for k a
    by (induction m) (auto split: if_splits)
  have "distinct (map fst (filter (\<lambda>(k, _). \<not> P k) m))" using d by (simp add: distinct_map_filter)
  then show ?thesis
    unfolding tracks_def f using assms mem unfolding tracks_def by (metis UnCI option.distinct(1))
qed

lemma tracks_none:
  "tracks m key closed h X \<Longrightarrow> tracks [] key closed h (X \<union> set (map snd m))"
  using tracks_filter [of m key closed h X "\<lambda>_. True"] by simp

lemma tracks_mono: "tracks m key closed h X \<Longrightarrow> X \<subseteq> Y \<Longrightarrow> tracks m key closed h Y"
  unfolding tracks_def by blast

lemma tracks_closed: "tracks m key closed h X \<Longrightarrow> closed (h ! a) \<Longrightarrow> tracks m key closed h (X - {a})"
  unfolding tracks_def by blast

section \<open>Sockets\<close>

definition held_conns :: "'a local_conn_scheme list \<Rightarrow> nat set" where
  "held_conns h = {n. \<exists>c \<in> set h. \<not> lc_closed c \<and> lc_conn c = Some n}"

definition held_listeners :: "reverseBinding list \<Rightarrow> nat set" where
  "held_listeners h = rv_listener ` {s \<in> set h. \<not> ss_closed s}"

lemma net_sets [simp]:
  "opened_conns (l @ m) = opened_conns l \<union> opened_conns m"
  "closed_conns (l @ m) = closed_conns l \<union> closed_conns m"
  "opened_listeners (l @ m) = opened_listeners l \<union> opened_listeners m"
  "closed_listeners (l @ m) = closed_listeners l \<union> closed_listeners m"
  "dialled_ports (l @ m) = dialled_ports l \<union> dialled_ports m"
  by (auto simp: opened_conns_def closed_conns_def opened_listeners_def closed_listeners_def dialled_ports_def)

lemma net_sets_Nil [simp]:
  "opened_conns [] = {}" "closed_conns [] = {}" "opened_listeners [] = {}" "closed_listeners [] = {}"
  "dialled_ports [] = {}"
  by (simp_all add: opened_conns_def closed_conns_def opened_listeners_def closed_listeners_def dialled_ports_def)

lemma net_sets_one [simp]:
  "opened_conns [Listening x] = {}" "closed_conns [Listening x] = {}" "opened_listeners [Listening x] = {x}"
  "closed_listeners [Listening x] = {}" "dialled_ports [Listening x] = {}"
  "opened_conns [ListenerClosed x] = {}" "closed_conns [ListenerClosed x] = {}"
  "opened_listeners [ListenerClosed x] = {}" "closed_listeners [ListenerClosed x] = {x}"
  "dialled_ports [ListenerClosed x] = {}"
  "opened_conns [Dialled x p] = {x}" "closed_conns [Dialled x p] = {}" "opened_listeners [Dialled x p] = {}"
  "closed_listeners [Dialled x p] = {}" "dialled_ports [Dialled x p] = {p}"
  "opened_conns [Accepted x] = {x}" "closed_conns [Accepted x] = {}" "opened_listeners [Accepted x] = {}"
  "closed_listeners [Accepted x] = {}" "dialled_ports [Accepted x] = {}"
  "opened_conns [ConnWrote x d] = {}" "closed_conns [ConnWrote x d] = {}" "opened_listeners [ConnWrote x d] = {}"
  "closed_listeners [ConnWrote x d] = {}" "dialled_ports [ConnWrote x d] = {}"
  "opened_conns [ConnClosed x] = {}" "closed_conns [ConnClosed x] = {x}" "opened_listeners [ConnClosed x] = {}"
  "closed_listeners [ConnClosed x] = {}" "dialled_ports [ConnClosed x] = {}"
  by (auto simp: opened_conns_def closed_conns_def opened_listeners_def closed_listeners_def dialled_ports_def)

lemma conn_effects_sets [simp]:
  "opened_conns (conn_effects c) = {}" "opened_listeners (conn_effects c) = {}"
  "closed_listeners (conn_effects c) = {}" "dialled_ports (conn_effects c) = {}"
  "closed_conns (conn_effects c) = (if lc_closed c then {} else set_option (lc_conn c))"
  by (auto simp: conn_effects_def split: option.splits)

lemma local_write_sets:
  assumes "local_write short data c = (written, l)"
  shows "opened_conns l = {}" "opened_listeners l = {}" "dialled_ports l = {}"
  using assms by (auto simp: local_write_def split: if_splits option.splits)

lemma close_conn_sel [simp]:
  "lc_closed (close_conn c)" "lc_key (close_conn c) = lc_key c"
  "local_conn.more (close_conn c) = local_conn.more c"
  by (simp_all add: close_conn_def)

lemma cx_binding_close [simp]: "cx_binding (close_conn c) = cx_binding c"
  by (simp add: close_conn_def)

lemma held_conns_one [simp]: "held_conns [c] = (if lc_closed c then {} else set_option (lc_conn c))"
  by (auto simp: held_conns_def)

lemma held_conns_append [simp]: "held_conns (h @ [c]) = held_conns h \<union> held_conns [c]"
  by (auto simp: held_conns_def)

lemma held_conns_update:
  assumes "a < length h"
  shows "held_conns h \<subseteq> held_conns (h[a := c]) \<union> held_conns [h ! a]"
proof
  fix n
  assume "n \<in> held_conns h"
  then obtain i where i: "i < length h" "\<not> lc_closed (h ! i)" "lc_conn (h ! i) = Some n"
    by (auto simp: held_conns_def in_set_conv_nth)
  show "n \<in> held_conns (h[a := c]) \<union> held_conns [h ! a]"
  proof (cases "i = a")
    case False
    then have "h[a := c] ! i = h ! i" "i < length (h[a := c])" using i by simp_all
    then have "h ! i \<in> set (h[a := c])" by (metis nth_mem)
    then show ?thesis using i by (auto simp: held_conns_def)
  qed (use i in auto)
qed

lemma held_conns_new:
  assumes "a < length h"
  shows "held_conns [c] \<subseteq> held_conns (h[a := c])"
  using set_update_memI [OF assms, of c] by (fastforce simp: held_conns_def)

lemma held_listeners_append [simp]:
  "held_listeners (h @ [s]) = held_listeners h \<union> (if ss_closed s then {} else {rv_listener s})"
  by (auto simp: held_listeners_def)

lemma held_listeners_update:
  assumes "a < length h"
  shows "held_listeners h \<subseteq> held_listeners (h[a := s]) \<union> (if ss_closed (h ! a) then {} else {rv_listener (h ! a)})"
proof
  fix x
  assume "x \<in> held_listeners h"
  then obtain i where i: "i < length h" "\<not> ss_closed (h ! i)" "rv_listener (h ! i) = x"
    by (auto simp: held_listeners_def in_set_conv_nth)
  show "x \<in> held_listeners (h[a := s]) \<union> (if ss_closed (h ! a) then {} else {rv_listener (h ! a)})"
  proof (cases "i = a")
    case False
    then have "h[a := s] ! i = h ! i" "i < length (h[a := s])" using i by simp_all
    then have "h ! i \<in> set (h[a := s])" by (metis nth_mem)
    then show ?thesis using i by (auto simp: held_listeners_def)
  qed (use i in auto)
qed

lemma held_listeners_same:
  assumes "a < length h" "ss_closed s \<longrightarrow> ss_closed (h ! a)" "rv_listener s = rv_listener (h ! a)"
  shows "held_listeners h \<subseteq> held_listeners (h[a := s])"
proof (cases "ss_closed s")
  case False
  then have "s \<in> {x \<in> set (h[a := s]). \<not> ss_closed x}" using set_update_memI [OF assms(1), of s] by simp
  from imageI [OF this, of rv_listener] have "rv_listener (h ! a) \<in> held_listeners (h[a := s])"
    unfolding held_listeners_def assms(3) .
  then show ?thesis using held_listeners_update [OF assms(1), of s] by (auto split: if_splits)
qed (use held_listeners_update [OF assms(1), of s] assms(2) in \<open>auto split: if_splits\<close>)

section \<open>The invariant\<close>

definition draining :: "(forward_task, forward_phase) gomap \<Rightarrow> nat set" where
  "draining r = {t. \<exists>k. map_of r k = Some (ForwardDraining t)}"

definition forward_tables ::
    "nat set \<Rightarrow> nat set \<Rightarrow> nat set \<Rightarrow> nat set \<Rightarrow> ForwardBridge \<Rightarrow> bool" where
  "forward_tables F C R V b \<longleftrightarrow>
     tracks (wb_bindings b) ss_channelID ss_closed (wb_fport b) F
     \<and> tracks (wb_contexts b) lc_key lc_closed (wb_ctx b) C
     \<and> tracks (wb_reverseBindings b) ss_channelID ss_closed (wb_rport b) R
     \<and> tracks (wb_reverseConns b) lc_key lc_closed (wb_rconn b) V
     \<and> (wb_closed b \<longrightarrow> wb_bindings b = [] \<and> wb_contexts b = []
          \<and> wb_reverseBindings b = [] \<and> wb_reverseConns b = [])"

definition forward_targets :: "ForwardBridge \<Rightarrow> bool" where
  "forward_targets b \<longleftrightarrow> targets_in (wb_log b)
     (held_targets (wb_fport b) \<union> held_targets (wb_rport b) \<union> draining (wb_running b))"

definition forward_sockets :: "ForwardBridge \<Rightarrow> bool" where
  "forward_sockets b \<longleftrightarrow>
     opened_conns (wb_net b) \<subseteq> closed_conns (wb_net b) \<union> held_conns (wb_ctx b) \<union> held_conns (wb_rconn b)
     \<and> opened_listeners (wb_net b) \<subseteq> closed_listeners (wb_net b) \<union> held_listeners (wb_rport b)"

definition good_commands :: "bridge_log \<Rightarrow> bool" where
  "good_commands l \<longleftrightarrow> (\<forall>c \<in> set (opened_commands l). forward_words (str_fields c))"

definition fport_valid :: "forwardBinding \<Rightarrow> bool" where
  "fport_valid s \<longleftrightarrow> validateForwardEndpoint (fw_remoteEndpoint s) = None
     \<and> (fs_ready s \<longrightarrow> setupSuccessful s)"

definition rport_valid :: "reverseBinding \<Rightarrow> bool" where
  "rport_valid s \<longleftrightarrow> validateForwardEndpoint (rv_deviceEndpoint s) = None
     \<and> validateForwardEndpoint (rv_hostEndpoint s) = None"

definition context_valid :: "forwardBinding list \<Rightarrow> forwardTCPContext \<Rightarrow> bool" where
  "context_valid h c \<longleftrightarrow> cx_binding c < length h \<and> fs_ready (h ! cx_binding c)"

definition forward_valid :: "ForwardBridge \<Rightarrow> bool" where
  "forward_valid b \<longleftrightarrow> good_commands (wb_log b)
     \<and> (\<forall>s \<in> set (wb_fport b). fport_valid s) \<and> (\<forall>s \<in> set (wb_rport b). rport_valid s)
     \<and> (\<forall>c \<in> set (wb_ctx b). context_valid (wb_fport b) c)
     \<and> dialled_ports (wb_net b) \<subseteq> fs_port ` {s \<in> set (wb_fport b). fs_ready s}"

fun task_valid :: "ForwardBridge \<Rightarrow> forward_task \<Rightarrow> forward_phase \<Rightarrow> bool" where
  "task_valid b (FportRun a) p = (a < length (wb_fport b)
     \<and> (p = ForwardOpening \<longrightarrow> ss_target (wb_fport b ! a) = None)
     \<and> (p = ForwardOpening \<or> (\<exists>t. p = ForwardReading t) \<longrightarrow> \<not> fs_ready (wb_fport b ! a))
     \<and> ((\<exists>t. p = ForwardDraining t) \<longrightarrow> ss_closed (wb_fport b ! a)))"
| "task_valid b (RportRun a) p = (a < length (wb_rport b)
     \<and> (p = ForwardOpening \<longrightarrow> ss_target (wb_rport b ! a) = None)
     \<and> ((\<exists>t. p = ForwardDraining t) \<longrightarrow> ss_closed (wb_rport b ! a)))"
| "task_valid b (ContextRun a) p = (a < length (wb_ctx b)
     \<and> (p = ForwardDialling \<and> lc_conn (wb_ctx b ! a) = None \<or> p = ForwardLooping))"
| "task_valid b (AcceptRun a) p = (a < length (wb_rport b) \<and> p = ForwardLooping)"
| "task_valid b (ReverseRun a) p = (a < length (wb_rconn b) \<and> p = ForwardLooping)"
| "task_valid b (CheckTimer a) p = (a < length (wb_rport b) \<and> p = ForwardLooping)"

definition forward_tasks :: "ForwardBridge \<Rightarrow> bool" where
  "forward_tasks b \<longleftrightarrow> (\<forall>k p. map_of (wb_running b) k = Some p \<longrightarrow> task_valid b k p)
     \<and> (\<forall>a < length (wb_fport b). map_of (wb_running b) (FportRun a) = None \<longrightarrow> ss_closed (wb_fport b ! a))
     \<and> (\<forall>a < length (wb_rport b). map_of (wb_running b) (RportRun a) = None \<longrightarrow> ss_closed (wb_rport b ! a))"

definition forward_okx ::
    "nat set \<Rightarrow> nat set \<Rightarrow> nat set \<Rightarrow> nat set \<Rightarrow> ForwardBridge \<Rightarrow> bool" where
  "forward_okx F C R V b \<longleftrightarrow> forward_tables F C R V b \<and> forward_targets b \<and> forward_sockets b
     \<and> forward_valid b \<and> forward_tasks b"

abbreviation forward_ok :: "ForwardBridge \<Rightarrow> bool" where
  "forward_ok b \<equiv> forward_okx {} {} {} {} b"

lemma forward_okxD:
  assumes "forward_okx F C R V b"
  shows "forward_tables F C R V b" "forward_targets b" "forward_sockets b" "forward_valid b" "forward_tasks b"
    "tracks (wb_bindings b) ss_channelID ss_closed (wb_fport b) F"
    "tracks (wb_contexts b) lc_key lc_closed (wb_ctx b) C"
    "tracks (wb_reverseBindings b) ss_channelID ss_closed (wb_rport b) R"
    "tracks (wb_reverseConns b) lc_key lc_closed (wb_rconn b) V"
  using assms by (simp_all add: forward_okx_def forward_tables_def)

lemma forward_new_ok: "forward_ok (NewForwardBridge canOpen)"
  by (simp add: forward_okx_def NewForwardBridge_def forward_tables_def forward_targets_def
      forward_sockets_def forward_valid_def forward_tasks_def good_commands_def targets_in_def)

section \<open>Primitive changes\<close>

lemma forward_emit_sel [simp]:
  "wb_canOpen (forward_emit l b) = wb_canOpen b" "wb_bindings (forward_emit l b) = wb_bindings b"
  "wb_contexts (forward_emit l b) = wb_contexts b" "wb_reverseBindings (forward_emit l b) = wb_reverseBindings b"
  "wb_reverseConns (forward_emit l b) = wb_reverseConns b" "wb_closed (forward_emit l b) = wb_closed b"
  "wb_fport (forward_emit l b) = wb_fport b" "wb_ctx (forward_emit l b) = wb_ctx b"
  "wb_rport (forward_emit l b) = wb_rport b" "wb_rconn (forward_emit l b) = wb_rconn b"
  "wb_running (forward_emit l b) = wb_running b" "wb_log (forward_emit l b) = wb_log b @ l"
  "wb_net (forward_emit l b) = wb_net b"
  by (simp_all add: forward_emit_def)

lemma net_emit_sel [simp]:
  "wb_canOpen (net_emit l b) = wb_canOpen b" "wb_bindings (net_emit l b) = wb_bindings b"
  "wb_contexts (net_emit l b) = wb_contexts b" "wb_reverseBindings (net_emit l b) = wb_reverseBindings b"
  "wb_reverseConns (net_emit l b) = wb_reverseConns b" "wb_closed (net_emit l b) = wb_closed b"
  "wb_fport (net_emit l b) = wb_fport b" "wb_ctx (net_emit l b) = wb_ctx b"
  "wb_rport (net_emit l b) = wb_rport b" "wb_rconn (net_emit l b) = wb_rconn b"
  "wb_running (net_emit l b) = wb_running b" "wb_log (net_emit l b) = wb_log b"
  "wb_net (net_emit l b) = wb_net b @ l"
  by (simp_all add: net_emit_def)

lemma set_task_sel [simp]:
  "wb_canOpen (set_task k p b) = wb_canOpen b" "wb_bindings (set_task k p b) = wb_bindings b"
  "wb_contexts (set_task k p b) = wb_contexts b" "wb_reverseBindings (set_task k p b) = wb_reverseBindings b"
  "wb_reverseConns (set_task k p b) = wb_reverseConns b" "wb_closed (set_task k p b) = wb_closed b"
  "wb_fport (set_task k p b) = wb_fport b" "wb_ctx (set_task k p b) = wb_ctx b"
  "wb_rport (set_task k p b) = wb_rport b" "wb_rconn (set_task k p b) = wb_rconn b"
  "wb_running (set_task k p b) = AList.update k p (wb_running b)" "wb_log (set_task k p b) = wb_log b"
  "wb_net (set_task k p b) = wb_net b"
  by (simp_all add: set_task_def)

lemma end_task_sel [simp]:
  "wb_canOpen (end_task k b) = wb_canOpen b" "wb_bindings (end_task k b) = wb_bindings b"
  "wb_contexts (end_task k b) = wb_contexts b" "wb_reverseBindings (end_task k b) = wb_reverseBindings b"
  "wb_reverseConns (end_task k b) = wb_reverseConns b" "wb_closed (end_task k b) = wb_closed b"
  "wb_fport (end_task k b) = wb_fport b" "wb_ctx (end_task k b) = wb_ctx b"
  "wb_rport (end_task k b) = wb_rport b" "wb_rconn (end_task k b) = wb_rconn b"
  "wb_running (end_task k b) = AList.delete k (wb_running b)" "wb_log (end_task k b) = wb_log b"
  "wb_net (end_task k b) = wb_net b"
  by (simp_all add: end_task_def)

lemma task_valid_cong:
  "wb_fport b' = wb_fport b \<Longrightarrow> wb_rport b' = wb_rport b \<Longrightarrow> wb_ctx b' = wb_ctx b \<Longrightarrow>
   wb_rconn b' = wb_rconn b \<Longrightarrow> task_valid b' k p = task_valid b k p"
  by (cases k) simp_all

lemma task_valid_emit [simp]:
  "task_valid (forward_emit l b) k p = task_valid b k p" "task_valid (net_emit m b) k p = task_valid b k p"
  "task_valid (set_task j q b) k p = task_valid b k p" "task_valid (end_task j b) k p = task_valid b k p"
  by (rule task_valid_cong; simp)+

lemma emit_cong [simp]:
  "forward_tables F C R V (forward_emit l b) = forward_tables F C R V b"
  "forward_tables F C R V (net_emit m b) = forward_tables F C R V b"
  "forward_tables F C R V (set_task k p b) = forward_tables F C R V b"
  "forward_tables F C R V (end_task k b) = forward_tables F C R V b"
  "forward_sockets (forward_emit l b) = forward_sockets b" "forward_sockets (set_task k p b) = forward_sockets b"
  "forward_sockets (end_task k b) = forward_sockets b" "forward_targets (net_emit m b) = forward_targets b"
  "forward_valid (set_task k p b) = forward_valid b" "forward_valid (end_task k b) = forward_valid b"
  "forward_tasks (forward_emit l b) = forward_tasks b" "forward_tasks (net_emit m b) = forward_tasks b"
  by (simp_all add: forward_tables_def forward_sockets_def forward_targets_def forward_valid_def
      forward_tasks_def)

lemma good_commands_append [simp]: "good_commands (l @ m) \<longleftrightarrow> good_commands l \<and> good_commands m"
  by (auto simp: good_commands_def)

lemma good_commands_sent [simp]: "good_commands (sent ok f)" "good_commands []" "good_commands [TargetClosed t]"
  "good_commands (close_effects s)"
  by (simp_all add: good_commands_def)

lemma emit_ok:
  assumes "forward_okx F C R V b" "opened_targets l \<subseteq> closed_targets l" "good_commands l"
  shows "forward_okx F C R V (forward_emit l b)"
  using assms by (auto simp: forward_okx_def forward_valid_def forward_targets_def targets_in_def)

lemma sent_ok [intro]: "forward_okx F C R V b \<Longrightarrow> forward_okx F C R V (forward_emit (sent ok f) b)"
  by (rule emit_ok) simp_all

lemma send_frame_ok [intro]: "forward_okx F C R V b \<Longrightarrow> forward_okx F C R V (send_frame ok ch cmd ctx data b)"
  unfolding send_frame_def by (rule sent_ok)

lemma forward_reject_ok [intro]: "forward_okx F C R V b \<Longrightarrow> forward_okx F C R V (fst (forward_reject ok ch m b))"
  by (auto simp: forward_reject_def)

lemma net_ok:
  assumes "forward_okx F C R V b" "opened_conns l \<subseteq> closed_conns l" "opened_listeners l \<subseteq> closed_listeners l"
    "dialled_ports l \<subseteq> fs_port ` {s \<in> set (wb_fport b). fs_ready s}"
  shows "forward_okx F C R V (net_emit l b)"
  using assms by (auto simp: forward_okx_def forward_valid_def forward_sockets_def)

lemma net_net [simp]: "net_emit m (net_emit l b) = net_emit (l @ m) b"
  by (simp add: net_emit_def)

lemma net_emit_Nil [simp]: "net_emit [] b = b"
  by (simp add: net_emit_def)

lemma set_task_ok:
  assumes "forward_okx F C R V b" "task_valid b k p" "\<And>t. map_of (wb_running b) k \<noteq> Some (ForwardDraining t)"
  shows "forward_okx F C R V (set_task k p b)"
proof -
  have "draining (wb_running b) \<subseteq> draining (wb_running (set_task k p b))"
    using assms(3) by (fastforce simp: draining_def)
  then have "forward_targets (set_task k p b)"
    using assms(1) by (auto simp: forward_okx_def forward_targets_def targets_in_def)
  moreover have "forward_tasks (set_task k p b)"
    using assms(1,2) by (auto simp: forward_okx_def forward_tasks_def)
  ultimately show ?thesis using assms(1) by (simp add: forward_okx_def)
qed

lemma end_task_ok:
  assumes "forward_okx F C R V b" "\<And>a. k = FportRun a \<Longrightarrow> ss_closed (wb_fport b ! a)"
    "\<And>a. k = RportRun a \<Longrightarrow> ss_closed (wb_rport b ! a)" "\<And>t. map_of (wb_running b) k \<noteq> Some (ForwardDraining t)"
  shows "forward_okx F C R V (end_task k b)"
proof -
  have "draining (wb_running b) \<subseteq> draining (wb_running (end_task k b))"
    using assms(4) by (fastforce simp: draining_def)
  then have "forward_targets (end_task k b)"
    using assms(1) by (auto simp: forward_okx_def forward_targets_def targets_in_def)
  moreover have "forward_tasks (end_task k b)"
    using assms(1-3) by (auto simp: forward_okx_def forward_tasks_def)
  ultimately show ?thesis using assms(1) by (simp add: forward_okx_def)
qed

section \<open>Changing one object\<close>

lemma context_valid_put:
  assumes "context_valid h c" "fs_ready (h ! a) \<longrightarrow> fs_ready s"
  shows "context_valid (h[a := s]) c"
  using assms by (cases "cx_binding c = a") (auto simp: context_valid_def)

lemma tasksI:
  assumes "\<And>k p. map_of (wb_running b) k = Some p \<Longrightarrow> task_valid b k p"
    "\<And>a. a < length (wb_fport b) \<Longrightarrow> map_of (wb_running b) (FportRun a) = None \<Longrightarrow> ss_closed (wb_fport b ! a)"
    "\<And>a. a < length (wb_rport b) \<Longrightarrow> map_of (wb_running b) (RportRun a) = None \<Longrightarrow> ss_closed (wb_rport b ! a)"
  shows "forward_tasks b"
  using assms by (simp add: forward_tasks_def)

lemma tasksD:
  assumes "forward_tasks b"
  shows "map_of (wb_running b) k = Some p \<Longrightarrow> task_valid b k p"
    "a < length (wb_fport b) \<Longrightarrow> map_of (wb_running b) (FportRun a) = None \<Longrightarrow> ss_closed (wb_fport b ! a)"
    "a < length (wb_rport b) \<Longrightarrow> map_of (wb_running b) (RportRun a) = None \<Longrightarrow> ss_closed (wb_rport b ! a)"
  using assms by (simp_all add: forward_tasks_def)

lemma ctx_update_ok:
  assumes b: "forward_okx F C R V b" and a: "a < length (wb_ctx b)"
    and t: "tracks (wb_contexts b) lc_key lc_closed ((wb_ctx b)[a := c]) C'"
    and c: "cx_binding c = cx_binding (wb_ctx b ! a)"
    and h: "held_conns [wb_ctx b ! a] \<union> opened_conns l \<subseteq> closed_conns l \<union> held_conns [c]"
    and l: "opened_listeners l = {}" "dialled_ports l \<subseteq> {fs_port (wb_fport b ! cx_binding c)}"
    and p: "map_of (wb_running b) (ContextRun a) = Some ForwardDialling \<longrightarrow> lc_conn c = None"
  shows "forward_okx F C' R V (net_emit l (b\<lparr>wb_ctx := (wb_ctx b)[a := c]\<rparr>))" (is "forward_okx _ _ _ _ ?b")
proof -
  note d = forward_okxD [OF b]
  have "forward_tables F C' R V ?b" using d(1) t by (simp add: forward_tables_def)
  moreover have "forward_targets ?b" using d(2) by (simp add: forward_targets_def)
  moreover have "forward_sockets ?b"
    using d(3) h l held_conns_update [OF a, of c] held_conns_new [OF a, of c]
    by (auto simp: forward_sockets_def split: if_splits)
  moreover have "forward_tasks ?b"
  proof (rule tasksI)
    fix k q
    assume "map_of (wb_running ?b) k = Some q"
    then have q: "map_of (wb_running b) k = Some q" by simp
    show "task_valid ?b k q"
      using tasksD(1) [OF d(5) q] p q a by (cases k) (auto simp: nth_list_update)
  qed (use tasksD(2,3) [OF d(5)] in simp_all)
  moreover have "forward_valid ?b"
  proof -
    have v: "context_valid (wb_fport b) x" if "x \<in> set (wb_ctx b)" for x
      using d(4) that by (simp add: forward_valid_def)
    have cv: "context_valid (wb_fport b) c" using v [OF nth_mem [OF a]] c by (simp add: context_valid_def)
    then have "fs_port (wb_fport b ! cx_binding c) \<in> fs_port ` {s \<in> set (wb_fport b). fs_ready s}"
      by (auto simp: context_valid_def)
    with cv show ?thesis
      using d(4) l v set_update_subset_insert [of "wb_ctx b" a c] by (auto simp: forward_valid_def)
  qed
  ultimately show ?thesis by (simp add: forward_okx_def)
qed

lemma rconn_update_ok:
  assumes b: "forward_okx F C R V b" and a: "a < length (wb_rconn b)"
    and t: "tracks (wb_reverseConns b) lc_key lc_closed ((wb_rconn b)[a := c]) V'"
    and h: "held_conns [wb_rconn b ! a] \<subseteq> closed_conns l \<union> held_conns [c]"
    and l: "opened_conns l = {}" "opened_listeners l = {}" "dialled_ports l = {}"
  shows "forward_okx F C R V' (net_emit l (b\<lparr>wb_rconn := (wb_rconn b)[a := c]\<rparr>))" (is "forward_okx _ _ _ _ ?b")
proof -
  note d = forward_okxD [OF b]
  have "forward_tables F C R V' ?b" using d(1) t by (simp add: forward_tables_def)
  moreover have "forward_targets ?b" using d(2) by (simp add: forward_targets_def)
  moreover have "forward_sockets ?b"
    using d(3) h l held_conns_update [OF a, of c] held_conns_new [OF a, of c]
    by (auto simp: forward_sockets_def split: if_splits)
  moreover have "forward_tasks ?b"
  proof (rule tasksI)
    fix k q
    assume "map_of (wb_running ?b) k = Some q"
    then have q: "map_of (wb_running b) k = Some q" by simp
    show "task_valid ?b k q" using tasksD(1) [OF d(5) q] by (cases k) auto
  qed (use tasksD(2,3) [OF d(5)] in simp_all)
  moreover have "forward_valid ?b" using d(4) l by (simp add: forward_valid_def)
  ultimately show ?thesis by (simp add: forward_okx_def)
qed

lemma fport_update_ok:
  assumes b: "forward_okx F C R V b" and a: "a < length (wb_fport b)"
    and t: "tracks (wb_bindings b) ss_channelID ss_closed ((wb_fport b)[a := s]) F'"
    and h: "held_targets [wb_fport b ! a] \<union> opened_targets l \<subseteq> closed_targets l \<union> held_targets [s]"
    and l: "good_commands l"
    and s: "fport_valid s" "fs_port s = fs_port (wb_fport b ! a)" "fs_ready (wb_fport b ! a) \<longrightarrow> fs_ready s"
      "ss_closed (wb_fport b ! a) \<longrightarrow> ss_closed s"
    and p: "\<And>q. map_of (wb_running b) (FportRun a) = Some q \<Longrightarrow> (q = ForwardOpening \<longrightarrow> ss_target s = None)
      \<and> (q = ForwardOpening \<or> (\<exists>t. q = ForwardReading t) \<longrightarrow> \<not> fs_ready s)"
  shows "forward_okx F' C R V (forward_emit l (put_fport a s b))" (is "forward_okx _ _ _ _ ?b")
proof -
  note d = forward_okxD [OF b]
  have "forward_tables F' C R V ?b" using d(1) t by (simp add: forward_tables_def put_fport_def)
  moreover have "forward_targets ?b"
    using d(2) h held_update [OF a, of s] held_update_new [OF a, of s]
    by (auto simp: forward_targets_def targets_in_def put_fport_def split: if_splits)
  moreover have "forward_sockets ?b" using d(3) by (simp add: forward_sockets_def put_fport_def)
  moreover have "forward_tasks ?b"
  proof (rule tasksI)
    fix k q
    assume "map_of (wb_running ?b) k = Some q"
    then have q: "map_of (wb_running b) k = Some q" by (simp add: put_fport_def)
    show "task_valid ?b k q"
      using tasksD(1) [OF d(5) q] p q a s(4) by (cases k) (auto simp: nth_list_update put_fport_def)
  qed (use tasksD(2,3) [OF d(5)] s(4) a in \<open>auto simp: put_fport_def nth_list_update\<close>)
  moreover have "forward_valid ?b"
  proof -
    have "fs_port ` {s \<in> set (wb_fport b). fs_ready s} \<subseteq> fs_port ` {x \<in> set ((wb_fport b)[a := s]). fs_ready x}"
    proof
      fix x
      assume "x \<in> fs_port ` {s \<in> set (wb_fport b). fs_ready s}"
      then obtain i where i: "i < length (wb_fport b)" "fs_ready (wb_fport b ! i)" "fs_port (wb_fport b ! i) = x"
        by (auto simp: in_set_conv_nth)
      then have "fs_ready ((wb_fport b)[a := s] ! i)" "fs_port ((wb_fport b)[a := s] ! i) = x"
        using s(2,3) by (cases "i = a"; simp)+
      moreover have "(wb_fport b)[a := s] ! i \<in> set ((wb_fport b)[a := s])" using i by simp
      ultimately show "x \<in> fs_port ` {x \<in> set ((wb_fport b)[a := s]). fs_ready x}"
        using image_eqI by fastforce
    qed
    then show ?thesis
      using d(4) l s(1,3) set_update_subset_insert [of "wb_fport b" a s] context_valid_put [of "wb_fport b" _ a s]
      by (auto simp: forward_valid_def put_fport_def)
  qed
  ultimately show ?thesis by (simp add: forward_okx_def)
qed

lemma rport_update_ok:
  assumes b: "forward_okx F C R V b" and a: "a < length (wb_rport b)"
    and t: "tracks (wb_reverseBindings b) ss_channelID ss_closed ((wb_rport b)[a := s]) R'"
    and h: "held_targets [wb_rport b ! a] \<union> opened_targets l \<subseteq> closed_targets l \<union> held_targets [s]"
    and l: "good_commands l"
    and s: "rport_valid s" "ss_closed (wb_rport b ! a) \<longrightarrow> ss_closed s" "rv_listener s = rv_listener (wb_rport b ! a)"
    and m: "ss_closed s \<longrightarrow> ss_closed (wb_rport b ! a) \<or> rv_listener s \<in> closed_listeners m"
      "opened_conns m = {}" "opened_listeners m = {}" "dialled_ports m = {}"
    and p: "map_of (wb_running b) (RportRun a) = Some ForwardOpening \<longrightarrow> ss_target s = None"
  shows "forward_okx F C R' V (net_emit m (forward_emit l (put_rport a s b)))" (is "forward_okx _ _ _ _ ?b")
proof -
  note d = forward_okxD [OF b]
  have "forward_tables F C R' V ?b" using d(1) t by (simp add: forward_tables_def put_rport_def)
  moreover have "forward_targets ?b"
    using d(2) h held_update [OF a, of s] held_update_new [OF a, of s]
    by (auto simp: forward_targets_def targets_in_def put_rport_def split: if_splits)
  moreover have "forward_sockets ?b"
  proof -
    have "held_listeners (wb_rport b) \<subseteq> held_listeners ((wb_rport b)[a := s]) \<union> closed_listeners m"
    proof (cases "ss_closed s \<and> \<not> ss_closed (wb_rport b ! a)")
      case True
      then show ?thesis using held_listeners_update [OF a, of s] m(1) s(3) by (auto split: if_splits)
    next
      case False
      then show ?thesis using held_listeners_same [OF a, of s] s(3) by auto
    qed
    then show ?thesis using d(3) m by (auto simp: forward_sockets_def put_rport_def)
  qed
  moreover have "forward_tasks ?b"
  proof (rule tasksI)
    fix k q
    assume "map_of (wb_running ?b) k = Some q"
    then have q: "map_of (wb_running b) k = Some q" by (simp add: put_rport_def)
    show "task_valid ?b k q"
      using tasksD(1) [OF d(5) q] p q a s(2) by (cases k) (auto simp: nth_list_update put_rport_def)
  qed (use tasksD(2,3) [OF d(5)] s(2) a in \<open>auto simp: put_rport_def nth_list_update\<close>)
  moreover have "forward_valid ?b"
    using d(4) l s(1) m set_update_subset_insert [of "wb_rport b" a s]
    by (auto simp: forward_valid_def put_rport_def)
  ultimately show ?thesis by (simp add: forward_okx_def)
qed

lemma map_ok:
  assumes "forward_okx F C R V b"
  shows "tracks m ss_channelID ss_closed (wb_fport b) F' \<Longrightarrow> (wb_closed b \<longrightarrow> m = []) \<Longrightarrow>
      forward_okx F' C R V (b\<lparr>wb_bindings := m\<rparr>)"
    "tracks n lc_key lc_closed (wb_ctx b) C' \<Longrightarrow> (wb_closed b \<longrightarrow> n = []) \<Longrightarrow>
      forward_okx F C' R V (b\<lparr>wb_contexts := n\<rparr>)"
    "tracks m ss_channelID ss_closed (wb_rport b) R' \<Longrightarrow> (wb_closed b \<longrightarrow> m = []) \<Longrightarrow>
      forward_okx F C R' V (b\<lparr>wb_reverseBindings := m\<rparr>)"
    "tracks n lc_key lc_closed (wb_rconn b) V' \<Longrightarrow> (wb_closed b \<longrightarrow> n = []) \<Longrightarrow>
      forward_okx F C R V' (b\<lparr>wb_reverseConns := n\<rparr>)"
  using assms
  by (simp_all add: forward_okx_def forward_tables_def forward_targets_def forward_sockets_def
      forward_valid_def forward_tasks_def task_valid_cong [of "b\<lparr>wb_bindings := m\<rparr>" b]
      task_valid_cong [of "b\<lparr>wb_contexts := n\<rparr>" b] task_valid_cong [of "b\<lparr>wb_reverseBindings := m\<rparr>" b]
      task_valid_cong [of "b\<lparr>wb_reverseConns := n\<rparr>" b])

section \<open>Closing and removing\<close>

lemma held_conns_close: "held_conns [c] \<subseteq> closed_conns (conn_effects c) \<union> held_conns [close_conn c]"
  by simp

lemma context_close_ok:
  assumes b: "forward_okx F C R V b" and a: "a < length (wb_ctx b)"
  shows "forward_okx F (C - {a}) R V (context_close notify ok a b)"
proof (cases "lc_closed (wb_ctx b ! a)")
  case True
  then have "tracks (wb_contexts b) lc_key lc_closed (wb_ctx b) (C - {a})"
    using tracks_closed [where closed = lc_closed, OF forward_okxD(7) [OF b]] by simp
  then have "forward_okx F (C - {a}) R V b" using b by (simp add: forward_okx_def forward_tables_def)
  then show ?thesis using True by (simp add: context_close_def)
next
  case False
  let ?c = "wb_ctx b ! a"
  have "forward_okx F (C - {a}) R V (net_emit (conn_effects ?c) (b\<lparr>wb_ctx := (wb_ctx b)[a := close_conn ?c]\<rparr>))"
  proof (rule ctx_update_ok [OF b a])
    show "tracks (wb_contexts b) lc_key lc_closed ((wb_ctx b)[a := close_conn ?c]) (C - {a})"
      by (rule tracks_close [OF forward_okxD(7) [OF b]]) simp_all
  qed (use False in \<open>auto simp: close_conn_def\<close>)
  then show ?thesis using False by (auto simp: context_close_def Let_def)
qed

lemma reverse_close_ok:
  assumes b: "forward_okx F C R V b" and a: "a < length (wb_rconn b)"
  shows "forward_okx F C R (V - {a}) (reverse_close notify ok a b)"
proof (cases "lc_closed (wb_rconn b ! a)")
  case True
  then have "tracks (wb_reverseConns b) lc_key lc_closed (wb_rconn b) (V - {a})"
    using tracks_closed [where closed = lc_closed, OF forward_okxD(9) [OF b]] by simp
  then have "forward_okx F C R (V - {a}) b" using b by (simp add: forward_okx_def forward_tables_def)
  then show ?thesis using True by (simp add: reverse_close_def)
next
  case False
  let ?c = "wb_rconn b ! a"
  have "forward_okx F C R (V - {a}) (net_emit (conn_effects ?c) (b\<lparr>wb_rconn := (wb_rconn b)[a := close_conn ?c]\<rparr>))"
  proof (rule rconn_update_ok [OF b a])
    show "tracks (wb_reverseConns b) lc_key lc_closed ((wb_rconn b)[a := close_conn ?c]) (V - {a})"
      by (rule tracks_close [OF forward_okxD(9) [OF b]]) simp_all
  qed (auto simp: close_conn_def)
  then show ?thesis using False by (auto simp: reverse_close_def Let_def)
qed

lemma setup_close_sel [simp]:
  "fs_ready (close_session s) = fs_ready s" "fs_port (close_session s) = fs_port s"
  "setupSuccessful (close_session s) = setupSuccessful s"
  by (simp_all add: close_session_def setupSuccessful_def)

lemma binding_close_sel [simp]:
  "fw_remoteEndpoint (close_session s) = fw_remoteEndpoint s" "rv_deviceEndpoint (close_session r) = rv_deviceEndpoint r"
  "rv_hostEndpoint (close_session r) = rv_hostEndpoint r" "rv_listener (close_session r) = rv_listener r"
  by (simp_all add: close_session_def)

lemma valid_close [simp]:
  "fport_valid (close_session s) = fport_valid s" "rport_valid (close_session r) = rport_valid r"
  by (simp_all add: fport_valid_def rport_valid_def)

lemma valid_nth:
  assumes "forward_okx F C R V b"
  shows "a < length (wb_fport b) \<Longrightarrow> fport_valid (wb_fport b ! a)"
    "a < length (wb_rport b) \<Longrightarrow> rport_valid (wb_rport b ! a)"
    "a < length (wb_ctx b) \<Longrightarrow> context_valid (wb_fport b) (wb_ctx b ! a)"
  using assms by (simp_all add: forward_okx_def forward_valid_def)

lemma fport_task:
  "forward_okx F C R V b \<Longrightarrow> map_of (wb_running b) (FportRun a) = Some q \<Longrightarrow> task_valid b (FportRun a) q"
  by (rule tasksD(1)) (simp add: forward_okx_def)

lemma fport_close_ok:
  assumes b: "forward_okx F C R V b" and a: "a < length (wb_fport b)"
  shows "forward_okx (F - {a}) C R V (fport_close a b)"
proof (cases "ss_closed (wb_fport b ! a)")
  case True
  then have "tracks (wb_bindings b) ss_channelID ss_closed (wb_fport b) (F - {a})"
    using tracks_closed [where closed = ss_closed, OF forward_okxD(6) [OF b]] by simp
  then have "forward_okx (F - {a}) C R V b" using b by (simp add: forward_okx_def forward_tables_def)
  then show ?thesis using True by (simp add: fport_close_def)
next
  case False
  let ?s = "wb_fport b ! a"
  have "forward_okx (F - {a}) C R V (forward_emit (close_effects ?s) (put_fport a (close_session ?s) b))"
  proof (rule fport_update_ok [OF b a])
    show "tracks (wb_bindings b) ss_channelID ss_closed ((wb_fport b)[a := close_session ?s]) (F - {a})"
      by (rule tracks_close [OF forward_okxD(6) [OF b]]) simp_all
    show "(q = ForwardOpening \<longrightarrow> ss_target (close_session ?s) = None)
        \<and> (q = ForwardOpening \<or> (\<exists>t. q = ForwardReading t) \<longrightarrow> \<not> fs_ready (close_session ?s))"
      if "map_of (wb_running b) (FportRun a) = Some q" for q
      using fport_task [OF b that] by (auto simp: close_session_def)
  qed (use valid_nth(1) [OF b a] in simp_all)
  then show ?thesis using False by (simp add: fport_close_def Let_def)
qed

lemma rport_close_ok:
  assumes b: "forward_okx F C R V b" and a: "a < length (wb_rport b)"
  shows "forward_okx F C (R - {a}) V (rport_close a b)"
proof (cases "ss_closed (wb_rport b ! a)")
  case True
  then have "tracks (wb_reverseBindings b) ss_channelID ss_closed (wb_rport b) (R - {a})"
    using tracks_closed [where closed = ss_closed, OF forward_okxD(8) [OF b]] by simp
  then have "forward_okx F C (R - {a}) V b" using b by (simp add: forward_okx_def forward_tables_def)
  then show ?thesis using True by (simp add: rport_close_def)
next
  case False
  let ?s = "wb_rport b ! a"
  have "forward_okx F C (R - {a}) V (net_emit [ListenerClosed (rv_listener ?s)]
      (forward_emit (close_effects ?s) (put_rport a (close_session ?s) b)))"
  proof (rule rport_update_ok [OF b a])
    show "tracks (wb_reverseBindings b) ss_channelID ss_closed ((wb_rport b)[a := close_session ?s]) (R - {a})"
      by (rule tracks_close [OF forward_okxD(8) [OF b]]) simp_all
    show "map_of (wb_running b) (RportRun a) = Some ForwardOpening \<longrightarrow> ss_target (close_session ?s) = None"
      using tasksD(1) [OF forward_okxD(5) [OF b], of "RportRun a"] by (auto simp: close_session_def)
  qed (use valid_nth(2) [OF b a] in simp_all)
  then show ?thesis using False by (simp add: rport_close_def Let_def)
qed

text \<open>A closing keeps the heaps as long as they are.\<close>

lemma closing_lengths [simp]:
  "length (wb_ctx (context_close n ok a b)) = length (wb_ctx b)"
  "length (wb_rconn (context_close n ok a b)) = length (wb_rconn b)"
  "length (wb_fport (context_close n ok a b)) = length (wb_fport b)"
  "length (wb_rport (context_close n ok a b)) = length (wb_rport b)"
  "length (wb_ctx (reverse_close n ok a b)) = length (wb_ctx b)"
  "length (wb_rconn (reverse_close n ok a b)) = length (wb_rconn b)"
  "length (wb_fport (reverse_close n ok a b)) = length (wb_fport b)"
  "length (wb_rport (reverse_close n ok a b)) = length (wb_rport b)"
  "length (wb_ctx (fport_close a b)) = length (wb_ctx b)" "length (wb_rconn (fport_close a b)) = length (wb_rconn b)"
  "length (wb_fport (fport_close a b)) = length (wb_fport b)" "length (wb_rport (fport_close a b)) = length (wb_rport b)"
  "length (wb_ctx (rport_close a b)) = length (wb_ctx b)" "length (wb_rconn (rport_close a b)) = length (wb_rconn b)"
  "length (wb_fport (rport_close a b)) = length (wb_fport b)" "length (wb_rport (rport_close a b)) = length (wb_rport b)"
  by (simp_all add: context_close_def reverse_close_def fport_close_def rport_close_def Let_def send_frame_def
      put_fport_def put_rport_def)

lemma fold_lengths [simp]:
  "length (wb_ctx (fold (context_close n ok) as b)) = length (wb_ctx b)"
  "length (wb_rconn (fold (context_close n ok) as b)) = length (wb_rconn b)"
  "length (wb_fport (fold (context_close n ok) as b)) = length (wb_fport b)"
  "length (wb_rport (fold (context_close n ok) as b)) = length (wb_rport b)"
  "length (wb_ctx (fold (reverse_close n ok) as b)) = length (wb_ctx b)"
  "length (wb_rconn (fold (reverse_close n ok) as b)) = length (wb_rconn b)"
  "length (wb_fport (fold (reverse_close n ok) as b)) = length (wb_fport b)"
  "length (wb_rport (fold (reverse_close n ok) as b)) = length (wb_rport b)"
  "length (wb_fport (fold fport_close as b)) = length (wb_fport b)"
  "length (wb_rport (fold fport_close as b)) = length (wb_rport b)"
  by (induction as arbitrary: b) simp_all

lemma close_contexts_ok:
  "forward_okx F C R V b \<Longrightarrow> list_all (\<lambda>a. a < length (wb_ctx b)) as \<Longrightarrow>
   forward_okx F (C - set as) R V (fold (context_close n ok) as b)"
proof (induction as arbitrary: b C)
  case (Cons a as)
  then show ?case using Cons.IH [of "C - {a}" "context_close n ok a b"] context_close_ok [of F C R V b a n ok]
    by (simp add: Diff_insert2 [symmetric])
qed simp

lemma close_reverses_ok:
  "forward_okx F C R V b \<Longrightarrow> list_all (\<lambda>a. a < length (wb_rconn b)) as \<Longrightarrow>
   forward_okx F C R (V - set as) (fold (reverse_close n ok) as b)"
proof (induction as arbitrary: b V)
  case (Cons a as)
  then show ?case using Cons.IH [of "V - {a}" "reverse_close n ok a b"] reverse_close_ok [of F C R V b a n ok]
    by (simp add: Diff_insert2 [symmetric])
qed simp

lemma close_fports_ok:
  "forward_okx F C R V b \<Longrightarrow> list_all (\<lambda>a. a < length (wb_fport b)) as \<Longrightarrow>
   forward_okx (F - set as) C R V (fold fport_close as b)"
proof (induction as arbitrary: b F)
  case (Cons a as)
  then show ?case using Cons.IH [of "F - {a}" "fport_close a b"] fport_close_ok [of F C R V b a]
    by (simp add: Diff_insert2 [symmetric])
qed simp

lemma close_rports_ok:
  "forward_okx F C R V b \<Longrightarrow> list_all (\<lambda>a. a < length (wb_rport b)) as \<Longrightarrow>
   forward_okx F C (R - set as) V (fold rport_close as b)"
proof (induction as arbitrary: b R)
  case (Cons a as)
  then show ?case using Cons.IH [of "R - {a}" "rport_close a b"] rport_close_ok [of F C R V b a]
    by (simp add: Diff_insert2 [symmetric])
qed simp

lemma close_all_okx:
  "forward_okx F (set as) R V b \<Longrightarrow> list_all (\<lambda>a. a < length (wb_ctx b)) as \<Longrightarrow>
   forward_okx F {} R V (fold (context_close n ok) as b)"
  "forward_okx F C R (set as) b \<Longrightarrow> list_all (\<lambda>a. a < length (wb_rconn b)) as \<Longrightarrow>
   forward_okx F C R {} (fold (reverse_close n ok) as b)"
  "forward_okx (set as) C R V b \<Longrightarrow> list_all (\<lambda>a. a < length (wb_fport b)) as \<Longrightarrow>
   forward_okx {} C R V (fold fport_close as b)"
  "forward_okx F C (set as) V b \<Longrightarrow> list_all (\<lambda>a. a < length (wb_rport b)) as \<Longrightarrow>
   forward_okx F C {} V (fold rport_close as b)"
  using close_contexts_ok [of F "set as" R V b as n ok] close_reverses_ok [of F C R "set as" b as n ok]
    close_fports_ok [of "set as" C R V b as] close_rports_ok [of F C "set as" V b as] by simp_all

end
