(* ===== verification/Forward_Steps.thy ===== *)
theory Forward_Steps
  imports Forward_Invariant
begin

text \<open>
  Every step of the forward bridge keeps its invariant: removing and closing, the handlers, the
  goroutines of forwards and of reverse forwards.
\<close>

section \<open>Removing\<close>

lemma delete_if_tracks:
  assumes "tracks m key closed h X"
  shows "tracks (delete_if k a m) key closed h (insert a X)"
  using assms by (auto simp: delete_if_def intro: tracks_delete tracks_mono)

lemma delete_if_Nil [simp]: "delete_if k a [] = []"
  by (simp add: delete_if_def)

lemma channel_parts:
  "of_channel ch m = map snd (filter (\<lambda>(k, _). fst k = ch) m)"
  "not_of_channel ch m = filter (\<lambda>(k, _). \<not> fst k = ch) m"
  by (simp_all add: of_channel_def not_of_channel_def)

lemma not_of_channel_Nil [simp]: "not_of_channel ch [] = []"
  by (simp add: not_of_channel_def)

lemma not_of_channel_tracks:
  "tracks m key closed h X \<Longrightarrow> tracks (not_of_channel ch m) key closed h (X \<union> set (of_channel ch m))"
  unfolding channel_parts by (rule tracks_filter)

lemma entry_bound: "tracks m key closed h X \<Longrightarrow> (k, a) \<in> set m \<Longrightarrow> a < length h"
  by (meson map_of_is_SomeI tracksD(1,2))

lemma entries_bound: "tracks m key closed h X \<Longrightarrow> list_all (\<lambda>a. a < length h) (map snd m)"
  by (auto simp: list_all_iff dest: entry_bound)

lemma of_channel_bound: "tracks m key closed h X \<Longrightarrow> list_all (\<lambda>a. a < length h) (of_channel ch m)"
  by (auto simp: list_all_iff of_channel_def dest: entry_bound)

lemma closed_Nil:
  assumes "forward_okx F C R V b" "wb_closed b"
  shows "wb_bindings b = []" "wb_contexts b = []" "wb_reverseBindings b = []" "wb_reverseConns b = []"
  using assms by (simp_all add: forward_okx_def forward_tables_def)

lemma removal_lengths [simp]:
  "length (wb_ctx (removeContext a b)) = length (wb_ctx b)" "length (wb_rconn (removeContext a b)) = length (wb_rconn b)"
  "length (wb_fport (removeContext a b)) = length (wb_fport b)" "length (wb_rport (removeContext a b)) = length (wb_rport b)"
  "length (wb_ctx (removeReverseConn a b)) = length (wb_ctx b)"
  "length (wb_rconn (removeReverseConn a b)) = length (wb_rconn b)"
  "length (wb_fport (removeReverseConn a b)) = length (wb_fport b)"
  "length (wb_rport (removeReverseConn a b)) = length (wb_rport b)"
  "length (wb_ctx (removeBinding a b)) = length (wb_ctx b)" "length (wb_rconn (removeBinding a b)) = length (wb_rconn b)"
  "length (wb_fport (removeBinding a b)) = length (wb_fport b)" "length (wb_rport (removeBinding a b)) = length (wb_rport b)"
  "length (wb_ctx (removeReverseBinding a b)) = length (wb_ctx b)"
  "length (wb_rconn (removeReverseBinding a b)) = length (wb_rconn b)"
  "length (wb_fport (removeReverseBinding a b)) = length (wb_fport b)"
  "length (wb_rport (removeReverseBinding a b)) = length (wb_rport b)"
  by (simp_all add: removeContext_def removeReverseConn_def removeBinding_def removeReverseBinding_def
      drop_contexts_def drop_reverses_def Let_def)

lemma drop_context_ok:
  assumes b: "forward_okx F {} R V b" and a: "a < length (wb_ctx b)"
  shows "forward_okx F {} R V (context_close n ok a (removeContext a b))"
proof -
  have "forward_okx F {a} R V (removeContext a b)"
    unfolding removeContext_def
    by (rule map_ok(2) [OF b delete_if_tracks [OF forward_okxD(7) [OF b]]]) (simp add: closed_Nil [OF b])
  then show ?thesis using context_close_ok [of F "{a}" R V "removeContext a b" a n ok] a by simp
qed

lemma drop_reverse_ok:
  assumes b: "forward_okx F C R {} b" and a: "a < length (wb_rconn b)"
  shows "forward_okx F C R {} (reverse_close n ok a (removeReverseConn a b))"
proof -
  have "forward_okx F C R {a} (removeReverseConn a b)"
    unfolding removeReverseConn_def
    by (rule map_ok(4) [OF b delete_if_tracks [OF forward_okxD(9) [OF b]]]) (simp add: closed_Nil [OF b])
  then show ?thesis using reverse_close_ok [of F C R "{a}" "removeReverseConn a b" a n ok] a by simp
qed

lemma drop_contexts_ok:
  assumes b: "forward_okx F {} R V b"
  shows "forward_okx F {} R V (drop_contexts ch b)"
proof -
  let ?as = "of_channel ch (wb_contexts b)" and ?b = "b\<lparr>wb_contexts := not_of_channel ch (wb_contexts b)\<rparr>"
  note t = forward_okxD(7) [OF b]
  have "forward_okx F ({} \<union> set ?as) R V ?b"
    by (rule map_ok(2) [OF b not_of_channel_tracks [OF t]]) (simp add: closed_Nil [OF b])
  then have "forward_okx F (set ?as) R V ?b" by simp
  from close_all_okx(1) [OF this] of_channel_bound [OF t] show ?thesis by (simp add: drop_contexts_def)
qed

lemma drop_reverses_ok:
  assumes b: "forward_okx F C R {} b"
  shows "forward_okx F C R {} (drop_reverses ch b)"
proof -
  let ?as = "of_channel ch (wb_reverseConns b)" and ?b = "b\<lparr>wb_reverseConns := not_of_channel ch (wb_reverseConns b)\<rparr>"
  note t = forward_okxD(9) [OF b]
  have "forward_okx F C R ({} \<union> set ?as) ?b"
    by (rule map_ok(4) [OF b not_of_channel_tracks [OF t]]) (simp add: closed_Nil [OF b])
  then have "forward_okx F C R (set ?as) ?b" by simp
  from close_all_okx(2) [OF this] of_channel_bound [OF t] show ?thesis by (simp add: drop_reverses_def)
qed

lemma drop_fport_ok:
  assumes b: "forward_ok b" and a: "a < length (wb_fport b)"
  shows "forward_ok (fport_close a (removeBinding a b))"
proof -
  have "forward_okx {a} {} {} {} (b\<lparr>wb_bindings := delete_if (ss_channelID (wb_fport b ! a)) a (wb_bindings b)\<rparr>)"
    by (rule map_ok(1) [OF b delete_if_tracks [OF forward_okxD(6) [OF b]]]) (simp add: closed_Nil [OF b])
  then have "forward_okx {a} {} {} {} (removeBinding a b)" by (simp add: removeBinding_def Let_def drop_contexts_ok)
  then show ?thesis using fport_close_ok [of "{a}" "{}" "{}" "{}" "removeBinding a b" a] a by simp
qed

lemma drop_rport_ok:
  assumes b: "forward_ok b" and a: "a < length (wb_rport b)"
  shows "forward_ok (rport_close a (removeReverseBinding a b))"
proof -
  have "forward_okx {} {} {a} {} (b\<lparr>wb_reverseBindings := delete_if (ss_channelID (wb_rport b ! a)) a (wb_reverseBindings b)\<rparr>)"
    by (rule map_ok(3) [OF b delete_if_tracks [OF forward_okxD(8) [OF b]]]) (simp add: closed_Nil [OF b])
  then have "forward_okx {} {} {a} {} (removeReverseBinding a b)"
    by (simp add: removeReverseBinding_def Let_def drop_reverses_ok)
  then show ?thesis using rport_close_ok [of "{}" "{}" "{a}" "{}" "removeReverseBinding a b" a] a by simp
qed

lemma forward_close_channel_ok:
  assumes b: "forward_ok b"
  shows "forward_ok (forward_CloseChannel ch b)"
proof -
  note d = forward_okxD(6-9) [OF b] and cl = closed_Nil [OF b]
  let ?F = "set_option (map_of (wb_bindings b) ch)" and ?R = "set_option (map_of (wb_reverseBindings b) ch)"
    and ?C = "of_channel ch (wb_contexts b)" and ?V = "of_channel ch (wb_reverseConns b)"
  define b1 where "b1 = b\<lparr>wb_bindings := AList.delete ch (wb_bindings b),
    wb_contexts := not_of_channel ch (wb_contexts b), wb_reverseBindings := AList.delete ch (wb_reverseBindings b),
    wb_reverseConns := not_of_channel ch (wb_reverseConns b)\<rparr>"
  have "tracks (wb_bindings b1) ss_channelID ss_closed (wb_fport b1) ?F"
    "tracks (wb_reverseBindings b1) ss_channelID ss_closed (wb_rport b1) ?R"
    by (auto simp: b1_def intro!: tracks_delete [OF d(1)] tracks_delete [OF d(3)])
  moreover have "tracks (wb_contexts b1) lc_key lc_closed (wb_ctx b1) (set ?C)"
    "tracks (wb_reverseConns b1) lc_key lc_closed (wb_rconn b1) (set ?V)"
    using not_of_channel_tracks [OF d(2), of ch] not_of_channel_tracks [OF d(4), of ch] by (simp_all add: b1_def)
  ultimately have "forward_tables ?F (set ?C) ?R (set ?V) b1"
    using cl by (simp add: forward_tables_def b1_def)
  then have "forward_okx ?F (set ?C) ?R (set ?V) b1"
    using b by (simp add: forward_okx_def forward_targets_def forward_sockets_def forward_valid_def
        forward_tasks_def b1_def task_valid_cong [of b1 b, unfolded b1_def])
  from close_all_okx(1) [OF this] have "forward_okx ?F {} ?R (set ?V) (fold (context_close False False) ?C b1)"
    using of_channel_bound [OF d(2)] by (simp add: b1_def)
  from close_all_okx(2) [OF this] have k:
    "forward_okx ?F {} ?R {} (fold (reverse_close False False) ?V (fold (context_close False False) ?C b1))"
    (is "forward_okx _ _ _ _ ?b2") using of_channel_bound [OF d(4)] by (simp add: b1_def)
  let ?b3 = "case map_of (wb_bindings b) ch of None \<Rightarrow> ?b2 | Some a \<Rightarrow> fport_close a ?b2"
  have len: "length (wb_fport ?b2) = length (wb_fport b)" "length (wb_rport ?b2) = length (wb_rport b)"
    by (simp_all add: b1_def)
  have k3: "forward_okx {} {} ?R {} ?b3"
  proof (cases "map_of (wb_bindings b) ch")
    case (Some a)
    then have "a < length (wb_fport ?b2)" using tracksD(2) [OF d(1)] len by simp
    from fport_close_ok [OF k this] show ?thesis using Some by simp
  qed (use k in simp)
  have len3: "length (wb_rport ?b3) = length (wb_rport b)" using len by (simp split: option.splits)
  have "forward_ok (case map_of (wb_reverseBindings b) ch of None \<Rightarrow> ?b3 | Some a \<Rightarrow> rport_close a ?b3)"
  proof (cases "map_of (wb_reverseBindings b) ch")
    case (Some a)
    then have "a < length (wb_rport ?b3)" using tracksD(2) [OF d(3)] len3 by simp
    from rport_close_ok [OF k3 this] show ?thesis using Some by simp
  qed (use k3 in simp)
  then show ?thesis unfolding forward_CloseChannel_def Let_def b1_def [symmetric] .
qed

lemma forward_close_ok:
  assumes b: "forward_ok b"
  shows "forward_ok (forward_Close b)"
proof (cases "wb_closed b")
  case False
  note d = forward_okxD(6-9) [OF b]
  let ?F = "map snd (wb_bindings b)" and ?R = "map snd (wb_reverseBindings b)"
    and ?C = "map snd (wb_contexts b)" and ?V = "map snd (wb_reverseConns b)"
  define b1 where "b1 = b\<lparr>wb_closed := True, wb_bindings := [], wb_contexts := [],
    wb_reverseBindings := [], wb_reverseConns := []\<rparr>"
  have "forward_tables (set ?F) (set ?C) (set ?R) (set ?V) b1"
    using tracks_none [OF d(1)] tracks_none [OF d(2)] tracks_none [OF d(3)] tracks_none [OF d(4)]
    by (simp add: forward_tables_def b1_def)
  then have "forward_okx (set ?F) (set ?C) (set ?R) (set ?V) b1"
    using b by (simp add: forward_okx_def forward_targets_def forward_sockets_def forward_valid_def
        forward_tasks_def b1_def task_valid_cong [of b1 b, unfolded b1_def])
  from close_all_okx(1) [OF this] have "forward_okx (set ?F) {} (set ?R) (set ?V) (fold (context_close False False) ?C b1)"
    using entries_bound [OF d(2)] by (simp add: b1_def)
  from close_all_okx(2) [OF this] have "forward_okx (set ?F) {} (set ?R) {}
      (fold (reverse_close False False) ?V (fold (context_close False False) ?C b1))"
    using entries_bound [OF d(4)] by (simp add: b1_def)
  from close_all_okx(3) [OF this] have "forward_okx {} {} (set ?R) {} (fold fport_close ?F
      (fold (reverse_close False False) ?V (fold (context_close False False) ?C b1)))"
    using entries_bound [OF d(1)] by (simp add: b1_def)
  from close_all_okx(4) [OF this] show ?thesis
    using False entries_bound [OF d(3)] by (simp add: forward_Close_def b1_def Let_def)
qed (use b in \<open>simp add: forward_Close_def\<close>)

section \<open>New objects\<close>

lemma draining_update:
  assumes "\<And>t. map_of r k \<noteq> Some (ForwardDraining t)"
  shows "draining r \<subseteq> draining (AList.update k p r)"
proof
  fix t
  assume "t \<in> draining r"
  then obtain j where "map_of r j = Some (ForwardDraining t)" by (auto simp: draining_def)
  moreover from this have "j \<noteq> k" using assms by auto
  ultimately have "map_of (AList.update k p r) j = Some (ForwardDraining t)" by simp
  then show "t \<in> draining (AList.update k p r)" unfolding draining_def by blast
qed

lemma new_fport_ok:
  assumes b: "forward_ok b" and op: "\<not> wb_closed b" and none: "map_of (wb_bindings b) (ss_channelID s) = None"
    and s: "fport_valid s" "\<not> ss_closed s" "ss_target s = None" "\<not> fs_ready s"
  shows "forward_ok (set_task (FportRun (length (wb_fport b))) ForwardOpening
    (b\<lparr>wb_fport := wb_fport b @ [s], wb_bindings := AList.update (ss_channelID s) (length (wb_fport b)) (wb_bindings b)\<rparr>))"
    (is "forward_ok ?b")
proof -
  note d = forward_okxD [OF b]
  have "forward_tables {} {} {} {} ?b"
    using d(1) op tracks_new [where key = ss_channelID and closed = ss_closed, OF d(6) none]
    by (simp add: forward_tables_def)
  moreover have "forward_targets ?b"
  proof -
    have "map_of (wb_running b) (FportRun (length (wb_fport b))) = None"
      using tasksD(1) [OF d(5), of "FportRun (length (wb_fport b))"] by fastforce
    then have "draining (wb_running b) \<subseteq> draining (wb_running ?b)" by (simp add: draining_update)
    then show ?thesis using d(2) s by (auto simp: forward_targets_def targets_in_def)
  qed
  moreover have "forward_sockets ?b" using d(3) by (simp add: forward_sockets_def)
  moreover have "forward_tasks ?b"
  proof (rule tasksI)
    fix k q
    assume "map_of (wb_running ?b) k = Some q"
    then show "task_valid ?b k q"
      using tasksD(1) [OF d(5), of k q] s by (cases k) (auto simp: nth_append split: if_splits)
  qed (use tasksD(2,3) [OF d(5)] in \<open>auto simp: nth_append less_Suc_eq split: if_splits\<close>)
  moreover have "forward_valid ?b"
    using d(4) s by (auto simp: forward_valid_def context_valid_def nth_append)
  ultimately show ?thesis by (simp add: forward_okx_def)
qed

lemma new_rport_ok:
  assumes b: "forward_ok b" and op: "\<not> wb_closed b"
    and none: "map_of (wb_reverseBindings b) (ss_channelID s) = None"
    and s: "rport_valid s" "\<not> ss_closed s" "ss_target s = None"
  shows "forward_ok (set_task (RportRun (length (wb_rport b))) ForwardOpening
    (net_emit [Listening (rv_listener s)] b\<lparr>wb_rport := wb_rport b @ [s],
      wb_reverseBindings := AList.update (ss_channelID s) (length (wb_rport b)) (wb_reverseBindings b)\<rparr>))"
    (is "forward_ok ?b")
proof -
  note d = forward_okxD [OF b]
  have "forward_tables {} {} {} {} ?b"
    using d(1) op tracks_new [where key = ss_channelID and closed = ss_closed, OF d(8) none]
    by (simp add: forward_tables_def)
  moreover have "forward_targets ?b"
  proof -
    have "map_of (wb_running b) (RportRun (length (wb_rport b))) = None"
      using tasksD(1) [OF d(5), of "RportRun (length (wb_rport b))"] by fastforce
    then have "draining (wb_running b) \<subseteq> draining (wb_running ?b)" by (simp add: draining_update)
    then show ?thesis using d(2) s by (auto simp: forward_targets_def targets_in_def)
  qed
  moreover have "forward_sockets ?b" using d(3) s by (auto simp: forward_sockets_def)
  moreover have "forward_tasks ?b"
  proof (rule tasksI)
    fix k q
    assume "map_of (wb_running ?b) k = Some q"
    then show "task_valid ?b k q"
      using tasksD(1) [OF d(5), of k q] s by (cases k) (auto simp: nth_append split: if_splits)
  qed (use tasksD(2,3) [OF d(5)] in \<open>auto simp: nth_append less_Suc_eq split: if_splits\<close>)
  moreover have "forward_valid ?b" using d(4) s by (auto simp: forward_valid_def)
  ultimately show ?thesis by (simp add: forward_okx_def)
qed

lemma new_context_ok:
  assumes b: "forward_ok b" and op: "\<not> wb_closed b" and none: "map_of (wb_contexts b) (lc_key c) = None"
    and c: "context_valid (wb_fport b) c" "lc_conn c = None"
  shows "forward_ok (set_task (ContextRun (length (wb_ctx b))) ForwardDialling
    (b\<lparr>wb_ctx := wb_ctx b @ [c], wb_contexts := AList.update (lc_key c) (length (wb_ctx b)) (wb_contexts b)\<rparr>))"
    (is "forward_ok ?b")
proof -
  note d = forward_okxD [OF b]
  have "forward_tables {} {} {} {} ?b"
    using d(1) op tracks_new [where key = lc_key and closed = lc_closed, OF d(7) none]
    by (simp add: forward_tables_def)
  moreover have "forward_targets ?b"
  proof -
    have "map_of (wb_running b) (ContextRun (length (wb_ctx b))) = None"
      using tasksD(1) [OF d(5), of "ContextRun (length (wb_ctx b))"] by fastforce
    then have "draining (wb_running b) \<subseteq> draining (wb_running ?b)" by (simp add: draining_update)
    then show ?thesis using d(2) by (auto simp: forward_targets_def targets_in_def)
  qed
  moreover have "forward_sockets ?b" using d(3) by (auto simp: forward_sockets_def)
  moreover have "forward_tasks ?b"
  proof (rule tasksI)
    fix k q
    assume "map_of (wb_running ?b) k = Some q"
    then show "task_valid ?b k q"
      using tasksD(1) [OF d(5), of k q] c by (cases k) (auto simp: nth_append split: if_splits)
  qed (use tasksD(2,3) [OF d(5)] in auto)
  moreover have "forward_valid ?b" using d(4) c by (auto simp: forward_valid_def)
  ultimately show ?thesis by (simp add: forward_okx_def)
qed

lemma new_reverse_ok:
  assumes b: "forward_ok b" and op: "\<not> wb_closed b" and none: "map_of (wb_reverseConns b) (lc_key c) = None"
    and c: "lc_conn c = Some n" "\<not> lc_closed c"
  shows "forward_ok (net_emit [Accepted n] b\<lparr>wb_rconn := wb_rconn b @ [c],
    wb_reverseConns := AList.update (lc_key c) (length (wb_rconn b)) (wb_reverseConns b)\<rparr>)" (is "forward_ok ?b")
proof -
  note d = forward_okxD [OF b]
  have "forward_tables {} {} {} {} ?b"
    using d(1) op tracks_new [where key = lc_key and closed = lc_closed, OF d(9) none]
    by (simp add: forward_tables_def)
  moreover have "forward_targets ?b" using d(2) by (simp add: forward_targets_def)
  moreover have "forward_sockets ?b" using d(3) c by (auto simp: forward_sockets_def)
  moreover have "forward_tasks ?b"
  proof (rule tasksI)
    fix k q
    assume "map_of (wb_running ?b) k = Some q"
    then show "task_valid ?b k q"
      using tasksD(1) [OF d(5), of k q] by (cases k) auto
  qed (use tasksD(2,3) [OF d(5)] in auto)
  moreover have "forward_valid ?b" using d(4) by (simp add: forward_valid_def)
  ultimately show ?thesis by (simp add: forward_okx_def)
qed

section \<open>Handlers\<close>

lemma check_ok: "forward_ok b \<Longrightarrow> forward_ok (fst (forward_handleCheck ok port frame b))"
proof (cases "decodeForwardEndpoint (Payload frame)")
  case (Inr r)
  assume b: "forward_ok b"
  obtain ctx endpoint where r: "r = (ctx, endpoint)" by (cases r)
  have e: "validateForwardEndpoint endpoint = None" using decodeForwardEndpoint_valid Inr r by simp
  show ?thesis
  proof (cases "allocateForwardPort port")
    case (Some p)
    let ?s = "\<lparr>ss_channelID = ChannelID frame, ss_target = None, ss_closed = False, fs_checkContextID = ctx,
      fs_port = p, fs_ready = False, fs_outputSeen = False, fs_outputError = False, fs_output = [],
      fw_remoteEndpoint = endpoint\<rparr>"
    show ?thesis
      using new_fport_ok [OF b, of ?s] forward_reject_ok [OF b] Some Inr r e
      by (simp add: forward_handleCheck_def Let_def fport_valid_def)
  qed (use b Inr r in \<open>simp add: forward_handleCheck_def forward_reject_ok\<close>)
qed (simp add: forward_handleCheck_def forward_reject_ok)

lemma active_slave_ok:
  assumes b: "forward_ok b"
  shows "forward_ok (fst (handleActiveSlave ok frame b))"
proof (cases "decodeForwardEndpoint (Payload frame)")
  case (Inr r)
  obtain ctx endpoint where r: "r = (ctx, endpoint)" by (cases r)
  show ?thesis
  proof (cases "map_of (wb_bindings b) (ChannelID frame)")
    case (Some i)
    let ?c = "\<lparr>lc_key = (ChannelID frame, ctx), lc_conn = None, lc_closed = False, cx_binding = i\<rparr>"
    have "isReady (wb_fport b ! i) \<Longrightarrow> context_valid (wb_fport b) ?c"
      using tracksD(2) [OF forward_okxD(6) [OF b] Some] by (simp add: context_valid_def isReady_def)
    then show ?thesis
      using new_context_ok [OF b, of ?c] forward_reject_ok [OF b] Some Inr r send_frame_ok [OF b]
      by (simp add: handleActiveSlave_def Let_def)
  qed (use b Inr r send_frame_ok in \<open>simp add: handleActiveSlave_def\<close>)
qed (use b in \<open>simp add: handleActiveSlave_def forward_reject_ok\<close>)

lemma context_bound:
  "forward_okx F C R V b \<Longrightarrow> map_of (wb_running b) (ContextRun a) = Some q \<Longrightarrow> a < length (wb_ctx b)"
  using tasksD(1) [of b "ContextRun a" q] forward_okxD(5) by fastforce

lemma context_port:
  assumes "forward_okx F C R V b" "a < length (wb_ctx b)"
  shows "fs_port (wb_fport b ! cx_binding (wb_ctx b ! a)) \<in> fs_port ` {s \<in> set (wb_fport b). fs_ready s}"
  using valid_nth(3) [OF assms] by (auto simp: context_valid_def)

lemma connect_ok:
  assumes b: "forward_ok b" and q: "map_of (wb_running b) (ContextRun a) = Some ForwardDialling"
  shows "forward_ok (fst (context_connect ok conn a b))"
proof -
  note a = context_bound [OF b q]
  let ?c = "wb_ctx b ! a" and ?p = "fs_port (wb_fport b ! cx_binding (wb_ctx b ! a))"
  have failed: "forward_ok (send_frame ok (fst (lc_key ?c)) CommandForwardFreeContext (snd (lc_key ?c)) []
      (context_close False False a (removeContext a (end_task (ContextRun a) b'))))"
    if "forward_ok b'" "wb_ctx b' = wb_ctx b" "wb_running b' = wb_running b" for b'
  proof (rule send_frame_ok [OF drop_context_ok])
    show "forward_ok (end_task (ContextRun a) b')" by (rule end_task_ok [OF that(1)]) (simp_all add: that q)
  qed (simp add: that a)
  show ?thesis
  proof (cases conn)
    case None
    then show ?thesis using failed [OF b] by (simp add: context_connect_def Let_def)
  next
    case (Some n)
    show ?thesis
    proof (cases "lc_closed ?c")
      case True
      have "forward_ok (net_emit ([Dialled n ?p] @ [ConnClosed n]) b)"
        using context_port [OF b a] by (intro net_ok [OF b]) (simp_all only: net_sets net_sets_one, auto)
      from failed [OF this] show ?thesis using Some True by (simp add: context_connect_def Let_def)
    next
      case False
      let ?b = "set_task (ContextRun a) ForwardLooping b"
      have "lc_conn ?c = None" using tasksD(1) [OF forward_okxD(5) [OF b] q] by simp
      moreover have b': "forward_ok ?b" using a q by (intro set_task_ok [OF b]) simp_all
      ultimately have k: "forward_ok (net_emit [Dialled n ?p] (?b\<lparr>wb_ctx := (wb_ctx ?b)[a := ?c\<lparr>lc_conn := Some n\<rparr>]\<rparr>))"
        using a False by (intro ctx_update_ok [OF b'] tracks_put [OF forward_okxD(7) [OF b']]) simp_all
      have e: "net_emit [Dialled n ?p] (?b\<lparr>wb_ctx := (wb_ctx ?b)[a := ?c\<lparr>lc_conn := Some n\<rparr>]\<rparr>)
          = set_task (ContextRun a) ForwardLooping
              (net_emit [Dialled n ?p] b\<lparr>wb_ctx := (wb_ctx b)[a := ?c\<lparr>lc_conn := Some n\<rparr>]\<rparr>)"
        by (simp add: net_emit_def set_task_def)
      show ?thesis
        using Some False send_frame_ok [OF k [unfolded e]] by (simp add: context_connect_def Let_def)
    qed
  qed
qed

lemma write_ok:
  "forward_okx F C R V b \<Longrightarrow> local_write short data c = (written, l) \<Longrightarrow> forward_okx F C R V (net_emit l b)"
  using local_write_sets [of short data c written l] by (intro net_ok) simp_all

lemma data_ok:
  assumes b: "forward_ok b"
  shows "forward_ok (fst (forward_handleData ok short frame b))"
proof (cases "decodeForwardData (Payload frame)")
  case (Inr r)
  obtain ctx data where r: "r = (ctx, data)" by (cases r)
  note d = forward_okxD [OF b]
  show ?thesis
  proof (cases "map_of (wb_reverseConns b) (ChannelID frame, ctx)")
    case (Some a)
    obtain written l where w: "local_write short data (wb_rconn b ! a) = (written, l)" by fastforce
    then show ?thesis
      using Some Inr r write_ok [OF b w] drop_reverse_ok [OF write_ok [OF b w], of a] tracksD(2) [OF d(9) Some]
      by (auto simp: forward_handleData_def Let_def)
  next
    case None
    note rev = None
    show ?thesis
    proof (cases "map_of (wb_contexts b) (ChannelID frame, ctx)")
      case (Some a)
      obtain written l where w: "local_write short data (wb_ctx b ! a) = (written, l)" by fastforce
      then show ?thesis
        using Some rev Inr r write_ok [OF b w] drop_context_ok [OF write_ok [OF b w], of a] tracksD(2) [OF d(7) Some]
        by (auto simp: forward_handleData_def Let_def)
    qed (use rev Inr r b in \<open>auto simp: forward_handleData_def Let_def\<close>)
  qed
qed (use b in \<open>simp add: forward_handleData_def forward_reject_ok\<close>)

lemma free_context_ok:
  assumes b: "forward_ok b"
  shows "forward_ok (fst (forward_handleFreeContext ok frame b))"
proof (cases "decodeForwardData (Payload frame)")
  case (Inr r)
  obtain ctx data where r: "r = (ctx, data)" by (cases r)
  note d = forward_okxD [OF b]
  let ?key = "(ChannelID frame, ctx)"
  define same where "same b' \<longleftrightarrow> length (wb_ctx b') = length (wb_ctx b) \<and> length (wb_rconn b') = length (wb_rconn b)
    \<and> length (wb_fport b') = length (wb_fport b) \<and> length (wb_rport b') = length (wb_rport b)" for b' :: ForwardBridge
  define b1 where "b1 = (case map_of (wb_contexts b) ?key of None \<Rightarrow> b
    | Some a \<Rightarrow> context_close False False a (removeContext a b))"
  define b2 where "b2 = (case map_of (wb_reverseConns b) ?key of None \<Rightarrow> b1
    | Some a \<Rightarrow> reverse_close False False a (removeReverseConn a b1))"
  define b3 where "b3 = (case map_of (wb_bindings b) (ChannelID frame) of None \<Rightarrow> b2
    | Some a \<Rightarrow> if fs_checkContextID (wb_fport b ! a) = ctx then fport_close a (removeBinding a b2) else b2)"
  define b4 where "b4 = (case map_of (wb_reverseBindings b) (ChannelID frame) of None \<Rightarrow> b3
    | Some a \<Rightarrow> if fs_checkContextID (wb_rport b ! a) = ctx then rport_close a (removeReverseBinding a b3) else b3)"
  have k1: "forward_ok b1 \<and> same b1"
    using b drop_context_ok [OF b] tracksD(2) [OF d(7)] by (auto simp: b1_def same_def split: option.splits)
  have k2: "forward_ok b2 \<and> same b2"
    using k1 drop_reverse_ok [of _ _ _ b1] tracksD(2) [OF d(9)] by (auto simp: b2_def same_def split: option.splits)
  have k3: "forward_ok b3 \<and> same b3"
    using k2 drop_fport_ok [of b2] tracksD(2) [OF d(6)] by (auto simp: b3_def same_def split: option.splits)
  have "forward_ok b4"
    using k3 drop_rport_ok [of b3] tracksD(2) [OF d(8)] by (auto simp: b4_def same_def split: option.splits)
  moreover have "fst (forward_handleFreeContext ok frame b) = b4"
    unfolding forward_handleFreeContext_def Inr r b4_def b3_def b2_def b1_def Let_def
    by (simp split: option.splits)
  ultimately show ?thesis by simp
qed (use b in \<open>simp add: forward_handleFreeContext_def forward_reject_ok\<close>)

section \<open>The goroutine of a forward\<close>

lemma task_commutes:
  "set_task k p (context_close n ok a b) = context_close n ok a (set_task k p b)"
  "set_task k p (reverse_close n ok a b) = reverse_close n ok a (set_task k p b)"
  "set_task k p (fport_close a b) = fport_close a (set_task k p b)"
  "set_task k p (rport_close a b) = rport_close a (set_task k p b)"
  "set_task k p (forward_emit l b) = forward_emit l (set_task k p b)"
  "set_task k p (net_emit m b) = net_emit m (set_task k p b)"
  "set_task k p (put_fport a s b) = put_fport a s (set_task k p b)"
  "set_task k p (put_rport a r b) = put_rport a r (set_task k p b)"
  "set_task k p (send_frame ok ch cmd ctx data b) = send_frame ok ch cmd ctx data (set_task k p b)"
  by (simp_all add: set_task_def context_close_def reverse_close_def fport_close_def rport_close_def
      forward_emit_def net_emit_def send_frame_def put_fport_def put_rport_def Let_def)

lemma task_commutes_fold:
  "set_task k p (fold (context_close n ok) as b) = fold (context_close n ok) as (set_task k p b)"
  "set_task k p (fold (reverse_close n ok) as b) = fold (reverse_close n ok) as (set_task k p b)"
  by (induction as arbitrary: b) (simp_all add: task_commutes)

lemma task_commutes_maps:
  "set_task k p (b\<lparr>wb_bindings := m\<rparr>) = set_task k p b\<lparr>wb_bindings := m\<rparr>"
  "set_task k p (b\<lparr>wb_contexts := n\<rparr>) = set_task k p b\<lparr>wb_contexts := n\<rparr>"
  "set_task k p (b\<lparr>wb_reverseBindings := m\<rparr>) = set_task k p b\<lparr>wb_reverseBindings := m\<rparr>"
  "set_task k p (b\<lparr>wb_reverseConns := n\<rparr>) = set_task k p b\<lparr>wb_reverseConns := n\<rparr>"
  by (simp_all add: set_task_def)

lemma task_commutes_remove:
  "set_task k p (removeBinding a b) = removeBinding a (set_task k p b)"
  "set_task k p (removeReverseBinding a b) = removeReverseBinding a (set_task k p b)"
  by (simp_all add: removeBinding_def removeReverseBinding_def drop_contexts_def drop_reverses_def Let_def
      task_commutes_fold task_commutes_maps)

lemma task_commutes_finish:
  "set_task k p (finishSetup ok e a b) = finishSetup ok e a (set_task k p b)"
  "set_task k p (failReverseSetup ok e a b) = failReverseSetup ok e a (set_task k p b)"
  by (simp_all add: finishSetup_def failReverseSetup_def Let_def task_commutes task_commutes_remove split: option.split)

lemma forward_emit_Nil [simp]: "forward_emit [] b = b"
  by (simp add: forward_emit_def)

lemma forward_finish_ok:
  assumes b: "forward_ok b" and q: "map_of (wb_running b) (FportRun a) = Some ForwardWaiting"
  shows "forward_ok (finishSetup ok e a b)"
proof -
  let ?s = "wb_fport b ! a"
  have a: "a < length (wb_fport b)" using fport_task [OF b q] by simp
  show ?thesis
  proof (cases "e = None \<and> setupSuccessful ?s")
    case True
    show ?thesis
    proof (cases "markReady ?s")
      case (Some s)
      then have s: "s = ?s\<lparr>fs_ready := True\<rparr>" "\<not> ss_closed ?s" by (auto simp: markReady_def split: if_splits)
      have "forward_ok (forward_emit [] (put_fport a s b))"
      proof (rule fport_update_ok [OF b a])
        show "tracks (wb_bindings b) ss_channelID ss_closed ((wb_fport b)[a := s]) {}"
          using s by (intro tracks_put [OF forward_okxD(6) [OF b]]) simp_all
        show "fport_valid s"
          using True s valid_nth(1) [OF b a] by (simp add: fport_valid_def setupSuccessful_def)
      qed (use s q in simp_all)
      then show ?thesis using True Some send_frame_ok by (simp add: finishSetup_def Let_def)
    qed (use True b in \<open>simp add: finishSetup_def Let_def\<close>)
  next
    case False
    have "forward_ok (fport_close a (removeBinding a b))" by (rule drop_fport_ok [OF b a])
    then show ?thesis using False by (auto simp: finishSetup_def Let_def)
  qed
qed

lemma waiting_ok:
  assumes "forward_ok b" "map_of (wb_running b) (FportRun a) = Some q" "\<And>t. q \<noteq> ForwardDraining t"
  shows "forward_ok (set_task (FportRun a) ForwardWaiting b)"
  using assms fport_task [OF assms(1,2)] by (intro set_task_ok) simp_all

lemma waiting_finish_ok:
  assumes "forward_ok b" "map_of (wb_running b) (FportRun a) = Some q" "\<And>t. q \<noteq> ForwardDraining t"
  shows "forward_ok (set_task (FportRun a) ForwardWaiting (finishSetup ok e a b))"
  unfolding task_commutes_finish using waiting_ok [OF assms] by (rule forward_finish_ok) simp

lemma fport_commands:
  assumes "forward_okx F C R V b" "a < length (wb_fport b)"
  shows "good_commands [TargetOpened t (fport_command p (fw_remoteEndpoint (wb_fport b ! a)))]"
    "good_commands [TargetOpened t (fport_rm_command p (fw_remoteEndpoint (wb_fport b ! a)))]"
  using valid_nth(1) [OF assms] forward_command_forms
  by (simp_all add: good_commands_def fport_valid_def)

lemma fport_open_ok:
  assumes b: "forward_ok b" and q: "map_of (wb_running b) (FportRun a) = Some ForwardOpening"
  shows "forward_ok (runSetup_open ok result a b)"
proof -
  let ?s = "wb_fport b ! a"
  have v: "a < length (wb_fport b)" "ss_target ?s = None" "\<not> fs_ready ?s" using fport_task [OF b q] by simp_all
  note fin = waiting_finish_ok [OF b q] and cmd = fport_commands(1) [OF b v(1)]
  show ?thesis
  proof (cases "wb_canOpen b")
    case True
    show ?thesis
    proof (cases result)
      case (Opened t)
      let ?c = "fport_command (fs_port ?s) (fw_remoteEndpoint ?s)"
      show ?thesis
      proof (cases "attachTarget t ?s")
        case None
        have "forward_ok (forward_emit ([TargetOpened t ?c] @ [TargetClosed t]) b)"
          by (rule emit_ok [OF b]) (simp_all only: effect_sets_append effect_sets_one good_commands_append
              good_commands_sent cmd, simp)
        then show ?thesis
          using True Opened None waiting_ok [of "forward_emit [TargetOpened t ?c, TargetClosed t] b" a ForwardOpening] q
          by (simp add: runSetup_open_def Let_def)
      next
        case (Some s)
        then have s: "s = ?s\<lparr>ss_target := Some t\<rparr>" "\<not> ss_closed ?s" by (simp_all add: attachTarget_Some)
        let ?b = "set_task (FportRun a) (ForwardReading t) b"
        have b': "forward_ok ?b" using v q by (intro set_task_ok [OF b]) simp_all
        have "forward_ok (forward_emit [TargetOpened t ?c] (put_fport a s ?b))"
        proof (rule fport_update_ok [OF b'])
          show "tracks (wb_bindings ?b) ss_channelID ss_closed ((wb_fport ?b)[a := s]) {}"
            using s by (intro tracks_put [OF forward_okxD(6) [OF b']]) simp_all
          show "fport_valid s" using s v by (simp add: fport_valid_def valid_nth(1) [OF b v(1), unfolded fport_valid_def])
        qed (use s v cmd in simp_all)
        then show ?thesis using True Opened Some by (simp add: runSetup_open_def Let_def task_commutes)
      qed
    qed (use True fin in \<open>simp_all add: runSetup_open_def Let_def\<close>)
  qed (use fin in \<open>simp add: runSetup_open_def Let_def\<close>)
qed

lemma recordOutput_sel [simp]:
  "ss_channelID (recordOutput payload s) = ss_channelID s" "ss_target (recordOutput payload s) = ss_target s"
  "ss_closed (recordOutput payload s) = ss_closed s" "fs_port (recordOutput payload s) = fs_port s"
  "fs_ready (recordOutput payload s) = fs_ready s" "forward_setup.more (recordOutput payload s) = forward_setup.more s"
  by (simp_all add: recordOutput_def Let_def)

lemma recordOutput_ext [simp]:
  "fw_remoteEndpoint (recordOutput payload f) = fw_remoteEndpoint f"
  "rv_deviceEndpoint (recordOutput payload r) = rv_deviceEndpoint r"
  "rv_hostEndpoint (recordOutput payload r) = rv_hostEndpoint r"
  "rv_listener (recordOutput payload r) = rv_listener r"
  by (simp_all add: recordOutput_def Let_def)

lemma fport_read_ok:
  assumes b: "forward_ok b" and q: "map_of (wb_running b) (FportRun a) = Some (ForwardReading t)"
  shows "forward_ok (runSetup_read ok errText payload readErr t a b)"
proof -
  let ?s = "wb_fport b ! a"
  define b' where "b' = (if payload = [] then b else put_fport a (recordOutput payload ?s) b)"
  have v: "a < length (wb_fport b)" "\<not> fs_ready ?s" using fport_task [OF b q] by simp_all
  have "forward_ok (forward_emit [] (put_fport a (recordOutput payload ?s) b))"
  proof (rule fport_update_ok [OF b v(1)])
    show "tracks (wb_bindings b) ss_channelID ss_closed ((wb_fport b)[a := recordOutput payload ?s]) {}"
      by (intro tracks_put [OF forward_okxD(6) [OF b]]) simp_all
  qed (use v valid_nth(1) [OF b v(1)] fport_task [OF b q] q in \<open>auto simp: fport_valid_def\<close>)
  then have b': "forward_ok b'" using b by (simp add: b'_def)
  have q': "map_of (wb_running b') (FportRun a) = Some (ForwardReading t)" using q by (simp add: b'_def put_fport_def)
  have "forward_ok (forward_emit [TargetClosed t] b')" by (rule emit_ok [OF b']) simp_all
  then have "forward_ok (set_task (FportRun a) ForwardWaiting (finishSetup ok e a (forward_emit [TargetClosed t] b')))" for e
    by (rule waiting_finish_ok [where q = "ForwardReading t"]) (simp_all add: q')
  with b' show ?thesis
    unfolding runSetup_read_def Let_def b'_def [symmetric] by (simp split: option.split)
qed

lemma fport_clean_ok:
  assumes b: "forward_ok b" and q: "map_of (wb_running b) (FportRun a) = Some ForwardWaiting"
    and c: "ss_closed (wb_fport b ! a)"
  shows "forward_ok (fport_cleanup result a b)"
proof -
  let ?s = "wb_fport b ! a"
  have a: "a < length (wb_fport b)" using fport_task [OF b q] by simp
  have e: "forward_ok (end_task (FportRun a) b)" using c q by (intro end_task_ok [OF b]) simp_all
  have "forward_ok (set_task (FportRun a) (ForwardDraining t)
      (forward_emit [TargetOpened t (fport_rm_command (fs_port ?s) (fw_remoteEndpoint ?s))] b))" (is "forward_ok ?b") for t
  proof -
    note d = forward_okxD [OF b]
    have "draining (wb_running b) \<subseteq> draining (wb_running ?b)" using q by (simp add: draining_update)
    moreover have "t \<in> draining (wb_running ?b)" by (auto simp: draining_def)
    ultimately have "forward_targets ?b"
      using d(2) by (auto simp: forward_targets_def targets_in_def simp del: set_task_sel(11))
    moreover have "forward_tasks ?b"
    proof (rule tasksI)
      fix k p
      assume "map_of (wb_running ?b) k = Some p"
      then show "task_valid ?b k p" using tasksD(1) [OF d(5), of k p] a c by (auto split: if_splits)
    qed (use tasksD(2,3) [OF d(5)] in \<open>auto split: if_splits\<close>)
    ultimately show ?thesis
      using d(1,3,4) fport_commands(2) [OF b a] by (simp add: forward_okx_def forward_valid_def)
  qed
  with e show ?thesis by (auto simp: fport_cleanup_def Let_def split: open_result.split)
qed

section \<open>Reverse forwards\<close>

lemma reverse_init_ok:
  assumes b: "forward_ok b"
  shows "forward_ok (fst (handleReverseInit ok opened rand frame b))"
proof (cases "parseReverseCommand (Payload frame)")
  case (Inr r)
  obtain d h where r: "r = (d, h)" by (cases r)
  note e = parseReverseCommand_valid [of "Payload frame" d h]
  show ?thesis
  proof (cases opened)
    case (Some lp)
    obtain l p where lp: "lp = (l, p)" by (cases lp)
    let ?s = "\<lparr>ss_channelID = ChannelID frame, ss_target = None, ss_closed = False,
      fs_checkContextID = randomContextID rand, fs_port = nat p, fs_ready = False, fs_outputSeen = False,
      fs_outputError = False, fs_output = [], rv_deviceEndpoint = d, rv_hostEndpoint = h, rv_listener = l,
      rv_resolved = False\<rparr>"
    have "forward_ok (net_emit ([Listening l] @ [ListenerClosed l]) b)"
      by (rule net_ok [OF b]) (simp_all only: net_sets net_sets_one, auto)
    then have closed: "forward_ok (net_emit [Listening l, ListenerClosed l] b)" by simp
    show ?thesis
      using new_rport_ok [OF b, of ?s] forward_reject_ok [OF closed] Some lp Inr r e
      by (simp add: handleReverseInit_def Let_def rport_valid_def)
  qed (use b Inr r in \<open>simp add: handleReverseInit_def forward_reject_ok\<close>)
qed (use b in \<open>simp add: handleReverseInit_def forward_reject_ok\<close>)

lemma rport_task:
  "forward_okx F C R V b \<Longrightarrow> map_of (wb_running b) (RportRun a) = Some q \<Longrightarrow> task_valid b (RportRun a) q"
  by (rule tasksD(1)) (simp add: forward_okx_def)

lemma fail_reverse_ok:
  assumes b: "forward_ok b" and a: "a < length (wb_rport b)"
  shows "forward_ok (failReverseSetup ok e a b)"
  using drop_rport_ok [OF b a] by (auto simp: failReverseSetup_def Let_def)

lemma rport_waiting_ok:
  assumes "forward_ok b" "map_of (wb_running b) (RportRun a) = Some q" "\<And>t. q \<noteq> ForwardDraining t"
  shows "forward_ok (set_task (RportRun a) ForwardWaiting b)"
  using assms rport_task [OF assms(1,2)] by (intro set_task_ok) simp_all

lemma rport_waiting_fail_ok:
  assumes "forward_ok b" "map_of (wb_running b) (RportRun a) = Some q" "\<And>t. q \<noteq> ForwardDraining t"
  shows "forward_ok (set_task (RportRun a) ForwardWaiting (failReverseSetup ok e a b))"
  unfolding task_commutes_finish
  using rport_waiting_ok [OF assms] rport_task [OF assms(1,2)] by (intro fail_reverse_ok) simp_all

lemma rport_commands:
  assumes "forward_okx F C R V b" "a < length (wb_rport b)"
  shows "good_commands [TargetOpened t (rport_command (rv_deviceEndpoint (wb_rport b ! a)) p)]"
    "good_commands [TargetOpened t (rport_rm_command (rv_deviceEndpoint (wb_rport b ! a)) p)]"
  using valid_nth(2) [OF assms] forward_command_forms
  by (simp_all add: good_commands_def rport_valid_def)

text \<open>A change of a binding that keeps what the invariant looks at.\<close>

lemma put_rport_ok:
  assumes b: "forward_ok b" and a: "a < length (wb_rport b)"
    and s: "ss_channelID s = ss_channelID (wb_rport b ! a)" "ss_closed s = ss_closed (wb_rport b ! a)"
      "rv_deviceEndpoint s = rv_deviceEndpoint (wb_rport b ! a)" "rv_hostEndpoint s = rv_hostEndpoint (wb_rport b ! a)"
      "rv_listener s = rv_listener (wb_rport b ! a)"
    and h: "held_targets [wb_rport b ! a] \<union> opened_targets l \<subseteq> closed_targets l \<union> held_targets [s]"
      "good_commands l" "map_of (wb_running b) (RportRun a) = Some ForwardOpening \<longrightarrow> ss_target s = None"
  shows "forward_ok (forward_emit l (put_rport a s b))"
proof -
  have "forward_ok (net_emit [] (forward_emit l (put_rport a s b)))"
  proof (rule rport_update_ok [OF b a])
    show "tracks (wb_reverseBindings b) ss_channelID ss_closed ((wb_rport b)[a := s]) {}"
      using s by (intro tracks_put [OF forward_okxD(8) [OF b]]) simp_all
    show "rport_valid s" using valid_nth(2) [OF b a] s by (simp add: rport_valid_def)
  qed (use s h in simp_all)
  then show ?thesis by simp
qed

lemma rport_open_ok:
  assumes b: "forward_ok b" and q: "map_of (wb_running b) (RportRun a) = Some ForwardOpening"
  shows "forward_ok (runReverseSetup_open ok result a b)"
proof -
  let ?s = "wb_rport b ! a"
  have v: "a < length (wb_rport b)" "ss_target ?s = None" using rport_task [OF b q] by simp_all
  note fin = rport_waiting_fail_ok [OF b q] and cmd = rport_commands(1) [OF b v(1)]
  show ?thesis
  proof (cases "wb_canOpen b")
    case True
    show ?thesis
    proof (cases result)
      case (Opened t)
      let ?c = "rport_command (rv_deviceEndpoint ?s) (fs_port ?s)"
      show ?thesis
      proof (cases "attachTarget t ?s")
        case None
        have "forward_ok (forward_emit ([TargetOpened t ?c] @ [TargetClosed t]) b)"
          by (rule emit_ok [OF b]) (simp_all only: effect_sets_append effect_sets_one good_commands_append
              good_commands_sent cmd, simp)
        then show ?thesis
          using True Opened None rport_waiting_ok [of "forward_emit [TargetOpened t ?c, TargetClosed t] b" a ForwardOpening] q
          by (simp add: runReverseSetup_open_def Let_def)
      next
        case (Some s)
        then have s: "s = ?s\<lparr>ss_target := Some t\<rparr>" "\<not> ss_closed ?s" by (simp_all add: attachTarget_Some)
        let ?b = "set_task (RportRun a) (ForwardReading t) b"
        have b': "forward_ok ?b" using v q by (intro set_task_ok [OF b]) simp_all
        have "forward_ok (forward_emit [TargetOpened t ?c] (put_rport a s ?b))"
          using s v cmd by (intro put_rport_ok [OF b']) simp_all
        then show ?thesis using True Opened Some by (simp add: runReverseSetup_open_def Let_def task_commutes)
      qed
    qed (use True fin in \<open>simp_all add: runReverseSetup_open_def Let_def\<close>)
  qed (use fin in \<open>simp add: runReverseSetup_open_def Let_def\<close>)
qed

lemma looping_only:
  assumes "forward_okx F C R V b"
  shows "map_of (wb_running b) (AcceptRun a) \<noteq> Some (ForwardDraining u)"
    "map_of (wb_running b) (CheckTimer a) \<noteq> Some (ForwardDraining u)"
    "map_of (wb_running b) (ReverseRun a) \<noteq> Some (ForwardDraining u)"
    "map_of (wb_running b) (ContextRun a) \<noteq> Some (ForwardDraining u)"
proof -
  have "\<not> task_valid b (AcceptRun a) (ForwardDraining u)" "\<not> task_valid b (CheckTimer a) (ForwardDraining u)"
    "\<not> task_valid b (ReverseRun a) (ForwardDraining u)" "\<not> task_valid b (ContextRun a) (ForwardDraining u)"
    by simp_all
  then show "map_of (wb_running b) (AcceptRun a) \<noteq> Some (ForwardDraining u)"
    "map_of (wb_running b) (CheckTimer a) \<noteq> Some (ForwardDraining u)"
    "map_of (wb_running b) (ReverseRun a) \<noteq> Some (ForwardDraining u)"
    "map_of (wb_running b) (ContextRun a) \<noteq> Some (ForwardDraining u)"
    using tasksD(1) [OF forward_okxD(5) [OF assms]] by blast+
qed

lemma rport_end_ok:
  assumes b: "forward_ok b" and q: "map_of (wb_running b) (RportRun a) = Some (ForwardReading t)"
  shows "forward_ok (set_task (RportRun a) ForwardWaiting (runReverseSetup_end ok e a b))"
proof -
  let ?s = "wb_rport b ! a"
  have a: "a < length (wb_rport b)" using rport_task [OF b q] by simp
  have fail: "forward_ok (set_task (RportRun a) ForwardWaiting (failReverseSetup ok' m a b))" for ok' m
    by (rule rport_waiting_fail_ok [OF b q]) simp
  show ?thesis
  proof (cases "e = EndClosed \<and> setupSuccessful ?s \<and> markReady ?s \<noteq> None")
    case True
    then obtain s where m: "markReady ?s = Some s" by auto
    then have s: "s = ?s\<lparr>fs_ready := True\<rparr>" by (auto simp: markReady_def split: if_splits)
    have "forward_ok (forward_emit [] (put_rport a s b))" using s a q by (intro put_rport_ok [OF b]) simp_all
    then have k: "forward_ok (put_rport a s b)" by simp
    let ?b1 = "set_task (AcceptRun a) ForwardLooping (put_rport a s b)"
    have "forward_ok ?b1"
      using a looping_only(1) [OF b, of a] by (intro set_task_ok [OF k]) (simp_all add: put_rport_def)
    then have k2: "forward_ok (forward_emit (sent (ok 1) m) (forward_emit (sent (ok 0) n) ?b1))" (is "forward_ok (?b2 m n)") for m n
      by (intro sent_ok)
    have "forward_ok (set_task (CheckTimer a) ForwardLooping (?b2 m n))" for m n
      using a looping_only(2) [OF b, of a] by (intro set_task_ok [OF k2]) (simp_all add: put_rport_def)
    then have "forward_ok (set_task (RportRun a) ForwardWaiting (set_task (CheckTimer a) ForwardLooping (?b2 m n)))" for m n
      by (rule rport_waiting_ok [where q = "ForwardReading t"]) (simp_all add: put_rport_def q)
    then show ?thesis using True m by (simp add: runReverseSetup_end_def Let_def)
  next
    case False
    have w: "forward_ok (set_task (RportRun a) ForwardWaiting b)" by (rule rport_waiting_ok [OF b q]) simp
    show ?thesis
      using False fail w by (cases e) (auto simp: runReverseSetup_end_def Let_def split: option.split)
  qed
qed

lemma rport_read_ok:
  assumes b: "forward_ok b" and q: "map_of (wb_running b) (RportRun a) = Some (ForwardReading t)"
  shows "forward_ok (runReverseSetup_read ok payload readErr t a b)"
proof -
  let ?s = "wb_rport b ! a"
  define b' where "b' = (if payload = [] then b else put_rport a (recordOutput payload ?s) b)"
  have a: "a < length (wb_rport b)" using rport_task [OF b q] by simp
  have "forward_ok (forward_emit [] (put_rport a (recordOutput payload ?s) b))"
    using a q by (intro put_rport_ok [OF b]) simp_all
  then have b': "forward_ok b'" using b by (simp add: b'_def)
  have q': "map_of (wb_running b') (RportRun a) = Some (ForwardReading t)" using q by (simp add: b'_def put_rport_def)
  have "forward_ok (forward_emit [TargetClosed t] b')" by (rule emit_ok [OF b']) simp_all
  then have "forward_ok (set_task (RportRun a) ForwardWaiting (runReverseSetup_end ok e a (forward_emit [TargetClosed t] b')))" for e
    by (rule rport_end_ok) (simp add: q')
  with b' show ?thesis
    unfolding runReverseSetup_read_def Let_def b'_def [symmetric] by (simp split: option.split)
qed

lemma rport_clean_ok:
  assumes b: "forward_ok b" and q: "map_of (wb_running b) (RportRun a) = Some ForwardWaiting"
    and c: "ss_closed (wb_rport b ! a)"
  shows "forward_ok (rport_cleanup result a b)"
proof -
  let ?s = "wb_rport b ! a" and ?n = "net_emit [ListenerClosed (rv_listener (wb_rport b ! a))] b"
  have a: "a < length (wb_rport b)" using rport_task [OF b q] by simp
  have n: "forward_ok ?n" by (rule net_ok [OF b]) simp_all
  have e: "forward_ok (end_task (RportRun a) ?n)" using c q by (intro end_task_ok [OF n]) simp_all
  have "forward_ok (set_task (RportRun a) (ForwardDraining t)
      (forward_emit [TargetOpened t (rport_rm_command (rv_deviceEndpoint ?s) (fs_port ?s))] ?n))" (is "forward_ok ?b") for t
  proof -
    note d = forward_okxD [OF n]
    have "draining (wb_running b) \<subseteq> draining (wb_running ?b)" using q by (simp add: draining_update)
    moreover have "t \<in> draining (wb_running ?b)" by (auto simp: draining_def)
    ultimately have "forward_targets ?b"
      using d(2) by (auto simp: forward_targets_def targets_in_def simp del: set_task_sel(11))
    moreover have "forward_tasks ?b"
    proof (rule tasksI)
      fix k p
      assume "map_of (wb_running ?b) k = Some p"
      then show "task_valid ?b k p" using tasksD(1) [OF d(5), of k p] a c by (auto split: if_splits)
    qed (use tasksD(2,3) [OF d(5)] in \<open>auto split: if_splits\<close>)
    ultimately show ?thesis
      using d(1,3,4) rport_commands(2) [OF b a] by (simp add: forward_okx_def forward_valid_def)
  qed
  with e show ?thesis by (auto simp: rport_cleanup_def Let_def split: open_result.split)
qed

lemma looping_end_ok:
  assumes "forward_okx F C R V b" "\<forall>a. k \<noteq> FportRun a" "\<forall>a. k \<noteq> RportRun a"
  shows "forward_okx F C R V (end_task k b)"
  using assms looping_only [OF assms(1)] by (cases k) (auto intro!: end_task_ok [OF assms(1)])

lemma drained_closed:
  assumes b: "forward_ok b" and q: "map_of (wb_running b) k = Some (ForwardDraining t)"
  shows "k = FportRun a \<Longrightarrow> ss_closed (wb_fport b ! a)" "k = RportRun a \<Longrightarrow> ss_closed (wb_rport b ! a)"
  using tasksD(1) [OF forward_okxD(5) [OF b] q] by auto

lemma drain_ok:
  assumes b: "forward_ok b" and q: "map_of (wb_running b) k = Some (ForwardDraining t)"
  shows "forward_ok (forward_drain reads t k b)"
proof (cases "drain_reads 0 reads")
  case True
  note d = forward_okxD [OF b]
  let ?b = "end_task k (forward_emit [TargetClosed t] b)"
  have "draining (wb_running b) \<subseteq> insert t (draining (wb_running ?b))"
  proof
    fix u
    assume "u \<in> draining (wb_running b)"
    then obtain j where "map_of (wb_running b) j = Some (ForwardDraining u)" by (auto simp: draining_def)
    then show "u \<in> insert t (draining (wb_running ?b))" using q by (cases "j = k") (auto simp: draining_def)
  qed
  then have "forward_targets ?b"
    using d(2) by (auto simp: forward_targets_def targets_in_def simp del: end_task_sel(11))
  moreover have "forward_tasks ?b"
  proof (rule tasksI)
    fix j p
    assume "map_of (wb_running ?b) j = Some p"
    then show "task_valid ?b j p" using tasksD(1) [OF d(5), of j p] by (simp split: if_splits)
  next
    fix a
    assume "a < length (wb_fport ?b)" "map_of (wb_running ?b) (FportRun a) = None"
    then show "ss_closed (wb_fport ?b ! a)" using tasksD(2) [OF d(5), of a] drained_closed(1) [OF b q] by (simp split: if_splits)
  next
    fix a
    assume "a < length (wb_rport ?b)" "map_of (wb_running ?b) (RportRun a) = None"
    then show "ss_closed (wb_rport ?b ! a)" using tasksD(3) [OF d(5), of a] drained_closed(2) [OF b q] by (simp split: if_splits)
  qed
  ultimately have "forward_ok ?b" using d(1,3,4) by (simp add: forward_okx_def forward_valid_def)
  then show ?thesis using True by (simp add: forward_drain_def drainTargetChannel_def)
qed (use b in \<open>simp add: forward_drain_def\<close>)

lemma rport_bound:
  "forward_okx F C R V b \<Longrightarrow> map_of (wb_running b) (AcceptRun a) = Some q \<Longrightarrow> a < length (wb_rport b)"
  "forward_okx F C R V b \<Longrightarrow> map_of (wb_running b) (CheckTimer a) = Some q \<Longrightarrow> a < length (wb_rport b)"
  using tasksD(1) [of b "AcceptRun a" q] tasksD(1) [of b "CheckTimer a" q] forward_okxD(5) by fastforce+

lemma reverse_bound:
  "forward_okx F C R V b \<Longrightarrow> map_of (wb_running b) (ReverseRun a) = Some q \<Longrightarrow> a < length (wb_rconn b)"
  using tasksD(1) [of b "ReverseRun a" q] forward_okxD(5) by fastforce

lemma accept_ok:
  assumes b: "forward_ok b" and q: "map_of (wb_running b) (AcceptRun a) = Some ForwardLooping"
  shows "forward_ok (reverse_accept ok conn rand a b)"
proof (cases conn)
  case None
  then show ?thesis using looping_end_ok [OF b] by (simp add: reverse_accept_def)
next
  case (Some n)
  let ?s = "wb_rport b ! a" and ?key = "(ss_channelID (wb_rport b ! a), randomContextID rand)"
  let ?c = "\<lparr>lc_key = ?key, lc_conn = Some n, lc_closed = False, rc_started = False\<rparr>"
  have "forward_ok (net_emit ([Accepted n] @ [ConnClosed n]) b)"
    by (rule net_ok [OF b]) (simp_all only: net_sets net_sets_one, auto)
  then have refused: "forward_ok (net_emit [Accepted n, ConnClosed n] b)" by simp
  show ?thesis
  proof (cases "wb_closed b \<or> map_of (wb_reverseBindings b) (ss_channelID ?s) \<noteq> Some a \<or> map_of (wb_reverseConns b) ?key \<noteq> None")
    case True
    then show ?thesis
      using Some refused looping_end_ok [OF refused, of "AcceptRun a"] by (auto simp: reverse_accept_def Let_def)
  next
    case False
    define b1 where "b1 = net_emit [Accepted n] b\<lparr>wb_rconn := wb_rconn b @ [?c],
      wb_reverseConns := AList.update ?key (length (wb_rconn b)) (wb_reverseConns b)\<rparr>"
    define b2 where "b2 = forward_emit (sent ok (encodeForwardEndpointFrame (ss_channelID ?s)
      CommandForwardActiveSlave (randomContextID rand) (rv_hostEndpoint ?s))) b1"
    have "forward_ok b1" using new_reverse_ok [OF b, of ?c n] False by (simp add: b1_def)
    then have k: "forward_ok b2" unfolding b2_def by (rule sent_ok)
    have "length (wb_rconn b) < length (wb_rconn b2)" by (simp add: b2_def b1_def)
    from looping_end_ok [OF drop_reverse_ok [OF k this], of "AcceptRun a"]
    have "forward_ok (end_task (AcceptRun a) (reverse_close False False (length (wb_rconn b))
      (removeReverseConn (length (wb_rconn b)) b2)))" by simp
    moreover have "reverse_accept ok conn rand a b = (if ok then b2 else end_task (AcceptRun a)
        (reverse_close False False (length (wb_rconn b)) (removeReverseConn (length (wb_rconn b)) b2)))"
      using Some False by (simp add: reverse_accept_def Let_def b2_def b1_def)
    ultimately show ?thesis using k by simp
  qed
qed

lemma check_result_ok:
  assumes b: "forward_ok b"
  shows "forward_ok (fst (handleReverseCheckResult ok frame b))"
proof (cases "decodeForwardData (Payload frame)")
  case (Inr r)
  obtain ctx data where r: "r = (ctx, data)" by (cases r)
  show ?thesis
  proof (cases "map_of (wb_reverseBindings b) (ChannelID frame)")
    case (Some a)
    have a: "a < length (wb_rport b)" using tracksD(2) [OF forward_okxD(8) [OF b] Some] .
    let ?b = "put_rport a ((wb_rport b ! a)\<lparr>rv_resolved := True\<rparr>) b"
    have "forward_ok (forward_emit [] ?b)"
      using a rport_task [OF b, of a ForwardOpening] by (intro put_rport_ok [OF b]) simp_all
    then have k: "forward_ok ?b" by simp
    have "a < length (wb_rport ?b)" using a by (simp add: put_rport_def)
    from drop_rport_ok [OF k this] show ?thesis
      using Some Inr r b send_frame_ok [OF k] by (auto simp: handleReverseCheckResult_def Let_def)
  qed (use b Inr r in \<open>simp add: handleReverseCheckResult_def\<close>)
qed (use b in \<open>simp add: handleReverseCheckResult_def forward_reject_ok\<close>)

lemma active_master_ok:
  assumes b: "forward_ok b"
  shows "forward_ok (fst (handleReverseActiveMaster ok frame b))"
proof (cases "decodeForwardData (Payload frame)")
  case (Inr r)
  obtain ctx data where r: "r = (ctx, data)" by (cases r)
  show ?thesis
  proof (cases "map_of (wb_reverseConns b) (ChannelID frame, ctx)")
    case (Some a)
    have a: "a < length (wb_rconn b)" using tracksD(2) [OF forward_okxD(9) [OF b] Some] .
    let ?c = "(wb_rconn b ! a)\<lparr>rc_started := True\<rparr>"
    have "forward_ok (net_emit [] (b\<lparr>wb_rconn := (wb_rconn b)[a := ?c]\<rparr>))"
      by (intro rconn_update_ok [OF b a] tracks_put [OF forward_okxD(9) [OF b]]) simp_all
    then have k: "forward_ok (b\<lparr>wb_rconn := (wb_rconn b)[a := ?c]\<rparr>)" by simp
    have "forward_ok (set_task (ReverseRun a) ForwardLooping (b\<lparr>wb_rconn := (wb_rconn b)[a := ?c]\<rparr>))"
      using a looping_only(3) [OF b, of a] by (intro set_task_ok [OF k]) simp_all
    then show ?thesis using Some Inr r b by (simp add: handleReverseActiveMaster_def Let_def)
  qed (use b Inr r send_frame_ok in \<open>simp add: handleReverseActiveMaster_def\<close>)
qed (use b in \<open>simp add: handleReverseActiveMaster_def forward_reject_ok\<close>)

lemma context_read_ok:
  assumes b: "forward_ok b" and q: "map_of (wb_running b) (ContextRun a) = Some ForwardLooping"
  shows "forward_ok (context_read ok ok2 data ended a b)"
proof -
  note a = context_bound [OF b q]
  define b' where "b' = (if data = [] then b else send_frame ok (fst (lc_key (wb_ctx b ! a))) CommandForwardData
    (snd (lc_key (wb_ctx b ! a))) data b)"
  have b': "forward_ok b'" using b send_frame_ok by (simp add: b'_def)
  have "a < length (wb_ctx b')" using a by (simp add: b'_def send_frame_def)
  note drop = looping_end_ok [OF drop_context_ok [OF b' this], of "ContextRun a"]
  show ?thesis
    unfolding context_read_def Let_def b'_def [symmetric]
    using b' drop looping_end_ok [OF b, of "ContextRun a"] by simp
qed

lemma reverse_read_ok:
  assumes b: "forward_ok b" and q: "map_of (wb_running b) (ReverseRun a) = Some ForwardLooping"
  shows "forward_ok (reverse_read ok ok2 data ended a b)"
proof -
  note a = reverse_bound [OF b q]
  define b' where "b' = (if data = [] then b else send_frame ok (fst (lc_key (wb_rconn b ! a))) CommandForwardData
    (snd (lc_key (wb_rconn b ! a))) data b)"
  have b': "forward_ok b'" using b send_frame_ok by (simp add: b'_def)
  have "a < length (wb_rconn b')" using a by (simp add: b'_def send_frame_def)
  note drop = looping_end_ok [OF drop_reverse_ok [OF b' this], of "ReverseRun a"]
  show ?thesis
    unfolding reverse_read_def Let_def b'_def [symmetric]
    using b' drop looping_end_ok [OF b, of "ReverseRun a"] by simp
qed

lemma timer_ok:
  assumes b: "forward_ok b" and q: "map_of (wb_running b) (CheckTimer a) = Some ForwardLooping"
  shows "forward_ok (check_timer ok a b)"
  using looping_end_ok [OF b, of "CheckTimer a"]
    looping_end_ok [OF fail_reverse_ok [OF b rport_bound(2) [OF b q]], of "CheckTimer a"]
  by (simp add: check_timer_def)

lemma forward_handle_ok: "forward_ok b \<Longrightarrow> forward_ok (fst (forward_Handle env frame b))"
  by (simp add: forward_Handle_def Let_def check_ok active_slave_ok reverse_init_ok check_result_ok
      active_master_ok data_ok free_context_ok forward_reject_ok)

lemma deadline_ok: "forward_ok b \<Longrightarrow> forward_ok (forward_deadline t b)"
  unfolding forward_deadline_def by (rule emit_ok) simp_all

lemma forward_step_ok: "forward_ok b \<Longrightarrow> forward_step b b' \<Longrightarrow> forward_ok b'"
proof (erule forward_step.cases)
qed (simp_all add: forward_handle_ok forward_close_channel_ok forward_close_ok connect_ok context_read_ok
    fport_open_ok fport_read_ok fport_clean_ok rport_open_ok rport_read_ok rport_clean_ok deadline_ok drain_ok
    accept_ok reverse_read_ok looping_end_ok timer_ok)

text \<open>What was opened on the main HDC server is held by a binding, being drained, or closed.\<close>

interpretation forwards: target_keeper forward_step forward_ok wb_log
  "\<lambda>b. held_targets (wb_fport b) \<union> held_targets (wb_rport b) \<union> draining (wb_running b)"
proof unfold_locales
  fix b b' :: ForwardBridge
  show "forward_ok b \<Longrightarrow> forward_step b b' \<Longrightarrow> forward_ok b'" by (rule forward_step_ok)
  show "forward_ok b \<Longrightarrow> opened_targets (wb_log b) \<subseteq> closed_targets (wb_log b)
      \<union> (held_targets (wb_fport b) \<union> held_targets (wb_rport b) \<union> draining (wb_running b))"
    by (simp add: forward_okx_def forward_targets_def targets_in_def)
qed

lemma forward_reachable_ok: "forward_step\<^sup>*\<^sup>* (NewForwardBridge canOpen) b \<Longrightarrow> forward_ok b"
  by (rule forwards.run_kept [OF _ forward_new_ok])

end
