(* ===== verification/Forward_Properties.thy ===== *)
theory Forward_Properties
  imports Forward_Steps
begin

text \<open>
  What the forward bridge promises over every run: its commands on the main HDC server have
  exactly their words, local connections are dialled only for forwards the server confirmed, a
  client's bytes reach only the connection of their context, and nothing is left after
  \<open>Close\<close>. One run of a forward, from its request to the closing, serves the witnesses.
\<close>

section \<open>A run\<close>

definition demo_forward_frame :: "Command \<Rightarrow> bytes \<Rightarrow> Frame" where
  "demo_forward_frame flag payload = \<lparr>ChannelID = 5, CommandFlag = flag, CommandName = [],
     CheckSum = 0, VCode = 9, Payload = payload\<rparr>"

definition demo_endpoint :: "u32 \<Rightarrow> bytes" where
  "demo_endpoint ctx = put_be32 ctx @ replicate 8 0 @ bytes_of ''tcp:8080'' @ [0]"

definition demo_forward_env :: forward_env where
  "demo_forward_env = \<lparr>we_writeOK = True, we_port = Some 40000, we_listener = None, we_rand = None,
     we_short = None\<rparr>"

definition demo_handles :: "Command \<Rightarrow> bytes \<Rightarrow> ForwardBridge \<Rightarrow> ForwardBridge" where
  "demo_handles flag payload b = fst (forward_Handle demo_forward_env (demo_forward_frame flag payload) b)"

definition demo_checked :: ForwardBridge where
  "demo_checked = runSetup_open True (Opened 1) 0
     (demo_handles CommandForwardCheck (demo_endpoint 1) (NewForwardBridge True))"

definition demo_confirmed :: ForwardBridge where
  "demo_confirmed = runSetup_read True [] (bytes_of ''Forwardport result:OK'') (Some EndClosed) 1 0 demo_checked"

definition demo_connected :: ForwardBridge where
  "demo_connected = fst (context_connect True (Some 9) 0
     (demo_handles CommandForwardActiveSlave (demo_endpoint 2) demo_confirmed))"

text \<open>The run evaluated: the binding after its set-up, and the bridge in each state.\<close>

definition demo_binding :: forwardBinding where
  "demo_binding = \<lparr>ss_channelID = 5, ss_target = Some 1, ss_closed = False, fs_checkContextID = 1,
     fs_port = 40000, fs_ready = True, fs_outputSeen = True, fs_outputError = False,
     fs_output = ''Forwardport result:OK'', fw_remoteEndpoint = ''tcp:8080''\<rparr>"

lemma demo_endpoint_decodes: "decodeForwardEndpoint (demo_endpoint ctx) = Inr (ctx, ''tcp:8080'')"
proof -
  have "validateForwardEndpoint ''tcp:8080'' = None" by code_simp
  then show ?thesis unfolding demo_endpoint_def by (rule decode_endpoint_payload)
qed

lemmas demo_defs = demo_handles_def forward_Handle_def demo_forward_frame_def demo_forward_env_def
  Let_def set_task_def forward_emit_def net_emit_def put_fport_def

lemma demo_checked_eq: "demo_checked = NewForwardBridge True\<lparr>wb_bindings := [(5, 0)],
    wb_fport := [demo_binding\<lparr>fs_ready := False, fs_outputSeen := False, fs_output := []\<rparr>],
    wb_running := [(FportRun 0, ForwardReading 1)],
    wb_log := [TargetOpened 1 (fport_command 40000 ''tcp:8080'')]\<rparr>"
  by (simp add: demo_checked_def demo_defs demo_endpoint_decodes forward_handleCheck_def NewForwardBridge_def
      allocateForwardPort_def runSetup_open_def attachTarget_def demo_binding_def)

lemma demo_output:
  "\<not> failure_words (to_lower ''Forwardport result:OK'')"
  "contains_str (to_lower ''Forwardport result:OK'') ''forwardport result:ok''"
  "bytes_of ''Forwardport result:OK'' \<noteq> []"
  by code_simp+

lemma demo_confirmed_eq: "demo_confirmed = NewForwardBridge True\<lparr>wb_bindings := [(5, 0)],
    wb_fport := [demo_binding], wb_running := [(FportRun 0, ForwardWaiting)],
    wb_log := [TargetOpened 1 (fport_command 40000 ''tcp:8080''), TargetClosed 1,
      FrameSent (encodeForwardFrame 5 CommandForwardCheckResult 1 [0])]\<rparr>"
  using demo_output
  by (simp add: demo_confirmed_def demo_checked_eq demo_defs runSetup_read_def recordOutput_def finishSetup_def
      setupSuccessful_def markReady_def send_frame_def sent_def demo_binding_def NewForwardBridge_def
      del: to_lower_append)

lemma demo_connected_eq: "demo_connected = demo_confirmed\<lparr>wb_contexts := [((5, 2), 0)],
    wb_ctx := [\<lparr>lc_key = (5, 2), lc_conn = Some 9, lc_closed = False, cx_binding = 0\<rparr>],
    wb_running := [(FportRun 0, ForwardWaiting), (ContextRun 0, ForwardLooping)],
    wb_log := wb_log demo_confirmed @ [FrameSent (encodeForwardFrame 5 CommandForwardActiveMaster 2 [])],
    wb_net := [Dialled 9 40000]\<rparr>"
  by (simp add: demo_connected_def demo_confirmed_eq demo_defs handleActiveSlave_def demo_endpoint_decodes
      context_connect_def isReady_def send_frame_def sent_def demo_binding_def NewForwardBridge_def)

lemma handles_step: "forward_step b (demo_handles flag payload b)"
  unfolding demo_handles_def by (rule forward_step.handles)

lemma demo_confirmed_run: "forward_step\<^sup>*\<^sup>* (NewForwardBridge True) demo_confirmed"
proof -
  let ?b = "demo_handles CommandForwardCheck (demo_endpoint 1) (NewForwardBridge True)"
  have "forward_step ?b demo_checked"
    unfolding demo_checked_def
    by (rule forward_step.fport_opens) (simp add: demo_defs forward_handleCheck_def demo_endpoint_decodes
        NewForwardBridge_def allocateForwardPort_def)
  moreover have "forward_step demo_checked demo_confirmed"
    unfolding demo_confirmed_def by (rule forward_step.fport_reads) (simp add: demo_checked_eq)
  ultimately show ?thesis
    using handles_step [of "NewForwardBridge True" CommandForwardCheck "demo_endpoint 1"] by simp
qed

lemma demo_connected_run: "forward_step\<^sup>*\<^sup>* (NewForwardBridge True) demo_connected"
proof -
  let ?b = "demo_handles CommandForwardActiveSlave (demo_endpoint 2) demo_confirmed"
  have "forward_step ?b demo_connected"
    unfolding demo_connected_def
    by (rule forward_step.dials) (simp add: demo_defs handleActiveSlave_def demo_endpoint_decodes
        demo_confirmed_eq isReady_def demo_binding_def NewForwardBridge_def)
  then show ?thesis
    using demo_confirmed_run handles_step [of demo_confirmed CommandForwardActiveSlave "demo_endpoint 2"] by simp
qed

section \<open>Commands\<close>

text \<open>Whatever a client sends to the forward bridge, every command that reaches the main HDC server
  through it splits at white space into exactly the words of one of the four commands that set up
  or remove a forward, with a local port the bridge chose and one endpoint that passed the
  checks: no byte of a request becomes another word or option.\<close>

theorem forward_commands_have_their_words:
  assumes "forward_step\<^sup>*\<^sup>* (NewForwardBridge canOpen) b" and "TargetOpened t command \<in> set (wb_log b)"
  shows "\<exists>port endpoint. validateForwardEndpoint endpoint = None \<and> \<not> has_prefix endpoint ''-''
    \<and> str_fields command \<in> {[''fport'', ''tcp:'' @ itoa_nat port, endpoint],
        [''fport'', ''rm'', ''tcp:'' @ itoa_nat port, endpoint],
        [''rport'', endpoint, ''tcp:'' @ itoa_nat port],
        [''fport'', ''rm'', endpoint, ''tcp:'' @ itoa_nat port]}"
proof -
  have "good_commands (wb_log b)"
    using forward_reachable_ok [OF assms(1)] by (simp add: forward_okx_def forward_valid_def)
  moreover have "command \<in> set (opened_commands (wb_log b))"
    using assms(2) by (force simp: opened_commands_def)
  ultimately have "forward_words (str_fields command)" by (simp add: good_commands_def)
  then obtain port endpoint where e: "validateForwardEndpoint endpoint = None"
    and w: "str_fields command \<in> {[''fport'', ''tcp:'' @ itoa_nat port, endpoint],
        [''fport'', ''rm'', ''tcp:'' @ itoa_nat port, endpoint],
        [''rport'', endpoint, ''tcp:'' @ itoa_nat port],
        [''fport'', ''rm'', endpoint, ''tcp:'' @ itoa_nat port]}"
    unfolding forward_words_def by blast
  with valid_endpoint(3) [OF e] show ?thesis by blast
qed

lemma forward_commands_have_their_words_witness:
  "\<exists>port endpoint. str_fields ''fport tcp:40000 tcp:8080'' \<in> {[''fport'', ''tcp:'' @ itoa_nat port, endpoint],
        [''fport'', ''rm'', ''tcp:'' @ itoa_nat port, endpoint],
        [''rport'', endpoint, ''tcp:'' @ itoa_nat port],
        [''fport'', ''rm'', endpoint, ''tcp:'' @ itoa_nat port]}"
proof -
  have "itoa_nat 40000 = ''40000''" by (simp add: itoa_nat.simps, code_simp)
  then have "TargetOpened 1 ''fport tcp:40000 tcp:8080'' \<in> set (wb_log demo_confirmed)"
    by (simp add: demo_confirmed_eq fport_command_def)
  from forward_commands_have_their_words [OF demo_confirmed_run this] show ?thesis by blast
qed

section \<open>Connections\<close>

text \<open>C31: A client gets a connection to a local port only through a forward that the main HDC server
  confirmed. For every port the bridge has dialled there is a forward of that port whose setup
  command was answered with the success text, whose failure flag is not set (the bridge sets it
  when one piece of the output has a failure word), and whose endpoint passed the checks.\<close>

theorem dialled_port_was_confirmed:
  assumes "forward_step\<^sup>*\<^sup>* (NewForwardBridge canOpen) b" and "Dialled conn port \<in> set (wb_net b)"
  shows "\<exists>s \<in> set (wb_fport b). fs_port s = port \<and> fs_ready s \<and> \<not> fs_outputError s
    \<and> contains_str (to_lower (fs_output s)) ''forwardport result:ok''
    \<and> validateForwardEndpoint (fw_remoteEndpoint s) = None"
proof -
  have ok: "forward_valid b" using forward_reachable_ok [OF assms(1)] by (simp add: forward_okx_def)
  have "port \<in> dialled_ports (wb_net b)" using assms(2) by (auto simp: dialled_ports_def)
  then obtain s where s: "s \<in> set (wb_fport b)" "fs_ready s" "fs_port s = port"
    using ok by (auto simp: forward_valid_def)
  then have "fport_valid s" using ok by (simp add: forward_valid_def)
  with s show ?thesis by (auto simp: fport_valid_def setupSuccessful_def)
qed

lemma dialled_port_was_confirmed_witness: "\<exists>s \<in> set (wb_fport demo_connected). fs_port s = 40000 \<and> fs_ready s"
proof -
  have "Dialled 9 40000 \<in> set (wb_net demo_connected)" by (simp add: demo_connected_eq)
  from dialled_port_was_confirmed [OF demo_connected_run this] show ?thesis by blast
qed

text \<open>An open connection of a key, as a context or as a reverse connection.\<close>

definition is_conn :: "forwardContextKey \<Rightarrow> nat \<Rightarrow> 'a local_conn_scheme \<Rightarrow> bool" where
  "is_conn key n c \<longleftrightarrow> lc_key c = key \<and> \<not> lc_closed c \<and> lc_conn c = Some n"

definition connection_of :: "forwardContextKey \<Rightarrow> nat \<Rightarrow> ForwardBridge \<Rightarrow> bool" where
  "connection_of key n b \<longleftrightarrow> (\<exists>c \<in> set (wb_ctx b). is_conn key n c) \<or> (\<exists>c \<in> set (wb_rconn b). is_conn key n c)"

lemma closing_net [simp]:
  "wb_net (context_close False ok a b) = wb_net b @ conn_effects (wb_ctx b ! a)"
  "wb_net (reverse_close False ok a b) = wb_net b @ conn_effects (wb_rconn b ! a)"
  "wb_net (removeContext a b) = wb_net b" "wb_net (removeReverseConn a b) = wb_net b"
  "wb_ctx (removeContext a b) = wb_ctx b" "wb_rconn (removeReverseConn a b) = wb_rconn b"
  by (simp_all add: context_close_def reverse_close_def conn_effects_def removeContext_def removeReverseConn_def
      Let_def)

lemma send_frame_net [simp]: "wb_net (send_frame ok ch cmd ctx data b) = wb_net b"
  by (simp add: send_frame_def)

lemma local_write_bytes:
  "local_write short data c = (w, l) \<Longrightarrow> ConnWrote n d \<in> set l \<Longrightarrow>
   \<not> lc_closed c \<and> lc_conn c = Some n \<and> (\<exists>k. d = take k data)"
  by (auto simp: local_write_def split: if_splits option.splits intro: exI [of _ "length data"])

lemma local_write_all:
  "is_conn key n c \<Longrightarrow> data \<noteq> [] \<Longrightarrow> local_write None data c = (True, [ConnWrote n data])"
  by (simp add: local_write_def is_conn_def)

text \<open>Which connection a data frame is for, and what it does to the sockets.\<close>

definition data_conn :: "forwardContextKey \<Rightarrow> ForwardBridge \<Rightarrow> (reverseConn + forwardTCPContext) option" where
  "data_conn key b = (case map_of (wb_reverseConns b) key of Some a \<Rightarrow> Some (Inl (wb_rconn b ! a))
     | None \<Rightarrow> map_option (\<lambda>a. Inr (wb_ctx b ! a)) (map_of (wb_contexts b) key))"

definition data_effects :: "nat option \<Rightarrow> bytes \<Rightarrow> 'a local_conn_scheme \<Rightarrow> net_effect list" where
  "data_effects short data c = (case local_write short data c of (written, l) \<Rightarrow>
     if written then l else l @ conn_effects c)"

lemma handleData_net:
  assumes "decodeForwardData (Payload frame) = Inr (ctx, data)"
  shows "wb_net (fst (forward_handleData ok short frame b)) = wb_net b @
    (case data_conn (ChannelID frame, ctx) b of None \<Rightarrow> []
     | Some (Inl c) \<Rightarrow> data_effects short data c | Some (Inr c) \<Rightarrow> data_effects short data c)"
  using assms
  by (auto simp: forward_handleData_def data_conn_def data_effects_def Let_def split: option.split prod.split)

lemma data_effects_wrote:
  "ConnWrote n d \<in> set (data_effects short data c) \<Longrightarrow>
   \<not> lc_closed c \<and> lc_conn c = Some n \<and> (\<exists>k. d = take k data)"
proof -
  obtain w l where w: "local_write short data c = (w, l)" by fastforce
  assume "ConnWrote n d \<in> set (data_effects short data c)"
  then have "ConnWrote n d \<in> set l"
    using w by (auto simp: data_effects_def conn_effects_def split: if_splits option.splits)
  from local_write_bytes [OF w this] show ?thesis .
qed

text \<open>C32: A client's bytes reach only their own connection. In every run, a data frame writes to no
  socket but that of the open context or reverse connection with the frame's channel and context
  id, and nothing but a beginning of the frame's data; when the socket takes it, it is exactly
  the frame's data, once. When there is no such connection nothing is written and the client is
  told that the context is free.\<close>

theorem data_reaches_own_connection:
  assumes "forward_step\<^sup>*\<^sup>* (NewForwardBridge canOpen) b"
    and "decodeForwardData (Payload frame) = Inr (ctx, data)"
  shows "\<exists>l. wb_net (fst (forward_handleData ok short frame b)) = wb_net b @ l
    \<and> (\<forall>n d. ConnWrote n d \<in> set l \<longrightarrow> connection_of (ChannelID frame, ctx) n b \<and> (\<exists>k. d = take k data))
    \<and> (\<forall>n. short = None \<and> data \<noteq> [] \<and> (\<exists>c \<in> set (wb_rconn b). is_conn (ChannelID frame, ctx) n c) \<longrightarrow> l = [ConnWrote n data])
    \<and> (\<forall>n. short = None \<and> data \<noteq> [] \<and> map_of (wb_reverseConns b) (ChannelID frame, ctx) = None
         \<and> (\<exists>c \<in> set (wb_ctx b). is_conn (ChannelID frame, ctx) n c) \<longrightarrow> l = [ConnWrote n data])
    \<and> (map_of (wb_reverseConns b) (ChannelID frame, ctx) = None \<and> map_of (wb_contexts b) (ChannelID frame, ctx) = None \<longrightarrow> l = []
         \<and> wb_log (fst (forward_handleData ok short frame b)) = wb_log b @ sent ok (encodeForwardFrame (ChannelID frame) CommandForwardFreeContext ctx []))"
proof -
  let ?key = "(ChannelID frame, ctx)" and ?b = "fst (forward_handleData ok short frame b)"
  note t = forward_okxD(7,9) [OF forward_reachable_ok [OF assms(1)]]
  let ?l = "case data_conn ?key b of None \<Rightarrow> [] | Some (Inl c) \<Rightarrow> data_effects short data c
    | Some (Inr c) \<Rightarrow> data_effects short data c"
  have net: "wb_net ?b = wb_net b @ ?l" by (rule handleData_net [OF assms(2)])
  have wrote: "connection_of ?key n b \<and> (\<exists>k. d = take k data)" if "ConnWrote n d \<in> set ?l" for n d
  proof (cases "map_of (wb_reverseConns b) ?key")
    note w = that
    case (Some a)
    then have l: "ConnWrote n d \<in> set (data_effects short data (wb_rconn b ! a))" using that by (simp add: data_conn_def)
    show ?thesis
      using data_effects_wrote [OF l] tracksD(2,3) [OF t(2) Some]
      by (auto simp: connection_of_def is_conn_def intro: bexI [OF _ nth_mem])
  next
    note w = that
    case None
    then obtain a where a: "map_of (wb_contexts b) ?key = Some a"
      and l: "ConnWrote n d \<in> set (data_effects short data (wb_ctx b ! a))"
      using w None by (cases "map_of (wb_contexts b) ?key") (simp_all add: data_conn_def)
    show ?thesis
      using data_effects_wrote [OF l] tracksD(2,3) [OF t(1) a]
      by (auto simp: connection_of_def is_conn_def intro: bexI [OF _ nth_mem])
  qed
  have rev: "?l = [ConnWrote n data]"
    if "short = None" "data \<noteq> []" "c \<in> set (wb_rconn b)" "is_conn ?key n c" for n c
  proof -
    note h = that
    obtain a where a: "a < length (wb_rconn b)" "c = wb_rconn b ! a" using h(3) by (auto simp: in_set_conv_nth)
    then have "map_of (wb_reverseConns b) ?key = Some a"
      using tracksD(4) [OF t(2) a(1)] that(4) by (simp add: is_conn_def)
    then show ?thesis
      using that local_write_all [OF that(4,2)] a by (simp add: data_conn_def data_effects_def)
  qed
  have con: "?l = [ConnWrote n data]"
    if "short = None" "data \<noteq> []" "map_of (wb_reverseConns b) ?key = None" "c \<in> set (wb_ctx b)" "is_conn ?key n c" for n c
  proof -
    note h = that
    obtain a where a: "a < length (wb_ctx b)" "c = wb_ctx b ! a" using h(4) by (auto simp: in_set_conv_nth)
    then have "map_of (wb_contexts b) ?key = Some a"
      using tracksD(4) [OF t(1) a(1)] that(5) by (simp add: is_conn_def)
    then show ?thesis
      using that local_write_all [OF that(5,2)] a by (simp add: data_conn_def data_effects_def)
  qed
  have free: "?l = [] \<and> wb_log ?b = wb_log b @ sent ok (encodeForwardFrame (ChannelID frame) CommandForwardFreeContext ctx [])"
    if "map_of (wb_reverseConns b) ?key = None \<and> map_of (wb_contexts b) ?key = None"
    using that assms(2) by (simp add: data_conn_def forward_handleData_def send_frame_def)
  show ?thesis using net wrote rev con free by (intro exI [of _ ?l] conjI) blast+
qed

lemma data_reaches_own_connection_witness:
  "wb_net (fst (forward_handleData True None (demo_forward_frame CommandForwardData (put_be32 2 @ [7, 8]))
     demo_connected)) = [Dialled 9 40000, ConnWrote 9 [7, 8]]"
proof -
  let ?f = "demo_forward_frame CommandForwardData (put_be32 2 @ [7, 8])"
  have d: "decodeForwardData (Payload ?f) = Inr (2, [7, 8])"
    by (simp add: demo_forward_frame_def decodeForwardData_def)
  have c: "\<exists>c \<in> set (wb_ctx demo_connected). is_conn (ChannelID ?f, 2) 9 c"
    "map_of (wb_reverseConns demo_connected) (ChannelID ?f, 2) = None"
    by (simp_all add: demo_connected_eq demo_confirmed_eq NewForwardBridge_def is_conn_def demo_forward_frame_def)
  have n: "wb_net demo_connected = [Dialled 9 40000]" by (simp add: demo_connected_eq)
  show ?thesis
    using data_reaches_own_connection [OF demo_connected_run d, of True None] c n by auto
qed

section \<open>Nothing is left\<close>

lemma all_closed:
  assumes "tracks m key closed h {}" "m = []"
  shows "x \<in> set h \<Longrightarrow> closed x"
  using assms by (auto simp: tracks_def in_set_conv_nth)

text \<open>C33: Closing the forward bridge leaves nothing behind, whatever was being set up, dialled, accepted
  or copied: from then on every socket and every listener it ever opened is closed, also those
  that arrive afterwards, and every binding is closed so that each goroutine can end; and when
  they have ended, which is what \<open>Close\<close> waits for, every target on the main HDC server is
  closed too.\<close>

theorem forward_close_leaves_nothing:
  assumes "forward_step\<^sup>*\<^sup>* (NewForwardBridge canOpen) b" and "wb_closed b"
  shows "opened_conns (wb_net b) \<subseteq> closed_conns (wb_net b)
    \<and> opened_listeners (wb_net b) \<subseteq> closed_listeners (wb_net b)
    \<and> (\<forall>s \<in> set (wb_fport b). ss_closed s) \<and> (\<forall>s \<in> set (wb_rport b). ss_closed s)
    \<and> (wb_running b = [] \<longrightarrow> opened_targets (wb_log b) \<subseteq> closed_targets (wb_log b))"
proof -
  have ok: "forward_ok b" by (rule forward_reachable_ok [OF assms(1)])
  note t = forward_okxD(6-9) [OF ok] and e = closed_Nil [OF ok assms(2)]
  have f: "\<forall>s \<in> set (wb_fport b). ss_closed s" "\<forall>s \<in> set (wb_rport b). ss_closed s"
    using all_closed [OF t(1) e(1)] all_closed [OF t(3) e(3)] by blast+
  have "held_conns (wb_ctx b) = {}" "held_conns (wb_rconn b) = {}" "held_listeners (wb_rport b) = {}"
    using all_closed [OF t(2) e(2)] all_closed [OF t(4) e(4)] f by (auto simp: held_conns_def held_listeners_def)
  moreover have "wb_running b = [] \<longrightarrow> opened_targets (wb_log b) \<subseteq> closed_targets (wb_log b)"
    using forwards.no_leak [OF assms(1) forward_new_ok] held_none [OF f(1)] held_none [OF f(2)]
    by (simp add: draining_def)
  ultimately show ?thesis using forward_okxD(3) [OF ok] f by (simp add: forward_sockets_def)
qed

lemma forward_close_leaves_nothing_witness: "9 \<in> closed_conns (wb_net (forward_Close demo_connected))"
proof -
  have "forward_step demo_connected (forward_Close demo_connected)" by (rule forward_step.closes_bridge)
  then have run: "forward_step\<^sup>*\<^sup>* (NewForwardBridge True) (forward_Close demo_connected)"
    using demo_connected_run by simp
  have c: "wb_closed (forward_Close demo_connected)" "opened_conns (wb_net (forward_Close demo_connected)) = {9}"
    by (simp_all add: forward_Close_def demo_connected_eq demo_confirmed_eq NewForwardBridge_def context_close_def
        fport_close_def conn_effects_def Let_def put_fport_def demo_binding_def opened_conns_def)
  from forward_close_leaves_nothing [OF run c(1)] c(2) show ?thesis by blast
qed

end
