(* ===== verification/Audit_Sink.thy ===== *)
theory Audit_Sink
  imports Model "HOL-Library.Sublist"
begin

text \<open>
  The audit log (\<^verbatim>\<open>internal/audit/sink.go\<close>): events are handed over without blocking, a goroutine
  appends them to a file, a full file is renamed and a new one is opened. A call of \<open>Record\<close> is
  two steps, its check whether the sink is closed and its attempt to send; \<open>sk_pending\<close> holds the
  events of calls that are between the two. The goroutine takes one event per step. The JSON
  encoder is the argument \<open>marshal\<close>; what the operating system answers is in \<open>audit_env\<close>.
  \<open>sk_submitted\<close>, \<open>sk_sent\<close>, \<open>sk_saved\<close> and \<open>sk_output\<close> are history: how many events were
  handed over, which were queued and which written as whole lines, in order, and all bytes
  written.
\<close>

section \<open>State\<close>

abbreviation (input) eventBuffer :: nat where "eventBuffer \<equiv> 4096"
abbreviation (input) maxAuditBytes :: int where "maxAuditBytes \<equiv> 67108864"
abbreviation (input) dropReportInterval :: duration where "dropReportInterval \<equiv> 60 * Second"
abbreviation (input) rotationRetryInterval :: duration where "rotationRetryInterval \<equiv> 60 * Second"

text \<open>The audit file and the one generation kept of it.\<close>

record audit_disk =
  ad_current :: "bytes option"
  ad_rotated :: "bytes option"

definition content :: "bytes option \<Rightarrow> bytes" where
  "content f = (case f of None \<Rightarrow> [] | Some b \<Rightarrow> b)"

record Sink =
  sk_events :: "Audit list"
  sk_pending :: "Audit list"
  sk_closed :: bool
  sk_flushed :: bool
  sk_open :: bool
  sk_disk :: audit_disk
  sk_written :: int
  sk_closeErr :: bool
  sk_lastDropNotice :: time
  sk_reportedDropped :: nat
  sk_rotateRetryAt :: time
  sk_dropped :: nat
  sk_failed :: nat
  sk_warned :: "(nat \<times> nat) list"
  sk_submitted :: nat
  sk_sent :: "Audit list"
  sk_saved :: "Audit list"
  sk_output :: bytes

record audit_env =
  ae_now :: time
  ae_syncOK :: bool
  ae_closeOK :: bool
  ae_renameOK :: bool
  ae_openOK :: bool
  ae_statOK :: bool
  ae_short :: "nat option"

text \<open>Opening for appending creates the file when it is missing.\<close>

definition open_append :: "audit_disk \<Rightarrow> audit_disk" where
  "open_append d = d\<lparr>ad_current := Some (content (ad_current d))\<rparr>"

definition NewSink :: "bool \<Rightarrow> bool \<Rightarrow> bool \<Rightarrow> audit_disk \<Rightarrow> Sink option" where
  "NewSink mkdirOK openOK statOK d =
     (if \<not> mkdirOK \<or> \<not> openOK then None
      else Some \<lparr>sk_events = [], sk_pending = [], sk_closed = False, sk_flushed = False, sk_open = True,
        sk_disk = open_append d, sk_written = (if statOK then int (length (content (ad_current d))) else 0),
        sk_closeErr = False, sk_lastDropNotice = 0, sk_reportedDropped = 0, sk_rotateRetryAt = 0,
        sk_dropped = 0, sk_failed = 0, sk_warned = [], sk_submitted = 0, sk_sent = [], sk_saved = [],
        sk_output = []\<rparr>)"

section \<open>Recording\<close>

definition drop_event :: "Sink \<Rightarrow> Sink" where
  "drop_event s = s\<lparr>sk_dropped := Suc (sk_dropped s)\<rparr>"

definition Record_check :: "time \<Rightarrow> Audit \<Rightarrow> Sink \<Rightarrow> Sink" where
  "Record_check now event s =
     (let event = (if au_CreatedAt event = 0 then event\<lparr>au_CreatedAt := now\<rparr> else event);
          s = s\<lparr>sk_submitted := Suc (sk_submitted s)\<rparr>
      in if sk_closed s then drop_event s else s\<lparr>sk_pending := sk_pending s @ [event]\<rparr>)"

definition Record_send :: "nat \<Rightarrow> Sink \<Rightarrow> Sink" where
  "Record_send i s =
     (let event = sk_pending s ! i;
          s = s\<lparr>sk_pending := take i (sk_pending s) @ drop (Suc i) (sk_pending s)\<rparr>
      in if length (sk_events s) < eventBuffer
         then s\<lparr>sk_events := sk_events s @ [event], sk_sent := sk_sent s @ [event]\<rparr>
         else drop_event s)"

section \<open>The goroutine\<close>

definition fail_event :: "Sink \<Rightarrow> Sink" where
  "fail_event s = s\<lparr>sk_failed := Suc (sk_failed s)\<rparr>"

definition rotateIfNeeded :: "audit_env \<Rightarrow> int \<Rightarrow> Sink \<Rightarrow> Sink" where
  "rotateIfNeeded en incoming s =
     (if \<not> sk_open s \<or> sk_written s + incoming \<le> maxAuditBytes then s
      else if sk_rotateRetryAt s \<noteq> 0 \<and> ae_now en < sk_rotateRetryAt s then s
      else
        let d = sk_disk s;
            renamed = (ae_renameOK en \<and> ad_current d \<noteq> None);
            d = (if renamed then d\<lparr>ad_rotated := ad_current d, ad_current := None\<rparr> else d);
            s = s\<lparr>sk_rotateRetryAt := 0, sk_open := False, sk_disk := d\<rparr>
        in if \<not> ae_openOK en then s\<lparr>sk_rotateRetryAt := ae_now en + rotationRetryInterval\<rparr>
           else
             let s = s\<lparr>sk_open := True, sk_disk := open_append d\<rparr>
             in if renamed then s\<lparr>sk_written := 0\<rparr>
                else s\<lparr>sk_written := (if ae_statOK en then int (length (content (ad_current (sk_disk s)))) else 0),
                       sk_rotateRetryAt := ae_now en + rotationRetryInterval\<rparr>)"

definition reportDropped :: "time \<Rightarrow> Sink \<Rightarrow> Sink" where
  "reportDropped now s =
     (if sk_dropped s = sk_reportedDropped s then s
      else if sk_lastDropNotice s \<noteq> 0 \<and> now - sk_lastDropNotice s < dropReportInterval then s
      else s\<lparr>sk_lastDropNotice := now,
             sk_warned := sk_warned s @ [(sk_dropped s - sk_reportedDropped s, sk_dropped s)],
             sk_reportedDropped := sk_dropped s\<rparr>)"

definition append_line :: "bytes \<Rightarrow> Sink \<Rightarrow> Sink" where
  "append_line b s = s\<lparr>sk_disk := (sk_disk s)\<lparr>ad_current := Some (content (ad_current (sk_disk s)) @ b)\<rparr>,
     sk_written := sk_written s + int (length b), sk_output := sk_output s @ b\<rparr>"

definition persist :: "(Audit \<Rightarrow> bytes option) \<Rightarrow> audit_env \<Rightarrow> Audit \<Rightarrow> Sink \<Rightarrow> Sink" where
  "persist marshal en event s =
     (case marshal event of None \<Rightarrow> fail_event s
      | Some json \<Rightarrow>
          let line = json @ [10];
              s = rotateIfNeeded en (int (length line)) s
          in if \<not> sk_open s then fail_event s
             else let n = (case ae_short en of None \<Rightarrow> length line | Some k \<Rightarrow> min k (length line));
                      s = append_line (take n line) s;
                      s = (if ae_short en = None then s\<lparr>sk_saved := sk_saved s @ [event]\<rparr> else fail_event s)
                  in reportDropped (ae_now en) s)"

text \<open>One turn of the loop with an event; and its end, when the sink is closed and the queue is
  empty.\<close>

definition loop_event :: "(Audit \<Rightarrow> bytes option) \<Rightarrow> audit_env \<Rightarrow> Sink \<Rightarrow> Sink" where
  "loop_event marshal en s =
     (case sk_events s of [] \<Rightarrow> s | event # rest \<Rightarrow> persist marshal en event (s\<lparr>sk_events := rest\<rparr>))"

definition loop_end :: "audit_env \<Rightarrow> Sink \<Rightarrow> Sink" where
  "loop_end en s =
     (let s = (if sk_open s then s\<lparr>sk_closeErr := \<not> (ae_syncOK en \<and> ae_closeOK en), sk_open := False\<rparr> else s)
      in s\<lparr>sk_flushed := True\<rparr>)"

section \<open>Closing\<close>

text \<open>The first part of \<open>Close\<close>; the second part waits for the loop and reports.\<close>

definition sink_close :: "Sink \<Rightarrow> Sink" where
  "sink_close s = s\<lparr>sk_closed := True\<rparr>"

datatype audit_error = FinalCloseFailed | EventsDropped nat | EventsFailed nat

definition sink_errors :: "Sink \<Rightarrow> audit_error list" where
  "sink_errors s = (if sk_closeErr s then [FinalCloseFailed] else [])
     @ (if 0 < sk_dropped s then [EventsDropped (sk_dropped s)] else [])
     @ (if 0 < sk_failed s then [EventsFailed (sk_failed s)] else [])"

inductive sink_step :: "(Audit \<Rightarrow> bytes option) \<Rightarrow> Sink \<Rightarrow> Sink \<Rightarrow> bool" for marshal where
  records: "sink_step marshal s (Record_check now event s)"
| sends: "i < length (sk_pending s) \<Longrightarrow> sink_step marshal s (Record_send i s)"
| persists: "\<not> sk_flushed s \<Longrightarrow> sink_step marshal s (loop_event marshal en s)"
| ends: "\<not> sk_flushed s \<Longrightarrow> sk_closed s \<Longrightarrow> sk_events s = [] \<Longrightarrow> sink_step marshal s (loop_end en s)"
| closes: "sink_step marshal s (sink_close s)"

abbreviation sink_run :: "(Audit \<Rightarrow> bytes option) \<Rightarrow> Sink \<Rightarrow> Sink \<Rightarrow> bool" where
  "sink_run marshal \<equiv> (sink_step marshal)\<^sup>*\<^sup>*"

section \<open>Accounting\<close>

definition accounted :: "Sink \<Rightarrow> bool" where
  "accounted s \<longleftrightarrow> sk_submitted s = length (sk_saved s) + sk_failed s + sk_dropped s
     + length (sk_events s) + length (sk_pending s)"

definition in_order :: "Sink \<Rightarrow> bool" where
  "in_order s \<longleftrightarrow> (\<exists>processed. sk_sent s = processed @ sk_events s \<and> subseq (sk_saved s) processed)"

text \<open>The two files are the end of what was there before and of all that was written.\<close>

definition on_disk :: "audit_disk \<Rightarrow> bytes" where
  "on_disk d = content (ad_rotated d) @ content (ad_current d)"

definition disk_ok :: "bytes \<Rightarrow> Sink \<Rightarrow> bool" where
  "disk_ok before s \<longleftrightarrow> (\<exists>older. older @ on_disk (sk_disk s) = before @ sk_output s)"

definition sink_ok :: "bytes \<Rightarrow> Sink \<Rightarrow> bool" where
  "sink_ok before s \<longleftrightarrow> accounted s \<and> in_order s \<and> disk_ok before s \<and> (sk_flushed s \<longrightarrow> sk_closed s \<and> \<not> sk_open s)"

lemma rotate_sel [simp]:
  "sk_events (rotateIfNeeded en n s) = sk_events s" "sk_pending (rotateIfNeeded en n s) = sk_pending s"
  "sk_closed (rotateIfNeeded en n s) = sk_closed s" "sk_flushed (rotateIfNeeded en n s) = sk_flushed s"
  "sk_dropped (rotateIfNeeded en n s) = sk_dropped s" "sk_failed (rotateIfNeeded en n s) = sk_failed s"
  "sk_submitted (rotateIfNeeded en n s) = sk_submitted s" "sk_sent (rotateIfNeeded en n s) = sk_sent s"
  "sk_saved (rotateIfNeeded en n s) = sk_saved s" "sk_output (rotateIfNeeded en n s) = sk_output s"
  by (simp_all add: rotateIfNeeded_def Let_def)

lemma report_sel [simp]:
  "sk_events (reportDropped t s) = sk_events s" "sk_pending (reportDropped t s) = sk_pending s"
  "sk_closed (reportDropped t s) = sk_closed s" "sk_flushed (reportDropped t s) = sk_flushed s"
  "sk_dropped (reportDropped t s) = sk_dropped s" "sk_failed (reportDropped t s) = sk_failed s"
  "sk_submitted (reportDropped t s) = sk_submitted s" "sk_sent (reportDropped t s) = sk_sent s"
  "sk_saved (reportDropped t s) = sk_saved s" "sk_output (reportDropped t s) = sk_output s"
  "sk_disk (reportDropped t s) = sk_disk s" "sk_open (reportDropped t s) = sk_open s"
  "sk_written (reportDropped t s) = sk_written s"
  by (simp_all add: reportDropped_def)

lemma append_sel [simp]:
  "sk_events (append_line b s) = sk_events s" "sk_pending (append_line b s) = sk_pending s"
  "sk_closed (append_line b s) = sk_closed s" "sk_flushed (append_line b s) = sk_flushed s"
  "sk_dropped (append_line b s) = sk_dropped s" "sk_failed (append_line b s) = sk_failed s"
  "sk_submitted (append_line b s) = sk_submitted s" "sk_sent (append_line b s) = sk_sent s"
  "sk_saved (append_line b s) = sk_saved s" "sk_open (append_line b s) = sk_open s"
  "sk_output (append_line b s) = sk_output s @ b"
  "on_disk (sk_disk (append_line b s)) = on_disk (sk_disk s) @ b"
  by (simp_all add: append_line_def on_disk_def content_def)

lemma fail_sel [simp]:
  "sk_events (fail_event s) = sk_events s" "sk_pending (fail_event s) = sk_pending s"
  "sk_closed (fail_event s) = sk_closed s" "sk_flushed (fail_event s) = sk_flushed s"
  "sk_dropped (fail_event s) = sk_dropped s" "sk_failed (fail_event s) = Suc (sk_failed s)"
  "sk_submitted (fail_event s) = sk_submitted s" "sk_sent (fail_event s) = sk_sent s"
  "sk_saved (fail_event s) = sk_saved s" "sk_open (fail_event s) = sk_open s"
  "sk_output (fail_event s) = sk_output s" "sk_disk (fail_event s) = sk_disk s"
  "sk_written (fail_event s) = sk_written s"
  by (simp_all add: fail_event_def)

lemma content_open [simp]: "on_disk (open_append d) = on_disk d"
  by (simp add: open_append_def on_disk_def content_def)

lemma rotate_disk: "\<exists>older. older @ on_disk (sk_disk (rotateIfNeeded en n s)) = on_disk (sk_disk s)"
proof -
  have "\<exists>older. older @ on_disk (d\<lparr>ad_rotated := ad_current d, ad_current := None\<rparr>) = on_disk d" for d
    by (simp add: on_disk_def content_def)
  then show ?thesis by (auto simp: rotateIfNeeded_def Let_def intro: exI [of _ "[]"])
qed

lemma persist_sel [simp]:
  "sk_events (persist marshal en e s) = sk_events s" "sk_pending (persist marshal en e s) = sk_pending s"
  "sk_closed (persist marshal en e s) = sk_closed s" "sk_flushed (persist marshal en e s) = sk_flushed s"
  "sk_dropped (persist marshal en e s) = sk_dropped s" "sk_submitted (persist marshal en e s) = sk_submitted s"
  "sk_sent (persist marshal en e s) = sk_sent s"
  by (simp_all add: persist_def Let_def split: option.split)

lemma persist_counts:
  "sk_saved (persist marshal en e s) = sk_saved s \<and> sk_failed (persist marshal en e s) = Suc (sk_failed s)
   \<or> sk_saved (persist marshal en e s) = sk_saved s @ [e] \<and> sk_failed (persist marshal en e s) = sk_failed s"
  by (simp add: persist_def Let_def split: option.split)

lemma persist_disk:
  assumes "disk_ok before s"
  shows "disk_ok before (persist marshal en e s)"
proof -
  obtain older where o: "older @ on_disk (sk_disk s) = before @ sk_output s" using assms by (auto simp: disk_ok_def)
  have "\<exists>older. older @ on_disk (sk_disk (rotateIfNeeded en n s)) = before @ sk_output s" for n
    using rotate_disk [of en n s] o by (metis append.assoc)
  then have "\<exists>older. older @ on_disk (sk_disk (rotateIfNeeded en n s)) @ x = before @ sk_output s @ x" for n x
    by (metis append.assoc)
  then show ?thesis
    using assms by (auto simp: persist_def disk_ok_def Let_def split: option.split)
qed

lemma sink_step_ok: "sink_ok before s \<Longrightarrow> sink_step marshal s s' \<Longrightarrow> sink_ok before s'"
proof (erule sink_step.cases, goal_cases)
  case (1 t now event)
  then show ?case
    by (auto simp: Record_check_def drop_event_def sink_ok_def accounted_def in_order_def disk_ok_def Let_def)
next
  case (2 i t)
  then show ?case
    by (auto simp: Record_send_def drop_event_def sink_ok_def accounted_def in_order_def disk_ok_def Let_def)
next
  case (3 t en)
  show ?case
  proof (cases "sk_events t")
    case (Cons e rest)
    let ?t = "t\<lparr>sk_events := rest\<rparr>"
    have o: "sink_ok before t" using 3 by simp
    have "disk_ok before ?t" using o by (simp add: sink_ok_def disk_ok_def)
    then have "disk_ok before (persist marshal en e ?t)" by (rule persist_disk)
    moreover have "accounted (persist marshal en e ?t)"
      using o Cons persist_counts [of marshal en e ?t] by (auto simp: sink_ok_def accounted_def)
    moreover have "in_order (persist marshal en e ?t)"
    proof -
      obtain processed where p: "sk_sent t = processed @ e # rest" "subseq (sk_saved t) processed"
        using o Cons by (auto simp: sink_ok_def in_order_def)
      have "subseq (sk_saved (persist marshal en e ?t)) (processed @ [e])"
        using persist_counts [of marshal en e ?t] p(2) by (auto intro: list_emb_append_mono list_emb_prefix)
      then show ?thesis using p(1) unfolding in_order_def by (intro exI [of _ "processed @ [e]"]) simp
    qed
    ultimately show ?thesis using 3 Cons by (simp add: loop_event_def sink_ok_def)
  qed (use 3 in \<open>simp add: loop_event_def\<close>)
next
  case (4 t en)
  then show ?case
    by (auto simp: loop_end_def sink_ok_def accounted_def in_order_def disk_ok_def Let_def)
next
  case (5 t)
  then show ?case
    by (auto simp: sink_close_def sink_ok_def accounted_def in_order_def disk_ok_def)
qed

lemma new_sink_ok:
  "NewSink mk op st d = Some s \<Longrightarrow> sink_ok (on_disk d) s"
  by (auto simp: NewSink_def sink_ok_def accounted_def in_order_def disk_ok_def split: if_splits)

lemma sink_run_ok: "sink_run marshal s s' \<Longrightarrow> sink_ok before s \<Longrightarrow> sink_ok before s'"
  by (induction rule: rtranclp_induct) (auto intro: sink_step_ok)

lemma sink_reachable:
  "NewSink mk op st d = Some s0 \<Longrightarrow> sink_run marshal s0 s \<Longrightarrow> sink_ok (on_disk d) s"
  by (rule sink_run_ok [OF _ new_sink_ok])

text \<open>C34: No audit event vanishes unaccounted. At any moment of any run every event that was handed to
  the sink has been written as a whole line, is counted as failed or as dropped, or is still in
  the queue or in a call of \<open>Record\<close>; the lines are written in the order in which the events
  entered the queue; and the two files are always the end of what was on disk before and of all
  bytes written since, so that rotations and their failures lose nothing but older generations.\<close>

theorem audit_events_accounted:
  assumes "NewSink mkdirOK openOK statOK d = Some s0" and "sink_run marshal s0 s"
  shows "sk_submitted s = length (sk_saved s) + sk_failed s + sk_dropped s + length (sk_events s) + length (sk_pending s)
    \<and> subseq (sk_saved s) (sk_sent s)
    \<and> (\<exists>older. older @ on_disk (sk_disk s) = on_disk d @ sk_output s)"
proof -
  have ok: "sink_ok (on_disk d) s" by (rule sink_reachable [OF assms])
  then obtain processed where "sk_sent s = processed @ sk_events s" "subseq (sk_saved s) processed"
    by (auto simp: sink_ok_def in_order_def)
  then have "subseq (sk_saved s) (sk_sent s)" by (simp add: list_emb_prefix)
  then show ?thesis using ok by (simp add: sink_ok_def accounted_def disk_ok_def)
qed

text \<open>A gap in the audit log is reported. When the goroutine has ended and no call of \<open>Record\<close> was
  cut off between its check and its attempt to send, \<open>Close\<close> reports success only if every event
  that was ever handed to the sink was written as a whole line.\<close>

theorem audit_close_reports_gaps:
  assumes "NewSink mkdirOK openOK statOK d = Some s0" and "sink_run marshal s0 s"
    and "sk_flushed s" and "sk_events s = []" and "sk_pending s = []" and "sink_errors s = []"
  shows "length (sk_saved s) = sk_submitted s"
  using sink_reachable [OF assms(1,2)] assms(3-6)
  by (simp add: sink_ok_def accounted_def sink_errors_def split: if_splits)

text \<open>C35: The audit file stays within its limit. When the file is open, its size is known, no earlier
  rotation is cooling down, a line fits the limit and renaming and reopening succeed, then after
  the line the file is within 64 MiB, the recorded size is that of the file, and what the file
  held before is still there, before the line or in the rotated file.\<close>

theorem audit_file_bounded:
  assumes "sk_open s" and "ad_current (sk_disk s) = Some c" and "sk_written s = int (length c)"
    and "sk_rotateRetryAt s = 0 \<or> sk_rotateRetryAt s \<le> ae_now en" and "ae_renameOK en" and "ae_openOK en"
    and "ae_short en = None" and "marshal e = Some json" and "int (length json) < maxAuditBytes"
  shows "\<exists>c'. ad_current (sk_disk (persist marshal en e s)) = Some c' \<and> int (length c') \<le> maxAuditBytes
    \<and> sk_written (persist marshal en e s) = int (length c')
    \<and> (c' = c @ json @ [10] \<or> c' = json @ [10] \<and> ad_rotated (sk_disk (persist marshal en e s)) = Some c)"
  using assms
  by (auto simp: persist_def rotateIfNeeded_def append_line_def open_append_def content_def Let_def)

text \<open>Once the file could not be reopened.\<close>

lemma lost_persist: "\<not> sk_open s \<Longrightarrow> sk_saved (persist marshal en e s) = sk_saved s \<and> \<not> sk_open (persist marshal en e s)"
  by (auto simp: persist_def rotateIfNeeded_def Let_def split: option.split)

lemma lost_step: "sink_step marshal s s' \<Longrightarrow> \<not> sk_open s \<Longrightarrow> sk_saved s' = sk_saved s \<and> \<not> sk_open s'"
proof (erule sink_step.cases, goal_cases)
  case (3 t en)
  then show ?case
  proof (cases "sk_events t")
    case (Cons e rest)
    then show ?thesis using 3 lost_persist [of "t\<lparr>sk_events := rest\<rparr>"] by (simp add: loop_event_def)
  qed (simp add: loop_event_def)
qed (simp_all add: Record_check_def Record_send_def drop_event_def loop_end_def sink_close_def Let_def)

text \<open>C36: A lost audit file stays lost. When reopening the file after a rotation has failed once, no
  event is ever written again, however long the sink runs and however healthy the disk is: the
  retry time the sink sets is never looked at, because the check for an open file comes first.
  The events are counted as failed.\<close>

theorem lost_audit_file_stays_lost:
  assumes "\<not> ae_openOK en" and "sk_open s0" and "maxAuditBytes < sk_written s0 + int (length json) + 1"
    and "sk_rotateRetryAt s0 = 0 \<or> sk_rotateRetryAt s0 \<le> ae_now en" and "marshal e = Some json"
    and "sink_run marshal (persist marshal en e s0) s"
  shows "sk_saved s = sk_saved s0 \<and> \<not> sk_open s"
proof -
  have l: "\<not> sk_open (persist marshal en e s0) \<and> sk_saved (persist marshal en e s0) = sk_saved s0"
    using assms(1-5) by (auto simp: persist_def rotateIfNeeded_def Let_def)
  show ?thesis
    using assms(6)
  proof (induction rule: rtranclp_induct)
    case (step x y)
    then show ?case using lost_step [OF step.hyps(2)] by simp
  qed (use l in simp)
qed

section \<open>A run\<close>

definition demo_event :: Audit where
  "demo_event = \<lparr>au_LeaseID = [], au_ConnectionID = [], au_DeviceID = [], au_OwnerID = [], au_SourceIP = [],
     au_Fingerprint = [], au_CommandFlag = 9, au_CommandName = [], au_NormalizedCommand = [],
     au_Decision = AuditAllowed, au_Reason = [], au_CreatedAt = 5\<rparr>"

definition demo_marshal :: "Audit \<Rightarrow> bytes option" where
  "demo_marshal e = Some [65]"

definition demo_disk :: audit_disk where
  "demo_disk = \<lparr>ad_current = None, ad_rotated = None\<rparr>"

definition demo_audit_env :: "bool \<Rightarrow> audit_env" where
  "demo_audit_env op = \<lparr>ae_now = 7, ae_syncOK = True, ae_closeOK = True, ae_renameOK = True, ae_openOK = op,
     ae_statOK = True, ae_short = None\<rparr>"

definition demo_sink :: Sink where
  "demo_sink = the (NewSink True True True demo_disk)"

definition demo_recorded :: Sink where
  "demo_recorded = Record_send 0 (Record_check 7 demo_event demo_sink)"

definition demo_flushed :: Sink where
  "demo_flushed = loop_end (demo_audit_env True) (loop_event demo_marshal (demo_audit_env True) (sink_close demo_recorded))"

lemma demo_new: "NewSink True True True demo_disk = Some demo_sink"
  by (simp add: demo_sink_def NewSink_def)

lemmas demo_sink_defs = demo_flushed_def demo_recorded_def demo_sink_def NewSink_def demo_disk_def
  demo_event_def demo_audit_env_def demo_marshal_def Record_check_def Record_send_def sink_close_def
  loop_event_def loop_end_def persist_def rotateIfNeeded_def append_line_def reportDropped_def
  open_append_def content_def Let_def

lemma demo_recorded_run: "sink_run demo_marshal demo_sink demo_recorded"
proof -
  have "sink_step demo_marshal demo_sink (Record_check 7 demo_event demo_sink)" by (rule sink_step.records)
  moreover have "sink_step demo_marshal (Record_check 7 demo_event demo_sink) demo_recorded"
    unfolding demo_recorded_def by (rule sink_step.sends) (simp add: demo_sink_defs)
  ultimately show ?thesis by simp
qed

lemma demo_flushed_run: "sink_run demo_marshal demo_sink demo_flushed"
proof -
  have "sink_step demo_marshal demo_recorded (sink_close demo_recorded)" by (rule sink_step.closes)
  moreover have "sink_step demo_marshal (sink_close demo_recorded)
      (loop_event demo_marshal (demo_audit_env True) (sink_close demo_recorded))"
    by (rule sink_step.persists) (simp add: demo_sink_defs)
  moreover have "sink_step demo_marshal (loop_event demo_marshal (demo_audit_env True) (sink_close demo_recorded)) demo_flushed"
    unfolding demo_flushed_def by (rule sink_step.ends) (simp_all add: demo_sink_defs)
  ultimately show ?thesis using demo_recorded_run by simp
qed

lemma audit_events_accounted_witness:
  "sk_submitted demo_flushed = 1 \<and> length (sk_saved demo_flushed) + sk_failed demo_flushed + sk_dropped demo_flushed = 1"
proof -
  have "sk_submitted demo_flushed = 1" "sk_events demo_flushed = []" "sk_pending demo_flushed = []"
    by (simp_all add: demo_sink_defs)
  with audit_events_accounted [OF demo_new demo_flushed_run] show ?thesis by simp
qed

lemma audit_close_reports_gaps_witness: "length (sk_saved demo_flushed) = 1"
proof -
  have s: "sk_flushed demo_flushed" "sk_events demo_flushed = []" "sk_pending demo_flushed = []"
    "sink_errors demo_flushed = []" "sk_submitted demo_flushed = 1"
    by (simp_all add: demo_sink_defs sink_errors_def)
  from audit_close_reports_gaps [OF demo_new demo_flushed_run s(1-4)] s(5) show ?thesis by simp
qed

lemma audit_file_bounded_witness:
  "\<exists>c'. ad_current (sk_disk (persist demo_marshal (demo_audit_env True) demo_event demo_sink)) = Some c'
    \<and> int (length c') \<le> 67108864"
proof -
  have p: "sk_open demo_sink" "ad_current (sk_disk demo_sink) = Some []" "sk_written demo_sink = int (length [])"
    "sk_rotateRetryAt demo_sink = 0 \<or> sk_rotateRetryAt demo_sink \<le> ae_now (demo_audit_env True)"
    "ae_renameOK (demo_audit_env True)" "ae_openOK (demo_audit_env True)" "ae_short (demo_audit_env True) = None"
    "demo_marshal demo_event = Some [65]" "int (length [65 :: byte]) < 67108864"
    by (simp_all add: demo_sink_defs)
  from audit_file_bounded [where marshal = demo_marshal, OF p] show ?thesis by blast
qed

definition demo_full :: Sink where
  "demo_full = demo_sink\<lparr>sk_written := 67108864\<rparr>"

lemma lost_audit_file_stays_lost_witness:
  "sk_saved (loop_event demo_marshal (demo_audit_env True)
     (persist demo_marshal (demo_audit_env False) demo_event demo_full)) = []"
proof -
  let ?s = "persist demo_marshal (demo_audit_env False) demo_event demo_full"
  have p: "\<not> ae_openOK (demo_audit_env False)" "sk_open demo_full"
    "67108864 < sk_written demo_full + int (length [65 :: byte]) + 1"
    "sk_rotateRetryAt demo_full = 0 \<or> sk_rotateRetryAt demo_full \<le> ae_now (demo_audit_env False)"
    "demo_marshal demo_event = Some [65]"
    by (simp_all add: demo_full_def demo_sink_defs)
  have "sink_step demo_marshal ?s (loop_event demo_marshal (demo_audit_env True) ?s)"
    by (rule sink_step.persists) (simp add: demo_full_def demo_sink_defs)
  then have "sink_run demo_marshal ?s (loop_event demo_marshal (demo_audit_env True) ?s)" by simp
  from lost_audit_file_stays_lost [OF p this] show ?thesis by (simp add: demo_full_def demo_sink_defs)
qed

end
