(* ===== verification/App_Commands.thy ===== *)
theory App_Commands
  imports File_Commands
begin

text \<open>
  The texts of the app bridge (\<^verbatim>\<open>internal/bridge/app.go\<close>): the commands of a client, their
  splitting into arguments with quotes and escapes, the options and packages that are accepted,
  the commands for the main HDC server, and the reading of its results. The splitting writes
  runes, as that of the file bridge does.
\<close>

section \<open>Messages\<close>

definition failAppInvalidRequest :: string where
  "failAppInvalidRequest = ''[Fail] App request is invalid.''"

definition failAppUnsupported :: string where
  "failAppUnsupported = ''[Fail] App command is not supported.''"

definition failAppUnsupportedPkg :: string where
  "failAppUnsupportedPkg = ''[Fail] App package is not supported.''"

definition failAppUnsupportedOpt :: string where
  "failAppUnsupportedOpt = ''[Fail] App option is not supported.''"

definition failAppUnsupportedComp :: string where
  "failAppUnsupportedComp = ''[Fail] Compressed app transfer is not supported.''"

definition failAppTransfer :: string where
  "failAppTransfer = ''[Fail] App transfer failed.''"

definition failAppCommand :: string where
  "failAppCommand = ''[Fail] App command failed.''"

definition failAppNoResult :: string where
  "failAppNoResult = ''[Fail] App command did not return a result.''"

definition failAppTimeout :: string where
  "failAppTimeout = ''[Fail] App command timed out.''"

section \<open>Arguments\<close>

function app_split :: "string \<Rightarrow> char option \<Rightarrow> bool \<Rightarrow> string \<Rightarrow> string + string list" where
  "app_split current quote escaped [] =
     (if escaped \<or> quote \<noteq> None then Inl failAppInvalidRequest else Inr (flush_token current))"
| "app_split current quote escaped (c # s) =
     (let rest = drop (rune_len (c # s) - 1) s
      in if escaped then app_split (current @ rune_text (c # s)) quote False rest
         else if c = CHR 0x5C \<and> quote = Some (CHR 0x22) then app_split current quote True s
         else if (c = CHR 0x27 \<or> c = CHR 0x22) \<and> (quote = None \<or> quote = Some c)
         then app_split current (if quote = None then Some c else None) False s
         else if (c = CHR '' '' \<or> c = CHR 0x09) \<and> quote = None
         then map_sum id (\<lambda>ws. flush_token current @ ws) (app_split [] quote False s)
         else app_split (current @ rune_text (c # s)) quote False rest)"
  by pat_completeness auto
termination
  by (relation "measure (\<lambda>(current, q, e, s). length s)") auto

declare app_split.simps(2) [simp del]

definition splitAppArguments :: "string \<Rightarrow> string + string list" where
  "splitAppArguments command = app_split [] None False command"

definition app_shell_chars :: string where
  "app_shell_chars = [CHR 0x7C, CHR 0x3B, CHR 0x26, CHR 0x24, CHR 0x3C, CHR 0x3E, CHR 0x60, CHR 0x5C, CHR 0x21]"

text \<open>\<^verbatim>\<open>utf8.Valid\<close>: every rune is well formed.\<close>

function utf8_valid :: "string \<Rightarrow> bool" where
  "utf8_valid [] = True"
| "utf8_valid (c # s) =
     (\<not> (rune_len (c # s) = 1 \<and> 128 \<le> (of_char c :: nat)) \<and> utf8_valid (drop (rune_len (c # s) - 1) s))"
  by pat_completeness auto
termination
  by (relation "measure length") auto

definition trim_nul :: "string \<Rightarrow> string" where
  "trim_nul s = trim_right (\<lambda>c. c = CHR 0x00) (dropWhile (\<lambda>c. c = CHR 0x00) s)"

definition decodeAppCommand :: "bytes \<Rightarrow> string + string" where
  "decodeAppCommand payload =
     (if \<not> utf8_valid (string_of payload) then Inl failAppInvalidRequest
      else let command = trim_space (trim_nul (string_of payload))
        in if command = [] \<or> hasUnsafeText command \<or> contains_any command app_shell_chars
           then Inl failAppInvalidRequest else Inr command)"

definition installOptions :: "string list" where
  "installOptions = [''-r'', ''-s'']"

definition uninstallOptions :: "string list" where
  "uninstallOptions = [''-k'', ''-s'']"

definition isSupportedAppPackage :: "string \<Rightarrow> bool" where
  "isSupportedAppPackage v = (let lower = to_lower v
     in has_suffix lower ''.hap'' \<or> has_suffix lower ''.hsp'' \<or> has_suffix lower ''.app'')"

text \<open>The loop over the arguments of an install command: the number of packages, or the message.\<close>

fun install_arguments :: "nat \<Rightarrow> string list \<Rightarrow> string + nat" where
  "install_arguments packageCount [] = Inr packageCount"
| "install_arguments packageCount (argument # rest) =
     (if has_prefix argument ''-'' then
        (if argument \<in> set installOptions then install_arguments packageCount rest
         else Inl failAppUnsupportedOpt)
      else if hasUnsafeText argument \<or> \<not> isSupportedAppPackage argument then Inl failAppUnsupportedPkg
      else install_arguments (Suc packageCount) rest)"

definition validateInstallCommand :: "string list \<Rightarrow> string option" where
  "validateInstallCommand arguments =
     (if length arguments < 2 \<or> hd arguments \<noteq> ''install'' then Some failAppInvalidRequest
      else case install_arguments 0 (tl arguments) of Inl message \<Rightarrow> Some message
      | Inr packageCount \<Rightarrow> if packageCount \<noteq> 1 then Some failAppInvalidRequest else None)"

fun uninstall_arguments :: "bool \<Rightarrow> string list \<Rightarrow> string + bool" where
  "uninstall_arguments packageSeen [] = Inr packageSeen"
| "uninstall_arguments packageSeen (argument # rest) =
     (if has_prefix argument ''-'' then
        (if argument \<in> set uninstallOptions then uninstall_arguments packageSeen rest
         else Inl failAppUnsupportedOpt)
      else if packageSeen \<or> hasUnsafeText argument \<or> contains_any argument slashes
      then Inl failAppInvalidRequest
      else uninstall_arguments True rest)"

definition validateUninstallCommand :: "string list \<Rightarrow> string option" where
  "validateUninstallCommand arguments =
     (if arguments = [] then Some failAppInvalidRequest
      else case uninstall_arguments False arguments of Inl message \<Rightarrow> Some message
      | Inr packageSeen \<Rightarrow> if packageSeen then None else Some failAppInvalidRequest)"

definition normalizeAppOptions :: "string \<Rightarrow> string list \<Rightarrow> string + string" where
  "normalizeAppOptions v supported =
     (if hasUnsafeText v then Inl failAppInvalidRequest
      else case splitAppArguments v of Inl message \<Rightarrow> Inl message
      | Inr arguments \<Rightarrow> if list_all (\<lambda>a. a \<in> set supported) arguments
          then Inr (join_with '' '' arguments) else Inl failAppUnsupportedOpt)"

text \<open>The arguments up to an error are lost with it.\<close>

definition normalizeAppOptionText :: "string \<Rightarrow> string" where
  "normalizeAppOptionText v =
     (case splitAppArguments v of Inl _ \<Rightarrow> [] | Inr arguments \<Rightarrow> join_with '' '' arguments)"

definition buildAppInstallCommand :: "string \<Rightarrow> string \<Rightarrow> string" where
  "buildAppInstallCommand options localPath =
     ''install'' @ (if options \<noteq> [] then '' '' @ options else []) @ '' '' @ quoteCommandArg localPath"

text \<open>The command of an uninstall request: its arguments joined by blanks.\<close>

definition uninstall_command :: "bytes \<Rightarrow> string + string" where
  "uninstall_command payload =
     (case decodeAppCommand payload of Inl message \<Rightarrow> Inl message
      | Inr command \<Rightarrow>
          case splitAppArguments command of Inl message \<Rightarrow> Inl message
          | Inr arguments \<Rightarrow>
              let arguments = (if arguments \<noteq> [] \<and> hd arguments = ''uninstall'' then tl arguments else arguments)
              in case validateUninstallCommand arguments of Some message \<Rightarrow> Inl message
                 | None \<Rightarrow> Inr (''uninstall '' @ join_with '' '' arguments))"

text \<open>The command of an install request without a transfer: as the client wrote it.\<close>

definition install_command :: "bytes \<Rightarrow> string + string" where
  "install_command payload =
     (case decodeAppCommand payload of Inl message \<Rightarrow> Inl message
      | Inr command \<Rightarrow>
          case splitAppArguments command of Inl message \<Rightarrow> Inl message
          | Inr arguments \<Rightarrow>
              case validateInstallCommand arguments of Some message \<Rightarrow> Inl message
              | None \<Rightarrow> Inr (trim_space command))"

definition validateInstallConfig :: "int \<Rightarrow> TransferConfig \<Rightarrow> string option" where
  "validateInstallConfig maxAppBytes config =
     (if 2 ^ 63 - 1 < tc_FileSize config \<or> maxAppBytes < uint (tc_FileSize config) then Some failAppTransfer
      else if tc_FunctionName config \<noteq> ''install'' then Some failAppUnsupported
      else if tc_Compression config \<noteq> CompressionNone then Some failAppUnsupportedComp
      else if tc_UpdateIfNew config \<or> tc_HoldTimestamp config then Some failAppUnsupportedOpt
      else case normalizeAppOptions (tc_Options config) installOptions of
        Inl message \<Rightarrow> Some message
      | Inr _ \<Rightarrow>
          if hasUnsafeText (tc_Path config) \<or> hasUnsafeText (tc_OptionalName config)
            \<or> contains_any (tc_OptionalName config) slashes \<or> \<not> isSupportedAppPackage (tc_OptionalName config)
          then Some failAppUnsupportedPkg else None)"

section \<open>Results\<close>

definition trim_suffix :: "string \<Rightarrow> string \<Rightarrow> string" where
  "trim_suffix s p = (if has_suffix s p then take (length s - length p) s else s)"

function strip_finish :: "string \<Rightarrow> string" where
  "strip_finish v = (if has_suffix v ''AppMod finish''
     then strip_finish (trim_space (trim_suffix v ''AppMod finish'')) else v)"
  by pat_completeness auto
termination
proof (relation "measure length", simp)
  fix v
  assume s: "has_suffix v ''AppMod finish''"
  then have "13 \<le> length v" by (auto simp: has_suffix_iff)
  moreover have "length (trim_space (trim_suffix v ''AppMod finish'')) \<le> length v - 13"
    using length_trim_space [of "trim_suffix v ''AppMod finish''"] s by (simp add: trim_suffix_def)
  ultimately show "(trim_space (trim_suffix v ''AppMod finish''), v) \<in> measure length" by simp
qed

declare strip_finish.simps [simp del]

text \<open>\<^verbatim>\<open>strings.LastIndex\<close> and the part after it.\<close>

fun after_last_str :: "string \<Rightarrow> string \<Rightarrow> string option" where
  "after_last_str [] p = (if p = [] then Some [] else None)"
| "after_last_str (c # s) p = (case after_last_str s p of Some t \<Rightarrow> Some t
     | None \<Rightarrow> if has_prefix (c # s) p then Some (drop (length p) (c # s)) else None)"

definition normalizeAppResult :: "string \<Rightarrow> string" where
  "normalizeAppResult v =
     (let v = map (\<lambda>c. if c = CHR 0x00 \<or> c = CHR 0x0D \<or> c = CHR 0x0A then CHR '' '' else c) v;
          v = strip_finish (trim_space v)
      in if contains_str v ''App install path:'' \<or> contains_str v ''App uninstall path:''
         then (case after_last_str v ''msg:'' of Some t \<Rightarrow> trim_space t | None \<Rightarrow> v)
         else v)"

section \<open>Splitting what was built\<close>

lemma app_split_plain:
  assumes "utf8 w" "CHR 0x22 \<notin> set w" "CHR 0x27 \<notin> set w" "CHR '' '' \<notin> set w" "CHR 0x09 \<notin> set w"
  shows "app_split current None False (w @ rest) = app_split (current @ w) None False rest"
  using assms
proof (induction arbitrary: current rule: utf8.induct)
  case (utf8_rune r s)
  obtain c t where r: "r = c # t" using utf8_rune.hyps(1) by (cases r) (auto simp: good_rune_def)
  have len: "rune_len (r @ s @ rest) = length r"
    using utf8_rune.hyps(1) by (intro rune_len_prefix) (auto simp: good_rune_def)
  have rt: "rune_text (r @ s @ rest) = r"
    using utf8_rune.hyps(1) len by (auto simp: rune_text_def good_rune_def)
  have "app_split current None False (c # t @ s @ rest) = app_split (current @ r) None False (s @ rest)"
    using utf8_rune.prems rt len unfolding r by (subst app_split.simps(2)) (auto simp: Let_def)
  then show ?case using utf8_rune r by auto
qed simp

text \<open>Inside double quotes every character but the two special ones stands for itself; a double quote
  is escaped.\<close>

lemma app_split_quoted:
  assumes "utf8 w" "CHR 0x5C \<notin> set w"
  shows "app_split current (Some (CHR 0x22)) False (escape_quotes w @ CHR 0x22 # rest)
    = app_split (current @ w) None False rest"
  using assms
proof (induction arbitrary: current rule: utf8.induct)
  case utf8_Nil
  show ?case by (simp add: escape_quotes_def app_split.simps(2) Let_def)
next
  case (utf8_rune r s)
  obtain c t where r: "r = c # t" using utf8_rune.hyps(1) by (cases r) (auto simp: good_rune_def)
  have es: "escape_quotes (r @ s) = escape_quotes r @ escape_quotes s" by (simp add: escape_quotes_def)
  show ?case
  proof (cases "c = CHR 0x22")
    case True
    then have "t = []"
      using utf8_rune.hyps(1) unfolding r good_rune_def by (simp add: rune_len_def Let_def)
    then have r': "r = [CHR 0x22]" using True r by simp
    have rt: "rune_len (CHR 0x22 # x) = 1" "rune_text (CHR 0x22 # x) = [CHR 0x22]" for x
      by (simp_all add: rune_len_def rune_text_def Let_def)
    have "app_split current (Some (CHR 0x22)) False (escape_quotes (r @ s) @ CHR 0x22 # rest)
        = app_split (current @ [CHR 0x22]) (Some (CHR 0x22)) False (escape_quotes s @ CHR 0x22 # rest)"
      unfolding es r' by (simp add: escape_quotes_def app_split.simps(2) rt)
    then show ?thesis using utf8_rune r' by auto
  next
    case False
    have q: "CHR 0x22 \<notin> set r"
    proof
      assume "CHR 0x22 \<in> set r"
      then have "CHR 0x22 \<in> set (tl (take (rune_len r) r))"
        using False utf8_rune.hyps(1) unfolding r good_rune_def by auto
      from rune_tail [OF this] show False by simp
    qed
    have len: "rune_len (r @ x) = length r" for x
      using utf8_rune.hyps(1) by (intro rune_len_prefix) (auto simp: good_rune_def)
    have rt: "rune_text (r @ x) = r" for x
      using utf8_rune.hyps(1) len by (auto simp: rune_text_def good_rune_def)
    have c: "c \<noteq> CHR 0x5C" using utf8_rune.prems unfolding r by auto
    have "app_split current (Some (CHR 0x22)) False (r @ escape_quotes s @ CHR 0x22 # rest)
        = app_split (current @ r) (Some (CHR 0x22)) False (escape_quotes s @ CHR 0x22 # rest)"
      using c False rt [of "escape_quotes s @ CHR 0x22 # rest"] len [of "escape_quotes s @ CHR 0x22 # rest"]
      unfolding r by (simp add: app_split.simps(2))
    then show ?thesis using utf8_rune escape_id [OF q] es by auto
  qed
qed

lemma app_split_arg:
  assumes "utf8 w" "w \<noteq> []" "CHR 0x5C \<notin> set w" "CHR 0x27 \<notin> set w"
  shows "app_split [] None False (quoteCommandArg w @ rest) = app_split w None False rest"
proof (cases "contains_any w [CHR '' '', CHR 0x09, CHR 0x0D, CHR 0x0A, CHR 0x22]")
  case True
  then have "quoteCommandArg w @ rest = CHR 0x22 # escape_quotes w @ CHR 0x22 # rest"
    by (simp add: quoteCommandArg_def)
  then show ?thesis
    using app_split_quoted [OF assms(1,3), of "[]" rest] by (simp add: app_split.simps(2) Let_def)
next
  case False
  then have "quoteCommandArg w = w" using assms by (simp add: quoteCommandArg_def)
  moreover have "CHR '' '' \<notin> set w \<and> CHR 0x09 \<notin> set w \<and> CHR 0x22 \<notin> set w"
    using False by (auto simp: contains_any_iff)
  ultimately show ?thesis using app_split_plain [of w "[]" rest] assms by simp
qed

text \<open>A word without quotes and white space.\<close>

definition bare_word :: "string \<Rightarrow> bool" where
  "bare_word w \<longleftrightarrow> utf8 w \<and> w \<noteq> [] \<and> CHR 0x22 \<notin> set w \<and> CHR 0x27 \<notin> set w \<and> CHR '' '' \<notin> set w
     \<and> CHR 0x09 \<notin> set w"

lemma app_split_blank: "app_split w None False (CHR '' '' # s)
    = map_sum id (\<lambda>ws. flush_token w @ ws) (app_split [] None False s)"
  by (simp add: app_split.simps(2) Let_def)

lemma app_split_words:
  assumes "list_all bare_word ws" "ws \<noteq> []"
  shows "app_split [] None False (join_with '' '' ws @ CHR '' '' # rest)
    = map_sum id (\<lambda>vs. ws @ vs) (app_split [] None False rest)"
  using assms
proof (induction "'' ''" ws rule: join_with.induct)
  case (2 w)
  then show ?case
    using app_split_plain [of w "[]" "CHR '' '' # rest"]
    by (cases "app_split [] None False rest") (simp_all add: bare_word_def app_split_blank flush_token_def)
next
  case (3 w v ws)
  then show ?case
    using app_split_plain [of w "[]" "CHR '' '' # join_with '' '' (v # ws) @ CHR '' '' # rest"]
    by (cases "app_split [] None False rest") (simp_all add: bare_word_def app_split_blank flush_token_def)
qed simp

lemma app_split_last: "bare_word w \<Longrightarrow> app_split [] None False w = Inr [w]"
  using app_split_plain [of w "[]" "[]"] by (simp add: bare_word_def flush_token_def)

lemma app_split_join:
  "list_all bare_word ws \<Longrightarrow> app_split [] None False (join_with '' '' ws) = Inr ws"
proof (induction "'' ''" ws rule: join_with.induct)
  case (3 w v ws)
  then show ?case
    using app_split_plain [of w "[]" "CHR '' '' # join_with '' '' (v # ws)"]
    by (simp add: bare_word_def app_split_blank flush_token_def)
qed (simp_all add: app_split_last flush_token_def)

section \<open>The commands for the main HDC server\<close>

lemma install_options_bare: "a \<in> set installOptions \<Longrightarrow> bare_word a"
  by (auto simp: installOptions_def bare_word_def utf8_ascii)

lemma install_config_options:
  assumes "validateInstallConfig maxAppBytes config = None"
  obtains opts where "splitAppArguments (tc_Options config) = Inr opts" "set opts \<subseteq> {''-r'', ''-s''}"
  using assms
  by (auto simp: validateInstallConfig_def normalizeAppOptions_def list_all_iff installOptions_def
      split: if_splits sum.splits)

lemma built_command:
  assumes "list_all (\<lambda>o'. o' \<noteq> []) opts"
  shows "buildAppInstallCommand (join_with '' '' opts) path
    = join_with '' '' (''install'' # opts) @ CHR '' '' # quoteCommandArg path"
proof (cases opts)
  case (Cons a as)
  then have "join_with '' '' opts \<noteq> []" using assms by (cases as) auto
  then show ?thesis using Cons by (simp add: buildAppInstallCommand_def)
qed (simp add: buildAppInstallCommand_def)

text \<open>C40: The command that installs a transferred package is the one that was meant. Take an install
  request that is accepted, and the path its file has in a temporary directory, the directory
  followed by the name the client gave. The options of the request split into a list of
  \<^verbatim>\<open>-r\<close> and \<^verbatim>\<open>-s\<close>, and the command for the main HDC server splits, by the
  rules the kit splits commands with, into the word install, exactly these options in their order,
  and one last word, that path, also when it contains blanks or double quotes. The path must be
  well-formed UTF-8 without a single quote, and the directory without a backslash (the name has
  none); a name with a single quote is accepted although its command does not split.\<close>

theorem install_command_has_its_words:
  assumes "validateInstallConfig maxAppBytes config = None"
    and "path = dir @ ''/'' @ tc_OptionalName config"
    and "utf8 path" and "CHR 0x27 \<notin> set path" and "CHR 0x5C \<notin> set dir"
  shows "\<exists>opts. splitAppArguments (tc_Options config) = Inr opts \<and> set opts \<subseteq> {''-r'', ''-s''}
    \<and> splitAppArguments (buildAppInstallCommand (normalizeAppOptionText (tc_Options config)) path)
        = Inr (''install'' # opts @ [path])"
proof -
  obtain opts where o: "splitAppArguments (tc_Options config) = Inr opts" "set opts \<subseteq> {''-r'', ''-s''}"
    using assms(1) by (rule install_config_options)
  have "CHR 0x5C \<notin> set (tc_OptionalName config)"
    using assms(1) by (auto simp: validateInstallConfig_def contains_any_iff slashes_def split: if_splits sum.splits)
  then have path: "CHR 0x5C \<notin> set path" "path \<noteq> []"
    using assms(2,5) by auto
  have bare: "list_all bare_word opts"
    using o(2) install_options_bare by (auto simp: list_all_iff installOptions_def)
  then have ne: "list_all (\<lambda>o'. o' \<noteq> []) opts" by (auto simp: list_all_iff bare_word_def)
  have inst: "bare_word ''install''" by (simp add: bare_word_def utf8_ascii)
  have last: "app_split [] None False (quoteCommandArg path) = Inr [path]"
    using app_split_arg [OF assms(3) path(2,1) assms(4), of "[]"] path(2) by (simp add: flush_token_def)
  have "splitAppArguments (buildAppInstallCommand (join_with '' '' opts) path) = Inr (''install'' # opts @ [path])"
    unfolding built_command [OF ne] splitAppArguments_def
    using app_split_words [of "''install'' # opts" "quoteCommandArg path"] bare inst last by simp
  then show ?thesis
    using o by (intro exI [of _ opts]) (simp add: normalizeAppOptionText_def)
qed

lemma install_command_has_its_words_witness:
  "\<exists>opts. splitAppArguments ''-r  -s'' = Inr opts
    \<and> splitAppArguments (buildAppInstallCommand (normalizeAppOptionText ''-r  -s'') ''/tmp/hdc/x/my app.hap'')
        = Inr (''install'' # opts @ [''/tmp/hdc/x/my app.hap''])"
proof -
  let ?c = "zero_config\<lparr>tc_FunctionName := ''install'', tc_Options := ''-r  -s'', tc_OptionalName := ''my app.hap''\<rparr>"
  have v: "validateInstallConfig 100 ?c = None" by code_simp
  from install_command_has_its_words [OF v, of "''/tmp/hdc/x/my app.hap''" "''/tmp/hdc/x''"] show ?thesis
    by (auto simp: utf8_ascii)
qed

text \<open>A single quote in the name is not quoted, but opens a quote when the command is split.\<close>

lemma single_quote_breaks_command:
  "validateInstallConfig 100 (zero_config\<lparr>tc_FunctionName := ''install'',
       tc_OptionalName := ''it'' @ [CHR 0x27] @ ''s.hap''\<rparr>) = None
   \<and> splitAppArguments (buildAppInstallCommand [] (''/tmp/hdc/x/it'' @ [CHR 0x27] @ ''s.hap''))
       = Inl failAppInvalidRequest"
  by code_simp

section \<open>What an accepted command consists of\<close>

lemma one_of:
  "length (filter P xs) = Suc 0 \<Longrightarrow> \<exists>pre x post. xs = pre @ x # post \<and> P x \<and> (\<forall>y \<in> set (pre @ post). \<not> P y)"
proof (induction xs)
  case (Cons a xs)
  show ?case
  proof (cases "P a")
    case True
    then have "\<forall>y \<in> set xs. \<not> P y" using Cons.prems by (auto simp: filter_empty_conv)
    with True show ?thesis by (intro exI [of _ "[]"] exI [of _ a] exI [of _ xs]) simp
  next
    case False
    then obtain pre x post where "xs = pre @ x # post" "P x" "\<forall>y \<in> set (pre @ post). \<not> P y"
      using Cons by auto
    with False show ?thesis by (intro exI [of _ "a # pre"] exI [of _ x] exI [of _ post]) simp
  qed
qed simp

lemma option_prefix: "has_prefix w ''-'' \<longleftrightarrow> w \<noteq> [] \<and> hd w = CHR ''-''"
  by (cases w) (simp_all add: has_prefix_def)

lemma install_arguments_form:
  "install_arguments n args = Inr m \<Longrightarrow>
     m = n + length (filter (\<lambda>w. \<not> has_prefix w ''-'') args)
     \<and> list_all (\<lambda>w. has_prefix w ''-'' \<longrightarrow> w \<in> set installOptions) args
     \<and> list_all (\<lambda>w. \<not> has_prefix w ''-'' \<longrightarrow> isSupportedAppPackage w) args"
proof (induction n args rule: install_arguments.induct)
  case (2 n w rest)
  show ?case
  proof (cases "has_prefix w ''-''")
    case True
    then have "w \<in> set installOptions" "install_arguments n rest = Inr m"
      using "2.prems" by (simp_all split: if_splits)
    then show ?thesis using 2(1) True by simp
  next
    case False
    then have "isSupportedAppPackage w" "\<not> hasUnsafeText w" "install_arguments (Suc n) rest = Inr m"
      using "2.prems" by (simp_all split: if_splits)
    then show ?thesis using 2(2) False by simp
  qed
qed simp

lemma uninstall_arguments_form:
  "uninstall_arguments seen args = Inr b \<Longrightarrow>
     length (filter (\<lambda>w. \<not> has_prefix w ''-'') args) = of_bool b - of_bool seen \<and> (seen \<longrightarrow> b)
     \<and> list_all (\<lambda>w. has_prefix w ''-'' \<longrightarrow> w \<in> set uninstallOptions) args
     \<and> list_all (\<lambda>w. \<not> has_prefix w ''-'' \<longrightarrow> \<not> contains_any w slashes) args"
proof (induction seen args rule: uninstall_arguments.induct)
  case (2 seen w rest)
  show ?case
  proof (cases "has_prefix w ''-''")
    case True
    then have "w \<in> set uninstallOptions" "uninstall_arguments seen rest = Inr b"
      using "2.prems" by (simp_all split: if_splits)
    then show ?thesis using 2(1) True by simp
  next
    case False
    then have "\<not> seen" "\<not> hasUnsafeText w" "\<not> contains_any w slashes" "uninstall_arguments True rest = Inr b"
      using "2.prems" by (simp_all split: if_splits)
    then show ?thesis using 2(2) False by simp
  qed
qed simp

text \<open>A package: its name ends, in any letter case, with one of the three suffixes.\<close>

lemma supported_package:
  "isSupportedAppPackage w \<Longrightarrow> \<exists>stem suffix. to_lower w = stem @ suffix \<and> suffix \<in> {''.hap'', ''.hsp'', ''.app''}"
  by (auto simp: isSupportedAppPackage_def has_suffix_iff Let_def)

lemma decoded_text:
  assumes "decodeAppCommand payload = Inr command"
  shows "command = trim_space (trim_nul (string_of payload))"
    "\<forall>c \<in> set command. c \<notin> {CHR 0x00, CHR 0x0D, CHR 0x0A} \<union> set app_shell_chars"
  using assms
  by (auto simp: decodeAppCommand_def hasUnsafeText_def contains_any_iff Let_def split: if_splits)

lemma install_command_form:
  assumes "install_command payload = Inr command"
  shows "command = trim_space (trim_nul (string_of payload))
    \<and> (\<forall>c \<in> set command. c \<notin> {CHR 0x00, CHR 0x0D, CHR 0x0A} \<union> set app_shell_chars)
    \<and> (\<exists>pre package post. splitAppArguments command = Inr (''install'' # pre @ package # post)
         \<and> set (pre @ post) \<subseteq> {''-r'', ''-s''} \<and> \<not> has_prefix package ''-''
         \<and> (\<exists>stem suffix. to_lower package = stem @ suffix \<and> suffix \<in> {''.hap'', ''.hsp'', ''.app''}))"
proof -
  obtain cmd args where d: "decodeAppCommand payload = Inr cmd" "splitAppArguments cmd = Inr args"
    "validateInstallCommand args = None" "command = trim_space cmd"
    using assms by (auto simp: install_command_def split: sum.splits option.splits)
  note t = decoded_text [OF d(1)]
  have command: "command = cmd"
    using t(1) d(4) by (simp add: trim_space_id trim_space_no_prefix trim_space_no_suffix)
  obtain rest where args: "args = ''install'' # rest" "install_arguments 0 rest = Inr 1"
    using d(3) by (cases args) (auto simp: validateInstallCommand_def split: if_splits sum.splits)
  note form = install_arguments_form [OF args(2)]
  then obtain pre package post where w: "rest = pre @ package # post" "\<not> has_prefix package ''-''"
      "\<forall>y \<in> set (pre @ post). has_prefix y ''-''"
    using one_of [of "\<lambda>w. \<not> has_prefix w ''-''" rest] by auto
  then have opts: "set (pre @ post) \<subseteq> {''-r'', ''-s''}" and "isSupportedAppPackage package"
    using form by (auto simp: installOptions_def list_all_iff)
  then have package: "\<exists>stem suffix. to_lower package = stem @ suffix \<and> suffix \<in> {''.hap'', ''.hsp'', ''.app''}"
    using supported_package by simp
  have words: "splitAppArguments command = Inr (''install'' # pre @ package # post)"
    by (simp add: command d(2) args(1) w(1))
  show ?thesis
    unfolding command
    by (intro conjI exI [of _ pre] exI [of _ package] exI [of _ post] t words [unfolded command] opts w(2) package)
qed

text \<open>Splitting brings no characters of its own but the bytes of the replacement rune.\<close>

lemma rune_text_set: "set (rune_text s) \<subseteq> set s \<union> set replacement_rune"
  using set_take_subset [of "rune_len s" s] by (auto simp: rune_text_def)

lemma app_split_set:
  "app_split current quote escaped s = Inr ws \<Longrightarrow>
     (\<Union>w \<in> set ws. set w) \<subseteq> set current \<union> set s \<union> set replacement_rune"
proof (induction s arbitrary: current quote escaped ws rule: length_induct)
  case (1 s)
  have IH: "\<And>t current quote escaped ws. length t < length s \<Longrightarrow> app_split current quote escaped t = Inr ws \<Longrightarrow>
      (\<Union>w \<in> set ws. set w) \<subseteq> set current \<union> set t \<union> set replacement_rune"
    using "1.IH" by blast
  show ?case
  proof (cases s)
    case Nil
    then show ?thesis using "1.prems" by (auto simp: flush_token_def split: if_splits)
  next
    case (Cons c t)
    let ?rest = "drop (rune_len (c # t) - 1) t"
    have rest: "set ?rest \<subseteq> set t" by (rule set_drop_subset)
    have rune: "set (rune_text (c # t)) \<subseteq> set (c # t) \<union> set replacement_rune"
      by (rule rune_text_set)
    have chain: "(if a then x else if b then y else if c then z else if d then m else x) = r \<Longrightarrow>
        x = r \<or> y = r \<or> z = r \<or> m = r" for a b c d and x y z m r :: "string + string list"
      by (auto split: if_splits)
    have "\<exists>vs. app_split [] quote False t = Inr vs \<and> ws = flush_token current @ vs"
      if "map_sum id (\<lambda>ws. flush_token current @ ws) (app_split [] quote False t) = Inr ws"
      using that by (cases "app_split [] quote False t") simp_all
    then consider "app_split (current @ rune_text (c # t)) quote False ?rest = Inr ws"
      | q e where "app_split current q e t = Inr ws"
      | vs where "app_split [] quote False t = Inr vs" "ws = flush_token current @ vs"
      using chain [OF "1.prems" [unfolded Cons app_split.simps(2) Let_def]] by blast
    then show ?thesis
    proof cases
      case 1
      have "length ?rest < length s" by (simp add: Cons)
      from IH [OF this 1] rest rune show ?thesis by (auto simp: Cons)
    next
      case (2 q e)
      have "length t < length s" by (simp add: Cons)
      from IH [OF this 2] show ?thesis by (auto simp: Cons)
    next
      case (3 vs)
      have "length t < length s" by (simp add: Cons)
      from IH [OF this 3(1)] show ?thesis by (auto simp: Cons 3(2) flush_token_def)
    qed
  qed
qed

lemma uninstall_command_form:
  assumes "uninstall_command payload = Inr command"
  shows "(\<forall>c \<in> set command. c \<notin> {CHR 0x00, CHR 0x0D, CHR 0x0A} \<union> set app_shell_chars)
    \<and> (\<exists>args pre package post.
         splitAppArguments (trim_space (trim_nul (string_of payload))) = Inr args
         \<and> args \<in> {pre @ package # post, ''uninstall'' # pre @ package # post}
         \<and> command = join_with '' '' (''uninstall'' # pre @ package # post)
         \<and> set (pre @ post) \<subseteq> {''-k'', ''-s''} \<and> \<not> has_prefix package ''-''
         \<and> CHR ''/'' \<notin> set package
         \<and> (bare_word package \<longrightarrow> splitAppArguments command = Inr (''uninstall'' # pre @ package # post)))"
proof -
  obtain cmd args where d: "decodeAppCommand payload = Inr cmd" "splitAppArguments cmd = Inr args"
    using assms by (auto simp: uninstall_command_def split: sum.splits)
  define rest where "rest = (if args \<noteq> [] \<and> hd args = ''uninstall'' then tl args else args)"
  have v: "validateUninstallCommand rest = None" and c: "command = ''uninstall '' @ join_with '' '' rest"
    using assms by (auto simp: uninstall_command_def d rest_def Let_def split: option.splits if_splits)
  note t = decoded_text [OF d(1)]
  have "uninstall_arguments False rest = Inr True"
    using v by (auto simp: validateUninstallCommand_def split: if_splits sum.splits)
  note form = uninstall_arguments_form [OF this]
  then have "length (filter (\<lambda>w. \<not> has_prefix w ''-'') rest) = Suc 0"
    by simp
  then obtain pre package post where w: "rest = pre @ package # post" "\<not> has_prefix package ''-''"
      "\<forall>y \<in> set (pre @ post). has_prefix y ''-''"
    using one_of [of "\<lambda>w. \<not> has_prefix w ''-''" rest] by auto
  have opts: "set (pre @ post) \<subseteq> {''-k'', ''-s''}" and package: "CHR ''/'' \<notin> set package"
    using form w by (auto simp: uninstallOptions_def contains_any_iff slashes_def list_all_iff)
  have words: "args \<in> {pre @ package # post, ''uninstall'' # pre @ package # post}"
    using w(1) by (cases args) (auto simp: rest_def split: if_splits)
  have command: "command = join_with '' '' (''uninstall'' # pre @ package # post)"
    by (simp add: c w(1)) (cases pre; simp)
  have "set command \<subseteq> set ''uninstall '' \<union> {CHR '' ''} \<union> (\<Union>w \<in> set rest. set w)"
  proof -
    have "set (join_with '' '' ws) \<subseteq> {CHR '' ''} \<union> (\<Union>w \<in> set ws. set w)" for ws
      by (induction "'' ''" ws rule: join_with.induct) auto
    from this [of rest] show ?thesis unfolding c by auto
  qed
  moreover have "(\<Union>w \<in> set rest. set w) \<subseteq> set cmd \<union> set replacement_rune"
    using app_split_set [of "[]" None False cmd args] d(2)
    by (cases args) (auto simp: splitAppArguments_def rest_def split: if_splits)
  moreover have "\<forall>c \<in> set ''uninstall '' \<union> {CHR '' ''} \<union> set replacement_rune.
      c \<notin> {CHR 0x00, CHR 0x0D, CHR 0x0A} \<union> set app_shell_chars"
    by (simp add: replacement_rune_def app_shell_chars_def)
  ultimately have "\<forall>c \<in> set command. c \<notin> {CHR 0x00, CHR 0x0D, CHR 0x0A} \<union> set app_shell_chars"
    using t(2) by blast
  moreover have "splitAppArguments command = Inr (''uninstall'' # pre @ package # post)" if "bare_word package"
  proof -
    have "bare_word w" if "w \<in> {''-k'', ''-s'', ''uninstall''}" for w
      using that by (auto simp: bare_word_def utf8_ascii)
    then have "list_all bare_word (''uninstall'' # pre @ package # post)"
      using opts \<open>bare_word package\<close> by (auto simp: list_all_iff)
    from app_split_join [OF this] show ?thesis by (simp add: command splitAppArguments_def)
  qed
  moreover have "splitAppArguments (trim_space (trim_nul (string_of payload))) = Inr args"
    using d(2) t(1) by simp
  ultimately show ?thesis
    by (intro conjI exI [of _ args] exI [of _ pre] exI [of _ package] exI [of _ post] impI
        words command opts w(2) package)
qed

lemma built_form:
  assumes "validateInstallConfig maxAppBytes config = None"
  shows "tc_FunctionName config = ''install'' \<and> tc_Compression config = CompressionNone
    \<and> uint (tc_FileSize config) \<le> maxAppBytes
    \<and> (\<exists>opts. splitAppArguments (tc_Options config) = Inr opts \<and> set opts \<subseteq> {''-r'', ''-s''}
         \<and> buildAppInstallCommand (normalizeAppOptionText (tc_Options config)) (dir @ ''/'' @ tc_OptionalName config)
           = join_with '' '' (''install'' # opts) @ '' '' @ quoteCommandArg (dir @ ''/'' @ tc_OptionalName config))
    \<and> (\<forall>c \<in> set (tc_OptionalName config). c \<notin> {CHR 0x00, CHR 0x0D, CHR 0x0A, CHR ''/'', CHR 0x5C})
    \<and> (\<exists>stem suffix. to_lower (tc_OptionalName config) = stem @ suffix
         \<and> suffix \<in> {''.hap'', ''.hsp'', ''.app''})"
proof -
  obtain opts where o: "splitAppArguments (tc_Options config) = Inr opts" "set opts \<subseteq> {''-r'', ''-s''}"
    using assms by (rule install_config_options)
  then have "list_all (\<lambda>o'. o' \<noteq> []) opts" by (auto simp: list_all_iff)
  from built_command [OF this, of "dir @ ''/'' @ tc_OptionalName config"] o
  have "\<exists>opts. splitAppArguments (tc_Options config) = Inr opts \<and> set opts \<subseteq> {''-r'', ''-s''}
         \<and> buildAppInstallCommand (normalizeAppOptionText (tc_Options config)) (dir @ ''/'' @ tc_OptionalName config)
           = join_with '' '' (''install'' # opts) @ '' '' @ quoteCommandArg (dir @ ''/'' @ tc_OptionalName config)"
    by (intro exI [of _ opts]) (simp add: normalizeAppOptionText_def)
  moreover have "tc_FunctionName config = ''install''" "tc_Compression config = CompressionNone"
    "uint (tc_FileSize config) \<le> maxAppBytes" "\<not> hasUnsafeText (tc_OptionalName config)"
    "\<not> contains_any (tc_OptionalName config) slashes" "isSupportedAppPackage (tc_OptionalName config)"
    using assms by (simp_all add: validateInstallConfig_def split: if_splits sum.splits)
  moreover note supported_package [OF this(6)]
  ultimately show ?thesis
    by (simp add: hasUnsafeText_def contains_any_iff slashes_def)
qed

text \<open>The command of an uninstall request is joined without quotes. An argument that holds a blank is
  checked as one word and sent as two: the option in it was never checked.\<close>

lemma uninstall_smuggles_an_option:
  "uninstall_command (bytes_of (''uninstall '' @ [CHR 0x22] @ ''a -x'' @ [CHR 0x22])) = Inr ''uninstall a -x''
   \<and> splitAppArguments ''uninstall a -x'' = Inr [''uninstall'', ''a'', ''-x'']
   \<and> validateUninstallCommand [''a'', ''-x''] = Some failAppUnsupportedOpt"
  by code_simp

end
