(* ===== verification/App_Bridge.thy ===== *)
theory App_Bridge
  imports App_Commands Temp_Store
begin

text \<open>
  The app bridge (\<^verbatim>\<open>internal/bridge/app.go\<close>): packages a client sends are written to a
  temporary file and installed by the main HDC server, bundles are uninstalled by it. A session
  of a channel serves one command after the other; each command has a goroutine of its own that
  opens the target, collects its output and reports the result. The handling of a frame takes
  the session's lock and the bridge's lock several times: \<open>ab_handling\<close> says where the
  connection's reader stands between two of these sections, and the goroutines, \<open>CloseChannel\<close>
  and \<open>Close\<close> may run there. \<open>ab_tasks\<close> lists the goroutines; the wait group of the code is
  its length. \<open>ab_made\<close> is a history of the allocations the bridge has made.
\<close>

section \<open>State\<close>

abbreviation appFinishModeInstall :: byte where "appFinishModeInstall \<equiv> 1"
abbreviation appFinishModeUninstall :: byte where "appFinishModeUninstall \<equiv> 2"
abbreviation appStatusFail :: byte where "appStatusFail \<equiv> 0"
abbreviation appStatusSuccess :: byte where "appStatusSuccess \<equiv> 1"
abbreviation (input) appResultLimit :: nat where "appResultLimit \<equiv> 65536"

record appTransfer =
  at_allocation :: nat
  at_expectedSize :: int
  at_optionalName :: string
  at_options :: string
  at_receivedSize :: int

record appSession = target_session +
  as_commandRunning :: bool
  as_transfer :: "appTransfer option"
  as_output :: string
  as_outputSeen :: bool
  as_failureSeen :: bool

datatype app_phase = AppOpening | AppReading nat

text \<open>A goroutine of \<open>runTargetCommand\<close>: its arguments and where it is.\<close>

record app_task =
  ak_session :: nat
  ak_mode :: byte
  ak_command :: string
  ak_cleanup :: "nat option"
  ak_phase :: app_phase

text \<open>Where the handling of the last frame stands: it has returned (with an error or not), it is
  about to enter the session, to launch a command, or to report a failure.\<close>

datatype app_handling =
    Returned bool
  | Serving Command nat bytes
  | Launching nat byte string "nat option"
  | Failing nat byte string

record AppBridge =
  ab_canOpen :: bool
  ab_hasStore :: bool
  ab_maxAppBytes :: int
  ab_temp :: temp_state
  ab_sessions :: "(u32, nat) gomap"
  ab_heap :: "appSession list"
  ab_closed :: bool
  ab_handling :: app_handling
  ab_tasks :: "(nat, app_task) gomap"
  ab_launched :: nat
  ab_log :: bridge_log
  ab_made :: "nat list"

definition NewAppBridge :: "bool \<Rightarrow> bool \<Rightarrow> int \<Rightarrow> temp_state \<Rightarrow> AppBridge" where
  "NewAppBridge canOpen hasStore maxAppBytes temp = \<lparr>ab_canOpen = canOpen, ab_hasStore = hasStore,
     ab_maxAppBytes = maxAppBytes, ab_temp = temp, ab_sessions = [], ab_heap = [], ab_closed = False,
     ab_handling = Returned False, ab_tasks = [], ab_launched = 0, ab_log = [], ab_made = []\<rparr>"

text \<open>Answers during one section: whether a write to the client works, and those of the file calls.\<close>

record app_env =
  ae_writeOK :: bool
  ae_mkdir :: "string option"
  ae_openOK :: bool
  ae_short :: "nat option"
  ae_syncOK :: bool
  ae_closeOK :: bool
  ae_renameOK :: bool

section \<open>Parts\<close>

definition app_emit :: "bridge_log \<Rightarrow> AppBridge \<Rightarrow> AppBridge" where
  "app_emit l b = b\<lparr>ab_log := ab_log b @ l\<rparr>"

definition put_session :: "nat \<Rightarrow> appSession \<Rightarrow> AppBridge \<Rightarrow> AppBridge" where
  "put_session a s b = b\<lparr>ab_heap := (ab_heap b)[a := s]\<rparr>"

definition app_go :: "app_handling \<Rightarrow> AppBridge \<Rightarrow> AppBridge" where
  "app_go h b = b\<lparr>ab_handling := h\<rparr>"

text \<open>The write that ends a handler; its error is the handler's.\<close>

definition app_write :: "bool \<Rightarrow> bytes \<Rightarrow> AppBridge \<Rightarrow> AppBridge" where
  "app_write ok frame b = app_go (Returned (\<not> ok)) (app_emit (sent ok frame) b)"

definition app_reject :: "bool \<Rightarrow> u32 \<Rightarrow> string \<Rightarrow> AppBridge \<Rightarrow> AppBridge" where
  "app_reject ok channelID message b = app_write ok (EncodeEchoAndClose channelID message) b"

definition resetOutputLocked :: "appSession \<Rightarrow> appSession" where
  "resetOutputLocked s = s\<lparr>as_output := [], as_outputSeen := False, as_failureSeen := False\<rparr>"

definition ensureAvailableLocked :: "appSession \<Rightarrow> bool" where
  "ensureAvailableLocked s \<longleftrightarrow> \<not> (ss_closed s \<or> as_commandRunning s \<or> as_transfer s \<noteq> None)"

definition app_encodeFinish :: "u32 \<Rightarrow> byte \<Rightarrow> byte \<Rightarrow> string \<Rightarrow> bytes" where
  "app_encodeFinish channelID mode status message =
     (let message = normalizeAppResult message;
          message = (if message = [] then failAppCommand else message)
      in EncodeFrame channelID CommandAppFinish (mode # status # bytes_of message))"

definition app_release :: "nat option \<Rightarrow> AppBridge \<Rightarrow> AppBridge" where
  "app_release allocation b =
     (case allocation of None \<Rightarrow> b | Some i \<Rightarrow> b\<lparr>ab_temp := al_close i (ab_temp b)\<rparr>)"

definition target_closing :: "nat option \<Rightarrow> bridge_log" where
  "target_closing target = (case target of None \<Rightarrow> [] | Some t \<Rightarrow> [TargetClosed t])"

definition session_allocation :: "appSession \<Rightarrow> nat option" where
  "session_allocation s = map_option at_allocation (as_transfer s)"

definition app_getOrCreate :: "u32 \<Rightarrow> AppBridge \<Rightarrow> nat option \<times> AppBridge" where
  "app_getOrCreate channelID b =
     (if ab_closed b then (None, b)
      else case map_of (ab_sessions b) channelID of Some a \<Rightarrow> (Some a, b)
      | None \<Rightarrow>
          let a = length (ab_heap b)
          in (Some a, b\<lparr>ab_heap := ab_heap b @ [\<lparr>ss_channelID = channelID, ss_target = None,
                ss_closed = False, as_commandRunning = False, as_transfer = None, as_output = [],
                as_outputSeen = False, as_failureSeen = False\<rparr>],
              ab_sessions := AList.update channelID a (ab_sessions b)\<rparr>))"

section \<open>Handling a frame\<close>

text \<open>The first section: the session of the channel.\<close>

definition app_Handle :: "bool \<Rightarrow> Frame \<Rightarrow> AppBridge \<Rightarrow> AppBridge" where
  "app_Handle ok frame b =
     (let flag = CommandFlag frame; channelID = ChannelID frame
      in if flag = CommandAppInit \<or> flag = CommandAppCheck \<or> flag = CommandAppUninstall then
           (case app_getOrCreate channelID b of
              (None, b) \<Rightarrow> app_reject ok channelID failAppInvalidRequest b
            | (Some a, b) \<Rightarrow> app_go (Serving flag a (Payload frame)) b)
         else if flag = CommandAppData then
           (case map_of (ab_sessions b) channelID of
              None \<Rightarrow> app_reject ok channelID failAppInvalidRequest b
            | Some a \<Rightarrow> app_go (Serving flag a (Payload frame)) b)
         else app_reject ok channelID failAppUnsupported b)"

text \<open>A command takes the session, unless it is busy.\<close>

definition take_session :: "byte \<Rightarrow> string \<Rightarrow> nat \<Rightarrow> AppBridge \<Rightarrow> AppBridge" where
  "take_session mode command a b =
     (let s = ab_heap b ! a
      in if \<not> ensureAvailableLocked s then app_go (Failing a mode failAppInvalidRequest) b
         else app_go (Launching a mode command None)
           (put_session a (resetOutputLocked (s\<lparr>as_commandRunning := True\<rparr>)) b))"

definition startInstallInit :: "bytes \<Rightarrow> nat \<Rightarrow> AppBridge \<Rightarrow> AppBridge" where
  "startInstallInit payload a b =
     (case install_command payload of
        Inl message \<Rightarrow> app_go (Failing a appFinishModeInstall message) b
      | Inr command \<Rightarrow> take_session appFinishModeInstall command a b)"

definition startUninstall :: "bytes \<Rightarrow> nat \<Rightarrow> AppBridge \<Rightarrow> AppBridge" where
  "startUninstall payload a b =
     (case uninstall_command payload of
        Inl message \<Rightarrow> app_go (Failing a appFinishModeUninstall message) b
      | Inr command \<Rightarrow> take_session appFinishModeUninstall command a b)"

definition install_fails :: "nat \<Rightarrow> string \<Rightarrow> AppBridge \<Rightarrow> AppBridge" where
  "install_fails a message b = app_go (Failing a appFinishModeInstall message) b"

definition prepareInstall :: "app_env \<Rightarrow> bytes \<Rightarrow> nat \<Rightarrow> AppBridge \<Rightarrow> AppBridge" where
  "prepareInstall en payload a b =
     (case DecodeTransferConfig payload of
        Inl _ \<Rightarrow> install_fails a failAppInvalidRequest b
      | Inr config \<Rightarrow> (case validateInstallConfig (ab_maxAppBytes b) config of
          Some message \<Rightarrow> install_fails a message b
        | None \<Rightarrow>
            let s = ab_heap b ! a; fileSize = uint (tc_FileSize config)
            in if \<not> ensureAvailableLocked s then install_fails a failAppInvalidRequest b
               else if \<not> ab_hasStore b then install_fails a failAppTransfer b
               else case temp_allocate (ae_mkdir en) (ae_openOK en) fileSize (ab_temp b) of
                 (Inl _, temp) \<Rightarrow> install_fails a failAppTransfer (b\<lparr>ab_temp := temp\<rparr>)
               | (Inr allocation, temp) \<Rightarrow>
                   app_write (ae_writeOK en) (EncodeFrame (ss_channelID s) CommandAppBegin [])
                     (put_session a (s\<lparr>as_transfer := Some \<lparr>at_allocation = allocation,
                         at_expectedSize = fileSize, at_optionalName = tc_OptionalName config,
                         at_options = normalizeAppOptionText (tc_Options config), at_receivedSize = 0\<rparr>\<rparr>)
                       (b\<lparr>ab_temp := temp, ab_made := ab_made b @ [allocation]\<rparr>))))"

text \<open>The end of a transfer: the file is sealed and gets its name back.\<close>

definition completeInstall :: "app_env \<Rightarrow> nat \<Rightarrow> appTransfer \<Rightarrow> AppBridge \<Rightarrow> AppBridge" where
  "completeInstall en a transfer b =
     (case seal (ae_syncOK en) (ae_closeOK en) (at_allocation transfer) (ab_temp b) of
        (Some _, temp) \<Rightarrow> install_fails a failAppTransfer (b\<lparr>ab_temp := temp\<rparr>)
      | (None, temp) \<Rightarrow>
          (case renameToName (ae_renameOK en) (at_allocation transfer) (at_optionalName transfer) temp of
             (Some _, temp) \<Rightarrow> install_fails a failAppTransfer (b\<lparr>ab_temp := temp\<rparr>)
           | (None, temp) \<Rightarrow>
               app_go (Launching a appFinishModeInstall
                   (buildAppInstallCommand (at_options transfer) (currentPath (at_allocation transfer) temp))
                   (Some (at_allocation transfer)))
                 (put_session a (resetOutputLocked
                     ((ab_heap b ! a)\<lparr>as_transfer := None, as_commandRunning := True\<rparr>))
                   (b\<lparr>ab_temp := temp\<rparr>))))"

text \<open>The locked section of \<open>writeInstallData\<close>.\<close>

definition installChunk :: "app_env \<Rightarrow> u64 \<Rightarrow> bytes \<Rightarrow> nat \<Rightarrow> AppBridge \<Rightarrow> AppBridge" where
  "installChunk en index data a b =
     (let s = ab_heap b ! a
      in if ss_closed s \<or> as_commandRunning s then install_fails a failAppInvalidRequest b
         else case as_transfer s of None \<Rightarrow> install_fails a failAppInvalidRequest b
         | Some transfer \<Rightarrow>
             let chunkEnd = at_receivedSize transfer + int (length data)
             in if index \<noteq> of_int (at_receivedSize transfer)
                  \<or> at_expectedSize transfer - at_receivedSize transfer < int (length data)
                  \<or> chunkEnd < at_receivedSize transfer \<or> at_expectedSize transfer < chunkEnd
                then install_fails a failAppInvalidRequest b
                else case writeAt (ae_short en) (at_allocation transfer) data
                    (nat (at_receivedSize transfer)) (ab_temp b) of ((written, err), temp) \<Rightarrow>
                  if err \<noteq> None \<or> written \<noteq> length data
                  then install_fails a failAppTransfer (b\<lparr>ab_temp := temp\<rparr>)
                  else
                    let transfer = transfer\<lparr>at_receivedSize := chunkEnd\<rparr>;
                        b = app_emit [ChunkStored (at_allocation transfer) data]
                          (put_session a (s\<lparr>as_transfer := Some transfer\<rparr>) (b\<lparr>ab_temp := temp\<rparr>))
                    in if chunkEnd = at_expectedSize transfer then completeInstall en a transfer b
                       else app_go (Returned False) b)"

definition writeInstallData :: "app_env \<Rightarrow> bytes \<Rightarrow> nat \<Rightarrow> AppBridge \<Rightarrow> AppBridge" where
  "writeInstallData en payload a b =
     (case DecodeTransferData payload (of_int (min (ab_maxAppBytes b) (2 ^ 32 - 1))) of
        Inl _ \<Rightarrow> install_fails a failAppInvalidRequest b
      | Inr (header, data) \<Rightarrow>
          if length payload \<noteq> TransferPayloadPrefixBytes + unat (tp_CompressedSize header)
          then install_fails a failAppInvalidRequest b
          else if tp_Compression header \<noteq> CompressionNone then install_fails a failAppUnsupportedComp b
          else if tp_CompressedSize header \<noteq> tp_UncompressedSize header
          then install_fails a failAppInvalidRequest b
          else installChunk en (tp_Index header) data a b)"

text \<open>The section of the session, by the kind of the frame.\<close>

definition app_serve :: "app_env \<Rightarrow> Command \<Rightarrow> nat \<Rightarrow> bytes \<Rightarrow> AppBridge \<Rightarrow> AppBridge" where
  "app_serve en flag a payload b =
     (if flag = CommandAppInit then startInstallInit payload a b
      else if flag = CommandAppCheck then prepareInstall en payload a b
      else if flag = CommandAppData then writeInstallData en payload a b
      else startUninstall payload a b)"

definition app_launch :: "nat \<Rightarrow> byte \<Rightarrow> string \<Rightarrow> nat option \<Rightarrow> AppBridge \<Rightarrow> AppBridge" where
  "app_launch a mode command cleanup b =
     (if ab_closed b then app_go (Failing a mode failAppCommand) (app_release cleanup b)
      else app_go (Returned False) (b\<lparr>ab_launched := Suc (ab_launched b),
        ab_tasks := AList.update (ab_launched b) \<lparr>ak_session = a, ak_mode = mode, ak_command = command,
          ak_cleanup = cleanup, ak_phase = AppOpening\<rparr> (ab_tasks b)\<rparr>))"

definition protocolFailure :: "bool \<Rightarrow> nat \<Rightarrow> byte \<Rightarrow> string \<Rightarrow> AppBridge \<Rightarrow> AppBridge" where
  "protocolFailure ok a mode message b =
     (let s = ab_heap b ! a
      in if ss_closed s
         then app_write ok (app_encodeFinish (ss_channelID s) mode appStatusFail failAppInvalidRequest) b
         else app_write ok (app_encodeFinish (ss_channelID s) mode appStatusFail message)
           (app_release (session_allocation s) (app_emit (target_closing (ss_target s))
             (put_session a (resetOutputLocked (s\<lparr>ss_target := None, as_transfer := None,
               as_commandRunning := False\<rparr>)) b))))"

section \<open>The goroutine of a command\<close>

definition app_stop :: "nat \<Rightarrow> AppBridge \<Rightarrow> AppBridge" where
  "app_stop k b = b\<lparr>ab_tasks := AList.delete k (ab_tasks b)\<rparr>"

definition app_attachTarget :: "nat \<Rightarrow> appSession \<Rightarrow> appSession option" where
  "app_attachTarget target s =
     (if ss_closed s \<or> \<not> as_commandRunning s then None else Some (s\<lparr>ss_target := Some target\<rparr>))"

definition app_recordOutput :: "bytes \<Rightarrow> appSession \<Rightarrow> appSession" where
  "app_recordOutput payload s =
     (if payload = [] \<or> ss_closed s then s
      else let value = string_of payload; output = as_output s @ value; lower = to_lower value
        in s\<lparr>as_outputSeen := True,
             as_output := if appResultLimit < length output
               then drop (length output - appResultLimit) output else output,
             as_failureSeen := as_failureSeen s \<or> contains_str lower ''[fail]''
               \<or> contains_str lower ''failed'' \<or> contains_str lower ''error''\<rparr>)"

text \<open>The status and the message of a result.\<close>

definition app_verdict :: "string \<Rightarrow> bool \<Rightarrow> bool \<Rightarrow> string option \<Rightarrow> byte \<times> string" where
  "app_verdict output outputSeen failureSeen resultErr =
     (let message = normalizeAppResult output
      in if resultErr \<noteq> None \<or> failureSeen \<or> \<not> outputSeen \<or> message = [] then
           (appStatusFail, case resultErr of
              Some e \<Rightarrow> if has_prefix e ''[Fail]'' then e
                else if message = [] then failAppNoResult else message
            | None \<Rightarrow> if message = [] then failAppNoResult else message)
         else (appStatusSuccess, message))"

definition finishTarget ::
    "bool \<Rightarrow> nat \<Rightarrow> byte \<Rightarrow> nat option \<Rightarrow> nat option \<Rightarrow> string option \<Rightarrow> AppBridge \<Rightarrow> AppBridge" where
  "finishTarget ok a mode target cleanup resultErr b =
     (let s = ab_heap b ! a
      in if ss_closed s \<or> target \<noteq> None \<and> ss_target s \<noteq> target then app_release cleanup b
         else let (status, message) = app_verdict (as_output s) (as_outputSeen s) (as_failureSeen s) resultErr
           in app_emit (sent ok (app_encodeFinish (ss_channelID s) mode status message))
             (app_release cleanup (app_emit (target_closing target)
               (put_session a (resetOutputLocked (s\<lparr>ss_target := None, as_commandRunning := False\<rparr>)) b))))"

text \<open>How opening the target ended, and the read that ended the loop: at the deadline, at the end
  of the target or with an error.\<close>

datatype app_opened = AppOpened nat | AppOpenFailed string
datatype app_end = AppDeadline | AppEnded | AppReadFailed string

definition runTargetCommand_open :: "bool \<Rightarrow> app_opened \<Rightarrow> nat \<Rightarrow> app_task \<Rightarrow> AppBridge \<Rightarrow> AppBridge" where
  "runTargetCommand_open ok result k task b =
     (let a = ak_session task
      in if \<not> ab_canOpen b
         then app_stop k (finishTarget ok a (ak_mode task) None (ak_cleanup task) (Some failAppCommand) b)
         else case result of
           AppOpenFailed e \<Rightarrow>
             app_stop k (finishTarget ok a (ak_mode task) None (ak_cleanup task) (Some e) b)
         | AppOpened target \<Rightarrow>
             let b = app_emit [TargetOpened target (ak_command task)] b
             in (case app_attachTarget target (ab_heap b ! a) of
                  None \<Rightarrow> app_stop k (app_release (ak_cleanup task) (app_emit [TargetClosed target] b))
                | Some s \<Rightarrow> put_session a s
                    (b\<lparr>ab_tasks := AList.update k (task\<lparr>ak_phase := AppReading target\<rparr>) (ab_tasks b)\<rparr>)))"

text \<open>One turn of the read loop.\<close>

definition runTargetCommand_read ::
    "bool \<Rightarrow> bytes \<Rightarrow> app_end option \<Rightarrow> nat \<Rightarrow> app_task \<Rightarrow> nat \<Rightarrow> AppBridge \<Rightarrow> AppBridge" where
  "runTargetCommand_read ok payload readErr k task target b =
     (let a = ak_session task; b = put_session a (app_recordOutput payload (ab_heap b ! a)) b;
          finish = (\<lambda>e. app_stop k (finishTarget ok a (ak_mode task) (Some target) (ak_cleanup task) e b))
      in case readErr of None \<Rightarrow> b
         | Some AppDeadline \<Rightarrow> finish (Some failAppTimeout)
         | Some AppEnded \<Rightarrow> finish None
         | Some (AppReadFailed e) \<Rightarrow> finish (Some e))"

text \<open>The watchdog of the context closes the target, which ends the blocked read.\<close>

definition app_deadline :: "nat \<Rightarrow> AppBridge \<Rightarrow> AppBridge" where
  "app_deadline target b = app_emit [TargetClosed target] b"

section \<open>Closing\<close>

text \<open>The body of \<open>close\<close> runs once: \<open>ss_closed\<close> is the code's \<open>closeOnce\<close> and \<open>closed\<close>.\<close>

definition app_session_close :: "nat \<Rightarrow> AppBridge \<Rightarrow> AppBridge" where
  "app_session_close a b =
     (let s = ab_heap b ! a
      in if ss_closed s then b
         else app_release (session_allocation s) (app_emit (target_closing (ss_target s))
           (put_session a (s\<lparr>ss_closed := True, ss_target := None, as_transfer := None,
             as_commandRunning := False\<rparr>) b)))"

definition app_CloseChannel :: "u32 \<Rightarrow> AppBridge \<Rightarrow> AppBridge" where
  "app_CloseChannel channelID b =
     (case map_of (ab_sessions b) channelID of None \<Rightarrow> b
      | Some a \<Rightarrow> app_session_close a (b\<lparr>ab_sessions := AList.delete channelID (ab_sessions b)\<rparr>))"

text \<open>\<open>Close\<close> up to its wait for the goroutines: it returns once \<open>ab_tasks\<close> is empty.\<close>

definition app_Close :: "AppBridge \<Rightarrow> AppBridge" where
  "app_Close b =
     (if ab_closed b then b
      else fold app_session_close (map snd (ab_sessions b)) (b\<lparr>ab_closed := True, ab_sessions := []\<rparr>))"

end
