(* ===== verification/App_Ledger.thy ===== *)
theory App_Ledger
  imports App_Bridge Session_Table
begin

text \<open>
  Who is responsible for the temporary files of the app bridge. A claim on an allocation is
  either a transfer that is being received or a package with the command that installs it. The
  ledger \<open>v\<close> gives the claim of each owner (a session, the handling of a frame, a goroutine);
  the lemmas say what the operations of the store do to a ledger, whatever the owners are.
\<close>

type_synonym app_claim = "appTransfer + nat \<times> string"

fun claimed :: "app_claim \<Rightarrow> nat" where
  "claimed (Inl transfer) = at_allocation transfer"
| "claimed (Inr (i, command)) = i"

text \<open>The file of an allocation holds exactly the bytes that were accepted for it.\<close>

definition intact :: "temp_state \<Rightarrow> bridge_log \<Rightarrow> nat \<Rightarrow> bool" where
  "intact t l i \<longleftrightarrow> file_content (al_path (al_at t i)) t = stored_bytes i l"

fun claim_good :: "temp_state \<Rightarrow> bridge_log \<Rightarrow> app_claim \<Rightarrow> bool" where
  "claim_good t l (Inl transfer) \<longleftrightarrow>
     (let i = at_allocation transfer
      in intact t l i \<and> at_receivedSize transfer = int (length (stored_bytes i l))
         \<and> at_receivedSize transfer \<le> at_expectedSize transfer
         \<and> al_size (al_at t i) = at_expectedSize transfer \<and> al_file (al_at t i) \<noteq> None)"
| "claim_good t l (Inr (i, command)) \<longleftrightarrow>
     intact t l i \<and> al_size (al_at t i) = int (length (stored_bytes i l))
     \<and> (\<exists>options. command = buildAppInstallCommand options (al_path (al_at t i)))"

text \<open>Every claim is on an allocation of its own that is live, every live allocation is claimed,
  and outside the set \<open>E\<close> of broken owners the claims are good.\<close>

definition ledger_ok :: "'x set \<Rightarrow> ('x \<Rightarrow> app_claim option) \<Rightarrow> nat list \<Rightarrow> temp_state \<Rightarrow> bridge_log \<Rightarrow> bool" where
  "ledger_ok E v made t l \<longleftrightarrow> files_ok t
     \<and> (\<forall>x y d e. v x = Some d \<longrightarrow> v y = Some e \<longrightarrow> claimed d = claimed e \<longrightarrow> x = y)
     \<and> (\<forall>x d. v x = Some d \<longrightarrow> claimed d \<in> set made \<and> \<not> al_closeOnce (al_at t (claimed d))
          \<and> (x \<in> E \<or> claim_good t l d))
     \<and> (\<forall>i \<in> set made. i < length (tm_allocs t) \<and> al_released (al_at t i) = al_closeOnce (al_at t i)
          \<and> (\<not> al_closeOnce (al_at t i) \<longrightarrow> (\<exists>x d. v x = Some d \<and> claimed d = i)))
     \<and> (\<forall>i. i \<notin> set made \<longrightarrow> stored_bytes i l = [])"

lemma ledgerD:
  assumes "ledger_ok E v made t l"
  shows "files_ok t"
    "v x = Some d \<Longrightarrow> v y = Some e \<Longrightarrow> claimed d = claimed e \<Longrightarrow> x = y"
    "v x = Some d \<Longrightarrow> claimed d \<in> set made"
    "v x = Some d \<Longrightarrow> \<not> al_closeOnce (al_at t (claimed d))"
    "v x = Some d \<Longrightarrow> x \<notin> E \<Longrightarrow> claim_good t l d"
    "i \<in> set made \<Longrightarrow> i < length (tm_allocs t)"
    "i \<in> set made \<Longrightarrow> al_released (al_at t i) = al_closeOnce (al_at t i)"
    "i \<in> set made \<Longrightarrow> \<not> al_closeOnce (al_at t i) \<Longrightarrow> \<exists>x d. v x = Some d \<and> claimed d = i"
    "i \<notin> set made \<Longrightarrow> stored_bytes i l = []"
    "v x = Some d \<Longrightarrow> claimed d < length (tm_allocs t)"
  using assms unfolding ledger_ok_def by blast+

lemma claim_good_cong:
  assumes "al_at t' (claimed d) = al_at t (claimed d)"
    "file_content (al_path (al_at t (claimed d))) t' = file_content (al_path (al_at t (claimed d))) t"
    "stored_bytes (claimed d) l' = stored_bytes (claimed d) l"
  shows "claim_good t' l' d = claim_good t l d"
  using assms by (cases d rule: claimed.cases) (simp_all add: intact_def Let_def)

text \<open>A change that concerns the allocation \<open>i\<close> and its claim only.\<close>

lemma ledger_change:
  assumes L: "ledger_ok E v made t l" and k: "keeps_others i t t'" and i: "i \<in> set made"
    and other: "\<And>y d. claimed d \<noteq> i \<Longrightarrow> v' y = Some d \<longleftrightarrow> v y = Some d"
    and E: "\<And>y d. v y = Some d \<Longrightarrow> claimed d \<noteq> i \<Longrightarrow> y \<in> E \<Longrightarrow> y \<in> E'"
    and one: "\<And>y z d e. v' y = Some d \<Longrightarrow> v' z = Some e \<Longrightarrow> claimed d = i \<Longrightarrow> claimed e = i \<Longrightarrow> y = z"
    and good: "\<And>y d. v' y = Some d \<Longrightarrow> claimed d = i \<Longrightarrow>
      \<not> al_closeOnce (al_at t' i) \<and> (y \<in> E' \<or> claim_good t' (l @ m) d)"
    and rel: "al_released (al_at t' i) = al_closeOnce (al_at t' i)"
      "\<not> al_closeOnce (al_at t' i) \<Longrightarrow> \<exists>y d. v' y = Some d \<and> claimed d = i"
    and st: "\<And>j. j \<noteq> i \<Longrightarrow> stored_bytes j m = []"
  shows "ledger_ok E' v' made t' (l @ m)"
proof -
  note k' = keeps_othersD [OF k] and D = ledgerD [OF L]
  have at: "al_at t' j = al_at t j" if "j \<in> set made" "j \<noteq> i" for j
    using k'(4) D(6) that by blast
  have inj: "y = z" if h: "v' y = Some d" "v' z = Some e" "claimed d = claimed e" for y z d e
  proof (cases "claimed d = i")
    case True
    then show ?thesis using one [OF h(1,2)] h(3) by simp
  next
    case False
    then have "v y = Some d" "v z = Some e" using other [of d y] other [of e z] h by simp_all
    then show ?thesis using D(2) h(3) by blast
  qed
  have claims: "claimed d \<in> set made \<and> \<not> al_closeOnce (al_at t' (claimed d))
      \<and> (y \<in> E' \<or> claim_good t' (l @ m) d)" if h: "v' y = Some d" for y d
  proof (cases "claimed d = i")
    case True
    then show ?thesis using good [OF h True] i by simp
  next
    case False
    then have v: "v y = Some d" using other h by simp
    note c = D(3,4,10) [OF v]
    have "claim_good t' (l @ m) d = claim_good t l d"
      using claim_good_cong [of t' d t "l @ m" l] at [OF c(1) False] k'(5) [OF c(3) False c(2)] st [OF False] by simp
    then show ?thesis using c at [OF c(1) False] D(5) [OF v] E [OF v False] by auto
  qed
  have made: "j < length (tm_allocs t') \<and> al_released (al_at t' j) = al_closeOnce (al_at t' j)
      \<and> (\<not> al_closeOnce (al_at t' j) \<longrightarrow> (\<exists>y d. v' y = Some d \<and> claimed d = j))" if j: "j \<in> set made" for j
  proof (cases "j = i")
    case True
    then show ?thesis using rel D(6) [OF j] k'(2) by auto
  next
    case False
    have "\<exists>y d. v' y = Some d \<and> claimed d = j" if c: "\<not> al_closeOnce (al_at t j)"
    proof -
      obtain y d where "v y = Some d" "claimed d = j" using D(8) [OF j c] by blast
      then show ?thesis using other [of d y] False by blast
    qed
    then show ?thesis using D(6,7) [OF j] k'(2) at [OF j False] by auto
  qed
  have "stored_bytes j (l @ m) = []" if "j \<notin> set made" for j
    using st [of j] D(9) [OF that] that i by auto
  then show ?thesis using k'(1) inj claims made unfolding ledger_ok_def by blast
qed

text \<open>A change of the log or of the broken owners alone.\<close>

lemma ledger_weaken:
  assumes "ledger_ok E v made t l" "\<And>y d. v y = Some d \<Longrightarrow> y \<in> E \<Longrightarrow> y \<in> E'"
    "\<And>j. stored_bytes j m = []"
  shows "ledger_ok E' v made t (l @ m)"
proof -
  have "claim_good t (l @ m) d = claim_good t l d" for d
    by (rule claim_good_cong) (simp_all add: assms(3))
  note good = this and D = ledgerD [OF assms(1)]
  show ?thesis
    unfolding ledger_ok_def
  proof (intro conjI allI impI ballI)
    fix y d
    assume v: "v y = Some d"
    show "y \<in> E' \<or> claim_good t (l @ m) d" using good assms(2) [OF v] D(5) [OF v] by blast
  next
    show "stored_bytes i (l @ m) = []" if "i \<notin> set made" for i using D(9) [OF that] assms(3) by simp
  qed (use D in blast)+
qed

lemma ledger_close:
  assumes L: "ledger_ok E v made t l" and x: "v x = Some d"
    and E: "\<And>y e. v y = Some e \<Longrightarrow> y \<noteq> x \<Longrightarrow> y \<in> E \<Longrightarrow> y \<in> E'"
  shows "ledger_ok E' (v(x := None)) made (al_close (claimed d) t) l"
proof -
  note D = ledgerD [OF L]
  have ne: "y \<noteq> x" if "v y = Some e" "claimed e \<noteq> claimed d" for y e
    using that x by auto
  have same: "y = x" if "v y = Some e" "claimed e = claimed d" for y e
    using D(2) [OF that(1) x that(2)] .
  note at = al_close_at [OF D(10) [OF x]]
  have "ledger_ok E' (v(x := None)) made (al_close (claimed d) t) (l @ [])"
  proof (rule ledger_change [OF L al_close_keeps [OF D(1) D(10) [OF x]] D(3) [OF x]])
    show "(v(x := None)) y = Some e \<longleftrightarrow> v y = Some e" if "claimed e \<noteq> claimed d" for y e
      using ne [of y e] that by auto
    show "al_released (al_at (al_close (claimed d) t) (claimed d))
        = al_closeOnce (al_at (al_close (claimed d) t) (claimed d))"
      using at D(4) [OF x] by simp
  qed (use E ne same at in \<open>auto split: if_splits\<close>)
  then show ?thesis by simp
qed

text \<open>An operation fails on the way: the owner is broken.\<close>

lemma ledger_break:
  assumes L: "ledger_ok E v made t l" and x: "v x = Some d" and k: "keeps_others (claimed d) t t'"
    and live: "\<not> al_closeOnce (al_at t' (claimed d))" "\<not> al_released (al_at t' (claimed d))"
    and E: "x \<in> E'" "\<And>y e. v y = Some e \<Longrightarrow> y \<in> E \<Longrightarrow> y \<in> E'"
  shows "ledger_ok E' v made t' l"
proof -
  note D = ledgerD [OF L]
  have same: "y = x" if "v y = Some e" "claimed e = claimed d" for y e
    using D(2) [OF that(1) x that(2)] .
  have "ledger_ok E' v made t' (l @ [])"
  proof (rule ledger_change [OF L k D(3) [OF x]])
    show "y = z" if "v y = Some a" "v z = Some e" "claimed a = claimed d" "claimed e = claimed d" for y z a e
      using same [OF that(1,3)] same [OF that(2,4)] by simp
    show "\<not> al_closeOnce (al_at t' (claimed d)) \<and> (y \<in> E' \<or> claim_good t' (l @ []) a)"
      if "v y = Some a" "claimed a = claimed d" for y a
      using same [OF that] live E(1) by simp
    show "\<exists>y a. v y = Some a \<and> claimed a = claimed d" using x by blast
  qed (use E live in auto)
  then show ?thesis by simp
qed

text \<open>A claim is replaced by another on the same allocation, maybe by another owner.\<close>

lemma ledger_pass:
  assumes L: "ledger_ok E v made t l" and x: "v x = Some d" and y: "y = x \<or> v y = None"
    and d': "claimed d' = claimed d" "claim_good t' (l @ m) d'"
    and k: "keeps_others (claimed d) t t'"
    and live: "\<not> al_closeOnce (al_at t' (claimed d))" "\<not> al_released (al_at t' (claimed d))"
    and E: "\<And>z e. v z = Some e \<Longrightarrow> z \<noteq> x \<Longrightarrow> z \<in> E \<Longrightarrow> z \<in> E'"
    and st: "\<And>j. j \<noteq> claimed d \<Longrightarrow> stored_bytes j m = []"
  shows "ledger_ok E' ((v(x := None))(y := Some d')) made t' (l @ m)"
proof -
  note D = ledgerD [OF L]
  have same: "z = x" if "v z = Some e" "claimed e = claimed d" for z e
    using D(2) [OF that(1) x that(2)] .
  have new: "z = y \<and> e = d'" if "((v(x := None))(y := Some d')) z = Some e" "claimed e = claimed d" for z e
    using that same [of z e] by (auto split: if_splits)
  show ?thesis
  proof (rule ledger_change [OF L k D(3) [OF x]])
    show "((v(x := None))(y := Some d')) z = Some e \<longleftrightarrow> v z = Some e" if "claimed e \<noteq> claimed d" for z e
      using that x y d'(1) by auto
    show "z \<in> E'" if "v z = Some e" "claimed e \<noteq> claimed d" "z \<in> E" for z e
    proof -
      have "z \<noteq> x" using that(1,2) x by auto
      then show ?thesis using E that(1,3) by blast
    qed
    show "z = w" if "((v(x := None))(y := Some d')) z = Some a" "((v(x := None))(y := Some d')) w = Some e"
      "claimed a = claimed d" "claimed e = claimed d" for z w a e
      using new [OF that(1,3)] new [OF that(2,4)] by simp
    show "\<not> al_closeOnce (al_at t' (claimed d)) \<and> (z \<in> E' \<or> claim_good t' (l @ m) a)"
      if "((v(x := None))(y := Some d')) z = Some a" "claimed a = claimed d" for z a
      using new [OF that] live d'(2) by simp
    show "\<exists>z a. ((v(x := None))(y := Some d')) z = Some a \<and> claimed a = claimed d"
      using d'(1) by (intro exI [of _ y] exI [of _ d']) simp
  qed (use live st in auto)
qed

text \<open>A failed allocation, a new one, and what others do to the store.\<close>

lemma ledger_store:
  assumes L: "ledger_ok E v made t l" and f: "files_ok t'" and len: "length (tm_allocs t) \<le> length (tm_allocs t')"
    and same: "\<And>j. j \<in> set made \<Longrightarrow> al_at t' j = al_at t j"
      "\<And>j. j \<in> set made \<Longrightarrow> \<not> al_closeOnce (al_at t j) \<Longrightarrow>
        file_content (al_path (al_at t j)) t' = file_content (al_path (al_at t j)) t"
  shows "ledger_ok E v made t' l"
proof -
  note D = ledgerD [OF L]
  have good: "claim_good t' l d = claim_good t l d" if "v x = Some d" for x d
    by (rule claim_good_cong) (use same D(3,4) [OF that] in simp_all)
  show ?thesis
    unfolding ledger_ok_def
  proof (intro conjI allI impI ballI)
    fix x d
    assume v: "v x = Some d"
    show "\<not> al_closeOnce (al_at t' (claimed d))" using same(1) D(3,4) [OF v] by simp
    show "x \<in> E \<or> claim_good t' l d" using good [OF v] D(5) [OF v] by blast
  next
    fix j
    assume j: "j \<in> set made"
    show "j < length (tm_allocs t')" using D(6) [OF j] len by simp
    show "al_released (al_at t' j) = al_closeOnce (al_at t' j)" using D(7) [OF j] same(1) [OF j] by simp
    show "\<exists>x d. v x = Some d \<and> claimed d = j" if "\<not> al_closeOnce (al_at t' j)"
      using D(8) [OF j] same(1) [OF j] that by simp
  qed (use f D(2,3,9) in blast)+
qed

lemma ledger_made: "ledger_ok E v made t l \<Longrightarrow> length (tm_allocs t) \<notin> set made"
  using ledgerD(6) by blast

lemma ledger_failed:
  assumes L: "ledger_ok E v made t l" and k: "keeps_others (length (tm_allocs t)) t t'"
  shows "ledger_ok E v made t' l"
proof (rule ledger_store [OF L])
  note k' = keeps_othersD [OF k] and D = ledgerD [OF L]
  show "files_ok t'" "length (tm_allocs t) \<le> length (tm_allocs t')" by (fact k')+
  fix j
  assume j: "j \<in> set made"
  then show "al_at t' j = al_at t j" using k'(4) D(6) by blast
  assume "\<not> al_closeOnce (al_at t j)"
  then show "file_content (al_path (al_at t j)) t' = file_content (al_path (al_at t j)) t"
    using k'(5) D(6) [OF j] by blast
qed

lemma ledger_new:
  assumes L: "ledger_ok E v made t l" and k: "keeps_others (length (tm_allocs t)) t t'"
    and a: "temp_allocate mk ok n t = (Inr i, t')" and x: "v x = None"
  shows "ledger_ok E (v(x := Some (Inl \<lparr>at_allocation = i, at_expectedSize = n, at_optionalName = name,
    at_options = options, at_receivedSize = 0\<rparr>))) (made @ [i]) t' l"
proof -
  let ?d = "Inl \<lparr>at_allocation = i, at_expectedSize = n, at_optionalName = name, at_options = options,
    at_receivedSize = 0\<rparr> :: app_claim"
  note new = allocate_new [OF a] and D = ledgerD [OF ledger_failed [OF L k]]
  have i: "i \<notin> set made" using ledger_made [OF L] new(1) by simp
  have rel: "\<not> al_released (al_at t' i)"
    using a by (auto simp: temp_allocate_def allocate_files_def Let_def split: if_splits option.splits)
  have good: "claim_good t' l ?d"
    using new D(9) [OF i] by (auto simp: intact_def Let_def)
  have old: "claimed e \<noteq> i" if "v y = Some e" for y e
    using D(3) [OF that] i by auto
  show ?thesis
    unfolding ledger_ok_def
  proof (intro conjI allI impI ballI)
    show "files_ok t'" by (fact D)
    show "y = z" if "(v(x := Some ?d)) y = Some a" "(v(x := Some ?d)) z = Some e" "claimed a = claimed e" for y z a e
      using that old [of y a] old [of z e] D(2) [of y a z e] by (auto split: if_splits)
    fix y e
    assume h: "(v(x := Some ?d)) y = Some e"
    show "claimed e \<in> set (made @ [i])" using h D(3) [of y e] by (auto split: if_splits)
    show "\<not> al_closeOnce (al_at t' (claimed e))" using h new(3) D(4) [of y e] by (auto split: if_splits)
    show "y \<in> E \<or> claim_good t' l e" using h good D(5) [of y e] by (auto split: if_splits)
  next
    fix j
    assume j: "j \<in> set (made @ [i])"
    show "j < length (tm_allocs t')" using j new(2) D(6) [of j] by auto
    show "al_released (al_at t' j) = al_closeOnce (al_at t' j)" using j new(3) rel D(7) [of j] by auto
    assume c: "\<not> al_closeOnce (al_at t' j)"
    show "\<exists>y d. (v(x := Some ?d)) y = Some d \<and> claimed d = j"
    proof (cases "j = i")
      case False
      then obtain y d where "v y = Some d" "claimed d = j" using D(8) [OF _ c] j by auto
      then show ?thesis using x by (intro exI [of _ y] exI [of _ d]) auto
    qed auto
  next
    show "stored_bytes j l = []" if "j \<notin> set (made @ [i])" for j using that D(9) [of j] by auto
  qed
qed

lemma ledger_others:
  assumes L: "ledger_ok E v made t l" and o: "others_use (set made) t t'"
  shows "ledger_ok E v made t' l"
  by (rule ledger_store [OF L]) (use o in \<open>simp_all add: others_use_def\<close>)

end
