(* ===== verification/App_Invariant.thy ===== *)
theory App_Invariant
  imports App_Ledger
begin

text \<open>
  The steps of the app bridge among the other users of the temporary store, and their invariant:
  the table points to the sessions of their channels, and the ledger of who is responsible for
  which temporary file is in order.
\<close>

section \<open>Steps\<close>

inductive app_own_step :: "AppBridge \<Rightarrow> AppBridge \<Rightarrow> bool" where
  receives: "ab_handling b = Returned e \<Longrightarrow> app_own_step b (app_Handle ok frame b)"
| serves: "ab_handling b = Serving flag a payload \<Longrightarrow>
    \<forall>x. ae_mkdir en = Some x \<longrightarrow> fresh_dir x (ab_temp b) \<Longrightarrow>
    app_own_step b (app_serve en flag a payload b)"
| launches: "ab_handling b = Launching a mode command cleanup \<Longrightarrow>
    app_own_step b (app_launch a mode command cleanup b)"
| fails: "ab_handling b = Failing a mode message \<Longrightarrow>
    app_own_step b (protocolFailure ok a mode message b)"
| closes_channel: "app_own_step b (app_CloseChannel channelID b)"
| closes_bridge: "app_own_step b (app_Close b)"
| opens: "map_of (ab_tasks b) k = Some task \<Longrightarrow> ak_phase task = AppOpening \<Longrightarrow>
    app_own_step b (runTargetCommand_open ok result k task b)"
| reads: "map_of (ab_tasks b) k = Some task \<Longrightarrow> ak_phase task = AppReading target \<Longrightarrow>
    app_own_step b (runTargetCommand_read ok payload readErr k task target b)"
| times_out: "map_of (ab_tasks b) k = Some task \<Longrightarrow> ak_phase task = AppReading target \<Longrightarrow>
    app_own_step b (app_deadline target b)"

inductive app_step :: "AppBridge \<Rightarrow> AppBridge \<Rightarrow> bool" where
  own_step: "app_own_step b b' \<Longrightarrow> app_step b b'"
| others_step: "others_use (set (ab_made b)) (ab_temp b) t \<Longrightarrow> app_step b (b\<lparr>ab_temp := t\<rparr>)"

section \<open>Invariant\<close>

datatype app_owner = BySession nat | ByHandler | ByTask nat

definition package_claim :: "nat option \<Rightarrow> string \<Rightarrow> app_claim option" where
  "package_claim cleanup command = map_option (\<lambda>i. Inr (i, command)) cleanup"

fun handling_claim :: "app_handling \<Rightarrow> app_claim option" where
  "handling_claim (Launching a mode command cleanup) = package_claim cleanup command"
| "handling_claim _ = None"

fun app_view :: "AppBridge \<Rightarrow> app_owner \<Rightarrow> app_claim option" where
  "app_view b (BySession a) =
     (if a < length (ab_heap b) then map_option Inl (as_transfer (ab_heap b ! a)) else None)"
| "app_view b ByHandler = handling_claim (ab_handling b)"
| "app_view b (ByTask k) = (case map_of (ab_tasks b) k of None \<Rightarrow> None
     | Some task \<Rightarrow> package_claim (ak_cleanup task) (ak_command task))"

fun broken_in :: "app_handling \<Rightarrow> app_owner set" where
  "broken_in (Failing a mode message) = {BySession a}"
| "broken_in _ = {}"

fun handling_in :: "nat \<Rightarrow> app_handling \<Rightarrow> bool" where
  "handling_in n (Returned e) = True"
| "handling_in n (Serving flag a payload) = (a < n)"
| "handling_in n (Launching a mode command cleanup) = (a < n)"
| "handling_in n (Failing a mode message) = (a < n)"

definition app_shape :: "AppBridge \<Rightarrow> bool" where
  "app_shape b \<longleftrightarrow> table_ok (ab_sessions b) (ab_heap b)
     \<and> (ab_closed b \<longrightarrow> ab_sessions b = [])
     \<and> (\<forall>a < length (ab_heap b). ss_closed (ab_heap b ! a) \<longrightarrow> as_transfer (ab_heap b ! a) = None)
     \<and> handling_in (length (ab_heap b)) (ab_handling b)
     \<and> (\<forall>k task. map_of (ab_tasks b) k = Some task \<longrightarrow>
          ak_session task < length (ab_heap b) \<and> k < ab_launched b)"

definition app_ledger :: "AppBridge \<Rightarrow> bool" where
  "app_ledger b \<longleftrightarrow> ledger_ok (broken_in (ab_handling b)) (app_view b) (ab_made b) (ab_temp b) (ab_log b)"

definition app_ok :: "AppBridge \<Rightarrow> bool" where
  "app_ok b \<longleftrightarrow> app_shape b \<and> app_ledger b"

lemma app_okD:
  assumes "app_ok b"
  shows "app_shape b" "app_ledger b" "table_ok (ab_sessions b) (ab_heap b)"
    "ab_closed b \<Longrightarrow> ab_sessions b = []"
    "a < length (ab_heap b) \<Longrightarrow> ss_closed (ab_heap b ! a) \<Longrightarrow> as_transfer (ab_heap b ! a) = None"
    "handling_in (length (ab_heap b)) (ab_handling b)"
    "map_of (ab_tasks b) k = Some task \<Longrightarrow> ak_session task < length (ab_heap b)"
    "map_of (ab_tasks b) k = Some task \<Longrightarrow> k < ab_launched b"
    "ledger_ok (broken_in (ab_handling b)) (app_view b) (ab_made b) (ab_temp b) (ab_log b)"
  using assms by (auto simp: app_ok_def app_shape_def app_ledger_def)

section \<open>The parts of an operation\<close>

lemma app_emit_sel [simp]:
  "ab_canOpen (app_emit l b) = ab_canOpen b" "ab_hasStore (app_emit l b) = ab_hasStore b"
  "ab_maxAppBytes (app_emit l b) = ab_maxAppBytes b" "ab_temp (app_emit l b) = ab_temp b"
  "ab_sessions (app_emit l b) = ab_sessions b" "ab_heap (app_emit l b) = ab_heap b"
  "ab_closed (app_emit l b) = ab_closed b" "ab_handling (app_emit l b) = ab_handling b"
  "ab_tasks (app_emit l b) = ab_tasks b" "ab_launched (app_emit l b) = ab_launched b"
  "ab_log (app_emit l b) = ab_log b @ l" "ab_made (app_emit l b) = ab_made b"
  by (simp_all add: app_emit_def)

lemma put_session_sel [simp]:
  "ab_canOpen (put_session a s b) = ab_canOpen b" "ab_hasStore (put_session a s b) = ab_hasStore b"
  "ab_maxAppBytes (put_session a s b) = ab_maxAppBytes b" "ab_temp (put_session a s b) = ab_temp b"
  "ab_sessions (put_session a s b) = ab_sessions b" "ab_heap (put_session a s b) = (ab_heap b)[a := s]"
  "ab_closed (put_session a s b) = ab_closed b" "ab_handling (put_session a s b) = ab_handling b"
  "ab_tasks (put_session a s b) = ab_tasks b" "ab_launched (put_session a s b) = ab_launched b"
  "ab_log (put_session a s b) = ab_log b" "ab_made (put_session a s b) = ab_made b"
  by (simp_all add: put_session_def)

lemma app_go_sel [simp]:
  "ab_canOpen (app_go h b) = ab_canOpen b" "ab_hasStore (app_go h b) = ab_hasStore b"
  "ab_maxAppBytes (app_go h b) = ab_maxAppBytes b" "ab_temp (app_go h b) = ab_temp b"
  "ab_sessions (app_go h b) = ab_sessions b" "ab_heap (app_go h b) = ab_heap b"
  "ab_closed (app_go h b) = ab_closed b" "ab_handling (app_go h b) = h"
  "ab_tasks (app_go h b) = ab_tasks b" "ab_launched (app_go h b) = ab_launched b"
  "ab_log (app_go h b) = ab_log b" "ab_made (app_go h b) = ab_made b"
  by (simp_all add: app_go_def)

lemma app_stop_sel [simp]:
  "ab_temp (app_stop k b) = ab_temp b" "ab_sessions (app_stop k b) = ab_sessions b"
  "ab_heap (app_stop k b) = ab_heap b" "ab_closed (app_stop k b) = ab_closed b"
  "ab_handling (app_stop k b) = ab_handling b" "ab_tasks (app_stop k b) = AList.delete k (ab_tasks b)"
  "ab_launched (app_stop k b) = ab_launched b" "ab_log (app_stop k b) = ab_log b"
  "ab_made (app_stop k b) = ab_made b" "ab_maxAppBytes (app_stop k b) = ab_maxAppBytes b"
  by (simp_all add: app_stop_def)

definition given_back :: "nat option \<Rightarrow> temp_state \<Rightarrow> temp_state" where
  "given_back c t = (case c of None \<Rightarrow> t | Some i \<Rightarrow> al_close i t)"

lemma app_release_sel [simp]:
  "ab_sessions (app_release c b) = ab_sessions b" "ab_heap (app_release c b) = ab_heap b"
  "ab_closed (app_release c b) = ab_closed b" "ab_handling (app_release c b) = ab_handling b"
  "ab_tasks (app_release c b) = ab_tasks b" "ab_launched (app_release c b) = ab_launched b"
  "ab_log (app_release c b) = ab_log b" "ab_made (app_release c b) = ab_made b"
  "ab_maxAppBytes (app_release c b) = ab_maxAppBytes b"
  "ab_temp (app_release c b) = given_back c (ab_temp b)"
  by (simp_all add: app_release_def given_back_def split: option.split)

lemma app_view_eqI:
  assumes "\<And>a. f (BySession a) = g (BySession a)" "f ByHandler = g ByHandler"
    "\<And>k. f (ByTask k) = g (ByTask k)"
  shows "f = g"
proof
  show "f x = g x" for x using assms by (cases x) simp_all
qed

lemma view_emit [simp]: "app_view (app_emit l b) = app_view b"
  by (rule app_view_eqI) simp_all

lemma view_go [simp]: "app_view (app_go h b) = (app_view b)(ByHandler := handling_claim h)"
  by (rule app_view_eqI) simp_all

lemma view_release [simp]: "app_view (app_release c b) = app_view b"
  by (rule app_view_eqI) simp_all

lemma view_stop [simp]: "app_view (app_stop k b) = (app_view b)(ByTask k := None)"
  by (rule app_view_eqI) simp_all

lemma view_temp [simp]:
  "app_view (b\<lparr>ab_temp := t\<rparr>) = app_view b" "app_view (b\<lparr>ab_temp := t, ab_made := m\<rparr>) = app_view b"
  "app_view (b\<lparr>ab_sessions := ss\<rparr>) = app_view b"
  "app_view (b\<lparr>ab_closed := c\<rparr>) = app_view b"
  by (rule app_view_eqI; simp)+

lemma view_put:
  "a < length (ab_heap b) \<Longrightarrow>
     app_view (put_session a s b) = (app_view b)(BySession a := map_option Inl (as_transfer s))"
  by (rule app_view_eqI) simp_all

lemma view_put_same:
  "a < length (ab_heap b) \<Longrightarrow> as_transfer s = as_transfer (ab_heap b ! a) \<Longrightarrow>
     app_view (put_session a s b) = app_view b"
  by (simp add: view_put fun_upd_idem)

lemma view_task:
  "app_view (b\<lparr>ab_launched := n, ab_tasks := AList.update k task (ab_tasks b)\<rparr>)
     = (app_view b)(ByTask k := package_claim (ak_cleanup task) (ak_command task))"
  "app_view (b\<lparr>ab_tasks := AList.update k task (ab_tasks b)\<rparr>)
     = (app_view b)(ByTask k := package_claim (ak_cleanup task) (ak_command task))"
  by (rule app_view_eqI; simp)+

lemma shape_put:
  assumes "app_shape b" "a < length (ab_heap b)" "ss_channelID s = ss_channelID (ab_heap b ! a)"
    "ss_closed s \<or> \<not> ss_closed (ab_heap b ! a)" "ss_closed s \<Longrightarrow> as_transfer s = None"
  shows "app_shape (put_session a s b)"
  using assms table_ok_update [of "ab_sessions b" "ab_heap b" a s]
  by (auto simp: app_shape_def nth_list_update)

lemma shape_cong:
  assumes "app_shape b" "ab_sessions b' = ab_sessions b" "ab_heap b' = ab_heap b" "ab_closed b' = ab_closed b"
    "handling_in (length (ab_heap b)) (ab_handling b')" "ab_launched b' = ab_launched b"
    "\<And>k task. map_of (ab_tasks b') k = Some task \<Longrightarrow>
      \<exists>task'. map_of (ab_tasks b) k = Some task' \<and> ak_session task = ak_session task'"
  shows "app_shape b'"
  using assms unfolding app_shape_def by (metis (no_types, lifting))

lemma shape_go: "app_shape b \<Longrightarrow> handling_in (length (ab_heap b)) h \<Longrightarrow> app_shape (app_go h b)"
  by (erule shape_cong) auto

lemma shape_emit: "app_shape b \<Longrightarrow> app_shape (app_emit l b)"
  by (simp add: app_shape_def)

lemma shape_release: "app_shape b \<Longrightarrow> app_shape (app_release c b)"
  by (simp add: app_shape_def)

lemma shape_temp:
  "app_shape b \<Longrightarrow> app_shape (b\<lparr>ab_temp := t\<rparr>)" "app_shape b \<Longrightarrow> app_shape (b\<lparr>ab_temp := t, ab_made := m\<rparr>)"
  by (simp_all add: app_shape_def)

lemma shape_stop: "app_shape b \<Longrightarrow> app_shape (app_stop k b)"
  by (simp add: app_shape_def)

lemma shape_handling: "app_shape b \<Longrightarrow> handling_in (length (ab_heap b)) (ab_handling b)"
  by (simp add: app_shape_def)

lemmas shapes = shape_go shape_emit shape_release shape_temp shape_stop

end
