(* ===== verification/App_Steps.thy ===== *)
theory App_Steps
  imports App_Invariant
begin

text \<open>Every step of the app bridge keeps its invariant, operation by operation.\<close>

section \<open>Handling a frame\<close>

lemma app_okI: "app_shape b \<Longrightarrow> app_ledger b \<Longrightarrow> app_ok b"
  by (simp add: app_ok_def)

lemma ledger_log:
  "ledger_ok E v made t l \<Longrightarrow> (\<And>j. stored_bytes j m = []) \<Longrightarrow> ledger_ok E v made t (l @ m)"
  by (rule ledger_weaken) simp_all

lemma app_emit_ok: "app_ok b \<Longrightarrow> (\<And>j. stored_bytes j l = []) \<Longrightarrow> app_ok (app_emit l b)"
  by (auto intro!: app_okI shape_emit ledger_log simp: app_ledger_def dest: app_okD(1,9))

text \<open>The handling moves on, from a point where nothing is claimed and nothing is broken.\<close>

lemma go_ok:
  assumes "app_ok b" "handling_claim (ab_handling b) = None" "broken_in (ab_handling b) = {}"
    "handling_claim h = None" "handling_in (length (ab_heap b)) h"
  shows "app_ok (app_go h b)"
proof (rule app_okI)
  show "app_shape (app_go h b)" using assms by (intro shape_go) (simp_all add: app_ok_def)
  have v: "(app_view b)(ByHandler := None) = app_view b" using assms(2) by (intro fun_upd_idem) simp
  have "ledger_ok (broken_in h) (app_view b) (ab_made b) (ab_temp b) (ab_log b @ [])"
    by (rule ledger_weaken [OF app_okD(9) [OF assms(1)]]) (simp_all add: assms(3))
  then show "app_ledger (app_go h b)" using assms(4) v by (simp add: app_ledger_def)
qed

lemma stored_target_closing [simp]: "stored_bytes i (target_closing t) = []"
  by (simp add: target_closing_def split: option.split)

lemma app_write_ok:
  assumes "app_ok b" "handling_claim (ab_handling b) = None" "broken_in (ab_handling b) = {}"
  shows "app_ok (app_write ok frame b)" "app_ok (app_reject ok c message b)"
proof -
  show w: "app_ok (app_write ok frame b)" for ok frame
    unfolding app_write_def by (rule go_ok) (use assms in \<open>simp_all add: app_emit_ok\<close>)
  show "app_ok (app_reject ok c message b)" unfolding app_reject_def by (rule w)
qed

lemma getOrCreate_ok:
  assumes b: "app_ok b" and g: "app_getOrCreate c b = (r, b')"
  shows "app_ok b'" "ab_handling b' = ab_handling b" "\<And>a. r = Some a \<Longrightarrow> a < length (ab_heap b')"
proof -
  show "ab_handling b' = ab_handling b"
    using g by (auto simp: app_getOrCreate_def Let_def split: if_splits option.splits)
  show "a < length (ab_heap b')" if "r = Some a" for a
    using g that table_okD(1) [OF app_okD(3) [OF b]]
    by (auto simp: app_getOrCreate_def Let_def split: if_splits option.splits)
  show "app_ok b'"
  proof (cases "ab_closed b \<or> map_of (ab_sessions b) c \<noteq> None")
    case True
    then have "b' = b" using g by (auto simp: app_getOrCreate_def split: if_splits option.splits)
    then show ?thesis using b by simp
  next
    case False
    let ?s = "\<lparr>ss_channelID = c, ss_target = None, ss_closed = False, as_commandRunning = False,
      as_transfer = None, as_output = [], as_outputSeen = False, as_failureSeen = False\<rparr> :: appSession"
    have b': "b' = b\<lparr>ab_heap := ab_heap b @ [?s], ab_sessions := AList.update c (length (ab_heap b)) (ab_sessions b)\<rparr>"
      using g False by (auto simp: app_getOrCreate_def Let_def)
    have "app_view b' = app_view b"
      by (rule app_view_eqI) (auto simp: b' nth_append)
    moreover have "handling_in (length (ab_heap b')) (ab_handling b')"
      using app_okD(6) [OF b] by (cases "ab_handling b") (simp_all add: b')
    moreover have "table_ok (ab_sessions b') (ab_heap b')"
      using table_ok_new [OF app_okD(3) [OF b], of c ?s] False by (simp add: b')
    ultimately show ?thesis
      using False app_okD(5,7,8) [OF b] app_okD(9) [OF b]
      by (auto simp: app_ok_def app_shape_def app_ledger_def b' nth_append less_Suc_eq)
  qed
qed

lemma handle_app_ok:
  assumes b: "app_ok b" and h: "ab_handling b = Returned e"
  shows "app_ok (app_Handle ok frame b)"
proof -
  obtain r b' where g: "app_getOrCreate (ChannelID frame) b = (r, b')" by fastforce
  note n = getOrCreate_ok [OF b g]
  have "app_ok (app_reject ok (ChannelID frame) m b')" "app_ok (app_reject ok (ChannelID frame) m b)" for m
    using app_write_ok(2) n(1,2) b h by simp_all
  moreover have "app_ok (app_go (Serving f a p) b')" if "r = Some a" for f a p
    by (rule go_ok) (use n h that in simp_all)
  moreover have "app_ok (app_go (Serving f a p) b)" if "map_of (ab_sessions b) c = Some a" for f a p c
    by (rule go_ok) (use b h table_okD(1) [OF app_okD(3) [OF b] that] in simp_all)
  ultimately show ?thesis using g by (simp add: app_Handle_def Let_def split: option.split)
qed

section \<open>The section of the session\<close>

lemma fails_ok:
  assumes "app_ok b" "ab_handling b = Serving f a p"
  shows "app_ok (app_go (Failing a m t) b)"
  by (rule go_ok) (use assms app_okD(6) [OF assms(1)] in simp_all)

lemma busy_sel [simp]:
  "ss_channelID (resetOutputLocked s) = ss_channelID s" "ss_target (resetOutputLocked s) = ss_target s"
  "ss_closed (resetOutputLocked s) = ss_closed s" "as_transfer (resetOutputLocked s) = as_transfer s"
  "as_commandRunning (resetOutputLocked s) = as_commandRunning s"
  by (simp_all add: resetOutputLocked_def)

text \<open>A change of a session that keeps its channel, its transfer and whether it is closed.\<close>

lemma put_same_ok:
  assumes b: "app_ok b" and a: "a < length (ab_heap b)"
    and s: "ss_channelID s = ss_channelID (ab_heap b ! a)" "ss_closed s = ss_closed (ab_heap b ! a)"
      "as_transfer s = as_transfer (ab_heap b ! a)"
  shows "app_ok (put_session a s b)"
proof (rule app_okI)
  show "app_shape (put_session a s b)"
    by (rule shape_put) (use b a s app_okD(5) [OF b a] in \<open>simp_all add: app_ok_def\<close>)
  show "app_ledger (put_session a s b)"
    using app_okD(9) [OF b] view_put_same [OF a s(3)] by (simp add: app_ledger_def)
qed

lemma take_session_ok:
  assumes b: "app_ok b" and h: "ab_handling b = Serving f a p"
  shows "app_ok (take_session mode command a b)"
proof -
  have a: "a < length (ab_heap b)" using app_okD(6) [OF b] h by simp
  have "app_ok (put_session a (resetOutputLocked ((ab_heap b ! a)\<lparr>as_commandRunning := True\<rparr>)) b)"
    by (rule put_same_ok [OF b a]) simp_all
  then have "app_ok (app_go (Launching a mode command None)
      (put_session a (resetOutputLocked ((ab_heap b ! a)\<lparr>as_commandRunning := True\<rparr>)) b))"
    by (rule go_ok) (use h a in \<open>simp_all add: package_claim_def\<close>)
  then show ?thesis using fails_ok [OF b h] by (simp add: take_session_def Let_def)
qed

lemma prepare_ok:
  assumes b: "app_ok b" and h: "ab_handling b = Serving f a p"
    and fresh: "\<forall>x. ae_mkdir en = Some x \<longrightarrow> fresh_dir x (ab_temp b)"
  shows "app_ok (prepareInstall en payload a b)"
proof -
  have a: "a < length (ab_heap b)" using app_okD(6) [OF b] h by simp
  note L = app_okD(9) [OF b]
  have f: "app_ok (install_fails a m b)" for m
    unfolding install_fails_def by (rule fails_ok [OF b h])
  show ?thesis
  proof (cases "DecodeTransferConfig payload")
    case (Inr config)
    show ?thesis
    proof (cases "validateInstallConfig (ab_maxAppBytes b) config \<noteq> None
        \<or> \<not> ensureAvailableLocked (ab_heap b ! a) \<or> \<not> ab_hasStore b")
      case False
      let ?n = "uint (tc_FileSize config)" and ?s = "ab_heap b ! a"
      obtain r t where al: "temp_allocate (ae_mkdir en) (ae_openOK en) ?n (ab_temp b) = (r, t)" by fastforce
      note k = allocate_keeps [OF ledgerD(1) [OF L] fresh al]
      have free: "as_transfer ?s = None" "\<not> ss_closed ?s" using False by (simp_all add: ensureAvailableLocked_def)
      show ?thesis
      proof (cases r)
        case (Inl e)
        have "app_ok (b\<lparr>ab_temp := t\<rparr>)"
          using ledger_failed [OF L k] shape_temp(1) [OF app_okD(1) [OF b]]
          by (simp add: app_ok_def app_ledger_def)
        then have "app_ok (install_fails a failAppTransfer (b\<lparr>ab_temp := t\<rparr>))"
          unfolding install_fails_def by (rule fails_ok) (use h in simp)
        then show ?thesis using Inr False al Inl by (simp add: prepareInstall_def Let_def)
      next
        case r: (Inr i)
        let ?tr = "\<lparr>at_allocation = i, at_expectedSize = ?n, at_optionalName = tc_OptionalName config,
          at_options = normalizeAppOptionText (tc_Options config), at_receivedSize = 0\<rparr>"
        let ?b = "put_session a (?s\<lparr>as_transfer := Some ?tr\<rparr>) (b\<lparr>ab_temp := t, ab_made := ab_made b @ [i]\<rparr>)"
        have al': "temp_allocate (ae_mkdir en) (ae_openOK en) ?n (ab_temp b) = (Inr i, t)" using al r by simp
        have "app_view ?b = (app_view b)(BySession a := Some (Inl ?tr))"
          using a by (subst view_put) simp_all
        moreover have "app_view b (BySession a) = None" using free a by simp
        ultimately have "app_ledger ?b"
          using ledger_new [OF L k al', of "BySession a"] by (simp add: app_ledger_def)
        moreover have "app_shape ?b"
          by (rule shape_put) (use a free shape_temp(2) [OF app_okD(1) [OF b]] in simp_all)
        ultimately have "app_ok ?b" by (simp add: app_ok_def)
        then have "app_ok (app_write (ae_writeOK en) x ?b)" for x
          by (rule app_write_ok) (use h in simp_all)
        then show ?thesis using Inr False al' by (simp add: prepareInstall_def Let_def)
      qed
    qed (use Inr f in \<open>auto simp: prepareInstall_def Let_def split: option.split\<close>)
  qed (use f in \<open>simp add: prepareInstall_def\<close>)
qed

text \<open>An operation on the file of a transfer fails on the way.\<close>

lemma broken_ok:
  assumes b: "app_ok b" and h: "ab_handling b = Serving f a p"
    and tr: "as_transfer (ab_heap b ! a) = Some tr"
    and k: "keeps_others (at_allocation tr) (ab_temp b) t"
    and same: "al_closeOnce (al_at t (at_allocation tr)) = al_closeOnce (al_at (ab_temp b) (at_allocation tr))"
      "al_released (al_at t (at_allocation tr)) = al_released (al_at (ab_temp b) (at_allocation tr))"
  shows "app_ok (install_fails a m (b\<lparr>ab_temp := t\<rparr>))"
proof -
  note L = app_okD(9) [OF b]
  have a: "a < length (ab_heap b)" using app_okD(6) [OF b] h by simp
  have x: "app_view b (BySession a) = Some (Inl tr)" using a tr by simp
  have c: "claimed (Inl tr) = at_allocation tr" by simp
  note D = ledgerD [OF L]
  have live: "\<not> al_closeOnce (al_at (ab_temp b) (at_allocation tr))"
    "\<not> al_released (al_at (ab_temp b) (at_allocation tr))"
    using D(4) [OF x] D(7) [OF D(3) [OF x]] by simp_all
  have "ledger_ok {BySession a} (app_view b) (ab_made b) t (ab_log b)"
    by (rule ledger_break [OF L x]) (use k same live h in simp_all)
  moreover have "(app_view b)(ByHandler := None) = app_view b" using h by (intro fun_upd_idem) simp
  ultimately have "app_ledger (install_fails a m (b\<lparr>ab_temp := t\<rparr>))"
    by (simp add: app_ledger_def install_fails_def)
  moreover have "app_shape (install_fails a m (b\<lparr>ab_temp := t\<rparr>))"
    unfolding install_fails_def using app_okD(1) [OF b] a by (intro shapes) simp_all
  ultimately show ?thesis by (simp add: app_ok_def)
qed

lemma writeAt_allocs: "writeAt short i data off t = (r, t') \<Longrightarrow> tm_allocs t' = tm_allocs t"
  by (auto simp: writeAt_def Let_def put_file_def split: option.splits)

lemma writeAt_keeps:
  assumes t: "files_ok t" and i: "i < length (tm_allocs t)" "\<not> al_closeOnce (al_at t i)"
    and w: "writeAt short i data off t = (r, t')"
  shows "keeps_others i t t'"
proof (cases "al_file (al_at t i)")
  case None
  then show ?thesis using w t by (simp add: writeAt_def keeps_others_refl)
next
  case (Some h)
  note own = files_okD(2) [OF t i]
  have t': "t' = put_file (fh_path h) off (take (taken short data) data) t"
    using w Some by (auto simp: writeAt_def Let_def)
  show ?thesis
  proof (rule put_keeps [OF t i, where al = "al_at t i"])
    fix q
    assume "\<forall>n. CHR ''/'' \<notin> set n \<longrightarrow> q \<noteq> filepath_join (al_directory (al_at t i)) n"
    then have "q \<noteq> fh_path h" using own_file_path [OF own Some] by auto
    then show "file_content q t' = file_content q t" by (simp add: t' content_put_file)
  qed (use own in \<open>simp_all add: t' put_file_def\<close>)
qed

lemma writeAt_append:
  assumes "writeAt short i data off t = ((length data, None), t')" "al_file (al_at t i) = Some h"
    "fh_path h = al_path (al_at t i)" "off = length (file_content (al_path (al_at t i)) t)"
  shows "file_content (al_path (al_at t i)) t' = file_content (al_path (al_at t i)) t @ data"
  using assms by (auto simp: writeAt_def Let_def taken_def content_put_file split: if_splits)

lemma seal_released:
  "seal sok cok i t = (e, t') \<Longrightarrow> i < length (tm_allocs t) \<Longrightarrow> al_released (al_at t' i) = al_released (al_at t i)"
  by (auto simp: seal_def Let_def split: if_splits)

lemma rename_released:
  "renameToName ok i name t = (e, t') \<Longrightarrow> i < length (tm_allocs t) \<Longrightarrow>
     al_released (al_at t' i) = al_released (al_at t i)"
  by (auto simp: renameToName_def Let_def split: if_splits)

lemma complete_ok:
  assumes b: "app_ok b" and h: "ab_handling b = Serving f a p" and op: "\<not> ss_closed (ab_heap b ! a)"
    and tr: "as_transfer (ab_heap b ! a) = Some tr" and full: "at_receivedSize tr = at_expectedSize tr"
  shows "app_ok (completeInstall en a tr b)"
proof -
  let ?i = "at_allocation tr" and ?t = "ab_temp b"
  note L = app_okD(9) [OF b]
  note D = ledgerD [OF L]
  have a: "a < length (ab_heap b)" using app_okD(6) [OF b] h by simp
  have x: "app_view b (BySession a) = Some (Inl tr)" using a tr by simp
  have i: "?i < length (tm_allocs ?t)" "\<not> al_closeOnce (al_at ?t ?i)" "\<not> al_released (al_at ?t ?i)"
    using D(4,10) [OF x] D(7) [OF D(3) [OF x]] by simp_all
  have good: "claim_good ?t (ab_log b) (Inl tr)" using D(5) [OF x] h by simp
  obtain e t1 where s: "seal (ae_syncOK en) (ae_closeOK en) ?i ?t = (e, t1)" by fastforce
  note k1 = seal_keeps [OF D(1) i(1,2) s] and c1 = seal_closeOnce [OF s i(1)] seal_released [OF s i(1)]
  show ?thesis
  proof (cases e)
    case (Some e')
    then show ?thesis
      using broken_ok [OF b h tr k1 c1(1,3)] s by (simp add: completeInstall_def)
  next
    case None
    note s1 = seal_effect [OF s [unfolded None] i(1)]
    have i1: "?i < length (tm_allocs t1)" "\<not> al_closeOnce (al_at t1 ?i)" using i c1 by simp_all
    obtain e2 t2 where r: "renameToName (ae_renameOK en) ?i (at_optionalName tr) t1 = (e2, t2)" by fastforce
    note k2 = renameToName_keeps [OF keeps_othersD(1) [OF k1] i1 r]
      and c2 = rename_closeOnce [OF r i1(1)] rename_released [OF r i1(1)]
    note k = keeps_others_trans [OF k1 k2]
    show ?thesis
    proof (cases e2)
      case (Some e')
      then show ?thesis
        using broken_ok [OF b h tr k] c1 c2 s None r by (simp add: completeInstall_def)
    next
      case e2: None
      note r1 = rename_effect [OF r [unfolded e2] i1(1)]
      let ?cmd = "buildAppInstallCommand (at_options tr) (currentPath ?i t2)"
      let ?s = "resetOutputLocked ((ab_heap b ! a)\<lparr>as_transfer := None, as_commandRunning := True\<rparr>)"
      let ?b = "app_go (Launching a appFinishModeInstall ?cmd (Some ?i)) (put_session a ?s (b\<lparr>ab_temp := t2\<rparr>))"
      have "claim_good t2 (ab_log b @ []) (Inr (?i, ?cmd))"
        using good full s1 r1 by (auto simp: intact_def Let_def currentPath_def)
      then have "ledger_ok {} ((app_view b)(BySession a := None, ByHandler := Some (Inr (?i, ?cmd)))) (ab_made b) t2
          (ab_log b @ [])"
        by (intro ledger_pass [OF L x]) (use h k c1 c2 i in simp_all)
      moreover have "app_view ?b = (app_view b)(BySession a := None, ByHandler := Some (Inr (?i, ?cmd)))"
        using a by (simp add: view_put package_claim_def)
      ultimately have "app_ledger ?b" by (simp add: app_ledger_def)
      moreover have "app_shape ?b"
        by (intro shape_go shape_put shape_temp) (use a op app_okD(1) [OF b] in simp_all)
      ultimately show ?thesis using s None r e2 by (simp add: completeInstall_def app_ok_def)
    qed
  qed
qed

lemma chunk_ok:
  assumes b: "app_ok b" and h: "ab_handling b = Serving f a p"
  shows "app_ok (installChunk en index data a b)"
proof -
  let ?s = "ab_heap b ! a" and ?t = "ab_temp b"
  have a: "a < length (ab_heap b)" using app_okD(6) [OF b] h by simp
  note L = app_okD(9) [OF b]
  note D = ledgerD [OF L]
  have fl: "app_ok (install_fails a m b)" for m
    unfolding install_fails_def by (rule fails_ok [OF b h])
  show ?thesis
  proof (cases "ss_closed ?s \<or> as_commandRunning ?s \<or> as_transfer ?s = None")
    case False
    then obtain tr where tr: "as_transfer ?s = Some tr" and op: "\<not> ss_closed ?s" by auto
    let ?i = "at_allocation tr" let ?stop = "at_receivedSize tr + int (length data)"
    have x: "app_view b (BySession a) = Some (Inl tr)" using a tr by simp
    have i: "?i < length (tm_allocs ?t)" "\<not> al_closeOnce (al_at ?t ?i)" "\<not> al_released (al_at ?t ?i)"
      using D(4,10) [OF x] D(7) [OF D(3) [OF x]] by simp_all
    have good: "claim_good ?t (ab_log b) (Inl tr)" using D(5) [OF x] h by simp
    obtain n err t where w: "writeAt (ae_short en) ?i data (nat (at_receivedSize tr)) ?t = ((n, err), t)"
      by (metis prod.collapse)
    note k = writeAt_keeps [OF D(1) i(1,2) w] and al = writeAt_allocs [OF w]
    show ?thesis
    proof (cases "index \<noteq> of_int (at_receivedSize tr) \<or> at_expectedSize tr - at_receivedSize tr < int (length data)
        \<or> ?stop < at_receivedSize tr \<or> at_expectedSize tr < ?stop")
      case True
      then show ?thesis using False tr fl by (simp add: installChunk_def Let_def)
    next
      case fits: False
      show ?thesis
      proof (cases "err = None \<and> n = length data")
        case False
        then show ?thesis
          using broken_ok [OF b h tr k] al w fits tr op \<open>\<not> (ss_closed ?s \<or> _)\<close> by (simp add: installChunk_def Let_def)
      next
        case True
        let ?tr = "tr\<lparr>at_receivedSize := ?stop\<rparr>"
        let ?b = "app_emit [ChunkStored ?i data] (put_session a (?s\<lparr>as_transfer := Some ?tr\<rparr>) (b\<lparr>ab_temp := t\<rparr>))"
        obtain hd where hd: "al_file (al_at ?t ?i) = Some hd" using good by (auto simp: Let_def)
        have path: "fh_path hd = al_path (al_at ?t ?i)"
          using files_okD(2) [OF D(1) i(1,2)] hd by (simp add: own_path_def)
        have w': "writeAt (ae_short en) ?i data (nat (at_receivedSize tr)) ?t = ((length data, None), t)"
          using w True by simp
        have "file_content (al_path (al_at ?t ?i)) t = file_content (al_path (al_at ?t ?i)) ?t @ data"
          by (rule writeAt_append [OF w' hd path]) (use good in \<open>simp add: Let_def intact_def\<close>)
        then have "claim_good t (ab_log b @ [ChunkStored ?i data]) (Inl ?tr)"
          using good fits al by (auto simp: intact_def Let_def)
        then have "ledger_ok {} ((app_view b)(BySession a := None, BySession a := Some (Inl ?tr))) (ab_made b) t
            (ab_log b @ [ChunkStored ?i data])"
          by (intro ledger_pass [OF L x]) (use h k al i in simp_all)
        moreover have "app_view ?b = (app_view b)(BySession a := Some (Inl ?tr))"
          using a by (simp add: view_put)
        ultimately have "app_ledger ?b" using h by (simp add: app_ledger_def)
        moreover have "app_shape ?b"
          by (intro shape_emit shape_put shape_temp) (use a op app_okD(1) [OF b] in simp_all)
        ultimately have ok: "app_ok ?b" by (simp add: app_ok_def)
        have "app_ok (completeInstall en a ?tr ?b)" if "?stop = at_expectedSize tr"
          by (rule complete_ok [OF ok, where f = f and p = p]) (use h a op that in simp_all)
        moreover have "app_ok (app_go (Returned False) ?b)"
          by (rule go_ok [OF ok]) (use h in simp_all)
        ultimately show ?thesis
          using w' fits tr False by (simp add: installChunk_def Let_def)
      qed
    qed
  qed (use fl in \<open>auto simp: installChunk_def Let_def\<close>)
qed

lemma serve_ok:
  assumes b: "app_ok b" and h: "ab_handling b = Serving flag a payload"
    and fresh: "\<forall>x. ae_mkdir en = Some x \<longrightarrow> fresh_dir x (ab_temp b)"
  shows "app_ok (app_serve en flag a payload b)"
proof -
  have f: "app_ok (install_fails a m b)" for m
    unfolding install_fails_def by (rule fails_ok [OF b h])
  have "app_ok (writeInstallData en payload a b)"
    using f chunk_ok [OF b h] by (simp add: writeInstallData_def split: sum.split)
  moreover have "app_ok (startInstallInit payload a b)" "app_ok (startUninstall payload a b)"
    using fails_ok [OF b h] take_session_ok [OF b h]
    by (simp_all add: startInstallInit_def startUninstall_def split: sum.split)
  ultimately show ?thesis using prepare_ok [OF b h fresh] by (simp add: app_serve_def)
qed

section \<open>Giving an allocation back\<close>

lemma ledger_release:
  assumes L: "ledger_ok E v made t l" and c: "c = map_option claimed (v x)"
    and E: "\<And>y e. v y = Some e \<Longrightarrow> y \<noteq> x \<Longrightarrow> y \<in> E \<Longrightarrow> y \<in> E'"
    and m: "\<And>j. stored_bytes j m = []"
  shows "ledger_ok E' (v(x := None)) made (given_back c t) (l @ m)"
proof (cases "v x")
  case None
  then have v: "v(x := None) = v" by (intro fun_upd_idem)
  have "ledger_ok E' v made t (l @ m)"
  proof (rule ledger_weaken [OF L])
    fix y e
    assume h: "v y = Some e" "y \<in> E"
    then have "y \<noteq> x" using None by auto
    then show "y \<in> E'" by (rule E [OF h(1) _ h(2)])
  qed (rule m)
  then show ?thesis using None c v by (simp add: given_back_def)
next
  case (Some d)
  show ?thesis using ledger_log [OF ledger_close [OF L Some E] m] Some c by (simp add: given_back_def)
qed

lemma claimed_package [simp]: "map_option claimed (package_claim c command) = c"
  by (cases c) (simp_all add: package_claim_def)

lemma claimed_transfer [simp]:
  "map_option claimed (map_option Inl (as_transfer s)) = session_allocation s"
  by (cases "as_transfer s") (simp_all add: session_allocation_def)

lemma launch_ok:
  assumes b: "app_ok b" and h: "ab_handling b = Launching a mode command cleanup"
  shows "app_ok (app_launch a mode command cleanup b)"
proof -
  note L = app_okD(9) [OF b]
  have a: "a < length (ab_heap b)" using app_okD(6) [OF b] h by simp
  have x: "app_view b ByHandler = package_claim cleanup command" using h by simp
  show ?thesis
  proof (cases "ab_closed b")
    case True
    let ?b = "app_go (Failing a mode failAppCommand) (app_release cleanup b)"
    have "ledger_ok {BySession a} ((app_view b)(ByHandler := None)) (ab_made b) (given_back cleanup (ab_temp b))
        (ab_log b @ [])"
      by (rule ledger_release [OF L]) (use h in simp_all)
    then have "app_ledger ?b" by (simp add: app_ledger_def)
    moreover have "app_shape ?b" using app_okD(1) [OF b] a by (intro shapes) simp_all
    ultimately show ?thesis using True by (simp add: app_launch_def app_ok_def)
  next
    case False
    let ?n = "ab_launched b"
    let ?task = "\<lparr>ak_session = a, ak_mode = mode, ak_command = command, ak_cleanup = cleanup, ak_phase = AppOpening\<rparr>"
    let ?b = "app_go (Returned False) (b\<lparr>ab_launched := Suc ?n, ab_tasks := AList.update ?n ?task (ab_tasks b)\<rparr>)"
    have n: "app_view b (ByTask ?n) = None" using app_okD(8) [OF b, of ?n] by (auto split: option.split)
    have v: "app_view ?b = (app_view b)(ByHandler := None, ByTask ?n := package_claim cleanup command)"
      by (auto simp: view_task fun_upd_twist)
    have "ledger_ok {} (app_view ?b) (ab_made b) (ab_temp b) (ab_log b @ [])"
    proof (cases cleanup)
      case None
      then have "app_view ?b = app_view b" unfolding v using n x by (simp add: package_claim_def fun_upd_idem)
      then show ?thesis using L h by simp
    next
      case (Some i)
      then have x': "app_view b ByHandler = Some (Inr (i, command))" using x by (simp add: package_claim_def)
      note D = ledgerD [OF L]
      show ?thesis
        unfolding v using Some ledger_pass [OF L x', of "ByTask ?n" "Inr (i, command)" "ab_temp b" "[]" "{}"]
          n D(5) [OF x'] D(4) [OF x'] D(7) [OF D(3) [OF x']] keeps_others_refl [OF D(1)] h
        by (simp add: package_claim_def)
    qed
    then have "app_ledger ?b" by (simp add: app_ledger_def)
    moreover have "app_shape ?b"
      using app_okD(1) [OF b] a by (auto simp: app_shape_def less_Suc_eq)
    ultimately show ?thesis using False by (simp add: app_launch_def app_ok_def)
  qed
qed

lemma failure_ok:
  assumes b: "app_ok b" and h: "ab_handling b = Failing a mode message"
  shows "app_ok (protocolFailure ok a mode message b)"
proof -
  let ?s = "ab_heap b ! a"
  note L = app_okD(9) [OF b]
  have a: "a < length (ab_heap b)" using app_okD(6) [OF b] h by simp
  have hv: "(app_view b)(ByHandler := None) = app_view b" using h by (intro fun_upd_idem) simp
  show ?thesis
  proof (cases "ss_closed ?s")
    case True
    then have "app_view b (BySession a) = None" using app_okD(5) [OF b a] by simp
    then have "ledger_ok {} (app_view b) (ab_made b) (ab_temp b) (ab_log b @ sent ok f)" for f
      by (intro ledger_weaken [OF L]) (use h in auto)
    then have "app_ledger (app_write ok f b)" for f
      using hv by (simp add: app_ledger_def app_write_def)
    moreover have "app_shape (app_write ok f b)" for f
      unfolding app_write_def using app_okD(1) [OF b] by (intro shapes) simp_all
    ultimately show ?thesis using True by (simp add: protocolFailure_def Let_def app_ok_def)
  next
    case False
    let ?s' = "resetOutputLocked (?s\<lparr>ss_target := None, as_transfer := None, as_commandRunning := False\<rparr>)"
    let ?b = "app_release (session_allocation ?s) (app_emit (target_closing (ss_target ?s)) (put_session a ?s' b))"
    have "ledger_ok {} ((app_view b)(BySession a := None)) (ab_made b) (given_back (session_allocation ?s) (ab_temp b))
        (ab_log b @ (target_closing (ss_target ?s) @ sent ok f))" for f
      by (rule ledger_release [OF L]) (use h a in \<open>auto simp: claimed_transfer\<close>)
    moreover have "(app_view b)(BySession a := None, ByHandler := None) = (app_view b)(BySession a := None)"
      using h by (intro fun_upd_idem) simp
    ultimately have "app_ledger (app_write ok f ?b)" for f
      using a by (simp add: app_ledger_def app_write_def view_put)
    moreover have "app_shape (app_write ok f ?b)" for f
      unfolding app_write_def
      using app_okD(1) [OF b] a False by (intro shape_go shape_emit shape_release shape_put) simp_all
    ultimately show ?thesis using False by (simp add: protocolFailure_def Let_def app_ok_def)
  qed
qed

section \<open>Goroutines\<close>

lemma stop_release_ok:
  assumes b: "app_ok b" and k: "map_of (ab_tasks b) k = Some task"
    and a: "a < length (ab_heap b)" and m: "\<And>j. stored_bytes j m = []" "\<And>j. stored_bytes j m' = []"
    and s: "ss_channelID s = ss_channelID (ab_heap b ! a)" "ss_closed s = ss_closed (ab_heap b ! a)"
      "as_transfer s = as_transfer (ab_heap b ! a)"
  shows "app_ok (app_stop k (app_emit m' (app_release (ak_cleanup task) (app_emit m (put_session a s b)))))"
    (is "app_ok ?b")
proof (rule app_okI)
  show "app_shape ?b"
    by (intro shape_stop shape_emit shape_release shape_put) (use app_okD(1) [OF b] app_okD(5) [OF b a] a s in simp_all)
  have "ledger_ok (broken_in (ab_handling b)) ((app_view b)(ByTask k := None)) (ab_made b)
      (given_back (ak_cleanup task) (ab_temp b)) (ab_log b @ (m @ m'))"
    by (rule ledger_release [OF app_okD(9) [OF b]]) (use k m in simp_all)
  then show "app_ledger ?b"
    using view_put_same [OF a s(3)] by (simp add: app_ledger_def)
qed

lemma put_id: "put_session a (ab_heap b ! a) b = b"
  by (simp add: put_session_def)

lemma emit_nil: "app_emit [] b = b"
  by (simp add: app_emit_def)

lemma app_finish_ok:
  assumes b: "app_ok b" and k: "map_of (ab_tasks b) k = Some task"
  shows "app_ok (app_stop k (finishTarget ok (ak_session task) mode target (ak_cleanup task) e b))"
proof -
  note a = app_okD(7) [OF b k]
  show ?thesis
  proof (cases "ss_closed (ab_heap b ! ak_session task) \<or> target \<noteq> None \<and> ss_target (ab_heap b ! ak_session task) \<noteq> target")
    case True
    then show ?thesis
      using stop_release_ok [OF b k a, of "[]" "[]" "ab_heap b ! ak_session task"]
      unfolding finishTarget_def Let_def if_P [OF True] by (simp add: put_id emit_nil)
  next
    case False
    then show ?thesis
      using stop_release_ok [OF b k a, of "target_closing target" _
          "resetOutputLocked ((ab_heap b ! ak_session task)\<lparr>ss_target := None, as_commandRunning := False\<rparr>)"]
      unfolding finishTarget_def Let_def if_not_P [OF False] by (simp split: prod.split)
  qed
qed

lemma open_ok:
  assumes b: "app_ok b" and k: "map_of (ab_tasks b) k = Some task"
  shows "app_ok (runTargetCommand_open ok result k task b)"
proof -
  let ?a = "ak_session task"
  note a = app_okD(7) [OF b k]
  show ?thesis
  proof (cases "\<not> ab_canOpen b \<or> (\<exists>e. result = AppOpenFailed e)")
    case True
    then show ?thesis using app_finish_ok [OF b k] by (auto simp: runTargetCommand_open_def Let_def)
  next
    case False
    then obtain target where r: "result = AppOpened target" by (cases result) auto
    let ?b = "app_emit [TargetOpened target (ak_command task)] b"
    have eb: "app_ok ?b" by (rule app_emit_ok [OF b]) simp
    show ?thesis
    proof (cases "ss_closed (ab_heap b ! ?a) \<or> \<not> as_commandRunning (ab_heap b ! ?a)")
      case True
      have "app_ok (app_stop k (app_emit [] (app_release (ak_cleanup task) (app_emit [TargetClosed target]
          (put_session ?a (ab_heap ?b ! ?a) ?b)))))"
        by (rule stop_release_ok [OF eb]) (use k a in simp_all)
      then have "app_ok (app_stop k (app_release (ak_cleanup task) (app_emit [TargetClosed target] ?b)))"
        by (simp only: put_id emit_nil)
      then show ?thesis using False r True by (simp add: runTargetCommand_open_def Let_def app_attachTarget_def)
    next
      case live: False
      let ?s = "(ab_heap b ! ?a)\<lparr>ss_target := Some target\<rparr>"
      let ?b' = "?b\<lparr>ab_tasks := AList.update k (task\<lparr>ak_phase := AppReading target\<rparr>) (ab_tasks ?b)\<rparr>"
      have "(app_view b)(ByTask k := package_claim (ak_cleanup task) (ak_command task)) = app_view b"
        by (rule fun_upd_idem) (simp add: k)
      then have v: "app_view ?b' = app_view ?b" by (simp only: view_task view_emit) simp
      have "app_ledger ?b'"
        unfolding app_ledger_def v using app_okD(2) [OF eb] unfolding app_ledger_def by simp
      moreover have "app_shape ?b'"
        by (rule shape_cong [OF app_okD(1) [OF eb]]) (use k shape_handling [OF app_okD(1) [OF b]] in \<open>auto split: if_splits\<close>)
      ultimately have "app_ok ?b'" by (rule app_okI [rotated])
      then have "app_ok (put_session ?a ?s ?b')"
        by (rule put_same_ok) (use a in simp_all)
      then show ?thesis using False r live by (simp add: runTargetCommand_open_def Let_def app_attachTarget_def)
    qed
  qed
qed

lemma record_sel [simp]:
  "ss_channelID (app_recordOutput p s) = ss_channelID s" "ss_closed (app_recordOutput p s) = ss_closed s"
  "as_transfer (app_recordOutput p s) = as_transfer s" "ss_target (app_recordOutput p s) = ss_target s"
  by (simp_all add: app_recordOutput_def Let_def)

lemma read_ok:
  assumes b: "app_ok b" and k: "map_of (ab_tasks b) k = Some task"
  shows "app_ok (runTargetCommand_read ok payload readErr k task target b)"
proof -
  let ?b = "put_session (ak_session task) (app_recordOutput payload (ab_heap b ! ak_session task)) b"
  have ok: "app_ok ?b" by (rule put_same_ok [OF b app_okD(7) [OF b k]]) simp_all
  have "app_ok (app_stop k (finishTarget ok (ak_session task) (ak_mode task) (Some target) (ak_cleanup task) e ?b))" for e
    by (rule app_finish_ok [OF ok]) (simp add: k)
  with ok show ?thesis
    by (simp add: runTargetCommand_read_def Let_def split: option.split app_end.split)
qed

section \<open>Closing\<close>

lemma session_close_sel:
  "ab_sessions (app_session_close a b) = ab_sessions b" "ab_closed (app_session_close a b) = ab_closed b"
  "ab_handling (app_session_close a b) = ab_handling b" "ab_tasks (app_session_close a b) = ab_tasks b"
  "ab_launched (app_session_close a b) = ab_launched b" "ab_made (app_session_close a b) = ab_made b"
  "length (ab_heap (app_session_close a b)) = length (ab_heap b)"
  by (simp_all add: app_session_close_def Let_def)

lemma session_close_closed:
  "a < length (ab_heap b) \<Longrightarrow> ss_closed (ab_heap (app_session_close a b) ! a)"
  "i < length (ab_heap b) \<Longrightarrow> ss_closed (ab_heap b ! i) \<Longrightarrow> ss_closed (ab_heap (app_session_close a b) ! i)"
  "a < length (ab_heap b) \<Longrightarrow>
     ss_channelID (ab_heap (app_session_close a b) ! a) = ss_channelID (ab_heap b ! a)"
  by (cases "a = i"; simp add: app_session_close_def Let_def)+

lemma session_close_ok:
  assumes b: "app_ok b" and a: "a < length (ab_heap b)"
  shows "app_ok (app_session_close a b)"
proof (cases "ss_closed (ab_heap b ! a)")
  case False
  let ?s = "ab_heap b ! a"
  let ?s' = "?s\<lparr>ss_closed := True, ss_target := None, as_transfer := None, as_commandRunning := False\<rparr>"
  let ?b = "app_release (session_allocation ?s) (app_emit (target_closing (ss_target ?s)) (put_session a ?s' b))"
  have "ledger_ok (broken_in (ab_handling b)) ((app_view b)(BySession a := None)) (ab_made b)
      (given_back (session_allocation ?s) (ab_temp b)) (ab_log b @ target_closing (ss_target ?s))"
    by (rule ledger_release [OF app_okD(9) [OF b]]) (use a in \<open>simp_all add: claimed_transfer\<close>)
  then have "app_ledger ?b" using a by (simp add: app_ledger_def view_put)
  moreover have "app_shape ?b"
    using app_okD(1) [OF b] a by (intro shape_release shape_emit shape_put) simp_all
  ultimately show ?thesis using False by (simp add: app_session_close_def Let_def app_ok_def)
qed (use b in \<open>simp add: app_session_close_def\<close>)

text \<open>Closing a session does not look at the table.\<close>

lemma session_close_sessions:
  "app_session_close a (b\<lparr>ab_sessions := m\<rparr>) = (app_session_close a b)\<lparr>ab_sessions := m\<rparr>"
  "app_session_close a (b\<lparr>ab_closed := c\<rparr>) = (app_session_close a b)\<lparr>ab_closed := c\<rparr>"
  by (simp_all add: app_session_close_def Let_def app_release_def app_emit_def put_session_def split: option.split)

lemma close_channel_app_ok:
  assumes b: "app_ok b"
  shows "app_ok (app_CloseChannel c b)"
proof (cases "map_of (ab_sessions b) c")
  case (Some a)
  note t = table_okD [OF app_okD(3) [OF b] Some]
  let ?b = "app_session_close a b"
  have ok: "app_ok ?b" by (rule session_close_ok [OF b t(1)])
  have "table_ok (AList.delete c (ab_sessions ?b)) ((ab_heap ?b)[a := ab_heap ?b ! a])"
    by (rule table_ok_remove [OF app_okD(3) [OF ok]]) (use Some t in \<open>simp_all add: session_close_sel session_close_closed\<close>)
  then have "app_shape (?b\<lparr>ab_sessions := AList.delete c (ab_sessions b)\<rparr>)"
    using app_okD(1) [OF ok] by (auto simp: app_shape_def session_close_sel AList.delete_eq)
  moreover have "app_ledger (?b\<lparr>ab_sessions := AList.delete c (ab_sessions b)\<rparr>)"
    using app_okD(2) [OF ok] by (simp add: app_ledger_def)
  ultimately show ?thesis using Some by (simp add: app_CloseChannel_def session_close_sessions app_ok_def)
qed (use b in \<open>simp add: app_CloseChannel_def\<close>)

lemma fold_close_ok:
  "app_ok b \<Longrightarrow> list_all (\<lambda>a. a < length (ab_heap b)) as \<Longrightarrow> app_ok (fold app_session_close as b)"
  by (induction as arbitrary: b) (simp_all add: session_close_ok session_close_sel)

lemma fold_close_sel:
  "ab_handling (fold app_session_close as b) = ab_handling b" "ab_tasks (fold app_session_close as b) = ab_tasks b"
  "length (ab_heap (fold app_session_close as b)) = length (ab_heap b)"
  "ab_made (fold app_session_close as b) = ab_made b"
  by (induction as arbitrary: b) (simp_all add: session_close_sel)

lemma fold_close_closed:
  "i < length (ab_heap b) \<Longrightarrow> i \<in> set as \<or> ss_closed (ab_heap b ! i) \<Longrightarrow>
     ss_closed (ab_heap (fold app_session_close as b) ! i)"
proof (induction as arbitrary: b)
  case (Cons a as)
  have "i \<in> set as \<or> ss_closed (ab_heap (app_session_close a b) ! i)"
    using Cons.prems session_close_closed by auto
  then show ?case using Cons.IH [of "app_session_close a b"] Cons.prems(1) by (simp add: session_close_sel)
qed simp

lemma fold_close_sessions:
  "fold app_session_close as (b\<lparr>ab_closed := c, ab_sessions := m\<rparr>)
     = (fold app_session_close as b)\<lparr>ab_closed := c, ab_sessions := m\<rparr>"
  by (induction as arbitrary: b) (simp_all add: session_close_sessions)

lemma app_Close_eq:
  "\<not> ab_closed b \<Longrightarrow> app_Close b
     = (fold app_session_close (map snd (ab_sessions b)) b)\<lparr>ab_closed := True, ab_sessions := []\<rparr>"
  by (simp add: app_Close_def fold_close_sessions)

lemma close_all_closed:
  assumes b: "app_ok b" and i: "i < length (ab_heap b)"
  shows "ss_closed (ab_heap (fold app_session_close (map snd (ab_sessions b)) b) ! i)"
  by (rule fold_close_closed [OF i table_listed [OF app_okD(3) [OF b] i]])

lemma close_app_ok:
  assumes b: "app_ok b"
  shows "app_ok (app_Close b)"
proof (cases "ab_closed b")
  case False
  let ?as = "map snd (ab_sessions b)"
  let ?b = "fold app_session_close ?as b"
  have "list_all (\<lambda>a. a < length (ab_heap b)) ?as"
    using app_okD(3) [OF b] by (simp add: table_ok_def list_all_iff)
  then have ok: "app_ok ?b" by (rule fold_close_ok [OF b])
  have "\<forall>s \<in> set (ab_heap ?b). ss_closed s"
    using close_all_closed [OF b] by (auto simp: in_set_conv_nth fold_close_sel)
  then have "table_ok [] (ab_heap ?b)" by (rule table_ok_nil)
  then have "app_shape (?b\<lparr>ab_closed := True, ab_sessions := []\<rparr>)"
    using app_okD(1) [OF ok] by (simp add: app_shape_def)
  moreover have "app_ledger (?b\<lparr>ab_closed := True, ab_sessions := []\<rparr>)"
    using app_okD(2) [OF ok] by (simp add: app_ledger_def)
  ultimately show ?thesis using False by (simp add: app_Close_eq app_ok_def)
qed (use b in \<open>simp add: app_Close_def\<close>)

section \<open>Every step\<close>

lemma app_own_step_ok: "app_own_step b b' \<Longrightarrow> app_ok b \<Longrightarrow> app_ok b'"
proof (cases rule: app_own_step.cases, assumption)
  fix k task target
  assume "b' = app_deadline target b" "app_ok b"
  then show "app_ok b'" unfolding app_deadline_def by (simp add: app_emit_ok)
qed (simp_all only: handle_app_ok serve_ok launch_ok failure_ok close_channel_app_ok close_app_ok open_ok read_ok)

lemma app_step_ok: "app_step b b' \<Longrightarrow> app_ok b \<Longrightarrow> app_ok b'"
proof (induction rule: app_step.induct)
  case (others_step b t)
  show ?case
    using ledger_others [OF app_okD(9) [OF others_step(2)] others_step(1)]
      shape_temp(1) [OF app_okD(1) [OF others_step(2)]]
    by (simp add: app_ok_def app_ledger_def)
qed (rule app_own_step_ok)

lemma app_new_ok: "files_ok t \<Longrightarrow> app_ok (NewAppBridge canOpen hasStore mx t)"
proof -
  assume "files_ok t"
  moreover have "app_view (NewAppBridge canOpen hasStore mx t) = (\<lambda>_. None)"
    by (rule app_view_eqI) (simp_all add: NewAppBridge_def)
  ultimately show ?thesis
    by (simp add: app_ok_def app_shape_def app_ledger_def ledger_ok_def table_ok_def NewAppBridge_def)
qed

abbreviation app_steps :: "AppBridge \<Rightarrow> AppBridge \<Rightarrow> bool" where
  "app_steps \<equiv> app_step\<^sup>*\<^sup>*"

lemma app_reachable_ok:
  assumes "app_steps (NewAppBridge canOpen hasStore mx t) b" "files_ok t"
  shows "app_ok b"
  using assms(1)
proof (induction rule: rtranclp_induct)
  case base
  show ?case by (rule app_new_ok [OF assms(2)])
next
  case (step y z)
  from step(2,3) show ?case by (rule app_step_ok)
qed

end
