(* ===== verification/App_Properties.thy ===== *)
theory App_Properties
  imports App_Steps
begin

text \<open>What the app bridge guarantees, over every run of its steps, and a run that evaluates it.\<close>

section \<open>The file that is installed\<close>

text \<open>C11: What is installed is what was accepted. As long as the goroutine of an install command for a
  received package runs, the temporary file holds exactly the bytes of the data frames that were
  accepted for it, in their order, as many as the client announced, and the command it sends to
  the main HDC server ends with the path of that file: neither another transfer nor another user
  of the store can touch it.\<close>

theorem app_installs_exact_bytes:
  assumes "app_steps (NewAppBridge canOpen hasStore mx t) b" and "files_ok t"
    and "map_of (ab_tasks b) k = Some task" and "ak_cleanup task = Some i"
  shows "file_content (currentPath i (ab_temp b)) (ab_temp b) = stored_bytes i (ab_log b)
    \<and> al_size (al_at (ab_temp b) i) = int (length (stored_bytes i (ab_log b)))
    \<and> (\<exists>options. ak_command task = buildAppInstallCommand options (currentPath i (ab_temp b)))"
proof -
  note L = app_okD(9) [OF app_reachable_ok [OF assms(1,2)]]
  have "app_view b (ByTask k) = Some (Inr (i, ak_command task))"
    using assms(3,4) by (simp add: package_claim_def)
  from ledgerD(5) [OF L this] show ?thesis
    by (cases "ab_handling b") (simp_all add: intact_def currentPath_def)
qed

section \<open>Closing\<close>

text \<open>C37: Nothing of the app bridge is left. Once \<open>Close\<close> has run, the handling of the last frame has
  returned and every goroutine has ended, there is no session, and every temporary file the
  bridge ever allocated, whatever failed on the way, is deleted and its quota given back.\<close>

theorem app_close_leaves_nothing:
  assumes "app_steps (NewAppBridge canOpen hasStore mx t) b" and "files_ok t"
    and "ab_closed b" and "ab_handling b = Returned e" and "ab_tasks b = []"
  shows "ab_sessions b = []
    \<and> (\<forall>i \<in> set (ab_made b). al_closeOnce (al_at (ab_temp b) i) \<and> al_released (al_at (ab_temp b) i))"
proof -
  note ok = app_reachable_ok [OF assms(1,2)]
  note L = app_okD(9) [OF ok]
  have s: "ab_sessions b = []" by (rule app_okD(4) [OF ok assms(3)])
  have "as_transfer (ab_heap b ! a) = None" if "a < length (ab_heap b)" for a
    using app_okD(3,5) [OF ok] that s by (auto simp: table_ok_def)
  then have "app_view b x = None" for x
    using assms(4,5) by (cases x) simp_all
  then have "al_closeOnce (al_at (ab_temp b) i)" if "i \<in> set (ab_made b)" for i
    using ledgerD(8) [OF L that] by auto
  then show ?thesis using s ledgerD(7) [OF L] by simp
qed

section \<open>The commands that reach the main HDC server\<close>

text \<open>A run is a list of states, each a step after the one before. What was received in it, and the
  directories of the temporary files the bridge made.\<close>

definition received :: "AppBridge list \<Rightarrow> (Command \<times> bytes) set" where
  "received bs = {(flag, payload). \<exists>b \<in> set bs. \<exists>a. ab_handling b = Serving flag a payload}"

definition temp_dirs :: "AppBridge list \<Rightarrow> string set" where
  "temp_dirs bs = {al_directory (al_at (ab_temp b) i) | b i. b \<in> set bs \<and> i \<in> set (ab_made b)}"

definition approved :: "AppBridge list \<Rightarrow> int \<Rightarrow> string \<Rightarrow> bool" where
  "approved bs mx command \<longleftrightarrow>
     (\<exists>payload. (CommandAppInit, payload) \<in> received bs \<and> install_command payload = Inr command)
     \<or> (\<exists>payload. (CommandAppUninstall, payload) \<in> received bs \<and> uninstall_command payload = Inr command)
     \<or> (\<exists>payload config dir. (CommandAppCheck, payload) \<in> received bs \<and> dir \<in> temp_dirs bs
          \<and> DecodeTransferConfig payload = Inr config \<and> validateInstallConfig mx config = None
          \<and> command = buildAppInstallCommand (normalizeAppOptionText (tc_Options config))
              (filepath_join dir (tc_OptionalName config)))"

definition options_checked :: "AppBridge list \<Rightarrow> int \<Rightarrow> appSession \<Rightarrow> bool" where
  "options_checked bs mx s \<longleftrightarrow> (\<forall>tr. as_transfer s = Some tr \<longrightarrow>
     (\<exists>payload config. (CommandAppCheck, payload) \<in> received bs
        \<and> DecodeTransferConfig payload = Inr config \<and> validateInstallConfig mx config = None
        \<and> at_options tr = normalizeAppOptionText (tc_Options config)
        \<and> at_optionalName tr = tc_OptionalName config))"

fun handling_approved :: "AppBridge list \<Rightarrow> int \<Rightarrow> app_handling \<Rightarrow> bool" where
  "handling_approved bs mx (Launching a mode command cleanup) = approved bs mx command"
| "handling_approved bs mx (Serving flag a payload) =
     (flag \<in> {CommandAppInit, CommandAppCheck, CommandAppData, CommandAppUninstall})"
| "handling_approved bs mx _ = True"

definition commands_ok :: "AppBridge list \<Rightarrow> int \<Rightarrow> AppBridge \<Rightarrow> bool" where
  "commands_ok bs mx b \<longleftrightarrow> ab_maxAppBytes b = mx \<and> (\<forall>s \<in> set (ab_heap b). options_checked bs mx s)
     \<and> handling_approved bs mx (ab_handling b)
     \<and> (\<forall>task \<in> snd ` set (ab_tasks b). approved bs mx (ak_command task))
     \<and> (\<forall>c \<in> set (opened_commands (ab_log b)). approved bs mx c)"

lemma commands_emit: "commands_ok bs mx b \<Longrightarrow> opened_commands l = [] \<Longrightarrow> commands_ok bs mx (app_emit l b)"
  by (simp add: commands_ok_def)

lemma commands_go: "commands_ok bs mx b \<Longrightarrow> handling_approved bs mx h \<Longrightarrow> commands_ok bs mx (app_go h b)"
  by (simp add: commands_ok_def)

lemma commands_write: "commands_ok bs mx b \<Longrightarrow> commands_ok bs mx (app_write ok frame b)"
  by (simp add: app_write_def commands_go commands_emit)

lemma commands_reject: "commands_ok bs mx b \<Longrightarrow> commands_ok bs mx (app_reject ok c m b)"
  by (simp add: app_reject_def commands_write)

lemma commands_put: "commands_ok bs mx b \<Longrightarrow> options_checked bs mx s \<Longrightarrow> commands_ok bs mx (put_session a s b)"
  using set_update_subset_insert [of "ab_heap b" a s] by (auto simp: commands_ok_def)

lemma commands_release: "commands_ok bs mx b \<Longrightarrow> commands_ok bs mx (app_release c b)"
  by (simp add: commands_ok_def)

lemma commands_temp:
  "commands_ok bs mx b \<Longrightarrow> commands_ok bs mx (b\<lparr>ab_temp := t\<rparr>)"
  "commands_ok bs mx b \<Longrightarrow> commands_ok bs mx (b\<lparr>ab_temp := t, ab_made := m\<rparr>)"
  "commands_ok bs mx b \<Longrightarrow> commands_ok bs mx (b\<lparr>ab_sessions := ss\<rparr>)"
  "commands_ok bs mx b \<Longrightarrow> commands_ok bs mx (b\<lparr>ab_closed := cl\<rparr>)"
  by (simp_all add: commands_ok_def)

lemma commands_stop: "commands_ok bs mx b \<Longrightarrow> commands_ok bs mx (app_stop k b)"
proof -
  assume b: "commands_ok bs mx b"
  then have "\<forall>x \<in> snd ` set (AList.delete k (ab_tasks b)). approved bs mx (ak_command x)"
    using set_delete [of k "ab_tasks b"] unfolding commands_ok_def by blast
  then show ?thesis using b by (simp add: commands_ok_def)
qed

lemma set_update: "snd ` set (AList.update k v m) \<subseteq> insert v (snd ` set m)"
  by (induction m) auto

lemma commands_task:
  assumes "commands_ok bs mx b" "approved bs mx (ak_command task)"
  shows "commands_ok bs mx (b\<lparr>ab_tasks := AList.update k task (ab_tasks b)\<rparr>)"
    "commands_ok bs mx (b\<lparr>ab_launched := n, ab_tasks := AList.update k task (ab_tasks b)\<rparr>)"
proof -
  have "\<forall>x \<in> snd ` set (AList.update k task (ab_tasks b)). approved bs mx (ak_command x)"
    using assms set_update [of k task "ab_tasks b"] unfolding commands_ok_def by blast
  then show "commands_ok bs mx (b\<lparr>ab_tasks := AList.update k task (ab_tasks b)\<rparr>)"
    "commands_ok bs mx (b\<lparr>ab_launched := n, ab_tasks := AList.update k task (ab_tasks b)\<rparr>)"
    using assms(1) by (simp_all add: commands_ok_def)
qed

lemma commands_fails: "commands_ok bs mx b \<Longrightarrow> commands_ok bs mx (install_fails a m b)"
  by (simp add: install_fails_def commands_go)

lemmas commands_intros = commands_go commands_write commands_reject commands_put commands_release
  commands_temp commands_stop commands_task commands_fails

lemma checked_none: "as_transfer s = None \<Longrightarrow> options_checked bs mx s"
  by (simp add: options_checked_def)

lemma checked_same: "as_transfer s = as_transfer s' \<Longrightarrow> options_checked bs mx s' \<Longrightarrow> options_checked bs mx s"
  by (simp add: options_checked_def)

lemma checked_at: "commands_ok bs mx b \<Longrightarrow> a < length (ab_heap b) \<Longrightarrow> options_checked bs mx (ab_heap b ! a)"
  by (simp add: commands_ok_def)

lemma approved_task: "commands_ok bs mx b \<Longrightarrow> map_of (ab_tasks b) k = Some task \<Longrightarrow> approved bs mx (ak_command task)"
  by (auto simp: commands_ok_def dest!: map_of_SomeD)

lemma commands_new: "app_getOrCreate c b = (r, b') \<Longrightarrow> commands_ok bs mx b \<Longrightarrow> commands_ok bs mx b'"
  by (auto simp: app_getOrCreate_def Let_def commands_ok_def options_checked_def split: if_splits option.splits)

lemma commands_handle: "commands_ok bs mx b \<Longrightarrow> commands_ok bs mx (app_Handle ok frame b)"
proof -
  assume b: "commands_ok bs mx b"
  obtain r b' where g: "app_getOrCreate (ChannelID frame) b = (r, b')" by fastforce
  from commands_new [OF g b] b g show ?thesis
    by (simp add: app_Handle_def Let_def commands_go commands_reject split: option.split)
qed

lemma commands_take:
  "commands_ok bs mx b \<Longrightarrow> approved bs mx command \<Longrightarrow> commands_ok bs mx (take_session mode command a b)"
  by (simp add: take_session_def Let_def ensureAvailableLocked_def commands_go commands_put checked_none)

lemma commands_complete:
  assumes b: "commands_ok bs mx b" and s: "options_checked bs mx s" "as_transfer s = Some tr"
    and i: "at_allocation tr < length (tm_allocs (ab_temp b))"
    and dir: "al_directory (al_at (ab_temp b) (at_allocation tr)) \<in> temp_dirs bs"
  shows "commands_ok bs mx (completeInstall en a tr b)"
proof -
  let ?i = "at_allocation tr"
  obtain e1 t1 where seal: "seal (ae_syncOK en) (ae_closeOK en) ?i (ab_temp b) = (e1, t1)" by fastforce
  obtain e2 t2 where ren: "renameToName (ae_renameOK en) ?i (at_optionalName tr) t1 = (e2, t2)" by fastforce
  show ?thesis
  proof (cases "e1 = None \<and> e2 = None")
    case True
    have "al_directory (al_at t1 ?i) \<in> temp_dirs bs" "?i < length (tm_allocs t1)"
      using seal_effect [of "ae_syncOK en" "ae_closeOK en" ?i "ab_temp b" t1] seal True i dir by simp_all
    then have "approved bs mx (buildAppInstallCommand (at_options tr) (currentPath ?i t2))"
      using rename_effect(2) [of "ae_renameOK en" ?i "at_optionalName tr" t1 t2] ren True s
      unfolding options_checked_def approved_def currentPath_def by (simp, metis)
    then show ?thesis
      using b seal ren True by (simp add: completeInstall_def commands_intros checked_none)
  next
    case False
    then show ?thesis
      using b seal ren by (auto simp: completeInstall_def commands_intros split: option.split)
  qed
qed

lemma commands_chunk:
  assumes b: "commands_ok bs mx b" and a: "a < length (ab_heap b)" and ok: "app_ok b"
    and run: "b \<in> set bs" and h: "broken_in (ab_handling b) = {}"
  shows "commands_ok bs mx (installChunk en index data a b)"
proof (cases "as_transfer (ab_heap b ! a)")
  case (Some tr)
  let ?i = "at_allocation tr"
  let ?tr = "tr\<lparr>at_receivedSize := at_receivedSize tr + int (length data)\<rparr>"
  let ?s = "(ab_heap b ! a)\<lparr>as_transfer := Some ?tr\<rparr>"
  note L = app_okD(9) [OF ok]
  have v: "app_view b (BySession a) = Some (Inl tr)" using a Some by simp
  have i: "?i < length (tm_allocs (ab_temp b))" using ledgerD(10) [OF L v] by simp
  have dir: "al_directory (al_at (ab_temp b) ?i) \<in> temp_dirs bs"
    using ledgerD(3) [OF L v] run by (auto simp: temp_dirs_def)
  have s: "options_checked bs mx ?s"
    using checked_at [OF b a] Some by (simp add: options_checked_def)
  obtain written err t where w: "writeAt (ae_short en) ?i data (nat (at_receivedSize tr)) (ab_temp b)
      = ((written, err), t)"
    by (metis prod.collapse)
  let ?b = "app_emit [ChunkStored ?i data] (put_session a ?s (b\<lparr>ab_temp := t\<rparr>))"
  have b': "commands_ok bs mx ?b"
    using b s by (intro commands_emit commands_put commands_temp) simp_all
  moreover have "commands_ok bs mx (completeInstall en a ?tr ?b)"
    by (rule commands_complete [OF b' s]) (use i dir writeAt_allocs [OF w] in simp_all)
  ultimately show ?thesis
    using Some b w
    by (cases "at_receivedSize tr + int (length data) = at_expectedSize tr")
      (simp_all add: installChunk_def Let_def commands_fails commands_go commands_temp)
qed (use b in \<open>simp add: installChunk_def Let_def commands_fails\<close>)

lemma commands_prepare:
  assumes b: "commands_ok bs mx b" and rec: "(CommandAppCheck, payload) \<in> received bs"
  shows "commands_ok bs mx (prepareInstall en payload a b)"
proof (cases "DecodeTransferConfig payload")
  case (Inr config)
  show ?thesis
  proof (cases "validateInstallConfig (ab_maxAppBytes b) config")
    case None
    then have "options_checked bs mx (s\<lparr>as_transfer := Some \<lparr>at_allocation = i, at_expectedSize = n,
        at_optionalName = tc_OptionalName config, at_options = normalizeAppOptionText (tc_Options config),
        at_receivedSize = 0\<rparr>\<rparr>)" for s i n
      using b rec Inr by (auto simp: options_checked_def commands_ok_def)
    then show ?thesis
      using None Inr b by (simp add: prepareInstall_def Let_def commands_intros split: prod.split sum.split)
  qed (use Inr b in \<open>simp add: prepareInstall_def commands_fails\<close>)
qed (use b in \<open>simp add: prepareInstall_def commands_fails\<close>)

text \<open>The bridge serves four commands, and only these are handed to a session.\<close>

lemma commands_serve:
  assumes b: "commands_ok bs mx b" and ok: "app_ok b" and run: "b \<in> set bs"
    and h: "ab_handling b = Serving flag a payload"
  shows "commands_ok bs mx (app_serve en flag a payload b)"
proof -
  have a: "a < length (ab_heap b)" using app_okD(6) [OF ok] h by simp
  have flag: "flag \<in> {CommandAppInit, CommandAppCheck, CommandAppData, CommandAppUninstall}"
    using b h by (simp add: commands_ok_def)
  have rec: "(flag, payload) \<in> received bs" using run h by (auto simp: received_def)
  have "commands_ok bs mx (writeInstallData en payload a b)"
    using b commands_chunk [OF b a ok run] h by (simp add: writeInstallData_def commands_fails split: sum.split)
  moreover have "commands_ok bs mx (startInstallInit payload a b)" if "flag = CommandAppInit"
    using b rec that by (auto simp: startInstallInit_def commands_go intro!: commands_take split: sum.split)
      (auto simp: approved_def)
  moreover have "commands_ok bs mx (startUninstall payload a b)" if "flag = CommandAppUninstall"
    using b rec that by (auto simp: startUninstall_def commands_go intro!: commands_take split: sum.split)
      (auto simp: approved_def)
  ultimately show ?thesis
    using commands_prepare [OF b, of payload] rec flag by (auto simp: app_serve_def)
qed

lemma closing_commands [simp]: "opened_commands (target_closing t) = []"
  by (simp add: target_closing_def split: option.split)

lemma commands_failure: "commands_ok bs mx b \<Longrightarrow> commands_ok bs mx (protocolFailure ok a mode m b)"
  by (simp add: protocolFailure_def Let_def commands_intros commands_emit checked_none)

lemma commands_launch: "commands_ok bs mx b \<Longrightarrow> ab_handling b = Launching a mode c cl \<Longrightarrow> commands_ok bs mx (app_launch a mode c cl b)"
  by (auto simp: app_launch_def commands_intros commands_ok_def [of bs mx b] intro!: commands_go commands_task commands_release)

lemma commands_finish:
  assumes "commands_ok bs mx b" "a < length (ab_heap b)"
  shows "commands_ok bs mx (finishTarget ok a mode target c e b)"
  using assms checked_same [OF _ checked_at [OF assms]]
  by (simp add: finishTarget_def Let_def commands_release commands_emit commands_put split: prod.split)

lemma commands_open:
  assumes b: "commands_ok bs mx b" and a: "ak_session task < length (ab_heap b)" and k: "map_of (ab_tasks b) k = Some task"
  shows "commands_ok bs mx (runTargetCommand_open ok result k task b)"
proof -
  have c: "approved bs mx (ak_command task)" by (rule approved_task [OF b k])
  have e: "commands_ok bs mx (app_emit [TargetOpened target (ak_command task)] b)" for target
    using b c by (simp add: commands_ok_def)
  have "commands_ok bs mx (app_emit [TargetOpened target (ak_command task)] b
      \<lparr>ab_tasks := AList.update k (task\<lparr>ak_phase := p\<rparr>) (ab_tasks b)\<rparr>)" for target p
    using commands_task(1) [OF e, of "task\<lparr>ak_phase := p\<rparr>"] c by simp
  then show ?thesis
    using commands_stop commands_finish [OF b a] e checked_same [OF _ checked_at [OF b a]]
    by (auto simp: runTargetCommand_open_def Let_def app_attachTarget_def commands_emit commands_release
        intro!: commands_put split: app_opened.split)
qed

lemma commands_read:
  assumes b: "commands_ok bs mx b" and a: "ak_session task < length (ab_heap b)"
  shows "commands_ok bs mx (runTargetCommand_read ok payload e k task target b)"
proof -
  let ?b = "put_session (ak_session task) (app_recordOutput payload (ab_heap b ! ak_session task)) b"
  have "commands_ok bs mx ?b"
    using b checked_same [OF _ checked_at [OF b a]] by (intro commands_put) simp_all
  then show ?thesis
    using a commands_stop [OF commands_finish [of bs mx ?b]]
    by (simp add: runTargetCommand_read_def Let_def split: option.split app_end.split)
qed

lemma commands_session_close: "commands_ok bs mx b \<Longrightarrow> commands_ok bs mx (app_session_close a b)"
  by (simp add: app_session_close_def Let_def commands_release commands_emit commands_put checked_none)

lemma commands_closes:
  assumes b: "commands_ok bs mx b"
  shows "commands_ok bs mx (app_CloseChannel c b)" "commands_ok bs mx (app_Close b)"
proof -
  show "commands_ok bs mx (app_CloseChannel c b)"
    using b by (simp add: app_CloseChannel_def commands_session_close commands_temp split: option.split)
  have "commands_ok bs mx (fold app_session_close as b')" if "commands_ok bs mx b'" for as b'
    using that by (induction as arbitrary: b') (simp_all add: commands_session_close)
  then show "commands_ok bs mx (app_Close b)" using b by (simp add: app_Close_def commands_temp)
qed

lemma commands_step:
  "app_step b b' \<Longrightarrow> app_ok b \<Longrightarrow> b \<in> set bs \<Longrightarrow> commands_ok bs mx b \<Longrightarrow> commands_ok bs mx b'"
proof (induction rule: app_step.induct)
  case (own_step b b')
  note ok = app_okD(6,7) [OF own_step(2)] and c = own_step(4)
  show ?case
    using own_step(1)
  proof cases
    case (serves flag a payload en)
    then show ?thesis using commands_serve [OF c own_step(2,3)] by simp
  next
    case (opens k task ok' result)
    then show ?thesis using commands_open [OF c ok(2)] by simp
  next
    case (reads k task target ok' payload readErr)
    then show ?thesis using commands_read [OF c ok(2)] by simp
  next
    case (times_out k task target)
    then show ?thesis using commands_emit [OF c] by (simp add: app_deadline_def)
  qed (use c in \<open>simp_all add: commands_handle commands_launch commands_failure commands_closes\<close>)
qed (rule commands_temp)

lemma run_commands:
  assumes run: "successively app_step bs" and start: "hd bs = NewAppBridge canOpen hasStore mx t"
    and t: "files_ok t" and i: "i < length bs"
  shows "app_steps (hd bs) (bs ! i) \<and> commands_ok bs mx (bs ! i)"
  using i
proof (induction i)
  case 0
  then have "bs ! 0 = hd bs" by (cases bs) simp_all
  then show ?case by (simp add: start) (simp add: commands_ok_def NewAppBridge_def)
next
  case (Suc i)
  then have step: "app_step (bs ! i) (bs ! Suc i)"
    using run by (simp add: successively_conv_nth)
  have IH: "app_steps (hd bs) (bs ! i)" "commands_ok bs mx (bs ! i)" using Suc by simp_all
  have "app_ok (bs ! i)" using app_reachable_ok [OF _ t] IH(1) start by metis
  from commands_step [OF step this _ IH(2)] step IH(1) Suc.prems show ?case by simp
qed

text \<open>C38: Only what was received and checked reaches the main HDC server. In every run, whatever
  clients, targets and other goroutines do, each command the app bridge opens comes from a payload
  received in that run. Either it is the text of an install request without a transfer, which
  splits into install, options \<^verbatim>\<open>-r\<close> or \<^verbatim>\<open>-s\<close>, and one package with
  a supported suffix. Or it is the word uninstall with the words of an uninstall request, options
  \<^verbatim>\<open>-k\<close> or \<^verbatim>\<open>-s\<close> and one bundle without a slash; it splits into
  these words again when the bundle has neither blanks nor quotes (the words are joined without
  quotes, so a bundle with a blank arrives as several words). Neither of the two holds a control
  or shell character. Or it is the install command for a package that was announced as an
  uncompressed install with these options, for the path of that package's name, which has no
  separator and a supported suffix, in a directory of a temporary file that the bridge made.\<close>

theorem app_commands_were_checked:
  assumes "successively app_step bs" and "hd bs = NewAppBridge canOpen hasStore mx t" and "bs \<noteq> []"
    and "files_ok t" and "command \<in> set (opened_commands (ab_log (last bs)))"
  shows "(\<exists>payload pre package post. (CommandAppInit, payload) \<in> received bs
        \<and> command = trim_space (trim_nul (string_of payload))
        \<and> (\<forall>c \<in> set command. c \<notin> {CHR 0x00, CHR 0x0D, CHR 0x0A} \<union> set app_shell_chars)
        \<and> splitAppArguments command = Inr (''install'' # pre @ package # post)
        \<and> set (pre @ post) \<subseteq> {''-r'', ''-s''} \<and> \<not> has_prefix package ''-''
        \<and> (\<exists>stem suffix. to_lower package = stem @ suffix \<and> suffix \<in> {''.hap'', ''.hsp'', ''.app''}))
    \<or> (\<exists>payload args pre package post. (CommandAppUninstall, payload) \<in> received bs
        \<and> splitAppArguments (trim_space (trim_nul (string_of payload))) = Inr args
        \<and> args \<in> {pre @ package # post, ''uninstall'' # pre @ package # post}
        \<and> command = join_with '' '' (''uninstall'' # pre @ package # post)
        \<and> (\<forall>c \<in> set command. c \<notin> {CHR 0x00, CHR 0x0D, CHR 0x0A} \<union> set app_shell_chars)
        \<and> set (pre @ post) \<subseteq> {''-k'', ''-s''} \<and> \<not> has_prefix package ''-'' \<and> CHR ''/'' \<notin> set package
        \<and> (bare_word package \<longrightarrow> splitAppArguments command = Inr (''uninstall'' # pre @ package # post)))
    \<or> (\<exists>payload config opts dir. (CommandAppCheck, payload) \<in> received bs \<and> dir \<in> temp_dirs bs
        \<and> DecodeTransferConfig payload = Inr config \<and> tc_FunctionName config = ''install''
        \<and> tc_Compression config = CompressionNone \<and> uint (tc_FileSize config) \<le> mx
        \<and> splitAppArguments (tc_Options config) = Inr opts \<and> set opts \<subseteq> {''-r'', ''-s''}
        \<and> command = join_with '' '' (''install'' # opts) @ '' ''
            @ quoteCommandArg (dir @ ''/'' @ tc_OptionalName config)
        \<and> (\<forall>c \<in> set (tc_OptionalName config). c \<notin> {CHR 0x00, CHR 0x0D, CHR 0x0A, CHR ''/'', CHR 0x5C})
        \<and> (\<exists>stem suffix. to_lower (tc_OptionalName config) = stem @ suffix
             \<and> suffix \<in> {''.hap'', ''.hsp'', ''.app''}))"
proof -
  have "commands_ok bs mx (last bs)"
    using run_commands [OF assms(1,2,4), of "length bs - 1"] assms(3) by (simp add: last_conv_nth)
  then have "approved bs mx command" using assms(5) by (simp add: commands_ok_def)
  then consider (sent) payload where "(CommandAppInit, payload) \<in> received bs" "install_command payload = Inr command"
    | (removed) payload where "(CommandAppUninstall, payload) \<in> received bs" "uninstall_command payload = Inr command"
    | (built) payload config dir where "(CommandAppCheck, payload) \<in> received bs" "dir \<in> temp_dirs bs"
      "DecodeTransferConfig payload = Inr config" "validateInstallConfig mx config = None"
      "command = buildAppInstallCommand (normalizeAppOptionText (tc_Options config))
         (filepath_join dir (tc_OptionalName config))"
    unfolding approved_def by blast
  then show ?thesis
  proof cases
    case sent
    with install_command_form [OF sent(2)] show ?thesis by (intro disjI1) (elim conjE exE, intro exI conjI)
  next
    case removed
    with uninstall_command_form [OF removed(2)] show ?thesis
      by (intro disjI2 [OF disjI1]) (elim conjE exE, intro exI conjI)
  next
    case built
    with built_form [OF built(4), of dir] show ?thesis
      unfolding filepath_join_def by (intro disjI2) (elim conjE exE, intro exI conjI, simp_all)
  qed
qed

section \<open>A target that is replaced\<close>

text \<open>C39: A target that is replaced stays open. When a session has let go of the target of a running
  command, as it does when a second command of the session has attached its own in the meantime,
  the end of that command's output closes nothing: the goroutine ends, and its watchdog with it,
  while the target that was opened for it is still open. The run in \<open>App_Witnesses\<close> reaches such a
  state with a session that is open.\<close>

theorem replaced_target_stays_open:
  assumes "map_of (ab_tasks b) k = Some task" and "ak_phase task = AppReading target"
    and "ss_target (ab_heap b ! ak_session task) \<noteq> Some target"
  shows "closed_targets (ab_log (runTargetCommand_read ok payload (Some readErr) k task target b))
      = closed_targets (ab_log b)
    \<and> map_of (ab_tasks (runTargetCommand_read ok payload (Some readErr) k task target b)) k = None"
proof -
  let ?a = "ak_session task"
  let ?b = "put_session ?a (app_recordOutput payload (ab_heap b ! ?a)) b"
  have "ss_target (ab_heap ?b ! ?a) = ss_target (ab_heap b ! ?a)"
    by (cases "?a < length (ab_heap b)") (simp_all add: list_update_beyond)
  then have "finishTarget ok ?a (ak_mode task) (Some target) (ak_cleanup task) e ?b = app_release (ak_cleanup task) ?b" for e
    using assms(3) by (simp add: finishTarget_def Let_def)
  then show ?thesis
    by (cases readErr) (simp_all add: runTargetCommand_read_def Let_def)
qed

end
