(* ===== verification/App_Witnesses.thy ===== *)
theory App_Witnesses
  imports App_Properties File_Witnesses
begin

text \<open>Two small runs of the app bridge, evaluated step by step: a package of two bytes that is
  received, handed to the main HDC server and given up when the bridge closes; and two uninstall
  commands of one session of which the second replaces the target of the first.\<close>

definition app_calm :: "string option \<Rightarrow> app_env" where
  "app_calm mk = \<lparr>ae_writeOK = True, ae_mkdir = mk, ae_openOK = True, ae_short = None,
     ae_syncOK = True, ae_closeOK = True, ae_renameOK = True\<rparr>"

section \<open>A package\<close>

text \<open>A \<open>_state\<close> lemma gives the value of a state; later evaluations start from it.\<close>

definition demo_config :: TransferConfig where
  "demo_config = zero_config\<lparr>tc_FileSize := 2, tc_FunctionName := ''install'', tc_Options := ''-r'',
     tc_OptionalName := ''a.hap''\<rparr>"

definition demo_app0 :: AppBridge where
  "demo_app0 = NewAppBridge True True 100 demo_store"

definition demo_app1 :: AppBridge where
  "demo_app1 = app_Handle True (file_frame CommandAppCheck (EncodeTransferConfig demo_config)) demo_app0"

definition demo_app2 :: AppBridge where
  "demo_app2 = app_serve (app_calm (Some ''/tmp/hdc/a'')) CommandAppCheck 0 (EncodeTransferConfig demo_config) demo_app1"

lemma demo_app2_state [code]:
  "demo_app2 =
    \<lparr>ab_canOpen = True, ab_hasStore = True, ab_maxAppBytes = 100, ab_temp = \<lparr>tm_store =
    \<lparr>ts_root = ''/tmp/hdc'', ts_maxBytes = 100, ts_usedBytes = 2\<rparr>, tm_allocs =
    [\<lparr>al_directory = ''/tmp/hdc/a'', al_path = ''/tmp/hdc/a/payload'', al_file = Some \<lparr>fh_path
    = ''/tmp/hdc/a/payload'', fh_offset = 0\<rparr>, al_size = 2, al_released = False, al_closeOnce =
    False\<rparr>], tm_disk = [(''/tmp/hdc/a/payload'', [])]\<rparr>, ab_sessions = [(7, 0)], ab_heap =
    [\<lparr>ss_channelID = 7, ss_target = None, ss_closed = False, as_commandRunning = False, as_transfer =
    Some \<lparr>at_allocation = 0, at_expectedSize = 2, at_optionalName = ''a.hap'', at_options = ''-r'',
    at_receivedSize = 0\<rparr>, as_output = [], as_outputSeen = False, as_failureSeen = False\<rparr>],
    ab_closed = False, ab_handling = Returned False, ab_tasks = [], ab_launched = 0, ab_log = [FrameSent
    [72, 87, 0, 0, 1, 0, 9, 0, 0, 0, 0, 8, 7, 16, 174, 27, 24, 0, 32, 9]], ab_made = [0]\<rparr>"
  by code_simp

definition demo_app3 :: AppBridge where
  "demo_app3 = app_Handle True (file_frame CommandAppData (Payload demo_data)) demo_app2"

abbreviation demo_install :: string where
  "demo_install \<equiv> ''install -r /tmp/hdc/a/a.hap''"

definition demo_app4 :: AppBridge where
  "demo_app4 = app_serve (app_calm None) CommandAppData 0 (Payload demo_data) demo_app3"

lemma demo_app4_state [code]:
  "demo_app4 =
    \<lparr>ab_canOpen = True, ab_hasStore = True, ab_maxAppBytes = 100, ab_temp = \<lparr>tm_store =
    \<lparr>ts_root = ''/tmp/hdc'', ts_maxBytes = 100, ts_usedBytes = 2\<rparr>, tm_allocs =
    [\<lparr>al_directory = ''/tmp/hdc/a'', al_path = ''/tmp/hdc/a/a.hap'', al_file = None, al_size = 2,
    al_released = False, al_closeOnce = False\<rparr>], tm_disk = [(''/tmp/hdc/a/a.hap'', [5, 6])]\<rparr>,
    ab_sessions = [(7, 0)], ab_heap = [\<lparr>ss_channelID = 7, ss_target = None, ss_closed = False,
    as_commandRunning = True, as_transfer = None, as_output = [], as_outputSeen = False, as_failureSeen =
    False\<rparr>], ab_closed = False, ab_handling = Launching 0 1 demo_install (Some 0), ab_tasks = [],
    ab_launched = 0, ab_log = [FrameSent [72, 87, 0, 0, 1, 0, 9, 0, 0, 0, 0, 8, 7, 16, 174, 27, 24, 0, 32,
    9], ChunkStored 0 [5, 6]], ab_made = [0]\<rparr>"
  by code_simp

definition demo_app5 :: AppBridge where
  "demo_app5 = app_launch 0 appFinishModeInstall demo_install (Some 0) demo_app4"

abbreviation demo_task :: app_task where
  "demo_task \<equiv> \<lparr>ak_session = 0, ak_mode = 1, ak_command = demo_install, ak_cleanup = Some 0, ak_phase = AppOpening\<rparr>"

definition demo_app6 :: AppBridge where
  "demo_app6 = runTargetCommand_open True (AppOpened 1) 0 demo_task demo_app5"

definition demo_app7 :: AppBridge where
  "demo_app7 = runTargetCommand_read True [] (Some AppEnded) 0 (demo_task\<lparr>ak_phase := AppReading 1\<rparr>) 1 (app_Close demo_app6)"

lemma demo_app_stages:
  "ab_handling demo_app0 = Returned False"
  "ab_handling demo_app1 = Serving CommandAppCheck 0 (EncodeTransferConfig demo_config)"
  "ab_handling demo_app2 = Returned False"
  "ab_handling demo_app3 = Serving CommandAppData 0 (Payload demo_data)"
  "ab_handling demo_app4 = Launching 0 1 demo_install (Some 0)"
  "ab_tasks demo_app5 = [(0, demo_task)]"
  by code_simp+

lemma demo_app_steps:
  "app_step demo_app0 demo_app1" "app_step demo_app1 demo_app2" "app_step demo_app2 demo_app3"
  "app_step demo_app3 demo_app4" "app_step demo_app4 demo_app5"
proof -
  have t1: "ab_temp demo_app1 = demo_store" by code_simp
  show "app_step demo_app0 demo_app1"
    unfolding demo_app1_def by (rule app_step.own_step [OF app_own_step.receives [OF demo_app_stages(1)]])
  show "app_step demo_app1 demo_app2"
    unfolding demo_app2_def
    by (intro app_step.own_step app_own_step.serves demo_app_stages) (simp add: app_calm_def t1 demo_dir)
  show "app_step demo_app2 demo_app3"
    unfolding demo_app3_def by (rule app_step.own_step [OF app_own_step.receives [OF demo_app_stages(3)]])
  show "app_step demo_app3 demo_app4"
    unfolding demo_app4_def
    by (intro app_step.own_step app_own_step.serves demo_app_stages) (simp add: app_calm_def)
  show "app_step demo_app4 demo_app5"
    unfolding demo_app5_def by (intro app_step.own_step app_own_step.launches demo_app_stages)
qed

lemma demo_app_run: "app_steps (NewAppBridge True True 100 demo_store) demo_app5"
  using demo_app_steps unfolding demo_app0_def [symmetric] by simp

lemma app_installs_exact_bytes_witness:
  "file_content (currentPath 0 (ab_temp demo_app5)) (ab_temp demo_app5) = [5, 6]"
proof -
  have k: "map_of (ab_tasks demo_app5) 0 = Some demo_task" by (simp add: demo_app_stages)
  have "stored_bytes 0 (ab_log demo_app5) = [5, 6]" by code_simp
  with app_installs_exact_bytes [OF demo_app_run demo_store_files k, of 0] show ?thesis by simp
qed

lemma demo_app_end:
  "app_step demo_app5 demo_app6" "app_step demo_app6 (app_Close demo_app6)"
  "app_step (app_Close demo_app6) demo_app7"
proof -
  have "map_of (ab_tasks demo_app5) 0 = Some demo_task" by (simp add: demo_app_stages)
  then show "app_step demo_app5 demo_app6"
    unfolding demo_app6_def by (intro app_step.own_step app_own_step.opens) simp_all
  show "app_step demo_app6 (app_Close demo_app6)"
    by (intro app_step.own_step app_own_step.closes_bridge)
  have "ab_tasks (app_Close demo_app6) = [(0, demo_task\<lparr>ak_phase := AppReading 1\<rparr>)]" by code_simp
  then show "app_step (app_Close demo_app6) demo_app7"
    unfolding demo_app7_def by (intro app_step.own_step app_own_step.reads) simp_all
qed

lemma demo_app_closed: "app_steps (NewAppBridge True True 100 demo_store) demo_app7"
  using demo_app_run demo_app_end by simp

definition demo_trace :: "AppBridge list" where
  "demo_trace = [demo_app0, demo_app1, demo_app2, demo_app3, demo_app4, demo_app5, demo_app6,
     app_Close demo_app6, demo_app7]"

lemma app_close_leaves_nothing_witness:
  "ab_made demo_app7 = [0] \<and> al_released (al_at (ab_temp demo_app7) 0)"
proof -
  have st: "ab_closed demo_app7" "ab_handling demo_app7 = Returned False" "ab_tasks demo_app7 = []" by code_simp+
  have "ab_made demo_app7 = [0]" by code_simp
  with app_close_leaves_nothing [OF demo_app_closed demo_store_files st] show ?thesis by simp
qed

lemma app_commands_were_checked_witness:
  "(\<exists>payload. (CommandAppInit, payload) \<in> received demo_trace)
    \<or> (\<exists>payload. (CommandAppUninstall, payload) \<in> received demo_trace)
    \<or> (\<exists>payload config opts dir. (CommandAppCheck, payload) \<in> received demo_trace
         \<and> dir \<in> temp_dirs demo_trace \<and> DecodeTransferConfig payload = Inr config
         \<and> demo_install = join_with '' '' (''install'' # opts) @ '' ''
             @ quoteCommandArg (dir @ ''/'' @ tc_OptionalName config))"
proof -
  have run: "successively app_step demo_trace"
    using demo_app_steps demo_app_end by (simp add: demo_trace_def)
  have start: "hd demo_trace = NewAppBridge True True 100 demo_store" and ne: "demo_trace \<noteq> []"
    by (simp_all add: demo_trace_def demo_app0_def)
  have "opened_commands (ab_log demo_app7) = [demo_install]" by code_simp
  then have "demo_install \<in> set (opened_commands (ab_log (last demo_trace)))"
    by (simp add: demo_trace_def)
  from app_commands_were_checked [OF run start ne demo_store_files this] show ?thesis
    by (elim disjE exE conjE) blast+
qed

section \<open>A replaced target\<close>

definition demo_remove :: bytes where
  "demo_remove = bytes_of ''uninstall com.a''"

definition removal :: "AppBridge \<Rightarrow> AppBridge" where
  "removal b = app_serve (app_calm None) CommandAppUninstall 0 demo_remove
     (app_Handle True (file_frame CommandAppUninstall demo_remove) b)"

definition removal_task :: app_task where
  "removal_task = \<lparr>ak_session = 0, ak_mode = 2, ak_command = ''uninstall com.a'', ak_cleanup = None, ak_phase = AppOpening\<rparr>"

definition demo_twice0 :: AppBridge where
  "demo_twice0 = app_launch 0 2 ''uninstall com.a'' None (removal demo_app0)"

lemma demo_twice0_state [code]:
  "demo_twice0 =
    \<lparr>ab_canOpen = True, ab_hasStore = True, ab_maxAppBytes = 100, ab_temp = \<lparr>tm_store =
    \<lparr>ts_root = ''/tmp/hdc'', ts_maxBytes = 100, ts_usedBytes = 0\<rparr>, tm_allocs = [], tm_disk =
    []\<rparr>, ab_sessions = [(7, 0)], ab_heap = [\<lparr>ss_channelID = 7, ss_target = None, ss_closed =
    False, as_commandRunning = True, as_transfer = None, as_output = [], as_outputSeen = False,
    as_failureSeen = False\<rparr>], ab_closed = False, ab_handling = Returned False, ab_tasks = [(0,
    \<lparr>ak_session = 0, ak_mode = 2, ak_command = ''uninstall com.a'', ak_cleanup = None, ak_phase =
    AppOpening\<rparr>)], ab_launched = 1, ab_log = [], ab_made = []\<rparr>"
  by code_simp

definition demo_twice1 :: AppBridge where
  "demo_twice1 = protocolFailure True 0 1 failAppInvalidRequest
     (app_serve (app_calm None) CommandAppInit 0 [] (app_Handle True (file_frame CommandAppInit []) demo_twice0))"

lemma demo_twice1_state [code]:
  "demo_twice1 =
    \<lparr>ab_canOpen = True, ab_hasStore = True, ab_maxAppBytes = 100, ab_temp = \<lparr>tm_store =
    \<lparr>ts_root = ''/tmp/hdc'', ts_maxBytes = 100, ts_usedBytes = 0\<rparr>, tm_allocs = [], tm_disk =
    []\<rparr>, ab_sessions = [(7, 0)], ab_heap = [\<lparr>ss_channelID = 7, ss_target = None, ss_closed =
    False, as_commandRunning = False, as_transfer = None, as_output = [], as_outputSeen = False,
    as_failureSeen = False\<rparr>], ab_closed = False, ab_handling = Returned False, ab_tasks = [(0,
    \<lparr>ak_session = 0, ak_mode = 2, ak_command = ''uninstall com.a'', ak_cleanup = None, ak_phase =
    AppOpening\<rparr>)], ab_launched = 1, ab_log = [FrameSent [72, 87, 0, 0, 1, 0, 9, 0, 0, 0, 32, 8, 7,
    16, 176, 27, 24, 0, 32, 9, 1, 0, 91, 70, 97, 105, 108, 93, 32, 65, 112, 112, 32, 114, 101, 113, 117,
    101, 115, 116, 32, 105, 115, 32, 105, 110, 118, 97, 108, 105, 100, 46]], ab_made = []\<rparr>"
  by code_simp

definition demo_twice2 :: AppBridge where
  "demo_twice2 = app_launch 0 2 ''uninstall com.a'' None (removal demo_twice1)"

lemma demo_twice2_state [code]:
  "demo_twice2 =
    \<lparr>ab_canOpen = True, ab_hasStore = True, ab_maxAppBytes = 100, ab_temp = \<lparr>tm_store =
    \<lparr>ts_root = ''/tmp/hdc'', ts_maxBytes = 100, ts_usedBytes = 0\<rparr>, tm_allocs = [], tm_disk =
    []\<rparr>, ab_sessions = [(7, 0)], ab_heap = [\<lparr>ss_channelID = 7, ss_target = None, ss_closed =
    False, as_commandRunning = True, as_transfer = None, as_output = [], as_outputSeen = False,
    as_failureSeen = False\<rparr>], ab_closed = False, ab_handling = Returned False, ab_tasks = [(0,
    \<lparr>ak_session = 0, ak_mode = 2, ak_command = ''uninstall com.a'', ak_cleanup = None, ak_phase =
    AppOpening\<rparr>), (1, \<lparr>ak_session = 0, ak_mode = 2, ak_command = ''uninstall com.a'',
    ak_cleanup = None, ak_phase = AppOpening\<rparr>)], ab_launched = 2, ab_log = [FrameSent [72, 87, 0, 0,
    1, 0, 9, 0, 0, 0, 32, 8, 7, 16, 176, 27, 24, 0, 32, 9, 1, 0, 91, 70, 97, 105, 108, 93, 32, 65, 112, 112,
    32, 114, 101, 113, 117, 101, 115, 116, 32, 105, 115, 32, 105, 110, 118, 97, 108, 105, 100, 46]], ab_made
    = []\<rparr>"
  by code_simp

definition demo_twice3 :: AppBridge where
  "demo_twice3 = runTargetCommand_open True (AppOpened 1) 0 removal_task demo_twice2"

definition demo_twice4 :: AppBridge where
  "demo_twice4 = runTargetCommand_open True (AppOpened 2) 1 removal_task demo_twice3"

lemma removal_steps:
  assumes "ab_handling b = Returned False"
    "ab_handling (app_Handle True (file_frame CommandAppUninstall demo_remove) b) = Serving CommandAppUninstall 0 demo_remove"
    "ab_handling (removal b) = Launching 0 2 ''uninstall com.a'' None"
  shows "app_steps b (app_launch 0 2 ''uninstall com.a'' None (removal b))"
proof -
  have "app_step b (app_Handle True (file_frame CommandAppUninstall demo_remove) b)"
    by (rule app_step.own_step [OF app_own_step.receives [OF assms(1)]])
  moreover have "app_step (app_Handle True (file_frame CommandAppUninstall demo_remove) b) (removal b)"
    unfolding removal_def by (intro app_step.own_step app_own_step.serves assms) (simp add: app_calm_def)
  moreover have "app_step (removal b) (app_launch 0 2 ''uninstall com.a'' None (removal b))"
    by (intro app_step.own_step app_own_step.launches assms)
  ultimately show ?thesis by simp
qed

lemma demo_twice_run: "app_steps (NewAppBridge True True 100 demo_store) demo_twice4"
proof -
  have r0: "ab_handling demo_app0 = Returned False"
    "ab_handling (app_Handle True (file_frame CommandAppUninstall demo_remove) demo_app0) = Serving CommandAppUninstall 0 demo_remove"
    "ab_handling (removal demo_app0) = Launching 0 2 ''uninstall com.a'' None" by code_simp+
  have f: "ab_handling demo_twice0 = Returned False"
    "ab_handling (app_Handle True (file_frame CommandAppInit []) demo_twice0) = Serving CommandAppInit 0 []"
    "ab_handling (app_serve (app_calm None) CommandAppInit 0 [] (app_Handle True (file_frame CommandAppInit []) demo_twice0))
      = Failing 0 1 failAppInvalidRequest" by code_simp+
  have r1: "ab_handling demo_twice1 = Returned False"
    "ab_handling (app_Handle True (file_frame CommandAppUninstall demo_remove) demo_twice1) = Serving CommandAppUninstall 0 demo_remove"
    "ab_handling (removal demo_twice1) = Launching 0 2 ''uninstall com.a'' None" by code_simp+
  have k: "map_of (ab_tasks demo_twice2) 0 = Some removal_task" "map_of (ab_tasks demo_twice3) 1 = Some removal_task"
    by code_simp+
  have p: "ak_phase removal_task = AppOpening" by (simp add: removal_task_def)
  have "app_steps demo_app0 demo_twice0" unfolding demo_twice0_def by (rule removal_steps [OF r0])
  moreover have "app_step demo_twice0 (app_Handle True (file_frame CommandAppInit []) demo_twice0)"
    by (rule app_step.own_step [OF app_own_step.receives [OF f(1)]])
  moreover have "app_step (app_Handle True (file_frame CommandAppInit []) demo_twice0)
      (app_serve (app_calm None) CommandAppInit 0 [] (app_Handle True (file_frame CommandAppInit []) demo_twice0))"
    by (intro app_step.own_step app_own_step.serves f) (simp add: app_calm_def)
  moreover have "app_step (app_serve (app_calm None) CommandAppInit 0 []
      (app_Handle True (file_frame CommandAppInit []) demo_twice0)) demo_twice1"
    unfolding demo_twice1_def by (intro app_step.own_step app_own_step.fails f)
  moreover have "app_steps demo_twice1 demo_twice2" unfolding demo_twice2_def by (rule removal_steps [OF r1])
  moreover have "app_step demo_twice2 demo_twice3"
    unfolding demo_twice3_def by (intro app_step.own_step app_own_step.opens k p)
  moreover have "app_step demo_twice3 demo_twice4"
    unfolding demo_twice4_def by (intro app_step.own_step app_own_step.opens k p)
  ultimately show ?thesis unfolding demo_app0_def by simp
qed

text \<open>The first target of the run is opened and never closed.\<close>

lemma replaced_target_stays_open_witness:
  "app_steps (NewAppBridge True True 100 demo_store) demo_twice4
   \<and> 1 \<in> opened_targets (ab_log demo_twice4)
   \<and> 1 \<notin> closed_targets (ab_log (runTargetCommand_read True [] (Some AppEnded) 0
       (removal_task\<lparr>ak_phase := AppReading 1\<rparr>) 1 demo_twice4))"
proof -
  have k: "map_of (ab_tasks demo_twice4) 0 = Some (removal_task\<lparr>ak_phase := AppReading 1\<rparr>)" by code_simp
  have "ss_target (ab_heap demo_twice4 ! 0) = Some 2" by code_simp
  then have ne: "ss_target (ab_heap demo_twice4 ! ak_session (removal_task\<lparr>ak_phase := AppReading 1\<rparr>)) \<noteq> Some 1"
    by (simp add: removal_task_def)
  have "list_ex (\<lambda>e. e = TargetOpened 1 ''uninstall com.a'') (ab_log demo_twice4)"
    "list_all (\<lambda>e. e \<noteq> TargetClosed 1) (ab_log demo_twice4)" by code_simp+
  then have "1 \<in> opened_targets (ab_log demo_twice4)" "1 \<notin> closed_targets (ab_log demo_twice4)"
    by (auto simp: opened_targets_def closed_targets_def list_ex_iff list_all_iff)
  then show ?thesis
    using demo_twice_run replaced_target_stays_open [OF k _ ne, of True "[]" AppEnded] by simp
qed

end
