(* ===== verification/Spec2Isabelle.thy ===== *)
theory Spec2Isabelle
  imports Handshake Transfer_Codec Policy Session_Safety Listener Port_Pool Binding_Store Host_Client
    Device_Registry Manager_Witnesses Unity_Bridge File_Witnesses Forward_Properties Audit_Sink
    App_Witnesses
begin

text \<open>
  A verification library for hdc-remote-kit, the gateway that gives remote HDC clients access to
  USB devices attached to one machine. Paths below are relative to \<^verbatim>\<open>src/internal\<close>.

  \<^bold>\<open>The program.\<close> A device registry polls the local HDC server for devices (\<^verbatim>\<open>device\<close>,
  \<^verbatim>\<open>hdc\<close>). The remote access manager (\<^verbatim>\<open>remote/manager.go\<close>) gives each online
  device a lease: it takes a port from the pool (\<^verbatim>\<open>remote/ports.go\<close>), keeps the pair of device
  and port as a binding that survives restarts (\<^verbatim>\<open>store/bindings.go\<close>) and tells the gateway
  (\<^verbatim>\<open>gateway/gateway.go\<close>) to listen on the port for the sources the lease allows. A client
  that connects speaks the daemon protocol (\<^verbatim>\<open>protocol\<close>): it must prove a key the host
  registry trusts or the operator approves (\<^verbatim>\<open>hostauth\<close>); its shell text passes the command
  policy (\<^verbatim>\<open>policy\<close>); its file, unity, app and forward frames go to a bridge
  (\<^verbatim>\<open>bridge\<close>) that opens channels on the local HDC server and copies data both ways.

  \<^bold>\<open>The theories, bottom up.\<close>
  \<^item> Prelude: bytes, strings and the Go library functions on them, Go maps, and the locales
    \<open>invariant_machine\<close> (operations as functions) and \<open>keyed_table\<close>.
  \<^item> Wire, Catalog, Frame, Handshake, Transfer_Codec: \<^verbatim>\<open>protocol/daemon.go\<close>,
    \<^verbatim>\<open>command_catalog.go\<close>, \<^verbatim>\<open>transfer.go\<close>. The decoding loops over fields share the
    locale \<open>message_loop\<close>. Proved: what is encoded is decoded, exactly; the closing exchange
    of a channel ends.
  \<^item> Shell_Lexer, Policy: \<^verbatim>\<open>policy/shell.go\<close> and \<^verbatim>\<open>policy.go\<close>, the scanner as a
    state machine on a record of its local variables. Proved: power commands, inline shells and
    the removal of critical paths (spelled out there, one leading slash) are denied wherever they
    stand in a text the scanner reads as the device does; a policy with more entries denies more.
  \<^item> Host_Auth: \<^verbatim>\<open>hostauth/crypto.go\<close>, \<^verbatim>\<open>store.go\<close>, \<^verbatim>\<open>registry.go\<close>. Proved: the
    registry's invariant, only an operator's allow-forever adds a trusted key, the hand-written
    RSA decryption is the inverse of encryption up to padding. \<open>Decide\<close> and \<open>Revoke\<close> are
    atomic with their saves in the invariant; the relation \<open>host_step\<close> splits them into the
    locked section, the save, the answer and the record of the event, and carries the race on
    disk: saves in the order of their snapshots keep the file in step with memory, the order the
    code allows does not.
  \<^item> Connection, Session_Safety: \<open>daemonConnection\<close> of \<^verbatim>\<open>gateway.go\<close>, \<^verbatim>\<open>handshake.go\<close>
    and \<^verbatim>\<open>audit.go\<close> as a state, events and a log of effects. Proved over every sequence of
    events: nothing reaches the device before the handshake is accepted; acceptance rests on three
    frames in order, whose contents carry the identity that was approved and the signature that
    was verified. The log has every shell that opened, with the text sent, and every text written
    to one, with the session, so \<open>shell_text\<close> reads off it what was typed to a session: each
    text was inspected behind the line it continues.
  \<^item> Model, Netip, Config, Config_Properties: \<^verbatim>\<open>model/model.go\<close>, the address functions the code
    calls, and \<^verbatim>\<open>config\<close> with the limits an accepted configuration keeps.
  \<^item> Listener: the part of \<^verbatim>\<open>gateway.go\<close> that binds, unbinds and admits. Port_Pool and
    Binding_Store: \<^verbatim>\<open>remote/ports.go\<close> and \<^verbatim>\<open>store/bindings.go\<close>, the latter down to the file
    operations of a save and the state each crash leaves. Device_Registry and Host_Client:
    \<^verbatim>\<open>device/registry.go\<close>, \<^verbatim>\<open>hdc/host.go\<close> and \<^verbatim>\<open>hdc/channel.go\<close>.
  \<^item> Manager, Manager_Invariant, Manager_Safety, Manager_Properties, Manager_Progress,
    Manager_Witnesses: \<^verbatim>\<open>remote/manager.go\<close> composed with the gateway, the pool, the store and
    the registry. Proved over every reachable manager: leases and listeners correspond, bindings
    are stable, expired access is withdrawn, an online device gets access, a restart restores
    the bindings, \<open>Close\<close> shuts everything down.
  \<^item> Temp_Store, Temp_Files: \<^verbatim>\<open>bridge/temp_store.go\<close>, split at its locked sections. Proved: a
    refinement of a ledger of reservations, and that closing an allocation touches no other file.
  \<^item> Bridge_Common, Unity_Bridge, File_Commands, File_Bridge, File_Invariant, File_Properties,
    File_Witnesses: \<^verbatim>\<open>bridge/util.go\<close>, \<^verbatim>\<open>unity.go\<close> and \<^verbatim>\<open>file.go\<close>. The locale
    \<open>target_keeper\<close> is the contract of a bridge towards the HDC server (what was opened is held
    or closed). Proved: an upload sends exactly the accepted bytes, a replay delivers the file,
    commands have exactly their words, nothing is left after \<open>Close\<close>.
  \<^item> Forward_Commands, Forward_Bridge, Forward_Invariant, Forward_Steps, Forward_Properties:
    \<^verbatim>\<open>bridge/forward.go\<close> and \<^verbatim>\<open>forward_reverse.go\<close>. A handler is one step and dialling a step
    of its own; the goroutines are the entries of \<open>wb_running\<close>, the sockets those of
    \<open>wb_net\<close>, and \<open>tracks\<close> relates a table of the bridge to the goroutines that serve
    its entries, apart from those a step is about to touch. Proved: what an endpoint says is what
    is sent, the kit dials only a port it confirmed, data of a channel reaches its own
    connection, \<open>Close\<close> leaves no socket and no target.
  \<^item> Session_Table: what the invariants of the bridges share, the table of open sessions and the
    effects of the store's operations.
  \<^item> App_Commands: the texts of \<^verbatim>\<open>bridge/app.go\<close>. Proved: the command built for an
    the command built for an
    accepted package has exactly the words that were meant; what an uninstall request smuggles,
    and that a single quote in a package name breaks its command.
  \<^item> App_Bridge, App_Ledger, App_Invariant, App_Steps, App_Properties, App_Witnesses: the sessions
    and goroutines of \<^verbatim>\<open>bridge/app.go\<close>. \<open>ab_handling\<close> says between which two locked
    sections the handling of a frame stands; \<open>ledger_ok\<close> gives every temporary file exactly one
    owner, a session, the handling or a goroutine. Proved: the installed file holds exactly the
    accepted bytes, \<open>Close\<close> leaves no file, each command that is opened comes from a payload
    that the run received and the checks accepted, and a target that a second command replaces is
    never closed.
  \<^item> Audit_Sink: \<^verbatim>\<open>audit/sink.go\<close>, \<open>Record\<close> in two steps (the check and the send), the
    goroutine one step per event; history fields keep what was handed over, written and failed.
    Proved: every event is accounted for, a gap is reported, the file stays bounded, and an audit
    file lost at a rotation is never opened again.

  \<^bold>\<open>How state and concurrency are modelled.\<close> A struct is a record, a Go map an association list
  with distinct keys (its order is the iteration order of one run; every theorem holds for all),
  an error a value. Objects shared by goroutines live in a heap, a list addressed by position.
  A goroutine is an entry of a table that says which call it is in. A handler that runs without
  releasing a lock, or whose locked sections other goroutines cannot tell apart, is one step; the
  manager, the port pool and the temporary store are split at every locked section, the app
  bridge at those of its own two locks, and events of other goroutines run in the windows between
  them. Answers of the operating system, of the HDC server and of the client (write succeeded,
  port free, bytes read, time) are arguments, so every theorem holds for all answers. What is done to the outside is appended to a log.

  \<^bold>\<open>Parameters.\<close> SHA-256 and the PSS check, the JSON codec of the two snapshots and that of
  audit events, the random ids and the duration parser are arguments of the definitions that use
  them; where a theorem needs more of them than that they are functions (a JSON round trip, fresh
  ids), the assumption is named in the statement and met by a concrete instance in the witness.

  \<^bold>\<open>Termination and bounds.\<close> Every loop of the code that is bounded by its input is a total
  function with a measure. Loops that run for the life of the process (accepting, polling, reading
  a connection) are runs of steps of any length. No definition of a model uses fuel; the
  exchange of closing frames, which the code leaves to two parties, is counted against a bound and
  shown to stop at the number in the first frame. Machine integers are words where the code's
  width matters (frame sizes, varints, transfer sizes) and \<open>int\<close> where the configuration bounds
  them; the bounds are proved in Config_Properties.

  \<^bold>\<open>Not modelled.\<close> \<^verbatim>\<open>web\<close> and \<^verbatim>\<open>cmd\<close> route HTTP requests and start the parts; the
  operations they call are modelled. \<^verbatim>\<open>logging/text.go\<close> formats log lines. A connection
  hands frames to the bridges and events to the audit sink as effects; that they arrive there in
  this order is not a theorem. Time-outs of sockets, the buffering of the operating system, Go's
  scheduler and its memory model are represented only by the freedom of the step relations. Case
  folding is that of ASCII. Sources of connections are TCP addresses. The last part of a pass, over
  the bindings, sees one state of the devices; a download settles within its reservation; the end
  of a download and the two checks before a dialling are one step each.
\<close>

end
